(* ===== verification/Prelude.thy ===== *)
theory Prelude
  imports Main "HOL-Library.Word"
begin

text \<open>
  Shared vocabulary of the development: the widths of the Rust integer types, the outcome of a
  fallible computation (\<open>Result\<close> plus the possibility of a panic), the state-passing programs
  built from it, and the generic lemmas on lists and options the component theories use.

  A Rust function that takes \<open>&mut self\<close> and returns \<open>Result<T, E>\<close> is a \<open>prog\<close>: it takes the
  state and returns the outcome together with the state it leaves behind. The state is returned
  on the error branch too, because the code leaves its earlier mutations in place when it returns
  early with an error. A panic (an index out of range, an \<open>expect\<close> on \<open>None\<close>) is the third
  outcome; it is never confused with an error the code returns.
\<close>

named_theorems prog_simps \<open>unfolding of the program combinators\<close>
named_theorems wf_intros \<open>preservation of well-formedness by the operations\<close>
named_theorems wp_intros \<open>backward rules for the safety of programs\<close>
named_theorems safe_rules \<open>operations known to be safe\<close>
named_theorems frame_simps \<open>what an operation leaves unchanged\<close>

section \<open>Rust integer types\<close>

text \<open>
  \<open>usize\<close> values that count or index things in memory are \<open>nat\<close>; the fixed-width integers that the
  code shifts, hashes, casts or lets wrap are words. A signed integer is the word of its two's
  complement representation and is read with \<open>sint\<close>.
\<close>

type_synonym u8 = "8 word"
type_synonym u16 = "16 word"
type_synonym u32 = "32 word"
type_synonym u64 = "64 word"
type_synonym i32 = "32 word"
type_synonym i64 = "64 word"
type_synonym usize = nat

definition usize_max :: nat where
  "usize_max = 18446744073709551615"

section \<open>Outcomes and programs\<close>

datatype ('e, 'a) outcome = Ok 'a | Err 'e | Panic

type_synonym ('s, 'e, 'a) prog = "'s \<Rightarrow> ('e, 'a) outcome \<times> 's"

definition ret :: "'a \<Rightarrow> ('s, 'e, 'a) prog" where
  [prog_simps]: "ret x s = (Ok x, s)"

definition throw :: "'e \<Rightarrow> ('s, 'e, 'a) prog" where
  [prog_simps]: "throw e s = (Err e, s)"

definition panic :: "('s, 'e, 'a) prog" where
  [prog_simps]: "panic s = (Panic, s)"

definition bind :: "('s, 'e, 'a) prog \<Rightarrow> ('a \<Rightarrow> ('s, 'e, 'b) prog) \<Rightarrow> ('s, 'e, 'b) prog" where
  "bind m f s = (case m s of (Ok x, s') \<Rightarrow> f x s' | (Err e, s') \<Rightarrow> (Err e, s') | (Panic, s') \<Rightarrow> (Panic, s'))"

definition get_state :: "('s, 'e, 's) prog" where
  [prog_simps]: "get_state s = (Ok s, s)"

definition gets :: "('s \<Rightarrow> 'a) \<Rightarrow> ('s, 'e, 'a) prog" where
  [prog_simps]: "gets f s = (Ok (f s), s)"

definition modify :: "('s \<Rightarrow> 's) \<Rightarrow> ('s, 'e, unit) prog" where
  [prog_simps]: "modify f s = (Ok (), f s)"

text \<open>\<open>option.ok_or(e)?\<close>, and \<open>option.expect(..)\<close> or indexing.\<close>

definition ok_or :: "'e \<Rightarrow> 'a option \<Rightarrow> ('s, 'e, 'a) prog" where
  "ok_or e opt = (case opt of Some x \<Rightarrow> ret x | None \<Rightarrow> throw e)"

definition expect :: "'a option \<Rightarrow> ('s, 'e, 'a) prog" where
  "expect opt = (case opt of Some x \<Rightarrow> ret x | None \<Rightarrow> panic)"

text \<open>A pure \<open>Result\<close> used as a program.\<close>

definition lift_result :: "'e + 'a \<Rightarrow> ('s, 'e, 'a) prog" where
  "lift_result r = (case r of Inl e \<Rightarrow> throw e | Inr x \<Rightarrow> ret x)"

text \<open>A \<open>for\<close> loop with \<open>?\<close> in its body.\<close>

fun for_each :: "'a list \<Rightarrow> ('a \<Rightarrow> ('s, 'e, unit) prog) \<Rightarrow> ('s, 'e, unit) prog" where
  "for_each [] f = ret ()"
| "for_each (x # xs) f = bind (f x) (\<lambda>_. for_each xs f)"

text \<open>The same without a state: a function that builds a value and may return early.\<close>

fun obind :: "('e, 'a) outcome \<Rightarrow> ('a \<Rightarrow> ('e, 'b) outcome) \<Rightarrow> ('e, 'b) outcome" where
  "obind (Ok x) f = f x"
| "obind (Err e) f = Err e"
| "obind Panic f = Panic"

fun ofold :: "('a \<Rightarrow> 'b \<Rightarrow> ('e, 'b) outcome) \<Rightarrow> 'a list \<Rightarrow> 'b \<Rightarrow> ('e, 'b) outcome" where
  "ofold f [] b = Ok b"
| "ofold f (x # xs) b = obind (f x b) (ofold f xs)"

definition o_ok_or :: "'e \<Rightarrow> 'a option \<Rightarrow> ('e, 'a) outcome" where
  "o_ok_or e opt = (case opt of Some x \<Rightarrow> Ok x | None \<Rightarrow> Err e)"

definition o_expect :: "'a option \<Rightarrow> ('e, 'a) outcome" where
  "o_expect opt = (case opt of Some x \<Rightarrow> Ok x | None \<Rightarrow> Panic)"

lemma obind_eq_Ok: "obind m f = Ok y \<longleftrightarrow> (\<exists>x. m = Ok x \<and> f x = Ok y)"
  by (cases m) auto

lemma obind_eq_Panic: "obind m f = Panic \<longleftrightarrow> m = Panic \<or> (\<exists>x. m = Ok x \<and> f x = Panic)"
  by (cases m) auto

lemma o_ok_or_eq [simp]:
  "o_ok_or e opt = Ok x \<longleftrightarrow> opt = Some x" "o_ok_or e opt \<noteq> Panic"
  by (auto simp: o_ok_or_def split: option.splits)

lemma o_expect_eq [simp]: "o_expect opt = Ok x \<longleftrightarrow> opt = Some x" "o_expect opt = Panic \<longleftrightarrow> opt = None"
  by (auto simp: o_expect_def split: option.splits)

lemma ofold_induct:
  assumes "ofold f xs b = Ok c" "P b" "\<And>x b c. x \<in> set xs \<Longrightarrow> P b \<Longrightarrow> f x b = Ok c \<Longrightarrow> P c"
  shows "P c"
  using assms by (induction xs arbitrary: b) (auto simp: obind_eq_Ok)

lemma ofold_no_panic:
  assumes "P b" "\<And>x b. x \<in> set xs \<Longrightarrow> P b \<Longrightarrow> f x b \<noteq> Panic"
    "\<And>x b c. x \<in> set xs \<Longrightarrow> P b \<Longrightarrow> f x b = Ok c \<Longrightarrow> P c"
  shows "ofold f xs b \<noteq> Panic"
  using assms
proof (induction xs arbitrary: b)
  case (Cons a xs)
  have "ofold f xs c \<noteq> Panic" if "f a b = Ok c" for c
  proof (rule Cons.IH)
    show "P c" by (rule Cons.prems(3) [OF _ Cons.prems(1) that]) simp
    show "f x b \<noteq> Panic" if "x \<in> set xs" "P b" for x b using Cons.prems(2) that by simp
    show "P d" if "x \<in> set xs" "P b" "f x b = Ok d" for x b d using Cons.prems(3) [of x b d] that by simp
  qed
  then show ?case using Cons.prems(1,2) by (auto simp: obind_eq_Panic)
qed simp

lemma bind_simps [prog_simps]:
  "m s = (Ok x, s') \<Longrightarrow> bind m f s = f x s'"
  "m s = (Err e, s') \<Longrightarrow> bind m f s = (Err e, s')"
  "m s = (Panic, s') \<Longrightarrow> bind m f s = (Panic, s')"
  by (simp_all add: bind_def)

lemma bind_ret [simp]: "bind (ret x) f = f x"
  by (rule ext) (simp add: bind_def ret_def)

lemma bind_throw [simp]: "bind (throw e) f = throw e"
  by (rule ext) (simp add: bind_def throw_def)

lemma bind_panic [simp]: "bind panic f = panic"
  by (rule ext) (simp add: bind_def panic_def)

lemma bind_assoc: "bind (bind m f) g = bind m (\<lambda>x. bind (f x) g)"
  by (rule ext) (simp add: bind_def split: prod.splits outcome.splits)

lemma ok_or_simps [simp]:
  "ok_or e (Some x) = ret x" "ok_or e None = throw e"
  by (simp_all add: ok_or_def)

lemma expect_simps [simp]:
  "expect (Some x) = ret x" "expect None = panic"
  by (simp_all add: expect_def)

lemma lift_result_simps [simp]:
  "lift_result (Inl e) = throw e" "lift_result (Inr x) = ret x"
  by (simp_all add: lift_result_def)

lemma bind_OkE:
  assumes "bind m f s = (Ok y, s'')"
  obtains x s' where "m s = (Ok x, s')" "f x s' = (Ok y, s'')"
  using assms by (auto simp: bind_def split: prod.splits outcome.splits)

subsection \<open>Safety of programs\<close>

text \<open>
  \<open>safe P Q m\<close>: started in a state of \<open>P\<close>, the program \<open>m\<close> does not panic, it leaves a state of \<open>P\<close>
  whatever its outcome, and a value it returns satisfies \<open>Q\<close>.
\<close>

definition safe :: "('s \<Rightarrow> bool) \<Rightarrow> ('a \<Rightarrow> bool) \<Rightarrow> ('s, 'e, 'a) prog \<Rightarrow> bool" where
  "safe P Q m \<longleftrightarrow>
     (\<forall>s. P s \<longrightarrow> P (snd (m s)) \<and> fst (m s) \<noteq> Panic \<and> (\<forall>x. fst (m s) = Ok x \<longrightarrow> Q x))"

abbreviation anything :: "'a \<Rightarrow> bool" where
  "anything \<equiv> \<lambda>_. True"

lemma safeD:
  assumes "safe P Q m" "P s"
  shows "P (snd (m s))" "fst (m s) \<noteq> Panic" "\<And>x. fst (m s) = Ok x \<Longrightarrow> Q x"
  using assms by (auto simp: safe_def)

text \<open>
  Safety is proved backwards: \<open>wp m R E s\<close> says that \<open>m\<close>, started in \<open>s\<close>, returns into \<open>R\<close> or fails
  into \<open>E\<close>. Each combinator has a rule in \<open>wp_intros\<close>; an operation whose safety is already known is
  stepped over with \<open>wp_safe\<close>.
\<close>

definition wp :: "('s, 'e, 'a) prog \<Rightarrow> ('a \<Rightarrow> 's \<Rightarrow> bool) \<Rightarrow> ('s \<Rightarrow> bool) \<Rightarrow> 's \<Rightarrow> bool" where
  "wp m R E s \<longleftrightarrow> (case m s of (Ok x, s') \<Rightarrow> R x s' | (Err _, s') \<Rightarrow> E s' | (Panic, _) \<Rightarrow> False)"

lemma safeI: "(\<And>s. P s \<Longrightarrow> wp m (\<lambda>x s'. P s' \<and> Q x) P s) \<Longrightarrow> safe P Q m"
proof -
  assume *: "\<And>s. P s \<Longrightarrow> wp m (\<lambda>x s'. P s' \<and> Q x) P s"
  have "P (snd (m s)) \<and> fst (m s) \<noteq> Panic \<and> (\<forall>x. fst (m s) = Ok x \<longrightarrow> Q x)" if "P s" for s
    using * [OF that] by (cases "m s"; cases "fst (m s)") (auto simp: wp_def)
  then show ?thesis by (simp add: safe_def)
qed

lemma wp_safe:
  assumes "safe P Q m" "P s" "\<And>x s'. P s' \<Longrightarrow> Q x \<Longrightarrow> R x s'"
  shows "wp m R P s"
  using safeD [OF assms(1,2)] assms(3) by (cases "m s"; cases "fst (m s)") (auto simp: wp_def)

lemma wp_bind [wp_intros]: "wp m (\<lambda>x. wp (f x) R E) E s \<Longrightarrow> wp (bind m f) R E s"
  by (cases "m s"; cases "fst (m s)") (auto simp: wp_def bind_def)

lemma wp_ret [wp_intros]: "R x s \<Longrightarrow> wp (ret x) R E s"
  by (simp add: wp_def prog_simps)

lemma wp_throw [wp_intros]: "E s \<Longrightarrow> wp (throw e) R E s"
  by (simp add: wp_def prog_simps)

lemma wp_gets [wp_intros]: "R (f s) s \<Longrightarrow> wp (gets f) R E s"
  by (simp add: wp_def prog_simps)

lemma wp_modify [wp_intros]: "R () (f s) \<Longrightarrow> wp (modify f) R E s"
  by (simp add: wp_def prog_simps)

lemma wp_ok_or [wp_intros]:
  "(\<And>x. opt = Some x \<Longrightarrow> R x s) \<Longrightarrow> (opt = None \<Longrightarrow> E s) \<Longrightarrow> wp (ok_or e opt) R E s"
  by (cases opt) (simp_all add: wp_def prog_simps)

lemma wp_expect [wp_intros]:
  "opt \<noteq> None \<Longrightarrow> (\<And>x. opt = Some x \<Longrightarrow> R x s) \<Longrightarrow> wp (expect opt) R E s"
  by (cases opt) (simp_all add: wp_def prog_simps)

lemma wp_lift_result [wp_intros]:
  "(\<And>x. r = Inr x \<Longrightarrow> R x s) \<Longrightarrow> E s \<Longrightarrow> wp (lift_result r) R E s"
  by (cases r) (simp_all add: wp_def prog_simps)

lemma wp_if [wp_intros]:
  "(b \<Longrightarrow> wp m R E s) \<Longrightarrow> (\<not> b \<Longrightarrow> wp n R E s) \<Longrightarrow> wp (if b then m else n) R E s"
  by simp

lemma wp_case_option [wp_intros]:
  "(opt = None \<Longrightarrow> wp m R E s) \<Longrightarrow> (\<And>x. opt = Some x \<Longrightarrow> wp (f x) R E s) \<Longrightarrow>
   wp (case opt of None \<Rightarrow> m | Some x \<Rightarrow> f x) R E s"
  by (cases opt) simp_all

lemma wp_case_prod [wp_intros]: "wp (f (fst p) (snd p)) R E s \<Longrightarrow> wp (case p of (a, b) \<Rightarrow> f a b) R E s"
  by (simp add: split_beta)

lemma wp_get_state [wp_intros]: "R s s \<Longrightarrow> wp get_state R E s"
  by (simp add: wp_def prog_simps)

lemma wp_mono: "wp m R E s \<Longrightarrow> (\<And>x s'. R x s' \<Longrightarrow> R' x s') \<Longrightarrow> (\<And>s'. E s' \<Longrightarrow> E' s') \<Longrightarrow> wp m R' E' s"
  by (cases "m s"; cases "fst (m s)") (auto simp: wp_def)

lemma safe_for_each:
  assumes "\<And>x. x \<in> set xs \<Longrightarrow> safe P anything (f x)"
  shows "safe P anything (for_each xs f)"
  using assms
proof (induction xs)
  case (Cons x xs)
  have "safe P anything (f x)" "safe P anything (for_each xs f)" using Cons by simp_all
  then show ?case by (auto intro!: safeI wp_intros elim!: wp_safe)
qed (auto intro!: safeI wp_intros)

section \<open>Lists and options\<close>

text \<open>\<open>slice.get(i)\<close>: bounds-checked indexing.\<close>

definition nth_opt :: "'a list \<Rightarrow> nat \<Rightarrow> 'a option" where
  "nth_opt xs i = (if i < length xs then Some (xs ! i) else None)"

lemma nth_opt_Some [simp]: "i < length xs \<Longrightarrow> nth_opt xs i = Some (xs ! i)"
  by (simp add: nth_opt_def)

lemma nth_opt_None [simp]: "length xs \<le> i \<Longrightarrow> nth_opt xs i = None"
  by (simp add: nth_opt_def)

lemma nth_opt_eq_Some: "nth_opt xs i = Some x \<longleftrightarrow> i < length xs \<and> xs ! i = x"
  by (auto simp: nth_opt_def)

lemma nth_opt_eq_None: "nth_opt xs i = None \<longleftrightarrow> length xs \<le> i"
  by (auto simp: nth_opt_def)

lemma nth_opt_lookup: "nth_opt xs i = Some x \<Longrightarrow> i < length xs \<and> x = xs ! i"
  by (auto simp: nth_opt_eq_Some)

lemma nth_opt_update:
  "nth_opt (xs[i := v]) j = (if i = j \<and> i < length xs then Some v else nth_opt xs j)"
  by (auto simp: nth_opt_def)

lemma map_of_list_all: "map_of xs m = Some f \<Longrightarrow> list_all P (map fst xs) \<Longrightarrow> P m"
  by (force simp: list_all_iff dest: map_of_SomeD)

text \<open>The iterator's \<open>find\<close>; \<open>position\<close> of the first match.\<close>

fun find_index :: "('a \<Rightarrow> bool) \<Rightarrow> 'a list \<Rightarrow> nat option" where
  "find_index p [] = None"
| "find_index p (x # xs) = (if p x then Some 0 else map_option Suc (find_index p xs))"

lemma find_index_SomeD:
  "find_index p xs = Some i \<Longrightarrow> i < length xs \<and> p (xs ! i) \<and> (\<forall>j < i. \<not> p (xs ! j))"
proof (induction xs arbitrary: i)
  case (Cons x xs)
  then show ?case
    by (auto split: if_splits simp: less_Suc_eq_0_disj)
qed simp

lemma find_index_None: "find_index p xs = None \<longleftrightarrow> (\<forall>x \<in> set xs. \<not> p x)"
  by (induction xs) auto

lemma find_append: "find P (xs @ ys) = (case find P xs of Some x \<Rightarrow> Some x | None \<Rightarrow> find P ys)"
  by (induction xs) auto

lemma find_filter: "find P (filter Q xs) = find (\<lambda>x. Q x \<and> P x) xs"
  by (induction xs) auto

end
