(* ===== verification/Float64.thy ===== *)
theory Float64
  imports Prelude
begin

text \<open>
  The \<open>f64\<close> type of Rust: IEEE 754 binary64 values, kept as their 64 bits, with the operations the
  simulator uses. Every finite double is an integer multiple of \<open>2 ^ -1074\<close>, so the exact result
  of an operation is a ratio of integers counted in that unit, and one function, \<open>round_units\<close>,
  rounds it to nearest, ties to even, with gradual underflow and overflow to infinity.

  The results the language leaves open are fixed as follows: a NaN result is the bit pattern of
  \<open>f64::NAN\<close> (Rust does not specify sign and payload), and \<open>max\<close> and \<open>min\<close> of two values that
  compare equal return the first. The elementary functions whose precision Rust documents as
  platform dependent (\<open>sin\<close>, \<open>powf\<close>, ...) are the fields of a record \<open>libm\<close>, an argument of the
  definitions that use them.
\<close>

section \<open>Representation\<close>

datatype f64 = F64 (to_bits: "64 word")

abbreviation from_bits :: "u64 \<Rightarrow> f64" where
  "from_bits \<equiv> F64"

definition sign_neg :: "f64 \<Rightarrow> bool" where
  "sign_neg x \<longleftrightarrow> 2 ^ 63 \<le> uint (to_bits x)"

definition mag :: "f64 \<Rightarrow> int" where
  "mag x = uint (to_bits x) mod 2 ^ 63"

definition mk :: "bool \<Rightarrow> int \<Rightarrow> f64" where
  "mk s b = F64 (word_of_int (if s then b + 2 ^ 63 else b))"

definition inf_mag :: int where
  "inf_mag = 2047 * 2 ^ 52"

definition is_nan :: "f64 \<Rightarrow> bool" where
  "is_nan x \<longleftrightarrow> inf_mag < mag x"

definition is_infinite :: "f64 \<Rightarrow> bool" where
  "is_infinite x \<longleftrightarrow> mag x = inf_mag"

definition is_finite :: "f64 \<Rightarrow> bool" where
  "is_finite x \<longleftrightarrow> mag x < inf_mag"

definition f64_nan :: f64 where
  "f64_nan = F64 0x7FF8000000000000"

definition f64_infinity :: f64 where
  "f64_infinity = mk False inf_mag"

definition f64_neg_infinity :: f64 where
  "f64_neg_infinity = mk True inf_mag"

definition f64_zero :: f64 where
  "f64_zero = mk False 0"

definition f64_neg_zero :: f64 where
  "f64_neg_zero = mk True 0"

text \<open>The magnitude of a finite value in units of \<open>2 ^ -1074\<close>, from its 63 magnitude bits.\<close>

definition mag_units :: "int \<Rightarrow> int" where
  "mag_units b = (if b < 2 ^ 52 then b else (2 ^ 52 + b mod 2 ^ 52) * 2 ^ nat (b div 2 ^ 52 - 1))"

definition one_units :: int where
  "one_units = 2 ^ 1074"

definition units :: "f64 \<Rightarrow> int" where
  "units x = mag_units (mag x)"

definition sunits :: "f64 \<Rightarrow> int" where
  "sunits x = (if sign_neg x then - units x else units x)"

section \<open>Rounding\<close>

fun bit_len :: "int \<Rightarrow> nat" where
  "bit_len n = (if n \<le> 0 then 0 else Suc (bit_len (n div 2)))"

declare bit_len.simps [simp del]

text \<open>The double nearest to \<open>num / den\<close> units (\<open>0 < den\<close>), ties to even.\<close>

definition round_units :: "bool \<Rightarrow> int \<Rightarrow> int \<Rightarrow> f64" where
  "round_units s num den =
     (let k = bit_len (num div den) - 53;
          d = den * 2 ^ k;
          m = num div d;
          r = num mod d;
          m' = (if d < 2 * r \<or> (d = 2 * r \<and> odd m) then m + 1 else m)
      in mk s (min inf_mag (int k * 2 ^ 52 + m')))"

definition f64_of_int :: "int \<Rightarrow> f64" where
  "f64_of_int i = round_units (i < 0) (\<bar>i\<bar> * one_units) 1"

abbreviation f64_of_nat :: "nat \<Rightarrow> f64" where
  "f64_of_nat n \<equiv> f64_of_int (int n)"

definition f64_one :: f64 where
  "f64_one = f64_of_int 1"

section \<open>Arithmetic\<close>

definition f64_neg :: "f64 \<Rightarrow> f64" where
  "f64_neg x = mk (\<not> sign_neg x) (mag x)"

definition f64_abs :: "f64 \<Rightarrow> f64" where
  "f64_abs x = mk False (mag x)"

definition f64_add :: "f64 \<Rightarrow> f64 \<Rightarrow> f64" where
  "f64_add x y =
     (if is_nan x \<or> is_nan y then f64_nan
      else if is_infinite x then (if is_infinite y \<and> sign_neg x \<noteq> sign_neg y then f64_nan else x)
      else if is_infinite y then y
      else let u = sunits x + sunits y
           in if u = 0 then mk (sign_neg x \<and> sign_neg y) 0
              else round_units (u < 0) \<bar>u\<bar> 1)"

definition f64_sub :: "f64 \<Rightarrow> f64 \<Rightarrow> f64" where
  "f64_sub x y = f64_add x (f64_neg y)"

definition f64_mul :: "f64 \<Rightarrow> f64 \<Rightarrow> f64" where
  "f64_mul x y =
     (let s = (sign_neg x \<noteq> sign_neg y)
      in if is_nan x \<or> is_nan y then f64_nan
         else if is_infinite x then (if mag y = 0 then f64_nan else mk s inf_mag)
         else if is_infinite y then (if mag x = 0 then f64_nan else mk s inf_mag)
         else round_units s (units x * units y) one_units)"

definition f64_div :: "f64 \<Rightarrow> f64 \<Rightarrow> f64" where
  "f64_div x y =
     (let s = (sign_neg x \<noteq> sign_neg y)
      in if is_nan x \<or> is_nan y then f64_nan
         else if is_infinite x then (if is_infinite y then f64_nan else mk s inf_mag)
         else if is_infinite y then mk s 0
         else if mag y = 0 then (if mag x = 0 then f64_nan else mk s inf_mag)
         else round_units s (units x * one_units) (units y))"

text \<open>The remainder operator \<open>%\<close>: exact, with the sign of the dividend.\<close>

definition f64_rem :: "f64 \<Rightarrow> f64 \<Rightarrow> f64" where
  "f64_rem x y =
     (if is_nan x \<or> is_nan y \<or> is_infinite x \<or> mag y = 0 then f64_nan
      else if is_infinite y then x
      else round_units (sign_neg x) (units x mod units y) 1)"

text \<open>Integer square root, and the correctly rounded \<open>sqrt\<close> built on it.\<close>

fun isqrt :: "int \<Rightarrow> int" where
  "isqrt n = (if n \<le> 0 then 0
              else let r = 2 * isqrt (n div 4) in if (r + 1) * (r + 1) \<le> n then r + 1 else r)"

declare isqrt.simps [simp del]

definition f64_sqrt :: "f64 \<Rightarrow> f64" where
  "f64_sqrt x =
     (if is_nan x then f64_nan
      else if mag x = 0 then x
      else if sign_neg x then f64_nan
      else if is_infinite x then x
      else let a = units x * one_units * 2 ^ 200; t = isqrt a
           in round_units False (2 * t + (if t * t = a then 0 else 1)) (2 ^ 101))"

section \<open>Comparisons\<close>

text \<open>
  On values that are not NaN the order is the order of the signed magnitude bits: both zeros have
  key 0, and magnitudes grow with their bits up to infinity.
\<close>

definition key :: "f64 \<Rightarrow> int" where
  "key x = (if sign_neg x then - mag x else mag x)"

definition f64_eq :: "f64 \<Rightarrow> f64 \<Rightarrow> bool" where
  "f64_eq x y \<longleftrightarrow> \<not> is_nan x \<and> \<not> is_nan y \<and> key x = key y"

definition f64_ne :: "f64 \<Rightarrow> f64 \<Rightarrow> bool" where
  "f64_ne x y \<longleftrightarrow> \<not> f64_eq x y"

definition f64_lt :: "f64 \<Rightarrow> f64 \<Rightarrow> bool" where
  "f64_lt x y \<longleftrightarrow> \<not> is_nan x \<and> \<not> is_nan y \<and> key x < key y"

definition f64_le :: "f64 \<Rightarrow> f64 \<Rightarrow> bool" where
  "f64_le x y \<longleftrightarrow> \<not> is_nan x \<and> \<not> is_nan y \<and> key x \<le> key y"

abbreviation f64_gt :: "f64 \<Rightarrow> f64 \<Rightarrow> bool" where
  "f64_gt x y \<equiv> f64_lt y x"

abbreviation f64_ge :: "f64 \<Rightarrow> f64 \<Rightarrow> bool" where
  "f64_ge x y \<equiv> f64_le y x"

definition f64_max :: "f64 \<Rightarrow> f64 \<Rightarrow> f64" where
  "f64_max x y = (if is_nan x then y else if is_nan y then x else if f64_lt x y then y else x)"

definition f64_min :: "f64 \<Rightarrow> f64 \<Rightarrow> f64" where
  "f64_min x y = (if is_nan x then y else if is_nan y then x else if f64_lt y x then y else x)"

text \<open>\<open>f64::clamp\<close>; it panics when \<open>min > max\<close> or a bound is NaN, which its callers never pass.\<close>

definition f64_clamp :: "f64 \<Rightarrow> f64 \<Rightarrow> f64 \<Rightarrow> f64" where
  "f64_clamp x lo hi = (if f64_lt x lo then lo else if f64_lt hi x then hi else x)"

definition f64_signum :: "f64 \<Rightarrow> f64" where
  "f64_signum x = (if is_nan x then f64_nan else if sign_neg x then f64_neg f64_one else f64_one)"

section \<open>Integer parts and casts\<close>

definition f64_int :: "f64 \<Rightarrow> int" where
  "f64_int x = (if sign_neg x then - (units x div one_units) else units x div one_units)"

definition f64_trunc :: "f64 \<Rightarrow> f64" where
  "f64_trunc x = (if is_finite x then round_units (sign_neg x) (units x div one_units * one_units) 1 else x)"

definition up_units :: "int \<Rightarrow> int" where
  "up_units u = (if u mod one_units = 0 then u else (u div one_units + 1) * one_units)"

definition f64_floor :: "f64 \<Rightarrow> f64" where
  "f64_floor x =
     (if is_finite x
      then round_units (sign_neg x) (if sign_neg x then up_units (units x) else units x div one_units * one_units) 1
      else x)"

definition f64_ceil :: "f64 \<Rightarrow> f64" where
  "f64_ceil x =
     (if is_finite x
      then round_units (sign_neg x) (if sign_neg x then units x div one_units * one_units else up_units (units x)) 1
      else x)"

text \<open>\<open>f64::round\<close>: half-way cases away from zero.\<close>

definition f64_round :: "f64 \<Rightarrow> f64" where
  "f64_round x =
     (if is_finite x
      then round_units (sign_neg x) ((2 * units x + one_units) div (2 * one_units) * one_units) 1
      else x)"

definition f64_fract :: "f64 \<Rightarrow> f64" where
  "f64_fract x = f64_sub x (f64_trunc x)"

text \<open>The \<open>as\<close> casts to integers: truncation, saturation at the bounds, NaN to 0.\<close>

definition saturate :: "int \<Rightarrow> int \<Rightarrow> f64 \<Rightarrow> int" where
  "saturate lo hi x =
     (if is_nan x then 0
      else if is_infinite x then (if sign_neg x then lo else hi)
      else max lo (min hi (f64_int x)))"

definition as_i64 :: "f64 \<Rightarrow> i64" where
  "as_i64 x = word_of_int (saturate (- (2 ^ 63)) (2 ^ 63 - 1) x)"

definition as_u64 :: "f64 \<Rightarrow> u64" where
  "as_u64 x = word_of_int (saturate 0 (2 ^ 64 - 1) x)"

definition as_u32 :: "f64 \<Rightarrow> u32" where
  "as_u32 x = word_of_int (saturate 0 (2 ^ 32 - 1) x)"

definition as_i32 :: "f64 \<Rightarrow> i32" where
  "as_i32 x = word_of_int (saturate (- (2 ^ 31)) (2 ^ 31 - 1) x)"

definition as_usize :: "f64 \<Rightarrow> usize" where
  "as_usize x = nat (saturate 0 (2 ^ 64 - 1) x)"

definition as_isize :: "f64 \<Rightarrow> int" where
  "as_isize x = saturate (- (2 ^ 63)) (2 ^ 63 - 1) x"

abbreviation f64_of_i64 :: "i64 \<Rightarrow> f64" where
  "f64_of_i64 w \<equiv> f64_of_int (sint w)"

abbreviation f64_of_u64 :: "u64 \<Rightarrow> f64" where
  "f64_of_u64 w \<equiv> f64_of_int (uint w)"

abbreviation f64_of_i32 :: "i32 \<Rightarrow> f64" where
  "f64_of_i32 w \<equiv> f64_of_int (sint w)"

section \<open>The elementary functions of the platform\<close>

record libm =
  lm_powf :: "f64 \<Rightarrow> f64 \<Rightarrow> f64"
  lm_atan2 :: "f64 \<Rightarrow> f64 \<Rightarrow> f64"
  lm_acos :: "f64 \<Rightarrow> f64"
  lm_asin :: "f64 \<Rightarrow> f64"
  lm_atan :: "f64 \<Rightarrow> f64"
  lm_cos :: "f64 \<Rightarrow> f64"
  lm_exp :: "f64 \<Rightarrow> f64"
  lm_ln :: "f64 \<Rightarrow> f64"
  lm_sin :: "f64 \<Rightarrow> f64"
  lm_tan :: "f64 \<Rightarrow> f64"

section \<open>Exactness on integers\<close>

subsection \<open>Representation\<close>

lemma uint_mk:
  assumes "0 \<le> b" "b < 2 ^ 63"
  shows "uint (to_bits (mk s b)) = (if s then b + 2 ^ 63 else b)"
  using assms by (auto simp: mk_def uint_word_of_int take_bit_eq_mod)

lemma mag_mk [simp]: "0 \<le> b \<Longrightarrow> b < 2 ^ 63 \<Longrightarrow> mag (mk s b) = b"
  by (auto simp: mag_def uint_mk)

lemma sign_mk [simp]: "0 \<le> b \<Longrightarrow> b < 2 ^ 63 \<Longrightarrow> sign_neg (mk s b) = s"
  by (auto simp: sign_neg_def uint_mk)

lemma mag_nonneg [simp]: "0 \<le> mag x"
  by (simp add: mag_def)

lemma mag_less [simp]: "mag x < 9223372036854775808"
  by (simp add: mag_def)

lemma mk_sign_mag [simp]: "mk (sign_neg x) (mag x) = x"
proof (cases x)
  case (F64 w)
  have w: "0 \<le> uint w" "uint w < 2 ^ 64"
    using uint_lt2p [of w] by (simp_all)
  have "(if sign_neg x then mag x + 2 ^ 63 else mag x) = uint w"
  proof (cases "2 ^ 63 \<le> uint w")
    case True
    then have "uint w mod 2 ^ 63 = (uint w - 2 ^ 63) mod 2 ^ 63"
      by (simp add: mod_diff_eq [symmetric])
    also have "\<dots> = uint w - 2 ^ 63"
      using True w by (intro mod_pos_pos_trivial) auto
    finally show ?thesis using True F64 by (simp add: mag_def sign_neg_def)
  next
    case False
    then show ?thesis using w F64 by (simp add: mag_def sign_neg_def)
  qed
  then have "mk (sign_neg x) (mag x) = F64 (word_of_int (uint w))"
    by (simp only: mk_def)
  then show ?thesis using F64 by simp
qed

lemma f64_eqI: "sign_neg x = sign_neg y \<Longrightarrow> mag x = mag y \<Longrightarrow> x = y"
  using mk_sign_mag [of x, symmetric] mk_sign_mag [of y] by (simp del: mk_sign_mag)

lemma inf_mag_bounds [simp]: "0 < inf_mag" "inf_mag < 9223372036854775808" "0 \<le> inf_mag"
  by (simp_all add: inf_mag_def)

lemma bit_len_unique: "2 ^ k \<le> n \<Longrightarrow> n < 2 ^ Suc k \<Longrightarrow> bit_len n = Suc k"
proof (induction k arbitrary: n)
  case 0
  then have "n = 1" by simp
  then show ?case by (simp add: bit_len.simps [of 1] bit_len.simps [of 0])
next
  case (Suc k)
  from Suc.prems have "2 ^ k \<le> n div 2" "n div 2 < 2 ^ Suc k" by simp_all
  then have "bit_len (n div 2) = Suc k" by (rule Suc.IH)
  moreover have "0 < n" using Suc.prems(1) by (smt (verit) zero_less_power)
  ultimately show ?case by (subst bit_len.simps) simp
qed

lemma bit_len_bounds:
  "0 < n \<Longrightarrow> \<exists>k. bit_len n = Suc k \<and> 2 ^ k \<le> n \<and> n < 2 ^ Suc k"
proof (induction n rule: bit_len.induct)
  case (1 n)
  show ?case
  proof (cases "n = 1")
    case True
    then show ?thesis by (intro exI [of _ 0]) (simp add: bit_len_unique)
  next
    case False
    with 1 have "0 < n div 2" by simp
    with 1 obtain k where "bit_len (n div 2) = Suc k" "2 ^ k \<le> n div 2" "n div 2 < 2 ^ Suc k"
      by auto
    then have "2 ^ Suc k \<le> n" "n < 2 ^ Suc (Suc k)" by simp_all
    then show ?thesis using bit_len_unique [of "Suc k" n] by blast
  qed
qed

lemma bit_len_small: "n < 2 ^ 53 \<Longrightarrow> bit_len n \<le> 53"
proof (cases "0 < n")
  case True
  assume n: "n < 2 ^ 53"
  from True obtain k where k: "bit_len n = Suc k" "2 ^ k \<le> n"
    using bit_len_bounds by blast
  with n have "(2 :: int) ^ k < 2 ^ 53" by linarith
  then have "k < 53" by (rule power_less_imp_less_exp [rotated]) simp
  then show ?thesis using k by simp
next
  case False
  then show ?thesis by (simp add: bit_len.simps)
qed

lemma mag_units_small: "0 \<le> b \<Longrightarrow> b < 2 ^ 53 \<Longrightarrow> mag_units b = b"
proof (cases "b < 2 ^ 52")
  case False
  assume "0 \<le> b" "b < 2 ^ 53"
  with False have "b div 2 ^ 52 = 1" by simp
  moreover from this have "b mod 2 ^ 52 = b - 2 ^ 52"
    by (simp add: minus_div_mult_eq_mod [symmetric])
  ultimately show ?thesis using False by (simp add: mag_units_def)
qed (simp add: mag_units_def)

lemma mag_units_large:
  assumes "2 ^ 52 \<le> m" "m < 2 ^ 53"
  shows "mag_units (int k * 2 ^ 52 + m) = m * 2 ^ k"
proof -
  have "m div 2 ^ 52 = 1" using assms by simp
  moreover from this have "m mod 2 ^ 52 = m - 2 ^ 52"
    by (simp add: minus_div_mult_eq_mod [symmetric])
  ultimately have "(int k * 2 ^ 52 + m) div 2 ^ 52 = int k + 1"
    "(int k * 2 ^ 52 + m) mod 2 ^ 52 = m - 2 ^ 52"
    by (simp_all)
  moreover have "\<not> int k * 2 ^ 52 + m < 2 ^ 52" using assms by simp
  ultimately show ?thesis by (simp add: mag_units_def)
qed

text \<open>Every magnitude is small, or a 53-bit significand shifted.\<close>

lemma mag_cases:
  assumes "0 \<le> b"
  obtains (small) "b < 2 ^ 53" "mag_units b = b"
  | (large) k m where "b = int k * 2 ^ 52 + m" "2 ^ 52 \<le> m" "m < 2 ^ 53" "0 < k" "mag_units b = m * 2 ^ k"
proof (cases "b < 2 ^ 53")
  case True
  then show ?thesis using assms mag_units_small small by blast
next
  case False
  define k where "k = nat (b div 2 ^ 52 - 1)"
  define m where "m = 2 ^ 52 + b mod 2 ^ 52"
  have "2 \<le> b div 2 ^ 52" using False by simp
  then have k: "int k = b div 2 ^ 52 - 1" "0 < k" by (simp_all add: k_def)
  have b: "b = int k * 2 ^ 52 + m"
    unfolding k m_def using div_mult_mod_eq [of b "2 ^ 52"] by (simp add: algebra_simps)
  have m: "2 ^ 52 \<le> m" "m < 2 ^ 53" by (simp_all add: m_def)
  show ?thesis using large [OF b m k(2)] mag_units_large [OF m, of k] b by simp
qed

text \<open>A value that is representable is rounded to itself.\<close>

lemma round_units_exact:
  assumes "0 \<le> b" "b < inf_mag" "0 < den"
  shows "round_units s (mag_units b * den) den = mk s b"
  using assms(1)
proof (cases rule: mag_cases)
  case small
  then have "bit_len (mag_units b) - 53 = 0" by (simp add: bit_len_small)
  then show ?thesis using small assms by (simp add: round_units_def Let_def)
next
  case (large k m)
  have "2 ^ (52 + k) \<le> mag_units b" "mag_units b < 2 ^ Suc (52 + k)"
    using large by (simp_all add: power_add)
  then have "bit_len (mag_units b) = Suc (52 + k)" by (rule bit_len_unique)
  moreover have "mag_units b * den = m * (den * 2 ^ k)" using large by (simp add: ac_simps)
  moreover have "0 < den * 2 ^ k" using assms by simp
  ultimately show ?thesis using large assms
    by (simp add: round_units_def Let_def)
qed

lemma round_units_1_exact: "0 \<le> b \<Longrightarrow> b < inf_mag \<Longrightarrow> round_units s (mag_units b) 1 = mk s b"
  using round_units_exact [of b 1 s] by simp

lemma representable:
  assumes "0 \<le> n" "n < 2 ^ 53" "j \<le> 2000"
  obtains b where "0 \<le> b" "b < inf_mag" "mag_units b = n * 2 ^ j"
proof (cases "n * 2 ^ j < 2 ^ 53")
  case True
  have "0 \<le> n * 2 ^ j" using assms(1) by simp
  with True show ?thesis
    by (intro that [of "n * 2 ^ j"] mag_units_small) (simp_all add: inf_mag_def)
next
  case False
  then have "0 < n" using assms(1) by (cases "n = 0") auto
  then obtain l where l: "2 ^ l \<le> n" "n < 2 ^ Suc l" using bit_len_bounds by blast
  then have "(2 :: int) ^ l < 2 ^ 53" using assms(2) by linarith
  then have l53: "l < 53" by (rule power_less_imp_less_exp [rotated]) simp
  have "(2 :: int) ^ 53 \<le> n * 2 ^ j" using False by simp
  also have "n * 2 ^ j < 2 ^ Suc l * 2 ^ j" using l by simp
  finally have "(2 :: int) ^ 53 < 2 ^ (Suc l + j)" by (simp add: power_add)
  then have lj: "53 < Suc l + j" by (rule power_less_imp_less_exp [rotated]) simp
  define m where "m = n * 2 ^ (52 - l)"
  define k where "k = j - (52 - l)"
  have "2 ^ l * 2 ^ (52 - l) \<le> m" unfolding m_def using l by (intro mult_right_mono) auto
  then have m1: "2 ^ 52 \<le> m" using l53 by (simp add: power_add [symmetric])
  have "m < 2 ^ Suc l * 2 ^ (52 - l)" unfolding m_def using l by (intro mult_strict_right_mono) auto
  then have m2: "m < 2 ^ 53" using l53 by (simp add: power_add [symmetric] del: power_Suc)
  have "m * 2 ^ k = n * 2 ^ (52 - l + k)" by (simp add: m_def power_add ac_simps)
  also have "52 - l + k = j" using lj by (simp add: k_def)
  finally have mk: "m * 2 ^ k = n * 2 ^ j" .
  have "k \<le> 2000" using assms(3) by (simp add: k_def)
  then have "int k * 2 ^ 52 \<le> 2000 * 2 ^ 52" by simp
  then have "int k * 2 ^ 52 + m < inf_mag" using m2 by (simp add: inf_mag_def)
  moreover have "0 \<le> int k * 2 ^ 52 + m" using m1 by simp
  ultimately show ?thesis
    using that [of "int k * 2 ^ 52 + m"] mag_units_large [OF m1 m2, of k] mk by simp
qed

subsection \<open>Order of magnitudes\<close>

lemma mag_units_nonneg [simp]: "0 \<le> b \<Longrightarrow> 0 \<le> mag_units b"
  by (simp add: mag_units_def)

lemma mag_units_mono:
  assumes "0 \<le> b" "b < c"
  shows "mag_units b < mag_units c"
  using assms(1)
proof (cases rule: mag_cases)
  case small
  have c: "0 \<le> c" using assms by simp
  then show ?thesis
  proof (cases rule: mag_cases)
    case small': small
    then show ?thesis using small assms by simp
  next
    case (large k m)
    have "(2 :: int) ^ 1 \<le> 2 ^ k" using large by (intro power_increasing) auto
    then have "2 ^ 52 * 2 \<le> m * 2 ^ k" using large by (intro mult_mono) auto
    then show ?thesis using small large by simp
  qed
next
  case (large k m)
  have "0 \<le> c" using assms by simp
  then show ?thesis
  proof (cases rule: mag_cases)
    case small
    then have "int k * 2 ^ 52 + m < 2 ^ 53" using large assms by linarith
    moreover have "1 * 2 ^ 52 \<le> int k * 2 ^ 52" using large by (intro mult_right_mono) auto
    ultimately show ?thesis using large by simp
  next
    case (large k' m')
    note c = large
    have less: "int k * 2 ^ 52 + m < int k' * 2 ^ 52 + m'" using assms large \<open>b = _\<close> by simp
    have "\<not> k' < k"
    proof
      assume "k' < k"
      then have "(int k' + 1) * 2 ^ 52 \<le> int k * 2 ^ 52" by (intro mult_right_mono) auto
      then show False using less c \<open>2 ^ 52 \<le> m\<close> by (simp add: algebra_simps)
    qed
    then consider "k = k'" | "k < k'" by linarith
    then show ?thesis
    proof cases
      case 1
      then show ?thesis using less c \<open>mag_units b = _\<close> by simp
    next
      case 2
      have "m * 2 ^ k < 2 ^ 53 * 2 ^ k" using \<open>m < 2 ^ 53\<close> by simp
      also have "(2 :: int) ^ 53 * 2 ^ k = 2 ^ 52 * 2 ^ Suc k" by simp
      also have "(2 :: int) ^ 52 * 2 ^ Suc k \<le> m' * 2 ^ k'"
        using 2 c by (intro mult_mono power_increasing) auto
      finally show ?thesis using c \<open>mag_units b = _\<close> by simp
    qed
  qed
qed

lemma mag_units_less_iff: "0 \<le> b \<Longrightarrow> 0 \<le> c \<Longrightarrow> mag_units b < mag_units c \<longleftrightarrow> b < c"
  by (metis linorder_neqE_linordered_idom mag_units_mono not_less_iff_gr_or_eq)

lemma mag_units_eq_iff: "0 \<le> b \<Longrightarrow> 0 \<le> c \<Longrightarrow> mag_units b = mag_units c \<longleftrightarrow> b = c"
  by (metis linorder_neqE_linordered_idom mag_units_mono not_less_iff_gr_or_eq)

lemma mag_units_0 [simp]: "mag_units 0 = 0"
  by (simp add: mag_units_def)

lemma units_nonneg [simp]: "0 \<le> units x"
  by (simp add: units_def)

lemma units_eq_0: "units x = 0 \<longleftrightarrow> mag x = 0"
  using mag_units_eq_iff [of "mag x" 0] by (simp add: units_def)

lemma key_less_iff: "key x < key y \<longleftrightarrow> sunits x < sunits y"
proof -
  have "mag x < mag y \<longleftrightarrow> units x < units y" "mag y < mag x \<longleftrightarrow> units y < units x"
    by (simp_all add: units_def mag_units_less_iff)
  moreover have "0 < mag x \<longleftrightarrow> 0 < units x" "0 < mag y \<longleftrightarrow> 0 < units y"
    using units_eq_0 [of x] units_eq_0 [of y] units_nonneg [of x] units_nonneg [of y]
      mag_nonneg [of x] mag_nonneg [of y] by linarith+
  moreover note units_nonneg [of x] units_nonneg [of y] mag_nonneg [of x] mag_nonneg [of y]
  ultimately show ?thesis
    unfolding key_def sunits_def by (smt (verit))
qed

lemma key_le_iff: "key x \<le> key y \<longleftrightarrow> sunits x \<le> sunits y"
  using key_less_iff [of y x] by linarith

lemma key_eq_iff: "key x = key y \<longleftrightarrow> sunits x = sunits y"
  using key_less_iff [of x y] key_less_iff [of y x] by linarith

subsection \<open>Finite values and integers\<close>

lemma is_finite_not [simp]: "is_finite x \<Longrightarrow> \<not> is_nan x" "is_finite x \<Longrightarrow> \<not> is_infinite x"
  by (simp_all add: is_finite_def is_nan_def is_infinite_def)

lemma not_finite: "\<not> is_finite x \<longleftrightarrow> is_nan x \<or> is_infinite x"
  by (auto simp: is_finite_def is_nan_def is_infinite_def)

lemma finite_cmp:
  assumes "is_finite x" "is_finite y"
  shows "f64_lt x y \<longleftrightarrow> sunits x < sunits y" "f64_le x y \<longleftrightarrow> sunits x \<le> sunits y"
    "f64_eq x y \<longleftrightarrow> sunits x = sunits y"
  using assms by (simp_all add: f64_lt_def f64_le_def f64_eq_def key_less_iff key_le_iff key_eq_iff)

lemma round_representable:
  assumes "0 \<le> n" "n < 2 ^ 53" "j \<le> 2000"
  shows "units (round_units s (n * 2 ^ j) 1) = n * 2 ^ j" "is_finite (round_units s (n * 2 ^ j) 1)"
    "sign_neg (round_units s (n * 2 ^ j) 1) = s"
proof -
  obtain b where b: "0 \<le> b" "b < inf_mag" "mag_units b = n * 2 ^ j"
    using representable [OF assms] .
  then have r: "round_units s (n * 2 ^ j) 1 = mk s b"
    using round_units_1_exact [of b s] by simp
  have "b < 9223372036854775808" using b inf_mag_bounds(2) by linarith
  then show "units (round_units s (n * 2 ^ j) 1) = n * 2 ^ j" "is_finite (round_units s (n * 2 ^ j) 1)"
    "sign_neg (round_units s (n * 2 ^ j) 1) = s"
    using b r by (simp_all add: units_def is_finite_def)
qed

lemma one_units_pos [simp]: "0 < one_units" "one_units \<noteq> 0" "\<bar>one_units\<bar> = one_units"
  "\<not> one_units < 0"
  by (simp_all add: one_units_def)

lemma of_int_props:
  assumes "\<bar>i\<bar> < 2 ^ 53"
  shows units_of_int: "units (f64_of_int i) = \<bar>i\<bar> * one_units"
    and finite_of_int: "is_finite (f64_of_int i)"
    and sign_of_int: "sign_neg (f64_of_int i) \<longleftrightarrow> i < 0"
    and sunits_of_int: "sunits (f64_of_int i) = i * one_units"
proof -
  have "units (f64_of_int i) = \<bar>i\<bar> * one_units" "is_finite (f64_of_int i)" "sign_neg (f64_of_int i) = (i < 0)"
    using round_representable [of "\<bar>i\<bar>" 1074 "i < 0", folded one_units_def] assms
    by (simp_all add: f64_of_int_def)
  then show "units (f64_of_int i) = \<bar>i\<bar> * one_units" "is_finite (f64_of_int i)"
    "sign_neg (f64_of_int i) \<longleftrightarrow> i < 0" "sunits (f64_of_int i) = i * one_units"
    by (auto simp: sunits_def)
qed

lemma f64_int_of_int: "\<bar>i\<bar> < 2 ^ 53 \<Longrightarrow> f64_int (f64_of_int i) = i"
  by (cases "i < 0") (simp_all add: f64_int_def units_of_int sign_of_int del: mult_minus_left)

lemma f64_of_int_0: "f64_of_int 0 = mk False 0"
  using round_units_1_exact [of 0 False] by (simp add: f64_of_int_def)

text \<open>A sum whose exact value is an integer: the rounded sum is that integer's double.\<close>

lemma f64_add_exact_int:
  assumes "is_finite x" "is_finite y" "sunits x + sunits y = c * one_units"
    and "c = 0 \<Longrightarrow> \<not> (sign_neg x \<and> sign_neg y)"
  shows "f64_add x y = f64_of_int c"
proof (cases "c = 0")
  case True
  with assms(4) have "(sign_neg x \<and> sign_neg y) = False" by simp
  with True assms(1-3) show ?thesis by (simp only: f64_add_def) (simp add: Let_def f64_of_int_0)
next
  case False
  have "c * one_units < 0 \<longleftrightarrow> c < 0" by (simp add: mult_less_0_iff)
  then show ?thesis using False assms
    by (simp add: f64_add_def Let_def abs_mult f64_of_int_def)
qed

lemma f64_add_of_int:
  assumes "\<bar>a\<bar> < 2 ^ 53" "\<bar>b\<bar> < 2 ^ 53"
  shows "f64_add (f64_of_int a) (f64_of_int b) = f64_of_int (a + b)"
  using assms
  by (intro f64_add_exact_int) (auto simp: finite_of_int sunits_of_int sign_of_int algebra_simps)

lemma neg_props [simp]:
  "sign_neg (f64_neg x) \<longleftrightarrow> \<not> sign_neg x" "mag (f64_neg x) = mag x" "units (f64_neg x) = units x"
  "sunits (f64_neg x) = - sunits x" "is_finite (f64_neg x) = is_finite x" "is_nan (f64_neg x) = is_nan x"
  "is_infinite (f64_neg x) = is_infinite x"
  by (simp_all add: f64_neg_def units_def sunits_def is_finite_def is_nan_def is_infinite_def)

lemma abs_props [simp]:
  "sign_neg (f64_abs x) = False" "mag (f64_abs x) = mag x" "units (f64_abs x) = units x"
  "sunits (f64_abs x) = units x" "is_finite (f64_abs x) = is_finite x" "is_nan (f64_abs x) = is_nan x"
  by (simp_all add: f64_abs_def units_def sunits_def is_finite_def is_nan_def is_infinite_def)

lemma f64_sub_of_int:
  assumes "\<bar>a\<bar> < 2 ^ 53" "\<bar>b\<bar> < 2 ^ 53" "a \<noteq> b \<or> 0 \<le> a"
  shows "f64_sub (f64_of_int a) (f64_of_int b) = f64_of_int (a - b)"
  unfolding f64_sub_def using assms
  by (intro f64_add_exact_int) (auto simp: finite_of_int sunits_of_int sign_of_int algebra_simps)

lemma cmp_of_int:
  assumes "\<bar>a\<bar> < 2 ^ 53" "\<bar>b\<bar> < 2 ^ 53"
  shows "f64_lt (f64_of_int a) (f64_of_int b) \<longleftrightarrow> a < b" "f64_le (f64_of_int a) (f64_of_int b) \<longleftrightarrow> a \<le> b"
    "f64_eq (f64_of_int a) (f64_of_int b) \<longleftrightarrow> a = b"
  using finite_cmp [OF finite_of_int [OF assms(1)] finite_of_int [OF assms(2)]]
    sunits_of_int [OF assms(1)] sunits_of_int [OF assms(2)]
  by simp_all

lemma of_int_inject: "\<bar>a\<bar> < 2 ^ 53 \<Longrightarrow> \<bar>b\<bar> < 2 ^ 53 \<Longrightarrow> f64_of_int a = f64_of_int b \<longleftrightarrow> a = b"
  by (metis f64_int_of_int)

lemma f64_zero_of_int: "f64_zero = f64_of_int 0"
  by (simp add: f64_zero_def f64_of_int_0)

lemma saturate_of_int: "\<bar>i\<bar> < 2 ^ 53 \<Longrightarrow> saturate lo hi (f64_of_int i) = max lo (min hi i)"
  using finite_of_int [of i] by (simp add: saturate_def f64_int_of_int)

lemma as_usize_of_nat: "n < 2 ^ 53 \<Longrightarrow> as_usize (f64_of_nat n) = n"
  by (simp add: as_usize_def saturate_of_int)

subsection \<open>Truncation\<close>

lemma trunc_finite:
  assumes "is_finite x"
  shows "units (f64_trunc x) = units x div one_units * one_units" "is_finite (f64_trunc x)"
    "sign_neg (f64_trunc x) = sign_neg x"
proof -
  define n where "n = units x div one_units"
  have n: "0 \<le> n" by (simp add: n_def pos_imp_zdiv_nonneg_iff)
  have "mag x < inf_mag" using assms by (simp add: is_finite_def)
  have "(\<exists>b. 0 \<le> b \<and> b < inf_mag \<and> mag_units b = n * one_units)"
  proof -
    have "0 \<le> mag x" by simp
    then show ?thesis
    proof (cases rule: mag_cases)
      case small
      have "n = 0" using small by (simp add: n_def units_def one_units_def)
      then show ?thesis by (intro exI [of _ 0]) simp
    next
      case (large k m)
      show ?thesis
      proof (cases "1074 \<le> k")
        case True
        then have "(2 :: int) ^ k = 2 ^ (k - 1074) * one_units"
          unfolding one_units_def by (subst power_add [symmetric]) simp
        then have "n * one_units = units x" using large by (simp add: n_def units_def)
        then show ?thesis using \<open>mag x < inf_mag\<close> by (intro exI [of _ "mag x"]) (simp add: units_def)
      next
        case False
        then have "(2 :: int) ^ k \<le> 2 ^ 1074" by (intro power_increasing) auto
        then have "m * 2 ^ k \<le> m * one_units" using large by (simp add: one_units_def)
        then have "units x div one_units \<le> m * one_units div one_units"
          using large by (intro zdiv_mono1) (simp_all add: units_def)
        then have "n \<le> m" by (simp add: n_def)
        then have "n < 2 ^ 53" using large by simp
        then show ?thesis using representable [of n 1074] n by (auto simp: one_units_def)
      qed
    qed
  qed
  then obtain b where b: "0 \<le> b" "b < inf_mag" "mag_units b = n * one_units" by blast
  then have r: "f64_trunc x = mk (sign_neg x) b"
    using round_units_1_exact [of b "sign_neg x"] assms by (simp add: f64_trunc_def n_def)
  have "b < 9223372036854775808" using b inf_mag_bounds(2) by linarith
  then show "units (f64_trunc x) = units x div one_units * one_units" "is_finite (f64_trunc x)"
    "sign_neg (f64_trunc x) = sign_neg x"
    using b r by (simp_all add: units_def is_finite_def n_def)
qed

lemma f64_int_trunc: "is_finite x \<Longrightarrow> f64_int (f64_trunc x) = f64_int x"
  by (simp add: f64_int_def trunc_finite)

lemma trunc_nonfinite [simp]: "\<not> is_finite x \<Longrightarrow> f64_trunc x = x"
  by (simp add: f64_trunc_def)

lemma saturate_trunc [simp]: "saturate lo hi (f64_trunc x) = saturate lo hi x"
  by (cases "is_finite x") (simp_all add: saturate_def trunc_finite f64_int_trunc)

lemma as_trunc [simp]:
  "as_usize (f64_trunc x) = as_usize x" "as_isize (f64_trunc x) = as_isize x" "as_i64 (f64_trunc x) = as_i64 x"
  by (simp_all add: as_usize_def as_isize_def as_i64_def)

end
