(* ===== verification/Rust_Text.thy ===== *)
theory Rust_Text
  imports Float64 "HOL-Library.Char_ord" "HOL-Library.List_Lexorder"
begin

text \<open>
  The parts of Rust's \<open>str\<close> API and of its number parsers that the sources use. A \<open>str\<close> is the list
  of its UTF-8 bytes (\<open>char\<close> is a byte), which is how Rust orders and measures it. The predicates on
  characters are the ASCII ones; a Unicode white-space character outside ASCII is not treated as
  white space here, and that is the only place where the byte view differs from the code.
\<close>

section \<open>Prefixes, suffixes and searching\<close>

fun strip_prefix :: "string \<Rightarrow> string \<Rightarrow> string option" where
  "strip_prefix [] s = Some s"
| "strip_prefix (p # ps) [] = None"
| "strip_prefix (p # ps) (c # cs) = (if p = c then strip_prefix ps cs else None)"

definition strip_suffix :: "string \<Rightarrow> string \<Rightarrow> string option" where
  "strip_suffix p s = map_option rev (strip_prefix (rev p) (rev s))"

definition starts_with :: "string \<Rightarrow> string \<Rightarrow> bool" where
  "starts_with p s \<longleftrightarrow> strip_prefix p s \<noteq> None"

definition ends_with :: "string \<Rightarrow> string \<Rightarrow> bool" where
  "ends_with p s \<longleftrightarrow> strip_suffix p s \<noteq> None"

text \<open>\<open>split_once\<close>: around the first occurrence of the pattern.\<close>

fun split_once :: "string \<Rightarrow> string \<Rightarrow> (string \<times> string) option" where
  "split_once p [] = (if p = [] then Some ([], []) else None)"
| "split_once p (c # cs) =
     (case strip_prefix p (c # cs) of
        Some rest \<Rightarrow> Some ([], rest)
      | None \<Rightarrow> (case split_once p cs of None \<Rightarrow> None | Some (a, b) \<Rightarrow> Some (c # a, b)))"

definition contains :: "string \<Rightarrow> string \<Rightarrow> bool" where
  "contains p s \<longleftrightarrow> split_once p s \<noteq> None"

lemma strip_prefix_eq_Some: "strip_prefix p s = Some r \<longleftrightarrow> s = p @ r"
  by (induction p s rule: strip_prefix.induct) auto

lemma strip_prefix_append [simp]: "strip_prefix p (p @ r) = Some r"
  by (simp add: strip_prefix_eq_Some)

lemma strip_prefix_eq_None: "strip_prefix p s = None \<longleftrightarrow> (\<forall>r. s \<noteq> p @ r)"
  by (metis option.distinct(1) option.exhaust strip_prefix_eq_Some)

lemma strip_suffix_eq_Some: "strip_suffix p s = Some r \<longleftrightarrow> s = r @ p"
  by (auto simp: strip_suffix_def strip_prefix_eq_Some) (metis rev_append rev_rev_ident)+

lemma strip_suffix_append [simp]: "strip_suffix p (r @ p) = Some r"
  by (simp add: strip_suffix_eq_Some)

lemma starts_with_iff: "starts_with p s \<longleftrightarrow> (\<exists>r. s = p @ r)"
  by (auto simp: starts_with_def strip_prefix_eq_Some)

lemma ends_with_iff: "ends_with p s \<longleftrightarrow> (\<exists>r. s = r @ p)"
  by (auto simp: ends_with_def strip_suffix_eq_Some)

lemma split_once_SomeD: "split_once p s = Some (a, b) \<Longrightarrow> s = a @ p @ b"
proof (induction p s arbitrary: a b rule: split_once.induct)
  case (1 p)
  then show ?case by (simp split: if_splits)
next
  case (2 p c cs)
  then show ?case
    by (auto simp: strip_prefix_eq_Some split: option.splits)
qed

section \<open>ASCII characters\<close>

definition code :: "char \<Rightarrow> int" where
  "code c = of_char c"

definition is_digit :: "char \<Rightarrow> bool" where
  "is_digit c \<longleftrightarrow> 48 \<le> code c \<and> code c \<le> 57"

definition is_upper :: "char \<Rightarrow> bool" where
  "is_upper c \<longleftrightarrow> 65 \<le> code c \<and> code c \<le> 90"

definition is_lower :: "char \<Rightarrow> bool" where
  "is_lower c \<longleftrightarrow> 97 \<le> code c \<and> code c \<le> 122"

definition is_ascii_alphabetic :: "char \<Rightarrow> bool" where
  "is_ascii_alphabetic c \<longleftrightarrow> is_upper c \<or> is_lower c"

definition is_ascii_alphanumeric :: "char \<Rightarrow> bool" where
  "is_ascii_alphanumeric c \<longleftrightarrow> is_ascii_alphabetic c \<or> is_digit c"

definition is_ascii :: "string \<Rightarrow> bool" where
  "is_ascii s \<longleftrightarrow> list_all (\<lambda>c. code c < 128) s"

definition is_whitespace :: "char \<Rightarrow> bool" where
  "is_whitespace c \<longleftrightarrow> code c = 32 \<or> (9 \<le> code c \<and> code c \<le> 13)"

definition to_lower_char :: "char \<Rightarrow> char" where
  "to_lower_char c = (if is_upper c then char_of (code c + 32) else c)"

definition to_ascii_lowercase :: "string \<Rightarrow> string" where
  "to_ascii_lowercase = map to_lower_char"

definition eq_ignore_ascii_case :: "string \<Rightarrow> string \<Rightarrow> bool" where
  "eq_ignore_ascii_case a b \<longleftrightarrow> to_ascii_lowercase a = to_ascii_lowercase b"

definition trim_start :: "string \<Rightarrow> string" where
  "trim_start = dropWhile is_whitespace"

definition trim_end :: "string \<Rightarrow> string" where
  "trim_end s = rev (dropWhile is_whitespace (rev s))"

definition trim :: "string \<Rightarrow> string" where
  "trim s = trim_end (trim_start s)"

section \<open>Integer parsers\<close>

definition digit_val :: "int \<Rightarrow> char \<Rightarrow> int option" where
  "digit_val radix c =
     (let v = (if is_digit c then code c - 48
               else if is_lower c then code c - 87
               else if is_upper c then code c - 55
               else radix)
      in if v < radix then Some v else None)"

fun parse_digits :: "int \<Rightarrow> int \<Rightarrow> string \<Rightarrow> int option" where
  "parse_digits radix acc [] = Some acc"
| "parse_digits radix acc (c # cs) =
     (case digit_val radix c of None \<Rightarrow> None | Some d \<Rightarrow> parse_digits radix (acc * radix + d) cs)"

text \<open>\<open>from_str_radix\<close> of an unsigned type with largest value \<open>hi\<close>: an optional \<open>+\<close>, then digits.\<close>

definition parse_unsigned :: "int \<Rightarrow> int \<Rightarrow> string \<Rightarrow> int option" where
  "parse_unsigned radix hi s =
     (let d = (case s of c # cs \<Rightarrow> if c = CHR ''+'' then cs else s | [] \<Rightarrow> [])
      in if d = [] then None
         else case parse_digits radix 0 d of None \<Rightarrow> None | Some n \<Rightarrow> if n \<le> hi then Some n else None)"

text \<open>\<open>from_str_radix\<close> of a signed type: an optional sign, then digits, within the bounds.\<close>

definition parse_signed :: "int \<Rightarrow> int \<Rightarrow> int \<Rightarrow> string \<Rightarrow> int option" where
  "parse_signed radix lo hi s =
     (let (neg, d) = (case s of c # cs \<Rightarrow> if c = CHR ''-'' then (True, cs)
                                          else if c = CHR ''+'' then (False, cs) else (False, s)
                              | [] \<Rightarrow> (False, []))
      in if d = [] then None
         else case parse_digits radix 0 d of None \<Rightarrow> None
              | Some n \<Rightarrow> (let v = (if neg then - n else n) in if lo \<le> v \<and> v \<le> hi then Some v else None))"

definition parse_usize :: "string \<Rightarrow> usize option" where
  "parse_usize s = map_option nat (parse_unsigned 10 (2 ^ 64 - 1) s)"

definition parse_u8 :: "string \<Rightarrow> nat option" where
  "parse_u8 s = map_option nat (parse_unsigned 10 255 s)"

definition parse_u64 :: "string \<Rightarrow> u64 option" where
  "parse_u64 s = map_option word_of_int (parse_unsigned 10 (2 ^ 64 - 1) s)"

definition parse_i64_radix :: "int \<Rightarrow> string \<Rightarrow> int option" where
  "parse_i64_radix radix s = parse_signed radix (- (2 ^ 63)) (2 ^ 63 - 1) s"

text \<open>Decimal printing of a non-negative integer.\<close>

fun show_nat :: "nat \<Rightarrow> string" where
  "show_nat n = (if n < 10 then [char_of (48 + n)] else show_nat (n div 10) @ [char_of (48 + n mod 10)])"

declare show_nat.simps [simp del]

section \<open>The \<open>f64\<close> parser\<close>

definition parse_exponent :: "string \<Rightarrow> int option" where
  "parse_exponent s =
     (case s of
        [] \<Rightarrow> Some 0
      | c # cs \<Rightarrow>
          if c = CHR ''e'' \<or> c = CHR ''E'' then
            (let (neg, d) = (case cs of x # xs \<Rightarrow> if x = CHR ''-'' then (True, xs)
                                                  else if x = CHR ''+'' then (False, xs) else (False, cs)
                                      | [] \<Rightarrow> (False, []))
             in if d = [] \<or> \<not> list_all is_digit d then None
                else map_option (\<lambda>n. if neg then - n else n) (parse_digits 10 0 d))
          else None)"

text \<open>The decimal \<open>m * 10 ^ e\<close> denoted by a number, with its integer and fraction digits.\<close>

definition parse_decimal :: "string \<Rightarrow> (int \<times> int) option" where
  "parse_decimal s =
     (let ip = takeWhile is_digit s;
          r = dropWhile is_digit s;
          (fp, r2) = (case r of c # cs \<Rightarrow> if c = CHR ''.'' then (takeWhile is_digit cs, dropWhile is_digit cs)
                                           else ([], r)
                              | [] \<Rightarrow> ([], []))
      in if ip = [] \<and> fp = [] then None
         else case (parse_digits 10 0 (ip @ fp), parse_exponent r2) of
                (Some m, Some e) \<Rightarrow> Some (m, e - int (length fp))
              | _ \<Rightarrow> None)"

definition f64_of_decimal :: "bool \<Rightarrow> int \<Rightarrow> int \<Rightarrow> f64" where
  "f64_of_decimal s m e =
     (if 0 \<le> e then round_units s (m * 10 ^ nat e * one_units) 1
      else round_units s (m * one_units) (10 ^ nat (- e)))"

definition parse_f64 :: "string \<Rightarrow> f64 option" where
  "parse_f64 s =
     (let (neg, d) = (case s of c # cs \<Rightarrow> if c = CHR ''-'' then (True, cs)
                                          else if c = CHR ''+'' then (False, cs) else (False, s)
                              | [] \<Rightarrow> (False, []));
          l = to_ascii_lowercase d
      in if l = ''nan'' then Some (if neg then f64_neg f64_nan else f64_nan)
         else if l = ''inf'' \<or> l = ''infinity'' then Some (mk neg inf_mag)
         else map_option (\<lambda>(m, e). f64_of_decimal neg m e) (parse_decimal d))"

section \<open>Lemmas\<close>

lemma digit_val_bounds: "digit_val radix c = Some d \<Longrightarrow> 0 \<le> d \<and> d < radix"
  by (auto simp: digit_val_def Let_def is_digit_def is_lower_def is_upper_def split: if_splits)

lemma parse_digits_nonneg:
  "parse_digits radix acc s = Some n \<Longrightarrow> 0 \<le> acc \<Longrightarrow> 0 \<le> radix \<Longrightarrow> 0 \<le> n"
proof (induction s arbitrary: acc)
  case (Cons c cs)
  from Cons.prems(1) obtain d where d: "digit_val radix c = Some d"
    and p: "parse_digits radix (acc * radix + d) cs = Some n"
    by (auto split: option.splits)
  then have "0 \<le> acc * radix + d" using digit_val_bounds [OF d] Cons.prems by simp
  with p Cons show ?case by blast
qed simp

lemma parse_digits_append:
  "parse_digits radix acc (s @ t) =
     (case parse_digits radix acc s of None \<Rightarrow> None | Some n \<Rightarrow> parse_digits radix n t)"
  by (induction s arbitrary: acc) (auto split: option.splits)

lemma parse_usize_le: "parse_usize s = Some n \<Longrightarrow> n \<le> usize_max"
  by (auto simp: parse_usize_def parse_unsigned_def usize_max_def Let_def split: option.splits if_splits)

lemma code_digit: "n < 10 \<Longrightarrow> code (char_of (48 + n :: nat)) = 48 + int n"
proof -
  assume "n < 10"
  have "code (char_of (48 + n)) = int (of_char (char_of (48 + n :: nat)))"
    unfolding code_def by (rule of_nat_of_char [symmetric])
  also have "\<dots> = int ((48 + n) mod 256)" by (simp only: of_char_of)
  finally show ?thesis using \<open>n < 10\<close> by simp
qed

lemma digit_val_show: "n < 10 \<Longrightarrow> digit_val 10 (char_of (48 + n :: nat)) = Some (int n)"
  by (simp add: digit_val_def is_digit_def code_digit)

lemma parse_show_nat: "parse_digits 10 0 (show_nat n) = Some (int n)"
proof (induction n rule: show_nat.induct)
  case (1 n)
  show ?case
  proof (cases "n < 10")
    case True
    then show ?thesis by (subst show_nat.simps) (simp add: digit_val_show)
  next
    case False
    then have "parse_digits 10 0 (show_nat (n div 10)) = Some (int (n div 10))" using 1 by blast
    moreover have "int (n div 10) * 10 + int (n mod 10) = int n" by presburger
    ultimately show ?thesis using False
      by (subst show_nat.simps) (simp add: parse_digits_append digit_val_show)
  qed
qed

lemma show_nat_digits: "c \<in> set (show_nat n) \<Longrightarrow> is_digit c"
proof (induction n rule: show_nat.induct)
  case (1 n)
  show ?case
  proof (cases "n < 10")
    case True
    then show ?thesis using 1(2) by (subst (asm) show_nat.simps) (auto simp: is_digit_def code_digit)
  next
    case False
    then show ?thesis using 1 by (subst (asm) (2) show_nat.simps) (auto simp: is_digit_def code_digit)
  qed
qed

lemma show_nat_nonempty: "show_nat n \<noteq> []"
  by (subst show_nat.simps) simp

lemma parse_usize_show:
  assumes "n \<le> usize_max"
  shows "parse_usize (show_nat n) = Some n"
proof -
  obtain c cs where s: "show_nat n = c # cs" using show_nat_nonempty by (cases "show_nat n") auto
  then have "is_digit c" using show_nat_digits [of c n] by simp
  then have "c \<noteq> CHR ''+''" by (auto simp: is_digit_def code_def)
  then have "(case show_nat n of [] \<Rightarrow> [] | c # cs \<Rightarrow> if c = CHR ''+'' then cs else show_nat n) = show_nat n"
    using s by simp
  then show ?thesis
    using assms parse_show_nat [of n] show_nat_nonempty [of n]
    by (simp add: parse_usize_def parse_unsigned_def usize_max_def)
qed

lemma eq_ignore_ascii_case_refl [simp]: "eq_ignore_ascii_case a a"
  by (simp add: eq_ignore_ascii_case_def)

end
