(* ===== verification/BTree_Map.thy ===== *)
theory BTree_Map
  imports Rust_Text
begin

text \<open>
  Rust's ordered maps. A \<open>BTreeMap<K, V>\<close> is the list of its entries in increasing key order, so that
  iteration, which the sources rely on for determinism, is the list itself. The locale
  \<open>map_interface\<close> states what the components use of a map; \<open>bt\<close> interprets it on these lists.
\<close>

type_synonym ('k, 'v) btree_map = "('k \<times> 'v) list"

definition bt_empty :: "('k, 'v) btree_map" where
  "bt_empty = []"

definition bt_get :: "('k, 'v) btree_map \<Rightarrow> 'k \<Rightarrow> 'v option" where
  "bt_get m k = map_of m k"

fun bt_insert :: "'k::linorder \<Rightarrow> 'v \<Rightarrow> ('k, 'v) btree_map \<Rightarrow> ('k, 'v) btree_map" where
  "bt_insert k v [] = [(k, v)]"
| "bt_insert k v ((k', v') # m) =
     (if k < k' then (k, v) # (k', v') # m
      else if k = k' then (k, v) # m
      else (k', v') # bt_insert k v m)"

fun bt_remove :: "'k \<Rightarrow> ('k, 'v) btree_map \<Rightarrow> ('k, 'v) btree_map" where
  "bt_remove k [] = []"
| "bt_remove k ((k', v') # m) = (if k = k' then m else (k', v') # bt_remove k m)"

abbreviation bt_contains :: "('k, 'v) btree_map \<Rightarrow> 'k \<Rightarrow> bool" where
  "bt_contains m k \<equiv> bt_get m k \<noteq> None"

abbreviation bt_keys :: "('k, 'v) btree_map \<Rightarrow> 'k list" where
  "bt_keys m \<equiv> map fst m"

abbreviation bt_values :: "('k, 'v) btree_map \<Rightarrow> 'v list" where
  "bt_values m \<equiv> map snd m"

definition bt_wf :: "('k::linorder, 'v) btree_map \<Rightarrow> bool" where
  "bt_wf m \<longleftrightarrow> sorted_wrt (<) (map fst m)"

text \<open>\<open>collect\<close>ing pairs into a map: later pairs replace earlier ones.\<close>

definition bt_collect :: "('k::linorder \<times> 'v) list \<Rightarrow> ('k, 'v) btree_map" where
  "bt_collect kvs = fold (\<lambda>(k, v). bt_insert k v) kvs bt_empty"

text \<open>\<open>map.range(k..).next()\<close>.\<close>

definition bt_first_at_or_after :: "'k::linorder \<Rightarrow> ('k, 'v) btree_map \<Rightarrow> ('k \<times> 'v) option" where
  "bt_first_at_or_after k m = find (\<lambda>(k', _). k \<le> k') m"

section \<open>The interface\<close>

locale map_interface =
  fixes empty :: "'m"
    and get :: "'m \<Rightarrow> 'k \<Rightarrow> 'v option"
    and put :: "'k \<Rightarrow> 'v \<Rightarrow> 'm \<Rightarrow> 'm"
    and del :: "'k \<Rightarrow> 'm \<Rightarrow> 'm"
    and wf :: "'m \<Rightarrow> bool"
  assumes get_empty: "get empty k = None"
    and get_put: "wf m \<Longrightarrow> get (put k v m) k' = (if k = k' then Some v else get m k')"
    and get_del: "wf m \<Longrightarrow> get (del k m) k' = (if k = k' then None else get m k')"
    and wf_empty: "wf empty"
    and wf_put: "wf m \<Longrightarrow> wf (put k v m)"
    and wf_del: "wf m \<Longrightarrow> wf (del k m)"
begin

lemma get_put_same: "wf m \<Longrightarrow> get (put k v m) k = Some v"
  by (simp add: get_put)

lemma get_put_other: "wf m \<Longrightarrow> k \<noteq> k' \<Longrightarrow> get (put k v m) k' = get m k'"
  by (simp add: get_put)

lemma put_keeps: "wf m \<Longrightarrow> get m k' \<noteq> None \<Longrightarrow> get (put k v m) k' \<noteq> None"
  by (simp add: get_put)

lemma wf_fold_put: "wf m \<Longrightarrow> wf (fold (\<lambda>(k, v). put k v) kvs m)"
  by (induction kvs arbitrary: m) (auto simp: wf_put)

lemma get_fold_put:
  "wf m \<Longrightarrow> get (fold (\<lambda>(k, v). put k v) kvs m) k =
     (case map_of (rev kvs) k of Some v \<Rightarrow> Some v | None \<Rightarrow> get m k)"
proof (induction kvs rule: rev_induct)
  case (snoc kv kvs)
  obtain a b where kv: "kv = (a, b)" by (cases kv)
  have "wf (fold (\<lambda>(k, v). put k v) kvs m)" using snoc.prems by (rule wf_fold_put)
  then show ?case using snoc kv by (simp add: get_put)
qed simp

end

section \<open>Ordered lists implement it\<close>

lemma bt_wf_Nil [simp]: "bt_wf []"
  by (simp add: bt_wf_def)

lemma bt_wf_Cons: "bt_wf ((k, v) # m) \<longleftrightarrow> bt_wf m \<and> (\<forall>k' \<in> fst ` set m. k < k')"
  by (auto simp: bt_wf_def)

lemma fst_set_bt_insert: "fst ` set (bt_insert k v m) = insert k (fst ` set m)"
  by (induction k v m rule: bt_insert.induct) auto

lemma set_bt_insert_subset: "set (bt_insert k v m) \<subseteq> insert (k, v) (set m)"
  by (induction m) (auto split: if_splits)

lemma bt_wf_insert [wf_intros]: "bt_wf m \<Longrightarrow> bt_wf (bt_insert k v m)"
proof (induction k v m rule: bt_insert.induct)
  case (2 k v k' v' m)
  then show ?case
    by (auto simp: bt_wf_Cons fst_set_bt_insert)
qed (simp add: bt_wf_Cons)

lemma fst_set_bt_remove: "bt_wf m \<Longrightarrow> fst ` set (bt_remove k m) = fst ` set m - {k}"
proof (induction m)
  case (Cons kv m)
  then show ?case by (cases kv) (auto simp: bt_wf_Cons)
qed simp

lemma bt_wf_remove [wf_intros]: "bt_wf m \<Longrightarrow> bt_wf (bt_remove k m)"
proof (induction m)
  case (Cons kv m)
  then show ?case by (cases kv) (auto simp: bt_wf_Cons fst_set_bt_remove)
qed simp

lemma bt_get_insert: "bt_get (bt_insert k v m) k' = (if k = k' then Some v else bt_get m k')"
  by (induction k v m rule: bt_insert.induct) (auto simp: bt_get_def)

lemma bt_get_None_keys: "bt_get m k = None \<longleftrightarrow> k \<notin> fst ` set m"
  by (simp add: bt_get_def map_of_eq_None_iff)

lemma bt_get_remove:
  assumes "bt_wf m"
  shows "bt_get (bt_remove k m) k' = (if k = k' then None else bt_get m k')"
  using assms
proof (induction m)
  case (Cons kv m)
  obtain a b where kv: "kv = (a, b)" by (cases kv)
  have "bt_wf m" and "a \<notin> fst ` set m" using Cons.prems kv by (auto simp: bt_wf_Cons)
  then show ?case using Cons.IH kv bt_get_None_keys [of m a]
    by (auto simp: bt_get_def)
qed (simp add: bt_get_def)

interpretation bt: map_interface bt_empty bt_get bt_insert bt_remove bt_wf
  by unfold_locales
    (auto simp: bt_empty_def bt_get_def [of "[]"] bt_get_insert bt_get_remove bt_wf_insert bt_wf_remove)

lemma bt_wf_collect [wf_intros]: "bt_wf (bt_collect kvs)"
  unfolding bt_collect_def by (rule bt.wf_fold_put [OF bt.wf_empty])

lemma bt_get_collect: "bt_get (bt_collect kvs) k = map_of (rev kvs) k"
  unfolding bt_collect_def by (subst bt.get_fold_put [OF bt.wf_empty]) (simp add: bt.get_empty split: option.splits)

lemma bt_get_in_set: "bt_wf m \<Longrightarrow> bt_get m k = Some v \<longleftrightarrow> (k, v) \<in> set m"
  unfolding bt_get_def bt_wf_def
  by (rule map_of_eq_Some_iff) (simp add: strict_sorted_iff)

lemma bt_first_at_or_after_SomeD:
  assumes "bt_first_at_or_after k m = Some (k', v)" and "bt_wf m"
  shows "k \<le> k'" "bt_get m k' = Some v" "\<And>k''. k \<le> k'' \<Longrightarrow> bt_get m k'' \<noteq> None \<Longrightarrow> k' \<le> k''"
proof -
  from assms(1) obtain i where i: "i < length m" "m ! i = (k', v)" "k \<le> k'"
    and before: "\<And>j. j < i \<Longrightarrow> \<not> k \<le> fst (m ! j)"
    unfolding bt_first_at_or_after_def find_Some_iff by (auto simp: case_prod_unfold) (metis fst_conv)
  show "k \<le> k'" by fact
  show "bt_get m k' = Some v"
    using i nth_mem [of i m] by (simp add: bt_get_in_set [OF assms(2)])
  fix k'' assume "k \<le> k''" "bt_get m k'' \<noteq> None"
  then obtain j where j: "j < length m" "fst (m ! j) = k''"
    by (auto simp: bt_get_None_keys in_set_conv_nth)
  with before \<open>k \<le> k''\<close> have "i \<le> j" by (metis linorder_not_le)
  show "k' \<le> k''"
  proof (cases "i = j")
    case True
    then show ?thesis using i j by simp
  next
    case False
    then have "map fst m ! i < map fst m ! j"
      using assms(2) \<open>i \<le> j\<close> j sorted_wrt_nth_less [of "(<)" "map fst m" i j]
      unfolding bt_wf_def by simp
    then show ?thesis using i j by simp
  qed
qed

lemma bt_first_at_or_after_None:
  "bt_first_at_or_after k m = None \<longleftrightarrow> (\<forall>k' \<in> fst ` set m. k' < k)"
  by (auto simp: bt_first_at_or_after_def find_None_iff linorder_not_le)

lemma bt_remove_filter: "bt_wf m \<Longrightarrow> bt_remove k m = filter (\<lambda>(k', _). k' \<noteq> k) m"
proof (induction m)
  case (Cons e m)
  obtain k' v where e: "e = (k', v)" by fastforce
  have later: "k' < fst p" if "p \<in> set m" for p
    using Cons.prems that e by (auto simp: bt_wf_Cons)
  have "filter (\<lambda>(k'', _). k'' \<noteq> k') m = m" by (rule filter_True) (auto dest: later)
  then show ?case using Cons e by (auto simp: bt_wf_Cons)
qed simp

lemma fold_bt_remove: "bt_wf m \<Longrightarrow> fold (\<lambda>(ek, _). bt_remove ek) es m = filter (\<lambda>(ek, _). ek \<notin> fst ` set es) m"
proof (induction es arbitrary: m)
  case (Cons e es)
  then show ?case
    using Cons.IH [OF bt_wf_remove [OF Cons.prems]]
    by (cases e) (auto simp: bt_remove_filter [OF Cons.prems] intro!: filter_cong)
qed (auto intro!: filter_True [symmetric])

end
