(* ===== verification/Knowledge.thy ===== *)
theory Knowledge
  imports BTree_Map
begin

text \<open>
  The embedded knowledge base (\<open>crates/ic10-data/src/lib.rs\<close>): the typed view of the generated
  Stationpedia data that the parser, the analyser and the simulator consult, and its lookups. The
  data itself is an argument of every definition that uses it. A \<open>serde_json::Value\<close> is what its
  accessors \<open>as_f64\<close>, \<open>as_i64\<close> and \<open>as_str\<close> return. The resource, hover and conformance listings
  serve the editor's hover texts only and are left out.
\<close>

record json_value =
  as_f64 :: "f64 option"
  as_i64_value :: "i64 option"
  as_str :: "string option"

record architecture =
  numeric_storage :: string
  general_registers :: string
  arch_return_address :: string
  arch_stack_pointer :: string
  stack_size :: u32
  device_pins :: string
  base_device :: string
  maximum_program_lines :: usize
  maximum_instructions_per_tick :: u32
  tick_seconds :: f64

record operand_info =
  op_label :: string
  operand_type :: string
  op_display :: string

record instruction_info =
  in_category :: string
  in_syntax :: string
  in_description :: string
  in_deprecated :: bool
  in_operands :: "operand_info list"

record constant_info =
  co_value :: json_value
  co_description :: string

record enum_value =
  ev_value :: json_value
  ev_deprecated :: bool
  ev_description :: string

record enum_listing =
  en_display_name :: string
  en_values :: "(string, enum_value) btree_map"

record language_reference =
  lang_schema_version :: u32
  lang_game_version :: string
  lang_architecture :: architecture
  lang_instructions :: "(string, instruction_info) btree_map"
  lang_constants :: "(string, constant_info) btree_map"
  lang_enums :: "(string, enum_listing) btree_map"

record logic_access =
  la_read :: bool
  la_write :: bool

record device_slot =
  sl_name :: string
  sl_type :: string
  sl_hash :: "i32 option"
  sl_logic_types :: "(string, logic_access) btree_map"

record device_connection =
  connection_type :: json_value
  connection_role :: json_value

record device_memory =
  dm_size :: "u32 option"
  dm_access :: "json_value option"

record device_info =
  di_prefab_name :: string
  di_prefab_hash :: i32
  di_display_name :: string
  di_description :: string
  di_logic_types :: "(string, logic_access) btree_map"
  di_slots :: "(string, device_slot) btree_map"
  di_modes :: "(string, json_value) btree_map"
  di_connections :: "device_connection list"
  di_memory :: "device_memory option"

record device_listing =
  dl_schema_version :: u32
  dl_game_version :: string
  dl_devices :: "(string, device_info) btree_map"
  dl_other_logicables :: "(string, device_info) btree_map"

record knowledge_base =
  language :: language_reference
  device_list :: device_listing

definition instruction :: "knowledge_base \<Rightarrow> string \<Rightarrow> instruction_info option" where
  "instruction kb name = bt_get (lang_instructions (language kb)) name"

definition device_by_name :: "knowledge_base \<Rightarrow> string \<Rightarrow> device_info option" where
  "device_by_name kb name =
     (case bt_get (dl_devices (device_list kb)) name of
        Some d \<Rightarrow> Some d
      | None \<Rightarrow> bt_get (dl_other_logicables (device_list kb)) name)"

definition all_devices :: "knowledge_base \<Rightarrow> device_info list" where
  "all_devices kb = bt_values (dl_devices (device_list kb)) @ bt_values (dl_other_logicables (device_list kb))"

definition device_by_hash :: "knowledge_base \<Rightarrow> i32 \<Rightarrow> device_info option" where
  "device_by_hash kb h = find (\<lambda>d. di_prefab_hash d = h) (all_devices kb)"

text \<open>\<open>find_map\<close> over the enums, in the order of their names.\<close>

fun find_enum_value :: "(string \<times> enum_listing) list \<Rightarrow> string \<Rightarrow> (string \<times> enum_value) option" where
  "find_enum_value [] name = None"
| "find_enum_value ((enum_name, listing) # rest) name =
     (case bt_get (en_values listing) name of
        Some v \<Rightarrow> Some (enum_name, v)
      | None \<Rightarrow> find_enum_value rest name)"

definition kb_enum_value :: "knowledge_base \<Rightarrow> string \<Rightarrow> (string \<times> enum_value) option" where
  "kb_enum_value kb name = find_enum_value (lang_enums (language kb)) name"

abbreviation tick_budget :: "knowledge_base \<Rightarrow> u32" where
  "tick_budget kb \<equiv> maximum_instructions_per_tick (lang_architecture (language kb))"

lemma device_by_hash_SomeD:
  "device_by_hash kb h = Some d \<Longrightarrow> d \<in> set (all_devices kb) \<and> di_prefab_hash d = h"
  by (auto simp: device_by_hash_def find_Some_iff)

lemma device_by_name_listed:
  assumes "device_by_name kb name = Some d"
  shows "d \<in> set (all_devices kb)"
  using assms
  by (auto simp: device_by_name_def all_devices_def bt_get_def split: option.splits dest!: map_of_SomeD intro: rev_image_eqI)

lemma find_enum_value_SomeD:
  "find_enum_value es name = Some (e, v) \<Longrightarrow> \<exists>l. (e, l) \<in> set es \<and> bt_get (en_values l) name = Some v"
  by (induction es name rule: find_enum_value.induct) (auto split: option.splits)

end
