(* ===== verification/Ic10_Core.thy ===== *)
theory Ic10_Core
  imports Knowledge
begin

unbundle bit_operations_syntax

text \<open>
  The lexical layer of \<open>crates/ic10-core/src/lib.rs\<close>: literal macros, the Stationeers checksum, the
  packed strings, comments, tokens with their spans, line classification, and the collection of
  labels, defines and aliases with its diagnostics.
\<close>

section \<open>Data\<close>

record span =
  sp_start :: usize
  sp_end :: usize

definition new_span :: "usize \<Rightarrow> usize \<Rightarrow> span" where
  "new_span s e = \<lparr>sp_start = s, sp_end = e\<rparr>"

definition span_contains :: "span \<Rightarrow> usize \<Rightarrow> bool" where
  "span_contains sp offset \<longleftrightarrow> sp_start sp \<le> offset \<and> offset \<le> sp_end sp"

record token =
  tok_text :: string
  tok_span :: span

datatype literal_macro_kind = MacroHash | MacroString

record literal_macro =
  lm_kind :: literal_macro_kind
  lm_value :: string

datatype packed_string_error = NonAscii | TooLong usize

datatype line_kind =
    LEmpty
  | LLabel token
  | LInstruction token "token list"

record parsed_line =
  pl_number :: usize
  pl_span :: span
  pl_code_span :: span
  pl_comment_span :: "span option"
  pl_kind :: line_kind

datatype symbol_kind = SLabel | SDefine | SAlias

record symbol =
  sym_name :: string
  sym_kind :: symbol_kind
  sym_span :: span
  sym_value :: "string option"
  sym_value_span :: "span option"
  sym_line :: usize

datatype severity = SevError | SevWarning | SevInformation | SevHint

record diagnostic =
  dg_span :: span
  dg_severity :: severity
  dg_code :: string
  dg_message :: string
  dg_unnecessary :: bool

section \<open>Literal macros\<close>

fun decode_macro_string :: "string \<Rightarrow> string option" where
  "decode_macro_string [] = Some []"
| "decode_macro_string (c # cs) =
     (if c = CHR 0x5C then
        (case cs of
           [] \<Rightarrow> None
         | e # rest \<Rightarrow>
             map_option (\<lambda>d. (if e = CHR ''n'' then CHR 0x0A
                              else if e = CHR ''r'' then CHR 0x0D
                              else if e = CHR ''t'' then CHR 0x09 else e) # d)
               (decode_macro_string rest))
      else if c = CHR 0x22 then None
      else map_option (\<lambda>d. c # d) (decode_macro_string cs))"

definition hash_open :: string where "hash_open = ''HASH('' @ [CHR 0x22]"
definition str_open :: string where "str_open = ''STR('' @ [CHR 0x22]"
definition macro_close :: string where "macro_close = [CHR 0x22] @ '')''"

definition parse_literal_macro :: "string \<Rightarrow> literal_macro option" where
  "parse_literal_macro token =
     (let encoded = (case Option.bind (strip_prefix hash_open token) (strip_suffix macro_close) of
                       Some value \<Rightarrow> Some (MacroHash, value)
                     | None \<Rightarrow> (case Option.bind (strip_prefix str_open token) (strip_suffix macro_close) of
                                  Some value \<Rightarrow> Some (MacroString, value)
                                | None \<Rightarrow> None))
      in case encoded of
           None \<Rightarrow> None
         | Some (kind, value) \<Rightarrow>
             map_option (\<lambda>d. \<lparr>lm_kind = kind, lm_value = d\<rparr>) (decode_macro_string value))"

section \<open>Checksum and packed strings\<close>

definition crc_bit :: "u32 \<Rightarrow> u32" where
  "crc_bit checksum = (if checksum AND 1 = 1 then drop_bit 1 checksum XOR 0xEDB88320 else drop_bit 1 checksum)"

definition crc_byte :: "u8 \<Rightarrow> u32 \<Rightarrow> u32" where
  "crc_byte byte checksum = (crc_bit ^^ 8) (checksum XOR ucast byte)"

definition bytes :: "string \<Rightarrow> u8 list" where
  "bytes s = map of_char s"

definition stationeers_crc32 :: "string \<Rightarrow> u32" where
  "stationeers_crc32 s = NOT (fold crc_byte (bytes s) (- 1))"

definition max_packed_string_bytes :: usize where
  "max_packed_string_bytes = 6"

definition pack_byte :: "u8 \<Rightarrow> u64 \<Rightarrow> u64" where
  "pack_byte byte packed = push_bit 8 packed OR ucast byte"

definition pack_stationeers_string :: "string \<Rightarrow> packed_string_error + u64" where
  "pack_stationeers_string value =
     (if \<not> is_ascii value then Inl NonAscii
      else if max_packed_string_bytes < length value then Inl (TooLong (length value))
      else Inr (fold pack_byte (bytes value) 0))"

section \<open>Comments, tokens and lines\<close>

fun comment_scan :: "usize \<Rightarrow> bool \<Rightarrow> bool \<Rightarrow> string \<Rightarrow> usize option" where
  "comment_scan index quoted escaped [] = None"
| "comment_scan index quoted escaped (c # cs) =
     (if escaped then comment_scan (Suc index) quoted False cs
      else if c = CHR 0x5C \<and> quoted then comment_scan (Suc index) quoted True cs
      else if c = CHR 0x22 then comment_scan (Suc index) (\<not> quoted) escaped cs
      else if c = CHR ''#'' \<and> \<not> quoted then Some index
      else comment_scan (Suc index) quoted escaped cs)"

definition comment_start :: "string \<Rightarrow> usize option" where
  "comment_start line = comment_scan 0 False False line"

definition slice :: "string \<Rightarrow> usize \<Rightarrow> usize \<Rightarrow> string" where
  "slice s i j = take (j - i) (drop i s)"

definition mk_token :: "string \<Rightarrow> usize \<Rightarrow> usize \<Rightarrow> usize \<Rightarrow> token" where
  "mk_token src base i j = \<lparr>tok_text = slice src i j, tok_span = new_span (base + i) (base + j)\<rparr>"

fun tokenize_scan ::
  "string \<Rightarrow> usize \<Rightarrow> usize \<Rightarrow> usize option \<Rightarrow> bool \<Rightarrow> bool \<Rightarrow> string \<Rightarrow> token list" where
  "tokenize_scan src base index start quoted escaped [] =
     (case start of Some s \<Rightarrow> [mk_token src base s (length src)] | None \<Rightarrow> [])"
| "tokenize_scan src base index start quoted escaped (c # cs) =
     (if is_whitespace c \<and> \<not> quoted then
        (case start of
           Some s \<Rightarrow> mk_token src base s index # tokenize_scan src base (Suc index) None quoted escaped cs
         | None \<Rightarrow> tokenize_scan src base (Suc index) None quoted escaped cs)
      else
        (let start' = Some (case start of Some s \<Rightarrow> s | None \<Rightarrow> index)
         in if escaped then tokenize_scan src base (Suc index) start' quoted False cs
            else if c = CHR 0x5C \<and> quoted then tokenize_scan src base (Suc index) start' quoted True cs
            else if c = CHR 0x22 then tokenize_scan src base (Suc index) start' (\<not> quoted) escaped cs
            else tokenize_scan src base (Suc index) start' quoted escaped cs))"

definition tokenize :: "string \<Rightarrow> usize \<Rightarrow> token list" where
  "tokenize src base_offset = tokenize_scan src base_offset 0 None False False src"

definition classify_line :: "token list \<Rightarrow> line_kind" where
  "classify_line tokens =
     (case tokens of
        [] \<Rightarrow> LEmpty
      | t # ts \<Rightarrow>
          if ts = [] \<and> ends_with '':'' (tok_text t)
          then LLabel \<lparr>tok_text = butlast (tok_text t),
                       tok_span = (tok_span t)\<lparr>sp_end := sp_end (tok_span t) - 1\<rparr>\<rparr>
          else LInstruction t ts)"

text \<open>\<open>source.split_inclusive(newline)\<close>.\<close>

fun split_inclusive :: "string \<Rightarrow> string list" where
  "split_inclusive [] = []"
| "split_inclusive (c # cs) =
     (if c = CHR 0x0A then [c] # split_inclusive cs
      else case split_inclusive cs of
             [] \<Rightarrow> [[c]]
           | l # ls \<Rightarrow> (c # l) # ls)"

definition line_text :: "string \<Rightarrow> string" where
  "line_text line_with_ending =
     (let stripped = (case strip_suffix [CHR 0x0A] line_with_ending of Some t \<Rightarrow> t | None \<Rightarrow> line_with_ending)
      in case strip_suffix [CHR 0x0D] stripped of Some t \<Rightarrow> t | None \<Rightarrow> stripped)"

fun parse_lines :: "usize \<Rightarrow> usize \<Rightarrow> string list \<Rightarrow> parsed_line list" where
  "parse_lines number offset [] = []"
| "parse_lines number offset (l # ls) =
     (let text = line_text l;
          line_end = offset + length text;
          comment_relative = comment_start text;
          src = take (case comment_relative of Some i \<Rightarrow> i | None \<Rightarrow> length text) text;
          tokens = tokenize src offset
      in \<lparr>pl_number = number,
          pl_span = new_span offset line_end,
          pl_code_span = new_span offset (offset + length src),
          pl_comment_span = map_option (\<lambda>start. new_span (offset + start) line_end) comment_relative,
          pl_kind = classify_line tokens\<rparr>
         # parse_lines (Suc number) (offset + length l) ls)"

definition document_lines :: "string \<Rightarrow> parsed_line list" where
  "document_lines source =
     (let lines = parse_lines 0 0 (split_inclusive source)
      in if source = [] then
           lines @ [\<lparr>pl_number = 0, pl_span = new_span 0 0, pl_code_span = new_span 0 0,
                     pl_comment_span = None, pl_kind = LEmpty\<rparr>]
         else if ends_with [CHR 0x0A] source then
           lines @ [\<lparr>pl_number = length lines, pl_span = new_span (length source) (length source),
                     pl_code_span = new_span (length source) (length source),
                     pl_comment_span = None, pl_kind = LEmpty\<rparr>]
         else lines)"

section \<open>Identifiers, registers and branches\<close>

definition is_absolute_branch :: "string \<Rightarrow> bool" where
  "is_absolute_branch mnemonic \<longleftrightarrow>
     mnemonic \<in> {''j'', ''jal''} \<or>
     (starts_with ''b'' mnemonic \<and> \<not> starts_with ''br'' mnemonic \<and>
      mnemonic \<notin> {''bdse'', ''bdns'', ''bdnvl'', ''bdnvs''})"

definition is_identifier :: "string \<Rightarrow> bool" where
  "is_identifier value \<longleftrightarrow>
     (case value of
        [] \<Rightarrow> False
      | c # cs \<Rightarrow> (is_ascii_alphabetic c \<or> c = CHR ''_'') \<and>
                  list_all (\<lambda>c. is_ascii_alphanumeric c \<or> c = CHR ''_'') cs)"

definition is_register :: "string \<Rightarrow> bool" where
  "is_register value \<longleftrightarrow>
     (let direct = dropWhile (\<lambda>c. c = CHR ''r'') value
      in value \<in> {''ra'', ''sp''} \<or>
         (direct \<noteq> [] \<and> length direct < length value \<and>
          (case parse_u8 direct of Some number \<Rightarrow> number \<le> 17 | None \<Rightarrow> False)))"

section \<open>Declarations\<close>

definition insert_symbol ::
  "symbol \<Rightarrow> (string, symbol) btree_map \<times> diagnostic list \<Rightarrow> (string, symbol) btree_map \<times> diagnostic list" where
  "insert_symbol entry st =
     (case st of (symbols, diagnostics) \<Rightarrow>
        case bt_get symbols (sym_name entry) of
          Some previous \<Rightarrow>
            (symbols,
             diagnostics @
               [\<lparr>dg_span = sym_span entry, dg_severity = SevWarning, dg_code = ''duplicate-symbol'',
                 dg_message = ''`'' @ sym_name entry @ ''` is already defined at byte offset ''
                               @ show_nat (sp_start (sym_span previous)) @ ''.'',
                 dg_unnecessary = False\<rparr>])
        | None \<Rightarrow> (bt_insert (sym_name entry) entry symbols, diagnostics))"

definition literal_macro_diagnostics :: "token \<Rightarrow> diagnostic list" where
  "literal_macro_diagnostics operand =
     (case parse_literal_macro (tok_text operand) of
        None \<Rightarrow>
          if starts_with ''HASH('' (tok_text operand) \<or> starts_with ''STR('' (tok_text operand) then
            [\<lparr>dg_span = tok_span operand, dg_severity = SevError, dg_code = ''malformed-literal-macro'',
              dg_message = ''`'' @ tok_text operand @ ''` must use a quoted literal such as `''
                @ (if starts_with ''STR('' (tok_text operand) then ''STR'' else ''HASH'')
                @ ''('' @ [CHR 0x22] @ ''text'' @ [CHR 0x22] @ '')`.'',
              dg_unnecessary = False\<rparr>]
          else []
      | Some literal \<Rightarrow>
          if lm_kind literal \<noteq> MacroString then []
          else (case pack_stationeers_string (lm_value literal) of
                  Inr _ \<Rightarrow> []
                | Inl NonAscii \<Rightarrow>
                    [\<lparr>dg_span = tok_span operand, dg_severity = SevError, dg_code = ''non-ascii-string-literal'',
                      dg_message = ''`STR` supports ASCII characters only because each character occupies one byte.'',
                      dg_unnecessary = False\<rparr>]
                | Inl (TooLong n) \<Rightarrow>
                    [\<lparr>dg_span = tok_span operand, dg_severity = SevError, dg_code = ''string-literal-too-long'',
                      dg_message = ''`STR` supports at most 6 characters; this literal has '' @ show_nat n @ ''.'',
                      dg_unnecessary = False\<rparr>]))"

definition analyze_literal_macros :: "token list \<Rightarrow> diagnostic list" where
  "analyze_literal_macros operands = concat (map literal_macro_diagnostics operands)"

definition operand_count_message :: "string \<Rightarrow> nat \<Rightarrow> nat \<Rightarrow> string" where
  "operand_count_message name expected given =
     ''`'' @ name @ ''` expects '' @ show_nat expected @ '' operand'' @ (if expected = 1 then '''' else ''s'')
       @ '', but '' @ show_nat given @ '' '' @ (if given = 1 then ''was'' else ''were'') @ '' provided.''"

definition instruction_diagnostics :: "token \<Rightarrow> token list \<Rightarrow> instruction_info \<Rightarrow> diagnostic list" where
  "instruction_diagnostics mnemonic operands info =
     (if in_deprecated info then
        [\<lparr>dg_span = tok_span mnemonic, dg_severity = SevHint, dg_code = ''deprecated-instruction'',
          dg_message = ''`'' @ tok_text mnemonic @ ''` is deprecated.'', dg_unnecessary = False\<rparr>]
      else []) @
     (if length operands \<noteq> length (in_operands info) then
        [\<lparr>dg_span = new_span (sp_start (tok_span mnemonic))
                       (case operands of [] \<Rightarrow> sp_end (tok_span mnemonic) | _ \<Rightarrow> sp_end (tok_span (last operands))),
          dg_severity = SevError, dg_code = ''operand-count'',
          dg_message = operand_count_message (tok_text mnemonic) (length (in_operands info)) (length operands),
          dg_unnecessary = False\<rparr>]
      else [])"

definition declare_line ::
  "knowledge_base \<Rightarrow> parsed_line \<Rightarrow> (string, symbol) btree_map \<times> diagnostic list
     \<Rightarrow> (string, symbol) btree_map \<times> diagnostic list" where
  "declare_line kb line st =
     (case st of (symbols, diagnostics) \<Rightarrow>
        case pl_kind line of
          LEmpty \<Rightarrow> (symbols, diagnostics)
        | LLabel name \<Rightarrow>
            if \<not> is_identifier (tok_text name) then
              (symbols, diagnostics @
                 [\<lparr>dg_span = tok_span name, dg_severity = SevError, dg_code = ''invalid-label'',
                   dg_message = ''`'' @ tok_text name @ ''` is not a valid label name.'', dg_unnecessary = False\<rparr>])
            else insert_symbol \<lparr>sym_name = tok_text name, sym_kind = SLabel, sym_span = tok_span name,
                                 sym_value = None, sym_value_span = None, sym_line = pl_number line\<rparr>
                   (symbols, diagnostics)
        | LInstruction mnemonic operands \<Rightarrow>
            (let diagnostics = diagnostics @ analyze_literal_macros operands
             in case instruction kb (tok_text mnemonic) of
                  None \<Rightarrow>
                    (symbols, diagnostics @
                       [\<lparr>dg_span = tok_span mnemonic, dg_severity = SevError, dg_code = ''unknown-instruction'',
                         dg_message = ''Unknown IC10 instruction `'' @ tok_text mnemonic @ ''`.'',
                         dg_unnecessary = False\<rparr>])
                | Some info \<Rightarrow>
                    (let diagnostics = diagnostics @ instruction_diagnostics mnemonic operands info;
                         kind = (if tok_text mnemonic = ''define'' then Some SDefine
                                 else if tok_text mnemonic = ''alias'' then Some SAlias else None)
                     in case (kind, operands) of
                          (Some k, name # rest) \<Rightarrow>
                            if \<not> is_identifier (tok_text name) then
                              (symbols, diagnostics @
                                 [\<lparr>dg_span = tok_span name, dg_severity = SevError, dg_code = ''invalid-symbol'',
                                   dg_message = ''`'' @ tok_text name @ ''` is not a valid symbol name.'',
                                   dg_unnecessary = False\<rparr>])
                            else insert_symbol
                                   \<lparr>sym_name = tok_text name, sym_kind = k, sym_span = tok_span name,
                                    sym_value = map_option tok_text (nth_opt operands 1),
                                    sym_value_span = map_option tok_span (nth_opt operands 1),
                                    sym_line = pl_number line\<rparr>
                                   (symbols, diagnostics)
                        | _ \<Rightarrow> (symbols, diagnostics))))"

definition collect_declarations ::
  "knowledge_base \<Rightarrow> parsed_line list \<Rightarrow> (string, symbol) btree_map \<times> diagnostic list" where
  "collect_declarations kb lines = fold (declare_line kb) lines (bt_empty, [])"

section \<open>Reference definitions\<close>

text \<open>
  What the lexical layer is compared with: the reflected CRC-32 polynomial and its byte table, the
  rendering of a value as a literal macro (the inverse of the decoder), the layout a token list must
  have in its source, and the symbol a single line declares.
\<close>

definition crc_poly :: u32 where
  "crc_poly = 0xEDB88320"

definition crc_table :: "u32 \<Rightarrow> u32" where
  "crc_table i = (crc_bit ^^ 8) i"

definition escape_char :: "char \<Rightarrow> string" where
  "escape_char c = (if c = CHR 0x22 \<or> c = CHR 0x5C then [CHR 0x5C, c]
                    else if c = CHR 0x0A then [CHR 0x5C, CHR ''n'']
                    else if c = CHR 0x0D then [CHR 0x5C, CHR ''r'']
                    else if c = CHR 0x09 then [CHR 0x5C, CHR ''t''] else [c])"

definition escape_string :: "string \<Rightarrow> string" where
  "escape_string s = concat (map escape_char s)"

definition render_macro :: "literal_macro_kind \<Rightarrow> string \<Rightarrow> string" where
  "render_macro k s = (if k = MacroHash then hash_open else str_open) @ escape_string s @ macro_close"

fun laid_out :: "string \<Rightarrow> usize \<Rightarrow> token list \<Rightarrow> bool" where
  "laid_out rest offset [] \<longleftrightarrow> list_all is_whitespace rest"
| "laid_out rest offset (t # ts) \<longleftrightarrow>
     (let gap = sp_start (tok_span t) - offset; n = length (tok_text t)
      in offset \<le> sp_start (tok_span t) \<and> list_all is_whitespace (take gap rest) \<and>
         n \<noteq> 0 \<and> take n (drop gap rest) = tok_text t \<and>
         sp_end (tok_span t) = sp_start (tok_span t) + n \<and>
         laid_out (drop (gap + n) rest) (sp_end (tok_span t)) ts)"

fun unpack_string :: "nat \<Rightarrow> nat \<Rightarrow> string" where
  "unpack_string 0 x = []"
| "unpack_string (Suc n) x = unpack_string n (x div 256) @ [char_of (x mod 256)]"

definition line_texts :: "string \<Rightarrow> string list" where
  "line_texts s = map line_text (split_inclusive s) @ (if s = [] \<or> ends_with [CHR 0x0A] s then [[]] else [])"

definition declared_symbol :: "knowledge_base \<Rightarrow> parsed_line \<Rightarrow> symbol option" where
  "declared_symbol kb line =
     (case pl_kind line of
        LLabel name \<Rightarrow>
          if is_identifier (tok_text name)
          then Some \<lparr>sym_name = tok_text name, sym_kind = SLabel, sym_span = tok_span name,
                     sym_value = None, sym_value_span = None, sym_line = pl_number line\<rparr>
          else None
      | LInstruction mnemonic (name # rest) \<Rightarrow>
          if is_identifier (tok_text name) \<and> tok_text mnemonic \<in> {''define'', ''alias''} \<and>
             instruction kb (tok_text mnemonic) \<noteq> None
          then Some \<lparr>sym_name = tok_text name,
                     sym_kind = (if tok_text mnemonic = ''define'' then SDefine else SAlias),
                     sym_span = tok_span name,
                     sym_value = map_option tok_text (nth_opt rest 0),
                     sym_value_span = map_option tok_span (nth_opt rest 0),
                     sym_line = pl_number line\<rparr>
          else None
      | _ \<Rightarrow> None)"

section \<open>The checksum: lemmas\<close>

lemma xor_eq_0_iff: "a XOR b = 0 \<longleftrightarrow> a = b" for a b :: "'a::len word"
  by (auto simp: bit_eq_iff bit_xor_iff)

lemma xor_right_cancel: "a XOR c = b XOR c \<longleftrightarrow> a = b" for a b c :: "'a::len word"
  by (auto simp: bit_eq_iff bit_xor_iff)

lemma xor_left_cancel: "c XOR a = c XOR b \<longleftrightarrow> a = b" for a b c :: "'a::len word"
  by (auto simp: bit_eq_iff bit_xor_iff)

lemma ucast_u8_u32_inject: "(ucast b :: u32) = ucast c \<longleftrightarrow> b = c" for b c :: u8
proof
  assume eq: "(ucast b :: u32) = ucast c"
  show "b = c"
  proof (rule bit_eqI)
    fix n assume "possible_bit TYPE(u8) n"
    then have "n < 8" by simp
    moreover have "bit (ucast b :: u32) n = bit (ucast c :: u32) n" using eq by simp
    ultimately show "bit b n = bit c n" by (simp add: bit_ucast_iff)
  qed
qed simp

lemma crc_bit_alt: "crc_bit a = drop_bit 1 a XOR (if bit a 0 then crc_poly else 0)"
proof -
  have "a AND 1 = 1 \<longleftrightarrow> bit a 0"
    by (simp add: and_one_eq bit_0 odd_iff_mod_2_eq_one)
  then show ?thesis by (simp add: crc_bit_def crc_poly_def)
qed

lemma crc_bit_xor: "crc_bit (a XOR b) = crc_bit a XOR crc_bit b"
  by (simp add: crc_bit_alt bit_xor_iff drop_bit_xor ac_simps)

lemma crc_bits_xor: "(crc_bit ^^ n) (a XOR b) = (crc_bit ^^ n) a XOR (crc_bit ^^ n) b"
  by (induction n) (simp_all add: crc_bit_xor)

lemma crc_bit_0_iff: "crc_bit a = 0 \<longleftrightarrow> a = 0"
proof
  assume z: "crc_bit a = 0"
  have odd: "\<not> bit a 0"
  proof
    assume "bit a 0"
    then have "drop_bit 1 a = crc_poly" using z by (simp add: crc_bit_alt xor_eq_0_iff)
    then have "bit (drop_bit 1 a) 31 = bit crc_poly 31" by simp
    then have "bit a 32" by (simp add: bit_drop_bit_eq crc_poly_def)
    then show False using bit_imp_le_length [of a 32] by simp
  qed
  show "a = 0"
  proof (rule bit_eqI)
    fix n assume "possible_bit TYPE(u32) n"
    show "bit a n \<longleftrightarrow> bit 0 n"
    proof (cases n)
      case 0
      then show ?thesis using odd by simp
    next
      case (Suc k)
      have "drop_bit 1 a = 0" using z odd by (simp add: crc_bit_alt)
      then have "bit (drop_bit 1 a) k = False" by simp
      then show ?thesis using Suc by (simp add: bit_drop_bit_eq)
    qed
  qed
qed (simp add: crc_bit_alt)

lemma crc_bits_0_iff: "(crc_bit ^^ n) a = 0 \<longleftrightarrow> a = 0"
  by (induction n) (simp_all add: crc_bit_0_iff)

lemma crc_bits_inject: "(crc_bit ^^ n) a = (crc_bit ^^ n) b \<longleftrightarrow> a = b"
proof -
  have "(crc_bit ^^ n) a = (crc_bit ^^ n) b \<longleftrightarrow> (crc_bit ^^ n) (a XOR b) = 0"
    by (simp add: crc_bits_xor xor_eq_0_iff)
  then show ?thesis by (simp add: crc_bits_0_iff xor_eq_0_iff)
qed

lemma crc_byte_inject_state: "crc_byte b s = crc_byte b t \<longleftrightarrow> s = t"
  by (simp add: crc_byte_def crc_bits_inject xor_right_cancel)

lemma crc_byte_inject_byte: "crc_byte b s = crc_byte c s \<longleftrightarrow> b = c"
  by (simp add: crc_byte_def crc_bits_inject xor_left_cancel ucast_u8_u32_inject)

lemma crc_fold_inject: "fold crc_byte bs s = fold crc_byte bs t \<longleftrightarrow> s = t"
  by (induction bs arbitrary: s t) (simp_all add: crc_byte_inject_state)

lemma of_char_u8_inject: "(of_char c :: u8) = of_char d \<longleftrightarrow> c = d"
proof
  assume "(of_char c :: u8) = of_char d"
  then have "(of_nat (of_char c) :: u8) = of_nat (of_char d)" by (simp add: of_nat_of_char)
  then have "unat (of_nat (of_char c) :: u8) = unat (of_nat (of_char d) :: u8)" by simp
  moreover have "(of_char c :: nat) < 2 ^ 8" "(of_char d :: nat) < 2 ^ 8" by simp_all
  ultimately have "(of_char c :: nat) = of_char d" by (simp add: unat_of_nat)
  then show "c = d" by simp
qed simp

text \<open>Two names that differ in exactly one character never have the same checksum, so a mistyped
  prefab or logic name is never silently taken for the intended one.\<close>

theorem crc32_single_character:
  "stationeers_crc32 (u @ c # v) = stationeers_crc32 (u @ d # v) \<longleftrightarrow> c = d"
  by (simp add: stationeers_crc32_def bytes_def crc_fold_inject crc_byte_inject_byte of_char_u8_inject)

lemma crc_bits_shift:
  "\<forall>i < n. \<not> bit a i \<Longrightarrow> (crc_bit ^^ n) a = drop_bit n a"
proof (induction n)
  case (Suc n)
  then have "(crc_bit ^^ n) a = drop_bit n a" by simp
  moreover have "\<not> bit (drop_bit n a) 0" using Suc.prems by (simp add: bit_drop_bit_eq)
  ultimately show ?case by (simp add: crc_bit_alt [of "drop_bit n a"])
qed simp

lemma split_low_byte: "(x :: u32) = (push_bit 8 (drop_bit 8 x)) XOR (x AND 255)"
proof (rule bit_eqI)
  fix n assume "possible_bit TYPE(u32) n"
  then have "n < 32" by simp
  have m: "(255 :: u32) = mask 8" by (simp add: mask_eq_exp_minus_1)
  show "bit x n \<longleftrightarrow> bit ((push_bit 8 (drop_bit 8 x)) XOR (x AND 255)) n"
    unfolding m using \<open>n < 32\<close> by (auto simp: bit_xor_iff bit_and_iff bit_push_bit_iff bit_drop_bit_eq bit_mask_iff)
qed

lemma drop_push_drop: "drop_bit 8 (push_bit 8 (drop_bit 8 x)) = drop_bit 8 x" for x :: u32
  by (rule bit_eqI) (auto simp: bit_drop_bit_eq bit_push_bit_iff dest: bit_imp_le_length)

text \<open>The bit-by-bit update of the checksum is the table-driven CRC-32 step of the reflected
  polynomial: the low byte selects a table entry, the rest of the state is shifted.\<close>

theorem crc_byte_table:
  "crc_byte b s = drop_bit 8 s XOR crc_table ((s XOR ucast b) AND 255)"
proof -
  let ?x = "s XOR ucast b"
  have "crc_byte b s = (crc_bit ^^ 8) (push_bit 8 (drop_bit 8 ?x)) XOR (crc_bit ^^ 8) (?x AND 255)"
    unfolding crc_byte_def crc_bits_xor [symmetric] by (subst split_low_byte) simp
  also have "(crc_bit ^^ 8) (push_bit 8 (drop_bit 8 ?x)) = drop_bit 8 ?x"
  proof -
    have "\<forall>i < 8. \<not> bit (push_bit 8 (drop_bit 8 ?x)) i" by (simp only: bit_push_bit_iff) simp
    then have "(crc_bit ^^ 8) (push_bit 8 (drop_bit 8 ?x)) = drop_bit 8 (push_bit 8 (drop_bit 8 ?x))"
      by (rule crc_bits_shift)
    also have "\<dots> = drop_bit 8 ?x" by (rule drop_push_drop)
    finally show ?thesis .
  qed
  also have "drop_bit 8 ?x = drop_bit 8 s"
    by (rule bit_eqI) (auto simp: bit_drop_bit_eq bit_xor_iff bit_ucast_iff dest: bit_imp_le_length)
  finally show ?thesis by (simp add: crc_table_def)
qed

section \<open>Packed strings, macros and tokens: lemmas\<close>

lemma unat_u8_less: "unat (b :: u8) < 256"
  using unsigned_less [of b, where ?'a = nat] by simp

lemma unat_pack_byte:
  assumes "unat p < 2 ^ 56"
  shows "unat (pack_byte b p) = unat p * 256 + unat b"
proof -
  have "push_bit 8 p AND (ucast b :: u64) = 0"
    by (rule bit_eqI) (auto simp: bit_simps dest: bit_imp_le_length)
  then have "pack_byte b p = p * 256 + ucast b"
    by (simp add: pack_byte_def disjunctive_add_eq_or [symmetric] push_bit_eq_mult)
  moreover have "unat (p * 256) = unat p * 256"
    using assms by (simp add: unat_word_ariths)
  moreover have "unat (ucast b :: u64) = unat b"
    using unat_u8_less [of b] by (simp add: unsigned_ucast_eq take_bit_nat_eq_self)
  ultimately show ?thesis
    using assms unat_u8_less [of b] by (simp add: unat_word_ariths)
qed

lemma pack_fold:
  "length bs + k \<le> 7 \<Longrightarrow> unat p < 256 ^ k \<Longrightarrow>
   unat (fold pack_byte bs p) = foldl (\<lambda>a b. a * 256 + unat b) (unat p) bs \<and>
   unat (fold pack_byte bs p) < 256 ^ (length bs + k)"
proof (induction bs arbitrary: p k)
  case (Cons b bs)
  have "(256::nat) ^ k \<le> 256 ^ 6" using Cons.prems(1) by (intro power_increasing) auto
  then have "unat p < 2 ^ 56" using Cons.prems(2) by simp
  note eq = unat_pack_byte [OF this, of b]
  have "unat (pack_byte b p) < 256 ^ Suc k"
    using Cons.prems(2) unat_u8_less [of b] unfolding eq by simp
  then show ?case using Cons.IH [of "Suc k" "pack_byte b p"] Cons.prems eq by simp
qed simp

lemma decode_escape: "decode_macro_string (escape_string s) = Some s"
  by (induction s) (auto simp: escape_string_def escape_char_def)

lemma comment_scan_escape:
  "comment_scan i True False (escape_string s @ r) = comment_scan (i + length (escape_string s)) True False r"
  by (induction s arbitrary: i) (auto simp: escape_string_def escape_char_def)

lemma tokenize_scan_escape:
  "tokenize_scan src base i (Some st) True False (escape_string s @ r)
     = tokenize_scan src base (i + length (escape_string s)) (Some st) True False r"
  by (induction s arbitrary: i) (auto simp: escape_string_def escape_char_def)

lemma strip_render:
  "parse_literal_macro (render_macro k s) = Some \<lparr>lm_kind = k, lm_value = s\<rparr>"
proof -
  show ?thesis
    by (cases k) (simp_all add: render_macro_def parse_literal_macro_def hash_open_def str_open_def decode_escape)
qed

text \<open>C37: Literal macros survive the whole lexer: for every string value, its rendering as \<open>HASH("..")\<close> or
  \<open>STR("..")\<close> (quotes, backslashes, newlines, tabs, spaces and hash signs included) is one token, a
  comment that follows starts right after it, and it parses back to that value.\<close>

theorem macro_lex_roundtrip:
  "parse_literal_macro (render_macro k s) = Some \<lparr>lm_kind = k, lm_value = s\<rparr> \<and>
   tokenize (render_macro k s) base
     = [\<lparr>tok_text = render_macro k s, tok_span = new_span base (base + length (render_macro k s))\<rparr>] \<and>
   comment_start (render_macro k s @ CHR ''#'' # t) = Some (length (render_macro k s))"
proof -
  have t: "tokenize_scan (render_macro k s) base 0 None False False (render_macro k s)
     = [mk_token (render_macro k s) base 0 (length (render_macro k s))]"
    by (cases k) (simp_all add: render_macro_def hash_open_def str_open_def macro_close_def is_whitespace_def
         code_def tokenize_scan_escape Let_def)
  have c: "comment_start (render_macro k s @ CHR ''#'' # t) = Some (length (render_macro k s))"
    by (cases k) (simp_all add: render_macro_def comment_start_def hash_open_def str_open_def macro_close_def
        comment_scan_escape)
  show ?thesis using strip_render t c by (simp add: tokenize_def mk_token_def slice_def)
qed

lemma laid_out_skip:
  assumes "is_whitespace c" "laid_out cs (Suc off) ts"
  shows "laid_out (c # cs) off ts"
proof (cases ts)
  case (Cons t ts')
  then have "Suc off \<le> sp_start (tok_span t)" using assms(2) by (simp add: Let_def)
  then obtain g where "sp_start (tok_span t) = Suc off + g" using nat_le_iff_add by auto
  then show ?thesis using assms Cons by (auto simp: Let_def Suc_diff_le)
qed (use assms in simp)

lemma tokenize_scan_laid_out:
  assumes "src = pre @ rest" "index = length pre"
  shows "(start = None \<longrightarrow> laid_out rest (base + index) (tokenize_scan src base index start q e rest)) \<and>
    (\<forall>s. start = Some s \<and> s < index \<longrightarrow>
       laid_out (drop s src) (base + s) (tokenize_scan src base index start q e rest))"
  using assms
proof (induction src base index start q e rest arbitrary: pre rule: tokenize_scan.induct)
  case (1 src base index start q e)
  then show ?case by (auto simp: mk_token_def new_span_def slice_def)
next
  case (2 src base index start q e c cs)
  have src: "src = (pre @ [c]) @ cs" "Suc index = length (pre @ [c])" using 2 by auto
  have d: "drop s src = take (index - s) (drop s src) @ c # cs" if "s \<le> index" for s
    using 2(7,8) that by simp
  show ?case
  proof (cases "is_whitespace c \<and> \<not> q")
    case ws: True
    show ?thesis
    proof (cases start)
      case None
      then show ?thesis using 2(1)[OF ws None src] ws by (auto intro: laid_out_skip)
    next
      case (Some s)
      then show ?thesis using 2(2)[OF ws Some src] ws 2(7,8)
        by (auto simp: mk_token_def new_span_def slice_def Let_def intro!: laid_out_skip)
    qed
  next
    case False
    then show ?thesis
      using 2(3)[OF False refl _ src] 2(4)[OF False refl _ _ src] 2(5)[OF False refl _ _ _ src]
        2(6)[OF False refl _ _ _ src] 2(7,8)
      by (auto simp: Let_def split: option.splits)
  qed
qed

text \<open>The tokens of a line lie in it in order and without overlap, each is the text its span selects,
  and everything between, before and after them is white space.\<close>

theorem tokenize_laid_out: "laid_out src base (tokenize src base)"
  using tokenize_scan_laid_out [of src "[]" src 0 None base False False] by (simp add: tokenize_def)

lemma concat_split_inclusive: "concat (split_inclusive s) = s"
  by (induction s) (auto split: list.splits)

section \<open>Lines and declarations: lemmas\<close>

lemma nth_opt_Suc: "nth_opt (x # xs) (Suc i) = nth_opt xs i"
  by (simp add: nth_opt_def)

lemma fst_insert_symbol:
  "fst (insert_symbol e (symbols, ds)) =
     (if bt_get symbols (sym_name e) = None then bt_insert (sym_name e) e symbols else symbols)"
  by (auto simp: insert_symbol_def split: option.splits)

lemma fst_declare_line:
  "fst (declare_line kb line (symbols, ds)) =
     (case declared_symbol kb line of
        None \<Rightarrow> symbols
      | Some e \<Rightarrow> if bt_get symbols (sym_name e) = None then bt_insert (sym_name e) e symbols else symbols)"
  by (auto simp: declare_line_def declared_symbol_def Let_def fst_insert_symbol nth_opt_Suc
        split: line_kind.split option.split list.split)

lemma declare_fold:
  "bt_wf symbols \<Longrightarrow>
   bt_wf (fst (fold (declare_line kb) lines (symbols, ds))) \<and>
   bt_get (fst (fold (declare_line kb) lines (symbols, ds))) n =
     (case bt_get symbols n of
        Some e \<Rightarrow> Some e
      | None \<Rightarrow> List.find (\<lambda>e. sym_name e = n) (List.map_filter (declared_symbol kb) lines))"
proof (induction lines arbitrary: symbols ds)
  case (Cons line lines)
  obtain symbols' ds' where st: "declare_line kb line (symbols, ds) = (symbols', ds')" by fastforce
  then have s': "symbols' = (case declared_symbol kb line of None \<Rightarrow> symbols
      | Some e \<Rightarrow> if bt_get symbols (sym_name e) = None then bt_insert (sym_name e) e symbols else symbols)"
    using fst_declare_line [of kb line symbols ds] by simp
  have wf: "bt_wf symbols'" using s' Cons.prems by (auto simp: bt_wf_insert split: option.splits)
  show ?case
  proof (cases "declared_symbol kb line")
    case None
    then show ?thesis using Cons.IH [OF wf] s' st by (simp split: option.split)
  next
    case (Some e)
    then show ?thesis using Cons.IH [OF wf] s' st Cons.prems
      by (auto simp: bt_get_insert split: option.splits)
  qed
qed (simp split: option.split)

text \<open>The symbol table binds each name to the first line that declares it: later labels, defines and
  aliases of the same name never replace it.\<close>

theorem declarations_first_wins:
  "bt_get (fst (collect_declarations kb lines)) n =
     List.find (\<lambda>e. sym_name e = n) (List.map_filter (declared_symbol kb) lines)"
  using declare_fold [of bt_empty kb lines "[]" n] by (simp add: collect_declarations_def bt_empty_def bt_wf_def bt_get_def)

lemma parse_lines_nth:
  "k < length ls \<Longrightarrow>
   pl_number (parse_lines number offset ls ! k) = number + k \<and>
   pl_span (parse_lines number offset ls ! k)
     = new_span (offset + length (concat (take k ls))) (offset + length (concat (take k ls)) + length (line_text (ls ! k)))"
proof (induction ls arbitrary: number offset k)
  case (Cons l ls)
  then show ?case by (cases k) (auto simp: Let_def add.assoc)
qed simp

lemma length_parse_lines [simp]: "length (parse_lines number offset ls) = length ls"
  by (induction ls arbitrary: number offset) (simp_all add: Let_def)

lemma length_bytes [simp]: "length (bytes s) = length s"
  by (simp add: bytes_def)

lemma pack_ok_iff:
  "pack_stationeers_string s = Inr w \<longleftrightarrow> is_ascii s \<and> length s \<le> 6 \<and> w = fold pack_byte (bytes s) 0"
  by (auto simp: pack_stationeers_string_def max_packed_string_bytes_def)

lemma pack_value:
  assumes "length s \<le> 6"
  shows "unat (fold pack_byte (bytes s) 0) = foldl (\<lambda>a b. a * 256 + unat b) 0 (bytes s)"
    and "unat (fold pack_byte (bytes s) 0) < 2 ^ 48"
proof -
  note p = pack_fold [of "bytes s" 0 0]
  show "unat (fold pack_byte (bytes s) 0) = foldl (\<lambda>a b. a * 256 + unat b) 0 (bytes s)"
    using p assms by simp
  have "unat (fold pack_byte (bytes s) 0) < 256 ^ length s" using p assms by simp
  also have "(256::nat) ^ length s \<le> 256 ^ 6" using assms by (intro power_increasing) auto
  finally show "unat (fold pack_byte (bytes s) 0) < 2 ^ 48" by simp
qed

text \<open>The value of a \<open>STR\<close> literal fits 48 bits, so the conversion \<open>packed as f64\<close> that the simulator
  applies to it loses nothing: reading the double back as an integer gives the packed word.\<close>

theorem pack_exact:
  assumes "pack_stationeers_string s = Inr w"
  shows "unat w < 2 ^ 48 \<and> f64_int (f64_of_u64 w) = uint w"
proof -
  have b: "unat w < 2 ^ 48" using assms pack_value(2) by (auto simp: pack_ok_iff)
  obtain n where n: "unat w = n" by simp
  then have "uint w = int n" by (metis of_nat_unat)
  then have "\<bar>uint w\<bar> < 2 ^ 53" using b n by simp
  then show ?thesis using b f64_int_of_int by blast
qed

theorem pack_exact_witness:
  "pack_stationeers_string ''Hello!'' = Inr 0x48656C6C6F21 \<and>
   unat (0x48656C6C6F21 :: u64) < 2 ^ 48 \<and> f64_int (f64_of_u64 0x48656C6C6F21) = uint (0x48656C6C6F21 :: u64)"
proof -
  have *: "pack_stationeers_string ''Hello!'' = Inr 0x48656C6C6F21" by code_simp
  show ?thesis using pack_exact [OF *] * by blast
qed


lemma unat_of_char: "unat (of_char c :: u8) = of_char c"
proof -
  have "(of_char c :: u8) = of_nat (of_char c)" by (simp add: of_nat_of_char)
  moreover have "(of_char c :: nat) < 2 ^ 8" by simp
  ultimately show ?thesis by (simp add: unat_of_nat)
qed

lemma unpack_base256: "unpack_string (length s) (foldl (\<lambda>a b. a * 256 + unat b) 0 (bytes s)) = s"
  by (induction s rule: rev_induct) (simp_all add: bytes_def unat_of_char)

text \<open>Packing a \<open>STR\<close> literal loses no character: the characters are the base-256 digits of the
  packed word, so unpacking as many digits as the literal has characters gives the literal back.\<close>

theorem pack_roundtrip:
  assumes "pack_stationeers_string s = Inr w"
  shows "unpack_string (length s) (unat w) = s"
  using assms pack_value(1) [of s] by (simp add: pack_ok_iff unpack_base256)

theorem pack_roundtrip_witness:
  "pack_stationeers_string ''Hi #1'' = Inr 0x4869202331 \<and> unpack_string 5 (unat (0x4869202331 :: u64)) = ''Hi #1''"
proof -
  have *: "pack_stationeers_string ''Hi #1'' = Inr 0x4869202331" by code_simp
  have "length ''Hi #1'' = 5" by simp
  then show ?thesis using pack_roundtrip [OF *] * by metis
qed

lemma line_text_prefix: "\<exists>e. l = line_text l @ e"
proof -
  have *: "\<exists>e. x = (case strip_suffix p x of Some t \<Rightarrow> t | None \<Rightarrow> x) @ e" for x p
    by (cases "strip_suffix p x") (auto simp: strip_suffix_eq_Some)
  obtain e where "l = (case strip_suffix [CHR 0x0A] l of Some t \<Rightarrow> t | None \<Rightarrow> l) @ e" (is "l = ?s @ e")
    using * by blast
  moreover obtain e' where "?s = line_text l @ e'" using * [of ?s "[CHR 0x0D]"] by (auto simp: line_text_def Let_def)
  ultimately show ?thesis by (metis append.assoc)
qed

lemma slice_concat:
  assumes "k < length ls"
  shows "slice (concat ls) (length (concat (take k ls))) (length (concat (take k ls)) + length (line_text (ls ! k)))
    = line_text (ls ! k)"
proof -
  obtain e where e: "ls ! k = line_text (ls ! k) @ e" using line_text_prefix by blast
  have "concat ls = concat (take k ls) @ ls ! k @ concat (drop (Suc k) ls)"
    using assms id_take_nth_drop [of k ls] by (metis concat.simps(2) concat_append)
  also have "\<dots> = concat (take k ls) @ line_text (ls ! k) @ e @ concat (drop (Suc k) ls)"
    using e by (metis append.assoc)
  finally show ?thesis by (simp add: slice_def)
qed

lemma document_lines_split:
  "document_lines s = parse_lines 0 0 (split_inclusive s) @
     (if s = [] \<or> ends_with [CHR 0x0A] s
      then [\<lparr>pl_number = length (split_inclusive s), pl_span = new_span (length s) (length s),
              pl_code_span = new_span (length s) (length s), pl_comment_span = None, pl_kind = LEmpty\<rparr>] else [])"
  by (auto simp: document_lines_def Let_def)

text \<open>The parsed lines are the lines of the source: line \<open>k\<close> carries number \<open>k\<close>, and its span selects
  exactly the text of line \<open>k\<close> without its line ending.\<close>

theorem document_lines_faithful:
  assumes "k < length (document_lines s)"
  shows "pl_number (document_lines s ! k) = k \<and>
    slice s (sp_start (pl_span (document_lines s ! k))) (sp_end (pl_span (document_lines s ! k))) = line_texts s ! k"
  using assms parse_lines_nth [of k "split_inclusive s" 0 0] slice_concat [of k "split_inclusive s"]
  by (auto simp: document_lines_split line_texts_def nth_append new_span_def concat_split_inclusive slice_def split: if_splits)

theorem document_lines_faithful_witness:
  "pl_number (document_lines (''yield'' @ [CHR 0x0D, CHR 0x0A] @ ''j 0'') ! 1) = 1 \<and>
   slice (''yield'' @ [CHR 0x0D, CHR 0x0A] @ ''j 0'')
     (sp_start (pl_span (document_lines (''yield'' @ [CHR 0x0D, CHR 0x0A] @ ''j 0'') ! 1)))
     (sp_end (pl_span (document_lines (''yield'' @ [CHR 0x0D, CHR 0x0A] @ ''j 0'') ! 1))) = ''j 0''"
proof -
  let ?s = "''yield'' @ [CHR 0x0D, CHR 0x0A] @ ''j 0''"
  have k: "1 < length (document_lines ?s)" by code_simp
  have "line_texts ?s ! 1 = ''j 0''" by code_simp
  then show ?thesis using document_lines_faithful [OF k] by simp
qed


lemma ends_with_single: "ends_with [c] s \<longleftrightarrow> s \<noteq> [] \<and> last s = c"
  by (cases s rule: rev_cases) (auto simp: ends_with_iff)

lemma split_inclusive_Nil_iff: "split_inclusive s = [] \<longleftrightarrow> s = []"
  by (cases s) (auto split: list.splits)

lemma length_split_inclusive:
  "length (split_inclusive s) + (if s = [] \<or> ends_with [CHR 0x0A] s then 1 else 0)
     = Suc (length (filter (\<lambda>c. c = CHR 0x0A) s))"
proof (induction s)
  case (Cons c cs)
  then show ?case by (auto simp: ends_with_single split_inclusive_Nil_iff split: list.splits if_splits)
qed simp

lemma document_line_count: "length (document_lines s) = Suc (length (filter (\<lambda>c. c = CHR 0x0A) s))"
  using length_split_inclusive [of s] by (simp add: document_lines_split split: if_splits)

end
