(* ===== verification/Journal.thy ===== *)
theory Journal
  imports Float64 BTree_Map "HOL-Library.List_Lexorder" "HOL-Library.Char_ord"
begin

text \<open>
  The effect journal of \<open>crates/ic10-sim/src/journal.rs\<close>: interned symbols, the pending batch of
  read and write effects, and the sequenced history of writes that debugger clients consume through
  a cursor. The history counter is a wrapping \<open>u64\<close>.
\<close>

section \<open>Effects\<close>

datatype symbol_id = SymbolId (id_bits: u32)

instantiation symbol_id :: linorder
begin

definition less_eq_symbol_id :: "symbol_id \<Rightarrow> symbol_id \<Rightarrow> bool" where
  "less_eq_symbol_id a b \<longleftrightarrow> id_bits a \<le> id_bits b"

definition less_symbol_id :: "symbol_id \<Rightarrow> symbol_id \<Rightarrow> bool" where
  "less_symbol_id a b \<longleftrightarrow> id_bits a < id_bits b"

instance
  by standard (auto simp: less_eq_symbol_id_def less_symbol_id_def symbol_id.expand)

end

datatype effect_actor =
    ActorIc (actor_cpu: usize) (actor_source: symbol_id) (actor_line: usize)
  | ActorBehaviour usize symbol_id u32
  | ActorScriptedDriver symbol_id u32
  | ActorScenario
  | ActorDebugger
  | ActorScheduler

datatype effect_target =
    TRegister usize u8
  | TStack usize u16
  | TCpuPc usize
  | TCpuState usize
  | TCpuError usize
  | TCpuOperations usize
  | TCpuRandom usize
  | TSchedulerCpu
  | TTick
  | TDeviceField usize symbol_id
  | TDeviceSlot usize u16 symbol_id
  | TDeviceMemory usize u32
  | TNetworkChannel usize u8
  | TBehaviourState usize symbol_id
  | TDriverState symbol_id

record read_effect =
  re_actor :: effect_actor
  re_target :: effect_target
  re_value_bits :: u64

record write_effect =
  we_actor :: effect_actor
  we_target :: effect_target
  we_before_bits :: u64
  we_after_bits :: u64
  we_attempted :: bool

record sequenced_write_effect =
  sw_sequence :: u64
  sw_effect :: write_effect

record effect_batch =
  eb_reads :: "read_effect list"
  eb_writes :: "write_effect list"

record effect_journal =
  j_enabled :: bool
  j_symbols :: "string list"
  j_symbol_ids :: "(string, symbol_id) btree_map"
  j_pending :: effect_batch
  j_next_write_sequence :: u64
  j_write_history :: "sequenced_write_effect list"

section \<open>Operations\<close>

definition empty_batch :: effect_batch where
  "empty_batch = \<lparr>eb_reads = [], eb_writes = []\<rparr>"

definition empty_journal :: effect_journal where
  "empty_journal = \<lparr>j_enabled = False, j_symbols = [], j_symbol_ids = bt_empty, j_pending = empty_batch,
     j_next_write_sequence = 0, j_write_history = []\<rparr>"

definition j_set_enabled :: "bool \<Rightarrow> effect_journal \<Rightarrow> effect_journal" where
  "j_set_enabled enabled j =
     (let j = j\<lparr>j_enabled := enabled\<rparr> in if enabled then j else j\<lparr>j_pending := empty_batch\<rparr>)"

definition j_intern :: "string \<Rightarrow> effect_journal \<Rightarrow> symbol_id \<times> effect_journal" where
  "j_intern value j =
     (case bt_get (j_symbol_ids j) value of
        Some i \<Rightarrow> (i, j)
      | None \<Rightarrow>
          (let i = SymbolId (of_nat (length (j_symbols j)))
           in (i, j\<lparr>j_symbols := j_symbols j @ [value], j_symbol_ids := bt_insert value i (j_symbol_ids j)\<rparr>)))"

definition j_resolve :: "effect_journal \<Rightarrow> symbol_id \<Rightarrow> string option" where
  "j_resolve j i = nth_opt (j_symbols j) (unat (id_bits i))"

definition j_read :: "effect_actor \<Rightarrow> effect_target \<Rightarrow> f64 \<Rightarrow> effect_journal \<Rightarrow> effect_journal" where
  "j_read actor target value j =
     (if j_enabled j then
        j\<lparr>j_pending := (j_pending j)\<lparr>eb_reads := eb_reads (j_pending j) @
            [\<lparr>re_actor = actor, re_target = target, re_value_bits = to_bits value\<rparr>]\<rparr>\<rparr>
      else j)"

text \<open>The three updates that both \<open>write_bits\<close> and \<open>extend\<close> make for one effect.\<close>

definition j_push_write :: "write_effect \<Rightarrow> effect_journal \<Rightarrow> effect_journal" where
  "j_push_write effect j =
     (let next = j_next_write_sequence j + 1
      in j\<lparr>j_pending := (j_pending j)\<lparr>eb_writes := eb_writes (j_pending j) @ [effect]\<rparr>,
           j_next_write_sequence := next,
           j_write_history := j_write_history j @ [\<lparr>sw_sequence = next, sw_effect = effect\<rparr>]\<rparr>)"

definition j_write_bits ::
  "effect_actor \<Rightarrow> effect_target \<Rightarrow> u64 \<Rightarrow> u64 \<Rightarrow> effect_journal \<Rightarrow> effect_journal" where
  "j_write_bits actor target before_bits after_bits j =
     (if j_enabled j then
        j_push_write \<lparr>we_actor = actor, we_target = target, we_before_bits = before_bits,
                      we_after_bits = after_bits, we_attempted = True\<rparr> j
      else j)"

definition j_write :: "effect_actor \<Rightarrow> effect_target \<Rightarrow> f64 \<Rightarrow> f64 \<Rightarrow> effect_journal \<Rightarrow> effect_journal" where
  "j_write actor target before after j = j_write_bits actor target (to_bits before) (to_bits after) j"

definition j_take :: "effect_journal \<Rightarrow> effect_batch \<times> effect_journal" where
  "j_take j = (j_pending j, j\<lparr>j_pending := empty_batch\<rparr>)"

definition j_extend :: "effect_batch \<Rightarrow> effect_journal \<Rightarrow> effect_journal" where
  "j_extend batch j =
     (if j_enabled j then
        fold j_push_write (eb_writes batch)
          (j\<lparr>j_pending := (j_pending j)\<lparr>eb_reads := eb_reads (j_pending j) @ eb_reads batch\<rparr>\<rparr>)
      else j)"

definition j_write_sequence :: "effect_journal \<Rightarrow> u64" where
  "j_write_sequence j = j_next_write_sequence j"

definition j_writes_after :: "effect_journal \<Rightarrow> u64 \<Rightarrow> sequenced_write_effect list" where
  "j_writes_after j sequence = filter (\<lambda>w. sequence < sw_sequence w) (j_write_history j)"

definition j_acknowledge_writes_through :: "u64 \<Rightarrow> effect_journal \<Rightarrow> effect_journal" where
  "j_acknowledge_writes_through sequence j =
     j\<lparr>j_write_history := dropWhile (\<lambda>w. sw_sequence w \<le> sequence) (j_write_history j)\<rparr>"

definition j_restore_write_sequence :: "u64 \<Rightarrow> effect_journal \<Rightarrow> effect_journal" where
  "j_restore_write_sequence sequence j =
     j\<lparr>j_next_write_sequence := sequence, j_write_history := [], j_pending := empty_batch\<rparr>"

section \<open>Invariants\<close>

text \<open>
  The symbol table and its index are inverse to each other, and the history is the run of
  consecutive sequence numbers that ends at the counter. The second half is stated over the
  natural value of the counter, so it holds as long as the counter has not wrapped.
\<close>

definition symbols_wf :: "effect_journal \<Rightarrow> bool" where
  "symbols_wf j \<longleftrightarrow> bt_wf (j_symbol_ids j) \<and>
     (\<forall>v i. bt_get (j_symbol_ids j) v = Some i \<longleftrightarrow>
        unat (id_bits i) < length (j_symbols j) \<and> j_symbols j ! unat (id_bits i) = v)"

definition history_wf :: "effect_journal \<Rightarrow> bool" where
  "history_wf j \<longleftrightarrow>
     length (j_write_history j) \<le> unat (j_next_write_sequence j) \<and>
     (\<forall>i < length (j_write_history j).
        unat (sw_sequence (j_write_history j ! i))
          = unat (j_next_write_sequence j) - length (j_write_history j) + Suc i)"

text \<open>One call on the journal, as a client makes it, and the write effects it adds to the history.\<close>

datatype journal_call =
    CSetEnabled bool
  | CIntern string
  | CRead effect_actor effect_target f64
  | CWriteBits effect_actor effect_target u64 u64
  | CTake
  | CExtend effect_batch
  | CAcknowledge u64
  | CRestore u64

fun do_call :: "journal_call \<Rightarrow> effect_journal \<Rightarrow> effect_journal" where
  "do_call (CSetEnabled b) j = j_set_enabled b j"
| "do_call (CIntern v) j = snd (j_intern v j)"
| "do_call (CRead a t v) j = j_read a t v j"
| "do_call (CWriteBits a t b c) j = j_write_bits a t b c j"
| "do_call CTake j = snd (j_take j)"
| "do_call (CExtend b) j = j_extend b j"
| "do_call (CAcknowledge s) j = j_acknowledge_writes_through s j"
| "do_call (CRestore s) j = j_restore_write_sequence s j"

fun call_writes :: "journal_call \<Rightarrow> write_effect list" where
  "call_writes (CWriteBits a t b c) =
     [\<lparr>we_actor = a, we_target = t, we_before_bits = b, we_after_bits = c, we_attempted = True\<rparr>]"
| "call_writes (CExtend b) = eb_writes b"
| "call_writes _ = []"

fun calls_writes :: "bool \<Rightarrow> journal_call list \<Rightarrow> write_effect list" where
  "calls_writes enabled [] = []"
| "calls_writes enabled (CSetEnabled b # cs) = calls_writes b cs"
| "calls_writes enabled (c # cs) = (if enabled then call_writes c else []) @ calls_writes enabled cs"

text \<open>A call that leaves the writes after the cursor alone.\<close>

fun acknowledged_through :: "u64 \<Rightarrow> journal_call \<Rightarrow> bool" where
  "acknowledged_through cursor (CAcknowledge s) \<longleftrightarrow> s \<le> cursor"
| "acknowledged_through cursor (CRestore s) \<longleftrightarrow> False"
| "acknowledged_through cursor _ \<longleftrightarrow> True"

text \<open>
  The abstract queue that the history stands for: whether writes are recorded, the number of the last write that was released,
  and the writes after it, numbered one by one. Acknowledging releases a prefix, restoring a sequence empties
  the queue and continues from its number.
\<close>

record write_queue =
  wq_recording :: bool
  wq_released :: nat
  wq_writes :: "write_effect list"

fun queue_call :: "journal_call \<Rightarrow> write_queue \<Rightarrow> write_queue" where
  "queue_call (CSetEnabled b) q = q\<lparr>wq_recording := b\<rparr>"
| "queue_call (CAcknowledge s) q =
     (let k = min (unat s - wq_released q) (length (wq_writes q))
      in q\<lparr>wq_released := wq_released q + k, wq_writes := drop k (wq_writes q)\<rparr>)"
| "queue_call (CRestore s) q = q\<lparr>wq_released := unat s, wq_writes := []\<rparr>"
| "queue_call c q = (if wq_recording q then q\<lparr>wq_writes := wq_writes q @ call_writes c\<rparr> else q)"

definition queue_of :: "effect_journal \<Rightarrow> write_queue" where
  "queue_of j = \<lparr>wq_recording = j_enabled j, wq_released = unat (j_next_write_sequence j) - length (j_write_history j),
     wq_writes = map sw_effect (j_write_history j)\<rparr>"

text \<open>The writes with their numbers, and those a client with a cursor has not seen.\<close>

definition numbered_writes :: "write_queue \<Rightarrow> (nat \<times> write_effect) list" where
  "numbered_writes q = List.enumerate (Suc (wq_released q)) (wq_writes q)"

definition unseen :: "nat \<Rightarrow> write_queue \<Rightarrow> (nat \<times> write_effect) list" where
  "unseen cursor q = filter (\<lambda>(n, w). cursor < n) (numbered_writes q)"

text \<open>The 64-bit counter never wraps during the calls.\<close>

fun counter_suffices :: "journal_call list \<Rightarrow> write_queue \<Rightarrow> bool" where
  "counter_suffices [] q \<longleftrightarrow> True"
| "counter_suffices (c # cs) q \<longleftrightarrow>
     (let q' = queue_call c q in wq_released q' + length (wq_writes q') < 2 ^ 64 \<and> counter_suffices cs q')"

definition sequenced :: "sequenced_write_effect \<Rightarrow> nat \<times> write_effect" where
  "sequenced w = (unat (sw_sequence w), sw_effect w)"

definition represents :: "write_queue \<Rightarrow> effect_journal \<Rightarrow> bool" where
  "represents q j \<longleftrightarrow> wq_recording q = j_enabled j \<and>
     unat (j_next_write_sequence j) = wq_released q + length (wq_writes q) \<and>
     map sequenced (j_write_history j) = numbered_writes q"

section \<open>Interning\<close>

lemma symbols_wf_empty: "symbols_wf empty_journal"
  by (simp add: symbols_wf_def empty_journal_def bt_empty_def bt_get_def)

lemma symbols_wf_cong:
  "j_symbols j' = j_symbols j \<Longrightarrow> j_symbol_ids j' = j_symbol_ids j \<Longrightarrow> symbols_wf j' \<longleftrightarrow> symbols_wf j"
  by (simp add: symbols_wf_def)

lemma symbols_wf_intern:
  assumes "symbols_wf j" "length (j_symbols j) < 2 ^ 32"
  shows "symbols_wf (snd (j_intern v j))"
proof (cases "bt_get (j_symbol_ids j) v")
  case None
  let ?n = "length (j_symbols j)"
  let ?i = "SymbolId (of_nat ?n)"
  have n: "unat (of_nat ?n :: u32) = ?n" using assms(2) by (simp add: unat_of_nat)
  have fresh: "\<not> (k < ?n \<and> j_symbols j ! k = v)" for k
  proof
    assume k: "k < ?n \<and> j_symbols j ! k = v"
    then have "unat (of_nat k :: u32) = k" using assms(2) by (simp add: unat_of_nat)
    then have "bt_get (j_symbol_ids j) v = Some (SymbolId (of_nat k))"
      using assms(1) k by (simp add: symbols_wf_def)
    then show False using None by simp
  qed
  have "bt_get (bt_insert v ?i (j_symbol_ids j)) w = Some i \<longleftrightarrow>
      unat (id_bits i) < Suc ?n \<and> (j_symbols j @ [v]) ! unat (id_bits i) = w" for w i
  proof -
    have eq: "?i = i \<longleftrightarrow> unat (id_bits i) = ?n" using n by (cases i) (auto simp: word_unat_eq_iff)
    show ?thesis
      using assms(1) fresh [of "unat (id_bits i)"] None eq
      by (auto simp: bt_get_insert symbols_wf_def nth_append less_Suc_eq)
  qed
  then show ?thesis
    using None assms(1) by (simp add: j_intern_def symbols_wf_def bt_wf_insert Let_def)
qed (use assms in \<open>simp add: j_intern_def\<close>)

lemma resolve_intern:
  assumes "symbols_wf j" "length (j_symbols j) < 2 ^ 32"
  shows "j_resolve (snd (j_intern v j)) (fst (j_intern v j)) = Some v"
  using assms by (auto simp: j_intern_def j_resolve_def symbols_wf_def nth_opt_def Let_def unat_of_nat split: option.split)

lemma resolve_intern_other:
  assumes "j_resolve j i = Some w"
  shows "j_resolve (snd (j_intern v j)) i = Some w"
  using assms by (auto simp: j_intern_def j_resolve_def nth_opt_def Let_def nth_append split: option.split if_splits)

section \<open>The write history\<close>

lemma history_wf_push:
  assumes "history_wf j" "unat (j_next_write_sequence j) + 1 < 2 ^ 64"
  shows "history_wf (j_push_write e j)"
    and "unat (j_next_write_sequence (j_push_write e j)) = unat (j_next_write_sequence j) + 1"
proof -
  show u: "unat (j_next_write_sequence (j_push_write e j)) = unat (j_next_write_sequence j) + 1"
    using assms(2) by (simp add: j_push_write_def Let_def unat_word_ariths)
  show "history_wf (j_push_write e j)"
    using assms(1) u by (auto simp: history_wf_def j_push_write_def Let_def nth_append less_Suc_eq)
qed

lemma writes_after_push:
  assumes "s \<le> j_next_write_sequence j" "unat (j_next_write_sequence j) + 1 < 2 ^ 64"
  shows "map sw_effect (j_writes_after (j_push_write e j) s) = map sw_effect (j_writes_after j s) @ [e]"
    and "s \<le> j_next_write_sequence (j_push_write e j)"
proof -
  have "unat (j_next_write_sequence j + 1) = unat (j_next_write_sequence j) + 1"
    using assms(2) by (simp add: unat_word_ariths)
  then have "s < j_next_write_sequence j + 1"
    using assms(1) by (simp add: word_le_nat_alt word_less_nat_alt)
  then show "map sw_effect (j_writes_after (j_push_write e j) s) = map sw_effect (j_writes_after j s) @ [e]"
    and "s \<le> j_next_write_sequence (j_push_write e j)"
    by (auto simp: j_writes_after_def j_push_write_def Let_def)
qed

text \<open>What a run of calls has to keep for a client that last saw sequence \<open>s\<close>.\<close>

definition cursor_ok :: "u64 \<Rightarrow> effect_journal \<Rightarrow> bool" where
  "cursor_ok s j \<longleftrightarrow> history_wf j \<and> s \<le> j_next_write_sequence j"

lemma cursor_ok_cong:
  "j_next_write_sequence j' = j_next_write_sequence j \<Longrightarrow> j_write_history j' = j_write_history j \<Longrightarrow>
   cursor_ok s j' \<longleftrightarrow> cursor_ok s j"
  by (simp add: cursor_ok_def history_wf_def)

lemma push_writes:
  assumes "cursor_ok s j" "unat (j_next_write_sequence j) + length es < 2 ^ 64"
  shows "cursor_ok s (fold j_push_write es j) \<and>
    unat (j_next_write_sequence (fold j_push_write es j)) = unat (j_next_write_sequence j) + length es \<and>
    map sw_effect (j_writes_after (fold j_push_write es j) s) = map sw_effect (j_writes_after j s) @ es"
  using assms
proof (induction es arbitrary: j)
  case (Cons e es)
  have n: "unat (j_next_write_sequence j) + 1 < 2 ^ 64" using Cons.prems(2) by simp
  have "cursor_ok s (j_push_write e j)"
    using Cons.prems(1) history_wf_push(1) [OF _ n] writes_after_push(2) [OF _ n] by (simp add: cursor_ok_def)
  then show ?case
    using Cons history_wf_push(2) [OF _ n] writes_after_push(1) [OF _ n] by (simp add: cursor_ok_def)
qed simp

lemma history_wf_dropWhile:
  assumes "history_wf j"
  shows "history_wf (j\<lparr>j_write_history := drop k (j_write_history j)\<rparr>)"
  using assms by (auto simp: history_wf_def)

lemma acknowledge_drop:
  "\<exists>k. j_acknowledge_writes_through q j = j\<lparr>j_write_history := drop k (j_write_history j)\<rparr>"
  by (auto simp: j_acknowledge_writes_through_def dropWhile_eq_drop)

lemma filter_dropWhile:
  "(\<And>x. P x \<Longrightarrow> \<not> Q x) \<Longrightarrow> filter Q (dropWhile P xs) = filter Q xs"
  by (induction xs) auto

lemma writes_after_acknowledge:
  "q \<le> s \<Longrightarrow> j_writes_after (j_acknowledge_writes_through q j) s = j_writes_after j s"
  unfolding j_writes_after_def j_acknowledge_writes_through_def
  by (auto intro!: filter_dropWhile)

lemma call_step:
  assumes "cursor_ok s j" "acknowledged_through s c"
    and "unat (j_next_write_sequence j) + length (if j_enabled j then call_writes c else []) < 2 ^ 64"
  shows "cursor_ok s (do_call c j) \<and>
    unat (j_next_write_sequence (do_call c j))
      = unat (j_next_write_sequence j) + length (if j_enabled j then call_writes c else []) \<and>
    map sw_effect (j_writes_after (do_call c j) s)
      = map sw_effect (j_writes_after j s) @ (if j_enabled j then call_writes c else []) \<and>
    j_enabled (do_call c j) = (case c of CSetEnabled b \<Rightarrow> b | _ \<Rightarrow> j_enabled j)"
proof -
  have enabled_push: "j_enabled (fold j_push_write es k) = j_enabled k" for es k
    by (induction es arbitrary: k) (simp_all add: j_push_write_def Let_def)
  show ?thesis
  proof (cases c)
    case (CExtend b)
    let ?k = "j\<lparr>j_pending := (j_pending j)\<lparr>eb_reads := eb_reads (j_pending j) @ eb_reads b\<rparr>\<rparr>"
    have "cursor_ok s ?k" using assms(1) by (simp add: cursor_ok_def history_wf_def)
    from push_writes [OF this, of "eb_writes b"] show ?thesis
      using assms CExtend enabled_push by (cases "j_enabled j") (simp_all add: j_extend_def j_writes_after_def)
  next
    case (CWriteBits a t x y)
    then show ?thesis
      using assms push_writes [OF assms(1), of "call_writes c"] enabled_push [of "call_writes c" j]
      by (cases "j_enabled j") (simp_all add: j_write_bits_def)
  next
    case (CAcknowledge q)
    moreover obtain k where "j_acknowledge_writes_through q j = j\<lparr>j_write_history := drop k (j_write_history j)\<rparr>"
      using acknowledge_drop by blast
    ultimately show ?thesis
      using assms writes_after_acknowledge [of q s j] history_wf_dropWhile [of j k]
      by (simp add: cursor_ok_def)
  next
    case (CIntern v)
    then show ?thesis using assms
      by (simp add: j_intern_def Let_def cursor_ok_def history_wf_def j_writes_after_def split: option.split)
  qed (use assms in \<open>simp_all add: j_set_enabled_def j_read_def j_take_def Let_def cursor_ok_def
        history_wf_def j_writes_after_def\<close>)
qed

lemma calls_writes_Cons:
  "calls_writes enabled (c # cs) =
     (if enabled then call_writes c else []) @ calls_writes (case c of CSetEnabled b \<Rightarrow> b | _ \<Rightarrow> enabled) cs"
  by (cases c) simp_all

lemma calls_run:
  assumes "cursor_ok s j" "list_all (acknowledged_through s) cs"
    and "unat (j_next_write_sequence j) + length (calls_writes (j_enabled j) cs) < 2 ^ 64"
  shows "cursor_ok s (fold do_call cs j) \<and>
    unat (j_next_write_sequence (fold do_call cs j))
      = unat (j_next_write_sequence j) + length (calls_writes (j_enabled j) cs) \<and>
    map sw_effect (j_writes_after (fold do_call cs j) s)
      = map sw_effect (j_writes_after j s) @ calls_writes (j_enabled j) cs"
  using assms
proof (induction cs arbitrary: j)
  case (Cons c cs)
  have "cursor_ok s j" "acknowledged_through s c"
    "unat (j_next_write_sequence j) + length (if j_enabled j then call_writes c else []) < 2 ^ 64"
    using Cons.prems by (auto simp: calls_writes_Cons)
  note step = call_step [OF this]
  have "unat (j_next_write_sequence (do_call c j)) + length (calls_writes (j_enabled (do_call c j)) cs) < 2 ^ 64"
    using Cons.prems(3) step by (simp add: calls_writes_Cons)
  from Cons.IH [OF _ _ this] show ?case
    using Cons.prems(2) step by (simp add: calls_writes_Cons)
qed simp

section \<open>The interface of an interner\<close>

text \<open>
  What a client of the symbol table relies on: interning keeps the table well formed and resolves to
  the interned text, and it never changes what another id resolves to. \<open>room\<close> is the number of
  further symbols that still get an id of their own.
\<close>

locale interner =
  fixes intern :: "'k \<Rightarrow> 's \<Rightarrow> 'i \<times> 's"
    and resolve :: "'s \<Rightarrow> 'i \<Rightarrow> 'k option"
    and ok :: "'s \<Rightarrow> bool"
    and room :: "'s \<Rightarrow> nat"
  assumes intern_ok: "ok s \<Longrightarrow> 0 < room s \<Longrightarrow> ok (snd (intern v s))"
    and intern_resolves: "ok s \<Longrightarrow> 0 < room s \<Longrightarrow> resolve (snd (intern v s)) (fst (intern v s)) = Some v"
    and intern_keeps: "resolve s i = Some w \<Longrightarrow> resolve (snd (intern v s)) i = Some w"
    and intern_room: "room s \<le> Suc (room (snd (intern v s)))"
begin

fun intern_all :: "'k list \<Rightarrow> 's \<Rightarrow> 'i list \<times> 's" where
  "intern_all [] s = ([], s)"
| "intern_all (v # vs) s =
     (let (i, s') = intern v s; (is, s'') = intern_all vs s' in (i # is, s''))"

lemma intern_all_keeps: "resolve s i = Some w \<Longrightarrow> resolve (snd (intern_all vs s)) i = Some w"
proof (induction vs arbitrary: s)
  case (Cons v vs)
  then show ?case using intern_keeps [OF Cons.prems, of v] by (simp add: split_beta Let_def)
qed simp

lemma intern_all_resolves:
  assumes "ok s" "length vs \<le> room s"
  shows "map (resolve (snd (intern_all vs s))) (fst (intern_all vs s)) = map Some vs"
  using assms
proof (induction vs arbitrary: s)
  case (Cons v vs)
  let ?s = "snd (intern v s)"
  have "0 < room s" using Cons.prems(2) by simp
  then have ok: "ok ?s" and r: "resolve ?s (fst (intern v s)) = Some v"
    using Cons.prems(1) by (auto intro: intern_ok intern_resolves)
  have "length vs \<le> room ?s" using Cons.prems(2) intern_room [of s v] by simp
  with Cons.IH [OF ok] intern_all_keeps [OF r, of vs] show ?case by (simp add: split_beta Let_def)
qed simp

end

definition symbol_room :: "effect_journal \<Rightarrow> nat" where
  "symbol_room j = 2 ^ 32 - length (j_symbols j)"

interpretation sym_table: interner j_intern j_resolve symbols_wf symbol_room
proof unfold_locales
  show "symbols_wf s \<Longrightarrow> 0 < symbol_room s \<Longrightarrow> symbols_wf (snd (j_intern v s))" for s v
    by (rule symbols_wf_intern) (simp_all add: symbol_room_def)
  show "symbols_wf s \<Longrightarrow> 0 < symbol_room s \<Longrightarrow>
      j_resolve (snd (j_intern v s)) (fst (j_intern v s)) = Some v" for s v
    by (rule resolve_intern) (simp_all add: symbol_room_def)
  show "j_resolve s i = Some w \<Longrightarrow> j_resolve (snd (j_intern v s)) i = Some w" for s i w v
    by (rule resolve_intern_other)
  show "symbol_room s \<le> Suc (symbol_room (snd (j_intern v s)))" for s v
    by (auto simp: symbol_room_def j_intern_def Let_def split: option.split)
qed

section \<open>Properties\<close>

text \<open>Interned names stay readable. After any number of \<open>intern\<close> calls that still fit the \<open>u32\<close>
  ids, every id handed out, the early ones included, resolves to the name it was handed out for.\<close>

theorem intern_all_resolve:
  assumes "symbols_wf j" "length (j_symbols j) + length vs \<le> 2 ^ 32"
  shows "map (j_resolve (snd (sym_table.intern_all vs j))) (fst (sym_table.intern_all vs j)) = map Some vs"
  using assms by (intro sym_table.intern_all_resolves) (simp_all add: symbol_room_def)

theorem intern_all_resolve_witness:
  "map (j_resolve (snd (sym_table.intern_all [''On'', ''Setting'', ''On''] empty_journal)))
     (fst (sym_table.intern_all [''On'', ''Setting'', ''On''] empty_journal))
   = map Some [''On'', ''Setting'', ''On'']"
  by (rule intern_all_resolve [OF symbols_wf_empty]) (simp add: empty_journal_def)

lemma represents_queue_of: "history_wf j \<Longrightarrow> represents (queue_of j) j"
  by (auto simp: represents_def queue_of_def history_wf_def numbered_writes_def sequenced_def intro!: nth_equalityI
      simp: nth_enumerate_eq)

lemma represents_push:
  assumes "represents q j" "wq_released q + length (wq_writes q) + 1 < 2 ^ 64"
  shows "represents (q\<lparr>wq_writes := wq_writes q @ [e]\<rparr>) (j_push_write e j)"
proof -
  have "unat (j_next_write_sequence j) + 1 < 2 ^ 64" using assms by (simp add: represents_def)
  then have "unat (j_next_write_sequence j + 1) = unat (j_next_write_sequence j) + 1" by (simp add: unat_add_lem [THEN iffD1])
  then show ?thesis
    using assms(1) by (simp add: represents_def j_push_write_def Let_def numbered_writes_def sequenced_def enumerate_append_eq)
qed

lemma represents_pushes:
  assumes "represents q j" "wq_released q + length (wq_writes q @ es) < 2 ^ 64"
  shows "represents (q\<lparr>wq_writes := wq_writes q @ es\<rparr>) (fold j_push_write es j)"
  using assms
proof (induction es arbitrary: q j)
  case (Cons e es)
  have "represents (q\<lparr>wq_writes := wq_writes q @ [e]\<rparr>) (j_push_write e j)" using Cons.prems by (intro represents_push) simp_all
  from Cons.IH [OF this] show ?case using Cons.prems(2) by simp
qed simp

lemma numbered_after:
  "dropWhile (\<lambda>(n, w). n \<le> s) (List.enumerate (Suc r) ws) =
     List.enumerate (Suc (r + min (s - r) (length ws))) (drop (min (s - r) (length ws)) ws)"
proof (induction ws arbitrary: r)
  case (Cons w ws)
  show ?case
  proof (cases "s - r")
    case (Suc k)
    then have "s - Suc r = k" by simp
    then show ?thesis using Suc Cons [of "Suc r"] by simp
  qed simp
qed simp

lemma represents_call:
  assumes "represents q j" "let q' = queue_call c q in wq_released q' + length (wq_writes q') < 2 ^ 64"
  shows "represents (queue_call c q) (do_call c j)"
proof (cases c)
  case (CExtend b)
  let ?k = "j\<lparr>j_pending := (j_pending j)\<lparr>eb_reads := eb_reads (j_pending j) @ eb_reads b\<rparr>\<rparr>"
  have k: "represents q ?k" using assms(1) by (simp add: represents_def)
  show ?thesis using represents_pushes [OF k, of "eb_writes b"] assms CExtend by (auto simp: j_extend_def Let_def represents_def)
next
  case (CWriteBits a t x y)
  show ?thesis using represents_pushes [OF assms(1), of "call_writes c"] assms CWriteBits
    by (auto simp: j_write_bits_def Let_def represents_def)
next
  case (CAcknowledge s)
  have "map sequenced (dropWhile (\<lambda>w. sw_sequence w \<le> s) ws) = dropWhile (\<lambda>(n, w). n \<le> unat s) (map sequenced ws)" for ws
    by (induction ws) (simp_all add: sequenced_def word_le_nat_alt)
  then show ?thesis using assms(1) CAcknowledge
    by (simp add: represents_def j_acknowledge_writes_through_def numbered_writes_def numbered_after Let_def)
next
  case (CIntern v)
  then show ?thesis using assms(1) by (simp add: represents_def j_intern_def Let_def split: option.split)
qed (use assms(1) in \<open>simp_all add: represents_def j_set_enabled_def j_read_def j_take_def j_restore_write_sequence_def
       numbered_writes_def Let_def\<close>)

lemma represents_calls:
  "represents q j \<Longrightarrow> counter_suffices cs q \<Longrightarrow> represents (fold queue_call cs q) (fold do_call cs j)"
  by (induction cs arbitrary: q j) (simp_all add: represents_call Let_def)

lemma represents_unseen: "represents q j \<Longrightarrow> map sequenced (j_writes_after j s) = unseen (unat s) q"
proof -
  have "map sequenced (filter (\<lambda>w. s < sw_sequence w) ws) = filter (\<lambda>(n, w). unat s < n) (map sequenced ws)" for ws
    by (induction ws) (simp_all add: sequenced_def word_less_nat_alt)
  then show "represents q j \<Longrightarrow> ?thesis" by (simp add: represents_def j_writes_after_def unseen_def)
qed

lemma queue_count:
  "list_all (acknowledged_through s) cs \<Longrightarrow>
    (let q' = fold queue_call cs q in wq_released q' + length (wq_writes q'))
      = wq_released q + length (wq_writes q) + length (calls_writes (wq_recording q) cs)"
proof (induction cs arbitrary: q)
  case (Cons c cs)
  then show ?case by (cases c) (simp_all add: Let_def calls_writes_Cons)
qed simp

lemma counter_suffices_last:
  "counter_suffices cs q \<Longrightarrow> wq_released q + length (wq_writes q) < 2 ^ 64 \<Longrightarrow>
    (let q' = fold queue_call cs q in wq_released q' + length (wq_writes q')) < 2 ^ 64"
  by (induction cs arbitrary: q) (simp_all add: Let_def)

text \<open>C16: The journal is a queue of numbered writes. After any calls whatever (recording switched off and on, batches taken by
  other consumers, acknowledgements of any client, sequences restored from a checkpoint), polling \<open>writes_after\<close> with any
  cursor gives exactly the writes of the abstract queue numbered above the cursor, in order, and without changing them. So a client
  that polls with the sequence it last saw receives every write made since exactly once, provided no other client
  acknowledges beyond its cursor and no sequence is restored meanwhile. (The 64-bit counter must not wrap.)\<close>

theorem writes_delivered_exactly_once:
  assumes "history_wf j" "counter_suffices cs (queue_of j)"
  shows "map sequenced (j_writes_after (fold do_call cs j) cursor) = unseen (unat cursor) (fold queue_call cs (queue_of j)) \<and>
    (list_all (acknowledged_through (j_write_sequence j)) cs \<longrightarrow>
       map sw_effect (j_writes_after (fold do_call cs j) (j_write_sequence j)) = calls_writes (j_enabled j) cs)"
proof -
  note rep = represents_queue_of [OF assms(1)]
  have seen: "j_writes_after j (j_write_sequence j) = []"
    using assms(1)
    by (auto simp: j_writes_after_def j_write_sequence_def history_wf_def filter_empty_conv in_set_conv_nth
        word_less_nat_alt)
  have count: "wq_released (queue_of j) + length (wq_writes (queue_of j)) = unat (j_write_sequence j)"
    using assms(1) by (simp add: queue_of_def history_wf_def j_write_sequence_def)
  have "map sw_effect (j_writes_after (fold do_call cs j) (j_write_sequence j)) = calls_writes (j_enabled j) cs"
    if cs: "list_all (acknowledged_through (j_write_sequence j)) cs"
  proof -
    have "unat (j_write_sequence j) + length (calls_writes (j_enabled j) cs) < 2 ^ 64"
      using counter_suffices_last [OF assms(2)] count queue_count [OF cs, of "queue_of j"] unsigned_less [of "j_write_sequence j"]
      by (simp add: queue_of_def)
    then show ?thesis
      using calls_run [of "j_write_sequence j" j cs] assms(1) cs seen by (simp add: cursor_ok_def j_write_sequence_def)
  qed
  then show ?thesis using represents_unseen [OF represents_calls [OF rep assms(2)]] by blast
qed

theorem writes_delivered_exactly_once_witness:
  "map sequenced (j_writes_after (fold do_call
       [CSetEnabled True, CWriteBits ActorDebugger TTick 0 1, CTake, CAcknowledge 7, CWriteBits ActorDebugger TTick 1 2,
        CRestore 5, CWriteBits ActorDebugger TTick 2 3] empty_journal) 5)
   = [(6, \<lparr>we_actor = ActorDebugger, we_target = TTick, we_before_bits = 2, we_after_bits = 3, we_attempted = True\<rparr>)] \<and>
   map sw_effect (j_writes_after (fold do_call
       [CSetEnabled True, CWriteBits ActorDebugger TTick 0 1, CTake, CAcknowledge 0, CSetEnabled False,
        CWriteBits ActorDebugger TTick 1 2] empty_journal) (j_write_sequence empty_journal))
   = [\<lparr>we_actor = ActorDebugger, we_target = TTick, we_before_bits = 0, we_after_bits = 1, we_attempted = True\<rparr>]"
proof -
  let ?cs = "[CSetEnabled True, CWriteBits ActorDebugger TTick 0 1, CTake, CAcknowledge 7, CWriteBits ActorDebugger TTick 1 2,
        CRestore 5, CWriteBits ActorDebugger TTick 2 3]"
    and ?ds = "[CSetEnabled True, CWriteBits ActorDebugger TTick 0 1, CTake, CAcknowledge 0, CSetEnabled False,
        CWriteBits ActorDebugger TTick 1 2]"
  have wf: "history_wf empty_journal" by (simp add: history_wf_def empty_journal_def)
  have suffices: "counter_suffices ?cs (queue_of empty_journal)" "counter_suffices ?ds (queue_of empty_journal)"
    by (simp_all add: queue_of_def empty_journal_def Let_def)
  have "unseen (unat (5 :: u64)) (fold queue_call ?cs (queue_of empty_journal))
    = [(6, \<lparr>we_actor = ActorDebugger, we_target = TTick, we_before_bits = 2, we_after_bits = 3, we_attempted = True\<rparr>)]"
    by (simp add: unseen_def numbered_writes_def queue_of_def empty_journal_def Let_def)
  moreover have "calls_writes (j_enabled empty_journal) ?ds
    = [\<lparr>we_actor = ActorDebugger, we_target = TTick, we_before_bits = 0, we_after_bits = 1, we_attempted = True\<rparr>]"
    "list_all (acknowledged_through (j_write_sequence empty_journal)) ?ds"
    by (simp_all add: empty_journal_def j_write_sequence_def)
  ultimately show ?thesis
    using writes_delivered_exactly_once [OF wf suffices(1), of 5] writes_delivered_exactly_once [OF wf suffices(2), of 0] by simp
qed

end
