(* ===== verification/World.thy ===== *)
theory World
  imports Ic10_Core Journal
begin

text \<open>
  The simulated world of \<open>crates/ic10-sim/src/world.rs\<close> with the scenario specifications it is built
  from (\<open>crates/ic10-sim/src/scenario.rs\<close>): networks with their channels, devices with logic fields,
  slots, memory and connections, and the access-checked reads and writes of logic fields. A
  \<open>HashMap\<close> is a HOL map, a \<open>BTreeMap\<close> the sorted list of its entries.
\<close>

section \<open>Scenario specifications\<close>

datatype scalar = ScalarNumber f64 | ScalarText string

record network_spec =
  ns_id :: string
  ns_kind :: string
  ns_cable_role :: "string option"
  ns_channels :: "(string, scalar) btree_map"

record ic_spec =
  ic_program :: "string option"
  ic_enabled :: bool
  ic_pins :: "(string, string) btree_map"
  ic_registers :: "(string, scalar) btree_map"
  ic_stack :: "(string, scalar) btree_map"

record device_spec =
  ds_id :: string
  ds_prefab :: string
  ds_name :: string
  ds_reference_id :: "i32 option"
  ds_connections :: "(string, string) btree_map"
  ds_fields :: "(string, scalar) btree_map"
  ds_slots :: "(string, (string, scalar) btree_map) btree_map"
  ds_memory :: "(string, scalar) btree_map"
  ds_ic :: "ic_spec option"
  ds_program :: "string option"

definition scalar_as_f64 :: "scalar \<Rightarrow> f64 option" where
  "scalar_as_f64 s =
     (case s of
        ScalarNumber v \<Rightarrow> Some v
      | ScalarText t \<Rightarrow>
          if t \<in> {''NaN'', ''nan''} then Some f64_nan
          else if t \<in> {''Infinity'', ''+Infinity'', ''inf'', ''+inf''} then Some f64_infinity
          else if t \<in> {''-Infinity'', ''-inf''} then Some f64_neg_infinity
          else if t = ''-0'' then Some f64_neg_zero
          else parse_f64 t)"

section \<open>World state\<close>

record network =
  nw_id :: string
  nw_kind :: string
  nw_cable_role :: string
  nw_channels :: "f64 list"

record device =
  dv_id :: string
  dv_prefab :: string
  dv_prefab_hash :: i32
  dv_name :: string
  dv_name_hash :: i32
  dv_reference_id :: i32
  dv_fields :: "(string, f64) btree_map"
  dv_slots :: "(usize, (string, f64) btree_map) btree_map"
  dv_memory :: "f64 list"
  dv_connections :: "(usize, usize) btree_map"

record world =
  w_networks :: "network list"
  w_devices :: "device list"
  w_network_ids :: "string \<rightharpoonup> usize"
  w_device_ids :: "string \<rightharpoonup> usize"
  w_reference_ids :: "i32 \<rightharpoonup> usize"
  w_field_writes :: "(usize \<times> string \<times> f64 \<times> f64) list"

text \<open>The errors of \<open>World::build\<close>, one constructor per message.\<close>

datatype world_error =
    DuplicateNetwork string
  | InvalidCableRole string string
  | CableRoleOnNonCable string
  | InvalidChannel string string
  | NotANumber scalar
  | DuplicateDevice string
  | UnknownDevicePrefab string
  | DuplicateReference i32
  | UnsupportedField string string
  | InvalidSlot string string
  | MissingSlot string string
  | UnsupportedSlotField string string string
  | NoAddressableMemory string
  | InvalidMemoryAddress string string
  | MemoryAddressExceeds string usize usize
  | InvalidConnection string string
  | UnknownNetwork string string
  | MissingConnection string usize
  | InvalidConnectionType string usize
  | IncompatibleConnection string usize string string

text \<open>The errors of field accesses.\<close>

datatype field_error =
    ChannelNeedsConnection string
  | NotAttached string usize
  | NotCableNetwork string
  | UnknownPrefab string
  | FieldNotExposed string string
  | FieldNotReadable string string
  | FieldNotWritable string string
  | FieldHasNoValue string string

section \<open>Helpers\<close>

definition channel_index :: "string \<Rightarrow> usize option" where
  "channel_index value =
     Option.bind (parse_usize (case strip_prefix ''Channel'' value of Some v \<Rightarrow> v | None \<Rightarrow> value))
       (\<lambda>i. if i < 8 then Some i else None)"

definition network_accepts_connection :: "network \<Rightarrow> string \<Rightarrow> bool" where
  "network_accepts_connection n ctype \<longleftrightarrow>
     (if ctype = ''Data'' then
        eq_ignore_ascii_case (nw_kind n) ''cable'' \<and> nw_cable_role n \<in> {''data'', ''powerAndData''}
      else if ctype = ''Power'' then
        eq_ignore_ascii_case (nw_kind n) ''cable'' \<and> nw_cable_role n \<in> {''power'', ''powerAndData''}
      else if ctype = ''PowerAndData'' then eq_ignore_ascii_case (nw_kind n) ''cable''
      else if ctype = ''Chute'' then eq_ignore_ascii_case (nw_kind n) ''chute''
      else if ctype = ''Pipe'' then eq_ignore_ascii_case (nw_kind n) ''gas''
      else if ctype = ''PipeLiquid'' then eq_ignore_ascii_case (nw_kind n) ''liquid''
      else False)"

definition scalar_value :: "scalar \<Rightarrow> (world_error, f64) outcome" where
  "scalar_value s = o_ok_or (NotANumber s) (scalar_as_f64 s)"

section \<open>Building the world\<close>

definition empty_world :: world where
  "empty_world = \<lparr>w_networks = [], w_devices = [], w_network_ids = Map.empty, w_device_ids = Map.empty,
     w_reference_ids = Map.empty, w_field_writes = []\<rparr>"

definition build_cable_role :: "network_spec \<Rightarrow> (world_error, string) outcome" where
  "build_cable_role spec =
     (if eq_ignore_ascii_case (ns_kind spec) ''cable'' then
        (let role = (case ns_cable_role spec of Some r \<Rightarrow> r | None \<Rightarrow> ''powerAndData'')
         in if role \<notin> {''data'', ''power'', ''powerAndData''}
            then Err (InvalidCableRole (ns_id spec) role) else Ok role)
      else if ns_cable_role spec \<noteq> None then Err (CableRoleOnNonCable (ns_id spec))
      else Ok '''')"

definition build_channels :: "network_spec \<Rightarrow> (world_error, f64 list) outcome" where
  "build_channels spec =
     ofold (\<lambda>(name, value) channels.
         obind (o_ok_or (InvalidChannel (ns_id spec) name) (channel_index name)) (\<lambda>index.
         obind (scalar_value value) (\<lambda>v. Ok (channels[index := v]))))
       (ns_channels spec) (replicate 8 f64_nan)"

definition build_network :: "network_spec \<Rightarrow> world \<Rightarrow> (world_error, world) outcome" where
  "build_network spec w =
     (if w_network_ids w (ns_id spec) \<noteq> None then Err (DuplicateNetwork (ns_id spec))
      else obind (build_cable_role spec) (\<lambda>role.
           obind (build_channels spec) (\<lambda>channels.
             Ok (w\<lparr>w_network_ids := (w_network_ids w)(ns_id spec \<mapsto> length (w_networks w)),
                   w_networks := w_networks w @
                     [\<lparr>nw_id = ns_id spec, nw_kind = ns_kind spec, nw_cable_role = role,
                       nw_channels = channels\<rparr>]\<rparr>))))"

text \<open>
  \<open>while world.reference_ids.contains_key(&next) { next += 1 }\<close> with the wrapping increment of the
  release build. The fuel is one more than the number of devices built so far, which the theorem
  \<open>free_reference_found\<close> below shows to be enough.
\<close>

fun free_reference :: "nat \<Rightarrow> (i32 \<rightharpoonup> usize) \<Rightarrow> i32 \<Rightarrow> i32 option" where
  "free_reference 0 ids next = None"
| "free_reference (Suc fuel) ids next =
     (if ids next = None then Some next else free_reference fuel ids (next + 1))"

definition build_reference :: "device_spec \<Rightarrow> world \<Rightarrow> i32 \<Rightarrow> (world_error, i32 \<times> i32) outcome" where
  "build_reference spec w next =
     (case ds_reference_id spec of
        Some r \<Rightarrow> Ok (r, next)
      | None \<Rightarrow> obind (o_expect (free_reference (Suc (length (w_devices w))) (w_reference_ids w) next))
                  (\<lambda>v. Ok (v, v + 1)))"

definition zero_fields :: "(string, logic_access) btree_map \<Rightarrow> (string, f64) btree_map" where
  "zero_fields types = bt_collect (map (\<lambda>name. (name, f64_zero)) (bt_keys types))"

definition build_fields ::
  "device_spec \<Rightarrow> device_info \<Rightarrow> i32 \<Rightarrow> i32 \<Rightarrow> (world_error, (string, f64) btree_map) outcome" where
  "build_fields spec metadata name_hash reference_id =
     ofold (\<lambda>(field, value) fields.
         if bt_get (di_logic_types metadata) field = None then Err (UnsupportedField (ds_id spec) field)
         else obind (scalar_value value) (\<lambda>v. Ok (bt_insert field v fields)))
       (ds_fields spec)
       (bt_insert ''ReferenceId'' (f64_of_i32 reference_id)
         (bt_insert ''NameHash'' (f64_of_i32 name_hash)
           (bt_insert ''PrefabHash'' (f64_of_i32 (di_prefab_hash metadata))
             (zero_fields (di_logic_types metadata)))))"

definition initial_slot ::
  "string \<times> device_slot \<Rightarrow> (usize, (string, f64) btree_map) btree_map \<Rightarrow> (usize, (string, f64) btree_map) btree_map" where
  "initial_slot entry slots =
     (case entry of (slot, info) \<Rightarrow>
        case parse_usize slot of
          None \<Rightarrow> slots
        | Some index \<Rightarrow> bt_insert index (zero_fields (sl_logic_types info)) slots)"

definition initial_slots :: "device_info \<Rightarrow> (usize, (string, f64) btree_map) btree_map" where
  "initial_slots metadata = fold initial_slot (di_slots metadata) bt_empty"

definition build_slot_fields ::
  "device_spec \<Rightarrow> string \<Rightarrow> device_slot \<Rightarrow> (string, scalar) btree_map \<Rightarrow> (string, f64) btree_map
     \<Rightarrow> (world_error, (string, f64) btree_map) outcome" where
  "build_slot_fields spec slot slot_metadata slot_fields values =
     ofold (\<lambda>(field, value) values.
         if bt_get (sl_logic_types slot_metadata) field = None
         then Err (UnsupportedSlotField (ds_id spec) slot field)
         else obind (scalar_value value) (\<lambda>v. Ok (bt_insert field v values)))
       slot_fields values"

definition build_slot ::
  "device_spec \<Rightarrow> device_info \<Rightarrow> string \<times> (string, scalar) btree_map \<Rightarrow> (usize, (string, f64) btree_map) btree_map
     \<Rightarrow> (world_error, (usize, (string, f64) btree_map) btree_map) outcome" where
  "build_slot spec metadata entry slots =
     (case entry of (slot, slot_fields) \<Rightarrow>
        obind (o_ok_or (InvalidSlot (ds_id spec) slot) (parse_usize slot)) (\<lambda>index.
        obind (o_ok_or (MissingSlot (ds_id spec) slot) (bt_get (di_slots metadata) slot)) (\<lambda>slot_metadata.
        obind (o_expect (bt_get slots index)) (\<lambda>values.
        obind (build_slot_fields spec slot slot_metadata slot_fields values) (\<lambda>values.
        Ok (bt_insert index values slots))))))"

definition build_slots ::
  "device_spec \<Rightarrow> device_info \<Rightarrow> (world_error, (usize, (string, f64) btree_map) btree_map) outcome" where
  "build_slots spec metadata = ofold (build_slot spec metadata) (ds_slots spec) (initial_slots metadata)"

definition metadata_size :: "device_info \<Rightarrow> usize" where
  "metadata_size metadata = (case Option.bind (di_memory metadata) dm_size of Some n \<Rightarrow> unat n | None \<Rightarrow> 0)"

definition build_memory :: "device_spec \<Rightarrow> device_info \<Rightarrow> (world_error, f64 list) outcome" where
  "build_memory spec metadata =
     (if metadata_size metadata = 0 \<and> ds_memory spec \<noteq> [] then Err (NoAddressableMemory (ds_id spec))
      else ofold (\<lambda>(address, value) memory.
          obind (o_ok_or (InvalidMemoryAddress (ds_id spec) address) (parse_usize address)) (\<lambda>address.
          if metadata_size metadata \<le> address
          then Err (MemoryAddressExceeds (ds_id spec) address (metadata_size metadata - 1))
          else obind (scalar_value value) (\<lambda>v. Ok (memory[address := v]))))
        (ds_memory spec) (replicate (metadata_size metadata) f64_zero))"

definition build_device ::
  "knowledge_base \<Rightarrow> device_spec \<Rightarrow> world \<times> i32 \<Rightarrow> (world_error, world \<times> i32) outcome" where
  "build_device kb spec st =
     (case st of (w, next_reference_id) \<Rightarrow>
        if w_device_ids w (ds_id spec) \<noteq> None then Err (DuplicateDevice (ds_id spec))
        else
          obind (o_ok_or (UnknownDevicePrefab (ds_prefab spec)) (device_by_name kb (ds_prefab spec))) (\<lambda>metadata.
          obind (build_reference spec w next_reference_id) (\<lambda>(reference_id, next_reference_id).
          if w_reference_ids w reference_id \<noteq> None then Err (DuplicateReference reference_id)
          else
            (let name = (if ds_name spec = [] then di_display_name metadata else ds_name spec);
                 name_hash = stationeers_crc32 name
             in obind (build_fields spec metadata name_hash reference_id) (\<lambda>fields.
                obind (build_slots spec metadata) (\<lambda>slots.
                obind (build_memory spec metadata) (\<lambda>memory.
                  (let index = length (w_devices w)
                   in Ok (w\<lparr>w_device_ids := (w_device_ids w)(ds_id spec \<mapsto> index),
                            w_reference_ids := (w_reference_ids w)(reference_id \<mapsto> index),
                            w_devices := w_devices w @
                              [\<lparr>dv_id = ds_id spec, dv_prefab = ds_prefab spec,
                                dv_prefab_hash = di_prefab_hash metadata, dv_name = name,
                                dv_name_hash = name_hash, dv_reference_id = reference_id,
                                dv_fields = fields, dv_slots = slots, dv_memory = memory,
                                dv_connections = bt_empty\<rparr>]\<rparr>, next_reference_id)))))))))"

definition world_device_index :: "world \<Rightarrow> string \<Rightarrow> usize option" where
  "world_device_index w i = w_device_ids w i"

definition device_by_reference :: "world \<Rightarrow> i32 \<Rightarrow> usize option" where
  "device_by_reference w r = w_reference_ids w r"

definition network_index :: "world \<Rightarrow> string \<Rightarrow> usize option" where
  "network_index w i = w_network_ids w i"

definition devices_on_network :: "world \<Rightarrow> usize \<Rightarrow> usize list" where
  "devices_on_network w n =
     filter (\<lambda>i. n \<in> set (bt_values (dv_connections (w_devices w ! i)))) [0..<length (w_devices w)]"

definition build_connection ::
  "knowledge_base \<Rightarrow> device_spec \<Rightarrow> usize \<Rightarrow> string \<times> string \<Rightarrow> world \<Rightarrow> (world_error, world) outcome" where
  "build_connection kb spec device_index entry w =
     (case entry of (connection_text, network) \<Rightarrow>
        obind (o_ok_or (InvalidConnection (ds_id spec) connection_text) (parse_usize connection_text)) (\<lambda>connection.
        obind (o_ok_or (UnknownNetwork (ds_id spec) network) (network_index w network)) (\<lambda>net.
        obind (o_expect (device_by_name kb (ds_prefab spec))) (\<lambda>metadata.
        obind (o_ok_or (MissingConnection (ds_id spec) connection)
                 (nth_opt (di_connections metadata) connection)) (\<lambda>connection_metadata.
        obind (o_ok_or (InvalidConnectionType (ds_id spec) connection)
                 (as_str (connection_type connection_metadata))) (\<lambda>ctype.
        obind (o_expect (nth_opt (w_networks w) net)) (\<lambda>target.
        if \<not> network_accepts_connection target ctype
        then Err (IncompatibleConnection (ds_id spec) connection ctype network)
        else obind (o_expect (nth_opt (w_devices w) device_index)) (\<lambda>d.
          Ok (w\<lparr>w_devices := (w_devices w)[device_index :=
                  d\<lparr>dv_connections := bt_insert connection net (dv_connections d)\<rparr>]\<rparr>)))))))))"

definition build_device_connections ::
  "knowledge_base \<Rightarrow> device_spec \<Rightarrow> world \<Rightarrow> (world_error, world) outcome" where
  "build_device_connections kb spec w =
     obind (o_expect (world_device_index w (ds_id spec))) (\<lambda>device_index.
       ofold (build_connection kb spec device_index) (ds_connections spec) w)"

definition world_build ::
  "network_spec list \<Rightarrow> device_spec list \<Rightarrow> knowledge_base \<Rightarrow> (world_error, world) outcome" where
  "world_build networks devices kb =
     obind (ofold build_network networks empty_world) (\<lambda>w.
     obind (ofold (build_device kb) devices (w, 1)) (\<lambda>(w, _).
       ofold (build_device_connections kb) devices w))"

section \<open>Field access\<close>

definition cable_network :: "world \<Rightarrow> usize \<Rightarrow> usize option \<Rightarrow> string \<Rightarrow> (field_error, usize) outcome" where
  "cable_network w device connection field =
     obind (o_ok_or (ChannelNeedsConnection field) connection) (\<lambda>connection.
     obind (o_expect (nth_opt (w_devices w) device)) (\<lambda>d.
     obind (o_ok_or (NotAttached (dv_id d) connection) (bt_get (dv_connections d) connection)) (\<lambda>network.
     obind (o_expect (nth_opt (w_networks w) network)) (\<lambda>n.
     if nw_kind n \<noteq> ''cable'' then Err (NotCableNetwork (nw_id n)) else Ok network))))"

definition field_access ::
  "world \<Rightarrow> usize \<Rightarrow> string \<Rightarrow> knowledge_base \<Rightarrow> (field_error, device \<times> logic_access) outcome" where
  "field_access w device field kb =
     obind (o_expect (nth_opt (w_devices w) device)) (\<lambda>target.
     obind (o_ok_or (UnknownPrefab (dv_prefab target)) (device_by_name kb (dv_prefab target))) (\<lambda>metadata.
     obind (o_ok_or (FieldNotExposed (dv_name target) field) (bt_get (di_logic_types metadata) field)) (\<lambda>access.
     Ok (target, access))))"

definition read_field ::
  "world \<Rightarrow> usize \<Rightarrow> usize option \<Rightarrow> string \<Rightarrow> knowledge_base \<Rightarrow> effect_journal \<Rightarrow> effect_actor
     \<Rightarrow> (field_error, f64 \<times> effect_journal) outcome" where
  "read_field w device connection field kb journal actor =
     (case channel_index field of
        Some channel \<Rightarrow>
          obind (cable_network w device connection field) (\<lambda>network.
          obind (o_expect (nth_opt (nw_channels (w_networks w ! network)) channel)) (\<lambda>value.
          Ok (value, j_read actor (TNetworkChannel network (of_nat channel)) value journal)))
      | None \<Rightarrow>
          obind (field_access w device field kb) (\<lambda>(target, access).
          if \<not> la_read access then Err (FieldNotReadable field (dv_name target))
          else
            obind (o_ok_or (FieldHasNoValue (dv_name target) field) (bt_get (dv_fields target) field)) (\<lambda>value.
            if j_enabled journal then
              (let (field_id, journal) = j_intern field journal
               in Ok (value, j_read actor (TDeviceField device field_id) value journal))
            else Ok (value, journal))))"

definition write_field ::
  "world \<Rightarrow> usize \<Rightarrow> usize option \<Rightarrow> string \<Rightarrow> f64 \<Rightarrow> knowledge_base \<Rightarrow> effect_journal \<Rightarrow> effect_actor
     \<Rightarrow> (field_error, world \<times> effect_journal) outcome" where
  "write_field w device connection field value kb journal actor =
     (case channel_index field of
        Some channel \<Rightarrow>
          obind (cable_network w device connection field) (\<lambda>network.
          (let n = w_networks w ! network
           in obind (o_expect (nth_opt (nw_channels n) channel)) (\<lambda>before.
              Ok (w\<lparr>w_networks := (w_networks w)[network := n\<lparr>nw_channels := (nw_channels n)[channel := value]\<rparr>]\<rparr>,
                  j_write actor (TNetworkChannel network (of_nat channel)) before value journal))))
      | None \<Rightarrow>
          obind (field_access w device field kb) (\<lambda>(target, access).
          if \<not> la_write access then Err (FieldNotWritable field (dv_name target))
          else
            (let before = (case bt_get (dv_fields target) field of Some v \<Rightarrow> v | None \<Rightarrow> f64_zero);
                 w = w\<lparr>w_devices := (w_devices w)[device :=
                         target\<lparr>dv_fields := bt_insert field value (dv_fields target)\<rparr>]\<rparr>;
                 journal = (if j_enabled journal then
                              (let (field_id, journal) = j_intern field journal
                               in j_write actor (TDeviceField device field_id) before value journal)
                            else journal)
             in Ok (w\<lparr>w_field_writes := w_field_writes w @ [(device, field, before, value)]\<rparr>, journal))))"

definition take_field_writes :: "world \<Rightarrow> (usize \<times> string \<times> f64 \<times> f64) list \<times> world" where
  "take_field_writes w = (w_field_writes w, w\<lparr>w_field_writes := []\<rparr>)"

section \<open>Well-formed worlds\<close>

text \<open>
  An index maps exactly the keys of the listed objects to their positions; so ids and reference ids
  are unique.
\<close>

definition index_of :: "('k \<rightharpoonup> nat) \<Rightarrow> 'k list \<Rightarrow> bool" where
  "index_of m ks \<longleftrightarrow> (\<forall>k i. m k = Some i \<longleftrightarrow> i < length ks \<and> ks ! i = k)"

definition network_wf :: "network \<Rightarrow> bool" where
  "network_wf n \<longleftrightarrow> length (nw_channels n) = 8"

definition device_wf :: "knowledge_base \<Rightarrow> nat \<Rightarrow> device \<Rightarrow> bool" where
  "device_wf kb networks d \<longleftrightarrow>
     device_by_name kb (dv_prefab d) \<noteq> None \<and>
     (\<forall>info. device_by_name kb (dv_prefab d) = Some info \<longrightarrow>
        length (dv_memory d) = metadata_size info \<and>
        fst ` set (di_logic_types info) \<subseteq> fst ` set (dv_fields d)) \<and>
     bt_wf (dv_fields d) \<and> bt_wf (dv_slots d) \<and> bt_wf (dv_connections d) \<and>
     (\<forall>n \<in> set (bt_values (dv_connections d)). n < networks)"

definition world_wf :: "knowledge_base \<Rightarrow> world \<Rightarrow> bool" where
  "world_wf kb w \<longleftrightarrow>
     list_all network_wf (w_networks w) \<and>
     list_all (device_wf kb (length (w_networks w))) (w_devices w) \<and>
     index_of (w_network_ids w) (map nw_id (w_networks w)) \<and>
     index_of (w_device_ids w) (map dv_id (w_devices w)) \<and>
     index_of (w_reference_ids w) (map dv_reference_id (w_devices w))"

text \<open>
  What no instruction and no behaviour changes about a world: how many devices and networks there
  are, and each device's id, prefab, reference id and memory size.
\<close>

type_synonym world_form = "(string \<times> string \<times> i32 \<times> nat) list \<times> nat"

definition device_shape :: "device \<Rightarrow> string \<times> string \<times> i32 \<times> nat" where
  "device_shape d = (dv_id d, dv_prefab d, dv_reference_id d, length (dv_memory d))"

definition world_shape :: "world \<Rightarrow> world_form" where
  "world_shape w = (map device_shape (w_devices w), length (w_networks w))"

definition world_inv :: "knowledge_base \<Rightarrow> world_form \<Rightarrow> world \<Rightarrow> bool" where
  "world_inv kb shape w \<longleftrightarrow> world_wf kb w \<and> world_shape w = shape"

abbreviation shape_memory :: "world_form \<Rightarrow> nat \<Rightarrow> nat" where
  "shape_memory shape i \<equiv> snd (snd (snd (fst shape ! i)))"

text \<open>Every numbered slot of the metadata has its value map.\<close>

definition slots_cover :: "device_info \<Rightarrow> (usize, (string, f64) btree_map) btree_map \<Rightarrow> bool" where
  "slots_cover metadata slots \<longleftrightarrow>
     (\<forall>slot \<in> fst ` set (di_slots metadata). \<forall>i. parse_usize slot = Some i \<longrightarrow> i \<in> fst ` set slots)"

text \<open>The network after one channel was written.\<close>

definition written_network :: "network \<Rightarrow> usize \<Rightarrow> f64 \<Rightarrow> network" where
  "written_network n channel value = n\<lparr>nw_channels := (nw_channels n)[channel := value]\<rparr>"

section \<open>A concrete world\<close>

text \<open>A scenario with one cable network and one device, used to instantiate the properties.\<close>

definition sample_access :: logic_access where
  "sample_access = \<lparr>la_read = True, la_write = True\<rparr>"

definition sample_device :: device_info where
  "sample_device = \<lparr>di_prefab_name = ''StructureConsole'', di_prefab_hash = 7, di_display_name = ''Console'',
     di_description = '''',
     di_logic_types = [(''On'', sample_access), (''Setting'', sample_access)],
     di_slots = [(''0'', \<lparr>sl_name = ''Disk'', sl_type = ''Disk'', sl_hash = None, sl_logic_types = [(''Occupied'', sample_access)]\<rparr>)],
     di_modes = [],
     di_connections = [\<lparr>connection_type = \<lparr>as_f64 = None, as_i64_value = None, as_str = Some ''Data''\<rparr>,
                        connection_role = \<lparr>as_f64 = None, as_i64_value = None, as_str = Some ''None''\<rparr>\<rparr>],
     di_memory = Some \<lparr>dm_size = Some 4, dm_access = None\<rparr>\<rparr>"

definition sample_kb :: knowledge_base where
  "sample_kb = \<lparr>
     language = \<lparr>lang_schema_version = 1, lang_game_version = ''0.2'',
       lang_architecture = \<lparr>numeric_storage = ''f64'', general_registers = ''r0-r15'', arch_return_address = ''ra'',
                            arch_stack_pointer = ''sp'', stack_size = 512, device_pins = ''d0-d5'', base_device = ''db'', maximum_program_lines = 128, maximum_instructions_per_tick = 128,
                            tick_seconds = f64_zero\<rparr>,
       lang_instructions = [], lang_constants = [], lang_enums = []\<rparr>,
     device_list = \<lparr>dl_schema_version = 1, dl_game_version = ''0.2'',
       dl_devices = [(''StructureConsole'', sample_device)], dl_other_logicables = []\<rparr>\<rparr>"

definition sample_network :: network_spec where
  "sample_network = \<lparr>ns_id = ''main'', ns_kind = ''cable'', ns_cable_role = None,
     ns_channels = [(''Channel3'', ScalarText ''-0'')]\<rparr>"

definition sample_spec :: device_spec where
  "sample_spec = \<lparr>ds_id = ''console'', ds_prefab = ''StructureConsole'', ds_name = '''', ds_reference_id = None,
     ds_connections = [(''0'', ''main'')], ds_fields = [(''Setting'', ScalarNumber (F64 0x3FF0000000000000))],
     ds_slots = [(''0'', [(''Occupied'', ScalarNumber (F64 0x3FF0000000000000))])], ds_memory = [(''2'', ScalarNumber (F64 0x3FF0000000000000))],
     ds_ic = None, ds_program = None\<rparr>"

definition sample_world :: world where
  "sample_world = \<lparr>
     w_networks = [\<lparr>nw_id = ''main'', nw_kind = ''cable'', nw_cable_role = ''powerAndData'',
                    nw_channels = (replicate 8 f64_nan)[3 := f64_neg_zero]\<rparr>],
     w_devices = [\<lparr>dv_id = ''console'', dv_prefab = ''StructureConsole'', dv_prefab_hash = 7, dv_name = ''Console'',
        dv_name_hash = stationeers_crc32 ''Console'', dv_reference_id = 1,
        dv_fields = [(''NameHash'', f64_of_i32 (stationeers_crc32 ''Console'')), (''On'', f64_zero),
           (''PrefabHash'', f64_of_i32 7), (''ReferenceId'', f64_of_i32 1), (''Setting'', F64 0x3FF0000000000000)],
        dv_slots = [(0, [(''Occupied'', F64 0x3FF0000000000000)])],
        dv_memory = [f64_zero, f64_zero, F64 0x3FF0000000000000, f64_zero],
        dv_connections = [(0, 0)]\<rparr>],
     w_network_ids = [''main'' \<mapsto> 0], w_device_ids = [''console'' \<mapsto> 0], w_reference_ids = [1 \<mapsto> 0],
     w_field_writes = []\<rparr>"

section \<open>Lemmas on well-formedness\<close>

lemma index_of_empty: "index_of Map.empty []"
  by (simp add: index_of_def)

lemma index_of_snoc:
  "index_of m ks \<Longrightarrow> m k = None \<Longrightarrow> index_of (m(k \<mapsto> length ks)) (ks @ [k])"
  by (auto simp: index_of_def nth_append less_Suc_eq split: if_splits) (metis option.distinct(1))

lemma index_of_dom: "index_of m ks \<Longrightarrow> dom m = set ks"
  by (auto simp: index_of_def in_set_conv_nth dom_def)

lemma index_of_distinct: "index_of m ks \<Longrightarrow> distinct ks"
  by (auto simp: index_of_def distinct_conv_nth) (metis option.inject)

subsection \<open>The search for a free reference id\<close>

lemma free_reference_SomeD: "free_reference fuel ids n = Some r \<Longrightarrow> ids r = None"
  by (induction fuel ids n rule: free_reference.induct) (auto split: if_splits)

lemma free_reference_NoneD: "free_reference fuel ids n = None \<Longrightarrow> k < fuel \<Longrightarrow> n + of_nat k \<in> dom ids"
proof (induction fuel ids n arbitrary: k rule: free_reference.induct)
  case (2 fuel ids m)
  then show ?case by (cases k) (auto split: if_splits simp: add.assoc)
qed simp

lemma free_reference_found:
  assumes "finite (dom ids)" "card (dom ids) \<le> n" "n < 2 ^ 32"
  shows "free_reference (Suc n) ids start \<noteq> None"
proof
  assume none: "free_reference (Suc n) ids start = None"
  have "inj_on (\<lambda>k. start + of_nat k :: i32) {..n}"
  proof (rule inj_onI)
    fix x y :: nat assume "x \<in> {..n}" "y \<in> {..n}" and "start + of_nat x = start + of_nat y"
    then have "unat (of_nat x :: i32) = unat (of_nat y :: i32)" by simp
    then show "x = y" using \<open>x \<in> {..n}\<close> \<open>y \<in> {..n}\<close> assms(3) by (simp add: unat_of_nat)
  qed
  then have "card ((\<lambda>k. start + of_nat k) ` {..n}) = Suc n" by (simp add: card_image)
  moreover have "(\<lambda>k. start + of_nat k) ` {..n} \<subseteq> dom ids" by (intro image_subsetI free_reference_NoneD [OF none]) simp
  ultimately have "Suc n \<le> card (dom ids)" using card_mono [OF assms(1)] by metis
  then show False using assms(2) by simp
qed

subsection \<open>Building\<close>

lemma length_build_channels: "build_channels spec = Ok c \<Longrightarrow> length c = 8"
  unfolding build_channels_def
  by (erule ofold_induct) (auto simp: obind_eq_Ok split: prod.splits)

lemma build_network_wf:
  assumes "build_network spec w = Ok w'" "world_wf kb w" "w_devices w = []"
  shows "world_wf kb w' \<and> w_devices w' = []"
  using assms index_of_snoc [of "w_network_ids w" "map nw_id (w_networks w)" "ns_id spec"]
  by (auto simp: build_network_def world_wf_def network_wf_def obind_eq_Ok length_build_channels
      split: if_splits)

lemma keys_bt_collect: "fst ` set (bt_collect kvs) = fst ` set kvs"
proof -
  have "fst ` set (fold (\<lambda>(k, v). bt_insert k v) kvs m) = fst ` set m \<union> fst ` set kvs" for m
  proof (induction kvs arbitrary: m)
    case (Cons kv kvs)
    then show ?case by (cases kv) (simp add: fst_set_bt_insert)
  qed simp
  then show ?thesis by (simp add: bt_collect_def bt_empty_def)
qed

lemma keys_zero_fields: "fst ` set (zero_fields types) = fst ` set types"
  by (simp add: zero_fields_def keys_bt_collect image_image)

lemma zero_fields_wf [wf_intros]: "bt_wf (zero_fields types)"
  by (simp add: zero_fields_def bt_wf_collect)

lemma build_fields_wf:
  assumes "build_fields spec metadata nh r = Ok fs"
  shows "bt_wf fs \<and> fst ` set (di_logic_types metadata) \<subseteq> fst ` set fs"
  using assms unfolding build_fields_def
proof (rule ofold_induct)
  show "bt_wf (bt_insert ''ReferenceId'' (f64_of_i32 r) (bt_insert ''NameHash'' (f64_of_i32 nh)
      (bt_insert ''PrefabHash'' (f64_of_i32 (di_prefab_hash metadata)) (zero_fields (di_logic_types metadata))))) \<and>
    fst ` set (di_logic_types metadata) \<subseteq>
      fst ` set (bt_insert ''ReferenceId'' (f64_of_i32 r) (bt_insert ''NameHash'' (f64_of_i32 nh)
        (bt_insert ''PrefabHash'' (f64_of_i32 (di_prefab_hash metadata)) (zero_fields (di_logic_types metadata)))))"
    by (simp add: fst_set_bt_insert keys_zero_fields bt_wf_insert zero_fields_wf subset_insertI2)
next
  fix x b c
  assume b: "bt_wf b \<and> fst ` set (di_logic_types metadata) \<subseteq> fst ` set b"
    and "(case x of (field, value) \<Rightarrow> \<lambda>fs. if bt_get (di_logic_types metadata) field = None
        then Err (UnsupportedField (ds_id spec) field)
        else obind (scalar_value value) (\<lambda>v. Ok (bt_insert field v fs))) b = Ok c"
  then obtain field v where "c = bt_insert field v b"
    by (auto simp: obind_eq_Ok split: if_splits prod.splits)
  then show "bt_wf c \<and> fst ` set (di_logic_types metadata) \<subseteq> fst ` set c"
    using b by (simp add: fst_set_bt_insert bt_wf_insert subset_insertI2)
qed

lemma build_memory_length: "build_memory spec metadata = Ok m \<Longrightarrow> length m = metadata_size metadata"
  unfolding build_memory_def
  by (split if_split_asm, simp, erule ofold_induct) (auto simp: obind_eq_Ok split: if_splits prod.splits)

lemma initial_slots_wf: "bt_wf (initial_slots metadata)"
proof -
  have "bt_wf (fold initial_slot xs m)" if "bt_wf m" for xs m
    using that by (induction xs arbitrary: m) (auto simp: initial_slot_def bt_wf_insert split: option.splits)
  then show ?thesis by (simp add: initial_slots_def bt_empty_def)
qed

lemma build_slots_wf: "build_slots spec metadata = Ok slots \<Longrightarrow> bt_wf slots"
  unfolding build_slots_def
  by (erule ofold_induct) (auto simp: build_slot_def obind_eq_Ok bt_wf_insert initial_slots_wf split: prod.splits)

lemma build_device_wf:
  assumes "build_device kb spec (w, r) = Ok (w', r')" "world_wf kb w"
  shows "world_wf kb w'"
proof -
  from assms(1) obtain metadata reference fs slots memory name where
    m: "device_by_name kb (ds_prefab spec) = Some metadata"
    and fresh: "w_device_ids w (ds_id spec) = None" "w_reference_ids w reference = None"
    and parts: "build_fields spec metadata (stationeers_crc32 name) reference = Ok fs"
      "build_slots spec metadata = Ok slots" "build_memory spec metadata = Ok memory"
    and w': "w' = w\<lparr>w_device_ids := (w_device_ids w)(ds_id spec \<mapsto> length (w_devices w)),
        w_reference_ids := (w_reference_ids w)(reference \<mapsto> length (w_devices w)),
        w_devices := w_devices w @
          [\<lparr>dv_id = ds_id spec, dv_prefab = ds_prefab spec, dv_prefab_hash = di_prefab_hash metadata,
            dv_name = name, dv_name_hash = stationeers_crc32 name, dv_reference_id = reference,
            dv_fields = fs, dv_slots = slots, dv_memory = memory, dv_connections = bt_empty\<rparr>]\<rparr>"
    by (auto simp: build_device_def obind_eq_Ok Let_def split: if_splits prod.splits)
  show ?thesis
    using assms(2) m w' build_fields_wf [OF parts(1)] build_slots_wf [OF parts(2)] build_memory_length [OF parts(3)]
      index_of_snoc [of "w_device_ids w" "map dv_id (w_devices w)" "ds_id spec"] fresh
      index_of_snoc [of "w_reference_ids w" "map dv_reference_id (w_devices w)" reference]
    by (simp add: world_wf_def device_wf_def bt_empty_def)
qed

lemma world_wf_update_device:
  assumes "world_wf kb w" "i < length (w_devices w)" "device_wf kb (length (w_networks w)) d"
    and "dv_id d = dv_id (w_devices w ! i)" "dv_reference_id d = dv_reference_id (w_devices w ! i)"
  shows "world_wf kb (w\<lparr>w_devices := (w_devices w)[i := d]\<rparr>)"
proof -
  have "map f ((w_devices w)[i := d]) = map f (w_devices w)" if "f d = f (w_devices w ! i)" for f :: "device \<Rightarrow> 'z"
    using that assms(2) by (metis list_update_id map_update nth_map length_map)
  from this [of dv_id] show ?thesis
    using assms(1-3) map_update [of dv_reference_id "w_devices w" i d] assms(5) list_update_id [of "map dv_reference_id (w_devices w)" i]
    by (simp add: world_wf_def list_all_length nth_list_update assms(2,4))
qed

lemma build_connection_wf:
  assumes "build_connection kb spec i entry w = Ok w'" "world_wf kb w"
  shows "world_wf kb w'"
proof -
  from assms(1) obtain c net d where d: "nth_opt (w_devices w) i = Some d" "net < length (w_networks w)"
    and w': "w' = w\<lparr>w_devices := (w_devices w)[i := d\<lparr>dv_connections := bt_insert c net (dv_connections d)\<rparr>]\<rparr>"
    by (auto simp: build_connection_def obind_eq_Ok nth_opt_eq_Some split: if_splits prod.splits)
  have i: "i < length (w_devices w)" "w_devices w ! i = d" using d(1) by (auto simp: nth_opt_eq_Some)
  then have "device_wf kb (length (w_networks w)) d" using assms(2) by (auto simp: world_wf_def list_all_length)
  then have "device_wf kb (length (w_networks w)) (d\<lparr>dv_connections := bt_insert c net (dv_connections d)\<rparr>)"
    using d(2) by (auto simp: device_wf_def bt_wf_insert dest: set_bt_insert_subset [THEN subsetD])
  then show ?thesis using world_wf_update_device [OF assms(2) i(1)] w' i(2) by simp
qed

lemma build_device_connections_wf:
  assumes "build_device_connections kb spec w = Ok w'" "world_wf kb w"
  shows "world_wf kb w'"
proof -
  from assms(1) obtain i where "ofold (build_connection kb spec i) (ds_connections spec) w = Ok w'"
    by (auto simp: build_device_connections_def obind_eq_Ok)
  then show ?thesis using assms(2) by (rule ofold_induct) (rule build_connection_wf)
qed

lemma world_wf_empty: "world_wf kb empty_world"
  by (simp add: world_wf_def empty_world_def index_of_empty)

lemma networks_built:
  assumes "ofold build_network networks empty_world = Ok w"
  shows "world_wf kb w \<and> w_devices w = []"
  using assms
proof (rule ofold_induct)
  show "world_wf kb empty_world \<and> w_devices empty_world = []"
    using world_wf_empty [of kb] by (simp add: empty_world_def)
qed (blast dest: build_network_wf)

lemma devices_built:
  assumes "ofold (build_device kb) devices (w, 1) = Ok (w', r')" "world_wf kb w"
  shows "world_wf kb w'"
proof -
  have "world_wf kb (fst (w', r'))"
    using assms(1)
  proof (rule ofold_induct)
    fix x b c assume "world_wf kb (fst b)" "build_device kb x b = Ok c"
    then show "world_wf kb (fst c)" using build_device_wf [of kb x "fst b" "snd b" "fst c" "snd c"] by simp
  qed (use assms(2) in simp)
  then show ?thesis by simp
qed

subsection \<open>Building never panics\<close>

lemma scalar_value_no_panic [simp]: "scalar_value s \<noteq> Panic"
  by (simp add: scalar_value_def)

lemma build_channels_no_panic: "build_channels spec \<noteq> Panic"
  unfolding build_channels_def
  by (rule ofold_no_panic [where P = "\<lambda>_. True"]) (auto simp: obind_eq_Panic)

lemma build_network_no_panic: "build_network spec w \<noteq> Panic"
  using build_channels_no_panic [of spec]
  by (auto simp: build_network_def obind_eq_Panic build_cable_role_def Let_def split: if_splits)

lemma build_fields_no_panic: "build_fields spec metadata nh r \<noteq> Panic"
  unfolding build_fields_def
  by (rule ofold_no_panic [where P = "\<lambda>_. True"]) (auto simp: obind_eq_Panic split: if_splits)

lemma build_memory_no_panic: "build_memory spec metadata \<noteq> Panic"
  unfolding build_memory_def
  by (simp, intro impI ofold_no_panic [where P = "\<lambda>_. True"]) (auto simp: obind_eq_Panic split: if_splits)

lemma initial_slot_keys:
  "fst ` set (initial_slot (slot, info) slots)
     = (case parse_usize slot of None \<Rightarrow> fst ` set slots | Some i \<Rightarrow> insert i (fst ` set slots))"
  by (simp add: initial_slot_def fst_set_bt_insert split: option.split)

lemma initial_slots_keys:
  "fst ` set (fold initial_slot xs m) = fst ` set m \<union> {i. \<exists>slot \<in> fst ` set xs. parse_usize slot = Some i}"
proof (induction xs arbitrary: m)
  case (Cons x xs)
  obtain slot info where "x = (slot, info)" by (cases x)
  then show ?case using Cons by (simp add: initial_slot_keys split: option.split) blast
qed simp

lemma initial_slots_cover: "slots_cover metadata (initial_slots metadata)"
  by (simp add: slots_cover_def initial_slots_def initial_slots_keys) blast

lemma build_slot_fields_no_panic: "build_slot_fields spec slot sm fs values \<noteq> Panic"
  unfolding build_slot_fields_def
  by (rule ofold_no_panic [where P = "\<lambda>_. True"]) (auto simp: obind_eq_Panic split: if_splits)

lemma slots_cover_get:
  assumes "slots_cover metadata slots" "parse_usize slot = Some i" "bt_get (di_slots metadata) slot = Some sm"
  shows "bt_get slots i \<noteq> None"
proof -
  have "slot \<in> fst ` set (di_slots metadata)" using assms(3) bt_get_None_keys [of "di_slots metadata" slot] by auto
  then show ?thesis using assms(1,2) bt_get_None_keys [of slots i] unfolding slots_cover_def by blast
qed

lemma build_slots_no_panic: "build_slots spec metadata \<noteq> Panic"
  unfolding build_slots_def
proof (rule ofold_no_panic [where P = "slots_cover metadata"])
  show "slots_cover metadata (initial_slots metadata)" by (rule initial_slots_cover)
next
  fix x b assume "slots_cover metadata b"
  then show "build_slot spec metadata x b \<noteq> Panic"
    using slots_cover_get [of metadata b] build_slot_fields_no_panic
    by (cases x) (fastforce simp: build_slot_def obind_eq_Panic)
qed (auto simp: build_slot_def obind_eq_Ok slots_cover_def fst_set_bt_insert split: prod.splits)

lemma build_device_no_panic:
  assumes "world_wf kb w" "length (w_devices w) < 2 ^ 32"
  shows "build_device kb spec (w, r) \<noteq> Panic"
proof -
  have ids: "index_of (w_reference_ids w) (map dv_reference_id (w_devices w))"
    using assms(1) by (simp add: world_wf_def)
  have "finite (dom (w_reference_ids w))" "card (dom (w_reference_ids w)) \<le> length (w_devices w)"
    unfolding index_of_dom [OF ids] using card_length [of "map dv_reference_id (w_devices w)"] by simp_all
  then have "free_reference (Suc (length (w_devices w))) (w_reference_ids w) r \<noteq> None"
    using assms(2) by (rule free_reference_found)
  then have "build_reference spec w r \<noteq> Panic"
    by (simp only: build_reference_def) (auto simp: obind_eq_Panic split: option.split)
  then show ?thesis
    using build_fields_no_panic build_slots_no_panic build_memory_no_panic
    by (auto simp: build_device_def obind_eq_Panic Let_def split: if_splits prod.splits)
qed

lemma build_device_registers:
  assumes "build_device kb spec (w, r) = Ok (w', r')"
  shows "device_by_name kb (ds_prefab spec) \<noteq> None" "w_device_ids w' (ds_id spec) \<noteq> None"
    "dom (w_device_ids w) \<subseteq> dom (w_device_ids w')" "length (w_devices w') = Suc (length (w_devices w))"
    "w_networks w' = w_networks w"
  using assms by (auto simp: build_device_def obind_eq_Ok Let_def split: if_splits prod.splits)

lemma devices_no_panic:
  assumes "world_wf kb w" "length (w_devices w) + length devices < 2 ^ 32"
  shows "ofold (build_device kb) devices (w, r) \<noteq> Panic"
  using assms
proof (induction devices arbitrary: w r)
  case (Cons spec devices)
  show ?case
  proof
    assume "ofold (build_device kb) (spec # devices) (w, r) = Panic"
    moreover have "build_device kb spec (w, r) \<noteq> Panic" using Cons.prems by (intro build_device_no_panic) auto
    ultimately obtain w' r' where b: "build_device kb spec (w, r) = Ok (w', r')"
      and p: "ofold (build_device kb) devices (w', r') = Panic"
      by (auto simp: obind_eq_Panic)
    have "world_wf kb w'" using build_device_wf [OF b] Cons.prems(1) by simp
    then show False using Cons.IH p Cons.prems(2) build_device_registers(4) [OF b] by simp
  qed
qed simp

lemma devices_registered:
  assumes "ofold (build_device kb) devices (w, r) = Ok (w', r')"
  shows "dom (w_device_ids w) \<subseteq> dom (w_device_ids w') \<and>
    (\<forall>spec \<in> set devices. device_by_name kb (ds_prefab spec) \<noteq> None \<and> ds_id spec \<in> dom (w_device_ids w'))"
  using assms
proof (induction devices arbitrary: w r)
  case (Cons spec devices)
  then obtain v q where b: "build_device kb spec (w, r) = Ok (v, q)"
    and rest: "ofold (build_device kb) devices (v, q) = Ok (w', r')"
    by (auto simp: obind_eq_Ok)
  have "ds_id spec \<in> dom (w_device_ids v)" using build_device_registers(2) [OF b] by blast
  then show ?case
    using Cons.IH [OF rest] build_device_registers(1,3) [OF b] by auto
qed simp

lemma build_connection_frame:
  "build_connection kb spec i entry w = Ok w' \<Longrightarrow>
     w_device_ids w' = w_device_ids w \<and> w_networks w' = w_networks w \<and> length (w_devices w') = length (w_devices w)"
  by (auto simp: build_connection_def obind_eq_Ok split: if_splits prod.splits)

lemma build_connection_no_panic:
  assumes "world_wf kb w" "i < length (w_devices w)" "device_by_name kb (ds_prefab spec) \<noteq> None"
  shows "build_connection kb spec i entry w \<noteq> Panic"
  using assms
  by (auto simp: build_connection_def obind_eq_Panic nth_opt_eq_None network_index_def world_wf_def index_of_def
      split: if_splits prod.splits)

lemma build_device_connections_no_panic:
  assumes wf: "world_wf kb w" and prefab: "device_by_name kb (ds_prefab spec) \<noteq> None"
    and known: "ds_id spec \<in> dom (w_device_ids w)"
  shows "build_device_connections kb spec w \<noteq> Panic"
proof -
  obtain i where i: "w_device_ids w (ds_id spec) = Some i" using known by blast
  then have "i < length (w_devices w)" using wf by (auto simp: world_wf_def index_of_def)
  then have "ofold (build_connection kb spec i) (ds_connections spec) w \<noteq> Panic"
    using wf
    by (intro ofold_no_panic [where P = "\<lambda>v. world_wf kb v \<and> i < length (w_devices v)"])
      (use build_connection_no_panic [OF _ _ prefab] build_connection_wf build_connection_frame in auto)
  then show ?thesis using i by (simp add: build_device_connections_def world_device_index_def o_expect_def)
qed

lemma build_device_connections_frame:
  assumes "build_device_connections kb spec w = Ok w'"
  shows "w_device_ids w' = w_device_ids w"
proof -
  from assms obtain i where "ofold (build_connection kb spec i) (ds_connections spec) w = Ok w'"
    by (auto simp: build_device_connections_def obind_eq_Ok)
  then show ?thesis
    by (rule ofold_induct [where P = "\<lambda>v. w_device_ids v = w_device_ids w"]) (auto dest: build_connection_frame)
qed

lemma connections_no_panic:
  assumes "world_wf kb w"
    and "\<forall>spec \<in> set devices. device_by_name kb (ds_prefab spec) \<noteq> None \<and> ds_id spec \<in> dom (w_device_ids w)"
  shows "ofold (build_device_connections kb) devices w \<noteq> Panic"
proof (rule ofold_no_panic [where P = "\<lambda>v. world_wf kb v \<and> w_device_ids v = w_device_ids w"])
  show "build_device_connections kb x v \<noteq> Panic"
    if "x \<in> set devices" "world_wf kb v \<and> w_device_ids v = w_device_ids w" for x v
    using that assms(2) by (intro build_device_connections_no_panic) auto
qed (use assms(1) build_device_connections_wf build_device_connections_frame in auto)

section \<open>The concrete world builds\<close>

lemma sample_network_built: "build_network sample_network empty_world = Ok \<lparr>w_networks = [\<lparr>nw_id = ''main'', nw_kind = ''cable'',
    nw_cable_role = ''powerAndData'', nw_channels = (replicate 8 f64_nan)[3 := f64_neg_zero]\<rparr>], w_devices = [],
    w_network_ids = [''main'' \<mapsto> 0], w_device_ids = Map.empty, w_reference_ids = Map.empty, w_field_writes = []\<rparr>"
proof -
  have "build_cable_role sample_network = Ok ''powerAndData''" by code_simp
  moreover have "build_channels sample_network = Ok ((replicate 8 f64_nan)[3 := f64_neg_zero])" by code_simp
  ultimately show ?thesis by (simp add: build_network_def sample_network_def empty_world_def)
qed
lemma sample_slots_built: "build_slots sample_spec sample_device = Ok [(0, [(''Occupied'', (F64 0x3FF0000000000000))])]"
  by code_simp
lemma sample_memory_built: "build_memory sample_spec sample_device = Ok [f64_zero, f64_zero, (F64 0x3FF0000000000000), f64_zero]"
  by code_simp
lemma sample_fields_built: "build_fields sample_spec sample_device nh r = Ok 
   [(''NameHash'', f64_of_i32 nh), (''On'', f64_zero), (''PrefabHash'', f64_of_i32 7), (''ReferenceId'', f64_of_i32 r), (''Setting'', (F64 0x3FF0000000000000))]"
  by (simp add: build_fields_def sample_spec_def sample_device_def zero_fields_def bt_collect_def bt_get_def scalar_value_def scalar_as_f64_def
     o_ok_or_def bt_empty_def list_less_def)

lemma sample_lookup [simp]:
  "device_by_name sample_kb ''StructureConsole'' = Some sample_device"
  "di_logic_types sample_device = [(''On'', sample_access), (''Setting'', sample_access)]"
  "di_display_name sample_device = ''Console''" "di_prefab_hash sample_device = 7"
  "di_connections sample_device = [\<lparr>connection_type = \<lparr>as_f64 = None, as_i64_value = None, as_str = Some ''Data''\<rparr>,
                        connection_role = \<lparr>as_f64 = None, as_i64_value = None, as_str = Some ''None''\<rparr>\<rparr>]"
  "la_read sample_access" "la_write sample_access"
  by (simp_all add: device_by_name_def sample_kb_def sample_device_def sample_access_def bt_get_def)

lemma sample_spec_simps [simp]:
  "ds_id sample_spec = ''console''" "ds_prefab sample_spec = ''StructureConsole''" "ds_name sample_spec = ''''"
  "ds_reference_id sample_spec = None" "ds_connections sample_spec = [(''0'', ''main'')]"
  by (simp_all add: sample_spec_def)

lemma world_build_sample: "world_build [sample_network] [sample_spec] sample_kb = Ok sample_world"
proof -
  have p: "parse_usize ''0'' = Some 0" by code_simp
  have a: "network_accepts_connection \<lparr>nw_id = ''main'', nw_kind = ''cable'', nw_cable_role = ''powerAndData'',
                    nw_channels = c\<rparr> ''Data''" for c
    by (simp add: network_accepts_connection_def eq_ignore_ascii_case_def)
  show ?thesis
    by (simp add: world_build_def sample_network_built sample_slots_built
        sample_memory_built sample_fields_built p a build_device_def build_reference_def o_ok_or_def o_expect_def Let_def
        build_device_connections_def build_connection_def world_device_index_def network_index_def nth_opt_def
        sample_world_def bt_empty_def)
qed

section \<open>Properties of the world builder\<close>

lemma built_world_wf:
  assumes "world_build networks devices kb = Ok w"
  shows "world_wf kb w"
proof -
  from assms obtain w1 w2 r where
    n: "ofold build_network networks empty_world = Ok w1"
    and d: "ofold (build_device kb) devices (w1, 1) = Ok (w2, r)"
    and c: "ofold (build_device_connections kb) devices w2 = Ok w"
    by (auto simp: world_build_def obind_eq_Ok)
  have "world_wf kb w2" using devices_built [OF d] networks_built [OF n] by blast
  from c this show ?thesis by (rule ofold_induct) (rule build_device_connections_wf)
qed

lemma world_build_total:
  assumes "length devices < 2 ^ 32"
  shows "world_build networks devices kb \<noteq> Panic"
proof
  assume "world_build networks devices kb = Panic"
  moreover have "ofold build_network networks empty_world \<noteq> Panic"
    by (rule ofold_no_panic [where P = "\<lambda>_. True"]) (auto simp: build_network_no_panic)
  ultimately obtain w1 where n: "ofold build_network networks empty_world = Ok w1"
    and p: "obind (ofold (build_device kb) devices (w1, 1))
        (\<lambda>(w, _). ofold (build_device_connections kb) devices w) = Panic"
    by (auto simp: world_build_def obind_eq_Panic)
  note wf1 = networks_built [OF n, of kb]
  from p devices_no_panic [of kb w1 devices 1] wf1 assms obtain w2 r where
    d: "ofold (build_device kb) devices (w1, 1) = Ok (w2, r)"
    and c: "ofold (build_device_connections kb) devices w2 = Panic"
    by (auto simp: obind_eq_Panic)
  show False
    using c connections_no_panic [of kb w2 devices] devices_built [OF d] wf1 devices_registered [OF d] by blast
qed

lemma sample_world_wf: "world_wf sample_kb sample_world"
  by (rule built_world_wf [OF world_build_sample])

text \<open>C14: A world that builds is well formed: every network has eight channels, ids and reference ids are
  unique and their indexes exact, every connection points at an existing network, every device's
  prefab is known, its memory has the size the metadata gives and every logic type it exposes has a
  value.\<close>

theorem world_build_wf:
  assumes "world_build networks devices kb = Ok w"
  shows "world_wf kb w"
  using assms by (rule built_world_wf)

theorem world_build_wf_witness:
  "world_build [sample_network] [sample_spec] sample_kb = Ok sample_world \<and> world_wf sample_kb sample_world"
  using world_build_sample world_build_wf [OF world_build_sample] by simp

text \<open>Building a world never panics: for scenarios with fewer than \<open>2^32\<close> devices, the search for a free
  reference id ends, no \<open>expect\<close> fails and no index is out of range; a bad scenario is reported as an
  error value.\<close>

theorem world_build_no_panic:
  assumes "length devices < 2 ^ 32"
  shows "world_build networks devices kb \<noteq> Panic"
  using assms by (rule world_build_total)

theorem world_build_no_panic_witness: "world_build [sample_network] [sample_spec, sample_spec] sample_kb \<noteq> Panic"
  by (rule world_build_no_panic) simp

section \<open>Field access: lemmas\<close>

lemma cable_network_Ok:
  "cable_network w d c field = Ok n \<longleftrightarrow>
     (\<exists>k. c = Some k \<and> d < length (w_devices w) \<and> bt_get (dv_connections (w_devices w ! d)) k = Some n \<and>
          n < length (w_networks w) \<and> nw_kind (w_networks w ! n) = ''cable'')"
  by (cases c) (auto simp: cable_network_def obind_eq_Ok nth_opt_eq_Some o_ok_or_def split: if_splits option.splits)

lemma field_access_Ok:
  "field_access w d field kb = Ok (target, access) \<longleftrightarrow>
     (d < length (w_devices w) \<and> target = w_devices w ! d \<and>
      (\<exists>info. device_by_name kb (dv_prefab target) = Some info \<and> bt_get (di_logic_types info) field = Some access))"
  by (auto simp: field_access_def obind_eq_Ok nth_opt_eq_Some)

lemma write_channel:
  assumes "channel_index field = Some ch"
  shows "write_field w d c field v kb j a = Ok (w', j') \<longleftrightarrow>
     (\<exists>n. cable_network w d c field = Ok n \<and> ch < length (nw_channels (w_networks w ! n)) \<and>
        w' = w\<lparr>w_networks := (w_networks w)[n := written_network (w_networks w ! n) ch v]\<rparr> \<and>
        j' = j_write a (TNetworkChannel n (of_nat ch)) (nw_channels (w_networks w ! n) ! ch) v j)"
  using assms by (auto simp: write_field_def obind_eq_Ok Let_def nth_opt_eq_Some written_network_def)

lemma write_logic:
  assumes "channel_index field = None"
  shows "write_field w d c field v kb j a = Ok (w', j') \<longrightarrow>
     (\<exists>access before. field_access w d field kb = Ok (w_devices w ! d, access) \<and> la_write access \<and>
        w' = w\<lparr>w_devices := (w_devices w)[d := (w_devices w ! d)\<lparr>dv_fields := bt_insert field v (dv_fields (w_devices w ! d))\<rparr>],
               w_field_writes := w_field_writes w @ [(d, field, before, v)]\<rparr>)"
  using assms by (auto simp: write_field_def obind_eq_Ok Let_def field_access_Ok split: if_splits)

lemma world_wf_update_network:
  assumes "world_wf kb w" "n < length (w_networks w)" "ch < 8"
  shows "world_wf kb (w\<lparr>w_networks := (w_networks w)[n := written_network (w_networks w ! n) ch v]\<rparr>)"
proof -
  have "map nw_id ((w_networks w)[n := written_network (w_networks w ! n) ch v]) = map nw_id (w_networks w)"
    using assms(2) by (metis length_map list_update_id map_update nth_map network.select_convs(1)
        network.surjective network.update_convs(4) written_network_def)
  then show ?thesis
    using assms by (auto simp: world_wf_def list_all_length nth_list_update network_wf_def written_network_def)
qed

lemma write_field_wf:
  assumes "write_field w d c field v kb j a = Ok (w', j')" "world_wf kb w"
  shows "world_wf kb w'"
proof (cases "channel_index field")
  case (Some ch)
  then have "ch < 8" by (auto simp: channel_index_def bind_eq_Some_conv split: if_splits)
  then show ?thesis
    using assms write_channel [OF Some] world_wf_update_network by (auto simp: cable_network_Ok)
next
  case None
  then obtain access before where acc: "field_access w d field kb = Ok (w_devices w ! d, access)"
    and w': "w' = w\<lparr>w_devices := (w_devices w)[d := (w_devices w ! d)\<lparr>dv_fields := bt_insert field v (dv_fields (w_devices w ! d))\<rparr>],
               w_field_writes := w_field_writes w @ [(d, field, before, v)]\<rparr>"
    using assms(1) write_logic by blast
  let ?d = "(w_devices w ! d)\<lparr>dv_fields := bt_insert field v (dv_fields (w_devices w ! d))\<rparr>"
  have d: "d < length (w_devices w)" using acc by (simp add: field_access_Ok)
  then have "device_wf kb (length (w_networks w)) (w_devices w ! d)"
    using assms(2) by (simp add: world_wf_def list_all_length)
  then have "device_wf kb (length (w_networks w)) ?d"
    by (simp add: device_wf_def bt_wf_insert fst_set_bt_insert subset_insertI2)
  then have "world_wf kb (w\<lparr>w_devices := (w_devices w)[d := ?d]\<rparr>)"
    by (intro world_wf_update_device [OF assms(2) d]) simp_all
  then show ?thesis unfolding w' by (simp add: world_wf_def)
qed

lemma channel_index_less: "channel_index field = Some ch \<Longrightarrow> ch < 8"
  by (auto simp: channel_index_def bind_eq_Some_conv split: if_splits)

lemma read_channel:
  assumes "channel_index field = Some ch" "cable_network w d c field = Ok n"
    and "ch < length (nw_channels (w_networks w ! n))"
  shows "read_field w d c field kb j a = Ok (nw_channels (w_networks w ! n) ! ch,
           j_read a (TNetworkChannel n (of_nat ch)) (nw_channels (w_networks w ! n) ! ch) j)"
  using assms by (simp add: read_field_def nth_opt_def o_expect_def)

lemma write_channel_network:
  assumes "channel_index field = Some ch" "write_field w d c field v kb j a = Ok (w', j')"
  obtains n where "cable_network w d c field = Ok n" "n < length (w_networks w)"
    "ch < length (nw_channels (w_networks w' ! n))" "nw_channels (w_networks w' ! n) ! ch = v"
    "\<And>d' c' f' m. cable_network w' d' c' f' = Ok m \<longleftrightarrow> cable_network w d' c' f' = Ok m"
proof -
  obtain n where n: "cable_network w d c field = Ok n" "ch < length (nw_channels (w_networks w ! n))"
    and w': "w' = w\<lparr>w_networks := (w_networks w)[n := written_network (w_networks w ! n) ch v]\<rparr>"
    using assms write_channel [OF assms(1)] by blast
  have len: "n < length (w_networks w)" using n(1) by (auto simp: cable_network_Ok)
  have "nw_kind (w_networks w' ! m) = nw_kind (w_networks w ! m)" for m
    using len w' by (cases "m = n") (simp_all add: written_network_def)
  then have "cable_network w' d' c' f' = Ok m \<longleftrightarrow> cable_network w d' c' f' = Ok m" for d' c' f' m
    using w' by (simp add: cable_network_Ok)
  then show thesis using that n len w' by (simp add: written_network_def)
qed

lemma sample_channels: "channel_index ''Setting'' = None" "channel_index ''On'' = None" "channel_index ''Channel3'' = Some 3"
  by code_simp+

lemma sample_write_Setting:
  "write_field sample_world 0 None ''Setting'' v sample_kb empty_journal a =
     Ok (sample_world\<lparr>w_devices := [(w_devices sample_world ! 0)\<lparr>dv_fields :=
            bt_insert ''Setting'' v (dv_fields (w_devices sample_world ! 0))\<rparr>],
          w_field_writes := [(0, ''Setting'', F64 0x3FF0000000000000, v)]\<rparr>, empty_journal)"
  by (simp add: write_field_def sample_channels field_access_def sample_world_def o_expect_def o_ok_or_def bt_get_def
      empty_journal_def nth_opt_def)

lemma sample_read_Setting:
  "read_field sample_world 0 None ''Setting'' sample_kb empty_journal a = Ok (F64 0x3FF0000000000000, empty_journal)"
  by (simp add: read_field_def sample_channels field_access_def sample_world_def o_expect_def o_ok_or_def bt_get_def
      empty_journal_def nth_opt_def)

lemma sample_cable: "cable_network sample_world 0 (Some 0) ''Channel3'' = Ok 0"
  by (simp add: cable_network_Ok sample_world_def bt_get_def)

lemma sample_write_channel:
  "\<exists>w' j'. write_field sample_world 0 (Some 0) ''Channel3'' v sample_kb empty_journal a = Ok (w', j')"
  by (simp add: write_field_def sample_channels sample_cable) (simp add: sample_world_def o_expect_def nth_opt_def)

text \<open>A logic field or channel that was written reads back the written value, bit for bit, by the same
  or any other actor.\<close>

theorem write_then_read:
  assumes "write_field w d c field v kb j a = Ok (w', j')"
    and "read_field w d c field kb j0 a0 = Ok r"
  shows "\<exists>j''. read_field w' d c field kb j1 a1 = Ok (v, j'')"
proof (cases "channel_index field")
  case (Some ch)
  with assms(1) obtain n where "cable_network w d c field = Ok n"
    "ch < length (nw_channels (w_networks w' ! n))" "nw_channels (w_networks w' ! n) ! ch = v"
    "\<And>d' c' f' m. cable_network w' d' c' f' = Ok m \<longleftrightarrow> cable_network w d' c' f' = Ok m"
    using write_channel_network [OF Some assms(1)] by metis
  then show ?thesis using read_channel [OF Some] by auto
next
  case None
  then obtain access before where acc: "field_access w d field kb = Ok (w_devices w ! d, access)"
    and w': "w' = w\<lparr>w_devices := (w_devices w)[d := (w_devices w ! d)\<lparr>dv_fields := bt_insert field v (dv_fields (w_devices w ! d))\<rparr>],
               w_field_writes := w_field_writes w @ [(d, field, before, v)]\<rparr>"
    using assms(1) write_logic by blast
  have "la_read access"
    using assms(2) None acc by (auto simp: read_field_def obind_eq_Ok split: if_splits)
  moreover have "field_access w' d field kb = Ok (w_devices w' ! d, access)"
    "bt_get (dv_fields (w_devices w' ! d)) field = Some v"
    using acc w' by (simp_all add: field_access_Ok bt_get_insert)
  ultimately show ?thesis using None by (auto simp: read_field_def obind_eq_Ok o_ok_or_def split_beta Let_def)
qed

theorem write_then_read_witness:
  "\<exists>w' j'. write_field sample_world 0 None ''Setting'' f64_nan sample_kb empty_journal ActorDebugger = Ok (w', j') \<and>
     (\<exists>j''. read_field w' 0 None ''Setting'' sample_kb j' ActorScheduler = Ok (f64_nan, j''))"
  using sample_write_Setting write_then_read [OF sample_write_Setting sample_read_Setting] by metis

text \<open>A channel belongs to its cable network: a value written through one device connection is read by
  every device connection attached to the same network.\<close>

theorem channel_shared:
  assumes "write_field w d c field v kb j a = Ok (w', j')" "channel_index field = Some ch"
    and "cable_network w d c field = Ok n" "cable_network w d' c' field = Ok n"
  shows "\<exists>j''. read_field w' d' c' field kb j1 a1 = Ok (v, j'')"
proof -
  obtain m where "cable_network w d c field = Ok m"
    "ch < length (nw_channels (w_networks w' ! m))" "nw_channels (w_networks w' ! m) ! ch = v"
    "\<And>d' c' f' k. cable_network w' d' c' f' = Ok k \<longleftrightarrow> cable_network w d' c' f' = Ok k"
    using write_channel_network [OF assms(2,1)] by metis
  then show ?thesis using read_channel [OF assms(2)] assms(3,4) by auto
qed

theorem channel_shared_witness:
  "\<exists>w' j'. write_field sample_world 0 (Some 0) ''Channel3'' f64_zero sample_kb empty_journal ActorDebugger = Ok (w', j') \<and>
     (\<exists>j''. read_field w' 0 (Some 0) ''Channel3'' sample_kb j' ActorScheduler = Ok (f64_zero, j''))"
proof -
  obtain w' j' where w: "write_field sample_world 0 (Some 0) ''Channel3'' f64_zero sample_kb empty_journal ActorDebugger = Ok (w', j')"
    using sample_write_channel by blast
  show ?thesis using w channel_shared [OF w sample_channels(3) sample_cable sample_cable] by blast
qed

text \<open>Writing a logic field changes no other observation: every other field of the device, every field
  of every other device and every network channel reads exactly as before.\<close>

theorem write_logic_frame:
  assumes "write_field w d c field v kb j a = Ok (w', j')" "channel_index field = None"
    and "d' \<noteq> d \<or> field' \<noteq> field"
  shows "read_field w' d' c' field' kb j1 a1 = read_field w d' c' field' kb j1 a1"
proof -
  obtain access before where acc: "field_access w d field kb = Ok (w_devices w ! d, access)"
    and w': "w' = w\<lparr>w_devices := (w_devices w)[d := (w_devices w ! d)\<lparr>dv_fields := bt_insert field v (dv_fields (w_devices w ! d))\<rparr>],
               w_field_writes := w_field_writes w @ [(d, field, before, v)]\<rparr>"
    using assms(1,2) write_logic by blast
  have d: "d < length (w_devices w)" using acc by (simp add: field_access_Ok)
  show ?thesis
  proof (cases "d' = d")
    case True
    then have "nth_opt (w_devices w') d' = Some ((w_devices w ! d)\<lparr>dv_fields := bt_insert field v (dv_fields (w_devices w ! d))\<rparr>)"
      "nth_opt (w_devices w) d' = Some (w_devices w ! d)" "w_networks w' = w_networks w"
      using d w' by simp_all
    moreover from this have "cable_network w' d' c' field' = cable_network w d' c' field'"
      by (simp add: cable_network_def o_expect_def)
    ultimately show ?thesis using True assms(3)
      by (cases "device_by_name kb (dv_prefab (w_devices w ! d))")
        (auto simp: read_field_def field_access_def o_expect_def o_ok_or_def bt_get_insert split: option.split)
  next
    case False
    then have "nth_opt (w_devices w') d' = nth_opt (w_devices w) d'" "w_networks w' = w_networks w"
      using w' by (simp_all add: nth_opt_def)
    then show ?thesis
      by (cases "channel_index field'") (simp_all add: read_field_def cable_network_def field_access_def)
  qed
qed

theorem write_logic_frame_witness:
  "\<exists>w' j'. write_field sample_world 0 None ''Setting'' f64_nan sample_kb empty_journal ActorDebugger = Ok (w', j') \<and>
     read_field w' 0 None ''On'' sample_kb j' ActorScheduler = read_field sample_world 0 None ''On'' sample_kb j' ActorScheduler"
  using sample_write_Setting
    write_logic_frame [OF sample_write_Setting sample_channels(1), of 0 "''On''"] by fastforce

section \<open>The shape of a world\<close>

lemma world_inv_set_device:
  assumes "world_inv kb sh w" "i < length (w_devices w)"
    and "device_shape d = device_shape (w_devices w ! i)" "device_wf kb (length (w_networks w)) d"
  shows "world_inv kb sh (w\<lparr>w_devices := (w_devices w)[i := d]\<rparr>)"
proof -
  have "map device_shape ((w_devices w)[i := d]) = map device_shape (w_devices w)"
    by (metis assms(2,3) length_map list_update_id map_update nth_map)
  then show ?thesis
    using assms world_wf_update_device [of kb w i d] by (simp add: world_inv_def world_shape_def device_shape_def)
qed

lemma world_inv_length: "world_inv kb sh w \<Longrightarrow> length (w_devices w) = length (fst sh)"
  by (auto simp: world_inv_def world_shape_def)

lemma world_inv_memory:
  "world_inv kb sh w \<Longrightarrow> i < length (fst sh) \<Longrightarrow> length (dv_memory (w_devices w ! i)) = shape_memory sh i"
  by (auto simp: world_inv_def world_shape_def device_shape_def)

lemma world_inv_device_wf:
  "world_inv kb sh w \<Longrightarrow> i < length (fst sh) \<Longrightarrow> device_wf kb (length (w_networks w)) (w_devices w ! i)"
  by (auto simp: world_inv_def world_wf_def world_shape_def list_all_length)

lemma write_field_shape:
  assumes "write_field w d c field v kb j a = Ok (w', j')"
  shows "world_shape w' = world_shape w"
proof (cases "channel_index field")
  case (Some ch)
  then show ?thesis using assms write_channel by (auto simp: world_shape_def)
next
  case None
  then obtain access before where acc: "field_access w d field kb = Ok (w_devices w ! d, access)"
    and w': "w' = w\<lparr>w_devices := (w_devices w)[d := (w_devices w ! d)\<lparr>dv_fields := bt_insert field v (dv_fields (w_devices w ! d))\<rparr>],
               w_field_writes := w_field_writes w @ [(d, field, before, v)]\<rparr>"
    using assms write_logic by blast
  then show ?thesis
    by (simp add: world_shape_def map_update device_shape_def field_access_Ok)
       (metis (no_types, lifting) length_map list_update_id nth_map device_shape_def)
qed

lemma device_wf_fields: "device_wf kb n d \<Longrightarrow> device_wf kb n (d\<lparr>dv_fields := bt_insert name v (dv_fields d)\<rparr>)"
  by (simp add: device_wf_def bt_wf_insert fst_set_bt_insert subset_insertI2)

lemma device_wf_updates:
  "device_wf kb n d \<Longrightarrow> length m = length (dv_memory d) \<Longrightarrow> device_wf kb n (d\<lparr>dv_memory := m\<rparr>)"
  "device_wf kb n d \<Longrightarrow> bt_wf s \<Longrightarrow> device_wf kb n (d\<lparr>dv_slots := s\<rparr>)"
  by (simp_all add: device_wf_def)

lemma world_device_index_less: "world_wf kb w \<Longrightarrow> world_device_index w name = Some i \<Longrightarrow> i < length (w_devices w)"
  using index_of_dom [of "w_device_ids w" "map dv_id (w_devices w)"]
  by (auto simp: world_wf_def world_device_index_def index_of_def)

lemma device_by_reference_less:
  "world_wf kb w \<Longrightarrow> device_by_reference w r = Some i \<Longrightarrow> i < length (w_devices w)"
  by (simp add: world_wf_def device_by_reference_def index_of_def)

lemma devices_on_network_less: "i \<in> set (devices_on_network w n) \<Longrightarrow> i < length (w_devices w)"
  by (simp add: devices_on_network_def)

lemma field_access_safe:
  assumes "world_wf kb w" "d < length (w_devices w)"
  shows "read_field w d c field kb j a \<noteq> Panic \<and> write_field w d c field v kb j a \<noteq> Panic"
proof -
  have conn: "n < length (w_networks w)" if "bt_get (dv_connections (w_devices w ! d)) k = Some n" for k n
  proof -
    have "n \<in> snd ` set (dv_connections (w_devices w ! d))" using that by (force simp: bt_get_def dest: map_of_SomeD)
    then show ?thesis using assms by (auto simp: world_wf_def list_all_length device_wf_def)
  qed
  have net: "cable_network w d c field \<noteq> Panic"
    using assms(2) conn leD
    by (fastforce simp: cable_network_def obind_eq_Panic nth_opt_eq_None nth_opt_eq_Some split: if_splits)
  have chan: "length (nw_channels (w_networks w ! n)) = 8" if "cable_network w d c field = Ok n" for n
    using that assms(1) by (auto simp: cable_network_Ok world_wf_def list_all_length network_wf_def)
  have fld: "field_access w d field kb \<noteq> Panic"
    using assms(2) by (auto simp: field_access_def obind_eq_Panic nth_opt_eq_None)
  show ?thesis
    using net chan fld channel_index_less [of field]
    by (auto simp: read_field_def write_field_def obind_eq_Panic nth_opt_eq_None Let_def split_beta
        split: option.split if_splits)
qed

text \<open>In a well-formed world no field access on an existing device panics, whatever the field name, the
  connection number and the access rights; it returns a value or an error.\<close>

theorem field_access_no_panic:
  assumes "world_wf kb w" "d < length (w_devices w)"
  shows "read_field w d c field kb j a \<noteq> Panic \<and> write_field w d c field v kb j a \<noteq> Panic"
  using assms by (rule field_access_safe)

theorem field_access_no_panic_witness:
  "read_field sample_world 0 (Some 7) ''Channel3'' sample_kb empty_journal ActorDebugger \<noteq> Panic \<and>
   write_field sample_world 0 (Some 7) ''Channel3'' f64_nan sample_kb empty_journal ActorDebugger \<noteq> Panic"
proof (rule field_access_no_panic)
  show "world_wf sample_kb sample_world" by (rule sample_world_wf)
  show "0 < length (w_devices sample_world)" by (simp add: sample_world_def)
qed

end
