(* ===== verification/Behaviour.thy ===== *)
theory Behaviour
  imports World "HOL-Library.Product_Lexorder"
begin

text \<open>
  The device behaviours of \<open>crates/ic10-sim/src/behaviour.rs\<close>: which model a prefab gets, the actions
  scheduled for later ticks, the notices of field writes, and the material-handling model (vending
  machines, digital chute valves and chute outlets) that runs at the end of every tick. A behaviour
  runs on the runtime, the world and the journal together; its errors are values of the record
  \<open>behaviour_error\<close> with the code's messages.
\<close>

section \<open>Data\<close>

datatype behaviour_kind = Passive | VendingMachine | DigitalChuteValve | ChuteOutlet

record behaviour_descriptor =
  bd_model :: string
  bd_version :: u32
  bd_kind :: behaviour_kind
  bd_modelled :: bool
  bd_dependencies :: "string list"

datatype behaviour_selector = SelectExact string | SelectPrefix string | SelectFallback

record behaviour_state =
  bs_activations :: u64
  bs_transfers :: u64

datatype event_key = EventKey (ek_tick: u64) (ek_phase: u8) (ek_device: usize) (ek_sequence: u64)

fun event_tuple :: "event_key \<Rightarrow> u64 \<times> u8 \<times> usize \<times> u64" where
  "event_tuple (EventKey t p d s) = (t, p, d, s)"

instantiation event_key :: linorder
begin

definition less_eq_event_key :: "event_key \<Rightarrow> event_key \<Rightarrow> bool" where
  "less_eq_event_key a b \<longleftrightarrow> event_tuple a \<le> event_tuple b"

definition less_event_key :: "event_key \<Rightarrow> event_key \<Rightarrow> bool" where
  "less_event_key a b \<longleftrightarrow> event_tuple a < event_tuple b"

instance
proof
  fix a b c :: event_key
  have inj: "event_tuple a = event_tuple b \<Longrightarrow> a = b" by (cases a; cases b) simp
  show "(a < b) = (a \<le> b \<and> \<not> b \<le> a)" unfolding less_eq_event_key_def less_event_key_def by (rule less_le_not_le)
  show "a \<le> a" unfolding less_eq_event_key_def by (rule order_refl)
  show "a \<le> b \<Longrightarrow> b \<le> c \<Longrightarrow> a \<le> c" unfolding less_eq_event_key_def by (rule order_trans)
  show "a \<le> b \<Longrightarrow> b \<le> a \<Longrightarrow> a = b" unfolding less_eq_event_key_def by (rule inj, rule order_antisym)
  show "a \<le> b \<or> b \<le> a" unfolding less_eq_event_key_def by (rule linear)
qed

end

datatype scheduled_action = SetField (sa_device: usize) (sa_field: string) (sa_value: f64)

record write_notice =
  wn_device :: usize
  wn_field :: string
  wn_before_bits :: u64
  wn_after_bits :: u64

record behaviour_runtime =
  br_descriptors :: "behaviour_descriptor list"
  br_states :: "behaviour_state list"
  br_scheduled :: "(event_key, scheduled_action) btree_map"
  br_pending_writes :: "write_notice list"
  br_next_sequence :: u64
  br_last_error :: "string option"

record behaviour_error =
  be_device :: string
  be_model :: string
  be_version :: u32
  be_hook :: string
  be_message :: string

definition material_handling_model :: string where "material_handling_model = ''builtin.material-handling''"
definition material_handling_version :: u32 where "material_handling_version = 1"
definition vending_machine :: string where "vending_machine = ''StructureVendingMachine''"
definition chute_outlet :: string where "chute_outlet = ''StructureChuteOutlet''"
definition digital_valve :: string where "digital_valve = ''StructureChuteDigitalValve''"

section \<open>The catalogue\<close>

definition active_descriptor :: "behaviour_kind \<Rightarrow> behaviour_descriptor" where
  "active_descriptor kind =
     \<lparr>bd_model = material_handling_model, bd_version = material_handling_version, bd_kind = kind, bd_modelled = True,
      bd_dependencies = [''fields'', ''slots'', ''chute'']\<rparr>"

definition passive_descriptor :: behaviour_descriptor where
  "passive_descriptor =
     \<lparr>bd_model = ''passive'', bd_version = 1, bd_kind = Passive, bd_modelled = False, bd_dependencies = []\<rparr>"

definition catalog_entry ::
  "behaviour_selector \<Rightarrow> behaviour_kind \<Rightarrow> bool \<Rightarrow> behaviour_selector \<times> behaviour_descriptor" where
  "catalog_entry selector kind modelled =
     (selector, if modelled then active_descriptor kind else passive_descriptor)"

definition behaviour_catalog :: "(behaviour_selector \<times> behaviour_descriptor) list" where
  "behaviour_catalog =
     [catalog_entry (SelectExact vending_machine) VendingMachine True,
      catalog_entry (SelectPrefix digital_valve) DigitalChuteValve True,
      catalog_entry (SelectExact chute_outlet) ChuteOutlet True,
      (SelectFallback, passive_descriptor)]"

definition descriptor_for_prefab :: "string \<Rightarrow> behaviour_descriptor" where
  "descriptor_for_prefab prefab =
     (if prefab = vending_machine then active_descriptor VendingMachine
      else if starts_with digital_valve prefab then active_descriptor DigitalChuteValve
      else if prefab = chute_outlet then active_descriptor ChuteOutlet
      else passive_descriptor)"

section \<open>The runtime\<close>

definition behaviour_build :: "world \<Rightarrow> behaviour_runtime" where
  "behaviour_build w =
     (let descriptors = map (\<lambda>d. descriptor_for_prefab (dv_prefab d)) (w_devices w)
      in \<lparr>br_descriptors = descriptors,
          br_states = replicate (length descriptors) \<lparr>bs_activations = 0, bs_transfers = 0\<rparr>,
          br_scheduled = bt_empty, br_pending_writes = [], br_next_sequence = 0, br_last_error = None\<rparr>)"

definition notify_field_write :: "usize \<Rightarrow> string \<Rightarrow> f64 \<Rightarrow> f64 \<Rightarrow> behaviour_runtime \<Rightarrow> behaviour_runtime" where
  "notify_field_write device field before after r =
     r\<lparr>br_pending_writes := br_pending_writes r @
         [\<lparr>wn_device = device, wn_field = field, wn_before_bits = to_bits before, wn_after_bits = to_bits after\<rparr>]\<rparr>"

definition hash_name :: "usize \<Rightarrow> string" where
  "hash_name device = ''#'' @ show_nat device"

definition quoted :: "string \<Rightarrow> string" where
  "quoted name = ''`'' @ name @ ''`''"

definition schedule :: "u64 \<Rightarrow> usize \<Rightarrow> scheduled_action \<Rightarrow> (behaviour_runtime, behaviour_error, unit) prog" where
  "schedule tick device action =
     bind (gets (\<lambda>r. nth_opt (br_descriptors r) device)) (\<lambda>found.
     bind (ok_or \<lparr>be_device = hash_name device, be_model = ''unknown'', be_version = 0, be_hook = ''schedule'',
                  be_message = ''device index is out of range''\<rparr> found) (\<lambda>descriptor.
     bind (gets (\<lambda>r. nth_opt (br_descriptors r) (sa_device action))) (\<lambda>target.
     bind (ok_or \<lparr>be_device = hash_name (sa_device action), be_model = bd_model descriptor,
                  be_version = bd_version descriptor, be_hook = ''schedule'',
                  be_message = ''action target device index is out of range''\<rparr> target) (\<lambda>target.
     if sa_field action = [] then
       throw \<lparr>be_device = hash_name (sa_device action), be_model = bd_model target, be_version = bd_version target,
              be_hook = ''schedule'', be_message = ''action target field is empty''\<rparr>
     else
       bind (gets (\<lambda>r. EventKey tick 0 device (br_next_sequence r))) (\<lambda>key.
       bind (gets (\<lambda>r. bt_get (br_scheduled r) key)) (\<lambda>previous.
       bind (modify (\<lambda>r. r\<lparr>br_next_sequence := br_next_sequence r + 1,
                           br_scheduled := bt_insert key action (br_scheduled r)\<rparr>)) (\<lambda>_.
       if previous \<noteq> None then
         throw \<lparr>be_device = hash_name device, be_model = bd_model descriptor, be_version = bd_version descriptor,
                be_hook = ''schedule'', be_message = ''stable event key collided''\<rparr>
       else ret ())))))))"

section \<open>The deterministic encoding\<close>

text \<open>\<open>to_le_bytes\<close>: little-endian bytes of a word of \<open>n\<close> bytes.\<close>

definition le_bytes :: "nat \<Rightarrow> 'a::len word \<Rightarrow> u8 list" where
  "le_bytes n w = map (\<lambda>i. ucast (drop_bit (8 * i) w)) [0..<n]"

definition le_u64 :: "u64 \<Rightarrow> u8 list" where
  "le_u64 w = le_bytes 8 w"

definition le_u32 :: "u32 \<Rightarrow> u8 list" where
  "le_u32 w = le_bytes 4 w"

definition as_bytes :: "string \<Rightarrow> u8 list" where
  "as_bytes s = map of_char s"

definition enc_usize :: "usize \<Rightarrow> u8 list" where
  "enc_usize n = le_u64 (of_nat n)"

definition enc_text :: "string \<Rightarrow> u8 list" where
  "enc_text s = enc_usize (length s) @ as_bytes s"

fun kind_code :: "behaviour_kind \<Rightarrow> u8" where
  "kind_code Passive = 0"
| "kind_code VendingMachine = 1"
| "kind_code DigitalChuteValve = 2"
| "kind_code ChuteOutlet = 3"

definition enc_model :: "behaviour_descriptor \<times> behaviour_state \<Rightarrow> u8 list" where
  "enc_model = (\<lambda>(d, s).
     enc_text (bd_model d) @ le_u32 (bd_version d) @ [kind_code (bd_kind d), of_bool (bd_modelled d)] @
     enc_usize (length (bd_dependencies d)) @ concat (map enc_text (bd_dependencies d)) @
     le_u64 (bs_activations s) @ le_u64 (bs_transfers s))"

definition enc_event :: "event_key \<times> scheduled_action \<Rightarrow> u8 list" where
  "enc_event = (\<lambda>(k, a).
     le_u64 (ek_tick k) @ [ek_phase k] @ enc_usize (ek_device k) @ le_u64 (ek_sequence k) @
     [0] @ enc_usize (sa_device a) @ enc_text (sa_field a) @ le_u64 (to_bits (sa_value a)))"

definition enc_notice :: "write_notice \<Rightarrow> u8 list" where
  "enc_notice n =
     enc_usize (wn_device n) @ enc_text (wn_field n) @ le_u64 (wn_before_bits n) @ le_u64 (wn_after_bits n)"

definition enc_error :: "string option \<Rightarrow> u8 list" where
  "enc_error e = (case e of Some message \<Rightarrow> 1 # enc_text message | None \<Rightarrow> [0])"

definition deterministic_bytes :: "behaviour_runtime \<Rightarrow> u8 list" where
  "deterministic_bytes r =
     as_bytes (''IC10-BEHAVIOUR'' @ [CHR 0x00]) @
     enc_usize (length (br_descriptors r)) @ concat (map enc_model (zip (br_descriptors r) (br_states r))) @
     enc_usize (length (br_scheduled r)) @ concat (map enc_event (br_scheduled r)) @
     enc_usize (length (br_pending_writes r)) @ concat (map enc_notice (br_pending_writes r)) @
     le_u64 (br_next_sequence r) @ enc_error (br_last_error r)"

section \<open>Behaviours on the world\<close>

record behave =
  bh_runtime :: behaviour_runtime
  bh_world :: world
  bh_journal :: effect_journal

type_synonym 'a behave_prog = "(behave, behaviour_error, 'a) prog"

definition display_error :: "behaviour_error \<Rightarrow> string" where
  "display_error e =
     ''device '' @ quoted (be_device e) @ '' behaviour '' @ be_model e @ ''@'' @ show_nat (unat (be_version e)) @ '' '' @
     be_hook e @ '' failed: '' @ be_message e"

definition bh_fail :: "usize \<Rightarrow> string \<Rightarrow> string \<Rightarrow> 'a behave_prog" where
  "bh_fail device hook message =
     bind get_state (\<lambda>b.
     (let descriptor = (case nth_opt (br_descriptors (bh_runtime b)) device of Some d \<Rightarrow> d | None \<Rightarrow> passive_descriptor);
          error = \<lparr>be_device = (case nth_opt (w_devices (bh_world b)) device of Some d \<Rightarrow> dv_id d | None \<Rightarrow> hash_name device),
                   be_model = bd_model descriptor, be_version = bd_version descriptor, be_hook = hook,
                   be_message = message\<rparr>
      in bind (modify (\<lambda>b. b\<lparr>bh_runtime := (bh_runtime b)\<lparr>br_last_error := Some (display_error error)\<rparr>\<rparr>)) (\<lambda>_.
         throw error)))"

definition bh_intern :: "string \<Rightarrow> symbol_id behave_prog" where
  "bh_intern name b = (case j_intern name (bh_journal b) of (i, j) \<Rightarrow> (Ok i, b\<lparr>bh_journal := j\<rparr>))"

definition bh_note :: "(effect_journal \<Rightarrow> effect_journal) \<Rightarrow> unit behave_prog" where
  "bh_note f = modify (\<lambda>b. b\<lparr>bh_journal := f (bh_journal b)\<rparr>)"

definition bh_device :: "usize \<Rightarrow> device behave_prog" where
  "bh_device i = bind (gets (\<lambda>b. nth_opt (w_devices (bh_world b)) i)) expect"

definition bh_set_device :: "usize \<Rightarrow> device \<Rightarrow> unit behave_prog" where
  "bh_set_device i d = modify (\<lambda>b. b\<lparr>bh_world := (bh_world b)\<lparr>w_devices := (w_devices (bh_world b))[i := d]\<rparr>\<rparr>)"

definition bh_state :: "usize \<Rightarrow> behaviour_state behave_prog" where
  "bh_state i = bind (gets (\<lambda>b. nth_opt (br_states (bh_runtime b)) i)) expect"

definition bh_set_state :: "usize \<Rightarrow> behaviour_state \<Rightarrow> unit behave_prog" where
  "bh_set_state i s = modify (\<lambda>b. b\<lparr>bh_runtime := (bh_runtime b)\<lparr>br_states := (br_states (bh_runtime b))[i := s]\<rparr>\<rparr>)"

definition bw_new :: "usize \<Rightarrow> string \<Rightarrow> effect_actor behave_prog" where
  "bw_new actor_device hook =
     bind (gets (\<lambda>b. nth_opt (br_descriptors (bh_runtime b)) actor_device)) (\<lambda>found.
     bind (ok_or \<lparr>be_device = hash_name actor_device, be_model = ''unknown'', be_version = 0, be_hook = hook,
                  be_message = ''device index is out of range''\<rparr> found) (\<lambda>descriptor.
     bind (bh_intern (bd_model descriptor)) (\<lambda>model.
     ret (ActorBehaviour actor_device model (bd_version descriptor)))))"

definition bw_set_field :: "effect_actor \<Rightarrow> string \<Rightarrow> usize \<Rightarrow> string \<Rightarrow> f64 \<Rightarrow> unit behave_prog" where
  "bw_set_field actor hook device name stored =
     bind (gets (\<lambda>b. nth_opt (w_devices (bh_world b)) device)) (\<lambda>found.
     bind (ok_or \<lparr>be_device = hash_name device, be_model = ''unknown'', be_version = 0, be_hook = hook,
                  be_message = ''device index is out of range''\<rparr> found) (\<lambda>target.
     case bt_get (dv_fields target) name of
       None \<Rightarrow> bh_fail device hook (''missing field '' @ quoted name)
     | Some before \<Rightarrow>
         bind (bh_set_device device (target\<lparr>dv_fields := bt_insert name stored (dv_fields target)\<rparr>)) (\<lambda>_.
         bind (bh_intern name) (\<lambda>field.
         bind (bh_note (j_write actor (TDeviceField device field) before stored)) (\<lambda>_.
         modify (\<lambda>b. b\<lparr>bh_runtime := notify_field_write device name before stored (bh_runtime b)\<rparr>))))))"

definition bh_field :: "usize \<Rightarrow> string \<Rightarrow> f64 behave_prog" where
  "bh_field device name =
     bind (bh_device device) (\<lambda>d. ret (case bt_get (dv_fields d) name of Some v \<Rightarrow> v | None \<Rightarrow> f64_zero))"

definition bw_increment_field :: "effect_actor \<Rightarrow> string \<Rightarrow> usize \<Rightarrow> string \<Rightarrow> unit behave_prog" where
  "bw_increment_field actor hook device name =
     bind (bh_field device name) (\<lambda>before. bw_set_field actor hook device name (f64_add before f64_one))"

definition fields_occupied :: "(string, f64) btree_map \<Rightarrow> bool" where
  "fields_occupied fs \<longleftrightarrow>
     f64_gt (case bt_get fs ''Occupied'' of Some v \<Rightarrow> v | None \<Rightarrow> f64_zero) f64_zero \<or>
     f64_gt (case bt_get fs ''Quantity'' of Some v \<Rightarrow> v | None \<Rightarrow> f64_zero) f64_zero"

definition device_slot_occupied :: "device \<Rightarrow> usize \<Rightarrow> bool" where
  "device_slot_occupied d slot = (case bt_get (dv_slots d) slot of Some fs \<Rightarrow> fields_occupied fs | None \<Rightarrow> False)"

definition slot_occupied :: "usize \<Rightarrow> usize \<Rightarrow> bool behave_prog" where
  "slot_occupied device slot = bind (bh_device device) (\<lambda>d. ret (device_slot_occupied d slot))"

definition digital_valve_on_input :: "world \<Rightarrow> usize \<Rightarrow> usize option" where
  "digital_valve_on_input w network =
     find_index (\<lambda>d. starts_with digital_valve (dv_prefab d) \<and> bt_get (dv_connections d) 0 = Some network) (w_devices w)"

definition chute_outlet_on_input :: "world \<Rightarrow> usize \<Rightarrow> usize option" where
  "chute_outlet_on_input w network =
     find_index (\<lambda>d. dv_prefab d = chute_outlet \<and> bt_get (dv_connections d) 0 = Some network) (w_devices w)"

text \<open>One field of the moved item; \<open>expect\<close> stands for the indexing expressions and \<open>expect\<close>s of the loop body.\<close>

definition bw_move_field ::
  "effect_actor \<Rightarrow> usize \<Rightarrow> usize \<Rightarrow> usize \<Rightarrow> usize \<Rightarrow> string \<times> f64 \<Rightarrow> unit behave_prog" where
  "bw_move_field actor from_device from_slot to_device to_slot = (\<lambda>(name, moved).
     bind (bh_device from_device) (\<lambda>source_device.
     bind (expect (bt_get (dv_slots source_device) from_slot)) (\<lambda>source_fields.
     bind (expect (bt_get source_fields name)) (\<lambda>source_before.
     bind (bh_set_device from_device
             (source_device\<lparr>dv_slots := bt_insert from_slot (bt_insert name f64_zero source_fields) (dv_slots source_device)\<rparr>))
       (\<lambda>_.
     bind (bh_intern name) (\<lambda>field.
     bind (bh_note (j_write actor (TDeviceSlot from_device (of_nat from_slot) field) source_before f64_zero)) (\<lambda>_.
     bind (bh_device to_device) (\<lambda>destination_device.
     bind (expect (bt_get (dv_slots destination_device) to_slot)) (\<lambda>destination_fields.
     case bt_get destination_fields name of
       None \<Rightarrow> ret ()
     | Some destination_before \<Rightarrow>
         bind (bh_set_device to_device (destination_device\<lparr>dv_slots :=
                 bt_insert to_slot (bt_insert name moved destination_fields) (dv_slots destination_device)\<rparr>)) (\<lambda>_.
         bh_note (j_write actor (TDeviceSlot to_device (of_nat to_slot) field) destination_before moved)))))))))))"

definition bw_move_slot ::
  "effect_actor \<Rightarrow> string \<Rightarrow> usize \<Rightarrow> usize \<Rightarrow> usize \<Rightarrow> usize \<Rightarrow> unit behave_prog" where
  "bw_move_slot actor hook from_device from_slot to_device to_slot =
     bind (gets (\<lambda>b. nth_opt (w_devices (bh_world b)) from_device)) (\<lambda>found.
     bind (ok_or \<lparr>be_device = hash_name from_device, be_model = material_handling_model,
                  be_version = material_handling_version, be_hook = hook,
                  be_message = ''source device index is out of range''\<rparr> found) (\<lambda>source_device.
     bind (gets (\<lambda>b. nth_opt (w_devices (bh_world b)) to_device)) (\<lambda>found.
     bind (ok_or \<lparr>be_device = hash_name to_device, be_model = material_handling_model,
                  be_version = material_handling_version, be_hook = hook,
                  be_message = ''destination device index is out of range''\<rparr> found) (\<lambda>destination_device.
     bind (ok_or \<lparr>be_device = dv_id source_device, be_model = material_handling_model,
                  be_version = material_handling_version, be_hook = hook,
                  be_message = ''source slot '' @ show_nat from_slot @ '' is missing''\<rparr>
             (bt_get (dv_slots source_device) from_slot)) (\<lambda>item.
     case bt_get (dv_slots destination_device) to_slot of
       None \<Rightarrow> bh_fail to_device hook (''destination slot '' @ show_nat to_slot @ '' is missing'')
     | Some destination \<Rightarrow>
         (case find (\<lambda>name. name \<notin> fst ` set destination) (map fst item) of
            Some field \<Rightarrow> bh_fail to_device hook
              (''destination slot '' @ show_nat to_slot @ '' has no field '' @ quoted field)
          | None \<Rightarrow> for_each item (bw_move_field actor from_device from_slot to_device to_slot)))))))"

definition record_state :: "usize \<Rightarrow> string \<Rightarrow> u64 \<Rightarrow> unit behave_prog" where
  "record_state device name after =
     bind (bh_intern name) (\<lambda>key.
     bind (bh_intern material_handling_model) (\<lambda>model.
     bh_note (j_write_bits (ActorBehaviour device model material_handling_version) (TBehaviourState device key)
       (if after = 0 then 0 else after - 1) after)))"

definition reset_activation :: "usize \<Rightarrow> unit behave_prog" where
  "reset_activation vendor =
     bind (bw_new vendor ''tickEnd'') (\<lambda>actor. bw_set_field actor ''tickEnd'' vendor ''Activate'' f64_zero)"

text \<open>The transfer counter after a completed move.\<close>

definition count_transfer :: "usize \<Rightarrow> unit behave_prog" where
  "count_transfer device =
     bind (bh_state device) (\<lambda>s.
     bind (bh_set_state device (s\<lparr>bs_transfers := bs_transfers s + 1\<rparr>)) (\<lambda>_.
     record_state device ''transfers'' (bs_transfers s + 1)))"

definition source_slot :: "device \<Rightarrow> f64 \<Rightarrow> usize option" where
  "source_slot d wanted =
     (let requested = (if is_finite wanted \<and> device_slot_occupied d (as_usize wanted) then Some (as_usize wanted) else None)
      in case requested of
           Some slot \<Rightarrow> Some slot
         | None \<Rightarrow> find (device_slot_occupied d) (map fst (dv_slots d)))"

definition vend :: "usize \<Rightarrow> unit behave_prog" where
  "vend vendor =
     bind (bh_field vendor ''Activate'') (\<lambda>activate.
     if f64_eq activate f64_zero then ret ()
     else
       bind (bh_state vendor) (\<lambda>s.
       bind (bh_set_state vendor (s\<lparr>bs_activations := bs_activations s + 1\<rparr>)) (\<lambda>_.
       bind (record_state vendor ''activations'' (bs_activations s + 1)) (\<lambda>_.
       bind (bh_device vendor) (\<lambda>d.
       bind (gets bh_world) (\<lambda>w.
       case Option.bind (bt_get (dv_connections d) 1) (digital_valve_on_input w) of
         None \<Rightarrow> reset_activation vendor
       | Some receiver \<Rightarrow>
           bind (slot_occupied receiver 0) (\<lambda>occupied.
           if occupied then reset_activation vendor
           else
             bind (bh_field vendor ''DispenseSlot'') (\<lambda>wanted.
             bind (case source_slot d wanted of
                     None \<Rightarrow> ret ()
                   | Some slot \<Rightarrow>
                       bind (bw_new vendor ''tickEnd'') (\<lambda>actor.
                       bind (bw_move_slot actor ''tickEnd'' vendor slot receiver 0) (\<lambda>_.
                       bind (bw_increment_field actor ''tickEnd'' vendor ''ExportCount'') (\<lambda>_.
                       bind (bw_set_field actor ''tickEnd'' receiver ''Quantity'' f64_one) (\<lambda>_.
                       count_transfer vendor))))) (\<lambda>_.
             reset_activation vendor)))))))))"

definition pass_valve :: "usize \<Rightarrow> unit behave_prog" where
  "pass_valve valve =
     bind (bh_field valve ''Open'') (\<lambda>opened.
     bind (if f64_eq opened f64_zero then ret False else slot_occupied valve 0) (\<lambda>ready.
     if \<not> ready then ret ()
     else
       bind (bh_device valve) (\<lambda>d.
       bind (gets bh_world) (\<lambda>w.
       case Option.bind (bt_get (dv_connections d) 1) (chute_outlet_on_input w) of
         None \<Rightarrow> ret ()
       | Some outlet \<Rightarrow>
           bind (slot_occupied outlet 0) (\<lambda>occupied.
           if occupied then ret ()
           else
             bind (bw_new valve ''tickEnd'') (\<lambda>actor.
             bind (bw_move_slot actor ''tickEnd'' valve 0 outlet 0) (\<lambda>_.
             bind (bw_increment_field actor ''tickEnd'' outlet ''ExportCount'') (\<lambda>_.
             bind (bw_set_field actor ''tickEnd'' valve ''Quantity'' f64_zero) (\<lambda>_.
             count_transfer valve)))))))))"

fun drain_writes :: "write_notice list \<Rightarrow> unit behave_prog" where
  "drain_writes [] = ret ()"
| "drain_writes (notice # rest) =
     bind (modify (\<lambda>b. b\<lparr>bh_runtime := (bh_runtime b)\<lparr>br_pending_writes := rest\<rparr>\<rparr>)) (\<lambda>_.
     bind (gets (\<lambda>b. length (br_descriptors (bh_runtime b)))) (\<lambda>n.
     if n \<le> wn_device notice then bh_fail (wn_device notice) ''fieldWrite'' ''unknown device''
     else drain_writes rest))"

definition run_behaviour :: "usize \<Rightarrow> unit behave_prog" where
  "run_behaviour device =
     bind (gets (\<lambda>b. nth_opt (br_descriptors (bh_runtime b)) device)) (\<lambda>found.
     bind (expect found) (\<lambda>descriptor.
     case bd_kind descriptor of
       VendingMachine \<Rightarrow> vend device
     | DigitalChuteValve \<Rightarrow> pass_valve device
     | Passive \<Rightarrow> ret ()
     | ChuteOutlet \<Rightarrow> ret ()))"

definition tick_end :: "unit behave_prog" where
  "tick_end =
     bind (gets (\<lambda>b. br_pending_writes (bh_runtime b))) (\<lambda>pending.
     bind (drain_writes pending) (\<lambda>_.
     bind (gets (\<lambda>b. length (br_descriptors (bh_runtime b)))) (\<lambda>n.
     for_each [0..<n] run_behaviour)))"

definition due_events :: "u64 \<Rightarrow> behaviour_runtime \<Rightarrow> (event_key \<times> scheduled_action) list" where
  "due_events tick r = filter (\<lambda>(key, _). key \<le> EventKey tick (-1) usize_max (-1)) (br_scheduled r)"

definition fire_event :: "event_key \<times> scheduled_action \<Rightarrow> unit behave_prog" where
  "fire_event = (\<lambda>(key, action).
     bind (modify (\<lambda>b. b\<lparr>bh_runtime := (bh_runtime b)\<lparr>br_scheduled := bt_remove key (br_scheduled (bh_runtime b))\<rparr>\<rparr>)) (\<lambda>_.
     bind (bw_new (sa_device action) ''tickStart'') (\<lambda>actor.
     bw_set_field actor ''tickStart'' (sa_device action) (sa_field action) (sa_value action))))"

definition tick_start :: "u64 \<Rightarrow> unit behave_prog" where
  "tick_start tick =
     bind (gets (\<lambda>b. due_events tick (bh_runtime b))) (\<lambda>due. for_each due fire_event)"

section \<open>Invariants and observations\<close>

text \<open>
  The runtime has a descriptor and a state for each of the \<open>n\<close> devices; together with a well-formed
  world of the given shape this is the invariant of every behaviour. \<open>slot_of\<close> and \<open>field_of\<close> read one
  slot and one logic field of a device.
\<close>

definition behaviour_wf :: "nat \<Rightarrow> behaviour_runtime \<Rightarrow> bool" where
  "behaviour_wf n r \<longleftrightarrow> length (br_descriptors r) = n \<and> length (br_states r) = n \<and> bt_wf (br_scheduled r)"

definition behave_inv :: "knowledge_base \<Rightarrow> world_form \<Rightarrow> behave \<Rightarrow> bool" where
  "behave_inv kb shape b \<longleftrightarrow>
     world_inv kb shape (bh_world b) \<and> behaviour_wf (length (fst shape)) (bh_runtime b)"

definition slot_of :: "behave \<Rightarrow> usize \<Rightarrow> usize \<Rightarrow> (string, f64) btree_map option" where
  "slot_of b i slot = bt_get (dv_slots (w_devices (bh_world b) ! i)) slot"

definition with_slot :: "usize \<Rightarrow> usize \<Rightarrow> (string, f64) btree_map \<Rightarrow> behave \<Rightarrow> behave" where
  "with_slot i slot fs b = b\<lparr>bh_world := (bh_world b)\<lparr>w_devices := (w_devices (bh_world b))[i :=
     (w_devices (bh_world b) ! i)\<lparr>dv_slots := bt_insert slot fs (dv_slots (w_devices (bh_world b) ! i))\<rparr>]\<rparr>\<rparr>"

definition move_ready :: "usize \<Rightarrow> usize \<Rightarrow> usize \<Rightarrow> usize \<Rightarrow> string set \<Rightarrow> behave \<Rightarrow> bool" where
  "move_ready from_device from_slot to_device to_slot names b \<longleftrightarrow>
     (\<exists>fs. slot_of b from_device from_slot = Some fs \<and> names \<subseteq> fst ` set fs) \<and> slot_of b to_device to_slot \<noteq> None"

definition field_of :: "behave \<Rightarrow> usize \<Rightarrow> string \<Rightarrow> f64 option" where
  "field_of b i name = bt_get (dv_fields (w_devices (bh_world b) ! i)) name"

text \<open>A world of two devices, and a runtime with one action scheduled for tick 3.\<close>

definition sample_shop :: behave where
  "sample_shop =
     (let d = hd (w_devices sample_world); w = sample_world\<lparr>w_devices := [d, d\<lparr>dv_id := ''store''\<rparr>]\<rparr>
      in \<lparr>bh_runtime = behaviour_build w, bh_world = w, bh_journal = empty_journal\<rparr>)"

definition sample_event :: "event_key \<times> scheduled_action" where
  "sample_event = (EventKey 3 0 0 0, SetField 0 ''On'' f64_one)"

definition sample_behave :: behave where
  "sample_behave = \<lparr>bh_runtime = (behaviour_build sample_world)\<lparr>br_scheduled := [sample_event]\<rparr>,
     bh_world = sample_world, bh_journal = empty_journal\<rparr>"

section \<open>Behaviours are safe\<close>

lemma behave_inv_frame [frame_simps]:
  "behave_inv kb sh (b\<lparr>bh_journal := j\<rparr>) = behave_inv kb sh b"
  "behave_inv kb sh (b\<lparr>bh_runtime := (bh_runtime b)\<lparr>br_last_error := e\<rparr>\<rparr>) = behave_inv kb sh b"
  "behave_inv kb sh (b\<lparr>bh_runtime := (bh_runtime b)\<lparr>br_pending_writes := ws\<rparr>\<rparr>) = behave_inv kb sh b"
  "behave_inv kb sh (b\<lparr>bh_runtime := (bh_runtime b)\<lparr>br_states := (br_states (bh_runtime b))[i := s]\<rparr>\<rparr>) = behave_inv kb sh b"
  "behave_inv kb sh (b\<lparr>bh_runtime := notify_field_write i name x y (bh_runtime b)\<rparr>) = behave_inv kb sh b"
  by (simp_all add: behave_inv_def behaviour_wf_def notify_field_write_def)

lemma behave_inv_remove:
  "behave_inv kb sh b \<Longrightarrow> behave_inv kb sh (b\<lparr>bh_runtime := (bh_runtime b)\<lparr>br_scheduled := bt_remove k (br_scheduled (bh_runtime b))\<rparr>\<rparr>)"
  by (simp add: behave_inv_def behaviour_wf_def bt_wf_remove)

lemma behave_inv_lengths:
  assumes "behave_inv kb sh b"
  shows "length (w_devices (bh_world b)) = length (fst sh)" "length (br_descriptors (bh_runtime b)) = length (fst sh)"
    "length (br_states (bh_runtime b)) = length (fst sh)"
  using assms unfolding behave_inv_def behaviour_wf_def by (blast intro: world_inv_length)+

lemma behave_inv_set_device:
  assumes "behave_inv kb sh b" "i < length (fst sh)"
    and "device_shape d = device_shape (w_devices (bh_world b) ! i)"
    and "device_wf kb (length (w_networks (bh_world b))) d"
  shows "behave_inv kb sh (b\<lparr>bh_world := (bh_world b)\<lparr>w_devices := (w_devices (bh_world b))[i := d]\<rparr>\<rparr>)"
  using assms world_inv_set_device [of kb sh "bh_world b" i d] behave_inv_lengths(1) [OF assms(1)] by (simp add: behave_inv_def)

lemma behave_inv_device_wf:
  "behave_inv kb sh b \<Longrightarrow> i < length (fst sh) \<Longrightarrow> device_wf kb (length (w_networks (bh_world b))) (w_devices (bh_world b) ! i)"
  unfolding behave_inv_def by (blast intro: world_inv_device_wf)

lemma safe_bh_fail: "safe (behave_inv kb sh) Q (bh_fail i hook message)"
  unfolding bh_fail_def Let_def by (intro safeI wp_intros) (simp add: frame_simps)

lemma safe_bh_intern: "safe (behave_inv kb sh) anything (bh_intern name)"
  by (auto simp: safe_def bh_intern_def frame_simps split: prod.split)

lemma safe_bh_note: "safe (behave_inv kb sh) anything (bh_note f)"
  unfolding bh_note_def by (intro safeI wp_intros) (simp add: frame_simps)

lemma wp_bh_device:
  "i < length (w_devices (bh_world b)) \<Longrightarrow> R (w_devices (bh_world b) ! i) b \<Longrightarrow> wp (bh_device i) R E b"
  unfolding bh_device_def by (intro wp_intros) auto

lemma safe_bh_device: "i < length (fst sh) \<Longrightarrow> safe (behave_inv kb sh) anything (bh_device i)"
  by (intro safeI wp_bh_device) (auto simp: behave_inv_lengths)

lemma safe_bh_state: "i < length (fst sh) \<Longrightarrow> safe (behave_inv kb sh) anything (bh_state i)"
  unfolding bh_state_def by (intro safeI wp_intros) (auto simp: behave_inv_lengths)

lemma safe_bh_set_state: "safe (behave_inv kb sh) anything (bh_set_state i s)"
  unfolding bh_set_state_def by (intro safeI wp_intros) (simp add: frame_simps)

lemma safe_bw_new: "safe (behave_inv kb sh) anything (bw_new i hook)"
  unfolding bw_new_def by (intro safeI wp_intros wp_safe [OF safe_bh_intern]) auto

lemma safe_bw_set_field: "safe (behave_inv kb sh) anything (bw_set_field actor hook i name v)"
  unfolding bw_set_field_def bh_set_device_def
  by (intro safeI wp_intros wp_safe [OF safe_bh_intern] wp_safe [OF safe_bh_note] wp_safe [OF safe_bh_fail] behave_inv_set_device)
    (auto dest!: nth_opt_lookup simp: frame_simps behave_inv_lengths device_shape_def device_wf_fields behave_inv_device_wf)

lemma safe_bh_field: "i < length (fst sh) \<Longrightarrow> safe (behave_inv kb sh) anything (bh_field i name)"
  unfolding bh_field_def by (intro safeI wp_intros wp_safe [OF safe_bh_device]) auto

lemma safe_bw_increment_field: "i < length (fst sh) \<Longrightarrow> safe (behave_inv kb sh) anything (bw_increment_field actor hook i name)"
  unfolding bw_increment_field_def by (intro safeI wp_intros wp_safe [OF safe_bh_field] wp_safe [OF safe_bw_set_field]) auto

lemma safe_slot_occupied: "i < length (fst sh) \<Longrightarrow> safe (behave_inv kb sh) anything (slot_occupied i slot)"
  unfolding slot_occupied_def by (intro safeI wp_intros wp_safe [OF safe_bh_device]) auto

lemma safe_record_state: "safe (behave_inv kb sh) anything (record_state i name v)"
  unfolding record_state_def by (intro safeI wp_intros wp_safe [OF safe_bh_intern] wp_safe [OF safe_bh_note]) auto

lemma bh_intern_frame: "bh_intern name b = (r, b') \<Longrightarrow> \<exists>j. b' = b\<lparr>bh_journal := j\<rparr> \<and> (\<exists>i. r = Ok i)"
  by (auto simp: bh_intern_def split: prod.splits)

lemma slot_of_frame [simp]: "slot_of (b\<lparr>bh_journal := j\<rparr>) i slot = slot_of b i slot"
  by (simp add: slot_of_def)

lemma slot_of_with_slot [simp]:
  "i < length (w_devices (bh_world b)) \<Longrightarrow>
     slot_of (with_slot i slot fs b) i' slot' = (if i = i' \<and> slot = slot' then Some fs else slot_of b i' slot')"
  by (auto simp: slot_of_def with_slot_def bt_get_insert nth_list_update)

lemma with_slot_fields [simp]:
  "length (w_devices (bh_world (with_slot i slot fs b))) = length (w_devices (bh_world b))"
  "bh_journal (with_slot i slot fs b) = bh_journal b" "bh_runtime (with_slot i slot fs b) = bh_runtime b"
  by (simp_all add: with_slot_def)

lemma with_slot_inv [wf_intros]:
  assumes "behave_inv kb sh b" "i < length (fst sh)"
  shows "behave_inv kb sh (with_slot i slot fs b)"
proof -
  have "device_wf kb (length (w_networks (bh_world b))) (w_devices (bh_world b) ! i)"
    by (rule behave_inv_device_wf [OF assms])
  then show ?thesis
    unfolding with_slot_def
    by (intro behave_inv_set_device [OF assms]) (auto simp: device_shape_def device_wf_def bt_wf_insert)
qed

text \<open>The effect of moving one field, up to the journal.\<close>

lemma bw_move_field_effect:
  assumes "fd < length (w_devices (bh_world b))" "td < length (w_devices (bh_world b))"
    and "slot_of b fd fs = Some m" "name \<in> fst ` set m"
    and "slot_of (with_slot fd fs (bt_insert name f64_zero m) b) td ts = Some m'"
  shows "\<exists>j. bw_move_field actor fd fs td ts (name, v) b =
    (Ok (), (if name \<in> fst ` set m' then with_slot td ts (bt_insert name v m') (with_slot fd fs (bt_insert name f64_zero m) b)
             else with_slot fd fs (bt_insert name f64_zero m) b)\<lparr>bh_journal := j\<rparr>)"
proof -
  obtain before where before: "bt_get m name = Some before"
    using assms(4) bt_get_None_keys [of m name] by auto
  let ?b1 = "with_slot fd fs (bt_insert name f64_zero m) b"
  have set1: "bh_set_device fd ((w_devices (bh_world b) ! fd)\<lparr>dv_slots :=
      bt_insert fs (bt_insert name f64_zero m) (dv_slots (w_devices (bh_world b) ! fd))\<rparr>) b = (Ok (), ?b1)"
    by (simp add: bh_set_device_def with_slot_def prog_simps)
  obtain i j1 where intern: "bh_intern name ?b1 = (Ok i, ?b1\<lparr>bh_journal := j1\<rparr>)"
    using bh_intern_frame [of name ?b1] by (cases "bh_intern name ?b1") auto
  have set2: "bh_set_device td ((w_devices (bh_world ?b1) ! td)\<lparr>dv_slots :=
      bt_insert ts (bt_insert name v m') (dv_slots (w_devices (bh_world ?b1) ! td))\<rparr>) (?b1\<lparr>bh_journal := j2\<rparr>)
      = (Ok (), (with_slot td ts (bt_insert name v m') ?b1)\<lparr>bh_journal := j2\<rparr>)" for j2
    by (simp add: bh_set_device_def with_slot_def prog_simps)
  have look: "bt_get (dv_slots (w_devices (bh_world b) ! fd)) fs = Some m"
    "bt_get (dv_slots (w_devices (bh_world ?b1) ! td)) ts = Some m'"
    using assms(3,5) by (simp_all add: slot_of_def)
  have "bt_get m' name = None \<longleftrightarrow> name \<notin> fst ` set m'" by (rule bt_get_None_keys)
  then show ?thesis
    using before intern look assms(1,2) set1 set2
    by (cases "bt_get m' name") (auto simp: bw_move_field_def bh_device_def bh_note_def prog_simps)
qed

lemma safe_bw_move_field:
  assumes "fd < length (fst sh)" "td < length (fst sh)" "fst nv \<in> names"
  shows "safe (\<lambda>b. behave_inv kb sh b \<and> move_ready fd fs td ts names b) anything (bw_move_field actor fd fs td ts nv)"
proof (rule safeI)
  fix b assume b: "behave_inv kb sh b \<and> move_ready fd fs td ts names b"
  then obtain m where m: "slot_of b fd fs = Some m" "names \<subseteq> fst ` set m" and t: "slot_of b td ts \<noteq> None"
    by (auto simp: move_ready_def)
  obtain name v where nv: "nv = (name, v)" by fastforce
  have len: "fd < length (w_devices (bh_world b))" "td < length (w_devices (bh_world b))"
    using assms behave_inv_lengths(1) [of kb sh b] b by simp_all
  let ?b1 = "with_slot fd fs (bt_insert name f64_zero m) b"
  obtain m' where m': "slot_of ?b1 td ts = Some m'" using t len by (cases "slot_of ?b1 td ts") (auto split: if_splits)
  have "name \<in> fst ` set m" using m(2) assms(3) nv by auto
  from bw_move_field_effect [OF len m(1) this m', of actor v] obtain j where
    eff: "bw_move_field actor fd fs td ts (name, v) b =
    (Ok (), (if name \<in> fst ` set m' then with_slot td ts (bt_insert name v m') ?b1 else ?b1)\<lparr>bh_journal := j\<rparr>)" ..
  have "behave_inv kb sh ?b1" using b assms(1) by (auto intro: wf_intros)
  moreover from this have "behave_inv kb sh (with_slot td ts (bt_insert name v m') ?b1)" using assms(2) by (rule with_slot_inv)
  moreover have "move_ready fd fs td ts names ?b1"
    using m t len by (auto simp: move_ready_def fst_set_bt_insert)
  moreover have "move_ready fd fs td ts names (with_slot td ts (bt_insert name v m') ?b1)"
    using m t len m' by (auto simp: move_ready_def fst_set_bt_insert) (blast dest: subsetD)
  ultimately show "wp (bw_move_field actor fd fs td ts nv)
      (\<lambda>x s'. (behave_inv kb sh s' \<and> move_ready fd fs td ts names s') \<and> True)
      (\<lambda>b. behave_inv kb sh b \<and> move_ready fd fs td ts names b) b"
    unfolding nv wp_def eff by (simp add: frame_simps move_ready_def)
qed

lemma safe_bw_move_slot: "safe (behave_inv kb sh) anything (bw_move_slot actor hook fd fs td ts)"
  unfolding bw_move_slot_def
proof (intro safeI wp_intros wp_safe [OF safe_bh_fail])
  fix b sd dd item dest
  assume b: "behave_inv kb sh b" and s: "nth_opt (w_devices (bh_world b)) fd = Some sd"
    and d: "nth_opt (w_devices (bh_world b)) td = Some dd" and item: "bt_get (dv_slots sd) fs = Some item"
    and dest: "bt_get (dv_slots dd) ts = Some dest"
  let ?P = "\<lambda>b. behave_inv kb sh b \<and> move_ready fd fs td ts (fst ` set item) b"
  have len: "fd < length (fst sh)" "td < length (fst sh)"
    using s d b behave_inv_lengths(1) [OF b] by (auto simp: nth_opt_eq_Some)
  have "?P b" using b s d item dest by (auto simp: move_ready_def slot_of_def nth_opt_eq_Some)
  moreover have "safe ?P anything (for_each item (bw_move_field actor fd fs td ts))"
    by (rule safe_for_each, rule safe_bw_move_field [OF len]) simp
  ultimately have "wp (for_each item (bw_move_field actor fd fs td ts)) (\<lambda>x s'. ?P s') ?P b"
    by (simp add: wp_safe)
  then show "wp (for_each item (bw_move_field actor fd fs td ts)) (\<lambda>x s'. behave_inv kb sh s' \<and> True) (behave_inv kb sh) b"
    by (rule wp_mono) auto
qed auto

lemmas behave_rules = safe_bh_device safe_bh_state safe_bh_set_state safe_bw_new safe_bw_set_field safe_bh_field
  safe_bw_increment_field safe_slot_occupied safe_record_state safe_bw_move_slot safe_bh_fail safe_bh_note safe_bh_intern

lemma safe_reset_activation: "safe (behave_inv kb sh) anything (reset_activation i)"
  unfolding reset_activation_def by (intro safeI wp_intros behave_rules [THEN wp_safe]) auto

lemma safe_count_transfer: "i < length (fst sh) \<Longrightarrow> safe (behave_inv kb sh) anything (count_transfer i)"
  unfolding count_transfer_def by (intro safeI wp_intros behave_rules [THEN wp_safe]) auto

lemma on_input_less:
  "digital_valve_on_input w n = Some i \<Longrightarrow> i < length (w_devices w)"
  "chute_outlet_on_input w n = Some i \<Longrightarrow> i < length (w_devices w)"
  by (auto simp: digital_valve_on_input_def chute_outlet_on_input_def dest: find_index_SomeD)

lemma safe_vend: "i < length (fst sh) \<Longrightarrow> safe (behave_inv kb sh) anything (vend i)"
  unfolding vend_def
  by (intro safeI wp_intros behave_rules [THEN wp_safe] safe_reset_activation [THEN wp_safe] safe_count_transfer [THEN wp_safe])
    (auto simp: bind_eq_Some_conv behave_inv_lengths dest!: on_input_less)

lemma safe_pass_valve: "i < length (fst sh) \<Longrightarrow> safe (behave_inv kb sh) anything (pass_valve i)"
  unfolding pass_valve_def
  by (intro safeI wp_intros behave_rules [THEN wp_safe] safe_count_transfer [THEN wp_safe])
    (auto simp: bind_eq_Some_conv behave_inv_lengths dest!: on_input_less)

lemma safe_run_behaviour: "i < length (fst sh) \<Longrightarrow> safe (behave_inv kb sh) anything (run_behaviour i)"
  unfolding run_behaviour_def
  by (intro safeI wp_intros)
    (auto simp: behave_inv_lengths split: behaviour_kind.split intro!: wp_intros wp_safe [OF safe_vend] wp_safe [OF safe_pass_valve])

lemma safe_drain_writes: "safe (behave_inv kb sh) anything (drain_writes notices)"
proof (induction notices)
  case (Cons n rest)
  then show ?case
    by (simp only: drain_writes.simps)
      (intro safeI wp_intros wp_safe [OF safe_bh_fail] wp_safe [OF Cons], auto simp: frame_simps)
qed (auto intro!: safeI wp_intros)

lemma safe_tick_end: "safe (behave_inv kb sh) anything tick_end"
  unfolding tick_end_def
  by (intro safeI wp_intros wp_safe [OF safe_drain_writes] safe_for_each [THEN wp_safe] safe_run_behaviour)
    (auto simp: behave_inv_lengths)

lemma safe_tick_start: "safe (behave_inv kb sh) anything (tick_start tick)"
  unfolding tick_start_def fire_event_def split_beta
  by (intro safeI wp_intros safe_for_each [THEN wp_safe] behave_rules [THEN wp_safe]) (auto simp: behave_inv_remove)

text \<open>The effect of the whole loop on the slots.\<close>

lemma move_fields_effect:
  assumes "fd < length (w_devices (bh_world b))" "td < length (w_devices (bh_world b))" "(fd, fs) \<noteq> (td, ts)"
    and "slot_of b fd fs = Some m" "fst ` set items \<subseteq> fst ` set m"
    and "slot_of b td ts = Some m'" "fst ` set items \<subseteq> fst ` set m'"
  shows "\<exists>b'. for_each items (bw_move_field actor fd fs td ts) b = (Ok (), b') \<and>
    slot_of b' fd fs = Some (fold (\<lambda>(name, _). bt_insert name f64_zero) items m) \<and>
    slot_of b' td ts = Some (fold (\<lambda>(name, v). bt_insert name v) items m') \<and>
    (\<forall>i s. (i, s) \<noteq> (fd, fs) \<and> (i, s) \<noteq> (td, ts) \<longrightarrow> slot_of b' i s = slot_of b i s)"
  using assms
proof (induction items arbitrary: b m m')
  case Nil
  then show ?case by (simp add: prog_simps)
next
  case (Cons nv items)
  obtain name v where nv: "nv = (name, v)" by fastforce
  let ?m = "bt_insert name f64_zero m" and ?m' = "bt_insert name v m'"
  let ?b1 = "with_slot td ts ?m' (with_slot fd fs ?m b)"
  have "name \<in> fst ` set m" "name \<in> fst ` set m'" using Cons.prems(5,7) nv by auto
  moreover have "slot_of (with_slot fd fs ?m b) td ts = Some m'" using Cons.prems by auto
  ultimately obtain j where step: "bw_move_field actor fd fs td ts nv b = (Ok (), ?b1\<lparr>bh_journal := j\<rparr>)"
    using bw_move_field_effect [OF Cons.prems(1,2,4), of name ts m' actor v] nv by auto
  have "\<exists>b'. for_each items (bw_move_field actor fd fs td ts) (?b1\<lparr>bh_journal := j\<rparr>) = (Ok (), b') \<and>
    slot_of b' fd fs = Some (fold (\<lambda>(name, _). bt_insert name f64_zero) items ?m) \<and>
    slot_of b' td ts = Some (fold (\<lambda>(name, v). bt_insert name v) items ?m') \<and>
    (\<forall>i s. (i, s) \<noteq> (fd, fs) \<and> (i, s) \<noteq> (td, ts) \<longrightarrow> slot_of b' i s = slot_of (?b1\<lparr>bh_journal := j\<rparr>) i s)"
    using Cons.prems by (intro Cons.IH) (auto simp: fst_set_bt_insert)
  moreover have "slot_of (?b1\<lparr>bh_journal := j\<rparr>) i s = slot_of b i s" if "(i, s) \<noteq> (fd, fs)" "(i, s) \<noteq> (td, ts)" for i s
    using that Cons.prems(1,2) by auto
  ultimately show ?case using step nv by (auto simp: prog_simps)
qed

lemma bt_get_fold_zero:
  "bt_get (fold (\<lambda>(name, _). bt_insert name f64_zero) items m) n =
     (if n \<in> fst ` set items then Some f64_zero else bt_get m n)"
  by (induction items arbitrary: m) (auto simp: bt_get_insert)

lemma bt_get_fold_insert:
  "distinct (map fst items) \<Longrightarrow>
     bt_get (fold (\<lambda>(name, v). bt_insert name v) items m) n = (case map_of items n of Some v \<Rightarrow> Some v | None \<Rightarrow> bt_get m n)"
  by (induction items arbitrary: m) (auto simp: bt_get_insert split: option.splits dest: map_of_SomeD, force dest: map_of_SomeD)

lemma bh_fail_world: "bh_fail i hook message b = (r, b') \<Longrightarrow> bh_world b' = bh_world b \<and> (\<exists>e. r = Err e)"
  by (auto simp: bh_fail_def Let_def prog_simps)

lemma move_slot_cases:
  assumes "bw_move_slot actor hook fd fs td ts b = (r, b')"
  obtains e where "r = Err e" "bh_world b' = bh_world b"
  | item stored where "fd < length (w_devices (bh_world b))" "td < length (w_devices (bh_world b))"
      "slot_of b fd fs = Some item" "slot_of b td ts = Some stored" "fst ` set item \<subseteq> fst ` set stored"
      "for_each item (bw_move_field actor fd fs td ts) b = (r, b')"
proof (cases "fd < length (w_devices (bh_world b)) \<and> td < length (w_devices (bh_world b))")
  case False
  then show ?thesis using assms that(1)
    by (cases "fd < length (w_devices (bh_world b))") (auto simp: bw_move_slot_def prog_simps)
next
  case len: True
  let ?dest = "\<lambda>suffix. ''destination slot '' @ show_nat ts @ suffix"
  show ?thesis
  proof (cases "slot_of b fd fs"; cases "slot_of b td ts")
    fix item assume "slot_of b fd fs = Some item" "slot_of b td ts = None"
    then have "bw_move_slot actor hook fd fs td ts b = bh_fail td hook (?dest '' is missing'') b"
      using len by (simp add: bw_move_slot_def slot_of_def prog_simps)
    then show ?thesis using assms bh_fail_world that(1) by metis
  next
    fix item stored assume found: "slot_of b fd fs = Some item" "slot_of b td ts = Some stored"
    show ?thesis
    proof (cases "find (\<lambda>name. name \<notin> fst ` set stored) (map fst item)")
      case (Some field)
      then have "bw_move_slot actor hook fd fs td ts b = bh_fail td hook (?dest ('' has no field '' @ quoted field)) b"
        using found len by (simp add: bw_move_slot_def slot_of_def prog_simps)
      then show ?thesis using assms bh_fail_world that(1) by metis
    next
      case None
      then have "fst ` set item \<subseteq> fst ` set stored" by (auto simp: find_None_iff)
      then show ?thesis using that(2) found len assms None by (simp add: bw_move_slot_def slot_of_def prog_simps)
    qed
  qed (use len assms that(1) in \<open>auto simp: bw_move_slot_def slot_of_def prog_simps\<close>)
qed

section \<open>Scheduled actions\<close>

lemma bw_set_field_Ok:
  assumes "bw_set_field actor hook i name v b = (Ok (), b')"
  shows "br_scheduled (bh_runtime b') = br_scheduled (bh_runtime b) \<and>
    (\<forall>j n. field_of b' j n = (if j = i \<and> n = name then Some v else field_of b j n))"
proof -
  have i: "i < length (w_devices (bh_world b))"
    using assms by (cases "i < length (w_devices (bh_world b))") (auto simp: bw_set_field_def prog_simps)
  then obtain before where before: "bt_get (dv_fields (w_devices (bh_world b) ! i)) name = Some before"
    using assms by (cases "bt_get (dv_fields (w_devices (bh_world b) ! i)) name")
      (auto simp: bw_set_field_def prog_simps dest: bh_fail_world)
  let ?d = "(w_devices (bh_world b) ! i)\<lparr>dv_fields := bt_insert name v (dv_fields (w_devices (bh_world b) ! i))\<rparr>"
  let ?b1 = "b\<lparr>bh_world := (bh_world b)\<lparr>w_devices := (w_devices (bh_world b))[i := ?d]\<rparr>\<rparr>"
  obtain k j where intern: "bh_intern name ?b1 = (Ok k, ?b1\<lparr>bh_journal := j\<rparr>)"
    using bh_intern_frame [of name ?b1] by (cases "bh_intern name ?b1") auto
  have "b' = ?b1\<lparr>bh_journal := bh_journal b', bh_runtime := notify_field_write i name before v (bh_runtime b)\<rparr>"
    using assms i before intern by (auto simp: bw_set_field_def bh_set_device_def bh_note_def prog_simps)
  from arg_cong [OF this, of bh_world] arg_cong [OF this, of bh_runtime]
  have "bh_world b' = bh_world ?b1" "br_scheduled (bh_runtime b') = br_scheduled (bh_runtime b)"
    by (simp_all add: notify_field_write_def)
  then show ?thesis using i by (auto simp: field_of_def nth_list_update bt_get_insert)
qed

lemma fire_event_Ok:
  assumes "fire_event (ek, action) b = (Ok (), b')"
  shows "br_scheduled (bh_runtime b') = bt_remove ek (br_scheduled (bh_runtime b)) \<and>
    (\<forall>i n. field_of b' i n = (if i = sa_device action \<and> n = sa_field action then Some (sa_value action) else field_of b i n))"
proof -
  let ?b1 = "b\<lparr>bh_runtime := (bh_runtime b)\<lparr>br_scheduled := bt_remove ek (br_scheduled (bh_runtime b))\<rparr>\<rparr>"
  obtain r b2 where new: "bw_new (sa_device action) ''tickStart'' ?b1 = (r, b2)" by fastforce
  have run: "bind (bw_new (sa_device action) ''tickStart'') (\<lambda>actor.
      bw_set_field actor ''tickStart'' (sa_device action) (sa_field action) (sa_value action)) ?b1 = (Ok (), b')"
    using assms by (simp add: fire_event_def prog_simps)
  then obtain actor where actor: "r = Ok actor"
    and set: "bw_set_field actor ''tickStart'' (sa_device action) (sa_field action) (sa_value action) b2 = (Ok (), b')"
    using new by (elim bind_OkE) auto
  have "\<exists>j. b2 = ?b1\<lparr>bh_journal := j\<rparr>"
    using new actor bh_intern_frame
    by (cases "nth_opt (br_descriptors (bh_runtime b)) (sa_device action)")
      (fastforce simp: bw_new_def prog_simps elim!: bind_OkE)+
  then show ?thesis using bw_set_field_Ok [OF set] by (auto simp: field_of_def)
qed

lemma fire_events_Ok:
  assumes "for_each due fire_event b = (Ok (), b')"
  shows "br_scheduled (bh_runtime b') = fold (\<lambda>(ek, _). bt_remove ek) due (br_scheduled (bh_runtime b)) \<and>
    (\<forall>i n. field_of b' i n = (case find (\<lambda>(_, a). sa_device a = i \<and> sa_field a = n) (rev due) of
       Some (_, a) \<Rightarrow> Some (sa_value a) | None \<Rightarrow> field_of b i n))"
  using assms
proof (induction due arbitrary: b)
  case (Cons e due)
  obtain ek action where e: "e = (ek, action)" by fastforce
  from Cons.prems obtain b1 where b1: "fire_event e b = (Ok (), b1)" "for_each due fire_event b1 = (Ok (), b')"
    by (auto elim!: bind_OkE)
  show ?case
    using Cons.IH [OF b1(2)] fire_event_Ok [OF b1(1) [unfolded e]] e
    by (auto simp: find_append split: option.split)
qed (simp add: prog_simps)

lemma due_iff: "ek_device ek \<le> usize_max \<Longrightarrow> ek \<le> EventKey tick (-1) usize_max (-1) \<longleftrightarrow> ek_tick ek \<le> tick"
  by (cases ek) (auto simp: less_eq_event_key_def less_eq_prod_def word_order.extremum)

section \<open>Properties\<close>

lemma behaviour_build_inv:
  "world_wf kb w \<Longrightarrow> behave_inv kb (world_shape w) \<lparr>bh_runtime = behaviour_build w, bh_world = w, bh_journal = j\<rparr>"
  by (simp add: behave_inv_def behaviour_wf_def behaviour_build_def world_inv_def world_shape_def bt_empty_def Let_def)

text \<open>C39: The behaviours of a tick never panic: on a well-formed world whose runtime has one descriptor and one state per
  device, as \<open>build\<close> makes it, \<open>tick_end\<close> and \<open>tick_start\<close> return normally or with an error, and in both cases leave a
  well-formed world of the same shape and a runtime that fits it.\<close>

theorem behaviour_tick_safe:
  assumes "behave_inv kb shape b"
  shows "fst (tick_end b) \<noteq> Panic \<and> behave_inv kb shape (snd (tick_end b)) \<and>
    fst (tick_start tick b) \<noteq> Panic \<and> behave_inv kb shape (snd (tick_start tick b))"
  using safeD(1,2) [OF safe_tick_end assms] safeD(1,2) [OF safe_tick_start assms] by blast

theorem behaviour_tick_safe_witness:
  "fst (tick_end \<lparr>bh_runtime = behaviour_build sample_world, bh_world = sample_world, bh_journal = empty_journal\<rparr>) \<noteq> Panic"
  using behaviour_tick_safe [OF behaviour_build_inv [OF sample_world_wf]] by blast

text \<open>C30: Moving an item between slots is all or nothing. A move that fails leaves the world as it was. A move that
  succeeds puts every field of the item into the destination, keeps the destination's other fields, clears every
  field of the source slot, and touches no other slot.\<close>

theorem move_slot_atomic:
  assumes "bw_move_slot actor hook fd fs td ts b = (r, b')" "(fd, fs) \<noteq> (td, ts)"
    and "\<And>item. slot_of b fd fs = Some item \<Longrightarrow> distinct (map fst item)"
  shows "(\<exists>e. r = Err e) \<and> bh_world b' = bh_world b \<or>
    r = Ok () \<and> (\<exists>item stored stored' item'. slot_of b fd fs = Some item \<and> slot_of b td ts = Some stored \<and>
      slot_of b' fd fs = Some item' \<and> slot_of b' td ts = Some stored' \<and>
      (\<forall>n. bt_get stored' n = (case bt_get item n of Some v \<Rightarrow> Some v | None \<Rightarrow> bt_get stored n)) \<and>
      (\<forall>n. bt_get item' n = map_option (\<lambda>_. f64_zero) (bt_get item n))) \<and>
    (\<forall>i s. (i, s) \<noteq> (fd, fs) \<and> (i, s) \<noteq> (td, ts) \<longrightarrow> slot_of b' i s = slot_of b i s)"
  using assms(1)
proof (cases rule: move_slot_cases)
  case (2 item stored)
  obtain b'' where eff: "for_each item (bw_move_field actor fd fs td ts) b = (Ok (), b'')"
    "slot_of b'' fd fs = Some (fold (\<lambda>(name, _). bt_insert name f64_zero) item item)"
    "slot_of b'' td ts = Some (fold (\<lambda>(name, v). bt_insert name v) item stored)"
    "\<forall>i s. (i, s) \<noteq> (fd, fs) \<and> (i, s) \<noteq> (td, ts) \<longrightarrow> slot_of b'' i s = slot_of b i s"
    using move_fields_effect [of fd b td fs ts item item stored actor] 2 assms(2) by auto
  have "bt_get (fold (\<lambda>(name, _). bt_insert name f64_zero) item item) n = map_option (\<lambda>_. f64_zero) (bt_get item n)" for n
    using bt_get_None_keys [of item n] by (auto simp: bt_get_fold_zero)
  moreover have "bt_get (fold (\<lambda>(name, v). bt_insert name v) item stored) n =
      (case bt_get item n of Some v \<Rightarrow> Some v | None \<Rightarrow> bt_get stored n)" for n
    using bt_get_fold_insert [OF assms(3) [OF 2(3)]] by (simp add: bt_get_def)
  ultimately show ?thesis using eff 2 by auto
qed simp

theorem move_slot_atomic_witness:
  "\<exists>b' stored'. bw_move_slot ActorScheduler ''tickEnd'' 0 0 1 0 sample_shop = (Ok (), b') \<and>
    slot_of b' 1 0 = Some stored' \<and> bt_get stored' ''Occupied'' = Some (F64 0x3FF0000000000000)"
proof -
  obtain r b' where run: "bw_move_slot ActorScheduler ''tickEnd'' 0 0 1 0 sample_shop = (r, b')" by fastforce
  have slots: "slot_of sample_shop 0 0 = Some [(''Occupied'', F64 0x3FF0000000000000)]"
    by (simp add: slot_of_def sample_shop_def sample_world_def bt_get_def Let_def)
  have "fst (bw_move_slot ActorScheduler ''tickEnd'' 0 0 1 0 sample_shop) = Ok ()"
    by (simp add: bw_move_slot_def bw_move_field_def sample_shop_def sample_world_def bt_get_def Let_def bh_device_def
        bh_set_device_def bh_intern_def bh_note_def j_intern_def empty_journal_def bt_empty_def prog_simps)
  then have "r = Ok ()" using run by simp
  then show ?thesis using move_slot_atomic [OF run] slots run by (auto simp: bt_get_def)
qed

text \<open>Starting a tick fires exactly the actions that are due: when \<open>tick_start\<close> succeeds, the schedule keeps exactly
  the events of later ticks, and each logic field holds the value of the last due action for it in the order of the
  event keys, or its old value when no due action names it.\<close>

theorem tick_start_fires:
  assumes "tick_start tick b = (Ok (), b')" "bt_wf (br_scheduled (bh_runtime b))"
    and "\<forall>(ek, a) \<in> set (br_scheduled (bh_runtime b)). ek_device ek \<le> usize_max"
  shows "br_scheduled (bh_runtime b') = filter (\<lambda>(ek, _). tick < ek_tick ek) (br_scheduled (bh_runtime b)) \<and>
    (\<forall>i n. field_of b' i n =
       (case find (\<lambda>(ek, a). ek_tick ek \<le> tick \<and> sa_device a = i \<and> sa_field a = n) (rev (br_scheduled (bh_runtime b))) of
          Some (_, a) \<Rightarrow> Some (sa_value a) | None \<Rightarrow> field_of b i n))"
proof -
  let ?m = "br_scheduled (bh_runtime b)"
  have due: "due_events tick (bh_runtime b) = filter (\<lambda>(ek, _). ek_tick ek \<le> tick) ?m"
    using assms(3) due_iff by (auto simp: due_events_def intro!: filter_cong)
  have run: "for_each (filter (\<lambda>(ek, _). ek_tick ek \<le> tick) ?m) fire_event b = (Ok (), b')"
    using assms(1) due by (simp add: tick_start_def prog_simps)
  note eff = fire_events_Ok [OF run]
  have "fold (\<lambda>(ek, _). bt_remove ek) (filter (\<lambda>(ek, _). ek_tick ek \<le> tick) ?m) ?m = filter (\<lambda>(ek, _). tick < ek_tick ek) ?m"
    unfolding fold_bt_remove [OF assms(2)] by (rule filter_cong) (force simp: not_le [symmetric])+
  moreover have "find (\<lambda>(_, a). sa_device a = i \<and> sa_field a = n) (rev (filter (\<lambda>(ek, _). ek_tick ek \<le> tick) ?m)) =
      find (\<lambda>(ek, a). ek_tick ek \<le> tick \<and> sa_device a = i \<and> sa_field a = n) (rev ?m)" for i n
    unfolding rev_filter find_filter by (rule arg_cong [where f = "\<lambda>P. find P (rev ?m)"]) auto
  ultimately show ?thesis using eff by simp
qed

theorem tick_start_fires_witness:
  "\<exists>b'. tick_start 5 sample_behave = (Ok (), b') \<and> br_scheduled (bh_runtime b') = [] \<and> field_of b' 0 ''On'' = Some f64_one"
proof -
  obtain r b' where run: "tick_start 5 sample_behave = (r, b')" by fastforce
  have "fst (tick_start 5 sample_behave) = Ok ()"
    by (simp add: tick_start_def due_events_def sample_behave_def sample_event_def less_eq_event_key_def usize_max_def
        fire_event_def bw_new_def bw_set_field_def behaviour_build_def sample_world_def bt_get_def Let_def bh_device_def
        bh_set_device_def bh_intern_def bh_note_def j_intern_def empty_journal_def bt_empty_def prog_simps
        descriptor_for_prefab_def passive_descriptor_def vending_machine_def chute_outlet_def digital_valve_def starts_with_def)
  then have "tick_start 5 sample_behave = (Ok (), b')" using run by simp
  moreover have "br_scheduled (bh_runtime sample_behave) = [sample_event]" by (simp add: sample_behave_def)
  ultimately show ?thesis using tick_start_fires [of 5 sample_behave b']
    by (auto simp: sample_event_def bt_wf_def)
qed

end
