(* ===== verification/Behaviour_Encoding.thy ===== *)
theory Behaviour_Encoding
  imports Behaviour
begin

text \<open>
  The byte encoding of the behaviour runtime that enters the simulator's state hash can be decoded:
  it is built from fixed-width words, counted texts and counted sequences, each of which can be read
  off the front of a byte sequence, so different runtimes have different encodings.
\<close>

section \<open>Decodable encodings\<close>

text \<open>An encoding is decodable on a set when the encoded value can be read off the front of any byte sequence.\<close>

definition decodable :: "('a \<Rightarrow> u8 list) \<Rightarrow> 'a set \<Rightarrow> bool" where
  "decodable enc A \<longleftrightarrow> (\<forall>a \<in> A. \<forall>b \<in> A. \<forall>x y. enc a @ x = enc b @ y \<longrightarrow> a = b \<and> x = y)"

definition text_fits :: "string \<Rightarrow> bool" where
  "text_fits s \<longleftrightarrow> length s < 2 ^ 64"

definition fitting_model :: "behaviour_descriptor \<times> behaviour_state \<Rightarrow> bool" where
  "fitting_model = (\<lambda>(d, s). text_fits (bd_model d) \<and> length (bd_dependencies d) < 2 ^ 64 \<and>
     list_all text_fits (bd_dependencies d))"

definition fitting_event :: "event_key \<times> scheduled_action \<Rightarrow> bool" where
  "fitting_event = (\<lambda>(k, a). ek_device k < 2 ^ 64 \<and> sa_device a < 2 ^ 64 \<and> text_fits (sa_field a))"

definition fitting_notice :: "write_notice \<Rightarrow> bool" where
  "fitting_notice n \<longleftrightarrow> wn_device n < 2 ^ 64 \<and> text_fits (wn_field n)"

definition runtime_fits :: "behaviour_runtime \<Rightarrow> bool" where
  "runtime_fits r \<longleftrightarrow>
     length (br_descriptors r) < 2 ^ 64 \<and> length (br_scheduled r) < 2 ^ 64 \<and> length (br_pending_writes r) < 2 ^ 64 \<and>
     (\<forall>d \<in> set (br_descriptors r). text_fits (bd_model d) \<and> length (bd_dependencies d) < 2 ^ 64 \<and>
        list_all text_fits (bd_dependencies d)) \<and>
     (\<forall>(k, a) \<in> set (br_scheduled r). ek_device k < 2 ^ 64 \<and> sa_device a < 2 ^ 64 \<and> text_fits (sa_field a)) \<and>
     (\<forall>n \<in> set (br_pending_writes r). wn_device n < 2 ^ 64 \<and> text_fits (wn_field n)) \<and>
     pred_option text_fits (br_last_error r)"

section \<open>The parts of the encoding\<close>

lemma decodableD: "decodable enc A \<Longrightarrow> a \<in> A \<Longrightarrow> b \<in> A \<Longrightarrow> enc a @ x = enc b @ y \<Longrightarrow> a = b \<and> x = y"
  unfolding decodable_def by blast

lemma le_bytes_inj:
  fixes v w :: "'a::len word"
  assumes "le_bytes n v = le_bytes n w" "LENGTH('a) \<le> 8 * n"
  shows "v = w"
proof (rule bit_word_eqI)
  fix i assume i: "i < LENGTH('a)"
  have byte: "bit (le_bytes n x ! (i div 8)) (i mod 8) = bit x i" for x :: "'a word"
  proof -
    have "i div 8 < n" using i assms(2) by linarith
    then show ?thesis by (simp add: le_bytes_def bit_ucast_iff bit_drop_bit_eq)
  qed
  show "bit v i \<longleftrightarrow> bit w i" using byte [of v] byte [of w] assms(1) by simp
qed

lemma decodable_le:
  "decodable le_u64 UNIV" "decodable le_u32 UNIV"
  unfolding decodable_def le_u64_def le_u32_def
  by (auto dest!: append_eq_append_conv [THEN iffD1, rotated] simp: le_bytes_def [symmetric] dest: le_bytes_inj)
     (simp_all add: le_bytes_def)

lemma of_nat_inj_u64: "a < 2 ^ 64 \<Longrightarrow> b < 2 ^ 64 \<Longrightarrow> (of_nat a :: u64) = of_nat b \<Longrightarrow> a = b"
  by (simp add: word_of_nat_eq_iff take_bit_nat_eq_self)

lemma decodable_usize: "decodable enc_usize {n. n < 2 ^ 64}"
  unfolding decodable_def enc_usize_def
proof (intro ballI allI impI)
  fix a b :: nat and x y assume ab: "a \<in> {n. n < 2 ^ 64}" "b \<in> {n. n < 2 ^ 64}"
    and eq: "le_u64 (of_nat a) @ x = le_u64 (of_nat b) @ y"
  from decodableD [OF decodable_le(1) UNIV_I UNIV_I eq] show "a = b \<and> x = y"
    using of_nat_inj_u64 ab by auto
qed

lemma of_char_inj_u8: "(of_char c :: u8) = of_char d \<longleftrightarrow> c = d"
proof
  assume "(of_char c :: u8) = of_char d"
  then have "(of_nat (of_char c) :: u8) = of_nat (of_char d)" by (simp only: of_nat_of_char)
  then have "(of_char c :: nat) = of_char d" by (simp add: word_of_nat_eq_iff take_bit_nat_eq_self)
  then show "c = d" by simp
qed simp

lemma decodable_text: "decodable enc_text (Collect text_fits)"
  unfolding decodable_def enc_text_def
proof (intro ballI allI impI)
  fix a b x y assume "a \<in> Collect text_fits" "b \<in> Collect text_fits"
    and eq: "(enc_usize (length a) @ as_bytes a) @ x = (enc_usize (length b) @ as_bytes b) @ y"
  then have "length a = length b \<and> as_bytes a @ x = as_bytes b @ y"
    by (intro decodableD [OF decodable_usize]) (auto simp: text_fits_def)
  moreover from this have "length (as_bytes a) = length (as_bytes b)" by (simp add: as_bytes_def)
  ultimately have "as_bytes a = as_bytes b \<and> x = y"
    using append_eq_append_conv [of "as_bytes a" "as_bytes b" x y] by blast
  moreover have "inj (of_char :: char \<Rightarrow> u8)" by (simp add: inj_def of_char_inj_u8)
  ultimately show "a = b \<and> x = y" by (simp add: as_bytes_def inj_map_eq_map)
qed

lemma decodable_concat:
  assumes "decodable enc A" "length xs = length ys" "set xs \<subseteq> A" "set ys \<subseteq> A"
    and "concat (map enc xs) @ u = concat (map enc ys) @ v"
  shows "xs = ys \<and> u = v"
  using assms(2-)
proof (induction xs ys rule: list_induct2)
  case (Cons x xs y ys)
  have "x = y \<and> concat (map enc xs) @ u = concat (map enc ys) @ v"
    using Cons.prems by (intro decodableD [OF assms(1)]) auto
  with Cons show ?case by simp
qed simp

text \<open>A counted sequence.\<close>

lemma decodable_counted:
  assumes "decodable enc A" "set xs \<subseteq> A" "set ys \<subseteq> A" "length xs < 2 ^ 64" "length ys < 2 ^ 64"
    and "enc_usize (length xs) @ concat (map enc xs) @ u = enc_usize (length ys) @ concat (map enc ys) @ v"
  shows "xs = ys \<and> u = v"
proof -
  have "length xs = length ys \<and> concat (map enc xs) @ u = concat (map enc ys) @ v"
    using assms by (intro decodableD [OF decodable_usize]) auto
  then show ?thesis using decodable_concat [OF assms(1) _ assms(2,3)] by blast
qed

lemma kind_code_inj: "kind_code a = kind_code b \<longleftrightarrow> a = b"
  by (cases a; cases b) simp_all

lemma decodable_model: "decodable enc_model (Collect fitting_model)"
  unfolding decodable_def
proof (intro ballI allI impI)
  fix p q x y assume fit: "p \<in> Collect fitting_model" "q \<in> Collect fitting_model" and eq: "enc_model p @ x = enc_model q @ y"
  obtain d s e t where pq: "p = (d, s)" "q = (e, t)" by (cases p; cases q) auto
  have m: "bd_model d = bd_model e \<and> le_u32 (bd_version d) @ [kind_code (bd_kind d), of_bool (bd_modelled d)] @
     enc_usize (length (bd_dependencies d)) @ concat (map enc_text (bd_dependencies d)) @
     le_u64 (bs_activations s) @ le_u64 (bs_transfers s) @ x = le_u32 (bd_version e) @ [kind_code (bd_kind e), of_bool (bd_modelled e)] @
     enc_usize (length (bd_dependencies e)) @ concat (map enc_text (bd_dependencies e)) @
     le_u64 (bs_activations t) @ le_u64 (bs_transfers t) @ y"
    using eq fit pq by (intro decodableD [OF decodable_text]) (auto simp: enc_model_def fitting_model_def)
  note v = decodableD [OF decodable_le(2) UNIV_I UNIV_I conjunct2 [OF m]]
  then have k: "bd_kind d = bd_kind e" "bd_modelled d = bd_modelled e" and
    rest: "enc_usize (length (bd_dependencies d)) @ concat (map enc_text (bd_dependencies d)) @
       le_u64 (bs_activations s) @ le_u64 (bs_transfers s) @ x =
     enc_usize (length (bd_dependencies e)) @ concat (map enc_text (bd_dependencies e)) @
       le_u64 (bs_activations t) @ le_u64 (bs_transfers t) @ y"
    by (auto simp: kind_code_inj)
  have deps: "bd_dependencies d = bd_dependencies e \<and> le_u64 (bs_activations s) @ le_u64 (bs_transfers s) @ x =
      le_u64 (bs_activations t) @ le_u64 (bs_transfers t) @ y"
    using fit pq by (intro decodable_counted [OF decodable_text _ _ _ _ rest]) (auto simp: fitting_model_def list_all_iff)
  note a = decodableD [OF decodable_le(1) UNIV_I UNIV_I conjunct2 [OF deps]]
  note b = decodableD [OF decodable_le(1) UNIV_I UNIV_I conjunct2 [OF a]]
  show "p = q \<and> x = y" using m v k deps a b pq by auto
qed

lemma decodable_event: "decodable enc_event (Collect fitting_event)"
  unfolding decodable_def
proof (intro ballI allI impI)
  fix p q x y assume fit: "p \<in> Collect fitting_event" "q \<in> Collect fitting_event" and eq: "enc_event p @ x = enc_event q @ y"
  obtain k a l b where pq: "p = (k, a)" "q = (l, b)" by (cases p; cases q) auto
  have t: "ek_tick k = ek_tick l \<and> (ek_phase k # enc_usize (ek_device k) @ le_u64 (ek_sequence k) @
      0 # enc_usize (sa_device a) @ enc_text (sa_field a) @ le_u64 (to_bits (sa_value a)) @ x) =
     (ek_phase l # enc_usize (ek_device l) @ le_u64 (ek_sequence l) @
      0 # enc_usize (sa_device b) @ enc_text (sa_field b) @ le_u64 (to_bits (sa_value b)) @ y)"
    using eq pq by (intro decodableD [OF decodable_le(1)]) (auto simp: enc_event_def)
  then have d: "ek_device k = ek_device l \<and> le_u64 (ek_sequence k) @
      0 # enc_usize (sa_device a) @ enc_text (sa_field a) @ le_u64 (to_bits (sa_value a)) @ x =
     le_u64 (ek_sequence l) @ 0 # enc_usize (sa_device b) @ enc_text (sa_field b) @ le_u64 (to_bits (sa_value b)) @ y"
    using fit pq by (intro decodableD [OF decodable_usize]) (auto simp: fitting_event_def)
  note s = decodableD [OF decodable_le(1) UNIV_I UNIV_I conjunct2 [OF d]]
  then have sd: "sa_device a = sa_device b \<and> enc_text (sa_field a) @ le_u64 (to_bits (sa_value a)) @ x =
      enc_text (sa_field b) @ le_u64 (to_bits (sa_value b)) @ y"
    using fit pq by (intro decodableD [OF decodable_usize]) (auto simp: fitting_event_def)
  then have f: "sa_field a = sa_field b \<and> le_u64 (to_bits (sa_value a)) @ x = le_u64 (to_bits (sa_value b)) @ y"
    using fit pq by (intro decodableD [OF decodable_text]) (auto simp: fitting_event_def)
  note v = decodableD [OF decodable_le(1) UNIV_I UNIV_I conjunct2 [OF f]]
  have "k = l" using t d s by (cases k; cases l) auto
  moreover have "a = b" using sd f v by (cases a; cases b) (auto simp: f64.expand)
  ultimately show "p = q \<and> x = y" using pq v by simp
qed

lemma decodable_notice: "decodable enc_notice (Collect fitting_notice)"
  unfolding decodable_def
proof (intro ballI allI impI)
  fix p q x y assume fit: "p \<in> Collect fitting_notice" "q \<in> Collect fitting_notice" and eq: "enc_notice p @ x = enc_notice q @ y"
  have d: "wn_device p = wn_device q \<and> enc_text (wn_field p) @ le_u64 (wn_before_bits p) @ le_u64 (wn_after_bits p) @ x =
      enc_text (wn_field q) @ le_u64 (wn_before_bits q) @ le_u64 (wn_after_bits q) @ y"
    using fit eq by (intro decodableD [OF decodable_usize]) (auto simp: fitting_notice_def enc_notice_def)
  then have f: "wn_field p = wn_field q \<and> le_u64 (wn_before_bits p) @ le_u64 (wn_after_bits p) @ x =
      le_u64 (wn_before_bits q) @ le_u64 (wn_after_bits q) @ y"
    using fit by (intro decodableD [OF decodable_text]) (auto simp: fitting_notice_def)
  note b = decodableD [OF decodable_le(1) UNIV_I UNIV_I conjunct2 [OF f]]
  note a = decodableD [OF decodable_le(1) UNIV_I UNIV_I conjunct2 [OF b]]
  show "p = q \<and> x = y" using d f b a by auto
qed

lemma decodable_error: "decodable enc_error {e. pred_option text_fits e}"
  unfolding decodable_def
proof (intro ballI allI impI)
  fix e f x y assume fit: "e \<in> {e. pred_option text_fits e}" "f \<in> {e. pred_option text_fits e}"
    and eq: "enc_error e @ x = enc_error f @ y"
  consider "e = None" "f = None" | "e = None" "f \<noteq> None" | "e \<noteq> None" "f = None" | m n where "e = Some m" "f = Some n" by blast
  then show "e = f \<and> x = y"
  proof cases
    case (4 m n)
    then have "m = n \<and> x = y" using fit eq by (intro decodableD [OF decodable_text]) (simp_all add: enc_error_def)
    then show ?thesis using 4 by simp
  qed (use eq in \<open>auto simp: enc_error_def\<close>)
qed

section \<open>Property\<close>

lemma sample_runtime_fits: "runtime_fits (behaviour_build sample_world)"
  by (simp add: runtime_fits_def behaviour_build_def sample_world_def descriptor_for_prefab_def text_fits_def
      passive_descriptor_def vending_machine_def chute_outlet_def digital_valve_def starts_with_def bt_empty_def)

text \<open>C40: The byte encoding that enters the state hash determines the whole behaviour state: two runtimes with the same
  encoding are equal, provided the lengths and device indices fit 64 bits and every device has its state.\<close>

theorem deterministic_bytes_inject:
  assumes "deterministic_bytes r = deterministic_bytes r'" "runtime_fits r" "runtime_fits r'"
    and "length (br_states r) = length (br_descriptors r)" "length (br_states r') = length (br_descriptors r')"
  shows "r = r'"
proof -
  let ?z = "\<lambda>r. zip (br_descriptors r) (br_states r)"
  let ?e = "\<lambda>r. enc_usize (length (br_scheduled r)) @ concat (map enc_event (br_scheduled r)) @
     enc_usize (length (br_pending_writes r)) @ concat (map enc_notice (br_pending_writes r)) @
     le_u64 (br_next_sequence r) @ enc_error (br_last_error r)"
  have fit: "set (?z r) \<subseteq> Collect fitting_model" "set (?z r') \<subseteq> Collect fitting_model"
    "set (br_scheduled r) \<subseteq> Collect fitting_event" "set (br_scheduled r') \<subseteq> Collect fitting_event"
    "set (br_pending_writes r) \<subseteq> Collect fitting_notice" "set (br_pending_writes r') \<subseteq> Collect fitting_notice"
    using assms(2,3) by (auto simp: runtime_fits_def fitting_model_def fitting_event_def fitting_notice_def dest!: set_zip_leftD)
  have lens: "length (?z r) = length (br_descriptors r)" "length (?z r') = length (br_descriptors r')"
    using assms(4,5) by simp_all
  have "enc_usize (length (?z r)) @ concat (map enc_model (?z r)) @ ?e r =
      enc_usize (length (?z r')) @ concat (map enc_model (?z r')) @ ?e r'"
    using assms(1) unfolding deterministic_bytes_def lens by (simp only: append_assoc same_append_eq)
  then have "?z r = ?z r' \<and> ?e r = ?e r'"
    using assms(2-5) by (intro decodable_counted [OF decodable_model fit(1,2)]) (simp_all add: runtime_fits_def)
  then have z: "?z r = ?z r'" and s: "?e r = ?e r'" by blast+
  have p: "br_scheduled r = br_scheduled r' \<and>
     enc_usize (length (br_pending_writes r)) @ concat (map enc_notice (br_pending_writes r)) @
     le_u64 (br_next_sequence r) @ enc_error (br_last_error r) =
     enc_usize (length (br_pending_writes r')) @ concat (map enc_notice (br_pending_writes r')) @
     le_u64 (br_next_sequence r') @ enc_error (br_last_error r')"
    using assms(2,3) by (intro decodable_counted [OF decodable_event fit(3,4) _ _ s]) (auto simp: runtime_fits_def)
  have n: "br_pending_writes r = br_pending_writes r' \<and> le_u64 (br_next_sequence r) @ enc_error (br_last_error r) =
     le_u64 (br_next_sequence r') @ enc_error (br_last_error r')"
    using assms(2,3) by (intro decodable_counted [OF decodable_notice fit(5,6) _ _ conjunct2 [OF p]]) (auto simp: runtime_fits_def)
  note q = decodableD [OF decodable_le(1) UNIV_I UNIV_I conjunct2 [OF n]]
  then have "br_last_error r = br_last_error r' \<and> ([] :: u8 list) = []"
    using assms(2,3) by (intro decodableD [OF decodable_error]) (auto simp: runtime_fits_def)
  moreover have "br_descriptors r = br_descriptors r' \<and> br_states r = br_states r'"
    using z assms(4,5) by (metis map_fst_zip map_snd_zip)
  ultimately show ?thesis using p n q by auto
qed

theorem deterministic_bytes_inject_witness:
  "deterministic_bytes (behaviour_build sample_world) \<noteq> deterministic_bytes ((behaviour_build sample_world)\<lparr>br_next_sequence := 1\<rparr>)"
proof
  let ?r = "behaviour_build sample_world"
  assume "deterministic_bytes ?r = deterministic_bytes (?r\<lparr>br_next_sequence := 1\<rparr>)"
  moreover have "runtime_fits (?r\<lparr>br_next_sequence := 1\<rparr>)" using sample_runtime_fits by (simp add: runtime_fits_def)
  ultimately have "?r = ?r\<lparr>br_next_sequence := 1\<rparr>"
    by (intro deterministic_bytes_inject sample_runtime_fits) (simp_all add: behaviour_build_def)
  from arg_cong [OF this, of br_next_sequence] show False by (simp add: behaviour_build_def Let_def)
qed

end
