(* ===== verification/Program.thy ===== *)
theory Program
  imports Ic10_Core
begin

text \<open>
  Compiled IC10 programs (\<open>crates/ic10-sim/src/program.rs\<close>) and the numeric literals they contain
  (\<open>parse_numeric_literal\<close> of \<open>crates/ic10-core/src/analysis.rs\<close>). The collection of operations,
  labels, defines and aliases from the parsed lines is modelled here; the analyser's verdict that
  precedes it and the build map that \<open>load_build_mapping\<close> reads from the file system are arguments.
\<close>

section \<open>Programs\<close>

record operation =
  o_line :: usize
  o_mnemonic :: string
  o_operands :: "string list"

record ic_program =
  p_source_path :: string
  p_debug_source_path :: string
  p_source :: string
  p_operations :: "(usize, operation) btree_map"
  p_labels :: "(string, usize) btree_map"
  p_defines :: "(string, string) btree_map"
  p_aliases :: "(string, string) btree_map"
  p_generated_to_source :: "(usize, usize) btree_map"

definition compile_line :: "parsed_line \<Rightarrow> ic_program \<Rightarrow> ic_program" where
  "compile_line line p =
     (case pl_kind line of
        LLabel name \<Rightarrow> p\<lparr>p_labels := bt_insert (tok_text name) (pl_number line) (p_labels p)\<rparr>
      | LInstruction mnemonic operands \<Rightarrow>
          (let values = map tok_text operands
           in if tok_text mnemonic = ''define'' \<and> 2 \<le> length values then
                p\<lparr>p_defines := bt_insert (values ! 0) (values ! 1) (p_defines p)\<rparr>
              else if tok_text mnemonic = ''alias'' \<and> 2 \<le> length values then
                p\<lparr>p_aliases := bt_insert (values ! 0) (values ! 1) (p_aliases p)\<rparr>
              else
                p\<lparr>p_operations := bt_insert (pl_number line)
                     \<lparr>o_line = pl_number line, o_mnemonic = to_ascii_lowercase (tok_text mnemonic), o_operands = values\<rparr>
                     (p_operations p)\<rparr>)
      | LEmpty \<Rightarrow> p)"

text \<open>
  \<open>Program::compile\<close> over the diagnostics of the parsed document and the sidecar map of the artifact.
  An error diagnostic rejects the program with the error messages.
\<close>

definition program_compile ::
  "string \<Rightarrow> string \<Rightarrow> diagnostic list \<Rightarrow> string \<times> (usize, usize) btree_map \<Rightarrow> (string list, ic_program) outcome" where
  "program_compile source_path source diagnostics build_mapping =
     (let messages = map dg_message (filter (\<lambda>d. dg_severity d = SevError) diagnostics)
      in if messages \<noteq> [] then Err messages
         else Ok (fold compile_line (document_lines source)
           \<lparr>p_source_path = source_path, p_debug_source_path = fst build_mapping, p_source = source,
            p_operations = bt_empty, p_labels = bt_empty, p_defines = bt_empty, p_aliases = bt_empty,
            p_generated_to_source = snd build_mapping\<rparr>))"

text \<open>
  \<open>load_build_mapping\<close> after the two sidecar files were read: \<open>entries\<close> are the pairs of generated and
  source line of the map file (empty when it is missing or malformed), \<open>metadata_source_path\<close> the
  source path of the metadata file.
\<close>

definition load_build_mapping ::
  "string \<Rightarrow> (usize \<times> usize) list \<Rightarrow> string option \<Rightarrow> string \<times> (usize, usize) btree_map" where
  "load_build_mapping artifact entries metadata_source_path =
     (let mapping = bt_collect (List.map_filter (\<lambda>(generated, source).
            if generated = 0 \<or> source = 0 then None else Some (generated - 1, source - 1)) entries)
      in (if mapping = [] then artifact
          else case metadata_source_path of Some path \<Rightarrow> path | None \<Rightarrow> artifact, mapping))"

definition operation_at_or_after :: "ic_program \<Rightarrow> usize \<Rightarrow> operation option" where
  "operation_at_or_after p line = map_option snd (bt_first_at_or_after line (p_operations p))"

definition debug_line :: "ic_program \<Rightarrow> usize \<Rightarrow> usize" where
  "debug_line p generated = (case bt_get (p_generated_to_source p) generated of Some s \<Rightarrow> s | None \<Rightarrow> generated)"

definition generated_line :: "ic_program \<Rightarrow> usize \<Rightarrow> usize option" where
  "generated_line p source_line =
     (case find (\<lambda>(generated, source). source = source_line) (p_generated_to_source p) of
        Some (generated, _) \<Rightarrow> Some generated
      | None \<Rightarrow> if p_generated_to_source p = [] then Some source_line else None)"

section \<open>Numbers\<close>

definition first_prefix :: "string list \<Rightarrow> string \<Rightarrow> string option" where
  "first_prefix prefixes s =
     fold (\<lambda>p found. case found of Some r \<Rightarrow> Some r | None \<Rightarrow> strip_prefix p s) prefixes None"

definition parse_numeric_literal :: "string \<Rightarrow> f64 option" where
  "parse_numeric_literal value =
     (let lower = to_ascii_lowercase value
      in if lower = ''nan'' then Some f64_nan
         else if lower \<in> {''pinf'', ''inf'', ''+inf'', ''infinity'', ''+infinity''} then Some f64_infinity
         else if lower \<in> {''ninf'', ''-inf'', ''-infinity''} then Some f64_neg_infinity
         else
           (let (negative, unsigned) = (case strip_prefix ''-'' value of Some v \<Rightarrow> (True, v) | None \<Rightarrow> (False, value));
                signed = (\<lambda>integer. if negative then f64_neg (f64_of_int integer) else f64_of_int integer)
            in case first_prefix [''$'', ''0x'', ''0X''] unsigned of
                 Some hex \<Rightarrow> map_option signed (parse_i64_radix 16 hex)
               | None \<Rightarrow>
                   (case first_prefix [''%'', ''0b'', ''0B''] unsigned of
                      Some binary \<Rightarrow> map_option signed (parse_i64_radix 2 binary)
                    | None \<Rightarrow> parse_f64 value)))"

definition json_number :: "json_value \<Rightarrow> f64 option" where
  "json_number v =
     (case as_f64 v of
        Some x \<Rightarrow> Some x
      | None \<Rightarrow> (case as_i64_value v of
                   Some i \<Rightarrow> Some (f64_of_i64 i)
                 | None \<Rightarrow> Option.bind (as_str v) parse_numeric_literal))"

datatype number_error = InvalidStrLiteral packed_string_error | CannotResolveNumber string

text \<open>Following a name through a map at most \<open>n\<close> times.\<close>

fun follow :: "nat \<Rightarrow> (string, string) btree_map \<Rightarrow> string \<Rightarrow> string" where
  "follow 0 m current = current"
| "follow (Suc n) m current = (case bt_get m current of None \<Rightarrow> current | Some target \<Rightarrow> follow n m target)"

definition resolve_alias :: "ic_program \<Rightarrow> string \<Rightarrow> string" where
  "resolve_alias p value = follow 32 (p_aliases p) value"

definition macro_number :: "literal_macro \<Rightarrow> number_error + f64" where
  "macro_number literal =
     (case lm_kind literal of
        MacroHash \<Rightarrow> Inr (f64_of_i32 (stationeers_crc32 (lm_value literal)))
      | MacroString \<Rightarrow>
          (case pack_stationeers_string (lm_value literal) of
             Inr packed \<Rightarrow> Inr (f64_of_u64 packed)
           | Inl e \<Rightarrow> Inl (InvalidStrLiteral e)))"

definition resolve_number :: "ic_program \<Rightarrow> string \<Rightarrow> knowledge_base \<Rightarrow> number_error + f64" where
  "resolve_number p value kb =
     (let current = follow 32 (p_defines p) (resolve_alias p value)
      in case bt_get (p_labels p) current of
           Some line \<Rightarrow> Inr (f64_of_nat line)
         | None \<Rightarrow>
             (case parse_literal_macro current of
                Some literal \<Rightarrow> macro_number literal
              | None \<Rightarrow>
                  (case Option.bind (bt_get (lang_constants (language kb)) current) (\<lambda>c. json_number (co_value c)) of
                     Some v \<Rightarrow> Inr v
                   | None \<Rightarrow>
                       (case Option.bind (kb_enum_value kb current) (\<lambda>(_, e). json_number (ev_value e)) of
                          Some v \<Rightarrow> Inr v
                        | None \<Rightarrow>
                            (case parse_numeric_literal current of
                               Some v \<Rightarrow> Inr v
                             | None \<Rightarrow> Inl (CannotResolveNumber value))))))"

section \<open>Well-formed programs\<close>

text \<open>Operations are filed under their own line number.\<close>

definition program_wf :: "ic_program \<Rightarrow> bool" where
  "program_wf p \<longleftrightarrow> bt_wf (p_operations p) \<and> (\<forall>(k, op) \<in> set (p_operations p). o_line op = k)"

text \<open>What a single line contributes to the compiled program.\<close>

definition line_operation :: "parsed_line \<Rightarrow> operation option" where
  "line_operation line =
     (case pl_kind line of
        LInstruction mnemonic operands \<Rightarrow>
          if tok_text mnemonic \<in> {''define'', ''alias''} \<and> 2 \<le> length operands then None
          else Some \<lparr>o_line = pl_number line, o_mnemonic = to_ascii_lowercase (tok_text mnemonic),
                     o_operands = map tok_text operands\<rparr>
      | _ \<Rightarrow> None)"

definition line_label :: "parsed_line \<Rightarrow> string option" where
  "line_label line = (case pl_kind line of LLabel name \<Rightarrow> Some (tok_text name) | _ \<Rightarrow> None)"

definition sample_source :: string where
  "sample_source = ''start:'' @ [CHR 0x0A] @ ''J start # loop''"

lemma compile_line_operations:
  "p_operations (compile_line line p) =
     (case line_operation line of None \<Rightarrow> p_operations p | Some op \<Rightarrow> bt_insert (pl_number line) op (p_operations p))"
  by (auto simp: compile_line_def line_operation_def Let_def split: line_kind.split)

lemma compile_line_labels:
  "p_labels (compile_line line p) =
     (case line_label line of None \<Rightarrow> p_labels p | Some name \<Rightarrow> bt_insert name (pl_number line) (p_labels p))"
  by (auto simp: compile_line_def line_label_def Let_def split: line_kind.split)

lemma line_operation_line: "line_operation line = Some op \<Longrightarrow> o_line op = pl_number line"
  by (auto simp: line_operation_def split: line_kind.splits if_splits)

lemma compile_line_wf: "program_wf p \<Longrightarrow> program_wf (compile_line line p)"
  using set_bt_insert_subset
  by (fastforce simp: program_wf_def compile_line_operations bt_wf_insert dest: line_operation_line split: option.split)

lemma compile_lines_operations:
  assumes "distinct (map pl_number lines)"
  shows "bt_get (p_operations (fold compile_line lines p)) k =
    (case find (\<lambda>line. pl_number line = k \<and> line_operation line \<noteq> None) lines of
       Some line \<Rightarrow> line_operation line
     | None \<Rightarrow> bt_get (p_operations p) k)"
  using assms
proof (induction lines arbitrary: p)
  case (Cons line lines)
  have other: "find (\<lambda>l. pl_number l = k \<and> line_operation l \<noteq> None) lines = None" if "pl_number line = k"
    using Cons.prems that unfolding find_None_iff by (metis distinct.simps(2) imageI list.set_map list.simps(9))
  show ?case
  proof (cases "pl_number line = k")
    case True
    then show ?thesis
      using Cons other by (cases "line_operation line") (simp_all add: compile_line_operations bt_get_insert)
  next
    case False
    then show ?thesis
      using Cons
      by (cases "line_operation line") (simp_all add: compile_line_operations bt_get_insert split: option.split)
  qed
qed simp

lemma compile_lines_wf: "program_wf p \<Longrightarrow> program_wf (fold compile_line lines p)"
  by (induction lines arbitrary: p) (auto intro: compile_line_wf)

lemma compile_lines_labels:
  "bt_get (p_labels (fold compile_line lines p)) name =
    (case find (\<lambda>line. line_label line = Some name) (rev lines) of
       Some line \<Rightarrow> Some (pl_number line)
     | None \<Rightarrow> bt_get (p_labels p) name)"
proof (induction lines rule: rev_induct)
  case (snoc line lines)
  then show ?case
    by (cases "line_label line") (auto simp: compile_line_labels bt_get_insert split: option.split)
qed simp

lemma find_nth:
  assumes "\<And>k. k < length xs \<Longrightarrow> f (xs ! k) = k" "k < length xs"
  shows "find (\<lambda>x. f x = k \<and> Q x) xs = (if Q (xs ! k) then Some (xs ! k) else None)"
proof (cases "Q (xs ! k)")
  case True
  have "find (\<lambda>x. f x = k \<and> Q x) xs = Some (xs ! k)"
    unfolding find_Some_iff using assms True by (intro exI [of _ k]) auto
  then show ?thesis using True by simp
next
  case False
  then have "find (\<lambda>x. f x = k \<and> Q x) xs = None"
    using assms(1) by (auto simp: find_None_iff in_set_conv_nth)
  then show ?thesis using False by simp
qed

lemma distinct_numbers:
  assumes "\<And>k. k < length xs \<Longrightarrow> f (xs ! k) = (k :: nat)"
  shows "distinct (map f xs)"
proof -
  have "map f xs = [0..<length xs]" using assms by (intro nth_equalityI) auto
  then show ?thesis by simp
qed

lemma document_line_number: "k < length (document_lines s) \<Longrightarrow> pl_number (document_lines s ! k) = k"
  using parse_lines_nth [of k "split_inclusive s" 0 0]
  by (auto simp: document_lines_split nth_append split: if_splits)

section \<open>Properties\<close>

text \<open>The compiled program holds, under every line number, exactly the operation of that source line: each
  instruction line other than a define or alias is present with its lower-cased mnemonic and its
  operands, nothing else is, and the stored line number is the line's own.\<close>

theorem compile_operations:
  assumes "program_compile path source diagnostics mapping = Ok p"
  shows "program_wf p \<and> bt_get (p_operations p) k =
    (if k < length (document_lines source) then line_operation (document_lines source ! k) else None)"
proof -
  obtain p0 where p: "p = fold compile_line (document_lines source) p0" and p0: "p_operations p0 = []"
    using assms by (auto simp: program_compile_def Let_def bt_empty_def split: if_splits)
  have num: "\<And>k. k < length (document_lines source) \<Longrightarrow> pl_number (document_lines source ! k) = k"
    by (rule document_line_number)
  have "program_wf p" unfolding p by (rule compile_lines_wf) (simp add: program_wf_def p0)
  moreover have ops: "bt_get (p_operations p) k =
      (case find (\<lambda>line. pl_number line = k \<and> line_operation line \<noteq> None) (document_lines source) of
         Some line \<Rightarrow> line_operation line | None \<Rightarrow> bt_get (p_operations p0) k)"
    unfolding p by (rule compile_lines_operations [OF distinct_numbers [OF num]])
  have "bt_get (p_operations p) k =
      (if k < length (document_lines source) then line_operation (document_lines source ! k) else None)"
  proof (cases "k < length (document_lines source)")
    case True
    then have "find (\<lambda>line. pl_number line = k \<and> line_operation line \<noteq> None) (document_lines source) =
        (if line_operation (document_lines source ! k) \<noteq> None then Some (document_lines source ! k) else None)"
      using num by (intro find_nth) auto
    then show ?thesis using True ops by (cases "line_operation (document_lines source ! k)") (simp_all add: p0 bt_get_def)
  next
    case False
    then have "find (\<lambda>l. pl_number l = k \<and> line_operation l \<noteq> None) (document_lines source) = None"
      using num by (auto simp: find_None_iff in_set_conv_nth)
    then show ?thesis unfolding ops using False by (simp only: option.case p0 if_False) (simp add: bt_get_def)
  qed
  ultimately show ?thesis by blast
qed

theorem compile_operations_witness:
  "\<exists>p. program_compile ''a.ic10'' sample_source [] (''a.ic10'', []) = Ok p \<and> program_wf p \<and>
     bt_get (p_operations p) 1 = Some \<lparr>o_line = 1, o_mnemonic = ''j'', o_operands = [''start'']\<rparr>"
proof -
  obtain p where p: "program_compile ''a.ic10'' sample_source [] (''a.ic10'', []) = Ok p"
    by (simp add: program_compile_def)
  have "1 < length (document_lines sample_source)" by code_simp
  moreover have "line_operation (document_lines sample_source ! 1)
      = Some \<lparr>o_line = 1, o_mnemonic = ''j'', o_operands = [''start'']\<rparr>" by code_simp
  ultimately show ?thesis using compile_operations [OF p, of 1] p by auto
qed

text \<open>C36: A jump to a label reaches the line that declares it: resolving a label of the program that is not also the name
  of an alias or a define of it (such a duplicate is only a warning, and the alias or define wins) gives the line of the
  label's last declaration, whatever constants, enums or literals share its spelling.\<close>

theorem label_resolves_to_line:
  assumes "program_compile path source diagnostics mapping = Ok p"
    and "find (\<lambda>line. line_label line = Some name) (rev (document_lines source)) = Some line"
    and "bt_get (p_aliases p) name = None" "bt_get (p_defines p) name = None"
  shows "resolve_number p name kb = Inr (f64_of_nat (pl_number line))"
proof -
  obtain p0 where p: "p = fold compile_line (document_lines source) p0"
    using assms(1) by (auto simp: program_compile_def Let_def split: if_splits)
  have "bt_get (p_labels p) name = Some (pl_number line)"
    unfolding p compile_lines_labels using assms(2) by simp
  moreover have "follow n m name = name" if "bt_get m name = None" for n m
    using that by (cases n) simp_all
  then have "follow 32 (p_defines p) (follow 32 (p_aliases p) name) = name"
    using assms(3,4) by simp
  ultimately show ?thesis by (simp add: resolve_number_def resolve_alias_def)
qed

theorem label_resolves_to_line_witness:
  "\<exists>p. program_compile ''a.ic10'' sample_source [] (''a.ic10'', []) = Ok p \<and>
     (\<forall>kb. resolve_number p ''start'' kb = Inr (f64_of_nat 0))"
proof -
  obtain p where p: "program_compile ''a.ic10'' sample_source [] (''a.ic10'', []) = Ok p"
    by (simp add: program_compile_def)
  have aliases: "case program_compile ''a.ic10'' sample_source [] (''a.ic10'', []) of
      Ok p \<Rightarrow> p_aliases p = [] \<and> p_defines p = [] | _ \<Rightarrow> False" by code_simp
  have line: "map_option pl_number (find (\<lambda>line. line_label line = Some ''start'') (rev (document_lines sample_source)))
      = Some 0" by code_simp
  show ?thesis using p aliases line label_resolves_to_line [OF p, of "''start''"] by (auto simp: bt_get_def)
qed

lemma operation_at_or_after_SomeD:
  assumes "program_wf p" "operation_at_or_after p line = Some op"
  shows "line \<le> o_line op" "bt_get (p_operations p) (o_line op) = Some op"
    "\<And>k. line \<le> k \<Longrightarrow> k < o_line op \<Longrightarrow> bt_get (p_operations p) k = None"
proof -
  obtain k where k: "bt_first_at_or_after line (p_operations p) = Some (k, op)"
    using assms(2) by (auto simp: operation_at_or_after_def)
  have wf: "bt_wf (p_operations p)" using assms(1) by (simp add: program_wf_def)
  note first = bt_first_at_or_after_SomeD [OF k wf]
  have "(k, op) \<in> set (p_operations p)" using first(2) wf by (simp add: bt_get_in_set)
  then have line: "o_line op = k" using assms(1) by (auto simp: program_wf_def)
  show "line \<le> o_line op" "bt_get (p_operations p) (o_line op) = Some op" using first line by simp_all
  show "bt_get (p_operations p) j = None" if "line \<le> j" "j < o_line op" for j
    using first(3) [of j] line that by fastforce
qed

end
