(* ===== verification/Cpu.thy ===== *)
theory Cpu
  imports World Program
begin

text \<open>
  One simulated IC housing of \<open>crates/ic10-sim/src/simulator.rs\<close>: its registers, stack, device pins,
  program counter and execution state, the journaled accessors of the \<open>Cpu\<close> methods, and the
  resolution of operands to registers, numbers, devices and logic names. Reading a register through
  \<open>&self\<close> still appends to the private journal (a \<open>RefCell\<close>), so every accessor is a program over the
  CPU.
\<close>

section \<open>State\<close>

datatype cpu_state = Ready | WaitingUntil u64 | Halted | CpuFault

text \<open>The errors an instruction can return, one constructor per message.\<close>

datatype exec_error =
    FieldErr field_error
  | NumberErr number_error
  | UnknownRegister string
  | NotARegister string
  | IndirectOutOfRange int
  | InvalidBranchTarget f64
  | InvalidRelativeOffset f64
  | NegativeBranchTarget int
  | NoDeviceWithReference i32
  | PinNotSet usize
  | LogicTypeEnumMissing
  | NotALogicType f64
  | InvalidAddress string f64
  | AddressExceeds string usize usize
  | UnknownBatchMode i32
  | NoDataNetwork string
  | SlotFieldNotExposed string usize string
  | DeviceSlotMissing string usize
  | NeedsBehaviourModel string
  | NotImplemented string

record cpu =
  c_id :: string
  c_program_id :: string
  c_name :: string
  c_housing :: usize
  c_program :: ic_program
  c_registers :: "f64 list"
  c_stack :: "f64 list"
  c_pins :: "usize option list"
  c_pc :: usize
  c_state :: cpu_state
  c_error :: "exec_error option"
  c_operations_this_tick :: u32
  c_random_state :: u64
  c_journal :: effect_journal
  c_journal_enabled :: bool
  c_journal_actor :: effect_actor

definition general_register_count :: usize where "general_register_count = 16"
definition return_address_register :: usize where "return_address_register = 16"
definition stack_pointer_register :: usize where "stack_pointer_register = 17"
definition register_count :: usize where "register_count = 18"
definition stack_size_default :: usize where "stack_size_default = 512"

type_synonym 'a cpu_prog = "(cpu, exec_error, 'a) prog"

definition current_operation :: "cpu \<Rightarrow> operation option" where
  "current_operation c = operation_at_or_after (c_program c) (c_pc c)"

definition current_line :: "cpu \<Rightarrow> usize option" where
  "current_line c = map_option o_line (current_operation c)"

fun actor_cpu_index :: "effect_actor \<Rightarrow> usize" where
  "actor_cpu_index (ActorIc i _ _) = i"
| "actor_cpu_index _ = 0"

fun cpu_state_bits :: "cpu_state \<Rightarrow> u64" where
  "cpu_state_bits Ready = 0"
| "cpu_state_bits (WaitingUntil t) = Bit_Operations.or 0x1000000000000000 t"
| "cpu_state_bits Halted = 2"
| "cpu_state_bits CpuFault = 3"

definition cpu_state_from_bits :: "u64 \<Rightarrow> cpu_state option" where
  "cpu_state_from_bits v =
     (if v = 0 then Some Ready
      else if v = 2 then Some Halted
      else if v = 3 then Some CpuFault
      else if Bit_Operations.and v 0x1000000000000000 \<noteq> 0
      then Some (WaitingUntil (Bit_Operations.and v (Bit_Operations.not 0x1000000000000000)))
      else None)"

section \<open>Journaled accessors\<close>

definition note_read :: "(usize \<Rightarrow> effect_target) \<Rightarrow> f64 \<Rightarrow> cpu \<Rightarrow> cpu" where
  "note_read target value c =
     (if \<not> c_journal_enabled c then c
      else c\<lparr>c_journal := j_read (c_journal_actor c) (target (actor_cpu_index (c_journal_actor c))) value (c_journal c)\<rparr>)"

definition note_write :: "(usize \<Rightarrow> effect_target) \<Rightarrow> f64 \<Rightarrow> f64 \<Rightarrow> cpu \<Rightarrow> cpu" where
  "note_write target before after c =
     (if \<not> c_journal_enabled c then c
      else c\<lparr>c_journal := j_write (c_journal_actor c) (target (actor_cpu_index (c_journal_actor c)))
                            before after (c_journal c)\<rparr>)"

definition note_write_bits :: "(usize \<Rightarrow> effect_target) \<Rightarrow> u64 \<Rightarrow> u64 \<Rightarrow> cpu \<Rightarrow> cpu" where
  "note_write_bits target before after c =
     (if \<not> c_journal_enabled c then c
      else c\<lparr>c_journal := j_write_bits (c_journal_actor c) (target (actor_cpu_index (c_journal_actor c)))
                            before after (c_journal c)\<rparr>)"

definition cpu_read_register :: "usize \<Rightarrow> f64 cpu_prog" where
  "cpu_read_register index =
     bind (gets (\<lambda>c. nth_opt (c_registers c) index)) (\<lambda>cell.
     bind (expect cell) (\<lambda>value.
     bind (modify (note_read (\<lambda>cpu. TRegister cpu (of_nat index)) value)) (\<lambda>_.
     ret value)))"

definition cpu_write_register :: "usize \<Rightarrow> f64 \<Rightarrow> unit cpu_prog" where
  "cpu_write_register index value =
     bind (gets (\<lambda>c. nth_opt (c_registers c) index)) (\<lambda>cell.
     bind (expect cell) (\<lambda>before.
     bind (modify (\<lambda>c. c\<lparr>c_registers := (c_registers c)[index := value]\<rparr>)) (\<lambda>_.
     modify (note_write (\<lambda>cpu. TRegister cpu (of_nat index)) before value))))"

definition cpu_read_stack :: "usize \<Rightarrow> f64 cpu_prog" where
  "cpu_read_stack address =
     bind (gets (\<lambda>c. nth_opt (c_stack c) address)) (\<lambda>cell.
     bind (expect cell) (\<lambda>value.
     bind (modify (note_read (\<lambda>cpu. TStack cpu (of_nat address)) value)) (\<lambda>_.
     ret value)))"

definition cpu_write_stack :: "usize \<Rightarrow> f64 \<Rightarrow> unit cpu_prog" where
  "cpu_write_stack address value =
     bind (gets (\<lambda>c. nth_opt (c_stack c) address)) (\<lambda>cell.
     bind (expect cell) (\<lambda>before.
     bind (modify (\<lambda>c. c\<lparr>c_stack := (c_stack c)[address := value]\<rparr>)) (\<lambda>_.
     modify (note_write (\<lambda>cpu. TStack cpu (of_nat address)) before value))))"

definition cpu_write_pc :: "usize \<Rightarrow> cpu \<Rightarrow> cpu" where
  "cpu_write_pc value c = note_write_bits TCpuPc (of_nat (c_pc c)) (of_nat value) (c\<lparr>c_pc := value\<rparr>)"

definition cpu_write_state :: "cpu_state \<Rightarrow> cpu \<Rightarrow> cpu" where
  "cpu_write_state value c =
     note_write_bits TCpuState (cpu_state_bits (c_state c)) (cpu_state_bits value) (c\<lparr>c_state := value\<rparr>)"

definition cpu_write_random_state :: "u64 \<Rightarrow> cpu \<Rightarrow> cpu" where
  "cpu_write_random_state value c =
     note_write_bits TCpuRandom (c_random_state c) value (c\<lparr>c_random_state := value\<rparr>)"

definition configure_journal :: "bool \<Rightarrow> effect_actor \<Rightarrow> cpu \<Rightarrow> cpu" where
  "configure_journal enabled actor c =
     c\<lparr>c_journal_enabled := enabled, c_journal_actor := actor,
       c_journal := snd (j_take (j_set_enabled enabled (c_journal c)))\<rparr>"

definition cpu_take_effects :: "cpu \<Rightarrow> effect_batch \<times> cpu" where
  "cpu_take_effects c = (let (batch, j) = j_take (c_journal c) in (batch, c\<lparr>c_journal := j\<rparr>))"

section \<open>Operands\<close>

definition direct_register_index :: "string \<Rightarrow> usize option" where
  "direct_register_index value =
     (if value = ''ra'' then Some return_address_register
      else if value = ''sp'' then Some stack_pointer_register
      else Option.bind (Option.bind (strip_prefix ''r'' value) parse_usize)
             (\<lambda>i. if i < register_count then Some i else None))"

text \<open>\<open>Cpu::register\<close> and \<open>Cpu::set_register\<close>.\<close>

definition cpu_register :: "string \<Rightarrow> (f64 option) cpu_prog" where
  "cpu_register name =
     (case direct_register_index name of
        Some index \<Rightarrow> bind (cpu_read_register index) (\<lambda>v. ret (Some v))
      | None \<Rightarrow> ret None)"

definition cpu_set_register :: "string \<Rightarrow> f64 \<Rightarrow> unit cpu_prog" where
  "cpu_set_register name value =
     bind (ok_or (UnknownRegister name) (direct_register_index name)) (\<lambda>index. cpu_write_register index value)"

definition register_index :: "string \<Rightarrow> usize cpu_prog" where
  "register_index operand =
     bind (gets (\<lambda>c. resolve_alias (c_program c) operand)) (\<lambda>value.
     case direct_register_index value of
       Some index \<Rightarrow> ret index
     | None \<Rightarrow>
         (case Option.bind (strip_prefix ''r'' value) direct_register_index of
            Some base \<Rightarrow>
              bind (cpu_read_register base) (\<lambda>raw.
              (let index = as_isize (f64_trunc raw)
               in if 0 \<le> index \<and> index < int register_count then ret (nat index)
                  else throw (IndirectOutOfRange index)))
          | None \<Rightarrow> throw (NotARegister value)))"

text \<open>\<open>if let Ok(x) = m\<close>: the error is dropped, the effects of \<open>m\<close> are kept.\<close>

definition attempt :: "('s, 'e, 'a) prog \<Rightarrow> ('s, 'e, 'a option) prog" where
  "attempt m s = (case m s of (Ok x, s') \<Rightarrow> (Ok (Some x), s') | (Err _, s') \<Rightarrow> (Ok None, s') | (Panic, s') \<Rightarrow> (Panic, s'))"

definition resolve_program_number :: "knowledge_base \<Rightarrow> string \<Rightarrow> f64 cpu_prog" where
  "resolve_program_number kb source =
     bind (gets (\<lambda>c. resolve_number (c_program c) source kb)) (\<lambda>r.
       case r of Inl e \<Rightarrow> throw (NumberErr e) | Inr v \<Rightarrow> ret v)"

definition value_of :: "knowledge_base \<Rightarrow> string \<Rightarrow> f64 cpu_prog" where
  "value_of kb source =
     bind (attempt (register_index source)) (\<lambda>found.
     case found of
       Some index \<Rightarrow> cpu_read_register index
     | None \<Rightarrow> resolve_program_number kb source)"

definition write_register :: "string \<Rightarrow> f64 \<Rightarrow> unit cpu_prog" where
  "write_register target value = bind (register_index target) (\<lambda>index. cpu_write_register index value)"

record device_ref =
  dr_device :: usize
  dr_connection :: "usize option"
  dr_base :: bool

definition by_reference :: "world \<Rightarrow> i32 \<Rightarrow> usize cpu_prog" where
  "by_reference w reference_id = ok_or (NoDeviceWithReference reference_id) (device_by_reference w reference_id)"

definition device_reference :: "knowledge_base \<Rightarrow> world \<Rightarrow> string \<Rightarrow> device_ref cpu_prog" where
  "device_reference kb w source =
     bind (gets (\<lambda>c. resolve_alias (c_program c) source)) (\<lambda>resolved.
     (let (device, connection) = (case split_once '':'' resolved of
              Some (device, connection) \<Rightarrow> (device, parse_usize connection)
            | None \<Rightarrow> (resolved, None));
          base = (device = ''db'');
          pin = Option.bind (Option.bind (strip_prefix ''d'' device) parse_usize)
                  (\<lambda>i. if i < 6 then Some i else None)
      in bind
        (if base then gets c_housing
         else case pin of
           Some pin \<Rightarrow>
             bind (gets (\<lambda>c. nth_opt (c_pins c) pin)) (\<lambda>cell.
             bind (expect cell) (\<lambda>bound. ok_or (PinNotSet pin) bound))
         | None \<Rightarrow>
             (case strip_prefix ''d'' device of
                Some reg \<Rightarrow>
                  bind (register_index reg) (\<lambda>reg.
                  bind (cpu_read_register reg) (\<lambda>v. by_reference w (as_i32 v)))
              | None \<Rightarrow>
                  bind (attempt (register_index device)) (\<lambda>found.
                  if found \<noteq> None
                  then bind (value_of kb device) (\<lambda>v. by_reference w (as_i32 v))
                  else bind (resolve_program_number kb device) (\<lambda>v. by_reference w (as_i32 v)))))
        (\<lambda>index. ret \<lparr>dr_device = index, dr_connection = connection, dr_base = base\<rparr>)))"

definition enum_contains :: "knowledge_base \<Rightarrow> string \<Rightarrow> string \<Rightarrow> bool" where
  "enum_contains kb enum name =
     (case bt_get (lang_enums (language kb)) enum of
        Some listing \<Rightarrow> bt_contains (en_values listing) name
      | None \<Rightarrow> False)"

definition candidate_number :: "json_value \<Rightarrow> f64 option" where
  "candidate_number v =
     (case as_f64 v of Some x \<Rightarrow> Some x | None \<Rightarrow> map_option (\<lambda>i. f64_of_i64 i) (as_i64_value v))"

definition logic_name :: "knowledge_base \<Rightarrow> string \<Rightarrow> string cpu_prog" where
  "logic_name kb source =
     bind (gets (\<lambda>c. resolve_alias (c_program c) source)) (\<lambda>resolved.
     if enum_contains kb ''LogicType'' resolved \<or> enum_contains kb ''LogicSlotType'' resolved
        \<or> starts_with ''Channel'' resolved
     then ret resolved
     else
       bind (value_of kb resolved) (\<lambda>numeric.
       bind (ok_or LogicTypeEnumMissing (bt_get (lang_enums (language kb)) ''LogicType'')) (\<lambda>listing.
       ok_or (NotALogicType numeric)
         (map_option fst (find (\<lambda>(_, candidate).
              case candidate_number (ev_value candidate) of Some x \<Rightarrow> f64_eq x numeric | None \<Rightarrow> False)
            (en_values listing))))))"

definition checked_address :: "f64 \<Rightarrow> usize \<Rightarrow> string \<Rightarrow> exec_error + usize" where
  "checked_address value len label =
     (if \<not> is_finite value \<or> f64_lt value f64_zero then Inl (InvalidAddress label value)
      else (let address = as_usize (f64_trunc value)
            in if len \<le> address then Inl (AddressExceeds label address (len - 1)) else Inr address))"

definition stack_pointer :: "usize cpu_prog" where
  "stack_pointer =
     bind (cpu_read_register stack_pointer_register) (\<lambda>sp.
     bind (gets (\<lambda>c. length (c_stack c))) (\<lambda>len.
     lift_result (checked_address sp len ''stack'')))"

definition batch_mode :: "knowledge_base \<Rightarrow> string \<Rightarrow> i32 cpu_prog" where
  "batch_mode kb value =
     bind (gets (\<lambda>c. resolve_alias (c_program c) value)) (\<lambda>resolved.
     if resolved = ''Average'' then ret 0
     else if resolved = ''Sum'' then ret 1
     else if resolved = ''Minimum'' then ret 2
     else if resolved = ''Maximum'' then ret 3
     else if resolved = ''Count'' then ret 4
     else bind (resolve_program_number kb resolved) (\<lambda>v. ret (as_i32 v)))"

text \<open>\<open>Iterator::sum\<close> for \<open>f64\<close> starts from \<open>-0.0\<close>.\<close>

definition f64_sum :: "f64 list \<Rightarrow> f64" where
  "f64_sum values = fold (\<lambda>v acc. f64_add acc v) values f64_neg_zero"

definition aggregate :: "f64 list \<Rightarrow> i32 \<Rightarrow> exec_error + f64" where
  "aggregate values mode =
     (if mode = 0 then (if values = [] then Inr f64_nan else Inr (f64_div (f64_sum values) (f64_of_nat (length values))))
      else if mode = 1 then Inr (f64_sum values)
      else if mode = 2 then (if values = [] then Inr f64_nan else Inr (fold (\<lambda>v acc. f64_min acc v) values f64_infinity))
      else if mode = 3 then (if values = [] then Inr f64_nan else Inr (fold (\<lambda>v acc. f64_max acc v) values f64_neg_infinity))
      else if mode = 4 then Inr (f64_of_nat (length values))
      else Inl (UnknownBatchMode mode))"

section \<open>Well-formed CPUs\<close>

text \<open>
  The invariant of a CPU in a world of \<open>devices\<close> devices: eighteen registers, six pins bound to
  existing devices, an existing housing and a compiled program. The shape of a CPU is what no
  instruction changes: the size of its stack, its housing, its program and its operation counter.
\<close>

type_synonym cpu_form = "nat \<times> usize \<times> ic_program \<times> u32"

definition cpu_shape :: "cpu \<Rightarrow> cpu_form" where
  "cpu_shape c = (length (c_stack c), c_housing c, c_program c, c_operations_this_tick c)"

definition cpu_wf :: "usize \<Rightarrow> cpu_form \<Rightarrow> cpu \<Rightarrow> bool" where
  "cpu_wf devices shape c \<longleftrightarrow>
     cpu_shape c = shape \<and> length (c_registers c) = register_count \<and>
     length (c_pins c) = 6 \<and> (\<forall>i. Some i \<in> set (c_pins c) \<longrightarrow> i < devices) \<and>
     c_housing c < devices \<and> program_wf (c_program c)"

subsection \<open>Operand access is safe\<close>

lemma note_frame [frame_simps]:
  "cpu_wf n k (note_read t v c) = cpu_wf n k c"
  "cpu_wf n k (note_write t u v c) = cpu_wf n k c"
  "cpu_wf n k (note_write_bits t x y c) = cpu_wf n k c"
  by (simp_all add: cpu_wf_def cpu_shape_def note_read_def note_write_def note_write_bits_def)

lemma cpu_wf_updates [frame_simps]:
  "cpu_wf n k (c\<lparr>c_registers := (c_registers c)[i := v]\<rparr>) = cpu_wf n k c"
  "cpu_wf n k (c\<lparr>c_stack := (c_stack c)[i := v]\<rparr>) = cpu_wf n k c"
  "cpu_wf n k (cpu_write_pc pc c) = cpu_wf n k c"
  "cpu_wf n k (cpu_write_state st c) = cpu_wf n k c"
  "cpu_wf n k (cpu_write_random_state r c) = cpu_wf n k c"
  by (simp_all add: cpu_wf_def cpu_shape_def cpu_write_pc_def cpu_write_state_def cpu_write_random_state_def
      note_read_def note_write_def note_write_bits_def)

lemma cpu_wf_lookup:
  "cpu_wf n k c \<Longrightarrow> i < register_count \<Longrightarrow> nth_opt (c_registers c) i \<noteq> None"
  "cpu_wf n k c \<Longrightarrow> a < fst k \<Longrightarrow> nth_opt (c_stack c) a \<noteq> None"
  "cpu_wf n k c \<Longrightarrow> p < 6 \<Longrightarrow> nth_opt (c_pins c) p \<noteq> None"
  by (auto simp: cpu_wf_def cpu_shape_def)

lemma safe_read_register:
  "i < register_count \<Longrightarrow> safe (cpu_wf n k) anything (cpu_read_register i)"
  unfolding cpu_read_register_def
  by (intro safeI wp_intros) (auto simp: frame_simps dest: cpu_wf_lookup)

lemma safe_write_register:
  "i < register_count \<Longrightarrow> safe (cpu_wf n k) anything (cpu_write_register i v)"
  unfolding cpu_write_register_def
  by (intro safeI wp_intros) (auto simp: frame_simps dest: cpu_wf_lookup)

lemma safe_read_stack:
  "a < fst k \<Longrightarrow> safe (cpu_wf n k) anything (cpu_read_stack a)"
  unfolding cpu_read_stack_def
  by (intro safeI wp_intros) (auto simp: frame_simps dest: cpu_wf_lookup)

lemma safe_write_stack:
  "a < fst k \<Longrightarrow> safe (cpu_wf n k) anything (cpu_write_stack a v)"
  unfolding cpu_write_stack_def
  by (intro safeI wp_intros) (auto simp: frame_simps dest: cpu_wf_lookup)

lemma direct_register_less: "direct_register_index v = Some i \<Longrightarrow> i < register_count"
  by (auto simp: direct_register_index_def register_count_def return_address_register_def stack_pointer_register_def
      bind_eq_Some_conv split: if_splits)

lemma safe_register_index: "safe (cpu_wf n k) (\<lambda>i. i < register_count) (register_index source)"
  unfolding register_index_def Let_def
  by (intro safeI wp_intros wp_safe [OF safe_read_register])
    (auto simp: bind_eq_Some_conv dest: direct_register_less)

lemma safe_attempt: "safe P Q m \<Longrightarrow> safe P (\<lambda>r. case r of Some x \<Rightarrow> Q x | None \<Rightarrow> True) (attempt m)"
proof (rule safeI)
  fix s assume "safe P Q m" "P s"
  from safeD [OF this] show "wp (attempt m) (\<lambda>x s'. P s' \<and> (case x of Some x \<Rightarrow> Q x | None \<Rightarrow> True)) P s"
    by (cases "m s"; cases "fst (m s)") (auto simp: wp_def attempt_def)
qed

lemma safe_resolve_program_number: "safe (cpu_wf n k) anything (resolve_program_number kb source)"
  unfolding resolve_program_number_def
  by (intro safeI wp_intros) (auto simp: wp_throw wp_ret split: sum.split)

lemma safe_value_of: "safe (cpu_wf n k) anything (value_of kb source)"
  unfolding value_of_def
  by (intro safeI wp_intros wp_safe [OF safe_attempt [OF safe_register_index]] wp_safe [OF safe_read_register]
      wp_safe [OF safe_resolve_program_number]) auto

lemma safe_write_register_operand: "safe (cpu_wf n k) anything (write_register target v)"
  unfolding write_register_def
  by (intro safeI wp_intros wp_safe [OF safe_register_index] wp_safe [OF safe_write_register]) auto

end
