(* ===== verification/Execute.thy ===== *)
theory Execute
  imports Cpu
begin

unbundle bit_operations_syntax

text \<open>
  The instruction set: \<open>execute_operation\<close> and its helpers of \<open>crates/ic10-sim/src/simulator.rs\<close>. An
  instruction is a program over the CPU it runs on, the world and the simulator's journal. The
  mathematical functions that Rust takes from the platform's \<open>libm\<close> are a parameter. Integer
  additions and shifts wrap and mask as in the release profile.
\<close>

section \<open>The execution state\<close>

record exec =
  x_cpu :: cpu
  x_world :: world
  x_journal :: effect_journal

type_synonym 'a exec_prog = "(exec, exec_error, 'a) prog"

definition on_cpu :: "'a cpu_prog \<Rightarrow> 'a exec_prog" where
  "on_cpu m x = (case m (x_cpu x) of (r, c) \<Rightarrow> (r, x\<lparr>x_cpu := c\<rparr>))"

definition operand :: "operation \<Rightarrow> usize \<Rightarrow> ('s, 'e, string) prog" where
  "operand op i = expect (nth_opt (o_operands op) i)"

definition operand_value :: "knowledge_base \<Rightarrow> operation \<Rightarrow> usize \<Rightarrow> f64 cpu_prog" where
  "operand_value kb op i = bind (operand op i) (value_of kb)"

definition write_operand :: "operation \<Rightarrow> usize \<Rightarrow> f64 \<Rightarrow> unit cpu_prog" where
  "write_operand op i v = bind (operand op i) (\<lambda>target. write_register target v)"

definition last_operand_value :: "knowledge_base \<Rightarrow> operation \<Rightarrow> f64 cpu_prog" where
  "last_operand_value kb op =
     bind (expect (if o_operands op = [] then None else Some (last (o_operands op)))) (value_of kb)"

definition x_read_field ::
  "knowledge_base \<Rightarrow> effect_actor \<Rightarrow> usize \<Rightarrow> usize option \<Rightarrow> string \<Rightarrow> f64 exec_prog" where
  "x_read_field kb actor device connection field x =
     (case read_field (x_world x) device connection field kb (x_journal x) actor of
        Ok (v, j) \<Rightarrow> (Ok v, x\<lparr>x_journal := j\<rparr>)
      | Err e \<Rightarrow> (Err (FieldErr e), x)
      | Panic \<Rightarrow> (Panic, x))"

definition x_write_field ::
  "knowledge_base \<Rightarrow> effect_actor \<Rightarrow> usize \<Rightarrow> usize option \<Rightarrow> string \<Rightarrow> f64 \<Rightarrow> unit exec_prog" where
  "x_write_field kb actor device connection field v x =
     (case write_field (x_world x) device connection field v kb (x_journal x) actor of
        Ok (w, j) \<Rightarrow> (Ok (), x\<lparr>x_world := w, x_journal := j\<rparr>)
      | Err e \<Rightarrow> (Err (FieldErr e), x)
      | Panic \<Rightarrow> (Panic, x))"

definition x_device :: "usize \<Rightarrow> device exec_prog" where
  "x_device i = bind (gets (\<lambda>x. nth_opt (w_devices (x_world x)) i)) expect"

definition x_set_device :: "usize \<Rightarrow> device \<Rightarrow> unit exec_prog" where
  "x_set_device i d = modify (\<lambda>x. x\<lparr>x_world := (x_world x)\<lparr>w_devices := (w_devices (x_world x))[i := d]\<rparr>\<rparr>)"

definition x_journal_op :: "(effect_journal \<Rightarrow> effect_journal) \<Rightarrow> unit exec_prog" where
  "x_journal_op f = modify (\<lambda>x. x\<lparr>x_journal := f (x_journal x)\<rparr>)"

text \<open>The journal entry for a slot field, with the field name interned first.\<close>

definition x_note_slot ::
  "(effect_target \<Rightarrow> effect_journal \<Rightarrow> effect_journal) \<Rightarrow> usize \<Rightarrow> usize \<Rightarrow> string \<Rightarrow> unit exec_prog" where
  "x_note_slot note device slot field =
     x_journal_op (\<lambda>j. if j_enabled j
       then (let (field_id, j) = j_intern field j in note (TDeviceSlot device (of_nat slot) field_id) j)
       else j)"

section \<open>Arithmetic\<close>

definition bool_value :: "bool \<Rightarrow> f64" where
  "bool_value b = (if b then f64_one else f64_zero)"

definition f64_sgn :: "f64 \<Rightarrow> f64" where
  "f64_sgn v = (if is_nan v \<or> f64_eq v f64_zero then f64_zero else f64_signum v)"

definition f64_mod :: "f64 \<Rightarrow> f64 \<Rightarrow> f64" where
  "f64_mod a b = f64_rem (f64_add (f64_rem a b) b) b"

definition binary_function :: "libm \<Rightarrow> string \<Rightarrow> (f64 \<Rightarrow> f64 \<Rightarrow> f64) option" where
  "binary_function lm mnemonic =
     map_of [(''add'', f64_add), (''sub'', f64_sub), (''mul'', f64_mul), (''div'', f64_div), (''mod'', f64_mod),
             (''max'', f64_max), (''min'', f64_min), (''pow'', lm_powf lm), (''atan2'', lm_atan2 lm)] mnemonic"

definition unary_function :: "libm \<Rightarrow> string \<Rightarrow> (f64 \<Rightarrow> f64) option" where
  "unary_function lm mnemonic =
     map_of [(''abs'', f64_abs), (''acos'', lm_acos lm), (''asin'', lm_asin lm), (''atan'', lm_atan lm),
             (''ceil'', f64_ceil), (''cos'', lm_cos lm), (''exp'', lm_exp lm), (''floor'', f64_floor),
             (''log'', lm_ln lm), (''round'', f64_round), (''sgn'', f64_sgn), (''sin'', lm_sin lm),
             (''sqrt'', f64_sqrt), (''tan'', lm_tan lm), (''trunc'', f64_trunc)] mnemonic"

definition bitwise_function :: "string \<Rightarrow> (i64 \<Rightarrow> i64 \<Rightarrow> i64) option" where
  "bitwise_function mnemonic =
     map_of [(''and'', (AND)), (''or'', (OR)), (''xor'', (XOR)), (''nor'', \<lambda>a b. NOT (a OR b))] mnemonic"

definition selection_unary_test :: "string \<Rightarrow> (f64 \<Rightarrow> bool) option" where
  "selection_unary_test mnemonic =
     map_of [(''seqz'', \<lambda>a. f64_eq a f64_zero), (''snez'', \<lambda>a. f64_ne a f64_zero), (''sgez'', \<lambda>a. f64_ge a f64_zero),
             (''sgtz'', \<lambda>a. f64_gt a f64_zero), (''slez'', \<lambda>a. f64_le a f64_zero), (''sltz'', \<lambda>a. f64_lt a f64_zero),
             (''snan'', is_nan), (''snanz'', \<lambda>a. \<not> is_nan a)] mnemonic"

definition selection_binary_test :: "string \<Rightarrow> (f64 \<Rightarrow> f64 \<Rightarrow> bool) option" where
  "selection_binary_test mnemonic =
     map_of [(''seq'', f64_eq), (''sne'', f64_ne), (''sge'', \<lambda>a b. f64_ge a b), (''sgt'', \<lambda>a b. f64_gt a b),
             (''sle'', f64_le), (''slt'', f64_lt)] mnemonic"

definition exec_unary :: "knowledge_base \<Rightarrow> operation \<Rightarrow> (f64 \<Rightarrow> f64) \<Rightarrow> unit cpu_prog" where
  "exec_unary kb op f = bind (operand_value kb op 1) (\<lambda>source. write_operand op 0 (f source))"

definition exec_binary :: "knowledge_base \<Rightarrow> operation \<Rightarrow> (f64 \<Rightarrow> f64 \<Rightarrow> f64) \<Rightarrow> unit cpu_prog" where
  "exec_binary kb op f =
     bind (operand_value kb op 1) (\<lambda>a. bind (operand_value kb op 2) (\<lambda>b. write_operand op 0 (f a b)))"

definition exec_bitwise_binary :: "knowledge_base \<Rightarrow> operation \<Rightarrow> (i64 \<Rightarrow> i64 \<Rightarrow> i64) \<Rightarrow> unit cpu_prog" where
  "exec_bitwise_binary kb op f =
     bind (operand_value kb op 1) (\<lambda>a. bind (operand_value kb op 2) (\<lambda>b.
       write_operand op 0 (f64_of_i64 (f (as_i64 a) (as_i64 b)))))"

definition exec_selection_unary :: "knowledge_base \<Rightarrow> operation \<Rightarrow> (f64 \<Rightarrow> bool) \<Rightarrow> unit cpu_prog" where
  "exec_selection_unary kb op p = bind (operand_value kb op 1) (\<lambda>source. write_operand op 0 (bool_value (p source)))"

definition exec_selection_binary :: "knowledge_base \<Rightarrow> operation \<Rightarrow> (f64 \<Rightarrow> f64 \<Rightarrow> bool) \<Rightarrow> unit cpu_prog" where
  "exec_selection_binary kb op p =
     bind (operand_value kb op 1) (\<lambda>a. bind (operand_value kb op 2) (\<lambda>b. write_operand op 0 (bool_value (p a b))))"

definition shift_amount :: "f64 \<Rightarrow> nat" where
  "shift_amount v = unat (as_u32 v AND 63)"

text \<open>The bit-twiddling arms with two sources: the value written, from the raw operands.\<close>

definition shift_function :: "string \<Rightarrow> (f64 \<Rightarrow> f64 \<Rightarrow> f64) option" where
  "shift_function mnemonic =
     map_of [(''sll'', \<lambda>a n. f64_of_i64 (push_bit (shift_amount n) (as_i64 a))),
             (''sla'', \<lambda>a n. f64_of_i64 (push_bit (shift_amount n) (as_i64 a))),
             (''srl'', \<lambda>a n. f64_of_u64 (drop_bit (shift_amount n) (as_u64 a))),
             (''sra'', \<lambda>a n. f64_of_i64 (signed_drop_bit (shift_amount n) (as_i64 a))),
             (''rol'', \<lambda>a n. f64_of_i64 (word_rotl (shift_amount n) (as_u64 a))),
             (''ror'', \<lambda>a n. f64_of_i64 (word_rotr (shift_amount n) (as_u64 a)))] mnemonic"

definition field_mask :: "u32 \<Rightarrow> u64" where
  "field_mask len = push_bit (unat len) 1 - 1"

definition extract_bits :: "u64 \<Rightarrow> u32 \<Rightarrow> u32 \<Rightarrow> u64" where
  "extract_bits source start len = drop_bit (unat (start AND 63)) source AND field_mask (min len 53)"

definition insert_bits :: "u64 \<Rightarrow> u64 \<Rightarrow> u32 \<Rightarrow> u32 \<Rightarrow> u64" where
  "insert_bits target source start len =
     (let s = unat (start AND 63); m = push_bit s (field_mask (min len 53))
      in (target AND NOT m) OR (push_bit s source AND m))"

definition xorshift :: "u64 \<Rightarrow> u64" where
  "xorshift r0 =
     (let r1 = r0 XOR push_bit 13 r0; r2 = r1 XOR drop_bit 7 r1 in r2 XOR push_bit 17 r2)"

definition random_unit :: "u64 \<Rightarrow> f64" where
  "random_unit r = f64_div (f64_of_u64 (drop_bit 11 r)) (f64_of_u64 (push_bit 53 1))"

definition clamp_value :: "f64 \<Rightarrow> f64 \<Rightarrow> f64 \<Rightarrow> f64" where
  "clamp_value source minimum maximum =
     (if is_nan source \<or> is_nan minimum \<or> is_nan maximum then f64_nan
      else f64_min (f64_max source minimum) maximum)"

definition lerp_value :: "f64 \<Rightarrow> f64 \<Rightarrow> f64 \<Rightarrow> f64" where
  "lerp_value a b ratio = f64_add a (f64_mul (f64_sub b a) (f64_clamp ratio f64_zero f64_one))"

definition approximately :: "f64 \<Rightarrow> f64 \<Rightarrow> f64 \<Rightarrow> bool" where
  "approximately a b tolerance =
     (let least = f64_mul (F64 0x36A0000000000000) (f64_of_int 8)
      in f64_le (f64_abs (f64_sub a b))
           (f64_max (f64_mul (f64_abs tolerance) (f64_max (f64_abs a) (f64_abs b))) least))"

definition tick_seconds_value :: f64 where
  "tick_seconds_value = F64 0x3FE0000000000000"

definition sleep_ticks :: "f64 \<Rightarrow> u64" where
  "sleep_ticks v =
     (let seconds = f64_max v f64_zero
      in as_u64 (f64_max (f64_ceil (f64_div seconds tick_seconds_value)) f64_one))"

section \<open>Branches\<close>

definition line_target :: "f64 \<Rightarrow> exec_error + usize" where
  "line_target v =
     (if \<not> is_finite v \<or> f64_lt v f64_zero then Inl (InvalidBranchTarget v) else Inr (as_usize (f64_trunc v)))"

definition relative_target :: "usize \<Rightarrow> f64 \<Rightarrow> exec_error + usize" where
  "relative_target line offset =
     (if \<not> is_finite offset then Inl (InvalidRelativeOffset offset)
      else (let target = (of_nat line :: i64) + as_i64 (f64_trunc offset)
            in if sint target < 0 then Inl (NegativeBranchTarget (sint target)) else Inr (nat (sint target))))"

definition branch_to :: "operation \<Rightarrow> f64 \<Rightarrow> bool \<Rightarrow> bool \<Rightarrow> unit cpu_prog" where
  "branch_to op target relative link =
     bind (if link then cpu_write_register return_address_register (f64_of_nat (o_line op + 1)) else ret ()) (\<lambda>_.
     bind (lift_result (if relative then relative_target (o_line op) target else line_target target)) (\<lambda>pc.
     modify (cpu_write_pc pc)))"

text \<open>\<open>br..\<close> names are the relative forms of the \<open>b..\<close> names.\<close>

definition normalized_branch :: "string \<Rightarrow> string" where
  "normalized_branch mnemonic = (case strip_prefix ''br'' mnemonic of Some rest \<Rightarrow> ''b'' @ rest | None \<Rightarrow> mnemonic)"

definition is_comparison_branch :: "string \<Rightarrow> bool" where
  "is_comparison_branch mnemonic \<longleftrightarrow>
     normalized_branch mnemonic \<in>
       {''beq'', ''beqal'', ''beqz'', ''beqzal'', ''bne'', ''bneal'', ''bnez'', ''bnezal'',
        ''bge'', ''bgeal'', ''bgez'', ''bgezal'', ''bgt'', ''bgtal'', ''bgtz'', ''bgtzal'',
        ''ble'', ''bleal'', ''blez'', ''blezal'', ''blt'', ''bltal'', ''bltz'', ''bltzal''}"

definition comparison_holds :: "string \<Rightarrow> f64 \<Rightarrow> f64 \<Rightarrow> bool" where
  "comparison_holds comparison a b =
     (if comparison = ''beq'' then f64_eq a b
      else if comparison = ''bne'' then f64_ne a b
      else if comparison = ''bge'' then f64_ge a b
      else if comparison = ''bgt'' then f64_gt a b
      else if comparison = ''ble'' then f64_le a b
      else if comparison = ''blt'' then f64_lt a b
      else False)"

definition execute_comparison_branch :: "knowledge_base \<Rightarrow> operation \<Rightarrow> unit cpu_prog" where
  "execute_comparison_branch kb op =
     (let relative = starts_with ''br'' (o_mnemonic op);
          name = normalized_branch (o_mnemonic op);
          link = ends_with ''al'' name;
          base = (case strip_suffix ''al'' name of Some b \<Rightarrow> b | None \<Rightarrow> name);
          zero = ends_with ''z'' base;
          comparison = (case strip_suffix ''z'' base of Some b \<Rightarrow> b | None \<Rightarrow> base)
      in bind (operand_value kb op 0) (\<lambda>a.
         bind (if zero then ret f64_zero else operand_value kb op 1) (\<lambda>b.
         if comparison_holds comparison a b
         then bind (operand_value kb op (if zero then 1 else 2)) (\<lambda>target. branch_to op target relative link)
         else ret ())))"

text \<open>The common tail of the remaining branches: the target is the last operand.\<close>

definition branch_if :: "knowledge_base \<Rightarrow> operation \<Rightarrow> bool \<Rightarrow> unit cpu_prog" where
  "branch_if kb op taken =
     (if taken
      then bind (last_operand_value kb op) (\<lambda>target.
           branch_to op target (starts_with ''br'' (o_mnemonic op)) (ends_with ''al'' (o_mnemonic op)))
      else ret ())"

section \<open>Stack, memory and slots\<close>

definition exec_push :: "knowledge_base \<Rightarrow> operation \<Rightarrow> unit cpu_prog" where
  "exec_push kb op =
     bind stack_pointer (\<lambda>address.
     bind (operand_value kb op 0) (\<lambda>v.
     bind (cpu_write_stack address v) (\<lambda>_.
     bind (cpu_read_register stack_pointer_register) (\<lambda>pointer.
     cpu_write_register stack_pointer_register (f64_add pointer f64_one)))))"

definition exec_pop :: "operation \<Rightarrow> unit cpu_prog" where
  "exec_pop op =
     bind (cpu_read_register stack_pointer_register) (\<lambda>sp.
     (let pointer = f64_sub sp f64_one
      in bind (cpu_write_register stack_pointer_register pointer) (\<lambda>_.
         bind (gets (\<lambda>c. length (c_stack c))) (\<lambda>len.
         bind (lift_result (checked_address pointer len ''stack'')) (\<lambda>address.
         bind (cpu_read_stack address) (\<lambda>v. write_operand op 0 v))))))"

definition exec_peek :: "operation \<Rightarrow> unit cpu_prog" where
  "exec_peek op =
     bind (cpu_read_register stack_pointer_register) (\<lambda>sp.
     bind (gets (\<lambda>c. length (c_stack c))) (\<lambda>len.
     bind (lift_result (checked_address (f64_sub sp f64_one) len ''stack'')) (\<lambda>address.
     bind (cpu_read_stack address) (\<lambda>v. write_operand op 0 v))))"

definition exec_poke :: "knowledge_base \<Rightarrow> operation \<Rightarrow> unit cpu_prog" where
  "exec_poke kb op =
     bind (operand_value kb op 0) (\<lambda>v.
     bind (gets (\<lambda>c. length (c_stack c))) (\<lambda>len.
     bind (lift_result (checked_address v len ''stack'')) (\<lambda>address.
     bind (operand_value kb op 1) (\<lambda>stored. cpu_write_stack address stored))))"

definition x_reference :: "i32 \<Rightarrow> usize exec_prog" where
  "x_reference reference_id =
     bind (gets x_world) (\<lambda>w. ok_or (NoDeviceWithReference reference_id) (device_by_reference w reference_id))"

definition x_device_reference :: "knowledge_base \<Rightarrow> operation \<Rightarrow> usize \<Rightarrow> device_ref exec_prog" where
  "x_device_reference kb op i =
     bind (operand op i) (\<lambda>source.
     bind (gets x_world) (\<lambda>w. on_cpu (device_reference kb w source)))"

definition x_logic_name :: "knowledge_base \<Rightarrow> operation \<Rightarrow> usize \<Rightarrow> string exec_prog" where
  "x_logic_name kb op i = bind (operand op i) (\<lambda>source. on_cpu (logic_name kb source))"

definition x_read_memory :: "effect_actor \<Rightarrow> usize \<Rightarrow> usize \<Rightarrow> f64 exec_prog" where
  "x_read_memory actor device address =
     bind (x_device device) (\<lambda>d.
     bind (expect (nth_opt (dv_memory d) address)) (\<lambda>loaded.
     bind (x_journal_op (j_read actor (TDeviceMemory device (of_nat address)) loaded)) (\<lambda>_. ret loaded)))"

definition x_write_memory :: "effect_actor \<Rightarrow> usize \<Rightarrow> f64 \<Rightarrow> usize \<Rightarrow> unit exec_prog" where
  "x_write_memory actor device stored address =
     bind (x_device device) (\<lambda>d.
     bind (expect (nth_opt (dv_memory d) address)) (\<lambda>before.
     bind (x_set_device device (d\<lparr>dv_memory := (dv_memory d)[address := stored]\<rparr>)) (\<lambda>_.
     x_journal_op (j_write actor (TDeviceMemory device (of_nat address)) before stored))))"

definition memory_target :: "knowledge_base \<Rightarrow> operation \<Rightarrow> bool \<Rightarrow> device_ref exec_prog" where
  "memory_target kb op direct =
     (let i = (if o_mnemonic op \<in> {''get'', ''getd''} then 1 else 0)
      in if direct then
           bind (on_cpu (operand_value kb op i)) (\<lambda>v.
           bind (x_reference (as_i32 v)) (\<lambda>device.
           ret \<lparr>dr_device = device, dr_connection = None, dr_base = False\<rparr>))
         else x_device_reference kb op i)"

definition execute_clear :: "effect_actor \<Rightarrow> device_ref \<Rightarrow> unit exec_prog" where
  "execute_clear actor target =
     (if dr_base target
      then bind (gets (\<lambda>x. length (c_stack (x_cpu x)))) (\<lambda>n.
           for_each [0..<n] (\<lambda>address. on_cpu (cpu_write_stack address f64_zero)))
      else bind (x_device (dr_device target)) (\<lambda>d.
           for_each [0..<length (dv_memory d)] (x_write_memory actor (dr_device target) f64_zero)))"

definition memory_length :: "device_ref \<Rightarrow> usize exec_prog" where
  "memory_length target =
     (if dr_base target then gets (\<lambda>x. length (c_stack (x_cpu x)))
      else bind (x_device (dr_device target)) (\<lambda>d. ret (length (dv_memory d))))"

definition execute_memory :: "knowledge_base \<Rightarrow> effect_actor \<Rightarrow> operation \<Rightarrow> bool \<Rightarrow> unit exec_prog" where
  "execute_memory kb actor op direct =
     bind (memory_target kb op direct) (\<lambda>target.
     if o_mnemonic op \<in> {''clr'', ''clrd''} then execute_clear actor target
     else
       bind (on_cpu (operand_value kb op (if o_mnemonic op \<in> {''get'', ''getd''} then 2 else 1))) (\<lambda>v.
       bind (memory_length target) (\<lambda>len.
       bind (lift_result (checked_address v len ''device memory'')) (\<lambda>address.
       if o_mnemonic op \<in> {''get'', ''getd''} then
         bind (if dr_base target then on_cpu (cpu_read_stack address)
               else x_read_memory actor (dr_device target) address) (\<lambda>loaded.
         on_cpu (write_operand op 0 loaded))
       else
         bind (on_cpu (operand_value kb op 2)) (\<lambda>stored.
         if dr_base target then on_cpu (cpu_write_stack address stored)
         else x_write_memory actor (dr_device target) stored address)))))"

definition slot_field :: "device \<Rightarrow> usize \<Rightarrow> string \<Rightarrow> f64 option" where
  "slot_field d slot field = Option.bind (bt_get (dv_slots d) slot) (\<lambda>fs. bt_get fs field)"

text \<open>Overwriting one field of an existing slot, with its journal entry.\<close>

definition x_write_slot :: "effect_actor \<Rightarrow> usize \<Rightarrow> device \<Rightarrow> usize \<Rightarrow> (string, f64) btree_map \<Rightarrow> string \<Rightarrow> f64 \<Rightarrow> unit exec_prog" where
  "x_write_slot actor device d slot fs field stored =
     (let before = (case bt_get fs field of Some v \<Rightarrow> v | None \<Rightarrow> f64_zero)
      in bind (x_set_device device (d\<lparr>dv_slots := bt_insert slot (bt_insert field stored fs) (dv_slots d)\<rparr>)) (\<lambda>_.
         x_note_slot (\<lambda>target. j_write actor target before stored) device slot field))"

definition execute_slot :: "knowledge_base \<Rightarrow> effect_actor \<Rightarrow> operation \<Rightarrow> unit exec_prog" where
  "execute_slot kb actor op =
     (let load = (o_mnemonic op = ''ls'');
          target_index = (if load then 1 else 0);
          slot_index = target_index + 1
      in bind (x_device_reference kb op target_index) (\<lambda>target.
         bind (on_cpu (operand_value kb op slot_index)) (\<lambda>v.
         (let slot = as_usize v
          in bind (x_logic_name kb op (slot_index + 1)) (\<lambda>field.
             if load then
               bind (x_device (dr_device target)) (\<lambda>d.
               bind (ok_or (SlotFieldNotExposed (dv_name d) slot field) (slot_field d slot field)) (\<lambda>loaded.
               bind (x_note_slot (\<lambda>target. j_read actor target loaded) (dr_device target) slot field) (\<lambda>_.
               on_cpu (write_operand op 0 loaded))))
             else
               bind (on_cpu (operand_value kb op (slot_index + 2))) (\<lambda>stored.
               bind (x_device (dr_device target)) (\<lambda>d.
               bind (ok_or (DeviceSlotMissing (dv_name d) slot) (bt_get (dv_slots d) slot)) (\<lambda>fs.
               x_write_slot actor (dr_device target) d slot fs field stored))))))))"

section \<open>Batch loads and stores\<close>

text \<open>The operands shared by the batch instructions, read in order from \<open>cursor\<close> on.\<close>

definition batch_name :: "knowledge_base \<Rightarrow> operation \<Rightarrow> bool \<Rightarrow> usize \<Rightarrow> (i32 option \<times> usize) cpu_prog" where
  "batch_name kb op named cursor =
     (if named then bind (operand_value kb op cursor) (\<lambda>v. ret (Some (as_i32 v), cursor + 1)) else ret (None, cursor))"

definition batch_slot :: "knowledge_base \<Rightarrow> operation \<Rightarrow> bool \<Rightarrow> usize \<Rightarrow> (usize option \<times> usize) cpu_prog" where
  "batch_slot kb op slotted cursor =
     (if slotted then bind (operand_value kb op cursor) (\<lambda>v. ret (Some (as_usize v), cursor + 1)) else ret (None, cursor))"

definition batch_matches :: "i32 \<Rightarrow> i32 option \<Rightarrow> device \<Rightarrow> bool" where
  "batch_matches prefab_hash name_hash d \<longleftrightarrow>
     dv_prefab_hash d = prefab_hash \<and> (case name_hash of Some h \<Rightarrow> dv_name_hash d = h | None \<Rightarrow> True)"

definition data_network :: "usize exec_prog" where
  "data_network =
     bind (gets (\<lambda>x. c_housing (x_cpu x))) (\<lambda>housing.
     bind (x_device housing) (\<lambda>d.
     bind (gets (\<lambda>x. c_name (x_cpu x))) (\<lambda>name.
     ok_or (NoDataNetwork name) (bt_get (dv_connections d) 0))))"

definition batch_read ::
  "knowledge_base \<Rightarrow> effect_actor \<Rightarrow> usize option \<Rightarrow> string \<Rightarrow> usize \<Rightarrow> (f64 option) exec_prog" where
  "batch_read kb actor slot field index =
     (case slot of
        Some slot \<Rightarrow>
          bind (x_device index) (\<lambda>d.
          (case slot_field d slot field of
             Some v \<Rightarrow> bind (x_note_slot (\<lambda>target. j_read actor target v) index slot field) (\<lambda>_. ret (Some v))
           | None \<Rightarrow> ret None))
      | None \<Rightarrow> attempt (x_read_field kb actor index None field))"

fun batch_collect ::
  "knowledge_base \<Rightarrow> effect_actor \<Rightarrow> i32 \<Rightarrow> i32 option \<Rightarrow> usize option \<Rightarrow> string \<Rightarrow> usize list \<Rightarrow> (f64 list) exec_prog" where
  "batch_collect kb actor prefab_hash name_hash slot field [] = ret []"
| "batch_collect kb actor prefab_hash name_hash slot field (index # rest) =
     bind (x_device index) (\<lambda>d.
     if \<not> batch_matches prefab_hash name_hash d
     then batch_collect kb actor prefab_hash name_hash slot field rest
     else
       bind (batch_read kb actor slot field index) (\<lambda>loaded.
       bind (batch_collect kb actor prefab_hash name_hash slot field rest) (\<lambda>values.
       ret (case loaded of Some v \<Rightarrow> v # values | None \<Rightarrow> values))))"

definition execute_batch_load :: "knowledge_base \<Rightarrow> effect_actor \<Rightarrow> operation \<Rightarrow> unit exec_prog" where
  "execute_batch_load kb actor op =
     (let named = o_mnemonic op \<in> {''lbn'', ''lbns''};
          slotted = o_mnemonic op \<in> {''lbs'', ''lbns''}
      in bind (on_cpu (operand_value kb op 1)) (\<lambda>p.
         bind (on_cpu (batch_name kb op named 2)) (\<lambda>(name_hash, cursor).
         bind (on_cpu (batch_slot kb op slotted cursor)) (\<lambda>(slot, cursor).
         bind (x_logic_name kb op cursor) (\<lambda>field.
         bind (bind (operand op (cursor + 1)) (\<lambda>source. on_cpu (batch_mode kb source))) (\<lambda>mode.
         bind data_network (\<lambda>network.
         bind (gets (\<lambda>x. devices_on_network (x_world x) network)) (\<lambda>indices.
         bind (batch_collect kb actor (as_i32 p) name_hash slot field indices) (\<lambda>values.
         bind (lift_result (aggregate values mode)) (\<lambda>result.
         on_cpu (write_operand op 0 result)))))))))))"

definition batch_write ::
  "knowledge_base \<Rightarrow> effect_actor \<Rightarrow> i32 \<Rightarrow> i32 option \<Rightarrow> usize option \<Rightarrow> string \<Rightarrow> f64 \<Rightarrow> usize \<Rightarrow> unit exec_prog" where
  "batch_write kb actor prefab_hash name_hash slot field stored index =
     bind (x_device index) (\<lambda>d.
     if \<not> batch_matches prefab_hash name_hash d then ret ()
     else
       (case slot of
          Some slot \<Rightarrow>
            (case bt_get (dv_slots d) slot of
               Some fs \<Rightarrow> x_write_slot actor index d slot fs field stored
             | None \<Rightarrow> ret ())
        | None \<Rightarrow> x_write_field kb actor index None field stored))"

definition execute_batch_store :: "knowledge_base \<Rightarrow> effect_actor \<Rightarrow> operation \<Rightarrow> unit exec_prog" where
  "execute_batch_store kb actor op =
     bind (on_cpu (operand_value kb op 0)) (\<lambda>p.
     bind (on_cpu (batch_name kb op (o_mnemonic op = ''sbn'') 1)) (\<lambda>(name_hash, cursor).
     bind (on_cpu (batch_slot kb op (o_mnemonic op = ''sbs'') cursor)) (\<lambda>(slot, cursor).
     bind (x_logic_name kb op cursor) (\<lambda>field.
     bind (on_cpu (operand_value kb op (cursor + 1))) (\<lambda>stored.
     bind data_network (\<lambda>network.
     bind (gets (\<lambda>x. devices_on_network (x_world x) network)) (\<lambda>targets.
     for_each targets (batch_write kb actor (as_i32 p) name_hash slot field stored))))))))"

section \<open>The instruction set\<close>

text \<open>Instructions that only touch the CPU; \<open>None\<close> where the mnemonic is not one of them.\<close>

definition exec_arithmetic :: "libm \<Rightarrow> knowledge_base \<Rightarrow> operation \<Rightarrow> (unit cpu_prog) option" where
  "exec_arithmetic lm kb op =
     (let m = o_mnemonic op
      in if m = ''move'' then Some (bind (operand_value kb op 1) (write_operand op 0))
         else case binary_function lm m of Some f \<Rightarrow> Some (exec_binary kb op f) | None \<Rightarrow>
         case unary_function lm m of Some f \<Rightarrow> Some (exec_unary kb op f) | None \<Rightarrow>
         case bitwise_function m of Some f \<Rightarrow> Some (exec_bitwise_binary kb op f) | None \<Rightarrow>
         case selection_binary_test m of Some p \<Rightarrow> Some (exec_selection_binary kb op p) | None \<Rightarrow>
         case selection_unary_test m of Some p \<Rightarrow> Some (exec_selection_unary kb op p) | None \<Rightarrow>
         case shift_function m of Some f \<Rightarrow> Some (exec_binary kb op f) | None \<Rightarrow> None)"

definition exec_ternary ::
  "knowledge_base \<Rightarrow> operation \<Rightarrow> (f64 \<Rightarrow> f64 \<Rightarrow> f64 \<Rightarrow> f64) \<Rightarrow> unit cpu_prog" where
  "exec_ternary kb op f =
     bind (operand_value kb op 1) (\<lambda>a. bind (operand_value kb op 2) (\<lambda>b. bind (operand_value kb op 3) (\<lambda>c.
       write_operand op 0 (f a b c))))"

definition exec_rand :: "operation \<Rightarrow> unit cpu_prog" where
  "exec_rand op =
     bind (gets (\<lambda>c. xorshift (c_random_state c))) (\<lambda>r.
     bind (modify (cpu_write_random_state r)) (\<lambda>_. write_operand op 0 (random_unit r)))"

definition exec_ins :: "knowledge_base \<Rightarrow> operation \<Rightarrow> unit cpu_prog" where
  "exec_ins kb op =
     bind (bind (operand op 0) register_index) (\<lambda>target_index.
     bind (operand_value kb op 1) (\<lambda>source.
     bind (operand_value kb op 2) (\<lambda>start.
     bind (operand_value kb op 3) (\<lambda>len.
     bind (cpu_read_register target_index) (\<lambda>target.
     cpu_write_register target_index
       (f64_of_u64 (insert_bits (as_u64 target) (as_u64 source) (as_u32 start) (as_u32 len))))))))"

definition exec_select :: "knowledge_base \<Rightarrow> operation \<Rightarrow> unit cpu_prog" where
  "exec_select kb op =
     bind (operand_value kb op 1) (\<lambda>condition.
     bind (operand_value kb op (if f64_ne condition f64_zero then 2 else 3)) (\<lambda>selected.
     write_operand op 0 selected))"

definition exec_jump :: "knowledge_base \<Rightarrow> operation \<Rightarrow> unit cpu_prog" where
  "exec_jump kb op =
     bind (if o_mnemonic op = ''jal'' then cpu_write_register return_address_register (f64_of_nat (o_line op + 1))
           else ret ()) (\<lambda>_.
     bind (operand_value kb op 0) (\<lambda>target.
     bind (lift_result (if o_mnemonic op = ''jr'' then relative_target (o_line op) target else line_target target)) (\<lambda>pc.
     modify (cpu_write_pc pc))))"

definition exec_local :: "knowledge_base \<Rightarrow> u64 \<Rightarrow> operation \<Rightarrow> (unit cpu_prog) option" where
  "exec_local kb tick op =
     (let m = o_mnemonic op
      in if m = ''clamp'' then Some (exec_ternary kb op clamp_value)
         else if m = ''lerp'' then Some (exec_ternary kb op lerp_value)
         else if m = ''rand'' then Some (exec_rand op)
         else if m = ''not'' then Some (exec_unary kb op (\<lambda>v. f64_of_i64 (NOT (as_i64 v))))
         else if m = ''ext'' then
           Some (exec_ternary kb op (\<lambda>v s n. f64_of_u64 (extract_bits (as_u64 v) (as_u32 s) (as_u32 n))))
         else if m = ''ins'' then Some (exec_ins kb op)
         else if m = ''select'' then Some (exec_select kb op)
         else if m = ''sap'' then Some (exec_ternary kb op (\<lambda>a b t. bool_value (approximately a b t)))
         else if m = ''sna'' then Some (exec_ternary kb op (\<lambda>a b t. bool_value (\<not> approximately a b t)))
         else if m = ''sapz'' then Some (exec_binary kb op (\<lambda>a t. bool_value (approximately a f64_zero t)))
         else if m = ''snaz'' then Some (exec_binary kb op (\<lambda>a t. bool_value (\<not> approximately a f64_zero t)))
         else if m \<in> {''j'', ''jal'', ''jr''} then Some (exec_jump kb op)
         else if is_comparison_branch m then Some (execute_comparison_branch kb op)
         else if m \<in> {''bnan'', ''brnan''} then
           Some (bind (operand_value kb op 0) (\<lambda>v.
             if is_nan v
             then bind (operand_value kb op 1) (\<lambda>target. branch_to op target (starts_with ''br'' m) False)
             else ret ()))
         else if m \<in> {''bap'', ''bapal'', ''bna'', ''bnaal'', ''brap'', ''brna''} then
           Some (bind (operand_value kb op 0) (\<lambda>a. bind (operand_value kb op 1) (\<lambda>b. bind (operand_value kb op 2) (\<lambda>t.
             branch_if kb op (if contains ''bna'' m \<or> m = ''brna''
                              then \<not> approximately a b t else approximately a b t)))))
         else if m \<in> {''bapz'', ''bapzal'', ''bnaz'', ''bnazal'', ''brapz'', ''brnaz''} then
           Some (bind (operand_value kb op 0) (\<lambda>a. bind (operand_value kb op 1) (\<lambda>t.
             branch_if kb op (if contains ''bnaz'' m \<or> m = ''brnaz''
                              then \<not> approximately a f64_zero t else approximately a f64_zero t))))
         else if m = ''push'' then Some (exec_push kb op)
         else if m = ''pop'' then Some (exec_pop op)
         else if m = ''peek'' then Some (exec_peek op)
         else if m = ''poke'' then Some (exec_poke kb op)
         else if m = ''yield'' then Some (modify (cpu_write_state (WaitingUntil (tick + 1))))
         else if m = ''sleep'' then
           Some (bind (operand_value kb op 0) (\<lambda>v. modify (cpu_write_state (WaitingUntil (tick + sleep_ticks v)))))
         else if m = ''hcf'' then Some (modify (cpu_write_state Halted))
         else if m = ''label'' then Some (ret ())
         else if m \<in> {''lr'', ''rmap''} then Some (throw (NeedsBehaviourModel m))
         else None)"

definition exec_load :: "knowledge_base \<Rightarrow> effect_actor \<Rightarrow> operation \<Rightarrow> unit exec_prog" where
  "exec_load kb actor op =
     bind (x_device_reference kb op 1) (\<lambda>target.
     bind (x_logic_name kb op 2) (\<lambda>field.
     bind (x_read_field kb actor (dr_device target) (dr_connection target) field) (\<lambda>loaded.
     on_cpu (write_operand op 0 loaded))))"

definition exec_store :: "knowledge_base \<Rightarrow> effect_actor \<Rightarrow> operation \<Rightarrow> unit exec_prog" where
  "exec_store kb actor op =
     bind (x_device_reference kb op 0) (\<lambda>target.
     bind (x_logic_name kb op 1) (\<lambda>field.
     bind (on_cpu (operand_value kb op 2)) (\<lambda>stored.
     x_write_field kb actor (dr_device target) (dr_connection target) field stored)))"

definition exec_load_direct :: "knowledge_base \<Rightarrow> effect_actor \<Rightarrow> operation \<Rightarrow> unit exec_prog" where
  "exec_load_direct kb actor op =
     bind (on_cpu (operand_value kb op 1)) (\<lambda>v.
     bind (x_reference (as_i32 v)) (\<lambda>target.
     bind (x_logic_name kb op 2) (\<lambda>field.
     bind (x_read_field kb actor target None field) (\<lambda>loaded.
     on_cpu (write_operand op 0 loaded)))))"

definition exec_store_direct :: "knowledge_base \<Rightarrow> effect_actor \<Rightarrow> operation \<Rightarrow> unit exec_prog" where
  "exec_store_direct kb actor op =
     bind (on_cpu (operand_value kb op 0)) (\<lambda>v.
     bind (x_reference (as_i32 v)) (\<lambda>target.
     bind (x_logic_name kb op 1) (\<lambda>field.
     bind (on_cpu (operand_value kb op 2)) (\<lambda>stored.
     x_write_field kb actor target None field stored))))"

definition exec_device_branch :: "knowledge_base \<Rightarrow> operation \<Rightarrow> unit exec_prog" where
  "exec_device_branch kb op =
     bind (attempt (x_device_reference kb op 0)) (\<lambda>target.
     on_cpu (branch_if kb op (if contains ''dns'' (o_mnemonic op) then target = None else target \<noteq> None)))"

definition exec_valid_branch :: "knowledge_base \<Rightarrow> effect_actor \<Rightarrow> operation \<Rightarrow> unit exec_prog" where
  "exec_valid_branch kb actor op =
     bind (attempt (x_device_reference kb op 0)) (\<lambda>target.
     bind (attempt (x_logic_name kb op 1)) (\<lambda>field.
     bind (case (target, field) of
             (Some target, Some field) \<Rightarrow>
               if o_mnemonic op = ''bdnvl''
               then bind (attempt (x_read_field kb actor (dr_device target) (dr_connection target) field))
                      (\<lambda>r. ret (r \<noteq> None))
               else bind (x_device (dr_device target)) (\<lambda>d.
                    ret (case Option.bind (device_by_name kb (dv_prefab d)) (\<lambda>info. bt_get (di_logic_types info) field) of
                           Some access \<Rightarrow> la_write access | None \<Rightarrow> False))
           | _ \<Rightarrow> ret False) (\<lambda>valid.
     if \<not> valid
     then bind (on_cpu (operand_value kb op 2)) (\<lambda>target. on_cpu (branch_to op target False False))
     else ret ())))"

definition exec_device_set :: "knowledge_base \<Rightarrow> operation \<Rightarrow> unit exec_prog" where
  "exec_device_set kb op =
     bind (attempt (x_device_reference kb op 1)) (\<lambda>target.
     on_cpu (write_operand op 0 (bool_value (if o_mnemonic op = ''sdns'' then target = None else target \<noteq> None))))"

definition exec_world :: "knowledge_base \<Rightarrow> effect_actor \<Rightarrow> operation \<Rightarrow> (unit exec_prog) option" where
  "exec_world kb actor op =
     (let m = o_mnemonic op
      in if m \<in> {''get'', ''put'', ''clr''} then Some (execute_memory kb actor op False)
         else if m \<in> {''getd'', ''putd'', ''clrd''} then Some (execute_memory kb actor op True)
         else if m = ''l'' then Some (exec_load kb actor op)
         else if m = ''s'' then Some (exec_store kb actor op)
         else if m = ''ld'' then Some (exec_load_direct kb actor op)
         else if m = ''sd'' then Some (exec_store_direct kb actor op)
         else if m \<in> {''lb'', ''lbn'', ''lbs'', ''lbns''} then Some (execute_batch_load kb actor op)
         else if m \<in> {''sb'', ''sbn'', ''sbs''} then Some (execute_batch_store kb actor op)
         else if m \<in> {''ls'', ''ss''} then Some (execute_slot kb actor op)
         else if m \<in> {''bdns'', ''bdnsal'', ''brdns'', ''bdse'', ''bdseal'', ''brdse''} then Some (exec_device_branch kb op)
         else if m \<in> {''bdnvl'', ''bdnvs''} then Some (exec_valid_branch kb actor op)
         else if m \<in> {''sdns'', ''sdse''} then Some (exec_device_set kb op)
         else None)"

definition execute_operation ::
  "libm \<Rightarrow> knowledge_base \<Rightarrow> u64 \<Rightarrow> operation \<Rightarrow> effect_actor \<Rightarrow> unit exec_prog" where
  "execute_operation lm kb tick op actor =
     bind (on_cpu (modify (cpu_write_pc (o_line op + 1)))) (\<lambda>_.
     case exec_arithmetic lm kb op of
       Some m \<Rightarrow> on_cpu m
     | None \<Rightarrow>
         (case exec_local kb tick op of
            Some m \<Rightarrow> on_cpu m
          | None \<Rightarrow>
              (case exec_world kb actor op of
                 Some m \<Rightarrow> m
               | None \<Rightarrow> throw (NotImplemented (o_mnemonic op)))))"

end
