(* ===== verification/Vm.thy ===== *)
theory Vm
  imports Cpu
begin

text \<open>
  The language-neutral scheduler vocabulary of \<open>crates/ic10-sim/src/vm.rs\<close>: the execution states and
  lifecycle views of a virtual machine, the adapters of the two languages, the schedule planned from
  a scenario (\<open>crates/ic10-sim/src/scenario.rs\<close>), and the snapshot payloads. The trait \<open>VmHost\<close>, through
  which the scheduler reaches the machines, is the locale \<open>vm_host\<close>.
\<close>

section \<open>Scenarios\<close>

datatype program_language = LangIc10 | LangLua

record program_spec =
  ps_id :: string
  ps_path :: string
  ps_language :: program_language

record scenario =
  sc_schema_version :: u32
  sc_game_version :: "string option"
  sc_networks :: "network_spec list"
  sc_devices :: "device_spec list"
  sc_programs :: "program_spec list"

section \<open>Execution states\<close>

datatype vm_state = VmReady | VmWaitingUntil u64 | VmHalted | VmFaulted

fun runnable_at :: "vm_state \<Rightarrow> u64 \<Rightarrow> bool" where
  "runnable_at VmReady tick \<longleftrightarrow> True"
| "runnable_at (VmWaitingUntil wake) tick \<longleftrightarrow> wake \<le> tick"
| "runnable_at VmHalted tick \<longleftrightarrow> False"
| "runnable_at VmFaulted tick \<longleftrightarrow> False"

record vm_source_location =
  vl_runtime_index :: usize
  vl_line :: usize

record vm_lifecycle =
  lc_state :: vm_state
  lc_current_location :: "vm_source_location option"
  lc_operations_this_tick :: u32
  lc_operation_budget :: u32

definition can_step :: "vm_lifecycle \<Rightarrow> u64 \<Rightarrow> bool" where
  "can_step l tick \<longleftrightarrow> runnable_at (lc_state l) tick \<and> lc_operations_this_tick l < lc_operation_budget l"

definition retains_slot :: "vm_lifecycle \<Rightarrow> bool" where
  "retains_slot l \<longleftrightarrow> lc_state l = VmReady \<and> lc_operations_this_tick l < lc_operation_budget l"

definition vm_is_finished :: "vm_lifecycle \<Rightarrow> bool" where
  "vm_is_finished l \<longleftrightarrow> lc_state l \<in> {VmHalted, VmFaulted}"

fun vm_state_of :: "cpu_state \<Rightarrow> vm_state" where
  "vm_state_of Ready = VmReady"
| "vm_state_of (WaitingUntil wake) = VmWaitingUntil wake"
| "vm_state_of Halted = VmHalted"
| "vm_state_of CpuFault = VmFaulted"

fun cpu_state_of :: "vm_state \<Rightarrow> cpu_state" where
  "cpu_state_of VmReady = Ready"
| "cpu_state_of (VmWaitingUntil wake) = WaitingUntil wake"
| "cpu_state_of VmHalted = Halted"
| "cpu_state_of VmFaulted = CpuFault"

definition lifecycle :: "usize \<Rightarrow> cpu_state \<Rightarrow> usize option \<Rightarrow> u32 \<Rightarrow> u32 \<Rightarrow> vm_lifecycle" where
  "lifecycle cpu_index state line operations budget =
     \<lparr>lc_state = vm_state_of state,
      lc_current_location = map_option (\<lambda>line. \<lparr>vl_runtime_index = cpu_index, vl_line = line\<rparr>) line,
      lc_operations_this_tick = operations, lc_operation_budget = budget\<rparr>"

section \<open>Step results\<close>

record step_event =
  se_cpu :: usize
  se_line :: usize
  se_state :: cpu_state

record vm_step_result =
  sr_location :: vm_source_location
  sr_state :: vm_state

definition into_ic10_event :: "vm_step_result \<Rightarrow> step_event" where
  "into_ic10_event r =
     \<lparr>se_cpu = vl_runtime_index (sr_location r), se_line = vl_line (sr_location r), se_state = cpu_state_of (sr_state r)\<rparr>"

definition step_result :: "step_event \<Rightarrow> vm_step_result" where
  "step_result e =
     \<lparr>sr_location = \<lparr>vl_runtime_index = se_cpu e, vl_line = se_line e\<rparr>, sr_state = vm_state_of (se_state e)\<rparr>"

section \<open>Snapshots\<close>

record ic10_runtime_snapshot =
  is_registers :: "f64 list"
  is_stack :: "f64 list"
  is_pins :: "usize option list"
  is_pc :: usize
  is_state :: cpu_state
  is_error :: "exec_error option"
  is_operations_this_tick :: u32
  is_random_state :: u64

record lua_frame_status =
  lf_name :: string
  lf_source_path :: string
  lf_line :: usize

record lua_variable_status =
  lv_name :: string
  lv_value :: string
  lv_type_name :: string

record lua_runtime_snapshot =
  lr_invocations :: u64
  lr_faulted :: bool
  lr_error :: "string option"
  lr_operations_this_tick :: u32
  lr_output :: "string list"
  lr_current_line :: usize
  lr_state :: vm_state
  lr_frames :: "lua_frame_status list"
  lr_locals :: "lua_variable_status list"
  lr_current_source_path :: string

datatype vm_runtime_snapshot = SnapIc10 ic10_runtime_snapshot | SnapLua lua_runtime_snapshot

section \<open>Adapters and schedules\<close>

datatype vm_adapter = AdapterIc10 usize | AdapterLua usize

datatype schedule_error = UnknownProgram string string | NoProgramPath string

text \<open>The language of a device's program; \<open>None\<close> for a device without one.\<close>

definition device_language :: "scenario \<Rightarrow> device_spec \<Rightarrow> (schedule_error, program_language option) outcome" where
  "device_language sc d =
     (case ds_program d of
        Some program_id \<Rightarrow>
          obind (o_ok_or (UnknownProgram (ds_id d) program_id) (find (\<lambda>p. ps_id p = program_id) (sc_programs sc)))
            (\<lambda>p. Ok (Some (ps_language p)))
      | None \<Rightarrow>
          (case ds_ic d of
             Some ic \<Rightarrow> obind (o_ok_or (NoProgramPath (ds_id d)) (ic_program ic)) (\<lambda>_. Ok (Some LangIc10))
           | None \<Rightarrow> Ok None))"

definition plan_device ::
  "scenario \<Rightarrow> device_spec \<Rightarrow> vm_adapter list \<times> usize \<times> usize \<Rightarrow> (schedule_error, vm_adapter list \<times> usize \<times> usize) outcome" where
  "plan_device sc d = (\<lambda>(slots, next_cpu, next_lua).
     obind (device_language sc d) (\<lambda>language.
     case language of
       None \<Rightarrow> Ok (slots, next_cpu, next_lua)
     | Some LangIc10 \<Rightarrow> Ok (slots @ [AdapterIc10 next_cpu], next_cpu + 1, next_lua)
     | Some LangLua \<Rightarrow> Ok (slots @ [AdapterLua next_lua], next_cpu, next_lua + 1)))"

definition schedule_plan :: "scenario \<Rightarrow> (schedule_error, vm_adapter list) outcome" where
  "schedule_plan sc = obind (ofold (plan_device sc) (sc_devices sc) ([], 0, 0)) (\<lambda>(slots, _, _). Ok slots)"

fun adapter_language :: "vm_adapter \<Rightarrow> program_language" where
  "adapter_language (AdapterIc10 _) = LangIc10"
| "adapter_language (AdapterLua _) = LangLua"

text \<open>The machine numbers in a schedule, by language.\<close>

definition ic10_indices :: "vm_adapter list \<Rightarrow> usize list" where
  "ic10_indices slots = List.map_filter (\<lambda>a. case a of AdapterIc10 i \<Rightarrow> Some i | _ \<Rightarrow> None) slots"

definition lua_indices :: "vm_adapter list \<Rightarrow> usize list" where
  "lua_indices slots = List.map_filter (\<lambda>a. case a of AdapterLua i \<Rightarrow> Some i | _ \<Rightarrow> None) slots"

text \<open>A scenario with four devices and two programs.\<close>

definition sample_scenario :: scenario where
  "sample_scenario =
     \<lparr>sc_schema_version = 1, sc_game_version = None, sc_networks = [],
      sc_devices = [sample_spec\<lparr>ds_program := Some ''b''\<rparr>, sample_spec, sample_spec\<lparr>ds_program := Some ''a''\<rparr>,
                    sample_spec\<lparr>ds_program := Some ''b''\<rparr>],
      sc_programs = [\<lparr>ps_id = ''a'', ps_path = ''a.ic10'', ps_language = LangIc10\<rparr>,
                     \<lparr>ps_id = ''b'', ps_path = ''b.lua'', ps_language = LangLua\<rparr>]\<rparr>"

section \<open>The host interface\<close>

text \<open>
  What the scheduler and the debugger rely on when they checkpoint through \<open>VmHost\<close>: a snapshot of a
  machine can be restored into the host, restoring gives that machine the snapshot back, and it does
  not disturb the snapshots of the other machines.
\<close>

locale vm_host =
  fixes snapshot :: "'i \<Rightarrow> 's \<Rightarrow> 'p option"
    and restore :: "'i \<Rightarrow> 'p \<Rightarrow> ('s, 'e, unit) prog"
    and fits :: "'i \<Rightarrow> 'p \<Rightarrow> 's \<Rightarrow> bool"
  assumes restore_ok: "fits i p s \<Longrightarrow> fst (restore i p s) = Ok ()"
    and snapshot_restore: "fits i p s \<Longrightarrow> snapshot i (snd (restore i p s)) = Some p"
    and restore_other: "fits i p s \<Longrightarrow> j \<noteq> i \<Longrightarrow> snapshot j (snd (restore i p s)) = snapshot j s"
    and restore_fits: "fits i p s \<Longrightarrow> fits j q (snd (restore i p s)) = fits j q s"
begin

lemma restore_all:
  assumes "distinct (map fst ips)" "\<forall>(i, p) \<in> set ips. fits i p s"
  shows "\<exists>s'. for_each ips (\<lambda>(i, p). restore i p) s = (Ok (), s') \<and>
    (\<forall>(i, p) \<in> set ips. snapshot i s' = Some p) \<and>
    (\<forall>j. j \<notin> fst ` set ips \<longrightarrow> snapshot j s' = snapshot j s)"
  using assms
proof (induction ips arbitrary: s)
  case (Cons ip ips)
  obtain i p where ip: "ip = (i, p)" by fastforce
  obtain s1 where s1: "restore i p s = (Ok (), s1)"
    using restore_ok [of i p s] Cons.prems(2) ip by (cases "restore i p s") auto
  have fit: "fits i p s" using Cons.prems(2) ip by auto
  then have "\<forall>(j, q) \<in> set ips. fits j q s1" using Cons.prems(2) restore_fits [OF fit] s1 by auto
  then obtain s' where s': "for_each ips (\<lambda>(i, p). restore i p) s1 = (Ok (), s')"
    "\<forall>(i, p) \<in> set ips. snapshot i s' = Some p" "\<forall>j. j \<notin> fst ` set ips \<longrightarrow> snapshot j s' = snapshot j s1"
    using Cons.IH [of s1] Cons.prems(1) ip by auto
  have "snapshot i s' = Some p" using s'(3) snapshot_restore [OF fit] s1 Cons.prems(1) ip by auto
  moreover have "snapshot j s' = snapshot j s" if "j \<noteq> i" "j \<notin> fst ` set ips" for j
    using s'(3) restore_other [OF fit that(1)] s1 that(2) by simp
  ultimately show ?case using s1 s' ip by (auto simp: prog_simps)
qed (simp add: prog_simps)

end

section \<open>Lemmas\<close>

lemma vm_cpu_state_inverse [simp]: "cpu_state_of (vm_state_of s) = s" "vm_state_of (cpu_state_of v) = v"
  by (cases s, simp_all) (cases v, simp_all)

lemma into_event_step_result [simp]: "into_ic10_event (step_result e) = e"
  by (simp add: into_ic10_event_def step_result_def)

lemma plan_devices:
  assumes "ofold (plan_device sc) ds (slots0, c0, l0) = Ok (slots, c, l)"
  shows "\<exists>new. slots = slots0 @ new \<and> map Ok (map Some (map adapter_language new)) = filter (\<lambda>r. r \<noteq> Ok None) (map (device_language sc) ds) \<and>
    ic10_indices new = [c0..<c] \<and> lua_indices new = [l0..<l] \<and> c0 \<le> c \<and> l0 \<le> l"
  using assms
proof (induction ds arbitrary: slots0 c0 l0)
  case (Cons d ds)
  from Cons.prems obtain lang where lang: "device_language sc d = Ok lang" by (auto simp: obind_eq_Ok plan_device_def)
  show ?case
  proof (cases lang)
    case None
    then show ?thesis using Cons.IH [of slots0 c0 l0] Cons.prems lang by (simp add: plan_device_def)
  next
    case (Some language)
    show ?thesis
    proof (cases language)
      case LangIc10
      then obtain new where "slots = (slots0 @ [AdapterIc10 c0]) @ new"
        "map Ok (map Some (map adapter_language new)) = filter (\<lambda>r. r \<noteq> Ok None) (map (device_language sc) ds)"
        "ic10_indices new = [c0 + 1..<c]" "lua_indices new = [l0..<l]" "c0 + 1 \<le> c" "l0 \<le> l"
        using Cons.IH [of "slots0 @ [AdapterIc10 c0]" "c0 + 1" l0] Cons.prems lang Some by (auto simp: plan_device_def)
      then show ?thesis using lang Some LangIc10
        by (intro exI [of _ "AdapterIc10 c0 # new"]) (simp add: upt_conv_Cons ic10_indices_def lua_indices_def)
    next
      case LangLua
      then obtain new where "slots = (slots0 @ [AdapterLua l0]) @ new"
        "map Ok (map Some (map adapter_language new)) = filter (\<lambda>r. r \<noteq> Ok None) (map (device_language sc) ds)"
        "ic10_indices new = [c0..<c]" "lua_indices new = [l0 + 1..<l]" "c0 \<le> c" "l0 + 1 \<le> l"
        using Cons.IH [of "slots0 @ [AdapterLua l0]" c0 "l0 + 1"] Cons.prems lang Some by (auto simp: plan_device_def)
      then show ?thesis using lang Some LangLua
        by (intro exI [of _ "AdapterLua l0 # new"]) (simp add: upt_conv_Cons ic10_indices_def lua_indices_def)
    qed
  qed
qed (simp add: ic10_indices_def lua_indices_def)

section \<open>Properties\<close>

text \<open>The schedule follows the scenario: it has one slot per device with a program, in the order in which the
  devices are declared and with that program's language, and the machines of each language are numbered from zero
  without gaps or repetitions.\<close>

theorem schedule_plan_order:
  assumes "schedule_plan sc = Ok slots"
  shows "map (\<lambda>a. Ok (Some (adapter_language a))) slots = filter (\<lambda>r. r \<noteq> Ok None) (map (device_language sc) (sc_devices sc)) \<and>
    ic10_indices slots = [0..<length (ic10_indices slots)] \<and> lua_indices slots = [0..<length (lua_indices slots)]"
proof -
  obtain c l where "ofold (plan_device sc) (sc_devices sc) ([], 0, 0) = Ok (slots, c, l)"
    using assms by (auto simp: schedule_plan_def obind_eq_Ok)
  from plan_devices [OF this] show ?thesis by (auto simp: comp_def)
qed

theorem schedule_plan_order_witness:
  "\<exists>slots. schedule_plan sample_scenario = Ok slots \<and> ic10_indices slots = [0] \<and> lua_indices slots = [0, 1]"
proof -
  let ?slots = "[AdapterLua 0, AdapterIc10 0, AdapterLua 1]"
  have plan: "schedule_plan sample_scenario = Ok ?slots"
    by (simp add: schedule_plan_def plan_device_def device_language_def sample_scenario_def sample_spec_def o_ok_or_def)
  from schedule_plan_order [OF this] show ?thesis using plan by (auto simp: ic10_indices_def lua_indices_def)
qed

end
