(* ===== verification/Simulator.thy ===== *)
theory Simulator
  imports Execute Behaviour Vm
begin

text \<open>
  The simulator of \<open>crates/ic10-sim/src/simulator.rs\<close>: its state, one instruction of one IC, the
  implementation of \<open>VmHost\<close>, the scheduler that visits the machines in declaration order, the world
  tick, and checkpoints. The Lua interpreter is third-party code and enters as a parameter, the
  record \<open>lua_engine\<close>; what \<open>crates/ic10-sim/src/lua.rs\<close> does around a resumption (the
  \<open>LuaProgramRuntime\<close> methods the scheduler calls) is modelled.
\<close>

section \<open>Lua programs\<close>

datatype lua_status = ResumeFailed string | ThreadFinished | ThreadResumable | ThreadStopped

text \<open>
  What one resumption of the coroutine leaves behind: the interpreter, the host world it worked on,
  the host's log, the captured output lines, the debugger's view of the position, and the outcome.
\<close>

record 'vm lua_resumption =
  rs_vm :: 'vm
  rs_world :: world
  rs_logs :: "string list"
  rs_lines :: "string list"
  rs_current_line :: usize
  rs_frames :: "lua_frame_status list"
  rs_locals :: "lua_variable_status list"
  rs_source_path :: string
  rs_status :: lua_status

record 'vm lua_engine =
  eng_resume :: "'vm \<Rightarrow> world \<Rightarrow> bool \<Rightarrow> string list \<Rightarrow> 'vm lua_resumption"
  eng_fresh_thread :: "'vm \<Rightarrow> string + 'vm"

record 'vm lua_runtime =
  l_id :: string
  l_program_id :: string
  l_source_path :: string
  l_housing :: usize
  l_host_world :: world
  l_logs :: "string list"
  l_vm :: 'vm
  l_current_line :: usize
  l_line_yield :: bool
  l_frames :: "lua_frame_status list"
  l_locals :: "lua_variable_status list"
  l_current_source_path :: string
  l_state :: vm_state
  l_invocations :: u64
  l_faulted :: bool
  l_error :: "string option"
  l_operations_this_tick :: u32

definition saturating_succ :: "u64 \<Rightarrow> u64" where
  "saturating_succ tick = (if tick = -1 then tick else tick + 1)"

definition lua_resume_once :: "'vm lua_engine \<Rightarrow> u64 \<Rightarrow> ('vm lua_runtime, string, unit) prog" where
  "lua_resume_once eng tick =
     bind (gets (\<lambda>r. eng_resume eng (l_vm r) (l_host_world r) (l_line_yield r) (l_logs r))) (\<lambda>x.
     bind (modify (\<lambda>r. r\<lparr>l_vm := rs_vm x, l_host_world := rs_world x, l_logs := rs_logs x,
                         l_current_line := rs_current_line x, l_frames := rs_frames x, l_locals := rs_locals x,
                         l_current_source_path := rs_source_path x\<rparr>)) (\<lambda>_.
     case rs_status x of
       ResumeFailed message \<Rightarrow> throw message
     | status \<Rightarrow>
         bind (modify (\<lambda>r. r\<lparr>l_logs := l_logs r @ rs_lines x, l_invocations := l_invocations r + 1,
                             l_operations_this_tick := 1\<rparr>)) (\<lambda>_.
         case status of
           ThreadFinished \<Rightarrow>
             bind (lift_result (eng_fresh_thread eng (rs_vm x))) (\<lambda>vm.
             modify (\<lambda>r. r\<lparr>l_vm := vm, l_state := VmWaitingUntil (saturating_succ tick)\<rparr>))
         | ThreadResumable \<Rightarrow> modify (\<lambda>r. r\<lparr>l_state := VmWaitingUntil (saturating_succ tick)\<rparr>)
         | _ \<Rightarrow> modify (\<lambda>r. r\<lparr>l_state := VmFaulted\<rparr>))))"

text \<open>\<open>LuaProgramRuntime::step\<close>: the world comes back only when the resumption succeeds.\<close>

definition lua_runtime_step :: "'vm lua_engine \<Rightarrow> u64 \<Rightarrow> world \<Rightarrow> ('vm lua_runtime, string, world) prog" where
  "lua_runtime_step eng tick w =
     bind (modify (\<lambda>r. r\<lparr>l_host_world := w\<rparr>)) (\<lambda>_.
     bind (gets l_state) (\<lambda>state.
     if state \<noteq> VmReady then ret w
     else (\<lambda>r. case lua_resume_once eng tick r of
                 (Ok _, r) \<Rightarrow> (Ok (l_host_world r), r)
               | (Err message, r) \<Rightarrow> (Err message, r\<lparr>l_faulted := True, l_error := Some message\<rparr>)
               | (Panic, r) \<Rightarrow> (Panic, r))))"

definition lua_runtime_lifecycle :: "usize \<Rightarrow> 'vm lua_runtime \<Rightarrow> vm_lifecycle" where
  "lua_runtime_lifecycle runtime_index r =
     \<lparr>lc_state = l_state r,
      lc_current_location = Some \<lparr>vl_runtime_index = runtime_index, vl_line = l_current_line r\<rparr>,
      lc_operations_this_tick = l_operations_this_tick r, lc_operation_budget = 1\<rparr>"

definition lua_runtime_begin_tick :: "u64 \<Rightarrow> 'vm lua_runtime \<Rightarrow> 'vm lua_runtime" where
  "lua_runtime_begin_tick tick r =
     (let r = r\<lparr>l_operations_this_tick := 0\<rparr>
      in case l_state r of
           VmWaitingUntil wake \<Rightarrow> if wake \<le> tick then r\<lparr>l_state := VmReady\<rparr> else r
         | _ \<Rightarrow> r)"

definition lua_runtime_snapshot_of :: "'vm lua_runtime \<Rightarrow> lua_runtime_snapshot" where
  "lua_runtime_snapshot_of r =
     \<lparr>lr_invocations = l_invocations r, lr_faulted = l_faulted r, lr_error = l_error r,
      lr_operations_this_tick = l_operations_this_tick r, lr_output = l_logs r, lr_current_line = l_current_line r,
      lr_state = l_state r, lr_frames = l_frames r, lr_locals = l_locals r,
      lr_current_source_path = l_current_source_path r\<rparr>"

definition lua_runtime_restore :: "lua_runtime_snapshot \<Rightarrow> world \<Rightarrow> 'vm lua_runtime \<Rightarrow> 'vm lua_runtime" where
  "lua_runtime_restore snap w r =
     r\<lparr>l_host_world := w, l_invocations := lr_invocations snap, l_faulted := lr_faulted snap, l_error := lr_error snap,
       l_operations_this_tick := lr_operations_this_tick snap, l_current_line := lr_current_line snap,
       l_state := lr_state snap, l_frames := lr_frames snap, l_locals := lr_locals snap,
       l_current_source_path := lr_current_source_path snap, l_logs := lr_output snap\<rparr>"

section \<open>State\<close>

datatype sim_error =
    UnknownThread usize
  | NotRunnable string
  | ExecErr exec_error
  | BehaviourErr behaviour_error
  | LuaErr string
  | Ic10IndexOutOfRange
  | LuaIndexOutOfRange
  | SnapshotTypeMismatch
  | DifferentSimulation
  | UnsupportedVm
  | TargetOutOfRange string
  | UnknownDevice string
  | NoSuchField string string
  | TargetUnavailable string
  | InvalidCpuState

record 'vm simulator =
  s_knowledge :: knowledge_base
  s_world :: world
  s_cpus :: "cpu list"
  s_lua_programs :: "'vm lua_runtime list"
  s_tick :: u64
  s_compatibility_warnings :: "string list"
  s_schedule :: "vm_adapter list"
  s_scheduler_slot :: usize
  s_scheduler_error :: "sim_error option"
  s_behaviours :: behaviour_runtime
  s_driver_state :: "(string, u8 list) btree_map"
  s_journal :: effect_journal

record simulator_snapshot =
  ss_world :: world
  ss_runtimes :: "vm_runtime_snapshot list"
  ss_tick :: u64
  ss_scheduler_slot :: usize
  ss_scheduler_error :: "sim_error option"
  ss_behaviours :: behaviour_runtime
  ss_driver_state :: "(string, u8 list) btree_map"
  ss_journal_write_sequence :: u64

type_synonym ('vm, 'a) sim_prog = "('vm simulator, sim_error, 'a) prog"

definition s_cpu :: "usize \<Rightarrow> ('vm, cpu) sim_prog" where
  "s_cpu i = bind (gets (\<lambda>s. nth_opt (s_cpus s) i)) expect"

definition s_set_cpu :: "usize \<Rightarrow> cpu \<Rightarrow> 'vm simulator \<Rightarrow> 'vm simulator" where
  "s_set_cpu i c s = s\<lparr>s_cpus := (s_cpus s)[i := c]\<rparr>"

definition s_note :: "(effect_journal \<Rightarrow> effect_journal) \<Rightarrow> ('vm, unit) sim_prog" where
  "s_note f = modify (\<lambda>s. s\<lparr>s_journal := f (s_journal s)\<rparr>)"

definition s_intern :: "string \<Rightarrow> ('vm, symbol_id) sim_prog" where
  "s_intern name s = (case j_intern name (s_journal s) of (i, j) \<Rightarrow> (Ok i, s\<lparr>s_journal := j\<rparr>))"

text \<open>A field of a device set without access checks, as the scheduler does for the housing.\<close>

definition s_insert_field :: "usize \<Rightarrow> string \<Rightarrow> f64 \<Rightarrow> ('vm, unit) sim_prog" where
  "s_insert_field device name stored =
     bind (gets (\<lambda>s. nth_opt (w_devices (s_world s)) device)) (\<lambda>found.
     bind (expect found) (\<lambda>d.
     modify (\<lambda>s. s\<lparr>s_world := (s_world s)\<lparr>w_devices := (w_devices (s_world s))[device :=
                    d\<lparr>dv_fields := bt_insert name stored (dv_fields d)\<rparr>]\<rparr>\<rparr>)))"

text \<open>An instruction or a behaviour run on the parts of the simulator it borrows.\<close>

definition s_execute :: "libm \<Rightarrow> usize \<Rightarrow> operation \<Rightarrow> effect_actor \<Rightarrow> ('vm, exec_error option) sim_prog" where
  "s_execute lm i op actor s =
     (case nth_opt (s_cpus s) i of
        None \<Rightarrow> (Panic, s)
      | Some c \<Rightarrow>
          (case execute_operation lm (s_knowledge s) (s_tick s) op actor
                  \<lparr>x_cpu = c, x_world = s_world s, x_journal = s_journal s\<rparr> of
             (r, x) \<Rightarrow>
               (let s' = s\<lparr>s_cpus := (s_cpus s)[i := x_cpu x], s_world := x_world x, s_journal := x_journal x\<rparr>
                in (case r of Ok _ \<Rightarrow> Ok None | Err e \<Rightarrow> Ok (Some e) | Panic \<Rightarrow> Panic, s'))))"

definition on_behave :: "unit behave_prog \<Rightarrow> ('vm, unit) sim_prog" where
  "on_behave m s =
     (case m \<lparr>bh_runtime = s_behaviours s, bh_world = s_world s, bh_journal = s_journal s\<rparr> of
        (r, b) \<Rightarrow>
          (case r of Ok _ \<Rightarrow> Ok () | Err e \<Rightarrow> Err (BehaviourErr e) | Panic \<Rightarrow> Panic,
           s\<lparr>s_behaviours := bh_runtime b, s_world := bh_world b, s_journal := bh_journal b\<rparr>))"

section \<open>One instruction\<close>

definition notify_writes :: "(usize \<times> string \<times> f64 \<times> f64) list \<Rightarrow> behaviour_runtime \<Rightarrow> behaviour_runtime" where
  "notify_writes writes r = fold (\<lambda>(device, field, before, after). notify_field_write device field before after) writes r"

definition deliver_field_writes :: "'vm simulator \<Rightarrow> 'vm simulator" where
  "deliver_field_writes s =
     (let (writes, w) = take_field_writes (s_world s)
      in s\<lparr>s_world := w, s_behaviours := notify_writes writes (s_behaviours s)\<rparr>)"

definition count_operation :: "usize \<Rightarrow> effect_actor \<Rightarrow> ('vm, unit) sim_prog" where
  "count_operation i actor =
     bind (s_cpu i) (\<lambda>c.
     bind (modify (s_set_cpu i (c\<lparr>c_operations_this_tick := c_operations_this_tick c + 1\<rparr>))) (\<lambda>_.
     s_note (j_write_bits actor (TCpuOperations i) (ucast (c_operations_this_tick c))
       (ucast (c_operations_this_tick c + 1)))))"

text \<open>\<open>self.journal.extend(cpu.take_effects())\<close>.\<close>

definition flush_effects :: "usize \<Rightarrow> ('vm, unit) sim_prog" where
  "flush_effects i =
     bind (s_cpu i) (\<lambda>c.
     (let (batch, c) = cpu_take_effects c
      in bind (modify (s_set_cpu i c)) (\<lambda>_. s_note (j_extend batch))))"

definition fault_cpu :: "usize \<Rightarrow> exec_error \<Rightarrow> ('vm, unit) sim_prog" where
  "fault_cpu i message =
     bind (s_cpu i) (\<lambda>c.
     bind (modify (s_set_cpu i ((cpu_write_state CpuFault c)\<lparr>c_error := Some message\<rparr>))) (\<lambda>_.
     s_insert_field (c_housing c) ''Error'' f64_one))"

definition run_operation :: "libm \<Rightarrow> usize \<Rightarrow> operation \<Rightarrow> ('vm, step_event) sim_prog" where
  "run_operation lm i op =
     bind (s_cpu i) (\<lambda>c.
     bind (s_intern (p_debug_source_path (c_program c))) (\<lambda>source.
     (let actor = ActorIc i source (o_line op)
      in bind (gets (\<lambda>s. j_enabled (s_journal s))) (\<lambda>enabled.
         bind (modify (s_set_cpu i (cpu_write_state Ready (cpu_write_pc (o_line op) (configure_journal enabled actor c))))) (\<lambda>_.
         bind (s_insert_field (c_housing c) ''LineNumber'' (f64_of_nat (o_line op))) (\<lambda>_.
         bind (s_execute lm i op actor) (\<lambda>failure.
         bind (modify deliver_field_writes) (\<lambda>_.
         bind (count_operation i actor) (\<lambda>_.
         case failure of
           Some message \<Rightarrow>
             bind (fault_cpu i message) (\<lambda>_.
             bind (flush_effects i) (\<lambda>_. throw (ExecErr message)))
         | None \<Rightarrow>
             bind (flush_effects i) (\<lambda>_.
             bind (s_cpu i) (\<lambda>c.
             ret \<lparr>se_cpu = i, se_line = o_line op, se_state = c_state c\<rparr>)))))))))))"

definition step_instruction :: "libm \<Rightarrow> usize \<Rightarrow> ('vm, step_event) sim_prog" where
  "step_instruction lm i =
     bind (gets (\<lambda>s. nth_opt (s_cpus s) i)) (\<lambda>found.
     bind (ok_or (UnknownThread (i + 1)) found) (\<lambda>c.
     if c_state c \<in> {Halted, CpuFault} then throw (NotRunnable (c_name c))
     else
       (case current_operation c of
          None \<Rightarrow>
            bind (modify (s_set_cpu i (c\<lparr>c_state := Halted\<rparr>))) (\<lambda>_.
            ret \<lparr>se_cpu = i, se_line = c_pc c, se_state = Halted\<rparr>)
        | Some op \<Rightarrow> run_operation lm i op)))"

section \<open>The host services\<close>

definition instruction_budget :: "'vm simulator \<Rightarrow> u32" where
  "instruction_budget s = maximum_instructions_per_tick (lang_architecture (language (s_knowledge s)))"

definition ic10_lifecycle :: "usize \<Rightarrow> ('vm, vm_lifecycle) sim_prog" where
  "ic10_lifecycle i =
     bind (gets (\<lambda>s. nth_opt (s_cpus s) i)) (\<lambda>found.
     bind (ok_or Ic10IndexOutOfRange found) (\<lambda>c.
     bind (gets instruction_budget) (\<lambda>budget.
     ret (lifecycle i (c_state c) (current_line c) (c_operations_this_tick c) budget))))"

definition ic10_step :: "libm \<Rightarrow> usize \<Rightarrow> ('vm, vm_step_result) sim_prog" where
  "ic10_step lm i = bind (step_instruction lm i) (\<lambda>e. ret (step_result e))"

definition ic10_halt :: "usize \<Rightarrow> ('vm, unit) sim_prog" where
  "ic10_halt i =
     bind (gets (\<lambda>s. nth_opt (s_cpus s) i)) (\<lambda>found.
     bind (ok_or Ic10IndexOutOfRange found) (\<lambda>c.
     bind (modify (s_set_cpu i (c\<lparr>c_state := Halted\<rparr>))) (\<lambda>_.
     s_note (j_write_bits ActorScheduler (TCpuState i) (cpu_state_bits (c_state c)) (cpu_state_bits Halted)))))"

definition ic10_begin_tick :: "usize \<Rightarrow> u64 \<Rightarrow> ('vm, unit) sim_prog" where
  "ic10_begin_tick i tick =
     bind (gets (\<lambda>s. nth_opt (s_cpus s) i)) (\<lambda>found.
     bind (ok_or Ic10IndexOutOfRange found) (\<lambda>c.
     (let c' = c\<lparr>c_operations_this_tick := 0\<rparr>
      in bind (modify (s_set_cpu i c')) (\<lambda>_.
         bind (s_note (j_write_bits ActorScheduler (TCpuOperations i) (ucast (c_operations_this_tick c)) 0)) (\<lambda>_.
         if (case c_state c of WaitingUntil wake \<Rightarrow> wake \<le> tick | _ \<Rightarrow> False)
         then bind (modify (s_set_cpu i (c'\<lparr>c_state := Ready\<rparr>))) (\<lambda>_.
              s_note (j_write_bits ActorScheduler (TCpuState i) (cpu_state_bits (c_state c)) (cpu_state_bits Ready)))
         else ret ())))))"

definition cpu_snapshot :: "cpu \<Rightarrow> ic10_runtime_snapshot" where
  "cpu_snapshot c =
     \<lparr>is_registers = c_registers c, is_stack = c_stack c, is_pins = c_pins c, is_pc = c_pc c, is_state = c_state c,
      is_error = c_error c, is_operations_this_tick = c_operations_this_tick c, is_random_state = c_random_state c\<rparr>"

definition cpu_restore :: "ic10_runtime_snapshot \<Rightarrow> cpu \<Rightarrow> cpu" where
  "cpu_restore snap c =
     c\<lparr>c_registers := is_registers snap, c_stack := is_stack snap, c_pins := is_pins snap, c_pc := is_pc snap,
       c_state := is_state snap, c_error := is_error snap, c_operations_this_tick := is_operations_this_tick snap,
       c_random_state := is_random_state snap\<rparr>"

definition ic10_restore :: "usize \<Rightarrow> ic10_runtime_snapshot \<Rightarrow> ('vm, unit) sim_prog" where
  "ic10_restore i snap =
     bind (gets (\<lambda>s. nth_opt (s_cpus s) i)) (\<lambda>found.
     bind (ok_or Ic10IndexOutOfRange found) (\<lambda>c. modify (s_set_cpu i (cpu_restore snap c))))"

definition s_lua :: "usize \<Rightarrow> ('vm, 'vm lua_runtime) sim_prog" where
  "s_lua i = bind (gets (\<lambda>s. nth_opt (s_lua_programs s) i)) (ok_or LuaIndexOutOfRange)"

definition s_set_lua :: "usize \<Rightarrow> 'vm lua_runtime \<Rightarrow> 'vm simulator \<Rightarrow> 'vm simulator" where
  "s_set_lua i r s = s\<lparr>s_lua_programs := (s_lua_programs s)[i := r]\<rparr>"

definition lua_lifecycle :: "usize \<Rightarrow> ('vm, vm_lifecycle) sim_prog" where
  "lua_lifecycle i =
     bind (s_lua i) (\<lambda>r.
     bind (gets (\<lambda>s. length (s_cpus s))) (\<lambda>n. ret (lua_runtime_lifecycle (n + i) r)))"

definition lua_step :: "'vm lua_engine \<Rightarrow> usize \<Rightarrow> ('vm, vm_step_result) sim_prog" where
  "lua_step eng i =
     bind (s_lua i) (\<lambda>r.
     bind (gets (\<lambda>s. (length (s_cpus s) + i, s_tick s, s_world s))) (\<lambda>(runtime_index, tick, w).
     case lua_runtime_step eng tick w r of
       (Ok w, r) \<Rightarrow>
         bind (modify (\<lambda>s. (s_set_lua i r s)\<lparr>s_world := w\<rparr>)) (\<lambda>_.
         ret \<lparr>sr_location = \<lparr>vl_runtime_index = runtime_index, vl_line = l_current_line r - 1\<rparr>, sr_state = l_state r\<rparr>)
     | (Err message, r) \<Rightarrow> bind (modify (s_set_lua i r)) (\<lambda>_. throw (LuaErr message))
     | (Panic, r) \<Rightarrow> panic))"

definition lua_halt :: "usize \<Rightarrow> ('vm, unit) sim_prog" where
  "lua_halt i = bind (s_lua i) (\<lambda>_. ret ())"

definition lua_begin_tick :: "usize \<Rightarrow> u64 \<Rightarrow> ('vm, unit) sim_prog" where
  "lua_begin_tick i tick = bind (s_lua i) (\<lambda>r. modify (s_set_lua i (lua_runtime_begin_tick tick r)))"

definition lua_restore :: "usize \<Rightarrow> lua_runtime_snapshot \<Rightarrow> ('vm, unit) sim_prog" where
  "lua_restore i snap =
     bind (s_lua i) (\<lambda>r. modify (\<lambda>s. s_set_lua i (lua_runtime_restore snap (s_world s) r) s))"

section \<open>Adapter dispatch\<close>

fun adapter_lifecycle :: "vm_adapter \<Rightarrow> ('vm, vm_lifecycle) sim_prog" where
  "adapter_lifecycle (AdapterIc10 i) = ic10_lifecycle i"
| "adapter_lifecycle (AdapterLua i) = lua_lifecycle i"

fun adapter_step :: "libm \<Rightarrow> 'vm lua_engine \<Rightarrow> vm_adapter \<Rightarrow> ('vm, vm_step_result) sim_prog" where
  "adapter_step lm eng (AdapterIc10 i) = ic10_step lm i"
| "adapter_step lm eng (AdapterLua i) = lua_step eng i"

fun adapter_halt :: "vm_adapter \<Rightarrow> ('vm, unit) sim_prog" where
  "adapter_halt (AdapterIc10 i) = ic10_halt i"
| "adapter_halt (AdapterLua i) = lua_halt i"

fun adapter_begin_tick :: "u64 \<Rightarrow> vm_adapter \<Rightarrow> ('vm, unit) sim_prog" where
  "adapter_begin_tick tick (AdapterIc10 i) = ic10_begin_tick i tick"
| "adapter_begin_tick tick (AdapterLua i) = lua_begin_tick i tick"

fun adapter_snapshot :: "vm_adapter \<Rightarrow> 'vm simulator \<Rightarrow> vm_runtime_snapshot option" where
  "adapter_snapshot (AdapterIc10 i) s = map_option (SnapIc10 \<circ> cpu_snapshot) (nth_opt (s_cpus s) i)"
| "adapter_snapshot (AdapterLua i) s = map_option (SnapLua \<circ> lua_runtime_snapshot_of) (nth_opt (s_lua_programs s) i)"

fun adapter_restore :: "vm_adapter \<Rightarrow> vm_runtime_snapshot \<Rightarrow> ('vm, unit) sim_prog" where
  "adapter_restore (AdapterIc10 i) (SnapIc10 snap) = ic10_restore i snap"
| "adapter_restore (AdapterLua i) (SnapLua snap) = lua_restore i snap"
| "adapter_restore _ _ = throw SnapshotTypeMismatch"

section \<open>The scheduler\<close>

definition set_scheduler_slot :: "usize \<Rightarrow> ('vm, unit) sim_prog" where
  "set_scheduler_slot slot =
     bind (gets s_scheduler_slot) (\<lambda>before.
     bind (modify (\<lambda>s. s\<lparr>s_scheduler_slot := slot\<rparr>)) (\<lambda>_.
     s_note (j_write_bits ActorScheduler TSchedulerCpu (of_nat before) (of_nat slot))))"

definition advance_tick :: "('vm, unit) sim_prog" where
  "advance_tick =
     bind (on_behave tick_end) (\<lambda>_.
     bind (gets s_tick) (\<lambda>before_tick.
     bind (modify (\<lambda>s. s\<lparr>s_tick := s_tick s + 1\<rparr>)) (\<lambda>_.
     bind (s_note (j_write_bits ActorScheduler TTick before_tick (before_tick + 1))) (\<lambda>_.
     bind (on_behave (tick_start (before_tick + 1))) (\<lambda>_.
     bind (set_scheduler_slot 0) (\<lambda>_.
     bind (gets s_schedule) (\<lambda>adapters.
     for_each adapters (adapter_begin_tick (before_tick + 1)))))))))"

text \<open>
  The loop of \<open>prepare_next_adapter\<close>. Every iteration that does not return moves the scheduler to the
  next slot, so the loop runs over the slots that are left; the list argument is what remains of the
  schedule from the current slot on.
\<close>

fun prepare_from :: "vm_adapter list \<Rightarrow> ('vm, (vm_adapter \<times> vm_source_location) option) sim_prog" where
  "prepare_from [] = bind advance_tick (\<lambda>_. ret None)"
| "prepare_from (adapter # rest) =
     bind (adapter_lifecycle adapter) (\<lambda>l.
     bind (gets (\<lambda>s. (s_tick s, s_scheduler_slot s))) (\<lambda>(tick, slot).
     if \<not> can_step l tick then bind (set_scheduler_slot (slot + 1)) (\<lambda>_. prepare_from rest)
     else
       (case lc_current_location l of
          None \<Rightarrow>
            bind (adapter_halt adapter) (\<lambda>_.
            bind (set_scheduler_slot (slot + 1)) (\<lambda>_. prepare_from rest))
        | Some location \<Rightarrow> ret (Some (adapter, location)))))"

definition prepare_next_adapter :: "('vm, (vm_adapter \<times> vm_source_location) option) sim_prog" where
  "prepare_next_adapter =
     bind (gets (\<lambda>s. drop (s_scheduler_slot s) (s_schedule s))) prepare_from"

definition step_adapter :: "libm \<Rightarrow> 'vm lua_engine \<Rightarrow> vm_adapter \<Rightarrow> ('vm, step_event option) sim_prog" where
  "step_adapter lm eng adapter =
     bind (adapter_step lm eng adapter) (\<lambda>result.
     bind (adapter_lifecycle adapter) (\<lambda>l.
     bind (gets s_scheduler_slot) (\<lambda>slot.
     bind (if retains_slot l then ret () else set_scheduler_slot (slot + 1)) (\<lambda>_.
     ret (Some (into_ic10_event result))))))"

definition scheduler_step :: "libm \<Rightarrow> 'vm lua_engine \<Rightarrow> ('vm, step_event option) sim_prog" where
  "scheduler_step lm eng =
     bind (gets s_scheduler_error) (\<lambda>pending.
     case pending of
       Some error \<Rightarrow> bind (modify (\<lambda>s. s\<lparr>s_scheduler_error := None\<rparr>)) (\<lambda>_. throw error)
     | None \<Rightarrow>
         bind prepare_next_adapter (\<lambda>prepared.
         case prepared of
           None \<Rightarrow> ret None
         | Some (adapter, _) \<Rightarrow> step_adapter lm eng adapter))"

definition next_scheduled_location :: "('vm, (usize \<times> usize) option) sim_prog" where
  "next_scheduled_location s =
     (case prepare_next_adapter s of
        (Ok (Some (_, location)), s) \<Rightarrow> (Ok (Some (vl_runtime_index location, vl_line location)), s)
      | (Ok None, s) \<Rightarrow> (Ok None, s)
      | (Err error, s) \<Rightarrow> (Ok None, s\<lparr>s_scheduler_error := Some error\<rparr>)
      | (Panic, s) \<Rightarrow> (Panic, s))"

text \<open>
  \<open>step_world_tick\<close>: the \<open>while\<close> loop with a bound on the number of iterations; \<open>None\<close> when the bound
  is too small.
\<close>

fun world_tick_loop ::
  "libm \<Rightarrow> 'vm lua_engine \<Rightarrow> nat \<Rightarrow> u64 \<Rightarrow> step_event list \<Rightarrow> 'vm simulator
     \<Rightarrow> ((sim_error, step_event list) outcome \<times> 'vm simulator) option" where
  "world_tick_loop lm eng 0 start events s = None"
| "world_tick_loop lm eng (Suc fuel) start events s =
     (if s_tick s \<noteq> start then Some (Ok events, s)
      else
        (case scheduler_step lm eng s of
           (Ok (Some e), s) \<Rightarrow> world_tick_loop lm eng fuel start (events @ [e]) s
         | (Ok None, s) \<Rightarrow> world_tick_loop lm eng fuel start events s
         | (Err error, s) \<Rightarrow> Some (Err error, s)
         | (Panic, s) \<Rightarrow> Some (Panic, s)))"

definition step_world_tick ::
  "libm \<Rightarrow> 'vm lua_engine \<Rightarrow> nat \<Rightarrow> 'vm simulator \<Rightarrow> ((sim_error, step_event list) outcome \<times> 'vm simulator) option" where
  "step_world_tick lm eng fuel s = world_tick_loop lm eng fuel (s_tick s) [] s"

definition sim_is_finished :: "'vm simulator \<Rightarrow> bool" where
  "sim_is_finished s =
     list_all (\<lambda>a. case fst (adapter_lifecycle a s) of Ok l \<Rightarrow> vm_is_finished l | _ \<Rightarrow> False) (s_schedule s)"

section \<open>Checkpoints\<close>

fun collect_snapshots :: "vm_adapter list \<Rightarrow> 'vm simulator \<Rightarrow> vm_runtime_snapshot list option" where
  "collect_snapshots [] s = Some []"
| "collect_snapshots (a # as) s =
     Option.bind (adapter_snapshot a s) (\<lambda>x. map_option (\<lambda>xs. x # xs) (collect_snapshots as s))"

definition sim_snapshot :: "('vm, simulator_snapshot) sim_prog" where
  "sim_snapshot =
     bind (gets (\<lambda>s. collect_snapshots (s_schedule s) s)) (\<lambda>collected.
     bind (expect collected) (\<lambda>runtimes.
     gets (\<lambda>s. \<lparr>ss_world = s_world s, ss_runtimes = runtimes, ss_tick = s_tick s,
                ss_scheduler_slot = s_scheduler_slot s, ss_scheduler_error = s_scheduler_error s,
                ss_behaviours = s_behaviours s, ss_driver_state = s_driver_state s,
                ss_journal_write_sequence = j_write_sequence (s_journal s)\<rparr>)))"

definition sim_restore :: "simulator_snapshot \<Rightarrow> ('vm, unit) sim_prog" where
  "sim_restore snap =
     bind get_state (\<lambda>s.
     if length (s_schedule s) \<noteq> length (ss_runtimes snap)
        \<or> length (w_devices (s_world s)) \<noteq> length (w_devices (ss_world snap))
        \<or> length (w_networks (s_world s)) \<noteq> length (w_networks (ss_world snap))
     then throw DifferentSimulation
     else
       bind (modify (\<lambda>s. s\<lparr>s_world := ss_world snap, s_tick := ss_tick snap,
                           s_scheduler_slot := ss_scheduler_slot snap, s_scheduler_error := ss_scheduler_error snap,
                           s_behaviours := ss_behaviours snap, s_driver_state := ss_driver_state snap,
                           s_journal := j_restore_write_sequence (ss_journal_write_sequence snap) (s_journal s)\<rparr>)) (\<lambda>_.
       for_each (zip (s_schedule s) (ss_runtimes snap)) (\<lambda>(adapter, saved). adapter_restore adapter saved)))"

end
