(* ===== verification/Execute_Safety.thy ===== *)
theory Execute_Safety
  imports Execute
begin

text \<open>
  Safety of the instruction set: an instruction whose operand list has the length its arms index
  never panics, whatever the operands are, and keeps the CPU and the world well formed. The indexing
  expressions, \<open>expect\<close>s and \<open>unwrap\<close>s of \<open>execute_operation\<close> and its helpers are all covered.
\<close>

section \<open>The invariant of an executing instruction\<close>

definition exec_inv :: "knowledge_base \<Rightarrow> world_form \<Rightarrow> cpu_form \<Rightarrow> exec \<Rightarrow> bool" where
  "exec_inv kb shape stack x \<longleftrightarrow>
     world_inv kb shape (x_world x) \<and> cpu_wf (length (fst shape)) stack (x_cpu x)"

text \<open>How many operands the arm of each mnemonic indexes.\<close>

definition required_operands :: "string \<Rightarrow> nat" where
  "required_operands m =
     (if normalized_branch m \<in> {''beqz'', ''beqzal'', ''bnez'', ''bnezal'', ''bgez'', ''bgezal'', ''bgtz'', ''bgtzal'',
                               ''blez'', ''blezal'', ''bltz'', ''bltzal''} then 2
      else if is_comparison_branch m then 3
      else if m \<in> {''yield'', ''hcf'', ''label'', ''lr'', ''rmap''} then 0
      else if m \<in> {''rand'', ''j'', ''jal'', ''jr'', ''push'', ''pop'', ''peek'', ''sleep'', ''clr'', ''clrd''} then 1
      else if m \<in> {''move'', ''abs'', ''acos'', ''asin'', ''atan'', ''ceil'', ''cos'', ''exp'', ''floor'', ''log'',
                   ''round'', ''sgn'', ''sin'', ''sqrt'', ''tan'', ''trunc'', ''not'', ''seqz'', ''snez'', ''sgez'',
                   ''sgtz'', ''slez'', ''sltz'', ''snan'', ''snanz'', ''poke'', ''bnan'', ''brnan'', ''bdns'',
                   ''bdnsal'', ''brdns'', ''bdse'', ''bdseal'', ''brdse'', ''sdns'', ''sdse''} then 2
      else if m \<in> {''clamp'', ''lerp'', ''ext'', ''ins'', ''select'', ''sap'', ''sna'', ''bap'', ''bapal'', ''bna'',
                   ''bnaal'', ''brap'', ''brna'', ''lb'', ''sbn'', ''sbs'', ''ls'', ''ss''} then 4
      else if m \<in> {''lbn'', ''lbs''} then 5
      else if m = ''lbns'' then 6
      else 3)"

section \<open>Programs over the CPU, the world and the journal\<close>

lemma exec_inv_length: "exec_inv kb sh k x \<Longrightarrow> length (w_devices (x_world x)) = length (fst sh)"
  unfolding exec_inv_def by (blast intro: world_inv_length)

lemma exec_inv_memory:
  "exec_inv kb sh k x \<Longrightarrow> i < length (fst sh) \<Longrightarrow> length (dv_memory (w_devices (x_world x) ! i)) = shape_memory sh i"
  unfolding exec_inv_def by (blast intro: world_inv_memory)

lemma exec_inv_updates [frame_simps]:
  "exec_inv kb sh k (x\<lparr>x_journal := j\<rparr>) = exec_inv kb sh k x"
  by (simp add: exec_inv_def)

lemma exec_inv_cpu: "exec_inv kb sh k x \<Longrightarrow> cpu_wf (length (fst sh)) k (x_cpu x)"
  by (simp add: exec_inv_def)

lemma exec_inv_world: "exec_inv kb sh k x \<Longrightarrow> world_wf kb (x_world x)"
  by (simp add: exec_inv_def world_inv_def)

lemma exec_inv_set_device:
  assumes "exec_inv kb sh k x" "i < length (fst sh)"
    and "device_shape d = device_shape (w_devices (x_world x) ! i)" "device_wf kb (length (w_networks (x_world x))) d"
  shows "exec_inv kb sh k (x\<lparr>x_world := (x_world x)\<lparr>w_devices := (w_devices (x_world x))[i := d]\<rparr>\<rparr>)"
  using assms world_inv_set_device [of kb sh "x_world x" i d] exec_inv_length [OF assms(1)] by (simp add: exec_inv_def)

lemma exec_inv_device_wf:
  "exec_inv kb sh k x \<Longrightarrow> i < length (fst sh) \<Longrightarrow>
     device_wf kb (length (w_networks (x_world x))) (w_devices (x_world x) ! i)"
  unfolding exec_inv_def by (blast intro: world_inv_device_wf)

lemma safe_on_cpu: "safe (cpu_wf (length (fst sh)) k) Q m \<Longrightarrow> safe (exec_inv kb sh k) Q (on_cpu m)"
  by (auto simp: safe_def on_cpu_def exec_inv_def split: prod.splits)

lemma wp_x_device:
  "i < length (w_devices (x_world x)) \<Longrightarrow> R (w_devices (x_world x) ! i) x \<Longrightarrow> wp (x_device i) R E x"
  unfolding x_device_def by (intro wp_intros) auto

lemma safe_x_device:
  "i < length (fst sh) \<Longrightarrow> safe (exec_inv kb sh k) (\<lambda>d. length (dv_memory d) = shape_memory sh i) (x_device i)"
  by (intro safeI wp_x_device) (auto simp: exec_inv_length exec_inv_memory)

lemma safe_x_journal_op: "safe (exec_inv kb sh k) anything (x_journal_op f)"
  unfolding x_journal_op_def by (intro safeI wp_intros) (simp add: frame_simps)

lemma safe_x_note_slot: "safe (exec_inv kb sh k) anything (x_note_slot note i slot field)"
  unfolding x_note_slot_def by (rule safe_x_journal_op)

lemma safe_x_read_field:
  assumes "i < length (fst sh)"
  shows "safe (exec_inv kb sh k) anything (x_read_field kb actor i c field)"
proof (rule safeI)
  fix x assume x: "exec_inv kb sh k x"
  then have "read_field (x_world x) i c field kb (x_journal x) actor \<noteq> Panic"
    using assms field_access_safe [OF exec_inv_world [OF x]] exec_inv_length [OF x] by simp
  then show "wp (x_read_field kb actor i c field) (\<lambda>v s'. exec_inv kb sh k s' \<and> True) (exec_inv kb sh k) x"
    using x by (cases "read_field (x_world x) i c field kb (x_journal x) actor")
      (auto simp: wp_def x_read_field_def frame_simps)
qed

lemma safe_x_write_field:
  assumes "i < length (fst sh)"
  shows "safe (exec_inv kb sh k) anything (x_write_field kb actor i c field v)"
proof (rule safeI)
  fix x assume x: "exec_inv kb sh k x"
  let ?r = "write_field (x_world x) i c field v kb (x_journal x) actor"
  have "?r \<noteq> Panic" using assms field_access_safe [OF exec_inv_world [OF x]] exec_inv_length [OF x] by simp
  moreover have "exec_inv kb sh k (x\<lparr>x_world := w, x_journal := j\<rparr>)" if "?r = Ok (w, j)" for w j
    using x write_field_wf [OF that] write_field_shape [OF that] by (simp add: exec_inv_def world_inv_def)
  ultimately show "wp (x_write_field kb actor i c field v) (\<lambda>v s'. exec_inv kb sh k s' \<and> True) (exec_inv kb sh k) x"
    using x by (cases ?r) (auto simp: wp_def x_write_field_def)
qed

lemma safe_x_read_memory:
  "i < length (fst sh) \<Longrightarrow> a < shape_memory sh i \<Longrightarrow> safe (exec_inv kb sh k) anything (x_read_memory actor i a)"
  unfolding x_read_memory_def
  by (intro safeI wp_intros wp_safe [OF safe_x_journal_op] wp_safe [OF safe_x_device]) auto

lemma safe_x_write_memory:
  assumes "i < length (fst sh)" "a < shape_memory sh i"
  shows "safe (exec_inv kb sh k) anything (x_write_memory actor i v a)"
  unfolding x_write_memory_def x_set_device_def
  using assms
  by (intro safeI wp_intros wp_safe [OF safe_x_journal_op] wp_x_device exec_inv_set_device)
    (simp_all add: exec_inv_length exec_inv_memory device_shape_def device_wf_updates exec_inv_device_wf)

lemma safe_x_write_slot:
  assumes "i < length (fst sh)"
    and "exec_inv kb sh k x" "d = w_devices (x_world x) ! i" "\<And>x'. exec_inv kb sh k x' \<Longrightarrow> R () x'"
  shows "wp (x_write_slot actor i d slot fs field v) R (exec_inv kb sh k) x"
proof -
  have wf: "device_wf kb (length (w_networks (x_world x))) d"
    using assms by (simp add: exec_inv_device_wf)
  then have "bt_wf (bt_insert slot (bt_insert field v fs) (dv_slots d))"
    by (simp add: device_wf_def bt_wf_insert)
  with wf show ?thesis
    unfolding x_write_slot_def x_set_device_def Let_def
    using assms
    by (intro wp_intros wp_safe [OF safe_x_note_slot] exec_inv_set_device)
      (simp_all add: device_shape_def device_wf_updates)
qed

lemma safe_operand: "i < length (o_operands op) \<Longrightarrow> safe P anything (operand op i)"
  unfolding operand_def by (intro safeI wp_intros) auto

lemma safe_operand_value: "i < length (o_operands op) \<Longrightarrow> safe (cpu_wf n k) anything (operand_value kb op i)"
  unfolding operand_value_def by (intro safeI wp_intros wp_safe [OF safe_operand] wp_safe [OF safe_value_of]) auto

lemma safe_write_operand: "i < length (o_operands op) \<Longrightarrow> safe (cpu_wf n k) anything (write_operand op i v)"
  unfolding write_operand_def
  by (intro safeI wp_intros wp_safe [OF safe_operand] wp_safe [OF safe_write_register_operand]) auto

lemma safe_last_operand_value: "o_operands op \<noteq> [] \<Longrightarrow> safe (cpu_wf n k) anything (last_operand_value kb op)"
  unfolding last_operand_value_def by (intro safeI wp_intros wp_safe [OF safe_value_of]) auto

lemma checked_address_less: "checked_address v len label = Inr a \<Longrightarrow> a < len"
  by (auto simp: checked_address_def Let_def split: if_splits)

lemma safe_stack_pointer: "safe (cpu_wf n k) (\<lambda>a. a < fst k) stack_pointer"
  unfolding stack_pointer_def
  by (intro safeI wp_intros wp_safe [OF safe_read_register])
    (auto simp: register_count_def stack_pointer_register_def cpu_wf_def cpu_shape_def dest: checked_address_less)

lemma special_register_less: "stack_pointer_register < register_count" "return_address_register < register_count"
  by (simp_all add: register_count_def stack_pointer_register_def return_address_register_def)

lemma cpu_wf_stack: "cpu_wf n k c \<Longrightarrow> length (c_stack c) = fst k"
  by (auto simp: cpu_wf_def cpu_shape_def)

lemmas [safe_rules] = safe_operand safe_operand_value safe_write_operand safe_last_operand_value safe_stack_pointer
  safe_read_register safe_write_register safe_read_stack safe_write_stack safe_value_of safe_register_index
  safe_write_register_operand safe_resolve_program_number

lemma safe_exec_push: "1 \<le> length (o_operands op) \<Longrightarrow> safe (cpu_wf n k) anything (exec_push kb op)"
  unfolding exec_push_def
  by (intro safeI wp_intros safe_rules [THEN wp_safe]) (auto simp: special_register_less)

lemma safe_exec_pop: "1 \<le> length (o_operands op) \<Longrightarrow> safe (cpu_wf n k) anything (exec_pop op)"
  unfolding exec_pop_def Let_def
  by (intro safeI wp_intros safe_rules [THEN wp_safe])
    (auto simp: special_register_less cpu_wf_stack dest: checked_address_less)

lemma safe_exec_peek: "1 \<le> length (o_operands op) \<Longrightarrow> safe (cpu_wf n k) anything (exec_peek op)"
  unfolding exec_peek_def Let_def
  by (intro safeI wp_intros safe_rules [THEN wp_safe])
    (auto simp: special_register_less cpu_wf_stack dest: checked_address_less)

lemma safe_exec_poke: "2 \<le> length (o_operands op) \<Longrightarrow> safe (cpu_wf n k) anything (exec_poke kb op)"
  unfolding exec_poke_def Let_def
  by (intro safeI wp_intros safe_rules [THEN wp_safe])
    (auto simp: special_register_less cpu_wf_stack dest: checked_address_less)

lemma safe_branch_to: "safe (cpu_wf n k) anything (branch_to op target relative link)"
  unfolding branch_to_def
  by (intro safeI wp_intros safe_rules [THEN wp_safe]) (auto simp: special_register_less frame_simps)

lemma safe_exec_jump: "1 \<le> length (o_operands op) \<Longrightarrow> safe (cpu_wf n k) anything (exec_jump kb op)"
  unfolding exec_jump_def
  by (intro safeI wp_intros safe_rules [THEN wp_safe]) (auto simp: special_register_less frame_simps)

lemma safe_branch_if: "o_operands op \<noteq> [] \<Longrightarrow> safe (cpu_wf n k) anything (branch_if kb op taken)"
  unfolding branch_if_def
  by (intro safeI wp_intros safe_rules [THEN wp_safe] safe_branch_to [THEN wp_safe]) auto

lemma safe_exec_family:
  "2 \<le> length (o_operands op) \<Longrightarrow> safe (cpu_wf n k) anything (exec_unary kb op f)"
  "3 \<le> length (o_operands op) \<Longrightarrow> safe (cpu_wf n k) anything (exec_binary kb op g)"
  "3 \<le> length (o_operands op) \<Longrightarrow> safe (cpu_wf n k) anything (exec_bitwise_binary kb op h)"
  "2 \<le> length (o_operands op) \<Longrightarrow> safe (cpu_wf n k) anything (exec_selection_unary kb op p)"
  "3 \<le> length (o_operands op) \<Longrightarrow> safe (cpu_wf n k) anything (exec_selection_binary kb op q)"
  "4 \<le> length (o_operands op) \<Longrightarrow> safe (cpu_wf n k) anything (exec_ternary kb op r)"
  "1 \<le> length (o_operands op) \<Longrightarrow> safe (cpu_wf n k) anything (exec_rand op)"
  "4 \<le> length (o_operands op) \<Longrightarrow> safe (cpu_wf n k) anything (exec_ins kb op)"
  "4 \<le> length (o_operands op) \<Longrightarrow> safe (cpu_wf n k) anything (exec_select kb op)"
  unfolding exec_unary_def exec_binary_def exec_bitwise_binary_def exec_selection_unary_def exec_selection_binary_def
    exec_ternary_def exec_rand_def exec_ins_def exec_select_def
  by (auto intro!: safeI wp_intros safe_rules [THEN wp_safe] simp: frame_simps)

lemma safe_by_reference:
  "world_wf kb w \<Longrightarrow> n = length (w_devices w) \<Longrightarrow> safe (cpu_wf n k) (\<lambda>i. i < n) (by_reference w r)"
  unfolding by_reference_def by (intro safeI wp_intros) (auto dest: device_by_reference_less)

lemma cpu_wf_pin: "cpu_wf n k c \<Longrightarrow> nth_opt (c_pins c) p = Some (Some i) \<Longrightarrow> i < n"
  by (auto simp: cpu_wf_def nth_opt_eq_Some) (metis nth_mem)

lemma cpu_wf_housing: "cpu_wf n k c \<Longrightarrow> c_housing c < n"
  by (simp add: cpu_wf_def)

lemma cpu_wf_pin_cell: "cpu_wf n k c \<Longrightarrow> p < 6 \<Longrightarrow> \<exists>y. nth_opt (c_pins c) p = Some y"
  by (simp add: cpu_wf_def)

lemma safe_device_reference:
  assumes "world_wf kb w" "n = length (w_devices w)"
  shows "safe (cpu_wf n k) (\<lambda>t. dr_device t < n) (device_reference kb w source)"
  unfolding device_reference_def Let_def split_beta
  using assms
  by (intro safeI wp_intros safe_rules [THEN wp_safe] safe_by_reference [THEN wp_safe]
      safe_attempt [OF safe_register_index, THEN wp_safe])
    (auto simp: bind_eq_Some_conv cpu_wf_pin_cell cpu_wf_housing dest: cpu_wf_pin split: if_splits)

lemma safe_logic_name: "safe (cpu_wf n k) anything (logic_name kb source)"
  unfolding logic_name_def by (intro safeI wp_intros safe_rules [THEN wp_safe]) auto

lemma safe_batch_mode: "safe (cpu_wf n k) anything (batch_mode kb source)"
  unfolding batch_mode_def by (intro safeI wp_intros safe_rules [THEN wp_safe]) auto

lemma safe_x_reference: "safe (exec_inv kb sh k) (\<lambda>i. i < length (fst sh)) (x_reference r)"
  unfolding x_reference_def
  by (intro safeI wp_intros) (auto, metis device_by_reference_less exec_inv_world exec_inv_length)

lemma safe_x_device_reference:
  assumes "i < length (o_operands op)"
  shows "safe (exec_inv kb sh k) (\<lambda>t. dr_device t < length (fst sh)) (x_device_reference kb op i)"
  unfolding x_device_reference_def
  using assms
  by (intro safeI wp_intros wp_safe [OF safe_operand] wp_safe [OF safe_on_cpu [OF safe_device_reference]])
    (auto simp: exec_inv_world exec_inv_length)

lemma safe_x_logic_name:
  "i < length (o_operands op) \<Longrightarrow> safe (exec_inv kb sh k) anything (x_logic_name kb op i)"
  unfolding x_logic_name_def
  by (intro safeI wp_intros wp_safe [OF safe_operand] wp_safe [OF safe_on_cpu [OF safe_logic_name]]) auto

lemmas world_rules = safe_x_reference safe_x_device_reference safe_x_logic_name safe_x_read_field safe_x_write_field
  safe_x_read_memory safe_x_write_memory safe_x_journal_op safe_x_note_slot safe_operand

lemmas cpu_rules = safe_rules [THEN safe_on_cpu] safe_batch_mode [THEN safe_on_cpu] safe_branch_if [THEN safe_on_cpu]
  safe_branch_to [THEN safe_on_cpu]

lemma exec_inv_stack: "exec_inv kb sh k x \<Longrightarrow> length (c_stack (x_cpu x)) = fst k"
  by (auto dest!: exec_inv_cpu simp: cpu_wf_stack)

lemma safe_memory_target:
  assumes "(if o_mnemonic op \<in> {''get'', ''getd''} then 1 else 0) < length (o_operands op)"
  shows "safe (exec_inv kb sh k) (\<lambda>t. dr_device t < length (fst sh)) (memory_target kb op direct)"
  unfolding memory_target_def Let_def
  using assms by (intro safeI wp_intros world_rules [THEN wp_safe] cpu_rules [THEN wp_safe]) auto

lemma safe_execute_clear:
  assumes "dr_device t < length (fst sh)"
  shows "safe (exec_inv kb sh k) anything (execute_clear actor t)"
  unfolding execute_clear_def
  using assms
  by (intro safeI wp_intros safe_for_each [THEN wp_safe] world_rules cpu_rules wp_safe [OF safe_x_device])
    (auto simp: exec_inv_stack)

lemma safe_memory_length:
  assumes "dr_device t < length (fst sh)"
  shows "safe (exec_inv kb sh k) (\<lambda>n. n = (if dr_base t then fst k else shape_memory sh (dr_device t))) (memory_length t)"
  unfolding memory_length_def
  using assms by (intro safeI wp_intros wp_safe [OF safe_x_device]) (auto simp: exec_inv_stack)

lemma safe_execute_memory:
  assumes "1 \<le> length (o_operands op)" "o_mnemonic op \<notin> {''clr'', ''clrd''} \<Longrightarrow> 3 \<le> length (o_operands op)"
  shows "safe (exec_inv kb sh k) anything (execute_memory kb actor op direct)"
  unfolding execute_memory_def
  using assms
  by (intro safeI wp_intros safe_memory_target [THEN wp_safe] safe_memory_length [THEN wp_safe]
      safe_execute_clear [THEN wp_safe] world_rules [THEN wp_safe] cpu_rules [THEN wp_safe])
    (auto dest!: checked_address_less split: if_splits)

lemma safe_execute_slot:
  assumes "4 \<le> length (o_operands op)"
  shows "safe (exec_inv kb sh k) anything (execute_slot kb actor op)"
  unfolding execute_slot_def Let_def
  using assms
  by (intro safeI wp_intros wp_x_device safe_x_write_slot world_rules [THEN wp_safe] cpu_rules [THEN wp_safe])
    (auto simp: exec_inv_length)

lemma safe_batch_operands:
  "c < length (o_operands op) \<Longrightarrow> safe (cpu_wf n k) (\<lambda>r. snd r = (if named then c + 1 else c)) (batch_name kb op named c)"
  "c < length (o_operands op) \<Longrightarrow> safe (cpu_wf n k) (\<lambda>r. snd r = (if slotted then c + 1 else c)) (batch_slot kb op slotted c)"
  unfolding batch_name_def batch_slot_def
  by (auto intro!: safeI wp_intros safe_rules [THEN wp_safe])

lemma safe_data_network: "safe (exec_inv kb sh k) anything data_network"
  unfolding data_network_def
  by (intro safeI wp_intros wp_x_device) (auto simp: exec_inv_length cpu_wf_housing dest: exec_inv_cpu)

lemma safe_batch_read:
  assumes "i < length (fst sh)"
  shows "safe (exec_inv kb sh k) anything (batch_read kb actor slot field i)"
  unfolding batch_read_def
  using assms
  by (intro safeI wp_intros wp_x_device world_rules [THEN wp_safe] safe_attempt [OF safe_x_read_field, THEN wp_safe])
    (auto simp: exec_inv_length)

lemma safe_batch_collect:
  assumes "\<forall>i \<in> set indices. i < length (fst sh)"
  shows "safe (exec_inv kb sh k) anything (batch_collect kb actor ph nh slot field indices)"
  using assms
proof (induction indices)
  case (Cons i indices)
  then have rest: "safe (exec_inv kb sh k) anything (batch_collect kb actor ph nh slot field indices)" by simp
  show ?case
    using Cons.prems
    by (simp only: batch_collect.simps)
      (intro safeI wp_intros wp_x_device wp_safe [OF rest] safe_batch_read [THEN wp_safe],
       auto simp: exec_inv_length)
qed (auto intro!: safeI wp_intros)

lemma safe_batch_write:
  assumes "i < length (fst sh)"
  shows "safe (exec_inv kb sh k) anything (batch_write kb actor ph nh slot field v i)"
  unfolding batch_write_def
  using assms
  by (intro safeI wp_intros wp_x_device safe_x_write_slot world_rules [THEN wp_safe]) (auto simp: exec_inv_length)

lemma safe_execute_batch_load:
  assumes "4 \<le> length (o_operands op)" "o_mnemonic op \<in> {''lbn'', ''lbs''} \<Longrightarrow> 5 \<le> length (o_operands op)"
    and "o_mnemonic op = ''lbns'' \<Longrightarrow> 6 \<le> length (o_operands op)"
  shows "safe (exec_inv kb sh k) anything (execute_batch_load kb actor op)"
  unfolding execute_batch_load_def Let_def
  using assms
  by (intro safeI wp_intros world_rules [THEN wp_safe] cpu_rules [THEN wp_safe] safe_data_network [THEN wp_safe]
      safe_batch_operands [THEN safe_on_cpu, THEN wp_safe] safe_batch_collect [THEN wp_safe])
    (auto simp: exec_inv_length dest!: devices_on_network_less split: if_splits)

lemma safe_execute_batch_store:
  assumes "3 \<le> length (o_operands op)" "o_mnemonic op \<in> {''sbn'', ''sbs''} \<Longrightarrow> 4 \<le> length (o_operands op)"
  shows "safe (exec_inv kb sh k) anything (execute_batch_store kb actor op)"
  unfolding execute_batch_store_def Let_def
  using assms
  by (intro safeI wp_intros world_rules [THEN wp_safe] cpu_rules [THEN wp_safe] safe_data_network [THEN wp_safe]
      safe_batch_operands [THEN safe_on_cpu, THEN wp_safe] safe_for_each [THEN wp_safe] safe_batch_write)
    (auto simp: exec_inv_length dest!: devices_on_network_less split: if_splits)

lemma safe_exec_transfer:
  assumes "3 \<le> length (o_operands op)"
  shows "safe (exec_inv kb sh k) anything (exec_load kb actor op)"
    "safe (exec_inv kb sh k) anything (exec_store kb actor op)"
    "safe (exec_inv kb sh k) anything (exec_load_direct kb actor op)"
    "safe (exec_inv kb sh k) anything (exec_store_direct kb actor op)"
  unfolding exec_load_def exec_store_def exec_load_direct_def exec_store_direct_def
  using assms by (auto intro!: safeI wp_intros world_rules [THEN wp_safe] cpu_rules [THEN wp_safe])

lemma safe_exec_device_branch:
  "1 \<le> length (o_operands op) \<Longrightarrow> safe (exec_inv kb sh k) anything (exec_device_branch kb op)"
  unfolding exec_device_branch_def
  by (intro safeI wp_intros cpu_rules [THEN wp_safe] safe_attempt [OF safe_x_device_reference, THEN wp_safe]) auto

lemma safe_exec_device_set:
  "2 \<le> length (o_operands op) \<Longrightarrow> safe (exec_inv kb sh k) anything (exec_device_set kb op)"
  unfolding exec_device_set_def
  by (intro safeI wp_intros cpu_rules [THEN wp_safe] safe_attempt [OF safe_x_device_reference, THEN wp_safe]) auto

lemma safe_exec_valid_branch:
  "3 \<le> length (o_operands op) \<Longrightarrow> safe (exec_inv kb sh k) anything (exec_valid_branch kb actor op)"
  unfolding exec_valid_branch_def prod.case
  by (intro safeI wp_intros cpu_rules [THEN wp_safe] safe_attempt [OF safe_x_device_reference, THEN wp_safe]
      safe_attempt [OF safe_x_logic_name, THEN wp_safe] safe_attempt [OF safe_x_read_field, THEN wp_safe] wp_x_device)
    (auto simp: exec_inv_length)

section \<open>The instruction set\<close>

lemma required_family:
  "binary_function lm m = Some f \<Longrightarrow> required_operands m = 3"
  "unary_function lm m = Some f' \<Longrightarrow> required_operands m = 2"
  "bitwise_function m = Some g \<Longrightarrow> required_operands m = 3"
  "selection_binary_test m = Some p \<Longrightarrow> required_operands m = 3"
  "selection_unary_test m = Some q \<Longrightarrow> required_operands m = 2"
  "shift_function m = Some h \<Longrightarrow> required_operands m = 3"
  unfolding binary_function_def unary_function_def bitwise_function_def selection_binary_test_def
    selection_unary_test_def shift_function_def
  by (erule map_of_list_all,
      simp add: required_operands_def is_comparison_branch_def normalized_branch_def)+

lemma safe_exec_arithmetic:
  assumes "exec_arithmetic lm kb op = Some m" "required_operands (o_mnemonic op) \<le> length (o_operands op)"
  shows "safe (cpu_wf n k) anything m"
proof -
  have "required_operands ''move'' = 2" by (simp add: required_operands_def is_comparison_branch_def normalized_branch_def)
  moreover have "2 \<le> length (o_operands op) \<Longrightarrow> safe (cpu_wf n k) anything (bind (operand_value kb op 1) (write_operand op 0))"
    by (intro safeI wp_intros safe_rules [THEN wp_safe]) auto
  ultimately show ?thesis
    using assms
    by (auto simp: exec_arithmetic_def Let_def safe_exec_family dest!: required_family split: if_split_asm option.split_asm)
qed

lemma comparison_required:
  assumes "is_comparison_branch m"
  shows "required_operands m =
    (if ends_with ''z'' (case strip_suffix ''al'' (normalized_branch m) of Some b \<Rightarrow> b | None \<Rightarrow> normalized_branch m) then 2 else 3)"
proof -
  have "normalized_branch m = name \<Longrightarrow> ?thesis" if "name \<in> {''beq'', ''beqal'', ''beqz'', ''beqzal'', ''bne'', ''bneal'', ''bnez'', ''bnezal'',
        ''bge'', ''bgeal'', ''bgez'', ''bgezal'', ''bgt'', ''bgtal'', ''bgtz'', ''bgtzal'',
        ''ble'', ''bleal'', ''blez'', ''blezal'', ''blt'', ''bltal'', ''bltz'', ''bltzal''}" for name
    using that assms by (elim insertE) (simp_all add: required_operands_def ends_with_def strip_suffix_def)
  then show ?thesis using assms unfolding is_comparison_branch_def by blast
qed

lemma safe_execute_comparison_branch:
  assumes "is_comparison_branch (o_mnemonic op)" "required_operands (o_mnemonic op) \<le> length (o_operands op)"
  shows "safe (cpu_wf n k) anything (execute_comparison_branch kb op)"
  unfolding execute_comparison_branch_def Let_def
  using assms(2) comparison_required [OF assms(1)]
  by (intro safeI wp_intros safe_rules [THEN wp_safe] safe_branch_to [THEN wp_safe]) (auto split: if_split_asm)

lemma required_local [simp]:
  "required_operands ''clamp'' = 4" "required_operands ''lerp'' = 4" "required_operands ''rand'' = 1"
  "required_operands ''not'' = 2" "required_operands ''ext'' = 4" "required_operands ''ins'' = 4"
  "required_operands ''select'' = 4" "required_operands ''sap'' = 4" "required_operands ''sna'' = 4"
  "required_operands ''sapz'' = 3" "required_operands ''snaz'' = 3" "required_operands ''j'' = 1"
  "required_operands ''jal'' = 1" "required_operands ''jr'' = 1" "required_operands ''bnan'' = 2"
  "required_operands ''brnan'' = 2" "required_operands ''bap'' = 4" "required_operands ''bapal'' = 4"
  "required_operands ''bna'' = 4" "required_operands ''bnaal'' = 4" "required_operands ''brap'' = 4"
  "required_operands ''brna'' = 4" "required_operands ''bapz'' = 3" "required_operands ''bapzal'' = 3"
  "required_operands ''bnaz'' = 3" "required_operands ''bnazal'' = 3" "required_operands ''brapz'' = 3"
  "required_operands ''brnaz'' = 3" "required_operands ''push'' = 1" "required_operands ''pop'' = 1"
  "required_operands ''peek'' = 1" "required_operands ''poke'' = 2" "required_operands ''sleep'' = 1"
  by (simp_all add: required_operands_def is_comparison_branch_def normalized_branch_def)

lemma required_world [simp]:
  "required_operands ''get'' = 3" "required_operands ''put'' = 3" "required_operands ''clr'' = 1"
  "required_operands ''getd'' = 3" "required_operands ''putd'' = 3" "required_operands ''clrd'' = 1"
  "required_operands ''l'' = 3" "required_operands ''s'' = 3" "required_operands ''ld'' = 3" "required_operands ''sd'' = 3"
  "required_operands ''lb'' = 4" "required_operands ''lbn'' = 5" "required_operands ''lbs'' = 5" "required_operands ''lbns'' = 6"
  "required_operands ''sb'' = 3" "required_operands ''sbn'' = 4" "required_operands ''sbs'' = 4"
  "required_operands ''ls'' = 4" "required_operands ''ss'' = 4" "required_operands ''bdns'' = 2"
  "required_operands ''bdnsal'' = 2" "required_operands ''brdns'' = 2" "required_operands ''bdse'' = 2"
  "required_operands ''bdseal'' = 2" "required_operands ''brdse'' = 2" "required_operands ''bdnvl'' = 3"
  "required_operands ''bdnvs'' = 3" "required_operands ''sdns'' = 2" "required_operands ''sdse'' = 2"
  by (simp_all add: required_operands_def is_comparison_branch_def normalized_branch_def)

lemma safe_approximate_branches:
  "3 \<le> length (o_operands op) \<Longrightarrow> safe (cpu_wf n k) anything
     (bind (operand_value kb op 0) (\<lambda>a. bind (operand_value kb op 1) (\<lambda>b. bind (operand_value kb op 2) (\<lambda>t.
        branch_if kb op (P a b t)))))"
  "2 \<le> length (o_operands op) \<Longrightarrow> safe (cpu_wf n k) anything
     (bind (operand_value kb op 0) (\<lambda>a. bind (operand_value kb op 1) (\<lambda>t. branch_if kb op (Q a t))))"
  "2 \<le> length (o_operands op) \<Longrightarrow> safe (cpu_wf n k) anything
     (bind (operand_value kb op 0) (\<lambda>v.
        if is_nan v then bind (operand_value kb op 1) (\<lambda>target. branch_to op target r l) else ret ()))"
  by (auto intro!: safeI wp_intros safe_rules [THEN wp_safe] safe_branch_if [THEN wp_safe] safe_branch_to [THEN wp_safe])

lemma safe_state_changes:
  "safe (cpu_wf n k) anything (modify (cpu_write_state st))"
  "safe (cpu_wf n k) anything (ret ())" "safe (cpu_wf n k) anything (throw e)"
  "1 \<le> length (o_operands op) \<Longrightarrow>
     safe (cpu_wf n k) anything (bind (operand_value kb op 0) (\<lambda>v. modify (cpu_write_state (f v))))"
  by (auto intro!: safeI wp_intros safe_rules [THEN wp_safe] simp: frame_simps)

lemma safe_exec_local:
  assumes "exec_local kb tick op = Some m" "required_operands (o_mnemonic op) \<le> length (o_operands op)"
  shows "safe (cpu_wf n k) anything m"
  using assms safe_execute_comparison_branch [of op n k kb]
  unfolding exec_local_def Let_def
  by (auto simp: safe_exec_family safe_approximate_branches safe_state_changes safe_exec_jump safe_exec_push safe_exec_pop
      safe_exec_peek safe_exec_poke simp del: One_nat_def split: if_split_asm)

lemma safe_exec_world:
  assumes "exec_world kb actor op = Some m" "required_operands (o_mnemonic op) \<le> length (o_operands op)"
  shows "safe (exec_inv kb sh k) anything m"
  using assms
  unfolding exec_world_def Let_def
  by (auto intro!: safe_execute_memory safe_execute_batch_load safe_execute_batch_store simp: safe_exec_transfer
       safe_execute_slot safe_exec_device_branch safe_exec_valid_branch safe_exec_device_set split: if_split_asm)

lemma safe_execute_operation:
  assumes "required_operands (o_mnemonic op) \<le> length (o_operands op)"
  shows "safe (exec_inv kb sh k) anything (execute_operation lm kb tick op actor)"
proof -
  have pc: "safe (exec_inv kb sh k) anything (on_cpu (modify (cpu_write_pc (o_line op + 1))))"
    by (intro safe_on_cpu safeI wp_intros) (simp add: frame_simps)
  have "safe (exec_inv kb sh k) anything (on_cpu m)" if "exec_arithmetic lm kb op = Some m" for m
    by (rule safe_on_cpu [OF safe_exec_arithmetic [OF that assms]])
  moreover have "safe (exec_inv kb sh k) anything (on_cpu m)" if "exec_local kb tick op = Some m" for m
    by (rule safe_on_cpu [OF safe_exec_local [OF that assms]])
  ultimately show ?thesis
    unfolding execute_operation_def
    using safe_exec_world [OF _ assms, of kb actor _ sh k]
    by (intro safeI wp_intros wp_safe [OF pc]) (auto elim!: wp_safe)
qed

end
