(* ===== verification/Simulator_Safety.thy ===== *)
theory Simulator_Safety
  imports Simulator Execute_Safety
begin

text \<open>
  The invariant of the simulator and what its parts keep of it: \<open>sim_inv\<close> holds of a state with a
  well-formed world, behaviours and ICs whose programs respect the operand counts, and a schedule
  that names existing machines. \<open>run_inv\<close> adds the frame of one instruction: only the running IC, the
  world, the behaviours and the journal may change. \<open>tick_inv\<close> and \<open>sched_inv\<close> are the views of the
  scheduler within a tick and across ticks. \<open>engine_ok\<close> is what the simulator relies on of the Lua
  interpreter: a resumption works on the world through the checked accessors only.
\<close>

section \<open>Invariants\<close>

definition operands_ok :: "ic_program \<Rightarrow> bool" where
  "operands_ok p \<longleftrightarrow> (\<forall>(_, op) \<in> set (p_operations p). required_operands (o_mnemonic op) \<le> length (o_operands op))"

definition cpu_ok :: "nat \<Rightarrow> cpu \<Rightarrow> bool" where
  "cpu_ok devices c \<longleftrightarrow> cpu_wf devices (cpu_shape c) c \<and> operands_ok (c_program c)"

fun adapter_bound :: "'vm simulator \<Rightarrow> vm_adapter \<Rightarrow> bool" where
  "adapter_bound s (AdapterIc10 i) \<longleftrightarrow> i < length (s_cpus s)"
| "adapter_bound s (AdapterLua i) \<longleftrightarrow> i < length (s_lua_programs s)"

definition sim_inv :: "knowledge_base \<Rightarrow> world_form \<Rightarrow> 'vm simulator \<Rightarrow> bool" where
  "sim_inv kb shape s \<longleftrightarrow>
     s_knowledge s = kb \<and> world_inv kb shape (s_world s) \<and> behaviour_wf (length (fst shape)) (s_behaviours s) \<and>
     list_all (cpu_ok (length (fst shape))) (s_cpus s) \<and> list_all (adapter_bound s) (s_schedule s)"

definition run_frame :: "usize \<Rightarrow> cpu \<Rightarrow> 'vm simulator
    \<Rightarrow> vm_adapter list \<times> u64 \<times> usize \<times> sim_error option \<times> 'vm lua_runtime list \<times> (string, u8 list) btree_map \<times> cpu list" where
  "run_frame i d s =
     (s_schedule s, s_tick s, s_scheduler_slot s, s_scheduler_error s, s_lua_programs s, s_driver_state s, (s_cpus s)[i := d])"

definition run_inv :: "knowledge_base \<Rightarrow> world_form \<Rightarrow> usize \<Rightarrow> cpu
    \<Rightarrow> vm_adapter list \<times> u64 \<times> usize \<times> sim_error option \<times> 'vm lua_runtime list \<times> (string, u8 list) btree_map \<times> cpu list
    \<Rightarrow> u32 \<Rightarrow> 'vm simulator \<Rightarrow> bool" where
  "run_inv kb shape i d F ops s \<longleftrightarrow>
     sim_inv kb shape s \<and> i < length (s_cpus s) \<and> run_frame i d s = F \<and> c_operations_this_tick (s_cpus s ! i) = ops"

definition engine_ok :: "knowledge_base \<Rightarrow> world_form \<Rightarrow> 'vm lua_engine \<Rightarrow> bool" where
  "engine_ok kb shape eng \<longleftrightarrow>
     (\<forall>vm w debug logs. world_inv kb shape w \<longrightarrow> world_inv kb shape (rs_world (eng_resume eng vm w debug logs)))"

definition ops_of :: "'vm simulator \<Rightarrow> u32 list" where
  "ops_of s = map c_operations_this_tick (s_cpus s)"

definition tick_inv :: "knowledge_base \<Rightarrow> world_form \<Rightarrow> u64 \<Rightarrow> vm_adapter list \<Rightarrow> u32 list \<Rightarrow> nat \<Rightarrow> 'vm simulator \<Rightarrow> bool" where
  "tick_inv kb shape tick slots ops slot s \<longleftrightarrow>
     sim_inv kb shape s \<and> s_tick s = tick \<and> s_schedule s = slots \<and> ops_of s = ops \<and> s_scheduler_slot s = slot"

definition lifecycle_of :: "vm_adapter \<Rightarrow> 'vm simulator \<Rightarrow> vm_lifecycle" where
  "lifecycle_of a s =
     (case a of
        AdapterIc10 i \<Rightarrow> lifecycle i (c_state (s_cpus s ! i)) (current_line (s_cpus s ! i))
                           (c_operations_this_tick (s_cpus s ! i)) (instruction_budget s)
      | AdapterLua i \<Rightarrow> lua_runtime_lifecycle (length (s_cpus s) + i) (s_lua_programs s ! i))"

text \<open>What a tick change keeps.\<close>

definition sched_inv :: "knowledge_base \<Rightarrow> world_form \<Rightarrow> u64 \<Rightarrow> vm_adapter list \<Rightarrow> 'vm simulator \<Rightarrow> bool" where
  "sched_inv kb shape tick slots s \<longleftrightarrow> sim_inv kb shape s \<and> s_tick s = tick \<and> s_schedule s = slots"

section \<open>Lemmas\<close>

lemma wp_safe_weaken:
  assumes "safe P Q m" "P s" "\<And>x s'. P s' \<Longrightarrow> Q x \<Longrightarrow> R x s'" "\<And>s'. P s' \<Longrightarrow> E s'"
  shows "wp m R E s"
  by (rule wp_mono [OF wp_safe [OF assms(1,2,3)]]) (use assms(4) in auto)

lemma cpu_shape_updates [simp]:
  "cpu_shape (note_read t v c) = cpu_shape c" "cpu_shape (note_write t u v c) = cpu_shape c"
  "cpu_shape (note_write_bits t x y c) = cpu_shape c" "cpu_shape (cpu_write_pc pc c) = cpu_shape c"
  "cpu_shape (cpu_write_state st c) = cpu_shape c" "cpu_shape (configure_journal b a c) = cpu_shape c"
  "cpu_shape (c\<lparr>c_error := e\<rparr>) = cpu_shape c" "cpu_shape (c\<lparr>c_state := st\<rparr>) = cpu_shape c"
  "cpu_shape (c\<lparr>c_journal := j\<rparr>) = cpu_shape c"
  by (simp_all add: cpu_shape_def note_read_def note_write_def note_write_bits_def cpu_write_pc_def cpu_write_state_def
      configure_journal_def)

lemma cpu_shape_parts:
  "cpu_shape c = cpu_shape c' \<Longrightarrow> c_program c = c_program c' \<and> c_operations_this_tick c = c_operations_this_tick c' \<and>
     c_housing c = c_housing c' \<and> length (c_stack c) = length (c_stack c')"
  by (simp add: cpu_shape_def)

lemma cpu_ok_updates [simp]:
  "cpu_ok n (cpu_write_pc pc c) = cpu_ok n c" "cpu_ok n (cpu_write_state st c) = cpu_ok n c"
  "cpu_ok n (configure_journal b a c) = cpu_ok n c" "cpu_ok n (c\<lparr>c_error := e\<rparr>) = cpu_ok n c"
  "cpu_ok n (c\<lparr>c_state := st\<rparr>) = cpu_ok n c" "cpu_ok n (c\<lparr>c_journal := j\<rparr>) = cpu_ok n c"
  "cpu_ok n (c\<lparr>c_operations_this_tick := k\<rparr>) = cpu_ok n c"
  by (simp_all add: cpu_ok_def cpu_wf_def cpu_shape_def note_write_bits_def cpu_write_pc_def cpu_write_state_def
      configure_journal_def)

lemma cpu_ok_shape: "cpu_wf n k c \<Longrightarrow> operands_ok (c_program c) \<Longrightarrow> cpu_ok n c"
  by (auto simp: cpu_ok_def cpu_wf_def)

lemma run_inv_cpu: "run_inv kb sh i d F ops s \<Longrightarrow> cpu_ok (length (fst sh)) (s_cpus s ! i) \<and> i < length (s_cpus s)"
  by (auto simp: run_inv_def sim_inv_def list_all_length)

lemma adapter_bound_cong:
  "length (s_cpus s') = length (s_cpus s) \<Longrightarrow> length (s_lua_programs s') = length (s_lua_programs s) \<Longrightarrow>
     adapter_bound s' a = adapter_bound s a"
  by (cases a) simp_all

lemma run_inv_set_cpu:
  assumes "run_inv kb sh i d F ops s" "cpu_ok (length (fst sh)) c"
  shows "run_inv kb sh i d F (c_operations_this_tick c) (s_set_cpu i c s)"
proof -
  have "list_all (adapter_bound (s_set_cpu i c s)) (s_schedule s)"
    using assms(1) adapter_bound_cong [of "s_set_cpu i c s" s]
    by (auto simp: run_inv_def sim_inv_def s_set_cpu_def list_all_iff)
  then show ?thesis using assms
    by (auto simp: run_inv_def sim_inv_def s_set_cpu_def run_frame_def list_all_length nth_list_update)
qed

lemma run_inv_world:
  "run_inv kb sh i d F ops s \<Longrightarrow> world_inv kb sh (s_world s) \<and> s_knowledge s = kb \<and> behaviour_wf (length (fst sh)) (s_behaviours s)"
  by (simp add: run_inv_def sim_inv_def)

lemma run_inv_frame:
  assumes "run_inv kb sh i d F ops s" "world_inv kb sh w" "behaviour_wf (length (fst sh)) b"
  shows "run_inv kb sh i d F ops (s\<lparr>s_world := w, s_behaviours := b, s_journal := j\<rparr>)"
  using assms adapter_bound_cong [of "s\<lparr>s_world := w, s_behaviours := b, s_journal := j\<rparr>" s]
  by (auto simp: run_inv_def sim_inv_def run_frame_def list_all_iff)

lemma run_inv_journal: "run_inv kb sh i d F ops s \<Longrightarrow> run_inv kb sh i d F ops (s\<lparr>s_journal := j\<rparr>)"
  using run_inv_frame [of kb sh i d F ops s "s_world s" "s_behaviours s" j] run_inv_world [of kb sh i d F ops s] by simp

lemma run_inv_set_world: "run_inv kb sh i d F ops s \<Longrightarrow> world_inv kb sh w \<Longrightarrow> run_inv kb sh i d F ops (s\<lparr>s_world := w\<rparr>)"
  using run_inv_frame [of kb sh i d F ops s w "s_behaviours s" "s_journal s"] run_inv_world [of kb sh i d F ops s] by simp

lemma safe_s_cpu:
  "safe (run_inv kb sh i d F ops) (\<lambda>c. cpu_ok (length (fst sh)) c \<and> c_operations_this_tick c = ops) (s_cpu i)"
  unfolding s_cpu_def
  by (intro safeI wp_intros) (auto simp: nth_opt_eq_Some run_inv_def sim_inv_def list_all_length)

lemma safe_s_note: "safe (run_inv kb sh i d F ops) anything (s_note f)"
  unfolding s_note_def by (intro safeI wp_intros) (auto intro: run_inv_journal)

lemma safe_s_intern: "safe (run_inv kb sh i d F ops) anything (s_intern name)"
  by (auto simp: safe_def s_intern_def run_inv_journal split: prod.split)

lemma safe_s_insert_field:
  assumes "device < length (fst sh)"
  shows "safe (run_inv kb sh i d F ops) anything (s_insert_field device name v)"
  unfolding s_insert_field_def
proof (intro safeI wp_intros)
  fix s assume s: "run_inv kb sh i d F ops s"
  then have w: "world_inv kb sh (s_world s)" using run_inv_world by blast
  have len: "device < length (w_devices (s_world s))" using assms world_inv_length [OF w] by simp
  then show "nth_opt (w_devices (s_world s)) device \<noteq> None" by simp
  fix x assume "nth_opt (w_devices (s_world s)) device = Some x"
  then have x: "x = w_devices (s_world s) ! device" using len by simp
  have "world_inv kb sh ((s_world s)\<lparr>w_devices := (w_devices (s_world s))[device := x\<lparr>dv_fields := bt_insert name v (dv_fields x)\<rparr>]\<rparr>)"
    using x by (intro world_inv_set_device [OF w len]) (simp_all add: device_shape_def device_wf_fields world_inv_device_wf [OF w assms])
  then show "run_inv kb sh i d F ops (s\<lparr>s_world := (s_world s)\<lparr>w_devices := (w_devices (s_world s))[device :=
        x\<lparr>dv_fields := bt_insert name v (dv_fields x)\<rparr>]\<rparr>\<rparr>) \<and> True"
    using run_inv_set_world [OF s] by blast
qed

lemma run_inv_housing: "cpu_ok n c \<Longrightarrow> c_housing c < n"
  by (simp add: cpu_ok_def cpu_wf_def)

lemma safe_s_execute:
  assumes "required_operands (o_mnemonic op) \<le> length (o_operands op)"
  shows "safe (run_inv kb sh i d F ops) anything (s_execute lm i op actor)"
proof (rule safeI)
  fix s assume s: "run_inv kb sh i d F ops s"
  let ?c = "s_cpus s ! i" and ?x = "\<lparr>x_cpu = s_cpus s ! i, x_world = s_world s, x_journal = s_journal s\<rparr>"
  have c: "cpu_ok (length (fst sh)) ?c" "i < length (s_cpus s)" using run_inv_cpu [OF s] by blast+
  have kb: "s_knowledge s = kb" "world_inv kb sh (s_world s)" using run_inv_world [OF s] by blast+
  have "exec_inv kb sh (cpu_shape ?c) ?x" using c(1) kb by (simp add: exec_inv_def cpu_ok_def)
  note ex = safeD(1,2) [OF safe_execute_operation [OF assms] this, of lm "s_tick s" actor]
  obtain r x where run: "execute_operation lm kb (s_tick s) op actor ?x = (r, x)" by fastforce
  have x: "world_inv kb sh (x_world x)" "cpu_wf (length (fst sh)) (cpu_shape ?c) (x_cpu x)" "r \<noteq> Panic"
    using ex run by (simp_all add: exec_inv_def)
  from x(2) have same: "cpu_shape (x_cpu x) = cpu_shape ?c" unfolding cpu_wf_def by blast
  note parts = cpu_shape_parts [OF same]
  have "cpu_ok (length (fst sh)) (x_cpu x)"
    using cpu_ok_shape [OF x(2)] c(1) parts unfolding cpu_ok_def by simp
  from run_inv_set_cpu [OF s this] have "run_inv kb sh i d F ops (s_set_cpu i (x_cpu x) s)"
    using parts s unfolding run_inv_def by simp
  from run_inv_set_world [OF this x(1)]
  have "run_inv kb sh i d F ops ((s_set_cpu i (x_cpu x) s)\<lparr>s_world := x_world x, s_journal := x_journal x\<rparr>)"
    using run_inv_journal [of kb sh i d F ops "(s_set_cpu i (x_cpu x) s)\<lparr>s_world := x_world x\<rparr>" "x_journal x"] by simp
  then show "wp (s_execute lm i op actor) (\<lambda>_ s'. run_inv kb sh i d F ops s' \<and> True) (run_inv kb sh i d F ops) s"
    using run c(2) kb(1) x(3) by (cases r) (simp_all add: wp_def s_execute_def s_set_cpu_def)
qed

lemma notify_writes_wf [wf_intros]: "behaviour_wf n r \<Longrightarrow> behaviour_wf n (notify_writes ws r)"
proof (induction ws arbitrary: r)
  case (Cons w ws)
  obtain d f x y where w: "w = (d, f, x, y)" by (cases w)
  have "behaviour_wf n (notify_field_write d f x y r)"
    using Cons.prems by (simp add: behaviour_wf_def notify_field_write_def)
  from Cons.IH [OF this] show ?case by (simp add: notify_writes_def w)
qed (simp add: notify_writes_def)

lemma world_inv_take_writes: "world_inv kb sh w \<Longrightarrow> world_inv kb sh (w\<lparr>w_field_writes := ws\<rparr>)"
  by (simp add: world_inv_def world_wf_def world_shape_def)

lemma run_inv_deliver:
  assumes s: "run_inv kb sh i d F ops s"
  shows "run_inv kb sh i d F ops (deliver_field_writes s)"
proof -
  have "run_inv kb sh i d F ops (s\<lparr>s_world := (s_world s)\<lparr>w_field_writes := []\<rparr>,
      s_behaviours := notify_writes (w_field_writes (s_world s)) (s_behaviours s), s_journal := s_journal s\<rparr>)"
    using run_inv_world [OF s] by (intro run_inv_frame [OF s] world_inv_take_writes wf_intros) auto
  then show ?thesis by (simp add: deliver_field_writes_def take_field_writes_def)
qed

lemma safe_flush_effects: "safe (run_inv kb sh i d F ops) anything (flush_effects i)"
  unfolding flush_effects_def cpu_take_effects_def Let_def split_beta
proof (intro safeI wp_intros wp_safe [OF safe_s_cpu] wp_safe [OF safe_s_note])
  fix s c assume "run_inv kb sh i d F ops s" "cpu_ok (length (fst sh)) c \<and> c_operations_this_tick c = ops"
  then show "run_inv kb sh i d F ops (s_set_cpu i (snd (fst (j_take (c_journal c)), c\<lparr>c_journal := snd (j_take (c_journal c))\<rparr>)) s)"
    using run_inv_set_cpu [of kb sh i d F ops s "c\<lparr>c_journal := snd (j_take (c_journal c))\<rparr>"] by simp
qed auto

lemma safe_fault_cpu: "safe (run_inv kb sh i d F ops) anything (fault_cpu i message)"
  unfolding fault_cpu_def
proof (intro safeI wp_intros wp_safe [OF safe_s_cpu] wp_safe [OF safe_s_insert_field])
  fix s c assume "run_inv kb sh i d F ops s" "cpu_ok (length (fst sh)) c \<and> c_operations_this_tick c = ops"
  then show "run_inv kb sh i d F ops (s_set_cpu i ((cpu_write_state CpuFault c)\<lparr>c_error := Some message\<rparr>) s)"
    using run_inv_set_cpu [of kb sh i d F ops s "(cpu_write_state CpuFault c)\<lparr>c_error := Some message\<rparr>"]
      cpu_shape_parts [OF cpu_shape_updates(5) [of CpuFault c]] by simp
qed (auto dest: run_inv_housing)

lemma wp_count_operation:
  assumes "run_inv kb sh i d F ops s" "\<And>s'. run_inv kb sh i d F (ops + 1) s' \<Longrightarrow> R () s'"
  shows "wp (count_operation i actor) R E s"
proof -
  let ?c = "s_cpus s ! i"
  have c: "cpu_ok (length (fst sh)) ?c" "i < length (s_cpus s)" "c_operations_this_tick ?c = ops"
    using run_inv_cpu [OF assms(1)] assms(1) by (auto simp: run_inv_def)
  have "run_inv kb sh i d F (ops + 1) (s_set_cpu i (?c\<lparr>c_operations_this_tick := ops + 1\<rparr>) s)"
    using run_inv_set_cpu [OF assms(1), of "?c\<lparr>c_operations_this_tick := ops + 1\<rparr>"] c by simp
  then have "run_inv kb sh i d F (ops + 1) ((s_set_cpu i (?c\<lparr>c_operations_this_tick := ops + 1\<rparr>) s)\<lparr>s_journal := j\<rparr>)" for j
    by (rule run_inv_journal)
  then show ?thesis
    unfolding count_operation_def s_cpu_def s_note_def
    using c by (intro wp_intros) (auto intro: assms(2))
qed

text \<open>One operation: the counter of the IC goes up by one, whatever the outcome, and the frame is kept.\<close>

lemma run_operation_effect:
  assumes "run_inv kb sh i d F ops s" "required_operands (o_mnemonic op) \<le> length (o_operands op)"
  shows "wp (run_operation lm i op) (\<lambda>e s'. se_cpu e = i \<and> run_inv kb sh i d F (ops + 1) s') (\<lambda>s'. \<exists>k. run_inv kb sh i d F k s') s"
proof -
  have set: "run_inv kb sh i d F ops
      (s_set_cpu i (cpu_write_state Ready (cpu_write_pc pc (configure_journal b a c))) s')"
    if "run_inv kb sh i d F ops s'" "cpu_ok (length (fst sh)) c \<and> c_operations_this_tick c = ops" for s' c pc b a
    using run_inv_set_cpu [OF that(1), of "cpu_write_state Ready (cpu_write_pc pc (configure_journal b a c))"] that(2)
      cpu_shape_parts [of "cpu_write_state Ready (cpu_write_pc pc (configure_journal b a c))" c] by simp
  show ?thesis
    unfolding run_operation_def Let_def
    using assms
    by (intro wp_intros wp_safe_weaken [OF safe_s_cpu] wp_safe_weaken [OF safe_s_intern]
        wp_safe_weaken [OF safe_s_insert_field] wp_safe_weaken [OF safe_s_execute]
        wp_count_operation
        wp_safe_weaken [OF safe_flush_effects] wp_safe_weaken [OF safe_fault_cpu])
      (auto intro: set run_inv_deliver dest: run_inv_housing)
qed

lemma current_operation_operands:
  "cpu_ok n c \<Longrightarrow> current_operation c = Some op \<Longrightarrow> required_operands (o_mnemonic op) \<le> length (o_operands op)"
  by (auto simp: cpu_ok_def operands_ok_def current_operation_def operation_at_or_after_def bt_first_at_or_after_def
      dest!: find_Some_iff [THEN iffD1]) (metis (mono_tags, lifting) case_prodD nth_mem prod.collapse)

text \<open>A step of an IC leaves everything but that IC and the shared world, behaviours and journal as it was.\<close>

lemma step_instruction_effect:
  assumes "run_inv kb sh i d F ops s"
  shows "wp (step_instruction lm i)
    (\<lambda>e s'. se_cpu e = i \<and> (run_inv kb sh i d F (ops + 1) s' \<or>
       current_operation (s_cpus s ! i) = None \<and> run_inv kb sh i d F ops s' \<and> c_state (s_cpus s' ! i) = Halted))
    (\<lambda>s'. \<exists>k. run_inv kb sh i d F k s') s"
proof -
  have c: "cpu_ok (length (fst sh)) (s_cpus s ! i)" "i < length (s_cpus s)" "c_operations_this_tick (s_cpus s ! i) = ops"
    using run_inv_cpu [OF assms] assms by (auto simp: run_inv_def)
  have halt: "run_inv kb sh i d F ops (s_set_cpu i ((s_cpus s ! i)\<lparr>c_state := Halted\<rparr>) s)"
    using run_inv_set_cpu [OF assms, of "(s_cpus s ! i)\<lparr>c_state := Halted\<rparr>"] c by simp
  show ?thesis
    unfolding step_instruction_def
    using c assms halt
    by (intro wp_intros wp_mono [OF run_operation_effect])
      (auto simp: nth_opt_eq_Some s_set_cpu_def intro: current_operation_operands)
qed

lemma sim_inv_journal: "sim_inv kb sh s \<Longrightarrow> sim_inv kb sh (s\<lparr>s_journal := j\<rparr>)"
  using adapter_bound_cong [of "s\<lparr>s_journal := j\<rparr>" s] by (auto simp: sim_inv_def list_all_iff)

lemma sim_inv_slot: "sim_inv kb sh s \<Longrightarrow> sim_inv kb sh (s\<lparr>s_scheduler_slot := k\<rparr>)"
  using adapter_bound_cong [of "s\<lparr>s_scheduler_slot := k\<rparr>" s] by (auto simp: sim_inv_def list_all_iff)

lemma tick_inv_journal: "tick_inv kb sh t sl os k s \<Longrightarrow> tick_inv kb sh t sl os k (s\<lparr>s_journal := j\<rparr>)"
  by (simp add: tick_inv_def sim_inv_journal ops_of_def)

lemma wp_set_scheduler_slot:
  assumes "tick_inv kb sh t sl os k s" "\<And>s'. tick_inv kb sh t sl os k' s' \<Longrightarrow> R () s'"
  shows "wp (set_scheduler_slot k') R E s"
proof -
  have "tick_inv kb sh t sl os k' (s\<lparr>s_scheduler_slot := k'\<rparr>)"
    using assms(1) by (simp add: tick_inv_def sim_inv_slot ops_of_def)
  then show ?thesis unfolding set_scheduler_slot_def s_note_def
    by (intro wp_intros assms(2) tick_inv_journal)
qed

lemma sim_inv_bound: "sim_inv kb sh s \<Longrightarrow> a \<in> set (s_schedule s) \<Longrightarrow> adapter_bound s a"
  by (simp add: sim_inv_def list_all_iff)

lemma adapter_lifecycle_eq: "adapter_bound s a \<Longrightarrow> adapter_lifecycle a s = (Ok (lifecycle_of a s), s)"
  by (cases a) (simp_all add: ic10_lifecycle_def lua_lifecycle_def s_lua_def lifecycle_of_def prog_simps)

lemma wp_adapter_lifecycle:
  assumes "adapter_bound s a" "R (lifecycle_of a s) s"
  shows "wp (adapter_lifecycle a) R E s"
  using assms by (simp add: wp_def adapter_lifecycle_eq)

lemma sim_inv_set_cpu:
  assumes "sim_inv kb sh s" "cpu_ok (length (fst sh)) c"
  shows "sim_inv kb sh (s_set_cpu i c s)"
proof -
  have "list_all (adapter_bound (s_set_cpu i c s)) (s_schedule s)"
    using assms(1) adapter_bound_cong [of "s_set_cpu i c s" s] by (auto simp: sim_inv_def s_set_cpu_def list_all_iff)
  moreover have "set ((s_cpus s)[i := c]) \<subseteq> insert c (set (s_cpus s))" by (rule set_update_subset_insert)
  ultimately show ?thesis using assms by (auto simp: sim_inv_def s_set_cpu_def list_all_iff)
qed

lemma sim_inv_set_lua: "sim_inv kb sh s \<Longrightarrow> sim_inv kb sh (s_set_lua i r s)"
  using adapter_bound_cong [of "s_set_lua i r s" s] by (auto simp: sim_inv_def s_set_lua_def list_all_iff)

lemma sim_inv_cpu: "sim_inv kb sh s \<Longrightarrow> i < length (s_cpus s) \<Longrightarrow> cpu_ok (length (fst sh)) (s_cpus s ! i)"
  by (simp add: sim_inv_def list_all_length)

lemma ops_of_set_cpu: "ops_of (s_set_cpu i c s) = (ops_of s)[i := c_operations_this_tick c]"
  by (simp add: ops_of_def s_set_cpu_def map_update)

lemma wp_adapter_halt:
  assumes "tick_inv kb sh t sl os k s" "adapter_bound s a" "\<And>s'. tick_inv kb sh t sl os k s' \<Longrightarrow> R () s'"
  shows "wp (adapter_halt a) R E s"
proof (cases a)
  case (AdapterIc10 i)
  then have i: "i < length (s_cpus s)" using assms(2) by simp
  let ?c = "(s_cpus s ! i)\<lparr>c_state := Halted\<rparr>"
  have "sim_inv kb sh (s_set_cpu i ?c s)"
    using assms(1) i sim_inv_cpu [of kb sh s i] by (intro sim_inv_set_cpu) (auto simp: tick_inv_def)
  moreover have "ops_of (s_set_cpu i ?c s) = ops_of s"
    using i list_update_id [of "ops_of s" i] by (simp add: ops_of_def s_set_cpu_def map_update)
  ultimately have "tick_inv kb sh t sl os k (s_set_cpu i ?c s)" using assms(1) by (simp add: tick_inv_def s_set_cpu_def)
  then show ?thesis
    using i AdapterIc10 by (simp add: ic10_halt_def s_note_def) (intro wp_intros assms(3) tick_inv_journal, auto)
next
  case (AdapterLua i)
  then show ?thesis using assms by (simp add: lua_halt_def s_lua_def) (intro wp_intros, auto)
qed

lemma wp_on_behave:
  assumes "safe (behave_inv kb sh) anything m" "sched_inv kb sh t sl s"
    and "\<And>s'. sched_inv kb sh t sl s' \<Longrightarrow> R () s'" "\<And>s'. sched_inv kb sh t sl s' \<Longrightarrow> E s'"
  shows "wp (on_behave m) R E s"
proof -
  let ?b = "\<lparr>bh_runtime = s_behaviours s, bh_world = s_world s, bh_journal = s_journal s\<rparr>"
  obtain r b where run: "m ?b = (r, b)" by fastforce
  have "behave_inv kb sh ?b" using assms(2) by (simp add: sched_inv_def sim_inv_def behave_inv_def)
  then have b: "behave_inv kb sh b" "r \<noteq> Panic" using safeD(1,2) [OF assms(1)] run by fastforce+
  let ?s = "s\<lparr>s_behaviours := bh_runtime b, s_world := bh_world b, s_journal := bh_journal b\<rparr>"
  have "sched_inv kb sh t sl ?s"
    using assms(2) b(1) adapter_bound_cong [of ?s s]
    by (auto simp: sched_inv_def sim_inv_def behave_inv_def list_all_iff)
  then show ?thesis using assms(3,4) run b(2) by (cases r) (simp_all add: wp_def on_behave_def)
qed

lemma sched_inv_journal: "sched_inv kb sh t sl s \<Longrightarrow> sched_inv kb sh t sl (s\<lparr>s_journal := j\<rparr>)"
  by (simp add: sched_inv_def sim_inv_journal)

lemma sched_inv_set_cpu:
  "sched_inv kb sh t sl s \<Longrightarrow> cpu_ok (length (fst sh)) c \<Longrightarrow> sched_inv kb sh t sl (s_set_cpu i c s)"
  by (simp add: sched_inv_def sim_inv_set_cpu) (simp add: s_set_cpu_def)

lemma sched_inv_cpu: "sched_inv kb sh t sl s \<Longrightarrow> i < length (s_cpus s) \<Longrightarrow> cpu_ok (length (fst sh)) (s_cpus s ! i)"
  unfolding sched_inv_def by (blast intro: sim_inv_cpu)

lemma safe_adapter_begin_tick: "safe (sched_inv kb sh t sl) anything (adapter_begin_tick tick a)"
proof (cases a)
  case (AdapterIc10 i)
  show ?thesis unfolding AdapterIc10 adapter_begin_tick.simps ic10_begin_tick_def s_note_def Let_def
    by (intro safeI wp_intros)
      (auto simp: nth_opt_eq_Some intro!: sched_inv_journal sched_inv_set_cpu dest: sched_inv_cpu)
next
  case (AdapterLua i)
  show ?thesis unfolding AdapterLua adapter_begin_tick.simps lua_begin_tick_def s_lua_def
    by (intro safeI wp_intros) (auto simp: sched_inv_def sim_inv_set_lua, simp_all add: s_set_lua_def)
qed

lemma wp_advance_tick:
  assumes "sched_inv kb sh t sl s" "\<And>s'. sched_inv kb sh (t + 1) sl s' \<Longrightarrow> R () s'" "\<And>s' t'. sched_inv kb sh t' sl s' \<Longrightarrow> E s'"
  shows "wp advance_tick R E s"
proof -
  have next_tick: "sched_inv kb sh (t + 1) sl (s'\<lparr>s_tick := s_tick s' + 1\<rparr>)" if "sched_inv kb sh t sl s'" for s' :: "'a simulator"
    using that adapter_bound_cong [of "s'\<lparr>s_tick := s_tick s' + 1\<rparr>" s'] by (auto simp: sched_inv_def sim_inv_def list_all_iff)
  have slot: "sched_inv kb sh t' sl (s'\<lparr>s_scheduler_slot := k\<rparr>)" if "sched_inv kb sh t' sl s'" for s' :: "'a simulator" and k t'
    using that by (simp add: sched_inv_def sim_inv_slot)
  have tick: "s_tick s' = t'" if "sched_inv kb sh t' sl s'" for s' :: "'a simulator" and t' using that by (simp add: sched_inv_def)
  show ?thesis
    unfolding advance_tick_def s_note_def set_scheduler_slot_def
    using assms(1)
    by (intro wp_intros wp_on_behave [OF safe_tick_end] wp_on_behave [OF safe_tick_start]
        wp_safe_weaken [OF safe_for_each [OF safe_adapter_begin_tick]])
      (auto intro: next_tick slot sched_inv_journal assms(2,3) simp: tick)
qed

end
