(* ===== verification/Instructions.thy ===== *)
theory Instructions
  imports Execute_Safety
begin

unbundle bit_operations_syntax

text \<open>
  What single instructions compute: the pseudo-random generator, bit fields, the stack, subroutine
  calls, batch aggregation and the encoding of execution states in the journal; and the statement
  that no instruction panics or breaks the invariant of the CPU and the world.
\<close>

section \<open>Programs that only observe\<close>

text \<open>
  Reading registers and resolving operands appends to the private journal and changes nothing else;
  \<open>core\<close> is the CPU without its journal, and a program that \<open>observes\<close> depends on nothing but the core
  and leaves it unchanged.
\<close>

named_theorems observe_intros \<open>programs that only observe\<close>

definition core :: "cpu \<Rightarrow> cpu" where
  "core c = c\<lparr>c_journal := empty_journal\<rparr>"

definition observes :: "(cpu, 'e, 'a) prog \<Rightarrow> bool" where
  "observes m \<longleftrightarrow> (\<forall>c. core (snd (m c)) = core c \<and> fst (m c) = fst (m (core c)))"

text \<open>A CPU with a stack of four cells whose program has one label.\<close>

definition sample_cpu :: cpu where
  "sample_cpu = \<lparr>c_id = ''ic'', c_program_id = ''p'', c_name = ''IC'', c_housing = 0,
     c_program = \<lparr>p_source_path = [], p_debug_source_path = [], p_source = [], p_operations = [],
       p_labels = [(''main'', 7)], p_defines = [], p_aliases = [], p_generated_to_source = []\<rparr>,
     c_registers = replicate 18 (f64_of_nat 0), c_stack = replicate 4 (f64_of_nat 0), c_pins = replicate 6 None,
     c_pc = 0, c_state = Ready, c_error = None, c_operations_this_tick = 0, c_random_state = 1,
     c_journal = empty_journal, c_journal_enabled = False, c_journal_actor = ActorDebugger\<rparr>"

definition sample_exec :: exec where
  "sample_exec = \<lparr>x_cpu = sample_cpu, x_world = sample_world, x_journal = empty_journal\<rparr>"

text \<open>An instance of the platform's mathematical functions.\<close>

definition sample_libm :: libm where
  "sample_libm = \<lparr>lm_powf = f64_mul, lm_atan2 = f64_add, lm_acos = f64_abs, lm_asin = f64_abs, lm_atan = f64_abs,
     lm_cos = f64_abs, lm_exp = f64_abs, lm_ln = f64_abs, lm_sin = f64_abs, lm_tan = f64_abs\<rparr>"

section \<open>Lemmas\<close>

lemma xor_eq_0D: "x XOR y = (0 :: 64 word) \<Longrightarrow> bit x i = bit y i"
  by (drule arg_cong [where f = "\<lambda>w. bit w i"]) (simp add: bit_xor_iff)

lemma xor_push_inj:
  assumes "0 < n" "x XOR push_bit n x = (0 :: 64 word)"
  shows "x = 0"
proof -
  have "\<not> bit x i" for i
  proof (induction i rule: less_induct)
    case (less i)
    then show ?case using less [of "i - n"] assms(1) xor_eq_0D [OF assms(2), of i] by (auto simp: bit_push_bit_iff)
  qed
  then show ?thesis by (simp add: bit_eq_iff)
qed

lemma xor_drop_inj:
  assumes "0 < n" "x XOR drop_bit n x = (0 :: 64 word)"
  shows "x = 0"
proof -
  have "\<not> bit x i" for i
  proof (induction "64 - i" arbitrary: i rule: less_induct)
    case less
    show ?case
    proof
      assume i: "bit x i"
      then have "bit x (i + n)" using xor_eq_0D [OF assms(2), of i] by (simp add: bit_drop_bit_eq add.commute)
      moreover have "64 - (i + n) < 64 - i" using bit_imp_le_length [OF i] assms(1) by simp
      ultimately show False using less by blast
    qed
  qed
  then show ?thesis by (simp add: bit_eq_iff)
qed

lemma xor_additive: "(a XOR b) XOR (c XOR d) = (a XOR c) XOR (b XOR d :: 64 word)"
  by (rule bit_word_eqI) (auto simp: bit_xor_iff)

lemma xorshift_xor: "xorshift (a XOR b) = xorshift a XOR xorshift b"
proof -
  define f where "f n x = x XOR push_bit n x" for n and x :: u64
  define g where "g n x = x XOR drop_bit n x" for n and x :: u64
  have "f n (x XOR y) = f n x XOR f n y" "g n (x XOR y) = g n x XOR g n y" for n x y
    unfolding f_def g_def push_bit_xor drop_bit_xor by (rule xor_additive)+
  moreover have "xorshift r = f 17 (g 7 (f 13 r))" for r
    unfolding f_def g_def xorshift_def Let_def ..
  ultimately show ?thesis by simp
qed

lemma xorshift_eq_0: "xorshift r = 0 \<longleftrightarrow> r = 0"
proof
  assume "xorshift r = 0"
  then have "(r XOR push_bit 13 r) XOR drop_bit 7 (r XOR push_bit 13 r) = 0"
    unfolding xorshift_def Let_def by (rule xor_push_inj [rotated]) simp
  then have "r XOR push_bit 13 r = 0" by (rule xor_drop_inj [rotated]) simp
  then show "r = 0" by (rule xor_push_inj [rotated]) simp
qed (simp add: xorshift_def)

text \<open>Undoing \<open>value ^= value << n\<close> and \<open>value ^= value >> n\<close>, and the three steps of the generator in reverse.\<close>

definition undo_left :: "nat \<Rightarrow> u64 \<Rightarrow> u64" where
  "undo_left n x = fold (\<lambda>j y. y XOR push_bit (j * n) x) [0..<64] 0"

definition undo_right :: "nat \<Rightarrow> u64 \<Rightarrow> u64" where
  "undo_right n x = fold (\<lambda>j y. y XOR drop_bit (j * n) x) [0..<64] 0"

definition previous_state :: "u64 \<Rightarrow> u64" where
  "previous_state r = undo_left 13 (undo_right 7 (undo_left 17 r))"

lemma xor_chain: "(a XOR b) XOR (b XOR c) = (a XOR c :: 64 word)"
  by (rule bit_word_eqI) (auto simp: bit_xor_iff)

lemma undo_left_step: "0 < n \<Longrightarrow> undo_left n (x XOR push_bit n x) = x"
proof -
  assume n: "0 < n"
  have "fold (\<lambda>j y. y XOR push_bit (j * n) (x XOR push_bit n x)) [0..<m] 0 = x XOR push_bit (m * n) x" for m
  proof (induction m)
    case (Suc m)
    have "push_bit (m * n) (x XOR push_bit n x) = push_bit (m * n) x XOR push_bit (Suc m * n) x"
      by (simp add: push_bit_xor push_bit_push_bit add.commute)
    then show ?case using Suc by (simp add: xor_chain del: mult_Suc)
  qed simp
  moreover have "push_bit (64 * n) x = 0" using n by (intro bit_word_eqI) (simp add: bit_push_bit_iff)
  ultimately show ?thesis by (simp add: undo_left_def del: upt_Suc)
qed

lemma undo_right_step: "0 < n \<Longrightarrow> undo_right n (x XOR drop_bit n x) = x"
proof -
  assume n: "0 < n"
  have "fold (\<lambda>j y. y XOR drop_bit (j * n) (x XOR drop_bit n x)) [0..<m] 0 = x XOR drop_bit (m * n) x" for m
  proof (induction m)
    case (Suc m)
    have "drop_bit (m * n) (x XOR drop_bit n x) = drop_bit (m * n) x XOR drop_bit (Suc m * n) x"
      by (simp add: drop_bit_xor drop_bit_drop_bit add.commute)
    then show ?case using Suc by (simp add: xor_chain del: mult_Suc)
  qed simp
  moreover have "drop_bit (64 * n) x = 0"
    using n bit_imp_le_length [of x] by (intro bit_word_eqI) (auto simp: bit_drop_bit_eq)
  ultimately show ?thesis by (simp add: undo_right_def del: upt_Suc)
qed

lemma previous_state_xorshift: "previous_state (xorshift r) = r"
  by (simp only: previous_state_def xorshift_def Let_def undo_left_step undo_right_step zero_less_numeral)

lemma random_unit_exact:
  "is_finite (random_unit r) \<and> \<not> sign_neg (random_unit r) \<and> units (random_unit r) < one_units \<and>
    units (random_unit r) * 2 ^ 53 = uint (drop_bit 11 r) * one_units"
proof -
  let ?n = "uint (drop_bit 11 r)"
  have "uint r div 2 ^ 11 < 2 ^ 53" using uint_bounded [of r] by simp
  moreover have "?n = uint r div 2 ^ 11" by (simp add: drop_bit_eq_div uint_div)
  ultimately have "?n < 2 ^ 53" by simp
  then have n: "0 \<le> ?n" "?n < 2 ^ 53" by (auto intro: uint_ge_0)
  obtain b where b: "0 \<le> b" "b < inf_mag" "mag_units b = ?n * 2 ^ 1021" using representable [OF n, of 1021] by auto
  have one: "one_units = 2 ^ 1021 * 2 ^ 53" by (simp add: one_units_def power_add [symmetric])
  have top: "units (f64_of_int (2 ^ 53)) = 2 ^ 53 * one_units" "is_finite (f64_of_int (2 ^ 53))" "\<not> sign_neg (f64_of_int (2 ^ 53))"
    using round_representable [of 1 1127 False] by (simp_all add: f64_of_int_def one_units_def power_add [symmetric])
  have "0 < units (f64_of_int (2 ^ 53))" unfolding top(1) by simp
  then have mag: "mag (f64_of_int (2 ^ 53)) \<noteq> 0" by (metis less_irrefl units_eq_0)
  have "random_unit r = round_units False (?n * one_units * one_units) (2 ^ 53 * one_units)"
    using n top mag units_of_int [of ?n] finite_of_int [of ?n] sign_of_int [of ?n]
    by (simp add: random_unit_def f64_div_def Let_def)
  also have "?n * one_units * one_units = mag_units b * (2 ^ 53 * one_units)" by (simp add: b(3) one)
  also have "round_units False (mag_units b * (2 ^ 53 * one_units)) (2 ^ 53 * one_units) = mk False b"
    using b(1,2) by (rule round_units_exact) simp
  finally have r: "random_unit r = mk False b" .
  have "b < 9223372036854775808" using b(2) inf_mag_bounds(2) by linarith
  then have "units (random_unit r) = ?n * 2 ^ 1021" "is_finite (random_unit r)" "\<not> sign_neg (random_unit r)"
    using b r by (simp_all add: units_def is_finite_def)
  moreover have "?n * 2 ^ 1021 < one_units" using n(2) by (simp add: one)
  ultimately show ?thesis by (simp add: one)
qed

lemma bit_field_mask: "bit (field_mask len) i \<longleftrightarrow> i < unat len \<and> i < 64"
  by (auto simp: field_mask_def mask_eq_exp_minus_1 [symmetric] push_bit_eq_mult bit_mask_iff)

lemma masked_shift: "unat start < 64 \<Longrightarrow> unat (start AND 63 :: u32) = unat start"
proof -
  assume s: "unat start < 64"
  have "(63 :: u32) = mask 6" by (simp add: mask_eq_exp_minus_1)
  then have "unat (start AND 63) = unat (take_bit 6 start)" by (simp add: take_bit_eq_mask)
  also have "\<dots> = take_bit 6 (unat start)" by (rule unsigned_take_bit_eq)
  also have "\<dots> = unat start mod 64" by (simp add: take_bit_eq_mod)
  finally show ?thesis using s by simp
qed

lemma bit_insert_bits:
  assumes "unat start + unat len \<le> 64" "unat len \<le> 53" "unat start < 64" "i < 64"
  shows "bit (insert_bits target source start len) i =
    (if unat start \<le> i \<and> i < unat start + unat len then bit source (i - unat start) else bit target i)"
proof -
  have "min len 53 = len" using assms(2) by (simp add: min_def word_le_nat_alt)
  then show ?thesis using assms
    by (auto simp: insert_bits_def Let_def masked_shift bit_simps bit_field_mask)
qed

lemma core_fields [simp]:
  "c_registers (core c) = c_registers c" "c_stack (core c) = c_stack c" "c_pins (core c) = c_pins c"
  "c_program (core c) = c_program c" "c_pc (core c) = c_pc c" "core (core c) = core c"
  "core (note_read t v c) = core c" "core (note_write t u v c) = core c" "core (note_write_bits t x y c) = core c"
  by (simp_all add: core_def note_read_def note_write_def note_write_bits_def)

lemma observesD: "observes m \<Longrightarrow> core (snd (m c)) = core c" "observes m \<Longrightarrow> core c = core d \<Longrightarrow> fst (m c) = fst (m d)"
  unfolding observes_def by (blast, metis)

lemma observes_bind [observe_intros]:
  assumes "observes m" "\<And>x. observes (f x)"
  shows "observes (bind m f)"
  unfolding observes_def
proof (intro allI)
  fix c
  obtain r c1 where m: "m c = (r, c1)" by fastforce
  obtain r' c2 where m': "m (core c) = (r', c2)" by fastforce
  have eq: "r' = r" "core c1 = core c" "core c2 = core c1"
    using observesD(2) [OF assms(1), of c "core c"] observesD(1) [OF assms(1), of c] observesD(1) [OF assms(1), of "core c"] m m'
    by simp_all
  show "core (snd (bind m f c)) = core c \<and> fst (bind m f c) = fst (bind m f (core c))"
    using observesD(1) [OF assms(2), of _ c1] observesD(2) [OF assms(2) eq(3)] eq m m'
    by (cases r) (simp_all add: prog_simps)
qed

lemma observes_basic [observe_intros]:
  "observes (ret x)" "observes (throw e)" "observes (ok_or e opt)" "observes (expect opt)" "observes (lift_result r)"
  "observes (modify (note_read t v))"
  by (auto simp: observes_def prog_simps ok_or_def expect_def lift_result_def split: option.split sum.split)

lemma observes_gets [observe_intros]: "(\<And>c. f (core c) = f c) \<Longrightarrow> observes (gets f)"
  by (simp add: observes_def prog_simps)

lemma observes_attempt [observe_intros]:
  assumes "observes m" shows "observes (attempt m)"
proof -
  have "core (snd (attempt m c)) = core c \<and> fst (attempt m c) = fst (attempt m (core c))" for c
    using assms [unfolded observes_def, rule_format, of c]
    by (cases "m c"; cases "m (core c)"; cases "fst (m c)") (auto simp: attempt_def)
  then show ?thesis by (simp add: observes_def)
qed

lemma observes_case [observe_intros]:
  "observes m \<Longrightarrow> (\<And>x. observes (f x)) \<Longrightarrow> observes (case opt of None \<Rightarrow> m | Some x \<Rightarrow> f x)"
  "observes m \<Longrightarrow> observes n \<Longrightarrow> observes (if b then m else n)"
  "(\<And>e. observes (g e)) \<Longrightarrow> (\<And>x. observes (f x)) \<Longrightarrow> observes (case r of Inl e \<Rightarrow> g e | Inr x \<Rightarrow> f x)"
  by (simp_all split: option.split sum.split)

lemma observes_value_of: "observes (value_of kb source)"
  unfolding value_of_def register_index_def cpu_read_register_def resolve_program_number_def Let_def
  by (intro observe_intros) simp_all

lemma observesE:
  assumes "observes m" "fst (m c) = Ok v" "core d = core c"
  obtains d' where "m d = (Ok v, d')" "core d' = core c"
  using assms by (cases "m d") (metis fst_conv observes_def snd_conv)

lemma read_write_cells:
  "i < length (c_registers c) \<Longrightarrow> \<exists>c'. cpu_read_register i c = (Ok (c_registers c ! i), c') \<and> core c' = core c"
  "i < length (c_registers c) \<Longrightarrow>
     \<exists>c'. cpu_write_register i v c = (Ok (), c') \<and> core c' = core c\<lparr>c_registers := (c_registers c)[i := v]\<rparr>"
  "a < length (c_stack c) \<Longrightarrow> \<exists>c'. cpu_read_stack a c = (Ok (c_stack c ! a), c') \<and> core c' = core c"
  "a < length (c_stack c) \<Longrightarrow>
     \<exists>c'. cpu_write_stack a v c = (Ok (), c') \<and> core c' = core c\<lparr>c_stack := (c_stack c)[a := v]\<rparr>"
  by (simp_all add: cpu_read_register_def cpu_write_register_def cpu_read_stack_def cpu_write_stack_def prog_simps)
     (simp_all add: core_def)

lemma core_eqD:
  "core c = core d \<Longrightarrow> c_registers c = c_registers d" "core c = core d \<Longrightarrow> c_stack c = c_stack d"
  "core c = core d \<Longrightarrow> c_program c = c_program d"
  by (metis core_fields(1)) (metis core_fields(2), metis core_fields(4))

lemma checked_address_of_nat:
  "n < len \<Longrightarrow> len \<le> 2 ^ 53 \<Longrightarrow> checked_address (f64_of_nat n) len label = Inr n"
  using cmp_of_int(1) [of "int n" 0] finite_of_int [of "int n"] as_usize_of_nat [of n]
  by (simp add: checked_address_def f64_zero_of_int Let_def)

lemma exec_push_effect:
  assumes "cpu_wf devices k c" "fst k < 2 ^ 53" "c_registers c ! stack_pointer_register = f64_of_nat n" "n < fst k"
    and "o_operands op = [source]" "fst (value_of kb source c) = Ok v"
  obtains c' where "exec_push kb op c = (Ok (), c')"
    "core c' = core c\<lparr>c_stack := (c_stack c)[n := v],
       c_registers := (c_registers c)[stack_pointer_register := f64_of_nat (n + 1)]\<rparr>"
proof -
  have sp: "stack_pointer_register < length (c_registers c)" and n: "n < length (c_stack c)" "length (c_stack c) = fst k"
    using assms(1,4) special_register_less by (auto simp: cpu_wf_def cpu_shape_def)
  obtain c1 where c1: "cpu_read_register stack_pointer_register c = (Ok (f64_of_nat n), c1)" "core c1 = core c"
    using read_write_cells(1) [OF sp] assms(3) by auto
  have len: "length (c_stack c1) = fst k" "length (c_registers c1) = length (c_registers c)"
    using core_eqD [OF c1(2)] n by simp_all
  obtain c2 where c2: "value_of kb source c1 = (Ok v, c2)" "core c2 = core c"
    using observesE [OF observes_value_of assms(6) c1(2)] .
  obtain c3 where c3: "cpu_write_stack n v c2 = (Ok (), c3)" "core c3 = core c\<lparr>c_stack := (c_stack c)[n := v]\<rparr>"
    using read_write_cells(4) [of n c2 v] core_eqD [OF c2(2)] n c2(2) by auto
  have regs: "c_registers c3 = c_registers c" using arg_cong [OF c3(2), of c_registers] by simp
  obtain c4 where c4: "cpu_read_register stack_pointer_register c3 = (Ok (f64_of_nat n), c4)" "core c4 = core c3"
    using read_write_cells(1) [of stack_pointer_register c3] assms(3) regs sp by auto
  obtain c5 where c5: "cpu_write_register stack_pointer_register (f64_of_nat (n + 1)) c4 = (Ok (), c5)"
    "core c5 = core c4\<lparr>c_registers := (c_registers c4)[stack_pointer_register := f64_of_nat (n + 1)]\<rparr>"
    using read_write_cells(2) [of stack_pointer_register c4] core_eqD [OF c4(2)] regs sp by auto
  have one: "f64_add (f64_of_nat n) f64_one = f64_of_nat (n + 1)"
    using f64_add_of_int [of "int n" 1] assms(2,4) by (simp add: f64_one_def add.commute)
  have "stack_pointer c = (Ok n, c1)"
    using c1 len checked_address_of_nat [OF assms(4)] assms(2) by (simp add: stack_pointer_def prog_simps)
  then have "exec_push kb op c = (Ok (), c5)"
    using c2 c3 c4 c5 one assms(5) by (simp add: exec_push_def operand_value_def operand_def prog_simps)
  then show thesis using that c5(2) c4(2) c3(2) core_eqD(1) [OF c4(2)] regs by simp
qed

lemma exec_pop_effect:
  assumes "cpu_wf devices k c" "fst k < 2 ^ 53" "c_registers c ! stack_pointer_register = f64_of_nat (n + 1)" "n < fst k"
    and "o_operands op = [target]" "direct_register_index (resolve_alias (c_program c) target) = Some i"
  obtains c' where "exec_pop op c = (Ok (), c')"
    "core c' = core c\<lparr>c_registers := (c_registers c)[stack_pointer_register := f64_of_nat n, i := c_stack c ! n]\<rparr>"
proof -
  have sp: "stack_pointer_register < length (c_registers c)" and n: "n < length (c_stack c)" "length (c_stack c) = fst k"
    and i: "i < length (c_registers c)"
    using assms(1,4,6) special_register_less direct_register_less by (auto simp: cpu_wf_def cpu_shape_def)
  obtain c1 where c1: "cpu_read_register stack_pointer_register c = (Ok (f64_of_nat (n + 1)), c1)" "core c1 = core c"
    using read_write_cells(1) [OF sp] assms(3) by auto
  obtain c2 where c2: "cpu_write_register stack_pointer_register (f64_of_nat n) c1 = (Ok (), c2)"
    "core c2 = core c\<lparr>c_registers := (c_registers c)[stack_pointer_register := f64_of_nat n]\<rparr>"
    using read_write_cells(2) [of stack_pointer_register c1] c1(2) core_eqD [OF c1(2)] sp by auto
  have mid: "c_stack c2 = c_stack c" "c_program c2 = c_program c"
    "c_registers c2 = (c_registers c)[stack_pointer_register := f64_of_nat n]"
    using arg_cong [OF c2(2), of c_stack] arg_cong [OF c2(2), of c_program] arg_cong [OF c2(2), of c_registers] by simp_all
  obtain c3 where c3: "cpu_read_stack n c2 = (Ok (c_stack c ! n), c3)" "core c3 = core c2"
    using read_write_cells(3) [of n c2] mid n by auto
  obtain c4 where c4: "cpu_write_register i (c_stack c ! n) c3 = (Ok (), c4)"
    "core c4 = core c2\<lparr>c_registers := (c_registers c2)[i := c_stack c ! n]\<rparr>"
    using read_write_cells(2) [of i c3] core_eqD [OF c3(2)] c3(2) mid i by auto
  have one: "f64_sub (f64_of_nat (n + 1)) f64_one = f64_of_nat n"
    using f64_sub_of_int [of "int n + 1" 1] assms(2,4) by (simp add: f64_one_def add.commute)
  have "register_index target c3 = (Ok i, c3)"
    using assms(6) core_eqD(3) [OF c3(2)] mid(2) by (simp add: register_index_def prog_simps)
  then have "exec_pop op c = (Ok (), c4)"
    using c1 c2 c3 c4 one mid n assms(5) checked_address_of_nat [OF assms(4)] assms(2)
    by (simp add: exec_pop_def Let_def write_operand_def write_register_def operand_def prog_simps)
  then show thesis using that c4(2) c2(2) mid by simp
qed

lemma is_nan_infinities [simp]: "\<not> is_nan f64_infinity" "\<not> is_nan f64_neg_infinity"
  "key f64_infinity = inf_mag" "key f64_neg_infinity = - inf_mag"
  by (simp_all add: f64_infinity_def f64_neg_infinity_def is_nan_def key_def)

text \<open>Folding a choice function from a number selects an extreme element of the list.\<close>

lemma fold_choice:
  assumes step: "\<And>a v. \<not> is_nan a \<Longrightarrow> \<not> is_nan (f v a) \<and> (f v a = a \<or> f v a = v) \<and> R (f v a) a \<and> (\<not> is_nan v \<longrightarrow> R (f v a) v)"
    and refl: "\<And>a. \<not> is_nan a \<Longrightarrow> R a a" and trans: "\<And>a b c. R a b \<Longrightarrow> R b c \<Longrightarrow> R a c"
    and "\<not> is_nan a"
  shows "\<not> is_nan (fold f vs a) \<and> fold f vs a \<in> insert a (set vs) \<and> R (fold f vs a) a \<and>
    (\<forall>v \<in> set vs. \<not> is_nan v \<longrightarrow> R (fold f vs a) v)"
  using assms(4)
proof (induction vs arbitrary: a)
  case (Cons v vs)
  have "\<not> is_nan (f v a)" "f v a = a \<or> f v a = v" "R (f v a) a" "\<not> is_nan v \<longrightarrow> R (f v a) v"
    using step [OF Cons.prems] by blast+
  moreover note Cons.IH [OF this(1)]
  ultimately show ?case using trans [of "fold f vs (f v a)" "f v a"] by auto
qed (simp add: refl)

lemma extreme_steps:
  "\<not> is_nan a \<Longrightarrow> \<not> is_nan (f64_min a v) \<and> (f64_min a v = a \<or> f64_min a v = v) \<and> f64_le (f64_min a v) a \<and>
     (\<not> is_nan v \<longrightarrow> f64_le (f64_min a v) v)"
  "\<not> is_nan a \<Longrightarrow> \<not> is_nan (f64_max a v) \<and> (f64_max a v = a \<or> f64_max a v = v) \<and> f64_le a (f64_max a v) \<and>
     (\<not> is_nan v \<longrightarrow> f64_le v (f64_max a v))"
  "\<not> is_nan a \<Longrightarrow> f64_le a a" "f64_le a b \<Longrightarrow> f64_le b c \<Longrightarrow> f64_le a c"
  by (auto simp: f64_min_def f64_max_def f64_lt_def f64_le_def)

lemma key_extreme:
  "\<not> is_nan v \<Longrightarrow> inf_mag \<le> key v \<Longrightarrow> v = f64_infinity"
  "\<not> is_nan v \<Longrightarrow> key v \<le> - inf_mag \<Longrightarrow> v = f64_neg_infinity"
proof -
  have "0 \<le> mag v" "0 < inf_mag" by simp_all
  then show "\<not> is_nan v \<Longrightarrow> inf_mag \<le> key v \<Longrightarrow> v = f64_infinity"
    "\<not> is_nan v \<Longrightarrow> key v \<le> - inf_mag \<Longrightarrow> v = f64_neg_infinity"
    unfolding f64_infinity_def f64_neg_infinity_def key_def is_nan_def
    by (intro f64_eqI; cases "sign_neg v"; simp)+
qed

lemma le_extreme: "f64_le f64_infinity v \<Longrightarrow> v = f64_infinity" "f64_le v f64_neg_infinity \<Longrightarrow> v = f64_neg_infinity"
  unfolding f64_le_def is_nan_infinities by (blast intro: key_extreme)+

lemma waiting_bit: "bit (0x1000000000000000 :: u64) i \<longleftrightarrow> i = 60"
proof -
  have "(0x1000000000000000 :: u64) = 2 ^ 60" by simp
  then show ?thesis by (simp only: bit_exp_iff) auto
qed

lemma on_cpu_simp: "m (x_cpu x) = (r, c) \<Longrightarrow> on_cpu m x = (r, x\<lparr>x_cpu := c\<rparr>)"
  by (simp add: on_cpu_def)

lemma rand_dispatch:
  assumes "o_mnemonic op = ''rand''"
  shows "execute_operation lm kb tick op actor =
    bind (on_cpu (modify (cpu_write_pc (o_line op + 1)))) (\<lambda>_. on_cpu (exec_rand op))"
proof -
  have "exec_arithmetic lm kb op = None"
    using assms by (simp add: exec_arithmetic_def binary_function_def unary_function_def
      bitwise_function_def selection_binary_test_def selection_unary_test_def shift_function_def)
  moreover have "exec_local kb tick op = Some (exec_rand op)" using assms by (simp add: exec_local_def)
  ultimately show ?thesis by (simp add: execute_operation_def)
qed

lemma jump_dispatch:
  assumes "o_mnemonic op \<in> {''j'', ''jal'', ''jr''}"
  shows "execute_operation lm kb tick op actor =
    bind (on_cpu (modify (cpu_write_pc (o_line op + 1)))) (\<lambda>_. on_cpu (exec_jump kb op))"
proof -
  have "exec_arithmetic lm kb op = None"
    using assms by (elim insertE emptyE) (simp_all add: exec_arithmetic_def binary_function_def unary_function_def
      bitwise_function_def selection_binary_test_def selection_unary_test_def shift_function_def)
  moreover have "exec_local kb tick op = Some (exec_jump kb op)"
    using assms by (elim insertE emptyE) (simp_all add: exec_local_def)
  ultimately show ?thesis by (simp add: execute_operation_def)
qed

lemma core_cpu_write_pc [simp]: "core (cpu_write_pc pc c) = core c\<lparr>c_pc := pc\<rparr>"
  by (simp add: cpu_write_pc_def) (simp add: core_def)

lemma cpu_write_pc_fields [simp]:
  "c_registers (cpu_write_pc pc c) = c_registers c" "c_stack (cpu_write_pc pc c) = c_stack c"
  "c_program (cpu_write_pc pc c) = c_program c" "c_pc (cpu_write_pc pc c) = pc"
  by (simp_all add: cpu_write_pc_def note_write_bits_def)

lemma line_target_of_nat: "t < 2 ^ 53 \<Longrightarrow> line_target (f64_of_nat t) = Inr t"
  using cmp_of_int(1) [of "int t" 0] finite_of_int [of "int t"] as_usize_of_nat [of t]
  by (simp add: line_target_def f64_zero_of_int)

lemma exec_jal_effect:
  assumes "cpu_wf devices k c" "o_mnemonic op = ''jal''" "o_operands op = [target]" "t < 2 ^ 53"
    and "fst (value_of kb target (c\<lparr>c_registers := (c_registers c)[return_address_register := f64_of_nat (o_line op + 1)]\<rparr>))
      = Ok (f64_of_nat t)"
  obtains c' where "exec_jump kb op c = (Ok (), c')"
    "core c' = core c\<lparr>c_registers := (c_registers c)[return_address_register := f64_of_nat (o_line op + 1)], c_pc := t\<rparr>"
proof -
  let ?d = "c\<lparr>c_registers := (c_registers c)[return_address_register := f64_of_nat (o_line op + 1)]\<rparr>"
  obtain c1 where c1: "cpu_write_register return_address_register (f64_of_nat (o_line op + 1)) c = (Ok (), c1)"
    "core c1 = core c\<lparr>c_registers := (c_registers c)[return_address_register := f64_of_nat (o_line op + 1)]\<rparr>"
    using read_write_cells(2) [of return_address_register c] assms(1) special_register_less by (auto simp: cpu_wf_def)
  have "core c1 = core ?d" using c1(2) by (simp add: core_def)
  then obtain c2 where c2: "value_of kb target c1 = (Ok (f64_of_nat t), c2)" "core c2 = core ?d"
    by (rule observesE [OF observes_value_of assms(5)])
  have "exec_jump kb op c = (Ok (), cpu_write_pc t c2)"
    using assms(2,3) c1(1) c2(1) line_target_of_nat [OF assms(4)]
    by (simp add: exec_jump_def operand_value_def operand_def prog_simps)
  moreover have "core ?d = core c\<lparr>c_registers := (c_registers c)[return_address_register := f64_of_nat (o_line op + 1)]\<rparr>"
    by (simp add: core_def)
  ultimately show thesis using that c2(2) by simp
qed

lemma exec_return_effect:
  assumes "cpu_wf devices k c" "o_mnemonic op = ''j''" "o_operands op = [''ra'']" "t < 2 ^ 53"
    and "resolve_alias (c_program c) ''ra'' = ''ra''" "c_registers c ! return_address_register = f64_of_nat t"
  obtains c' where "exec_jump kb op c = (Ok (), c')" "core c' = core c\<lparr>c_pc := t\<rparr>"
proof -
  obtain c1 where c1: "cpu_read_register return_address_register c = (Ok (f64_of_nat t), c1)" "core c1 = core c"
    using read_write_cells(1) [of return_address_register c] assms(1,6) special_register_less by (auto simp: cpu_wf_def)
  have "value_of kb ''ra'' c = (Ok (f64_of_nat t), c1)"
    using c1(1) assms(5) by (simp add: value_of_def register_index_def attempt_def direct_register_index_def prog_simps)
  then have "exec_jump kb op c = (Ok (), cpu_write_pc t c1)"
    using assms(2,3) line_target_of_nat [OF assms(4)]
    by (simp add: exec_jump_def operand_value_def operand_def prog_simps)
  then show thesis using that c1(2) by simp
qed



subsection \<open>The sample CPU\<close>

lemma sample_cpu_wf: "cpu_wf 1 (cpu_shape sample_cpu) sample_cpu"
  by (auto simp: cpu_wf_def sample_cpu_def register_count_def program_wf_def bt_wf_def)

lemma sample_exec_inv: "exec_inv sample_kb (world_shape sample_world) (cpu_shape sample_cpu) sample_exec"
  using sample_cpu_wf sample_world_wf
  by (simp add: exec_inv_def world_inv_def sample_exec_def) (simp add: world_shape_def sample_world_def)

lemma sample_label: "c_program c = c_program sample_cpu \<Longrightarrow> fst (value_of kb ''main'' c) = Ok (f64_of_nat 7)"
  by (simp add: value_of_def register_index_def attempt_def direct_register_index_def resolve_program_number_def
      resolve_number_def resolve_alias_def sample_cpu_def bt_get_def prog_simps eval_nat_numeral)

section \<open>Properties\<close>

text \<open>An instruction with at least as many operands as its mnemonic takes never panics, whatever its operands are;
  and whether it succeeds or fails it leaves a well-formed CPU and a well-formed world of the same shape (the same
  devices with their ids, prefabs, reference ids and memory sizes, and the same number of networks).\<close>

theorem execute_operation_safe:
  assumes "exec_inv kb (world_shape (x_world x)) (cpu_shape (x_cpu x)) x"
    and "required_operands (o_mnemonic op) \<le> length (o_operands op)"
    and "execute_operation lm kb tick op actor x = (r, x')"
  shows "r \<noteq> Panic \<and> exec_inv kb (world_shape (x_world x)) (cpu_shape (x_cpu x)) x'"
  using safeD(1,2) [OF safe_execute_operation [OF assms(2), of kb _ _ lm tick actor] assms(1)] assms(3) by simp

theorem execute_operation_safe_witness:
  "fst (execute_operation sample_libm sample_kb 0 \<lparr>o_line = 3, o_mnemonic = ''poke'', o_operands = [''r0'', ''main'']\<rparr>
     ActorDebugger sample_exec) \<noteq> Panic"
proof -
  let ?op = "\<lparr>o_line = 3, o_mnemonic = ''poke'', o_operands = [''r0'', ''main'']\<rparr>"
  have "exec_inv sample_kb (world_shape (x_world sample_exec)) (cpu_shape (x_cpu sample_exec)) sample_exec"
    using sample_exec_inv by (simp add: sample_exec_def)
  moreover have "required_operands (o_mnemonic ?op) \<le> length (o_operands ?op)" by simp
  ultimately show ?thesis
    by (rule execute_operation_safe [THEN conjunct1]) (rule prod.collapse [symmetric])
qed

text \<open>C35: Popping right after pushing gives the pushed value back: with the stack pointer at an address \<open>n\<close> inside the
  stack, \<open>push a\<close> followed by \<open>pop r\<close> succeeds, puts the value of \<open>a\<close> into \<open>r\<close>, leaves every other register
  including the stack pointer as it was, and changes no stack cell but the one at \<open>n\<close>.\<close>

theorem push_then_pop:
  assumes "cpu_wf devices k c" "fst k < 2 ^ 53" "c_registers c ! stack_pointer_register = f64_of_nat n" "n < fst k"
    and "o_operands op = [source]" "fst (value_of kb source c) = Ok v"
    and "o_operands op' = [target]" "direct_register_index (resolve_alias (c_program c) target) = Some i"
    and "i \<noteq> stack_pointer_register"
  shows "\<exists>c' c''. exec_push kb op c = (Ok (), c') \<and> exec_pop op' c' = (Ok (), c'') \<and>
    c_registers c'' = (c_registers c)[i := v] \<and> c_stack c'' = (c_stack c)[n := v] \<and> c_pc c'' = c_pc c"
proof -
  obtain c' where c': "exec_push kb op c = (Ok (), c')"
    "core c' = core c\<lparr>c_stack := (c_stack c)[n := v],
       c_registers := (c_registers c)[stack_pointer_register := f64_of_nat (n + 1)]\<rparr>"
    by (rule exec_push_effect [OF assms(1-6)])
  have f: "c_registers c' = (c_registers c)[stack_pointer_register := f64_of_nat (n + 1)]"
    "c_stack c' = (c_stack c)[n := v]" "c_program c' = c_program c"
    using arg_cong [OF c'(2), of c_registers] arg_cong [OF c'(2), of c_stack] arg_cong [OF c'(2), of c_program] by simp_all
  have sp: "stack_pointer_register < length (c_registers c)" and n: "n < length (c_stack c)"
    using assms(1,4) special_register_less by (auto simp: cpu_wf_def cpu_shape_def)
  have "cpu_wf devices k c'"
    using safeD(1) [OF safe_exec_push assms(1)] c'(1) assms(5) by (metis One_nat_def length_Cons le_add1 list.size(3) plus_1_eq_Suc snd_conv)
  then obtain c'' where c'': "exec_pop op' c' = (Ok (), c'')"
    "core c'' = core c'\<lparr>c_registers := (c_registers c')[stack_pointer_register := f64_of_nat n, i := c_stack c' ! n]\<rparr>"
    by (rule exec_pop_effect [OF _ assms(2) _ assms(4,7)]) (use f sp assms(8) in simp_all)
  have "c_registers c'' = (c_registers c)[i := v]"
    using arg_cong [OF c''(2), of c_registers] f n assms(3,9) list_update_id [of "c_registers c" stack_pointer_register]
    by simp
  moreover have "c_stack c'' = (c_stack c)[n := v]" "c_pc c'' = c_pc c"
    using arg_cong [OF c''(2), of c_stack] arg_cong [OF c''(2), of c_pc] arg_cong [OF c'(2), of c_pc] f by simp_all
  ultimately show ?thesis using c'(1) c''(1) by blast
qed

theorem push_then_pop_witness:
  "\<exists>c' c''. exec_push sample_kb \<lparr>o_line = 0, o_mnemonic = ''push'', o_operands = [''main'']\<rparr> sample_cpu = (Ok (), c') \<and>
    exec_pop \<lparr>o_line = 1, o_mnemonic = ''pop'', o_operands = [''r3'']\<rparr> c' = (Ok (), c'') \<and>
    c_registers c'' = (c_registers sample_cpu)[3 := f64_of_nat 7] \<and>
    c_stack c'' = (c_stack sample_cpu)[0 := f64_of_nat 7] \<and> c_pc c'' = c_pc sample_cpu"
proof (rule push_then_pop [OF sample_cpu_wf])
  show "fst (value_of sample_kb ''main'' sample_cpu) = Ok (f64_of_nat 7)" by (rule sample_label) simp
  show "direct_register_index (resolve_alias (c_program sample_cpu) ''r3'') = Some 3"
    by code_simp
qed (simp_all add: sample_cpu_def cpu_shape_def stack_pointer_register_def)

text \<open>A subroutine returns to its caller: \<open>jal target\<close> sets the program counter to the target, and \<open>j ra\<close> executed
  with the registers it left sets it to the line after the call.\<close>

theorem call_and_return:
  assumes "cpu_wf devices k c" "x_cpu x = c" "resolve_alias (c_program c) ''ra'' = ''ra''"
    and "o_mnemonic call = ''jal''" "o_operands call = [target]" "o_line call + 1 < 2 ^ 53" "t < 2 ^ 53"
    and "fst (value_of kb target (c\<lparr>c_pc := o_line call + 1,
           c_registers := (c_registers c)[return_address_register := f64_of_nat (o_line call + 1)]\<rparr>)) = Ok (f64_of_nat t)"
    and "o_mnemonic back = ''j''" "o_operands back = [''ra'']"
  shows "\<exists>x' x''. execute_operation lm kb tick call actor x = (Ok (), x') \<and> c_pc (x_cpu x') = t \<and>
    execute_operation lm kb tick' back actor' x' = (Ok (), x'') \<and> c_pc (x_cpu x'') = o_line call + 1"
proof -
  let ?ra = "f64_of_nat (o_line call + 1)"
  let ?c0 = "cpu_write_pc (o_line call + 1) c"
  let ?b = "\<lambda>c. cpu_write_pc (o_line back + 1) c"
  have wf0: "cpu_wf devices k ?c0" using assms(1) by (simp add: frame_simps)
  have "core (?c0\<lparr>c_registers := (c_registers ?c0)[return_address_register := ?ra]\<rparr>) =
      core (c\<lparr>c_pc := o_line call + 1, c_registers := (c_registers c)[return_address_register := ?ra]\<rparr>)"
    by (simp add: core_def cpu_write_pc_def note_write_bits_def)
  then have "fst (value_of kb target (?c0\<lparr>c_registers := (c_registers ?c0)[return_address_register := ?ra]\<rparr>)) = Ok (f64_of_nat t)"
    using observesD(2) [OF observes_value_of] assms(8) by metis
  then obtain c1 where c1: "exec_jump kb call ?c0 = (Ok (), c1)"
    "core c1 = core ?c0\<lparr>c_registers := (c_registers ?c0)[return_address_register := ?ra], c_pc := t\<rparr>"
    by (rule exec_jal_effect [OF wf0 assms(4,5,7)])
  have f: "c_registers c1 = (c_registers c)[return_address_register := ?ra]" "c_program c1 = c_program c" "c_pc c1 = t"
    using arg_cong [OF c1(2), of c_registers] arg_cong [OF c1(2), of c_program] arg_cong [OF c1(2), of c_pc] by simp_all
  have "cpu_wf devices k c1"
    using safeD(1) [OF safe_exec_jump wf0, of call kb] c1(1) assms(5) by simp
  then have wf1: "cpu_wf devices k (?b c1)" by (simp add: frame_simps)
  have ra: "return_address_register < length (c_registers c)" using assms(1) special_register_less by (simp add: cpu_wf_def)
  obtain c2 where c2: "exec_jump kb back (?b c1) = (Ok (), c2)" "core c2 = core (?b c1)\<lparr>c_pc := o_line call + 1\<rparr>"
    by (rule exec_return_effect [OF wf1 assms(9,10,6)]) (use f ra assms(3) in simp_all)
  have "c_pc c2 = o_line call + 1" using arg_cong [OF c2(2), of c_pc] by simp
  moreover have "execute_operation lm kb tick call actor x = (Ok (), x\<lparr>x_cpu := c1\<rparr>)"
    "execute_operation lm kb tick' back actor' (x\<lparr>x_cpu := c1\<rparr>) = (Ok (), x\<lparr>x_cpu := c2\<rparr>)"
    using c1(1) c2(1) assms(2,4,9) by (simp_all add: jump_dispatch on_cpu_def prog_simps)
  ultimately show ?thesis using f(3) by force
qed

theorem call_and_return_witness:
  "\<exists>x' x''. execute_operation sample_libm sample_kb 0 \<lparr>o_line = 2, o_mnemonic = ''jal'', o_operands = [''main'']\<rparr> ActorDebugger sample_exec
      = (Ok (), x') \<and> c_pc (x_cpu x') = 7 \<and>
    execute_operation sample_libm sample_kb 0 \<lparr>o_line = 9, o_mnemonic = ''j'', o_operands = [''ra'']\<rparr> ActorDebugger x' = (Ok (), x'') \<and>
    c_pc (x_cpu x'') = o_line \<lparr>o_line = 2, o_mnemonic = ''jal'', o_operands = [''main'']\<rparr> + 1"
proof (rule call_and_return [OF sample_cpu_wf])
  show "resolve_alias (c_program sample_cpu) ''ra'' = ''ra''" by code_simp
  show "fst (value_of sample_kb ''main'' (sample_cpu\<lparr>c_pc := c, c_registers := rs\<rparr>)) = Ok (f64_of_nat 7)" for c rs
    by (rule sample_label) simp
qed (simp_all add: sample_exec_def)

text \<open>C38: \<open>rand\<close> draws from the generator with the shifts 13, 7 and 17: it steps the state to the one whose predecessor, undoing
  the three shifts one after another, is the old state, so that no two states have the same successor and the zero state is reached
  only from itself; it writes to its register the number in \<open>[0, 1)\<close> given exactly by the upper 53 bits of the new state divided by
  \<open>2 ^ 53\<close>; and it changes nothing else but the journal.\<close>

theorem rand_draws:
  assumes "exec_inv kb w (cpu_shape (x_cpu x)) x" "o_mnemonic op = ''rand''" "o_operands op = [target]"
    and "direct_register_index (resolve_alias (c_program (x_cpu x)) target) = Some i"
  shows "\<exists>r v c. execute_operation lm kb tick op actor x = (Ok (), x\<lparr>x_cpu := c\<rparr>) \<and>
    core c = core (x_cpu x)\<lparr>c_pc := o_line op + 1, c_random_state := r, c_registers := (c_registers (x_cpu x))[i := v]\<rparr> \<and>
    previous_state r = c_random_state (x_cpu x) \<and> (r = 0 \<longleftrightarrow> c_random_state (x_cpu x) = 0) \<and>
    is_finite v \<and> \<not> sign_neg v \<and> units v < one_units \<and> units v * 2 ^ 53 = uint (drop_bit 11 r) * one_units"
proof -
  let ?c = "x_cpu x" let ?r = "xorshift (c_random_state ?c)"
  have len: "i < length (c_registers ?c)" using assms(1,4) direct_register_less by (auto simp: exec_inv_def cpu_wf_def)
  define c0 where "c0 = cpu_write_pc (o_line op + 1) ?c"
  define c1 where "c1 = cpu_write_random_state ?r c0"
  have c1: "core c1 = core ?c\<lparr>c_pc := o_line op + 1, c_random_state := ?r\<rparr>" "c_registers c1 = c_registers ?c"
      "c_program c1 = c_program ?c" "c_random_state c0 = c_random_state ?c"
    by (simp_all add: c0_def c1_def cpu_write_random_state_def cpu_write_pc_def core_def note_write_bits_def)
  obtain c where c: "cpu_write_register i (random_unit ?r) c1 = (Ok (), c)"
    "core c = core c1\<lparr>c_registers := (c_registers c1)[i := random_unit ?r]\<rparr>"
    using read_write_cells(2) [of i c1 "random_unit ?r"] len c1(2) by auto
  have "register_index target c1 = (Ok i, c1)" using assms(4) c1(3) by (simp add: register_index_def prog_simps)
  then have "write_register target (random_unit ?r) c1 = (Ok (), c)" using c(1) by (simp add: write_register_def prog_simps)
  then have "exec_rand op c0 = (Ok (), c)"
    using assms(3) by (simp add: exec_rand_def write_operand_def operand_def prog_simps c1(4) c1_def [symmetric])
  then have "execute_operation lm kb tick op actor x = (Ok (), x\<lparr>x_cpu := c\<rparr>)"
    using assms(2) by (simp add: rand_dispatch on_cpu_def prog_simps c0_def)
  moreover have "core c = core ?c\<lparr>c_pc := o_line op + 1, c_random_state := ?r, c_registers := (c_registers ?c)[i := random_unit ?r]\<rparr>"
    using c(2) c1(1,2) by simp
  ultimately show ?thesis using previous_state_xorshift xorshift_eq_0 random_unit_exact by blast
qed

theorem rand_draws_witness:
  "\<exists>c. execute_operation sample_libm sample_kb 0 \<lparr>o_line = 0, o_mnemonic = ''rand'', o_operands = [''r3'']\<rparr> ActorDebugger sample_exec
      = (Ok (), sample_exec\<lparr>x_cpu := c\<rparr>) \<and>
    (c_random_state c = 0 \<longleftrightarrow> c_random_state sample_cpu = 0) \<and> units (c_registers c ! 3) < one_units"
proof -
  have "exec_inv sample_kb (world_shape sample_world) (cpu_shape (x_cpu sample_exec)) sample_exec"
    using sample_exec_inv by (simp add: sample_exec_def)
  moreover have "direct_register_index (resolve_alias (c_program (x_cpu sample_exec)) ''r3'') = Some 3"
  proof -
    have "direct_register_index (resolve_alias (c_program sample_cpu) ''r3'') = Some 3" by code_simp
    then show ?thesis by (simp add: sample_exec_def)
  qed
  ultimately obtain r v c where run: "execute_operation sample_libm sample_kb 0 \<lparr>o_line = 0, o_mnemonic = ''rand'', o_operands = [''r3'']\<rparr>
      ActorDebugger sample_exec = (Ok (), sample_exec\<lparr>x_cpu := c\<rparr>)"
    "core c = core (x_cpu sample_exec)\<lparr>c_pc := 1, c_random_state := r, c_registers := (c_registers (x_cpu sample_exec))[3 := v]\<rparr>"
    "r = 0 \<longleftrightarrow> c_random_state (x_cpu sample_exec) = 0" "units v < one_units"
    using rand_draws [of sample_kb "world_shape sample_world" sample_exec "\<lparr>o_line = 0, o_mnemonic = ''rand'', o_operands = [''r3'']\<rparr>" "''r3''" 3
      sample_libm 0 ActorDebugger] by auto
  have "c_registers c = (c_registers sample_cpu)[3 := v]" "c_random_state c = r"
    using arg_cong [OF run(2), of c_registers] arg_cong [OF run(2), of c_random_state] by (simp_all add: sample_exec_def) (simp add: core_def)
  moreover have "3 < length (c_registers sample_cpu)" by (simp add: sample_cpu_def register_count_def)
  ultimately show ?thesis using run by (auto simp: sample_exec_def)
qed

text \<open>\<open>ins\<close> and \<open>ext\<close> agree on bit fields: for a field of at most 53 bits inside the 64-bit value, extracting the
  field that was just inserted gives the low bits of the inserted value, and the bits outside the field are those of
  the target.\<close>

theorem insert_extract_bits:
  assumes "unat start + unat len \<le> 64" "unat len \<le> 53" "unat start < 64"
  shows "extract_bits (insert_bits target source start len) start len = source AND field_mask len \<and>
    (\<forall>i < 64. unat start \<le> i \<and> i < unat start + unat len \<or>
       bit (insert_bits target source start len) i = bit target i)"
proof -
  have "min len 53 = len" using assms(2) by (simp add: min_def word_le_nat_alt)
  then have "extract_bits (insert_bits target source start len) start len = source AND field_mask len"
    using assms
    by (intro bit_eqI) (auto simp: extract_bits_def masked_shift bit_simps bit_field_mask bit_insert_bits)
  then show ?thesis using assms by (simp add: bit_insert_bits)
qed

theorem insert_extract_bits_witness:
  "extract_bits (insert_bits 0xFFFF 0x5 4 8) 4 8 = 0x5 AND field_mask 8"
  by (rule insert_extract_bits [THEN conjunct1]) simp_all

text \<open>The \<open>Minimum\<close> and \<open>Maximum\<close> batch modes select from the batch: when at least one device reports a number,
  the result is one of the reported numbers and bounds all of them, whatever NaNs and infinities are among them.\<close>

theorem aggregate_extremes:
  assumes "w \<in> set vs" "\<not> is_nan w"
  shows "\<exists>least greatest. aggregate vs 2 = Inr least \<and> least \<in> set vs \<and> \<not> is_nan least \<and>
    aggregate vs 3 = Inr greatest \<and> greatest \<in> set vs \<and> \<not> is_nan greatest \<and>
    (\<forall>v \<in> set vs. \<not> is_nan v \<longrightarrow> f64_le least v \<and> f64_le v greatest)"
proof -
  define least where "least = fold (\<lambda>v acc. f64_min acc v) vs f64_infinity"
  define greatest where "greatest = fold (\<lambda>v acc. f64_max acc v) vs f64_neg_infinity"
  have l: "\<not> is_nan least \<and> least \<in> insert f64_infinity (set vs) \<and> f64_le least f64_infinity \<and>
      (\<forall>v \<in> set vs. \<not> is_nan v \<longrightarrow> f64_le least v)"
    unfolding least_def
    by (rule fold_choice [where R = f64_le]) (rule extreme_steps is_nan_infinities; assumption)+
  have g: "\<not> is_nan greatest \<and> greatest \<in> insert f64_neg_infinity (set vs) \<and> f64_le f64_neg_infinity greatest \<and>
      (\<forall>v \<in> set vs. \<not> is_nan v \<longrightarrow> f64_le v greatest)"
    unfolding greatest_def
    by (rule fold_choice [where R = "\<lambda>a b. f64_le b a"])
      (rule extreme_steps extreme_steps(4) [rotated] is_nan_infinities; assumption)+
  have "f64_le least w" "f64_le w greatest" using l g assms by blast+
  then have "least = f64_infinity \<Longrightarrow> least = w" "greatest = f64_neg_infinity \<Longrightarrow> greatest = w"
    by (metis le_extreme(1), metis le_extreme(2))
  then have "least \<in> set vs" "greatest \<in> set vs" using l g assms(1) by (metis insertE)+
  moreover have "aggregate vs 2 = Inr least" "aggregate vs 3 = Inr greatest"
    using assms(1) by (auto simp: aggregate_def least_def greatest_def)
  ultimately show ?thesis using l g by blast
qed

theorem aggregate_extremes_witness:
  "\<exists>least greatest. aggregate [f64_nan, f64_infinity, f64_zero] 2 = Inr least \<and>
    least \<in> set [f64_nan, f64_infinity, f64_zero] \<and> \<not> is_nan least \<and>
    aggregate [f64_nan, f64_infinity, f64_zero] 3 = Inr greatest \<and>
    greatest \<in> set [f64_nan, f64_infinity, f64_zero] \<and> \<not> is_nan greatest \<and>
    (\<forall>v \<in> set [f64_nan, f64_infinity, f64_zero]. \<not> is_nan v \<longrightarrow> f64_le least v \<and> f64_le v greatest)"
  by (rule aggregate_extremes [of f64_infinity]) simp_all

text \<open>An execution state recorded in the journal is restored exactly: decoding the bits of a state gives that state
  back, for waits until a tick whose bit 60 is not set.\<close>

theorem cpu_state_roundtrip:
  assumes "\<And>t. st = WaitingUntil t \<Longrightarrow> \<not> bit t 60"
  shows "cpu_state_from_bits (cpu_state_bits st) = Some st"
proof (cases st)
  case (WaitingUntil t)
  let ?b = "0x1000000000000000 :: u64"
  have "bit (?b OR t) 60" "bit ((?b OR t) AND ?b) 60"
    by (simp_all add: bit_or_iff bit_and_iff waiting_bit del: bit_numeral_iff)
  moreover have "\<not> bit (0 :: u64) 60" "\<not> bit (2 :: u64) 60" "\<not> bit (3 :: u64) 60" by simp_all
  ultimately have "?b OR t \<noteq> 0" "?b OR t \<noteq> 2" "?b OR t \<noteq> 3" "(?b OR t) AND ?b \<noteq> 0"
    by metis+
  moreover have "(?b OR t) AND NOT ?b = t"
    using assms [OF WaitingUntil]
    by (intro bit_word_eqI) (simp only: bit_or_iff bit_and_iff bit_not_iff waiting_bit, auto)
  ultimately show ?thesis using WaitingUntil by (simp add: cpu_state_from_bits_def)
qed (simp_all add: cpu_state_from_bits_def)

theorem cpu_state_roundtrip_witness: "cpu_state_from_bits (cpu_state_bits (WaitingUntil 120)) = Some (WaitingUntil 120)"
proof (rule cpu_state_roundtrip)
  show "\<not> bit t 60" if "WaitingUntil 120 = WaitingUntil t" for t :: u64 using that by (simp add: bit_iff_odd_drop_bit)
qed

end
