(* ===== verification/Scheduler.thy ===== *)
theory Scheduler
  imports Simulator_Safety Instructions
begin

text \<open>
  The round-robin scheduler of \<open>crates/ic10-sim/src/simulator.rs\<close>: a world tick ends after a bounded
  number of steps, no IC exceeds its instruction budget, an instruction is confined to its IC, ticks
  wake the machines that are due, and checkpoints restore every machine.
\<close>

section \<open>The work left in a tick\<close>

definition adapter_used :: "nat \<Rightarrow> u32 list \<Rightarrow> vm_adapter \<Rightarrow> nat" where
  "adapter_used budget ops a = (case a of AdapterIc10 i \<Rightarrow> min budget (unat (ops ! i)) | AdapterLua _ \<Rightarrow> 0)"

definition tick_work :: "nat \<Rightarrow> vm_adapter list \<Rightarrow> nat \<Rightarrow> u32 list \<Rightarrow> nat" where
  "tick_work budget slots slot ops =
     (if slot < length slots then (length slots - slot) * Suc budget - adapter_used budget ops (slots ! slot) else 0)"

text \<open>The adapter that the scheduler prepares stands at its slot, and it can run.\<close>

definition prepared_at :: "knowledge_base \<Rightarrow> world_form \<Rightarrow> u64 \<Rightarrow> vm_adapter list \<Rightarrow> u32 list \<Rightarrow> nat
    \<Rightarrow> vm_adapter \<times> vm_source_location \<Rightarrow> 'vm simulator \<Rightarrow> bool" where
  "prepared_at kb shape tick slots ops slot p s \<longleftrightarrow>
     slot < length slots \<and> fst p = slots ! slot \<and> tick_inv kb shape tick slots ops slot s \<and>
     can_step (lifecycle_of (fst p) s) tick \<and> lc_current_location (lifecycle_of (fst p) s) = Some (snd p)"

definition event_index :: "'vm simulator \<Rightarrow> vm_adapter \<Rightarrow> usize" where
  "event_index s a = (case a of AdapterIc10 i \<Rightarrow> i | AdapterLua i \<Rightarrow> length (s_cpus s) + i)"

definition next_work :: "knowledge_base \<Rightarrow> world_form \<Rightarrow> u64 \<Rightarrow> vm_adapter list \<Rightarrow> u32 list \<Rightarrow> nat \<Rightarrow> u32
    \<Rightarrow> vm_adapter \<Rightarrow> usize \<Rightarrow> step_event \<Rightarrow> 'vm simulator \<Rightarrow> bool" where
  "next_work kb shape tick slots ops slot budget a cpus e s \<longleftrightarrow>
     (case a of
        AdapterIc10 i \<Rightarrow> se_cpu e = i \<and> ops ! i < budget \<and>
          (\<exists>slot'. tick_inv kb shape tick slots (ops[i := ops ! i + 1]) slot' s \<and> (slot' = slot \<or> slot' = Suc slot))
      | AdapterLua i \<Rightarrow> se_cpu e = cpus + i \<and> tick_inv kb shape tick slots ops (Suc slot) s)"

definition events_of :: "usize \<Rightarrow> step_event list \<Rightarrow> nat" where
  "events_of i events = length (filter (\<lambda>e. se_cpu e = i) events)"

definition operation_budget :: "knowledge_base \<Rightarrow> nat" where
  "operation_budget kb = unat (maximum_instructions_per_tick (lang_architecture (language kb)))"

definition within_budget :: "nat \<Rightarrow> u32 list \<Rightarrow> u32 list \<Rightarrow> step_event list \<Rightarrow> bool" where
  "within_budget budget ops0 ops events \<longleftrightarrow> length ops0 = length ops \<and>
     (\<forall>i < length ops. unat (ops0 ! i) + events_of i events = unat (ops ! i) \<and> unat (ops ! i) \<le> max budget (unat (ops0 ! i)))"

section \<open>Waking up\<close>

text \<open>The effect of the start of a tick on one IC.\<close>

definition wake_cpu :: "u64 \<Rightarrow> cpu \<Rightarrow> cpu" where
  "wake_cpu tick c =
     (let c' = c\<lparr>c_operations_this_tick := 0\<rparr>
      in case c_state c of WaitingUntil wake \<Rightarrow> if wake \<le> tick then c'\<lparr>c_state := Ready\<rparr> else c' | _ \<Rightarrow> c')"

text \<open>The ICs after all slots of a schedule have begun the tick.\<close>

definition woken :: "u64 \<Rightarrow> vm_adapter list \<Rightarrow> cpu list \<Rightarrow> cpu list" where
  "woken tick slots cs = map (\<lambda>i. if AdapterIc10 i \<in> set slots then wake_cpu tick (cs ! i) else cs ! i) [0..<length cs]"

section \<open>Checkpoints\<close>

text \<open>A saved state that fits a machine of the simulator.\<close>

fun snapshot_fits :: "vm_adapter \<Rightarrow> vm_runtime_snapshot \<Rightarrow> 'vm simulator \<Rightarrow> bool" where
  "snapshot_fits (AdapterIc10 i) (SnapIc10 _) s \<longleftrightarrow> i < length (s_cpus s)"
| "snapshot_fits (AdapterLua i) (SnapLua _) s \<longleftrightarrow> i < length (s_lua_programs s)"
| "snapshot_fits _ _ s \<longleftrightarrow> False"

definition same_simulation :: "'vm simulator \<Rightarrow> 'vm simulator \<Rightarrow> bool" where
  "same_simulation s s' \<longleftrightarrow>
     s_schedule s' = s_schedule s \<and> length (s_cpus s') = length (s_cpus s) \<and>
     length (s_lua_programs s') = length (s_lua_programs s) \<and>
     length (w_devices (s_world s')) = length (w_devices (s_world s)) \<and>
     length (w_networks (s_world s')) = length (w_networks (s_world s))"

section \<open>A small simulation\<close>

definition sample_lua :: "unit lua_runtime" where
  "sample_lua = \<lparr>l_id = ''lua'', l_program_id = ''q'', l_source_path = ''q.lua'', l_housing = 0, l_host_world = sample_world,
     l_logs = [], l_vm = (), l_current_line = 1, l_line_yield = False, l_frames = [], l_locals = [],
     l_current_source_path = ''q.lua'', l_state = VmReady, l_invocations = 0, l_faulted = False, l_error = None,
     l_operations_this_tick = 0\<rparr>"

definition sample_engine :: "unit lua_engine" where
  "sample_engine = \<lparr>eng_resume = (\<lambda>vm w debug logs. \<lparr>rs_vm = vm, rs_world = w, rs_logs = logs, rs_lines = [''tick''],
       rs_current_line = 2, rs_frames = [], rs_locals = [], rs_source_path = ''q.lua'', rs_status = ThreadResumable\<rparr>),
     eng_fresh_thread = Inr\<rparr>"

definition sample_program :: ic_program where
  "sample_program = (c_program sample_cpu)\<lparr>p_operations := [(0, \<lparr>o_line = 0, o_mnemonic = ''yield'', o_operands = []\<rparr>),
     (1, \<lparr>o_line = 1, o_mnemonic = ''pop'', o_operands = [''r0'']\<rparr>)]\<rparr>"

definition sample_sim :: "unit simulator" where
  "sample_sim = \<lparr>s_knowledge = sample_kb, s_world = sample_world,
     s_cpus = [sample_cpu\<lparr>c_program := sample_program\<rparr>, sample_cpu\<lparr>c_state := WaitingUntil 3\<rparr>],
     s_lua_programs = [sample_lua], s_tick = 2, s_compatibility_warnings = [],
     s_schedule = [AdapterIc10 0, AdapterLua 0, AdapterIc10 1], s_scheduler_slot = 0, s_scheduler_error = None,
     s_behaviours = behaviour_build sample_world, s_driver_state = [], s_journal = empty_journal\<rparr>"

definition never_fails :: "('s, 'e, 'a) prog \<Rightarrow> bool" where
  "never_fails m \<longleftrightarrow> (\<forall>s e s'. m s \<noteq> (Err e, s'))"

definition sample_fault :: "unit simulator" where
  "sample_fault = sample_sim\<lparr>s_cpus := [sample_cpu\<lparr>c_program :=
     (c_program sample_cpu)\<lparr>p_operations := [(0, \<lparr>o_line = 0, o_mnemonic = ''lr'', o_operands = []\<rparr>)]\<rparr>\<rparr>], s_schedule := []\<rparr>"

definition sample_tick :: "unit simulator" where
  "sample_tick = sample_sim\<lparr>s_schedule := [AdapterLua 0]\<rparr>"

section \<open>Lemmas\<close>

lemma adapter_used_le: "adapter_used budget ops a \<le> budget"
  by (simp add: adapter_used_def split: vm_adapter.split)

lemma tick_work_lower: "slot < length slots \<Longrightarrow> (length slots - Suc slot) * Suc budget < tick_work budget slots slot ops"
  using adapter_used_le [of budget ops "slots ! slot"]
  by (cases "length slots - slot") (simp_all add: tick_work_def Suc_diff_Suc [symmetric])

lemma tick_work_upper: "tick_work budget slots slot ops \<le> (length slots - slot) * Suc budget"
  unfolding tick_work_def by (cases "slot < length slots") (simp_all only: diff_le_self le0 if_True if_False)

lemma tick_work_next:
  assumes "slot < slot'" "slot < length slots"
  shows "tick_work budget slots slot' ops' < tick_work budget slots slot ops"
proof -
  have "tick_work budget slots slot' ops' \<le> (length slots - slot') * Suc budget" by (rule tick_work_upper)
  also have "\<dots> \<le> (length slots - Suc slot) * Suc budget" using assms(1) by (intro mult_le_mono1) simp
  also have "\<dots> < tick_work budget slots slot ops" by (rule tick_work_lower [OF assms(2)])
  finally show ?thesis .
qed

lemma tick_work_same:
  assumes "slot < length slots" "slots ! slot = AdapterIc10 i" "i < length ops" "unat (ops ! i) < budget"
    "unat (ops ! i + 1) = unat (ops ! i) + 1"
  shows "tick_work budget slots slot (ops[i := ops ! i + 1]) < tick_work budget slots slot ops"
proof -
  have "Suc budget \<le> (length slots - slot) * Suc budget" using assms(1) by (cases "length slots - slot") simp_all
  then show ?thesis using assms by (simp add: tick_work_def adapter_used_def)
qed

lemma tick_inv_sched: "tick_inv kb sh t sl os k s \<Longrightarrow> sched_inv kb sh t sl s"
  by (simp add: tick_inv_def sched_inv_def)

lemma tick_inv_bound: "tick_inv kb sh t sl os k s \<Longrightarrow> a \<in> set sl \<Longrightarrow> adapter_bound s a"
  by (auto simp: tick_inv_def intro: sim_inv_bound)

lemma wp_prepare_from:
  assumes "tick_inv kb sh t sl os k s"
  shows "wp (prepare_from (drop k sl))
    (\<lambda>p s'. case p of None \<Rightarrow> sched_inv kb sh (t + 1) sl s' | Some p \<Rightarrow> \<exists>k' \<ge> k. prepared_at kb sh t sl os k' p s')
    (\<lambda>s'. \<exists>t'. sched_inv kb sh t' sl s') s"
  using assms
proof (induction "drop k sl" arbitrary: k s)
  case Nil
  have "wp (prepare_from ([] :: vm_adapter list))
    (\<lambda>p s'. case p of None \<Rightarrow> sched_inv kb sh (t + 1) sl s' | Some p \<Rightarrow> \<exists>k' \<ge> k. prepared_at kb sh t sl os k' p s')
    (\<lambda>s'. \<exists>t'. sched_inv kb sh t' sl s') s"
    unfolding prepare_from.simps
    by (intro wp_intros wp_advance_tick [OF tick_inv_sched [OF Nil.prems]]) auto
  then show ?case using Nil.hyps by simp
next
  case (Cons a rest)
  have k: "k < length sl" "a = sl ! k" "rest = drop (Suc k) sl"
    using Cons.hyps(2) by (simp_all add: Cons_nth_drop_Suc [symmetric] drop_eq_Nil not_le [symmetric])
     (metis drop_eq_Nil list.distinct(1) not_le Cons_nth_drop_Suc list.inject)+
  have b: "adapter_bound s' a" if "tick_inv kb sh t sl os k s'" for s' :: "'a simulator"
    using tick_inv_bound [OF that] k by simp
  let ?Q = "\<lambda>k p s'. case p of None \<Rightarrow> sched_inv kb sh (t + 1) sl s' | Some p \<Rightarrow> \<exists>k' \<ge> k. prepared_at kb sh t sl os k' p s'"
  have rest: "wp (prepare_from rest) (?Q k) (\<lambda>s'. \<exists>t'. sched_inv kb sh t' sl s') s'"
    if "tick_inv kb sh t sl os (k + 1) s'" for s' :: "'a simulator"
    by (rule wp_mono [OF Cons.hyps(1) [of "Suc k" s', folded k(3)]])
      (use that k(3) in \<open>auto split: option.splits intro: Suc_leD\<close>)
  show ?case
    unfolding Cons.hyps(2) [symmetric] prepare_from.simps
    using Cons.prems b [OF Cons.prems] k(1,2)
    by (intro wp_intros wp_adapter_lifecycle wp_set_scheduler_slot wp_adapter_halt rest)
     (auto simp: tick_inv_def prepared_at_def)
qed

lemma run_inv_of_tick:
  assumes "tick_inv kb sh t sl os k s" "i < length (s_cpus s)"
  shows "run_inv kb sh i (s_cpus s ! i) (run_frame i (s_cpus s ! i) s) (os ! i) s"
  using assms by (auto simp: tick_inv_def run_inv_def ops_of_def)

lemma tick_of_run_inv:
  assumes "tick_inv kb sh t sl os k s" "run_inv kb sh i d (run_frame i d s) n s'"
  shows "tick_inv kb sh t sl (os[i := n]) k s'" "length (s_cpus s') = length (s_cpus s)"
proof -
  have f: "s_schedule s' = s_schedule s" "s_tick s' = s_tick s" "s_scheduler_slot s' = s_scheduler_slot s"
    "(s_cpus s')[i := d] = (s_cpus s)[i := d]" and i: "i < length (s_cpus s')" "c_operations_this_tick (s_cpus s' ! i) = n"
    using assms(2) by (simp_all add: run_inv_def run_frame_def)
  show len: "length (s_cpus s') = length (s_cpus s)" using arg_cong [OF f(4), of length] by simp
  have "(ops_of s)[i := n] = (ops_of s')[i := n]"
    using arg_cong [OF f(4), of "\<lambda>cs. (map c_operations_this_tick cs)[i := n]"] by (simp add: ops_of_def map_update)
  also have "\<dots> = ops_of s'" using i list_update_id [of "ops_of s'" i] by (simp add: ops_of_def)
  finally show "tick_inv kb sh t sl (os[i := n]) k s'"
    using assms f by (simp add: tick_inv_def run_inv_def)
qed

lemma can_step_ops:
  "can_step (lifecycle_of (AdapterIc10 i) s) t \<Longrightarrow> c_operations_this_tick (s_cpus s ! i) < instruction_budget s"
  by (simp add: can_step_def lifecycle_of_def lifecycle_def)

lemma prepared_bound: "prepared_at kb sh t sl os k p s \<Longrightarrow> adapter_bound s (fst p)"
  by (auto simp: prepared_at_def intro: tick_inv_bound)

lemma wp_ic10_step:
  assumes p: "prepared_at kb sh t sl os k (AdapterIc10 i, loc) s"
  shows "wp (ic10_step lm i)
     (\<lambda>e s'. vl_runtime_index (sr_location e) = i \<and> tick_inv kb sh t sl (os[i := os ! i + 1]) k s' \<and>
        length (s_cpus s') = length (s_cpus s))
     (\<lambda>s'. sched_inv kb sh t sl s') s"
proof -
  have i: "i < length (s_cpus s)" using prepared_bound [OF p] by simp
  have t: "tick_inv kb sh t sl os k s" using p by (simp add: prepared_at_def)
  have loc: "current_operation (s_cpus s ! i) \<noteq> None"
    using p by (auto simp: prepared_at_def lifecycle_of_def lifecycle_def current_line_def)
  note after = tick_of_run_inv [OF t]
  show ?thesis
    unfolding ic10_step_def
    by (intro wp_intros wp_mono [OF step_instruction_effect [OF run_inv_of_tick [OF t i]]])
      (use loc after tick_inv_sched [OF after(1)] in \<open>auto simp: step_result_def\<close>)
qed

lemma lua_resume_once_state:
  "lua_resume_once eng tick r = (Ok (), r') \<Longrightarrow> l_state r' \<noteq> VmReady"
  "fst (lua_resume_once eng tick r) \<noteq> Panic"
  "engine_ok kb sh eng \<Longrightarrow> world_inv kb sh (l_host_world r) \<Longrightarrow> world_inv kb sh (l_host_world (snd (lua_resume_once eng tick r)))"
  by (auto simp: lua_resume_once_def prog_simps engine_ok_def lift_result_def split: lua_status.splits sum.splits)

lemma lua_runtime_step_cases:
  assumes "lua_runtime_step eng tick w r = (res, r')" "engine_ok kb sh eng" "world_inv kb sh w"
  shows "res \<noteq> Panic" "res = Ok w' \<Longrightarrow> l_state r' \<noteq> VmReady \<and> world_inv kb sh w'"
  using assms lua_resume_once_state(1) [of eng tick "r\<lparr>l_host_world := w\<rparr>"]
    lua_resume_once_state(2) [of eng tick "r\<lparr>l_host_world := w\<rparr>"]
    lua_resume_once_state(3) [of kb sh eng "r\<lparr>l_host_world := w\<rparr>" tick]
  by (auto simp: lua_runtime_step_def prog_simps split: if_splits outcome.splits prod.splits)

lemma tick_inv_set_lua: "tick_inv kb sh t sl os k s \<Longrightarrow> tick_inv kb sh t sl os k (s_set_lua i r s)"
  by (simp add: tick_inv_def sim_inv_set_lua) (simp add: s_set_lua_def ops_of_def)

lemma tick_inv_set_world: "tick_inv kb sh t sl os k s \<Longrightarrow> world_inv kb sh w \<Longrightarrow> tick_inv kb sh t sl os k (s\<lparr>s_world := w\<rparr>)"
  using adapter_bound_cong [of "s\<lparr>s_world := w\<rparr>" s] by (auto simp: tick_inv_def sim_inv_def list_all_iff ops_of_def)

lemma wp_lua_step:
  assumes t: "tick_inv kb sh t sl os k s" and i: "i < length (s_lua_programs s)" and eng: "engine_ok kb sh eng"
  shows "wp (lua_step eng i)
     (\<lambda>e s'. vl_runtime_index (sr_location e) = length (s_cpus s) + i \<and> tick_inv kb sh t sl os k s' \<and>
        s_cpus s' = s_cpus s \<and> length (s_lua_programs s') = length (s_lua_programs s) \<and> l_state (s_lua_programs s' ! i) \<noteq> VmReady)
     (\<lambda>s'. sched_inv kb sh t sl s') s"
proof -
  obtain res r' where step: "lua_runtime_step eng (s_tick s) (s_world s) (s_lua_programs s ! i) = (res, r')" by fastforce
  have w: "world_inv kb sh (s_world s)" using t by (simp add: tick_inv_def sim_inv_def)
  note r = lua_runtime_step_cases [OF step eng w]
  note inv = tick_inv_set_lua [OF t, of i r']
  show ?thesis
  proof (cases res)
    case (Ok w')
    have inv': "tick_inv kb sh t sl os k ((s_set_lua i r' s)\<lparr>s_world := w'\<rparr>)" using tick_inv_set_world [OF inv] r(2) [OF Ok] by blast
    show ?thesis using i step Ok r(2) [OF Ok] inv'
      by (simp add: lua_step_def s_lua_def wp_def prog_simps s_set_lua_def)
  qed (use i step r(1) tick_inv_sched [OF inv] in \<open>simp_all add: lua_step_def s_lua_def wp_def prog_simps\<close>)
qed

lemma wp_advance_slot:
  assumes "tick_inv kb sh t sl os k s"
    "retains_slot l \<Longrightarrow> R e s" "\<And>s'. \<not> retains_slot l \<Longrightarrow> tick_inv kb sh t sl os (k + 1) s' \<Longrightarrow> R e s'"
  shows "wp (bind (gets s_scheduler_slot) (\<lambda>slot.
    bind (if retains_slot l then ret () else set_scheduler_slot (slot + 1)) (\<lambda>_. ret e))) R E s"
  using assms by (intro wp_intros wp_set_scheduler_slot) (auto simp: tick_inv_def)

lemma wp_step_adapter:
  assumes p: "prepared_at kb sh t sl os k p s" and eng: "engine_ok kb sh eng"
  shows "wp (step_adapter lm eng (fst p))
    (\<lambda>r s'. \<exists>e. r = Some e \<and> next_work kb sh t sl os k (instruction_budget s) (fst p) (length (s_cpus s)) e s')
    (\<lambda>s'. sched_inv kb sh t sl s') s"
proof (cases "fst p")
  case (AdapterIc10 i)
  then have p': "prepared_at kb sh t sl os k (AdapterIc10 i, snd p) s" using p by (cases p) simp
  have i: "i < length (s_cpus s)" using prepared_bound [OF p'] by simp
  have ops: "os ! i < instruction_budget s"
    using can_step_ops [of i s t] p' i by (simp add: prepared_at_def tick_inv_def) (auto simp: ops_of_def)
  show ?thesis
    unfolding step_adapter_def AdapterIc10 adapter_step.simps
    using ops i
    by (intro wp_bind wp_mono [OF wp_ic10_step [OF p']] wp_adapter_lifecycle wp_advance_slot)
      (auto simp: next_work_def into_ic10_event_def)
next
  case (AdapterLua i)
  then have i: "i < length (s_lua_programs s)" using prepared_bound [OF p] by simp
  have t: "tick_inv kb sh t sl os k s" using p by (simp add: prepared_at_def)
  show ?thesis
    unfolding step_adapter_def AdapterLua adapter_step.simps
    using i
    by (intro wp_bind wp_mono [OF wp_lua_step [OF t i eng]] wp_adapter_lifecycle wp_advance_slot)
      (auto simp: next_work_def into_ic10_event_def retains_slot_def lifecycle_of_def lua_runtime_lifecycle_def)
qed

lemma sim_inv_budget: "sim_inv kb sh s \<Longrightarrow> unat (instruction_budget s) = operation_budget kb"
  by (simp add: sim_inv_def instruction_budget_def operation_budget_def)

lemma unat_Suc_below: "(x :: u32) < y \<Longrightarrow> unat (x + 1) = unat x + 1"
  using unsigned_less [of y, where ?'a = nat] by (simp add: word_less_nat_alt unat_word_ariths)

lemma next_work_progress:
  assumes w: "next_work kb sh t sl os k b a (length os) e s" and k: "k < length sl" "a = sl ! k"
    and i: "\<And>i. a = AdapterIc10 i \<Longrightarrow> i < length os"
    and budget: "within_budget (unat b) os0 os events"
  shows "\<exists>os' k'. tick_inv kb sh t sl os' k' s \<and> tick_work (unat b) sl k' os' < tick_work (unat b) sl k os \<and>
    within_budget (unat b) os0 os' (events @ [e])"
proof (cases a)
  case (AdapterIc10 i)
  let ?os = "os[i := os ! i + 1]"
  from w AdapterIc10 obtain k' where e: "se_cpu e = i" "os ! i < b" and t: "tick_inv kb sh t sl ?os k' s" "k' = k \<or> k' = Suc k"
    by (auto simp: next_work_def)
  have up: "unat (os ! i + 1) = unat (os ! i) + 1" by (rule unat_Suc_below [OF e(2)])
  have less: "unat (os ! i) < unat b" using e(2) by (simp add: word_less_nat_alt)
  have "tick_work (unat b) sl k' ?os < tick_work (unat b) sl k os"
    using t(2) k AdapterIc10 i less up by (auto intro: tick_work_next tick_work_same)
  moreover have "within_budget (unat b) os0 ?os (events @ [e])"
    using budget up less e(1) by (auto simp: within_budget_def events_of_def nth_list_update)
  ultimately show ?thesis using t(1) by blast
next
  case (AdapterLua i)
  then have e: "se_cpu e = length os + i" and t: "tick_inv kb sh t sl os (Suc k) s" using w by (simp_all add: next_work_def)
  have "within_budget (unat b) os0 os (events @ [e])" using budget e by (auto simp: within_budget_def events_of_def)
  then show ?thesis using t tick_work_next [OF _ k(1), of "Suc k"] by blast
qed

lemma wp_scheduler_step:
  assumes t: "tick_inv kb sh t sl os k s" and eng: "engine_ok kb sh eng"
    and budget: "within_budget (operation_budget kb) os0 os events"
  shows "wp (scheduler_step lm eng)
    (\<lambda>r s'. case r of None \<Rightarrow> sched_inv kb sh (t + 1) sl s'
       | Some e \<Rightarrow> \<exists>os' k'. tick_inv kb sh t sl os' k' s' \<and>
           tick_work (operation_budget kb) sl k' os' < tick_work (operation_budget kb) sl k os \<and>
           within_budget (operation_budget kb) os0 os' (events @ [e]))
    (\<lambda>s'. \<exists>t'. sched_inv kb sh t' sl s') s" (is "wp _ ?R ?E s")
proof -
  have step: "wp (step_adapter lm eng (fst p)) ?R ?E s'"
    if p: "prepared_at kb sh t sl os k' p s'" "k \<le> k'" for p k' and s' :: "'a simulator"
  proof -
    have s': "tick_inv kb sh t sl os k' s'" and k': "k' < length sl" "fst p = sl ! k'" using p by (simp_all add: prepared_at_def)
    have b: "unat (instruction_budget s') = operation_budget kb" and len: "length (s_cpus s') = length os"
      using s' sim_inv_budget [of kb sh s'] by (auto simp: tick_inv_def ops_of_def)
    have le: "tick_work (operation_budget kb) sl k' os \<le> tick_work (operation_budget kb) sl k os"
      using p(2) k'(1) tick_work_next [of k k' sl] by (cases "k = k'") (auto intro: less_imp_le)
    have bound: "i < length os" if "fst p = AdapterIc10 i" for i using prepared_bound [OF p(1)] that len by simp
    show ?thesis
      by (rule wp_mono [OF wp_step_adapter [OF p(1) eng]])
        (use next_work_progress [OF _ k' bound budget [folded b]] le b len in \<open>fastforce split: option.splits\<close>, blast)
  qed
  have error: "sched_inv kb sh t sl (s\<lparr>s_scheduler_error := x\<rparr>)" for x
    using tick_inv_sched [OF t] adapter_bound_cong [of "s\<lparr>s_scheduler_error := x\<rparr>" s]
    by (auto simp: sched_inv_def sim_inv_def list_all_iff)
  have prep: "wp prepare_next_adapter
     (\<lambda>p s'. case p of None \<Rightarrow> sched_inv kb sh (t + 1) sl s' | Some p \<Rightarrow> \<exists>k' \<ge> k. prepared_at kb sh t sl os k' p s') ?E s"
    unfolding prepare_next_adapter_def
    using wp_prepare_from [OF t] t by (intro wp_intros) (simp add: tick_inv_def)
  show ?thesis
    unfolding scheduler_step_def
    by (intro wp_intros wp_mono [OF prep]) (auto intro: step error)
qed

lemma world_tick_loop_returns:
  assumes "tick_inv kb sh t sl os k s" "engine_ok kb sh eng" "within_budget (operation_budget kb) os0 os events"
    "tick_work (operation_budget kb) sl k os + 2 \<le> fuel"
  shows "\<exists>r s'. world_tick_loop lm eng fuel t events s = Some (r, s') \<and> r \<noteq> Panic \<and> (\<exists>t'. sched_inv kb sh t' sl s') \<and>
    (\<forall>evs. r = Ok evs \<longrightarrow> sched_inv kb sh (t + 1) sl s' \<and> (\<exists>os'. within_budget (operation_budget kb) os0 os' evs))"
  using assms
proof (induction fuel arbitrary: s k os events)
  case (Suc fuel)
  obtain r s' where step: "scheduler_step lm eng s = (r, s')" by fastforce
  note wp = wp_scheduler_step [OF Suc.prems(1-3), of lm, unfolded wp_def step]
  have tick: "s_tick s = t" using Suc.prems(1) by (simp add: tick_inv_def)
  show ?case
  proof (cases r)
    case (Ok e)
    show ?thesis
    proof (cases e)
      case None
      then have "sched_inv kb sh (t + 1) sl s'" using wp Ok by simp
      moreover obtain fuel' where "fuel = Suc fuel'" using Suc.prems(4) by (cases fuel) auto
      ultimately show ?thesis using None Ok step tick Suc.prems(3) by (auto simp: sched_inv_def)
    next
      case (Some ev)
      then obtain os' k' where "tick_inv kb sh t sl os' k' s'"
        "tick_work (operation_budget kb) sl k' os' < tick_work (operation_budget kb) sl k os"
        "within_budget (operation_budget kb) os0 os' (events @ [ev])" using wp Ok by auto
      then show ?thesis using Suc.IH [of os' k' s' "events @ [ev]"] Suc.prems(2,4) Some Ok step tick by simp
    qed
  qed (use wp step tick in auto)
qed simp

lemma world_tick_loop_mono:
  "world_tick_loop lm eng fuel t evs s = Some x \<Longrightarrow> fuel \<le> fuel' \<Longrightarrow> world_tick_loop lm eng fuel' t evs s = Some x"
proof (induction fuel arbitrary: fuel' evs s)
  case (Suc fuel)
  then obtain fuel'' where "fuel' = Suc fuel''" "fuel \<le> fuel''" by (cases fuel') auto
  with Suc show ?case by (auto split: outcome.splits prod.splits option.splits if_splits)
qed simp

lemma sim_inv_tick: "sim_inv kb sh s \<Longrightarrow> tick_inv kb sh (s_tick s) (s_schedule s) (ops_of s) (s_scheduler_slot s) s"
  by (simp add: tick_inv_def)

lemma within_budget_start: "within_budget budget ops ops []"
  by (simp add: within_budget_def events_of_def)

lemma step_world_tick_returns:
  assumes "sim_inv kb sh s" "engine_ok kb sh eng" "length (s_schedule s) * (operation_budget kb + 1) + 2 \<le> fuel"
  shows "\<exists>r s'. step_world_tick lm eng fuel s = Some (r, s') \<and> r \<noteq> Panic \<and> (\<exists>t'. sched_inv kb sh t' (s_schedule s) s') \<and>
    (\<forall>evs. r = Ok evs \<longrightarrow> sched_inv kb sh (s_tick s + 1) (s_schedule s) s' \<and>
       (\<exists>ops. within_budget (operation_budget kb) (ops_of s) ops evs))"
proof -
  have "tick_work (operation_budget kb) (s_schedule s) (s_scheduler_slot s) (ops_of s)
      \<le> (length (s_schedule s) - s_scheduler_slot s) * Suc (operation_budget kb)" by (rule tick_work_upper)
  also have "\<dots> \<le> length (s_schedule s) * (operation_budget kb + 1)" unfolding Suc_eq_plus1 by (rule mult_le_mono1) simp
  finally show ?thesis unfolding step_world_tick_def
    using assms(3) by (intro world_tick_loop_returns [OF sim_inv_tick [OF assms(1)] assms(2) within_budget_start]) simp
qed

lemma behaviour_build_wf: "world_wf kb w \<Longrightarrow> behaviour_wf (length (w_devices w)) (behaviour_build w)"
  using behaviour_build_inv [of kb w empty_journal] by (simp add: behave_inv_def world_shape_def)

lemma sample_program_ok: "program_wf sample_program" "operands_ok sample_program"
proof -
  have "required_operands ''yield'' = 0" by (simp add: required_operands_def is_comparison_branch_def normalized_branch_def)
  then show "operands_ok sample_program" by (simp add: operands_ok_def sample_program_def)
  show "program_wf sample_program" by (simp add: program_wf_def sample_program_def bt_wf_def)
qed

lemma sample_cpus_ok: "cpu_ok 1 (sample_cpu\<lparr>c_program := sample_program\<rparr>)" "cpu_ok 1 (sample_cpu\<lparr>c_state := WaitingUntil 3\<rparr>)"
proof -
  have "operands_ok (c_program sample_cpu)" by (simp add: operands_ok_def sample_cpu_def)
  then show "cpu_ok 1 (sample_cpu\<lparr>c_state := WaitingUntil 3\<rparr>)" using sample_cpu_wf by (simp add: cpu_ok_def cpu_wf_def cpu_shape_def)
  show "cpu_ok 1 (sample_cpu\<lparr>c_program := sample_program\<rparr>)"
    using sample_cpu_wf sample_program_ok by (simp add: cpu_ok_def cpu_wf_def cpu_shape_def)
qed

lemma sample_sim_inv: "sim_inv sample_kb (world_shape sample_world) sample_sim"
proof -
  have "length (fst (world_shape sample_world)) = 1" by (simp add: world_shape_def sample_world_def)
  moreover have "behaviour_wf 1 (behaviour_build sample_world)"
    using behaviour_build_wf [OF sample_world_wf] by (simp add: sample_world_def)
  ultimately show ?thesis using sample_world_wf sample_cpus_ok by (simp add: sim_inv_def sample_sim_def world_inv_def)
qed

lemma sample_engine_ok: "engine_ok kb sh sample_engine"
  by (simp add: engine_ok_def sample_engine_def)

lemma bind_eq_Err:
  "bind m f s = (Err e, s') \<longleftrightarrow> m s = (Err e, s') \<or> (\<exists>x s1. m s = (Ok x, s1) \<and> f x s1 = (Err e, s'))"
  by (auto simp: bind_def split: prod.splits outcome.splits)

lemma never_fails_bind: "never_fails m \<Longrightarrow> (\<And>x. never_fails (f x)) \<Longrightarrow> never_fails (bind m f)"
  by (auto simp: never_fails_def bind_eq_Err)

lemma never_fails_basic [simp]:
  "never_fails (ret x)" "never_fails (gets f)" "never_fails (modify g)" "never_fails (expect opt)"
  by (auto simp: never_fails_def prog_simps expect_def split: option.splits)

lemma never_fails_simulator [simp]:
  "never_fails (s_cpu i)" "never_fails (s_note n)" "never_fails (s_intern name)" "never_fails (s_insert_field d field v)"
  "never_fails (s_execute lm i op actor)" "never_fails (count_operation i actor)" "never_fails (flush_effects i)"
  "never_fails (fault_cpu i message)"
proof -
  show basic: "never_fails (s_cpu i)" "never_fails (s_note n)" "never_fails (s_insert_field d field v)"
    for i n d field v unfolding s_cpu_def s_note_def s_insert_field_def by (simp_all add: never_fails_bind)
  show "never_fails (s_intern name)" "never_fails (s_execute lm i op actor)"
    by (auto simp: never_fails_def s_intern_def s_execute_def Let_def split: prod.splits outcome.splits option.splits)
  show "never_fails (count_operation i actor)" "never_fails (flush_effects i)" "never_fails (fault_cpu i message)"
    unfolding count_operation_def flush_effects_def fault_cpu_def Let_def cpu_take_effects_def split_beta
    by (simp_all add: never_fails_bind basic)
qed

lemma never_fails_bindE:
  assumes "bind m f s = (Err e, s')" "never_fails m"
  obtains x s1 where "m s = (Ok x, s1)" "f x s1 = (Err e, s')"
  using assms by (auto simp: bind_eq_Err never_fails_def)

lemma run_operation_error:
  assumes "run_operation lm i op s = (Err e, s')"
  obtains message s1 s2 where "e = ExecErr message" "fault_cpu i message s1 = (Ok (), s2)" "flush_effects i s2 = (Ok (), s')"
  using assms
  by (auto simp: run_operation_def Let_def prog_simps split: option.splits elim!: never_fails_bindE)

lemma fault_cpu_effect:
  assumes "fault_cpu i message s = (Ok (), s')"
  shows "i < length (s_cpus s')" "c_state (s_cpus s' ! i) = CpuFault" "c_error (s_cpus s' ! i) = Some message"
    "c_housing (s_cpus s' ! i) < length (w_devices (s_world s'))"
    "bt_get (dv_fields (w_devices (s_world s') ! c_housing (s_cpus s' ! i))) ''Error'' = Some f64_one"
  using assms
  by (auto simp: fault_cpu_def s_cpu_def s_insert_field_def s_set_cpu_def prog_simps nth_opt_def cpu_write_state_def
      note_write_bits_def bt_get_insert split: if_splits elim!: bind_OkE)

lemma flush_effects_effect:
  assumes "flush_effects i s = (Ok (), s')"
  shows "length (s_cpus s') = length (s_cpus s)" "s_world s' = s_world s"
    "s_cpus s' = (s_cpus s)[i := (s_cpus s ! i)\<lparr>c_journal := snd (j_take (c_journal (s_cpus s ! i)))\<rparr>]"
  using assms
  by (auto simp: flush_effects_def s_cpu_def s_set_cpu_def s_note_def prog_simps nth_opt_def cpu_take_effects_def Let_def
      split_beta split: if_splits elim!: bind_OkE)

lemma exec_yield:
  "o_mnemonic op = ''yield'' \<Longrightarrow> execute_operation lm kb tick op actor x =
     (Ok (), x\<lparr>x_cpu := cpu_write_state (WaitingUntil (tick + 1)) (cpu_write_pc (o_line op + 1) (x_cpu x))\<rparr>)"
  by (simp add: execute_operation_def exec_arithmetic_def exec_local_def on_cpu_def prog_simps is_comparison_branch_def
      binary_function_def unary_function_def bitwise_function_def selection_binary_test_def selection_unary_test_def
      shift_function_def normalized_branch_def)

lemma exec_lr:
  "o_mnemonic op = ''lr'' \<Longrightarrow> execute_operation lm kb tick op actor x =
     (Err (NeedsBehaviourModel ''lr''), x\<lparr>x_cpu := cpu_write_pc (o_line op + 1) (x_cpu x)\<rparr>)"
  by (simp add: execute_operation_def exec_arithmetic_def exec_local_def on_cpu_def prog_simps is_comparison_branch_def
      binary_function_def unary_function_def bitwise_function_def selection_binary_test_def selection_unary_test_def
      shift_function_def normalized_branch_def)

lemma wp_execute_lr:
  assumes "run_inv kb sh i d F ops s" "o_mnemonic op = ''lr''" "o_operands op = []"
    "\<And>m s'. run_inv kb sh i d F ops s' \<Longrightarrow> R (Some m) s'"
  shows "wp (s_execute lm i op actor) R E s"
proof -
  have "required_operands ''lr'' = 0" by (simp add: required_operands_def is_comparison_branch_def normalized_branch_def)
  then have "safe (run_inv kb sh i d F ops) anything (s_execute lm i op actor)" using assms(2,3) by (intro safe_s_execute) simp
  moreover have "fst (s_execute lm i op actor s) = Ok (Some (NeedsBehaviourModel ''lr''))"
    using assms(1,2) by (simp add: s_execute_def exec_lr run_inv_def)
  ultimately show ?thesis using assms(1,4) safeD(1) [of "run_inv kb sh i d F ops" anything "s_execute lm i op actor" s]
    by (cases "s_execute lm i op actor s") (simp add: wp_def)
qed

lemma step_lr_fails:
  assumes "sim_inv kb sh s" "i < length (s_cpus s)" "current_operation (s_cpus s ! i) = Some op"
    "o_mnemonic op = ''lr''" "o_operands op = []" "c_state (s_cpus s ! i) = Ready"
  shows "\<exists>e s'. step_instruction lm i s = (Err e, s')"
proof -
  let ?d = "s_cpus s ! i"
  have start: "run_inv kb sh i ?d (run_frame i ?d s) (c_operations_this_tick ?d) s" using assms(1,2) by (simp add: run_inv_def)
  have set: "run_inv kb sh i ?d F ops
      (s_set_cpu i (cpu_write_state Ready (cpu_write_pc pc (configure_journal b a c))) s')"
    if "run_inv kb sh i ?d F ops s'" "cpu_ok (length (fst sh)) c \<and> c_operations_this_tick c = ops" for s' :: "'a simulator" and F ops c pc b a
    using run_inv_set_cpu [OF that(1), of "cpu_write_state Ready (cpu_write_pc pc (configure_journal b a c))"] that(2)
      cpu_shape_parts [of "cpu_write_state Ready (cpu_write_pc pc (configure_journal b a c))" c] by simp
  have "wp (run_operation lm i op) (\<lambda>_ _. False) (\<lambda>_. True) s"
    unfolding run_operation_def Let_def
    using start assms(4,5)
    by (intro wp_intros wp_safe_weaken [OF safe_s_cpu] wp_safe_weaken [OF safe_s_intern]
        wp_safe_weaken [OF safe_s_insert_field] wp_execute_lr wp_count_operation
        wp_safe_weaken [OF safe_flush_effects] wp_safe_weaken [OF safe_fault_cpu])
      (auto intro: set run_inv_deliver dest: run_inv_housing)
  then show ?thesis using assms(2,3,6)
    by (cases "run_operation lm i op s"; cases "fst (run_operation lm i op s)") (auto simp: wp_def step_instruction_def prog_simps)
qed

lemma sample_fault_inv: "sim_inv sample_kb (world_shape sample_world) sample_fault"
proof -
  have "operands_ok (c_program (s_cpus sample_fault ! 0))" "program_wf (c_program (s_cpus sample_fault ! 0))"
    by (simp_all add: sample_fault_def operands_ok_def program_wf_def bt_wf_def required_operands_def is_comparison_branch_def
        normalized_branch_def)
  then have "cpu_ok 1 (s_cpus sample_fault ! 0)"
    using sample_cpu_wf by (simp add: sample_fault_def cpu_ok_def cpu_wf_def cpu_shape_def)
  moreover have "length (fst (world_shape sample_world)) = 1" by (simp add: world_shape_def sample_world_def)
  ultimately show ?thesis using sample_sim_inv by (simp add: sim_inv_def sample_fault_def sample_sim_def)
qed

lemma sample_fault_operation: "current_operation (s_cpus sample_fault ! 0) = Some \<lparr>o_line = 0, o_mnemonic = ''lr'', o_operands = []\<rparr>"
  by (simp add: sample_fault_def sample_cpu_def current_operation_def operation_at_or_after_def bt_first_at_or_after_def)

lemma sample_behaviours: "br_descriptors (behaviour_build sample_world) = [passive_descriptor]"
  "br_pending_writes (behaviour_build sample_world) = []" "br_scheduled (behaviour_build sample_world) = []"
  by (simp_all add: behaviour_build_def sample_world_def bt_empty_def descriptor_for_prefab_def passive_descriptor_def
      vending_machine_def chute_outlet_def digital_valve_def starts_with_def Let_def)

lemma sample_tick_inv: "sim_inv sample_kb (world_shape sample_world) sample_tick"
  using sample_sim_inv by (simp add: sim_inv_def sample_tick_def sample_sim_def)

lemma sample_cpu_state: "c_state sample_cpu = Ready" "c_operations_this_tick sample_cpu = 0" by (simp_all add: sample_cpu_def)

lemma sample_lua_state: "l_state sample_lua = VmReady" "l_operations_this_tick sample_lua = 0" "l_current_line sample_lua = 1"
  by (simp_all add: sample_lua_def)

lemma sample_tick_end: "s_behaviours s = behaviour_build sample_world \<Longrightarrow> on_behave tick_end s = (Ok (), s)"
  by (simp add: on_behave_def tick_end_def run_behaviour_def sample_behaviours passive_descriptor_def prog_simps)

lemma sample_tick_start: "s_behaviours s = behaviour_build sample_world \<Longrightarrow> on_behave (tick_start t) s = (Ok (), s)"
  by (simp add: on_behave_def tick_start_def due_events_def sample_behaviours prog_simps)

lemma sample_advance:
  assumes "s_behaviours s = behaviour_build sample_world" "s_schedule s = [AdapterLua 0]"
    "length (s_lua_programs s) = 1"
  shows "\<exists>s'. advance_tick s = (Ok (), s') \<and> s_tick s' = s_tick s + 1"
proof -
  have "wp advance_tick (\<lambda>_ s'. s_tick s' = s_tick s + 1) (\<lambda>_. False) s"
    using assms unfolding advance_tick_def set_scheduler_slot_def s_note_def
    by (intro wp_intros) (simp_all add: wp_def sample_tick_end sample_tick_start prog_simps lua_begin_tick_def s_lua_def s_set_lua_def ic10_begin_tick_def
        s_set_cpu_def s_note_def Let_def)
  then show ?thesis by (cases "advance_tick s"; cases "fst (advance_tick s)") (auto simp: wp_def)
qed

lemma sample_tick_step:
  "\<exists>s'. scheduler_step sample_libm sample_engine sample_tick = (Ok (Some \<lparr>se_cpu = 2, se_line = 1, se_state = WaitingUntil 3\<rparr>), s') \<and>
     s_behaviours s' = behaviour_build sample_world \<and> s_schedule s' = [AdapterLua 0] \<and> s_cpus s' = s_cpus sample_tick \<and>
     length (s_lua_programs s') = 1 \<and> s_tick s' = 2 \<and> s_scheduler_slot s' = 1 \<and> s_scheduler_error s' = None"
proof -
  let ?r = "sample_lua\<lparr>l_host_world := sample_world, l_vm := (), l_logs := [''tick''], l_current_line := 2, l_frames := [], l_locals := [],
      l_current_source_path := ''q.lua'', l_invocations := 1, l_operations_this_tick := 1, l_state := VmWaitingUntil 3\<rparr>"
  have "lua_runtime_step sample_engine 2 sample_world sample_lua = (Ok sample_world, ?r)"
    by (simp add: lua_runtime_step_def lua_resume_once_def sample_engine_def sample_lua_def prog_simps saturating_succ_def)
  then show ?thesis
    by (simp add: sample_tick_def sample_sim_def scheduler_step_def prepare_next_adapter_def lua_lifecycle_def s_lua_def
      lua_runtime_lifecycle_def can_step_def step_adapter_def lua_step_def retains_slot_def set_scheduler_slot_def s_note_def
      s_set_lua_def into_ic10_event_def sample_lua_state prog_simps)
qed

lemma sample_tick_runs:
  "\<exists>s'. step_world_tick sample_libm sample_engine 4 sample_tick = Some (Ok [\<lparr>se_cpu = 2, se_line = 1, se_state = WaitingUntil 3\<rparr>], s')"
proof -
  from sample_tick_step obtain s1 where step1: "scheduler_step sample_libm sample_engine sample_tick =
      (Ok (Some \<lparr>se_cpu = 2, se_line = 1, se_state = WaitingUntil 3\<rparr>), s1)"
    and s1: "s_behaviours s1 = behaviour_build sample_world" "s_schedule s1 = [AdapterLua 0]" "s_cpus s1 = s_cpus sample_tick"
      "length (s_lua_programs s1) = 1" "s_tick s1 = 2" "s_scheduler_slot s1 = 1" "s_scheduler_error s1 = None" by blast
  obtain s2 where s2: "advance_tick s1 = (Ok (), s2)" "s_tick s2 = 3" using sample_advance [of s1] s1 by auto
  have "prepare_next_adapter s1 = (Ok None, s2)"
    using s1 s2 by (simp add: prepare_next_adapter_def prog_simps)
  then have "scheduler_step sample_libm sample_engine s1 = (Ok None, s2)"
    using s1 by (simp add: scheduler_step_def prog_simps)
  then show ?thesis using step1 s1 s2 by (simp add: step_world_tick_def sample_tick_def sample_sim_def eval_nat_numeral)
qed

subsection \<open>Waking\<close>

lemma wake_cpu_idem [simp]: "wake_cpu t (wake_cpu t c) = wake_cpu t c"
  by (simp add: wake_cpu_def Let_def split: cpu_state.split)

lemma ic10_begin_tick_effect:
  assumes "ic10_begin_tick i t s = (Ok (), s')"
  shows "i < length (s_cpus s)" "s_cpus s' = (s_cpus s)[i := wake_cpu t (s_cpus s ! i)]" "s_tick s' = s_tick s"
    "s_scheduler_slot s' = s_scheduler_slot s" "s_schedule s' = s_schedule s"
  using assms by (auto simp: ic10_begin_tick_def s_note_def s_set_cpu_def wake_cpu_def nth_opt_def prog_simps Let_def
      split: if_splits cpu_state.splits elim!: bind_OkE)

lemma lua_begin_tick_effect:
  assumes "lua_begin_tick i t s = (Ok (), s')"
  shows "s_cpus s' = s_cpus s" "s_tick s' = s_tick s"
    "s_scheduler_slot s' = s_scheduler_slot s" "s_schedule s' = s_schedule s"
  using assms by (auto simp: lua_begin_tick_def s_lua_def s_set_lua_def nth_opt_def prog_simps split: if_splits elim!: bind_OkE)

lemma begin_ticks_effect:
  assumes "for_each slots (adapter_begin_tick t) s = (Ok (), s')"
  shows "s_cpus s' = woken t slots (s_cpus s) \<and> s_tick s' = s_tick s \<and> s_scheduler_slot s' = s_scheduler_slot s"
  using assms
proof (induction slots arbitrary: s)
  case Nil
  then show ?case by (simp add: woken_def prog_simps map_nth)
next
  case (Cons a slots)
  then obtain s1 where s1: "adapter_begin_tick t a s = (Ok (), s1)" "for_each slots (adapter_begin_tick t) s1 = (Ok (), s')"
    by (auto elim: bind_OkE)
  note IH = Cons.IH [OF s1(2)]
  show ?case
  proof (cases a)
    case (AdapterIc10 i)
    note e = ic10_begin_tick_effect [OF s1(1) [unfolded AdapterIc10 adapter_begin_tick.simps]]
    have "woken t slots (s_cpus s1) = woken t (a # slots) (s_cpus s)"
      using e(1,2) AdapterIc10 by (intro nth_equalityI) (auto simp: woken_def nth_list_update)
    then show ?thesis using IH e by simp
  next
    case (AdapterLua i)
    then show ?thesis using IH lua_begin_tick_effect [of i t s s1] s1(1) by (simp add: woken_def)
  qed
qed

lemma on_behave_frame:
  assumes "on_behave m s = (Ok (), s')"
  shows "s_cpus s' = s_cpus s" "s_tick s' = s_tick s" "s_schedule s' = s_schedule s"
  using assms by (auto simp: on_behave_def split: prod.splits outcome.splits)

subsection \<open>Checkpoints\<close>

lemma cpu_snapshot_restore [simp]: "cpu_snapshot (cpu_restore snap c) = snap"
  by (simp add: cpu_snapshot_def cpu_restore_def)

lemma lua_snapshot_restore [simp]: "lua_runtime_snapshot_of (lua_runtime_restore snap w r) = snap"
  by (simp add: lua_runtime_snapshot_of_def lua_runtime_restore_def)

lemma adapter_restore_effect:
  assumes "snapshot_fits a p s"
  shows "fst (adapter_restore a p s) = Ok ()" "adapter_snapshot a (snd (adapter_restore a p s)) = Some p"
    "b \<noteq> a \<Longrightarrow> adapter_snapshot b (snd (adapter_restore a p s)) = adapter_snapshot b s"
    "snapshot_fits b q (snd (adapter_restore a p s)) = snapshot_fits b q s"
  using assms
  by (cases a; cases p; cases b; cases q;
      simp add: ic10_restore_def lua_restore_def s_lua_def s_set_cpu_def s_set_lua_def prog_simps nth_opt_update; fail)+

interpretation machines: vm_host adapter_snapshot adapter_restore snapshot_fits
  by unfold_locales (simp_all add: adapter_restore_effect)

lemma collect_snapshots_eq: "collect_snapshots as s = Some ps \<longleftrightarrow> list_all2 (\<lambda>a p. adapter_snapshot a s = Some p) as ps"
  by (induction as arbitrary: ps) (auto simp: list_all2_Cons1 bind_eq_Some_conv)

lemma snapshot_fits_iff: "adapter_snapshot a s = Some p \<Longrightarrow> snapshot_fits a p s"
  by (cases a) (auto simp: nth_opt_eq_Some)

lemma snapshot_fits_same: "same_simulation s s' \<Longrightarrow> snapshot_fits a p s' = snapshot_fits a p s"
  by (cases a; cases p) (simp_all add: same_simulation_def)

lemma adapter_restore_frame:
  assumes "adapter_restore a p s = (r, s')"
  shows "s_world s' = s_world s \<and> s_schedule s' = s_schedule s \<and> s_tick s' = s_tick s \<and> s_scheduler_slot s' = s_scheduler_slot s \<and>
    s_scheduler_error s' = s_scheduler_error s \<and> s_behaviours s' = s_behaviours s \<and> s_driver_state s' = s_driver_state s \<and>
    s_journal s' = s_journal s"
  using assms
  by (cases a; cases p)
    (auto simp: ic10_restore_def lua_restore_def s_lua_def s_set_cpu_def s_set_lua_def nth_opt_def bind_def ok_or_def gets_def modify_def ret_def throw_def
      split: if_splits)

lemma restore_each_frame:
  "for_each ps (\<lambda>(a, p). adapter_restore a p) s = (r, s') \<Longrightarrow>
    s_world s' = s_world s \<and> s_schedule s' = s_schedule s \<and> s_tick s' = s_tick s \<and> s_scheduler_slot s' = s_scheduler_slot s \<and>
    s_scheduler_error s' = s_scheduler_error s \<and> s_behaviours s' = s_behaviours s \<and> s_driver_state s' = s_driver_state s \<and>
    s_journal s' = s_journal s"
proof (induction ps arbitrary: s)
  case (Cons ap ps)
  then show ?case
    using adapter_restore_frame [of "fst ap" "snd ap" s]
    by (cases "adapter_restore (fst ap) (snd ap) s") (auto simp: bind_def split: prod.splits outcome.splits)
qed (simp add: prog_simps)

section \<open>Properties\<close>

text \<open>C1: A world tick always ends. From a well-formed state, \<open>step_world_tick\<close> returns after at most one step per
  operation of every scheduled machine's budget; it does not panic, it keeps the state well-formed, and when it
  succeeds the world is exactly one tick further.\<close>

theorem world_tick_returns:
  assumes "sim_inv kb sh s" "engine_ok kb sh eng"
    and "length (s_schedule s) * (operation_budget kb + 1) + 2 \<le> fuel"
  shows "\<exists>r s'. step_world_tick lm eng fuel s = Some (r, s') \<and> r \<noteq> Panic \<and> sim_inv kb sh s' \<and>
    (\<forall>events. r = Ok events \<longrightarrow> s_tick s' = s_tick s + 1)"
  using step_world_tick_returns [OF assms, of lm] unfolding sched_inv_def by blast

theorem world_tick_returns_witness:
  "\<exists>r s'. step_world_tick sample_libm sample_engine
     (length (s_schedule sample_sim) * (operation_budget sample_kb + 1) + 2) sample_sim = Some (r, s') \<and> r \<noteq> Panic"
  using world_tick_returns [OF sample_sim_inv sample_engine_ok order_refl, of sample_libm] by blast

text \<open>C3: No IC exceeds its instruction budget in a world tick: the events of a completed tick that belong to one IC,
  together with what it had executed when the tick was entered, are at most the budget (or nothing is executed when
  the budget was already used up).\<close>

theorem world_tick_budget:
  assumes "sim_inv kb sh s" "engine_ok kb sh eng" "step_world_tick lm eng fuel s = Some (Ok events, s')"
    and "i < length (s_cpus s)"
  shows "unat (c_operations_this_tick (s_cpus s ! i)) + events_of i events
    \<le> max (operation_budget kb) (unat (c_operations_this_tick (s_cpus s ! i)))"
proof -
  let ?fuel = "max fuel (length (s_schedule s) * (operation_budget kb + 1) + 2)"
  have "step_world_tick lm eng ?fuel s = Some (Ok events, s')"
    using assms(3) unfolding step_world_tick_def by (rule world_tick_loop_mono) simp
  then obtain ops where "within_budget (operation_budget kb) (ops_of s) ops events"
    using step_world_tick_returns [OF assms(1,2), of ?fuel lm] by auto
  then show ?thesis using assms(4) by (auto simp: within_budget_def ops_of_def dest!: spec [of _ i])
qed

theorem world_tick_budget_witness:
  "\<exists>events s'. step_world_tick sample_libm sample_engine 4 sample_tick = Some (Ok events, s') \<and> length events = 1 \<and>
     events_of 1 events \<le> operation_budget sample_kb"
proof -
  obtain s' where tick: "step_world_tick sample_libm sample_engine 4 sample_tick =
      Some (Ok [\<lparr>se_cpu = 2, se_line = 1, se_state = WaitingUntil 3\<rparr>], s')" using sample_tick_runs by blast
  have "1 < length (s_cpus sample_tick)" "c_operations_this_tick (s_cpus sample_tick ! 1) = 0"
    by (simp_all add: sample_tick_def sample_sim_def sample_cpu_def)
  from world_tick_budget [OF sample_tick_inv sample_engine_ok tick this(1)] this(2) show ?thesis using tick by auto
qed

text \<open>C10: An instruction is confined. Whatever its outcome, executing an instruction of one IC does not panic, keeps
  the simulator well-formed, and leaves every other IC, every Lua program, the schedule, the tick and the scheduler's
  position as they were.\<close>

theorem instruction_isolated:
  assumes "sim_inv kb sh s" "i < length (s_cpus s)" "step_instruction lm i s = (r, s')"
  shows "r \<noteq> Panic \<and> sim_inv kb sh s' \<and> length (s_cpus s') = length (s_cpus s) \<and>
    (\<forall>j. j \<noteq> i \<longrightarrow> s_cpus s' ! j = s_cpus s ! j) \<and> s_lua_programs s' = s_lua_programs s \<and>
    s_schedule s' = s_schedule s \<and> s_tick s' = s_tick s \<and> s_scheduler_slot s' = s_scheduler_slot s"
proof -
  let ?d = "s_cpus s ! i"
  have start: "run_inv kb sh i ?d (run_frame i ?d s) (c_operations_this_tick ?d) s"
    using assms(1,2) by (simp add: run_inv_def)
  have "r \<noteq> Panic \<and> (\<exists>n. run_inv kb sh i ?d (run_frame i ?d s) n s')"
    using step_instruction_effect [OF start, of lm] assms(3) by (cases r) (auto simp: wp_def)
  then obtain n where n: "r \<noteq> Panic" "run_inv kb sh i ?d (run_frame i ?d s) n s'" by blast
  then have cpus: "(s_cpus s')[i := ?d] = (s_cpus s)[i := ?d]" by (simp add: run_inv_def run_frame_def)
  have "length (s_cpus s') = length (s_cpus s)" using arg_cong [OF cpus, of length] by simp
  moreover have "s_cpus s' ! j = s_cpus s ! j" if "j \<noteq> i" for j
    using arg_cong [OF cpus, of "\<lambda>cs. cs ! j"] that by simp
  ultimately show ?thesis using n by (simp add: run_inv_def run_frame_def)
qed

theorem instruction_isolated_witness:
  "s_cpus (snd (step_instruction sample_libm 0 sample_sim)) ! 1 = sample_cpu\<lparr>c_state := WaitingUntil 3\<rparr>"
proof -
  have "0 < length (s_cpus sample_sim)" "s_cpus sample_sim ! 1 = sample_cpu\<lparr>c_state := WaitingUntil 3\<rparr>"
    by (simp_all add: sample_sim_def)
  then show ?thesis
    using instruction_isolated [OF sample_sim_inv _ prod.collapse [symmetric], of 0 sample_libm] by simp
qed

text \<open>C12: A failing instruction faults its IC: when a step of a running IC fails, the error is the instruction's own,
  the IC is in the error state with that error recorded, its housing shows \<open>Error = 1\<close>, and every further step of it is
  refused.\<close>

theorem failed_instruction_faults:
  assumes "step_instruction lm i s = (Err e, s')" "i < length (s_cpus s)" "c_state (s_cpus s ! i) \<notin> {Halted, CpuFault}"
  shows "\<exists>message. e = ExecErr message \<and> c_state (s_cpus s' ! i) = CpuFault \<and> c_error (s_cpus s' ! i) = Some message \<and>
    bt_get (dv_fields (w_devices (s_world s') ! c_housing (s_cpus s' ! i))) ''Error'' = Some f64_one \<and>
    step_instruction lm i s' = (Err (NotRunnable (c_name (s_cpus s' ! i))), s')"
proof -
  obtain op where "run_operation lm i op s = (Err e, s')"
    using assms by (auto simp: step_instruction_def prog_simps split: option.splits)
  then obtain message s1 s2 where e: "e = ExecErr message" and fault: "fault_cpu i message s1 = (Ok (), s2)"
    and flush: "flush_effects i s2 = (Ok (), s')" by (rule run_operation_error)
  note f = fault_cpu_effect [OF fault] and g = flush_effects_effect [OF flush]
  have "step_instruction lm i s' = (Err (NotRunnable (c_name (s_cpus s' ! i))), s')"
    using f(1,2) g(1,3) by (simp add: step_instruction_def prog_simps)
  then show ?thesis using e f g by simp
qed

theorem failed_instruction_faults_witness:
  "\<exists>message s'. step_instruction sample_libm 0 sample_fault = (Err (ExecErr message), s') \<and>
     c_state (s_cpus s' ! 0) = CpuFault"
proof -
  have "0 < length (s_cpus sample_fault)" "c_state (s_cpus sample_fault ! 0) = Ready"
    by (simp_all add: sample_fault_def sample_cpu_def)
  with step_lr_fails [OF sample_fault_inv _ sample_fault_operation]
  obtain e s' where "step_instruction sample_libm 0 sample_fault = (Err e, s')" by fastforce
  with failed_instruction_faults [OF this] \<open>0 < _\<close> \<open>_ = Ready\<close> show ?thesis by fastforce
qed

text \<open>C13: A new tick starts every scheduled IC afresh: when the tick advances, the tick counter goes up by one and the
  scheduler returns to the first slot; every scheduled IC has its operation counter reset and is woken exactly when the
  tick it waits for has come; nothing else of any IC changes.\<close>

theorem advance_tick_wakes:
  assumes "advance_tick s = (Ok (), s')"
  shows "s_tick s' = s_tick s + 1 \<and> s_scheduler_slot s' = 0 \<and> s_cpus s' = woken (s_tick s + 1) (s_schedule s) (s_cpus s)"
proof -
  obtain s1 where end_of: "on_behave tick_end s = (Ok (), s1)"
    and rest: "bind (on_behave (tick_start (s_tick s1 + 1))) (\<lambda>_. bind (set_scheduler_slot 0) (\<lambda>_.
       bind (gets s_schedule) (\<lambda>adapters. for_each adapters (adapter_begin_tick (s_tick s1 + 1)))))
       (s1\<lparr>s_tick := s_tick s1 + 1, s_journal := j_write_bits ActorScheduler TTick (s_tick s1) (s_tick s1 + 1) (s_journal s1)\<rparr>) = (Ok (), s')"
    using assms by (auto simp: advance_tick_def s_note_def prog_simps elim!: bind_OkE [of "on_behave tick_end"])
  let ?s = "s1\<lparr>s_tick := s_tick s1 + 1, s_journal := j_write_bits ActorScheduler TTick (s_tick s1) (s_tick s1 + 1) (s_journal s1)\<rparr>"
  from rest obtain s2 where start: "on_behave (tick_start (s_tick s1 + 1)) ?s = (Ok (), s2)"
    and slots: "for_each (s_schedule s2) (adapter_begin_tick (s_tick s1 + 1)) (s2\<lparr>s_scheduler_slot := 0,
      s_journal := j_write_bits ActorScheduler TSchedulerCpu (of_nat (s_scheduler_slot s2)) 0 (s_journal s2)\<rparr>) = (Ok (), s')"
    by (auto simp: set_scheduler_slot_def s_note_def prog_simps elim!: bind_OkE [of "on_behave (tick_start _)"])
  show ?thesis using begin_ticks_effect [OF slots] on_behave_frame [OF end_of] on_behave_frame [OF start] by simp
qed

theorem advance_tick_wakes_witness:
  "\<exists>s'. advance_tick sample_tick = (Ok (), s') \<and> s_scheduler_slot s' = 0 \<and> s_cpus s' = s_cpus sample_tick"
proof -
  obtain s' where s': "advance_tick sample_tick = (Ok (), s')"
    using sample_advance [of sample_tick] by (auto simp: sample_tick_def sample_sim_def)
  moreover have "woken 3 (s_schedule sample_tick) (s_cpus sample_tick) = s_cpus sample_tick"
    by (simp add: woken_def sample_tick_def map_nth)
  ultimately show ?thesis using advance_tick_wakes [OF s'] by (auto simp: sample_tick_def sample_sim_def)
qed

text \<open>C11: Restoring a checkpoint undoes everything since: after any run that keeps the machines and the size of the
  world, restoring a snapshot succeeds, and a snapshot taken right after is the one that was restored.\<close>

theorem checkpoint_restores:
  assumes "sim_snapshot s = (Ok snap, s0)" "distinct (s_schedule s)" "same_simulation s s1"
  shows "\<exists>s2. sim_restore snap s1 = (Ok (), s2) \<and> sim_snapshot s2 = (Ok snap, s2)"
proof -
  obtain ps where ps: "collect_snapshots (s_schedule s) s = Some ps"
    and snap: "snap = \<lparr>ss_world = s_world s, ss_runtimes = ps, ss_tick = s_tick s, ss_scheduler_slot = s_scheduler_slot s,
      ss_scheduler_error = s_scheduler_error s, ss_behaviours = s_behaviours s, ss_driver_state = s_driver_state s,
      ss_journal_write_sequence = j_write_sequence (s_journal s)\<rparr>"
    using assms(1) by (cases "collect_snapshots (s_schedule s) s") (auto simp: sim_snapshot_def prog_simps)
  let ?m = "s1\<lparr>s_world := s_world s, s_tick := s_tick s, s_scheduler_slot := s_scheduler_slot s,
      s_scheduler_error := s_scheduler_error s, s_behaviours := s_behaviours s, s_driver_state := s_driver_state s,
      s_journal := j_restore_write_sequence (j_write_sequence (s_journal s)) (s_journal s1)\<rparr>"
  let ?zs = "zip (s_schedule s) ps"
  have all: "list_all2 (\<lambda>a p. adapter_snapshot a s = Some p) (s_schedule s) ps" using ps by (simp add: collect_snapshots_eq)
  then have len: "length ps = length (s_schedule s)" by (simp add: list_all2_lengthD)
  have same: "same_simulation s ?m" using assms(3) by (simp add: same_simulation_def)
  have "\<forall>(a, p) \<in> set ?zs. snapshot_fits a p ?m"
    using all snapshot_fits_same [OF same] by (auto simp: list_all2_iff intro: snapshot_fits_iff)
  moreover have "distinct (map fst ?zs)" using assms(2) len by (simp add: map_fst_zip)
  ultimately obtain s2 where s2: "for_each ?zs (\<lambda>(a, p). adapter_restore a p) ?m = (Ok (), s2)"
    and got: "\<forall>(a, p) \<in> set ?zs. adapter_snapshot a s2 = Some p"
    using machines.restore_all [of ?zs ?m] by blast
  have restored: "sim_restore snap s1 = (Ok (), s2)"
    using s2 assms(3) len by (simp add: sim_restore_def snap prog_simps same_simulation_def)
  have "list_all2 (\<lambda>a p. adapter_snapshot a s2 = Some p) (s_schedule s) ps" using got len by (simp add: list_all2_iff)
  then have "collect_snapshots (s_schedule s2) s2 = Some ps"
    using restore_each_frame [OF s2] assms(3) by (simp add: collect_snapshots_eq same_simulation_def)
  then have "sim_snapshot s2 = (Ok snap, s2)"
    using restore_each_frame [OF s2] by (simp add: sim_snapshot_def prog_simps snap j_restore_write_sequence_def j_write_sequence_def)
  with restored show ?thesis by blast
qed

theorem checkpoint_restores_witness:
  "\<exists>snap s2. sim_snapshot sample_sim = (Ok snap, sample_sim) \<and> sim_restore snap (sample_sim\<lparr>s_tick := 9, s_cpus := [sample_cpu, sample_cpu]\<rparr>) = (Ok (), s2) \<and>
     sim_snapshot s2 = (Ok snap, s2)"
proof -
  obtain snap where snap: "sim_snapshot sample_sim = (Ok snap, sample_sim)"
    by (simp add: sim_snapshot_def sample_sim_def prog_simps)
  have "distinct (s_schedule sample_sim)" "same_simulation sample_sim (sample_sim\<lparr>s_tick := 9, s_cpus := [sample_cpu, sample_cpu]\<rparr>)"
    by (simp_all add: sample_sim_def same_simulation_def)
  from checkpoint_restores [OF snap this] show ?thesis using snap by blast
qed

end
