(* ===== verification/Analysis.thy ===== *)
theory Analysis
  imports Program
begin

text \<open>
  The static analyser of \<open>crates/ic10-core/src/analysis.rs\<close> and the parsed document it completes
  (\<open>Document\<close> of \<open>crates/ic10-core/src/lib.rs\<close>): symbol occurrences, circular definitions, operand
  kinds, batch accesses to known devices, unused symbols, control flow, straight-line register and
  stack checks, and the program budget. A loop that follows names keeps the set of names it has seen;
  its termination is proved from the finiteness of the symbol table. The only indexing that is not
  obviously in range, the work list of the reachability search, is kept as a possible panic.
\<close>

section \<open>Data\<close>

type_synonym symbols = "(string, symbol) btree_map"

datatype operand_kind =
    KRegister | KRegisterOrNumber | KDeviceRegisterOrId | KLogicType | KDeviceHash | KLogicSlotType | KSlotIndex
  | KBatchMode | KInteger | KRegisterOrId | KDevice | KNameHash | KString | KNumber | KRegisterOrDevice | KReagentMode

definition from_generated :: "string \<Rightarrow> operand_kind option" where
  "from_generated value =
     map_of [(''r?'', KRegister), (''r?|num'', KRegisterOrNumber), (''d?|r?|id'', KDeviceRegisterOrId),
             (''logicType'', KLogicType), (''deviceHash'', KDeviceHash), (''logicSlotType'', KLogicSlotType),
             (''slotIndex'', KSlotIndex), (''batchMode'', KBatchMode), (''int'', KInteger), (''r?|id'', KRegisterOrId),
             (''d?'', KDevice), (''nameHash'', KNameHash), (''str'', KString), (''num'', KNumber),
             (''r?|d?'', KRegisterOrDevice), (''reagentMode'', KReagentMode)] value"

fun kind_description :: "operand_kind \<Rightarrow> string" where
  "kind_description KRegister = ''a writable register''"
| "kind_description KRegisterOrNumber = ''a register or numeric value''"
| "kind_description KDeviceRegisterOrId = ''a device, register, or reference id''"
| "kind_description KLogicType = ''a logic type''"
| "kind_description KDeviceHash = ''a device hash''"
| "kind_description KLogicSlotType = ''a slot logic type''"
| "kind_description KSlotIndex = ''a non-negative slot index''"
| "kind_description KBatchMode = ''a batch mode''"
| "kind_description KInteger = ''an integer or branch label''"
| "kind_description KRegisterOrId = ''a register or reference id''"
| "kind_description KDevice = ''a device reference''"
| "kind_description KNameHash = ''a name hash''"
| "kind_description KString = ''an identifier''"
| "kind_description KNumber = ''a numeric value''"
| "kind_description KRegisterOrDevice = ''a register or device reference''"
| "kind_description KReagentMode = ''a reagent mode''"

record symbol_occurrence =
  oc_name :: string
  oc_kind :: symbol_kind
  oc_span :: span
  oc_declaration :: bool

datatype unused_level = UnusedOff | UnusedHint | UnusedWarning

record program_budget =
  pb_physical_lines :: usize
  pb_program_lines :: usize
  pb_maximum_program_lines :: usize
  pb_estimated_operations :: "u32 option"
  pb_maximum_operations :: u32

record analysis_result =
  ar_diagnostics :: "diagnostic list"
  ar_occurrences :: "symbol_occurrence list"
  ar_budget :: program_budget

definition diag :: "span \<Rightarrow> severity \<Rightarrow> string \<Rightarrow> string \<Rightarrow> bool \<Rightarrow> diagnostic" where
  "diag sp severity text message unnecessary =
     \<lparr>dg_span = sp, dg_severity = severity, dg_code = text, dg_message = message, dg_unnecessary = unnecessary\<rparr>"

definition tick_quote :: "string \<Rightarrow> string" where
  "tick_quote s = ''`'' @ s @ ''`''"

section \<open>Branches\<close>

definition is_branch :: "string \<Rightarrow> bool" where
  "is_branch mnemonic \<longleftrightarrow> mnemonic = ''jr'' \<or> is_absolute_branch mnemonic \<or> starts_with ''br'' mnemonic"

definition is_unconditional_branch :: "string \<Rightarrow> bool" where
  "is_unconditional_branch mnemonic \<longleftrightarrow> mnemonic \<in> {''j'', ''jr''}"

definition is_link_branch :: "string \<Rightarrow> bool" where
  "is_link_branch mnemonic \<longleftrightarrow> mnemonic = ''jal'' \<or> ends_with ''al'' mnemonic"

definition is_tick_boundary :: "parsed_line \<Rightarrow> bool" where
  "is_tick_boundary line =
     (case pl_kind line of LInstruction mnemonic _ \<Rightarrow> tok_text mnemonic \<in> {''yield'', ''sleep'', ''hcf''} | _ \<Rightarrow> False)"

section \<open>Names\<close>

definition analysis_enum_contains :: "knowledge_base \<Rightarrow> string \<Rightarrow> string \<Rightarrow> bool" where
  "analysis_enum_contains kb enum_name token =
     (case bt_get (lang_enums (language kb)) enum_name of
        Some listing \<Rightarrow> bt_contains (en_values listing) token
      | None \<Rightarrow> False)"

definition enum_names :: "knowledge_base \<Rightarrow> string \<Rightarrow> string list" where
  "enum_names kb enum_name =
     (case bt_get (lang_enums (language kb)) enum_name of Some listing \<Rightarrow> bt_keys (en_values listing) | None \<Rightarrow> [])"

text \<open>The loop of \<open>resolve_symbol_value\<close>; \<open>seen\<close> are the names already followed.\<close>

function follow_symbols :: "symbols \<Rightarrow> string list \<Rightarrow> string \<Rightarrow> string option" where
  "follow_symbols syms seen current =
     (case bt_get syms current of
        None \<Rightarrow> Some current
      | Some s \<Rightarrow>
          if current \<in> set seen then None
          else (case sym_value s of None \<Rightarrow> None | Some value \<Rightarrow> follow_symbols syms (current # seen) value))"
  by pat_completeness auto

lemma unseen_decreases:
  assumes "finite A" "x \<in> A" "x \<notin> set seen"
  shows "card (A - insert x (set seen)) < card (A - set seen)"
  using assms by (intro psubset_card_mono) auto

termination follow_symbols
proof (relation "measure (\<lambda>(syms, seen, _). card (fst ` set syms - set seen))", goal_cases)
  case (2 syms seen current s v)
  have "current \<in> fst ` set syms" using 2(1) bt_get_None_keys [of syms current] by auto
  then show ?case using unseen_decreases [of "fst ` set syms" current seen] 2(2) by simp
qed simp

declare follow_symbols.simps [simp del]

definition resolve_symbol_value :: "string \<Rightarrow> symbols \<Rightarrow> string option" where
  "resolve_symbol_value token syms = follow_symbols syms [] token"

definition resolves_to_register :: "string \<Rightarrow> symbols \<Rightarrow> bool" where
  "resolves_to_register token syms \<longleftrightarrow>
     is_register token \<or>
     (case resolve_symbol_value token syms of Some value \<Rightarrow> value \<noteq> token \<and> is_register value | None \<Rightarrow> False)"

definition resolves_to_device :: "string \<Rightarrow> symbols \<Rightarrow> bool" where
  "resolves_to_device token syms \<longleftrightarrow>
     (let value = (case resolve_symbol_value token syms of Some value \<Rightarrow> value | None \<Rightarrow> token);
          base = (case split_once '':'' value of Some (base, _) \<Rightarrow> base | None \<Rightarrow> value)
      in base = ''db'' \<or>
         (case Option.bind (strip_prefix ''d'' base) parse_u8 of Some number \<Rightarrow> number \<le> 5 | None \<Rightarrow> False) \<or>
         (case strip_prefix ''d'' base of Some rest \<Rightarrow> is_register rest | None \<Rightarrow> False))"

text \<open>The cases of \<open>resolves_to_number\<close> and \<open>resolve_number\<close> that look at the token alone.\<close>

definition is_number_token :: "knowledge_base \<Rightarrow> string \<Rightarrow> bool" where
  "is_number_token kb token \<longleftrightarrow>
     parse_numeric_literal token \<noteq> None \<or> parse_literal_macro token \<noteq> None \<or>
     bt_contains (lang_constants (language kb)) token \<or> kb_enum_value kb token \<noteq> None"

function resolves_to_number :: "knowledge_base \<Rightarrow> symbols \<Rightarrow> string list \<Rightarrow> string \<Rightarrow> bool" where
  "resolves_to_number kb syms seen token \<longleftrightarrow>
     is_number_token kb token \<or>
     (case bt_get syms token of
        None \<Rightarrow> False
      | Some s \<Rightarrow>
          if sym_kind s = SLabel \<or> token \<in> set seen then False
          else (case sym_value s of None \<Rightarrow> False | Some value \<Rightarrow> resolves_to_number kb syms (token # seen) value))"
  by pat_completeness auto

termination resolves_to_number
proof (relation "measure (\<lambda>(kb, syms, seen, _). card (fst ` set syms - set seen))", goal_cases)
  case (2 kb syms seen token s v)
  have "token \<in> fst ` set syms" using 2(1) bt_get_None_keys [of syms token] by auto
  then show ?case using unseen_decreases [of "fst ` set syms" token seen] 2(2) by simp
qed simp

declare resolves_to_number.simps [simp del]

definition direct_number :: "knowledge_base \<Rightarrow> string \<Rightarrow> f64 option option" where
  "direct_number kb token =
     (case parse_numeric_literal token of
        Some value \<Rightarrow> Some (Some value)
      | None \<Rightarrow>
          (case parse_literal_macro token of
             Some literal \<Rightarrow>
               (case lm_kind literal of
                  MacroHash \<Rightarrow> Some (Some (f64_of_int (uint (stationeers_crc32 (lm_value literal)))))
                | MacroString \<Rightarrow>
                    (case pack_stationeers_string (lm_value literal) of
                       Inr packed \<Rightarrow> Some (Some (f64_of_u64 packed))
                     | Inl _ \<Rightarrow> Some None))
           | None \<Rightarrow>
               (case bt_get (lang_constants (language kb)) token of
                  Some constant \<Rightarrow>
                    Some (case as_f64 (co_value constant) of
                            Some v \<Rightarrow> Some v
                          | None \<Rightarrow> Option.bind (as_str (co_value constant)) parse_numeric_literal)
                | None \<Rightarrow>
                    (case kb_enum_value kb token of
                       Some (_, e) \<Rightarrow> Some (as_f64 (ev_value e))
                     | None \<Rightarrow> None))))"

lemma follow_symbols_end: "follow_symbols syms seen token = Some value \<Longrightarrow> bt_get syms value = None"
  by (induction syms seen token rule: follow_symbols.induct)
    (subst (asm) (2) follow_symbols.simps, auto split: option.splits if_splits)

function analysis_resolve_number :: "knowledge_base \<Rightarrow> symbols \<Rightarrow> string \<Rightarrow> f64 option" where
  "analysis_resolve_number kb syms token =
     (case direct_number kb token of
        Some result \<Rightarrow> result
      | None \<Rightarrow>
          (case resolve_symbol_value token syms of
             None \<Rightarrow> None
           | Some resolved \<Rightarrow> if resolved \<noteq> token then analysis_resolve_number kb syms resolved else None))"
  by pat_completeness auto

termination analysis_resolve_number
proof (relation "measure (\<lambda>(kb, syms, token). if bt_get syms token = None then 0 else 1)", goal_cases)
  case (2 kb syms token resolved)
  have "bt_get syms resolved = None" using 2(2) follow_symbols_end by (simp add: resolve_symbol_value_def)
  moreover have "bt_get syms token \<noteq> None"
    using 2(2,3) by (auto simp: resolve_symbol_value_def follow_symbols.simps split: option.splits)
  ultimately show ?case by simp
qed simp

declare analysis_resolve_number.simps [simp del]

section \<open>Operands\<close>

fun operand_is_valid :: "string \<Rightarrow> operand_kind \<Rightarrow> symbols \<Rightarrow> knowledge_base \<Rightarrow> bool" where
  "operand_is_valid token KRegister syms kb \<longleftrightarrow> resolves_to_register token syms"
| "operand_is_valid token KRegisterOrNumber syms kb \<longleftrightarrow>
     resolves_to_register token syms \<or> resolves_to_number kb syms [] token"
| "operand_is_valid token KNumber syms kb \<longleftrightarrow>
     resolves_to_register token syms \<or> resolves_to_number kb syms [] token"
| "operand_is_valid token KDeviceRegisterOrId syms kb \<longleftrightarrow>
     resolves_to_device token syms \<or> resolves_to_register token syms \<or> resolves_to_number kb syms [] token"
| "operand_is_valid token KLogicType syms kb \<longleftrightarrow>
     resolves_to_number kb syms [] token \<or> analysis_enum_contains kb ''LogicType'' token"
| "operand_is_valid token KLogicSlotType syms kb \<longleftrightarrow>
     resolves_to_number kb syms [] token \<or> analysis_enum_contains kb ''LogicSlotType'' token"
| "operand_is_valid token KBatchMode syms kb \<longleftrightarrow>
     resolves_to_number kb syms [] token \<or> analysis_enum_contains kb ''LogicBatchMethod'' token"
| "operand_is_valid token KReagentMode syms kb \<longleftrightarrow>
     resolves_to_number kb syms [] token \<or> analysis_enum_contains kb ''LogicReagentMode'' token"
| "operand_is_valid token KDeviceHash syms kb \<longleftrightarrow>
     resolves_to_number kb syms [] token \<or> parse_literal_macro token \<noteq> None"
| "operand_is_valid token KNameHash syms kb \<longleftrightarrow>
     resolves_to_number kb syms [] token \<or> parse_literal_macro token \<noteq> None"
| "operand_is_valid token KSlotIndex syms kb \<longleftrightarrow>
     resolves_to_register token syms \<or>
     (case analysis_resolve_number kb syms token of
        Some v \<Rightarrow> f64_ge v f64_zero \<and> f64_eq (f64_fract v) f64_zero | None \<Rightarrow> False)"
| "operand_is_valid token KInteger syms kb \<longleftrightarrow>
     resolves_to_register token syms \<or>
     (case bt_get syms token of Some s \<Rightarrow> sym_kind s = SLabel | None \<Rightarrow> False) \<or>
     (case analysis_resolve_number kb syms token of Some v \<Rightarrow> f64_eq (f64_fract v) f64_zero | None \<Rightarrow> False)"
| "operand_is_valid token KRegisterOrId syms kb \<longleftrightarrow>
     resolves_to_register token syms \<or> resolves_to_number kb syms [] token"
| "operand_is_valid token KDevice syms kb \<longleftrightarrow> resolves_to_device token syms"
| "operand_is_valid token KString syms kb \<longleftrightarrow> is_identifier token"
| "operand_is_valid token KRegisterOrDevice syms kb \<longleftrightarrow> resolves_to_register token syms \<or> resolves_to_device token syms"

definition looks_incomplete :: "string \<Rightarrow> operand_kind \<Rightarrow> symbols \<Rightarrow> knowledge_base \<Rightarrow> bool" where
  "looks_incomplete token kind syms kb \<longleftrightarrow>
     token = [] \<or> token \<in> {''r'', ''rr'', ''d'', ''dr'', ''+'', ''-'', ''$'', ''%''} \<or>
     (starts_with ''HASH('' token \<and> \<not> ends_with '')'' token) \<or>
     (starts_with ''STR('' token \<and> \<not> ends_with '')'' token) \<or>
     list_ex (\<lambda>candidate. starts_with token candidate)
       (bt_keys syms @ bt_keys (lang_constants (language kb)) @
        (case kind of
           KLogicType \<Rightarrow> enum_names kb ''LogicType''
         | KLogicSlotType \<Rightarrow> enum_names kb ''LogicSlotType''
         | KBatchMode \<Rightarrow> enum_names kb ''LogicBatchMethod''
         | KReagentMode \<Rightarrow> enum_names kb ''LogicReagentMode''
         | _ \<Rightarrow> []))"

definition check_operand :: "symbols \<Rightarrow> knowledge_base \<Rightarrow> token \<times> operand_info \<Rightarrow> diagnostic list" where
  "check_operand syms kb = (\<lambda>(operand, generated).
     case from_generated (operand_type generated) of
       None \<Rightarrow>
         [diag (tok_span operand) SevError ''unsupported-operand-kind''
            (''The generated operand type '' @ tick_quote (operand_type generated) @ '' has no validator.'') False]
     | Some kind \<Rightarrow>
         if \<not> operand_is_valid (tok_text operand) kind syms kb \<and> \<not> looks_incomplete (tok_text operand) kind syms kb
         then [diag (tok_span operand) SevError ''invalid-operand''
                 (tick_quote (op_label generated) @ '' expects '' @ kind_description kind @ ''; ''
                   @ tick_quote (tok_text operand) @ '' is not valid here.'') False]
         else [])"

definition check_label :: "symbols \<Rightarrow> knowledge_base \<Rightarrow> token \<Rightarrow> token list \<Rightarrow> diagnostic list" where
  "check_label syms kb mnemonic operands =
     (if is_branch (tok_text mnemonic) \<and> operands \<noteq> [] \<and> is_identifier (tok_text (last operands))
         \<and> \<not> bt_contains syms (tok_text (last operands))
         \<and> \<not> bt_contains (lang_constants (language kb)) (tok_text (last operands))
         \<and> \<not> is_register (tok_text (last operands))
      then [diag (tok_span (last operands)) SevWarning ''undefined-label''
              (''No label or define named '' @ tick_quote (tok_text (last operands)) @ '' exists.'') False]
      else [])"

definition check_line_operands :: "symbols \<Rightarrow> knowledge_base \<Rightarrow> parsed_line \<Rightarrow> diagnostic list" where
  "check_line_operands syms kb line =
     (case pl_kind line of
        LInstruction mnemonic operands \<Rightarrow>
          (case instruction kb (tok_text mnemonic) of
             None \<Rightarrow> []
           | Some info \<Rightarrow>
               concat (map (check_operand syms kb) (zip operands (in_operands info))) @ check_label syms kb mnemonic operands)
      | _ \<Rightarrow> [])"

definition validate_operands :: "parsed_line list \<Rightarrow> symbols \<Rightarrow> knowledge_base \<Rightarrow> diagnostic list" where
  "validate_operands lines syms kb = concat (map (check_line_operands syms kb) lines)"

section \<open>Occurrences\<close>

definition declaration_of :: "symbol \<Rightarrow> symbol_occurrence" where
  "declaration_of s = \<lparr>oc_name = sym_name s, oc_kind = sym_kind s, oc_span = sym_span s, oc_declaration = True\<rparr>"

definition operand_occurrence :: "symbols \<Rightarrow> token \<Rightarrow> symbol_occurrence option" where
  "operand_occurrence syms operand =
     (case bt_get syms (tok_text operand) of
        None \<Rightarrow> None
      | Some s \<Rightarrow>
          if tok_span operand = sym_span s then None
          else Some \<lparr>oc_name = sym_name s, oc_kind = sym_kind s, oc_span = tok_span operand, oc_declaration = False\<rparr>)"

definition line_occurrences :: "symbols \<Rightarrow> parsed_line \<Rightarrow> symbol_occurrence list" where
  "line_occurrences syms line =
     (case pl_kind line of LInstruction _ operands \<Rightarrow> List.map_filter (operand_occurrence syms) operands | _ \<Rightarrow> [])"

definition collect_occurrences :: "parsed_line list \<Rightarrow> symbols \<Rightarrow> symbol_occurrence list" where
  "collect_occurrences lines syms =
     sort_key (\<lambda>oc. sp_start (oc_span oc))
       (map declaration_of (bt_values syms) @ concat (map (line_occurrences syms) lines))"

section \<open>Circular definitions\<close>

text \<open>The \<open>while\<close> loop of \<open>validate_symbol_cycles\<close>: whether it ends at a name seen before.\<close>

function cycle_scan :: "symbols \<Rightarrow> string list \<Rightarrow> symbol \<Rightarrow> bool" where
  "cycle_scan syms seen current =
     (case sym_value current of
        None \<Rightarrow> False
      | Some next_name \<Rightarrow>
          (case bt_get syms next_name of
             None \<Rightarrow> False
           | Some following \<Rightarrow>
               if sym_name current \<in> set seen then True else cycle_scan syms (sym_name current # seen) following))"
  by pat_completeness auto

lemma bt_get_value: "bt_get m k = Some v \<Longrightarrow> v \<in> snd ` set m"
  by (auto simp: bt_get_def dest!: map_of_SomeD intro: rev_image_eqI)

termination cycle_scan
proof (relation "measure (\<lambda>(syms, seen, current). card (insert (sym_name current) (sym_name ` snd ` set syms) - set seen))",
    goal_cases)
  case (2 syms seen current nn following)
  let ?N = "sym_name ` snd ` set syms"
  have "sym_name following \<in> ?N" using bt_get_value [OF 2(2)] by blast
  then have "insert (sym_name following) ?N - set (sym_name current # seen)
      \<subset> insert (sym_name current) ?N - set seen" using 2(3) by auto
  then show ?case by (simp add: psubset_card_mono)
qed simp

declare cycle_scan.simps [simp del]

definition validate_symbol_cycles :: "symbols \<Rightarrow> diagnostic list" where
  "validate_symbol_cycles syms =
     List.map_filter (\<lambda>s.
       if cycle_scan syms [] s
       then Some (diag (case sym_value_span s of Some sp \<Rightarrow> sp | None \<Rightarrow> sym_span s) SevError ''symbol-cycle''
              (tick_quote (sym_name s) @ '' is part of a circular alias or define chain.'') False)
       else None) (bt_values syms)"

section \<open>Batch accesses\<close>

text \<open>Positions of the device hash, the slot and the field, and whether the access writes.\<close>

definition batch_layout :: "string \<Rightarrow> (usize \<times> usize option \<times> usize \<times> bool) option" where
  "batch_layout mnemonic =
     map_of [(''lb'', 1, None, 2, False), (''lbn'', 1, None, 3, False), (''lbs'', 1, Some 2, 3, False),
             (''lbns'', 1, Some 3, 4, False), (''sb'', 0, None, 1, True), (''sbn'', 0, None, 2, True),
             (''sbs'', 0, Some 1, 2, True)] mnemonic"

definition whole_number :: "f64 \<Rightarrow> bool" where
  "whole_number v \<longleftrightarrow> is_finite v \<and> f64_eq (f64_fract v) f64_zero"

definition operand_number :: "symbols \<Rightarrow> knowledge_base \<Rightarrow> token list \<Rightarrow> usize \<Rightarrow> f64 option" where
  "operand_number syms kb operands i =
     Option.bind (nth_opt operands i) (\<lambda>token. analysis_resolve_number kb syms (tok_text token))"

definition operand_hash :: "symbols \<Rightarrow> knowledge_base \<Rightarrow> token list \<Rightarrow> usize \<Rightarrow> i32 option" where
  "operand_hash syms kb operands i =
     (case operand_number syms kb operands i of
        Some v \<Rightarrow> if whole_number v \<and> f64_ge v (f64_of_int (- (2 ^ 31))) \<and> f64_le v (f64_of_int (2 ^ 31 - 1))
                  then Some (as_i32 v) else None
      | None \<Rightarrow> None)"

definition operand_slot :: "symbols \<Rightarrow> knowledge_base \<Rightarrow> token list \<Rightarrow> usize \<Rightarrow> i64 option" where
  "operand_slot syms kb operands i =
     (case operand_number syms kb operands i of
        Some v \<Rightarrow> if whole_number v \<and> f64_ge v f64_zero then Some (as_i64 v) else None
      | None \<Rightarrow> None)"

definition device_title :: "device_info \<Rightarrow> string" where
  "device_title d = di_display_name d @ '' ('' @ tick_quote (di_prefab_name d) @ '')''"

definition check_access :: "device_info \<Rightarrow> bool \<Rightarrow> token \<Rightarrow> (string, logic_access) btree_map \<Rightarrow> diagnostic list" where
  "check_access d writes field fs =
     (case bt_get fs (tok_text field) of
        None \<Rightarrow>
          [diag (tok_span field) SevError ''unsupported-prefab-logic-type''
             (device_title d @ '' does not expose logic type '' @ tick_quote (tok_text field) @ ''.'') False]
      | Some access \<Rightarrow>
          if writes \<and> \<not> la_write access \<or> \<not> writes \<and> \<not> la_read access
          then [diag (tok_span field) SevError
                  (if writes then ''read-only-prefab-logic-type'' else ''write-only-prefab-logic-type'')
                  (tick_quote (tok_text field) @ '' is not '' @ (if writes then ''writable'' else ''readable'')
                    @ '' on '' @ device_title d @ ''.'') False]
          else [])"

definition check_batch_line :: "symbols \<Rightarrow> knowledge_base \<Rightarrow> parsed_line \<Rightarrow> diagnostic list" where
  "check_batch_line syms kb line =
     (case pl_kind line of
        LInstruction mnemonic operands \<Rightarrow>
          (case batch_layout (tok_text mnemonic) of
             None \<Rightarrow> []
           | Some (hash_index, slot_index, field_index, writes) \<Rightarrow>
               (case Option.bind (operand_hash syms kb operands hash_index) (device_by_hash kb) of
                  None \<Rightarrow> []
                | Some d \<Rightarrow>
                    (case nth_opt operands field_index of
                       None \<Rightarrow> []
                     | Some field \<Rightarrow>
                         if \<not> analysis_enum_contains kb ''LogicType'' (tok_text field) then []
                         else
                           (case slot_index of
                              None \<Rightarrow> check_access d writes field (di_logic_types d)
                            | Some si \<Rightarrow>
                                (case operand_slot syms kb operands si of
                                   None \<Rightarrow> []
                                 | Some slot \<Rightarrow>
                                     (case bt_get (di_slots d) (show_nat (nat (sint slot))) of
                                        None \<Rightarrow>
                                          [diag (tok_span (operands ! si)) SevError ''unsupported-prefab-slot''
                                             (device_title d @ '' has no slot '' @ tick_quote (show_nat (nat (sint slot))) @ ''.'') False]
                                      | Some metadata \<Rightarrow> check_access d writes field (sl_logic_types metadata)))))))
      | _ \<Rightarrow> [])"

definition validate_known_batch_access :: "parsed_line list \<Rightarrow> symbols \<Rightarrow> knowledge_base \<Rightarrow> diagnostic list" where
  "validate_known_batch_access lines syms kb = concat (map (check_batch_line syms kb) lines)"

section \<open>Unused symbols\<close>

definition unused_severity :: "unused_level \<Rightarrow> severity option" where
  "unused_severity level = (case level of UnusedOff \<Rightarrow> None | UnusedHint \<Rightarrow> Some SevHint | UnusedWarning \<Rightarrow> Some SevWarning)"

fun symbol_kind_name :: "symbol_kind \<Rightarrow> string" where
  "symbol_kind_name SLabel = ''label''"
| "symbol_kind_name SDefine = ''define''"
| "symbol_kind_name SAlias = ''alias''"

definition add_unused_symbol_diagnostics ::
  "symbols \<Rightarrow> symbol_occurrence list \<Rightarrow> unused_level \<Rightarrow> diagnostic list" where
  "add_unused_symbol_diagnostics syms occurrences level =
     (case unused_severity level of
        None \<Rightarrow> []
      | Some severity \<Rightarrow>
          List.map_filter (\<lambda>s.
            if starts_with ''_'' (sym_name s) \<or>
               list_ex (\<lambda>oc. oc_name oc = sym_name s \<and> \<not> oc_declaration oc) occurrences
            then None
            else Some (diag (sym_span s) severity (''unused-'' @ symbol_kind_name (sym_kind s))
                   (''The '' @ symbol_kind_name (sym_kind s) @ '' '' @ tick_quote (sym_name s) @ '' is never used.'') True))
            (bt_values syms))"

section \<open>Control flow\<close>

definition numeric_target :: "usize \<Rightarrow> string \<Rightarrow> f64 \<Rightarrow> usize option" where
  "numeric_target line mnemonic v =
     (if \<not> whole_number v then None
      else (let target = (if mnemonic = ''jr'' \<or> starts_with ''br'' mnemonic then int line + as_isize v else as_isize v)
            in if 0 \<le> target \<and> target \<le> int usize_max then Some (nat target) else None))"

definition branch_target :: "usize \<Rightarrow> string \<Rightarrow> string \<Rightarrow> symbols \<Rightarrow> knowledge_base \<Rightarrow> usize option" where
  "branch_target line mnemonic token syms kb =
     (case bt_get syms token of
        Some s \<Rightarrow>
          if sym_kind s = SLabel then Some (sym_line s)
          else Option.bind (analysis_resolve_number kb syms token) (numeric_target line mnemonic)
      | None \<Rightarrow> Option.bind (analysis_resolve_number kb syms token) (numeric_target line mnemonic))"

definition condition_name :: "string \<Rightarrow> string option" where
  "condition_name mnemonic =
     map_option (\<lambda>rest. case strip_suffix ''al'' rest of Some name \<Rightarrow> name | None \<Rightarrow> rest)
       (case strip_prefix ''br'' mnemonic of Some rest \<Rightarrow> Some rest | None \<Rightarrow> strip_prefix ''b'' mnemonic)"

fun all_numbers :: "symbols \<Rightarrow> knowledge_base \<Rightarrow> token list \<Rightarrow> f64 list option" where
  "all_numbers syms kb [] = Some []"
| "all_numbers syms kb (t # ts) =
     (case analysis_resolve_number kb syms (tok_text t) of
        None \<Rightarrow> None
      | Some v \<Rightarrow> map_option (\<lambda>vs. v # vs) (all_numbers syms kb ts))"

definition constant_test :: "string \<Rightarrow> f64 list \<Rightarrow> bool option" where
  "constant_test name numbers =
     (case numbers of
        [a, b] \<Rightarrow>
          map_option (\<lambda>p. p a b)
            (map_of [(''eq'', f64_eq), (''ne'', f64_ne), (''gt'', f64_gt), (''ge'', f64_ge), (''lt'', f64_lt), (''le'', f64_le)] name)
      | [a] \<Rightarrow>
          map_option (\<lambda>p. p a)
            (map_of [(''eqz'', \<lambda>a. f64_eq a f64_zero), (''nez'', \<lambda>a. f64_ne a f64_zero), (''gtz'', \<lambda>a. f64_gt a f64_zero),
                     (''gez'', \<lambda>a. f64_ge a f64_zero), (''ltz'', \<lambda>a. f64_lt a f64_zero), (''lez'', \<lambda>a. f64_le a f64_zero),
                     (''nan'', is_nan)] name)
      | _ \<Rightarrow> None)"

definition constant_branch_result :: "string \<Rightarrow> token list \<Rightarrow> symbols \<Rightarrow> knowledge_base \<Rightarrow> bool option" where
  "constant_branch_result mnemonic operands syms kb =
     Option.bind (condition_name mnemonic) (\<lambda>name.
     Option.bind (all_numbers syms kb (butlast operands)) (constant_test name))"

text \<open>
  What one line contributes: its edges, its diagnostics, and whether its target is only known at run
  time.
\<close>

definition fall_through :: "usize \<Rightarrow> usize \<Rightarrow> usize list" where
  "fall_through n index = (if index + 1 < n then [index + 1] else [])"

definition is_dynamic_operand :: "symbols \<Rightarrow> token \<Rightarrow> bool" where
  "is_dynamic_operand syms operand \<longleftrightarrow>
     resolves_to_register (tok_text operand) syms \<or>
     (case bt_get syms (tok_text operand) of Some s \<Rightarrow> sym_kind s = SAlias | None \<Rightarrow> False)"

definition line_target_of :: "usize \<Rightarrow> string \<Rightarrow> token list \<Rightarrow> symbols \<Rightarrow> knowledge_base \<Rightarrow> usize option" where
  "line_target_of index name operands syms kb =
     (if operands = [] then None else branch_target index name (tok_text (last operands)) syms kb)"

definition branch_edges :: "usize \<Rightarrow> usize \<Rightarrow> string \<Rightarrow> usize option \<Rightarrow> usize list" where
  "branch_edges n index name target =
     (case target of Some t \<Rightarrow> if t < n then [t] else [] | None \<Rightarrow> []) @
     (if \<not> is_unconditional_branch name \<or> is_link_branch name then fall_through n index else [])"

definition branch_diagnostics ::
  "parsed_line list \<Rightarrow> usize \<Rightarrow> token \<Rightarrow> token list \<Rightarrow> usize option \<Rightarrow> symbols \<Rightarrow> knowledge_base \<Rightarrow> diagnostic list" where
  "branch_diagnostics lines index mnemonic operands target syms kb =
     (case target of
        Some t \<Rightarrow>
          if length lines \<le> t then
            [diag (tok_span (last operands)) SevError ''invalid-branch-target''
               (''Branch destination '' @ show_nat t @ '' is outside this '' @ show_nat (length lines) @ ''-line program.'') False]
          else if is_unconditional_branch (tok_text mnemonic) \<and> t \<le> index
                  \<and> \<not> list_ex is_tick_boundary (take (index + 1 - t) (drop t lines))
          then [diag (tok_span mnemonic) SevWarning ''tight-loop''
                  (''This loop has no yield or sleep and can consume the '' @ show_nat (unat (tick_budget kb))
                    @ '' operation per-tick budget.'') False]
          else []
      | None \<Rightarrow> []) @
     (case constant_branch_result (tok_text mnemonic) operands syms kb of
        Some b \<Rightarrow>
          [diag (tok_span mnemonic) SevHint ''constant-branch''
             (''This branch condition is always '' @ (if b then ''true'' else ''false'') @ '' for the supplied constants.'') False]
      | None \<Rightarrow> [])"

definition flow_line ::
  "parsed_line list \<Rightarrow> symbols \<Rightarrow> knowledge_base \<Rightarrow> usize \<Rightarrow> parsed_line \<Rightarrow> usize list \<times> diagnostic list \<times> bool" where
  "flow_line lines syms kb index line =
     (case pl_kind line of
        LInstruction mnemonic operands \<Rightarrow>
          (let name = tok_text mnemonic
           in if name = ''hcf'' then ([], [], False)
              else if \<not> is_branch name then (fall_through (length lines) index, [], False)
              else
                (let target = line_target_of index name operands syms kb
                 in (branch_edges (length lines) index name target,
                     branch_diagnostics lines index mnemonic operands target syms kb,
                     (case target of Some t \<Rightarrow> length lines \<le> t | None \<Rightarrow> True)
                       \<and> operands \<noteq> [] \<and> is_dynamic_operand syms (last operands))))
      | _ \<Rightarrow> (fall_through (length lines) index, [], False))"

definition flow_lines :: "parsed_line list \<Rightarrow> symbols \<Rightarrow> knowledge_base \<Rightarrow> (usize list \<times> diagnostic list \<times> bool) list" where
  "flow_lines lines syms kb = map (\<lambda>(index, line). flow_line lines syms kb index line) (enumerate 0 lines)"

text \<open>
  The work-list search. \<open>None\<close> is the panic of an index out of range. Every step takes an index off the
  queue, and a step that adds indices marks a line that was not marked.
\<close>

function reach_loop :: "usize list list \<Rightarrow> usize list \<Rightarrow> bool list \<Rightarrow> bool list option" where
  "reach_loop edges [] reachable = Some reachable"
| "reach_loop edges (index # queue) reachable =
     (if length reachable \<le> index then None
      else if reachable ! index then reach_loop edges queue reachable
      else if length edges \<le> index then None
      else reach_loop edges (queue @ edges ! index) (reachable[index := True]))"
  by pat_completeness auto

lemma unmarked_decreases:
  assumes "i < length marks" "\<not> marks ! i"
  shows "length (filter Not (marks[i := True])) < length (filter Not marks)"
proof -
  have "marks = take i marks @ False # drop (Suc i) marks" using assms id_take_nth_drop [of i marks] by simp
  then have "filter Not marks = filter Not (take i marks) @ False # filter Not (drop (Suc i) marks)"
    by (metis (mono_tags, lifting) filter.simps(2) filter_append)
  moreover have "filter Not (marks[i := True]) = filter Not (take i marks) @ filter Not (drop (Suc i) marks)"
    using assms(1) by (simp add: upd_conv_take_nth_drop)
  ultimately show ?thesis by simp
qed

termination reach_loop
  by (relation "measures [\<lambda>(_, _, marks). length (filter Not marks), \<lambda>(_, queue, _). length queue]")
    (simp_all add: unmarked_decreases)

definition resolved_direct_register :: "string \<Rightarrow> symbols \<Rightarrow> string option" where
  "resolved_direct_register token syms =
     (let resolved = (case resolve_symbol_value token syms of Some v \<Rightarrow> v | None \<Rightarrow> token)
      in if is_register resolved \<and> \<not> starts_with ''rr'' resolved then Some resolved else None)"

definition first_is_ra :: "token list \<Rightarrow> symbols \<Rightarrow> bool" where
  "first_is_ra operands syms \<longleftrightarrow>
     (case operands of [] \<Rightarrow> False | operand # _ \<Rightarrow> resolved_direct_register (tok_text operand) syms = Some ''ra'')"

text \<open>The inner loop of \<open>analyze_return_address_clobbering\<close> over the lines from the target on.\<close>

fun clobber_scan :: "symbols \<Rightarrow> usize \<Rightarrow> bool \<Rightarrow> parsed_line list \<Rightarrow> diagnostic list" where
  "clobber_scan syms target saved [] = []"
| "clobber_scan syms target saved (line # rest) =
     (case pl_kind line of
        LLabel _ \<Rightarrow> if pl_number line \<noteq> target then [] else clobber_scan syms target saved rest
      | LInstruction mnemonic operands \<Rightarrow>
          if tok_text mnemonic = ''push'' \<and> first_is_ra operands syms then clobber_scan syms target True rest
          else if is_link_branch (tok_text mnemonic) \<and> \<not> saved then
            [diag (tok_span mnemonic) SevWarning ''return-address-clobber''
               ''This nested call can overwrite `ra`; save `ra` before calling and restore it before returning.'' False]
          else if tok_text mnemonic = ''j'' \<and> first_is_ra operands syms then []
          else clobber_scan syms target saved rest
      | LEmpty \<Rightarrow> clobber_scan syms target saved rest)"

definition clobber_line :: "parsed_line list \<Rightarrow> symbols \<Rightarrow> knowledge_base \<Rightarrow> usize \<Rightarrow> parsed_line \<Rightarrow> diagnostic list" where
  "clobber_line lines syms kb caller line =
     (case pl_kind line of
        LInstruction mnemonic operands \<Rightarrow>
          if \<not> is_link_branch (tok_text mnemonic) then []
          else (case line_target_of caller (tok_text mnemonic) operands syms kb of
                  Some target \<Rightarrow> if target < length lines then clobber_scan syms target False (drop target lines) else []
                | None \<Rightarrow> [])
      | _ \<Rightarrow> [])"

definition analyze_return_address_clobbering :: "parsed_line list \<Rightarrow> symbols \<Rightarrow> knowledge_base \<Rightarrow> diagnostic list" where
  "analyze_return_address_clobbering lines syms kb =
     concat (map (\<lambda>(caller, line). clobber_line lines syms kb caller line) (enumerate 0 lines))"

definition unreachable_diagnostics :: "severity \<Rightarrow> parsed_line list \<Rightarrow> bool list \<Rightarrow> diagnostic list" where
  "unreachable_diagnostics severity lines reachable =
     List.map_filter (\<lambda>(line, reached).
       if reached \<or> pl_kind line = LEmpty then None
       else Some (diag (pl_code_span line) severity ''unreachable-code''
              ''This line cannot be reached from the program entry point.'' True)) (zip lines reachable)"

definition analyze_control_flow ::
  "parsed_line list \<Rightarrow> symbols \<Rightarrow> knowledge_base \<Rightarrow> unused_level \<Rightarrow> (unit, diagnostic list) outcome" where
  "analyze_control_flow lines syms kb level =
     (if lines = [] then Ok []
      else
        (let flow = flow_lines lines syms kb;
             found = concat (map (\<lambda>(_, ds, _). ds) flow) @ analyze_return_address_clobbering lines syms kb
         in if list_ex (\<lambda>(_, _, dynamic). dynamic) flow then Ok found
            else
              (case unused_severity level of
                 None \<Rightarrow> Ok found
               | Some severity \<Rightarrow>
                   obind (o_expect (reach_loop (map fst flow) [0] (replicate (length lines) False))) (\<lambda>reachable.
                   Ok (found @ unreachable_diagnostics severity lines reachable)))))"

section \<open>Straight-line values\<close>

record straight_state =
  st_written :: "string list"
  st_unread :: "string \<rightharpoonup> span"
  st_entry_block :: bool
  st_stack_pointer :: "int option"
  st_diagnostics :: "diagnostic list"

definition st_report :: "diagnostic list \<Rightarrow> straight_state \<Rightarrow> straight_state" where
  "st_report ds st = st\<lparr>st_diagnostics := st_diagnostics st @ ds\<rparr>"

definition st_leave_block :: "straight_state \<Rightarrow> straight_state" where
  "st_leave_block st = st\<lparr>st_entry_block := False, st_unread := Map.empty, st_stack_pointer := None\<rparr>"

definition register_write :: "string \<Rightarrow> span \<Rightarrow> straight_state \<Rightarrow> straight_state" where
  "register_write register sp st =
     (let previous = st_unread st register;
          st = st\<lparr>st_unread := (st_unread st)(register \<mapsto> sp)\<rparr>;
          st = st_report (case previous of
                 Some previous \<Rightarrow>
                   [diag previous SevHint ''unused-register-write''
                      (''This value written to '' @ tick_quote register @ '' is overwritten before it is read.'') True]
               | None \<Rightarrow> []) st
      in st\<lparr>st_written := List.insert register (st_written st)\<rparr>)"

definition register_read :: "string \<Rightarrow> span \<Rightarrow> straight_state \<Rightarrow> straight_state" where
  "register_read register sp st =
     (let st = st\<lparr>st_unread := (st_unread st)(register := None)\<rparr>
      in if st_entry_block st \<and> register \<notin> {''sp'', ''ra''} \<and> register \<notin> set (st_written st)
         then (st_report [diag sp SevHint ''register-before-write''
                 (tick_quote register @ '' is read before this program writes to it.'') False] st)
                \<lparr>st_written := List.insert register (st_written st)\<rparr>
         else st)"

definition operand_value_step ::
  "symbols \<Rightarrow> instruction_info \<Rightarrow> usize \<times> token \<Rightarrow> straight_state \<Rightarrow> straight_state" where
  "operand_value_step syms info = (\<lambda>(index, operand) st.
     case resolved_direct_register (tok_text operand) syms of
       None \<Rightarrow> st
     | Some register \<Rightarrow>
         if (case nth_opt (in_operands info) index of Some o' \<Rightarrow> operand_type o' = ''r?'' | None \<Rightarrow> False)
         then register_write register (tok_span operand) st
         else register_read register (tok_span operand) st)"

definition division_diagnostics :: "symbols \<Rightarrow> knowledge_base \<Rightarrow> string \<Rightarrow> token list \<Rightarrow> diagnostic list" where
  "division_diagnostics syms kb name operands =
     (if name \<in> {''div'', ''mod''} \<and> operands \<noteq> []
         \<and> (case analysis_resolve_number kb syms (tok_text (last operands)) of Some v \<Rightarrow> f64_eq v f64_zero | None \<Rightarrow> False)
      then [diag (tok_span (last operands)) SevError ''division-by-zero'' ''The divisor is statically zero.'' False]
      else [])"

definition address_diagnostics ::
  "symbols \<Rightarrow> knowledge_base \<Rightarrow> int \<Rightarrow> string \<Rightarrow> token list \<Rightarrow> instruction_info \<Rightarrow> diagnostic list" where
  "address_diagnostics syms kb capacity name operands info =
     (case Option.bind (find_index (\<lambda>o'. op_label o' = ''address'') (in_operands info)) (nth_opt operands) of
        None \<Rightarrow> []
      | Some address \<Rightarrow>
          (case analysis_resolve_number kb syms (tok_text address) of
             None \<Rightarrow> []
           | Some v \<Rightarrow>
               if f64_ne (f64_fract v) f64_zero \<or> f64_lt v f64_zero \<or> (name = ''poke'' \<and> f64_ge v (f64_of_int capacity))
               then [diag (tok_span address) SevError ''invalid-address''
                       (if name = ''poke''
                        then ''Stack address must be an integer from 0 through '' @ show_nat (nat (capacity - 1)) @ ''.''
                        else ''A device memory address must be a non-negative integer.'') False]
               else []))"

definition stack_step :: "symbols \<Rightarrow> knowledge_base \<Rightarrow> int \<Rightarrow> token \<Rightarrow> token list \<Rightarrow> straight_state \<Rightarrow> straight_state" where
  "stack_step syms kb capacity mnemonic operands st =
     (let name = tok_text mnemonic
      in if name = ''move'' \<and> (case operands of operand # _ \<Rightarrow> tok_text operand = ''sp'' | [] \<Rightarrow> False) then
           st\<lparr>st_stack_pointer :=
                (case operand_number syms kb operands 1 of
                   Some v \<Rightarrow> if f64_eq (f64_fract v) f64_zero then Some (sint (as_i64 v)) else None
                 | None \<Rightarrow> None)\<rparr>
         else if name = ''push'' then
           (case st_stack_pointer st of
              None \<Rightarrow> st
            | Some pointer \<Rightarrow>
                if capacity \<le> pointer
                then st_report [diag (tok_span mnemonic) SevError ''stack-overflow''
                       (''This push exceeds the '' @ show_nat (nat capacity) @ ''-value IC10 stack.'') False] st
                else st\<lparr>st_stack_pointer := Some (pointer + 1)\<rparr>)
         else if name = ''pop'' then
           (case st_stack_pointer st of
              None \<Rightarrow> st
            | Some pointer \<Rightarrow>
                if pointer \<le> 0
                then st_report [diag (tok_span mnemonic) SevError ''stack-underflow''
                       ''This pop reads below the start of the IC10 stack.'' False] st
                else st\<lparr>st_stack_pointer := Some (pointer - 1)\<rparr>)
         else if name = ''peek'' then
           (if st_stack_pointer st = Some 0
            then st_report [diag (tok_span mnemonic) SevError ''stack-underflow''
                   ''This peek reads an empty IC10 stack.'' False] st
            else st)
         else st)"

definition straight_instruction ::
  "symbols \<Rightarrow> knowledge_base \<Rightarrow> token \<Rightarrow> token list \<Rightarrow> instruction_info \<Rightarrow> straight_state \<Rightarrow> straight_state" where
  "straight_instruction syms kb mnemonic operands info st =
     (let name = tok_text mnemonic;
          capacity = int (unat (stack_size (lang_architecture (language kb))));
          st = (if is_branch name then st_leave_block st else st);
          st = fold (operand_value_step syms info) (enumerate 0 operands) st;
          st = st_report (division_diagnostics syms kb name operands) st;
          st = st_report (address_diagnostics syms kb capacity name operands info) st
      in stack_step syms kb capacity mnemonic operands st)"

definition straight_line :: "symbols \<Rightarrow> knowledge_base \<Rightarrow> parsed_line \<Rightarrow> straight_state \<Rightarrow> straight_state" where
  "straight_line syms kb line st =
     (case pl_kind line of
        LInstruction mnemonic operands \<Rightarrow>
          if tok_text mnemonic \<in> {''alias'', ''define''} then st
          else (case instruction kb (tok_text mnemonic) of
                  None \<Rightarrow> st
                | Some info \<Rightarrow> straight_instruction syms kb mnemonic operands info st)
      | LLabel _ \<Rightarrow> st_leave_block st
      | LEmpty \<Rightarrow> st)"

definition straight_start :: straight_state where
  "straight_start = \<lparr>st_written = [], st_unread = Map.empty, st_entry_block = True, st_stack_pointer = Some 0, st_diagnostics = []\<rparr>"

definition analyze_straight_line_values :: "parsed_line list \<Rightarrow> symbols \<Rightarrow> knowledge_base \<Rightarrow> diagnostic list" where
  "analyze_straight_line_values lines syms kb =
     st_diagnostics (fold (straight_line syms kb) lines straight_start)"

section \<open>Budget\<close>

definition line_mnemonic :: "parsed_line \<Rightarrow> string option" where
  "line_mnemonic line = (case pl_kind line of LInstruction mnemonic _ \<Rightarrow> Some (tok_text mnemonic) | _ \<Rightarrow> None)"

definition saturating_add_one :: "u32 \<Rightarrow> u32" where
  "saturating_add_one n = (if n = -1 then n else n + 1)"

fun estimate_loop :: "u32 \<Rightarrow> u32 \<Rightarrow> parsed_line list \<Rightarrow> u32" where
  "estimate_loop current maximum [] = maximum"
| "estimate_loop current maximum (line # rest) =
     (case line_mnemonic line of
        None \<Rightarrow> estimate_loop current maximum rest
      | Some name \<Rightarrow>
          if name \<in> {''alias'', ''define''} then estimate_loop current maximum rest
          else
            (let current = saturating_add_one current;
                 maximum = max maximum current
             in if name \<in> {''yield'', ''sleep''} then estimate_loop 0 maximum rest
                else if name = ''hcf'' then maximum
                else estimate_loop current maximum rest))"

definition estimate_operations :: "parsed_line list \<Rightarrow> u32 option" where
  "estimate_operations lines =
     (if list_ex (\<lambda>line. case line_mnemonic line of Some name \<Rightarrow> is_branch name | None \<Rightarrow> False) lines then None
      else Some (estimate_loop 0 0 lines))"

definition physical_line_count :: "parsed_line list \<Rightarrow> usize" where
  "physical_line_count lines =
     (if length lines = 1 \<and> pl_span (hd lines) = new_span 0 0 \<and> pl_kind (hd lines) = LEmpty then 0
      else if lines \<noteq> [] \<and> sp_start (pl_span (last lines)) = sp_end (pl_span (last lines)) \<and> pl_kind (last lines) = LEmpty
      then length lines - 1
      else length lines)"

section \<open>The analysis\<close>

definition analyze ::
  "parsed_line list \<Rightarrow> symbols \<Rightarrow> knowledge_base \<Rightarrow> unused_level \<Rightarrow> (unit, analysis_result) outcome" where
  "analyze lines syms kb level =
     (let occurrences = collect_occurrences lines syms;
          physical = physical_line_count lines;
          maximum = maximum_program_lines (lang_architecture (language kb))
      in obind (analyze_control_flow lines syms kb level) (\<lambda>flow.
         Ok \<lparr>ar_diagnostics =
               validate_symbol_cycles syms @ validate_operands lines syms kb @ validate_known_batch_access lines syms kb @
               add_unused_symbol_diagnostics syms occurrences level @ flow @ analyze_straight_line_values lines syms kb @
               (if maximum < physical
                then [diag (pl_span (lines ! maximum)) SevWarning ''program-too-long''
                        (''IC10 programs are limited to '' @ show_nat maximum @ '' physical lines; this document has ''
                          @ show_nat physical @ ''.'') False]
                else []),
             ar_occurrences = occurrences,
             ar_budget = \<lparr>pb_physical_lines = physical,
                          pb_program_lines = length (filter (\<lambda>line. pl_kind line \<noteq> LEmpty) (take physical lines)),
                          pb_maximum_program_lines = maximum,
                          pb_estimated_operations = estimate_operations lines,
                          pb_maximum_operations = tick_budget kb\<rparr>\<rparr>))"

record document =
  doc_source :: string
  doc_lines :: "parsed_line list"
  doc_symbols :: symbols
  doc_occurrences :: "symbol_occurrence list"
  doc_diagnostics :: "diagnostic list"
  doc_budget :: program_budget

definition parse_with_options :: "string \<Rightarrow> knowledge_base \<Rightarrow> unused_level \<Rightarrow> (unit, document) outcome" where
  "parse_with_options source kb level =
     (let lines = document_lines source
      in case collect_declarations kb lines of (syms, diagnostics) \<Rightarrow>
           obind (analyze lines syms kb level) (\<lambda>a.
           Ok \<lparr>doc_source = source, doc_lines = lines, doc_symbols = syms, doc_occurrences = ar_occurrences a,
               doc_diagnostics = diagnostics @ ar_diagnostics a, doc_budget = ar_budget a\<rparr>))"

definition document_parse :: "string \<Rightarrow> knowledge_base \<Rightarrow> (unit, document) outcome" where
  "document_parse source kb = parse_with_options source kb UnusedHint"

definition doc_symbol :: "document \<Rightarrow> string \<Rightarrow> symbol option" where
  "doc_symbol d name = bt_get (doc_symbols d) name"

definition occurrences_for :: "document \<Rightarrow> string \<Rightarrow> symbol_occurrence list" where
  "occurrences_for d name = filter (\<lambda>oc. oc_name oc = name) (doc_occurrences d)"

definition symbol_occurrence_at_offset :: "document \<Rightarrow> usize \<Rightarrow> symbol_occurrence option" where
  "symbol_occurrence_at_offset d offset = find (\<lambda>oc. span_contains (oc_span oc) offset) (doc_occurrences d)"

definition line_at_offset :: "document \<Rightarrow> usize \<Rightarrow> parsed_line option" where
  "line_at_offset d offset = find (\<lambda>line. span_contains (pl_span line) offset) (doc_lines d)"

definition token_at_offset :: "document \<Rightarrow> usize \<Rightarrow> token option" where
  "token_at_offset d offset =
     Option.bind (line_at_offset d offset) (\<lambda>line.
       case pl_kind line of
         LEmpty \<Rightarrow> None
       | LLabel name \<Rightarrow> if span_contains (tok_span name) offset then Some name else None
       | LInstruction mnemonic operands \<Rightarrow>
           if span_contains (tok_span mnemonic) offset then Some mnemonic
           else find (\<lambda>token. span_contains (tok_span token) offset) operands)"

definition instruction_at_offset :: "document \<Rightarrow> usize \<Rightarrow> (token \<times> token list) option" where
  "instruction_at_offset d offset =
     Option.bind (line_at_offset d offset) (\<lambda>line.
       case pl_kind line of LInstruction mnemonic operands \<Rightarrow> Some (mnemonic, operands) | _ \<Rightarrow> None)"

text \<open>\<open>Program::compile\<close> on the source text.\<close>

definition compile_source ::
  "string \<Rightarrow> string \<Rightarrow> knowledge_base \<Rightarrow> string \<times> (usize, usize) btree_map \<Rightarrow> (string list, ic_program) outcome" where
  "compile_source source_path source kb build_mapping =
     (case document_parse source kb of
        Ok d \<Rightarrow> program_compile source_path source (doc_diagnostics d) build_mapping
      | _ \<Rightarrow> Panic)"

end
