(* ===== verification/Build.thy ===== *)
theory Build
  imports Analysis
begin

text \<open>
  Deployment builds: \<open>ic10-build/src/lib.rs\<close>. A build strips comments, blank lines and indentation
  (\<open>Readable\<close>), and also substitutes defines, shortens private aliases and replaces labels by line numbers
  (\<open>Compact\<close>); it moves the targets of branches accordingly and records which source line each generated line
  comes from. The SHA-256 digest of the \<open>sha2\<close> crate and the version of the tool are arguments. The
  conversion of the results to JSON belongs to the \<open>serde_json\<close> crate and is not part of the model.
\<close>

section \<open>Data\<close>

datatype optimization_level = OptNone | OptReadable | OptCompact

record build_options =
  bo_optimization :: optimization_level
  bo_game_version :: "string option"
  bo_source_path :: "string option"
  bo_environment :: "string option"

definition default_build_options :: build_options where
  "default_build_options =
     \<lparr>bo_optimization = OptReadable, bo_game_version = None, bo_source_path = None, bo_environment = None\<rparr>"

record source_map_entry =
  sm_generated_line :: usize
  sm_source_line :: usize

record build_metadata =
  bm_source_sha256 :: string
  bm_tool_version :: string
  bm_game_data_version :: string
  bm_options :: build_options

record official_limit =
  ol_name :: string
  ol_value :: "usize option"
  ol_unit :: string
  ol_source :: string
  ol_game_data_version :: string

record build_report =
  br_source_lines :: usize
  br_generated_lines :: usize
  br_source_bytes :: usize
  br_generated_bytes :: usize
  br_saved_lines :: int
  br_saved_bytes :: int
  br_adjusted_relative_branches :: usize
  br_adjusted_absolute_branches :: usize
  br_substituted_defines :: usize
  br_replaced_labels :: usize
  br_shortened_aliases :: usize
  br_limits :: "official_limit list"

record build_output =
  bo_code :: string
  bo_source_map :: "source_map_entry list"
  bo_metadata :: build_metadata
  bo_report :: build_report

record build_diagnostic =
  bd_code :: string
  bd_message :: string
  bd_source_line :: "usize option"

type_synonym build_error = "build_diagnostic list"

record output_line =
  out_source_line :: usize
  out_text :: string
  out_mnemonic :: "string option"
  out_operands :: "string list"

definition build_failure :: "string \<Rightarrow> string \<Rightarrow> usize option \<Rightarrow> build_error" where
  "build_failure kind message source_line = [\<lparr>bd_code = kind, bd_message = message, bd_source_line = source_line\<rparr>]"

text \<open>What a build counts besides the lines.\<close>

record build_counts =
  bc_relative :: usize
  bc_absolute :: usize
  bc_defines :: usize
  bc_labels :: usize
  bc_aliases :: usize

definition no_counts :: build_counts where
  "no_counts = \<lparr>bc_relative = 0, bc_absolute = 0, bc_defines = 0, bc_labels = 0, bc_aliases = 0\<rparr>"

section \<open>Text\<close>

text \<open>\<open>split_terminator(newline)\<close>: the lines without their newlines, no line after a final newline.\<close>

fun split_terminator :: "string \<Rightarrow> string list" where
  "split_terminator [] = []"
| "split_terminator (c # cs) =
     (if c = CHR 0x0A then [] # split_terminator cs
      else case split_terminator cs of
             [] \<Rightarrow> [[c]]
           | l # ls \<Rightarrow> (c # l) # ls)"

definition source_lines :: "string \<Rightarrow> string list" where
  "source_lines source =
     map (\<lambda>l. case strip_suffix [CHR 0x0D] l of Some t \<Rightarrow> t | None \<Rightarrow> l) (split_terminator source)"

text \<open>\<open>str::lines().count()\<close>.\<close>

definition line_count :: "string \<Rightarrow> usize" where
  "line_count s = length (split_inclusive s)"

definition strip_leading_indentation :: "string \<Rightarrow> string" where
  "strip_leading_indentation source =
     concat (map (dropWhile (\<lambda>c. c = CHR '' '' \<or> c = CHR 0x09)) (split_inclusive source))"

fun show_int :: "int \<Rightarrow> string" where
  "show_int i = (if i < 0 then ''-'' @ show_nat (nat (- i)) else show_nat (nat i))"

declare show_int.simps [simp del]

text \<open>The loop of \<open>replace_tokens\<close>: the characters left, with the token being read.\<close>

fun replace_scan :: "(string, string) btree_map \<Rightarrow> string \<Rightarrow> string \<Rightarrow> string" where
  "replace_scan replacements tok [] = []"
| "replace_scan replacements tok (c # cs) =
     (if is_whitespace c then
        (if tok \<noteq> [] then (case bt_get replacements tok of Some new \<Rightarrow> new | None \<Rightarrow> tok) else []) @
        c # replace_scan replacements [] cs
      else replace_scan replacements (tok @ [c]) cs)"

definition replace_tokens :: "string \<Rightarrow> (string, string) btree_map \<Rightarrow> string" where
  "replace_tokens source replacements = butlast (replace_scan replacements [] (source @ '' ''))"

text \<open>\<open>str::rfind\<close>.\<close>

definition rfind :: "string \<Rightarrow> string \<Rightarrow> usize option" where
  "rfind pattern s = find (\<lambda>i. starts_with pattern (drop i s)) (rev [0..<Suc (length s)])"

text \<open>The slice after the replaced token panics when the token does not occur and the text is too short.\<close>

definition replace_last_token :: "string \<Rightarrow> string \<Rightarrow> string \<Rightarrow> (build_error, string) outcome" where
  "replace_last_token source old new =
     (let stop = length (trim_end source);
          start = (case rfind old (take stop source) of Some i \<Rightarrow> i | None \<Rightarrow> stop)
      in if length source < start + length old then Panic
         else Ok (take start source @ new @ drop (start + length old) source))"

section \<open>Line maps and names\<close>

definition generated_line_map :: "usize \<Rightarrow> output_line list \<Rightarrow> usize option list" where
  "generated_line_map source_len out =
     fold (\<lambda>(generated, line) result. result[out_source_line line := Some generated])
       (zip [0..<length out] out) (replicate source_len None)"

definition translate_target :: "usize \<Rightarrow> usize option list \<Rightarrow> usize option" where
  "translate_target target line_map =
     (if length line_map < target then None
      else case find (\<lambda>e. e \<noteq> None) (drop target line_map) of Some e \<Rightarrow> e | None \<Rightarrow> None)"

text \<open>The loop of \<open>resolve_define\<close>.\<close>

function resolve_define_loop :: "(string, string) btree_map \<Rightarrow> string list \<Rightarrow> string \<Rightarrow> string option" where
  "resolve_define_loop defines visited current =
     (if current \<in> set visited then None
      else case bt_get defines current of
             None \<Rightarrow> None
           | Some v \<Rightarrow>
               (case bt_get defines v of
                  Some _ \<Rightarrow> resolve_define_loop defines (current # visited) v
                | None \<Rightarrow> Some v))"
  by pat_completeness auto

lemma bt_get_in_keys: "bt_get m k = Some v \<Longrightarrow> k \<in> fst ` set m"
  by (force simp: bt_get_def dest: map_of_SomeD)

termination resolve_define_loop
proof (relation "measure (\<lambda>(defines, visited, _). card (fst ` set defines - set visited))")
  fix table :: "(string, string) btree_map" and visited :: "string list" and current v w :: string
  assume "current \<notin> set visited" "bt_get table current = Some v"
  then have "current \<in> fst ` set table - set visited" using bt_get_in_keys by simp
  moreover have "fst ` set table - set (current # visited) = fst ` set table - set visited - {current}" by auto
  ultimately show "((table, current # visited, v), table, visited, current)
      \<in> measure (\<lambda>(defines, visited, _). card (fst ` set defines - set visited))"
    using card_Diff1_less [of "fst ` set table - set visited" current] by simp
qed simp

declare resolve_define_loop.simps [simp del]

definition resolve_define :: "string \<Rightarrow> (string, string) btree_map \<Rightarrow> string option" where
  "resolve_define name defines = resolve_define_loop defines [] name"

text \<open>\<open>while occupied.contains(&candidate) { candidate.insert(0, 'a') }\<close>.\<close>

function fresh_alias :: "string list \<Rightarrow> string \<Rightarrow> string" where
  "fresh_alias occupied candidate =
     (if candidate \<in> set occupied then fresh_alias occupied (CHR ''a'' # candidate) else candidate)"
  by pat_completeness auto

termination fresh_alias
proof (relation "measure (\<lambda>(occupied, candidate). card {x \<in> set occupied. length candidate \<le> length x})")
  fix occupied :: "string list" and candidate
  let ?longer = "\<lambda>n. {x \<in> set occupied. n \<le> length x}"
  assume "candidate \<in> set occupied"
  then have "candidate \<in> ?longer (length candidate)" "candidate \<notin> ?longer (Suc (length candidate))"
    "?longer (Suc (length candidate)) \<subseteq> ?longer (length candidate)" by auto
  then have "?longer (Suc (length candidate)) \<subset> ?longer (length candidate)" by blast
  then show "((occupied, CHR ''a'' # candidate), occupied, candidate)
      \<in> measure (\<lambda>(occupied, candidate). card {x \<in> set occupied. length candidate \<le> length x})"
    by (simp add: psubset_card_mono)
qed simp

declare fresh_alias.simps [simp del]

section \<open>The lines that stay\<close>

text \<open>The first loop of \<open>build\<close> on one line: \<open>None\<close> for a line that is removed.\<close>

definition output_line_of :: "usize \<Rightarrow> parsed_line \<Rightarrow> string \<Rightarrow> output_line option" where
  "output_line_of index line raw =
     (let text = trim (case pl_comment_span line of
            None \<Rightarrow> raw
          | Some sp \<Rightarrow> (let n = sp_start sp - sp_start (pl_span line) in if n \<le> length raw then take n raw else raw))
      in if trim text = [] then None
         else Some (case pl_kind line of
             LInstruction mnemonic operands \<Rightarrow>
               \<lparr>out_source_line = index, out_text = text, out_mnemonic = Some (to_ascii_lowercase (tok_text mnemonic)),
                out_operands = map tok_text operands\<rparr>
           | _ \<Rightarrow> \<lparr>out_source_line = index, out_text = text, out_mnemonic = None, out_operands = []\<rparr>))"

definition indexed_lines :: "parsed_line list \<Rightarrow> string list \<Rightarrow> (usize \<times> parsed_line \<times> string) list" where
  "indexed_lines lines raw_lines = zip [0..<length raw_lines] (zip lines raw_lines)"

definition output_lines :: "parsed_line list \<Rightarrow> string list \<Rightarrow> output_line list" where
  "output_lines lines raw_lines = List.map_filter (\<lambda>(i, line, raw). output_line_of i line raw) (indexed_lines lines raw_lines)"

definition blank_lines :: "parsed_line list \<Rightarrow> string list \<Rightarrow> usize set" where
  "blank_lines lines raw_lines =
     set (List.map_filter (\<lambda>(i, line, raw). if output_line_of i line raw = None then Some i else None)
       (indexed_lines lines raw_lines))"

section \<open>Compact builds\<close>

definition document_defines :: "document \<Rightarrow> (string, string) btree_map" where
  "document_defines d =
     (let raw_defines = bt_collect (List.map_filter
            (\<lambda>s. if sym_kind s = SDefine then map_option (Pair (sym_name s)) (sym_value s) else None)
            (bt_values (doc_symbols d)))
      in bt_collect (List.map_filter (\<lambda>name. map_option (Pair name) (resolve_define name raw_defines)) (bt_keys raw_defines)))"

definition private_aliases :: "document \<Rightarrow> string list" where
  "private_aliases d =
     map sym_name (filter (\<lambda>s. sym_kind s = SAlias \<and> starts_with ''_'' (sym_name s)) (bt_values (doc_symbols d)))"

definition short_aliases :: "document \<Rightarrow> (string, string) btree_map" where
  "short_aliases d =
     bt_collect (map (\<lambda>(index, name). (name, fresh_alias (bt_keys (doc_symbols d)) (''a'' @ show_nat index)))
       (zip [0..<length (private_aliases d)] (private_aliases d)))"

definition substituted :: "(string, string) btree_map \<Rightarrow> string \<Rightarrow> string" where
  "substituted replacements name = (case bt_get replacements name of Some new \<Rightarrow> new | None \<Rightarrow> name)"

definition is_removed_define :: "(string, string) btree_map \<Rightarrow> output_line \<Rightarrow> bool" where
  "is_removed_define defines line \<longleftrightarrow>
     out_mnemonic line = Some ''define'' \<and>
     (case out_operands line of name # _ \<Rightarrow> bt_contains defines name | [] \<Rightarrow> False)"

text \<open>The substitution loop on one line; the text of a removed define is cleared.\<close>

definition compact_line :: "(string, string) btree_map \<Rightarrow> (string, string) btree_map \<Rightarrow> output_line \<Rightarrow> output_line" where
  "compact_line defines aliases line =
     (if is_removed_define defines line then line\<lparr>out_text := []\<rparr>
      else let replacements = fold (\<lambda>(k, v). bt_insert k v) aliases defines
           in line\<lparr>out_text := replace_tokens (out_text line) replacements,
                   out_operands := map (substituted replacements) (out_operands line)\<rparr>)"

definition count_operands :: "(string, string) btree_map \<Rightarrow> (string, string) btree_map \<Rightarrow> output_line list \<Rightarrow> usize" where
  "count_operands defines names lines =
     sum_list (map (\<lambda>line. if is_removed_define defines line then 0
                           else length (filter (bt_contains names) (out_operands line))) lines)"

definition is_label_target :: "document \<Rightarrow> symbol_occurrence \<Rightarrow> bool" where
  "is_label_target d oc \<longleftrightarrow>
     (case line_at_offset d (sp_start (oc_span oc)) of
        Some line \<Rightarrow> (case pl_kind line of LInstruction mnemonic _ \<Rightarrow> is_absolute_branch (tok_text mnemonic) | _ \<Rightarrow> False)
      | None \<Rightarrow> False)"

definition removable_labels :: "document \<Rightarrow> symbol list" where
  "removable_labels d =
     filter (\<lambda>s. sym_kind s = SLabel \<and> list_all (\<lambda>oc. oc_declaration oc \<or> is_label_target d oc) (occurrences_for d (sym_name s)))
       (bt_values (doc_symbols d))"

text \<open>The loop that replaces labels by line numbers, on one line; the flag says whether a label was replaced.\<close>

definition replace_label :: "document \<Rightarrow> usize option list \<Rightarrow> output_line \<Rightarrow> (build_error, output_line \<times> bool) outcome" where
  "replace_label d line_map line =
     (if (case out_mnemonic line of Some m \<Rightarrow> is_absolute_branch m | None \<Rightarrow> False) \<and> out_operands line \<noteq> [] \<and>
         last (out_operands line) \<in> set (map sym_name (removable_labels d))
      then let target = last (out_operands line)
           in case doc_symbol d target of
                None \<Rightarrow> Ok (line, False)
              | Some s \<Rightarrow>
                  (case translate_target (sym_line s) line_map of
                     None \<Rightarrow> Err (build_failure ''unmappable-label''
                       (''Label '' @ tick_quote target @ '' has no generated destination.'') (Some (out_source_line line + 1)))
                   | Some generated \<Rightarrow>
                       Ok (line\<lparr>out_text := replace_tokens (out_text line) [(target, show_nat generated)],
                                out_operands := butlast (out_operands line) @ [show_nat generated]\<rparr>, True))
      else Ok (line, False))"

fun replace_labels ::
  "document \<Rightarrow> usize option list \<Rightarrow> output_line list \<Rightarrow> (build_error, output_line list \<times> usize set \<times> usize) outcome" where
  "replace_labels d line_map [] = Ok ([], {}, 0)"
| "replace_labels d line_map (line # rest) =
     obind (replace_label d line_map line) (\<lambda>(line', replaced).
     obind (replace_labels d line_map rest) (\<lambda>(rest', replaced_lines, n).
       Ok (line' # rest', (if replaced then insert (out_source_line line) replaced_lines else replaced_lines),
           if replaced then n + 1 else n)))"

definition compact_lines ::
  "document \<Rightarrow> usize \<Rightarrow> usize set \<Rightarrow> output_line list \<Rightarrow> (build_error, output_line list \<times> usize set \<times> build_counts) outcome" where
  "compact_lines d raw_count blank out =
     (let defines = document_defines d;
          aliases = short_aliases d;
          removed = blank \<union> set (map out_source_line (filter (is_removed_define defines) out))
            \<union> set (map sym_line (removable_labels d));
          compacted = filter (\<lambda>line. out_text line \<noteq> []) (map (compact_line defines aliases) out);
          kept = filter (\<lambda>line. out_source_line line \<notin> removed) compacted
      in obind (replace_labels d (generated_line_map raw_count kept) kept) (\<lambda>(lines, replaced_lines, n).
           Ok (lines, replaced_lines,
               no_counts\<lparr>bc_defines := count_operands defines defines out, bc_labels := n,
                         bc_aliases := count_operands defines aliases out\<rparr>)))"

section \<open>Branch targets\<close>

text \<open>Wrapping addition of \<open>isize\<close>.\<close>

definition isize_add :: "int \<Rightarrow> int \<Rightarrow> int" where
  "isize_add a b = (a + b + 2 ^ 63) mod 2 ^ 64 - 2 ^ 63"

definition is_relative_branch :: "string \<Rightarrow> bool" where
  "is_relative_branch m \<longleftrightarrow> m = ''jr'' \<or> starts_with ''br'' m"

definition literal_target :: "string \<Rightarrow> f64 option" where
  "literal_target tok =
     (case parse_numeric_literal tok of
        Some v \<Rightarrow> if is_finite v \<and> f64_eq (f64_fract v) f64_zero then Some v else None
      | None \<Rightarrow> None)"

text \<open>The last loop of \<open>build\<close> on one line; the flag says whether the target was changed.\<close>

definition adjust_branch ::
  "document \<Rightarrow> usize \<Rightarrow> usize option list \<Rightarrow> bool \<Rightarrow> usize set \<Rightarrow> usize \<Rightarrow> output_line
     \<Rightarrow> (build_error, output_line \<times> bool) outcome" where
  "adjust_branch d raw_count line_map topology_changed label_lines generated_index line =
     (case out_mnemonic line of
        None \<Rightarrow> Ok (line, False)
      | Some mnemonic \<Rightarrow>
          (let relative = is_relative_branch mnemonic;
               absolute = is_absolute_branch mnemonic
           in if \<not> relative \<and> \<not> absolute \<or> out_operands line = [] then Ok (line, False)
              else let tok = last (out_operands line)
                   in if absolute \<and> (out_source_line line \<in> label_lines \<or>
                        (case doc_symbol d tok of Some s \<Rightarrow> sym_kind s = SLabel | None \<Rightarrow> False))
                      then Ok (line, False)
                      else case literal_target tok of
                        None \<Rightarrow>
                          if topology_changed then
                            Err (build_failure (if relative then ''unsafe-relative-branch'' else ''unsafe-absolute-branch'')
                              (''Cannot preserve '' @ (if relative then ''relative'' else ''absolute'') @ '' branch '' @
                               tick_quote mnemonic @ '' with non-literal target '' @ tick_quote tok @
                               '' while lines are removed.'') (Some (out_source_line line + 1)))
                          else Ok (line, False)
                      | Some v \<Rightarrow>
                          (let original = (if relative then isize_add (int (out_source_line line)) (as_isize v) else as_isize v)
                           in if original < 0 \<or> raw_count \<le> nat original then
                                Err (build_failure ''branch-out-of-range''
                                  (''Branch target '' @ show_int original @ '' is outside the source.'')
                                  (Some (out_source_line line + 1)))
                              else case translate_target (nat original) line_map of
                                None \<Rightarrow> Err (build_failure ''unmappable-branch''
                                  ''Branch target has no generated destination.'' (Some (out_source_line line + 1)))
                              | Some generated \<Rightarrow>
                                  (let adjusted = (if relative then int generated - int generated_index else int generated)
                                   in if adjusted \<noteq> as_isize v then
                                        obind (replace_last_token (out_text line) tok (show_int adjusted)) (\<lambda>text.
                                          Ok (line\<lparr>out_text := text,
                                                   out_operands := butlast (out_operands line) @ [show_int adjusted]\<rparr>, True))
                                      else Ok (line, False)))))"

fun adjust_branches ::
  "document \<Rightarrow> usize \<Rightarrow> usize option list \<Rightarrow> bool \<Rightarrow> usize set \<Rightarrow> usize \<Rightarrow> output_line list
     \<Rightarrow> (build_error, output_line list \<times> usize \<times> usize) outcome" where
  "adjust_branches d raw_count line_map topology_changed label_lines generated_index [] = Ok ([], 0, 0)"
| "adjust_branches d raw_count line_map topology_changed label_lines generated_index (line # rest) =
     obind (adjust_branch d raw_count line_map topology_changed label_lines generated_index line) (\<lambda>(line', changed).
     obind (adjust_branches d raw_count line_map topology_changed label_lines (Suc generated_index) rest)
       (\<lambda>(rest', relatives, absolutes).
         Ok (line' # rest',
             (if changed \<and> is_relative_branch (the (out_mnemonic line)) then relatives + 1 else relatives),
             if changed \<and> \<not> is_relative_branch (the (out_mnemonic line)) then absolutes + 1 else absolutes)))"

section \<open>The build\<close>

definition join_lines :: "output_line list \<Rightarrow> string" where
  "join_lines lines = concat (map (\<lambda>line. out_text line @ [CHR 0x0A]) lines)"

definition program_limits :: "knowledge_base \<Rightarrow> official_limit list" where
  "program_limits kb =
     (let unknown = ''unknown: no official generated limit is available'';
          version = lang_game_version (language kb)
      in [\<lparr>ol_name = ''programLines'', ol_value = Some (maximum_program_lines (lang_architecture (language kb))),
           ol_unit = ''lines'', ol_source = ''generated Stationpedia architecture data'', ol_game_data_version = version\<rparr>,
          \<lparr>ol_name = ''programBytes'', ol_value = None, ol_unit = ''bytes'', ol_source = unknown, ol_game_data_version = version\<rparr>,
          \<lparr>ol_name = ''bytesPerLine'', ol_value = None, ol_unit = ''bytes'', ol_source = unknown, ol_game_data_version = version\<rparr>])"

definition finish ::
  "(string \<Rightarrow> string) \<Rightarrow> string \<Rightarrow> string \<Rightarrow> string \<Rightarrow> usize list \<Rightarrow> build_options \<Rightarrow> knowledge_base \<Rightarrow> build_counts
     \<Rightarrow> (build_error, build_output) outcome" where
  "finish sha256 tool_version source text lines options kb counts =
     (let generated_lines = (if text = [] then 0 else line_count text);
          maximum = maximum_program_lines (lang_architecture (language kb));
          version = lang_game_version (language kb);
          source_line_count = (if source = [] then 0 else line_count source)
      in if maximum < generated_lines then
           Err (build_failure ''official-program-line-limit''
             (''Built program has '' @ show_nat generated_lines @ '' lines; official generated data for '' @ version @
              '' limits programs to '' @ show_nat maximum @ ''.'')
             (map_option Suc (nth_opt lines maximum)))
         else Ok
           \<lparr>bo_code = text,
            bo_source_map = map (\<lambda>(generated, l). \<lparr>sm_generated_line = generated + 1, sm_source_line = l + 1\<rparr>)
              (zip [0..<length (take generated_lines lines)] (take generated_lines lines)),
            bo_metadata = \<lparr>bm_source_sha256 = sha256 source, bm_tool_version = tool_version,
                           bm_game_data_version = version, bm_options = options\<rparr>,
            bo_report =
              \<lparr>br_source_lines = source_line_count, br_generated_lines = generated_lines,
               br_source_bytes = length source, br_generated_bytes = length text,
               br_saved_lines = int source_line_count - int generated_lines,
               br_saved_bytes = int (length source) - int (length text),
               br_adjusted_relative_branches = bc_relative counts, br_adjusted_absolute_branches = bc_absolute counts,
               br_substituted_defines = bc_defines counts, br_replaced_labels = bc_labels counts,
               br_shortened_aliases = bc_aliases counts, br_limits = program_limits kb\<rparr>\<rparr>)"

definition finish_exact ::
  "(string \<Rightarrow> string) \<Rightarrow> string \<Rightarrow> string \<Rightarrow> build_options \<Rightarrow> knowledge_base \<Rightarrow> (build_error, build_output) outcome" where
  "finish_exact sha256 tool_version source options kb =
     finish sha256 tool_version source (strip_leading_indentation source) [0..<length (source_lines source)] options kb no_counts"

definition validation_errors :: "document \<Rightarrow> build_error" where
  "validation_errors d =
     map (\<lambda>g. \<lparr>bd_code = dg_code g, bd_message = dg_message g,
              bd_source_line = map_option (\<lambda>line. pl_number line + 1) (line_at_offset d (sp_start (dg_span g)))\<rparr>)
       (filter (\<lambda>g. dg_severity g = SevError \<and> dg_code g \<noteq> ''program-line-limit'') (doc_diagnostics d))"

text \<open>\<open>build\<close> after the checks, for the two optimising levels.\<close>

definition build_lines ::
  "document \<Rightarrow> optimization_level \<Rightarrow> (build_error, output_line list \<times> build_counts) outcome" where
  "build_lines d level =
     (let raw_lines = source_lines (doc_source d);
          out = output_lines (doc_lines d) raw_lines
      in obind (if level = OptCompact
                then compact_lines d (length raw_lines) (blank_lines (doc_lines d) raw_lines) out
                else Ok (out, {}, no_counts)) (\<lambda>(out, label_lines, counts).
         obind (adjust_branches d (length raw_lines) (generated_line_map (length raw_lines) out)
                  (length out \<noteq> length raw_lines) label_lines 0 out) (\<lambda>(out, relatives, absolutes).
           Ok (out, counts\<lparr>bc_relative := relatives, bc_absolute := absolutes\<rparr>))))"

definition build_checked ::
  "(string \<Rightarrow> string) \<Rightarrow> string \<Rightarrow> string \<Rightarrow> build_options \<Rightarrow> knowledge_base \<Rightarrow> (build_error, build_output) outcome" where
  "build_checked sha256 tool_version source options kb =
     (case document_parse source kb of
        Ok d \<Rightarrow>
          if validation_errors d \<noteq> [] then Err (validation_errors d)
          else if bo_optimization options = OptNone then finish_exact sha256 tool_version source options kb
          else obind (build_lines d (bo_optimization options)) (\<lambda>(out, counts).
                 finish sha256 tool_version source (join_lines out) (map out_source_line out) options kb counts)
      | _ \<Rightarrow> Panic)"

definition build ::
  "(string \<Rightarrow> string) \<Rightarrow> string \<Rightarrow> string \<Rightarrow> build_options \<Rightarrow> knowledge_base \<Rightarrow> (build_error, build_output) outcome" where
  "build sha256 tool_version source options kb =
     (case bo_game_version options of
        Some requested \<Rightarrow>
          if requested \<noteq> lang_game_version (language kb) then
            Err (build_failure ''game-version-mismatch''
              (''Selected Stationeers version '' @ requested @ '' does not match official generated data '' @
               lang_game_version (language kb) @ ''.'') None)
          else build_checked sha256 tool_version source options kb
      | None \<Rightarrow> build_checked sha256 tool_version source options kb)"

end
