(* ===== verification/Source_Words.thy ===== *)
theory Source_Words
  imports Ic10_Core
begin

text \<open>
  Lines as lists of words: a reference view of the lexer that the properties of the build and of the formatter
  are stated with. The words of a line are the texts of its tokens.
\<close>

section \<open>Quotation\<close>

text \<open>One character of the automaton that both \<open>comment_start\<close> and \<open>tokenize\<close> run: inside a quotation, after a
  backslash inside a quotation.\<close>

fun quote_step :: "char \<Rightarrow> bool \<times> bool \<Rightarrow> bool \<times> bool" where
  "quote_step c (quoted, escaped) =
     (if escaped then (quoted, False)
      else if c = CHR 0x5C \<and> quoted then (quoted, True)
      else if c = CHR 0x22 then (\<not> quoted, escaped)
      else (quoted, escaped))"

definition balanced :: "string \<Rightarrow> bool" where
  "balanced s \<longleftrightarrow> fold quote_step s (False, False) = (False, False)"

definition code_part :: "string \<Rightarrow> string" where
  "code_part text = take (case comment_start text of Some i \<Rightarrow> i | None \<Rightarrow> length text) text"

fun split_words :: "string \<Rightarrow> bool \<times> bool \<Rightarrow> string \<Rightarrow> string list" where
  "split_words acc st [] = (if acc = [] then [] else [acc])"
| "split_words acc st (c # cs) =
     (if is_whitespace c \<and> \<not> fst st then (if acc = [] then [] else [acc]) @ split_words [] st cs
      else split_words (acc @ [c]) (quote_step c st) cs)"

definition text_words :: "string \<Rightarrow> string list" where
  "text_words s = split_words [] (False, False) s"

fun kind_words :: "line_kind \<Rightarrow> string list" where
  "kind_words LEmpty = []"
| "kind_words (LLabel name) = [tok_text name @ '':'']"
| "kind_words (LInstruction mnemonic operands) = tok_text mnemonic # map tok_text operands"

abbreviation line_words :: "parsed_line \<Rightarrow> string list" where
  "line_words l \<equiv> kind_words (pl_kind l)"

section \<open>The automaton\<close>

lemma quote_step_blank: "is_whitespace c \<Longrightarrow> fst (quote_step c st) = fst st"
  by (cases st) (auto simp: is_whitespace_def code_def)

declare quote_step.simps [simp del]

lemma quote_step_escaped: "(snd st \<longrightarrow> fst st) \<Longrightarrow> snd (quote_step c st) \<longrightarrow> fst (quote_step c st)"
  by (cases st) (auto simp: quote_step.simps)

lemma quote_fold_escaped: "(snd st \<longrightarrow> fst st) \<Longrightarrow> snd (fold quote_step s st) \<longrightarrow> fst (fold quote_step s st)"
proof (induction s arbitrary: st)
  case (Cons c s)
  then show ?case using Cons.IH [OF quote_step_escaped [OF Cons.prems]] by simp
qed simp

lemma quote_fold_blank: "list_all is_whitespace w \<Longrightarrow> fst (fold quote_step w st) = fst st"
  by (induction w arbitrary: st) (simp_all add: quote_step_blank)

lemma quote_fold_blank_unquoted: "list_all is_whitespace w \<Longrightarrow> fold quote_step w (False, False) = (False, False)"
  using quote_fold_blank [of w "(False, False)"] quote_fold_escaped [of "(False, False)" w] by (simp add: prod_eq_iff)

lemma balanced_iff: "balanced s \<longleftrightarrow> \<not> fst (fold quote_step s (False, False))"
  using quote_fold_escaped [of "(False, False)" s] by (auto simp: balanced_def prod_eq_iff)

lemma balanced_append: "balanced s \<Longrightarrow> balanced (s @ t) \<longleftrightarrow> balanced t"
  by (simp add: balanced_def)

lemma balanced_blank_suffix: "list_all is_whitespace w \<Longrightarrow> balanced (s @ w) \<longleftrightarrow> balanced s"
  by (simp add: balanced_iff quote_fold_blank)

lemma balanced_blank_prefix: "list_all is_whitespace w \<Longrightarrow> balanced (w @ s) \<longleftrightarrow> balanced s"
  by (simp add: balanced_def quote_fold_blank_unquoted)

lemma trim_decomp:
  obtains a b where "s = a @ trim s @ b" "list_all is_whitespace a" "list_all is_whitespace b"
proof -
  have "s = takeWhile is_whitespace s @ trim_start s" by (simp add: trim_start_def)
  moreover have "t = trim_end t @ rev (takeWhile is_whitespace (rev t))" for t
    unfolding trim_end_def by (metis rev_append rev_rev_ident takeWhile_dropWhile_id)
  ultimately have "s = takeWhile is_whitespace s @ trim s @ rev (takeWhile is_whitespace (rev (trim_start s)))"
    unfolding trim_def by metis
  moreover have "list_all is_whitespace (takeWhile is_whitespace t)" for t by (auto simp: list_all_iff dest: set_takeWhileD)
  ultimately show ?thesis by (intro that) (auto simp: list_all_iff dest: set_takeWhileD)
qed

lemma balanced_trim: "balanced s \<Longrightarrow> balanced (trim s)"
  using trim_decomp [of s] by (metis balanced_blank_prefix balanced_blank_suffix)

section \<open>Comments\<close>

lemma comment_scan_step:
  "c \<noteq> CHR ''#'' \<or> q \<or> e \<Longrightarrow>
   comment_scan i q e (c # x) = (case quote_step c (q, e) of (q', e') \<Rightarrow> comment_scan (Suc i) q' e' x)"
  by (auto simp: quote_step.simps)

lemma comment_scan_append:
  "comment_scan i q e (a @ b) =
     (case comment_scan i q e a of
        Some k \<Rightarrow> Some k
      | None \<Rightarrow> (case fold quote_step a (q, e) of (q', e') \<Rightarrow> comment_scan (i + length a) q' e' b))"
proof (induction a arbitrary: i q e)
  case (Cons c a)
  show ?case
  proof (cases "c \<noteq> CHR ''#'' \<or> q \<or> e")
    case True
    obtain q' e' where st: "quote_step c (q, e) = (q', e')" by fastforce
    show ?thesis using comment_scan_step [OF True] st Cons by (simp del: comment_scan.simps split: option.split)
  next
    case False
    then have "\<not> e" "\<not> q" "c = CHR ''#''" by auto
    then show ?thesis by simp
  qed
qed simp

lemma comment_scan_Some:
  "comment_scan i q e s = Some k \<Longrightarrow> i \<le> k \<and> k < i + length s \<and> comment_scan i q e (take (k - i) s) = None \<and>
     \<not> fst (fold quote_step (take (k - i) s) (q, e))"
proof (induction s arbitrary: i q e)
  case (Cons c s)
  show ?case
  proof (cases "c \<noteq> CHR ''#'' \<or> q \<or> e")
    case False
    then have "\<not> e" "\<not> q" "c = CHR ''#''" by auto
    then show ?thesis using Cons.prems by auto
  next
    case True
    obtain q' e' where st: "quote_step c (q, e) = (q', e')" by fastforce
    have step: "comment_scan i q e (c # x) = comment_scan (Suc i) q' e' x" for x using comment_scan_step [OF True] st by simp
    then have "Suc i \<le> k \<and> k < Suc i + length s \<and> comment_scan (Suc i) q' e' (take (k - Suc i) s) = None \<and>
        \<not> fst (fold quote_step (take (k - Suc i) s) (q', e'))" using Cons by metis
    moreover from this have "take (k - i) (c # s) = c # take (k - Suc i) s" by (simp add: take_Cons')
    ultimately show ?thesis using step st by (simp del: comment_scan.simps)
  qed
qed simp

lemma comment_start_code_part: "comment_start (code_part t) = None"
  using comment_scan_Some [of 0 False False t] by (cases "comment_start t") (auto simp: code_part_def comment_start_def)

lemma code_part_self: "comment_start t = None \<Longrightarrow> code_part t = t"
  by (simp add: code_part_def)

lemma comment_start_prefix: "comment_start (a @ b) = None \<Longrightarrow> comment_start a = None"
  by (auto simp: comment_start_def comment_scan_append split: option.splits)

lemma comment_start_blank_prefix:
  assumes "list_all is_whitespace a" "comment_start (a @ s) = None"
  shows "comment_start s = None"
proof -
  have shift: "(comment_scan i q e s = None) = (comment_scan j q e s = None)" for i j q e
    by (induction s arbitrary: i j q e) auto
  show ?thesis using assms shift [of "length a" False False 0]
    by (auto simp: comment_start_def comment_scan_append quote_fold_blank_unquoted split: option.splits)
qed

lemma comment_start_trim: "comment_start s = None \<Longrightarrow> comment_start (trim s) = None"
  using trim_decomp [of s] by (metis comment_start_prefix comment_start_blank_prefix)

section \<open>Words\<close>

lemma split_words_in_word:
  "\<not> (is_whitespace c \<and> \<not> fst st) \<Longrightarrow> split_words acc st (c # cs) = split_words (acc @ [c]) (quote_step c st) cs"
  by (simp only: split_words.simps if_False)

lemma tokenize_scan_words:
  assumes "src = pre @ rest" "index = length pre"
    and "case start of None \<Rightarrow> acc = [] | Some s \<Rightarrow> s < index \<and> acc = drop s pre"
  shows "map tok_text (tokenize_scan src base index start q e rest) = split_words acc (q, e) rest"
  using assms
proof (induction rest arbitrary: pre index start q e acc)
  case Nil
  then show ?case by (cases start) (auto simp: mk_token_def slice_def)
next
  case (Cons c rest)
  have src: "src = (pre @ [c]) @ rest" "Suc index = length (pre @ [c])" using Cons.prems by auto
  show ?case
  proof (cases "is_whitespace c \<and> \<not> q")
    case True
    have "map tok_text (tokenize_scan src base (Suc index) None q e rest) = split_words [] (q, e) rest"
      by (rule Cons.IH [OF src]) simp
    then show ?thesis using True Cons.prems by (cases start) (auto simp: mk_token_def slice_def)
  next
    case False
    let ?start = "Some (case start of Some s \<Rightarrow> s | None \<Rightarrow> index)"
    have acc: "case ?start of None \<Rightarrow> acc @ [c] = [] | Some s \<Rightarrow> s < Suc index \<and> acc @ [c] = drop s (pre @ [c])"
      using Cons.prems by (auto split: option.splits)
    show ?thesis using False Cons.IH [OF src acc] by (auto simp: Let_def quote_step.simps)
  qed
qed

lemma tokenize_words: "map tok_text (tokenize s base) = text_words s"
  by (simp add: tokenize_def text_words_def tokenize_scan_words [of s "[]"])

lemma kind_words_classify: "kind_words (classify_line ts) = map tok_text ts"
  by (cases ts) (auto simp: classify_line_def ends_with_iff butlast_append)

lemma split_words_blank: "list_all is_whitespace w \<Longrightarrow> split_words acc (False, False) w = (if acc = [] then [] else [acc])"
  by (induction w arbitrary: acc) auto

lemma quote_step_blank_unquoted:
  "is_whitespace c \<Longrightarrow> \<not> fst st \<Longrightarrow> (snd st \<longrightarrow> fst st) \<Longrightarrow> quote_step c st = st"
  by (cases st) (auto simp: quote_step.simps is_whitespace_def code_def)

lemma split_words_blank_suffix:
  "list_all is_whitespace w \<Longrightarrow> fold quote_step s st = (False, False) \<Longrightarrow> (snd st \<longrightarrow> fst st) \<Longrightarrow>
   split_words acc st (s @ w) = split_words acc st s"
proof (induction s arbitrary: acc st)
  case (Cons c s)
  show ?case
  proof (cases "is_whitespace c \<and> \<not> fst st")
    case True
    then have "quote_step c st = st" using quote_step_blank_unquoted Cons.prems(3) by blast
    then show ?thesis using True Cons by simp
  next
    case False
    have "split_words (acc @ [c]) (quote_step c st) (s @ w) = split_words (acc @ [c]) (quote_step c st) s"
      using Cons.prems(2) by (intro Cons.IH [OF Cons.prems(1) _ quote_step_escaped [OF Cons.prems(3)]]) simp
    then show ?thesis unfolding append_Cons split_words_in_word [OF False] .
  qed
qed (simp add: split_words_blank)

lemma split_words_blank_prefix:
  "list_all is_whitespace w \<Longrightarrow> split_words [] (False, False) (w @ s) = split_words [] (False, False) s"
  by (induction w) auto

lemma text_words_trim: "balanced s \<Longrightarrow> text_words (trim s) = text_words s"
proof -
  assume bal: "balanced s"
  obtain a b where ab: "s = a @ trim s @ b" "list_all is_whitespace a" "list_all is_whitespace b" by (rule trim_decomp)
  have "text_words s = split_words [] (False, False) (trim s @ b)"
    unfolding text_words_def by (subst ab(1)) (rule split_words_blank_prefix [OF ab(2)])
  also have "\<dots> = text_words (trim s)"
    using balanced_trim [OF bal] ab(3) by (auto simp: text_words_def balanced_def intro: split_words_blank_suffix)
  finally show ?thesis by simp
qed

lemma split_words_nonempty: "acc \<noteq> [] \<Longrightarrow> split_words acc st s \<noteq> []"
  by (induction s arbitrary: acc st) auto

lemma trim_Nil_iff: "trim s = [] \<longleftrightarrow> list_all is_whitespace s"
proof
  assume "trim s = []"
  then show "list_all is_whitespace s" using trim_decomp [of s] by (metis append_Nil list_all_append)
next
  assume "list_all is_whitespace s"
  then have "dropWhile is_whitespace s = []" by (simp add: dropWhile_eq_Nil_conv list_all_iff)
  then show "trim s = []" by (simp only: trim_def trim_start_def trim_end_def rev.simps dropWhile.simps)
qed

lemma trim_trim_Nil: "trim (trim s) = [] \<longleftrightarrow> trim s = []"
proof -
  obtain a b where "s = a @ trim s @ b" "list_all is_whitespace a" "list_all is_whitespace b" by (rule trim_decomp)
  then have "list_all is_whitespace s \<longleftrightarrow> list_all is_whitespace (trim s)" by (metis list_all_append)
  then show ?thesis by (simp add: trim_Nil_iff)
qed

lemma trim_last: "trim s = [] \<or> \<not> is_whitespace (last (trim s))"
  unfolding trim_def trim_end_def using hd_dropWhile [of is_whitespace "rev (trim_start s)"] by (auto simp: last_rev)

lemma text_words_empty_iff: "text_words s = [] \<longleftrightarrow> trim s = []"
proof -
  have "split_words [] (False, False) s = [] \<longleftrightarrow> list_all is_whitespace s"
    by (induction s) (auto simp: split_words_nonempty)
  then show ?thesis by (simp add: text_words_def trim_Nil_iff)
qed

text \<open>The last word of a line that does not end in a blank is where the line ends.\<close>

lemma split_words_last:
  assumes "fold quote_step s st = (False, False)" "snd st \<longrightarrow> fst st" "s \<noteq> []" "\<not> is_whitespace (last s)"
  shows "split_words acc st s = [acc @ s] \<or>
    (\<exists>p w. s = p @ w \<and> w \<noteq> [] \<and> p \<noteq> [] \<and> is_whitespace (last p) \<and> fold quote_step p st = (False, False) \<and>
       split_words acc st s = split_words acc st p @ [w])"
  using assms
proof (induction s arbitrary: acc st)
  case (Cons c s)
  show ?case
  proof (cases "s = []")
    case True
    then show ?thesis using Cons.prems by auto
  next
    case False
    have esc: "snd (quote_step c st) \<longrightarrow> fst (quote_step c st)" using Cons.prems(2) quote_step_escaped by blast
    have IH: "split_words acc' (quote_step c st) s = [acc' @ s] \<or>
        (\<exists>p w. s = p @ w \<and> w \<noteq> [] \<and> p \<noteq> [] \<and> is_whitespace (last p) \<and> fold quote_step p (quote_step c st) = (False, False) \<and>
           split_words acc' (quote_step c st) s = split_words acc' (quote_step c st) p @ [w])" for acc'
      using Cons.IH [of "quote_step c st" acc'] Cons.prems esc False by simp
    show ?thesis
    proof (cases "is_whitespace c \<and> \<not> fst st")
      case blank: True
      then have st: "quote_step c st = st" "st = (False, False)"
        using quote_step_blank_unquoted Cons.prems(2) by (auto simp: prod_eq_iff)
      consider "split_words [] st s = [s]" | p w where "s = p @ w" "w \<noteq> []" "p \<noteq> []" "is_whitespace (last p)"
        "fold quote_step p st = (False, False)" "split_words [] st s = split_words [] st p @ [w]"
        using IH [of "[]"] st(1) by auto
      then show ?thesis
      proof cases
        case 1
        then have "c # s = [c] @ s \<and> s \<noteq> [] \<and> [c] \<noteq> [] \<and> is_whitespace (last [c]) \<and> fold quote_step [c] st = (False, False) \<and>
            split_words acc st (c # s) = split_words acc st [c] @ [s]" using blank st False by (simp)
        then show ?thesis by blast
      next
        case 2
        then have "c # s = (c # p) @ w \<and> w \<noteq> [] \<and> c # p \<noteq> [] \<and> is_whitespace (last (c # p)) \<and>
            fold quote_step (c # p) st = (False, False) \<and> split_words acc st (c # s) = split_words acc st (c # p) @ [w]"
          using blank st by (simp)
        then show ?thesis by blast
      qed
    next
      case word: False
      consider "split_words (acc @ [c]) (quote_step c st) s = [acc @ c # s]" | p w where "s = p @ w" "w \<noteq> []" "p \<noteq> []"
        "is_whitespace (last p)" "fold quote_step p (quote_step c st) = (False, False)"
        "split_words (acc @ [c]) (quote_step c st) s = split_words (acc @ [c]) (quote_step c st) p @ [w]"
        using IH [of "acc @ [c]"] by auto
      then show ?thesis
      proof cases
        case 1
        then show ?thesis unfolding split_words_in_word [OF word] by simp
      next
        case 2
        then have "c # s = (c # p) @ w \<and> w \<noteq> [] \<and> c # p \<noteq> [] \<and> is_whitespace (last (c # p)) \<and>
            fold quote_step (c # p) st = (False, False) \<and> split_words acc st (c # s) = split_words acc st (c # p) @ [w]"
          unfolding split_words_in_word [OF word] by simp
        then show ?thesis by blast
      qed
    qed
  qed
qed simp


lemma split_words_append:
  "fold quote_step p st = (False, False) \<Longrightarrow> (snd st \<longrightarrow> fst st) \<Longrightarrow> p \<noteq> [] \<Longrightarrow> is_whitespace (last p) \<Longrightarrow>
   split_words acc st (p @ t) = split_words acc st p @ split_words [] (False, False) t"
proof (induction p arbitrary: acc st)
  case (Cons c p)
  show ?case
  proof (cases "is_whitespace c \<and> \<not> fst st")
    case blank: True
    then have st: "quote_step c st = st" "st = (False, False)"
      using quote_step_blank_unquoted Cons.prems(2) by (auto simp: prod_eq_iff)
    show ?thesis
    proof (cases "p = []")
      case False
      then have "split_words [] st (p @ t) = split_words [] st p @ split_words [] (False, False) t"
        using Cons.prems st by (intro Cons.IH) auto
      then show ?thesis using blank by simp
    qed (use blank st in simp)
  next
    case word: False
    have "p \<noteq> []"
    proof
      assume "p = []"
      with Cons.prems(1,4) word quote_step_blank [of c st] show False by simp
    qed
    then have "split_words (acc @ [c]) (quote_step c st) (p @ t)
        = split_words (acc @ [c]) (quote_step c st) p @ split_words [] (False, False) t"
      using Cons.prems quote_step_escaped [OF Cons.prems(2)] by (intro Cons.IH) auto
    then show ?thesis unfolding append_Cons split_words_in_word [OF word] .
  qed
qed simp

text \<open>Words without blanks, quotes and comment signs, such as numbers.\<close>

definition plain_word :: "string \<Rightarrow> bool" where
  "plain_word w \<longleftrightarrow> w \<noteq> [] \<and> list_all (\<lambda>c. \<not> is_whitespace c \<and> c \<noteq> CHR 0x22 \<and> c \<noteq> CHR ''#'') w"

lemma quote_step_plain: "c \<noteq> CHR 0x22 \<Longrightarrow> quote_step c (False, False) = (False, False)"
  by (simp add: quote_step.simps)

lemma split_plain:
  "list_all (\<lambda>c. \<not> is_whitespace c \<and> c \<noteq> CHR 0x22 \<and> c \<noteq> CHR ''#'') w \<Longrightarrow> acc @ w \<noteq> [] \<Longrightarrow>
   split_words acc (False, False) w = [acc @ w] \<and> fold quote_step w (False, False) = (False, False) \<and>
   comment_scan i False False w = None"
  by (induction w arbitrary: acc i) (auto simp: quote_step_plain)

lemmas plain_word_props = split_plain [of _ "[]", simplified]

lemma replace_last_word:
  assumes "p = [] \<or> is_whitespace (last p)" "balanced p" "plain_word w" "comment_start p = None"
  shows "text_words (p @ w) = text_words p @ [w]" "balanced (p @ w)" "comment_start (p @ w) = None"
proof -
  have w: "split_words [] (False, False) w = [w]" "fold quote_step w (False, False) = (False, False)"
    "comment_scan i False False w = None" for i using assms(3) plain_word_props by (auto simp: plain_word_def)
  show "text_words (p @ w) = text_words p @ [w]"
    using assms(1,2) w(1) by (cases "p = []") (simp_all add: text_words_def balanced_def split_words_append)
  show "balanced (p @ w)" using assms(2) w(2) by (simp add: balanced_def)
  show "comment_start (p @ w) = None"
    using assms(2,4) w(3) by (simp add: comment_start_def comment_scan_append balanced_def)
qed

lemma last_word:
  assumes "balanced t" "t \<noteq> []" "\<not> is_whitespace (last t)"
  obtains p where "t = p @ last (text_words t)" "p = [] \<or> is_whitespace (last p)" "balanced p"
    "text_words p = butlast (text_words t)" "text_words t \<noteq> []" "last (text_words t) \<noteq> []"
proof -
  have "text_words t = [t] \<or> (\<exists>p w. t = p @ w \<and> w \<noteq> [] \<and> p \<noteq> [] \<and> is_whitespace (last p) \<and> balanced p \<and>
      text_words t = text_words p @ [w])"
    using split_words_last [of t "(False, False)" "[]"] assms by (auto simp: text_words_def balanced_def)
  then show ?thesis using that [of "[]"] that assms(2) by (auto simp: balanced_def text_words_def)
qed

section \<open>Lines\<close>

lemma parse_lines_line:
  "k < length ls \<Longrightarrow>
   line_words (parse_lines n off ls ! k) = text_words (code_part (line_text (ls ! k))) \<and>
   pl_comment_span (parse_lines n off ls ! k)
     = map_option (\<lambda>i. new_span (sp_start (pl_span (parse_lines n off ls ! k)) + i) (sp_end (pl_span (parse_lines n off ls ! k))))
         (comment_start (line_text (ls ! k)))"
proof (induction ls arbitrary: n off k)
  case (Cons l ls)
  then show ?case
    by (cases k) (auto simp: Let_def kind_words_classify tokenize_words code_part_def new_span_def)
qed simp

lemma document_line_nth: "k < length (split_inclusive s) \<Longrightarrow> document_lines s ! k = parse_lines 0 0 (split_inclusive s) ! k"
  by (simp add: document_lines_split nth_append)

lemma split_inclusive_line: "CHR 0x0A \<notin> set t \<Longrightarrow> split_inclusive (t @ CHR 0x0A # s) = (t @ [CHR 0x0A]) # split_inclusive s"
  by (induction t) auto

lemma split_inclusive_join:
  "list_all (\<lambda>t. CHR 0x0A \<notin> set t) ts \<Longrightarrow>
   split_inclusive (concat (map (\<lambda>t. t @ [CHR 0x0A]) ts)) = map (\<lambda>t. t @ [CHR 0x0A]) ts"
  by (induction ts) (simp_all add: split_inclusive_line)

lemma line_text_newline: "t = [] \<or> \<not> is_whitespace (last t) \<Longrightarrow> line_text (t @ [CHR 0x0A]) = t"
proof -
  assume "t = [] \<or> \<not> is_whitespace (last t)"
  then have "strip_suffix [CHR 0x0D] t = None"
    by (cases t rule: rev_cases) (auto simp: strip_suffix_def strip_prefix_eq_None is_whitespace_def code_def)
  then show ?thesis by (simp add: line_text_def)
qed

lemma newline_blank: "is_whitespace (CHR 0x0A)"
  by (simp add: is_whitespace_def code_def)

lemma split_inclusive_newline: "l \<in> set (split_inclusive s) \<Longrightarrow> CHR 0x0A \<notin> set (butlast l) \<and> l \<noteq> []"
  by (induction s arbitrary: l rule: split_inclusive.induct) (auto split: list.splits if_splits)

lemma line_text_no_newline: "l \<in> set (split_inclusive s) \<Longrightarrow> CHR 0x0A \<notin> set (line_text l)"
proof -
  assume "l \<in> set (split_inclusive s)"
  then have l: "CHR 0x0A \<notin> set (butlast l)" "l \<noteq> []" using split_inclusive_newline by auto
  have "CHR 0x0A \<notin> set (case strip_suffix [CHR 0x0A] l of Some t \<Rightarrow> t | None \<Rightarrow> l)"
  proof (cases "last l = CHR 0x0A")
    case True
    then have "l = butlast l @ [CHR 0x0A]" using l(2) append_butlast_last_id by metis
    then have "strip_suffix [CHR 0x0A] l = Some (butlast l)" by (metis strip_suffix_append)
    then show ?thesis using l by simp
  next
    case False
    then have "CHR 0x0A \<notin> set l" using l by (metis append_butlast_last_id in_set_conv_decomp rotate1.simps(2) set_rotate1 set_ConsD)
    then show ?thesis by (auto simp: strip_suffix_eq_Some split: option.splits)
  qed
  then show ?thesis unfolding line_text_def Let_def by (auto simp: strip_suffix_eq_Some split: option.splits)
qed

end
