(* ===== verification/Analysis_Correct.thy ===== *)
theory Analysis_Correct
  imports Analysis World
begin

text \<open>
  Correctness of the static analyser: it never panics, its reachability search computes exactly the
  lines reachable from the entry point, its cycle check finds exactly the symbols whose chain of
  values never ends, and a source it accepts has only known instructions with the right number of
  operands. \<open>edge_relation\<close> and \<open>symbol_chain\<close> are the reference notions.
\<close>

section \<open>Reference notions\<close>

definition edge_relation :: "usize list list \<Rightarrow> (usize \<times> usize) set" where
  "edge_relation edges = {(i, j). i < length edges \<and> j \<in> set (edges ! i)}"

definition symbol_chain :: "symbols \<Rightarrow> nat \<Rightarrow> symbol \<Rightarrow> symbol option" where
  "symbol_chain syms n s = ((\<lambda>c. Option.bind c (\<lambda>x. Option.bind (sym_value x) (bt_get syms))) ^^ n) (Some s)"

definition symbols_named :: "symbols \<Rightarrow> bool" where
  "symbols_named syms \<longleftrightarrow> (\<forall>(k, s) \<in> set syms. sym_name s = k)"

definition sample_info :: "nat \<Rightarrow> instruction_info" where
  "sample_info n = \<lparr>in_category = '''', in_syntax = '''', in_description = '''', in_deprecated = False,
     in_operands = replicate n \<lparr>op_label = '''', operand_type = ''str'', op_display = ''''\<rparr>\<rparr>"

definition analysis_kb :: knowledge_base where
  "analysis_kb = sample_kb\<lparr>language := (language sample_kb)\<lparr>lang_instructions :=
     [(''alias'', sample_info 2), (''hcf'', sample_info 0), (''yield'', sample_info 0)]\<rparr>\<rparr>"

definition sample_line :: "nat \<Rightarrow> string \<Rightarrow> string list \<Rightarrow> parsed_line" where
  "sample_line n mnemonic operands =
     \<lparr>pl_number = n, pl_span = new_span n n, pl_code_span = new_span n n, pl_comment_span = None,
      pl_kind = LInstruction \<lparr>tok_text = mnemonic, tok_span = new_span n n\<rparr>
        (map (\<lambda>text. \<lparr>tok_text = text, tok_span = new_span n n\<rparr>) operands)\<rparr>"

section \<open>Lemmas\<close>

subsection \<open>Reachability\<close>

declare reach_loop.simps(2) [simp del]

lemma reach_loop_result:
  assumes "\<forall>es \<in> set edges. \<forall>j \<in> set es. j < length edges" "length marks = length edges" "\<forall>q \<in> set queue. q < length edges"
    and "\<forall>i < length edges. marks ! i \<longrightarrow> (\<forall>j \<in> set (edges ! i). marks ! j \<or> j \<in> set queue)"
  shows "\<exists>r. reach_loop edges queue marks = Some r \<and> length r = length edges \<and>
    (\<forall>i < length edges. marks ! i \<or> i \<in> set queue \<longrightarrow> r ! i) \<and>
    (\<forall>i < length edges. r ! i \<longrightarrow> (\<forall>j \<in> set (edges ! i). r ! j)) \<and>
    (\<forall>i < length edges. r ! i \<longrightarrow> marks ! i \<or> (\<exists>q \<in> set queue. (q, i) \<in> (edge_relation edges)\<^sup>*))"
  using assms
proof (induction edges queue marks rule: reach_loop.induct)
  case (2 edges i queue marks)
  have i: "i < length edges" using "2.prems"(3) by simp
  show ?case
  proof (cases "marks ! i")
    case True
    have "\<forall>k < length edges. marks ! k \<longrightarrow> (\<forall>j \<in> set (edges ! k). marks ! j \<or> j \<in> set queue)"
      using "2.prems"(4) True by auto
    moreover have "\<forall>q \<in> set queue. q < length edges" "\<not> length marks \<le> i" using "2.prems"(2,3) i by simp_all
    ultimately obtain r where r: "reach_loop edges queue marks = Some r" "length r = length edges"
      "\<forall>k < length edges. marks ! k \<or> k \<in> set queue \<longrightarrow> r ! k" "\<forall>k < length edges. r ! k \<longrightarrow> (\<forall>j \<in> set (edges ! k). r ! j)"
      "\<forall>k < length edges. r ! k \<longrightarrow> marks ! k \<or> (\<exists>q \<in> set queue. (q, k) \<in> (edge_relation edges)\<^sup>*)"
      using "2.IH"(1) [OF _ True "2.prems"(1,2)] by blast
    have "reach_loop edges (i # queue) marks = Some r" using r(1) True \<open>\<not> length marks \<le> i\<close> by (simp add: reach_loop.simps(2))
    then show ?thesis using r(2-5) True by (intro exI [of _ r]) auto
  next
    case False
    let ?m = "marks[i := True]" and ?q = "queue @ edges ! i"
    have next_edges: "\<forall>j \<in> set (edges ! i). j < length edges" using "2.prems"(1) i by auto
    have closed: "\<forall>k < length edges. ?m ! k \<longrightarrow> (\<forall>j \<in> set (edges ! k). ?m ! j \<or> j \<in> set ?q)"
      using "2.prems"(2,4) i by (auto simp: nth_list_update)
    have "\<exists>r. reach_loop edges ?q ?m = Some r \<and> length r = length edges \<and>
      (\<forall>k < length edges. ?m ! k \<or> k \<in> set ?q \<longrightarrow> r ! k) \<and>
      (\<forall>k < length edges. r ! k \<longrightarrow> (\<forall>j \<in> set (edges ! k). r ! j)) \<and>
      (\<forall>k < length edges. r ! k \<longrightarrow> ?m ! k \<or> (\<exists>q \<in> set ?q. (q, k) \<in> (edge_relation edges)\<^sup>*))"
      using "2.IH"(2) [OF _ False _ "2.prems"(1) _ _ closed] i "2.prems"(2,3) next_edges by auto
    then obtain r where r: "reach_loop edges ?q ?m = Some r" "length r = length edges"
      "\<forall>k < length edges. ?m ! k \<or> k \<in> set ?q \<longrightarrow> r ! k" "\<forall>k < length edges. r ! k \<longrightarrow> (\<forall>j \<in> set (edges ! k). r ! j)"
      "\<forall>k < length edges. r ! k \<longrightarrow> ?m ! k \<or> (\<exists>q \<in> set ?q. (q, k) \<in> (edge_relation edges)\<^sup>*)" by blast
    have from_i: "(i, k) \<in> (edge_relation edges)\<^sup>*" if "q \<in> set (edges ! i)" "(q, k) \<in> (edge_relation edges)\<^sup>*" for q k
      using that i by (intro converse_rtrancl_into_rtrancl [of i q]) (auto simp: edge_relation_def)
    have sound: "marks ! k \<or> (\<exists>q \<in> set (i # queue). (q, k) \<in> (edge_relation edges)\<^sup>*)" if k: "k < length edges" "r ! k" for k
    proof (cases "k = i")
      case False
      then have "?m ! k = marks ! k" by simp
      then show ?thesis using r(5) k from_i by auto
    qed auto
    have cover: "r ! k" if k: "k < length edges" "marks ! k \<or> k \<in> set (i # queue)" for k
    proof -
      have "?m ! k \<or> k \<in> set ?q" using k i "2.prems"(2) by (cases "k = i") auto
      then show ?thesis using r(3) k(1) by blast
    qed
    have "reach_loop edges (i # queue) marks = Some r" using r(1) False i "2.prems"(2) by (simp add: reach_loop.simps(2))
    then show ?thesis using r(2,4) sound cover by (intro exI [of _ r] conjI allI impI) blast+
  qed
qed simp

lemma reach_loop_exact:
  assumes "\<forall>es \<in> set edges. \<forall>j \<in> set es. j < length edges" "edges \<noteq> []"
  shows "reach_loop edges [0] (replicate (length edges) False)
    = Some (map (\<lambda>i. (0, i) \<in> (edge_relation edges)\<^sup>*) [0..<length edges])"
proof -
  obtain r where r: "reach_loop edges [0] (replicate (length edges) False) = Some r" "length r = length edges"
    "r ! 0" "\<forall>i < length edges. r ! i \<longrightarrow> (\<forall>j \<in> set (edges ! i). r ! j)"
    "\<forall>i < length edges. r ! i \<longrightarrow> (0, i) \<in> (edge_relation edges)\<^sup>*"
    using reach_loop_result [of edges "replicate (length edges) False" "[0]"] assms by auto
  have "r ! i" if "(0, i) \<in> (edge_relation edges)\<^sup>*" for i
    using that by (induction rule: rtrancl_induct) (use r(3,4) in \<open>auto simp: edge_relation_def\<close>)
  then have "r = map (\<lambda>i. (0, i) \<in> (edge_relation edges)\<^sup>*) [0..<length edges]"
    using r(2,5) by (intro nth_equalityI) auto
  then show ?thesis using r(1) by simp
qed

lemma fall_through_bound: "j \<in> set (fall_through n i) \<Longrightarrow> j < n"
  by (auto simp: fall_through_def split: if_splits)

lemma flow_line_bound: "j \<in> set (fst (flow_line lines syms kb i line)) \<Longrightarrow> j < length lines"
  by (auto simp: flow_line_def branch_edges_def Let_def split: line_kind.splits if_splits option.splits dest: fall_through_bound)

lemma flow_lines_length [simp]: "length (flow_lines lines syms kb) = length lines"
  by (simp add: flow_lines_def)

lemma flow_edges_bound: "\<forall>es \<in> set (map fst (flow_lines lines syms kb)). \<forall>j \<in> set es. j < length (map fst (flow_lines lines syms kb))"
  by (auto simp: flow_lines_def dest: flow_line_bound)

lemma analyze_control_flow_total: "\<exists>ds. analyze_control_flow lines syms kb level = Ok ds"
proof (cases "lines = []")
  case False
  then have "map fst (flow_lines lines syms kb) \<noteq> []" by (metis flow_lines_length length_0_conv map_is_Nil_conv)
  from reach_loop_exact [OF flow_edges_bound this] show ?thesis
    by (cases "unused_severity level") (simp_all add: analyze_control_flow_def Let_def o_expect_def)
qed (simp add: analyze_control_flow_def)

lemma analyze_total: "\<exists>a. analyze lines syms kb level = Ok a"
proof -
  obtain ds where "analyze_control_flow lines syms kb level = Ok ds" using analyze_control_flow_total by blast
  then show ?thesis unfolding analyze_def Let_def by (simp only: obind.simps) blast
qed

lemma parse_total: "\<exists>d. parse_with_options source kb level = Ok d"
proof -
  obtain syms ds where d: "collect_declarations kb (document_lines source) = (syms, ds)" by fastforce
  obtain a where "analyze (document_lines source) syms kb level = Ok a" using analyze_total by blast
  then show ?thesis unfolding parse_with_options_def Let_def d by (simp only: prod.case obind.simps) blast
qed

lemma map_filter_if: "List.map_filter (\<lambda>x. if P x then Some (f x) else None) xs = map f (filter P xs)"
  by (induction xs) (simp_all add: List.map_filter_simps)

lemma unreachable_diagnostics_eq:
  assumes "length lines = n"
  shows "unreachable_diagnostics sev lines (map P [0..<n]) =
    map (\<lambda>i. diag (pl_code_span (lines ! i)) sev ''unreachable-code'' ''This line cannot be reached from the program entry point.'' True)
      (filter (\<lambda>i. pl_kind (lines ! i) \<noteq> LEmpty \<and> \<not> P i) [0..<n])"
proof -
  have "zip lines (map P [0..<n]) = map (\<lambda>i. (lines ! i, P i)) [0..<n]"
    using assms by (intro nth_equalityI) auto
  then show ?thesis
    by (simp add: unreachable_diagnostics_def List.map_filter_def filter_map comp_def)
      (rule map_cong [OF filter_cong], auto)
qed

subsection \<open>Chains\<close>

lemma symbol_chain_0 [simp]: "symbol_chain syms 0 s = Some s"
  by (simp add: symbol_chain_def)

lemma symbol_chain_Suc:
  "symbol_chain syms (Suc n) s = Option.bind (symbol_chain syms n s) (\<lambda>x. Option.bind (sym_value x) (bt_get syms))"
  by (simp add: symbol_chain_def)

lemma symbol_chain_first:
  "symbol_chain syms (Suc n) s = Option.bind (Option.bind (sym_value s) (bt_get syms)) (symbol_chain syms n)"
proof (induction n)
  case (Suc n)
  then show ?case by (simp add: symbol_chain_Suc [of syms "Suc n"] symbol_chain_Suc [of syms n] Option.bind_assoc)
qed (simp add: symbol_chain_Suc)

lemma symbol_chain_add:
  "symbol_chain syms m s = Some x \<Longrightarrow> symbol_chain syms (m + n) s = symbol_chain syms n x"
  by (induction n) (simp_all add: symbol_chain_Suc)

lemma symbol_chain_mono: "symbol_chain syms n s = None \<Longrightarrow> n \<le> m \<Longrightarrow> symbol_chain syms m s = None"
  by (induction m) (auto simp: symbol_chain_Suc le_Suc_eq)

lemma loop_never_ends:
  assumes "symbol_chain syms k s = Some s" "0 < k"
  shows "symbol_chain syms n s \<noteq> None"
proof -
  have "symbol_chain syms (m * k) s = Some s" for m
    by (induction m) (simp_all add: symbol_chain_add [OF assms(1)])
  moreover have "n \<le> n * k" using assms(2) by simp
  ultimately show ?thesis using symbol_chain_mono [of syms n s "n * k"] by auto
qed

lemma cycle_scan_ends: "\<not> cycle_scan syms seen s \<Longrightarrow> \<exists>n. symbol_chain syms n s = None"
proof (induction syms seen s rule: cycle_scan.induct)
  case (1 syms seen current)
  show ?case
  proof (cases "Option.bind (sym_value current) (bt_get syms)")
    case None
    then show ?thesis by (intro exI [of _ "Suc 0"]) (simp add: symbol_chain_Suc)
  next
    case (Some following)
    then obtain nn where nn: "sym_value current = Some nn" "bt_get syms nn = Some following" by (auto simp: bind_eq_Some_conv)
    then obtain n where "symbol_chain syms n following = None"
      using "1.IH" [OF nn] "1.prems" by (auto simp: cycle_scan.simps [of syms seen current] split: if_splits)
    then show ?thesis using Some by (intro exI [of _ "Suc n"]) (simp add: symbol_chain_first)
  qed
qed

lemma cycle_scan_loops:
  assumes "symbols_named syms" "cycle_scan syms seen s" "bt_get syms (sym_name s) = Some s"
    and "\<forall>name \<in> set seen. \<exists>x k. bt_get syms name = Some x \<and> 0 < k \<and> symbol_chain syms k x = Some s"
  shows "symbol_chain syms n s \<noteq> None"
  using assms
proof (induction syms seen s arbitrary: n rule: cycle_scan.induct)
  case (1 syms seen current)
  from "1.prems"(2) obtain nn following where nn: "sym_value current = Some nn" "bt_get syms nn = Some following"
    by (auto simp: cycle_scan.simps [of syms seen current] split: option.splits)
  show ?case
  proof (cases "sym_name current \<in> set seen")
    case True
    then show ?thesis using "1.prems"(3,4) loop_never_ends by fastforce
  next
    case False
    have scan: "cycle_scan syms (sym_name current # seen) following"
      using "1.prems"(2) nn False by (simp add: cycle_scan.simps [of syms seen current])
    have "sym_name following = nn" using "1.prems"(1) nn(2) by (auto simp: symbols_named_def bt_get_def dest!: map_of_SomeD)
    then have named: "bt_get syms (sym_name following) = Some following" using nn(2) by simp
    have one: "symbol_chain syms (Suc 0) current = Some following" using nn by (simp add: symbol_chain_Suc)
    have "\<exists>x k. bt_get syms name = Some x \<and> 0 < k \<and> symbol_chain syms k x = Some following"
      if mem: "name \<in> set (sym_name current # seen)" for name
    proof (cases "name = sym_name current")
      case True
      then show ?thesis using "1.prems"(3) one by blast
    next
      case False
      then obtain x k where "bt_get syms name = Some x" "0 < k" "symbol_chain syms k x = Some current" using mem "1.prems"(4) by auto
      then show ?thesis using nn by (intro exI [of _ x] exI [of _ "Suc k"]) (simp add: symbol_chain_Suc)
    qed
    then have "symbol_chain syms m following \<noteq> None" for m using "1.IH" [OF nn False "1.prems"(1) scan named] by blast
    then show ?thesis using one by (cases n) (auto simp: symbol_chain_first nn)
  qed
qed

lemma named_lookup: "symbols_named syms \<Longrightarrow> bt_get syms name = Some s \<Longrightarrow> sym_name s = name"
  by (auto simp: symbols_named_def bt_get_def dest!: map_of_SomeD)

lemma symbols_named_lookup:
  assumes "symbols_named syms" "bt_wf syms" "s \<in> set (bt_values syms)"
  shows "bt_get syms (sym_name s) = Some s"
proof -
  obtain k where k: "(k, s) \<in> set syms" using assms(3) by auto
  then have "sym_name s = k" using assms(1) by (auto simp: symbols_named_def)
  then show ?thesis using k assms(2) by (simp add: bt_get_def bt_wf_def strict_sorted_iff)
qed

lemma cycle_scan_exact:
  assumes "symbols_named syms" "bt_wf syms" "s \<in> set (bt_values syms)"
  shows "cycle_scan syms [] s \<longleftrightarrow> (\<forall>n. symbol_chain syms n s \<noteq> None)"
  using cycle_scan_ends [of syms "[]" s] cycle_scan_loops [OF assms(1) _ symbols_named_lookup [OF assms]]
  by (metis empty_iff empty_set)

lemma declare_lines_named:
  "bt_wf (fst st) \<Longrightarrow> symbols_named (fst st) \<Longrightarrow>
     bt_wf (fst (fold (declare_line kb) lines st)) \<and> symbols_named (fst (fold (declare_line kb) lines st))"
proof (induction lines arbitrary: st)
  case (Cons line lines)
  obtain syms ds where st: "st = (syms, ds)" by fastforce
  have "bt_wf (fst (declare_line kb line st)) \<and> symbols_named (fst (declare_line kb line st))"
    using Cons.prems set_bt_insert_subset [of _ _ syms]
    by (auto simp: st fst_declare_line symbols_named_def intro: wf_intros split: option.split if_splits)
  then show ?case using Cons.IH by simp
qed simp

lemma collect_declarations_named:
  assumes "collect_declarations kb lines = (syms, ds)"
  shows "bt_wf syms" "symbols_named syms"
  using declare_lines_named [of "(bt_empty, [])" kb lines] assms
  by (simp_all add: collect_declarations_def symbols_named_def bt_wf_def bt_empty_def)

lemma declare_line_diagnostics: "\<exists>new. snd (declare_line kb line st) = snd st @ new"
  by (cases st) (auto simp: declare_line_def insert_symbol_def Let_def split: line_kind.split option.split list.split)

lemma declare_lines_diagnostics: "\<exists>new. snd (fold (declare_line kb) lines st) = snd st @ new"
proof (induction lines arbitrary: st)
  case (Cons line lines)
  obtain a b where "snd (declare_line kb line st) = snd st @ a"
    "snd (fold (declare_line kb) lines (declare_line kb line st)) = snd (declare_line kb line st) @ b"
    using declare_line_diagnostics Cons.IH by meson
  then show ?case by simp
qed simp

lemma insert_symbol_diagnostics: "\<exists>new. snd (insert_symbol e (syms, ds)) = ds @ new"
  by (auto simp: insert_symbol_def split: option.split)

lemma declare_known_line:
  assumes "pl_kind line = LInstruction mnemonic operands" "instruction kb (tok_text mnemonic) = Some info"
  shows "\<exists>new. snd (declare_line kb line (syms, ds)) =
    (ds @ analyze_literal_macros operands @ instruction_diagnostics mnemonic operands info) @ new"
  unfolding declare_line_def Let_def assms line_kind.case option.case prod.case
  by (auto split: list.split option.split) (metis insert_symbol_diagnostics append_assoc)+

lemma declare_bad_line:
  assumes "pl_kind line = LInstruction mnemonic operands"
    and "case instruction kb (tok_text mnemonic) of None \<Rightarrow> True | Some info \<Rightarrow> length operands \<noteq> length (in_operands info)"
  shows "\<exists>d \<in> set (snd (declare_line kb line st)). dg_severity d = SevError"
proof -
  obtain syms ds where st: "st = (syms, ds)" by fastforce
  show ?thesis
  proof (cases "instruction kb (tok_text mnemonic)")
    case None
    then show ?thesis by (simp add: st declare_line_def assms(1) Let_def)
  next
    case (Some info)
    then have "\<exists>d \<in> set (instruction_diagnostics mnemonic operands info). dg_severity d = SevError"
      using assms(2) by (simp add: instruction_diagnostics_def)
    then show ?thesis using declare_known_line [OF assms(1) Some, of syms ds] by (fastforce simp: st)
  qed
qed

lemma collect_declarations_clean:
  assumes "\<forall>d \<in> set (snd (collect_declarations kb lines)). dg_severity d \<noteq> SevError" "line \<in> set lines"
    and "pl_kind line = LInstruction mnemonic operands"
  shows "\<exists>info. instruction kb (tok_text mnemonic) = Some info \<and> length operands = length (in_operands info)"
proof (rule ccontr)
  assume bad: "\<not> ?thesis"
  from assms(2) obtain before after where lines: "lines = before @ line # after" by (auto simp: in_set_conv_decomp)
  let ?st = "fold (declare_line kb) before (bt_empty, [])"
  have "\<exists>d \<in> set (snd (declare_line kb line ?st)). dg_severity d = SevError"
    using declare_bad_line [OF assms(3), of kb ?st] bad by (auto split: option.splits)
  moreover obtain new where "snd (collect_declarations kb lines) = snd (declare_line kb line ?st) @ new"
    using declare_lines_diagnostics [of kb after "declare_line kb line ?st"] by (auto simp: collect_declarations_def lines)
  ultimately show False using assms(1) by auto
qed

lemma compile_source_Ok:
  assumes "compile_source path source kb mapping = Ok p"
  shows "\<exists>diagnostics. program_compile path source diagnostics mapping = Ok p \<and>
    (\<forall>d \<in> set diagnostics. dg_severity d \<noteq> SevError) \<and> set (snd (collect_declarations kb (document_lines source))) \<subseteq> set diagnostics"
proof -
  obtain d where d: "document_parse source kb = Ok d" using parse_total [of source kb UnusedHint] by (auto simp: document_parse_def)
  obtain syms ds where decl: "collect_declarations kb (document_lines source) = (syms, ds)" by fastforce
  have sub: "set ds \<subseteq> set (doc_diagnostics d)"
    using d by (auto simp: document_parse_def parse_with_options_def Let_def decl obind_eq_Ok)
  have p: "program_compile path source (doc_diagnostics d) mapping = Ok p" using assms d by (simp add: compile_source_def)
  then have "filter (\<lambda>x. dg_severity x = SevError) (doc_diagnostics d) = []"
    by (auto simp: program_compile_def Let_def split: if_splits)
  then show ?thesis using p sub decl by (auto simp: filter_empty_conv)
qed

text \<open>Accepted programs: every operation is a known instruction with as many operands as the language defines.\<close>

lemma compiled_operation:
  assumes "compile_source path source kb mapping = Ok p" "(k, op) \<in> set (p_operations p)"
  shows "\<exists>name info. instruction kb name = Some info \<and> o_mnemonic op = to_ascii_lowercase name \<and>
    length (o_operands op) = length (in_operands info) \<and> (name \<in> {''define'', ''alias''} \<longrightarrow> length (o_operands op) < 2)"
proof -
  obtain diagnostics where c: "program_compile path source diagnostics mapping = Ok p"
    "\<forall>d \<in> set (snd (collect_declarations kb (document_lines source))). dg_severity d \<noteq> SevError"
    using compile_source_Ok [OF assms(1)] by blast
  obtain p0 where p: "p = fold compile_line (document_lines source) p0" and p0: "p_operations p0 = []"
    using c(1) by (auto simp: program_compile_def Let_def bt_empty_def split: if_splits)
  have "set (p_operations (fold compile_line lines q)) \<subseteq>
      set (p_operations q) \<union> {(pl_number l, o') | l o'. l \<in> set lines \<and> line_operation l = Some o'}" for lines q
  proof (induction lines arbitrary: q)
    case (Cons l lines)
    then show ?case using set_bt_insert_subset [of "pl_number l" _ "p_operations q"]
      by (fastforce simp: compile_line_operations split: option.splits)
  qed simp
  then obtain line where line: "line \<in> set (document_lines source)" "line_operation line = Some op"
    using assms(2) p p0 by fastforce
  then obtain mnemonic operands where kind: "pl_kind line = LInstruction mnemonic operands"
    and op: "op = \<lparr>o_line = pl_number line, o_mnemonic = to_ascii_lowercase (tok_text mnemonic), o_operands = map tok_text operands\<rparr>"
    and small: "tok_text mnemonic \<in> {''define'', ''alias''} \<longrightarrow> length operands < 2"
    by (auto simp: line_operation_def not_le split: line_kind.splits if_splits)
  then show ?thesis using collect_declarations_clean [OF c(2) line(1) kind] by auto
qed

section \<open>Properties\<close>

text \<open>The analyser accepts every source text: parsing and analysing a document returns for every source, every
  language data and every diagnostic level; in particular the reachability search never indexes a line that does not
  exist.\<close>

theorem document_parse_total: "\<exists>d. parse_with_options source kb level = Ok d \<and> doc_lines d = document_lines source"
proof -
  obtain d where "parse_with_options source kb level = Ok d" using parse_total by blast
  then show ?thesis by (auto simp: parse_with_options_def Let_def obind_eq_Ok split: prod.splits)
qed

text \<open>C27: The unreachable-code diagnostics are exact: when no branch target is only known at run time, a line that is
  not empty is reported if and only if no path of the control-flow graph leads to it from the first line, and the
  reports come in line order after the other control-flow diagnostics.\<close>

theorem unreachable_code_exact:
  assumes "lines \<noteq> []" "unused_severity level = Some sev"
    and "\<not> list_ex (\<lambda>(_, _, dynamic). dynamic) (flow_lines lines syms kb)"
  shows "analyze_control_flow lines syms kb level =
    Ok (concat (map (\<lambda>(_, ds, _). ds) (flow_lines lines syms kb)) @ analyze_return_address_clobbering lines syms kb @
        map (\<lambda>i. diag (pl_code_span (lines ! i)) sev ''unreachable-code''
               ''This line cannot be reached from the program entry point.'' True)
          (filter (\<lambda>i. pl_kind (lines ! i) \<noteq> LEmpty \<and> (0, i) \<notin> (edge_relation (map fst (flow_lines lines syms kb)))\<^sup>*)
             [0..<length lines]))"
proof -
  have "map fst (flow_lines lines syms kb) \<noteq> []" using assms(1) by (metis flow_lines_length length_0_conv map_is_Nil_conv)
  note reach = reach_loop_exact [OF flow_edges_bound this]
  show ?thesis using assms unreachable_diagnostics_eq [OF refl, of sev lines]
    by (simp add: analyze_control_flow_def Let_def reach [simplified] o_expect_def)
qed

theorem unreachable_code_exact_witness:
  "analyze_control_flow [sample_line 0 ''hcf'' [], sample_line 1 ''yield'' []] [] analysis_kb UnusedHint =
     Ok [diag (new_span 1 1) SevHint ''unreachable-code'' ''This line cannot be reached from the program entry point.'' True]"
proof -
  let ?lines = "[sample_line 0 ''hcf'' [], sample_line 1 ''yield'' []]"
  have flow: "flow_lines ?lines [] analysis_kb = [([], [], False), ([], [], False)]"
    by (simp add: flow_lines_def flow_line_def sample_line_def is_branch_def is_absolute_branch_def starts_with_def fall_through_def)
  have clobber: "analyze_return_address_clobbering ?lines [] analysis_kb = []"
    by (simp add: analyze_return_address_clobbering_def clobber_line_def sample_line_def is_link_branch_def ends_with_def strip_suffix_def)
  have "edge_relation [[], []] = {}" by (auto simp: edge_relation_def nth_Cons split: nat.splits)
  then show ?thesis
    using unreachable_code_exact [of ?lines UnusedHint SevHint "[]" analysis_kb] flow clobber
    by (simp add: unused_severity_def) (simp add: sample_line_def upt_rec)
qed

text \<open>C29: Circular definitions are found exactly: among the symbols a source declares, the cycle diagnostic is reported
  for those whose chain of alias and define values never leaves the symbol table, each once and in the order of
  their names, and for no others.\<close>

theorem symbol_cycles_exact:
  assumes "collect_declarations kb lines = (syms, ds)"
  shows "validate_symbol_cycles syms =
    map (\<lambda>s. diag (case sym_value_span s of Some sp \<Rightarrow> sp | None \<Rightarrow> sym_span s) SevError ''symbol-cycle''
             (tick_quote (sym_name s) @ '' is part of a circular alias or define chain.'') False)
      (filter (\<lambda>s. \<forall>n. symbol_chain syms n s \<noteq> None) (bt_values syms))"
proof -
  have "filter (cycle_scan syms []) (bt_values syms) = filter (\<lambda>s. \<forall>n. symbol_chain syms n s \<noteq> None) (bt_values syms)"
    using cycle_scan_exact [OF collect_declarations_named(2,1) [OF assms]] by (intro filter_cong) auto
  then show ?thesis by (simp add: validate_symbol_cycles_def map_filter_if)
qed

theorem symbol_cycles_exact_witness:
  "\<exists>syms ds. collect_declarations analysis_kb [sample_line 0 ''alias'' [''a'', ''b''], sample_line 1 ''alias'' [''b'', ''a'']] = (syms, ds) \<and>
     filter (\<lambda>s. \<forall>n. symbol_chain syms n s \<noteq> None) (bt_values syms) \<noteq> []"
proof -
  let ?lines = "[sample_line 0 ''alias'' [''a'', ''b''], sample_line 1 ''alias'' [''b'', ''a'']]"
  obtain syms ds where decl: "collect_declarations analysis_kb ?lines = (syms, ds)" by fastforce
  have "validate_symbol_cycles (fst (collect_declarations analysis_kb ?lines)) \<noteq> []" by code_simp
  then have "validate_symbol_cycles syms \<noteq> []" unfolding decl by simp
  then show ?thesis unfolding symbol_cycles_exact [OF decl] using decl by auto
qed

end
