(* ===== verification/Build_Correct.thy ===== *)
theory Build_Correct
  imports Build Source_Words Analysis_Correct
begin

text \<open>
  What a readable build preserves. The lines that stay are related to the source by their words; the targets of
  literal branches are followed through the removal of lines.
\<close>

section \<open>Vocabulary\<close>

definition strip_newline :: "string \<Rightarrow> string" where
  "strip_newline l = (case strip_suffix [CHR 0x0A] l of Some t \<Rightarrow> t | None \<Rightarrow> l)"

definition kept_lines :: "string \<Rightarrow> usize list" where
  "kept_lines s = filter (\<lambda>k. line_words (document_lines s ! k) \<noteq> []) [0..<length (source_lines s)]"

definition kept_line :: "string \<Rightarrow> usize \<Rightarrow> output_line" where
  "kept_line s k =
     (let text = trim (code_part (source_lines s ! k))
      in case pl_kind (document_lines s ! k) of
           LInstruction mnemonic operands \<Rightarrow>
             \<lparr>out_source_line = k, out_text = text, out_mnemonic = Some (to_ascii_lowercase (tok_text mnemonic)),
              out_operands = map tok_text operands\<rparr>
         | _ \<Rightarrow> \<lparr>out_source_line = k, out_text = text, out_mnemonic = None, out_operands = []\<rparr>)"

text \<open>
  The branches of the instruction set, by the meaning of their last operand when the simulator executes them: a line number, or
  an offset from the line of the branch. The build moves the targets of all of them but four.
\<close>

definition line_branches :: "string list" where
  "line_branches = [''j'', ''jal'',
     ''beq'', ''beqal'', ''beqz'', ''beqzal'', ''bne'', ''bneal'', ''bnez'', ''bnezal'',
     ''bge'', ''bgeal'', ''bgez'', ''bgezal'', ''bgt'', ''bgtal'', ''bgtz'', ''bgtzal'',
     ''ble'', ''bleal'', ''blez'', ''blezal'', ''blt'', ''bltal'', ''bltz'', ''bltzal'',
     ''bnan'', ''bap'', ''bapal'', ''bapz'', ''bapzal'', ''bna'', ''bnaal'', ''bnaz'', ''bnazal'',
     ''bdnsal'', ''bdseal'', ''bdns'', ''bdse'', ''bdnvl'', ''bdnvs'']"

definition offset_branches :: "string list" where
  "offset_branches = [''jr'', ''breq'', ''breqz'', ''brne'', ''brnez'', ''brge'', ''brgez'', ''brgt'', ''brgtz'',
     ''brle'', ''brlez'', ''brlt'', ''brltz'', ''brnan'', ''brap'', ''brapz'', ''brna'', ''brnaz'', ''brdns'', ''brdse'']"

definition unmoved_branches :: "string list" where
  "unmoved_branches = [''bdns'', ''bdse'', ''bdnvl'', ''bdnvs'']"

text \<open>No other mnemonic looks like a branch, that is, begins with \<open>b\<close>.\<close>

definition known_branch :: "string list \<Rightarrow> bool" where
  "known_branch ws = (case ws of
     m # _ \<Rightarrow> starts_with ''b'' (to_ascii_lowercase m) \<longrightarrow> to_ascii_lowercase m \<in> set (line_branches @ offset_branches)
   | [] \<Rightarrow> True)"

text \<open>Where a line with a literal branch target sends the program, as a line number; the words are those of line \<open>k\<close>.\<close>

definition literal_destination :: "usize \<Rightarrow> string list \<Rightarrow> int option" where
  "literal_destination k ws =
     (case ws of
        m # ops \<Rightarrow>
          (if ops = [] then None
           else if to_ascii_lowercase m \<in> set offset_branches
           then map_option (\<lambda>v. int k + as_isize v) (literal_target (last ops))
           else if to_ascii_lowercase m \<in> set line_branches then map_option as_isize (literal_target (last ops))
           else None)
      | [] \<Rightarrow> None)"

definition names_label :: "symbols \<Rightarrow> string list \<Rightarrow> bool" where
  "names_label syms ws \<longleftrightarrow>
     to_ascii_lowercase (hd ws) \<in> set line_branches \<and>
     (case bt_get syms (last ws) of Some s \<Rightarrow> sym_kind s = SLabel | None \<Rightarrow> False)"

text \<open>
  What a build may do to a line: source line \<open>k\<close> with the words \<open>ws\<close> becomes generated line \<open>g\<close> with the words
  \<open>ws'\<close>. A literal branch leads to the first line kept at or after its target, everything else stays; so do the four branches on
  devices that the build does not take for branches, although their targets are line numbers.
\<close>

definition line_preserved :: "usize list \<Rightarrow> symbols \<Rightarrow> usize \<Rightarrow> usize \<Rightarrow> string list \<Rightarrow> usize \<Rightarrow> string list \<Rightarrow> bool" where
  "line_preserved kept syms n k ws g ws' \<longleftrightarrow>
     (case literal_destination k ws of
        None \<Rightarrow> ws' = ws
      | Some t \<Rightarrow>
          if names_label syms ws \<or> to_ascii_lowercase (hd ws) \<in> set unmoved_branches then ws' = ws
          else 0 \<le> t \<and> t < int n \<and> butlast ws' = butlast ws \<and>
               (\<exists>t' < length kept. literal_destination g ws' = Some (int t') \<and> t \<le> int (kept ! t') \<and>
                  (\<forall>i < t'. int (kept ! i) < t)))"

definition clean_text :: "string \<Rightarrow> bool" where
  "clean_text t \<longleftrightarrow> t \<noteq> [] \<and> \<not> is_whitespace (last t) \<and> balanced t \<and> comment_start t = None \<and> CHR 0x0A \<notin> set t"

text \<open>The last loop on a line whose target is a literal.\<close>

definition branch_origin :: "string \<Rightarrow> usize \<Rightarrow> f64 \<Rightarrow> int" where
  "branch_origin m k v = (if is_relative_branch m then isize_add (int k) (as_isize v) else as_isize v)"

definition branch_offset :: "string \<Rightarrow> usize \<Rightarrow> usize \<Rightarrow> int" where
  "branch_offset m target g = (if is_relative_branch m then int target - int g else int target)"

definition build_kb :: knowledge_base where
  "build_kb = analysis_kb\<lparr>language := (language analysis_kb)\<lparr>lang_instructions :=
     [(''j'', (sample_info 1)\<lparr>in_operands := [\<lparr>op_label = ''operand1'', operand_type = ''int'', op_display = ''int''\<rparr>]\<rparr>),
      (''yield'', sample_info 0)]\<rparr>\<rparr>"

definition sample_program_text :: string where
  "sample_program_text = ''start:'' @ [CHR 0x0A] @ ''# wait'' @ [CHR 0x0A] @ ''  j start'' @ [CHR 0x0A]"

section \<open>The lines of the source\<close>

lemma strip_newline_Cons: "c \<noteq> CHR 0x0A \<or> l \<noteq> [] \<Longrightarrow> strip_newline (c # l) = c # strip_newline l"
  by (cases l rule: rev_cases) (auto simp: strip_newline_def strip_suffix_def)

lemma split_terminator_eq: "split_terminator s = map strip_newline (split_inclusive s)"
proof (induction s)
  case (Cons c cs)
  show ?case
  proof (cases "c = CHR 0x0A")
    case True
    then show ?thesis using Cons by (simp add: strip_newline_def strip_suffix_def)
  next
    case False
    then show ?thesis using Cons strip_newline_Cons [of c]
      by (cases "split_inclusive cs") (simp_all add: strip_newline_def strip_suffix_def)
  qed
qed simp

lemma source_lines_eq: "source_lines s = map line_text (split_inclusive s)"
  by (simp add: source_lines_def split_terminator_eq line_text_def strip_newline_def Let_def split: option.split)

lemma length_source_lines: "length (source_lines s) = length (split_inclusive s)"
  by (simp add: source_lines_eq)

lemma source_lines_le: "length (source_lines s) \<le> length (document_lines s)"
  by (simp add: length_source_lines document_lines_def Let_def)

lemma source_lines_no_newline: "l \<in> set (source_lines s) \<Longrightarrow> CHR 0x0A \<notin> set l"
  by (auto simp: source_lines_eq line_text_no_newline)

section \<open>The lines that stay\<close>

lemma kept_line_source [simp]: "out_source_line (kept_line s k) = k"
  by (simp add: kept_line_def Let_def split: line_kind.split)

lemma kept_line_text [simp]: "out_text (kept_line s k) = trim (code_part (source_lines s ! k))"
  by (simp add: kept_line_def Let_def split: line_kind.split)

lemma source_line_words:
  "k < length (source_lines s) \<Longrightarrow> line_words (document_lines s ! k) = text_words (code_part (source_lines s ! k))"
  using parse_lines_line [of k "split_inclusive s" 0 0]
  by (simp add: document_line_nth source_lines_eq)

lemma output_line_of_source:
  assumes "k < length (source_lines s)"
  shows "output_line_of k (document_lines s ! k) (source_lines s ! k)
    = (if line_words (document_lines s ! k) = [] then None else Some (kept_line s k))"
proof -
  have k: "k < length (split_inclusive s)" using assms by (simp add: length_source_lines)
  let ?raw = "source_lines s ! k"
  have "pl_comment_span (document_lines s ! k) = map_option (\<lambda>i. new_span (sp_start (pl_span (document_lines s ! k)) + i)
      (sp_end (pl_span (document_lines s ! k)))) (comment_start ?raw)"
    using parse_lines_line [OF k, of 0 0] k by (simp add: document_line_nth source_lines_eq)
  moreover have "i \<le> length ?raw" if "comment_start ?raw = Some i" for i
    using comment_scan_Some [of 0 False False ?raw i] that by (simp add: comment_start_def)
  ultimately have code: "(case pl_comment_span (document_lines s ! k) of None \<Rightarrow> ?raw
      | Some sp \<Rightarrow> (let n = sp_start sp - sp_start (pl_span (document_lines s ! k)) in if n \<le> length ?raw then take n ?raw else ?raw))
      = code_part ?raw"
    by (auto simp: code_part_def new_span_def Let_def split: option.splits)
  have "trim (trim (code_part ?raw)) = [] \<longleftrightarrow> line_words (document_lines s ! k) = []"
    using source_line_words [OF assms] text_words_empty_iff by (simp add: trim_trim_Nil)
  then show ?thesis by (simp only: output_line_of_def code Let_def [of "trim (code_part ?raw)"] kept_line_def split: if_split)
qed

lemma map_filter_cong_set: "(\<And>x. x \<in> set xs \<Longrightarrow> f x = g x) \<Longrightarrow> List.map_filter f xs = List.map_filter g xs"
  by (induction xs) (auto simp: map_filter_simps split: option.split)

lemma map_filter_map: "List.map_filter f (map g xs) = List.map_filter (\<lambda>x. f (g x)) xs"
  by (induction xs) (auto simp: map_filter_simps split: option.split)

lemma output_lines_source: "output_lines (document_lines s) (source_lines s) = map (kept_line s) (kept_lines s)"
proof -
  let ?n = "length (source_lines s)"
  have zip: "indexed_lines (document_lines s) (source_lines s)
      = map (\<lambda>k. (k, document_lines s ! k, source_lines s ! k)) [0..<?n]"
    by (rule nth_equalityI) (auto simp: indexed_lines_def document_lines_split length_source_lines)
  have "output_lines (document_lines s) (source_lines s)
      = List.map_filter (\<lambda>k. if line_words (document_lines s ! k) \<noteq> [] then Some (kept_line s k) else None) [0..<?n]"
    unfolding output_lines_def zip map_filter_map by (rule map_filter_cong_set) (simp add: output_line_of_source)
  then show ?thesis by (simp add: kept_lines_def map_filter_if)
qed

section \<open>Branch targets\<close>

lemma generated_line_map_snoc:
  "generated_line_map n (out @ [x]) = (generated_line_map n out)[out_source_line x := Some (length out)]"
  by (simp add: generated_line_map_def)

lemma length_generated_line_map [simp]: "length (generated_line_map n out) = n"
proof (induction out rule: rev_induct)
  case (snoc x out)
  then show ?case by (simp add: generated_line_map_snoc)
qed (simp add: generated_line_map_def)

lemma line_map_nth:
  assumes "distinct (map out_source_line out)" "s < n"
  shows "generated_line_map n out ! s = Some g \<longleftrightarrow> g < length out \<and> out_source_line (out ! g) = s"
  using assms
proof (induction out rule: rev_induct)
  case (snoc x out)
  have fresh: "out_source_line (out ! i) \<noteq> out_source_line x" if "i < length out" for i
    using snoc.prems(1) nth_mem [OF that] by (auto simp: image_iff)
  have IH: "generated_line_map n out ! s = Some g \<longleftrightarrow> g < length out \<and> out_source_line (out ! g) = s" using snoc by simp
  show ?case
  proof (cases "s = out_source_line x")
    case True
    then show ?thesis using snoc.prems(2) fresh by (auto simp: generated_line_map_snoc nth_append less_Suc_eq)
  next
    case False
    then show ?thesis using IH by (auto simp: generated_line_map_snoc nth_append less_Suc_eq)
  qed
qed (simp add: generated_line_map_def)

text \<open>The translation of a target is the first line that stays at or after it.\<close>

lemma translate_target_Some:
  assumes "sorted_wrt (<) (map out_source_line out)" "list_all (\<lambda>l. out_source_line l < n) out" "t \<le> n"
    and "translate_target t (generated_line_map n out) = Some g"
  shows "g < length out \<and> t \<le> out_source_line (out ! g) \<and> (\<forall>i<g. out_source_line (out ! i) < t)"
proof -
  have dist: "distinct (map out_source_line out)" using assms(1) strict_sorted_iff by blast
  let ?m = "generated_line_map n out"
  obtain i where i: "i < length (drop t ?m)" "drop t ?m ! i = Some g" "\<forall>j<i. drop t ?m ! j = None"
    using assms(3,4) by (auto simp: translate_target_def find_Some_iff split: option.splits)
  have g: "g < length out" "out_source_line (out ! g) = t + i"
    using line_map_nth [OF dist, of "t + i" n g] i(1,2) by auto
  have "out_source_line (out ! j) < t" if "j < g" for j
  proof (rule ccontr)
    assume "\<not> out_source_line (out ! j) < t"
    then obtain d where d: "out_source_line (out ! j) = t + d" using le_Suc_ex by (metis not_less)
    have "out_source_line (out ! j) < out_source_line (out ! g)"
      using assms(1) that g(1) by (simp add: sorted_wrt_map sorted_wrt_iff_nth_less)
    then have "d < i" using d g(2) by simp
    then have "?m ! (t + d) = None" using i(1,3) by (metis length_drop less_diff_conv less_trans nth_drop add.commute length_generated_line_map assms(3))
    moreover have "?m ! (t + d) = Some j" using line_map_nth [OF dist, of "t + d" n j] d that g(1) i(1) \<open>d < i\<close> by simp
    ultimately show False by simp
  qed
  then show ?thesis using g by simp
qed

section \<open>Numbers as words\<close>

lemma digits_neq: "list_all is_digit ds \<Longrightarrow> \<not> list_all is_digit w \<Longrightarrow> ds \<noteq> w"
  by auto

lemma digits_no_prefix: "list_all is_digit ds \<Longrightarrow> \<not> list_all is_digit p \<Longrightarrow> strip_prefix p ds = None"
  by (auto simp: strip_prefix_eq_None)

lemma show_nat_all_digits: "list_all is_digit (show_nat n)"
  using show_nat_digits by (auto simp: list_all_iff)

lemma lower_digits: "list_all is_digit ds \<Longrightarrow> to_ascii_lowercase ds = ds"
  by (induction ds) (auto simp: to_ascii_lowercase_def to_lower_char_def is_digit_def is_upper_def)

lemma digit_word: "is_digit c \<Longrightarrow> \<not> is_whitespace c \<and> c \<noteq> CHR 0x22 \<and> c \<noteq> CHR ''#''"
  by (auto simp: is_digit_def is_whitespace_def code_def)

lemma parse_decimal_digits: "parse_decimal (show_nat n) = Some (int n, 0)"
proof -
  have "takeWhile is_digit (show_nat n) = show_nat n" "dropWhile is_digit (show_nat n) = []"
    using show_nat_all_digits by (auto simp: takeWhile_eq_all_conv dropWhile_eq_Nil_conv list_all_iff)
  then show ?thesis unfolding parse_decimal_def Let_def
    by (simp only: list.case prod.case append_Nil2 parse_show_nat option.case parse_exponent_def)
      (simp add: show_nat_nonempty)
qed

lemma decimal_of_int: "f64_of_decimal (a < 0) \<bar>a\<bar> 0 = f64_of_int a"
  by (simp add: f64_of_decimal_def f64_of_int_def)

lemma not_digits: "\<not> list_all is_digit ''nan''" "\<not> list_all is_digit ''inf''" "\<not> list_all is_digit ''infinity''"
  "\<not> list_all is_digit ''pinf''" "\<not> list_all is_digit ''+inf''" "\<not> list_all is_digit ''+infinity''"
  "\<not> list_all is_digit ''ninf''" "\<not> list_all is_digit ''-inf''" "\<not> list_all is_digit ''-infinity''"
  "\<not> list_all is_digit ''$''" "\<not> list_all is_digit ''0x''" "\<not> list_all is_digit ''0X''"
  "\<not> list_all is_digit ''%''" "\<not> list_all is_digit ''0b''" "\<not> list_all is_digit ''0B''" "\<not> list_all is_digit ''-''"
  by (simp_all add: is_digit_def code_def)

lemma parse_f64_show_int: "parse_f64 (show_int a) = Some (f64_of_int a)"
proof -
  let ?ds = "show_nat (nat \<bar>a\<bar>)"
  note ds = show_nat_all_digits [of "nat \<bar>a\<bar>"]
  have neq: "?ds \<noteq> ''nan''" "?ds \<noteq> ''inf''" "?ds \<noteq> ''infinity''"
    using digits_neq [OF ds] not_digits by blast+
  have rest: "map_option (\<lambda>(m, e). f64_of_decimal (a < 0) m e) (parse_decimal ?ds) = Some (f64_of_int a)"
    using decimal_of_int [of a] by (simp add: parse_decimal_digits)
  show ?thesis
  proof (cases "a < 0")
    case True
    then show ?thesis using rest neq lower_digits [OF ds] by (simp add: parse_f64_def show_int.simps Let_def)
  next
    case False
    obtain c cs where c: "?ds = c # cs" using show_nat_nonempty by (metis neq_Nil_conv)
    then have "c \<noteq> CHR ''-''" "c \<noteq> CHR ''+''" using ds by (auto simp: is_digit_def code_def)
    moreover have "show_int a = ?ds" using False by (simp add: show_int.simps)
    ultimately show ?thesis using False rest neq lower_digits [OF ds] c by (auto simp: parse_f64_def Let_def)
  qed
qed

lemma parse_literal_show_int: "parse_numeric_literal (show_int a) = Some (f64_of_int a)"
proof -
  let ?ds = "show_nat (nat \<bar>a\<bar>)"
  note ds = show_nat_all_digits [of "nat \<bar>a\<bar>"]
  have none: "first_prefix [''$'', ''0x'', ''0X''] ?ds = None" "first_prefix [''%'', ''0b'', ''0B''] ?ds = None"
    using digits_no_prefix [OF ds] not_digits by (simp_all add: first_prefix_def)
  show ?thesis
  proof (cases "a < 0")
    case True
    then have s: "show_int a = CHR ''-'' # ?ds" by (simp add: show_int.simps)
    have "?ds \<noteq> ''inf''" "?ds \<noteq> ''infinity''" using digits_neq [OF ds] not_digits by blast+
    then show ?thesis using none parse_f64_show_int [of a] lower_digits [OF ds] unfolding s
      by (simp add: parse_numeric_literal_def Let_def to_ascii_lowercase_def to_lower_char_def is_upper_def code_def)
  next
    case False
    then have s: "show_int a = ?ds" by (simp add: show_int.simps)
    have "?ds \<noteq> w" if "\<not> list_all is_digit w" for w using digits_neq [OF ds that] .
    then show ?thesis using none parse_f64_show_int [of a] digits_no_prefix [OF ds, of "''-''"] not_digits unfolding s
      by (simp add: parse_numeric_literal_def Let_def lower_digits [OF ds])
  qed
qed

lemma fract_of_int: "\<bar>a\<bar> < 2 ^ 53 \<Longrightarrow> f64_fract (f64_of_int a) = f64_of_int 0"
proof -
  assume a: "\<bar>a\<bar> < 2 ^ 53"
  note t = trunc_finite [OF finite_of_int [OF a]]
  have "sunits (f64_trunc (f64_of_int a)) = sunits (f64_of_int a)"
    using t units_of_int [OF a] by (simp add: sunits_def)
  then show ?thesis unfolding f64_fract_def f64_sub_def
    using t finite_of_int [OF a] by (intro f64_add_exact_int) auto
qed

lemma literal_show_int: "\<bar>a\<bar> < 2 ^ 53 \<Longrightarrow> literal_target (show_int a) = Some (f64_of_int a)"
  by (simp add: literal_target_def parse_literal_show_int finite_of_int fract_of_int f64_zero_of_int cmp_of_int)

lemma as_isize_of_int: "\<bar>a\<bar> < 2 ^ 53 \<Longrightarrow> as_isize (f64_of_int a) = a"
  by (simp add: as_isize_def saturate_of_int)

lemma plain_show_int: "plain_word (show_int a)"
proof -
  have "list_all (\<lambda>c. \<not> is_whitespace c \<and> c \<noteq> CHR 0x22 \<and> c \<noteq> CHR ''#'') (show_nat n)" for n
    using show_nat_all_digits [of n] digit_word by (auto simp: list_all_iff)
  then show ?thesis
    by (auto simp: plain_word_def show_int.simps show_nat_nonempty is_whitespace_def code_def)
qed

section \<open>Replacing the last word\<close>

lemma rfind_suffix: "w \<noteq> [] \<Longrightarrow> rfind w (p @ w) = Some (length p)"
proof -
  assume "w \<noteq> []"
  have short: "\<not> starts_with w (drop (length (p @ w) - j) (p @ w))" if "j < length w" for j
  proof
    assume "starts_with w (drop (length (p @ w) - j) (p @ w))"
    then obtain r where "drop (length (p @ w) - j) (p @ w) = w @ r" by (auto simp: starts_with_iff)
    then have "length (drop (length (p @ w) - j) (p @ w)) \<ge> length w" by simp
    then show False using that by simp
  qed
  show ?thesis unfolding rfind_def find_Some_iff
  proof (intro exI [of _ "length w"] conjI allI impI)
    show "length w < length (rev [0..<Suc (length (p @ w))])" by simp
    show "length p = rev [0..<Suc (length (p @ w))] ! length w" by (simp add: rev_nth del: upt_Suc)
    then show "starts_with w (drop (rev [0..<Suc (length (p @ w))] ! length w) (p @ w))"
      by (metis append_eq_conv_conj append_Nil2 starts_with_iff)
    fix j assume "j < length w"
    then have "rev [0..<Suc (length (p @ w))] ! j = length (p @ w) - j" by (simp add: rev_nth del: upt_Suc)
    then show "\<not> starts_with w (drop (rev [0..<Suc (length (p @ w))] ! j) (p @ w))" using short [OF \<open>j < length w\<close>] by metis
  qed
qed

lemma replace_last_token_suffix:
  assumes "w \<noteq> []" "\<not> is_whitespace (last (p @ w))"
  shows "replace_last_token (p @ w) w new = Ok (p @ new)"
proof -
  have "trim_end (p @ w) = p @ w"
    using assms by (cases w rule: rev_cases) (auto simp: trim_end_def)
  then show ?thesis using rfind_suffix [OF assms(1)] by (simp add: replace_last_token_def Let_def)
qed

lemma as_isize_bounds: "- (2 ^ 63) \<le> as_isize v" "as_isize v \<le> 2 ^ 63 - 1"
  by (auto simp: as_isize_def saturate_def)

lemma isize_add_exact:
  assumes "k < 2 ^ 53" "0 \<le> isize_add (int k) (as_isize v)"
  shows "isize_add (int k) (as_isize v) = int k + as_isize v"
proof -
  let ?x = "int k + as_isize v + 2 ^ 63"
  have x: "0 \<le> ?x" "?x < 2 ^ 64 + 2 ^ 53" using as_isize_bounds [of v] assms(1) by auto
  have "?x < 2 ^ 64"
  proof (rule ccontr)
    assume "\<not> ?x < 2 ^ 64"
    then have "(?x - 2 ^ 64) mod 2 ^ 64 = ?x - 2 ^ 64" using x by (intro mod_pos_pos_trivial) simp_all
    then have "?x mod 2 ^ 64 = ?x - 2 ^ 64" unfolding minus_mod_self2 .
    then have "isize_add (int k) (as_isize v) = ?x - 2 ^ 64 - 2 ^ 63" by (simp only: isize_add_def)
    then show False using assms(2) x(2) by simp
  qed
  then show ?thesis using x(1) by (simp add: isize_add_def)
qed

lemma length_split_inclusive_le: "length (split_inclusive s) \<le> length s"
proof (induction s)
  case (Cons c cs)
  then show ?case by (auto split: list.splits)
qed simp

lemma kept_lines_sorted: "sorted_wrt (<) (kept_lines s)"
  by (simp add: kept_lines_def sorted_wrt_filter)

lemma kept_lines_less: "k \<in> set (kept_lines s) \<Longrightarrow> k < length (source_lines s) \<and> line_words (document_lines s ! k) \<noteq> []"
  by (auto simp: kept_lines_def)

lemma kept_line_clean:
  assumes "k \<in> set (kept_lines s)" "balanced (code_part (source_lines s ! k))"
  shows "clean_text (out_text (kept_line s k))" "text_words (out_text (kept_line s k)) = line_words (document_lines s ! k)"
proof -
  let ?c = "code_part (source_lines s ! k)"
  have k: "k < length (source_lines s)" "line_words (document_lines s ! k) \<noteq> []" using kept_lines_less [OF assms(1)] by auto
  have "trim ?c \<noteq> []" using k source_line_words text_words_empty_iff by metis
  moreover have "CHR 0x0A \<notin> set (trim ?c)"
  proof -
    have "CHR 0x0A \<notin> set (source_lines s ! k)" using k(1) source_lines_no_newline nth_mem by blast
    moreover have "set (trim ?c) \<subseteq> set ?c" using trim_decomp [of ?c] by (metis Un_iff set_append subsetI)
    moreover have "set ?c \<subseteq> set (source_lines s ! k)" by (auto simp: code_part_def dest: in_set_takeD)
    ultimately show ?thesis by blast
  qed
  ultimately show "clean_text (out_text (kept_line s k))"
    using trim_last [of ?c] balanced_trim [OF assms(2)] comment_start_trim [OF comment_start_code_part]
    by (simp add: clean_text_def)
  show "text_words (out_text (kept_line s k)) = line_words (document_lines s ! k)"
    using text_words_trim [OF assms(2)] source_line_words [OF k(1)] by simp
qed

lemma clean_text_replace:
  assumes "clean_text t"
  shows "replace_last_token t (last (text_words t)) (show_int a) = Ok r \<Longrightarrow>
    clean_text r \<and> text_words r = butlast (text_words t) @ [show_int a]"
    "\<exists>r. replace_last_token t (last (text_words t)) (show_int a) = Ok r"
proof -
  obtain p where p: "t = p @ last (text_words t)" "p = [] \<or> is_whitespace (last p)" "balanced p"
    "text_words p = butlast (text_words t)" "last (text_words t) \<noteq> []"
    using last_word [of t] assms unfolding clean_text_def by metis
  have eq: "replace_last_token t (last (text_words t)) (show_int a) = Ok (p @ show_int a)"
    using replace_last_token_suffix [OF p(5), of p] p(1) assms unfolding clean_text_def by metis
  then show "\<exists>r. replace_last_token t (last (text_words t)) (show_int a) = Ok r" by blast
  have "comment_start p = None" "CHR 0x0A \<notin> set p"
    using assms comment_start_prefix [of p] p(1) unfolding clean_text_def by (metis, metis UnI1 set_append)
  moreover have "\<not> is_whitespace (last (show_int a))" "show_int a \<noteq> []" "CHR 0x0A \<notin> set (show_int a)"
    using plain_show_int [of a] newline_blank by (auto simp: plain_word_def list_all_iff)
  ultimately have "clean_text (p @ show_int a) \<and> text_words (p @ show_int a) = butlast (text_words t) @ [show_int a]"
    using replace_last_word [OF p(2,3) plain_show_int] p(4) by (simp add: clean_text_def)
  then show "replace_last_token t (last (text_words t)) (show_int a) = Ok r \<Longrightarrow>
    clean_text r \<and> text_words r = butlast (text_words t) @ [show_int a]" using eq by simp
qed

lemma kept_line_instruction:
  assumes "pl_kind (document_lines s ! k) = LInstruction m ops"
  shows "out_mnemonic (kept_line s k) = Some (to_ascii_lowercase (tok_text m))"
    "out_operands (kept_line s k) = map tok_text ops"
  using assms by (simp_all add: kept_line_def)

lemma kept_line_other:
  assumes "\<And>m ops. pl_kind (document_lines s ! k) \<noteq> LInstruction m ops"
  shows "out_mnemonic (kept_line s k) = None" "literal_destination k (line_words (document_lines s ! k)) = None"
  using assms by (cases "pl_kind (document_lines s ! k)"; simp add: kept_line_def literal_destination_def)+

lemma branch_mnemonics:
  assumes "known_branch (m # ops)"
  shows "to_ascii_lowercase m \<in> set offset_branches \<longleftrightarrow> is_relative_branch (to_ascii_lowercase m)"
    "is_absolute_branch (to_ascii_lowercase m) \<longleftrightarrow>
       to_ascii_lowercase m \<in> set line_branches \<and> to_ascii_lowercase m \<notin> set unmoved_branches"
    "to_ascii_lowercase m \<in> set unmoved_branches \<Longrightarrow> \<not> is_relative_branch (to_ascii_lowercase m)"
proof -
  show "to_ascii_lowercase m \<in> set unmoved_branches \<Longrightarrow> \<not> is_relative_branch (to_ascii_lowercase m)"
    by (auto simp: unmoved_branches_def is_relative_branch_def starts_with_iff)
  have lists: "list_all is_relative_branch offset_branches"
    "list_all (\<lambda>m. is_absolute_branch m \<longleftrightarrow> m \<notin> set unmoved_branches) line_branches"
    "list_all (\<lambda>m. \<not> is_relative_branch m) line_branches" "list_all (\<lambda>m. \<not> is_absolute_branch m) offset_branches"
    "''jr'' \<in> set offset_branches" "''j'' \<in> set line_branches" "''jal'' \<in> set line_branches" by code_simp+
  let ?m = "to_ascii_lowercase m"
  have known: "starts_with ''b'' ?m \<Longrightarrow> ?m \<in> set line_branches \<or> ?m \<in> set offset_branches"
    using assms by (simp add: known_branch_def)
  have b: "starts_with ''b'' x" if "starts_with ''br'' x" for x using that by (auto simp: starts_with_iff)
  show "?m \<in> set offset_branches \<longleftrightarrow> is_relative_branch ?m"
  proof
    assume "is_relative_branch ?m"
    then have "?m = ''jr'' \<or> starts_with ''b'' ?m" using b by (auto simp: is_relative_branch_def)
    then show "?m \<in> set offset_branches"
      using lists(3,5) known \<open>is_relative_branch ?m\<close> by (auto simp: list_all_iff)
  qed (use lists(1) in \<open>simp add: list_all_iff\<close>)
  show "is_absolute_branch ?m \<longleftrightarrow> ?m \<in> set line_branches \<and> ?m \<notin> set unmoved_branches"
  proof
    assume a: "is_absolute_branch ?m"
    then have "?m = ''j'' \<or> ?m = ''jal'' \<or> starts_with ''b'' ?m" by (auto simp: is_absolute_branch_def)
    then have "?m \<in> set line_branches" using a lists(4,6,7) known by (auto simp: list_all_iff)
    then show "?m \<in> set line_branches \<and> ?m \<notin> set unmoved_branches" using a lists(2) by (auto simp: list_all_iff)
  qed (use lists(2) in \<open>auto simp: list_all_iff\<close>)
qed

lemma adjust_branch_literal:
  assumes "out_mnemonic line = Some m" "out_operands line \<noteq> []" "is_relative_branch m \<or> is_absolute_branch m"
    and "\<not> (is_absolute_branch m \<and> (case doc_symbol d (last (out_operands line)) of Some s \<Rightarrow> sym_kind s = SLabel | None \<Rightarrow> False))"
    and "literal_target (last (out_operands line)) = Some v"
    and "adjust_branch d n line_map tc {} g line = Ok (line', ch)"
  obtains gt where "0 \<le> branch_origin m (out_source_line line) v" "branch_origin m (out_source_line line) v < int n"
    "translate_target (nat (branch_origin m (out_source_line line) v)) line_map = Some gt"
    "as_isize v = branch_offset m gt g \<and> line' = line \<or>
     replace_last_token (out_text line) (last (out_operands line)) (show_int (branch_offset m gt g)) = Ok (out_text line') \<and>
     out_source_line line' = out_source_line line"
proof -
  let ?o = "branch_origin m (out_source_line line) v"
  have step: "adjust_branch d n line_map tc {} g line =
      (if ?o < 0 \<or> n \<le> nat ?o then
         Err (build_failure ''branch-out-of-range'' (''Branch target '' @ show_int ?o @ '' is outside the source.'')
           (Some (out_source_line line + 1)))
       else case translate_target (nat ?o) line_map of
         None \<Rightarrow> Err (build_failure ''unmappable-branch'' ''Branch target has no generated destination.''
           (Some (out_source_line line + 1)))
       | Some gt \<Rightarrow>
           (if branch_offset m gt g \<noteq> as_isize v then
              obind (replace_last_token (out_text line) (last (out_operands line)) (show_int (branch_offset m gt g))) (\<lambda>text.
                Ok (line\<lparr>out_text := text, out_operands := butlast (out_operands line) @ [show_int (branch_offset m gt g)]\<rparr>, True))
            else Ok (line, False)))"
    using assms(1-5) unfolding adjust_branch_def Let_def branch_origin_def branch_offset_def
    by (simp only: option.case if_False if_True) auto
  have range: "\<not> (?o < 0 \<or> n \<le> nat ?o)" using assms(6) unfolding step by (auto split: if_splits)
  then obtain gt where gt: "translate_target (nat ?o) line_map = Some gt"
    using assms(6) unfolding step by (auto split: if_splits option.splits)
  have "Ok (line', ch) = (if branch_offset m gt g \<noteq> as_isize v then
              obind (replace_last_token (out_text line) (last (out_operands line)) (show_int (branch_offset m gt g))) (\<lambda>text.
                Ok (line\<lparr>out_text := text, out_operands := butlast (out_operands line) @ [show_int (branch_offset m gt g)]\<rparr>, True))
            else Ok (line, False))"
    using assms(6) range gt unfolding step by simp
  then have "as_isize v = branch_offset m gt g \<and> line' = line \<or>
     replace_last_token (out_text line) (last (out_operands line)) (show_int (branch_offset m gt g)) = Ok (out_text line') \<and>
     out_source_line line' = out_source_line line"
    by (auto simp: obind_eq_Ok split: if_splits dest!: sym [of "Ok _"])
  moreover have "0 \<le> ?o" "?o < int n" using range by linarith+
  ultimately show ?thesis using gt by (intro that)
qed

lemma adjust_kept_line:
  assumes "g < length (kept_lines s)" "k = kept_lines s ! g" "balanced (code_part (source_lines s ! k))" "length s < 2 ^ 53"
    and "doc_symbols d = syms" "out = map (kept_line s) (kept_lines s)" "n = length (source_lines s)"
    and "adjust_branch d n (generated_line_map n out) tc {} g (kept_line s k) = Ok (line', ch)"
    and "known_branch (line_words (document_lines s ! k))"
  shows "out_source_line line' = k \<and> clean_text (out_text line') \<and>
    line_preserved (kept_lines s) syms n k (line_words (document_lines s ! k)) g (text_words (out_text line'))"
proof -
  have k: "k \<in> set (kept_lines s)" "k < n" using assms(1,2,7) kept_lines_less nth_mem by metis+
  note clean = kept_line_clean [OF k(1) assms(3)]
  have n: "n < 2 ^ 53" using assms(4,7) length_split_inclusive_le [of s] by (simp add: length_source_lines)
  define ws where "ws = line_words (document_lines s ! k)"
  let ?stays = "literal_destination k ws = None \<or> names_label syms ws \<or> to_ascii_lowercase (hd ws) \<in> set unmoved_branches"
  have same: ?thesis if "line' = kept_line s k" ?stays
    using that clean by (auto simp: line_preserved_def ws_def split: option.splits)
  show ?thesis
  proof (cases ?stays)
    case True
    have "line' = kept_line s k"
    proof (cases "pl_kind (document_lines s ! k)")
      case (LInstruction m ops)
      have "known_branch (tok_text m # map tok_text ops)" using assms(9) by (simp add: LInstruction)
      note branch = branch_mnemonics [OF this]
      show ?thesis
        using assms(8) True kept_line_instruction [OF LInstruction] assms(5) branch LInstruction
        by (auto simp: adjust_branch_def ws_def literal_destination_def names_label_def doc_symbol_def Let_def last_map
            split: if_splits option.splits)
    qed (use assms(8) kept_line_other(1) [of s k] in \<open>auto simp: adjust_branch_def\<close>)
    then show ?thesis using same True by blast
  next
    case False
    then obtain m ops where kind: "pl_kind (document_lines s ! k) = LInstruction m ops"
      using kept_line_other(2) [of s k] ws_def by blast
    have ws: "ws = tok_text m # map tok_text ops" by (simp add: ws_def kind)
    let ?m = "to_ascii_lowercase (tok_text m)" and ?line = "kept_line s k"
    have "known_branch (tok_text m # map tok_text ops)" using assms(9) by (simp add: kind)
    note branch = branch_mnemonics [OF this]
    note line = kept_line_instruction [OF kind]
    obtain v where v: "literal_target (last (map tok_text ops)) = Some v" "ops \<noteq> []"
      "is_relative_branch ?m \<or> is_absolute_branch ?m"
      using False by (auto simp: literal_destination_def ws branch(1,2) split: if_splits)
    have last: "last (out_operands ?line) = last ws" using v(2) by (simp add: line ws)
    have nolabel: "\<not> (is_absolute_branch ?m \<and> (case doc_symbol d (last (out_operands ?line)) of Some s \<Rightarrow> sym_kind s = SLabel | None \<Rightarrow> False))"
      using False last assms(5) by (auto simp: names_label_def ws doc_symbol_def branch(2))
    let ?o = "branch_origin ?m k v"
    obtain gt where gt: "0 \<le> ?o" "?o < int n" "translate_target (nat ?o) (generated_line_map n out) = Some gt"
      "as_isize v = branch_offset ?m gt g \<and> line' = ?line \<or>
       replace_last_token (out_text ?line) (last (out_operands ?line)) (show_int (branch_offset ?m gt g)) = Ok (out_text line') \<and>
       out_source_line line' = k"
    proof -
      have "out_operands ?line \<noteq> []" "literal_target (last (out_operands ?line)) = Some v" using v(1,2) line(2) by simp_all
      from adjust_branch_literal [OF line(1) this(1) v(3) nolabel this(2) assms(8), unfolded kept_line_source] show ?thesis using that by blast
    qed
    let ?a = "branch_offset ?m gt g"
    have dest: "literal_destination k ws = Some ?o"
      using v isize_add_exact [of k v] gt(1) k(2) n by (auto simp: literal_destination_def ws branch_origin_def branch(1,2))
    have src: "map out_source_line out = kept_lines s" by (simp add: assms(6) o_def)
    have target: "gt < length (kept_lines s)" "?o \<le> int (kept_lines s ! gt)" "\<forall>i<gt. int (kept_lines s ! i) < ?o"
    proof -
      have "gt < length out \<and> nat ?o \<le> out_source_line (out ! gt) \<and> (\<forall>i<gt. out_source_line (out ! i) < nat ?o)"
      proof (rule translate_target_Some [OF _ _ _ gt(3)])
        show "sorted_wrt (<) (map out_source_line out)" using kept_lines_sorted src by simp
        show "list_all (\<lambda>l. out_source_line l < n) out" using kept_lines_less assms(6,7) by (auto simp: list_all_iff)
        show "nat ?o \<le> n" using gt(1,2) by linarith
      qed
      moreover have "out_source_line (out ! i) = kept_lines s ! i" if "i < length out" for i using that assms(6) by simp
      moreover have "length out = length (kept_lines s)" using assms(6) by simp
      ultimately show "gt < length (kept_lines s)" "?o \<le> int (kept_lines s ! gt)" "\<forall>i<gt. int (kept_lines s ! i) < ?o"
        using gt(1) by (auto simp: nat_le_iff zless_nat_eq_int_zless)
    qed
    have "length (kept_lines s) \<le> n" by (metis assms(7) kept_lines_def length_filter_le length_upt minus_nat.diff_0)
    then have small: "\<bar>?a\<bar> < 2 ^ 53" using target(1) assms(1) n by (auto simp: branch_offset_def)
    have words: "clean_text (out_text line') \<and> out_source_line line' = k \<and> butlast (text_words (out_text line')) = butlast ws \<and>
        (\<exists>w. text_words (out_text line') = butlast ws @ [w] \<and> map_option as_isize (literal_target w) = Some ?a)"
    proof -
      consider "as_isize v = ?a" "line' = ?line" |
        "replace_last_token (out_text ?line) (last (text_words (out_text ?line))) (show_int ?a) = Ok (out_text line')"
        "out_source_line line' = k" using gt(4) last clean(2) ws_def by metis
      then show ?thesis
      proof cases
        case 1
        have "ws = butlast ws @ [last ws]" by (simp add: ws)
        then show ?thesis using 1 clean v last line(2) by (auto simp: ws_def intro!: exI [of _ "last ws"])
      next
        case 2
        then show ?thesis using clean_text_replace(1) [OF clean(1) 2(1)] clean(2) small
          by (auto simp: ws_def literal_show_int as_isize_of_int)
      qed
    qed
    then obtain w where w: "text_words (out_text line') = butlast ws @ [w]" "map_option as_isize (literal_target w) = Some ?a" by blast
    have "literal_destination g (text_words (out_text line')) = Some (int gt)"
      using w v(2,3) by (auto simp: literal_destination_def ws branch_offset_def branch(1,2) split: if_splits)
    then show ?thesis using words target gt(1,2) dest False unfolding line_preserved_def ws_def [symmetric] by auto
  qed
qed

lemma adjust_branches_nth:
  assumes "adjust_branches d n line_map tc label_lines i out = Ok (out', r, a)"
  shows "length out' = length out \<and>
    (\<forall>g < length out. \<exists>ch. adjust_branch d n line_map tc label_lines (i + g) (out ! g) = Ok (out' ! g, ch))"
  using assms
proof (induction out arbitrary: i out' r a)
  case (Cons line rest)
  obtain line' ch rest' r' a' where *: "adjust_branch d n line_map tc label_lines i line = Ok (line', ch)"
    "adjust_branches d n line_map tc label_lines (Suc i) rest = Ok (rest', r', a')" "out' = line' # rest'"
    using Cons.prems by (auto simp: obind_eq_Ok split: prod.splits)
  have IH: "length rest' = length rest"
    "\<And>g. g < length rest \<Longrightarrow> \<exists>ch. adjust_branch d n line_map tc label_lines (Suc i + g) (rest ! g) = Ok (rest' ! g, ch)"
    using Cons.IH [OF *(2)] by auto
  have "\<exists>ch. adjust_branch d n line_map tc label_lines (i + g) ((line # rest) ! g) = Ok (out' ! g, ch)"
    if "g < length (line # rest)" for g
    using that * IH(2) by (cases g) auto
  then show ?case using *(3) IH(1) by simp
qed simp

lemma join_lines_source:
  assumes "list_all (\<lambda>l. clean_text (out_text l)) out"
  shows "split_inclusive (join_lines out) = map (\<lambda>l. out_text l @ [CHR 0x0A]) out"
    "source_lines (join_lines out) = map out_text out"
    "g < length out \<Longrightarrow> line_words (document_lines (join_lines out) ! g) = text_words (out_text (out ! g))"
proof -
  have split: "split_inclusive (join_lines out) = map (\<lambda>l. out_text l @ [CHR 0x0A]) out"
    using split_inclusive_join [of "map out_text out"] assms by (auto simp: join_lines_def o_def list_all_iff clean_text_def)
  then show "split_inclusive (join_lines out) = map (\<lambda>l. out_text l @ [CHR 0x0A]) out" .
  have unended: "line_text (out_text l @ [CHR 0x0A]) = out_text l" if "l \<in> set out" for l
    using that assms by (intro line_text_newline) (auto simp: list_all_iff clean_text_def)
  show lines: "source_lines (join_lines out) = map out_text out" by (simp add: source_lines_eq split unended)
  show "line_words (document_lines (join_lines out) ! g) = text_words (out_text (out ! g))" if "g < length out"
    using source_line_words [of g "join_lines out"] that assms lines code_part_self
    by (simp add: list_all_length clean_text_def)
qed

section \<open>New names\<close>

lemma fresh_alias_fresh: "fresh_alias occupied candidate \<notin> set occupied"
  by (induction occupied candidate rule: fresh_alias.induct) (subst fresh_alias.simps, simp)

lemma fresh_alias_form: "\<exists>n. fresh_alias occupied candidate = replicate n (CHR ''a'') @ candidate"
proof (induction occupied candidate rule: fresh_alias.induct)
  case (1 occupied candidate)
  show ?case
  proof (cases "candidate \<in> set occupied")
    case True
    then obtain n where "fresh_alias occupied (CHR ''a'' # candidate) = replicate n (CHR ''a'') @ CHR ''a'' # candidate" using 1 by blast
    then show ?thesis using True by (subst fresh_alias.simps) (auto simp: replicate_app_Cons_same intro!: exI [of _ "Suc n"])
  next
    case False
    then show ?thesis by (subst fresh_alias.simps) (auto intro!: exI [of _ 0])
  qed
qed

lemma show_nat_inject: "show_nat m = show_nat n \<longleftrightarrow> m = n"
  by (metis nat_int option.inject parse_show_nat)

lemma fresh_alias_inject:
  "fresh_alias occupied (''a'' @ show_nat m) = fresh_alias occupied (''a'' @ show_nat n) \<Longrightarrow> m = n"
proof -
  assume eq: "fresh_alias occupied (''a'' @ show_nat m) = fresh_alias occupied (''a'' @ show_nat n)"
  have "dropWhile (\<lambda>c. c = CHR ''a'') (fresh_alias occupied (''a'' @ show_nat k)) = show_nat k" for k
  proof -
    obtain j where j: "fresh_alias occupied (''a'' @ show_nat k) = replicate j (CHR ''a'') @ ''a'' @ show_nat k"
      using fresh_alias_form by blast
    obtain c cs where c: "show_nat k = c # cs" using show_nat_nonempty by (metis neq_Nil_conv)
    then have "c \<noteq> CHR ''a''" using show_nat_all_digits [of k] by (auto simp: is_digit_def code_def)
    then have "dropWhile (\<lambda>c. c = CHR ''a'') (replicate j (CHR ''a'') @ ''a'' @ show_nat k) = show_nat k"
      unfolding c by (induction j) simp_all
    then show ?thesis by (simp only: j)
  qed
  then show ?thesis using eq show_nat_inject by metis
qed

section \<open>Properties\<close>

text \<open>C26: A readable build is the source program. Its lines are the source lines that have code, in order, and the source
  map names them; every word of them is unchanged, except that a literal branch target is moved so that the branch
  leads to the first remaining line at or after its old target. Whether a line is a branch, and of which kind, is
  what the simulator makes of it. The branches \<open>bdns\<close>, \<open>bdse\<close>, \<open>bdnvl\<close> and \<open>bdnvs\<close> are an exception, a fault of the build: their
  literal targets stay as they are. (No line may end inside a quotation, the source is shorter than \<open>2 ^ 53\<close> bytes, so that line
  numbers are exact as \<open>f64\<close>, and no mnemonic but the branches of the instruction set begins with \<open>b\<close>.)\<close>

theorem readable_build_preserves:
  assumes "build sha256 tool_version source options kb = Ok out" "bo_optimization options = OptReadable"
    and "list_all (\<lambda>l. balanced (code_part l)) (source_lines source)" "length source < 2 ^ 53"
    and "list_all (\<lambda>line. known_branch (line_words line)) (document_lines source)"
  shows "map sm_source_line (bo_source_map out) = map Suc (kept_lines source) \<and>
    map sm_generated_line (bo_source_map out) = [1..<Suc (length (kept_lines source))] \<and>
    length (source_lines (bo_code out)) = length (kept_lines source) \<and>
    (\<forall>g < length (kept_lines source).
       line_preserved (kept_lines source) (fst (collect_declarations kb (document_lines source))) (length (source_lines source))
         (kept_lines source ! g) (line_words (document_lines source ! (kept_lines source ! g)))
         g (line_words (document_lines (bo_code out) ! g)))"
proof -
  let ?n = "length (source_lines source)" and ?kept = "kept_lines source"
  have checked: "build_checked sha256 tool_version source options kb = Ok out"
    using assms(1) by (auto simp: build_def split: option.splits if_splits)
  then obtain d where d: "document_parse source kb = Ok d" by (auto simp: build_checked_def split: outcome.splits)
  have doc: "doc_source d = source" "doc_lines d = document_lines source"
    "doc_symbols d = fst (collect_declarations kb (document_lines source))"
    using d by (auto simp: document_parse_def parse_with_options_def Let_def obind_eq_Ok split: prod.splits)
  let ?out = "map (kept_line source) ?kept"
  obtain lines r a counts where lines:
    "adjust_branches d ?n (generated_line_map ?n ?out) (length ?out \<noteq> ?n) {} 0 ?out = Ok (lines, r, a)"
    "finish sha256 tool_version source (join_lines lines) (map out_source_line lines) options kb counts = Ok out"
    using checked d assms(2) doc
    by (auto simp: build_checked_def build_lines_def Let_def obind_eq_Ok output_lines_source split: if_splits prod.splits)
  note nth = adjust_branches_nth [OF lines(1)]
  have line: "out_source_line (lines ! g) = ?kept ! g \<and> clean_text (out_text (lines ! g)) \<and>
      line_preserved ?kept (doc_symbols d) ?n (?kept ! g) (line_words (document_lines source ! (?kept ! g))) g
        (text_words (out_text (lines ! g)))" if g: "g < length ?kept" for g
  proof -
    have "?kept ! g < ?n" using kept_lines_less nth_mem [OF g] by blast
    then have "balanced (code_part (source_lines source ! (?kept ! g)))" using assms(3) by (simp add: list_all_length)
    moreover obtain ch where "adjust_branch d ?n (generated_line_map ?n ?out) (length ?out \<noteq> ?n) {} g (kept_line source (?kept ! g))
        = Ok (lines ! g, ch)" using nth g by auto
    moreover have "known_branch (line_words (document_lines source ! (?kept ! g)))"
      using assms(5) \<open>?kept ! g < ?n\<close> source_lines_le [of source] by (simp add: list_all_length)
    ultimately show ?thesis using adjust_kept_line [OF g refl _ assms(4) refl refl refl] by blast
  qed
  have len: "length lines = length ?kept" using nth by simp
  have clean: "list_all (\<lambda>l. clean_text (out_text l)) lines" using line len by (simp add: list_all_length)
  note join = join_lines_source [OF clean]
  have "map out_source_line lines = ?kept" by (rule nth_equalityI) (simp_all add: len line)
  moreover have "(if join_lines lines = [] then 0 else line_count (join_lines lines)) = length ?kept"
    using join(1) len by (auto simp: line_count_def split_inclusive_Nil_iff [symmetric] simp del: split_inclusive_Nil_iff)
  ultimately have out: "bo_code out = join_lines lines"
    "bo_source_map out = map (\<lambda>(generated, l). \<lparr>sm_generated_line = generated + 1, sm_source_line = l + 1\<rparr>)
       (zip [0..<length ?kept] ?kept)"
    using lines(2) by (auto simp: finish_def Let_def split: if_splits)
  have "map sm_source_line (bo_source_map out) = map Suc ?kept" by (rule nth_equalityI) (simp_all add: out(2))
  moreover have "map sm_generated_line (bo_source_map out) = [1..<Suc (length ?kept)]"
    by (rule nth_equalityI) (simp_all add: out(2) del: upt_Suc)
  moreover have "line_preserved ?kept (doc_symbols d) ?n (?kept ! g) (line_words (document_lines source ! (?kept ! g))) g
      (line_words (document_lines (bo_code out) ! g))" if "g < length ?kept" for g
    using line [OF that] join(3) [of g] that len out(1) by simp
  ultimately show ?thesis using join(2) len out(1) doc(3) by simp
qed

lemma sample_build:
  "case build (\<lambda>_. '''') ''1'' sample_program_text default_build_options build_kb of
     Ok out \<Rightarrow> bo_code out = ''start:'' @ [CHR 0x0A] @ ''j start'' @ [CHR 0x0A] | _ \<Rightarrow> False"
  by code_simp

theorem readable_build_preserves_witness:
  "\<exists>out. build (\<lambda>_. '''') ''1'' sample_program_text default_build_options build_kb = Ok out \<and>
     bo_code out = ''start:'' @ [CHR 0x0A] @ ''j start'' @ [CHR 0x0A] \<and> map sm_source_line (bo_source_map out) = [1, 3]"
proof -
  obtain out where out: "build (\<lambda>_. '''') ''1'' sample_program_text default_build_options build_kb = Ok out"
    "bo_code out = ''start:'' @ [CHR 0x0A] @ ''j start'' @ [CHR 0x0A]"
    using sample_build by (auto split: outcome.splits)
  have "list_all (\<lambda>l. balanced (code_part l)) (source_lines sample_program_text)" by code_simp
  moreover have "length sample_program_text < 2 ^ 53" by (simp add: sample_program_text_def)
  moreover have "bo_optimization default_build_options = OptReadable" by (simp add: default_build_options_def)
  moreover have "kept_lines sample_program_text = [0, 2]" by code_simp
  moreover have "list_all (\<lambda>line. known_branch (line_words line)) (document_lines sample_program_text)" by code_simp
  ultimately show ?thesis using readable_build_preserves [OF out(1)] out by auto
qed

text \<open>The names a compact build invents for private aliases never clash: no new name is a symbol of the program,
  and different aliases get different names.\<close>

theorem short_aliases_fresh:
  assumes "bt_get (short_aliases d) x = Some u"
  shows "u \<notin> set (bt_keys (doc_symbols d)) \<and> (\<forall>y. bt_get (short_aliases d) y = Some u \<longrightarrow> y = x)"
proof -
  let ?names = "private_aliases d" and ?occ = "bt_keys (doc_symbols d)"
  have member: "\<exists>i < length ?names. ?names ! i = z \<and> w = fresh_alias ?occ (''a'' @ show_nat i)"
    if "bt_get (short_aliases d) z = Some w" for z w
  proof -
    have "(z, w) \<in> set (map (\<lambda>(i, name). (name, fresh_alias ?occ (''a'' @ show_nat i))) (zip [0..<length ?names] ?names))"
      using that unfolding short_aliases_def bt_get_collect by (auto dest!: map_of_SomeD)
    then show ?thesis by (auto simp: in_set_zip) blast
  qed
  obtain i where "?names ! i = x" "u = fresh_alias ?occ (''a'' @ show_nat i)" using member [OF assms] by blast
  then show ?thesis using member fresh_alias_fresh fresh_alias_inject by metis
qed

lemma sample_aliases:
  "case document_parse ''alias _x d0'' analysis_kb of
     Ok d \<Rightarrow> bt_get (short_aliases d) ''_x'' = Some ''a0'' | _ \<Rightarrow> False"
  by code_simp

theorem short_aliases_fresh_witness:
  "\<exists>d. document_parse ''alias _x d0'' analysis_kb = Ok d \<and> bt_get (short_aliases d) ''_x'' = Some ''a0'' \<and>
     ''a0'' \<notin> set (bt_keys (doc_symbols d))"
proof -
  obtain d where d: "document_parse ''alias _x d0'' analysis_kb = Ok d" "bt_get (short_aliases d) ''_x'' = Some ''a0''"
    using sample_aliases by (auto split: outcome.splits)
  then show ?thesis using short_aliases_fresh [OF d(2)] by blast
qed

text \<open>
  The substitution works on the text between blanks, so a define whose name stands alone inside a string literal is
  replaced there too: the checksum of the literal changes, while the operand list keeps the literal as it was.
\<close>

lemma compact_rewrites_literals:
  "let literal = ''HASH('' @ [CHR 0x22] @ ''Tank Limit A'' @ [CHR 0x22] @ '')'';
       line = compact_line [(''Limit'', ''10'')] []
         \<lparr>out_source_line = 0, out_text = ''move r0 '' @ literal, out_mnemonic = Some ''move'', out_operands = [''r0'', literal]\<rparr>
   in out_text line = ''move r0 HASH('' @ [CHR 0x22] @ ''Tank 10 A'' @ [CHR 0x22] @ '')'' \<and>
      out_operands line = [''r0'', literal] \<and> text_words (out_text line) \<noteq> ''move'' # out_operands line"
  by code_simp

end
