(* ===== verification/Format.thy ===== *)
theory Format
  imports Analysis Source_Words
begin

text \<open>
  The formatter: \<open>ic10-core/src/formatting.rs\<close>. It lays every line out anew from its tokens and its comment and
  keeps the kind of line ending and the final newline.
\<close>

section \<open>Model\<close>

record format_options =
  fo_indent_size :: usize
  fo_insert_spaces :: bool
  fo_directives_at_column_zero :: bool

definition default_format_options :: format_options where
  "default_format_options = \<lparr>fo_indent_size = 2, fo_insert_spaces = True, fo_directives_at_column_zero = True\<rparr>"

definition format_indent :: "format_options \<Rightarrow> string" where
  "format_indent options = (if fo_insert_spaces options then replicate (fo_indent_size options) (CHR '' '') else [CHR 0x09])"

definition line_ending :: "string \<Rightarrow> string" where
  "line_ending source = (if contains [CHR 0x0D, CHR 0x0A] source then [CHR 0x0D, CHR 0x0A] else [CHR 0x0A])"

definition span_text :: "string \<Rightarrow> span \<Rightarrow> string" where
  "span_text source sp = slice source (sp_start sp) (sp_end sp)"

text \<open>The code of a line, before its comment is appended.\<close>

definition format_code :: "format_options \<Rightarrow> string \<Rightarrow> parsed_line \<Rightarrow> string" where
  "format_code options source line =
     (case pl_kind line of
        LEmpty \<Rightarrow> if pl_comment_span line \<noteq> None then [] else span_text source (pl_span line)
      | LLabel name \<Rightarrow> tok_text name @ '':''
      | LInstruction mnemonic operands \<Rightarrow>
          (if fo_directives_at_column_zero options \<and> tok_text mnemonic \<in> {''alias'', ''define''} then [] else format_indent options) @
          tok_text mnemonic @ concat (map (\<lambda>operand. CHR '' '' # tok_text operand) operands))"

definition format_line :: "format_options \<Rightarrow> string \<Rightarrow> parsed_line \<Rightarrow> string" where
  "format_line options source line =
     (let formatted = format_code options source line
      in case pl_comment_span line of
           Some sp \<Rightarrow>
             if trim formatted = [] then span_text source sp
             else trim_end formatted @ '' '' @ span_text source sp
         | None \<Rightarrow> trim_end formatted)"

fun join :: "string \<Rightarrow> string list \<Rightarrow> string" where
  "join eol [] = []"
| "join eol [x] = x"
| "join eol (x # y # ys) = x @ eol @ join eol (y # ys)"

definition format_document :: "document \<Rightarrow> format_options \<Rightarrow> string" where
  "format_document d options =
     (let source = doc_source d;
          eol = line_ending source;
          trailing = ends_with [CHR 0x0A] source;
          out = map (format_line options source) (doc_lines d);
          out' = (if trailing \<and> out \<noteq> [] \<and> last out = [] then butlast out else out)
      in join eol out' @ (if trailing then eol else []))"

end
