(* ===== verification/Format_Correct.thy ===== *)
theory Format_Correct
  imports Format Analysis_Correct
begin

text \<open>
  Formatting keeps the program: every line of the formatted text has the words of the source line.
\<close>

section \<open>Vocabulary\<close>

text \<open>A text that the lexer neither splits nor cuts at a comment sign.\<close>

fun unbroken :: "bool \<times> bool \<Rightarrow> string \<Rightarrow> bool" where
  "unbroken st [] = True"
| "unbroken st (c # cs) = (((is_whitespace c \<or> c = CHR ''#'') \<longrightarrow> fst st) \<and> unbroken (quote_step c st) cs)"

definition is_word :: "string \<Rightarrow> bool" where
  "is_word w \<longleftrightarrow> w \<noteq> [] \<and> balanced w \<and> unbroken (False, False) w"

text \<open>Words written one after the other with single blanks between them.\<close>

definition spaced :: "string list \<Rightarrow> string" where
  "spaced ws = concat (map (\<lambda>w. CHR '' '' # w) ws)"

definition strip_return :: "string \<Rightarrow> string" where
  "strip_return x = (case strip_suffix [CHR 0x0D] x of Some t \<Rightarrow> t | None \<Rightarrow> x)"

text \<open>The lines of joined texts are these texts, up to a carriage return at their end.\<close>

definition same_line :: "string \<Rightarrow> string \<Rightarrow> bool" where
  "same_line x y \<longleftrightarrow> y = x \<or> y = strip_return x"

section \<open>Words that stay together\<close>

lemma unbroken_append: "unbroken st (a @ b) \<longleftrightarrow> unbroken st a \<and> unbroken (fold quote_step a st) b"
  by (induction a arbitrary: st) auto

lemma split_unbroken: "unbroken st w \<Longrightarrow> split_words acc st (w @ t) = split_words (acc @ w) (fold quote_step w st) t"
  by (induction w arbitrary: acc st) auto

lemma comment_scan_unbroken: "unbroken (q, e) w \<Longrightarrow> comment_scan i q e w = None"
proof (induction w arbitrary: i q e)
  case (Cons c w)
  obtain q' e' where st: "quote_step c (q, e) = (q', e')" by fastforce
  have "c \<noteq> CHR ''#'' \<or> q \<or> e" using Cons.prems by auto
  then show ?case using comment_scan_step [of c q e i w] st Cons by (simp del: comment_scan.simps)
qed simp

lemma words_split:
  assumes "st = fold quote_step acc (False, False)" "unbroken (False, False) acc"
    and "fold quote_step s st = (False, False)" "comment_scan i (fst st) (snd st) s = None" "w \<in> set (split_words acc st s)"
  shows "is_word w"
  using assms
proof (induction s arbitrary: acc st i)
  case Nil
  then show ?case by (auto simp: is_word_def balanced_def split: if_splits)
next
  case (Cons c s)
  have esc: "snd st \<longrightarrow> fst st" using quote_fold_escaped [of "(False, False)" acc] Cons.prems(1) by simp
  show ?case
  proof (cases "is_whitespace c \<and> \<not> fst st")
    case True
    then have st: "quote_step c st = st" "st = (False, False)" using quote_step_blank_unquoted esc by (auto simp: prod_eq_iff)
    have "c \<noteq> CHR ''#''" using True by (auto simp: is_whitespace_def code_def)
    then have scan: "comment_scan (Suc i) (fst st) (snd st) s = None"
      using Cons.prems(4) comment_scan_step [of c "fst st" "snd st" i s] st by (simp del: comment_scan.simps)
    have "w = acc \<and> acc \<noteq> [] \<or> w \<in> set (split_words [] st s)" using True Cons.prems(5) by (auto split: if_splits)
    then show ?thesis
    proof
      assume "w = acc \<and> acc \<noteq> []"
      then show ?thesis using Cons.prems(1,2) st(2) by (simp add: is_word_def balanced_def)
    next
      assume "w \<in> set (split_words [] st s)"
      then show ?thesis using Cons.IH [of st "[]" "Suc i"] scan Cons.prems(3) st by simp
    qed
  next
    case False
    have hash: "c \<noteq> CHR ''#'' \<or> fst st \<or> snd st"
    proof (rule ccontr)
      assume "\<not> (c \<noteq> CHR ''#'' \<or> fst st \<or> snd st)"
      then show False using Cons.prems(4) by auto
    qed
    obtain q' e' where q: "quote_step c st = (q', e')" by fastforce
    have "comment_scan (Suc i) q' e' s = None"
      using Cons.prems(4) comment_scan_step [OF hash, of i s] q by (simp del: comment_scan.simps)
    moreover have "unbroken (False, False) (acc @ [c])"
      using Cons.prems(1,2) False hash esc by (auto simp: unbroken_append)
    moreover have "w \<in> set (split_words (acc @ [c]) (quote_step c st) s)"
      using Cons.prems(5) unfolding split_words_in_word [OF False] .
    ultimately show ?thesis using Cons.IH [of "quote_step c st" "acc @ [c]" "Suc i"] Cons.prems(1,3) q by simp
  qed
qed

lemma text_words_are_words: "balanced s \<Longrightarrow> comment_start s = None \<Longrightarrow> w \<in> set (text_words s) \<Longrightarrow> is_word w"
  using words_split [of "(False, False)" "[]" s 0 w] by (simp add: text_words_def balanced_def comment_start_def)

lemma is_word_last: "is_word w \<Longrightarrow> \<not> is_whitespace (last w)"
proof
  assume w: "is_word w" "is_whitespace (last w)"
  then obtain x c where x: "w = x @ [c]" by (cases w rule: rev_cases) (auto simp: is_word_def)
  then have "is_whitespace c" using w by simp
  then have "fst (fold quote_step x (False, False))" using w x by (auto simp: is_word_def unbroken_append)
  then show False using w x quote_step_blank [of c "fold quote_step x (False, False)"] \<open>is_whitespace c\<close>
    by (simp add: is_word_def balanced_def)
qed

lemma blank_space: "is_whitespace (CHR '' '')"
  by (simp add: is_whitespace_def code_def)

lemma spaced_props:
  "list_all is_word ws \<Longrightarrow> split_words acc (False, False) (spaced ws) = (if acc = [] then [] else [acc]) @ ws \<and>
   fold quote_step (spaced ws) (False, False) = (False, False) \<and> comment_scan i False False (spaced ws) = None"
proof (induction ws arbitrary: acc i)
  case (Cons w ws)
  have w: "w \<noteq> []" "fold quote_step w (False, False) = (False, False)" "unbroken (False, False) w"
    using Cons.prems by (auto simp: is_word_def balanced_def)
  have s: "quote_step (CHR '' '') (False, False) = (False, False)" by (simp add: quote_step.simps)
  have "split_words acc (False, False) (spaced (w # ws)) = (if acc = [] then [] else [acc]) @ split_words w (False, False) (spaced ws)"
    using split_unbroken [OF w(3), of "[]" "spaced ws"] w(2) blank_space by (simp add: spaced_def)
  moreover have "comment_scan i False False (spaced (w # ws)) = comment_scan (i + length w + 1) False False (spaced ws)"
    using comment_scan_unbroken [OF w(3), of "Suc i"] w(2) by (simp add: spaced_def comment_scan_append)
  ultimately show ?case using Cons w s by (simp add: spaced_def)
qed (simp add: spaced_def)

lemma laid_out_words:
  assumes "list_all is_whitespace indent" "list_all is_word (w # ws)"
  shows "text_words (indent @ w @ spaced ws) = w # ws" "balanced (indent @ w @ spaced ws)"
    "comment_start (indent @ w @ spaced ws) = None" "\<not> is_whitespace (last (indent @ w @ spaced ws))"
proof -
  have w: "w \<noteq> []" "balanced w" "unbroken (False, False) w" using assms(2) by (auto simp: is_word_def)
  note sp = spaced_props [of ws]
  show "text_words (indent @ w @ spaced ws) = w # ws"
    using split_words_blank_prefix [OF assms(1)] split_unbroken [OF w(3), of "[]"] w(1,2) sp assms(2)
    by (simp add: text_words_def balanced_def)
  show "balanced (indent @ w @ spaced ws)"
    using quote_fold_blank_unquoted [OF assms(1)] w(2) sp assms(2) by (simp add: balanced_def)
  have "comment_scan i False False indent = None" for i
    using assms(1) by (induction indent arbitrary: i) (auto simp: is_whitespace_def code_def)
  then show "comment_start (indent @ w @ spaced ws) = None"
    using quote_fold_blank_unquoted [OF assms(1)] comment_scan_unbroken [OF w(3)] w(2) sp assms(2)
    by (simp add: comment_start_def comment_scan_append balanced_def)
  have "\<not> is_whitespace (last (w @ spaced ws))"
    using assms(2) is_word_last by (cases ws rule: rev_cases) (auto simp: spaced_def is_word_def)
  then show "\<not> is_whitespace (last (indent @ w @ spaced ws))" using w(1) by simp
qed

section \<open>Line texts\<close>

lemma line_texts_single: "CHR 0x0A \<notin> set x \<Longrightarrow> line_texts x = [line_text x]"
proof -
  assume x: "CHR 0x0A \<notin> set x"
  then have "x \<noteq> [] \<Longrightarrow> split_inclusive x = [x]"
  proof (induction x)
    case (Cons c x)
    then show ?case by (cases "x = []") auto
  qed simp
  moreover have "x \<noteq> [] \<Longrightarrow> last x \<noteq> CHR 0x0A" using x last_in_set by metis
  ultimately show ?thesis by (cases "x = []") (auto simp: line_texts_def ends_with_single line_text_def strip_suffix_def)
qed

lemma line_texts_Cons: "CHR 0x0A \<notin> set x \<Longrightarrow> line_texts (x @ CHR 0x0A # rest) = line_text (x @ [CHR 0x0A]) # line_texts rest"
  by (auto simp: line_texts_def split_inclusive_line ends_with_single)

lemma line_text_ending:
  "CHR 0x0A \<notin> set x \<Longrightarrow> line_text x = strip_return x"
  "line_text (x @ [CHR 0x0A]) = strip_return x" "line_text (x @ [CHR 0x0D, CHR 0x0A]) = x"
proof -
  show "line_text x = strip_return x" if "CHR 0x0A \<notin> set x"
  proof -
    have "strip_suffix [CHR 0x0A] x = None" using that by (cases "strip_suffix [CHR 0x0A] x") (auto simp: strip_suffix_eq_Some)
    then show ?thesis by (simp add: line_text_def strip_return_def)
  qed
  show "line_text (x @ [CHR 0x0A]) = strip_return x" by (simp add: line_text_def strip_return_def)
  have "strip_suffix [CHR 0x0A] (x @ [CHR 0x0D, CHR 0x0A]) = Some (x @ [CHR 0x0D])"
    using strip_suffix_append [of "[CHR 0x0A]" "x @ [CHR 0x0D]"] by simp
  then show "line_text (x @ [CHR 0x0D, CHR 0x0A]) = x" by (simp add: line_text_def)
qed

lemma line_ending_cases: "line_ending s = [CHR 0x0A] \<or> line_ending s = [CHR 0x0D, CHR 0x0A]"
  by (simp add: line_ending_def)

lemma line_texts_join_Cons:
  assumes "eol = line_ending s" "CHR 0x0A \<notin> set x"
  shows "\<exists>y. same_line x y \<and> line_texts (x @ eol @ rest) = y # line_texts rest"
  using line_ending_cases [of s]
proof
  assume "line_ending s = [CHR 0x0A]"
  then show ?thesis using assms line_texts_Cons [OF assms(2), of rest] line_text_ending(2)
    by (auto simp: same_line_def)
next
  assume "line_ending s = [CHR 0x0D, CHR 0x0A]"
  then show ?thesis using assms line_texts_Cons [of "x @ [CHR 0x0D]" rest] line_text_ending(3) [of x]
    by (auto simp: same_line_def)
qed

lemma line_texts_join:
  assumes "eol = line_ending s" "list_all (\<lambda>x. CHR 0x0A \<notin> set x) xs"
  shows "list_all2 same_line (xs @ [[]]) (line_texts (concat (map (\<lambda>x. x @ eol) xs)))"
    "xs \<noteq> [] \<Longrightarrow> list_all2 same_line xs (line_texts (join eol xs))"
proof -
  show "list_all2 same_line (xs @ [[]]) (line_texts (concat (map (\<lambda>x. x @ eol) xs)))"
    using assms(2)
  proof (induction xs)
    case Nil
    then show ?case by (simp add: line_texts_def same_line_def)
  next
    case (Cons x xs)
    then show ?case using line_texts_join_Cons [OF assms(1), of x "concat (map (\<lambda>x. x @ eol) xs)"] by auto
  qed
  show "xs \<noteq> [] \<Longrightarrow> list_all2 same_line xs (line_texts (join eol xs))"
    using assms(2)
  proof (induction xs rule: induct_list012)
    case (2 x)
    then show ?case by (simp add: line_texts_single line_text_ending(1) same_line_def)
  next
    case (3 x y ys)
    then show ?case using line_texts_join_Cons [OF assms(1), of x "join eol (y # ys)"] by auto
  qed simp
qed

section \<open>Formatted lines\<close>

lemma split_words_set: "w \<in> set (split_words acc st s) \<Longrightarrow> set w \<subseteq> set acc \<union> set s"
proof (induction s arbitrary: acc st)
  case (Cons c s)
  have "w = acc \<or> w \<in> set (split_words [] st s) \<or> w \<in> set (split_words (acc @ [c]) (quote_step c st) s)"
    using Cons.prems by (auto split: if_splits)
  then show ?case using Cons.IH [of "[]" st] Cons.IH [of "acc @ [c]" "quote_step c st"] by auto
qed (auto split: if_splits)

lemma comment_scan_hash: "comment_scan i q e s = Some k \<Longrightarrow> s ! (k - i) = CHR ''#''"
proof (induction s arbitrary: i q e)
  case (Cons c s)
  show ?case
  proof (cases "c \<noteq> CHR ''#'' \<or> q \<or> e")
    case True
    obtain q' e' where st: "quote_step c (q, e) = (q', e')" by fastforce
    then have scan: "comment_scan (Suc i) q' e' s = Some k"
      using Cons.prems comment_scan_step [OF True, of i s] by (simp del: comment_scan.simps)
    then have "Suc i \<le> k" using comment_scan_Some by blast
    then show ?thesis using Cons.IH [OF scan] by (simp add: nth_Cons')
  next
    case False
    then have "\<not> e" "\<not> q" "c = CHR ''#''" by auto
    then show ?thesis using Cons.prems by simp
  qed
qed simp

lemma comment_text:
  assumes "comment_start raw = Some i"
  obtains t where "drop i raw = CHR ''#'' # t"
proof -
  have "i < length raw" "raw ! i = CHR ''#''"
    using comment_scan_Some [of 0 False False raw i] comment_scan_hash [of 0 False False raw i] assms by (auto simp: comment_start_def)
  then show ?thesis using that by (metis Cons_nth_drop_Suc)
qed

lemma document_line_facts:
  assumes "k < length (document_lines s)"
  shows "span_text s (pl_span (document_lines s ! k)) = line_texts s ! k"
    "line_words (document_lines s ! k) = text_words (code_part (line_texts s ! k))"
    "pl_comment_span (document_lines s ! k) = None \<Longrightarrow> comment_start (line_texts s ! k) = None"
    "pl_comment_span (document_lines s ! k) = Some sp \<Longrightarrow>
       \<exists>i. comment_start (line_texts s ! k) = Some i \<and> span_text s sp = drop i (line_texts s ! k)"
    "CHR 0x0A \<notin> set (line_texts s ! k)"
proof -
  let ?l = "document_lines s ! k" and ?raw = "line_texts s ! k"
  have *: "span_text s (pl_span ?l) = ?raw \<and> line_words ?l = text_words (code_part ?raw) \<and> CHR 0x0A \<notin> set ?raw \<and>
    pl_comment_span ?l = map_option (\<lambda>i. new_span (sp_start (pl_span ?l) + i) (sp_end (pl_span ?l))) (comment_start ?raw)"
  proof (cases "k < length (split_inclusive s)")
    case True
    then have raw: "?raw = line_text (split_inclusive s ! k)" by (simp add: line_texts_def nth_append)
    show ?thesis
      using parse_lines_nth [OF True, of 0 0] slice_concat [OF True] parse_lines_line [OF True, of 0 0]
        line_text_no_newline [OF nth_mem [OF True]]
      by (simp add: document_line_nth [OF True] raw span_text_def new_span_def concat_split_inclusive)
  next
    case False
    then show ?thesis using assms
      by (auto simp: document_lines_split line_texts_def nth_append new_span_def span_text_def slice_def comment_start_def
          code_part_def text_words_def split: if_splits)
  qed
  then show "span_text s (pl_span ?l) = ?raw" "line_words ?l = text_words (code_part ?raw)" "CHR 0x0A \<notin> set ?raw"
    "pl_comment_span ?l = None \<Longrightarrow> comment_start ?raw = None" by auto
  have "slice s (a + i) b = drop i (slice s a b)" for a b i by (simp add: slice_def drop_take add.commute)
  then show "pl_comment_span ?l = Some sp \<Longrightarrow> \<exists>i. comment_start ?raw = Some i \<and> span_text s sp = drop i ?raw"
    using * by (auto simp: span_text_def new_span_def)
qed

lemma format_indent_blank: "list_all is_whitespace (format_indent options)"
  by (auto simp: format_indent_def list_all_iff is_whitespace_def code_def)

lemma format_code_words:
  assumes "line_words l = w # ws"
  shows "\<exists>indent. list_all is_whitespace indent \<and> format_code options s l = indent @ w @ spaced ws"
proof (cases "pl_kind l")
  case (LLabel name)
  then show ?thesis using assms by (intro exI [of _ "[]"]) (simp add: format_code_def spaced_def)
next
  case (LInstruction m ops)
  let ?indent = "if fo_directives_at_column_zero options \<and> tok_text m \<in> {''alias'', ''define''} then [] else format_indent options"
  show ?thesis using LInstruction assms format_indent_blank
    by (intro exI [of _ ?indent]) (auto simp: format_code_def spaced_def o_def)
qed (use assms in simp)

lemma strip_return_Cons: "c \<noteq> CHR 0x0D \<Longrightarrow> strip_return (c # x) = c # strip_return x"
  by (cases x rule: rev_cases) (auto simp: strip_return_def strip_suffix_def)

lemma strip_return_append: "x \<noteq> [] \<Longrightarrow> hd x \<noteq> CHR 0x0D \<Longrightarrow> strip_return (a @ x) = a @ strip_return x"
  by (cases x rule: rev_cases) (auto simp: strip_return_def strip_suffix_def split: option.splits)

lemma strip_return_word: "\<not> is_whitespace (last x) \<Longrightarrow> strip_return x = x"
  by (cases x rule: rev_cases) (auto simp: strip_return_def strip_suffix_def is_whitespace_def code_def)

lemma trim_end_word: "x \<noteq> [] \<Longrightarrow> \<not> is_whitespace (last x) \<Longrightarrow> trim_end x = x"
  by (cases x rule: rev_cases) (auto simp: trim_end_def)

lemma format_line_words:
  assumes "k < length (document_lines s)" "balanced (code_part (line_texts s ! k))"
    and "same_line (format_line options s (document_lines s ! k)) y"
  shows "text_words (code_part y) = line_words (document_lines s ! k)"
proof -
  let ?l = "document_lines s ! k" and ?raw = "line_texts s ! k"
  note facts = document_line_facts [OF assms(1)]
  have comment: "\<exists>t. span_text s sp = CHR ''#'' # t" if "pl_comment_span ?l = Some sp" for sp
    using facts(4) [OF that] comment_text by metis
  have cut: "text_words (code_part (a @ CHR ''#'' # t)) = text_words a" if "balanced a" "comment_start a = None" for a t
    using that by (simp add: code_part_def comment_start_def comment_scan_append balanced_def)
  have blank: "comment_start (a @ '' '') = None" if "balanced a" "comment_start a = None" for a
    using that by (simp add: comment_start_def comment_scan_append balanced_def)
  show ?thesis
  proof (cases "line_words ?l")
    case Nil
    then have empty: "pl_kind ?l = LEmpty" by (cases "pl_kind ?l") auto
    show ?thesis
    proof (cases "pl_comment_span ?l")
      case None
      then have "trim ?raw = []" using facts(2,3) Nil text_words_empty_iff code_part_self by metis
      then have "dropWhile is_whitespace (rev ?raw) = []" by (simp add: trim_Nil_iff list_all_iff)
      then have "trim_end ?raw = []" by (simp only: trim_end_def rev.simps)
      then have "y = []" using assms(3) None empty facts(1)
        by (auto simp: format_line_def format_code_def same_line_def strip_return_def strip_suffix_def)
      then show ?thesis using Nil by (simp add: code_part_def text_words_def)
    next
      case (Some sp)
      then obtain t where "span_text s sp = CHR ''#'' # t" using comment by blast
      then have "\<exists>t'. y = CHR ''#'' # t'" using assms(3) Some empty
        by (auto simp: format_line_def format_code_def same_line_def strip_return_Cons trim_Nil_iff)
      then show ?thesis using cut [of "[]"] Nil by (auto simp: balanced_def comment_start_def text_words_def)
    qed
  next
    case (Cons w ws)
    then obtain indent where ind: "list_all is_whitespace indent" "format_code options s ?l = indent @ w @ spaced ws"
      using format_code_words by blast
    have words: "list_all is_word (w # ws)"
      using text_words_are_words [OF assms(2) comment_start_code_part] facts(2) Cons by (metis list_all_iff)
    let ?c = "indent @ w @ spaced ws"
    note code = laid_out_words [OF ind(1) words]
    have ne: "?c \<noteq> []" "trim ?c \<noteq> []" using code(1) text_words_empty_iff [of ?c] by (auto simp: text_words_def)
    note te = trim_end_word [OF ne(1) code(4)]
    show ?thesis
    proof (cases "pl_comment_span ?l")
      case None
      then have "y = ?c" using assms(3) ind(2) te strip_return_word [OF code(4)] by (auto simp: format_line_def same_line_def)
      then show ?thesis using code(1,3) Cons by (simp add: code_part_self)
    next
      case (Some sp)
      then obtain t where t: "span_text s sp = CHR ''#'' # t" using comment by blast
      have "format_line options s ?l = (?c @ '' '') @ CHR ''#'' # t"
        using Some ind(2) te t ne(2) by (simp add: format_line_def Let_def)
      then have "\<exists>t'. y = (?c @ '' '') @ CHR ''#'' # t'"
        using assms(3) strip_return_append [of "CHR ''#'' # t" "?c @ '' ''"] by (auto simp: same_line_def strip_return_Cons)
      moreover have "balanced (?c @ '' '')" "comment_start (?c @ '' '') = None"
        using balanced_blank_suffix [of "'' ''" ?c] blank [OF code(2,3)] code(2) blank_space by simp_all
      moreover have "text_words (?c @ '' '') = w # ws"
        using code(1,2) split_words_blank_suffix [of "'' ''" ?c "(False, False)" "[]"] blank_space
        by (simp add: text_words_def balanced_def)
      ultimately show ?thesis using cut Cons by metis
    qed
  qed
qed

lemma format_line_no_newline:
  assumes "k < length (document_lines s)"
  shows "CHR 0x0A \<notin> set (format_line options s (document_lines s ! k))"
proof -
  let ?l = "document_lines s ! k" and ?raw = "line_texts s ! k"
  note facts = document_line_facts [OF assms]
  have comment: "CHR 0x0A \<notin> set (span_text s sp)" if "pl_comment_span ?l = Some sp" for sp
    using facts(4) [OF that] facts(5) by (metis in_set_dropD)
  have "CHR 0x0A \<notin> set (format_code options s ?l)"
  proof (cases "line_words ?l")
    case Nil
    then have "pl_kind ?l = LEmpty" by (cases "pl_kind ?l") auto
    then show ?thesis using facts(1,5) by (simp add: format_code_def)
  next
    case (Cons w ws)
    have "CHR 0x0A \<notin> set v" if "v \<in> set (w # ws)" for v
    proof -
      have "v \<in> set (split_words [] (False, False) (code_part ?raw))" using that facts(2) Cons by (metis text_words_def)
      then have "set v \<subseteq> set (code_part ?raw)" using split_words_set by fastforce
      also have "\<dots> \<subseteq> set ?raw" by (auto simp: code_part_def dest: in_set_takeD)
      finally show ?thesis using facts(5) by blast
    qed
    moreover have "CHR 0x0A \<notin> set (format_indent options)" by (auto simp: format_indent_def)
    moreover have "\<exists>indent. format_code options s ?l = indent @ w @ spaced ws \<and> (indent = [] \<or> indent = format_indent options)"
      using Cons by (cases "pl_kind ?l") (auto simp: format_code_def spaced_def o_def)
    ultimately show ?thesis by (auto simp: spaced_def split: if_splits)
  qed
  moreover have "set (trim_end x) \<subseteq> set x" for x by (auto simp: trim_end_def dest: set_dropWhileD)
  ultimately show ?thesis using comment by (auto simp: format_line_def Let_def split: option.splits)
qed

lemma join_concat: "xs \<noteq> [] \<Longrightarrow> join eol xs @ eol = concat (map (\<lambda>x. x @ eol) xs)"
  by (induction xs rule: induct_list012) auto

lemma document_lines_not_Nil: "document_lines s \<noteq> []"
  using document_line_count [of s] by auto

lemma length_line_texts: "length (line_texts s) = length (document_lines s)"
  by (simp add: line_texts_def document_lines_split)

text \<open>The lines of the formatted text are the formatted lines.\<close>

lemma format_document_lines:
  assumes "doc_source d = s" "doc_lines d = document_lines s"
  shows "list_all2 same_line (map (format_line options s) (document_lines s)) (line_texts (format_document d options))"
proof -
  let ?out = "map (format_line options s) (document_lines s)"
  have clean: "list_all (\<lambda>x. CHR 0x0A \<notin> set x) ?out"
    using format_line_no_newline by (simp add: list_all_length)
  show ?thesis
  proof (cases "ends_with [CHR 0x0A] s")
    case True
    define out where "out = butlast ?out"
    have s: "s \<noteq> []" "split_inclusive s \<noteq> []" using True by (auto simp: ends_with_single split_inclusive_Nil_iff)
    have "last (document_lines s) = \<lparr>pl_number = length (split_inclusive s), pl_span = new_span (length s) (length s),
        pl_code_span = new_span (length s) (length s), pl_comment_span = None, pl_kind = LEmpty\<rparr>"
      using True by (simp add: document_lines_split)
    then have "last ?out = []" using document_lines_not_Nil [of s]
      by (simp add: last_map format_line_def format_code_def span_text_def slice_def new_span_def trim_end_def)
    then have out: "?out = out @ [[]]" using document_lines_not_Nil [of s] unfolding out_def by (metis append_butlast_last_id map_is_Nil_conv)
    have "out \<noteq> []" using s(2) True by (simp add: out_def document_lines_split butlast_append flip: length_greater_0_conv)
    then have "format_document d options = concat (map (\<lambda>x. x @ line_ending s) out)"
      using True assms out by (simp add: format_document_def Let_def out_def [symmetric] join_concat document_lines_not_Nil)
    moreover have "list_all (\<lambda>x. CHR 0x0A \<notin> set x) out" using clean unfolding out by simp
    ultimately show ?thesis using line_texts_join(1) [OF refl, of out s] unfolding out by simp
  next
    case False
    then have "format_document d options = join (line_ending s) ?out" using assms by (simp add: format_document_def Let_def)
    then show ?thesis using line_texts_join(2) [OF refl clean] document_lines_not_Nil by simp
  qed
qed

section \<open>Properties\<close>

text \<open>C28: Formatting keeps the program: the formatted text has as many lines as the source, and every line has the
  same words, tokens of comments and layout aside. (No line may end inside a quotation.)\<close>

theorem format_preserves_program:
  assumes "document_parse source kb = Ok d" "list_all (\<lambda>l. balanced (code_part l)) (line_texts source)"
  shows "map line_words (document_lines (format_document d options)) = map line_words (document_lines source)"
proof -
  have doc: "doc_source d = source" "doc_lines d = document_lines source"
    using assms(1) by (auto simp: document_parse_def parse_with_options_def Let_def obind_eq_Ok split: prod.splits)
  note lines = format_document_lines [OF doc, of options]
  have len: "length (document_lines (format_document d options)) = length (document_lines source)"
    using list_all2_lengthD [OF lines] length_line_texts by simp
  have "line_words (document_lines (format_document d options) ! k) = line_words (document_lines source ! k)"
    if k: "k < length (document_lines source)" for k
  proof -
    have "same_line (format_line options source (document_lines source ! k)) (line_texts (format_document d options) ! k)"
      using list_all2_nthD [OF lines, of k] k by simp
    moreover have "balanced (code_part (line_texts source ! k))" using assms(2) k by (simp add: list_all_length length_line_texts)
    ultimately show ?thesis
      using format_line_words [OF k] document_line_facts(2) [of k "format_document d options"] len k by simp
  qed
  then show ?thesis using len by (intro nth_equalityI) simp_all
qed

theorem format_preserves_program_witness:
  "\<exists>d. document_parse ''start:'' analysis_kb = Ok d \<and>
     map line_words (document_lines (format_document d default_format_options)) = [[''start:'']]"
proof -
  have "\<exists>d. document_parse ''start:'' analysis_kb = Ok d" using parse_total by (simp add: document_parse_def)
  then obtain d where d: "document_parse ''start:'' analysis_kb = Ok d" by blast
  have "list_all (\<lambda>l. balanced (code_part l)) (line_texts ''start:'')" by code_simp
  moreover have "map line_words (document_lines ''start:'') = [[''start:'']]" by code_simp
  ultimately show ?thesis using format_preserves_program [OF d] d by auto
qed

end
