(* ===== verification/Simulator_Tools.thy ===== *)
theory Simulator_Tools
  imports Simulator
begin

text \<open>
  What tools use of the simulator besides stepping it: setting registers, stack cells, device fields, slots,
  memory and channels on behalf of a debugger, a test or a scripted driver; the state of test drivers; replaying a
  write effect of a trace; recording the difference from a snapshot as effects; the names of effect targets; and the
  hashes of the state. The texts of errors are a parameter of the operations that hash them.
\<close>

unbundle bit_operations_syntax

section \<open>Setting cells\<close>

definition set_register_as :: "usize \<Rightarrow> usize \<Rightarrow> f64 \<Rightarrow> effect_actor \<Rightarrow> ('vm, unit) sim_prog" where
  "set_register_as i register new actor =
     bind (gets (\<lambda>s. Option.bind (nth_opt (s_cpus s) i) (\<lambda>c. map_option (Pair c) (nth_opt (c_registers c) register)))) (\<lambda>found.
     bind (ok_or (TargetOutOfRange ''register'') found) (\<lambda>(c, before).
     bind (modify (s_set_cpu i (c\<lparr>c_registers := (c_registers c)[register := new]\<rparr>))) (\<lambda>_.
     s_note (j_write actor (TRegister i (of_nat register)) before new))))"

definition set_stack_as :: "usize \<Rightarrow> usize \<Rightarrow> f64 \<Rightarrow> effect_actor \<Rightarrow> ('vm, unit) sim_prog" where
  "set_stack_as i address new actor =
     bind (gets (\<lambda>s. Option.bind (nth_opt (s_cpus s) i) (\<lambda>c. map_option (Pair c) (nth_opt (c_stack c) address)))) (\<lambda>found.
     bind (ok_or (TargetOutOfRange ''stack'') found) (\<lambda>(c, before).
     bind (modify (s_set_cpu i (c\<lparr>c_stack := (c_stack c)[address := new]\<rparr>))) (\<lambda>_.
     s_note (j_write actor (TStack i (of_nat address)) before new))))"

text \<open>\<open>self.world.devices[index]\<close>, and a device put back.\<close>

definition s_device :: "usize \<Rightarrow> ('vm, device) sim_prog" where
  "s_device i = bind (gets (\<lambda>s. nth_opt (w_devices (s_world s)) i)) expect"

definition s_set_device :: "usize \<Rightarrow> device \<Rightarrow> 'vm simulator \<Rightarrow> 'vm simulator" where
  "s_set_device i d s = s\<lparr>s_world := (s_world s)\<lparr>w_devices := (w_devices (s_world s))[i := d]\<rparr>\<rparr>"

text \<open>An effect on a named field: the name is interned only while the journal is enabled.\<close>

definition s_note_named :: "string \<Rightarrow> (symbol_id \<Rightarrow> effect_journal \<Rightarrow> effect_journal) \<Rightarrow> ('vm, unit) sim_prog" where
  "s_note_named name f =
     bind (gets (\<lambda>s. j_enabled (s_journal s))) (\<lambda>enabled.
     if enabled then bind (s_intern name) (\<lambda>i. s_note (f i)) else ret ())"

definition s_notify :: "usize \<Rightarrow> string \<Rightarrow> f64 \<Rightarrow> f64 \<Rightarrow> ('vm, unit) sim_prog" where
  "s_notify i name before new = modify (\<lambda>s. s\<lparr>s_behaviours := notify_field_write i name before new (s_behaviours s)\<rparr>)"

definition set_device_field_as :: "string \<Rightarrow> string \<Rightarrow> f64 \<Rightarrow> effect_actor \<Rightarrow> ('vm, unit) sim_prog" where
  "set_device_field_as device_id name new actor =
     bind (gets (\<lambda>s. world_device_index (s_world s) device_id)) (\<lambda>index.
     bind (ok_or (UnknownDevice device_id) index) (\<lambda>i.
     bind (s_device i) (\<lambda>d.
     bind (ok_or (NoSuchField device_id name) (bt_get (dv_fields d) name)) (\<lambda>before.
     bind (modify (s_set_device i (d\<lparr>dv_fields := bt_insert name new (dv_fields d)\<rparr>))) (\<lambda>_.
     bind (s_note_named name (\<lambda>field. j_write actor (TDeviceField i field) before new)) (\<lambda>_.
     s_notify i name before new))))))"

definition set_device_field :: "string \<Rightarrow> string \<Rightarrow> f64 \<Rightarrow> ('vm, unit) sim_prog" where
  "set_device_field device_id name new = set_device_field_as device_id name new ActorScenario"

definition set_device_slot_as :: "usize \<Rightarrow> usize \<Rightarrow> string \<Rightarrow> f64 \<Rightarrow> effect_actor \<Rightarrow> ('vm, unit) sim_prog" where
  "set_device_slot_as i slot name new actor =
     bind (s_device i) (\<lambda>d.
     bind (ok_or (TargetUnavailable ''slot'')
             (Option.bind (bt_get (dv_slots d) slot) (\<lambda>fs. map_option (Pair fs) (bt_get fs name)))) (\<lambda>(fs, before).
     bind (modify (s_set_device i (d\<lparr>dv_slots := bt_insert slot (bt_insert name new fs) (dv_slots d)\<rparr>))) (\<lambda>_.
     s_note_named name (\<lambda>field. j_write actor (TDeviceSlot i (of_nat slot) field) before new))))"

definition set_device_memory_as :: "usize \<Rightarrow> usize \<Rightarrow> f64 \<Rightarrow> effect_actor \<Rightarrow> ('vm, unit) sim_prog" where
  "set_device_memory_as i address new actor =
     bind (s_device i) (\<lambda>d.
     bind (ok_or (TargetUnavailable ''memory'') (nth_opt (dv_memory d) address)) (\<lambda>before.
     bind (modify (s_set_device i (d\<lparr>dv_memory := (dv_memory d)[address := new]\<rparr>))) (\<lambda>_.
     s_note (j_write actor (TDeviceMemory i (of_nat address)) before new))))"

definition s_network :: "usize \<Rightarrow> ('vm, network) sim_prog" where
  "s_network i = bind (gets (\<lambda>s. nth_opt (w_networks (s_world s)) i)) expect"

definition s_set_network :: "usize \<Rightarrow> network \<Rightarrow> 'vm simulator \<Rightarrow> 'vm simulator" where
  "s_set_network i n s = s\<lparr>s_world := (s_world s)\<lparr>w_networks := (w_networks (s_world s))[i := n]\<rparr>\<rparr>"

definition set_network_channel_as :: "usize \<Rightarrow> usize \<Rightarrow> f64 \<Rightarrow> effect_actor \<Rightarrow> ('vm, unit) sim_prog" where
  "set_network_channel_as i channel new actor =
     bind (s_network i) (\<lambda>n.
     bind (expect (nth_opt (nw_channels n) channel)) (\<lambda>before.
     bind (modify (s_set_network i (n\<lparr>nw_channels := (nw_channels n)[channel := new]\<rparr>))) (\<lambda>_.
     s_note (j_write actor (TNetworkChannel i (of_nat channel)) before new))))"

section \<open>Test drivers, items and seeds\<close>

definition fnv_add :: "u8 list \<Rightarrow> u64 \<Rightarrow> u64" where
  "fnv_add data hash = fold (\<lambda>byte hash. (hash XOR ucast byte) * 0x100000001b3) data hash"

definition stable_bytes_hash :: "u8 list \<Rightarrow> u64" where
  "stable_bytes_hash data = fnv_add data 0xcbf29ce484222325"

definition stable_text_bits :: "string option \<Rightarrow> u64" where
  "stable_text_bits t = fnv_add (as_bytes (case t of Some t \<Rightarrow> t | None \<Rightarrow> [])) 0xcbf29ce484222325"

definition set_test_driver_state :: "string \<Rightarrow> u8 list \<Rightarrow> effect_actor \<Rightarrow> ('vm, unit) sim_prog" where
  "set_test_driver_state driver state actor =
     bind (gets (\<lambda>s. case bt_get (s_driver_state s) driver of Some saved \<Rightarrow> stable_bytes_hash saved | None \<Rightarrow> 0)) (\<lambda>before.
     bind (modify (\<lambda>s. s\<lparr>s_driver_state := bt_insert driver state (s_driver_state s)\<rparr>)) (\<lambda>_.
     s_note_named driver (\<lambda>i. j_write_bits actor (TDriverState i) before (stable_bytes_hash state))))"

definition test_driver_state :: "'vm simulator \<Rightarrow> string \<Rightarrow> u8 list option" where
  "test_driver_state s driver = bt_get (s_driver_state s) driver"

definition s_slot :: "usize \<Rightarrow> usize \<Rightarrow> ('vm, (string, f64) btree_map) sim_prog" where
  "s_slot i slot = bind (s_device i) (\<lambda>d. expect (bt_get (dv_slots d) slot))"

definition s_insert_slot_field :: "usize \<Rightarrow> usize \<Rightarrow> string \<Rightarrow> f64 \<Rightarrow> ('vm, unit) sim_prog" where
  "s_insert_slot_field i slot name new =
     bind (s_device i) (\<lambda>d.
     bind (expect (bt_get (dv_slots d) slot)) (\<lambda>fs.
     modify (s_set_device i (d\<lparr>dv_slots := bt_insert slot (bt_insert name new fs) (dv_slots d)\<rparr>))))"

definition move_slot_field ::
  "usize \<Rightarrow> usize \<Rightarrow> usize \<Rightarrow> usize \<Rightarrow> effect_actor \<Rightarrow> string \<times> f64 \<Rightarrow> ('vm, unit) sim_prog" where
  "move_slot_field from_device from_slot to_device to_slot actor = (\<lambda>(name, new).
     bind (s_slot to_device to_slot) (\<lambda>fs.
     case bt_get fs name of
       None \<Rightarrow> ret ()
     | Some before \<Rightarrow>
         bind (s_slot from_device from_slot) (\<lambda>gs.
         (let source = (case bt_get gs name of Some v \<Rightarrow> v | None \<Rightarrow> f64_zero)
          in bind (s_insert_slot_field from_device from_slot name f64_zero) (\<lambda>_.
             bind (s_insert_slot_field to_device to_slot name new) (\<lambda>_.
             s_note_named name (\<lambda>field j.
               j_write actor (TDeviceSlot to_device (of_nat to_slot) field) before new
                 (j_write actor (TDeviceSlot from_device (of_nat from_slot) field) source f64_zero j))))))))"

definition move_slot_item_as :: "usize \<Rightarrow> usize \<Rightarrow> usize \<Rightarrow> usize \<Rightarrow> effect_actor \<Rightarrow> ('vm, unit) sim_prog" where
  "move_slot_item_as from_device from_slot to_device to_slot actor =
     bind (gets (\<lambda>s. Option.bind (nth_opt (w_devices (s_world s)) from_device) (\<lambda>d. bt_get (dv_slots d) from_slot))) (\<lambda>source.
     bind (ok_or (TargetUnavailable ''source'') source) (\<lambda>item.
     bind (gets (\<lambda>s. Option.bind (nth_opt (w_devices (s_world s)) to_device) (\<lambda>d. bt_get (dv_slots d) to_slot))) (\<lambda>destination.
     bind (ok_or (TargetUnavailable ''destination'') destination) (\<lambda>_.
     for_each item (move_slot_field from_device from_slot to_device to_slot actor)))))"

definition set_seed :: "u64 \<Rightarrow> 'vm simulator \<Rightarrow> 'vm simulator" where
  "set_seed seed s =
     s\<lparr>s_cpus := map (\<lambda>c. c\<lparr>c_random_state := (seed + (of_nat (c_housing c) + 1)) * 0x9E3779B97F4A7C15\<rparr>) (s_cpus s)\<rparr>"

section \<open>The journal of the simulator\<close>

definition set_journaling :: "bool \<Rightarrow> 'vm simulator \<Rightarrow> 'vm simulator" where
  "set_journaling enabled s = s\<lparr>s_journal := j_set_enabled enabled (s_journal s)\<rparr>"

definition take_effects :: "'vm simulator \<Rightarrow> effect_batch \<times> 'vm simulator" where
  "take_effects s = (case j_take (s_journal s) of (batch, j) \<Rightarrow> (batch, s\<lparr>s_journal := j\<rparr>))"

definition scripted_driver_actor :: "string \<Rightarrow> usize \<Rightarrow> ('vm, effect_actor) sim_prog" where
  "scripted_driver_actor driver rule = bind (s_intern driver) (\<lambda>i. ret (ActorScriptedDriver i (of_nat rule)))"

text \<open>Replay of one write effect of a trace.\<close>

definition apply_write_effect :: "write_effect \<Rightarrow> ('vm, unit) sim_prog" where
  "apply_write_effect write =
     (let bits = we_after_bits write; new = from_bits bits
      in case we_target write of
        TRegister i register \<Rightarrow>
          bind (gets (\<lambda>s. Option.bind (nth_opt (s_cpus s) i) (\<lambda>c. map_option (Pair c) (nth_opt (c_registers c) (unat register))))) (\<lambda>found.
          bind (ok_or (TargetOutOfRange ''register'') found) (\<lambda>(c, _).
          modify (s_set_cpu i (c\<lparr>c_registers := (c_registers c)[unat register := new]\<rparr>))))
      | TStack i address \<Rightarrow>
          bind (gets (\<lambda>s. Option.bind (nth_opt (s_cpus s) i) (\<lambda>c. map_option (Pair c) (nth_opt (c_stack c) (unat address))))) (\<lambda>found.
          bind (ok_or (TargetOutOfRange ''stack'') found) (\<lambda>(c, _).
          modify (s_set_cpu i (c\<lparr>c_stack := (c_stack c)[unat address := new]\<rparr>))))
      | TCpuPc i \<Rightarrow> bind (s_cpu i) (\<lambda>c. modify (s_set_cpu i (c\<lparr>c_pc := unat bits\<rparr>)))
      | TCpuState i \<Rightarrow>
          bind (ok_or InvalidCpuState (cpu_state_from_bits bits)) (\<lambda>st.
          bind (s_cpu i) (\<lambda>c. modify (s_set_cpu i (c\<lparr>c_state := st\<rparr>))))
      | TCpuOperations i \<Rightarrow> bind (s_cpu i) (\<lambda>c. modify (s_set_cpu i (c\<lparr>c_operations_this_tick := ucast bits\<rparr>)))
      | TCpuRandom i \<Rightarrow> bind (s_cpu i) (\<lambda>c. modify (s_set_cpu i (c\<lparr>c_random_state := bits\<rparr>)))
      | TSchedulerCpu \<Rightarrow> modify (\<lambda>s. s\<lparr>s_scheduler_slot := unat bits\<rparr>)
      | TTick \<Rightarrow> modify (\<lambda>s. s\<lparr>s_tick := bits\<rparr>)
      | TDeviceField i field \<Rightarrow>
          bind (gets (\<lambda>s. j_resolve (s_journal s) field)) (\<lambda>resolved.
          bind (ok_or (TargetUnavailable ''field symbol'') resolved) (\<lambda>name.
          bind (s_device i) (\<lambda>d.
          (let before = (case bt_get (dv_fields d) name of Some v \<Rightarrow> v | None \<Rightarrow> f64_zero)
           in bind (modify (s_set_device i (d\<lparr>dv_fields := bt_insert name new (dv_fields d)\<rparr>))) (\<lambda>_.
              s_notify i name before new)))))
      | TDeviceSlot i slot field \<Rightarrow>
          bind (gets (\<lambda>s. j_resolve (s_journal s) field)) (\<lambda>resolved.
          bind (ok_or (TargetUnavailable ''slot-field symbol'') resolved) (\<lambda>name.
          bind (s_device i) (\<lambda>d.
          bind (ok_or (TargetUnavailable ''slot'') (bt_get (dv_slots d) (unat slot))) (\<lambda>fs.
          modify (s_set_device i (d\<lparr>dv_slots := bt_insert (unat slot) (bt_insert name new fs) (dv_slots d)\<rparr>))))))
      | TDeviceMemory i address \<Rightarrow>
          bind (s_device i) (\<lambda>d.
          bind (ok_or (TargetUnavailable ''memory'') (nth_opt (dv_memory d) (unat address))) (\<lambda>_.
          modify (s_set_device i (d\<lparr>dv_memory := (dv_memory d)[unat address := new]\<rparr>))))
      | TNetworkChannel i channel \<Rightarrow>
          bind (s_network i) (\<lambda>n.
          bind (expect (nth_opt (nw_channels n) (unat channel))) (\<lambda>_.
          modify (s_set_network i (n\<lparr>nw_channels := (nw_channels n)[unat channel := new]\<rparr>))))
      | TCpuError _ \<Rightarrow> throw (TargetUnavailable ''structured state'')
      | TBehaviourState _ _ \<Rightarrow> throw (TargetUnavailable ''structured state'')
      | TDriverState _ \<Rightarrow> throw (TargetUnavailable ''structured state''))"

text \<open>Recording the difference from a snapshot: one effect per cell whose bits differ.\<close>

definition note_changes :: "effect_actor \<Rightarrow> (nat \<Rightarrow> effect_target) \<Rightarrow> f64 list \<Rightarrow> f64 list \<Rightarrow> effect_journal \<Rightarrow> effect_journal" where
  "note_changes actor target before after j =
     fold (\<lambda>(i, b, a) j. if to_bits b \<noteq> to_bits a then j_write actor (target i) b a j else j)
       (List.enumerate 0 (zip before after)) j"

definition note_bits_change :: "effect_actor \<Rightarrow> effect_target \<Rightarrow> u64 \<Rightarrow> u64 \<Rightarrow> effect_journal \<Rightarrow> effect_journal" where
  "note_bits_change actor target before after j = (if before \<noteq> after then j_write_bits actor target before after j else j)"

definition note_cpu_changes ::
  "(exec_error \<Rightarrow> string) \<Rightarrow> effect_actor \<Rightarrow> usize \<Rightarrow> ic10_runtime_snapshot \<Rightarrow> cpu \<Rightarrow> effect_journal \<Rightarrow> effect_journal" where
  "note_cpu_changes error_text actor i saved c j =
     (let j = note_changes actor (\<lambda>r. TRegister i (of_nat r)) (is_registers saved) (c_registers c) j;
          j = note_changes actor (\<lambda>a. TStack i (of_nat a)) (is_stack saved) (c_stack c) j;
          j = (if is_pc saved \<noteq> c_pc c then j_write_bits actor (TCpuPc i) (of_nat (is_pc saved)) (of_nat (c_pc c)) j else j);
          j = note_bits_change actor (TCpuState i) (cpu_state_bits (is_state saved)) (cpu_state_bits (c_state c)) j;
          j = (if is_operations_this_tick saved \<noteq> c_operations_this_tick c
               then j_write_bits actor (TCpuOperations i) (ucast (is_operations_this_tick saved)) (ucast (c_operations_this_tick c)) j
               else j);
          j = note_bits_change actor (TCpuRandom i) (is_random_state saved) (c_random_state c) j
      in note_bits_change actor (TCpuError i) (stable_text_bits (map_option error_text (is_error saved)))
           (stable_text_bits (map_option error_text (c_error c))) j)"

definition note_field_change ::
  "effect_actor \<Rightarrow> usize \<Rightarrow> device \<Rightarrow> string \<times> f64 \<Rightarrow> effect_journal \<times> behaviour_runtime \<Rightarrow> effect_journal \<times> behaviour_runtime" where
  "note_field_change actor i saved = (\<lambda>(name, after) (j, b).
     (let before = (case bt_get (dv_fields saved) name of Some v \<Rightarrow> v | None \<Rightarrow> f64_zero)
      in if to_bits before \<noteq> to_bits after then
           (case j_intern name j of (field, j) \<Rightarrow>
              (j_write actor (TDeviceField i field) before after j, notify_field_write i name before after b))
         else (j, b)))"

definition note_slot_change ::
  "effect_actor \<Rightarrow> usize \<Rightarrow> device \<Rightarrow> usize \<Rightarrow> string \<times> f64 \<Rightarrow> effect_journal \<Rightarrow> effect_journal" where
  "note_slot_change actor i saved slot = (\<lambda>(name, after) j.
     (let before = (case Option.bind (bt_get (dv_slots saved) slot) (\<lambda>fs. bt_get fs name) of Some v \<Rightarrow> v | None \<Rightarrow> f64_zero)
      in if to_bits before \<noteq> to_bits after then
           (case j_intern name j of (field, j) \<Rightarrow> j_write actor (TDeviceSlot i (of_nat slot) field) before after j)
         else j))"

definition note_device_changes ::
  "effect_actor \<Rightarrow> usize \<times> device \<times> device \<Rightarrow> effect_journal \<times> behaviour_runtime \<Rightarrow> effect_journal \<times> behaviour_runtime" where
  "note_device_changes actor = (\<lambda>(i, saved, current) jb.
     (let (j, b) = fold (note_field_change actor i saved) (dv_fields current) jb;
          j = fold (\<lambda>(slot, fs). fold (note_slot_change actor i saved slot) fs) (dv_slots current) j
      in (note_changes actor (\<lambda>a. TDeviceMemory i (of_nat a)) (dv_memory saved) (dv_memory current) j, b)))"

definition record_snapshot_effects :: "(exec_error \<Rightarrow> string) \<Rightarrow> simulator_snapshot \<Rightarrow> effect_actor \<Rightarrow> ('vm, unit) sim_prog" where
  "record_snapshot_effects error_text before actor =
     bind (gets (\<lambda>s. zip (s_schedule s) (ss_runtimes before))) (\<lambda>runtimes.
     bind (for_each runtimes (\<lambda>(adapter, snap).
       case (adapter, snap) of
         (AdapterIc10 i, SnapIc10 saved) \<Rightarrow>
           bind (s_cpu i) (\<lambda>c. s_note (note_cpu_changes error_text actor i saved c))
       | _ \<Rightarrow> ret ())) (\<lambda>_.
     modify (\<lambda>s.
       (let (j, b) = fold (note_device_changes actor)
                (List.enumerate 0 (zip (w_devices (ss_world before)) (w_devices (s_world s)))) (s_journal s, s_behaviours s);
            j = fold (\<lambda>(i, saved, current).
                  note_changes actor (\<lambda>c. TNetworkChannel i (of_nat c)) (nw_channels saved) (nw_channels current))
                (List.enumerate 0 (zip (w_networks (ss_world before)) (w_networks (s_world s)))) j
        in s\<lparr>s_journal := j, s_behaviours := b\<rparr>))))"

definition record_external_effects :: "(exec_error \<Rightarrow> string) \<Rightarrow> simulator_snapshot \<Rightarrow> effect_actor \<Rightarrow> ('vm, unit) sim_prog" where
  "record_external_effects error_text before actor =
     bind (gets (\<lambda>s. j_enabled (s_journal s))) (\<lambda>enabled.
     if enabled then record_snapshot_effects error_text before actor else ret ())"

section \<open>Names of effect targets\<close>

definition cpu_name :: "'vm simulator \<Rightarrow> usize \<Rightarrow> (sim_error, string) outcome" where
  "cpu_name s i = obind (o_expect (nth_opt (s_cpus s) i)) (\<lambda>c. Ok (''cpu(\"'' @ c_id c @ ''\").''))"

definition device_name :: "'vm simulator \<Rightarrow> usize \<Rightarrow> (sim_error, string) outcome" where
  "device_name s i = obind (o_expect (nth_opt (w_devices (s_world s)) i)) (\<lambda>d. Ok (''device(\"'' @ dv_id d @ ''\").''))"

definition symbol_name :: "'vm simulator \<Rightarrow> symbol_id \<Rightarrow> string" where
  "symbol_name s i = (case j_resolve (s_journal s) i of Some name \<Rightarrow> name | None \<Rightarrow> ''<unknown>'')"

fun effect_target_name :: "'vm simulator \<Rightarrow> effect_target \<Rightarrow> (sim_error, string) outcome" where
  "effect_target_name s (TRegister i register) = obind (cpu_name s i) (\<lambda>n. Ok (n @ ''r'' @ show_nat (unat register)))"
| "effect_target_name s (TStack i address) = obind (cpu_name s i) (\<lambda>n. Ok (n @ ''stack['' @ show_nat (unat address) @ '']''))"
| "effect_target_name s (TCpuPc i) = obind (cpu_name s i) (\<lambda>n. Ok (n @ ''pc''))"
| "effect_target_name s (TCpuState i) = obind (cpu_name s i) (\<lambda>n. Ok (n @ ''state''))"
| "effect_target_name s (TCpuError i) = obind (cpu_name s i) (\<lambda>n. Ok (n @ ''error''))"
| "effect_target_name s (TCpuOperations i) = obind (cpu_name s i) (\<lambda>n. Ok (n @ ''operations''))"
| "effect_target_name s (TCpuRandom i) = obind (cpu_name s i) (\<lambda>n. Ok (n @ ''random''))"
| "effect_target_name s TSchedulerCpu = Ok ''scheduler.cpu''"
| "effect_target_name s TTick = Ok ''tick''"
| "effect_target_name s (TDeviceField i field) = obind (device_name s i) (\<lambda>n. Ok (n @ symbol_name s field))"
| "effect_target_name s (TDeviceSlot i slot field) =
     obind (device_name s i) (\<lambda>n. Ok (n @ ''slot['' @ show_nat (unat slot) @ ''].'' @ symbol_name s field))"
| "effect_target_name s (TDeviceMemory i address) = obind (device_name s i) (\<lambda>n. Ok (n @ ''memory['' @ show_nat (unat address) @ '']''))"
| "effect_target_name s (TNetworkChannel i channel) =
     obind (o_expect (nth_opt (w_networks (s_world s)) i)) (\<lambda>n. Ok (''network(\"'' @ nw_id n @ ''\").Channel'' @ show_nat (unat channel)))"
| "effect_target_name s (TBehaviourState i k) = obind (device_name s i) (\<lambda>n. Ok (n @ ''behaviour.'' @ symbol_name s k))"
| "effect_target_name s (TDriverState driver) = Ok (''driver(\"'' @ symbol_name s driver @ ''\").state'')"

section \<open>State hashes\<close>

definition value_bytes :: "f64 list \<Rightarrow> u8 list" where
  "value_bytes vs = concat (map (\<lambda>v. le_u64 (to_bits v)) vs)"

text \<open>\<open>format!("{:?}", cpu.state)\<close>.\<close>

fun debug_cpu_state :: "cpu_state \<Rightarrow> string" where
  "debug_cpu_state Ready = ''Ready''"
| "debug_cpu_state (WaitingUntil t) = ''WaitingUntil('' @ show_nat (unat t) @ '')''"
| "debug_cpu_state Halted = ''Halted''"
| "debug_cpu_state CpuFault = ''Error''"

definition cpu_bytes :: "(exec_error \<Rightarrow> string) \<Rightarrow> cpu \<Rightarrow> u8 list" where
  "cpu_bytes error_text c =
     enc_usize (c_pc c) @ le_u32 (c_operations_this_tick c) @ le_u64 (c_random_state c) @ as_bytes (debug_cpu_state (c_state c)) @
     (case c_error c of Some e \<Rightarrow> as_bytes (error_text e) | None \<Rightarrow> []) @ value_bytes (c_registers c @ c_stack c)"

definition field_bytes :: "(string, f64) btree_map \<Rightarrow> u8 list" where
  "field_bytes fs = concat (map (\<lambda>(name, v). as_bytes name @ le_u64 (to_bits v)) fs)"

definition device_bytes :: "device \<Rightarrow> u8 list" where
  "device_bytes d =
     as_bytes (dv_id d) @ field_bytes (dv_fields d) @
     concat (map (\<lambda>(slot, fs). enc_usize slot @ field_bytes fs) (dv_slots d)) @ value_bytes (dv_memory d)"

definition enc_blob :: "u8 list \<Rightarrow> u8 list" where
  "enc_blob data = enc_usize (length data) @ data"

text \<open>The bytes that \<open>state_hash\<close> folds, in the order in which it adds them.\<close>

definition state_bytes :: "(sim_error \<Rightarrow> string) \<Rightarrow> (exec_error \<Rightarrow> string) \<Rightarrow> 'vm simulator \<Rightarrow> u8 list" where
  "state_bytes scheduler_text error_text s =
     le_u64 (s_tick s) @ enc_usize (s_scheduler_slot s) @
     (case s_scheduler_error s of Some e \<Rightarrow> as_bytes (scheduler_text e) | None \<Rightarrow> []) @
     concat (map (cpu_bytes error_text) (s_cpus s)) @ concat (map device_bytes (w_devices (s_world s))) @
     concat (map (\<lambda>n. as_bytes (nw_id n) @ value_bytes (nw_channels n)) (w_networks (s_world s))) @
     enc_blob (deterministic_bytes (s_behaviours s)) @ enc_usize (length (s_driver_state s)) @
     concat (map (\<lambda>(driver, state). enc_blob (as_bytes driver) @ enc_blob state) (s_driver_state s))"

definition state_hash :: "(sim_error \<Rightarrow> string) \<Rightarrow> (exec_error \<Rightarrow> string) \<Rightarrow> 'vm simulator \<Rightarrow> u64" where
  "state_hash scheduler_text error_text s = fnv_add (state_bytes scheduler_text error_text s) 0xcbf29ce484222325"

fun event_state_bits :: "cpu_state \<Rightarrow> u64" where
  "event_state_bits Ready = 0"
| "event_state_bits (WaitingUntil wake) = wake XOR 0x1000000000000000"
| "event_state_bits Halted = 2"
| "event_state_bits CpuFault = 3"

definition event_state_hash :: "'vm simulator \<Rightarrow> usize \<Rightarrow> bool \<Rightarrow> bool \<Rightarrow> u64" where
  "event_state_hash s i include_world include_stack =
     fnv_add
       (le_u64 (s_tick s) @ enc_usize (s_scheduler_slot s) @
        (case nth_opt (s_cpus s) i of
           Some c \<Rightarrow>
             enc_usize (c_pc c) @ le_u32 (c_operations_this_tick c) @ le_u64 (c_random_state c) @
             le_u64 (event_state_bits (c_state c)) @ value_bytes (c_registers c) @
             (if include_stack then value_bytes (c_stack c) else [])
         | None \<Rightarrow> []) @
        (if include_world then
           concat (map (\<lambda>d. value_bytes (bt_values (dv_fields d)) @ concat (map (\<lambda>fs. value_bytes (bt_values fs)) (bt_values (dv_slots d))) @
             value_bytes (dv_memory d)) (w_devices (s_world s))) @
           concat (map (\<lambda>n. value_bytes (nw_channels n)) (w_networks (s_world s)))
         else []))
       0xcbf29ce484222325"

end
