(* ===== verification/Evaluator.thy ===== *)
theory Evaluator
  imports Simulator_Tools
begin

text \<open>
  The expressions of scenario tests and debugger watches, \<open>crates/ic10-runner/src/evaluator.rs\<close>: values, the
  splitting of an expression at its operators, evaluation against a simulator, the locations an assignment can
  name, and assignments. Expressions are byte sequences; slicing one inside a multi-byte character panics.
\<close>

section \<open>Values\<close>

datatype eval_value = VNumber f64 | VBoolean bool | VText string

fun truthy :: "eval_value \<Rightarrow> (string, bool) outcome" where
  "truthy (VBoolean b) = Ok b"
| "truthy (VNumber v) = Ok (f64_ne v f64_zero \<and> \<not> is_nan v)"
| "truthy (VText _) = Err ''text is not a boolean value''"

fun number_value :: "eval_value \<Rightarrow> (string, f64) outcome" where
  "number_value (VNumber v) = Ok v"
| "number_value (VBoolean b) = Ok (if b then f64_one else f64_zero)"
| "number_value (VText _) = Err ''text is not a numeric value''"

text \<open>\<open>to_string\<close> of a finite \<open>f64\<close>: the fewest digits that read back as the number, without an exponent.\<close>

fun leading_zeros :: "nat \<Rightarrow> int \<Rightarrow> nat" where
  "leading_zeros 0 u = 0"
| "leading_zeros (Suc fuel) u = (if one_units \<le> u * 10 then 0 else Suc (leading_zeros fuel (u * 10)))"

definition decimal_exponent :: "int \<Rightarrow> int" where
  "decimal_exponent u =
     (if one_units \<le> u then int (length (show_nat (nat (u div one_units)))) else - int (leading_zeros 400 u))"

definition decimal_digits :: "f64 \<Rightarrow> nat \<Rightarrow> nat option" where
  "decimal_digits v k =
     (let u = mag_units (mag v); e = decimal_exponent u; p = int k - e;
          n = (if 0 \<le> p then u * 10 ^ nat p else u); d = (if 0 \<le> p then one_units else one_units * 10 ^ nat (- p));
          low = n div d; up = low + 1; reads = (\<lambda>m. f64_of_decimal (sign_neg v) m (e - int k) = v)
      in if reads low \<and> (\<not> reads up \<or> 2 * (n - low * d) \<le> d) then Some (nat low)
         else if reads up then Some (nat up) else None)"

fun shortest_digits :: "f64 \<Rightarrow> nat list \<Rightarrow> (nat \<times> nat) option" where
  "shortest_digits v [] = None"
| "shortest_digits v (k # ks) = (case decimal_digits v k of Some m \<Rightarrow> Some (m, k) | None \<Rightarrow> shortest_digits v ks)"

definition place_point :: "string \<Rightarrow> int \<Rightarrow> string" where
  "place_point digits e =
     (if e \<le> 0 then ''0.'' @ replicate (nat (- e)) (CHR ''0'') @ digits
      else if int (length digits) \<le> e then digits @ replicate (nat e - length digits) (CHR ''0'')
      else take (nat e) digits @ ''.'' @ drop (nat e) digits)"

definition f64_to_string :: "f64 \<Rightarrow> string" where
  "f64_to_string v =
     (if is_nan v then ''NaN''
      else (if sign_neg v then ''-'' else []) @
        (if is_infinite v then ''inf''
         else if mag v = 0 then ''0''
         else case shortest_digits v [1..<18] of
           Some (m, k) \<Rightarrow>
             (let digits = show_nat m
              in place_point digits (decimal_exponent (mag_units (mag v)) + int (length digits) - int k))
         | None \<Rightarrow> []))"

definition format_number :: "f64 \<Rightarrow> string" where
  "format_number v =
     (if is_nan v then ''NaN''
      else if f64_eq v f64_infinity then ''Infinity''
      else if f64_eq v f64_neg_infinity then ''-Infinity''
      else if f64_eq v f64_zero \<and> sign_neg v then ''-0''
      else f64_to_string v)"

fun display_value :: "eval_value \<Rightarrow> string" where
  "display_value (VNumber v) = format_number v"
| "display_value (VBoolean b) = (if b then ''true'' else ''false'')"
| "display_value (VText t) = t"

definition parse_number :: "string \<Rightarrow> (string, f64) outcome" where
  "parse_number text =
     (let v = trim text
      in if v \<in> {''NaN'', ''nan''} then Ok f64_nan
         else if v \<in> {''pinf'', ''Infinity'', ''+Infinity'', ''inf'', ''+inf''} then Ok f64_infinity
         else if v \<in> {''ninf'', ''-Infinity'', ''-inf''} then Ok f64_neg_infinity
         else if v = ''-0'' then Ok f64_neg_zero
         else o_ok_or (''cannot evaluate `'' @ v @ ''`'') (parse_f64 v))"

definition numeric_equal :: "f64 \<Rightarrow> f64 \<Rightarrow> bool" where
  "numeric_equal a b \<longleftrightarrow> is_nan a \<and> is_nan b \<or> to_bits a = to_bits b"

definition compare_values :: "(f64 \<Rightarrow> f64 \<Rightarrow> bool) \<Rightarrow> eval_value \<Rightarrow> eval_value \<Rightarrow> (string, eval_value) outcome" where
  "compare_values f l r = obind (number_value l) (\<lambda>a. obind (number_value r) (\<lambda>b. Ok (VBoolean (f a b))))"

definition combine_values :: "(f64 \<Rightarrow> f64 \<Rightarrow> f64) \<Rightarrow> eval_value \<Rightarrow> eval_value \<Rightarrow> (string, eval_value) outcome" where
  "combine_values f l r = obind (number_value l) (\<lambda>a. obind (number_value r) (\<lambda>b. Ok (VNumber (f a b))))"

definition equal_values :: "eval_value \<Rightarrow> eval_value \<Rightarrow> (string, bool) outcome" where
  "equal_values l r =
     (case (l, r) of
        (VText a, VText b) \<Rightarrow> Ok (a = b)
      | (VBoolean a, VBoolean b) \<Rightarrow> Ok (a = b)
      | _ \<Rightarrow> obind (number_value l) (\<lambda>a. obind (number_value r) (\<lambda>b. Ok (numeric_equal a b))))"

definition binary_values :: "eval_value \<Rightarrow> string \<Rightarrow> eval_value \<Rightarrow> (string, eval_value) outcome" where
  "binary_values l op r =
     (if op = ''&&'' then obind (truthy l) (\<lambda>a. if a then obind (truthy r) (\<lambda>b. Ok (VBoolean b)) else Ok (VBoolean False))
      else if op = ''||'' then obind (truthy l) (\<lambda>a. if a then Ok (VBoolean True) else obind (truthy r) (\<lambda>b. Ok (VBoolean b)))
      else if op = ''=='' then obind (equal_values l r) (\<lambda>e. Ok (VBoolean e))
      else if op = ''!='' then obind (equal_values l r) (\<lambda>e. Ok (VBoolean (\<not> e)))
      else if op = ''<'' then compare_values f64_lt l r
      else if op = ''<='' then compare_values f64_le l r
      else if op = ''>'' then compare_values (\<lambda>a b. f64_lt b a) l r
      else if op = ''>='' then compare_values (\<lambda>a b. f64_le b a) l r
      else if op = ''+'' then combine_values f64_add l r
      else if op = ''-'' then combine_values f64_sub l r
      else if op = ''*'' then combine_values f64_mul l r
      else if op = ''/'' then combine_values f64_div l r
      else if op = ''%'' then combine_values f64_rem l r
      else Err (''unsupported operator `'' @ op @ ''`''))"

section \<open>Reading an expression\<close>

text \<open>A byte inside a multi-byte character: a string cannot be sliced there.\<close>

definition is_continuation :: "char \<Rightarrow> bool" where
  "is_continuation c \<longleftrightarrow> 0x80 \<le> Rust_Text.code c \<and> Rust_Text.code c < 0xC0"

text \<open>How one byte changes whether the scan is inside quotes, and how deep it is in brackets.\<close>

definition toggle_quotes :: "string \<Rightarrow> char \<Rightarrow> bool \<Rightarrow> bool" where
  "toggle_quotes before c in_quotes =
     (if c = CHR 0x22 \<and> (before = [] \<or> last before \<noteq> CHR 0x5C) then \<not> in_quotes else in_quotes)"

definition nesting :: "char \<Rightarrow> bool \<Rightarrow> int \<Rightarrow> int" where
  "nesting c in_quotes depth =
     (if c \<in> {CHR ''('', CHR ''[''} \<and> \<not> in_quotes then depth + 1
      else if c \<in> {CHR '')'', CHR '']''} \<and> \<not> in_quotes then depth - 1 else depth)"

text \<open>The first operator at this place; a sign at the very start of the expression is no operator.\<close>

definition operator_at :: "string list \<Rightarrow> string \<Rightarrow> string \<Rightarrow> string option" where
  "operator_at ops before rest = find (\<lambda>op. starts_with op rest \<and> \<not> (op \<in> {''-'', ''+''} \<and> before = [])) ops"

text \<open>
  The loop of \<open>split_operator\<close>: \<open>before\<close> holds the bytes already passed; the last operator found at depth zero and
  outside quotes is the result.
\<close>

function split_scan :: "string list \<Rightarrow> string \<Rightarrow> int \<Rightarrow> bool \<Rightarrow> (string \<times> string \<times> string) option \<Rightarrow> string
    \<Rightarrow> (string, (string \<times> string \<times> string) option) outcome" where
  "split_scan ops before depth in_quotes result [] = Ok result"
| "split_scan ops before depth in_quotes result (c # cs) =
     (let in_quotes = toggle_quotes before c in_quotes; depth = nesting c in_quotes depth
      in if depth = 0 \<and> \<not> in_quotes then
           (if is_continuation c then Panic
            else case operator_at ops before (c # cs) of
              Some op \<Rightarrow>
                split_scan ops (before @ op) depth in_quotes (Some (before, op, drop (length op - 1) cs)) (drop (length op - 1) cs)
            | None \<Rightarrow> split_scan ops (before @ [c]) depth in_quotes result cs)
         else split_scan ops (before @ [c]) depth in_quotes result cs)"
  by pat_completeness auto

termination split_scan
  by (relation "measure (\<lambda>(ops, before, depth, in_quotes, result, rest). length rest)") auto

definition split_operator :: "string \<Rightarrow> string list \<Rightarrow> (string, (string \<times> string \<times> string) option) outcome" where
  "split_operator expression ops = split_scan ops [] 0 False None expression"

definition operator_levels :: "string list list" where
  "operator_levels = [[''||''], [''&&''], [''=='', ''!='', ''<='', ''>='', ''<'', ''>''], [''+'', ''-''], [''*'', ''/'', ''%'']]"

fun first_split :: "string list list \<Rightarrow> string \<Rightarrow> (string, (string \<times> string \<times> string) option) outcome" where
  "first_split [] expression = Ok None"
| "first_split (ops # levels) expression =
     obind (split_operator expression ops) (\<lambda>found.
     case found of Some split \<Rightarrow> Ok (Some split) | None \<Rightarrow> first_split levels expression)"

definition function_call :: "string \<Rightarrow> (string \<times> string) option" where
  "function_call expression =
     (case split_once ''('' expression of
        None \<Rightarrow> None
      | Some (before, rest) \<Rightarrow>
          if \<not> ends_with '')'' expression then None
          else (let name = trim before
                in if name = [] \<or> \<not> list_all (\<lambda>c. is_ascii_alphanumeric c \<or> c = CHR ''_'') name then None
                   else Some (name, butlast rest)))"

fun delimiter_scan :: "char list \<Rightarrow> bool \<Rightarrow> bool \<Rightarrow> string \<Rightarrow> (string, unit) outcome" where
  "delimiter_scan opened in_quotes escaped [] =
     (if in_quotes then Err ''unterminated string in expression''
      else case opened of [] \<Rightarrow> Ok () | c # _ \<Rightarrow> Err (''unclosed `'' @ [c] @ ''` in expression''))"
| "delimiter_scan opened in_quotes escaped (c # cs) =
     (if in_quotes then
        (if escaped then delimiter_scan opened True False cs
         else if c = CHR 0x5C then delimiter_scan opened True True cs
         else if c = CHR 0x22 then delimiter_scan opened False False cs
         else delimiter_scan opened True False cs)
      else if c = CHR 0x22 then delimiter_scan opened True escaped cs
      else if c \<in> {CHR ''('', CHR ''[''} then delimiter_scan (c # opened) False escaped cs
      else if c = CHR '')'' then
        (case opened of
           d # rest \<Rightarrow> if d = CHR ''('' then delimiter_scan rest False escaped cs else Err ''unbalanced `)` in expression''
         | [] \<Rightarrow> Err ''unbalanced `)` in expression'')
      else if c = CHR '']'' then
        (case opened of
           d # rest \<Rightarrow> if d = CHR ''['' then delimiter_scan rest False escaped cs else Err ''unbalanced `]` in expression''
         | [] \<Rightarrow> Err ''unbalanced `]` in expression'')
      else delimiter_scan opened False escaped cs)"

definition validate_delimiters :: "string \<Rightarrow> (string, unit) outcome" where
  "validate_delimiters expression = delimiter_scan [] False False expression"

text \<open>Does the parenthesis that opens the expression close at its end?\<close>

fun closes_at_end :: "int \<Rightarrow> string \<Rightarrow> bool" where
  "closes_at_end depth [] = False"
| "closes_at_end depth (c # cs) =
     (let depth = (if c = CHR ''('' then depth + 1 else depth)
      in if c = CHR '')'' then (if depth - 1 = 0 then cs = [] else closes_at_end (depth - 1) cs)
         else closes_at_end depth cs)"

lemma length_trim: "length (trim s) \<le> length s"
proof -
  have "length (trim_start t) \<le> length t" "length (trim_end t) \<le> length t" for t
    using length_dropWhile_le [of _ t] length_dropWhile_le [of _ "rev t"] by (simp_all add: trim_start_def trim_end_def)
  then show ?thesis unfolding trim_def by (meson le_trans)
qed

function trim_outer :: "string \<Rightarrow> string" where
  "trim_outer e =
     (if \<not> starts_with ''('' e \<or> \<not> ends_with '')'' e \<or> \<not> closes_at_end 0 e then e
      else trim_outer (trim (butlast (tl e))))"
  by pat_completeness auto

termination trim_outer
proof (relation "measure length")
  fix e assume "\<not> (\<not> starts_with ''('' e \<or> \<not> ends_with '')'' e \<or> \<not> closes_at_end 0 e)"
  then have "e \<noteq> []" by (auto simp: starts_with_iff)
  then show "(trim (butlast (tl e)), e) \<in> measure length"
    using length_trim [of "butlast (tl e)"] by (cases e) auto
qed simp

declare trim_outer.simps [simp del]

lemma length_trim_outer: "length (trim_outer e) \<le> length e"
proof (induction e rule: trim_outer.induct)
  case (1 e)
  show ?case
  proof (cases "\<not> starts_with ''('' e \<or> \<not> ends_with '')'' e \<or> \<not> closes_at_end 0 e")
    case False
    then have "length (trim_outer (trim (butlast (tl e)))) \<le> length (butlast (tl e))"
      using 1 length_trim [of "butlast (tl e)"] by linarith
    with False show ?thesis by (subst trim_outer.simps) simp
  qed (subst trim_outer.simps, simp)
qed

lemma split_scan_parts:
  assumes "split_scan ops before depth q result rest = Ok (Some (l, op, r))" "[] \<notin> set ops"
    and "\<And>l op r. result = Some (l, op, r) \<Longrightarrow> before @ rest = l @ op @ r \<and> op \<in> set ops"
  shows "before @ rest = l @ op @ r \<and> op \<in> set ops"
  using assms
proof (induction ops before depth q result rest rule: split_scan.induct)
  case (2 ops before depth q result c cs)
  let ?q = "toggle_quotes before c q" and ?d = "nesting c (toggle_quotes before c q) depth"
  let ?found = "operator_at ops before (c # cs)"
  note IH = 2(1-3) [OF refl refl]
  show ?case
  proof (cases "?d = 0 \<and> \<not> ?q")
    case at: True
    then have cont: "\<not> is_continuation c" using 2(4) by (auto simp: Let_def)
    show ?thesis
    proof (cases ?found)
      case None
      have "split_scan ops (before @ [c]) ?d ?q result cs = Ok (Some (l, op, r))" using 2(4) at cont None by (auto simp: Let_def)
      with IH(1) [OF at cont None] 2(5,6) show ?thesis by simp
    next
      case (Some op')
      then have op': "op' \<in> set ops" "starts_with op' (c # cs)" by (auto simp: operator_at_def find_Some_iff)
      then have "op' \<noteq> []" using 2(5) by auto
      with op'(2) have eq: "c # cs = op' @ drop (length op' - 1) cs" by (auto simp: starts_with_iff neq_Nil_conv)
      have "split_scan ops (before @ op') ?d ?q (Some (before, op', drop (length op' - 1) cs)) (drop (length op' - 1) cs) = Ok (Some (l, op, r))"
        using 2(4) at cont Some by (auto simp: Let_def)
      with IH(2) [OF at cont Some] 2(5) op'(1) eq show ?thesis by simp
    qed
  next
    case False
    then have "split_scan ops (before @ [c]) ?d ?q result cs = Ok (Some (l, op, r))" using 2(4) by (auto simp: Let_def)
    with IH(3) [OF False] 2(5,6) show ?thesis by simp
  qed
qed simp

lemma first_split_eq:
  assumes "first_split levels e = Ok (Some (l, op, r))" "\<forall>ops \<in> set levels. [] \<notin> set ops"
  shows "e = l @ op @ r \<and> op \<noteq> []"
  using assms
proof (induction levels)
  case (Cons ops levels)
  then obtain found where found: "split_operator e ops = Ok found" by (auto simp: obind_eq_Ok)
  show ?case
  proof (cases found)
    case None
    then show ?thesis using Cons found by auto
  next
    case (Some p)
    then have "split_operator e ops = Ok (Some (l, op, r))" using Cons.prems(1) found by auto
    from split_scan_parts [OF this [unfolded split_operator_def]] Cons.prems(2) show ?thesis by auto
  qed
qed simp

lemma operator_levels_nonempty: "\<forall>ops \<in> set operator_levels. [] \<notin> set ops"
  by (simp add: operator_levels_def)

lemma function_call_shorter: "function_call e = Some (name, argument) \<Longrightarrow> length argument < length e"
  by (auto simp: function_call_def Let_def dest!: split_once_SomeD split: option.splits if_splits)

lemma obind_cong [fundef_cong]: "m = m' \<Longrightarrow> (\<And>x. m' = Ok x \<Longrightarrow> f x = g x) \<Longrightarrow> obind m f = obind m' g"
  by (cases m') auto

section \<open>Locations\<close>

definition indexed :: "string \<Rightarrow> string \<Rightarrow> string \<Rightarrow> usize option" where
  "indexed expression prefix suffix =
     Option.bind (strip_prefix prefix expression) (\<lambda>rest. Option.bind (strip_suffix suffix rest) parse_usize)"

definition object_field :: "string \<Rightarrow> string \<Rightarrow> (string \<times> string) option" where
  "object_field expression kind =
     Option.bind (Option.bind (strip_prefix kind expression) (strip_prefix ''(\"'')) (split_once ''\").'')"

definition device_slot_field :: "string \<Rightarrow> (string \<times> usize \<times> string) option" where
  "device_slot_field expression =
     Option.bind (strip_prefix ''device(\"'' expression) (\<lambda>rest.
     Option.bind (split_once ''\").slot['' rest) (\<lambda>(ident, rest).
     Option.bind (split_once ''].'' rest) (\<lambda>(slot, name).
     map_option (\<lambda>n. (ident, n, name)) (parse_usize slot))))"

definition device_memory_cell :: "string \<Rightarrow> (string \<times> usize) option" where
  "device_memory_cell expression =
     Option.bind (strip_prefix ''device(\"'' expression) (\<lambda>rest.
     Option.bind (split_once ''\").memory['' rest) (\<lambda>(ident, address).
     map_option (Pair ident) (Option.bind (strip_suffix '']'' address) parse_usize)))"

definition find_device_index :: "'vm simulator \<Rightarrow> string \<Rightarrow> (string, usize) outcome" where
  "find_device_index s ident = o_ok_or (''unknown device `'' @ ident @ ''`'') (world_device_index (s_world s) ident)"

definition find_device :: "'vm simulator \<Rightarrow> string \<Rightarrow> (string, device) outcome" where
  "find_device s ident = obind (find_device_index s ident) (\<lambda>i. o_expect (nth_opt (w_devices (s_world s)) i))"

definition find_channel :: "'vm simulator \<Rightarrow> string \<Rightarrow> string \<Rightarrow> (string, usize \<times> usize) outcome" where
  "find_channel s ident name =
     obind (o_ok_or (''unknown network `'' @ ident @ ''`'') (network_index (s_world s) ident)) (\<lambda>network.
     obind (o_ok_or (''invalid channel `'' @ name @ ''`'') (channel_index name)) (\<lambda>channel. Ok (network, channel)))"

definition no_slot_field :: "string \<Rightarrow> usize \<Rightarrow> string \<Rightarrow> string" where
  "no_slot_field ident slot name = ''device `'' @ ident @ ''` slot '' @ show_nat slot @ '' has no field `'' @ name @ ''`''"

definition no_memory_cell :: "string \<Rightarrow> usize \<Rightarrow> string" where
  "no_memory_cell ident address = ''device `'' @ ident @ ''` memory address '' @ show_nat address @ '' is out of range''"

definition no_field :: "string \<Rightarrow> string \<Rightarrow> string" where
  "no_field ident name = ''device `'' @ ident @ ''` has no field `'' @ name @ ''`''"

text \<open>The texts \<open> \<cdot> \<close> and \<open> \<rightarrow> \<close> in UTF-8.\<close>

definition dot_text :: string where
  "dot_text = [CHR '' '', CHR 0xC2, CHR 0xB7, CHR '' '']"

definition arrow_text :: string where
  "arrow_text = [CHR '' '', CHR 0xE2, CHR 0x86, CHR 0x92, CHR '' '']"

definition describe_device :: "'vm simulator \<Rightarrow> usize \<Rightarrow> usize option \<Rightarrow> (string, string) outcome" where
  "describe_device s i connection =
     obind (o_expect (nth_opt (w_devices (s_world s)) i)) (\<lambda>d.
     (let description = dv_id d @ dot_text @ dv_name d
      in case connection of
           None \<Rightarrow> Ok description
         | Some c \<Rightarrow>
             (case bt_get (dv_connections d) c of
                Some n \<Rightarrow>
                  obind (o_expect (nth_opt (w_networks (s_world s)) n)) (\<lambda>network.
                  Ok (description @ dot_text @ ''connection '' @ show_nat c @ arrow_text @ nw_id network))
              | None \<Rightarrow> Ok (description @ dot_text @ ''connection '' @ show_nat c @ '' not attached''))))"

definition watch_reference :: "'vm simulator \<Rightarrow> usize \<Rightarrow> string \<Rightarrow> (string, string option) outcome" where
  "watch_reference s thread expression =
     (case nth_opt (s_cpus s) thread of
        None \<Rightarrow> Ok None
      | Some c \<Rightarrow>
          (let resolved = resolve_alias (c_program c) expression;
               (reference, connection) =
                 (case split_once '':'' resolved of
                    Some (r, n) \<Rightarrow> (r, parse_usize n)
                  | None \<Rightarrow> (resolved, None))
           in if reference = ''db'' then obind (describe_device s (c_housing c) connection) (\<lambda>t. Ok (Some t))
              else case Option.bind (strip_prefix ''d'' reference) parse_usize of
                     None \<Rightarrow> Ok None
                   | Some pin \<Rightarrow>
                       (case nth_opt (c_pins c) pin of
                          Some (Some i) \<Rightarrow> obind (describe_device s i connection) (\<lambda>t. Ok (Some t))
                        | _ \<Rightarrow> Ok (Some (reference @ dot_text @ ''<not set>'')))))"

section \<open>Evaluation\<close>

definition eval_location :: "'vm simulator \<Rightarrow> cpu \<Rightarrow> string \<Rightarrow> (string, f64) outcome option" where
  "eval_location s c expression =
     (case direct_register_index (resolve_alias (c_program c) expression) of
        Some i \<Rightarrow> Some (o_expect (nth_opt (c_registers c) i))
      | None \<Rightarrow>
     (case indexed expression ''stack['' '']'' of
        Some address \<Rightarrow> Some (o_ok_or (''stack address '' @ show_nat address @ '' is out of range'') (nth_opt (c_stack c) address))
      | None \<Rightarrow>
     (case device_slot_field expression of
        Some (ident, slot, name) \<Rightarrow>
          Some (obind (find_device s ident) (\<lambda>d.
            o_ok_or (no_slot_field ident slot name) (Option.bind (bt_get (dv_slots d) slot) (\<lambda>fs. bt_get fs name))))
      | None \<Rightarrow>
     (case device_memory_cell expression of
        Some (ident, address) \<Rightarrow>
          Some (obind (find_device s ident) (\<lambda>d. o_ok_or (no_memory_cell ident address) (nth_opt (dv_memory d) address)))
      | None \<Rightarrow>
     (case object_field expression ''device'' of
        Some (ident, name) \<Rightarrow>
          Some (obind (find_device s ident) (\<lambda>d. o_ok_or (no_field ident name) (bt_get (dv_fields d) name)))
      | None \<Rightarrow>
     (case object_field expression ''network'' of
        Some (ident, name) \<Rightarrow>
          Some (obind (find_channel s ident name) (\<lambda>(network, channel).
            obind (o_expect (nth_opt (w_networks (s_world s)) network)) (\<lambda>n. o_expect (nth_opt (nw_channels n) channel))))
      | None \<Rightarrow> None))))))"

definition eval_atom :: "'vm simulator \<Rightarrow> usize \<Rightarrow> string \<Rightarrow> (string, eval_value) outcome" where
  "eval_atom s thread expression =
     obind (o_ok_or (''unknown thread '' @ show_nat (thread + 1)) (nth_opt (s_cpus s) thread)) (\<lambda>c.
     if expression = ''true'' then Ok (VBoolean True)
     else if expression = ''false'' then Ok (VBoolean False)
     else if expression = ''tick'' then Ok (VNumber (f64_of_u64 (s_tick s)))
     else if expression = ''line'' then Ok (VNumber (f64_of_nat (case current_line c of Some l \<Rightarrow> l | None \<Rightarrow> c_pc c)))
     else if expression \<in> {''operationCount'', ''operationsThisTick''} then Ok (VNumber (f64_of_nat (unat (c_operations_this_tick c))))
     else if expression \<in> {''state'', ''runState''} then Ok (VText (debug_cpu_state (c_state c)))
     else case eval_location s c expression of
       Some r \<Rightarrow> obind r (\<lambda>v. Ok (VNumber v))
     | None \<Rightarrow>
         obind (watch_reference s thread expression) (\<lambda>reference.
         case reference of
           Some t \<Rightarrow> Ok (VText t)
         | None \<Rightarrow>
             (case resolve_number (c_program c) expression (s_knowledge s) of
                Inr v \<Rightarrow> Ok (VNumber v)
              | Inl _ \<Rightarrow> obind (parse_number expression) (\<lambda>v. Ok (VNumber v)))))"

text \<open>The result that the left operand of a logical operator already decides.\<close>

definition short_circuit :: "string \<Rightarrow> eval_value \<Rightarrow> (string, eval_value option) outcome" where
  "short_circuit op l =
     (if op = ''&&'' then obind (truthy l) (\<lambda>t. Ok (if t then None else Some (VBoolean False)))
      else if op = ''||'' then obind (truthy l) (\<lambda>t. Ok (if t then Some (VBoolean True) else None))
      else Ok None)"

definition apply_function ::
  "(string \<Rightarrow> f64 \<Rightarrow> bool) \<Rightarrow> string \<Rightarrow> string \<Rightarrow> eval_value \<Rightarrow> (string, eval_value) outcome \<Rightarrow> (string, eval_value) outcome" where
  "apply_function changed name argument v other =
     (if name = ''abs'' then obind (number_value v) (\<lambda>x. Ok (VNumber (f64_abs x)))
      else if name = ''isnan'' then obind (number_value v) (\<lambda>x. Ok (VBoolean (is_nan x)))
      else if name = ''isfinite'' then obind (number_value v) (\<lambda>x. Ok (VBoolean (is_finite x)))
      else if name = ''changed'' then obind (number_value v) (\<lambda>x. Ok (VBoolean (changed (trim argument) x)))
      else other)"

function evaluate_inner ::
  "(string \<Rightarrow> f64 \<Rightarrow> bool) \<Rightarrow> 'vm simulator \<Rightarrow> usize \<Rightarrow> string \<Rightarrow> (string, eval_value) outcome" where
  "evaluate_inner changed s thread e =
     obind (first_split operator_levels e) (\<lambda>found.
     case found of
       Some (left, op, right) \<Rightarrow>
         if trim left = [] \<or> trim right = [] then Err (''operator `'' @ op @ ''` requires two operands'')
         else obind (evaluate_inner changed s thread (trim_outer (trim left))) (\<lambda>l.
              obind (short_circuit op l) (\<lambda>decided.
              case decided of
                Some v \<Rightarrow> Ok v
              | None \<Rightarrow>
                  obind (evaluate_inner changed s thread (trim_outer (trim right))) (\<lambda>r.
                  binary_values l op r)))
     | None \<Rightarrow>
         (case strip_prefix ''!'' e of
            Some rest \<Rightarrow>
              obind (evaluate_inner changed s thread rest) (\<lambda>v. obind (truthy v) (\<lambda>t. Ok (VBoolean (\<not> t))))
          | None \<Rightarrow>
         (case strip_prefix ''+'' e of
            Some rest \<Rightarrow>
              obind (evaluate_inner changed s thread rest) (\<lambda>v. obind (number_value v) (\<lambda>x. Ok (VNumber x)))
          | None \<Rightarrow>
         (case strip_prefix ''-'' e of
            Some rest \<Rightarrow>
              obind (evaluate_inner changed s thread rest) (\<lambda>v. obind (number_value v) (\<lambda>x. Ok (VNumber (f64_neg x))))
          | None \<Rightarrow>
         (case function_call e of
            Some (name, argument) \<Rightarrow>
              obind (evaluate_inner changed s thread (trim_outer (trim argument))) (\<lambda>v.
              apply_function changed name argument v (eval_atom s thread e))
          | None \<Rightarrow> eval_atom s thread e)))))"
  by pat_completeness auto

lemma operand_shorter:
  "first_split operator_levels e = Ok (Some (l, op, r)) \<Longrightarrow> length (trim_outer (trim l)) < length e"
  "first_split operator_levels e = Ok (Some (l, op, r)) \<Longrightarrow> length (trim_outer (trim r)) < length e"
  "function_call e = Some (name, argument) \<Longrightarrow> length (trim_outer (trim argument)) < length e"
proof -
  have "length (trim_outer (trim x)) \<le> length x" for x using length_trim_outer [of "trim x"] length_trim [of x] by linarith
  then show "first_split operator_levels e = Ok (Some (l, op, r)) \<Longrightarrow> length (trim_outer (trim l)) < length e"
    "first_split operator_levels e = Ok (Some (l, op, r)) \<Longrightarrow> length (trim_outer (trim r)) < length e"
    "function_call e = Some (name, argument) \<Longrightarrow> length (trim_outer (trim argument)) < length e"
    using first_split_eq [OF _ operator_levels_nonempty] function_call_shorter by (fastforce intro: le_less_trans)+
qed

termination evaluate_inner
  by (relation "measure (\<lambda>(changed, s, thread, e). length e)") (auto simp: strip_prefix_eq_Some dest: operand_shorter)

declare evaluate_inner.simps [simp del]

definition evaluate_with_changed ::
  "(string \<Rightarrow> f64 \<Rightarrow> bool) \<Rightarrow> 'vm simulator \<Rightarrow> usize \<Rightarrow> string \<Rightarrow> (string, eval_value) outcome" where
  "evaluate_with_changed changed s thread expression =
     (let e = trim expression
      in if e = [] then Err ''expression is empty''
         else obind (validate_delimiters e) (\<lambda>_. evaluate_inner changed s thread (trim_outer e)))"

definition evaluate :: "'vm simulator \<Rightarrow> usize \<Rightarrow> string \<Rightarrow> (string, eval_value) outcome" where
  "evaluate s thread expression = evaluate_with_changed (\<lambda>_ _. False) s thread expression"

section \<open>Assignments\<close>

datatype assignable_target =
    AtRegister usize usize
  | AtStack usize usize
  | AtDeviceSlot usize usize string
  | AtDeviceMemory usize usize
  | AtDeviceField usize string
  | AtNetworkChannel usize usize

definition validate_device_target ::
  "'vm simulator \<Rightarrow> string \<Rightarrow> (device \<Rightarrow> bool) \<Rightarrow> (usize \<Rightarrow> assignable_target) \<Rightarrow> string \<Rightarrow> (string, assignable_target) outcome" where
  "validate_device_target s ident present target message =
     obind (find_device_index s ident) (\<lambda>i.
     obind (o_expect (nth_opt (w_devices (s_world s)) i)) (\<lambda>d.
     if present d then Ok (target i) else Err message))"

definition validate_assignable_target :: "'vm simulator \<Rightarrow> usize \<Rightarrow> string \<Rightarrow> (string, assignable_target) outcome" where
  "validate_assignable_target s thread text =
     (let target = trim text
      in case direct_register_index target of
        Some register \<Rightarrow>
          (if Option.bind (nth_opt (s_cpus s) thread) (\<lambda>c. nth_opt (c_registers c) register) \<noteq> None
           then Ok (AtRegister thread register) else Err ''register target is out of range'')
      | None \<Rightarrow>
     (case indexed target ''stack['' '']'' of
        Some address \<Rightarrow>
          (if Option.bind (nth_opt (s_cpus s) thread) (\<lambda>c. nth_opt (c_stack c) address) \<noteq> None
           then Ok (AtStack thread address) else Err ''stack target is out of range'')
      | None \<Rightarrow>
     (case device_slot_field target of
        Some (ident, slot, name) \<Rightarrow>
          validate_device_target s ident (\<lambda>d. Option.bind (bt_get (dv_slots d) slot) (\<lambda>fs. bt_get fs name) \<noteq> None)
            (\<lambda>i. AtDeviceSlot i slot name) (no_slot_field ident slot name)
      | None \<Rightarrow>
     (case device_memory_cell target of
        Some (ident, address) \<Rightarrow>
          validate_device_target s ident (\<lambda>d. nth_opt (dv_memory d) address \<noteq> None) (\<lambda>i. AtDeviceMemory i address)
            (no_memory_cell ident address)
      | None \<Rightarrow>
     (case object_field target ''device'' of
        Some (ident, name) \<Rightarrow>
          validate_device_target s ident (\<lambda>d. bt_get (dv_fields d) name \<noteq> None) (\<lambda>i. AtDeviceField i name) (no_field ident name)
      | None \<Rightarrow>
     (case object_field target ''network'' of
        Some (ident, name) \<Rightarrow>
          obind (find_channel s ident name) (\<lambda>(network, channel). Ok (AtNetworkChannel network channel))
      | None \<Rightarrow> Err (''`'' @ target @ ''` is not an assignable simulator location'')))))))"

definition assignable_target_matches_write :: "'vm simulator \<Rightarrow> assignable_target \<Rightarrow> effect_target \<Rightarrow> bool" where
  "assignable_target_matches_write s target written =
     (case target of
        AtRegister i register \<Rightarrow> (case written of TRegister j actual \<Rightarrow> i = j \<and> register = unat actual | _ \<Rightarrow> False)
      | AtStack i address \<Rightarrow> (case written of TStack j actual \<Rightarrow> i = j \<and> address = unat actual | _ \<Rightarrow> False)
      | AtDeviceSlot i slot name \<Rightarrow>
          (case written of
             TDeviceSlot j actual field \<Rightarrow> i = j \<and> slot = unat actual \<and> j_resolve (s_journal s) field = Some name
           | _ \<Rightarrow> False)
      | AtDeviceMemory i address \<Rightarrow> (case written of TDeviceMemory j actual \<Rightarrow> i = j \<and> address = unat actual | _ \<Rightarrow> False)
      | AtDeviceField i name \<Rightarrow>
          (case written of TDeviceField j field \<Rightarrow> i = j \<and> j_resolve (s_journal s) field = Some name | _ \<Rightarrow> False)
      | AtNetworkChannel i channel \<Rightarrow>
          (case written of TNetworkChannel j actual \<Rightarrow> i = j \<and> channel = unat actual | _ \<Rightarrow> False))"

text \<open>The messages of the setters.\<close>

fun setter_error_text :: "sim_error \<Rightarrow> string" where
  "setter_error_text (TargetOutOfRange what) = what @ '' target is out of range''"
| "setter_error_text (UnknownDevice ident) = ''unknown device `'' @ ident @ ''`''"
| "setter_error_text (NoSuchField ident name) = no_field ident name"
| "setter_error_text (TargetUnavailable what) =
     (if what \<in> {''source'', ''destination''} then what @ '' device slot is unavailable''
      else ''device '' @ what @ '' target is unavailable'')"
| "setter_error_text _ = []"

definition map_prog_err :: "('e \<Rightarrow> 'f) \<Rightarrow> ('s, 'e, 'a) prog \<Rightarrow> ('s, 'f, 'a) prog" where
  "map_prog_err f m s = (case m s of (Ok x, s') \<Rightarrow> (Ok x, s') | (Err e, s') \<Rightarrow> (Err (f e), s') | (Panic, s') \<Rightarrow> (Panic, s'))"

definition lift_outcome :: "('s \<Rightarrow> ('e, 'a) outcome) \<Rightarrow> ('s, 'e, 'a) prog" where
  "lift_outcome f s = (f s, s)"

fun assign_target :: "assignable_target \<Rightarrow> f64 \<Rightarrow> effect_actor \<Rightarrow> ('vm, unit) sim_prog" where
  "assign_target (AtRegister i register) v actor = set_register_as i register v actor"
| "assign_target (AtStack i address) v actor = set_stack_as i address v actor"
| "assign_target (AtDeviceSlot i slot name) v actor = set_device_slot_as i slot name v actor"
| "assign_target (AtDeviceMemory i address) v actor = set_device_memory_as i address v actor"
| "assign_target (AtDeviceField i name) v actor = bind (s_device i) (\<lambda>d. set_device_field_as (dv_id d) name v actor)"
| "assign_target (AtNetworkChannel i channel) v actor = set_network_channel_as i channel v actor"

definition set_value_as :: "usize \<Rightarrow> string \<Rightarrow> f64 \<Rightarrow> effect_actor \<Rightarrow> ('vm simulator, string, unit) prog" where
  "set_value_as thread target v actor =
     bind (lift_outcome (\<lambda>s. validate_assignable_target s thread target)) (\<lambda>t.
     map_prog_err setter_error_text (assign_target t v actor))"

definition set_value :: "usize \<Rightarrow> string \<Rightarrow> f64 \<Rightarrow> ('vm simulator, string, unit) prog" where
  "set_value thread target v = set_value_as thread target v ActorScenario"

end
