(* ===== verification/Script_Driver.thy ===== *)
theory Script_Driver
  imports Evaluator "HOL-Library.Product_Lexorder"
begin

text \<open>
  The scripted drivers of scenario tests, \<open>crates/ic10-runner/src/script_driver.rs\<close> with the declarations of
  \<open>schema.rs\<close> they run: rules that react to writes, actions that wait for a tick, and the limits on both. The state of
  the drivers is kept in the simulator in serialised form; the serialisation is third-party code and a parameter, the
  record \<open>driver_codec\<close>.
\<close>

section \<open>Declarations\<close>

datatype script_action =
    ActSet string scalar
  | ActMoveSlot string string
  | ActPublish string u8 scalar
  | ActSchedule u64 "script_action list"

record script_trigger =
  tr_target :: string
  tr_equals :: "scalar option"

record scripted_rule =
  ru_name :: "string option"
  ru_when :: script_trigger
  ru_actions :: "script_action list"

record scripted_driver =
  dr_id :: string
  dr_model :: string
  dr_version :: u32
  dr_rules :: "scripted_rule list"

text \<open>The checks of a fixture: at most eight levels of scheduled actions and 1024 actions in a rule.\<close>

fun visit_action :: "nat \<Rightarrow> script_action \<Rightarrow> nat \<Rightarrow> (string, nat) outcome"
and visit_actions :: "nat \<Rightarrow> script_action list \<Rightarrow> nat \<Rightarrow> (string, nat) outcome" where
  "visit_actions depth [] count = Ok count"
| "visit_actions depth (a # as) count =
     (if 1024 < count + 1 then Err ''scripted actions exceed limit 1024''
      else obind (visit_action depth a (count + 1)) (visit_actions depth as))"
| "visit_action depth (ActSet _ _) count = Ok count"
| "visit_action depth (ActMoveSlot from to) count =
     (if trim from = [] \<or> trim to = [] then Err ''moveSlot requires source and destination slots'' else Ok count)"
| "visit_action depth (ActPublish _ channel _) count =
     (if 7 < channel then Err ''publish channel must be from 0 to 7'' else Ok count)"
| "visit_action depth (ActSchedule _ actions) count =
     (if actions = [] then Err ''schedule requires at least one nested action''
      else if 8 < depth + 1 then Err ''scheduled actions exceed nesting limit 8''
      else visit_actions (depth + 1) actions count)"

definition validate_script_actions :: "script_action list \<Rightarrow> (string, unit) outcome" where
  "validate_script_actions actions = obind (visit_actions 0 actions 0) (\<lambda>_. Ok ())"

section \<open>State\<close>

record pending_action =
  pa_tick :: u64
  pa_sequence :: u64
  pa_driver :: usize
  pa_rule :: usize
  pa_action :: script_action

record persisted_state =
  pst_pending :: "pending_action list"
  pst_sequence :: u64
  pst_actions_run :: usize
  pst_write_cursor :: u64

record state_envelope =
  en_format_version :: u32
  en_fingerprint :: u64
  en_state :: persisted_state

record driver_codec =
  cd_encode :: "state_envelope \<Rightarrow> string + u8 list"
  cd_decode :: "u8 list \<Rightarrow> string + state_envelope"
  cd_definitions :: "scripted_driver list \<Rightarrow> string + u8 list"

record script_drivers =
  sd_definitions :: "scripted_driver list"
  sd_triggers :: "assignable_target list"
  sd_fingerprint :: u64
  sd_state :: persisted_state

text \<open>The drivers together with the simulator they borrow.\<close>

record 'vm drive =
  dx_drivers :: script_drivers
  dx_sim :: "'vm simulator"

type_synonym ('vm, 'a) drive_prog = "('vm drive, string, 'a) prog"

definition on_sim :: "('vm simulator, string, 'a) prog \<Rightarrow> ('vm, 'a) drive_prog" where
  "on_sim m x = (case m (dx_sim x) of (r, s) \<Rightarrow> (r, x\<lparr>dx_sim := s\<rparr>))"

definition update_state :: "(persisted_state \<Rightarrow> persisted_state) \<Rightarrow> ('vm, unit) drive_prog" where
  "update_state f = modify (\<lambda>x. x\<lparr>dx_drivers := (dx_drivers x)\<lparr>sd_state := f (sd_state (dx_drivers x))\<rparr>\<rparr>)"

definition max_cascades_per_pump :: nat where "max_cascades_per_pump = 64"
definition max_actions_per_case :: usize where "max_actions_per_case = 10000"
definition max_pending_events :: usize where "max_pending_events = 2048"
definition state_format_version :: u32 where "state_format_version = 1"
definition state_key :: string where "state_key = ''scenario.scripted/v1''"

definition default_state :: persisted_state where
  "default_state = \<lparr>pst_pending = [], pst_sequence = 0, pst_actions_run = 0, pst_write_cursor = 0\<rparr>"

definition scalar_or_nan :: "scalar \<Rightarrow> f64" where
  "scalar_or_nan v = (case scalar_as_f64 v of Some x \<Rightarrow> x | None \<Rightarrow> f64_nan)"

definition provenance :: "scripted_driver \<Rightarrow> usize \<Rightarrow> string \<Rightarrow> (string, string) outcome" where
  "provenance driver rule message =
     obind (o_expect (nth_opt (dr_rules driver) rule)) (\<lambda>r.
     (let name = (case ru_name r of Some n \<Rightarrow> n | None \<Rightarrow> ''#'' @ show_nat (rule + 1))
      in Ok (''scripted driver `'' @ dr_id driver @ ''` model '' @ dr_model driver @ ''@'' @ show_nat (unat (dr_version driver)) @
             '' rule `'' @ name @ ''` failed: '' @ message)))"

text \<open>\<open>Err(provenance(..))\<close>, and \<open>map_err\<close> with it.\<close>

definition throw_provenance :: "scripted_driver \<Rightarrow> usize \<Rightarrow> string \<Rightarrow> ('s, string, 'a) prog" where
  "throw_provenance driver rule message s =
     (case provenance driver rule message of Ok t \<Rightarrow> (Err t, s) | _ \<Rightarrow> (Panic, s))"

definition with_provenance :: "scripted_driver \<Rightarrow> usize \<Rightarrow> (string \<Rightarrow> string) \<Rightarrow> ('s, string, 'a) prog \<Rightarrow> ('s, string, 'a) prog" where
  "with_provenance driver rule f m s =
     (case m s of (Err e, s') \<Rightarrow> throw_provenance driver rule (f e) s' | r \<Rightarrow> r)"

definition slot_endpoint :: "'vm simulator \<Rightarrow> string \<Rightarrow> (string, usize \<times> usize) outcome" where
  "slot_endpoint s endpoint =
     (let invalid = ''invalid slot endpoint `'' @ endpoint @ ''`''
      in obind (o_ok_or invalid (strip_prefix ''device(\"'' (trim endpoint))) (\<lambda>rest.
         obind (o_ok_or invalid (split_once ''\").slot['' rest)) (\<lambda>(ident, slot).
         obind (o_ok_or invalid (Option.bind (strip_suffix '']'' slot) parse_usize)) (\<lambda>slot.
         obind (o_ok_or (''unknown device in slot endpoint `'' @ endpoint @ ''`'') (world_device_index (s_world s) ident)) (\<lambda>i.
         obind (o_expect (nth_opt (w_devices (s_world s)) i)) (\<lambda>d.
         if bt_get (dv_slots d) slot = None then Err (''slot endpoint `'' @ endpoint @ ''` is unavailable'')
         else Ok (i, slot)))))))"

section \<open>Running actions\<close>

definition push_pending :: "u64 \<Rightarrow> u64 \<Rightarrow> usize \<Rightarrow> usize \<Rightarrow> script_action \<Rightarrow> persisted_state \<Rightarrow> persisted_state" where
  "push_pending now after_ticks driver rule action st =
     (let tick = (if 2 ^ 64 \<le> uint now + uint after_ticks then -1 else now + after_ticks)
      in st\<lparr>pst_sequence := pst_sequence st + 1,
            pst_pending := pst_pending st @ [\<lparr>pa_tick = tick, pa_sequence = pst_sequence st, pa_driver = driver, pa_rule = rule,
              pa_action = action\<rparr>]\<rparr>)"

definition sort_pending :: "persisted_state \<Rightarrow> persisted_state" where
  "sort_pending st = st\<lparr>pst_pending := sort_key (\<lambda>a. (pa_tick a, pa_sequence a)) (pst_pending st)\<rparr>"

definition drive_action :: "usize \<Rightarrow> scripted_driver \<Rightarrow> usize \<Rightarrow> usize \<Rightarrow> effect_actor \<Rightarrow> script_action \<Rightarrow> ('vm, unit) drive_prog" where
  "drive_action thread driver driver_index rule actor action =
     (case action of
        ActSet target v \<Rightarrow>
          with_provenance driver rule id (on_sim (set_value_as thread target (scalar_or_nan v) actor))
      | ActPublish network channel v \<Rightarrow>
          with_provenance driver rule id (on_sim (set_value_as thread
            (''network(\"'' @ network @ ''\").Channel'' @ show_nat (unat channel)) (scalar_or_nan v) actor))
      | ActMoveSlot from to \<Rightarrow>
          bind (on_sim (lift_outcome (\<lambda>s. slot_endpoint s from))) (\<lambda>(from_device, from_slot).
          bind (on_sim (lift_outcome (\<lambda>s. slot_endpoint s to))) (\<lambda>(to_device, to_slot).
          with_provenance driver rule id (on_sim (map_prog_err setter_error_text
            (move_slot_item_as from_device from_slot to_device to_slot actor)))))
      | ActSchedule after_ticks actions \<Rightarrow>
          bind (gets (\<lambda>x. length (pst_pending (sd_state (dx_drivers x))))) (\<lambda>pending.
          if max_pending_events < pending + length actions then throw_provenance driver rule ''pending event limit 2048 exceeded''
          else bind (gets (\<lambda>x. s_tick (dx_sim x))) (\<lambda>now.
               update_state (\<lambda>st. sort_pending (fold (push_pending now after_ticks driver_index rule) actions st)))))"

definition drive_execute :: "usize \<Rightarrow> usize \<Rightarrow> usize \<Rightarrow> script_action \<Rightarrow> ('vm, unit) drive_prog" where
  "drive_execute thread driver_index rule action =
     bind (update_state (\<lambda>st. st\<lparr>pst_actions_run := pst_actions_run st + 1\<rparr>)) (\<lambda>_.
     bind (gets (\<lambda>x. nth_opt (sd_definitions (dx_drivers x)) driver_index)) (\<lambda>found.
     bind (expect found) (\<lambda>driver.
     bind (gets (\<lambda>x. pst_actions_run (sd_state (dx_drivers x)))) (\<lambda>run.
     if max_actions_per_case < run then throw_provenance driver rule ''action limit 10000 exceeded''
     else bind (on_sim (map_prog_err setter_error_text (scripted_driver_actor (dr_id driver) rule))) (\<lambda>actor.
          drive_action thread driver driver_index rule actor action)))))"

section \<open>Reacting to writes\<close>

text \<open>The rules in the order in which their triggers are stored.\<close>

definition flat_rules :: "scripted_driver list \<Rightarrow> (usize \<times> usize \<times> scripted_rule) list" where
  "flat_rules definitions =
     concat (map (\<lambda>(d, driver). map (\<lambda>(r, rule). (d, r, rule)) (List.enumerate 0 (dr_rules driver))) (List.enumerate 0 definitions))"

definition rule_triggered :: "'vm simulator \<Rightarrow> assignable_target \<Rightarrow> scripted_rule \<Rightarrow> write_effect \<Rightarrow> bool" where
  "rule_triggered s trigger rule write \<longleftrightarrow>
     assignable_target_matches_write s trigger (we_target write) \<and>
     (case tr_equals (ru_when rule) of Some v \<Rightarrow> to_bits (scalar_or_nan v) = we_after_bits write | None \<Rightarrow> True)"

definition triggered_rules ::
  "'vm simulator \<Rightarrow> assignable_target list \<Rightarrow> scripted_driver list \<Rightarrow> sequenced_write_effect list \<Rightarrow> (usize \<times> usize \<times> script_action list) list" where
  "triggered_rules s triggers definitions writes =
     concat (map (\<lambda>w. List.map_filter (\<lambda>(trigger, d, r, rule).
       if rule_triggered s trigger rule (sw_effect w) then Some (d, r, ru_actions rule) else None)
       (zip triggers (flat_rules definitions))) writes)"

text \<open>
  The loop over cascades, with the number of rounds left: the last round may only find that nothing was triggered.
\<close>

fun react_loop :: "usize \<Rightarrow> nat \<Rightarrow> ('vm, unit) drive_prog" where
  "react_loop thread 0 = ret ()"
| "react_loop thread (Suc n) =
     bind get_state (\<lambda>x.
     (let d = dx_drivers x; cursor = pst_write_cursor (sd_state d); writes = j_writes_after (s_journal (dx_sim x)) cursor
      in if writes = [] then ret ()
         else if length (sd_triggers d) < length (flat_rules (sd_definitions d)) then panic
         else
           (let triggered = triggered_rules (dx_sim x) (sd_triggers d) (sd_definitions d) writes; cursor = sw_sequence (last writes)
            in bind (update_state (\<lambda>st. st\<lparr>pst_write_cursor := cursor\<rparr>)) (\<lambda>_.
               bind (modify (\<lambda>x. x\<lparr>dx_sim := (dx_sim x)\<lparr>s_journal := j_acknowledge_writes_through cursor (s_journal (dx_sim x))\<rparr>\<rparr>)) (\<lambda>_.
               case triggered of
                 [] \<Rightarrow> ret ()
               | (driver_index, rule, _) # _ \<Rightarrow>
                   if n = 0 then
                     bind (expect (nth_opt (sd_definitions d) driver_index)) (\<lambda>driver.
                     throw_provenance driver rule ''reaction cascade exceeded limit 64 (possible scripted cycle)'')
                   else
                     bind (for_each triggered (\<lambda>(driver_index, rule, actions).
                       for_each actions (drive_execute thread driver_index rule))) (\<lambda>_.
                     react_loop thread n))))))"

definition react_to_writes :: "usize \<Rightarrow> ('vm, unit) drive_prog" where
  "react_to_writes thread = react_loop thread (Suc max_cascades_per_pump)"

definition persist :: "driver_codec \<Rightarrow> effect_actor \<Rightarrow> ('vm, unit) drive_prog" where
  "persist codec actor =
     bind (gets (\<lambda>x. cd_encode codec \<lparr>en_format_version = state_format_version, en_fingerprint = sd_fingerprint (dx_drivers x),
       en_state = sd_state (dx_drivers x)\<rparr>)) (\<lambda>encoded.
     case encoded of
       Inl e \<Rightarrow> throw (''could not serialize scripted driver state: '' @ e)
     | Inr data \<Rightarrow> on_sim (map_prog_err setter_error_text (set_test_driver_state state_key data actor)))"

definition pump :: "driver_codec \<Rightarrow> usize \<Rightarrow> ('vm, unit) drive_prog" where
  "pump codec thread =
     bind get_state (\<lambda>x.
     (let pending = pst_pending (sd_state (dx_drivers x)); due = takeWhile (\<lambda>a. pa_tick a \<le> s_tick (dx_sim x)) pending
      in bind (update_state (\<lambda>st. st\<lparr>pst_pending := drop (length due) pending\<rparr>)) (\<lambda>_.
         bind (for_each due (\<lambda>a. drive_execute thread (pa_driver a) (pa_rule a) (pa_action a))) (\<lambda>_.
         bind (react_to_writes thread) (\<lambda>_.
         persist codec ActorScenario)))))"

section \<open>Setting up\<close>

fun validate_action :: "'vm simulator \<Rightarrow> usize \<Rightarrow> scripted_driver \<Rightarrow> usize \<Rightarrow> script_action \<Rightarrow> (unit, string, unit) prog"
and validate_actions :: "'vm simulator \<Rightarrow> usize \<Rightarrow> scripted_driver \<Rightarrow> usize \<Rightarrow> script_action list \<Rightarrow> (unit, string, unit) prog" where
  "validate_actions s thread driver rule [] = ret ()"
| "validate_actions s thread driver rule (a # as) =
     bind (validate_action s thread driver rule a) (\<lambda>_. validate_actions s thread driver rule as)"
| "validate_action s thread driver rule (ActSet target _) =
     with_provenance driver rule (\<lambda>e. ''invalid set target: '' @ e)
       (bind (lift_outcome (\<lambda>_. validate_assignable_target s thread target)) (\<lambda>_. ret ()))"
| "validate_action s thread driver rule (ActMoveSlot from to) =
     bind (with_provenance driver rule id (lift_outcome (\<lambda>_. slot_endpoint s from))) (\<lambda>_.
     bind (with_provenance driver rule id (lift_outcome (\<lambda>_. slot_endpoint s to))) (\<lambda>_. ret ()))"
| "validate_action s thread driver rule (ActPublish network channel _) =
     (if 7 < channel \<or> network_index (s_world s) network = None
      then throw_provenance driver rule ''publish references an invalid network/channel'' else ret ())"
| "validate_action s thread driver rule (ActSchedule _ actions) = validate_actions s thread driver rule actions"

definition validate_rule :: "'vm simulator \<Rightarrow> usize \<Rightarrow> scripted_driver \<Rightarrow> usize \<times> scripted_rule \<Rightarrow> assignable_target list
    \<Rightarrow> (string, assignable_target list) outcome" where
  "validate_rule s thread driver = (\<lambda>(i, rule) triggers.
     fst (bind (with_provenance driver i (\<lambda>e. ''invalid trigger target: '' @ e)
              (lift_outcome (\<lambda>_. validate_assignable_target s thread (tr_target (ru_when rule))))) (\<lambda>t.
          bind (validate_actions s thread driver i (ru_actions rule)) (\<lambda>_. ret (triggers @ [t]))) ()))"

definition validate_targets :: "'vm simulator \<Rightarrow> usize \<Rightarrow> scripted_driver list \<Rightarrow> (string, assignable_target list) outcome" where
  "validate_targets s thread definitions =
     ofold (\<lambda>(i, driver) triggers.
       obind (ofold (validate_rule s thread driver) (List.enumerate 0 (dr_rules driver)) triggers) (\<lambda>triggers.
       if trim (dr_id driver) = [] then Err (''scripted driver #'' @ show_nat (i + 1) @ '' has an empty id'') else Ok triggers))
       (List.enumerate 0 definitions) []"

definition reload :: "driver_codec \<Rightarrow> ('vm, unit) drive_prog" where
  "reload codec =
     bind get_state (\<lambda>x.
     case test_driver_state (dx_sim x) state_key of
       None \<Rightarrow> update_state (\<lambda>_. default_state)
     | Some data \<Rightarrow>
         (case cd_decode codec data of
            Inl e \<Rightarrow> throw (''scripted driver state is corrupt: '' @ e)
          | Inr envelope \<Rightarrow>
              if en_format_version envelope \<noteq> state_format_version then
                throw (''unsupported scripted driver state version '' @ show_nat (unat (en_format_version envelope)))
              else if en_fingerprint envelope \<noteq> sd_fingerprint (dx_drivers x) then
                throw ''scripted driver state belongs to different driver definitions''
              else update_state (\<lambda>_. en_state envelope)))"

definition definition_fingerprint :: "driver_codec \<Rightarrow> scripted_driver list \<Rightarrow> (string, u64) outcome" where
  "definition_fingerprint codec definitions =
     (case cd_definitions codec definitions of
        Inl e \<Rightarrow> Err (''could not fingerprint scripted drivers: '' @ e)
      | Inr data \<Rightarrow> Ok (fnv_add (enc_usize (length data) @ data) 0xcbf29ce484222325))"

definition drivers_new :: "driver_codec \<Rightarrow> usize \<Rightarrow> scripted_driver list \<Rightarrow> ('vm simulator, string, script_drivers) prog" where
  "drivers_new codec thread definitions s =
     (let s = set_journaling True s
      in case obind (definition_fingerprint codec definitions) (\<lambda>fingerprint.
              obind (validate_targets s thread definitions) (\<lambda>triggers. Ok (fingerprint, triggers))) of
           Err e \<Rightarrow> (Err e, s)
         | Panic \<Rightarrow> (Panic, s)
         | Ok (fingerprint, triggers) \<Rightarrow>
             (case bind (reload codec) (\<lambda>_.
                     bind (gets (\<lambda>x. test_driver_state (dx_sim x) state_key)) (\<lambda>saved.
                     case saved of
                       Some _ \<Rightarrow> ret ()
                     | None \<Rightarrow>
                         bind (gets (\<lambda>x. j_write_sequence (s_journal (dx_sim x)))) (\<lambda>cursor.
                         bind (update_state (\<lambda>st. st\<lparr>pst_write_cursor := cursor\<rparr>)) (\<lambda>_.
                         persist codec ActorScenario))))
                   \<lparr>dx_drivers = \<lparr>sd_definitions = definitions, sd_triggers = triggers, sd_fingerprint = fingerprint,
                      sd_state = default_state\<rparr>, dx_sim = s\<rparr> of
                (r, x) \<Rightarrow> (case r of Ok _ \<Rightarrow> Ok (dx_drivers x) | Err e \<Rightarrow> Err e | Panic \<Rightarrow> Panic, dx_sim x)))"

definition has_pending :: "script_drivers \<Rightarrow> bool" where
  "has_pending d \<longleftrightarrow> pst_pending (sd_state d) \<noteq> []"

end
