(* ===== verification/Test_Schema.thy ===== *)
theory Test_Schema
  imports Script_Driver
begin

text \<open>
  The declarations of a test fixture, \<open>crates/ic10-runner/src/schema.rs\<close>, and the checks of \<open>ScenarioTest::load\<close> after
  the file has been read and deserialised. Paths are strings with the separators of a Unix system.
\<close>

section \<open>Declarations\<close>

record tolerance =
  to_absolute :: f64
  to_relative :: f64

record assertion =
  as_expression :: "string option"
  as_eventually :: "string option"
  as_always :: "string option"
  as_at_tick :: "u64 option"
  as_within_ticks :: "u64 option"
  as_expected :: "scalar option"
  as_tolerance :: "tolerance option"

record state_event =
  sv_target :: string
  sv_value :: scalar

record timeline_entry =
  tl_tick :: u64
  tl_set :: "(string, scalar) btree_map"
  tl_events :: "state_event list"

datatype error_kind = KindCompile | KindRuntime

record error_expectation =
  ee_kind :: error_kind
  ee_message_contains :: "string option"

record lua_module_spec =
  lm_profile :: string
  lm_module_roots :: "string list"
  lm_memory_limit_bytes :: usize
  lm_max_output_bytes :: usize
  lm_max_modules :: usize
  lm_max_source_bytes :: usize
  lm_max_recursion_depth :: usize

text \<open>The parameter sets of a case are substituted in its serialised form; a case is modelled after that.\<close>

record test_case =
  tc_name :: string
  tc_max_ticks :: u64
  tc_max_operations :: u64
  tc_program :: "string option"
  tc_execution :: "lua_module_spec option"
  tc_initial :: "(string, scalar) btree_map"
  tc_timeline :: "timeline_entry list"
  tc_drivers :: "scripted_driver list"
  tc_assertions :: "assertion list"
  tc_expect_error :: "error_expectation option"
  tc_snapshot :: "(string, scalar) btree_map option"

record scenario_test =
  st_schema_version :: u32
  st_scenario :: string
  st_seed :: u64
  st_cases :: "test_case list"

datatype test_file_error = TestVersion u32 | TestValidation string

text \<open>\<open>Assertion::expression\<close>: exactly one of the three forms, and a deadline only with \<open>eventually\<close>.\<close>

definition assertion_expression :: "assertion \<Rightarrow> string + string" where
  "assertion_expression a =
     (let expressions = List.map_filter id [as_expression a, as_eventually a, as_always a]
      in if length expressions \<noteq> 1 then Inl ''assertion requires exactly one of `expression`, `eventually`, or `always`''
         else if as_eventually a = None \<and> as_within_ticks a \<noteq> None then Inl ''`withinTicks` is only valid with `eventually`''
         else Inr (hd expressions))"

section \<open>Paths\<close>

fun split_at :: "(char \<Rightarrow> bool) \<Rightarrow> string \<Rightarrow> string list" where
  "split_at sep [] = [[]]"
| "split_at sep (c # cs) =
     (if sep c then [] # split_at sep cs
      else case split_at sep cs of l # ls \<Rightarrow> (c # l) # ls | [] \<Rightarrow> [[c]])"

definition is_obsolete_workspace_path :: "string \<Rightarrow> bool" where
  "is_obsolete_workspace_path path =
     list_ex (\<lambda>suffix. ends_with suffix path)
       [''.ic10sim.json'', ''.ic10test.json'', ''.ic10sim.layout.json'',
        ''.stationeerssim.json'', ''.stationeerstest.json'', ''.stationeerssim.layout.json'']"

definition has_drive :: "string \<Rightarrow> bool" where
  "has_drive path = (case path of d # c # _ \<Rightarrow> is_ascii_alphabetic d \<and> c = CHR '':'' | _ \<Rightarrow> False)"

definition is_workspace_relative_path :: "string \<Rightarrow> bool" where
  "is_workspace_relative_path path \<longleftrightarrow>
     trim path \<noteq> [] \<and> \<not> starts_with ''/'' path \<and> \<not> starts_with [CHR 0x5C] path \<and> \<not> has_drive path"

definition is_portable_relative_path :: "string \<Rightarrow> bool" where
  "is_portable_relative_path path \<longleftrightarrow>
     trim path \<noteq> [] \<and> \<not> starts_with ''/'' path \<and> \<not> starts_with [CHR 0x5C] path \<and> \<not> has_drive path \<and>
     \<not> list_ex (\<lambda>component. component = ''..'') (split_at (\<lambda>c. c = CHR ''/'' \<or> c = CHR 0x5C) path)"

text \<open>The name of the directory that holds a file: \<open>path.parent().and_then(Path::file_name)\<close>.\<close>

definition parent_name :: "string \<Rightarrow> string option" where
  "parent_name path =
     (let parents = butlast (filter (\<lambda>c. c \<noteq> [] \<and> c \<noteq> ''.'') (split_at (\<lambda>c. c = CHR ''/'') path))
      in if parents = [] \<or> last parents = ''..'' then None else Some (last parents))"

definition in_testing :: "string \<Rightarrow> bool" where
  "in_testing path = (case parent_name path of Some name \<Rightarrow> eq_ignore_ascii_case name ''testing'' | None \<Rightarrow> False)"

section \<open>Checking a fixture\<close>

definition lua_profile_id :: string where
  "lua_profile_id = ''stationeerslua-0.9.5.0-lua5.2-pure-module-v1''"

definition lua_max_instructions :: u64 where "lua_max_instructions = 10000000"
definition lua_max_memory_bytes :: usize where "lua_max_memory_bytes = 64 * 1024 * 1024"
definition lua_max_output_bytes :: usize where "lua_max_output_bytes = 1024 * 1024"
definition lua_max_modules :: usize where "lua_max_modules = 256"
definition lua_max_source_bytes :: usize where "lua_max_source_bytes = 4 * 1024 * 1024"
definition lua_max_recursion_depth :: usize where "lua_max_recursion_depth = 512"

definition invalid_when :: "bool \<Rightarrow> string \<Rightarrow> (test_file_error, unit) outcome" where
  "invalid_when b message = (if b then Err (TestValidation message) else Ok ())"

definition case_text :: "test_case \<Rightarrow> string" where
  "case_text c = ''case `'' @ tc_name c @ ''`''"

definition validate_lua_module :: "string \<Rightarrow> string \<Rightarrow> test_case \<Rightarrow> lua_module_spec \<Rightarrow> (test_file_error, unit) outcome" where
  "validate_lua_module path scenario_path c m =
     (let relative = (\<lambda>p. is_portable_relative_path p \<or> (in_testing path \<and> is_workspace_relative_path p))
      in obind (invalid_when (\<not> relative scenario_path)
                  ''luaModule execution requires a test-relative scenario path without parent traversal'') (\<lambda>_.
         obind (invalid_when (tc_program c = None) (case_text c @ '' requires focusProgram for luaModule execution'')) (\<lambda>_.
         obind (invalid_when (lm_profile m \<noteq> lua_profile_id)
                  (case_text c @ '' requests unsupported Lua profile `'' @ lm_profile m @ ''`; expected `'' @ lua_profile_id @ ''`'')) (\<lambda>_.
         obind (invalid_when (list_ex (\<lambda>root. \<not> relative root) (lm_module_roots m))
                  (case_text c @ '' requires test-relative moduleRoots'')) (\<lambda>_.
         obind (invalid_when (lm_memory_limit_bytes m = 0 \<or> lm_max_output_bytes m = 0 \<or> lm_max_modules m = 0 \<or>
                    lm_max_source_bytes m = 0 \<or> lm_max_recursion_depth m = 0)
                  (case_text c @ '' requires positive Lua execution limits'')) (\<lambda>_.
         obind (invalid_when (lua_max_instructions < tc_max_operations c \<or> lua_max_memory_bytes < lm_memory_limit_bytes m \<or>
                    lua_max_output_bytes < lm_max_output_bytes m \<or> lua_max_modules < lm_max_modules m \<or>
                    lua_max_source_bytes < lm_max_source_bytes m \<or> lua_max_recursion_depth < lm_max_recursion_depth m)
                  (case_text c @ '' exceeds a hard Lua sandbox limit'')) (\<lambda>_.
         invalid_when (tc_initial c \<noteq> [] \<or> tc_timeline c \<noteq> [] \<or> tc_drivers c \<noteq> [] \<or> tc_assertions c \<noteq> [] \<or> tc_snapshot c \<noteq> None)
           (case_text c @ '' uses world-only fields with luaModule execution; put assertions in the Lua entry script''))))))))"

definition validate_driver_rule :: "test_case \<Rightarrow> scripted_driver \<Rightarrow> scripted_rule \<Rightarrow> unit \<Rightarrow> (test_file_error, unit) outcome" where
  "validate_driver_rule c driver rule = (\<lambda>_.
     obind (invalid_when (trim (tr_target (ru_when rule)) = [] \<or> ru_actions rule = [])
              (case_text c @ '' driver `'' @ dr_id driver @ ''` has an incomplete rule'')) (\<lambda>_.
     case validate_script_actions (ru_actions rule) of
       Ok _ \<Rightarrow> Ok ()
     | Err message \<Rightarrow> Err (TestValidation (case_text c @ '' driver `'' @ dr_id driver @ ''`: '' @ message))
     | Panic \<Rightarrow> Panic))"

definition validate_driver :: "test_case \<Rightarrow> scripted_driver \<Rightarrow> usize \<Rightarrow> (test_file_error, usize) outcome" where
  "validate_driver c driver rule_count =
     obind (invalid_when (trim (dr_id driver) = [] \<or> trim (dr_model driver) = [] \<or> dr_version driver = 0)
              (case_text c @ '' has an invalid scripted driver identity'')) (\<lambda>_.
     obind (ofold (validate_driver_rule c driver) (dr_rules driver) ()) (\<lambda>_.
     Ok (rule_count + length (dr_rules driver))))"

definition tolerance_invalid :: "tolerance \<Rightarrow> bool" where
  "tolerance_invalid t \<longleftrightarrow> \<not> is_finite (to_absolute t) \<or> \<not> is_finite (to_relative t) \<or>
     f64_lt (to_absolute t) f64_zero \<or> f64_lt (to_relative t) f64_zero"

definition after_ticks :: "u64 \<Rightarrow> u64 option \<Rightarrow> bool" where
  "after_ticks limit t = (case t of Some tick \<Rightarrow> limit < tick | None \<Rightarrow> False)"

definition validate_assertion :: "test_case \<Rightarrow> assertion \<Rightarrow> unit \<Rightarrow> (test_file_error, unit) outcome" where
  "validate_assertion c a = (\<lambda>_.
     case assertion_expression a of
       Inl message \<Rightarrow> Err (TestValidation (case_text c @ '': '' @ message))
     | Inr _ \<Rightarrow>
         obind (invalid_when (after_ticks (tc_max_ticks c) (as_at_tick a) \<or> after_ticks (tc_max_ticks c) (as_within_ticks a))
                  (case_text c @ '' has an assertion deadline beyond maxTicks'')) (\<lambda>_.
         invalid_when (case as_tolerance a of Some t \<Rightarrow> tolerance_invalid t | None \<Rightarrow> False)
           (case_text c @ '' has an invalid negative or non-finite tolerance'')))"

definition validate_timeline :: "test_case \<Rightarrow> (test_file_error, unit) outcome" where
  "validate_timeline c =
     (case find (\<lambda>entry. tc_max_ticks c < tl_tick entry) (tc_timeline c) of
        Some entry \<Rightarrow> Err (TestValidation (case_text c @ '' has timeline tick '' @ show_nat (unat (tl_tick entry)) @
          '' beyond maxTicks '' @ show_nat (unat (tc_max_ticks c))))
      | None \<Rightarrow> Ok ())"

definition validate_test_case :: "string \<Rightarrow> string \<Rightarrow> test_case \<Rightarrow> unit \<Rightarrow> (test_file_error, unit) outcome" where
  "validate_test_case path scenario_path c = (\<lambda>_.
     obind (invalid_when (trim (tc_name c) = []) ''case names must not be empty'') (\<lambda>_.
     obind (invalid_when (tc_max_ticks c = 0 \<or> tc_max_operations c = 0)
              (case_text c @ '' requires positive maxTicks and maxOperations'')) (\<lambda>_.
     obind (case tc_execution c of Some m \<Rightarrow> validate_lua_module path scenario_path c m | None \<Rightarrow> Ok ()) (\<lambda>_.
     obind (validate_timeline c) (\<lambda>_.
     obind (invalid_when (32 < length (tc_drivers c)) (case_text c @ '' exceeds 32 scripted drivers'')) (\<lambda>_.
     obind (ofold (validate_driver c) (tc_drivers c) 0) (\<lambda>rule_count.
     obind (invalid_when (256 < rule_count) (case_text c @ '' exceeds 256 scripted rules'')) (\<lambda>_.
     ofold (validate_assertion c) (tc_assertions c) ()))))))))"

definition validate_fixture :: "string \<Rightarrow> scenario_test \<Rightarrow> (test_file_error, unit) outcome" where
  "validate_fixture path f =
     (if st_schema_version f \<noteq> 1 then Err (TestVersion (st_schema_version f))
      else obind (invalid_when (is_obsolete_workspace_path (st_scenario f))
                    (''scenario reference `'' @ st_scenario f @ ''` uses an obsolete workspace filename; rename it to .icsim'')) (\<lambda>_.
           obind (invalid_when (st_cases f = []) ''`cases` must contain at least one case'') (\<lambda>_.
           ofold (validate_test_case path (st_scenario f)) (st_cases f) ())))"

end
