(* ===== verification/Test_Schema_Correct.thy ===== *)
theory Test_Schema_Correct
  imports Test_Schema Source_Words
begin

text \<open>
  What \<open>ScenarioTest::load\<close> accepts: the checks of \<open>Test_Schema\<close>, which stop at the first violation, against a declarative
  description of a well-formed fixture.
\<close>

section \<open>Well-formed fixtures\<close>

text \<open>Actions that may still be nested \<open>room\<close> levels deep, and how many actions there are on all levels.\<close>

fun action_wf :: "nat \<Rightarrow> script_action \<Rightarrow> bool" where
  "action_wf room (ActSet _ _) = True"
| "action_wf room (ActMoveSlot source target) \<longleftrightarrow> trim source \<noteq> [] \<and> trim target \<noteq> []"
| "action_wf room (ActPublish _ channel _) \<longleftrightarrow> channel \<le> 7"
| "action_wf 0 (ActSchedule _ as) = False"
| "action_wf (Suc room) (ActSchedule _ as) \<longleftrightarrow> as \<noteq> [] \<and> list_all (action_wf room) as"

fun action_count :: "script_action \<Rightarrow> nat" where
  "action_count (ActSchedule _ as) = Suc (sum_list (map action_count as))"
| "action_count _ = 1"

definition rule_wf :: "scripted_rule \<Rightarrow> bool" where
  "rule_wf rule \<longleftrightarrow> trim (tr_target (ru_when rule)) \<noteq> [] \<and> ru_actions rule \<noteq> [] \<and>
     list_all (action_wf 8) (ru_actions rule) \<and> sum_list (map action_count (ru_actions rule)) \<le> 1024"

definition driver_wf :: "scripted_driver \<Rightarrow> bool" where
  "driver_wf d \<longleftrightarrow> trim (dr_id d) \<noteq> [] \<and> trim (dr_model d) \<noteq> [] \<and> dr_version d \<noteq> 0 \<and> list_all rule_wf (dr_rules d)"

definition tolerance_wf :: "tolerance \<Rightarrow> bool" where
  "tolerance_wf t \<longleftrightarrow> is_finite (to_absolute t) \<and> is_finite (to_relative t) \<and>
     \<not> f64_lt (to_absolute t) f64_zero \<and> \<not> f64_lt (to_relative t) f64_zero"

text \<open>Exactly one of the three forms, a deadline only for the eventual one, and nothing after the last tick.\<close>

definition assertion_wf :: "u64 \<Rightarrow> assertion \<Rightarrow> bool" where
  "assertion_wf max_ticks a \<longleftrightarrow>
     length (filter (\<lambda>e. e \<noteq> None) [as_expression a, as_eventually a, as_always a]) = 1 \<and>
     (as_within_ticks a = None \<or> as_eventually a \<noteq> None) \<and>
     pred_option (\<lambda>t. t \<le> max_ticks) (as_at_tick a) \<and> pred_option (\<lambda>t. t \<le> max_ticks) (as_within_ticks a) \<and>
     pred_option tolerance_wf (as_tolerance a)"

text \<open>
  A path of a Lua module test is relative: not blank, without a leading separator of either kind and without a drive. The documents
  of the repository say that it must also not go up, that is, have \<open>..\<close> between separators; the code allows
  this to fixtures in a directory named \<open>testing\<close>. The argument says whether going up is allowed.
\<close>

abbreviation separator :: "char \<Rightarrow> bool" where
  "separator c \<equiv> c = CHR ''/'' \<or> c = CHR 0x5C"

definition goes_up :: "string \<Rightarrow> bool" where
  "goes_up p \<longleftrightarrow> (\<exists>before after. p = before @ ''..'' @ after \<and>
     (before = [] \<or> separator (last before)) \<and> (after = [] \<or> separator (hd after)))"

definition relative_path_wf :: "bool \<Rightarrow> string \<Rightarrow> bool" where
  "relative_path_wf up p \<longleftrightarrow> (\<exists>c \<in> set p. \<not> is_whitespace c) \<and> \<not> separator (hd p) \<and>
     (\<nexists>drive rest. is_ascii_alphabetic drive \<and> p = drive # CHR '':'' # rest) \<and> (up \<or> \<not> goes_up p)"

definition lua_module_wf :: "bool \<Rightarrow> string \<Rightarrow> test_case \<Rightarrow> lua_module_spec \<Rightarrow> bool" where
  "lua_module_wf up scenario_path c m \<longleftrightarrow>
     relative_path_wf up scenario_path \<and> list_all (relative_path_wf up) (lm_module_roots m) \<and>
     tc_program c \<noteq> None \<and> lm_profile m = lua_profile_id \<and> tc_max_operations c \<le> lua_max_instructions \<and>
     lm_memory_limit_bytes m \<in> {1..lua_max_memory_bytes} \<and> lm_max_output_bytes m \<in> {1..lua_max_output_bytes} \<and>
     lm_max_modules m \<in> {1..lua_max_modules} \<and> lm_max_source_bytes m \<in> {1..lua_max_source_bytes} \<and>
     lm_max_recursion_depth m \<in> {1..lua_max_recursion_depth} \<and>
     tc_initial c = [] \<and> tc_timeline c = [] \<and> tc_drivers c = [] \<and> tc_assertions c = [] \<and> tc_snapshot c = None"

definition case_wf :: "bool \<Rightarrow> string \<Rightarrow> test_case \<Rightarrow> bool" where
  "case_wf up scenario_path c \<longleftrightarrow>
     trim (tc_name c) \<noteq> [] \<and> tc_max_ticks c \<noteq> 0 \<and> tc_max_operations c \<noteq> 0 \<and>
     pred_option (lua_module_wf up scenario_path c) (tc_execution c) \<and>
     list_all (\<lambda>entry. tl_tick entry \<le> tc_max_ticks c) (tc_timeline c) \<and>
     length (tc_drivers c) \<le> 32 \<and> list_all driver_wf (tc_drivers c) \<and>
     sum_list (map (\<lambda>d. length (dr_rules d)) (tc_drivers c)) \<le> 256 \<and>
     list_all (assertion_wf (tc_max_ticks c)) (tc_assertions c)"

definition obsolete_endings :: "string list" where
  "obsolete_endings = [''.ic10sim.json'', ''.ic10test.json'', ''.ic10sim.layout.json'',
     ''.stationeerssim.json'', ''.stationeerstest.json'', ''.stationeerssim.layout.json'']"

definition fixture_wf :: "bool \<Rightarrow> scenario_test \<Rightarrow> bool" where
  "fixture_wf up f \<longleftrightarrow> st_schema_version f = 1 \<and> (\<nexists>stem ending. ending \<in> set obsolete_endings \<and> st_scenario f = stem @ ending) \<and>
     st_cases f \<noteq> [] \<and> list_all (case_wf up (st_scenario f)) (st_cases f)"

section \<open>Lemmas\<close>

lemma ofold_unit: "ofold f xs () = Ok () \<longleftrightarrow> list_all (\<lambda>x. f x () = Ok ()) xs"
  by (induction xs) (auto simp: obind_eq_Ok)

lemma invalid_when_Ok [simp]: "invalid_when b message = Ok u \<longleftrightarrow> \<not> b"
  by (simp add: invalid_when_def)

lemma visit_exact:
  "n \<le> 1024 \<Longrightarrow> d \<le> 8 \<Longrightarrow> visit_action d a n = Ok m \<longleftrightarrow> action_wf (8 - d) a \<and> m + 1 = n + action_count a \<and> m \<le> 1024"
  "n \<le> 1024 \<Longrightarrow> d \<le> 8 \<Longrightarrow>
    visit_actions d as n = Ok m \<longleftrightarrow> list_all (action_wf (8 - d)) as \<and> m = n + sum_list (map action_count as) \<and> m \<le> 1024"
proof (induction d a n and d as n arbitrary: m and m rule: visit_action_visit_actions.induct)
  case (2 d a as n)
  have rest: "visit_actions d as k = Ok m \<longleftrightarrow> list_all (action_wf (8 - d)) as \<and> m = k + sum_list (map action_count as) \<and> m \<le> 1024"
    if "n < 1024" "visit_action d a (n + 1) = Ok k" "k \<le> 1024" for k using 2(2) [OF _ that(2,3) 2(4)] that(1) by simp
  have first: "visit_action d a (n + 1) = Ok k \<longleftrightarrow> action_wf (8 - d) a \<and> k = n + action_count a \<and> k \<le> 1024" if "n < 1024" for k
    using 2 that by auto
  have "0 < action_count a" by (cases a) simp_all
  have "visit_actions d (a # as) n = Ok m \<longleftrightarrow>
      n < 1024 \<and> (\<exists>k. visit_action d a (n + 1) = Ok k \<and> visit_actions d as k = Ok m)"
    by (auto simp: obind_eq_Ok)
  also have "\<dots> \<longleftrightarrow> n < 1024 \<and> action_wf (8 - d) a \<and> n + action_count a \<le> 1024 \<and> visit_actions d as (n + action_count a) = Ok m"
    using first by metis
  also have "\<dots> \<longleftrightarrow> list_all (action_wf (8 - d)) (a # as) \<and> m = n + sum_list (map action_count (a # as)) \<and> m \<le> 1024"
    using rest [of "n + action_count a"] first [of "n + action_count a"] \<open>0 < action_count a\<close> by auto
  finally show ?case .
next
  case (6 d after as n)
  show ?case
  proof (cases "8 - d")
    case (Suc room)
    then have "8 - (d + 1) = room" "d + 1 \<le> 8" by simp_all
    then show ?thesis using 6 Suc by auto
  qed (use 6 in simp)
qed auto

lemma validate_script_actions_Ok:
  "validate_script_actions as = Ok () \<longleftrightarrow> list_all (action_wf 8) as \<and> sum_list (map action_count as) \<le> 1024"
  by (auto simp: validate_script_actions_def obind_eq_Ok visit_exact(2))

lemma validate_driver_rule_Ok: "validate_driver_rule c d rule () = Ok () \<longleftrightarrow> rule_wf rule"
  using validate_script_actions_Ok [of "ru_actions rule"]
  by (auto simp: validate_driver_rule_def obind_eq_Ok rule_wf_def split: outcome.splits)

lemma validate_drivers_Ok:
  "ofold (validate_driver c) ds n = Ok m \<longleftrightarrow> list_all driver_wf ds \<and> m = n + sum_list (map (\<lambda>d. length (dr_rules d)) ds)"
proof (induction ds arbitrary: n)
  case (Cons d ds)
  have "validate_driver c d n = Ok k \<longleftrightarrow> driver_wf d \<and> k = n + length (dr_rules d)" for k
    by (auto simp: validate_driver_def obind_eq_Ok driver_wf_def ofold_unit validate_driver_rule_Ok)
  then show ?case using Cons by (auto simp: obind_eq_Ok)
qed auto

lemma validate_assertion_Ok: "validate_assertion c a () = Ok () \<longleftrightarrow> assertion_wf (tc_max_ticks c) a"
proof -
  have "(\<exists>e. assertion_expression a = Inr e) \<longleftrightarrow>
      length (filter (\<lambda>e. e \<noteq> None) [as_expression a, as_eventually a, as_always a]) = 1 \<and> (as_within_ticks a = None \<or> as_eventually a \<noteq> None)"
    by (auto simp: assertion_expression_def map_filter_def Let_def)
  moreover have "validate_assertion c a () = Ok () \<longleftrightarrow> (\<exists>e. assertion_expression a = Inr e) \<and>
      \<not> after_ticks (tc_max_ticks c) (as_at_tick a) \<and> \<not> after_ticks (tc_max_ticks c) (as_within_ticks a) \<and>
      \<not> (case as_tolerance a of Some t \<Rightarrow> tolerance_invalid t | None \<Rightarrow> False)"
    by (auto simp: validate_assertion_def obind_eq_Ok split: sum.splits)
  moreover have "\<not> after_ticks limit t \<longleftrightarrow> pred_option (\<lambda>t. t \<le> limit) t" for limit t
    by (auto simp: after_ticks_def not_less split: option.splits)
  moreover have "\<not> (case t of Some t \<Rightarrow> tolerance_invalid t | None \<Rightarrow> False) \<longleftrightarrow> pred_option tolerance_wf t" for t
    by (auto simp: tolerance_invalid_def tolerance_wf_def split: option.splits)
  ultimately show ?thesis unfolding assertion_wf_def by metis
qed

lemma validate_timeline_Ok: "validate_timeline c = Ok () \<longleftrightarrow> list_all (\<lambda>entry. tl_tick entry \<le> tc_max_ticks c) (tc_timeline c)"
proof (cases "find (\<lambda>entry. tc_max_ticks c < tl_tick entry) (tc_timeline c)")
  case None
  then have "\<not> (\<exists>entry. entry \<in> set (tc_timeline c) \<and> tc_max_ticks c < tl_tick entry)" by (simp only: find_None_iff not_False_eq_True)
  then show ?thesis using None by (auto simp: validate_timeline_def list_all_iff not_less)
next
  case (Some entry)
  then have "entry \<in> set (tc_timeline c)" "tc_max_ticks c < tl_tick entry" by (auto simp: find_Some_iff)
  then show ?thesis using Some by (auto simp: validate_timeline_def list_all_iff not_less [symmetric])
qed

lemma split_at_append: "p c \<Longrightarrow> split_at p (xs @ c # ys) = split_at p xs @ split_at p ys"
proof (induction xs)
  case (Cons x xs)
  have "split_at p xs \<noteq> []" for p xs by (cases xs) (auto split: list.split)
  then obtain l ls where "split_at p xs = l # ls" by (meson neq_Nil_conv)
  then show ?case using Cons by simp
qed simp

lemma split_at_whole: "(\<And>c. c \<in> set xs \<Longrightarrow> \<not> p c) \<Longrightarrow> split_at p xs = [xs]"
  by (induction xs) auto

lemma split_at_shape:
  "\<exists>l ls after. split_at p xs = l # ls \<and> xs = l @ after \<and> (after = [] \<or> p (hd after)) \<and>
    (\<forall>part \<in> set ls. \<exists>b a. xs = b @ part @ a \<and> b \<noteq> [] \<and> p (last b) \<and> (a = [] \<or> p (hd a)))"
proof (induction xs)
  case (Cons c cs)
  then obtain l ls rest where IH: "split_at p cs = l # ls" "cs = l @ rest" "rest = [] \<or> p (hd rest)"
    "\<And>part. part \<in> set ls \<Longrightarrow> \<exists>b a. cs = b @ part @ a \<and> b \<noteq> [] \<and> p (last b) \<and> (a = [] \<or> p (hd a))" by blast
  have later: "\<exists>b a. c # cs = b @ part @ a \<and> b \<noteq> [] \<and> p (last b) \<and> (a = [] \<or> p (hd a))" if part: "part \<in> set ls" for part
  proof -
    obtain b a where "cs = b @ part @ a" "b \<noteq> []" "p (last b)" "a = [] \<or> p (hd a)" using IH(4) [OF part] by blast
    then show ?thesis by (intro exI [of _ "c # b"] exI [of _ a]) simp
  qed
  show ?case
  proof (cases "p c")
    case True
    have "\<exists>b a. c # cs = b @ l @ a \<and> b \<noteq> [] \<and> p (last b) \<and> (a = [] \<or> p (hd a))"
      using IH(2,3) True by (intro exI [of _ "[c]"] exI [of _ rest]) simp
    then show ?thesis using True IH(1) later by auto
  next
    case False
    then show ?thesis using IH(1-3) later by auto
  qed
qed simp

lemma split_at_member:
  assumes "\<And>c. c \<in> set part \<Longrightarrow> \<not> p c"
  shows "part \<in> set (split_at p xs) \<longleftrightarrow>
    (\<exists>before after. xs = before @ part @ after \<and> (before = [] \<or> p (last before)) \<and> (after = [] \<or> p (hd after)))"
    (is "_ \<longleftrightarrow> ?spec")
proof
  assume "part \<in> set (split_at p xs)"
  moreover obtain l ls after where "split_at p xs = l # ls" "xs = l @ after" "after = [] \<or> p (hd after)"
    "\<And>part. part \<in> set ls \<Longrightarrow> \<exists>b a. xs = b @ part @ a \<and> b \<noteq> [] \<and> p (last b) \<and> (a = [] \<or> p (hd a))"
    using split_at_shape [of p xs] by blast
  ultimately show ?spec by (metis append_Nil set_ConsD)
next
  assume ?spec
  then obtain b a where xs: "xs = b @ part @ a" "b = [] \<or> p (last b)" "a = [] \<or> p (hd a)" by blast
  have tail: "part \<in> set (split_at p (part @ a))"
    using xs(3) split_at_whole [of part p] assms split_at_append [of p _ part] by (cases a) auto
  show "part \<in> set (split_at p xs)"
  proof (cases b rule: rev_cases)
    case (snoc bs c)
    then have "split_at p xs = split_at p bs @ split_at p (part @ a)" using xs split_at_append [of p c bs "part @ a"] by simp
    then show ?thesis using tail by simp
  qed (use tail xs(1) in simp)
qed

lemma goes_up_iff: "goes_up p \<longleftrightarrow> list_ex (\<lambda>component. component = ''..'') (split_at separator p)"
  using split_at_member [of "''..''" separator p] by (auto simp: goes_up_def list_ex_iff)

lemma relative_iff:
  "(\<exists>c \<in> set p. \<not> is_whitespace c) \<and> \<not> separator (hd p) \<and> (\<nexists>drive rest. is_ascii_alphabetic drive \<and> p = drive # CHR '':'' # rest)
    \<longleftrightarrow> is_workspace_relative_path p"
  by (cases p) (auto simp: is_workspace_relative_path_def has_drive_def trim_Nil_iff starts_with_def list_all_iff split: list.split)

lemma portable_iff: "is_portable_relative_path p \<longleftrightarrow> is_workspace_relative_path p \<and> \<not> goes_up p"
  by (auto simp: is_portable_relative_path_def is_workspace_relative_path_def goes_up_iff)

lemma relative_path_wf_eq:
  "is_portable_relative_path p \<or> in_testing path \<and> is_workspace_relative_path p \<longleftrightarrow> relative_path_wf (in_testing path) p"
  unfolding portable_iff relative_path_wf_def relative_iff [symmetric] by blast

lemma validate_lua_module_Ok:
  "validate_lua_module path scenario_path c m = Ok () \<longleftrightarrow> lua_module_wf (in_testing path) scenario_path c m"
proof -
  have root: "\<not> list_ex (\<lambda>p. \<not> relative_path_wf up p) roots \<longleftrightarrow> list_all (relative_path_wf up) roots" for up roots
    by (simp add: list_ex_iff list_all_iff)
  show ?thesis unfolding validate_lua_module_def Let_def relative_path_wf_eq
    by (auto simp: obind_eq_Ok lua_module_wf_def root not_less)
qed

lemma obsolete_iff: "is_obsolete_workspace_path p \<longleftrightarrow> (\<exists>stem ending. ending \<in> set obsolete_endings \<and> p = stem @ ending)"
  by (auto simp: is_obsolete_workspace_path_def obsolete_endings_def ends_with_iff)

lemma validate_test_case_Ok: "validate_test_case path scenario_path c () = Ok () \<longleftrightarrow> case_wf (in_testing path) scenario_path c"
proof -
  have "(case tc_execution c of Some m \<Rightarrow> validate_lua_module path scenario_path c m | None \<Rightarrow> Ok ()) = Ok () \<longleftrightarrow>
      pred_option (lua_module_wf (in_testing path) scenario_path c) (tc_execution c)"
    by (simp add: validate_lua_module_Ok split: option.splits)
  then show ?thesis
    by (auto simp: validate_test_case_def obind_eq_Ok case_wf_def validate_timeline_Ok validate_drivers_Ok ofold_unit validate_assertion_Ok
      not_less)
qed

section \<open>Properties\<close>

text \<open>C25: The checks on a test fixture accept exactly the well-formed ones: schema version 1, a current scenario name, and cases with
  positive limits, stimuli and deadlines within their ticks, at most 32 drivers and 256 rules, at most 1024 actions per
  rule nested at most 8 deep, assertions of exactly one form with finite tolerances that are not negative, and Lua modules within
  the limits of the sandbox that do not use the world. The paths of a Lua module case are relative, and, as documented, do not
  go up; only for a fixture whose directory is named \<open>testing\<close>, against the documents, they may.\<close>

theorem fixture_accepted_exact: "validate_fixture path f = Ok () \<longleftrightarrow> fixture_wf (in_testing path) f"
  by (auto simp: validate_fixture_def obind_eq_Ok ofold_unit validate_test_case_Ok fixture_wf_def obsolete_iff)

text \<open>A fixture that the documented rule forbids and the code accepts, because its directory is named \<open>testing\<close>.\<close>

definition upward_module :: lua_module_spec where
  "upward_module = \<lparr>lm_profile = lua_profile_id, lm_module_roots = [''../lib''], lm_memory_limit_bytes = 1, lm_max_output_bytes = 1,
     lm_max_modules = 1, lm_max_source_bytes = 1, lm_max_recursion_depth = 1\<rparr>"

definition upward_fixture :: scenario_test where
  "upward_fixture = \<lparr>st_schema_version = 1, st_scenario = ''a.icsim'', st_seed = 0, st_cases =
     [\<lparr>tc_name = ''t'', tc_max_ticks = 1, tc_max_operations = 1, tc_program = Some ''p'', tc_execution = Some upward_module,
       tc_initial = [], tc_timeline = [], tc_drivers = [], tc_assertions = [], tc_expect_error = None, tc_snapshot = None\<rparr>]\<rparr>"

lemma parent_traversal_accepted:
  "validate_fixture ''testing/t.ictest'' upward_fixture = Ok ()" "validate_fixture ''tests/t.ictest'' upward_fixture \<noteq> Ok ()"
proof -
  have "in_testing ''testing/t.ictest''" "\<not> in_testing ''tests/t.ictest''" "is_workspace_relative_path ''../lib''"
    "\<not> is_portable_relative_path ''../lib''" "is_portable_relative_path ''a.icsim''" "\<not> is_obsolete_workspace_path ''a.icsim''"
    "trim ''t'' \<noteq> []" by code_simp+
  then show "validate_fixture ''testing/t.ictest'' upward_fixture = Ok ()" "validate_fixture ''tests/t.ictest'' upward_fixture \<noteq> Ok ()"
    by (simp_all add: validate_fixture_def upward_fixture_def validate_test_case_def validate_lua_module_def upward_module_def
      invalid_when_def validate_timeline_def lua_max_instructions_def lua_max_memory_bytes_def lua_max_output_bytes_def
      lua_max_modules_def lua_max_source_bytes_def lua_max_recursion_depth_def)
qed

end
