(* ===== verification/Scenario_Load.thy ===== *)
theory Scenario_Load
  imports Simulator Analysis
begin

text \<open>
  Building a simulator from a scenario: \<open>Simulator::from_scenario_with_lua_library_paths\<close> and the constructor of a
  Lua program. What comes from outside the sources is in the record \<open>environment\<close>: the embedded data, the
  files, and the Lua library, of which only the machine it produces is visible.
\<close>

section \<open>Environment and errors\<close>

record 'vm environment =
  env_knowledge :: "string + knowledge_base"
  env_read :: "string \<Rightarrow> string + string"
  env_build_map :: "string \<Rightarrow> (usize \<times> usize) list \<times> string option"
  env_lua_load :: "string \<Rightarrow> string \<Rightarrow> world \<Rightarrow> knowledge_base \<Rightarrow> (string, string) btree_map \<Rightarrow> usize \<Rightarrow> string list
    \<Rightarrow> string + 'vm"

datatype load_error =
    UnsupportedSchema u32
  | LoadSchedule schedule_error
  | InvalidEmbeddedData string
  | LoadWorld world_error
  | LoadUnknownProgram string string
  | LoadNoProgramPath string
  | MissingHousing
  | LoadIo string string
  | LoadLua string
  | LoadCompile "string list"
  | InvalidRegister string string
  | LoadScalar scalar
  | InvalidStackAddress string string
  | StackAddressExceeds string usize
  | MissingHousingMetadata string
  | InvalidPin string string
  | PinUnknownDevice string string string
  | PinNoDataCable string string
  | MissingPinMetadata string
  | PinNotShared string string string
  | NoWorldProgram

definition o_map_err :: "('e \<Rightarrow> 'f) \<Rightarrow> ('e, 'a) outcome \<Rightarrow> ('f, 'a) outcome" where
  "o_map_err f r = (case r of Ok x \<Rightarrow> Ok x | Err e \<Rightarrow> Err (f e) | Panic \<Rightarrow> Panic)"

definition o_result :: "'e + 'a \<Rightarrow> ('e, 'a) outcome" where
  "o_result r = (case r of Inl e \<Rightarrow> Err e | Inr x \<Rightarrow> Ok x)"

definition load_scalar :: "scalar \<Rightarrow> (load_error, f64) outcome" where
  "load_scalar s = o_ok_or (LoadScalar s) (scalar_as_f64 s)"

text \<open>Relative paths are resolved against the directory of the scenario.\<close>

definition resolve_path :: "string \<Rightarrow> string \<Rightarrow> string" where
  "resolve_path base path =
     (if starts_with ''/'' path then path
      else if base = [] \<or> ends_with ''/'' base then base @ path
      else base @ ''/'' @ path)"

section \<open>Game versions\<close>

fun split_dots :: "string \<Rightarrow> string list" where
  "split_dots [] = [[]]"
| "split_dots (c # cs) =
     (if c = CHR ''.'' then [] # split_dots cs
      else case split_dots cs of l # ls \<Rightarrow> (c # l) # ls | [] \<Rightarrow> [[c]])"

definition version_components :: "string \<Rightarrow> u64 list option" where
  "version_components version = those (map parse_u64 (split_dots version))"

text \<open>The order of \<open>Vec<u64>\<close>: lexicographic, a proper prefix is smaller.\<close>

fun lex_greater :: "u64 list \<Rightarrow> u64 list \<Rightarrow> bool" where
  "lex_greater [] _ = False"
| "lex_greater (x # xs) [] = True"
| "lex_greater (x # xs) (y # ys) = (y < x \<or> x = y \<and> lex_greater xs ys)"

definition is_newer_game_version :: "string \<Rightarrow> string \<Rightarrow> bool" where
  "is_newer_game_version candidate bundled =
     (case (version_components candidate, version_components bundled) of
        (Some c, Some b) \<Rightarrow> lex_greater c b
      | _ \<Rightarrow> False)"

definition compatibility_warnings :: "scenario \<Rightarrow> knowledge_base \<Rightarrow> string list" where
  "compatibility_warnings sc kb =
     (case sc_game_version sc of
        Some version \<Rightarrow>
          if is_newer_game_version version (lang_game_version (language kb))
          then [''scenario targets Stationeers '' @ version @ '', newer than bundled game data '' @
                lang_game_version (language kb) @ ''; simulation will continue using the bundled compatibility model'']
          else []
      | None \<Rightarrow> [])"

section \<open>Programs of devices\<close>

text \<open>The program a device runs: its id, path, language and the initial state of the IC.\<close>

definition selected_program ::
  "scenario \<Rightarrow> device_spec \<Rightarrow> (load_error, (string \<times> string \<times> program_language \<times> ic_spec option) option) outcome" where
  "selected_program sc spec =
     (case ds_program spec of
        Some program_id \<Rightarrow>
          obind (o_ok_or (LoadUnknownProgram (ds_id spec) program_id) (find (\<lambda>p. ps_id p = program_id) (sc_programs sc)))
            (\<lambda>p. Ok (Some (ps_id p, ps_path p, ps_language p, ds_ic spec)))
      | None \<Rightarrow>
          (case ds_ic spec of
             Some ic \<Rightarrow>
               obind (o_ok_or (LoadNoProgramPath (ds_id spec)) (ic_program ic)) (\<lambda>path.
                 Ok (Some (ds_id spec, path, LangIc10, Some ic)))
           | None \<Rightarrow> Ok None))"

definition max_lua_source_bytes :: usize where
  "max_lua_source_bytes = 1024 * 1024"

definition lua_source_check :: "string \<Rightarrow> (load_error, unit) outcome" where
  "lua_source_check source =
     (if max_lua_source_bytes < length source then
        Err (LoadLua (''Lua source is '' @ show_nat (length source) @ '' bytes, exceeding the '' @
          show_nat max_lua_source_bytes @ ''-byte limit''))
      else Ok ())"

definition lua_runtime_new :: "string \<Rightarrow> string \<Rightarrow> string \<Rightarrow> world \<Rightarrow> usize \<Rightarrow> 'vm \<Rightarrow> 'vm lua_runtime" where
  "lua_runtime_new ident program_id source_path w housing vm =
     \<lparr>l_id = ident, l_program_id = program_id, l_source_path = source_path, l_housing = housing, l_host_world = w,
      l_logs = [], l_vm = vm, l_current_line = 1, l_line_yield = False, l_frames = [], l_locals = [],
      l_current_source_path = source_path, l_state = VmReady, l_invocations = 0, l_faulted = False,
      l_error = None, l_operations_this_tick = 0\<rparr>"

section \<open>The initial state of an IC\<close>

definition ic_entries :: "(ic_spec \<Rightarrow> 'a list) \<Rightarrow> ic_spec option \<Rightarrow> 'a list" where
  "ic_entries f ic = (case ic of Some c \<Rightarrow> f c | None \<Rightarrow> [])"

definition load_register :: "string \<Rightarrow> string \<times> scalar \<Rightarrow> f64 list \<Rightarrow> (load_error, f64 list) outcome" where
  "load_register ident = (\<lambda>(register, v) registers.
     obind (o_ok_or (InvalidRegister ident register) (direct_register_index register)) (\<lambda>i.
     obind (load_scalar v) (\<lambda>x. if i < length registers then Ok (registers[i := x]) else Panic)))"

definition load_stack_cell :: "string \<Rightarrow> string \<times> scalar \<Rightarrow> f64 list \<Rightarrow> (load_error, f64 list) outcome" where
  "load_stack_cell ident = (\<lambda>(address, v) stack.
     obind (o_ok_or (InvalidStackAddress ident address) (parse_usize address)) (\<lambda>a.
     if stack_size_default \<le> a then Err (StackAddressExceeds ident a)
     else obind (load_scalar v) (\<lambda>x. if a < length stack then Ok (stack[a := x]) else Panic)))"

definition is_data_connection :: "device_connection \<Rightarrow> bool" where
  "is_data_connection c = (case as_str (connection_type c) of Some t \<Rightarrow> contains ''data'' (to_ascii_lowercase t) | None \<Rightarrow> False)"

definition data_indices :: "device_info \<Rightarrow> usize list" where
  "data_indices info = filter (\<lambda>i. is_data_connection (di_connections info ! i)) [0..<length (di_connections info)]"

text \<open>The first data cable among the networks of the housing's data connections.\<close>

fun first_data_network :: "world \<Rightarrow> usize list \<Rightarrow> (load_error, usize option) outcome" where
  "first_data_network w [] = Ok None"
| "first_data_network w (n # ns) =
     obind (o_expect (nth_opt (w_networks w) n)) (\<lambda>network.
     if eq_ignore_ascii_case (nw_kind network) ''cable'' \<and> nw_cable_role network \<in> {''data'', ''powerAndData''} then Ok (Some n)
     else first_data_network w ns)"

definition load_pin ::
  "knowledge_base \<Rightarrow> world \<Rightarrow> string \<Rightarrow> usize option \<Rightarrow> string \<times> string \<Rightarrow> usize option list \<Rightarrow> (load_error, usize option list) outcome" where
  "load_pin kb w ident housing_network = (\<lambda>(pin, device) pins.
     obind (o_ok_or (InvalidPin ident pin)
              (Option.bind (Option.bind (strip_prefix ''d'' pin) parse_usize) (\<lambda>i. if i < 6 then Some i else None))) (\<lambda>i.
     obind (o_ok_or (PinUnknownDevice ident pin device) (world_device_index w device)) (\<lambda>target.
     obind (o_ok_or (PinNoDataCable ident pin) housing_network) (\<lambda>network.
     obind (o_expect (nth_opt (w_devices w) target)) (\<lambda>d.
     obind (o_ok_or (MissingPinMetadata device) (device_by_name kb (dv_prefab d))) (\<lambda>info.
     if list_ex (\<lambda>c. bt_get (dv_connections d) c = Some network) (data_indices info) then
       (if i < length pins then Ok (pins[i := Some target]) else Panic)
     else Err (PinNotShared ident pin device)))))))"

definition load_cpu ::
  "'vm environment \<Rightarrow> knowledge_base \<Rightarrow> world \<Rightarrow> device_spec \<Rightarrow> string \<Rightarrow> string \<Rightarrow> string \<Rightarrow> ic_spec option \<Rightarrow> usize
     \<Rightarrow> (load_error, cpu) outcome" where
  "load_cpu env kb w spec program_id source_path source ic housing =
     (let ident = ds_id spec
      in obind (o_map_err LoadCompile (compile_source source_path source kb
                  (case env_build_map env source_path of (entries, path) \<Rightarrow> load_build_mapping source_path entries path))) (\<lambda>program.
         obind (ofold (load_register ident) (ic_entries ic_registers ic) (replicate register_count f64_zero)) (\<lambda>registers.
         obind (ofold (load_stack_cell ident) (ic_entries ic_stack ic) (replicate stack_size_default f64_zero)) (\<lambda>stack.
         obind (o_expect (nth_opt (w_devices w) housing)) (\<lambda>d.
         obind (o_ok_or (MissingHousingMetadata ident) (device_by_name kb (dv_prefab d))) (\<lambda>info.
         obind (first_data_network w (List.map_filter (bt_get (dv_connections d)) (data_indices info))) (\<lambda>network.
         obind (ofold (load_pin kb w ident network) (ic_entries ic_pins ic) (replicate 6 None)) (\<lambda>pins.
           Ok \<lparr>c_id = ident, c_program_id = program_id, c_name = dv_name d, c_housing = housing, c_program = program,
               c_registers = registers, c_stack = stack, c_pins = pins, c_pc = 0,
               c_state = (if (case ic of Some c \<Rightarrow> ic_enabled c | None \<Rightarrow> True) then Ready else Halted),
               c_error = None, c_operations_this_tick = 0,
               c_random_state = 0x9E3779B97F4A7C15 XOR (of_nat housing + 1),
               c_journal = empty_journal, c_journal_enabled = False, c_journal_actor = ActorScheduler\<rparr>))))))))"

definition load_device ::
  "'vm environment \<Rightarrow> scenario \<Rightarrow> string \<Rightarrow> string list \<Rightarrow> knowledge_base \<Rightarrow> world \<Rightarrow> device_spec
     \<Rightarrow> cpu list \<times> 'vm lua_runtime list \<Rightarrow> (load_error, cpu list \<times> 'vm lua_runtime list) outcome" where
  "load_device env sc base lua_roots kb w spec = (\<lambda>(cpus, luas).
     obind (selected_program sc spec) (\<lambda>selected.
     case selected of
       None \<Rightarrow> Ok (cpus, luas)
     | Some (program_id, path, lang, ic) \<Rightarrow>
         obind (o_ok_or MissingHousing (world_device_index w (ds_id spec))) (\<lambda>housing.
         (let source_path = resolve_path base path
          in obind (o_map_err (LoadIo source_path) (o_result (env_read env source_path))) (\<lambda>source.
             if lang = LangLua then
               obind (o_map_err InvalidEmbeddedData (o_result (env_knowledge env))) (\<lambda>kb.
               obind (lua_source_check source) (\<lambda>_.
               obind (o_map_err LoadLua (o_result (env_lua_load env source_path source w kb (ic_entries ic_pins ic) housing lua_roots)))
                 (\<lambda>vm. Ok (cpus, luas @ [lua_runtime_new (ds_id spec) program_id source_path w housing vm]))))
             else
               obind (load_cpu env kb w spec program_id source_path source ic housing) (\<lambda>c.
               Ok (cpus @ [c], luas)))))))"

definition from_scenario ::
  "'vm environment \<Rightarrow> scenario \<Rightarrow> string \<Rightarrow> string list \<Rightarrow> (load_error, 'vm simulator) outcome" where
  "from_scenario env sc base lua_roots =
     (if sc_schema_version sc \<noteq> 1 then Err (UnsupportedSchema (sc_schema_version sc))
      else obind (o_map_err LoadSchedule (schedule_plan sc)) (\<lambda>schedule.
           obind (o_map_err InvalidEmbeddedData (o_result (env_knowledge env))) (\<lambda>kb.
           obind (o_map_err LoadWorld (world_build (sc_networks sc) (sc_devices sc) kb)) (\<lambda>w.
           obind (ofold (load_device env sc base lua_roots kb w) (sc_devices sc) ([], [])) (\<lambda>(cpus, luas).
           if cpus = [] \<and> luas = [] then Err NoWorldProgram
           else Ok \<lparr>s_knowledge = kb, s_world = w, s_cpus = cpus, s_lua_programs = luas, s_tick = 0,
                    s_compatibility_warnings = compatibility_warnings sc kb, s_schedule = schedule, s_scheduler_slot = 0,
                    s_scheduler_error = None, s_behaviours = behaviour_build w, s_driver_state = bt_empty,
                    s_journal = empty_journal\<rparr>)))))"

end
