(* ===== verification/Test_Runner.thy ===== *)
theory Test_Runner
  imports Test_Schema Scenario_Load
begin

text \<open>
  Running a test case against a scenario, \<open>crates/ic10-runner/src/runner.rs\<close>: the loop over ticks with its stimuli, scripted
  drivers and assertions, the limits, and the verdict. What comes from outside the sources is in the record
  \<open>runner_host\<close>: the platform's arithmetic, the Lua interpreter, the files, the serialisation, the texts of the errors
  and whether the wall clock has expired when a round is about to run.
\<close>

section \<open>Vocabulary\<close>

record 'vm runner_host =
  rh_libm :: libm
  rh_engine :: "'vm lua_engine"
  rh_environment :: "'vm environment"
  rh_codec :: driver_codec
  rh_step_text :: "sim_error \<Rightarrow> string"
  rh_load_text :: "load_error \<Rightarrow> string"
  rh_expired :: "nat \<Rightarrow> bool"

record run_limits =
  rl_max_ticks :: u64
  rl_max_operations :: u64
  rl_wall_millis :: nat

datatype run_status = StPassed | StFailed | StInvalid

record failure =
  fl_message :: string
  fl_expression :: "string option"
  fl_expected :: "string option"
  fl_actual :: "string option"
  fl_tick :: "u64 option"
  fl_source :: "string option"
  fl_line :: "usize option"
  fl_object :: "string option"
  fl_possibly_unsupported :: bool

text \<open>The duration and the captured output of a result are those of Lua module runs; here they are always 0 and empty.\<close>

record case_result =
  rs_name :: string
  rs_status :: run_status
  rs_seed :: u64
  rs_ticks :: u64
  rs_operations :: u64
  rs_failures :: "failure list"
  rs_warnings :: "string list"

text \<open>The local variables of a running case: the simulator with its drivers, and what has been observed so far.\<close>

record 'vm case_run =
  cr_drive :: "'vm drive"
  cr_operations :: u64
  cr_failures :: "failure list"
  cr_satisfied :: "bool list"
  cr_error :: "string option"

type_synonym ('vm, 'a) case_prog = "('vm case_run, string, 'a) prog"

definition cr_sim :: "'vm case_run \<Rightarrow> 'vm simulator" where
  "cr_sim x = dx_sim (cr_drive x)"

definition with_sim :: "'vm simulator \<Rightarrow> 'vm case_run \<Rightarrow> 'vm case_run" where
  "with_sim s x = x\<lparr>cr_drive := (cr_drive x)\<lparr>dx_sim := s\<rparr>\<rparr>"

section \<open>Results\<close>

definition passed_case :: "string \<Rightarrow> u64 \<Rightarrow> case_result" where
  "passed_case name seed = \<lparr>rs_name = name, rs_status = StPassed, rs_seed = seed, rs_ticks = 0, rs_operations = 0,
     rs_failures = [], rs_warnings = []\<rparr>"

definition failed_case :: "string \<Rightarrow> u64 \<Rightarrow> string \<Rightarrow> string option \<Rightarrow> case_result" where
  "failed_case name seed message expression = \<lparr>rs_name = name, rs_status = StFailed, rs_seed = seed, rs_ticks = 0,
     rs_operations = 0, rs_failures = [\<lparr>fl_message = message, fl_expression = expression, fl_expected = None, fl_actual = None,
       fl_tick = None, fl_source = None, fl_line = None, fl_object = None,
       fl_possibly_unsupported = contains ''unsupported'' message\<rparr>], rs_warnings = []\<rparr>"

definition invalid_case :: "string \<Rightarrow> u64 \<Rightarrow> string \<Rightarrow> case_result" where
  "invalid_case name seed message = (failed_case name seed message None)\<lparr>rs_status := StInvalid\<rparr>"

text \<open>The object an expression names between its first \<open>("\<close> and the \<open>")\<close> after it.\<close>

definition expression_object :: "string \<Rightarrow> string option" where
  "expression_object expression =
     Option.bind (split_once ''(\"'' expression) (\<lambda>(_, rest). map_option fst (split_once ''\")'' rest))"

definition make_failure ::
  "'vm simulator \<Rightarrow> usize \<Rightarrow> string option \<Rightarrow> string \<Rightarrow> string option \<Rightarrow> string option \<Rightarrow> failure" where
  "make_failure s thread expression message expected actual =
     (let c = nth_opt (s_cpus s) thread
      in \<lparr>fl_message = message, fl_expression = expression, fl_expected = expected, fl_actual = actual,
          fl_tick = Some (s_tick s), fl_source = map_option (\<lambda>c. p_source_path (c_program c)) c,
          fl_line = map_option Suc (Option.bind c current_line), fl_object = Option.bind expression expression_object,
          fl_possibly_unsupported = (s_compatibility_warnings s \<noteq> [] \<or> contains ''unsupported'' message)\<rparr>)"

definition format_scalar :: "scalar \<Rightarrow> string" where
  "format_scalar v = (case v of ScalarNumber x \<Rightarrow> format_number x | ScalarText t \<Rightarrow> t)"

definition matches_expected_error :: "test_case \<Rightarrow> error_kind \<Rightarrow> string \<Rightarrow> bool" where
  "matches_expected_error c kind message =
     (case tc_expect_error c of
        None \<Rightarrow> False
      | Some expected \<Rightarrow> ee_kind expected = kind \<and>
          (case ee_message_contains expected of Some part \<Rightarrow> contains part message | None \<Rightarrow> True))"

section \<open>Assertions\<close>

definition equal_expected :: "eval_value \<Rightarrow> scalar \<Rightarrow> tolerance option \<Rightarrow> bool" where
  "equal_expected actual expected tol =
     (case number_value actual of
        Ok a \<Rightarrow>
          (let e = scalar_or_nan expected
           in if is_nan a \<or> is_nan e then is_nan a \<and> is_nan e
              else if is_infinite a \<or> is_infinite e \<or> (f64_eq a f64_zero \<and> f64_eq e f64_zero) then to_bits a = to_bits e
              else (let t = (case tol of Some t \<Rightarrow> t | None \<Rightarrow> \<lparr>to_absolute = f64_zero, to_relative = f64_zero\<rparr>)
                    in f64_le (f64_abs (f64_sub a e))
                         (f64_max (to_absolute t) (f64_mul (to_relative t) (f64_max (f64_abs a) (f64_abs e))))))
      | _ \<Rightarrow> False)"

definition assertion_matches :: "'vm simulator \<Rightarrow> usize \<Rightarrow> assertion \<Rightarrow> string \<Rightarrow> (string, bool) outcome" where
  "assertion_matches s thread a expression =
     obind (evaluate s thread expression) (\<lambda>actual.
     case as_expected a of
       Some expected \<Rightarrow> Ok (equal_expected actual expected (as_tolerance a))
     | None \<Rightarrow> truthy actual)"

text \<open>\<open>evaluate(..).map(|value| value.display()).unwrap_or_else(|error| error)\<close>\<close>

definition displayed :: "'vm simulator \<Rightarrow> usize \<Rightarrow> string \<Rightarrow> (string, string) outcome" where
  "displayed s thread expression =
     (case evaluate s thread expression of Ok v \<Rightarrow> Ok (display_value v) | Err e \<Rightarrow> Ok e | Panic \<Rightarrow> Panic)"

definition assertion_failure ::
  "'vm simulator \<Rightarrow> usize \<Rightarrow> assertion \<Rightarrow> string \<Rightarrow> string \<Rightarrow> (string, failure) outcome" where
  "assertion_failure s thread a expression message =
     obind (displayed s thread expression) (\<lambda>actual.
     Ok (make_failure s thread (Some expression) message
       (Some (case as_expected a of Some v \<Rightarrow> format_scalar v | None \<Rightarrow> ''true'')) (Some actual)))"

definition assertion_error :: "'vm simulator \<Rightarrow> usize \<Rightarrow> string \<Rightarrow> string \<Rightarrow> failure" where
  "assertion_error s thread expression message =
     make_failure s thread (Some expression) (''could not evaluate assertion: '' @ message) None None"

definition push_failure :: "failure \<Rightarrow> ('vm, unit) case_prog" where
  "push_failure f = modify (\<lambda>x. x\<lparr>cr_failures := cr_failures x @ [f]\<rparr>)"

definition satisfy :: "usize \<Rightarrow> ('vm, unit) case_prog" where
  "satisfy i = bind (gets cr_satisfied) (\<lambda>flags.
     if i < length flags then modify (\<lambda>x. x\<lparr>cr_satisfied := flags[i := True]\<rparr>) else panic)"

definition fail_assertion :: "usize \<Rightarrow> assertion \<Rightarrow> string \<Rightarrow> string \<Rightarrow> ('vm, unit) case_prog" where
  "fail_assertion thread a expression message =
     bind (lift_outcome (\<lambda>x. assertion_failure (cr_sim x) thread a expression message)) push_failure"

text \<open>A pending eventual assertion, and one that is checked now.\<close>

definition check_eventually :: "usize \<Rightarrow> test_case \<Rightarrow> usize \<Rightarrow> assertion \<Rightarrow> string \<Rightarrow> ('vm, unit) case_prog" where
  "check_eventually thread c i a expression =
     bind get_state (\<lambda>x.
     (let s = cr_sim x; deadline = (case as_within_ticks a of Some t \<Rightarrow> t | None \<Rightarrow> tc_max_ticks c)
      in case assertion_matches s thread a expression of
           Ok True \<Rightarrow> satisfy i
         | Ok False \<Rightarrow>
             if deadline \<le> s_tick s then
               bind (expect (nth_opt (cr_satisfied x) i)) (\<lambda>done.
               if done then ret () else fail_assertion thread a expression ''eventual assertion deadline expired'')
             else ret ()
         | Err message \<Rightarrow> push_failure (assertion_error s thread expression message)
         | Panic \<Rightarrow> panic))"

definition check_now :: "usize \<Rightarrow> usize \<Rightarrow> assertion \<Rightarrow> string \<Rightarrow> ('vm, unit) case_prog" where
  "check_now thread i a expression =
     bind (gets cr_sim) (\<lambda>s.
     case assertion_matches s thread a expression of
       Ok True \<Rightarrow> satisfy i
     | Ok False \<Rightarrow> fail_assertion thread a expression
         (if as_always a \<noteq> None then ''invariant assertion failed'' else ''assertion failed'')
     | Err message \<Rightarrow> push_failure (assertion_error s thread expression message)
     | Panic \<Rightarrow> panic)"

definition check_assertion :: "usize \<Rightarrow> test_case \<Rightarrow> usize \<times> assertion \<Rightarrow> ('vm, unit) case_prog" where
  "check_assertion thread c = (\<lambda>(i, a).
     bind (gets (\<lambda>x. s_tick (cr_sim x))) (\<lambda>tick.
     case assertion_expression a of
       Inl _ \<Rightarrow> ret ()
     | Inr expression \<Rightarrow>
         if as_at_tick a \<noteq> None \<and> as_at_tick a \<noteq> Some tick then ret ()
         else if as_eventually a \<noteq> None then check_eventually thread c i a expression
         else if as_always a \<noteq> None \<or> as_at_tick a = Some tick \<or> (as_at_tick a = None \<and> tick = tc_max_ticks c) then
           check_now thread i a expression
         else ret ()))"

definition evaluate_assertions :: "usize \<Rightarrow> test_case \<Rightarrow> ('vm, unit) case_prog" where
  "evaluate_assertions thread c = for_each (List.enumerate 0 (tc_assertions c)) (check_assertion thread c)"

section \<open>The loop over ticks\<close>

definition stimulate :: "usize \<Rightarrow> string \<Rightarrow> string \<times> scalar \<Rightarrow> ('vm, unit) case_prog" where
  "stimulate thread what = (\<lambda>(target, v) x.
     case set_value thread target (scalar_or_nan v) (cr_sim x) of
       (Ok _, s) \<Rightarrow> (Ok (), with_sim s x)
     | (Err message, s) \<Rightarrow> push_failure (make_failure s thread (Some target) (what @ message) None None) (with_sim s x)
     | (Panic, s) \<Rightarrow> (Panic, with_sim s x))"

definition run_timeline :: "usize \<Rightarrow> test_case \<Rightarrow> ('vm, unit) case_prog" where
  "run_timeline thread c =
     bind (gets (\<lambda>x. s_tick (cr_sim x))) (\<lambda>tick.
     for_each (filter (\<lambda>entry. tl_tick entry = tick) (tc_timeline c)) (\<lambda>entry.
       bind (for_each (tl_set entry) (stimulate thread ''timeline stimulus failed: '')) (\<lambda>_.
       for_each (tl_events entry) (\<lambda>e. stimulate thread ''timeline event failed: '' (sv_target e, sv_value e)))))"

text \<open>Pumping the drivers; an error is kept as the runtime error of the case. The result says whether there was none.\<close>

definition pump_case :: "'vm runner_host \<Rightarrow> usize \<Rightarrow> ('vm, bool) case_prog" where
  "pump_case h thread x =
     (case pump (rh_codec h) thread (cr_drive x) of
        (Ok _, d) \<Rightarrow> (Ok True, x\<lparr>cr_drive := d\<rparr>)
      | (Err message, d) \<Rightarrow> (Ok False, x\<lparr>cr_drive := d, cr_error := Some message\<rparr>)
      | (Panic, d) \<Rightarrow> (Panic, x\<lparr>cr_drive := d\<rparr>))"

definition observe :: "'vm runner_host \<Rightarrow> usize \<Rightarrow> test_case \<Rightarrow> ('vm, unit) case_prog" where
  "observe h thread c = bind (run_timeline thread c) (\<lambda>_. bind (pump_case h thread) (\<lambda>_. ret ()))"

definition case_finished :: "u64 \<Rightarrow> u64 \<Rightarrow> 'vm case_run \<Rightarrow> bool" where
  "case_finished max_ticks max_operations x \<longleftrightarrow>
     cr_failures x \<noteq> [] \<or> cr_error x \<noteq> None \<or> max_ticks \<le> s_tick (cr_sim x) \<or> max_operations \<le> cr_operations x \<or>
     (sim_is_finished (cr_sim x) \<and> \<not> has_pending (dx_drivers (cr_drive x)))"

text \<open>The inner loop: steps until the tick changes, the operations are used up, or something fails.\<close>

fun run_tick :: "'vm runner_host \<Rightarrow> usize \<Rightarrow> u64 \<Rightarrow> u64 \<Rightarrow> nat \<Rightarrow> 'vm case_run \<Rightarrow> ((string, unit) outcome \<times> 'vm case_run) option" where
  "run_tick h thread max_operations start_tick 0 x = None"
| "run_tick h thread max_operations start_tick (Suc fuel) x =
     (if s_tick (cr_sim x) = start_tick \<and> cr_operations x < max_operations then
        (case scheduler_step (rh_libm h) (rh_engine h) (cr_sim x) of
           (Err e, s) \<Rightarrow> Some (Ok (), (with_sim s x)\<lparr>cr_error := Some (rh_step_text h e)\<rparr>)
         | (Panic, s) \<Rightarrow> Some (Panic, with_sim s x)
         | (Ok event, s) \<Rightarrow>
             (case pump_case h thread ((with_sim s x)\<lparr>cr_operations := cr_operations x + (if event = None then 0 else 1)\<rparr>) of
                (Ok True, y) \<Rightarrow> run_tick h thread max_operations start_tick fuel y
              | (Ok False, y) \<Rightarrow> Some (Ok (), y)
              | (Err e, y) \<Rightarrow> Some (Err e, y)
              | (Panic, y) \<Rightarrow> Some (Panic, y)))
      else Some (Ok (), x))"

definition wall_failure :: "run_limits \<Rightarrow> usize \<Rightarrow> 'vm simulator \<Rightarrow> failure" where
  "wall_failure limits thread s =
     make_failure s thread None ''wall-time limit exceeded'' (Some (''<= '' @ show_nat (rl_wall_millis limits) @ '' ms''))
       (Some (''> '' @ show_nat (rl_wall_millis limits) @ '' ms''))"

text \<open>
  The outer loop, with the rounds it may still run and the number of the round. A tick runs at most \<open>max_operations\<close>
  steps that count and one that ends it, so the fuel given to the inner loop always suffices.
\<close>

fun case_loop ::
  "'vm runner_host \<Rightarrow> usize \<Rightarrow> test_case \<Rightarrow> run_limits \<Rightarrow> u64 \<Rightarrow> u64 \<Rightarrow> nat \<Rightarrow> nat \<Rightarrow> 'vm case_run
     \<Rightarrow> ((string, unit) outcome \<times> 'vm case_run) option" where
  "case_loop h thread c limits max_ticks max_operations 0 round x = None"
| "case_loop h thread c limits max_ticks max_operations (Suc fuel) round x =
     (case bind (observe h thread c) (\<lambda>_. evaluate_assertions thread c) x of
        (Ok _, y) \<Rightarrow>
          if case_finished max_ticks max_operations y then Some (Ok (), y)
          else if rh_expired h round then Some (push_failure (wall_failure limits thread (cr_sim y)) y)
          else (case run_tick h thread max_operations (s_tick (cr_sim y)) (unat max_operations + 2) y of
                  Some (Ok _, z) \<Rightarrow>
                    if cr_error z \<noteq> None then Some (Ok (), z)
                    else case_loop h thread c limits max_ticks max_operations fuel (Suc round) z
                | other \<Rightarrow> other)
      | (Err e, y) \<Rightarrow> Some (Err e, y)
      | (Panic, y) \<Rightarrow> Some (Panic, y))"

section \<open>The verdict\<close>

definition conclude_error :: "usize \<Rightarrow> test_case \<Rightarrow> ('vm, unit) case_prog" where
  "conclude_error thread c =
     bind get_state (\<lambda>x.
     case cr_error x of
       Some e \<Rightarrow>
         if matches_expected_error c KindRuntime e then ret ()
         else push_failure (make_failure (cr_sim x) thread None (''runtime error: '' @ e) None None)
     | None \<Rightarrow>
         if (case tc_expect_error c of Some expected \<Rightarrow> ee_kind expected = KindRuntime | None \<Rightarrow> False) then
           push_failure (make_failure (cr_sim x) thread None ''expected a runtime error, but none occurred'' None None)
         else ret ())"

definition expression_or_invalid :: "assertion \<Rightarrow> string" where
  "expression_or_invalid a = (case assertion_expression a of Inr e \<Rightarrow> e | Inl _ \<Rightarrow> ''<invalid>'')"

definition conclude_eventually :: "usize \<Rightarrow> usize \<times> assertion \<Rightarrow> ('vm, unit) case_prog" where
  "conclude_eventually thread = (\<lambda>(i, a).
     if as_eventually a = None then ret ()
     else bind get_state (\<lambda>x.
          bind (expect (nth_opt (cr_satisfied x) i)) (\<lambda>done.
          if done then ret ()
          else (let expression = expression_or_invalid a
                in bind (lift_outcome (\<lambda>x. displayed (cr_sim x) thread expression)) (\<lambda>actual.
                   push_failure (make_failure (cr_sim x) thread (Some expression) ''eventual assertion was not satisfied''
                     (Some ''true'') (Some actual)))))))"

definition is_final_assertion :: "assertion \<Rightarrow> bool" where
  "is_final_assertion a \<longleftrightarrow> as_expression a \<noteq> None \<and> as_at_tick a = None \<and> as_eventually a = None \<and> as_always a = None"

definition conclude_final :: "usize \<Rightarrow> assertion \<Rightarrow> ('vm, unit) case_prog" where
  "conclude_final thread a =
     (let expression = expression_or_invalid a
      in bind (gets cr_sim) (\<lambda>s.
         case assertion_matches s thread a expression of
           Ok True \<Rightarrow> ret ()
         | Ok False \<Rightarrow> fail_assertion thread a expression ''final assertion failed''
         | Err message \<Rightarrow> push_failure (assertion_error s thread expression message)
         | Panic \<Rightarrow> panic))"

definition conclude_operations :: "usize \<Rightarrow> u64 \<Rightarrow> ('vm, unit) case_prog" where
  "conclude_operations thread max_operations =
     bind get_state (\<lambda>x.
     if max_operations \<le> cr_operations x \<and> \<not> sim_is_finished (cr_sim x) then
       push_failure (make_failure (cr_sim x) thread None ''operation limit exceeded''
         (Some (''< '' @ show_nat (unat max_operations))) (Some (show_nat (unat (cr_operations x)))))
     else ret ())"

definition conclude_snapshot :: "usize \<Rightarrow> string \<times> scalar \<Rightarrow> ('vm, unit) case_prog" where
  "conclude_snapshot thread = (\<lambda>(expression, expected).
     bind (gets cr_sim) (\<lambda>s.
     case evaluate s thread expression of
       Ok actual \<Rightarrow>
         if equal_expected actual expected None then ret ()
         else push_failure (make_failure s thread (Some expression)
                (''final-state snapshot differs'' @ [CHR 0x0A] @ ''- '' @ format_scalar expected @ [CHR 0x0A] @ ''+ '' @
                 display_value actual)
                (Some (format_scalar expected)) (Some (display_value actual)))
     | Err e \<Rightarrow> push_failure (make_failure s thread (Some expression) (''snapshot evaluation failed: '' @ e)
                (Some (format_scalar expected)) None)
     | Panic \<Rightarrow> panic))"

definition conclude_case :: "usize \<Rightarrow> test_case \<Rightarrow> u64 \<Rightarrow> u64 \<Rightarrow> ('vm, unit) case_prog" where
  "conclude_case thread c max_ticks max_operations =
     bind (conclude_error thread c) (\<lambda>_.
     bind (for_each (List.enumerate 0 (tc_assertions c)) (conclude_eventually thread)) (\<lambda>_.
     bind (gets (\<lambda>x. s_tick (cr_sim x))) (\<lambda>tick.
     bind (if tick < max_ticks then for_each (filter is_final_assertion (tc_assertions c)) (conclude_final thread) else ret ()) (\<lambda>_.
     bind (conclude_operations thread max_operations) (\<lambda>_.
     case tc_snapshot c of Some values \<Rightarrow> for_each values (conclude_snapshot thread) | None \<Rightarrow> ret ())))))"

definition case_verdict :: "string \<Rightarrow> u64 \<Rightarrow> 'vm simulator \<Rightarrow> 'vm case_run \<Rightarrow> case_result" where
  "case_verdict name seed s0 x =
     \<lparr>rs_name = name, rs_status = (if cr_failures x = [] then StPassed else StFailed), rs_seed = seed,
      rs_ticks = s_tick (cr_sim x), rs_operations = cr_operations x, rs_failures = cr_failures x,
      rs_warnings = s_compatibility_warnings s0\<rparr>"

section \<open>A case against its scenario\<close>

fun collect_script_scalar :: "script_action \<Rightarrow> (string \<times> scalar) list" where
  "collect_script_scalar (ActSet target v) = [(target, v)]"
| "collect_script_scalar (ActPublish network _ v) = [(network, v)]"
| "collect_script_scalar (ActSchedule _ actions) = concat (map collect_script_scalar actions)"
| "collect_script_scalar (ActMoveSlot _ _) = []"

definition collect_rule_scalars :: "scripted_rule \<Rightarrow> (string \<times> scalar) list" where
  "collect_rule_scalars rule =
     (case tr_equals (ru_when rule) of Some v \<Rightarrow> [(tr_target (ru_when rule), v)] | None \<Rightarrow> []) @
     concat (map collect_script_scalar (ru_actions rule))"

definition case_scalars :: "test_case \<Rightarrow> (string \<times> scalar) list" where
  "case_scalars c =
     tc_initial c @
     concat (map (\<lambda>entry. tl_set entry @ map (\<lambda>e. (sv_target e, sv_value e)) (tl_events entry)) (tc_timeline c)) @
     concat (map (\<lambda>driver. concat (map collect_rule_scalars (dr_rules driver))) (tc_drivers c)) @
     List.map_filter (\<lambda>a. map_option (Pair ''assertion'') (as_expected a)) (tc_assertions c) @
     (case tc_snapshot c of Some values \<Rightarrow> values | None \<Rightarrow> [])"

definition scalar_text :: "scalar \<Rightarrow> string" where
  "scalar_text v = (case v of ScalarText t \<Rightarrow> t | ScalarNumber _ \<Rightarrow> [])"

definition validate_case_scalars :: "test_case \<Rightarrow> string option" where
  "validate_case_scalars c =
     map_option (\<lambda>(location, v). ''invalid numeric value for `'' @ location @ ''`: `'' @ scalar_text v @ ''` is not an IC10 number'')
       (find (\<lambda>(_, v). scalar_as_f64 v = None) (case_scalars c))"

definition load_simulator :: "'vm runner_host \<Rightarrow> string + scenario \<Rightarrow> string \<Rightarrow> string list \<Rightarrow> (bool \<times> string, 'vm simulator) outcome" where
  "load_simulator h scenario_file base lua_roots =
     (case scenario_file of
        Inl e \<Rightarrow> Err (False, e)
      | Inr sc \<Rightarrow> o_map_err (\<lambda>e. (case e of LoadCompile _ \<Rightarrow> True | _ \<Rightarrow> False, rh_load_text h e))
                    (from_scenario (rh_environment h) sc base lua_roots))"

text \<open>The machine a case looks at: the IC that runs its program, or the first one for a Lua program.\<close>

definition case_thread :: "string + scenario \<Rightarrow> 'vm simulator \<Rightarrow> test_case \<Rightarrow> usize option" where
  "case_thread scenario_file s c =
     (case tc_program c of
        None \<Rightarrow> Some 0
      | Some ident \<Rightarrow>
          (case find_index (\<lambda>cpu. c_program_id cpu = ident) (s_cpus s) of
             Some i \<Rightarrow> Some i
           | None \<Rightarrow>
               (case scenario_file of
                  Inl _ \<Rightarrow> None
                | Inr sc \<Rightarrow>
                    (case find (\<lambda>p. ps_id p = ident) (sc_programs sc) of
                       Some p \<Rightarrow> if ps_language p = LangLua then Some 0 else None
                     | None \<Rightarrow> None))))"

definition apply_initial :: "usize \<Rightarrow> (string, scalar) btree_map \<Rightarrow> ('vm simulator, string, unit) prog" where
  "apply_initial thread initial =
     for_each initial (\<lambda>(target, v).
       map_prog_err (\<lambda>message. ''invalid initial override `'' @ target @ ''`: '' @ message)
         (set_value thread target (scalar_or_nan v)))"

definition start_case :: "'vm runner_host \<Rightarrow> usize \<Rightarrow> test_case \<Rightarrow> ('vm simulator, string, script_drivers) prog" where
  "start_case h thread c =
     bind (for_each (tc_assertions c) (\<lambda>a. lift_result (map_sum id (\<lambda>_. ()) (assertion_expression a)))) (\<lambda>_.
     bind (apply_initial thread (tc_initial c)) (\<lambda>_.
     drivers_new (rh_codec h) thread (tc_drivers c)))"

definition initial_run :: "test_case \<Rightarrow> script_drivers \<Rightarrow> 'vm simulator \<Rightarrow> 'vm case_run" where
  "initial_run c drivers s =
     \<lparr>cr_drive = \<lparr>dx_drivers = drivers, dx_sim = s\<rparr>, cr_operations = 0, cr_failures = [],
      cr_satisfied = replicate (length (tc_assertions c)) False, cr_error = None\<rparr>"

definition finish_case :: "string \<Rightarrow> u64 \<Rightarrow> usize \<Rightarrow> test_case \<Rightarrow> u64 \<Rightarrow> u64 \<Rightarrow> 'vm simulator
    \<Rightarrow> ((string, unit) outcome \<times> 'vm case_run) option \<Rightarrow> (string, case_result) outcome option" where
  "finish_case name seed thread c max_ticks max_operations s0 result =
     (case result of
        None \<Rightarrow> None
      | Some (Ok _, x) \<Rightarrow>
          (case conclude_case thread c max_ticks max_operations x of
             (Ok _, y) \<Rightarrow> Some (Ok (case_verdict name seed s0 y))
           | (Err e, _) \<Rightarrow> Some (Err e)
           | (Panic, _) \<Rightarrow> Some Panic)
      | Some (Err e, _) \<Rightarrow> Some (Err e)
      | Some (Panic, _) \<Rightarrow> Some Panic)"

text \<open>The rounds that are enough: one for each tick, and one that finds the operations used up.\<close>

definition run_loaded_case ::
  "'vm runner_host \<Rightarrow> string \<Rightarrow> test_case \<Rightarrow> string + scenario \<Rightarrow> u64 \<Rightarrow> run_limits \<Rightarrow> 'vm simulator \<Rightarrow> (string, case_result) outcome option" where
  "run_loaded_case h name c scenario_file seed limits s =
     (case case_thread scenario_file (set_seed seed s) c of
        None \<Rightarrow> Some (Ok (invalid_case name seed (''unknown program `'' @ (case tc_program c of Some p \<Rightarrow> p | None \<Rightarrow> []) @ ''`'')))
      | Some thread \<Rightarrow>
          (case start_case h thread c (set_seed seed s) of
             (Panic, _) \<Rightarrow> Some Panic
           | (Err message, _) \<Rightarrow> Some (Ok (invalid_case name seed message))
           | (Ok drivers, s') \<Rightarrow>
               (let max_ticks = min (tc_max_ticks c) (rl_max_ticks limits);
                    max_operations = min (tc_max_operations c) (rl_max_operations limits)
                in finish_case name seed thread c max_ticks max_operations s
                     (case_loop h thread c limits max_ticks max_operations (unat max_ticks + 2) 0 (initial_run c drivers s')))))"

definition run_scenario_case ::
  "'vm runner_host \<Rightarrow> string \<Rightarrow> test_case \<Rightarrow> string + scenario \<Rightarrow> string \<Rightarrow> u64 \<Rightarrow> run_limits \<Rightarrow> string list
     \<Rightarrow> (string, case_result) outcome option" where
  "run_scenario_case h name c scenario_file base seed limits lua_roots =
     (case validate_case_scalars c of
        Some message \<Rightarrow> Some (Ok (invalid_case name seed message))
      | None \<Rightarrow>
     (case load_simulator h scenario_file base lua_roots of
        Panic \<Rightarrow> Some Panic
      | Err (compile_error, message) \<Rightarrow>
          if matches_expected_error c (if compile_error then KindCompile else KindRuntime) message
          then Some (Ok (passed_case name seed))
          else Some (Ok (failed_case name seed (''could not load scenario: '' @ message) None))
      | Ok s \<Rightarrow>
          if (case tc_expect_error c of Some e \<Rightarrow> ee_kind e = KindCompile | None \<Rightarrow> False) then
            Some (Ok (failed_case name seed ''expected a compile error, but compilation succeeded'' None))
          else run_loaded_case h name c scenario_file seed limits s))"

end
