(* ===== verification/Simulator_Tools_Correct.thy ===== *)
theory Simulator_Tools_Correct
  imports Simulator_Tools Scheduler
begin

text \<open>
  What the tools can rely on: a cell set from outside leaves the simulator well-formed, and the one effect it records
  is enough to repeat it on the state before; restoring a checkpoint restores the hash of the state.
\<close>

section \<open>Vocabulary\<close>

text \<open>The calls by which a tool sets one cell.\<close>

datatype tool_write =
    SetRegister usize usize f64
  | SetStack usize usize f64
  | SetField string string f64
  | SetSlot usize usize string f64
  | SetMemory usize usize f64
  | SetChannel usize usize f64

fun tool_write_as :: "tool_write \<Rightarrow> effect_actor \<Rightarrow> ('vm, unit) sim_prog" where
  "tool_write_as (SetRegister i register v) = set_register_as i register v"
| "tool_write_as (SetStack i address v) = set_stack_as i address v"
| "tool_write_as (SetField device_id name v) = set_device_field_as device_id name v"
| "tool_write_as (SetSlot i slot name v) = set_device_slot_as i slot name v"
| "tool_write_as (SetMemory i address v) = set_device_memory_as i address v"
| "tool_write_as (SetChannel i channel v) = set_network_channel_as i channel v"

text \<open>Indexes that the narrower integers of an effect target can hold.\<close>

fun target_fits :: "tool_write \<Rightarrow> bool" where
  "target_fits (SetRegister _ register _) \<longleftrightarrow> register < 2 ^ 8"
| "target_fits (SetStack _ address _) \<longleftrightarrow> address < 2 ^ 16"
| "target_fits (SetField _ _ _) \<longleftrightarrow> True"
| "target_fits (SetSlot _ slot _ _) \<longleftrightarrow> slot < 2 ^ 16"
| "target_fits (SetMemory _ address _) \<longleftrightarrow> address < 2 ^ 32"
| "target_fits (SetChannel _ channel _) \<longleftrightarrow> channel < 2 ^ 8"

text \<open>The devices, networks and channels that the code indexes without a check are there.\<close>

fun target_exists :: "tool_write \<Rightarrow> world_form \<Rightarrow> bool" where
  "target_exists (SetSlot i _ _ _) shape \<longleftrightarrow> i < length (fst shape)"
| "target_exists (SetMemory i _ _) shape \<longleftrightarrow> i < length (fst shape)"
| "target_exists (SetChannel i channel _) shape \<longleftrightarrow> i < snd shape \<and> channel < 8"
| "target_exists _ shape \<longleftrightarrow> True"

text \<open>The call left one effect, on a target with property \<open>P\<close> and with the value \<open>v\<close>, and replaying it on the state before gives the state after.\<close>

definition replays :: "(effect_journal \<Rightarrow> effect_target \<Rightarrow> bool) \<Rightarrow> f64 \<Rightarrow> 'vm simulator \<Rightarrow> 'vm simulator \<Rightarrow> bool" where
  "replays P v s s' \<longleftrightarrow> (\<exists>w. j_write_history (s_journal s') = j_write_history (s_journal s) @ [w] \<and>
     we_after_bits (sw_effect w) = to_bits v \<and> P (s_journal s') (we_target (sw_effect w)) \<and>
     apply_write_effect (sw_effect w) (s\<lparr>s_journal := s_journal s'\<rparr>) = (Ok (), s'))"

section \<open>Lemmas\<close>

lemma unat_small:
  "n < 2 ^ 8 \<Longrightarrow> unat (of_nat n :: u8) = n" "n < 2 ^ 16 \<Longrightarrow> unat (of_nat n :: u16) = n" "n < 2 ^ 32 \<Longrightarrow> unat (of_nat n :: u32) = n"
  by (simp_all add: unat_of_nat)

lemma j_write_enabled:
  assumes "j_enabled j"
  shows "\<exists>w. j_write_history (j_write actor target before after j) = j_write_history j @ [w] \<and>
    we_target (sw_effect w) = target \<and> we_after_bits (sw_effect w) = to_bits after"
  using assms by (simp add: j_write_def j_write_bits_def j_push_write_def Let_def)

lemma ok_or_eq_Ok: "ok_or e x s = (Ok y, s') \<longleftrightarrow> x = Some y \<and> s' = s"
  by (cases x) (auto simp: ok_or_def prog_simps)

lemma expect_eq_Ok: "expect x s = (Ok y, s') \<longleftrightarrow> x = Some y \<and> s' = s"
  by (cases x) (auto simp: expect_def prog_simps)

lemma bind_eq_Ok: "bind m f s = (Ok y, s') \<longleftrightarrow> (\<exists>x s1. m s = (Ok x, s1) \<and> f x s1 = (Ok y, s'))"
  by (auto simp: bind_def split: prod.splits outcome.splits)

lemmas tool_simps = bind_eq_Ok ok_or_eq_Ok expect_eq_Ok gets_def modify_def s_note_def bind_eq_Some_conv

lemma s_note_named_Ok:
  assumes "j_enabled (s_journal s)" "s_note_named name (\<lambda>i. j_write actor (target i) before new) s = (Ok (), s')" "symbols_wf (s_journal s)"
    "length (j_symbols (s_journal s)) < 2 ^ 32"
  shows "\<exists>i w j. s' = s\<lparr>s_journal := j\<rparr> \<and> j_resolve j i = Some name \<and>
    j_write_history j = j_write_history (s_journal s) @ [w] \<and>
    we_target (sw_effect w) = target i \<and> we_after_bits (sw_effect w) = to_bits new"
proof -
  obtain i j where i: "j_intern name (s_journal s) = (i, j)" by fastforce
  have j: "j_resolve j i = Some name" "j_enabled j" "j_write_history j = j_write_history (s_journal s)"
    using resolve_intern [OF assms(3,4), of name] i assms(1) by (auto simp: j_intern_def Let_def split: option.splits)
  have s': "s' = s\<lparr>s_journal := j_write actor (target i) before new j\<rparr>"
    using assms(1,2) i by (auto simp: s_note_named_def tool_simps s_intern_def)
  have "j_resolve (j_write actor (target i) before new j) i = j_resolve j i"
    by (simp add: j_write_def j_write_bits_def j_push_write_def j_resolve_def Let_def)
  then show ?thesis using j_write_enabled [OF j(2), of actor "target i" before new] j s' by force
qed

lemma replay_unnamed:
  assumes "s_note (j_write actor target before new) s1 = (Ok (), s')" "j_enabled (s_journal s1)"
  shows "\<exists>w. s' = s1\<lparr>s_journal := s_journal s'\<rparr> \<and> j_write_history (s_journal s') = j_write_history (s_journal s1) @ [w] \<and>
    we_target (sw_effect w) = target \<and> we_after_bits (sw_effect w) = to_bits new"
  using j_write_enabled [OF assms(2), of actor target before new] assms(1) by (auto simp: tool_simps)

lemma replay_cpu:
  assumes "j_enabled (s_journal s)"
  shows "set_register_as i register v actor s = (Ok (), s') \<Longrightarrow> register < 2 ^ 8 \<Longrightarrow> replays (\<lambda>_ t. t = TRegister i (of_nat register)) v s s'"
    "set_stack_as i address v actor s = (Ok (), s') \<Longrightarrow> address < 2 ^ 16 \<Longrightarrow> replays (\<lambda>_ t. t = TStack i (of_nat address)) v s s'"
proof -
  assume call: "set_register_as i register v actor s = (Ok (), s')" and fits: "register < 2 ^ 8"
  then obtain c before where "nth_opt (s_cpus s) i = Some c" "nth_opt (c_registers c) register = Some before"
    "s_note (j_write actor (TRegister i (of_nat register)) before v)
       (s_set_cpu i (c\<lparr>c_registers := (c_registers c)[register := v]\<rparr>) s) = (Ok (), s')"
    by (auto simp: set_register_as_def bind_eq_Ok ok_or_eq_Ok gets_def modify_def bind_eq_Some_conv)
  with replay_unnamed [OF this(3)] assms unat_small(1) [OF fits] show "replays (\<lambda>_ t. t = TRegister i (of_nat register)) v s s'" unfolding replays_def
    by (fastforce simp: apply_write_effect_def Let_def tool_simps s_set_cpu_def)
next
  assume call: "set_stack_as i address v actor s = (Ok (), s')" and fits: "address < 2 ^ 16"
  then obtain c before where "nth_opt (s_cpus s) i = Some c" "nth_opt (c_stack c) address = Some before"
    "s_note (j_write actor (TStack i (of_nat address)) before v)
       (s_set_cpu i (c\<lparr>c_stack := (c_stack c)[address := v]\<rparr>) s) = (Ok (), s')"
    by (auto simp: set_stack_as_def bind_eq_Ok ok_or_eq_Ok gets_def modify_def bind_eq_Some_conv)
  with replay_unnamed [OF this(3)] assms unat_small(2) [OF fits] show "replays (\<lambda>_ t. t = TStack i (of_nat address)) v s s'" unfolding replays_def
    by (fastforce simp: apply_write_effect_def Let_def tool_simps s_set_cpu_def)
qed

lemma replay_field:
  assumes "set_device_field_as device_id name v actor s = (Ok (), s')" "j_enabled (s_journal s)" "symbols_wf (s_journal s)"
    "length (j_symbols (s_journal s)) < 2 ^ 32" "world_device_index (s_world s) device_id = Some i"
  shows "replays (\<lambda>j t. \<exists>k. t = TDeviceField i k \<and> j_resolve j k = Some name) v s s'"
proof -
  obtain d before s2 where d: "nth_opt (w_devices (s_world s)) i = Some d" "bt_get (dv_fields d) name = Some before"
    and noted: "s_note_named name (\<lambda>field. j_write actor (TDeviceField i field) before v)
       (s_set_device i (d\<lparr>dv_fields := bt_insert name v (dv_fields d)\<rparr>) s) = (Ok (), s2)"
    and s': "s' = s2\<lparr>s_behaviours := notify_field_write i name before v (s_behaviours s2)\<rparr>"
    using assms(1,5)
    by (auto simp: set_device_field_as_def bind_eq_Ok ok_or_eq_Ok expect_eq_Ok gets_def modify_def s_device_def s_notify_def)
  from s_note_named_Ok [OF _ noted] assms(2-4) obtain k w j where
    "s2 = (s_set_device i (d\<lparr>dv_fields := bt_insert name v (dv_fields d)\<rparr>) s)\<lparr>s_journal := j\<rparr>"
    "j_resolve j k = Some name" "j_write_history j = j_write_history (s_journal s) @ [w]"
    "we_target (sw_effect w) = TDeviceField i k" "we_after_bits (sw_effect w) = to_bits v"
    by (auto simp: s_set_device_def)
  with d s' show ?thesis unfolding replays_def
    by (intro exI [of _ w]) (simp add: apply_write_effect_def Let_def tool_simps s_device_def s_notify_def s_set_device_def)
qed

lemma replay_slot:
  assumes "set_device_slot_as i slot name v actor s = (Ok (), s')" "slot < 2 ^ 16" "j_enabled (s_journal s)" "symbols_wf (s_journal s)"
    "length (j_symbols (s_journal s)) < 2 ^ 32"
  shows "replays (\<lambda>j t. \<exists>k. t = TDeviceSlot i (of_nat slot) k \<and> j_resolve j k = Some name) v s s'"
proof -
  obtain d fs before where d: "nth_opt (w_devices (s_world s)) i = Some d" "bt_get (dv_slots d) slot = Some fs"
    and noted: "s_note_named name (\<lambda>field. j_write actor (TDeviceSlot i (of_nat slot) field) before v)
       (s_set_device i (d\<lparr>dv_slots := bt_insert slot (bt_insert name v fs) (dv_slots d)\<rparr>) s) = (Ok (), s')"
    using assms(1)
    by (auto simp: set_device_slot_as_def bind_eq_Ok ok_or_eq_Ok expect_eq_Ok gets_def modify_def s_device_def bind_eq_Some_conv)
  from s_note_named_Ok [OF _ noted] assms(3-5) obtain k w j where
    "s' = (s_set_device i (d\<lparr>dv_slots := bt_insert slot (bt_insert name v fs) (dv_slots d)\<rparr>) s)\<lparr>s_journal := j\<rparr>"
    "j_resolve j k = Some name" "j_write_history j = j_write_history (s_journal s) @ [w]"
    "we_target (sw_effect w) = TDeviceSlot i (of_nat slot) k" "we_after_bits (sw_effect w) = to_bits v"
    by (auto simp: s_set_device_def)
  with d unat_small(2) [OF assms(2)] show ?thesis unfolding replays_def
    by (intro exI [of _ w]) (simp add: apply_write_effect_def Let_def tool_simps s_device_def s_set_device_def)
qed

lemma replay_cells:
  assumes "j_enabled (s_journal s)"
  shows "set_device_memory_as i address v actor s = (Ok (), s') \<Longrightarrow> address < 2 ^ 32 \<Longrightarrow> replays (\<lambda>_ t. t = TDeviceMemory i (of_nat address)) v s s'"
    "set_network_channel_as i channel v actor s = (Ok (), s') \<Longrightarrow> channel < 2 ^ 8 \<Longrightarrow> replays (\<lambda>_ t. t = TNetworkChannel i (of_nat channel)) v s s'"
proof -
  assume call: "set_device_memory_as i address v actor s = (Ok (), s')" and fits: "address < 2 ^ 32"
  then obtain d before where "nth_opt (w_devices (s_world s)) i = Some d" "nth_opt (dv_memory d) address = Some before"
    "s_note (j_write actor (TDeviceMemory i (of_nat address)) before v)
       (s_set_device i (d\<lparr>dv_memory := (dv_memory d)[address := v]\<rparr>) s) = (Ok (), s')"
    by (auto simp: set_device_memory_as_def bind_eq_Ok ok_or_eq_Ok expect_eq_Ok gets_def modify_def s_device_def)
  with replay_unnamed [OF this(3)] assms unat_small(3) [OF fits] show "replays (\<lambda>_ t. t = TDeviceMemory i (of_nat address)) v s s'" unfolding replays_def
    by (fastforce simp: apply_write_effect_def Let_def tool_simps s_device_def s_set_device_def)
next
  assume call: "set_network_channel_as i channel v actor s = (Ok (), s')" and fits: "channel < 2 ^ 8"
  then obtain n before where "nth_opt (w_networks (s_world s)) i = Some n" "nth_opt (nw_channels n) channel = Some before"
    "s_note (j_write actor (TNetworkChannel i (of_nat channel)) before v)
       (s_set_network i (n\<lparr>nw_channels := (nw_channels n)[channel := v]\<rparr>) s) = (Ok (), s')"
    by (auto simp: set_network_channel_as_def bind_eq_Ok ok_or_eq_Ok expect_eq_Ok gets_def modify_def s_network_def)
  with replay_unnamed [OF this(3)] assms unat_small(1) [OF fits] show "replays (\<lambda>_ t. t = TNetworkChannel i (of_nat channel)) v s s'" unfolding replays_def
    by (fastforce simp: apply_write_effect_def Let_def tool_simps s_network_def s_set_network_def)
qed

subsection \<open>Well-formedness\<close>

lemma sim_inv_set_world: "sim_inv kb sh s \<Longrightarrow> world_inv kb sh w \<Longrightarrow> sim_inv kb sh (s\<lparr>s_world := w\<rparr>)"
  using adapter_bound_cong [of "s\<lparr>s_world := w\<rparr>" s] by (auto simp: sim_inv_def list_all_iff)

lemma sim_inv_notify: "sim_inv kb sh s \<Longrightarrow> sim_inv kb sh (s\<lparr>s_behaviours := notify_field_write i name x y (s_behaviours s)\<rparr>)"
  using adapter_bound_cong [of "s\<lparr>s_behaviours := notify_field_write i name x y (s_behaviours s)\<rparr>" s]
  by (auto simp: sim_inv_def list_all_iff behaviour_wf_def notify_field_write_def)

lemma sim_inv_device:
  assumes "sim_inv kb sh s" "i < length (fst sh)"
  shows "i < length (w_devices (s_world s))" "device_wf kb (length (w_networks (s_world s))) (w_devices (s_world s) ! i)"
proof -
  have w: "world_inv kb sh (s_world s)" using assms(1) by (simp add: sim_inv_def)
  show "i < length (w_devices (s_world s))" using world_inv_length [OF w] assms(2) by simp
  show "device_wf kb (length (w_networks (s_world s))) (w_devices (s_world s) ! i)" by (rule world_inv_device_wf [OF w assms(2)])
qed

lemma sim_inv_set_device:
  assumes "sim_inv kb sh s" "i < length (fst sh)" "device_shape d = device_shape (w_devices (s_world s) ! i)"
    and "device_wf kb (length (w_networks (s_world s))) d"
  shows "sim_inv kb sh (s_set_device i d s)"
proof -
  have "world_inv kb sh (s_world s)" using assms(1) by (simp add: sim_inv_def)
  then have "world_inv kb sh ((s_world s)\<lparr>w_devices := (w_devices (s_world s))[i := d]\<rparr>)"
    using assms sim_inv_device [OF assms(1,2)] by (intro world_inv_set_device) auto
  then show ?thesis unfolding s_set_device_def by (rule sim_inv_set_world [OF assms(1)])
qed

lemma s_note_named_runs: "\<exists>j. s_note_named name f s = (Ok (), s\<lparr>s_journal := j\<rparr>)"
proof (cases "j_enabled (s_journal s)")
  case False
  then show ?thesis by (intro exI [of _ "s_journal s"]) (simp add: s_note_named_def bind_def prog_simps)
qed (auto simp: s_note_named_def s_note_def s_intern_def bind_def prog_simps split: prod.splits)

lemma device_index_bound:
  "sim_inv kb sh s \<Longrightarrow> world_device_index (s_world s) name = Some i \<Longrightarrow> i < length (fst sh)"
  using world_device_index_less [of kb "s_world s"] world_inv_length [of kb sh "s_world s"] by (auto simp: sim_inv_def world_inv_def)

lemma cpu_ok_cells:
  assumes "cpu_ok n c"
  shows "cpu_ok n (c\<lparr>c_registers := (c_registers c)[k := v]\<rparr>)" "cpu_ok n (c\<lparr>c_stack := (c_stack c)[k := v]\<rparr>)"
  using assms by (auto simp: cpu_ok_def cpu_wf_def cpu_shape_def)

lemma set_cpu_cells_inv:
  assumes "sim_inv kb sh s"
  shows "set_register_as i k v actor s = (r, s') \<Longrightarrow> r \<noteq> Panic \<and> sim_inv kb sh s'"
    "set_stack_as i k v actor s = (r, s') \<Longrightarrow> r \<noteq> Panic \<and> sim_inv kb sh s'"
proof -
  have ok: "sim_inv kb sh ((s_set_cpu i (c\<lparr>c_registers := (c_registers c)[k := v]\<rparr>) s)\<lparr>s_journal := j\<rparr>)"
    "sim_inv kb sh ((s_set_cpu i (c\<lparr>c_stack := (c_stack c)[k := v]\<rparr>) s)\<lparr>s_journal := j\<rparr>)" if "nth_opt (s_cpus s) i = Some c" for c j
    using sim_inv_cpu [OF assms, of i] that
    by (intro sim_inv_journal sim_inv_set_cpu [OF assms] cpu_ok_cells; simp add: nth_opt_eq_Some)+
  show "set_register_as i k v actor s = (r, s') \<Longrightarrow> r \<noteq> Panic \<and> sim_inv kb sh s'"
    using assms ok(1)
    by (cases "nth_opt (s_cpus s) i"; simp add: set_register_as_def bind_def prog_simps s_note_def)
      (auto simp: ok_or_def prog_simps split: option.splits)
  show "set_stack_as i k v actor s = (r, s') \<Longrightarrow> r \<noteq> Panic \<and> sim_inv kb sh s'"
    using assms ok(2)
    by (cases "nth_opt (s_cpus s) i"; simp add: set_stack_as_def bind_def prog_simps s_note_def)
      (auto simp: ok_or_def prog_simps split: option.splits)
qed

lemma set_field_inv:
  assumes "sim_inv kb sh s" "set_device_field_as device_id name v actor s = (r, s')"
  shows "r \<noteq> Panic \<and> sim_inv kb sh s'"
proof (cases "world_device_index (s_world s) device_id")
  case (Some i)
  let ?d = "w_devices (s_world s) ! i"
  note i = device_index_bound [OF assms(1) Some]
  note d = sim_inv_device [OF assms(1) i]
  show ?thesis
  proof (cases "bt_get (dv_fields ?d) name")
    case (Some before)
    let ?s = "s_set_device i (?d\<lparr>dv_fields := bt_insert name v (dv_fields ?d)\<rparr>) s"
    obtain j where "s_note_named name (\<lambda>field. j_write actor (TDeviceField i field) before v) ?s = (Ok (), ?s\<lparr>s_journal := j\<rparr>)"
      using s_note_named_runs by blast
    then have "r = Ok ()" "s' = ?s\<lparr>s_journal := j, s_behaviours := notify_field_write i name before v (s_behaviours ?s)\<rparr>"
      using assms(2) d(1) Some \<open>world_device_index (s_world s) device_id = Some i\<close>
      by (auto simp: set_device_field_as_def s_device_def s_notify_def bind_def prog_simps)
    moreover have "sim_inv kb sh ?s"
      by (rule sim_inv_set_device [OF assms(1) i]) (simp_all add: device_shape_def device_wf_fields d)
    ultimately show ?thesis using sim_inv_notify [OF sim_inv_journal [of kb sh ?s j]] by simp
  qed (use assms Some d(1) in \<open>auto simp: set_device_field_as_def s_device_def bind_def prog_simps\<close>)
qed (use assms in \<open>auto simp: set_device_field_as_def bind_def prog_simps\<close>)

lemma set_device_cells_inv:
  assumes "sim_inv kb sh s" "i < length (fst sh)"
  shows "set_device_slot_as i slot name v actor s = (r, s') \<Longrightarrow> r \<noteq> Panic \<and> sim_inv kb sh s'"
    "set_device_memory_as i address v actor s = (r, s') \<Longrightarrow> r \<noteq> Panic \<and> sim_inv kb sh s'"
proof -
  let ?d = "w_devices (s_world s) ! i"
  note d = sim_inv_device [OF assms]
  have wf: "bt_wf (dv_slots ?d)" using d(2) by (simp add: device_wf_def)
  have slots: "sim_inv kb sh (s_set_device i (?d\<lparr>dv_slots := bt_insert slot m (dv_slots ?d)\<rparr>) s)" for slot m
    by (rule sim_inv_set_device [OF assms]) (simp_all add: device_shape_def device_wf_updates(2) [OF d(2)] bt_wf_insert wf)
  have memory: "sim_inv kb sh (s_set_device i (?d\<lparr>dv_memory := (dv_memory ?d)[address := v]\<rparr>) s)"
    by (rule sim_inv_set_device [OF assms]) (simp_all add: device_shape_def device_wf_updates(1) [OF d(2)])
  show "set_device_memory_as i address v actor s = (r, s') \<Longrightarrow> r \<noteq> Panic \<and> sim_inv kb sh s'"
    using d(1) assms(1) memory
    by (auto simp: set_device_memory_as_def s_device_def s_note_def bind_def prog_simps nth_opt_def sim_inv_journal split: if_splits)
  assume call: "set_device_slot_as i slot name v actor s = (r, s')"
  show "r \<noteq> Panic \<and> sim_inv kb sh s'"
  proof (cases "Option.bind (bt_get (dv_slots ?d) slot) (\<lambda>fs. map_option (Pair fs) (bt_get fs name))")
    case (Some p)
    then obtain fs before where p: "p = (fs, before)" by (cases p)
    show ?thesis
      using call d(1) Some p slots s_note_named_runs [of name "\<lambda>field. j_write actor (TDeviceSlot i (of_nat slot) field) before v"
          "s_set_device i (?d\<lparr>dv_slots := bt_insert slot (bt_insert name v fs) (dv_slots ?d)\<rparr>) s"]
      by (auto simp: set_device_slot_as_def s_device_def bind_def prog_simps sim_inv_journal)
  qed (use call d(1) assms(1) in \<open>auto simp: set_device_slot_as_def s_device_def bind_def prog_simps\<close>)
qed

lemma set_channel_inv:
  assumes "sim_inv kb sh s" "i < snd sh" "channel < 8" "set_network_channel_as i channel v actor s = (r, s')"
  shows "r \<noteq> Panic \<and> sim_inv kb sh s'"
proof -
  let ?n = "w_networks (s_world s) ! i"
  have w: "world_wf kb (s_world s)" "world_shape (s_world s) = sh" using assms(1) by (simp_all add: sim_inv_def world_inv_def)
  then have i: "i < length (w_networks (s_world s))" using assms(2) by (auto simp: world_shape_def)
  then have ch: "channel < length (nw_channels ?n)" using w(1) assms(3) by (simp add: world_wf_def list_all_length network_wf_def)
  have "world_inv kb sh ((s_world s)\<lparr>w_networks := (w_networks (s_world s))[i := written_network ?n channel v]\<rparr>)"
    using world_wf_update_network [OF w(1) i assms(3)] w(2) by (auto simp: world_inv_def world_shape_def)
  then have "sim_inv kb sh (s_set_network i (written_network ?n channel v) s)"
    unfolding s_set_network_def by (rule sim_inv_set_world [OF assms(1)])
  then show ?thesis using assms(4) i ch
    by (auto simp: set_network_channel_as_def s_network_def s_note_def bind_def prog_simps written_network_def sim_inv_journal)
qed

lemma tool_write_safe:
  assumes "sim_inv kb sh s" "target_exists t sh" "tool_write_as t actor s = (r, s')"
  shows "r \<noteq> Panic \<and> sim_inv kb sh s'"
  using assms(2,3)
  by (cases t) (auto dest: set_cpu_cells_inv [OF assms(1)] set_field_inv [OF assms(1)] set_device_cells_inv [OF assms(1)]
    set_channel_inv [OF assms(1)])

lemma tool_write_missing:
  assumes "sim_inv kb sh s" "\<not> target_exists t sh" "tool_write_as t actor s = (r, s')"
  shows "r = Panic \<and> s' = s"
proof -
  have w: "world_wf kb (s_world s)" "world_shape (s_world s) = sh" using assms(1) by (simp_all add: sim_inv_def world_inv_def)
  then have d: "nth_opt (w_devices (s_world s)) i = None" if "\<not> i < length (fst sh)" for i using that by (auto simp: world_shape_def nth_opt_def)
  have n: "nth_opt (w_networks (s_world s)) i = None \<or> nth_opt (nw_channels (w_networks (s_world s) ! i)) channel = None"
    if "\<not> (i < snd sh \<and> channel < 8)" for i channel
    using that w by (auto simp: world_shape_def nth_opt_def world_wf_def list_all_length network_wf_def)
  show ?thesis
  proof (cases t)
    case (SetChannel i channel v)
    then show ?thesis using assms(2,3) n [of i channel]
      by (cases "nth_opt (w_networks (s_world s)) i")
        (auto simp: set_network_channel_as_def s_network_def bind_def prog_simps nth_opt_def split: if_splits)
  qed (use assms(2,3) d in \<open>auto simp: set_device_slot_as_def set_device_memory_as_def s_device_def bind_def prog_simps\<close>)
qed

text \<open>Everything that can fail comes before the first change.\<close>

lemma s_note_named_result: "s_note_named name f s = (q, s') \<Longrightarrow> q = Ok ()"
  using s_note_named_runs by (metis prod.inject)

lemma tool_write_unchanged:
  assumes "tool_write_as t actor s = (r, s')"
  shows "r = Ok () \<or> s' = s"
proof (cases t)
  case (SetRegister i k v)
  then show ?thesis using assms
    by (auto simp: set_register_as_def bind_def prog_simps s_note_def ok_or_def split: option.splits)
next
  case (SetStack i k v)
  then show ?thesis using assms
    by (auto simp: set_stack_as_def bind_def prog_simps s_note_def ok_or_def split: option.splits)
next
  case (SetField ident name v)
  then show ?thesis using assms
    by (auto simp: set_device_field_as_def s_device_def s_notify_def bind_def prog_simps ok_or_def expect_def dest: s_note_named_result
      split: option.splits prod.splits outcome.splits)
next
  case (SetSlot i slot name v)
  then show ?thesis using assms
    by (auto simp: set_device_slot_as_def s_device_def bind_def prog_simps ok_or_def expect_def dest: s_note_named_result
      split: option.splits prod.splits outcome.splits)
next
  case (SetMemory i address v)
  then show ?thesis using assms
    by (auto simp: set_device_memory_as_def s_device_def s_note_def bind_def prog_simps ok_or_def expect_def
      split: option.splits prod.splits outcome.splits)
next
  case (SetChannel i channel v)
  then show ?thesis using assms
    by (auto simp: set_network_channel_as_def s_network_def s_note_def bind_def prog_simps expect_def
      split: option.splits prod.splits outcome.splits)
qed

subsection \<open>Hashes\<close>

lemma cpu_bytes_snapshot: "cpu_snapshot c = cpu_snapshot c' \<Longrightarrow> cpu_bytes error_text c = cpu_bytes error_text c'"
  by (simp add: cpu_snapshot_def cpu_bytes_def)

lemma sim_snapshot_parts:
  assumes "sim_snapshot s = (Ok snap, s')"
  shows "collect_snapshots (s_schedule s) s = Some (ss_runtimes snap)" "s_world s = ss_world snap" "s_tick s = ss_tick snap"
    "s_scheduler_slot s = ss_scheduler_slot snap" "s_scheduler_error s = ss_scheduler_error snap"
    "s_behaviours s = ss_behaviours snap" "s_driver_state s = ss_driver_state snap"
  using assms by (cases "collect_snapshots (s_schedule s) s"; auto simp: sim_snapshot_def prog_simps)+

lemma scheduled_cpu_snapshot:
  assumes "collect_snapshots slots s = Some ps" "collect_snapshots slots s' = Some ps" "AdapterIc10 i \<in> set slots"
    and "i < length (s_cpus s)" "length (s_cpus s') = length (s_cpus s)"
  shows "cpu_snapshot (s_cpus s ! i) = cpu_snapshot (s_cpus s' ! i)"
proof -
  obtain k where "k < length slots" "slots ! k = AdapterIc10 i" using assms(3) by (auto simp: in_set_conv_nth)
  then have "adapter_snapshot (AdapterIc10 i) s = adapter_snapshot (AdapterIc10 i) s'"
    using assms(1,2) by (fastforce simp: collect_snapshots_eq list_all2_conv_all_nth simp del: adapter_snapshot.simps)
  then show ?thesis using assms(4,5) by simp
qed

section \<open>Properties\<close>

text \<open>C21: What a tool may set. A call that sets a register, a stack cell, a field, a slot field, a memory cell or a channel panics exactly
  when it names a device by an index that is no device, or a network or channel that does not exist, which the code
  indexes without a check (a thread, a register, an address, a device name and a slot are checked); in every case it leaves a well-formed
  simulator, and when it does not succeed it changes nothing.\<close>

theorem tool_write_exact:
  assumes "sim_inv kb sh s" "tool_write_as t actor s = (r, s')"
  shows "(r = Panic \<longleftrightarrow> \<not> target_exists t sh) \<and> sim_inv kb sh s' \<and> (r = Ok () \<or> s' = s)"
  using tool_write_safe [OF assms(1) _ assms(2)] tool_write_missing [OF assms(1) _ assms(2)] tool_write_unchanged [OF assms(2)] assms(1) by metis

theorem tool_write_exact_witness:
  "sim_inv sample_kb (world_shape sample_world) (snd (tool_write_as (SetChannel 0 3 f64_one) ActorDebugger sample_sim)) \<and>
   fst (tool_write_as (SetMemory 5 0 f64_one) ActorDebugger sample_sim) = Panic"
proof -
  have "\<not> target_exists (SetMemory 5 0 f64_one) (world_shape sample_world)" by (simp add: world_shape_def sample_world_def)
  then show ?thesis using tool_write_exact [OF sample_sim_inv prod.collapse [symmetric]] by blast
qed

text \<open>C20: A traced write can be replayed: while the journal records, a successful call adds exactly one effect to the history,
  and applying that effect to the state before the call (with the journal's symbols) gives exactly the state after it.\<close>

theorem tool_write_replays:
  assumes "tool_write_as t actor s = (Ok (), s')" "target_fits t" "j_enabled (s_journal s)" "symbols_wf (s_journal s)"
    and "length (j_symbols (s_journal s)) < 2 ^ 32"
  shows "\<exists>w. j_write_history (s_journal s') = j_write_history (s_journal s) @ [w] \<and>
    apply_write_effect (sw_effect w) (s\<lparr>s_journal := s_journal s'\<rparr>) = (Ok (), s')"
proof -
  have "\<exists>P v. replays P v s s'"
  proof (cases t)
    case (SetField device_id name v)
    with assms(1) obtain i where "world_device_index (s_world s) device_id = Some i"
      by (auto simp: set_device_field_as_def bind_eq_Ok ok_or_eq_Ok gets_def)
    with SetField assms show ?thesis using replay_field [of device_id name v actor s s' i] by auto
  qed (use assms replay_cpu [OF assms(3)] replay_slot [OF _ _ assms(3-5)] replay_cells [OF assms(3)] in \<open>auto intro!: exI\<close>)
  then show ?thesis by (auto simp: replays_def)
qed

theorem tool_write_replays_witness:
  "\<exists>s' w. tool_write_as (SetField ''console'' ''On'' f64_one) ActorDebugger (set_journaling True sample_sim) = (Ok (), s') \<and>
     apply_write_effect w ((set_journaling True sample_sim)\<lparr>s_journal := s_journal s'\<rparr>) = (Ok (), s')"
proof -
  let ?s = "set_journaling True sample_sim" and ?t = "SetField ''console'' ''On'' f64_one"
  have "fst (tool_write_as ?t ActorDebugger ?s) = Ok ()"
    by (simp add: set_device_field_as_def s_device_def s_notify_def s_note_named_def s_note_def s_intern_def bind_def prog_simps
      set_journaling_def j_set_enabled_def sample_sim_def sample_world_def world_device_index_def bt_get_def j_intern_def
      s_set_device_def empty_journal_def bt_empty_def Let_def split: prod.splits)
  then obtain s' where s': "tool_write_as ?t ActorDebugger ?s = (Ok (), s')" by (metis prod.collapse)
  have "j_enabled (s_journal ?s)" "symbols_wf (s_journal ?s)" "length (j_symbols (s_journal ?s)) < 2 ^ 32"
    using symbols_wf_empty by (simp_all add: set_journaling_def j_set_enabled_def sample_sim_def symbols_wf_def empty_journal_def)
  from tool_write_replays [OF s' _ this] show ?thesis using s' by auto
qed

text \<open>The state hash is a function of what a checkpoint saves: two states of a simulation with equal checkpoints, in which
  every IC is scheduled, have equal hashes, so a replay that restores a checkpoint restores the hash recorded with it.\<close>

theorem state_hash_of_checkpoint:
  assumes "sim_snapshot s = (Ok snap, s0)" "sim_snapshot s' = (Ok snap, s1)" "s_schedule s' = s_schedule s"
    and "length (s_cpus s') = length (s_cpus s)" "\<And>i. i < length (s_cpus s) \<Longrightarrow> AdapterIc10 i \<in> set (s_schedule s)"
  shows "state_hash scheduler_text error_text s' = state_hash scheduler_text error_text s"
proof -
  note parts = sim_snapshot_parts [OF assms(1)] sim_snapshot_parts [OF assms(2), unfolded assms(3)]
  have "map (cpu_bytes error_text) (s_cpus s') = map (cpu_bytes error_text) (s_cpus s)"
    using assms(4,5) scheduled_cpu_snapshot [OF parts(1) parts(8)]
    by (intro nth_equalityI [of "map _ _"]) (auto intro: cpu_bytes_snapshot [symmetric])
  then show ?thesis using parts by (simp add: state_hash_def state_bytes_def)
qed

theorem state_hash_of_checkpoint_witness:
  "state_hash (\<lambda>_. []) (\<lambda>_. []) (sample_sim\<lparr>s_compatibility_warnings := [''old'']\<rparr>) = state_hash (\<lambda>_. []) (\<lambda>_. []) sample_sim"
proof -
  let ?s = "sample_sim\<lparr>s_compatibility_warnings := [''old'']\<rparr>"
  have "\<exists>snap. sim_snapshot sample_sim = (Ok snap, sample_sim) \<and> sim_snapshot ?s = (Ok snap, ?s)"
    by (simp add: sim_snapshot_def sample_sim_def prog_simps)
  then obtain snap where snap: "sim_snapshot sample_sim = (Ok snap, sample_sim)" "sim_snapshot ?s = (Ok snap, ?s)" by blast
  show ?thesis by (rule state_hash_of_checkpoint [OF snap]) (auto simp: sample_sim_def less_Suc_eq)
qed

end
