(* ===== verification/Evaluator_Correct.thy ===== *)
theory Evaluator_Correct
  imports Evaluator Simulator_Tools_Correct
begin

text \<open>
  Expressions are safe to evaluate: on ASCII text, in a well-formed simulator, evaluation ends with a value or an
  error. An assignment leaves an effect that its own target recognises, which is what triggers the rules of scripted
  drivers.
\<close>

section \<open>Vocabulary\<close>

definition plain_text :: "string \<Rightarrow> bool" where
  "plain_text s \<longleftrightarrow> list_all (\<lambda>c. \<not> is_continuation c) s"

text \<open>Targets that the narrower integers of an effect can hold.\<close>

fun assignable_fits :: "assignable_target \<Rightarrow> bool" where
  "assignable_fits (AtStack _ address) \<longleftrightarrow> address < 2 ^ 16"
| "assignable_fits (AtDeviceSlot _ slot _) \<longleftrightarrow> slot < 2 ^ 16"
| "assignable_fits (AtDeviceMemory _ address) \<longleftrightarrow> address < 2 ^ 32"
| "assignable_fits _ \<longleftrightarrow> True"

section \<open>Lemmas\<close>

subsection \<open>Splitting plain text\<close>

lemma plain_sub: "plain_text s \<Longrightarrow> set t \<subseteq> set s \<Longrightarrow> plain_text t"
  by (auto simp: plain_text_def list_all_iff)

lemma set_trim: "set (trim s) \<subseteq> set s"
  by (auto simp: trim_def trim_start_def trim_end_def dest!: set_dropWhileD)

lemma set_trim_outer: "set (trim_outer e) \<subseteq> set e"
proof (induction e rule: trim_outer.induct)
  case (1 e)
  show ?case
  proof (cases "\<not> starts_with ''('' e \<or> \<not> ends_with '')'' e \<or> \<not> closes_at_end 0 e")
    case False
    have "set (butlast (tl e)) \<subseteq> set e" by (cases e) (auto dest: in_set_butlastD)
    then show ?thesis using 1 False set_trim [of "butlast (tl e)"] by (subst trim_outer.simps) auto
  qed (subst trim_outer.simps, simp)
qed

lemma split_scan_no_panic: "plain_text rest \<Longrightarrow> split_scan ops before depth q result rest \<noteq> Panic"
proof (induction ops before depth q result rest rule: split_scan.induct)
  case (2 ops before depth q result c cs)
  have c: "\<not> is_continuation c" and cs: "plain_text cs" using 2(4) by (simp_all add: plain_text_def)
  have d: "plain_text (drop k cs)" for k using cs by (rule plain_sub) (rule set_drop_subset)
  show ?case using c cs d 2(1-3) [OF refl refl] by (auto simp: Let_def split: option.splits)
qed simp

lemma first_split_no_panic: "plain_text e \<Longrightarrow> first_split levels e \<noteq> Panic"
  by (induction levels) (auto simp: obind_eq_Panic split_operator_def split_scan_no_panic split: option.splits)

lemma plain_operands:
  assumes "plain_text e"
  shows "first_split operator_levels e = Ok (Some (l, op, r)) \<Longrightarrow> plain_text (trim_outer (trim l)) \<and> plain_text (trim_outer (trim r))"
    "strip_prefix p e = Some rest \<Longrightarrow> plain_text rest"
    "function_call e = Some (name, argument) \<Longrightarrow> plain_text (trim_outer (trim argument))"
proof -
  have sub: "set (trim_outer (trim t)) \<subseteq> set t" for t using set_trim_outer [of "trim t"] set_trim [of t] by blast
  show "plain_text (trim_outer (trim l)) \<and> plain_text (trim_outer (trim r))" if "first_split operator_levels e = Ok (Some (l, op, r))"
    using first_split_eq [OF that operator_levels_nonempty] sub [of l] sub [of r] by (intro conjI plain_sub [OF assms]) auto
  show "plain_text rest" if "strip_prefix p e = Some rest"
    using that by (intro plain_sub [OF assms]) (auto simp: strip_prefix_eq_Some)
  assume "function_call e = Some (name, argument)"
  then have "set argument \<subseteq> set e"
    by (auto simp: function_call_def Let_def dest!: split_once_SomeD in_set_butlastD split: option.splits if_splits)
  then show "plain_text (trim_outer (trim argument))" using sub [of argument] by (intro plain_sub [OF assms]) blast
qed

subsection \<open>Atoms\<close>

lemma truthy_number_no_panic [simp]: "truthy v \<noteq> Panic" "number_value v \<noteq> Panic"
  by (cases v; simp)+

lemma binary_no_panic [simp]: "binary_values l op r \<noteq> Panic"
  by (auto simp: binary_values_def obind_eq_Panic equal_values_def compare_values_def combine_values_def split: eval_value.splits)

lemma short_circuit_no_panic [simp]: "short_circuit op l \<noteq> Panic"
  by (auto simp: short_circuit_def obind_eq_Panic)

lemma parse_number_no_panic [simp]: "parse_number t \<noteq> Panic"
  by (simp add: parse_number_def Let_def)

lemma validate_no_panic [simp]: "validate_delimiters e \<noteq> Panic"
proof -
  have "delimiter_scan opened q esc e \<noteq> Panic" for opened q esc
    by (induction e arbitrary: opened q esc) (simp_all split: list.split)
  then show ?thesis by (simp add: validate_delimiters_def)
qed

lemma find_device_ok:
  assumes "sim_inv kb sh s"
  shows "find_device s ident \<noteq> Panic"
  using device_index_bound [OF assms] sim_inv_device(1) [OF assms]
  by (auto simp: find_device_def find_device_index_def obind_eq_Panic nth_opt_eq_None dest!: leD)

lemma find_channel_ok:
  assumes "sim_inv kb sh s" "find_channel s ident name = Ok (n, channel)"
  shows "n < length (w_networks (s_world s))" "channel < length (nw_channels (w_networks (s_world s) ! n))"
proof -
  have w: "world_wf kb (s_world s)" using assms(1) by (simp add: sim_inv_def world_inv_def)
  have i: "network_index (s_world s) ident = Some n" "channel_index name = Some channel"
    using assms(2) by (auto simp: find_channel_def obind_eq_Ok)
  show n: "n < length (w_networks (s_world s))"
    using w i(1) by (auto simp: world_wf_def network_index_def index_of_def)
  have "channel < 8" using i(2) by (auto simp: channel_index_def bind_eq_Some_conv split: if_splits)
  then show "channel < length (nw_channels (w_networks (s_world s) ! n))"
    using w n by (simp add: world_wf_def list_all_length network_wf_def)
qed

lemma case_option_neq:
  "(\<And>x. m = Some x \<Longrightarrow> f x \<noteq> y) \<Longrightarrow> (m = None \<Longrightarrow> g \<noteq> y) \<Longrightarrow> (case m of Some x \<Rightarrow> f x | None \<Rightarrow> g) \<noteq> y"
  by (cases m) simp_all

lemma case_prod_neq: "(\<And>a b. p = (a, b) \<Longrightarrow> f a b \<noteq> y) \<Longrightarrow> (case p of (a, b) \<Rightarrow> f a b) \<noteq> y"
  by (cases p) simp

lemma device_cell_ok: "sim_inv kb sh s \<Longrightarrow> Some (obind (find_device s ident) (\<lambda>d. o_ok_or e (f d))) \<noteq> Some Panic"
  by (simp add: obind_eq_Panic find_device_ok)

lemma channel_cell_ok:
  assumes "sim_inv kb sh s"
  shows "Some (obind (find_channel s ident name) (\<lambda>(network, channel).
    obind (o_expect (nth_opt (w_networks (s_world s)) network)) (\<lambda>n. o_expect (nth_opt (nw_channels n) channel)))) \<noteq> Some Panic"
proof (cases "find_channel s ident name")
  case (Ok p)
  obtain n channel where p: "p = (n, channel)" by (cases p)
  show ?thesis using find_channel_ok [OF assms Ok [unfolded p]] Ok p by (simp add: o_expect_def)
next
  case Panic
  then show ?thesis by (simp add: find_channel_def obind_eq_Panic)
qed simp

lemma eval_location_ok:
  assumes "sim_inv kb sh s" "length (c_registers c) = register_count"
  shows "eval_location s c e \<noteq> Some Panic"
  unfolding eval_location_def
  using assms(2) direct_register_less
  by (intro case_option_neq case_prod_neq device_cell_ok [OF assms(1)] channel_cell_ok [OF assms(1)]) (simp_all add: nth_opt_eq_None not_le)

lemma describe_device_ok:
  assumes "sim_inv kb sh s" "i < length (fst sh)"
  shows "describe_device s i connection \<noteq> Panic"
proof -
  note d = sim_inv_device [OF assms]
  have "n < length (w_networks (s_world s))" if "bt_get (dv_connections (w_devices (s_world s) ! i)) c = Some n" for c n
    using d(2) that by (force simp: device_wf_def bt_get_def dest: map_of_SomeD)
  then show ?thesis using d(1) by (auto simp: describe_device_def obind_eq_Panic nth_opt_eq_None Let_def split: option.splits)
qed

lemma watch_reference_ok:
  assumes "sim_inv kb sh s"
  shows "watch_reference s thread e \<noteq> Panic"
proof (cases "nth_opt (s_cpus s) thread")
  case (Some c)
  then have "cpu_ok (length (fst sh)) c" using sim_inv_cpu [OF assms] by (auto simp: nth_opt_eq_Some)
  then have "c_housing c < length (fst sh)" "\<And>k i. nth_opt (c_pins c) k = Some (Some i) \<Longrightarrow> i < length (fst sh)"
    by (auto simp: cpu_ok_def cpu_wf_def nth_opt_eq_Some) (metis nth_mem)
  then show ?thesis using Some describe_device_ok [OF assms]
    by (auto simp: watch_reference_def Let_def obind_eq_Panic split: option.splits prod.splits if_splits)
qed (simp add: watch_reference_def)

lemma eval_atom_ok:
  assumes "sim_inv kb sh s"
  shows "eval_atom s thread e \<noteq> Panic"
proof (cases "nth_opt (s_cpus s) thread")
  case (Some c)
  then have "cpu_ok (length (fst sh)) c" using sim_inv_cpu [OF assms] by (auto simp: nth_opt_eq_Some)
  then have "length (c_registers c) = register_count" by (simp add: cpu_ok_def cpu_wf_def)
  then show ?thesis using Some eval_location_ok [OF assms] watch_reference_ok [OF assms]
    by (auto simp: eval_atom_def obind_eq_Panic o_ok_or_def split: option.splits sum.splits)
qed (simp add: eval_atom_def o_ok_or_def)

subsection \<open>Evaluation\<close>

lemma apply_function_ok: "other \<noteq> Panic \<Longrightarrow> apply_function changed name argument v other \<noteq> Panic"
  by (simp add: apply_function_def obind_eq_Panic)

lemma evaluate_inner_ok:
  assumes "sim_inv kb sh s" "plain_text e"
  shows "evaluate_inner changed s thread e \<noteq> Panic"
  using assms
proof (induction changed s thread e rule: evaluate_inner.induct)
  case (1 changed s thread e)
  note plain = plain_operands [OF 1(8)]
  show ?case
    using first_split_no_panic [OF 1(8)] eval_atom_ok [OF 1(7)] 1(1-6) 1(7) plain
    by (subst evaluate_inner.simps) (auto simp: obind_eq_Panic apply_function_ok split: option.splits if_splits)
qed

lemma evaluation_ok:
  assumes "sim_inv kb sh s" "plain_text expression"
  shows "evaluate_with_changed changed s thread expression \<noteq> Panic"
proof -
  have "plain_text (trim_outer (trim expression))"
    using set_trim_outer [of "trim expression"] set_trim [of expression] by (intro plain_sub [OF assms(2)]) blast
  then show ?thesis using evaluate_inner_ok [OF assms(1)] by (auto simp: evaluate_with_changed_def Let_def obind_eq_Panic)
qed

subsection \<open>Assignments\<close>

lemma validated_register:
  "validate_assignable_target s thread location = Ok (AtRegister i register) \<Longrightarrow> register < register_count"
  using direct_register_less [of "trim location"]
  by (auto simp: validate_assignable_target_def validate_device_target_def find_channel_def obind_eq_Ok Let_def
    split: option.splits if_splits)

lemma validated_channel:
  "validate_assignable_target s thread location = Ok (AtNetworkChannel i channel) \<Longrightarrow> channel < 8"
  by (auto simp: validate_assignable_target_def validate_device_target_def find_channel_def obind_eq_Ok Let_def channel_index_def bind_eq_Some_conv
    split: option.splits if_splits)

lemma device_id_index:
  assumes "sim_inv kb sh s" "nth_opt (w_devices (s_world s)) i = Some d"
  shows "world_device_index (s_world s) (dv_id d) = Some i"
  using assms by (auto simp: sim_inv_def world_inv_def world_wf_def world_device_index_def index_of_def nth_opt_eq_Some)

lemma set_value_assigns:
  assumes "validate_assignable_target s thread location = Ok t" "set_value_as thread location v actor s = (Ok (), s')"
  shows "assign_target t v actor s = (Ok (), s')"
  using assms by (auto simp: set_value_as_def bind_def lift_outcome_def map_prog_err_def split: prod.splits outcome.splits)

lemma replays_matches:
  assumes "replays P v s s'" "\<And>target. P (s_journal s') target \<Longrightarrow> assignable_target_matches_write s' t target"
  shows "\<exists>w. j_write_history (s_journal s') = j_write_history (s_journal s) @ [w] \<and>
    we_after_bits (sw_effect w) = to_bits v \<and> assignable_target_matches_write s' t (we_target (sw_effect w))"
  using assms by (auto simp: replays_def)

section \<open>Properties\<close>

text \<open>C23: Evaluating an expression always ends with a value or an error: the recursion over operators, signs and calls
  terminates, and in a well-formed simulator an expression without multi-byte characters never panics.\<close>

theorem evaluate_no_panic:
  assumes "sim_inv kb sh s" "plain_text expression"
  shows "evaluate_with_changed changed s thread expression \<noteq> Panic"
  by (rule evaluation_ok [OF assms])

theorem evaluate_no_panic_witness: "evaluate_with_changed (\<lambda>_ _. False) sample_sim 0 ''abs(r0) + 2 > line'' \<noteq> Panic"
proof (rule evaluate_no_panic [OF sample_sim_inv])
  show "plain_text ''abs(r0) + 2 > line''" by code_simp
qed

text \<open>A character outside ASCII that is not quoted brings the evaluator down: it looks for operators at every byte
  and slices the text there.\<close>

theorem evaluate_slices_characters: "evaluate s thread [CHR 0xC3, CHR 0xA9] = Panic"
proof -
  let ?e = "[CHR 0xC3, CHR 0xA9]"
  have "trim ?e = ?e" "validate_delimiters ?e = Ok ()" "trim_outer ?e = ?e" "first_split operator_levels ?e = Panic" by code_simp+
  then show ?thesis by (simp add: evaluate_def evaluate_with_changed_def Let_def evaluate_inner.simps [of _ _ _ ?e])
qed

text \<open>C24: An assignment is seen by its own target: while the journal records, a successful assignment adds one effect, which
  carries the assigned value and which the validated target recognises, so a rule that watches the target is triggered.\<close>

theorem assignment_triggers:
  assumes "validate_assignable_target s thread location = Ok t" "set_value_as thread location v actor s = (Ok (), s')" "assignable_fits t"
    and "sim_inv kb sh s" "j_enabled (s_journal s)" "symbols_wf (s_journal s)" "length (j_symbols (s_journal s)) < 2 ^ 32"
  shows "\<exists>w. j_write_history (s_journal s') = j_write_history (s_journal s) @ [w] \<and>
    we_after_bits (sw_effect w) = to_bits v \<and> assignable_target_matches_write s' t (we_target (sw_effect w))"
proof (cases t)
  note call = set_value_assigns [OF assms(1,2)] and match = assignable_target_matches_write_def
  {
    case (AtRegister i register)
    then have "register < 2 ^ 8" using validated_register [of s thread location i register] assms(1) by (auto simp: register_count_def)
    then show ?thesis using call AtRegister unat_small(1) by (intro replays_matches [OF replay_cpu(1) [OF assms(5)]]) (auto simp: match)
  next
    case (AtStack i address)
    then show ?thesis using call assms(3) unat_small(2) by (intro replays_matches [OF replay_cpu(2) [OF assms(5)]]) (auto simp: match)
  next
    case (AtDeviceSlot i slot name)
    then show ?thesis using call assms(3) unat_small(2) by (intro replays_matches [OF replay_slot [OF _ _ assms(5-7)]]) (auto simp: match)
  next
    case (AtDeviceMemory i address)
    then show ?thesis using call assms(3) unat_small(3) by (intro replays_matches [OF replay_cells(1) [OF assms(5)]]) (auto simp: match)
  next
    case (AtDeviceField i name)
    then obtain d where d: "nth_opt (w_devices (s_world s)) i = Some d" "set_device_field_as (dv_id d) name v actor s = (Ok (), s')"
      using call by (auto simp: s_device_def bind_eq_Ok expect_eq_Ok gets_def)
    then show ?thesis using AtDeviceField
      by (intro replays_matches [OF replay_field [OF d(2) assms(5-7) device_id_index [OF assms(4) d(1)]]]) (auto simp: match)
  next
    case (AtNetworkChannel i channel)
    then have "channel < 2 ^ 8" using validated_channel [of s thread location i channel] assms(1) by auto
    then show ?thesis using call AtNetworkChannel unat_small(1) by (intro replays_matches [OF replay_cells(2) [OF assms(5)]]) (auto simp: match)
  }
qed

theorem assignment_triggers_witness:
  "\<exists>s' w. set_value_as 0 ''r3'' f64_one ActorScenario (set_journaling True sample_sim) = (Ok (), s') \<and>
     assignable_target_matches_write s' (AtRegister 0 3) (we_target (w :: write_effect))"
proof -
  let ?s = "set_journaling True sample_sim"
  have reg: "direct_register_index (trim ''r3'') = Some 3" by code_simp
  have valid: "validate_assignable_target ?s 0 ''r3'' = Ok (AtRegister 0 3)"
    by (simp add: validate_assignable_target_def reg set_journaling_def sample_sim_def sample_cpu_def register_count_def)
  have inv: "sim_inv sample_kb (world_shape sample_world) ?s" unfolding set_journaling_def by (rule sim_inv_journal [OF sample_sim_inv])
  have j: "j_enabled (s_journal ?s)" "symbols_wf (s_journal ?s)" "length (j_symbols (s_journal ?s)) < 2 ^ 32"
    using symbols_wf_empty by (simp_all add: set_journaling_def j_set_enabled_def sample_sim_def symbols_wf_def empty_journal_def)
  obtain s' where "set_register_as 0 3 f64_one ActorScenario ?s = (Ok (), s')"
    by (simp add: set_register_as_def s_note_def bind_def prog_simps set_journaling_def sample_sim_def sample_cpu_def register_count_def)
  then have "set_value_as 0 ''r3'' f64_one ActorScenario ?s = (Ok (), s')"
    by (simp add: set_value_as_def valid lift_outcome_def map_prog_err_def bind_def)
  with assignment_triggers [OF valid this _ inv j] show ?thesis by auto
qed

end
