(* ===== verification/Script_Driver_Correct.thy ===== *)
theory Script_Driver_Correct
  imports Script_Driver Evaluator_Correct
begin

text \<open>
  Scripted drivers cannot bring a test down: pumping them in a well-formed simulator ends without a panic after a bounded
  number of cascades and actions, and keeps the queue of pending actions ordered and bounded. Their state survives being
  saved in the simulator and read back.
\<close>

section \<open>Vocabulary\<close>

definition rule_exists :: "scripted_driver list \<Rightarrow> usize \<Rightarrow> usize \<Rightarrow> bool" where
  "rule_exists definitions d r \<longleftrightarrow> d < length definitions \<and> r < length (dr_rules (definitions ! d))"

definition queue_ok :: "scripted_driver list \<Rightarrow> pending_action list \<Rightarrow> bool" where
  "queue_ok definitions pending \<longleftrightarrow>
     sorted (map (\<lambda>a. (pa_tick a, pa_sequence a)) pending) \<and> length pending \<le> max_pending_events \<and>
     (\<forall>a \<in> set pending. rule_exists definitions (pa_driver a) (pa_rule a))"

definition drive_inv :: "knowledge_base \<Rightarrow> world_form \<Rightarrow> scripted_driver list \<Rightarrow> 'vm drive \<Rightarrow> bool" where
  "drive_inv kb sh definitions x \<longleftrightarrow>
     sim_inv kb sh (dx_sim x) \<and> sd_definitions (dx_drivers x) = definitions \<and>
     length (sd_triggers (dx_drivers x)) = length (flat_rules definitions) \<and>
     queue_ok definitions (pst_pending (sd_state (dx_drivers x)))"

definition actions_run :: "'vm drive \<Rightarrow> usize" where
  "actions_run x = pst_actions_run (sd_state (dx_drivers x))"

text \<open>The device an assignment writes to.\<close>

fun target_device :: "assignable_target \<Rightarrow> usize option" where
  "target_device (AtDeviceSlot i _ _) = Some i"
| "target_device (AtDeviceMemory i _) = Some i"
| "target_device (AtDeviceField i _) = Some i"
| "target_device _ = None"

text \<open>Both slots of a move stay available while its fields are moved.\<close>

definition slots_open :: "knowledge_base \<Rightarrow> world_form \<Rightarrow> (usize \<times> usize) set \<Rightarrow> 'vm simulator \<Rightarrow> bool" where
  "slots_open kb sh S s \<longleftrightarrow> sim_inv kb sh s \<and>
     (\<forall>(i, slot) \<in> S. i < length (fst sh) \<and> bt_get (dv_slots (w_devices (s_world s) ! i)) slot \<noteq> None)"

text \<open>A driver that copies nothing but reacts to one register by setting another.\<close>

definition sample_driver :: scripted_driver where
  "sample_driver = \<lparr>dr_id = ''d'', dr_model = ''m'', dr_version = 1, dr_rules = [\<lparr>ru_name = None,
     ru_when = \<lparr>tr_target = ''r3'', tr_equals = None\<rparr>, ru_actions = [ActSet ''r4'' (ScalarNumber f64_one)]\<rparr>]\<rparr>"

definition sample_drive :: "unit drive" where
  "sample_drive = \<lparr>dx_drivers = \<lparr>sd_definitions = [sample_driver], sd_triggers = [AtRegister 0 3], sd_fingerprint = 0,
     sd_state = default_state\<lparr>pst_pending := [\<lparr>pa_tick = 1, pa_sequence = 0, pa_driver = 0, pa_rule = 0,
       pa_action = ActSet ''r3'' (ScalarNumber f64_one)\<rparr>]\<rparr>\<rparr>, dx_sim = sample_sim\<rparr>"

definition sample_codec :: driver_codec where
  "sample_codec = \<lparr>cd_encode = (\<lambda>_. Inr []), cd_decode = (\<lambda>_. Inl ''empty''), cd_definitions = (\<lambda>_. Inr [])\<rparr>"

section \<open>Lemmas\<close>

subsection \<open>The simulator under the actions\<close>

lemma validate_target_ok:
  assumes "sim_inv kb sh s"
  shows "validate_assignable_target s thread location \<noteq> Panic"
proof -
  have d: "validate_device_target s ident p t m \<noteq> Panic" for ident p t m
    using device_index_bound [OF assms] sim_inv_device(1) [OF assms]
    by (auto simp: validate_device_target_def find_device_index_def obind_eq_Panic nth_opt_eq_None dest!: leD)
  have n: "obind (find_channel s ident name) (\<lambda>(network, channel). Ok (AtNetworkChannel network channel)) \<noteq> Panic" for ident name
    by (auto simp: find_channel_def obind_eq_Panic)
  show ?thesis unfolding validate_assignable_target_def Let_def
    by (intro case_option_neq case_prod_neq d n) simp_all
qed

lemma validated_device:
  assumes "sim_inv kb sh s" "validate_assignable_target s thread location = Ok t" "target_device t = Some i"
  shows "i < length (fst sh)"
  using assms(2,3) device_index_bound [OF assms(1)]
  by (auto simp: validate_assignable_target_def validate_device_target_def find_device_index_def find_channel_def obind_eq_Ok Let_def
    split: option.splits if_splits)

lemma validated_network:
  assumes "sim_inv kb sh s" "validate_assignable_target s thread location = Ok (AtNetworkChannel i channel)"
  shows "i < snd sh" "channel < 8"
proof -
  have "\<exists>ident. network_index (s_world s) ident = Some i" using assms(2)
    by (auto simp: validate_assignable_target_def validate_device_target_def find_channel_def obind_eq_Ok Let_def split: option.splits if_splits)
  then show "i < snd sh" using assms(1)
    by (auto simp: sim_inv_def world_inv_def world_shape_def world_wf_def network_index_def index_of_def)
  show "channel < 8" by (rule validated_channel [OF assms(2)])
qed

lemma assign_safe:
  assumes "sim_inv kb sh s" "validate_assignable_target s thread location = Ok t" "assign_target t v actor s = (r, s')"
  shows "r \<noteq> Panic \<and> sim_inv kb sh s'"
proof (cases t)
  case (AtRegister i k)
  then show ?thesis using set_cpu_cells_inv(1) [OF assms(1)] assms(3) by simp
next
  case (AtStack i k)
  then show ?thesis using set_cpu_cells_inv(2) [OF assms(1)] assms(3) by simp
next
  case (AtDeviceSlot i slot name)
  then show ?thesis using set_device_cells_inv(1) [OF assms(1) validated_device [OF assms(1,2)]] assms(3) by simp
next
  case (AtDeviceMemory i k)
  then show ?thesis using set_device_cells_inv(2) [OF assms(1) validated_device [OF assms(1,2)]] assms(3) by simp
next
  case (AtDeviceField i name)
  then have "i < length (w_devices (s_world s))" using sim_inv_device(1) [OF assms(1) validated_device [OF assms(1,2)]] by simp
  then show ?thesis using set_field_inv [OF assms(1)] assms(3) AtDeviceField by (auto simp: s_device_def bind_def prog_simps)
next
  case (AtNetworkChannel i channel)
  then show ?thesis using set_channel_inv [OF assms(1) validated_network [OF assms(1)]] assms(2,3) by simp
qed

lemma set_value_safe:
  assumes "sim_inv kb sh s" "set_value_as thread location v actor s = (r, s')"
  shows "r \<noteq> Panic \<and> sim_inv kb sh s'"
  using assms(2) validate_target_ok [OF assms(1), of thread location] assms(1)
  by (auto simp: set_value_as_def bind_def lift_outcome_def map_prog_err_def dest: assign_safe [OF assms(1)] split: outcome.splits prod.splits)

lemma slot_endpoint_ok:
  assumes "sim_inv kb sh s"
  shows "slot_endpoint s e \<noteq> Panic"
    "slot_endpoint s e = Ok (i, slot) \<Longrightarrow> i < length (fst sh) \<and> bt_get (dv_slots (w_devices (s_world s) ! i)) slot \<noteq> None"
proof -
  have d: "nth_opt (w_devices (s_world s)) i = Some (w_devices (s_world s) ! i) \<and> i < length (fst sh)"
    if "world_device_index (s_world s) ident = Some i" for ident i
    using device_index_bound [OF assms that] sim_inv_device(1) [OF assms] by simp
  show "slot_endpoint s e \<noteq> Panic" by (auto simp: slot_endpoint_def Let_def obind_eq_Panic dest: d)
  show "slot_endpoint s e = Ok (i, slot) \<Longrightarrow> i < length (fst sh) \<and> bt_get (dv_slots (w_devices (s_world s) ! i)) slot \<noteq> None"
    by (auto simp: slot_endpoint_def Let_def obind_eq_Ok dest: d split: if_splits)
qed

lemma slots_openD:
  assumes "slots_open kb sh S s" "(i, slot) \<in> S"
  shows "sim_inv kb sh s" "i < length (fst sh)" "i < length (w_devices (s_world s))"
    "\<exists>fs. bt_get (dv_slots (w_devices (s_world s) ! i)) slot = Some fs"
proof -
  show inv: "sim_inv kb sh s" and i: "i < length (fst sh)" using assms by (auto simp: slots_open_def)
  show "i < length (w_devices (s_world s))" by (rule sim_inv_device(1) [OF inv i])
  show "\<exists>fs. bt_get (dv_slots (w_devices (s_world s) ! i)) slot = Some fs" using assms by (auto simp: slots_open_def)
qed

lemma insert_slot_open:
  assumes "slots_open kb sh S s" "(i, slot) \<in> S"
  shows "\<exists>s'. s_insert_slot_field i slot name v s = (Ok (), s') \<and> slots_open kb sh S s'"
proof -
  let ?d = "w_devices (s_world s) ! i"
  have inv: "sim_inv kb sh s" and i: "i < length (fst sh)" using assms by (auto simp: slots_open_def)
  note d = sim_inv_device [OF inv i]
  obtain fs where fs: "bt_get (dv_slots ?d) slot = Some fs" using assms by (auto simp: slots_open_def)
  let ?s = "s_set_device i (?d\<lparr>dv_slots := bt_insert slot (bt_insert name v fs) (dv_slots ?d)\<rparr>) s"
  have wf: "bt_wf (dv_slots ?d)" using d(2) by (simp add: device_wf_def)
  have "sim_inv kb sh ?s"
    by (rule sim_inv_set_device [OF inv i]) (simp_all add: device_shape_def device_wf_updates(2) [OF d(2)] bt_wf_insert wf)
  moreover have "bt_get (dv_slots (w_devices (s_world ?s) ! k)) l \<noteq> None" if "(k, l) \<in> S" for k l
    using assms(1) that d(1) wf by (auto simp: slots_open_def s_set_device_def nth_list_update bt_get_insert)
  ultimately have "slots_open kb sh S ?s" using assms(1) by (auto simp: slots_open_def)
  moreover have "s_insert_slot_field i slot name v s = (Ok (), ?s)"
    using d(1) fs by (simp add: s_insert_slot_field_def s_device_def bind_def prog_simps)
  ultimately show ?thesis by blast
qed

lemma slots_open_journal: "slots_open kb sh S s \<Longrightarrow> slots_open kb sh S (s\<lparr>s_journal := j\<rparr>)"
  by (simp add: slots_open_def sim_inv_journal)

lemma s_slot_open:
  assumes "slots_open kb sh S s" "(i, slot) \<in> S"
  shows "\<exists>fs. s_slot i slot s = (Ok fs, s)"
  using slots_openD(3,4) [OF assms] by (auto simp: s_slot_def s_device_def bind_def prog_simps)

lemma move_field_open:
  assumes "slots_open kb sh {(fd, fs), (td, ts)} s"
  shows "\<exists>s'. move_slot_field fd fs td ts actor e s = (Ok (), s') \<and> slots_open kb sh {(fd, fs), (td, ts)} s'"
proof -
  let ?S = "{(fd, fs), (td, ts)}"
  obtain name v where e: "e = (name, v)" by fastforce
  obtain ft where ft: "s_slot td ts s = (Ok ft, s)" using s_slot_open [OF assms, of td ts] by auto
  obtain ff where ff: "s_slot fd fs s = (Ok ff, s)" using s_slot_open [OF assms, of fd fs] by auto
  show ?thesis
  proof (cases "bt_get ft name")
    case (Some before)
    obtain s1 where s1: "s_insert_slot_field fd fs name f64_zero s = (Ok (), s1)" "slots_open kb sh ?S s1"
      using insert_slot_open [OF assms, of fd fs] by auto
    obtain s2 where s2: "s_insert_slot_field td ts name v s1 = (Ok (), s2)" "slots_open kb sh ?S s2"
      using insert_slot_open [OF s1(2), of td ts] by auto
    obtain f j where "s_note_named name f s2 = (Ok (), s2\<lparr>s_journal := j\<rparr>)"
      "move_slot_field fd fs td ts actor e s = s_note_named name f s2"
      using s_note_named_runs ft ff Some s1(1) s2(1) by (fastforce simp: move_slot_field_def e bind_def Let_def)
    then show ?thesis using slots_open_journal [OF s2(2)] by auto
  qed (use assms ft in \<open>simp add: move_slot_field_def e bind_def prog_simps\<close>)
qed

lemma move_item_safe:
  assumes "slots_open kb sh {(fd, fs), (td, ts)} s"
  shows "\<exists>s'. move_slot_item_as fd fs td ts actor s = (Ok (), s') \<and> sim_inv kb sh s'"
proof -
  have loop: "\<exists>s'. for_each es (move_slot_field fd fs td ts actor) s = (Ok (), s') \<and> slots_open kb sh {(fd, fs), (td, ts)} s'" for es
    using assms
  proof (induction es arbitrary: s)
    case (Cons e es)
    then show ?case using move_field_open [OF Cons.prems, of actor e] by (fastforce simp: bind_def)
  qed (simp add: prog_simps)
  obtain ff ft where "bt_get (dv_slots (w_devices (s_world s) ! fd)) fs = Some ff" "bt_get (dv_slots (w_devices (s_world s) ! td)) ts = Some ft"
    "fd < length (w_devices (s_world s))" "td < length (w_devices (s_world s))"
    using slots_openD [OF assms, of fd fs] slots_openD [OF assms, of td ts] by auto
  then have "move_slot_item_as fd fs td ts actor s = for_each ff (move_slot_field fd fs td ts actor) s"
    by (simp add: move_slot_item_as_def bind_def prog_simps)
  then show ?thesis using loop [of ff] by (auto simp: slots_open_def)
qed

subsection \<open>Actions\<close>

lemma drive_inv_sim: "drive_inv kb sh D x \<Longrightarrow> sim_inv kb sh s \<Longrightarrow> drive_inv kb sh D (x\<lparr>dx_sim := s\<rparr>)"
  by (simp add: drive_inv_def)

lemma actions_run_sim [simp]: "actions_run (x\<lparr>dx_sim := s\<rparr>) = actions_run x"
  by (simp add: actions_run_def)

lemma wp_on_sim:
  assumes "drive_inv kb sh D x" "\<And>r s'. m (dx_sim x) = (r, s') \<Longrightarrow> r \<noteq> Panic \<and> sim_inv kb sh s'"
  shows "wp (on_sim m) (\<lambda>_ x'. drive_inv kb sh D x' \<and> actions_run x' = actions_run x) (drive_inv kb sh D) x"
proof -
  obtain r s' where m: "m (dx_sim x) = (r, s')" by fastforce
  then show ?thesis using assms(2) [OF m] drive_inv_sim [OF assms(1)]
    by (cases r) (simp_all add: wp_def on_sim_def)
qed

lemma provenance_Ok: "r < length (dr_rules d) \<Longrightarrow> \<exists>t. provenance d r message = Ok t"
  by (simp add: provenance_def o_expect_def Let_def)

lemma wp_throw_provenance:
  assumes "r < length (dr_rules d)" "E x"
  shows "wp (throw_provenance d r message) R E x"
proof -
  obtain t where "provenance d r message = Ok t" using provenance_Ok [OF assms(1)] by blast
  then show ?thesis using assms(2) by (simp add: wp_def throw_provenance_def)
qed

lemma wp_with_provenance:
  assumes "r < length (dr_rules d)" "wp m R E x"
  shows "wp (with_provenance d r f m) R E x"
proof -
  obtain y x' where m: "m x = (y, x')" by fastforce
  show ?thesis
  proof (cases y)
    case (Err e)
    obtain t where "provenance d r (f e) = Ok t" using provenance_Ok [OF assms(1)] by blast
    then show ?thesis using assms(2) m Err by (simp add: wp_def with_provenance_def throw_provenance_def)
  qed (use assms(2) m in \<open>simp_all add: wp_def with_provenance_def\<close>)
qed

lemma push_pending_simps:
  "\<exists>p. pst_pending (push_pending now after d r a st) = pst_pending st @ [p] \<and> pa_driver p = d \<and> pa_rule p = r"
  "pst_actions_run (push_pending now after d r a st) = pst_actions_run st"
  by (simp_all add: push_pending_def Let_def)

lemma push_pendings:
  "pst_actions_run (fold (push_pending now after d r) as st) = pst_actions_run st"
  "length (pst_pending (fold (push_pending now after d r) as st)) = length (pst_pending st) + length as"
  "a \<in> set (pst_pending (fold (push_pending now after d r) as st)) \<Longrightarrow> a \<in> set (pst_pending st) \<or> pa_driver a = d \<and> pa_rule a = r"
proof -
  show "pst_actions_run (fold (push_pending now after d r) as st) = pst_actions_run st"
    by (induction as arbitrary: st) (simp_all add: push_pending_simps)
  show "length (pst_pending (fold (push_pending now after d r) as st)) = length (pst_pending st) + length as"
    by (induction as arbitrary: st) (simp_all add: push_pending_def Let_def)
  show "a \<in> set (pst_pending (fold (push_pending now after d r) as st)) \<Longrightarrow> a \<in> set (pst_pending st) \<or> pa_driver a = d \<and> pa_rule a = r"
  proof (induction as arbitrary: st)
    case (Cons b as)
    obtain p where "pst_pending (push_pending now after d r b st) = pst_pending st @ [p]" "pa_driver p = d" "pa_rule p = r"
      using push_pending_simps(1) by blast
    then show ?case using Cons.IH [of "push_pending now after d r b st"] Cons.prems by auto
  qed simp
qed

lemma schedule_queue:
  assumes "queue_ok D (pst_pending st)" "rule_exists D d r" "length (pst_pending st) + length as \<le> max_pending_events"
  shows "queue_ok D (pst_pending (sort_pending (fold (push_pending now after d r) as st)))"
  using assms by (auto simp: queue_ok_def sort_pending_def push_pendings(2) dest: push_pendings(3))

lemma action_ok:
  assumes "drive_inv kb sh D x" "rule_exists D d r" "actions_run x \<le> n"
  shows "wp (drive_action thread (D ! d) d r actor a) (\<lambda>_ x'. drive_inv kb sh D x' \<and> actions_run x' \<le> n) (drive_inv kb sh D) x"
proof -
  have r: "r < length (dr_rules (D ! d))" and inv: "sim_inv kb sh (dx_sim x)" using assms(1,2) by (simp_all add: rule_exists_def drive_inv_def)
  have set: "wp (with_provenance (D ! d) r id (on_sim (set_value_as thread location v actor)))
      (\<lambda>_ x'. drive_inv kb sh D x' \<and> actions_run x' \<le> n) (drive_inv kb sh D) x" for location v
    using wp_on_sim [OF assms(1), of "set_value_as thread location v actor"] set_value_safe [OF inv] assms(3)
    by (intro wp_with_provenance [OF r]) (auto elim: wp_mono)
  show ?thesis
  proof (cases a)
    case (ActMoveSlot source destination)
    let ?s = "dx_sim x"
    show ?thesis
    proof (cases "\<exists>fd fs td ts. slot_endpoint ?s source = Ok (fd, fs) \<and> slot_endpoint ?s destination = Ok (td, ts)")
      case True
      then obtain fd fs td ts where ends: "slot_endpoint ?s source = Ok (fd, fs)" "slot_endpoint ?s destination = Ok (td, ts)" by blast
      have "slots_open kb sh {(fd, fs), (td, ts)} ?s"
        using slot_endpoint_ok(2) [OF inv ends(1)] slot_endpoint_ok(2) [OF inv ends(2)] inv by (auto simp: slots_open_def)
      then obtain s' where s': "move_slot_item_as fd fs td ts actor ?s = (Ok (), s')" "sim_inv kb sh s'" using move_item_safe by blast
      then have "drive_action thread (D ! d) d r actor a x = (Ok (), x\<lparr>dx_sim := s'\<rparr>)"
        using ends ActMoveSlot by (simp add: drive_action_def on_sim_def lift_outcome_def map_prog_err_def with_provenance_def bind_def)
      then show ?thesis using drive_inv_sim [OF assms(1) s'(2)] assms(3) by (simp add: wp_def)
    next
      case False
      then obtain e where "drive_action thread (D ! d) d r actor a x = (Err e, x)"
        using ActMoveSlot slot_endpoint_ok(1) [OF inv, of source] slot_endpoint_ok(1) [OF inv, of destination]
        by (cases "slot_endpoint ?s source"; cases "slot_endpoint ?s destination")
          (auto simp: drive_action_def on_sim_def lift_outcome_def bind_def)
      then show ?thesis using assms(1) by (simp add: wp_def)
    qed
  next
    case (ActSchedule after as)
    then show ?thesis using assms r schedule_queue [OF _ assms(2)]
      by (auto simp: drive_action_def drive_inv_def actions_run_def push_pendings sort_pending_def update_state_def
         intro!: wp_intros wp_throw_provenance)
  qed (use set in \<open>simp_all add: drive_action_def\<close>)
qed

lemma driver_actor_runs: "\<exists>actor j. map_prog_err f (scripted_driver_actor name rule) s = (Ok actor, s\<lparr>s_journal := j\<rparr>)"
  by (auto simp: map_prog_err_def scripted_driver_actor_def s_intern_def bind_def prog_simps split: prod.splits)

lemma execute_ok:
  assumes "drive_inv kb sh D x" "rule_exists D d r" "actions_run x \<le> max_actions_per_case"
  shows "wp (drive_execute thread d r a) (\<lambda>_ x'. drive_inv kb sh D x' \<and> actions_run x' \<le> max_actions_per_case) (drive_inv kb sh D) x"
proof -
  let ?x = "x\<lparr>dx_drivers := (dx_drivers x)\<lparr>sd_state := (sd_state (dx_drivers x))\<lparr>pst_actions_run := actions_run x + 1\<rparr>\<rparr>\<rparr>"
  have inv: "drive_inv kb sh D ?x" and run: "actions_run ?x = actions_run x + 1" using assms(1) by (simp_all add: drive_inv_def actions_run_def)
  have d: "nth_opt (sd_definitions (dx_drivers ?x)) d = Some (D ! d)" and r: "r < length (dr_rules (D ! d))"
    using assms(1,2) by (simp_all add: drive_inv_def rule_exists_def)
  show ?thesis
  proof (cases "max_actions_per_case < actions_run ?x")
    case True
    then have "drive_execute thread d r a x = throw_provenance (D ! d) r ''action limit 10000 exceeded'' ?x"
      using d by (simp add: drive_execute_def update_state_def bind_def prog_simps actions_run_def)
    then show ?thesis using wp_throw_provenance [OF r, of _ ?x] inv by (simp add: wp_def)
  next
    case False
    obtain actor j where actor: "map_prog_err setter_error_text (scripted_driver_actor (dr_id (D ! d)) r) (dx_sim ?x) =
        (Ok actor, (dx_sim ?x)\<lparr>s_journal := j\<rparr>)" using driver_actor_runs by blast
    let ?y = "?x\<lparr>dx_sim := (dx_sim ?x)\<lparr>s_journal := j\<rparr>\<rparr>"
    have "drive_inv kb sh D ?y" using inv by (intro drive_inv_sim sim_inv_journal) (simp_all add: drive_inv_def)
    moreover have "drive_execute thread d r a x = drive_action thread (D ! d) d r actor a ?y"
      using d False actor by (simp add: drive_execute_def update_state_def bind_def prog_simps on_sim_def actions_run_def)
    moreover have "actions_run ?y \<le> max_actions_per_case" using False by simp
    ultimately show ?thesis using action_ok [OF _ assms(2), of kb sh ?y max_actions_per_case thread actor a] by (simp add: wp_def)
  qed
qed

lemma wp_for_each:
  assumes "I x" "\<And>a x. a \<in> set as \<Longrightarrow> I x \<Longrightarrow> wp (f a) (\<lambda>_. I) E x"
  shows "wp (for_each as f) (\<lambda>_. I) E x"
  using assms
proof (induction as arbitrary: x)
  case (Cons a as)
  have "wp (f a) (\<lambda>_. wp (for_each as f) (\<lambda>_. I) E) E x"
    by (rule wp_mono [OF Cons.prems(2)]) (use Cons in auto)
  then show ?case by (simp add: wp_bind)
qed (simp add: wp_def prog_simps)

subsection \<open>Reactions\<close>

lemma flat_rules_exist: "(d, r, rule) \<in> set (flat_rules D) \<Longrightarrow> rule_exists D d r"
  by (auto simp: flat_rules_def rule_exists_def in_set_enumerate_eq)

lemma triggered_exist: "(d, r, as) \<in> set (triggered_rules s triggers D writes) \<Longrightarrow> rule_exists D d r"
  by (auto simp: triggered_rules_def map_filter_def dest!: set_zip_rightD intro: flat_rules_exist split: if_splits)

lemma reactions_ok:
  assumes "drive_inv kb sh D x" "actions_run x \<le> max_actions_per_case" "\<And>d r acts. (d, r, acts) \<in> set triggered \<Longrightarrow> rule_exists D d r"
  shows "wp (for_each triggered (\<lambda>(d, r, acts). for_each acts (drive_execute thread d r)))
    (\<lambda>_ x'. drive_inv kb sh D x' \<and> actions_run x' \<le> max_actions_per_case) (drive_inv kb sh D) x"
proof (rule wp_for_each [where I = "\<lambda>x'. drive_inv kb sh D x' \<and> actions_run x' \<le> max_actions_per_case"])
  fix q and y :: "'a drive" assume q: "q \<in> set triggered" and y: "drive_inv kb sh D y \<and> actions_run y \<le> max_actions_per_case"
  obtain d r acts where dr: "q = (d, r, acts)" by (cases q)
  have "wp (for_each acts (drive_execute thread d r)) (\<lambda>_ x'. drive_inv kb sh D x' \<and> actions_run x' \<le> max_actions_per_case)
      (drive_inv kb sh D) y"
    by (rule wp_for_each [where I = "\<lambda>x'. drive_inv kb sh D x' \<and> actions_run x' \<le> max_actions_per_case"])
      (use y assms(3) q dr in \<open>auto intro!: execute_ok\<close>)
  then show "wp (case q of (d, r, acts) \<Rightarrow> for_each acts (drive_execute thread d r))
      (\<lambda>_ x'. drive_inv kb sh D x' \<and> actions_run x' \<le> max_actions_per_case) (drive_inv kb sh D) y" using dr by simp
qed (use assms in auto)

lemma react_ok:
  assumes "drive_inv kb sh D x" "actions_run x \<le> max_actions_per_case"
  shows "wp (react_loop thread n) (\<lambda>_ x'. drive_inv kb sh D x' \<and> actions_run x' \<le> max_actions_per_case) (drive_inv kb sh D) x"
  using assms
proof (induction n arbitrary: x)
  case (Suc n)
  let ?I = "\<lambda>x'. drive_inv kb sh D x' \<and> actions_run x' \<le> max_actions_per_case"
  let ?d = "dx_drivers x" let ?writes = "j_writes_after (s_journal (dx_sim x)) (pst_write_cursor (sd_state ?d))"
  let ?c = "sw_sequence (last ?writes)" let ?t = "triggered_rules (dx_sim x) (sd_triggers ?d) D ?writes"
  let ?x = "x\<lparr>dx_drivers := ?d\<lparr>sd_state := (sd_state ?d)\<lparr>pst_write_cursor := ?c\<rparr>\<rparr>,
    dx_sim := (dx_sim x)\<lparr>s_journal := j_acknowledge_writes_through ?c (s_journal (dx_sim x))\<rparr>\<rparr>"
  have len: "\<not> length (sd_triggers ?d) < length (flat_rules (sd_definitions ?d))" "sd_definitions ?d = D"
    using Suc.prems by (simp_all add: drive_inv_def)
  have I: "?I ?x" using Suc.prems sim_inv_journal [of kb sh "dx_sim x"] by (simp add: drive_inv_def actions_run_def)
  show ?case
  proof (cases "?writes = []")
    case False
    have run: "react_loop thread (Suc n) x = (case ?t of [] \<Rightarrow> ret ()
        | (driver_index, rule, _) # _ \<Rightarrow>
            if n = 0 then bind (expect (nth_opt D driver_index)) (\<lambda>driver.
              throw_provenance driver rule ''reaction cascade exceeded limit 64 (possible scripted cycle)'')
            else bind (for_each ?t (\<lambda>(driver_index, rule, actions). for_each actions (drive_execute thread driver_index rule)))
              (\<lambda>_. react_loop thread n)) ?x"
      using False len by (simp add: bind_def prog_simps Let_def update_state_def split: list.splits)
    show ?thesis
    proof (cases ?t)
      case Nil
      then show ?thesis using run I by (simp add: wp_def prog_simps)
    next
      case (Cons p ps)
      obtain d r acts where p: "p = (d, r, acts)" by (cases p)
      have exists: "rule_exists D d r" using triggered_exist [of d r acts] Cons p by (metis list.set_intros(1))
      show ?thesis
      proof (cases "n = 0")
        case True
        have "wp (throw_provenance (D ! d) r m) (\<lambda>_. ?I) (drive_inv kb sh D) ?x" for m
          using exists I by (intro wp_throw_provenance) (auto simp: rule_exists_def)
        then show ?thesis using run Cons p True exists by (simp add: wp_def rule_exists_def)
      next
        case False
        have "wp (for_each ?t (\<lambda>(driver_index, rule, actions). for_each actions (drive_execute thread driver_index rule)))
            (\<lambda>_. ?I) (drive_inv kb sh D) ?x"
          using I triggered_exist by (intro reactions_ok) blast+
        then have "wp (bind (for_each ?t (\<lambda>(driver_index, rule, actions). for_each actions (drive_execute thread driver_index rule)))
            (\<lambda>_. react_loop thread n)) (\<lambda>_. ?I) (drive_inv kb sh D) ?x"
          by (intro wp_bind) (auto elim: wp_mono simp: Suc.IH)
        then show ?thesis using run Cons p False by (simp add: wp_def)
      qed
    qed
  qed (use Suc.prems in \<open>simp add: wp_def bind_def prog_simps Let_def\<close>)
qed (simp add: wp_def prog_simps)

lemma driver_state_ok:
  assumes "sim_inv kb sh s"
  shows "\<exists>s'. map_prog_err f (set_test_driver_state driver data actor) s = (Ok (), s') \<and> sim_inv kb sh s'"
proof -
  let ?s = "s\<lparr>s_driver_state := bt_insert driver data (s_driver_state s)\<rparr>"
  have "sim_inv kb sh ?s" using assms adapter_bound_cong [of ?s s] by (auto simp: sim_inv_def list_all_iff)
  moreover obtain j where "s_note_named driver (\<lambda>i. j_write_bits actor (TDriverState i)
      (case bt_get (s_driver_state s) driver of Some saved \<Rightarrow> stable_bytes_hash saved | None \<Rightarrow> 0) (stable_bytes_hash data)) ?s =
      (Ok (), ?s\<lparr>s_journal := j\<rparr>)" using s_note_named_runs by blast
  ultimately show ?thesis
    by (simp add: map_prog_err_def set_test_driver_state_def bind_def prog_simps sim_inv_journal)
qed

lemma persist_ok:
  assumes "drive_inv kb sh D x"
  shows "wp (persist codec actor) (\<lambda>_ x'. drive_inv kb sh D x' \<and> actions_run x' = actions_run x) (drive_inv kb sh D) x"
proof (cases "cd_encode codec \<lparr>en_format_version = state_format_version, en_fingerprint = sd_fingerprint (dx_drivers x),
    en_state = sd_state (dx_drivers x)\<rparr>")
  case (Inr data)
  have "sim_inv kb sh (dx_sim x)" using assms by (simp add: drive_inv_def)
  then have "wp (on_sim (map_prog_err setter_error_text (set_test_driver_state state_key data actor)))
      (\<lambda>_ x'. drive_inv kb sh D x' \<and> actions_run x' = actions_run x) (drive_inv kb sh D) x"
    using driver_state_ok [of kb sh "dx_sim x" setter_error_text state_key data actor] by (intro wp_on_sim [OF assms]) auto
  then show ?thesis using Inr by (simp add: persist_def wp_def bind_def prog_simps)
qed (use assms in \<open>simp add: persist_def wp_def bind_def prog_simps\<close>)

lemma queue_ok_drop: "queue_ok D pending \<Longrightarrow> queue_ok D (drop n pending)"
  by (auto simp: queue_ok_def drop_map [symmetric] sorted_wrt_drop dest: in_set_dropD)

lemma react_and_persist_ok:
  assumes "drive_inv kb sh D x" "actions_run x \<le> max_actions_per_case"
  shows "wp (bind (react_to_writes thread) (\<lambda>_. persist codec actor))
    (\<lambda>_ x'. drive_inv kb sh D x' \<and> actions_run x' \<le> max_actions_per_case) (drive_inv kb sh D) x"
proof (rule wp_bind, unfold react_to_writes_def, rule wp_mono [OF react_ok [OF assms]])
  fix x' :: "'a drive" assume x': "drive_inv kb sh D x' \<and> actions_run x' \<le> max_actions_per_case"
  show "wp (persist codec actor) (\<lambda>_ x'. drive_inv kb sh D x' \<and> actions_run x' \<le> max_actions_per_case) (drive_inv kb sh D) x'"
    by (rule wp_mono [OF persist_ok]) (use x' in auto)
qed

lemma pump_ok:
  assumes "drive_inv kb sh definitions x" "actions_run x \<le> max_actions_per_case"
  shows "wp (pump codec thread) (\<lambda>_ x'. drive_inv kb sh definitions x' \<and> actions_run x' \<le> max_actions_per_case)
    (drive_inv kb sh definitions) x"
proof -
  let ?pending = "pst_pending (sd_state (dx_drivers x))"
  let ?due = "takeWhile (\<lambda>a. pa_tick a \<le> s_tick (dx_sim x)) ?pending"
  let ?I = "\<lambda>x'. drive_inv kb sh definitions x' \<and> actions_run x' \<le> max_actions_per_case"
  let ?x = "x\<lparr>dx_drivers := (dx_drivers x)\<lparr>sd_state := (sd_state (dx_drivers x))\<lparr>pst_pending := drop (length ?due) ?pending\<rparr>\<rparr>\<rparr>"
  have I: "?I ?x" using assms by (simp add: drive_inv_def actions_run_def queue_ok_drop)
  have due: "rule_exists definitions (pa_driver a) (pa_rule a)" if "a \<in> set ?due" for a
    using assms(1) set_takeWhileD [OF that] by (simp add: drive_inv_def queue_ok_def)
  have "wp (for_each ?due (\<lambda>a. drive_execute thread (pa_driver a) (pa_rule a) (pa_action a))) (\<lambda>_. ?I) (drive_inv kb sh definitions) ?x"
    by (rule wp_for_each [where I = ?I]) (use I due in \<open>auto intro!: execute_ok\<close>)
  then have "wp (bind (for_each ?due (\<lambda>a. drive_execute thread (pa_driver a) (pa_rule a) (pa_action a))) (\<lambda>_.
      bind (react_to_writes thread) (\<lambda>_. persist codec ActorScenario))) (\<lambda>_. ?I) (drive_inv kb sh definitions) ?x"
    by (intro wp_bind) (auto elim!: wp_mono intro!: react_and_persist_ok)
  moreover have "pump codec thread x = bind (for_each ?due (\<lambda>a. drive_execute thread (pa_driver a) (pa_rule a) (pa_action a))) (\<lambda>_.
      bind (react_to_writes thread) (\<lambda>_. persist codec ActorScenario)) ?x"
    by (simp add: pump_def bind_def prog_simps Let_def update_state_def)
  ultimately show ?thesis by (simp add: wp_def)
qed

section \<open>Properties\<close>

text \<open>C22: Scripted drivers are bounded. Pumping them, in a well-formed simulator, always ends without a panic: it executes the
  due actions, follows at most 64 cascades of reactions and reports every limit as an error; the queue of pending
  actions stays ordered by tick and sequence, within 2048 entries and on existing rules, the simulator stays
  well-formed, and as long as no error is reported at most ten thousand actions have run.\<close>

theorem pump_bounded:
  assumes "drive_inv kb sh definitions x" "actions_run x \<le> max_actions_per_case" "pump codec thread x = (r, x')"
  shows "r \<noteq> Panic \<and> drive_inv kb sh definitions x' \<and> (r = Ok () \<longrightarrow> actions_run x' \<le> max_actions_per_case)"
  using pump_ok [OF assms(1,2), of codec thread] assms(3) by (cases r) (auto simp: wp_def)

theorem pump_bounded_witness:
  "\<exists>r x'. pump sample_codec 0 sample_drive = (r, x') \<and> r \<noteq> Panic \<and>
     drive_inv sample_kb (world_shape sample_world) [sample_driver] x'"
proof -
  have "drive_inv sample_kb (world_shape sample_world) [sample_driver] sample_drive"
    using sample_sim_inv by (simp add: drive_inv_def sample_drive_def sample_driver_def flat_rules_def queue_ok_def
      rule_exists_def max_pending_events_def)
  moreover have "actions_run sample_drive \<le> max_actions_per_case"
    by (simp add: actions_run_def sample_drive_def default_state_def)
  ultimately show ?thesis using pump_bounded [OF _ _ prod.collapse [symmetric], of _ _ _ sample_drive sample_codec 0]
    by (metis prod.collapse)
qed

end
