(* ===== verification/Scenario_Correct.thy ===== *)
theory Scenario_Correct
  imports Scenario_Load Scheduler Analysis_Correct
begin

text \<open>
  What a scenario becomes: the simulator built from it satisfies the invariant that the properties of the scheduler
  start from, so it can be run for any number of ticks.
\<close>

section \<open>Vocabulary\<close>

text \<open>
  What the language data must provide for the simulator: every instruction is listed with at least
  the operands its implementation reads.
\<close>

definition operands_covered :: "knowledge_base \<Rightarrow> bool" where
  "operands_covered kb =
     list_all (\<lambda>(name, info).
       if name \<in> {''define'', ''alias''} then 2 \<le> length (in_operands info)
       else required_operands (to_ascii_lowercase name) \<le> length (in_operands info))
       (lang_instructions (language kb))"

text \<open>World ticks one after the other, whether they end with an error of a program or not; \<open>None\<close> if one of them
  does not end or panics.\<close>

fun run_ticks :: "libm \<Rightarrow> 'vm lua_engine \<Rightarrow> nat \<Rightarrow> nat \<Rightarrow> 'vm simulator \<Rightarrow> 'vm simulator option" where
  "run_ticks lm eng fuel 0 s = Some s"
| "run_ticks lm eng fuel (Suc n) s =
     (case step_world_tick lm eng fuel s of
        None \<Rightarrow> None
      | Some (r, s') \<Rightarrow> if r = Panic then None else run_ticks lm eng fuel n s')"

text \<open>One device that runs a program of one instruction.\<close>

definition sample_load_scenario :: scenario where
  "sample_load_scenario =
     \<lparr>sc_schema_version = 1, sc_game_version = None, sc_networks = [sample_network],
      sc_devices = [sample_spec\<lparr>ds_program := Some ''a''\<rparr>],
      sc_programs = [\<lparr>ps_id = ''a'', ps_path = ''a.ic10'', ps_language = LangIc10\<rparr>]\<rparr>"

definition sample_environment :: "unit environment" where
  "sample_environment =
     \<lparr>env_knowledge = Inr analysis_kb, env_read = (\<lambda>_. Inr ''yield''), env_build_map = (\<lambda>_. ([], None)),
      env_lua_load = (\<lambda>_ _ _ _ _ _ _. Inl ''no Lua'')\<rparr>"

text \<open>What the loader makes of it.\<close>

definition sample_loaded_sim :: "unit simulator" where
  "sample_loaded_sim =
     \<lparr>s_knowledge = analysis_kb, s_world = sample_world,
      s_cpus = [\<lparr>c_id = ''console'', c_program_id = ''a'', c_name = dv_name (w_devices sample_world ! 0), c_housing = 0,
        c_program = \<lparr>p_source_path = ''a.ic10'', p_debug_source_path = ''a.ic10'', p_source = ''yield'',
          p_operations = [(0, \<lparr>o_line = 0, o_mnemonic = ''yield'', o_operands = []\<rparr>)], p_labels = [], p_defines = [], p_aliases = [],
          p_generated_to_source = []\<rparr>,
        c_registers = replicate register_count f64_zero, c_stack = replicate stack_size_default f64_zero, c_pins = replicate 6 None,
        c_pc = 0, c_state = Ready, c_error = None, c_operations_this_tick = 0, c_random_state = 0x9E3779B97F4A7C14,
        c_journal = empty_journal, c_journal_enabled = False, c_journal_actor = ActorScheduler\<rparr>],
      s_lua_programs = [], s_tick = 0, s_compatibility_warnings = [], s_schedule = [AdapterIc10 0], s_scheduler_slot = 0,
      s_scheduler_error = None, s_behaviours = behaviour_build sample_world, s_driver_state = bt_empty, s_journal = empty_journal\<rparr>"

text \<open>The pins of an IC name devices of the world; what the loader has built so far is fit for the simulator.\<close>

definition pins_ok :: "nat \<Rightarrow> usize option list \<Rightarrow> bool" where
  "pins_ok n pins \<longleftrightarrow> length pins = 6 \<and> (\<forall>i. Some i \<in> set pins \<longrightarrow> i < n)"

definition loaded :: "world \<Rightarrow> cpu list \<times> 'vm lua_runtime list \<Rightarrow> bool" where
  "loaded w = (\<lambda>(cpus, luas). list_all (cpu_ok (length (w_devices w))) cpus)"

section \<open>Compiled programs\<close>

lemma accepted_operands:
  assumes "compile_source path source kb mapping = Ok p" "operands_covered kb" "(k, op) \<in> set (p_operations p)"
  shows "required_operands (o_mnemonic op) \<le> length (o_operands op)"
proof -
  obtain name info where op: "instruction kb name = Some info" "o_mnemonic op = to_ascii_lowercase name"
    "length (o_operands op) = length (in_operands info)" "name \<in> {''define'', ''alias''} \<longrightarrow> length (o_operands op) < 2"
    using compiled_operation [OF assms(1,3)] by blast
  have "(name, info) \<in> set (lang_instructions (language kb))" using op(1) by (auto simp: instruction_def bt_get_def dest: map_of_SomeD)
  then show ?thesis using assms(2) op(2-4) by (auto simp: operands_covered_def list_all_iff split: if_splits)
qed

lemma compiled_program_ok:
  assumes "compile_source path source kb mapping = Ok p" "operands_covered kb"
  shows "program_wf p" "operands_ok p"
proof -
  obtain ds where "program_compile path source ds mapping = Ok p" using compile_source_Ok [OF assms(1)] by blast
  moreover have "program_wf \<lparr>p_source_path = path, p_debug_source_path = fst mapping, p_source = source,
      p_operations = bt_empty, p_labels = bt_empty, p_defines = bt_empty, p_aliases = bt_empty, p_generated_to_source = snd mapping\<rparr>"
    by (simp add: program_wf_def bt_empty_def bt_wf_def)
  ultimately show "program_wf p" by (auto simp: program_compile_def Let_def intro!: compile_lines_wf split: if_splits)
  show "operands_ok p" using accepted_operands [OF assms] by (auto simp: operands_ok_def)
qed

lemma compile_source_no_panic: "compile_source path source kb mapping \<noteq> Panic"
  using parse_total [of source kb UnusedHint]
  by (auto simp: compile_source_def document_parse_def program_compile_def Let_def split: if_splits)

section \<open>Loading\<close>

lemma o_map_err_simps [simp]:
  "o_map_err f r = Ok x \<longleftrightarrow> r = Ok x" "o_map_err f r = Panic \<longleftrightarrow> r = Panic"
  by (cases r; simp add: o_map_err_def)+

lemma o_result_simps [simp]: "o_result r = Ok x \<longleftrightarrow> r = Inr x" "o_result r \<noteq> Panic"
  by (cases r; simp add: o_result_def)+

lemma load_register_length: "load_register ident e registers = Ok registers' \<Longrightarrow> length registers' = length registers"
  by (cases e) (auto simp: load_register_def obind_eq_Ok split: if_splits)

lemma load_register_no_panic: "length registers = register_count \<Longrightarrow> load_register ident e registers \<noteq> Panic"
  using direct_register_less
  by (cases e) (auto simp: load_register_def load_scalar_def obind_eq_Panic o_ok_or_eq split: if_splits)

lemma load_stack_no_panic: "length stack = stack_size_default \<Longrightarrow> load_stack_cell ident e stack \<noteq> Panic"
  by (cases e) (auto simp: load_stack_cell_def load_scalar_def obind_eq_Panic o_ok_or_eq split: if_splits)

lemma load_stack_length: "load_stack_cell ident e stack = Ok stack' \<Longrightarrow> length stack' = length stack"
  by (cases e) (auto simp: load_stack_cell_def obind_eq_Ok split: if_splits)

lemma pins_ok_update: "pins_ok n pins \<Longrightarrow> t < n \<Longrightarrow> pins_ok n (pins[i := Some t])"
  using set_update_subset_insert [of pins i "Some t"] by (auto simp: pins_ok_def)

lemma load_pin_ok:
  assumes "world_wf kb w" "pins_ok (length (w_devices w)) pins"
  shows "load_pin kb w ident network e pins \<noteq> Panic"
    "load_pin kb w ident network e pins = Ok pins' \<Longrightarrow> pins_ok (length (w_devices w)) pins'"
proof -
  note less = world_device_index_less [OF assms(1)]
  show "load_pin kb w ident network e pins \<noteq> Panic"
    using assms(2)
    by (cases e) (auto simp: load_pin_def obind_eq_Panic bind_eq_Some_conv nth_opt_def pins_ok_def dest: less split: if_splits)
  show "load_pin kb w ident network e pins = Ok pins' \<Longrightarrow> pins_ok (length (w_devices w)) pins'"
    using assms(2)
    by (cases e) (auto simp: load_pin_def obind_eq_Ok dest: less intro: pins_ok_update split: if_splits)
qed

lemma load_registers_ok:
  "ofold (load_register ident) es (replicate register_count f64_zero) \<noteq> Panic"
  "ofold (load_register ident) es (replicate register_count f64_zero) = Ok registers \<Longrightarrow> length registers = register_count"
proof -
  show "ofold (load_register ident) es (replicate register_count f64_zero) \<noteq> Panic"
    by (rule ofold_no_panic [where P = "\<lambda>rs. length rs = register_count"])
      (use load_register_no_panic load_register_length in auto)
  show "ofold (load_register ident) es (replicate register_count f64_zero) = Ok registers \<Longrightarrow> length registers = register_count"
    by (erule ofold_induct [where P = "\<lambda>rs. length rs = register_count"]) (use load_register_length in auto)
qed

lemma load_stack_cells_no_panic: "ofold (load_stack_cell ident) es (replicate stack_size_default f64_zero) \<noteq> Panic"
  by (rule ofold_no_panic [where P = "\<lambda>rs. length rs = stack_size_default"]) (use load_stack_no_panic load_stack_length in auto)

lemma load_pins_ok:
  assumes "world_wf kb w"
  shows "ofold (load_pin kb w ident network) es (replicate 6 None) \<noteq> Panic"
    "ofold (load_pin kb w ident network) es (replicate 6 None) = Ok pins \<Longrightarrow> pins_ok (length (w_devices w)) pins"
proof -
  have start: "pins_ok (length (w_devices w)) (replicate 6 None)" by (simp add: pins_ok_def)
  show "ofold (load_pin kb w ident network) es (replicate 6 None) \<noteq> Panic"
    by (rule ofold_no_panic [where P = "pins_ok (length (w_devices w))", OF start]) (use load_pin_ok [OF assms] in auto)
  show "ofold (load_pin kb w ident network) es (replicate 6 None) = Ok pins \<Longrightarrow> pins_ok (length (w_devices w)) pins"
    by (erule ofold_induct [where P = "pins_ok (length (w_devices w))", OF _ start]) (use load_pin_ok [OF assms] in auto)
qed

lemma first_data_network_no_panic:
  "\<forall>n \<in> set ns. n < length (w_networks w) \<Longrightarrow> first_data_network w ns \<noteq> Panic"
  by (induction ns) (auto simp: obind_eq_Panic nth_opt_def split: if_splits)

lemma connected_networks:
  assumes "world_wf kb w" "housing < length (w_devices w)"
    "n \<in> set (List.map_filter (bt_get (dv_connections (w_devices w ! housing))) cs)"
  shows "n < length (w_networks w)"
proof -
  obtain c where c: "bt_get (dv_connections (w_devices w ! housing)) c = Some n" using assms(3) by (auto simp: map_filter_def)
  then have "n \<in> set (bt_values (dv_connections (w_devices w ! housing)))" by (force simp: bt_get_def dest: map_of_SomeD)
  moreover have "device_wf kb (length (w_networks w)) (w_devices w ! housing)"
    using assms(1,2) by (simp add: world_wf_def list_all_length)
  ultimately show ?thesis by (auto simp: device_wf_def)
qed

lemma load_cpu_ok:
  assumes "world_wf kb w" "housing < length (w_devices w)" "operands_covered kb"
  shows "load_cpu env kb w spec program_id path source ic housing \<noteq> Panic"
    "load_cpu env kb w spec program_id path source ic housing = Ok c \<Longrightarrow> cpu_ok (length (w_devices w)) c"
proof -
  have d: "nth_opt (w_devices w) housing = Some (w_devices w ! housing)" using assms(2) by (simp add: nth_opt_def)
  show "load_cpu env kb w spec program_id path source ic housing \<noteq> Panic"
    using connected_networks [OF assms(1,2)] first_data_network_no_panic [of _ w]
    by (auto simp: load_cpu_def Let_def obind_eq_Panic d compile_source_no_panic load_registers_ok load_stack_cells_no_panic
      load_pins_ok [OF assms(1)] split: prod.splits)
  show "load_cpu env kb w spec program_id path source ic housing = Ok c \<Longrightarrow> cpu_ok (length (w_devices w)) c"
    using assms(2)
    by (auto simp: load_cpu_def Let_def obind_eq_Ok cpu_ok_def cpu_wf_def
      dest: load_registers_ok(2) load_pins_ok(2) [OF assms(1), unfolded pins_ok_def] compiled_program_ok [OF _ assms(3)])
qed

lemma load_device_ok:
  assumes "world_wf kb w" "operands_covered kb" "env_knowledge env = Inr kb" "loaded w m"
  shows "load_device env sc base roots kb w d m \<noteq> Panic"
    "load_device env sc base roots kb w d m = Ok m' \<Longrightarrow> loaded w m'"
proof -
  note cpu = load_cpu_ok [OF assms(1) world_device_index_less [OF assms(1)] assms(2)]
  show "load_device env sc base roots kb w d m \<noteq> Panic"
    by (cases m) (auto simp: load_device_def selected_program_def lua_source_check_def Let_def obind_eq_Panic cpu(1)
      split: option.splits if_splits)
  show "load_device env sc base roots kb w d m = Ok m' \<Longrightarrow> loaded w m'"
    using assms(4)
    by (cases m) (auto simp: load_device_def loaded_def Let_def obind_eq_Ok split: option.splits if_splits; rule cpu(2))
qed

text \<open>The devices are loaded in step with the schedule: every device adds a machine of the language it was planned with.\<close>

lemma load_device_counts:
  assumes "load_device env sc base roots kb w d m = Ok m'" "plan_device sc d (slots, length (fst m), length (snd m)) = Ok (slots', c, l)"
  shows "length (fst m') = c" "length (snd m') = l"
  using assms
  by (cases m; auto simp: load_device_def plan_device_def selected_program_def device_language_def Let_def obind_eq_Ok
    split: option.splits program_language.splits if_splits)+

lemma load_devices_counts:
  assumes "ofold (load_device env sc base roots kb w) ds m = Ok m'"
    "ofold (plan_device sc) ds (slots, length (fst m), length (snd m)) = Ok (slots', c, l)"
  shows "length (fst m') = c \<and> length (snd m') = l"
  using assms
proof (induction ds arbitrary: m slots)
  case (Cons d ds)
  then obtain m1 slots1 c1 l1 where
    "load_device env sc base roots kb w d m = Ok m1" "ofold (load_device env sc base roots kb w) ds m1 = Ok m'"
    "plan_device sc d (slots, length (fst m), length (snd m)) = Ok (slots1, c1, l1)"
    "ofold (plan_device sc) ds (slots1, c1, l1) = Ok (slots', c, l)"
    by (auto simp: obind_eq_Ok)
  with load_device_counts [OF this(1,3)] Cons.IH show ?case by blast
qed simp

lemma planned_bound:
  assumes "ofold (plan_device sc) ds ([], 0, 0) = Ok (slots, c, l)"
  shows "AdapterIc10 i \<in> set slots \<Longrightarrow> i < c" "AdapterLua i \<in> set slots \<Longrightarrow> i < l"
proof -
  from plan_devices [OF assms] have "ic10_indices slots = [0..<c]" "lua_indices slots = [0..<l]" by simp_all
  then have "set (ic10_indices slots) = {0..<c}" "set (lua_indices slots) = {0..<l}" by simp_all
  then show "AdapterIc10 i \<in> set slots \<Longrightarrow> i < c" "AdapterLua i \<in> set slots \<Longrightarrow> i < l"
    by (force simp: ic10_indices_def lua_indices_def map_filter_def)+
qed

lemma schedule_plan_no_panic: "schedule_plan sc \<noteq> Panic"
proof -
  have "ofold (plan_device sc) (sc_devices sc) ([], 0, 0) \<noteq> Panic"
    by (rule ofold_no_panic [where P = "\<lambda>_. True"])
      (auto simp: plan_device_def device_language_def obind_eq_Panic split: option.splits program_language.splits,
        (metis program_language.exhaust)+)
  then show ?thesis by (auto simp: schedule_plan_def obind_eq_Panic)
qed

lemma from_scenario_parts:
  assumes "from_scenario env sc base roots = Ok s"
  shows "\<exists>c l. env_knowledge env = Inr (s_knowledge s) \<and> world_build (sc_networks sc) (sc_devices sc) (s_knowledge s) = Ok (s_world s) \<and>
    ofold (plan_device sc) (sc_devices sc) ([], 0, 0) = Ok (s_schedule s, c, l) \<and>
    ofold (load_device env sc base roots (s_knowledge s) (s_world s)) (sc_devices sc) ([], []) = Ok (s_cpus s, s_lua_programs s) \<and>
    s_behaviours s = behaviour_build (s_world s) \<and> s_tick s = 0"
  using assms by (auto simp: from_scenario_def schedule_plan_def obind_eq_Ok split: if_splits)

lemma from_scenario_sim_inv:
  assumes "from_scenario env sc base roots = Ok s" "operands_covered (s_knowledge s)"
  shows "sim_inv (s_knowledge s) (world_shape (s_world s)) s"
proof -
  let ?kb = "s_knowledge s" let ?w = "s_world s"
  from from_scenario_parts [OF assms(1)] obtain c l where
    kb: "env_knowledge env = Inr ?kb" and w: "world_build (sc_networks sc) (sc_devices sc) ?kb = Ok ?w"
    and plan: "ofold (plan_device sc) (sc_devices sc) ([], 0, 0) = Ok (s_schedule s, c, l)"
    and load: "ofold (load_device env sc base roots ?kb ?w) (sc_devices sc) ([], []) = Ok (s_cpus s, s_lua_programs s)"
    and b: "s_behaviours s = behaviour_build ?w" by blast
  note wf = built_world_wf [OF w]
  have "loaded ?w (s_cpus s, s_lua_programs s)"
    by (rule ofold_induct [where P = "loaded ?w", OF load]) (use load_device_ok [OF wf assms(2) kb] in \<open>auto simp: loaded_def\<close>)
  moreover have "list_all (adapter_bound s) (s_schedule s)"
  proof -
    have "length (s_cpus s) = c" "length (s_lua_programs s) = l"
      using load_devices_counts [OF load, of "[]"] plan by simp_all
    then have "adapter_bound s a" if "a \<in> set (s_schedule s)" for a
      using planned_bound [OF plan] that by (cases a) auto
    then show ?thesis by (simp add: list_all_iff)
  qed
  ultimately show ?thesis using wf behaviour_build_wf [OF wf]
    by (simp add: sim_inv_def world_inv_def world_shape_def loaded_def b)
qed

lemma from_scenario_schedule:
  assumes "from_scenario env sc base roots = Ok s"
  shows "map (\<lambda>a. Ok (Some (adapter_language a))) (s_schedule s) = filter (\<lambda>r. r \<noteq> Ok None) (map (device_language sc) (sc_devices sc))"
    "ic10_indices (s_schedule s) = [0..<length (s_cpus s)]" "lua_indices (s_schedule s) = [0..<length (s_lua_programs s)]"
proof -
  from from_scenario_parts [OF assms] obtain c l where
    plan: "ofold (plan_device sc) (sc_devices sc) ([], 0, 0) = Ok (s_schedule s, c, l)"
    and load: "ofold (load_device env sc base roots (s_knowledge s) (s_world s)) (sc_devices sc) ([], []) = Ok (s_cpus s, s_lua_programs s)"
    by blast
  have "length (s_cpus s) = c" "length (s_lua_programs s) = l" using load_devices_counts [OF load, of "[]"] plan by simp_all
  then show "map (\<lambda>a. Ok (Some (adapter_language a))) (s_schedule s) = filter (\<lambda>r. r \<noteq> Ok None) (map (device_language sc) (sc_devices sc))"
    "ic10_indices (s_schedule s) = [0..<length (s_cpus s)]" "lua_indices (s_schedule s) = [0..<length (s_lua_programs s)]"
    using plan_devices [OF plan] by (auto simp: comp_def)
qed

lemma run_ticks_returns:
  assumes "sim_inv kb sh s" "engine_ok kb sh eng" "length (s_schedule s) * (operation_budget kb + 1) + 2 \<le> fuel"
  shows "\<exists>s'. run_ticks lm eng fuel n s = Some s' \<and> sim_inv kb sh s'"
  using assms(1,3)
proof (induction n arbitrary: s)
  case (Suc n)
  obtain r s' where "step_world_tick lm eng fuel s = Some (r, s')" "r \<noteq> Panic" "sim_inv kb sh s'" "s_schedule s' = s_schedule s"
    using step_world_tick_returns [OF Suc.prems(1) assms(2) Suc.prems(2), of lm] unfolding sched_inv_def by blast
  with Suc.IH [of s'] Suc.prems(2) show ?case by simp
qed simp

lemma ofold_Nil_eq: "ofold f [] = Ok"
  by (simp add: fun_eq_iff)

lemma build_slot_fields_ignores_program [simp]: "build_slot_fields (d\<lparr>ds_program := p\<rparr>) = build_slot_fields d"
  by (simp add: build_slot_fields_def fun_eq_iff cong del: if_weak_cong)

lemma build_slot_ignores_program [simp]: "build_slot (d\<lparr>ds_program := p\<rparr>) = build_slot d"
  by (simp add: build_slot_def fun_eq_iff)

lemma build_ignores_program [simp]:
  "build_slots (d\<lparr>ds_program := p\<rparr>) = build_slots d" "build_memory (d\<lparr>ds_program := p\<rparr>) = build_memory d"
  "build_fields (d\<lparr>ds_program := p\<rparr>) = build_fields d" "build_reference (d\<lparr>ds_program := p\<rparr>) = build_reference d"
  "build_connection kb (d\<lparr>ds_program := p\<rparr>) = build_connection kb d"
  by (simp_all add: build_slots_def build_memory_def build_fields_def build_reference_def build_connection_def fun_eq_iff
    cong del: if_weak_cong option.case_cong_weak)

lemma analysis_catalogue [simp]: "device_by_name analysis_kb = device_by_name sample_kb"
  by (simp add: fun_eq_iff device_by_name_def analysis_kb_def cong del: option.case_cong_weak)

lemma analysis_builds [simp]: "build_device analysis_kb d = build_device sample_kb d" "build_connection analysis_kb d = build_connection sample_kb d"
  by (simp_all add: build_device_def build_connection_def fun_eq_iff cong del: if_weak_cong option.case_cong_weak)

lemma sample_load_world: "world_build (sc_networks sample_load_scenario) (sc_devices sample_load_scenario) analysis_kb = Ok sample_world"
proof -
  let ?d = "sample_spec\<lparr>ds_program := Some ''a''\<rparr>"
  have "build_device sample_kb ?d = build_device sample_kb sample_spec" by (simp add: build_device_def fun_eq_iff cong del: if_weak_cong)
  moreover have "build_device_connections analysis_kb ?d = build_device_connections sample_kb sample_spec"
    by (simp add: build_device_connections_def fun_eq_iff)
  ultimately show ?thesis using world_build_sample by (simp add: world_build_def sample_load_scenario_def ofold_Nil_eq)
qed


lemma sample_compiled: "compile_source ''a.ic10'' ''yield'' analysis_kb (''a.ic10'', []) =
    Ok \<lparr>p_source_path = ''a.ic10'', p_debug_source_path = ''a.ic10'', p_source = ''yield'',
       p_operations = [(0, \<lparr>o_line = 0, o_mnemonic = ''yield'', o_operands = []\<rparr>)], p_labels = [], p_defines = [], p_aliases = [],
       p_generated_to_source = []\<rparr>"
  by code_simp

lemma sample_loaded: "from_scenario sample_environment sample_load_scenario '''' [] = Ok sample_loaded_sim"
proof -
  have plan: "schedule_plan sample_load_scenario = Ok [AdapterIc10 0]"
    by (simp add: schedule_plan_def plan_device_def device_language_def sample_load_scenario_def sample_spec_def o_ok_or_def)
  have d: "nth_opt (w_devices sample_world) 0 = Some (w_devices sample_world ! 0)"
     "device_by_name sample_kb (dv_prefab (w_devices sample_world ! 0)) = Some sample_device"
     "world_device_index sample_world ''console'' = Some 0" "ds_id sample_spec = ''console''"
     "ds_ic sample_spec = None" "env_read sample_environment path = Inr ''yield''"
    "env_knowledge sample_environment = Inr analysis_kb" "sc_schema_version sample_load_scenario = 1" for path
    by (simp_all add: sample_world_def world_device_index_def nth_opt_def sample_kb_def device_by_name_def bt_get_def sample_spec_def
      sample_environment_def sample_load_scenario_def)
  have network: "first_data_network sample_world (List.map_filter (bt_get (dv_connections (w_devices sample_world ! 0))) (data_indices sample_device)) = Ok (Some 0)"
  proof -
    have "data_indices sample_device = [0]" by code_simp
    then show ?thesis by (simp add: sample_world_def bt_get_def nth_opt_def o_expect_def eq_ignore_ascii_case_def map_filter_def)
  qed
  have c: "load_cpu sample_environment analysis_kb sample_world (sample_spec\<lparr>ds_program := Some ''a''\<rparr>) ''a'' ''a.ic10'' ''yield'' None 0 = Ok (s_cpus sample_loaded_sim ! 0)"
    by (simp add: load_cpu_def sample_loaded_sim_def Let_def sample_environment_def load_build_mapping_def bt_collect_def bt_empty_def sample_compiled
      ic_entries_def d o_expect_def o_ok_or_def o_map_err_def network)
  have sim: "s_cpus sample_loaded_sim = [s_cpus sample_loaded_sim ! 0]" by (simp add: sample_loaded_sim_def)
  have "ofold (load_device sample_environment sample_load_scenario '''' [] analysis_kb sample_world) (sc_devices sample_load_scenario) ([], [])
     = Ok (s_cpus sample_loaded_sim, [])"
    using c sim by (simp add: load_device_def selected_program_def sample_load_scenario_def Let_def d o_ok_or_def
      resolve_path_def starts_with_def o_map_err_def o_result_def)
  then show ?thesis using plan
    by (simp add: from_scenario_def sample_load_world d o_map_err_def o_result_def compatibility_warnings_def sample_loaded_sim_def)
      (simp add: sample_load_scenario_def)
qed

lemma analysis_kb_covered: "operands_covered analysis_kb"
  by code_simp

lemma from_scenario_ok:
  assumes "length (sc_devices sc) < 2 ^ 32" "env_knowledge env = Inr kb" "operands_covered kb"
  shows "from_scenario env sc base roots \<noteq> Panic"
proof -
  have "ofold (load_device env sc base roots kb w) (sc_devices sc) ([], []) \<noteq> Panic"
    if "world_build (sc_networks sc) (sc_devices sc) kb = Ok w" for w
    by (rule ofold_no_panic [where P = "loaded w"])
      (use load_device_ok [OF built_world_wf [OF that] assms(3,2)] in \<open>auto simp: loaded_def\<close>)
  then show ?thesis
    using schedule_plan_no_panic world_build_total [OF assms(1)] assms(2)
    by (auto simp: from_scenario_def obind_eq_Panic split: if_splits)
qed

section \<open>Properties\<close>

text \<open>C15: A scenario never brings the loader down: for fewer than \<open>2^32\<close> devices and language data that lists the operands
  the simulator reads, loading reports what is wrong with the scenario, or gives a simulator.\<close>

theorem from_scenario_no_panic:
  assumes "length (sc_devices sc) < 2 ^ 32" "env_knowledge env = Inr kb" "operands_covered kb"
  shows "from_scenario env sc base roots \<noteq> Panic"
  by (rule from_scenario_ok [OF assms])

theorem from_scenario_no_panic_witness: "from_scenario sample_environment sample_load_scenario '''' [] \<noteq> Panic"
proof (rule from_scenario_no_panic [OF _ _ analysis_kb_covered])
  show "length (sc_devices sample_load_scenario) < 2 ^ 32" by (simp add: sample_load_scenario_def)
  show "env_knowledge sample_environment = Inr analysis_kb" by (simp add: sample_environment_def)
qed

text \<open>C9: What a scenario loads into is well-formed: the world and its indexes, the behaviours, every IC with eighteen
  registers, pins on existing devices and a compiled program. The schedule has one slot for every device with a program, in
  the order of the scenario and with that program's language, and its slots number the loaded ICs and the loaded Lua
  runtimes from the first to the last, each exactly once.\<close>

theorem from_scenario_wf:
  assumes "from_scenario env sc base roots = Ok s" "operands_covered (s_knowledge s)"
  shows "sim_inv (s_knowledge s) (world_shape (s_world s)) s \<and> s_tick s = 0 \<and>
    map (\<lambda>a. Ok (Some (adapter_language a))) (s_schedule s) = filter (\<lambda>r. r \<noteq> Ok None) (map (device_language sc) (sc_devices sc)) \<and>
    ic10_indices (s_schedule s) = [0..<length (s_cpus s)] \<and> lua_indices (s_schedule s) = [0..<length (s_lua_programs s)]"
  using from_scenario_sim_inv [OF assms] from_scenario_schedule [OF assms(1)] from_scenario_parts [OF assms(1)] by blast

theorem from_scenario_wf_witness:
  "\<exists>s. from_scenario sample_environment sample_load_scenario '''' [] = Ok s \<and> sim_inv analysis_kb (world_shape (s_world s)) s \<and>
     ic10_indices (s_schedule s) = [0] \<and> lua_indices (s_schedule s) = []"
proof -
  have "s_knowledge sample_loaded_sim = analysis_kb" "length (s_cpus sample_loaded_sim) = 1" "s_lua_programs sample_loaded_sim = []"
    by (simp_all add: sample_loaded_sim_def)
  then show ?thesis using from_scenario_wf [OF sample_loaded] sample_loaded analysis_kb_covered by auto
qed

text \<open>C6: A loaded scenario runs on: whatever number of world ticks is asked for, each of them ends, programs that fail
  on the way included, and the simulator stays well-formed.\<close>

theorem loaded_scenario_runs:
  assumes "from_scenario env sc base roots = Ok s" "operands_covered (s_knowledge s)"
    and "engine_ok (s_knowledge s) (world_shape (s_world s)) eng"
    and "length (s_schedule s) * (operation_budget (s_knowledge s) + 1) + 2 \<le> fuel"
  shows "\<exists>s'. run_ticks lm eng fuel n s = Some s' \<and> sim_inv (s_knowledge s) (world_shape (s_world s)) s'"
  by (rule run_ticks_returns [OF from_scenario_sim_inv [OF assms(1,2)] assms(3,4)])

theorem loaded_scenario_runs_witness:
  "\<exists>s s'. from_scenario sample_environment sample_load_scenario '''' [] = Ok s \<and>
     run_ticks sample_libm sample_engine (operation_budget analysis_kb + 3) 100 s = Some s'"
proof -
  let ?s = sample_loaded_sim
  have s: "s_knowledge ?s = analysis_kb" "s_schedule ?s = [AdapterIc10 0]" by (simp_all add: sample_loaded_sim_def)
  have "\<exists>s'. run_ticks sample_libm sample_engine (operation_budget analysis_kb + 3) 100 ?s = Some s'"
    using loaded_scenario_runs [OF sample_loaded, where eng = sample_engine and fuel = "operation_budget analysis_kb + 3" and n = 100
      and lm = sample_libm] s analysis_kb_covered sample_engine_ok by auto
  then show ?thesis using sample_loaded by blast
qed

end
