(* ===== verification/Test_Runner_Correct.thy ===== *)
theory Test_Runner_Correct
  imports Test_Runner Script_Driver_Correct Scenario_Correct
begin

text \<open>
  Test cases get a verdict, and a verdict means what the assertions say: the loop over ticks ends within its rounds without
  a panic, and when a case passes, its invariants held whenever they were observed, its eventual assertions at some
  point, and its plain assertions at the end.
\<close>

section \<open>Vocabulary\<close>

text \<open>A program that leaves a view of the state as it is, on every outcome.\<close>

definition keeps :: "('s \<Rightarrow> 'b) \<Rightarrow> ('s, 'e, 'a) prog \<Rightarrow> bool" where
  "keeps f m \<longleftrightarrow> (\<forall>s. f (snd (m s)) = f s)"

definition drive_tick :: "'vm drive \<Rightarrow> u64" where
  "drive_tick x = s_tick (dx_sim x)"

text \<open>What the setters never touch.\<close>

definition setter_frame :: "'vm simulator \<Rightarrow> u64 \<times> (string, u8 list) btree_map" where
  "setter_frame s = (s_tick s, s_driver_state s)"

definition case_inv :: "knowledge_base \<Rightarrow> world_form \<Rightarrow> test_case \<Rightarrow> 'vm case_run \<Rightarrow> bool" where
  "case_inv kb sh c x \<longleftrightarrow>
     drive_inv kb sh (tc_drivers c) (cr_drive x) \<and> length (cr_satisfied x) = length (tc_assertions c) \<and>
     (cr_error x = None \<longrightarrow> actions_run (cr_drive x) \<le> max_actions_per_case)"

text \<open>The parts of a run that its stimuli leave alone, and those that checking assertions leaves alone.\<close>

definition round_view :: "'vm case_run \<Rightarrow> u64 \<times> u64 \<times> string option" where
  "round_view x = (s_tick (cr_sim x), cr_operations x, cr_error x)"

definition check_view :: "'vm case_run \<Rightarrow> 'vm drive \<times> u64 \<times> string option \<times> nat" where
  "check_view x = (cr_drive x, cr_operations x, cr_error x, length (cr_satisfied x))"

definition plain_case :: "test_case \<Rightarrow> bool" where
  "plain_case c \<longleftrightarrow>
     list_all (\<lambda>a. plain_text (expression_or_invalid a)) (tc_assertions c) \<and>
     (case tc_snapshot c of Some values \<Rightarrow> list_all (\<lambda>(e, _). plain_text e) values | None \<Rightarrow> True)"

abbreviation never :: "'s \<Rightarrow> bool" where "never \<equiv> \<lambda>_. False"

abbreviation no_panic :: "('s, 'e, 'a) prog \<Rightarrow> 's \<Rightarrow> bool" where
  "no_panic m \<equiv> wp m (\<lambda>_ _. True) (\<lambda>_. True)"

text \<open>A program that neither fails nor panics from this state.\<close>

definition runs :: "('s, 'e, 'a) prog \<Rightarrow> 's \<Rightarrow> bool" where
  "runs m s \<longleftrightarrow> wp m (\<lambda>_ _. True) never s"

text \<open>
  The simulators that a run observes: at the beginning of every round, after its stimuli and the drivers, before the
  programs run on.
\<close>

inductive observed :: "'vm runner_host \<Rightarrow> usize \<Rightarrow> test_case \<Rightarrow> u64 \<Rightarrow> u64 \<Rightarrow> nat \<Rightarrow> 'vm case_run \<Rightarrow> 'vm simulator \<Rightarrow> bool"
  for h thread c max_ticks max_operations where
  now: "observe h thread c x = (Ok (), y) \<Longrightarrow> observed h thread c max_ticks max_operations round x (cr_sim y)"
| later: "bind (observe h thread c) (\<lambda>_. evaluate_assertions thread c) x = (Ok (), y) \<Longrightarrow>
    \<not> case_finished max_ticks max_operations y \<Longrightarrow> \<not> rh_expired h round \<Longrightarrow>
    run_tick h thread max_operations (s_tick (cr_sim y)) (unat max_operations + 2) y = Some (Ok (), z) \<Longrightarrow> cr_error z = None \<Longrightarrow>
    observed h thread c max_ticks max_operations (Suc round) z s \<Longrightarrow> observed h thread c max_ticks max_operations round x s"

definition holds_in :: "'vm simulator \<Rightarrow> usize \<Rightarrow> assertion \<Rightarrow> bool" where
  "holds_in s thread a \<longleftrightarrow> assertion_matches s thread a (expression_or_invalid a) = Ok True"

definition due_at :: "test_case \<Rightarrow> assertion \<Rightarrow> u64 \<Rightarrow> bool" where
  "due_at c a tick \<longleftrightarrow> as_eventually a = None \<and> (as_at_tick a = None \<or> as_at_tick a = Some tick) \<and>
     (as_always a \<noteq> None \<or> as_at_tick a = Some tick \<or> tick = tc_max_ticks c)"

definition case_started :: "'vm runner_host \<Rightarrow> test_case \<Rightarrow> string + scenario \<Rightarrow> u64 \<Rightarrow> 'vm simulator \<Rightarrow> usize \<Rightarrow> 'vm case_run \<Rightarrow> bool" where
  "case_started h c scenario_file seed s thread x \<longleftrightarrow>
     (\<exists>drivers s'. case_thread scenario_file (set_seed seed s) c = Some thread \<and>
        start_case h thread c (set_seed seed s) = (Ok drivers, s') \<and> x = initial_run c drivers s')"

text \<open>What an assertion says about the observed simulators of a run and the last of them.\<close>

definition upheld :: "('vm simulator \<Rightarrow> bool) \<Rightarrow> 'vm simulator \<Rightarrow> usize \<Rightarrow> assertion \<Rightarrow> bool" where
  "upheld seen final thread a \<longleftrightarrow>
     (if as_eventually a \<noteq> None then \<exists>s. seen s \<and> holds_in s thread a
      else if as_always a \<noteq> None \<or> as_at_tick a \<noteq> None then
        \<forall>s. seen s \<and> (as_at_tick a = None \<or> as_at_tick a = Some (s_tick s)) \<longrightarrow> holds_in s thread a
      else holds_in final thread a)"

text \<open>
  An assertion with no time of its own, and a run that was stopped by the limits of the run before the ticks of its case.
\<close>

definition is_plain_assertion :: "assertion \<Rightarrow> bool" where
  "is_plain_assertion a \<longleftrightarrow> as_eventually a = None \<and> as_always a = None \<and> as_at_tick a = None"

definition cut_short :: "run_limits \<Rightarrow> test_case \<Rightarrow> case_result \<Rightarrow> bool" where
  "cut_short limits c r \<longleftrightarrow> rl_max_ticks limits < tc_max_ticks c \<and> rl_max_ticks limits \<le> rs_ticks r"

text \<open>What a run from x to y without failures says of the simulators seen on the way.\<close>

definition clean_run :: "test_case \<Rightarrow> usize \<Rightarrow> ('vm simulator \<Rightarrow> bool) \<Rightarrow> 'vm case_run \<Rightarrow> 'vm case_run \<Rightarrow> bool" where
  "clean_run c thread seen x y \<longleftrightarrow>
     (\<forall>s a. seen s \<longrightarrow> a \<in> set (tc_assertions c) \<longrightarrow> due_at c a (s_tick s) \<longrightarrow> holds_in s thread a) \<and>
     (\<forall>k < length (tc_assertions c). cr_satisfied y ! k \<longrightarrow> cr_satisfied x ! k \<or> (\<exists>s. seen s \<and> holds_in s thread (tc_assertions c ! k)))"

text \<open>A case with an assertion of each kind, for a simulator whose schedule is empty.\<close>

definition sample_host :: "unit runner_host" where
  "sample_host = \<lparr>rh_libm = sample_libm, rh_engine = sample_engine, rh_environment = sample_environment, rh_codec = sample_codec,
     rh_step_text = (\<lambda>_. ''step''), rh_load_text = (\<lambda>_. ''load''), rh_expired = (\<lambda>_. False)\<rparr>"

definition empty_assertion :: assertion where
  "empty_assertion = \<lparr>as_expression = None, as_eventually = None, as_always = None, as_at_tick = None, as_within_ticks = None,
     as_expected = None, as_tolerance = None\<rparr>"

definition sample_case :: test_case where
  "sample_case = \<lparr>tc_name = ''t'', tc_max_ticks = 3, tc_max_operations = 10, tc_program = None, tc_execution = None,
     tc_initial = [], tc_timeline = [], tc_drivers = [],
     tc_assertions = [empty_assertion\<lparr>as_expression := Some ''true''\<rparr>, empty_assertion\<lparr>as_always := Some ''true''\<rparr>,
       empty_assertion\<lparr>as_eventually := Some ''true''\<rparr>], tc_expect_error = None, tc_snapshot = None\<rparr>"

definition unmet_case :: test_case where
  "unmet_case = sample_case\<lparr>tc_assertions := [empty_assertion\<lparr>as_expression := Some ''false''\<rparr>]\<rparr>"

definition sample_idle :: "unit simulator" where
  "sample_idle = sample_sim\<lparr>s_schedule := []\<rparr>"

definition idle :: "'vm drive \<Rightarrow> bool" where
  "idle x \<longleftrightarrow> sd_definitions (dx_drivers x) = [] \<and> pst_pending (sd_state (dx_drivers x)) = [] \<and> s_schedule (dx_sim x) = [] \<and>
     s_cpus (dx_sim x) \<noteq> [] \<and> s_tick (dx_sim x) = 2"

definition sample_limits :: run_limits where
  "sample_limits = \<lparr>rl_max_ticks = 10000, rl_max_operations = 10000000, rl_wall_millis = 30000\<rparr>"

section \<open>Lemmas\<close>

subsection \<open>Frames\<close>

named_theorems keeps_rules \<open>programs that keep a view of the state\<close>

lemma keeps_basic [keeps_rules]:
  "keeps f (ret x)" "keeps f (throw e)" "keeps f panic" "keeps f get_state" "keeps f (gets g)" "keeps f (ok_or e v)"
  "keeps f (expect v)" "keeps f (lift_outcome k)" "keeps f (lift_result r)"
  by (simp_all add: keeps_def prog_simps ok_or_def expect_def lift_outcome_def lift_result_def split: option.splits sum.splits)

lemma keepsD: "keeps f m \<Longrightarrow> m s = (r, s') \<Longrightarrow> f s' = f s"
  unfolding keeps_def by (metis snd_conv)

lemma keeps_bind [keeps_rules]: "keeps f m \<Longrightarrow> (\<And>x. keeps f (g x)) \<Longrightarrow> keeps f (bind m g)"
  by (auto simp: keeps_def bind_def split: prod.splits outcome.splits) (metis snd_conv)+

lemma keeps_modify [keeps_rules]: "(\<And>s. f (g s) = f s) \<Longrightarrow> keeps f (modify g)"
  by (simp add: keeps_def prog_simps)

lemma keeps_map_err [keeps_rules]: "keeps f m \<Longrightarrow> keeps f (map_prog_err g m)"
  by (auto simp: keeps_def map_prog_err_def split: prod.splits outcome.splits) (metis snd_conv)+

lemma keeps_if [keeps_rules]: "(b \<Longrightarrow> keeps f m) \<Longrightarrow> (\<not> b \<Longrightarrow> keeps f n) \<Longrightarrow> keeps f (if b then m else n)"
  by simp

lemma keeps_case_option [keeps_rules]:
  "keeps f m \<Longrightarrow> (\<And>x. keeps f (g x)) \<Longrightarrow> keeps f (case v of None \<Rightarrow> m | Some x \<Rightarrow> g x)"
  by (cases v) simp_all

lemma keeps_case_prod [keeps_rules]: "(\<And>a b. keeps f (g a b)) \<Longrightarrow> keeps f (case p of (a, b) \<Rightarrow> g a b)"
  by (cases p) simp

lemma keeps_case_list [keeps_rules]:
  "keeps f m \<Longrightarrow> (\<And>x xs. keeps f (g x xs)) \<Longrightarrow> keeps f (case v of [] \<Rightarrow> m | x # xs \<Rightarrow> g x xs)"
  by (cases v) simp_all

lemma keeps_for_each [keeps_rules]: "(\<And>x. keeps f (g x)) \<Longrightarrow> keeps f (for_each xs g)"
  by (induction xs) (auto intro: keeps_rules)

lemma keeps_setters [keeps_rules]:
  "keeps setter_frame (s_note g)" "keeps setter_frame (s_intern name)" "keeps setter_frame (s_device i)"
  "keeps setter_frame (s_network i)" "keeps setter_frame (s_slot i k)"
  by (simp_all add: keeps_def s_note_def s_intern_def s_device_def s_network_def s_slot_def bind_def prog_simps setter_frame_def
    expect_def split: prod.splits option.splits)

lemma setter_frame_updates [simp]:
  "setter_frame (s_set_cpu i c s) = setter_frame s" "setter_frame (s_set_device i d s) = setter_frame s"
  "setter_frame (s_set_network i n s) = setter_frame s" "setter_frame (s\<lparr>s_journal := j\<rparr>) = setter_frame s"
  "setter_frame (s\<lparr>s_behaviours := b\<rparr>) = setter_frame s"
  by (simp_all add: setter_frame_def s_set_cpu_def s_set_device_def s_set_network_def)

lemma keeps_note_named [keeps_rules]: "keeps setter_frame (s_note_named name g)"
  unfolding s_note_named_def by (intro keeps_rules)

lemma keeps_insert_slot [keeps_rules]: "keeps setter_frame (s_insert_slot_field i k name v)"
  unfolding s_insert_slot_field_def by (intro keeps_rules) simp

lemma keeps_assign [keeps_rules]: "keeps setter_frame (assign_target t v actor)"
  by (cases t) (auto simp: set_register_as_def set_stack_as_def set_device_slot_as_def set_device_memory_as_def
    set_device_field_as_def set_network_channel_as_def s_notify_def split_beta intro!: keeps_rules)

lemma keeps_set_value [keeps_rules]: "keeps setter_frame (set_value_as thread location v actor)"
  unfolding set_value_as_def by (intro keeps_rules)

lemma keeps_move [keeps_rules]: "keeps setter_frame (move_slot_item_as fd fs td ts actor)"
  unfolding move_slot_item_as_def move_slot_field_def Let_def by (intro keeps_rules)

lemma keeps_actor [keeps_rules]: "keeps setter_frame (scripted_driver_actor name rule)"
  unfolding scripted_driver_actor_def by (intro keeps_rules)

lemma keeps_frame_tick: "keeps setter_frame m \<Longrightarrow> keeps s_tick m"
  by (simp add: keeps_def setter_frame_def)

lemma keeps_on_sim: "keeps s_tick m \<Longrightarrow> keeps drive_tick (on_sim m)"
  by (simp add: keeps_def on_sim_def drive_tick_def split_beta)

lemma keeps_provenance [keeps_rules]:
  "keeps f (throw_provenance d r message)" "keeps f m \<Longrightarrow> keeps f (with_provenance d r g m)"
  by (auto simp: keeps_def throw_provenance_def with_provenance_def split: outcome.splits prod.splits) (metis snd_conv)+

lemma keeps_update_state [keeps_rules]: "keeps drive_tick (update_state f)"
  unfolding update_state_def by (intro keeps_rules) (simp add: drive_tick_def)

lemma keeps_execute [keeps_rules]: "keeps drive_tick (drive_execute thread d r a)"
proof -
  have "keeps drive_tick (drive_action thread driver d r actor a)" for driver and actor
    unfolding drive_action_def Let_def by (cases a) (auto intro!: keeps_rules keeps_on_sim keeps_frame_tick)
  then show ?thesis unfolding drive_execute_def by (intro keeps_rules keeps_on_sim keeps_frame_tick)
qed

lemma keeps_react [keeps_rules]: "keeps drive_tick (react_loop thread n)"
proof (induction n)
  case (Suc n)
  then show ?case unfolding react_loop.simps Let_def
    by (intro keeps_rules) (simp_all add: drive_tick_def)
qed (simp add: keeps_basic)

lemma keeps_persist [keeps_rules]: "keeps drive_tick (persist codec actor)"
proof -
  have "keeps s_tick (map_prog_err setter_error_text (set_test_driver_state state_key data actor))" for data
    unfolding set_test_driver_state_def by (intro keeps_rules keeps_frame_tick [OF keeps_note_named]) simp
  then have "keeps drive_tick (on_sim (map_prog_err setter_error_text (set_test_driver_state state_key data actor)))" for data
    by (rule keeps_on_sim)
  then show ?thesis unfolding persist_def by (intro keeps_rules) (auto intro: keeps_rules split: sum.splits)
qed

lemma keeps_pump: "keeps drive_tick (pump codec thread)"
  unfolding pump_def react_to_writes_def Let_def by (intro keeps_rules)

subsection \<open>One round\<close>

lemma case_inv_sim:
  assumes "case_inv kb sh c x" "sim_inv kb sh s"
  shows "case_inv kb sh c (with_sim s x)" "cr_sim (with_sim s x) = s"
  using assms drive_inv_sim [of kb sh "tc_drivers c" "cr_drive x"] by (simp_all add: case_inv_def with_sim_def cr_sim_def)

lemma case_inv_simulator: "case_inv kb sh c x \<Longrightarrow> sim_inv kb sh (cr_sim x)"
  by (simp add: case_inv_def drive_inv_def cr_sim_def)

lemma stimulate_ok:
  assumes "case_inv kb sh c x"
  shows "wp (stimulate thread what tv) (\<lambda>_ y. case_inv kb sh c y \<and> round_view y = round_view x) never x"
proof -
  obtain target v where tv: "tv = (target, v)" by fastforce
  obtain r s where set: "set_value thread target (scalar_or_nan v) (cr_sim x) = (r, s)" by fastforce
  have s: "r \<noteq> Panic" "sim_inv kb sh s"
    using set_value_safe [OF case_inv_simulator [OF assms], of thread target "scalar_or_nan v" ActorScenario r s] set by (auto simp: set_value_def)
  have "setter_frame s = setter_frame (cr_sim x)"
    using keepsD [OF keeps_set_value] set by (simp add: set_value_def)
  then have "s_tick s = s_tick (cr_sim x)" by (simp add: setter_frame_def)
  with s set show ?thesis using case_inv_sim [OF assms s(2)]
    by (cases r) (auto simp: tv wp_def stimulate_def push_failure_def prog_simps round_view_def case_inv_def cr_sim_def with_sim_def)
qed

lemma run_timeline_ok:
  assumes "case_inv kb sh c x"
  shows "wp (run_timeline thread c) (\<lambda>_ y. case_inv kb sh c y \<and> round_view y = round_view x) never x"
proof -
  let ?I = "\<lambda>y. case_inv kb sh c y \<and> round_view y = round_view x"
  have one: "wp (stimulate thread what tv) (\<lambda>_. ?I) never y" if "?I y" for what tv y
    using stimulate_ok [of kb sh c y thread what tv] that by (auto elim!: wp_mono)
  have sets: "wp (for_each (tl_set entry) (stimulate thread what)) (\<lambda>_. ?I) never y" if "?I y" for what entry y
    by (rule wp_for_each [where I = ?I]) (use that one in auto)
  have events: "wp (for_each (tl_events entry) (\<lambda>e. stimulate thread what (sv_target e, sv_value e))) (\<lambda>_. ?I) never y"
    if "?I y" for what entry y
    by (rule wp_for_each [where I = ?I]) (use that one in auto)
  have "wp (for_each entries (\<lambda>entry. bind (for_each (tl_set entry) (stimulate thread ''timeline stimulus failed: ''))
      (\<lambda>_. for_each (tl_events entry) (\<lambda>e. stimulate thread ''timeline event failed: '' (sv_target e, sv_value e)))))
      (\<lambda>_. ?I) never x" for entries
    by (rule wp_for_each [where I = ?I]) (use assms events in \<open>auto intro!: wp_bind wp_mono [OF sets]\<close>)
  then show ?thesis unfolding run_timeline_def by (intro wp_intros)
qed

lemma pump_case_ok:
  assumes "case_inv kb sh c x" "cr_error x = None"
  shows "wp (pump_case h thread) (\<lambda>b y. case_inv kb sh c y \<and> s_tick (cr_sim y) = s_tick (cr_sim x) \<and>
    cr_operations y = cr_operations x \<and> (cr_error y = None \<longleftrightarrow> b)) never x"
proof -
  obtain r d where pump: "pump (rh_codec h) thread (cr_drive x) = (r, d)" by fastforce
  have tick: "s_tick (dx_sim d) = s_tick (cr_sim x)"
    using keepsD [OF keeps_pump pump] by (simp add: drive_tick_def cr_sim_def)
  have "wp (pump (rh_codec h) thread) (\<lambda>_ d. drive_inv kb sh (tc_drivers c) d \<and> actions_run d \<le> max_actions_per_case)
      (drive_inv kb sh (tc_drivers c)) (cr_drive x)"
    using assms by (intro pump_ok) (simp_all add: case_inv_def)
  then show ?thesis using pump tick assms
    by (cases r) (auto simp: wp_def pump_case_def case_inv_def cr_sim_def)
qed

lemma observe_ok:
  assumes "case_inv kb sh c x" "cr_error x = None"
  shows "wp (observe h thread c) (\<lambda>_ y. case_inv kb sh c y \<and> s_tick (cr_sim y) = s_tick (cr_sim x) \<and>
    cr_operations y = cr_operations x) never x"
  unfolding observe_def
proof (intro wp_bind wp_mono [OF run_timeline_ok [OF assms(1)]])
  fix y :: "'a case_run" assume y: "case_inv kb sh c y \<and> round_view y = round_view x"
  then have "cr_error y = None" using assms(2) by (simp add: round_view_def)
  then show "wp (pump_case h thread) (\<lambda>b. wp (ret ()) (\<lambda>_ z. case_inv kb sh c z \<and> s_tick (cr_sim z) = s_tick (cr_sim x) \<and>
      cr_operations z = cr_operations x) never) never y"
    using y by (intro wp_mono [OF pump_case_ok]) (auto simp: round_view_def intro!: wp_ret)
qed simp

subsection \<open>Assertions\<close>

lemma keeps_push [keeps_rules]: "keeps check_view (push_failure f)"
  unfolding push_failure_def by (intro keeps_rules) (simp add: check_view_def)

lemma keeps_satisfy [keeps_rules]: "keeps check_view (satisfy i)"
  by (simp add: keeps_def satisfy_def bind_def prog_simps check_view_def)

lemma keeps_fail [keeps_rules]: "keeps check_view (fail_assertion thread a e message)"
  unfolding fail_assertion_def by (intro keeps_rules)

lemma keeps_case_matched [keeps_rules]:
  "keeps f m \<Longrightarrow> keeps f n \<Longrightarrow> (\<And>e. keeps f (g e)) \<Longrightarrow> keeps f k \<Longrightarrow>
   keeps f (case v of Ok True \<Rightarrow> m | Ok False \<Rightarrow> n | Err e \<Rightarrow> g e | Panic \<Rightarrow> k)"
  by (auto split: outcome.splits bool.splits)

lemma keeps_case_sum [keeps_rules]:
  "(\<And>x. keeps f (g x)) \<Longrightarrow> (\<And>x. keeps f (k x)) \<Longrightarrow> keeps f (case v of Inl x \<Rightarrow> g x | Inr x \<Rightarrow> k x)"
  by (cases v) simp_all

lemma keeps_check_assertion [keeps_rules]: "keeps check_view (check_assertion thread c ia)"
  unfolding check_assertion_def check_eventually_def check_now_def Let_def split_beta by (intro keeps_rules)

lemma keeps_evaluate_assertions: "keeps check_view (evaluate_assertions thread c)"
  unfolding evaluate_assertions_def by (intro keeps_rules)

lemma case_inv_check: "check_view y = check_view x \<Longrightarrow> case_inv kb sh c y = case_inv kb sh c x"
  by (simp add: check_view_def case_inv_def)

lemma runs_bind: "runs m s \<Longrightarrow> (\<And>x s'. m s = (Ok x, s') \<Longrightarrow> runs (f x) s') \<Longrightarrow> runs (bind m f) s"
  by (auto simp: runs_def wp_def bind_def split: prod.splits outcome.splits)

lemma runs_basic [simp]: "runs (ret x) s" "runs (gets f) s" "runs get_state s" "runs (modify g) s"
  "runs (expect v) s \<longleftrightarrow> v \<noteq> None" "\<not> runs panic s"
  by (auto simp: runs_def wp_def prog_simps expect_def split: option.splits)

lemma runs_push [simp]: "runs (push_failure f) x"
  by (simp add: push_failure_def)

lemma runs_satisfy: "runs (satisfy i) x \<longleftrightarrow> i < length (cr_satisfied x)"
  by (simp add: runs_def wp_def satisfy_def bind_def prog_simps)

lemma runs_for_each:
  assumes "\<And>a. keeps f (g a)" "\<And>a s'. a \<in> set as \<Longrightarrow> f s' = f s \<Longrightarrow> runs (g a) s'"
  shows "runs (for_each as g) s"
  using assms(2)
proof (induction as arbitrary: s)
  case (Cons a as)
  show ?case unfolding for_each.simps
  proof (rule runs_bind)
    fix x s' assume "g a s = (Ok x, s')"
    then have "f s' = f s" by (rule keepsD [OF assms(1)])
    then show "runs (for_each as g) s'" using Cons by simp
  qed (use Cons.prems in simp)
qed simp

lemma evaluated: "sim_inv kb sh s \<Longrightarrow> plain_text e \<Longrightarrow> evaluate s thread e \<noteq> Panic"
  by (simp add: evaluate_def evaluation_ok)

lemma displayed_ok: "sim_inv kb sh s \<Longrightarrow> plain_text e \<Longrightarrow> \<exists>t. displayed s thread e = Ok t"
  using evaluated [of kb sh s e thread] by (auto simp: displayed_def split: outcome.splits)

lemma matched: "sim_inv kb sh s \<Longrightarrow> plain_text e \<Longrightarrow> assertion_matches s thread a e \<noteq> Panic"
  using evaluated [of kb sh s e thread] by (auto simp: assertion_matches_def obind_eq_Panic split: option.splits)

lemma runs_fail:
  assumes "sim_inv kb sh (cr_sim x)" "plain_text e"
  shows "runs (fail_assertion thread a e message) x"
proof -
  obtain t where "displayed (cr_sim x) thread e = Ok t" using displayed_ok [OF assms] by blast
  then show ?thesis
    by (simp add: fail_assertion_def assertion_failure_def bind_def lift_outcome_def runs_def wp_def push_failure_def prog_simps)
qed

lemma runs_matched:
  assumes "v \<noteq> Panic" "runs m x" "runs n x"
  shows "runs (case v of Ok True \<Rightarrow> m | Ok False \<Rightarrow> n | Err e \<Rightarrow> push_failure (f e) | Panic \<Rightarrow> panic) x"
  using assms by (auto split: outcome.splits bool.splits)

lemma runs_get: "runs (f s) s \<Longrightarrow> runs (bind get_state f) s" "runs (k (g s)) s \<Longrightarrow> runs (bind (gets g) k) s"
  by (simp_all add: runs_def wp_def bind_def prog_simps)

lemma check_assertion_runs:
  assumes "sim_inv kb sh (cr_sim x)" "plain_text (expression_or_invalid a)" "i < length (cr_satisfied x)"
  shows "runs (check_assertion thread c (i, a)) x"
proof (cases "assertion_expression a")
  case (Inr e)
  then have e: "plain_text e" using assms(2) by (simp add: expression_or_invalid_def)
  note facts = matched [OF assms(1) e] runs_fail [OF assms(1) e] runs_satisfy [of i x, THEN iffD2, OF assms(3)]
  have "runs (check_eventually thread c i a e) x"
    unfolding check_eventually_def Let_def
    by (intro runs_get runs_matched facts) (use facts assms(3) in \<open>auto intro!: runs_bind simp: prog_simps\<close>)
  moreover have "runs (check_now thread i a e) x"
    unfolding check_now_def by (intro runs_get runs_matched facts)
  ultimately show ?thesis using Inr by (auto simp: check_assertion_def intro!: runs_get)
qed (simp add: check_assertion_def runs_get)

lemma assertions_ok:
  assumes "case_inv kb sh c x" "plain_case c"
  shows "\<exists>y. evaluate_assertions thread c x = (Ok (), y) \<and> check_view y = check_view x"
proof -
  have "runs (evaluate_assertions thread c) x"
    unfolding evaluate_assertions_def
  proof (rule runs_for_each [where f = check_view])
    fix ia and y :: "'a case_run" assume ia: "ia \<in> set (List.enumerate 0 (tc_assertions c))" and y: "check_view y = check_view x"
    obtain i a where "ia = (i, a)" by fastforce
    then have "i < length (tc_assertions c)" "a \<in> set (tc_assertions c)" using ia by (auto simp: in_set_enumerate_eq)
    then show "runs (check_assertion thread c ia) y"
      using assms y \<open>ia = (i, a)\<close> case_inv_simulator [of kb sh c y] case_inv_check [OF y, of kb sh c]
      by (auto intro!: check_assertion_runs simp: plain_case_def list_all_iff case_inv_def)
  qed (rule keeps_check_assertion)
  then show ?thesis using keepsD [OF keeps_evaluate_assertions, of thread c x]
    by (cases "evaluate_assertions thread c x"; cases "fst (evaluate_assertions thread c x)") (auto simp: runs_def wp_def)
qed

subsection \<open>The loop\<close>

lemma step_ok:
  assumes "sim_inv kb sh s" "engine_ok kb sh eng"
  shows "wp (scheduler_step lm eng)
    (\<lambda>r s'. sim_inv kb sh s' \<and> s_tick s' = (case r of None \<Rightarrow> s_tick s + 1 | Some _ \<Rightarrow> s_tick s)) (sim_inv kb sh) s"
  by (rule wp_mono [OF wp_scheduler_step [OF sim_inv_tick [OF assms(1)] assms(2) within_budget_start]])
    (auto simp: sched_inv_def tick_inv_def split: option.splits)

lemma unat_succ_below: "(x :: u64) < y \<Longrightarrow> unat (x + 1) = unat x + 1"
  by unat_arith

lemma run_tick_ok:
  assumes "engine_ok kb sh (rh_engine h)" "case_inv kb sh c x" "cr_error x = None"
    and "s_tick (cr_sim x) = start \<and> unat max_operations - unat (cr_operations x) + 2 \<le> fuel \<or> s_tick (cr_sim x) = start + 1 \<and> 1 \<le> fuel"
  shows "\<exists>y. run_tick h thread max_operations start fuel x = Some (Ok (), y) \<and> case_inv kb sh c y \<and>
    (cr_error y = None \<longrightarrow> s_tick (cr_sim y) = start + 1 \<or> s_tick (cr_sim y) = start \<and> max_operations \<le> cr_operations y)"
  using assms(2-)
proof (induction fuel arbitrary: x)
  case (Suc fuel)
  show ?case
  proof (cases "s_tick (cr_sim x) = start \<and> cr_operations x < max_operations")
    case go: True
    obtain r s where step: "scheduler_step (rh_libm h) (rh_engine h) (cr_sim x) = (r, s)" by fastforce
    note ok = step_ok [OF case_inv_simulator [OF Suc.prems(1)] assms(1), of "rh_libm h", unfolded wp_def step]
    show ?thesis
    proof (cases r)
      case (Ok event)
      let ?x = "(with_sim s x)\<lparr>cr_operations := cr_operations x + (if event = None then 0 else 1)\<rparr>"
      have s: "sim_inv kb sh s" "s_tick s = (case event of None \<Rightarrow> start + 1 | Some _ \<Rightarrow> start)" using ok Ok go by (simp_all split: option.splits)
      have x: "case_inv kb sh c ?x" "cr_error ?x = None" "cr_sim ?x = s"
        using case_inv_sim [OF Suc.prems(1) s(1)] Suc.prems(2) by (simp_all add: case_inv_def cr_sim_def with_sim_def)
      obtain q y where pump: "pump_case h thread ?x = (q, y)" by fastforce
      note p = pump_case_ok [OF x(1,2), of h thread, unfolded wp_def pump]
      then obtain b where b: "q = Ok b" "case_inv kb sh c y" "s_tick (cr_sim y) = s_tick s" "cr_operations y = cr_operations ?x"
        "cr_error y = None \<longleftrightarrow> b" using x(3) by (cases q) auto
      have "unat max_operations - unat (cr_operations x + 1) + 2 \<le> fuel" "1 \<le> fuel"
        using go Suc.prems(3) unat_succ_below [of "cr_operations x" max_operations] by (auto simp: word_less_nat_alt)
      then have "b \<Longrightarrow> ?thesis" using Suc.IH [of y] b s(2) step Ok pump go by (cases event) auto
      then show ?thesis using step Ok pump b go by (cases b) auto
    next
      case (Err e)
      then show ?thesis using ok step go case_inv_sim(1) [OF Suc.prems(1), of s] by (auto simp: case_inv_def)
    qed (use ok in simp)
  qed (use Suc.prems in \<open>auto simp: not_less\<close>)
qed simp

lemma round_ok:
  assumes "case_inv kb sh c x" "cr_error x = None" "plain_case c"
  shows "\<exists>y. bind (observe h thread c) (\<lambda>_. evaluate_assertions thread c) x = (Ok (), y) \<and> case_inv kb sh c y \<and>
    s_tick (cr_sim y) = s_tick (cr_sim x) \<and> cr_operations y = cr_operations x"
proof -
  obtain r y where y: "observe h thread c x = (r, y)" by fastforce
  then have o: "r = Ok ()" "case_inv kb sh c y" "s_tick (cr_sim y) = s_tick (cr_sim x)" "cr_operations y = cr_operations x"
    using observe_ok [OF assms(1,2), of h thread] by (cases r; simp add: wp_def)+
  obtain z where z: "evaluate_assertions thread c y = (Ok (), z)" "check_view z = check_view y"
    using assertions_ok [OF o(2) assms(3)] by blast
  then show ?thesis using y o case_inv_check [OF z(2)] by (simp add: bind_def check_view_def cr_sim_def)
qed

lemma case_loop_ok:
  assumes "engine_ok kb sh (rh_engine h)" "plain_case c" "case_inv kb sh c x" "cr_error x = None"
    and "s_tick (cr_sim x) \<le> max_ticks" "1 \<le> fuel"
    and "cr_operations x < max_operations \<Longrightarrow> unat max_ticks - unat (s_tick (cr_sim x)) + 2 \<le> fuel"
  shows "\<exists>y. case_loop h thread c limits max_ticks max_operations fuel round x = Some (Ok (), y) \<and> case_inv kb sh c y"
  using assms(3-)
proof (induction fuel arbitrary: x round)
  case (Suc fuel)
  obtain y where y: "bind (observe h thread c) (\<lambda>_. evaluate_assertions thread c) x = (Ok (), y)" "case_inv kb sh c y"
    "s_tick (cr_sim y) = s_tick (cr_sim x)" "cr_operations y = cr_operations x"
    using round_ok [OF Suc.prems(1,2) assms(2)] by blast
  show ?case
  proof (cases "case_finished max_ticks max_operations y \<or> rh_expired h round")
    case True
    then show ?thesis using y by (auto simp: push_failure_def prog_simps case_inv_def cr_sim_def)
  next
    case False
    then have lt: "s_tick (cr_sim x) < max_ticks" "cr_operations x < max_operations" and err: "cr_error y = None"
      using y(3,4) by (auto simp: case_finished_def not_le)
    obtain z where z: "run_tick h thread max_operations (s_tick (cr_sim y)) (unat max_operations + 2) y = Some (Ok (), z)" "case_inv kb sh c z"
      "cr_error z = None \<longrightarrow> s_tick (cr_sim z) = s_tick (cr_sim y) + 1 \<or> s_tick (cr_sim z) = s_tick (cr_sim y) \<and> max_operations \<le> cr_operations z"
      using run_tick_ok [OF assms(1) y(2) err, of "s_tick (cr_sim y)" max_operations "unat max_operations + 2" thread] by auto
    have "case_loop h thread c limits max_ticks max_operations (Suc fuel) round x =
        (if cr_error z \<noteq> None then Some (Ok (), z) else case_loop h thread c limits max_ticks max_operations fuel (Suc round) z)"
      using y(1) z(1) False by simp
    moreover have next_tick: "unat (s_tick (cr_sim x) + 1) = unat (s_tick (cr_sim x)) + 1"
      by (rule unat_succ_below [OF lt(1)])
    moreover have fuel: "unat max_ticks - unat (s_tick (cr_sim x)) + 1 \<le> fuel" using Suc.prems(5) [OF lt(2)] by simp
    moreover have "s_tick (cr_sim z) \<le> max_ticks" if "cr_error z = None"
      using z(3) that y(3) lt(1) next_tick by (auto simp: word_le_nat_alt word_less_nat_alt)
    moreover have "unat max_ticks - unat (s_tick (cr_sim z)) + 2 \<le> fuel" if "cr_error z = None" "cr_operations z < max_operations"
      using z(3) that y(3) lt(1) next_tick fuel by (auto simp: word_less_nat_alt word_le_nat_alt not_le)
    ultimately show ?thesis using Suc.IH [OF z(2), of "Suc round"] z(2) by auto
  qed
qed simp

declare run_tick.simps [simp del] case_loop.simps [simp del]

subsection \<open>The verdict\<close>

lemma runs_bind_keeps:
  assumes "runs m x" "keeps f m" "\<And>v y. f y = f x \<Longrightarrow> runs (g v) y"
  shows "runs (bind m g) x"
  using assms(3) keepsD [OF assms(2)] by (blast intro: runs_bind assms(1))

lemma keeps_conclude [keeps_rules]:
  "keeps check_view (conclude_error thread c)" "keeps check_view (conclude_eventually thread ia)"
  "keeps check_view (conclude_final thread a)" "keeps check_view (conclude_operations thread max_operations)"
proof -
  show "keeps check_view (conclude_error thread c)" unfolding conclude_error_def by (intro keeps_rules)
  show "keeps check_view (conclude_eventually thread ia)" unfolding conclude_eventually_def Let_def split_beta by (intro keeps_rules)
  show "keeps check_view (conclude_final thread a)" unfolding conclude_final_def Let_def by (intro keeps_rules)
  show "keeps check_view (conclude_operations thread max_operations)" unfolding conclude_operations_def by (intro keeps_rules)
qed

lemma keeps_case_outcome [keeps_rules]:
  "(\<And>x. keeps f (g x)) \<Longrightarrow> (\<And>e. keeps f (k e)) \<Longrightarrow> keeps f m \<Longrightarrow>
   keeps f (case v of Ok x \<Rightarrow> g x | Err e \<Rightarrow> k e | Panic \<Rightarrow> m)"
  by (cases v) simp_all

lemma keeps_snapshot [keeps_rules]: "keeps check_view (conclude_snapshot thread ee)"
  unfolding conclude_snapshot_def split_beta by (intro keeps_rules)

lemma conclude_eventually_runs:
  assumes "sim_inv kb sh (cr_sim x)" "plain_text (expression_or_invalid a)" "i < length (cr_satisfied x)"
  shows "runs (conclude_eventually thread (i, a)) x"
proof -
  obtain t where "displayed (cr_sim x) thread (expression_or_invalid a) = Ok t" using displayed_ok [OF assms(1,2)] by blast
  then show ?thesis using assms(3)
    by (simp add: conclude_eventually_def runs_def wp_def bind_def prog_simps lift_outcome_def push_failure_def Let_def)
qed

lemma conclude_final_runs:
  assumes "sim_inv kb sh (cr_sim x)" "plain_text (expression_or_invalid a)"
  shows "runs (conclude_final thread a) x"
  unfolding conclude_final_def Let_def
  by (intro runs_get runs_matched matched [OF assms] runs_fail [OF assms]) simp

lemma conclude_snapshot_runs:
  assumes "sim_inv kb sh (cr_sim x)" "plain_text e"
  shows "runs (conclude_snapshot thread (e, v)) x"
  using evaluated [OF assms, of thread] by (auto simp: conclude_snapshot_def intro!: runs_get split: outcome.splits)

lemma conclude_case_ok:
  assumes "case_inv kb sh c x" "plain_case c"
  shows "\<exists>y. conclude_case thread c max_ticks max_operations x = (Ok (), y) \<and> check_view y = check_view x"
proof -
  have inv: "sim_inv kb sh (cr_sim y) \<and> length (cr_satisfied y) = length (tc_assertions c)" if "check_view y = check_view x" for y :: "'a case_run"
    using that assms(1) case_inv_check [OF that, of kb sh c] case_inv_simulator [of kb sh c y] by (simp add: case_inv_def)
  have plain: "plain_text (expression_or_invalid a)" if "a \<in> set (tc_assertions c)" for a
    using assms(2) that by (simp add: plain_case_def list_all_iff)
  have e: "runs (conclude_error thread c) y" for y :: "'a case_run"
    unfolding conclude_error_def by (intro runs_get) (auto split: option.splits)
  have ev: "runs (for_each (List.enumerate 0 (tc_assertions c)) (conclude_eventually thread)) y" if "check_view y = check_view x" for y :: "'a case_run"
    by (rule runs_for_each [where f = check_view, OF keeps_conclude(2)])
      (use that inv plain in \<open>auto simp: in_set_enumerate_eq intro!: conclude_eventually_runs\<close>)
  have fin: "runs (for_each (filter is_final_assertion (tc_assertions c)) (conclude_final thread)) y" if "check_view y = check_view x" for y :: "'a case_run"
    by (rule runs_for_each [where f = check_view, OF keeps_conclude(3)])
      (use that inv plain in \<open>auto intro!: conclude_final_runs\<close>)
  have sn: "runs (for_each cells (conclude_snapshot thread)) y" if "check_view y = check_view x" "tc_snapshot c = Some cells" for y :: "'a case_run" and cells
    by (rule runs_for_each [where f = check_view, OF keeps_snapshot])
      (use that inv assms(2) in \<open>auto simp: plain_case_def list_all_iff intro!: conclude_snapshot_runs\<close>)
  have op: "runs (conclude_operations thread max_operations) y" for y :: "'a case_run"
    unfolding conclude_operations_def by (intro runs_get) simp
  have "runs (conclude_case thread c max_ticks max_operations) x"
    unfolding conclude_case_def
    by (rule runs_bind_keeps [where f = check_view], rule e, rule keeps_conclude,
        rule runs_bind_keeps [where f = check_view], erule ev, rule keeps_for_each, rule keeps_conclude,
        rule runs_get, rule runs_bind_keeps [where f = check_view], simp add: fin, intro keeps_rules,
        rule runs_bind_keeps [where f = check_view], rule op, rule keeps_conclude)
      (auto simp: sn split: option.splits)
  moreover have "keeps check_view (conclude_case thread c max_ticks max_operations)"
    unfolding conclude_case_def by (intro keeps_rules)
  ultimately show ?thesis using keepsD [of check_view "conclude_case thread c max_ticks max_operations" x]
    by (cases "conclude_case thread c max_ticks max_operations x"; cases "fst (conclude_case thread c max_ticks max_operations x)")
      (auto simp: runs_def wp_def)
qed

subsection \<open>Starting a case\<close>

lemma wp_lift_outcome: "f s \<noteq> Panic \<Longrightarrow> no_panic (lift_outcome f) s"
  by (cases "f s") (simp_all add: wp_def lift_outcome_def)

lemma wp_bind_total: "no_panic m s \<Longrightarrow> (\<And>x s'. no_panic (f x) s') \<Longrightarrow> no_panic (bind m f) s"
  by (rule wp_bind, erule wp_mono) auto

lemma validate_list_ok:
  assumes "\<And>a u. a \<in> set as \<Longrightarrow> no_panic (validate_action s thread driver rule a) u"
  shows "no_panic (validate_actions s thread driver rule as) u"
  using assms by (induction as arbitrary: u) (auto intro!: wp_bind_total wp_ret)

lemma validate_action_ok:
  assumes "sim_inv kb sh s" "rule < length (dr_rules driver)"
  shows "no_panic (validate_action s thread driver rule a) u"
proof (induction a arbitrary: u)
  case (ActSchedule after as)
  then show ?case by (simp add: validate_list_ok)
qed (auto intro!: wp_bind_total wp_ret wp_with_provenance [OF assms(2)] wp_throw_provenance [OF assms(2)] wp_lift_outcome
  validate_target_ok [OF assms(1)] slot_endpoint_ok(1) [OF assms(1)])

lemma validate_rule_ok:
  assumes "sim_inv kb sh s" "i < length (dr_rules driver)"
  shows "validate_rule s thread driver (i, rule) triggers \<noteq> Panic"
    "validate_rule s thread driver (i, rule) triggers = Ok triggers' \<Longrightarrow> length triggers' = Suc (length triggers)"
proof -
  let ?m = "bind (with_provenance driver i (\<lambda>e. ''invalid trigger target: '' @ e)
      (lift_outcome (\<lambda>_. validate_assignable_target s thread (tr_target (ru_when rule))))) (\<lambda>t.
    bind (validate_actions s thread driver i (ru_actions rule)) (\<lambda>_. ret (triggers @ [t])))"
  have "no_panic ?m ()"
    by (intro wp_bind_total wp_with_provenance [OF assms(2)] wp_lift_outcome validate_target_ok [OF assms(1)] validate_list_ok
      validate_action_ok [OF assms] wp_ret) simp
  then show "validate_rule s thread driver (i, rule) triggers \<noteq> Panic"
    by (cases "?m ()") (auto simp: validate_rule_def wp_def)
  show "validate_rule s thread driver (i, rule) triggers = Ok triggers' \<Longrightarrow> length triggers' = Suc (length triggers)"
    by (auto simp: validate_rule_def bind_def prog_simps split: prod.splits outcome.splits)
qed

lemma validate_rules_ok:
  assumes "sim_inv kb sh s" "n + length rules \<le> length (dr_rules driver)"
  shows "ofold (validate_rule s thread driver) (List.enumerate n rules) triggers \<noteq> Panic"
    "ofold (validate_rule s thread driver) (List.enumerate n rules) triggers = Ok triggers' \<Longrightarrow> length triggers' = length triggers + length rules"
  using assms(2)
proof (induction rules arbitrary: n triggers triggers')
  case (Cons r rules)
  case 1
  then show ?case using Cons.IH(1) [of "Suc n"] validate_rule_ok(1) [OF assms(1), of n] by (auto simp: obind_eq_Panic)
next
  case (Cons r rules)
  case 2
  then obtain t where "validate_rule s thread driver (n, r) triggers = Ok t"
    "ofold (validate_rule s thread driver) (List.enumerate (Suc n) rules) t = Ok triggers'" by (auto simp: obind_eq_Ok)
  then show ?case using Cons.IH(2) [of "Suc n" t triggers'] 2 validate_rule_ok(2) [OF assms(1), of n driver] by fastforce
qed simp_all

lemma length_flat_rules: "length (flat_rules D) = sum_list (map (\<lambda>d. length (dr_rules d)) D)"
proof -
  have "length (concat (map (\<lambda>(d, driver). map (\<lambda>(r, rule). (d, r, rule)) (List.enumerate 0 (dr_rules driver))) (List.enumerate n D))) =
      sum_list (map (\<lambda>d. length (dr_rules d)) D)" for n
    by (induction D arbitrary: n) simp_all
  then show ?thesis by (simp add: flat_rules_def)
qed

lemma validate_targets_ok:
  assumes "sim_inv kb sh s"
  shows "validate_targets s thread D \<noteq> Panic" "validate_targets s thread D = Ok triggers \<Longrightarrow> length triggers = length (flat_rules D)"
proof -
  let ?f = "\<lambda>(i, driver) triggers.
       obind (ofold (validate_rule s thread driver) (List.enumerate 0 (dr_rules driver)) triggers) (\<lambda>triggers.
       if trim (dr_id driver) = [] then Err (''scripted driver #'' @ show_nat (i + 1) @ '' has an empty id'') else Ok triggers)"
  have "ofold ?f (List.enumerate n D) ts \<noteq> Panic \<and> (\<forall>ts'. ofold ?f (List.enumerate n D) ts = Ok ts' \<longrightarrow>
      length ts' = length ts + sum_list (map (\<lambda>d. length (dr_rules d)) D))" for n ts
  proof (induction D arbitrary: n ts)
    case (Cons d D)
    then show ?case using validate_rules_ok [OF assms, of 0 "dr_rules d" d thread ts]
      by (auto simp: obind_eq_Panic obind_eq_Ok split: if_splits)
  qed simp
  from this [of 0 "[]"] show "validate_targets s thread D \<noteq> Panic"
    "validate_targets s thread D = Ok triggers \<Longrightarrow> length triggers = length (flat_rules D)"
    by (simp_all add: validate_targets_def length_flat_rules)
qed

lemma drive_eta: "\<lparr>dx_drivers = dx_drivers x, dx_sim = dx_sim x\<rparr> = x"
  by (cases x) simp

lemma drivers_new_ok:
  assumes "sim_inv kb sh s" "test_driver_state s state_key = None"
  shows "wp (drivers_new codec thread D) (\<lambda>drivers s'. drive_inv kb sh D \<lparr>dx_drivers = drivers, dx_sim = s'\<rparr> \<and>
    actions_run \<lparr>dx_drivers = drivers, dx_sim = s'\<rparr> = 0 \<and> s_tick s' = s_tick s) (\<lambda>_. True) s"
proof -
  let ?s = "set_journaling True s"
  have inv: "sim_inv kb sh ?s" and none: "test_driver_state ?s state_key = None" and tick: "s_tick ?s = s_tick s"
    using sim_inv_journal [OF assms(1)] assms(2) by (simp_all add: set_journaling_def test_driver_state_def)
  consider e where "obind (definition_fingerprint codec D) (\<lambda>f. obind (validate_targets ?s thread D) (\<lambda>ts. Ok (f, ts))) = Err e"
    | f ts where "obind (definition_fingerprint codec D) (\<lambda>f. obind (validate_targets ?s thread D) (\<lambda>ts. Ok (f, ts))) = Ok (f, ts)"
      "length ts = length (flat_rules D)"
    using validate_targets_ok [OF inv, of thread D]
    by (cases "definition_fingerprint codec D"; cases "validate_targets ?s thread D")
      (auto simp: definition_fingerprint_def split: sum.splits)
  then show ?thesis
  proof cases
    case (2 f ts)
    let ?x = "\<lparr>dx_drivers = \<lparr>sd_definitions = D, sd_triggers = ts, sd_fingerprint = f,
      sd_state = default_state\<lparr>pst_write_cursor := j_write_sequence (s_journal ?s)\<rparr>\<rparr>, dx_sim = ?s\<rparr>"
    obtain r x' where p: "persist codec ActorScenario ?x = (r, x')" by fastforce
    have x: "drive_inv kb sh D ?x" "actions_run ?x = 0"
      using inv 2(2) by (simp_all add: drive_inv_def queue_ok_def actions_run_def default_state_def)
    have t: "s_tick (dx_sim x') = s_tick s" using keepsD [OF keeps_persist p] tick by (simp add: drive_tick_def)
    have "drivers_new codec thread D s = (case r of Ok _ \<Rightarrow> Ok (dx_drivers x') | Err e \<Rightarrow> Err e | Panic \<Rightarrow> Panic, dx_sim x')"
      using 2(1) p none
      by (simp add: drivers_new_def Let_def reload_def bind_def prog_simps update_state_def)
    then show ?thesis using persist_ok [OF x(1), of codec ActorScenario] p t x(2)
      by (cases r) (simp_all add: wp_def drive_eta)
  qed (simp add: wp_def drivers_new_def Let_def)
qed

lemma apply_initial_ok:
  assumes "sim_inv kb sh s"
  shows "wp (apply_initial thread initial) (\<lambda>_ s'. sim_inv kb sh s' \<and> setter_frame s' = setter_frame s) (\<lambda>_. True) s"
  unfolding apply_initial_def
proof (rule wp_for_each [where I = "\<lambda>s'. sim_inv kb sh s' \<and> setter_frame s' = setter_frame s"])
  fix tv :: "string \<times> scalar" and s' :: "'a simulator" assume s': "sim_inv kb sh s' \<and> setter_frame s' = setter_frame s"
  obtain target v where tv: "tv = (target, v)" by fastforce
  obtain r t where set: "set_value_as thread target (scalar_or_nan v) ActorScenario s' = (r, t)" by fastforce
  then show "wp (case tv of (target, v) \<Rightarrow> map_prog_err (\<lambda>message. ''invalid initial override `'' @ target @ ''`: '' @ message)
        (set_value thread target (scalar_or_nan v))) (\<lambda>_ s'. sim_inv kb sh s' \<and> setter_frame s' = setter_frame s) (\<lambda>_. True) s'"
    using set_value_safe [OF s' [THEN conjunct1] set] keepsD [OF keeps_set_value set] s'
    by (cases r) (simp_all add: tv wp_def map_prog_err_def set_value_def)
qed (use assms in simp)

lemma start_case_ok:
  assumes "sim_inv kb sh s" "s_driver_state s = bt_empty"
  shows "wp (start_case h thread c) (\<lambda>drivers s'. case_inv kb sh c (initial_run c drivers s') \<and> s_tick s' = s_tick s) (\<lambda>_. True) s"
proof -
  have "wp (drivers_new (rh_codec h) thread (tc_drivers c)) (\<lambda>drivers s'. case_inv kb sh c (initial_run c drivers s') \<and> s_tick s' = s_tick s)
      (\<lambda>_. True) t" if "sim_inv kb sh t" "setter_frame t = setter_frame s" for t
    using that assms(2) by (intro wp_mono [OF drivers_new_ok])
      (auto simp: setter_frame_def test_driver_state_def bt_empty_def bt_get_def case_inv_def initial_run_def)
  then have start: "wp (bind (apply_initial thread (tc_initial c)) (\<lambda>_. drivers_new (rh_codec h) thread (tc_drivers c)))
      (\<lambda>drivers s'. case_inv kb sh c (initial_run c drivers s') \<and> s_tick s' = s_tick s) (\<lambda>_. True) s"
    by (intro wp_bind wp_mono [OF apply_initial_ok [OF assms(1)]]) auto
  show ?thesis unfolding start_case_def
    by (rule wp_bind, rule wp_mono [OF wp_for_each [where I = "\<lambda>s'. s' = s" and E = "\<lambda>_. True"]])
      (use start in \<open>auto intro!: wp_lift_result\<close>)
qed

lemma sim_inv_seed: "sim_inv kb sh s \<Longrightarrow> sim_inv kb sh (set_seed seed s)"
proof -
  assume "sim_inv kb sh s"
  moreover have "adapter_bound (set_seed seed s) a = adapter_bound s a" for a by (cases a) (simp_all add: set_seed_def)
  moreover have "cpu_ok n (c\<lparr>c_random_state := v\<rparr>) = cpu_ok n c" for n c v by (simp add: cpu_ok_def cpu_wf_def cpu_shape_def)
  ultimately show ?thesis by (auto simp: sim_inv_def set_seed_def list_all_iff)
qed

lemma loaded_simulator:
  assumes "load_simulator h scenario_file base roots = Ok s" "env_knowledge (rh_environment h) = Inr kb" "operands_covered kb"
  shows "sim_inv kb (world_shape (s_world s)) (set_seed seed s)" "s_tick (set_seed seed s) = 0" "s_driver_state (set_seed seed s) = bt_empty"
proof -
  obtain sc where sc: "from_scenario (rh_environment h) sc base roots = Ok s"
    using assms(1) by (auto simp: load_simulator_def split: sum.splits)
  then have "s_knowledge s = kb" "s_driver_state s = bt_empty" "s_tick s = 0"
    using assms(2) by (auto simp: from_scenario_def obind_eq_Ok split: if_splits)
  with sc assms(3) show "sim_inv kb (world_shape (s_world s)) (set_seed seed s)" "s_tick (set_seed seed s) = 0"
    "s_driver_state (set_seed seed s) = bt_empty"
    using sim_inv_seed [OF from_scenario_sim_inv [OF sc]] by (simp_all add: set_seed_def)
qed

subsection \<open>What a clean run says\<close>

lemma clean_check:
  assumes "check_assertion thread c (i, a) x = (Ok (), y)" "cr_failures y = []" "assertion_expression a = Inr e"
  shows "cr_failures x = [] \<and> (due_at c a (s_tick (cr_sim x)) \<longrightarrow> holds_in (cr_sim x) thread a) \<and>
    (cr_satisfied y = cr_satisfied x \<or> cr_satisfied y = (cr_satisfied x)[i := True] \<and> holds_in (cr_sim x) thread a)"
  using assms
  by (auto simp: check_assertion_def check_eventually_def check_now_def fail_assertion_def push_failure_def satisfy_def lift_outcome_def
    bind_def prog_simps Let_def due_at_def holds_in_def expression_or_invalid_def expect_def
    split: if_splits outcome.splits bool.splits option.splits prod.splits)

lemma clean_checks:
  assumes "for_each (List.enumerate n as) (check_assertion thread c) x = (Ok (), y)" "cr_failures y = []"
    and "\<And>a. a \<in> set as \<Longrightarrow> \<exists>e. assertion_expression a = Inr e"
  shows "cr_failures x = [] \<and> (\<forall>a \<in> set as. due_at c a (s_tick (cr_sim x)) \<longrightarrow> holds_in (cr_sim x) thread a) \<and>
    (\<forall>k < length (cr_satisfied x). cr_satisfied y ! k \<longrightarrow> cr_satisfied x ! k \<or>
       n \<le> k \<and> k < n + length as \<and> holds_in (cr_sim x) thread (as ! (k - n)))"
  using assms
proof (induction as arbitrary: n x)
  case (Cons a as)
  obtain z where z: "check_assertion thread c (n, a) x = (Ok (), z)" "for_each (List.enumerate (Suc n) as) (check_assertion thread c) z = (Ok (), y)"
    using Cons.prems(1) by (auto simp: bind_def split: prod.splits outcome.splits)
  have sim: "cr_sim z = cr_sim x" and len: "length (cr_satisfied z) = length (cr_satisfied x)"
    using keepsD [OF keeps_check_assertion z(1)] by (simp_all add: check_view_def cr_sim_def)
  note rest = Cons.IH [OF z(2) Cons.prems(2) Cons.prems(3), unfolded sim len]
  obtain e where e: "assertion_expression a = Inr e" using Cons.prems(3) by auto
  have first: "cr_failures x = [] \<and> (due_at c a (s_tick (cr_sim x)) \<longrightarrow> holds_in (cr_sim x) thread a) \<and>
    (cr_satisfied z = cr_satisfied x \<or> cr_satisfied z = (cr_satisfied x)[n := True] \<and> holds_in (cr_sim x) thread a)"
    using clean_check [OF z(1) _ e] rest by simp
  have "cr_satisfied x ! k \<or> n \<le> k \<and> k < n + length (a # as) \<and> holds_in (cr_sim x) thread ((a # as) ! (k - n))"
    if k: "k < length (cr_satisfied x)" "cr_satisfied y ! k" for k
  proof (cases "cr_satisfied z ! k")
    case True
    then show ?thesis using first k(1) by (cases "k = n") auto
  next
    case False
    then have "Suc n \<le> k \<and> k < Suc n + length as \<and> holds_in (cr_sim x) thread (as ! (k - Suc n))" using rest k by auto
    then show ?thesis by (auto simp: nth_Cons' Suc_le_eq)
  qed
  then show ?case using first rest by auto
qed (simp add: prog_simps)

lemma keeps_satisfied: "keeps cr_satisfied (observe h thread c)"
proof -
  have "keeps cr_satisfied (stimulate thread what tv)" for what and tv
    by (auto simp: keeps_def stimulate_def with_sim_def push_failure_def prog_simps split: prod.splits outcome.splits)
  moreover have "keeps cr_satisfied (pump_case h thread)"
    by (auto simp: keeps_def pump_case_def split: prod.splits outcome.splits)
  ultimately show ?thesis unfolding observe_def run_timeline_def by (intro keeps_rules)
qed

lemma run_tick_satisfied: "run_tick h thread max_operations start fuel x = Some (r, y) \<Longrightarrow> cr_satisfied y = cr_satisfied x"
proof (induction fuel arbitrary: x)
  case (Suc fuel)
  have pump: "pump_case h thread z = (q, w) \<Longrightarrow> cr_satisfied w = cr_satisfied z" for z q w
    by (auto simp: pump_case_def split: prod.splits outcome.splits)
  show ?case using Suc.prems Suc.IH
    by (auto simp: run_tick.simps with_sim_def split: if_splits prod.splits outcome.splits bool.splits dest!: pump)
qed (simp add: run_tick.simps)

lemma round_parts:
  assumes "bind (observe h thread c) (\<lambda>_. evaluate_assertions thread c) x = (Ok (), y)"
  obtains z where "observe h thread c x = (Ok (), z)" "evaluate_assertions thread c z = (Ok (), y)" "cr_sim z = cr_sim y"
    "cr_satisfied z = cr_satisfied x" "check_view z = check_view y"
proof -
  obtain z where z: "observe h thread c x = (Ok (), z)" "evaluate_assertions thread c z = (Ok (), y)"
    using assms by (auto simp: bind_def split: prod.splits outcome.splits)
  show thesis using that z keepsD [OF keeps_evaluate_assertions z(2)] keepsD [OF keeps_satisfied z(1)]
    by (simp add: check_view_def cr_sim_def)
qed

lemma observed_cases_round:
  assumes "observed h thread c mt mo round x s" "bind (observe h thread c) (\<lambda>_. evaluate_assertions thread c) x = (Ok (), y)"
  obtains "s = cr_sim y"
  | z where "\<not> case_finished mt mo y" "\<not> rh_expired h round" "cr_error z = None"
      "run_tick h thread mo (s_tick (cr_sim y)) (unat mo + 2) y = Some (Ok (), z)" "observed h thread c mt mo (Suc round) z s"
  using assms(1)
proof cases
  case (now z)
  then show ?thesis using round_parts [OF assms(2)] that(1) by (metis prod.inject)
next
  case (later y' z)
  then show ?thesis using assms(2) that(2) [of z] by auto
qed

lemma clean_run_one:
  assumes "evaluate_assertions thread c x = (Ok (), y)" "cr_failures y = []" "length (cr_satisfied x) = length (tc_assertions c)"
    and "\<forall>a \<in> set (tc_assertions c). \<exists>e. assertion_expression a = Inr e"
  shows "clean_run c thread (\<lambda>s. s = cr_sim x) x y"
  using clean_checks [of 0 "tc_assertions c" thread c x y] assms by (auto simp: evaluate_assertions_def clean_run_def)

lemma clean_run_trans:
  "clean_run c thread P x y \<Longrightarrow> clean_run c thread Q y z \<Longrightarrow> clean_run c thread (\<lambda>s. P s \<or> Q s) x z"
  unfolding clean_run_def by metis

lemma clean_run_cong: "cr_satisfied x' = cr_satisfied x \<Longrightarrow> cr_satisfied y' = cr_satisfied y \<Longrightarrow>
  clean_run c thread P x' y' = clean_run c thread P x y"
  by (simp add: clean_run_def)

lemma clean_round:
  assumes "bind (observe h thread c) (\<lambda>_. evaluate_assertions thread c) x = (Ok (), p)" "case_inv kb sh c x" "cr_error x = None"
    and "\<forall>a \<in> set (tc_assertions c). \<exists>e. assertion_expression a = Inr e"
  shows "case_inv kb sh c p" "s_tick (cr_sim p) = s_tick (cr_sim x)" "observed h thread c mt mo round x (cr_sim p)"
    "cr_failures p = [] \<Longrightarrow> clean_run c thread (\<lambda>s. s = cr_sim p) x p"
proof -
  obtain q where q: "observe h thread c x = (Ok (), q)" "evaluate_assertions thread c q = (Ok (), p)" "cr_sim q = cr_sim p"
    "cr_satisfied q = cr_satisfied x" "check_view q = check_view p" by (rule round_parts [OF assms(1)])
  show "case_inv kb sh c p" "s_tick (cr_sim p) = s_tick (cr_sim x)"
    using observe_ok [OF assms(2,3), of h thread] q(1,3) case_inv_check [OF q(5)] by (simp_all add: wp_def)
  show "observed h thread c mt mo round x (cr_sim p)" using observed.now [OF q(1)] q(3) by simp
  show "cr_failures p = [] \<Longrightarrow> clean_run c thread (\<lambda>s. s = cr_sim p) x p"
    using clean_run_one [OF q(2) _ _ assms(4)] assms(2) q(3,4) by (simp add: case_inv_def clean_run_cong [OF q(4) refl])
qed

lemma observed_last:
  assumes "bind (observe h thread c) (\<lambda>_. evaluate_assertions thread c) x = (Ok (), p)" "case_inv kb sh c x" "cr_error x = None"
    and "\<forall>a \<in> set (tc_assertions c). \<exists>e. assertion_expression a = Inr e"
    and "case_finished mt mo p \<or> (\<exists>z. run_tick h thread mo (s_tick (cr_sim p)) (unat mo + 2) p = Some (Ok (), z) \<and> cr_error z \<noteq> None)"
  shows "observed h thread c mt mo round x = (\<lambda>s. s = cr_sim p)"
  using clean_round(3) [OF assms(1-4)] assms(5)
  by (intro ext iffI) (auto elim!: observed_cases_round [OF _ assms(1)])

lemma observed_more:
  assumes "bind (observe h thread c) (\<lambda>_. evaluate_assertions thread c) x = (Ok (), p)" "case_inv kb sh c x" "cr_error x = None"
    and "\<forall>a \<in> set (tc_assertions c). \<exists>e. assertion_expression a = Inr e"
    and "\<not> case_finished mt mo p" "\<not> rh_expired h round" "cr_error z = None"
    and "run_tick h thread mo (s_tick (cr_sim p)) (unat mo + 2) p = Some (Ok (), z)"
  shows "observed h thread c mt mo round x = (\<lambda>s. s = cr_sim p \<or> observed h thread c mt mo (Suc round) z s)"
  using clean_round(3) [OF assms(1-4)] observed.later [OF assms(1,5,6,8,7)] assms(8)
  by (intro ext iffI) (auto elim!: observed_cases_round [OF _ assms(1)])

lemma clean_loop:
  assumes "engine_ok kb sh (rh_engine h)" "\<forall>a \<in> set (tc_assertions c). \<exists>e. assertion_expression a = Inr e"
    and "case_loop h thread c limits mt mo fuel round x = Some (Ok (), y)" "cr_failures y = []"
    and "case_inv kb sh c x" "cr_error x = None" "s_tick (cr_sim x) \<le> mt"
  shows "clean_run c thread (observed h thread c mt mo round x) x y \<and>
    (cr_error y = None \<longrightarrow> observed h thread c mt mo round x (cr_sim y) \<and> s_tick (cr_sim y) \<le> mt)"
  using assms(3-)
proof (induction fuel arbitrary: round x)
  case (Suc fuel)
  obtain p where p: "bind (observe h thread c) (\<lambda>_. evaluate_assertions thread c) x = (Ok (), p)"
    using Suc.prems(1) by (auto simp: case_loop.simps split: prod.splits outcome.splits)
  note here = p Suc.prems(3,4) assms(2)
  note round = clean_round [OF here] and step = Suc.prems(1) [unfolded case_loop.simps p, simplified]
  consider (finished) "case_finished mt mo p" | (expired) "\<not> case_finished mt mo p" "rh_expired h round"
    | (live) "\<not> case_finished mt mo p" "\<not> rh_expired h round" by blast
  then show ?case
  proof cases
    case finished
    then have "y = p" using step by simp
    then show ?thesis using observed_last [OF here] finished round Suc.prems(2,5) by simp
  next
    case expired
    then show ?thesis using step Suc.prems(2) by (auto simp: push_failure_def prog_simps)
  next
    case live
    then have nf: "cr_failures p = []" "cr_error p = None" "s_tick (cr_sim p) < mt" by (auto simp: case_finished_def not_le)
    obtain z where z: "run_tick h thread mo (s_tick (cr_sim p)) (unat mo + 2) p = Some (Ok (), z)" "case_inv kb sh c z"
      "cr_error z = None \<longrightarrow> s_tick (cr_sim z) = s_tick (cr_sim p) + 1 \<or> s_tick (cr_sim z) = s_tick (cr_sim p)"
      using run_tick_ok [OF assms(1) round(1) nf(2), of "s_tick (cr_sim p)" mo "unat mo + 2" thread] by auto
    note first = round(4) [OF nf(1)] and sat = run_tick_satisfied [OF z(1)]
    show ?thesis
    proof (cases "cr_error z")
      case None
      have "s_tick (cr_sim z) \<le> mt"
        using z(3) None nf(3) unat_succ_below [OF nf(3)] by (auto simp: word_le_nat_alt word_less_nat_alt)
      then have "clean_run c thread (observed h thread c mt mo (Suc round) z) z y \<and>
          (cr_error y = None \<longrightarrow> observed h thread c mt mo (Suc round) z (cr_sim y) \<and> s_tick (cr_sim y) \<le> mt)"
        using Suc.IH [OF _ Suc.prems(2) z(2) None, of "Suc round"] step live z(1) None by auto
      then show ?thesis using clean_run_trans [OF first] clean_run_cong [OF sat refl] observed_more [OF here live None z(1)] by auto
    next
      case (Some e)
      then have "y = z" using step live z(1) by simp
      then show ?thesis using Some first clean_run_cong [OF refl sat] observed_last [OF here] z(1) by auto
    qed
  qed
qed (simp add: case_loop.simps)

lemma clean_for_each:
  assumes "for_each as f x = (Ok (), y)" "cr_failures y = []"
    and "\<And>a u v. f a u = (Ok (), v) \<Longrightarrow> cr_failures v = [] \<Longrightarrow> v = u \<and> P u a"
  shows "y = x \<and> (\<forall>a \<in> set as. P x a)"
  using assms(1)
proof (induction as arbitrary: x)
  case (Cons a as)
  obtain z where z: "f a x = (Ok (), z)" "for_each as f z = (Ok (), y)"
    using Cons.prems(1) by (auto simp: bind_def split: prod.splits outcome.splits)
  then show ?case using Cons.IH [OF z(2)] assms(3) [OF z(1)] assms(2) by auto
qed (simp add: prog_simps)

lemmas conclude_simps = bind_def prog_simps push_failure_def fail_assertion_def lift_outcome_def Let_def expect_def

lemma clean_conclude_steps:
  "conclude_error thread c x = (Ok (), y) \<Longrightarrow> cr_failures y = [] \<Longrightarrow> y = x \<and> (tc_expect_error c = None \<longrightarrow> cr_error x = None)"
  "conclude_eventually thread ia x = (Ok (), y) \<Longrightarrow> cr_failures y = [] \<Longrightarrow>
    y = x \<and> (as_eventually (snd ia) \<noteq> None \<longrightarrow> nth_opt (cr_satisfied x) (fst ia) = Some True)"
  "conclude_final thread a x = (Ok (), y) \<Longrightarrow> cr_failures y = [] \<Longrightarrow> y = x \<and> holds_in (cr_sim x) thread a"
  "conclude_operations thread mo x = (Ok (), y) \<Longrightarrow> cr_failures y = [] \<Longrightarrow> y = x"
  "conclude_snapshot thread ee x = (Ok (), y) \<Longrightarrow> cr_failures y = [] \<Longrightarrow> y = x"
proof -
  show "conclude_error thread c x = (Ok (), y) \<Longrightarrow> cr_failures y = [] \<Longrightarrow> y = x \<and> (tc_expect_error c = None \<longrightarrow> cr_error x = None)"
    by (auto simp: conclude_error_def matches_expected_error_def conclude_simps split: option.splits if_splits)
  show "conclude_eventually thread ia x = (Ok (), y) \<Longrightarrow> cr_failures y = [] \<Longrightarrow>
    y = x \<and> (as_eventually (snd ia) \<noteq> None \<longrightarrow> nth_opt (cr_satisfied x) (fst ia) = Some True)"
    by (cases ia) (auto simp: conclude_eventually_def conclude_simps split: option.splits if_splits outcome.splits)
  show "conclude_final thread a x = (Ok (), y) \<Longrightarrow> cr_failures y = [] \<Longrightarrow> y = x \<and> holds_in (cr_sim x) thread a"
    by (auto simp: conclude_final_def conclude_simps holds_in_def split: outcome.splits bool.splits)
  show "conclude_operations thread mo x = (Ok (), y) \<Longrightarrow> cr_failures y = [] \<Longrightarrow> y = x"
    by (auto simp: conclude_operations_def conclude_simps split: if_splits)
  show "conclude_snapshot thread ee x = (Ok (), y) \<Longrightarrow> cr_failures y = [] \<Longrightarrow> y = x"
    by (auto simp: conclude_snapshot_def conclude_simps split: prod.splits outcome.splits if_splits)
qed

lemma clean_conclude:
  assumes "conclude_case thread c mt mo x = (Ok (), y)" "cr_failures y = []"
  shows "y = x" "tc_expect_error c = None \<Longrightarrow> cr_error x = None"
    "(i, a) \<in> set (List.enumerate 0 (tc_assertions c)) \<Longrightarrow> as_eventually a \<noteq> None \<Longrightarrow> nth_opt (cr_satisfied x) i = Some True"
    "s_tick (cr_sim x) < mt \<Longrightarrow> a \<in> set (tc_assertions c) \<Longrightarrow> is_final_assertion a \<Longrightarrow> holds_in (cr_sim x) thread a"
proof -
  obtain x1 x2 x3 x4 where run: "conclude_error thread c x = (Ok (), x1)"
    "for_each (List.enumerate 0 (tc_assertions c)) (conclude_eventually thread) x1 = (Ok (), x2)"
    "(if s_tick (cr_sim x2) < mt then for_each (filter is_final_assertion (tc_assertions c)) (conclude_final thread) else ret ()) x2 = (Ok (), x3)"
    "conclude_operations thread mo x3 = (Ok (), x4)"
    "(case tc_snapshot c of Some values \<Rightarrow> for_each values (conclude_snapshot thread) | None \<Rightarrow> ret ()) x4 = (Ok (), y)"
    using assms(1) by (auto simp: conclude_case_def bind_eq_Ok gets_def)
  have 5: "y = x4"
  proof (cases "tc_snapshot c")
    case (Some cells)
    then have "for_each cells (conclude_snapshot thread) x4 = (Ok (), y)" using run(5) by simp
    then show ?thesis using clean_for_each [OF _ assms(2), where P = "\<lambda>_ _. True"] clean_conclude_steps(5) by blast
  qed (use run(5) in \<open>simp add: prog_simps\<close>)
  have 4: "x4 = x3" using clean_conclude_steps(4) [OF run(4)] assms(2) 5 by simp
  have 3: "x3 = x2 \<and> (s_tick (cr_sim x2) < mt \<longrightarrow> (\<forall>a \<in> set (filter is_final_assertion (tc_assertions c)). holds_in (cr_sim x2) thread a))"
    using run(3) clean_for_each [of _ "conclude_final thread" x2 x3 "\<lambda>u. holds_in (cr_sim u) thread", OF _ _ clean_conclude_steps(3)] assms(2) 5 4
    by (cases "s_tick (cr_sim x2) < mt") (auto simp: prog_simps)
  have 2: "x2 = x1 \<and> (\<forall>ia \<in> set (List.enumerate 0 (tc_assertions c)). as_eventually (snd ia) \<noteq> None \<longrightarrow> nth_opt (cr_satisfied x1) (fst ia) = Some True)"
    by (rule clean_for_each [OF run(2), where P = "\<lambda>u ia. as_eventually (snd ia) \<noteq> None \<longrightarrow> nth_opt (cr_satisfied u) (fst ia) = Some True"])
      (use assms(2) 5 4 3 in simp, rule clean_conclude_steps(2))
  have 1: "x1 = x \<and> (tc_expect_error c = None \<longrightarrow> cr_error x = None)" using clean_conclude_steps(1) [OF run(1)] assms(2) 5 4 3 2 by simp
  show "y = x" "tc_expect_error c = None \<Longrightarrow> cr_error x = None" using 5 4 3 2 1 by simp_all
  show "(i, a) \<in> set (List.enumerate 0 (tc_assertions c)) \<Longrightarrow> as_eventually a \<noteq> None \<Longrightarrow> nth_opt (cr_satisfied x) i = Some True"
    using 2 1 by auto
  show "s_tick (cr_sim x) < mt \<Longrightarrow> a \<in> set (tc_assertions c) \<Longrightarrow> is_final_assertion a \<Longrightarrow> holds_in (cr_sim x) thread a"
    using 3 2 1 by auto
qed

lemma started_valid:
  assumes "start_case h thread c s = (Ok drivers, s')" "a \<in> set (tc_assertions c)"
  shows "\<exists>e. assertion_expression a = Inr e"
proof -
  have "\<exists>e. assertion_expression a = Inr e" if "for_each as (\<lambda>a. lift_result (map_sum id (\<lambda>_. ()) (assertion_expression a))) s = (Ok (), t)" "a \<in> set as"
    for as and t :: "'a simulator"
    using that
  proof (induction as)
    case (Cons b as)
    then show ?case by (cases "assertion_expression b") (auto simp: bind_def lift_result_def prog_simps)
  qed simp
  then show ?thesis using assms by (auto simp: start_case_def bind_eq_Ok)
qed

lemma plain_is_final:
  "as_eventually a = None \<Longrightarrow> as_always a = None \<Longrightarrow> as_at_tick a = None \<Longrightarrow> assertion_expression a = Inr e \<Longrightarrow> is_final_assertion a"
  by (auto simp: is_final_assertion_def assertion_expression_def map_filter_def split: if_splits)

lemma passed_parts:
  assumes "run_loaded_case h name c scenario_file seed limits s = Some (Ok r)" "rs_status r = StPassed"
  obtains thread drivers s' y z where
    "case_thread scenario_file (set_seed seed s) c = Some thread" "start_case h thread c (set_seed seed s) = (Ok drivers, s')"
    "case_loop h thread c limits (min (tc_max_ticks c) (rl_max_ticks limits)) (min (tc_max_operations c) (rl_max_operations limits))
       (unat (min (tc_max_ticks c) (rl_max_ticks limits)) + 2) 0 (initial_run c drivers s') = Some (Ok (), y)"
    "conclude_case thread c (min (tc_max_ticks c) (rl_max_ticks limits)) (min (tc_max_operations c) (rl_max_operations limits)) y = (Ok (), z)"
    "r = case_verdict name seed s z"
  using assms
  by (auto simp: run_loaded_case_def finish_case_def invalid_case_def failed_case_def Let_def
    split: option.splits outcome.splits prod.splits)

lemma clean_upheld:
  assumes "engine_ok kb sh (rh_engine h)" "\<forall>a \<in> set (tc_assertions c). \<exists>e. assertion_expression a = Inr e"
    and "case_loop h thread c limits mt mo fuel 0 x = Some (Ok (), y)" "conclude_case thread c mt mo y = (Ok (), z)"
    and "cr_failures z = []" "tc_expect_error c = None" "case_inv kb sh c x" "cr_error x = None" "s_tick (cr_sim x) \<le> mt"
    and "cr_satisfied x = replicate (length (tc_assertions c)) False"
  shows "z = y \<and> observed h thread c mt mo 0 x (cr_sim y) \<and>
    (\<forall>a \<in> set (tc_assertions c). is_plain_assertion a \<longrightarrow> s_tick (cr_sim y) < mt \<or> mt = tc_max_ticks c \<longrightarrow> holds_in (cr_sim y) thread a) \<and>
    (\<forall>a \<in> set (tc_assertions c). \<not> is_plain_assertion a \<longrightarrow> upheld (observed h thread c mt mo 0 x) (cr_sim y) thread a)"
proof -
  let ?seen = "observed h thread c mt mo 0 x"
  note final = clean_conclude [OF assms(4,5)]
  note run = clean_loop [OF assms(1-3) assms(5) [unfolded final(1)] assms(7-9)]
  have "cr_error y = None" using final(2) assms(6) by simp
  then have last: "?seen (cr_sim y)" "s_tick (cr_sim y) \<le> mt" using run by blast+
  have due: "holds_in s thread a" if "a \<in> set (tc_assertions c)" "?seen s" "due_at c a (s_tick s)" for a s
    using run that by (auto simp: clean_run_def)
  have "upheld ?seen (cr_sim y) thread a" if a: "a \<in> set (tc_assertions c)" and "\<not> is_plain_assertion a" for a
  proof -
    obtain k where k: "k < length (tc_assertions c)" "a = tc_assertions c ! k" using a by (auto simp: in_set_conv_nth)
    have "\<exists>s. ?seen s \<and> holds_in s thread a" if "as_eventually a \<noteq> None"
    proof -
      have "cr_satisfied y ! k" using final(3) [of k a, OF _ that] k by (simp add: in_set_enumerate_eq nth_opt_eq_Some)
      moreover have "\<not> cr_satisfied x ! k" using assms(10) k(1) by simp
      ultimately show ?thesis using run k by (auto simp: clean_run_def)
    qed
    then show ?thesis using due [OF a] that(2) by (auto simp: upheld_def due_at_def is_plain_assertion_def)
  qed
  moreover have "holds_in (cr_sim y) thread a"
    if a: "a \<in> set (tc_assertions c)" and "is_plain_assertion a" and lim: "s_tick (cr_sim y) < mt \<or> mt = tc_max_ticks c" for a
  proof (cases "s_tick (cr_sim y) < mt")
    case True
    then show ?thesis using final(4) [OF _ a] plain_is_final that(2) assms(2) a by (auto simp: is_plain_assertion_def)
  next
    case False
    then show ?thesis using due [OF a last(1)] that(2) lim last(2) by (simp add: due_at_def is_plain_assertion_def)
  qed
  ultimately show ?thesis using last(1) final(1) by blast
qed

subsection \<open>A case that passes\<close>

lemma idle_persist:
  assumes "idle x"
  shows "\<exists>x'. persist sample_codec actor x = (Ok (), x') \<and> idle x'"
proof -
  let ?s = "(dx_sim x)\<lparr>s_driver_state := bt_insert state_key [] (s_driver_state (dx_sim x))\<rparr>"
  obtain j where "s_note_named state_key (\<lambda>i. j_write_bits actor (TDriverState i)
      (case bt_get (s_driver_state (dx_sim x)) state_key of Some saved \<Rightarrow> stable_bytes_hash saved | None \<Rightarrow> 0) (stable_bytes_hash [])) ?s =
      (Ok (), ?s\<lparr>s_journal := j\<rparr>)" using s_note_named_runs by blast
  then show ?thesis using assms
    by (simp add: persist_def sample_codec_def on_sim_def map_prog_err_def set_test_driver_state_def bind_def prog_simps idle_def)
qed

lemma idle_pump:
  assumes "idle x"
  shows "\<exists>x'. pump sample_codec thread x = (Ok (), x') \<and> idle x'"
proof -
  have flat: "flat_rules [] = []" "triggered_rules s ts [] ws = []" for s :: "'a simulator" and ts ws
    by (simp_all add: flat_rules_def triggered_rules_def map_filter_def)
  let ?x = "x\<lparr>dx_drivers := (dx_drivers x)\<lparr>sd_state := (sd_state (dx_drivers x))\<lparr>pst_pending := []\<rparr>\<rparr>\<rparr>"
  have x: "idle ?x" "sd_definitions (dx_drivers ?x) = []" using assms by (simp_all add: idle_def)
  have "\<exists>y. react_to_writes thread ?x = (Ok (), y) \<and> idle y"
    using x by (cases "j_writes_after (s_journal (dx_sim x)) (pst_write_cursor (sd_state (dx_drivers x))) = []")
      (simp_all add: react_to_writes_def bind_def prog_simps Let_def idle_def flat update_state_def)
  then obtain y where y: "react_to_writes thread ?x = (Ok (), y)" "idle y" by blast
  have "pump sample_codec thread x = bind (react_to_writes thread) (\<lambda>_. persist sample_codec ActorScenario) ?x"
    using assms by (simp add: pump_def bind_def prog_simps Let_def idle_def update_state_def)
  then show ?thesis using idle_persist [OF y(2), of ActorScenario] y(1) by (simp add: bind_def)
qed

lemma idle_start:
  assumes "tc_initial c = []" "tc_drivers c = []" "list_all (\<lambda>a. \<exists>e. assertion_expression a = Inr e) (tc_assertions c)"
  shows "\<exists>drivers s'. start_case sample_host 0 c (set_seed 7 sample_idle) = (Ok drivers, s') \<and> idle \<lparr>dx_drivers = drivers, dx_sim = s'\<rparr>"
proof -
  let ?s = "set_journaling True (set_seed 7 sample_idle)"
  obtain f where f: "definition_fingerprint sample_codec [] = Ok f" by (simp add: definition_fingerprint_def sample_codec_def)
  let ?x = "\<lparr>dx_drivers = \<lparr>sd_definitions = [], sd_triggers = [], sd_fingerprint = f,
      sd_state = default_state\<lparr>pst_write_cursor := j_write_sequence (s_journal ?s)\<rparr>\<rparr>, dx_sim = ?s\<rparr>"
  have "idle ?x" by (simp add: idle_def default_state_def sample_idle_def sample_sim_def set_journaling_def set_seed_def)
  then obtain x' where x': "persist sample_codec ActorScenario ?x = (Ok (), x')" "idle x'" using idle_persist by blast
  have "for_each as (\<lambda>a. lift_result (map_sum id (\<lambda>_. ()) (assertion_expression a))) s = (Ok (), s)"
    if "list_all (\<lambda>a. \<exists>e. assertion_expression a = Inr e) as" for as and s :: "unit simulator"
    using that by (induction as) (auto simp: bind_def prog_simps lift_result_def)
  moreover have "drivers_new sample_codec 0 [] (set_seed 7 sample_idle) = (Ok (dx_drivers x'), dx_sim x')"
    using x'(1) f by (simp add: drivers_new_def Let_def validate_targets_def reload_def bind_def prog_simps update_state_def
      test_driver_state_def set_journaling_def set_seed_def sample_idle_def sample_sim_def bt_get_def)
  ultimately show ?thesis using x'(2) assms
    by (simp add: start_case_def apply_initial_def bind_def sample_host_def prog_simps drive_eta)
qed

lemma idle_case:
  assumes "tc_initial c = []" "tc_drivers c = []" "list_all (\<lambda>a. \<exists>e. assertion_expression a = Inr e) (tc_assertions c)" "tc_timeline c = []"
  obtains drivers s' d where "start_case sample_host 0 c (set_seed 7 sample_idle) = (Ok drivers, s')" "idle d"
    "observe sample_host 0 c (initial_run c drivers s') = (Ok (), (initial_run c drivers s')\<lparr>cr_drive := d\<rparr>)"
proof -
  obtain drivers s' where start: "start_case sample_host 0 c (set_seed 7 sample_idle) = (Ok drivers, s')"
    and idle: "idle \<lparr>dx_drivers = drivers, dx_sim = s'\<rparr>" using idle_start [OF assms(1-3)] by blast
  let ?x = "initial_run c drivers s'"
  obtain d where d: "pump sample_codec 0 (cr_drive ?x) = (Ok (), d)" "idle d" using idle_pump [OF idle] by (auto simp: initial_run_def)
  then have "observe sample_host 0 c ?x = (Ok (), ?x\<lparr>cr_drive := d\<rparr>)"
    by (simp add: observe_def run_timeline_def pump_case_def assms(4) sample_host_def bind_def prog_simps)
  then show thesis using that start d(2) by blast
qed

lemma true_matches:
  assumes "s_cpus s \<noteq> []" "as_expected a = None"
  shows "assertion_matches s 0 a ''true'' = Ok True"
proof -
  have "trim ''true'' = ''true''" "validate_delimiters ''true'' = Ok ()" "trim_outer ''true'' = ''true''"
    "first_split operator_levels ''true'' = Ok None" "strip_prefix ''!'' ''true'' = None" "strip_prefix ''+'' ''true'' = None"
    "strip_prefix ''-'' ''true'' = None" "function_call ''true'' = None" by code_simp+
  moreover obtain c where "nth_opt (s_cpus s) 0 = Some c" using assms(1) by (cases "s_cpus s") (simp_all add: nth_opt_def)
  ultimately show ?thesis using assms(2)
    by (simp add: assertion_matches_def evaluate_def evaluate_with_changed_def Let_def evaluate_inner.simps [of _ _ _ "''true''"] eval_atom_def
      o_ok_or_def)
qed

lemma sample_assertions:
  assumes "idle (cr_drive x)" "cr_satisfied x = [False, False, False]"
  shows "evaluate_assertions 0 sample_case x = (Ok (), x\<lparr>cr_satisfied := [False, True, True]\<rparr>)"
proof -
  have "s_cpus (cr_sim x) \<noteq> []" "s_tick (cr_sim x) = 2" "\<And>flags. cr_sim (x\<lparr>cr_satisfied := flags\<rparr>) = cr_sim x"
    using assms(1) by (simp_all add: idle_def cr_sim_def)
  then show ?thesis using assms(2)
    by (simp add: evaluate_assertions_def sample_case_def empty_assertion_def check_assertion_def check_now_def check_eventually_def
      assertion_expression_def map_filter_def bind_def prog_simps satisfy_def Let_def true_matches)
qed

lemma sample_concludes:
  assumes "idle (cr_drive x)" "cr_satisfied x = [False, True, True]" "cr_error x = None" "cr_operations x = 0"
  shows "conclude_case 0 sample_case 3 10 x = (Ok (), x)"
proof -
  have "s_cpus (cr_sim x) \<noteq> []" "s_tick (cr_sim x) = 2" using assms(1) by (simp_all add: idle_def cr_sim_def)
  then show ?thesis using assms(2-)
    by (simp add: true_matches conclude_case_def conclude_error_def conclude_eventually_def conclude_final_def conclude_operations_def sample_case_def
      empty_assertion_def assertion_expression_def expression_or_invalid_def is_final_assertion_def map_filter_def bind_def prog_simps
      Let_def)
qed

lemmas sample_case_simps = sample_case_def unmet_case_def empty_assertion_def assertion_expression_def map_filter_def

lemma sample_passes:
  "\<exists>r. run_loaded_case sample_host ''t'' sample_case (Inl []) 7 sample_limits sample_idle = Some (Ok r) \<and> rs_status r = StPassed"
proof -
  obtain drivers s' d where start: "start_case sample_host 0 sample_case (set_seed 7 sample_idle) = (Ok drivers, s')" and d: "idle d"
    and seen: "observe sample_host 0 sample_case (initial_run sample_case drivers s') = (Ok (), (initial_run sample_case drivers s')\<lparr>cr_drive := d\<rparr>)"
    by (rule idle_case [of sample_case]) (simp_all add: sample_case_simps)
  let ?y = "(initial_run sample_case drivers s')\<lparr>cr_drive := d\<rparr>" let ?z = "?y\<lparr>cr_satisfied := [False, True, True]\<rparr>"
  have "evaluate_assertions 0 sample_case ?y = (Ok (), ?z)"
    using d by (intro sample_assertions) (simp_all add: initial_run_def sample_case_def numeral_3_eq_3)
  moreover have "case_finished 3 10 ?z"
    using d by (simp add: case_finished_def cr_sim_def idle_def sim_is_finished_def has_pending_def)
  ultimately have "case_loop sample_host 0 sample_case sample_limits 3 10 (unat (3 :: u64) + 2) 0 (initial_run sample_case drivers s') = Some (Ok (), ?z)"
    using seen by (simp add: case_loop.simps(2) [of _ _ _ _ _ _ 4, simplified] bind_def)
  moreover have "conclude_case 0 sample_case 3 10 ?z = (Ok (), ?z)"
    using d by (intro sample_concludes) (simp_all add: initial_run_def)
  moreover have "tc_program sample_case = None" "min (tc_max_ticks sample_case) (rl_max_ticks sample_limits) = 3"
    "min (tc_max_operations sample_case) (rl_max_operations sample_limits) = 10" by (simp_all add: sample_case_def sample_limits_def)
  ultimately have "run_loaded_case sample_host ''t'' sample_case (Inl []) 7 sample_limits sample_idle = Some (Ok (case_verdict ''t'' 7 sample_idle ?z))"
    using start by (simp add: run_loaded_case_def case_thread_def finish_case_def)
  then show ?thesis by (simp add: case_verdict_def initial_run_def)
qed

text \<open>
  A limit below the ticks of the case: the loop ends at the limit, where plain assertions are not yet due, and the final
  check is only made before the limit. The case passes with an assertion that is false.
\<close>

lemma lowered_limit_skips_assertions:
  "\<exists>r. run_loaded_case sample_host ''t'' unmet_case (Inl []) 7 (sample_limits\<lparr>rl_max_ticks := 2\<rparr>) sample_idle = Some (Ok r) \<and> rs_status r = StPassed"
proof -
  obtain drivers s' d where start: "start_case sample_host 0 unmet_case (set_seed 7 sample_idle) = (Ok drivers, s')" and d: "idle d"
    and seen: "observe sample_host 0 unmet_case (initial_run unmet_case drivers s') = (Ok (), (initial_run unmet_case drivers s')\<lparr>cr_drive := d\<rparr>)"
    by (rule idle_case [of unmet_case]) (simp_all add: sample_case_simps)
  let ?l = "sample_limits\<lparr>rl_max_ticks := 2\<rparr>"
  let ?y = "(initial_run unmet_case drivers s')\<lparr>cr_drive := d\<rparr>"
  have tick: "s_tick (cr_sim ?y) = 2" using d by (simp add: cr_sim_def idle_def)
  have "evaluate_assertions 0 unmet_case ?y = (Ok (), ?y)"
    using tick by (simp add: evaluate_assertions_def sample_case_simps check_assertion_def bind_def prog_simps)
  moreover have "case_finished 2 10 ?y" using tick by (simp add: case_finished_def)
  ultimately have "case_loop sample_host 0 unmet_case ?l 2 10 (unat (2 :: u64) + 2) 0 (initial_run unmet_case drivers s') = Some (Ok (), ?y)"
    using seen by (simp add: case_loop.simps(2) [of _ _ _ _ _ _ 3, simplified] bind_def)
  moreover have "conclude_case 0 unmet_case 2 10 ?y = (Ok (), ?y)"
    using tick by (simp add: conclude_case_def conclude_error_def conclude_eventually_def conclude_operations_def sample_case_simps bind_def
      prog_simps Let_def initial_run_def)
  moreover have "tc_program unmet_case = None" "min (tc_max_ticks unmet_case) (rl_max_ticks ?l) = 2"
    "min (tc_max_operations unmet_case) (rl_max_operations ?l) = 10" by (simp_all add: sample_case_simps sample_limits_def)
  ultimately have "run_loaded_case sample_host ''t'' unmet_case (Inl []) 7 ?l sample_idle = Some (Ok (case_verdict ''t'' 7 sample_idle ?y))"
    using start by (simp add: run_loaded_case_def case_thread_def finish_case_def)
  then show ?thesis by (simp add: case_verdict_def initial_run_def)
qed

section \<open>Properties\<close>

text \<open>C5: Every test case gets a verdict: whatever its stimuli, drivers and assertions, with plain expressions and an
  environment that keeps its promises, loading, running and concluding it ends without a panic, and the loop over
  ticks ends within the rounds allowed by its tick limit.\<close>

theorem case_gets_verdict:
  assumes "env_knowledge (rh_environment h) = Inr kb" "operands_covered kb" "\<And>sh. engine_ok kb sh (rh_engine h)"
    and "plain_case c" "\<And>sc. scenario_file = Inr sc \<Longrightarrow> length (sc_devices sc) < 2 ^ 32"
  shows "\<exists>r. run_scenario_case h name c scenario_file base seed limits roots = Some (Ok r)"
proof -
  let ?mt = "min (tc_max_ticks c) (rl_max_ticks limits)" let ?mo = "min (tc_max_operations c) (rl_max_operations limits)"
  have load: "load_simulator h scenario_file base roots \<noteq> Panic"
    using from_scenario_ok [OF assms(5) assms(1,2)] by (auto simp: load_simulator_def split: sum.splits)
  have "\<exists>r. finish_case name seed thread c ?mt ?mo s (case_loop h thread c limits ?mt ?mo (unat ?mt + 2) 0 (initial_run c drivers s')) = Some (Ok r)"
    if s: "load_simulator h scenario_file base roots = Ok s" and start: "start_case h thread c (set_seed seed s) = (Ok drivers, s')"
    for s thread drivers s'
  proof -
    note loaded = loaded_simulator [OF s assms(1,2), of seed]
    have x: "case_inv kb (world_shape (s_world s)) c (initial_run c drivers s')" "s_tick s' = 0"
      using start_case_ok [OF loaded(1,3), of h thread c] start loaded(2) by (simp_all add: wp_def)
    have fresh: "cr_error (initial_run c drivers s') = None" "s_tick (cr_sim (initial_run c drivers s')) = 0"
      using x(2) by (simp_all add: initial_run_def cr_sim_def)
    obtain y where y: "case_loop h thread c limits ?mt ?mo (unat ?mt + 2) 0 (initial_run c drivers s') = Some (Ok (), y)"
      "case_inv kb (world_shape (s_world s)) c y"
      using case_loop_ok [OF assms(3,4) x(1), where max_ticks = ?mt and fuel = "unat ?mt + 2" and max_operations = ?mo and round = 0] fresh
      by fastforce
    then show ?thesis using conclude_case_ok [OF y(2) assms(4), of thread ?mt ?mo] by (auto simp: finish_case_def)
  qed
  note finished = this
  have started: "fst (start_case h thread c (set_seed seed s)) \<noteq> Panic" if "load_simulator h scenario_file base roots = Ok s" for thread s
    using start_case_ok [OF loaded_simulator(1,3) [OF that assms(1,2), of seed], of h thread c] by (auto simp: wp_def split: prod.splits outcome.splits)
  show ?thesis
  proof (cases "load_simulator h scenario_file base roots")
    case (Ok s)
    then show ?thesis using started [OF Ok] finished [OF Ok]
      by (auto simp: run_scenario_case_def run_loaded_case_def Let_def split: option.split outcome.split prod.split) (metis fst_conv)+
  qed (use load in \<open>auto simp: run_scenario_case_def split: option.split\<close>)
qed

theorem case_gets_verdict_witness:
  "\<exists>r. run_scenario_case sample_host ''t'' sample_case (Inr sample_load_scenario) '''' 7 sample_limits [] = Some (Ok r)"
proof -
  have "plain_case sample_case" by code_simp
  moreover have "env_knowledge (rh_environment sample_host) = Inr analysis_kb" by (simp add: sample_host_def sample_environment_def)
  moreover have "engine_ok analysis_kb sh (rh_engine sample_host)" for sh using sample_engine_ok by (simp add: sample_host_def)
  ultimately show ?thesis using analysis_kb_covered
    by (intro case_gets_verdict) (auto simp: sample_load_scenario_def)
qed

text \<open>C4: A case passes only if its assertions were upheld: when a case that expects no error passes, every invariant held
  whenever the run observed the simulator, every assertion about a tick held whenever that tick was observed, every eventual
  assertion held at some observation, and every plain assertion holds of the last one, with one exception: the plain
  assertions are not claimed when the limits of the run are below the ticks of the case and the run reached that limit
  (the code then skips them).\<close>

theorem passed_case_sound:
  assumes "run_loaded_case h name c scenario_file seed limits s = Some (Ok r)" "rs_status r = StPassed" "tc_expect_error c = None"
    and "sim_inv kb sh s" "engine_ok kb sh (rh_engine h)" "s_tick s \<le> min (tc_max_ticks c) (rl_max_ticks limits)" "s_driver_state s = bt_empty"
  shows "\<exists>thread x final. case_started h c scenario_file seed s thread x \<and>
    (let seen = observed h thread c (min (tc_max_ticks c) (rl_max_ticks limits)) (min (tc_max_operations c) (rl_max_operations limits)) 0 x
     in seen final \<and> s_tick final = rs_ticks r \<and>
        list_all (\<lambda>a. upheld seen final thread a \<or> is_plain_assertion a \<and> cut_short limits c r) (tc_assertions c))"
proof -
  let ?mt = "min (tc_max_ticks c) (rl_max_ticks limits)" let ?mo = "min (tc_max_operations c) (rl_max_operations limits)"
  obtain thread drivers s' y z where thread: "case_thread scenario_file (set_seed seed s) c = Some thread"
    and start: "start_case h thread c (set_seed seed s) = (Ok drivers, s')"
    and loop: "case_loop h thread c limits ?mt ?mo (unat ?mt + 2) 0 (initial_run c drivers s') = Some (Ok (), y)"
    and conclude: "conclude_case thread c ?mt ?mo y = (Ok (), z)" and r: "r = case_verdict name seed s z"
    by (rule passed_parts [OF assms(1,2)])
  let ?x = "initial_run c drivers s'"
  have clean: "cr_failures z = []" using assms(2) r by (auto simp: case_verdict_def split: if_splits)
  have inv: "case_inv kb sh c ?x" "s_tick s' = s_tick s"
    using start_case_ok [OF sim_inv_seed [OF assms(4)], of seed h thread c] start assms(7) by (simp_all add: wp_def set_seed_def)
  have "\<forall>a \<in> set (tc_assertions c). \<exists>e. assertion_expression a = Inr e" using started_valid [OF start] by blast
  note upheld = clean_upheld [OF assms(5) this loop conclude clean assms(3) inv(1)]
  then have run: "z = y" "observed h thread c ?mt ?mo 0 ?x (cr_sim y)"
    "\<And>a. a \<in> set (tc_assertions c) \<Longrightarrow> is_plain_assertion a \<Longrightarrow> s_tick (cr_sim y) < ?mt \<or> ?mt = tc_max_ticks c \<Longrightarrow> holds_in (cr_sim y) thread a"
    "\<And>a. a \<in> set (tc_assertions c) \<Longrightarrow> \<not> is_plain_assertion a \<Longrightarrow> upheld (observed h thread c ?mt ?mo 0 ?x) (cr_sim y) thread a"
    using assms(6) inv(2) by (simp_all add: initial_run_def cr_sim_def)
  have ticks: "s_tick (cr_sim y) = rs_ticks r" using r run(1) by (simp add: case_verdict_def)
  have "upheld (observed h thread c ?mt ?mo 0 ?x) (cr_sim y) thread a \<or> is_plain_assertion a \<and> cut_short limits c r"
    if a: "a \<in> set (tc_assertions c)" for a
  proof (cases "is_plain_assertion a \<and> \<not> cut_short limits c r")
    case True
    then have "s_tick (cr_sim y) < ?mt \<or> ?mt = tc_max_ticks c" using ticks by (auto simp: cut_short_def min_def not_le not_less)
    then show ?thesis using run(3) [OF a] True by (simp add: upheld_def is_plain_assertion_def)
  qed (use run(4) [OF a] in blast)
  then show ?thesis using thread start run(2) ticks
    by (intro exI [of _ thread] exI [of _ ?x] exI [of _ "cr_sim y"]) (simp add: case_started_def list_all_iff)
qed

theorem passed_case_sound_witness:
  "\<exists>thread x final r. case_started sample_host sample_case (Inl []) 7 sample_idle thread x \<and> \<not> cut_short sample_limits sample_case r \<and>
    (let seen = observed sample_host thread sample_case 3 10 0 x
     in seen final \<and> list_all (\<lambda>a. upheld seen final thread a \<or> is_plain_assertion a \<and> cut_short sample_limits sample_case r) (tc_assertions sample_case))"
proof -
  obtain r where r: "run_loaded_case sample_host ''t'' sample_case (Inl []) 7 sample_limits sample_idle = Some (Ok r)" "rs_status r = StPassed"
    using sample_passes by blast
  have "sim_inv sample_kb (world_shape sample_world) sample_idle" "s_driver_state sample_idle = bt_empty" "s_tick sample_idle \<le> 3"
    using sample_sim_inv by (simp_all add: sample_idle_def sim_inv_def) (simp_all add: sample_sim_def bt_empty_def)
  moreover have "\<not> cut_short sample_limits sample_case r" by (simp add: cut_short_def sample_case_def sample_limits_def)
  ultimately show ?thesis using passed_case_sound [OF r, of sample_kb "world_shape sample_world"] sample_engine_ok
    by (fastforce simp: sample_case_def sample_limits_def sample_host_def Let_def)
qed

end
