(* ===== verification/Debug_History.thy ===== *)
theory Debug_History
  imports Simulator_Tools Scheduler
begin

text \<open>
  The reversible history of the debug adapter, \<open>TraceHistory\<close> of \<open>crates/ic10-dap/src/main.rs\<close>: recorded steps with
  checkpoints of the simulator between them, bounded in number and in memory, and the replay that restores an earlier
  state. Sizes of allocations are an argument, the record \<open>layout\<close>.
\<close>

section \<open>Events\<close>

type_synonym u16 = "16 word"

definition event_instruction :: u16 where "event_instruction = 1"
definition event_tick :: u16 where "event_tick = 2"
definition event_yield :: u16 where "event_yield = 4"
definition event_sleep :: u16 where "event_sleep = 8"
definition event_error :: u16 where "event_error = 16"
definition event_halt :: u16 where "event_halt = 32"
definition event_breakpoint :: u16 where "event_breakpoint = 64"
definition event_data_breakpoint :: u16 where "event_data_breakpoint = 128"
definition event_exception :: u16 where "event_exception = 256"
definition event_assertion :: u16 where "event_assertion = 512"
definition event_stimulus :: u16 where "event_stimulus = 1024"
definition event_debugger :: u16 where "event_debugger = 2048"

unbundle bit_operations_syntax

definition event_table :: "(string \<times> u16) list" where
  "event_table =
     [(''instruction'', event_instruction), (''tick'', event_tick), (''yield'', event_yield), (''sleep'', event_sleep),
      (''error'', event_error), (''halt'', event_halt), (''breakpoint'', event_breakpoint),
      (''data breakpoint'', event_data_breakpoint), (''exception'', event_exception), (''assertion'', event_assertion),
      (''stimulus'', event_stimulus), (''debugger'', event_debugger)]"

definition event_flag :: "string \<Rightarrow> u16" where
  "event_flag name = (case map_of event_table name of Some flag \<Rightarrow> flag | None \<Rightarrow> 0)"

definition event_names :: "u16 \<Rightarrow> string list" where
  "event_names flags = map fst (filter (\<lambda>(_, flag). flags AND flag \<noteq> 0) event_table)"

section \<open>Data\<close>

datatype replay_action = RaScheduled | RaInstruction usize | RaWorldTick | RaExternal | RaStop

record trace_record =
  te_sequence :: u64
  te_tick :: u64
  te_cpu :: usize
  te_replay_line :: usize
  te_line :: usize
  te_source_id :: u32
  te_action :: replay_action
  te_event_flags :: u16
  te_effects :: effect_batch
  te_error :: "string option"
  te_state_hash :: u64

record trace_checkpoint =
  ck_sequence :: u64
  ck_snapshot :: simulator_snapshot
  ck_bytes :: usize

record trace_history =
  th_max_events :: usize
  th_max_memory_bytes :: usize
  th_checkpoint_interval :: usize
  th_records :: "trace_record list"
  th_checkpoints :: "trace_checkpoint list"
  th_cursor :: u64
  th_next_sequence :: u64
  th_dropped :: u64
  th_sources :: "string list"
  th_memory_estimate :: usize

text \<open>
  What the standard library and the compiler decide: the capacity of a string and of a vector, the sizes of
  two structures, and the length of the debug representation of the behaviours.
\<close>

record layout =
  ly_text :: "string \<Rightarrow> nat"
  ly_vec :: "nat \<Rightarrow> nat"
  ly_read_size :: nat
  ly_write_size :: nat
  ly_string_size :: nat
  ly_behaviours :: "behaviour_runtime \<Rightarrow> nat"

record 'vm debug_host =
  dh_libm :: libm
  dh_engine :: "'vm lua_engine"
  dh_step_text :: "sim_error \<Rightarrow> string"
  dh_fault_text :: "exec_error \<Rightarrow> string"
  dh_normalize_path :: "string \<Rightarrow> string"
  dh_layout :: layout

definition usize_add :: "usize \<Rightarrow> usize \<Rightarrow> usize" where
  "usize_add a b = min (a + b) usize_max"

definition usize_mul :: "usize \<Rightarrow> usize \<Rightarrow> usize" where
  "usize_mul a b = min (a * b) usize_max"

definition sim_hash :: "'vm debug_host \<Rightarrow> 'vm simulator \<Rightarrow> u64" where
  "sim_hash host s = state_hash (dh_step_text host) (dh_fault_text host) s"

section \<open>Memory estimates\<close>

definition cpu_estimate :: "'vm debug_host \<Rightarrow> cpu \<Rightarrow> nat" where
  "cpu_estimate host c =
     (register_count + ly_vec (dh_layout host) (length (c_stack c))) * 8 +
     (case c_error c of Some e \<Rightarrow> ly_text (dh_layout host) (dh_fault_text host e) | None \<Rightarrow> 0)"

definition network_estimate :: "layout \<Rightarrow> network \<Rightarrow> nat" where
  "network_estimate ly n = 256 + ly_text ly (nw_id n) + ly_text ly (nw_kind n) + ly_text ly (nw_cable_role n)"

definition device_estimate :: "layout \<Rightarrow> device \<Rightarrow> nat" where
  "device_estimate ly d =
     512 + ly_text ly (dv_id d) + ly_text ly (dv_prefab d) + ly_text ly (dv_name d) + ly_vec ly (length (dv_memory d)) * 8 +
     sum_list (map (\<lambda>(k, _). 64 + ly_text ly k) (dv_fields d)) +
     sum_list (map (\<lambda>(_, fs). sum_list (map (\<lambda>(k, _). 80 + ly_text ly k) fs)) (dv_slots d)) +
     length (dv_connections d) * 64"

definition estimate_snapshot_bytes :: "'vm debug_host \<Rightarrow> 'vm simulator \<Rightarrow> usize" where
  "estimate_snapshot_bytes host s =
     usize_mul
       (8 * 1024 + sum_list (map (cpu_estimate host) (s_cpus s)) +
        sum_list (map (network_estimate (dh_layout host)) (w_networks (s_world s))) +
        sum_list (map (device_estimate (dh_layout host)) (w_devices (s_world s))) +
        (ly_behaviours (dh_layout host) (s_behaviours s) * 2 + 4096) +
        (case test_driver_state s ''scenario.scripted'' of Some state \<Rightarrow> length state * 2 + 256 | None \<Rightarrow> 0)) 2"

definition record_bytes :: "layout \<Rightarrow> trace_record \<Rightarrow> usize" where
  "record_bytes ly r =
     96 + ly_vec ly (length (eb_reads (te_effects r))) * ly_read_size ly +
     ly_vec ly (length (eb_writes (te_effects r))) * ly_write_size ly +
     (case te_error r of Some e \<Rightarrow> ly_text ly e | None \<Rightarrow> 0)"

definition checkpoint_bytes :: "trace_history \<Rightarrow> usize" where
  "checkpoint_bytes h = (if th_checkpoints h = [] then 0 else ck_bytes (last (th_checkpoints h)))"

definition recompute_memory_estimate :: "layout \<Rightarrow> trace_history \<Rightarrow> trace_history" where
  "recompute_memory_estimate ly h =
     h\<lparr>th_memory_estimate :=
        usize_add (usize_add (sum_list (map (record_bytes ly) (th_records h))) (sum_list (map ck_bytes (th_checkpoints h))))
          (sum_list (map (\<lambda>source. ly_string_size ly + ly_text ly source) (th_sources h)))\<rparr>"

section \<open>Recording\<close>

definition take_checkpoint :: "'vm debug_host \<Rightarrow> 'vm simulator \<Rightarrow> u64 \<Rightarrow> (sim_error, trace_checkpoint) outcome" where
  "take_checkpoint host s sequence =
     obind (fst (sim_snapshot s)) (\<lambda>snap.
     Ok \<lparr>ck_sequence = sequence, ck_snapshot = snap, ck_bytes = estimate_snapshot_bytes host s\<rparr>)"

definition push_checkpoint :: "'vm debug_host \<Rightarrow> 'vm simulator \<Rightarrow> u64 \<Rightarrow> trace_history \<Rightarrow> (sim_error, trace_history) outcome" where
  "push_checkpoint host s sequence h =
     obind (take_checkpoint host s sequence) (\<lambda>ck. Ok (h\<lparr>th_checkpoints := th_checkpoints h @ [ck]\<rparr>))"

definition history_new :: "'vm debug_host \<Rightarrow> 'vm simulator \<Rightarrow> usize \<Rightarrow> usize \<Rightarrow> usize \<Rightarrow> (sim_error, trace_history) outcome" where
  "history_new host s max_events checkpoint_interval memory_mib =
     obind (take_checkpoint host s 0) (\<lambda>ck.
     Ok \<lparr>th_max_events = max max_events 2, th_max_memory_bytes = usize_mul (max memory_mib 1) (1024 * 1024),
         th_checkpoint_interval = min (max checkpoint_interval 1) (max max_events 2), th_records = [],
         th_checkpoints = [ck], th_cursor = 0, th_next_sequence = 1, th_dropped = 0,
         th_sources = map (\<lambda>c. dh_normalize_path host (p_debug_source_path (c_program c))) (s_cpus s),
         th_memory_estimate = ck_bytes ck\<rparr>)"

text \<open>The two loops of \<open>drop_through\<close>.\<close>

fun drop_records :: "u64 \<Rightarrow> trace_record list \<Rightarrow> u64 \<Rightarrow> trace_record list \<times> u64" where
  "drop_records baseline [] dropped = ([], dropped)"
| "drop_records baseline (r # rs) dropped =
     (if te_sequence r \<le> baseline then drop_records baseline rs (dropped + 1) else (r # rs, dropped))"

fun drop_checkpoints :: "u64 \<Rightarrow> trace_checkpoint list \<Rightarrow> trace_checkpoint list" where
  "drop_checkpoints baseline (a # b # cs) =
     (if ck_sequence b \<le> baseline then drop_checkpoints baseline (b # cs) else a # b # cs)"
| "drop_checkpoints baseline cs = cs"

definition drop_through :: "u64 \<Rightarrow> trace_history \<Rightarrow> trace_history" where
  "drop_through baseline h =
     (let (records, dropped) = drop_records baseline (th_records h) (th_dropped h)
      in h\<lparr>th_records := records, th_dropped := dropped, th_checkpoints := drop_checkpoints baseline (th_checkpoints h)\<rparr>)"

text \<open>Recording after a restore forgets the abandoned future.\<close>

definition forget_future :: "layout \<Rightarrow> trace_history \<Rightarrow> trace_history" where
  "forget_future ly h =
     (if th_cursor h + 1 < th_next_sequence h then
        recompute_memory_estimate ly
          (h\<lparr>th_records := filter (\<lambda>r. te_sequence r \<le> th_cursor h) (th_records h),
             th_checkpoints := filter (\<lambda>c. ck_sequence c \<le> th_cursor h) (th_checkpoints h),
             th_next_sequence := th_cursor h + 1\<rparr>)
      else h)"

definition record_flags :: "trace_record list \<Rightarrow> 'vm simulator \<Rightarrow> usize \<Rightarrow> usize \<Rightarrow> u16" where
  "record_flags records s i line =
     event_instruction OR
     (if records \<noteq> [] \<and> te_tick (last records) \<noteq> s_tick s then event_tick else 0) OR
     (case nth_opt (s_cpus s) i of
        None \<Rightarrow> 0
      | Some c \<Rightarrow>
          (case bt_get (p_operations (c_program c)) line of
             Some op \<Rightarrow> if o_mnemonic op = ''yield'' then event_yield else if o_mnemonic op = ''sleep'' then event_sleep else 0
           | None \<Rightarrow> 0) OR
          (if c_state c = CpuFault then event_error else 0) OR (if c_state c = Halted then event_halt else 0))"

definition make_record :: "'vm debug_host \<Rightarrow> trace_history \<Rightarrow> 'vm simulator \<Rightarrow> usize \<Rightarrow> usize \<Rightarrow> replay_action \<Rightarrow> effect_batch
    \<Rightarrow> string option \<Rightarrow> trace_record" where
  "make_record host h s i line action effects error =
     \<lparr>te_sequence = th_next_sequence h, te_tick = s_tick s, te_cpu = i, te_replay_line = line,
      te_line = (case nth_opt (s_cpus s) i of Some c \<Rightarrow> debug_line (c_program c) line + 1 | None \<Rightarrow> line + 1),
      te_source_id = of_nat i, te_action = action, te_event_flags = record_flags (th_records h) s i line,
      te_effects = effects, te_error = error, te_state_hash = sim_hash host s\<rparr>"

text \<open>The regular checkpoints, and one for every change from outside.\<close>

definition append_record :: "'vm debug_host \<Rightarrow> 'vm simulator \<Rightarrow> trace_record \<Rightarrow> trace_history \<Rightarrow> (sim_error, trace_history) outcome" where
  "append_record host s r h =
     (let h' = h\<lparr>th_next_sequence := th_next_sequence h + 1, th_cursor := th_next_sequence h,
                 th_memory_estimate := usize_add (th_memory_estimate h) (record_bytes (dh_layout host) r),
                 th_records := th_records h @ [r]\<rparr>
      in if unat (te_sequence r) mod th_checkpoint_interval h = 0 \<or> te_action r = RaExternal then
           obind (push_checkpoint host s (te_sequence r) h') (\<lambda>h'.
           Ok (h'\<lparr>th_memory_estimate := usize_add (th_memory_estimate h') (checkpoint_bytes h')\<rparr>))
         else Ok h')"

text \<open>More records than allowed: a later checkpoint becomes the oldest retained state.\<close>

definition trim_events :: "'vm debug_host \<Rightarrow> 'vm simulator \<Rightarrow> u64 \<Rightarrow> trace_history \<Rightarrow> (sim_error, trace_history) outcome" where
  "trim_events host s sequence h =
     (if length (th_records h) \<le> th_max_events h then Ok h
      else
        (let desired_first = te_sequence (th_records h ! (length (th_records h) - th_max_events h));
             oldest = (case th_checkpoints h of c # _ \<Rightarrow> ck_sequence c | [] \<Rightarrow> 0)
         in obind (case find (\<lambda>c. desired_first \<le> ck_sequence c \<and> oldest < ck_sequence c) (th_checkpoints h) of
                     Some baseline \<Rightarrow> Ok (drop_through (ck_sequence baseline) h)
                   | None \<Rightarrow> obind (push_checkpoint host s sequence h) (\<lambda>h. Ok (drop_through sequence h))) (\<lambda>h.
            Ok (recompute_memory_estimate (dh_layout host) h))))"

text \<open>
  More memory than allowed: the loop drops checkpoint after checkpoint until the estimate fits or only one checkpoint
  is left. Its rounds are bounded by the argument; \<open>None\<close> when it is too small.
\<close>

fun trim_memory :: "'vm debug_host \<Rightarrow> 'vm simulator \<Rightarrow> nat \<Rightarrow> trace_history \<Rightarrow> (sim_error, trace_history) outcome option" where
  "trim_memory host s 0 h = None"
| "trim_memory host s (Suc rounds) h =
     (if th_memory_estimate h \<le> th_max_memory_bytes h then Some (Ok h)
      else if length (th_checkpoints h) = 1 \<and> th_records h = [] then Some (Ok h)
      else
        (case nth_opt (th_checkpoints h) 1 of
           Some c \<Rightarrow> trim_memory host s rounds (recompute_memory_estimate (dh_layout host) (drop_through (ck_sequence c) h))
         | None \<Rightarrow>
             (case push_checkpoint host s (th_cursor h) h of
                Ok h \<Rightarrow> trim_memory host s rounds (recompute_memory_estimate (dh_layout host) h)
              | Err e \<Rightarrow> Some (Err e)
              | Panic \<Rightarrow> Some Panic)))"

definition history_record :: "'vm debug_host \<Rightarrow> 'vm simulator \<Rightarrow> usize \<Rightarrow> usize \<Rightarrow> replay_action \<Rightarrow> effect_batch \<Rightarrow> string option
    \<Rightarrow> trace_history \<Rightarrow> (sim_error, trace_history) outcome option" where
  "history_record host s i line action effects error h =
     (let h = forget_future (dh_layout host) h; r = make_record host h s i line action effects error
      in case obind (append_record host s r h) (trim_events host s (te_sequence r)) of
           Ok h \<Rightarrow> trim_memory host s (length (th_checkpoints h) + 3) h
         | Err e \<Rightarrow> Some (Err e)
         | Panic \<Rightarrow> Some Panic)"

definition mark_last :: "(trace_record \<Rightarrow> trace_record) \<Rightarrow> trace_history \<Rightarrow> trace_history" where
  "mark_last f h =
     (if th_records h = [] then h else h\<lparr>th_records := butlast (th_records h) @ [f (last (th_records h))]\<rparr>)"

definition mark_stop :: "string \<Rightarrow> trace_history \<Rightarrow> trace_history" where
  "mark_stop reason = mark_last (\<lambda>r. r\<lparr>te_event_flags := te_event_flags r OR event_flag reason\<rparr>)"

definition record_stop :: "'vm debug_host \<Rightarrow> 'vm simulator \<Rightarrow> usize \<Rightarrow> usize \<Rightarrow> string \<Rightarrow> trace_history
    \<Rightarrow> (sim_error, trace_history) outcome option" where
  "record_stop host s i line reason h =
     (case history_record host s i line RaStop \<lparr>eb_reads = [], eb_writes = []\<rparr> None h of
        Some (Ok h) \<Rightarrow> Some (Ok (mark_last (\<lambda>r. r\<lparr>te_event_flags := event_flag reason\<rparr>) h))
      | other \<Rightarrow> other)"

definition checkpoint_current :: "'vm debug_host \<Rightarrow> 'vm simulator \<Rightarrow> trace_history \<Rightarrow> (sim_error, trace_history) outcome" where
  "checkpoint_current host s h =
     (let cs = th_checkpoints h;
          kept = (if cs \<noteq> [] \<and> ck_sequence (last cs) = th_cursor h then butlast cs else cs)
      in obind (push_checkpoint host s (th_cursor h) (h\<lparr>th_checkpoints := kept\<rparr>)) (\<lambda>h.
         Ok (recompute_memory_estimate (dh_layout host) h)))"

section \<open>Going back\<close>

definition hex_digit :: "nat \<Rightarrow> char" where
  "hex_digit n = ''0123456789abcdef'' ! n"

definition hex_u64 :: "u64 \<Rightarrow> string" where
  "hex_u64 v = map (\<lambda>i. hex_digit (unat (drop_bit (4 * i) v) mod 16)) (rev [0..<16])"

definition event_text :: "trace_record \<Rightarrow> string" where
  "event_text r = ''trace event '' @ show_nat (unat (te_sequence r))"

definition replay_result_matches :: "trace_record \<Rightarrow> string + unit \<Rightarrow> string + unit" where
  "replay_result_matches r result =
     (case (te_error r, result) of
        (None, Inr _) \<Rightarrow> Inr ()
      | (Some expected, Inl actual) \<Rightarrow>
          if expected = actual then Inr ()
          else Inl (''replay error diverged at '' @ event_text r @ '': expected `'' @ expected @ ''`, got `'' @ actual @ ''`'')
      | (Some expected, Inr _) \<Rightarrow> Inl (''replay unexpectedly succeeded at '' @ event_text r @ '' (expected `'' @ expected @ ''`)'')
      | (None, Inl actual) \<Rightarrow> Inl (''replay unexpectedly failed at '' @ event_text r @ '': '' @ actual))"

type_synonym 'vm replayed = "((string, unit) outcome \<times> 'vm simulator) option"

definition replay_outcome :: "'vm debug_host \<Rightarrow> trace_record \<Rightarrow> (sim_error, 'a) outcome \<times> 'vm simulator \<Rightarrow> 'vm replayed" where
  "replay_outcome host r result =
     (case result of
        (Panic, s) \<Rightarrow> Some (Panic, s)
      | (Ok _, s) \<Rightarrow> Some (case replay_result_matches r (Inr ()) of Inl e \<Rightarrow> Err e | Inr _ \<Rightarrow> Ok (), s)
      | (Err e, s) \<Rightarrow> Some (case replay_result_matches r (Inl (dh_step_text host e)) of Inl e \<Rightarrow> Err e | Inr _ \<Rightarrow> Ok (), s))"

text \<open>The loop that waits for the tick of a scheduled step, with a bound on its rounds.\<close>

fun await_tick :: "'vm debug_host \<Rightarrow> nat \<Rightarrow> trace_record \<Rightarrow> 'vm simulator \<Rightarrow> 'vm replayed" where
  "await_tick host 0 r s = None"
| "await_tick host (Suc rounds) r s =
     (if te_tick r \<le> s_tick s then Some (Ok (), s)
      else case next_scheduled_location s of
             (Ok None, s) \<Rightarrow> await_tick host rounds r s
           | (Ok (Some _), s) \<Rightarrow> Some (Err (''replay expected a tick anchor before '' @ event_text r), s)
           | (Err e, s) \<Rightarrow> Some (Err (dh_step_text host e), s)
           | (Panic, s) \<Rightarrow> Some (Panic, s))"

definition replay_scheduled :: "'vm debug_host \<Rightarrow> trace_record \<Rightarrow> 'vm simulator \<Rightarrow> 'vm replayed" where
  "replay_scheduled host r s =
     (case await_tick host (unat (te_tick r) - unat (s_tick s) + 1) r s of
        Some (Ok _, s) \<Rightarrow>
          (case next_scheduled_location s of
             (Ok (Some location), s) \<Rightarrow>
               if location \<noteq> (te_cpu r, te_replay_line r) then Some (Err (''replay location diverged at '' @ event_text r), s)
               else replay_outcome host r (scheduler_step (dh_libm host) (dh_engine host) s)
           | (Ok None, s) \<Rightarrow> Some (Err (''replay found no instruction for '' @ event_text r), s)
           | (Err e, s) \<Rightarrow> Some (Err (dh_step_text host e), s)
           | (Panic, s) \<Rightarrow> Some (Panic, s))
      | other \<Rightarrow> other)"

text \<open>A world tick runs at most so many scheduler steps.\<close>

definition tick_rounds :: "'vm simulator \<Rightarrow> nat" where
  "tick_rounds s = length (s_schedule s) * (unat (instruction_budget s) + 1) + 2"

fun replay_action_of :: "'vm debug_host \<Rightarrow> trace_record \<Rightarrow> replay_action \<Rightarrow> 'vm simulator \<Rightarrow> 'vm replayed" where
  "replay_action_of host r RaScheduled s = replay_scheduled host r s"
| "replay_action_of host r (RaInstruction i) s = replay_outcome host r (step_instruction (dh_libm host) i s)"
| "replay_action_of host r RaWorldTick s =
     Option.bind (step_world_tick (dh_libm host) (dh_engine host) (tick_rounds s) s) (replay_outcome host r)"
| "replay_action_of host r RaExternal s = Some (Err (''external '' @ event_text r @ '' is missing its checkpoint''), s)"
| "replay_action_of host r RaStop s = Some (Ok (), s)"

definition named_write :: "'vm simulator \<Rightarrow> write_effect \<Rightarrow> (sim_error, string \<times> u64 \<times> u64) outcome" where
  "named_write s w = obind (effect_target_name s (we_target w)) (\<lambda>name. Ok (name, we_before_bits w, we_after_bits w))"

fun named_writes :: "'vm simulator \<Rightarrow> write_effect list \<Rightarrow> (sim_error, (string \<times> u64 \<times> u64) list) outcome" where
  "named_writes s [] = Ok []"
| "named_writes s (w # ws) = obind (named_write s w) (\<lambda>x. obind (named_writes s ws) (\<lambda>xs. Ok (x # xs)))"

text \<open>What a replayed step must reproduce: the writes and the state.\<close>

definition verify_replay :: "'vm debug_host \<Rightarrow> trace_record \<Rightarrow> 'vm simulator \<Rightarrow> (string, unit) outcome \<times> 'vm simulator" where
  "verify_replay host r s =
     (let (actual, s) = take_effects s
      in (case (named_writes s (eb_writes actual), named_writes s (eb_writes (te_effects r))) of
            (Ok actual_writes, Ok expected_writes) \<Rightarrow>
              if actual_writes \<noteq> expected_writes then Err (''deterministic replay effects diverged at '' @ event_text r)
              else if sim_hash host s \<noteq> te_state_hash r then
                Err (''deterministic replay state diverged at '' @ event_text r @ '': expected '' @ hex_u64 (te_state_hash r) @
                  '', got '' @ hex_u64 (sim_hash host s))
              else Ok ()
          | _ \<Rightarrow> Panic, s))"

definition replay_record :: "'vm debug_host \<Rightarrow> trace_record \<Rightarrow> 'vm simulator \<Rightarrow> 'vm replayed" where
  "replay_record host r s =
     (case replay_action_of host r (te_action r) s of
        Some (Ok _, s) \<Rightarrow> Some (verify_replay host r s)
      | other \<Rightarrow> other)"

fun replay_records :: "'vm debug_host \<Rightarrow> trace_record list \<Rightarrow> 'vm simulator \<Rightarrow> 'vm replayed" where
  "replay_records host [] s = Some (Ok (), s)"
| "replay_records host (r # rs) s =
     (case replay_record host r s of
        Some (Ok _, s) \<Rightarrow> replay_records host rs s
      | other \<Rightarrow> other)"

definition replay_plan :: "trace_history \<Rightarrow> u64 \<Rightarrow> (trace_checkpoint \<times> trace_record list) option" where
  "replay_plan h target =
     map_option (\<lambda>c. (c, filter (\<lambda>r. ck_sequence c < te_sequence r \<and> te_sequence r \<le> target) (th_records h)))
       (find (\<lambda>c. ck_sequence c \<le> target) (rev (th_checkpoints h)))"

definition history_restore :: "'vm debug_host \<Rightarrow> u64 \<Rightarrow> trace_history \<Rightarrow> 'vm simulator
    \<Rightarrow> ((string, trace_history) outcome \<times> 'vm simulator) option" where
  "history_restore host target h s =
     (case replay_plan h target of
        None \<Rightarrow> Some (Err ''requested state is no longer retained'', s)
      | Some (c, records) \<Rightarrow>
          (case sim_restore (ck_snapshot c) s of
             (Ok _, s) \<Rightarrow>
               (case replay_records host records s of
                  Some (Ok _, s) \<Rightarrow> Some (Ok (h\<lparr>th_cursor := target\<rparr>), s)
                | Some (Err e, s) \<Rightarrow> Some (Err e, s)
                | Some (Panic, s) \<Rightarrow> Some (Panic, s)
                | None \<Rightarrow> None)
           | (Err e, s) \<Rightarrow> Some (Err (dh_step_text host e), s)
           | (Panic, s) \<Rightarrow> Some (Panic, s)))"

section \<open>Queries\<close>

fun find_write :: "'vm simulator \<Rightarrow> string \<Rightarrow> write_effect list \<Rightarrow> (sim_error, write_effect option) outcome" where
  "find_write s target [] = Ok None"
| "find_write s target (w # ws) =
     obind (effect_target_name s (we_target w)) (\<lambda>name. if name = target then Ok (Some w) else find_write s target ws)"

fun find_written :: "'vm simulator \<Rightarrow> string \<Rightarrow> trace_record list \<Rightarrow> (sim_error, (trace_record \<times> write_effect) option) outcome" where
  "find_written s target [] = Ok None"
| "find_written s target (r # rs) =
     obind (find_write s target (eb_writes (te_effects r))) (\<lambda>found.
     case found of Some w \<Rightarrow> Ok (Some (r, w)) | None \<Rightarrow> find_written s target rs)"

definition previous_write :: "trace_history \<Rightarrow> 'vm simulator \<Rightarrow> string \<Rightarrow> (sim_error, (trace_record \<times> write_effect) option) outcome" where
  "previous_write h s target = find_written s target (filter (\<lambda>r. te_sequence r \<le> th_cursor h) (rev (th_records h)))"

text \<open>The states that \<open>step_back\<close>, \<open>reverse_continue\<close> and \<open>navigate_history\<close> ask for.\<close>

definition step_back_target :: "trace_history \<Rightarrow> string + u64" where
  "step_back_target h = (if th_cursor h = 0 then Inl ''already at the oldest retained state'' else Inr (th_cursor h - 1))"

definition stop_flags :: u16 where
  "stop_flags = event_breakpoint OR event_data_breakpoint OR event_exception OR event_assertion OR event_yield OR
     event_sleep OR event_tick"

definition reverse_target :: "trace_history \<Rightarrow> u64" where
  "reverse_target h =
     (case find (\<lambda>r. te_sequence r < th_cursor h \<and> te_event_flags r AND stop_flags \<noteq> 0) (rev (th_records h)) of
        Some r \<Rightarrow> te_sequence r
      | None \<Rightarrow> 0)"

definition record_selected :: "'vm simulator \<Rightarrow> string option \<Rightarrow> string option \<Rightarrow> trace_record \<Rightarrow> (sim_error, bool) outcome" where
  "record_selected s target kind r =
     obind (case target of None \<Rightarrow> Ok True | Some t \<Rightarrow> obind (find_write s t (eb_writes (te_effects r))) (\<lambda>w. Ok (w \<noteq> None))) (\<lambda>written.
     Ok (written \<and> (case kind of None \<Rightarrow> True | Some k \<Rightarrow> te_event_flags r AND event_flag k \<noteq> 0)))"

fun find_selected :: "'vm simulator \<Rightarrow> string option \<Rightarrow> string option \<Rightarrow> trace_record list \<Rightarrow> (sim_error, trace_record option) outcome" where
  "find_selected s target kind [] = Ok None"
| "find_selected s target kind (r # rs) =
     obind (record_selected s target kind r) (\<lambda>selected. if selected then Ok (Some r) else find_selected s target kind rs)"

definition navigate_target :: "trace_history \<Rightarrow> 'vm simulator \<Rightarrow> string \<Rightarrow> string option \<Rightarrow> string option
    \<Rightarrow> (sim_error, (u64 \<times> usize) option) outcome" where
  "navigate_target h s direction target kind =
     obind (find_selected s target kind
              (if direction = ''next'' then filter (\<lambda>r. th_cursor h < te_sequence r) (th_records h)
               else filter (\<lambda>r. te_sequence r < th_cursor h) (rev (th_records h)))) (\<lambda>found.
     Ok (map_option (\<lambda>r. (te_sequence r, te_cpu r)) found))"

definition record_source :: "trace_history \<Rightarrow> trace_record \<Rightarrow> string" where
  "record_source h r = (case nth_opt (th_sources h) (unat (te_source_id r)) of Some source \<Rightarrow> source | None \<Rightarrow> [])"

end
