(* ===== verification/Debug_History_Correct.thy ===== *)
theory Debug_History_Correct
  imports Debug_History
begin

text \<open>
  The reversible history is a window: from its oldest checkpoint to the present every step is retained, in order, and
  nothing else; recording keeps the window within its bounds, and going back replays exactly the steps between a checkpoint and the
  state that is asked for.
\<close>

section \<open>Vocabulary\<close>

definition record_number :: "trace_record \<Rightarrow> nat" where
  "record_number r = unat (te_sequence r)"

definition checkpoint_number :: "trace_checkpoint \<Rightarrow> nat" where
  "checkpoint_number c = unat (ck_sequence c)"

definition oldest :: "trace_history \<Rightarrow> nat" where
  "oldest h = checkpoint_number (hd (th_checkpoints h))"

text \<open>The window, without the bounds on its size.\<close>

definition window :: "trace_history \<Rightarrow> bool" where
  "window h \<longleftrightarrow>
     2 \<le> th_max_events h \<and> 0 < th_checkpoint_interval h \<and> th_checkpoints h \<noteq> [] \<and>
     map record_number (th_records h) = [Suc (oldest h)..<unat (th_next_sequence h)] \<and>
     sorted_wrt (<) (map checkpoint_number (th_checkpoints h)) \<and>
     checkpoint_number (last (th_checkpoints h)) < unat (th_next_sequence h) \<and>
     oldest h \<le> unat (th_cursor h) \<and> th_cursor h < th_next_sequence h"

definition at_present :: "trace_history \<Rightarrow> bool" where
  "at_present h \<longleftrightarrow> unat (th_next_sequence h) = Suc (unat (th_cursor h))"

definition within_events :: "trace_history \<Rightarrow> bool" where
  "within_events h \<longleftrightarrow> length (th_records h) \<le> th_max_events h"

definition within_memory :: "trace_history \<Rightarrow> bool" where
  "within_memory h \<longleftrightarrow> th_memory_estimate h \<le> th_max_memory_bytes h \<or> (length (th_checkpoints h) = 1 \<and> th_records h = [])"

text \<open>The rounds of the memory loop that a window needs.\<close>

definition rounds_needed :: "trace_history \<Rightarrow> nat" where
  "rounds_needed h = length (th_checkpoints h) + (if checkpoint_number (last (th_checkpoints h)) = unat (th_cursor h) then 0 else 2)"

text \<open>The histories of debug sessions: started, extended, rewound, marked and given a checkpoint at the present.\<close>

inductive session :: "'vm debug_host \<Rightarrow> knowledge_base \<Rightarrow> world_form \<Rightarrow> trace_history \<Rightarrow> bool" for host kb shape where
  started: "history_new host s max_events interval mib = Ok h \<Longrightarrow> session host kb shape h"
| recorded: "session host kb shape h \<Longrightarrow> unat (th_next_sequence h) + 1 < 2 ^ 64 \<Longrightarrow> sim_inv kb shape s \<Longrightarrow>
    history_record host s i line action effects error h = Some (Ok h') \<Longrightarrow> session host kb shape h'"
| stopped: "session host kb shape h \<Longrightarrow> unat (th_next_sequence h) + 1 < 2 ^ 64 \<Longrightarrow> sim_inv kb shape s \<Longrightarrow>
    record_stop host s i line reason h = Some (Ok h') \<Longrightarrow> session host kb shape h'"
| rewound: "session host kb shape h \<Longrightarrow> target < th_next_sequence h \<Longrightarrow>
    history_restore host target h s = Some (Ok h', s') \<Longrightarrow> session host kb shape h'"
| marked: "session host kb shape h \<Longrightarrow> session host kb shape (mark_stop reason h)"
| checkpointed: "session host kb shape h \<Longrightarrow> at_present h \<Longrightarrow> checkpoint_current host s h = Ok h' \<Longrightarrow> session host kb shape h'"

text \<open>A session on a simulator without scheduled machines.\<close>

definition sample_layout :: layout where
  "sample_layout = \<lparr>ly_text = length, ly_vec = (\<lambda>n. n), ly_read_size = 32, ly_write_size = 48, ly_string_size = 24, ly_behaviours = (\<lambda>_. 0)\<rparr>"

definition sample_debug_host :: "unit debug_host" where
  "sample_debug_host = \<lparr>dh_libm = sample_libm, dh_engine = sample_engine, dh_step_text = (\<lambda>_. ''step''), dh_fault_text = (\<lambda>_. ''fault''),
     dh_normalize_path = (\<lambda>p. p), dh_layout = sample_layout\<rparr>"

definition sample_quiet :: "unit simulator" where
  "sample_quiet = sample_sim\<lparr>s_schedule := []\<rparr>"

section \<open>Lemmas\<close>

subsection \<open>Dropping\<close>

lemma window_estimate [simp]:
  "window (recompute_memory_estimate ly h) = window h" "at_present (recompute_memory_estimate ly h) = at_present h"
  "within_events (recompute_memory_estimate ly h) = within_events h"
  "rounds_needed (recompute_memory_estimate ly h) = rounds_needed h"
  "window (h\<lparr>th_memory_estimate := m\<rparr>) = window h" "at_present (h\<lparr>th_memory_estimate := m\<rparr>) = at_present h"
  by (simp_all add: window_def at_present_def within_events_def rounds_needed_def recompute_memory_estimate_def oldest_def)

lemma history_frame [simp]:
  "th_max_events (recompute_memory_estimate ly h) = th_max_events h" "th_checkpoints (recompute_memory_estimate ly h) = th_checkpoints h"
  "th_records (recompute_memory_estimate ly h) = th_records h" "th_cursor (recompute_memory_estimate ly h) = th_cursor h"
  "th_next_sequence (recompute_memory_estimate ly h) = th_next_sequence h"
  "th_max_memory_bytes (recompute_memory_estimate ly h) = th_max_memory_bytes h"
  "th_max_events (drop_through b h) = th_max_events h" "th_cursor (drop_through b h) = th_cursor h"
  "th_next_sequence (drop_through b h) = th_next_sequence h" "th_checkpoint_interval (drop_through b h) = th_checkpoint_interval h"
  "th_max_memory_bytes (drop_through b h) = th_max_memory_bytes h"
  by (simp_all add: recompute_memory_estimate_def drop_through_def split_beta)

lemma drop_records_eq: "fst (drop_records b rs d) = dropWhile (\<lambda>r. te_sequence r \<le> b) rs"
  by (induction rs arbitrary: d) simp_all

lemma dropWhile_window:
  assumes "map record_number rs = [a..<n]"
  shows "map record_number (dropWhile (\<lambda>r. te_sequence r \<le> b) rs) = [max a (Suc (unat b))..<n]"
  using assms
proof (induction rs arbitrary: a)
  case (Cons r rs)
  then have "a < n" by (cases "a < n") simp_all
  then have a: "record_number r = a" "map record_number rs = [Suc a..<n]" using Cons.prems by (simp_all add: upt_conv_Cons)
  show ?case
  proof (cases "te_sequence r \<le> b")
    case True
    then have "a \<le> unat b" using a(1) by (simp add: record_number_def word_le_nat_alt)
    then show ?thesis using Cons.IH [OF a(2)] True by (simp add: max_def)
  next
    case False
    then have "unat b < a" using a(1) by (simp add: record_number_def word_le_nat_alt)
    then have "max a (Suc (unat b)) = a" by simp
    then show ?thesis using False Cons.prems by simp
  qed
next
  case Nil
  then have "[a..<n] = []" by simp
  then show ?case by (auto simp: upt_eq_Nil_conv)
qed

lemma drop_checkpoints_eq:
  assumes "sorted_wrt (<) (map checkpoint_number cs)" "c \<in> set cs" "unat b = checkpoint_number c"
  shows "drop_checkpoints b cs = c # filter (\<lambda>x. unat b < checkpoint_number x) cs"
  using assms
proof (induction b cs rule: drop_checkpoints.induct)
  case (1 b x y cs)
  show ?case
  proof (cases "ck_sequence y \<le> b")
    case True
    then have "c \<in> set (y # cs)" using 1 by (auto simp: checkpoint_number_def word_le_nat_alt)
    then show ?thesis using 1 True by (auto simp: checkpoint_number_def word_le_nat_alt)
  next
    case False
    then have "c = x" using 1 by (auto simp: checkpoint_number_def word_le_nat_alt)
    then show ?thesis using 1 False by (auto simp: filter_id_conv)
  qed
qed simp_all

lemma below_last:
  "sorted_wrt (<) (map checkpoint_number cs) \<Longrightarrow> x \<in> set cs \<Longrightarrow> checkpoint_number x < checkpoint_number (last cs) \<or> x = last cs"
  by (induction cs) (auto split: if_splits)

lemma last_filter_above:
  assumes "sorted_wrt (<) (map checkpoint_number cs)" "c \<in> set cs"
  shows "last (c # filter (\<lambda>x. checkpoint_number c < checkpoint_number x) cs) = last cs"
proof -
  have cs: "cs = butlast cs @ [last cs]" using assms(2) by (cases cs rule: rev_cases) simp_all
  consider "c = last cs" | "checkpoint_number c < checkpoint_number (last cs)" using below_last [OF assms] by blast
  then show ?thesis
  proof cases
    case 1
    then have "filter (\<lambda>x. checkpoint_number c < checkpoint_number x) cs = []"
      using below_last [OF assms(1)] by (fastforce simp: filter_empty_conv)
    then show ?thesis using 1 by simp
  next
    case 2
    then have "filter (\<lambda>x. checkpoint_number c < checkpoint_number x) (butlast cs @ [last cs]) =
        filter (\<lambda>x. checkpoint_number c < checkpoint_number x) (butlast cs) @ [last cs]" by simp
    then show ?thesis using cs by simp
  qed
qed

lemma drop_through_window:
  assumes "window h" "at_present h" "c \<in> set (th_checkpoints h)"
  shows "window (drop_through (ck_sequence c) h)" "at_present (drop_through (ck_sequence c) h)"
    "oldest (drop_through (ck_sequence c) h) = checkpoint_number c"
    "last (th_checkpoints (drop_through (ck_sequence c) h)) = last (th_checkpoints h)"
    "th_checkpoints (drop_through (ck_sequence c) h) = c # filter (\<lambda>x. checkpoint_number c < checkpoint_number x) (th_checkpoints h)"
proof -
  let ?h = "drop_through (ck_sequence c) h"
  have seq: "unat (ck_sequence c) = checkpoint_number c" by (simp add: checkpoint_number_def)
  have sorted: "sorted_wrt (<) (map checkpoint_number (th_checkpoints h))" using assms(1) by (simp add: window_def)
  show cps: "th_checkpoints ?h = c # filter (\<lambda>x. checkpoint_number c < checkpoint_number x) (th_checkpoints h)"
    using drop_checkpoints_eq [OF sorted assms(3) seq] seq by (simp add: drop_through_def split_beta)
  show old: "oldest ?h = checkpoint_number c" by (simp add: oldest_def cps)
  show last: "last (th_checkpoints ?h) = last (th_checkpoints h)"
    unfolding cps by (rule last_filter_above [OF sorted assms(3)])
  show "at_present ?h" using assms(2) by (simp add: at_present_def)
  have "oldest h \<le> checkpoint_number c"
    using sorted assms(3) by (cases "th_checkpoints h") (auto simp: oldest_def)
  then have records: "map record_number (th_records ?h) = [Suc (checkpoint_number c)..<unat (th_next_sequence h)]"
    using dropWhile_window [of "th_records h" "Suc (oldest h)" _ "ck_sequence c"] assms(1) seq
    by (simp add: drop_through_def split_beta drop_records_eq window_def max_def)
  have "checkpoint_number c \<le> checkpoint_number (last (th_checkpoints h))"
    using below_last [OF sorted assms(3)] by auto
  then have "checkpoint_number c \<le> unat (th_cursor h)" using assms(1,2) by (simp add: window_def at_present_def)
  moreover have "sorted_wrt (<) (map checkpoint_number (th_checkpoints ?h))"
    unfolding cps using sorted by (simp add: sorted_wrt_map sorted_wrt_filter)
  ultimately show "window ?h" using assms(1) records last old cps by (simp add: window_def)
qed

subsection \<open>Recording\<close>

lemma filter_window: "map record_number rs = [a..<n] \<Longrightarrow> map record_number (filter (\<lambda>r. te_sequence r \<le> b) rs) = filter (\<lambda>k. k \<le> unat b) [a..<n]"
proof -
  assume "map record_number rs = [a..<n]"
  moreover have "map record_number (filter (\<lambda>r. te_sequence r \<le> b) rs) = filter (\<lambda>k. k \<le> unat b) (map record_number rs)"
    by (simp add: filter_map comp_def record_number_def word_le_nat_alt)
  ultimately show ?thesis by simp
qed

lemma filter_upto: "b < n \<Longrightarrow> filter (\<lambda>k. k \<le> b) [a..<n] = [a..<Suc b]"
proof (induction n)
  case (Suc n)
  then show ?case by (cases "b = n") (auto simp: filter_id_conv)
qed simp

lemma cursor_next: "window h \<Longrightarrow> unat (th_cursor h + 1) = Suc (unat (th_cursor h))"
  by (simp add: window_def) unat_arith

lemma forget_future_window:
  assumes "window h"
  shows "window (forget_future ly h)" "at_present (forget_future ly h)" "th_next_sequence (forget_future ly h) \<le> th_next_sequence h"
proof -
  note up = cursor_next [OF assms]
  have lt: "unat (th_cursor h) < unat (th_next_sequence h)" using assms by (simp add: window_def word_less_nat_alt)
  have "window (forget_future ly h) \<and> at_present (forget_future ly h) \<and> th_next_sequence (forget_future ly h) \<le> th_next_sequence h"
  proof (cases "th_cursor h + 1 < th_next_sequence h")
    case True
    let ?P = "\<lambda>c. ck_sequence c \<le> th_cursor h"
    let ?h = "h\<lparr>th_records := filter (\<lambda>r. te_sequence r \<le> th_cursor h) (th_records h),
      th_checkpoints := filter ?P (th_checkpoints h), th_next_sequence := th_cursor h + 1\<rparr>"
    obtain c cs where cps: "th_checkpoints h = c # cs" using assms by (auto simp: window_def neq_Nil_conv)
    then have c: "?P c" using assms by (simp add: window_def oldest_def checkpoint_number_def word_le_nat_alt)
    have "map record_number (th_records ?h) = [Suc (oldest h)..<Suc (unat (th_cursor h))]"
      using filter_window [of "th_records h"] filter_upto [OF lt] assms by (simp add: window_def)
    moreover have "sorted_wrt (<) (map checkpoint_number (th_checkpoints ?h))"
      using assms by (simp add: window_def sorted_wrt_map sorted_wrt_filter)
    moreover have "filter ?P (th_checkpoints h) \<noteq> []" using c cps by simp
    then have "last (filter ?P (th_checkpoints h)) \<in> set (filter ?P (th_checkpoints h))" by (rule last_in_set)
    then have "checkpoint_number (last (th_checkpoints ?h)) \<le> unat (th_cursor h)"
      by (simp add: checkpoint_number_def word_le_nat_alt)
    moreover have "th_cursor h < th_cursor h + 1" using up by (simp add: word_less_nat_alt)
    ultimately have "window ?h" using assms c cps up by (simp add: window_def oldest_def)
    then show ?thesis using True up by (simp add: forget_future_def at_present_def recompute_memory_estimate_def window_def oldest_def)
  next
    case False
    then have "unat (th_next_sequence h) = Suc (unat (th_cursor h))" using lt up by (simp add: word_less_nat_alt)
    then show ?thesis using False assms by (simp add: forget_future_def at_present_def)
  qed
  then show "window (forget_future ly h)" "at_present (forget_future ly h)" "th_next_sequence (forget_future ly h) \<le> th_next_sequence h"
    by simp_all
qed

lemma push_checkpoint_Ok:
  assumes "push_checkpoint host s n h = Ok h'"
  obtains c where "ck_sequence c = n" "h' = h\<lparr>th_checkpoints := th_checkpoints h @ [c]\<rparr>"
proof -
  obtain c where "take_checkpoint host s n = Ok c" "h' = h\<lparr>th_checkpoints := th_checkpoints h @ [c]\<rparr>"
    using assms by (auto simp: push_checkpoint_def obind_eq_Ok)
  then show thesis using that [of c] by (auto simp: take_checkpoint_def obind_eq_Ok)
qed

lemma push_checkpoint_runs:
  "fst (sim_snapshot s) = Ok snap \<Longrightarrow> push_checkpoint host s n h =
     Ok (h\<lparr>th_checkpoints := th_checkpoints h @ [\<lparr>ck_sequence = n, ck_snapshot = snap, ck_bytes = estimate_snapshot_bytes host s\<rparr>]\<rparr>)"
  by (simp add: push_checkpoint_def take_checkpoint_def)

lemma push_window:
  assumes "window h" "at_present h" "checkpoint_number (last (th_checkpoints h)) < unat (th_cursor h)" "ck_sequence c = th_cursor h"
  shows "window (h\<lparr>th_checkpoints := th_checkpoints h @ [c]\<rparr>)"
proof -
  have "checkpoint_number x < unat (th_cursor h)" if "x \<in> set (th_checkpoints h)" for x
    using below_last [OF _ that] assms(1,3) by (fastforce simp: window_def)
  then show ?thesis using assms by (auto simp: window_def oldest_def sorted_wrt_append checkpoint_number_def word_less_nat_alt)
qed

lemma append_record_window:
  assumes "window h" "at_present h" "unat (th_next_sequence h) + 1 < 2 ^ 64" "te_sequence r = th_next_sequence h"
    and "append_record host s r h = Ok h'"
  shows "window h'" "at_present h'" "th_next_sequence h' = th_next_sequence h + 1" "th_cursor h' = te_sequence r"
proof -
  let ?h = "h\<lparr>th_next_sequence := th_next_sequence h + 1, th_cursor := th_next_sequence h,
    th_memory_estimate := usize_add (th_memory_estimate h) (record_bytes (dh_layout host) r), th_records := th_records h @ [r]\<rparr>"
  have up: "unat (th_next_sequence h + 1) = Suc (unat (th_next_sequence h))" using assms(3) by (simp add: unat_word_ariths)
  have old: "oldest h < unat (th_next_sequence h)" using assms(1) by (auto simp: window_def word_less_nat_alt)
  then have w: "window ?h" using assms(1,4) up by (auto simp: window_def oldest_def record_number_def word_less_nat_alt)
  have p: "at_present ?h" using up by (simp add: at_present_def)
  have last: "checkpoint_number (last (th_checkpoints ?h)) < unat (th_cursor ?h)" using assms(1) by (simp add: window_def)
  have "window h' \<and> at_present h' \<and> th_next_sequence h' = th_next_sequence h + 1 \<and> th_cursor h' = te_sequence r"
  proof (cases "unat (te_sequence r) mod th_checkpoint_interval h = 0 \<or> te_action r = RaExternal")
    case True
    then obtain h1 m where h1: "push_checkpoint host s (te_sequence r) ?h = Ok h1" "h' = h1\<lparr>th_memory_estimate := m\<rparr>"
      using assms(5) by (auto simp: append_record_def obind_eq_Ok Let_def)
    obtain c where c: "ck_sequence c = te_sequence r" "h1 = ?h\<lparr>th_checkpoints := th_checkpoints ?h @ [c]\<rparr>"
      by (rule push_checkpoint_Ok [OF h1(1)])
    then have "window h1" using push_window [OF w p last, of c] assms(4) by simp
    then have "window h'" unfolding h1(2) by simp
    then show ?thesis using h1(2) c(2) p assms(4) by (simp add: at_present_def)
  next
    case False
    then have "h' = ?h" using assms(5) by (auto simp: append_record_def Let_def)
    then show ?thesis using w p assms(4) by simp
  qed
  then show "window h'" "at_present h'" "th_next_sequence h' = th_next_sequence h + 1" "th_cursor h' = te_sequence r" by simp_all
qed

lemma last_at_present: "window h \<Longrightarrow> at_present h \<Longrightarrow> checkpoint_number (last (th_checkpoints h)) \<le> unat (th_cursor h)"
  by (simp add: window_def at_present_def)

lemma window_length: "window h \<Longrightarrow> length (th_records h) = unat (th_next_sequence h) - Suc (oldest h)"
  using length_map [of record_number "th_records h"] by (simp add: window_def)

lemma window_nth: "window h \<Longrightarrow> k < length (th_records h) \<Longrightarrow> record_number (th_records h ! k) = Suc (oldest h) + k"
proof -
  assume w: "window h" and k: "k < length (th_records h)"
  have "record_number (th_records h ! k) = map record_number (th_records h) ! k" using k by simp
  also have "\<dots> = Suc (oldest h) + k" using w k window_length [OF w] by (simp add: window_def)
  finally show ?thesis .
qed

lemma trim_events_window:
  assumes "window h" "at_present h" "trim_events host s (th_cursor h) h = Ok h'"
  shows "window h' \<and> at_present h' \<and> within_events h' \<and> th_max_events h' = th_max_events h"
proof (cases "length (th_records h) \<le> th_max_events h")
  case True
  then show ?thesis using assms by (simp add: trim_events_def within_events_def)
next
  case False
  let ?n = "length (th_records h)" let ?first = "th_records h ! (?n - th_max_events h)"
  have max: "2 \<le> th_max_events h" using assms(1) by (simp add: window_def)
  have first: "record_number ?first = Suc (oldest h) + (?n - th_max_events h)" using window_nth [OF assms(1)] False max by simp
  have n: "?n = unat (th_cursor h) - oldest h" "oldest h < unat (th_cursor h)"
    using window_length [OF assms(1)] assms(1,2) False max by (auto simp: window_def at_present_def)
  have small: "within_events (drop_through (ck_sequence c) h1)"
    if "window h1" "at_present h1" "c \<in> set (th_checkpoints h1)" "th_max_events h1 = th_max_events h" "th_cursor h1 = th_cursor h"
      "record_number ?first \<le> checkpoint_number c" for c h1
    using window_length [OF drop_through_window(1) [OF that(1-3)]] drop_through_window(2,3) [OF that(1-3)] that(4-) first n False
    by (simp add: within_events_def at_present_def)
  let ?found = "find (\<lambda>c. te_sequence ?first \<le> ck_sequence c \<and> (case th_checkpoints h of c # _ \<Rightarrow> ck_sequence c | [] \<Rightarrow> 0) < ck_sequence c)
    (th_checkpoints h)"
  show ?thesis
  proof (cases ?found)
    case (Some c)
    then have c: "c \<in> set (th_checkpoints h)" "record_number ?first \<le> checkpoint_number c"
      by (auto simp: find_Some_iff record_number_def checkpoint_number_def word_le_nat_alt)
    have "h' = recompute_memory_estimate (dh_layout host) (drop_through (ck_sequence c) h)"
      using assms(3) False Some by (simp add: trim_events_def Let_def)
    then show ?thesis using drop_through_window(1,2) [OF assms(1,2) c(1)] small [OF assms(1,2) c(1) refl refl c(2)]
      by simp
  next
    case None
    obtain h1 where h1: "push_checkpoint host s (th_cursor h) h = Ok h1"
      "h' = recompute_memory_estimate (dh_layout host) (drop_through (th_cursor h) h1)"
      using assms(3) False None by (auto simp: trim_events_def Let_def obind_eq_Ok)
    obtain c where c: "ck_sequence c = th_cursor h" "h1 = h\<lparr>th_checkpoints := th_checkpoints h @ [c]\<rparr>"
      by (rule push_checkpoint_Ok [OF h1(1)])
    have "checkpoint_number (last (th_checkpoints h)) \<noteq> unat (th_cursor h)"
    proof
      assume eq: "checkpoint_number (last (th_checkpoints h)) = unat (th_cursor h)"
      have "last (th_checkpoints h) \<in> set (th_checkpoints h)" using assms(1) by (simp add: window_def)
      moreover have "te_sequence ?first \<le> ck_sequence (last (th_checkpoints h))"
        using eq first n False max by (simp add: word_le_nat_alt record_number_def checkpoint_number_def)
      moreover have "(case th_checkpoints h of c # _ \<Rightarrow> ck_sequence c | [] \<Rightarrow> 0) < ck_sequence (last (th_checkpoints h))"
        using eq n(2) assms(1) by (cases "th_checkpoints h") (simp_all add: window_def word_less_nat_alt checkpoint_number_def oldest_def)
      ultimately show False using None by (auto simp: find_None_iff)
    qed
    then have w: "window h1" using push_window [OF assms(1,2) _ c(1)] last_at_present [OF assms(1,2)] c(2) by simp
    have p: "at_present h1" "c \<in> set (th_checkpoints h1)" "th_max_events h1 = th_max_events h" "th_cursor h1 = th_cursor h"
      using assms(2) c(2) by (simp_all add: at_present_def)
    have "record_number ?first \<le> checkpoint_number c" using first n False max c(1) by (simp add: checkpoint_number_def)
    then show ?thesis using drop_through_window(1,2) [OF w p(1,2)] small [OF w p] h1(2) c(1) p(3)
      by simp
  qed
qed

lemma window_empty: "window h \<Longrightarrow> at_present h \<Longrightarrow> oldest h = unat (th_cursor h) \<Longrightarrow> th_records h = []"
  using window_length [of h] by (simp add: at_present_def)

lemma within_events_drop: "within_events h \<Longrightarrow> within_events (drop_through b h)"
  using length_dropWhile_le [of "\<lambda>r. te_sequence r \<le> b" "th_records h"]
  by (simp add: within_events_def drop_through_def split_beta drop_records_eq)

lemma trim_memory_window:
  assumes "window h" "at_present h" "within_events h" "fst (sim_snapshot s) = Ok snap" "rounds_needed h \<le> rounds"
  shows "\<exists>h'. trim_memory host s rounds h = Some (Ok h') \<and> window h' \<and> at_present h' \<and> within_events h' \<and> within_memory h' \<and>
    th_cursor h' = th_cursor h"
  using assms
proof (induction rounds arbitrary: h)
  case 0
  then show ?case by (simp add: rounds_needed_def window_def)
next
  case (Suc rounds)
  note w = Suc.prems(1,2)
  show ?case
  proof (cases "th_memory_estimate h \<le> th_max_memory_bytes h \<or> (length (th_checkpoints h) = 1 \<and> th_records h = [])")
    case True
    then show ?thesis using Suc.prems by (auto simp: within_memory_def)
  next
    case False
    show ?thesis
    proof (cases "nth_opt (th_checkpoints h) 1")
      case (Some c)
      let ?h = "drop_through (ck_sequence c) h"
      obtain a cs where cps: "th_checkpoints h = a # c # cs"
        using Some by (cases "th_checkpoints h"; cases "tl (th_checkpoints h)") (auto simp: nth_opt_def)
      then have c: "c \<in> set (th_checkpoints h)" by simp
      have "\<not> checkpoint_number c < checkpoint_number a" using w(1) cps by (simp add: window_def)
      then have "length (filter (\<lambda>x. checkpoint_number c < checkpoint_number x) (th_checkpoints h)) \<le> length cs" using cps by simp
      then have "length (th_checkpoints ?h) < length (th_checkpoints h)" using drop_through_window(5) [OF w c] cps by simp
      then have "rounds_needed ?h < rounds_needed h" using drop_through_window(4) [OF w c] by (simp add: rounds_needed_def)
      then show ?thesis
        using Suc.IH [of "recompute_memory_estimate (dh_layout host) ?h"] drop_through_window(1,2) [OF w c] within_events_drop Suc.prems False Some
        by auto
    next
      case None
      then have one: "length (th_checkpoints h) = 1" using w(1) by (simp add: window_def nth_opt_def not_less le_Suc_eq split: if_splits)
      then have last: "checkpoint_number (last (th_checkpoints h)) = oldest h" by (cases "th_checkpoints h") (simp_all add: oldest_def)
      then have below: "checkpoint_number (last (th_checkpoints h)) < unat (th_cursor h)"
        using window_empty [OF w] False one last_at_present [OF w] by (cases "oldest h = unat (th_cursor h)") auto
      obtain h1 where h1: "push_checkpoint host s (th_cursor h) h = Ok h1"
        using Suc.prems(4) by (simp add: push_checkpoint_def take_checkpoint_def)
      obtain c where c: "ck_sequence c = th_cursor h" "h1 = h\<lparr>th_checkpoints := th_checkpoints h @ [c]\<rparr>"
        by (rule push_checkpoint_Ok [OF h1])
      have "window h1" using push_window [OF w below c(1)] c(2) by simp
      moreover have "at_present h1" "within_events h1" "rounds_needed h1 = 2"
        using Suc.prems(2,3) c one by (simp_all add: at_present_def within_events_def rounds_needed_def checkpoint_number_def)
      moreover have "rounds_needed h = 3" using one below by (simp add: rounds_needed_def)
      ultimately show ?thesis
        using Suc.IH [of "recompute_memory_estimate (dh_layout host) h1"] Suc.prems(4,5) False None h1 c(2) by auto
    qed
  qed
qed

lemma trim_events_runs: "fst (sim_snapshot s) = Ok snap \<Longrightarrow> \<exists>h'. trim_events host s n h = Ok h'"
  by (auto simp: trim_events_def Let_def push_checkpoint_runs split: option.split)

lemma history_record_window:
  assumes "window h" "unat (th_next_sequence h) + 1 < 2 ^ 64" "fst (sim_snapshot s) = Ok snap"
  shows "\<exists>h'. history_record host s i line action effects error h = Some (Ok h') \<and> window h' \<and> at_present h' \<and> within_events h' \<and>
    within_memory h' \<and> unat (th_cursor h') = Suc (unat (th_cursor h))"
proof -
  let ?h = "forget_future (dh_layout host) h"
  let ?r = "make_record host ?h s i line action effects error"
  note f = forget_future_window [OF assms(1), of "dh_layout host"]
  have room: "unat (th_next_sequence ?h) + 1 < 2 ^ 64" using f(3) assms(2) by (simp add: word_le_nat_alt)
  have seq: "te_sequence ?r = th_next_sequence ?h" by (simp add: make_record_def)
  obtain h1 where h1: "append_record host s ?r ?h = Ok h1"
    using push_checkpoint_runs [OF assms(3)]
    by (cases "unat (te_sequence ?r) mod th_checkpoint_interval ?h = 0 \<or> te_action ?r = RaExternal") (auto simp: append_record_def Let_def)
  note a = append_record_window [OF f(1,2) room seq h1]
  obtain h2 where h2: "trim_events host s (th_cursor h1) h1 = Ok h2"
    using trim_events_runs [OF assms(3)] by blast
  note t = trim_events_window [OF a(1,2) h2]
  have "rounds_needed h2 \<le> length (th_checkpoints h2) + 3" by (simp add: rounds_needed_def)
  then obtain h3 where h3: "trim_memory host s (length (th_checkpoints h2) + 3) h2 = Some (Ok h3)" "window h3" "at_present h3"
    "within_events h3" "within_memory h3" "th_cursor h3 = th_cursor h2"
    using trim_memory_window [OF _ _ _ assms(3)] t by blast
  have "th_cursor h2 = th_cursor h1"
    using h2 by (auto simp: trim_events_def push_checkpoint_def take_checkpoint_def obind_eq_Ok Let_def split: if_splits option.splits)
  moreover have "th_cursor ?h = th_cursor h" by (simp add: forget_future_def)
  ultimately have "unat (th_cursor h3) = Suc (unat (th_cursor h))" using h3(6) a(4) seq f(2) by (simp add: at_present_def)
  then show ?thesis using h3 h1 h2 a(4) by (simp add: history_record_def Let_def)
qed

lemma snapshot_taken:
  assumes "sim_inv kb sh s"
  shows "\<exists>snap. fst (sim_snapshot s) = Ok snap"
proof -
  have "\<exists>ps. collect_snapshots as s = Some ps" if "list_all (adapter_bound s) as" for as
    using that
  proof (induction as)
    case (Cons a as)
    then have "\<exists>p. adapter_snapshot a s = Some p" by (cases a) (simp_all add: nth_opt_def)
    then show ?case using Cons by auto
  qed simp
  then show ?thesis using assms by (fastforce simp: sim_inv_def sim_snapshot_def prog_simps)
qed

subsection \<open>The other operations\<close>

lemma history_new_window:
  assumes "history_new host s max_events interval mib = Ok h"
  shows "window h \<and> at_present h \<and> within_events h"
  using assms by (auto simp: history_new_def take_checkpoint_def obind_eq_Ok window_def at_present_def within_events_def oldest_def
    checkpoint_number_def)

lemma mark_last_window:
  assumes "\<And>r. te_sequence (f r) = te_sequence r"
  shows "window (mark_last f h) = window h" "within_events (mark_last f h) = within_events h" "at_present (mark_last f h) = at_present h"
    "within_memory (mark_last f h) = within_memory h" "th_cursor (mark_last f h) = th_cursor h"
proof -
  have "map record_number (butlast rs @ [f (last rs)]) = map record_number rs" if "rs \<noteq> []" for rs
    using that assms by (cases rs rule: rev_cases) (simp_all add: record_number_def)
  moreover have "length (butlast rs @ [f (last rs)]) = length rs" if "rs \<noteq> []" for rs using that by simp
  ultimately show "window (mark_last f h) = window h" "within_events (mark_last f h) = within_events h"
    "at_present (mark_last f h) = at_present h" "within_memory (mark_last f h) = within_memory h" "th_cursor (mark_last f h) = th_cursor h"
    by (simp_all add: mark_last_def window_def within_events_def at_present_def within_memory_def oldest_def)
qed

lemma find_found: "find P xs = Some x \<Longrightarrow> x \<in> set xs \<and> P x"
  by (induction xs) (auto split: if_splits)

lemma replay_plan_window:
  assumes "window h" "replay_plan h target = Some (c, rs)" "target < th_next_sequence h"
  shows "c \<in> set (th_checkpoints h)" "checkpoint_number c \<le> unat target" "map record_number rs = [Suc (checkpoint_number c)..<Suc (unat target)]"
    "set rs \<subseteq> set (th_records h)"
proof -
  show c: "c \<in> set (th_checkpoints h)" "checkpoint_number c \<le> unat target"
    using assms(2) find_found by (fastforce simp: replay_plan_def checkpoint_number_def word_le_nat_alt)+
  have rs: "rs = filter (\<lambda>r. ck_sequence c < te_sequence r \<and> te_sequence r \<le> target) (th_records h)"
    using assms(2) by (auto simp: replay_plan_def)
  then show "set rs \<subseteq> set (th_records h)" by auto
  have old: "oldest h \<le> checkpoint_number c" using assms(1) c(1) by (cases "th_checkpoints h") (auto simp: window_def oldest_def)
  have "map record_number rs = filter (\<lambda>k. checkpoint_number c < k \<and> k \<le> unat target) (map record_number (th_records h))"
    unfolding rs by (simp add: filter_map comp_def record_number_def checkpoint_number_def word_le_nat_alt word_less_nat_alt)
  also have "\<dots> = filter (\<lambda>k. checkpoint_number c < k) (filter (\<lambda>k. k \<le> unat target) [Suc (oldest h)..<unat (th_next_sequence h)])"
    using assms(1) by (simp add: window_def conj_commute)
  also have "\<dots> = filter (\<lambda>k. checkpoint_number c < k) [Suc (oldest h)..<Suc (unat target)]"
    using filter_upto assms(3) by (simp add: word_less_nat_alt)
  also have "\<dots> = [Suc (checkpoint_number c)..<Suc (unat target)]"
  proof -
    have "[Suc (oldest h)..<Suc (unat target)] = [Suc (oldest h)..<Suc (checkpoint_number c)] @ [Suc (checkpoint_number c)..<Suc (unat target)]"
      using old c(2) upt_add_eq_append [of "Suc (oldest h)" "Suc (checkpoint_number c)" "unat target - checkpoint_number c"] by simp
    then show ?thesis by (auto simp: filter_empty_conv filter_id_conv simp del: upt_Suc)
  qed
  finally show "map record_number rs = [Suc (checkpoint_number c)..<Suc (unat target)]" .
qed

lemma replay_plan_found:
  assumes "window h" "oldest h \<le> unat target"
  shows "\<exists>c rs. replay_plan h target = Some (c, rs)"
proof -
  have "hd (th_checkpoints h) \<in> set (rev (th_checkpoints h))" "ck_sequence (hd (th_checkpoints h)) \<le> target"
    using assms by (simp_all add: window_def oldest_def checkpoint_number_def word_le_nat_alt)
  then have "find (\<lambda>c. ck_sequence c \<le> target) (rev (th_checkpoints h)) \<noteq> None" by (auto simp: find_None_iff)
  then show ?thesis by (auto simp: replay_plan_def)
qed

lemma history_restore_Ok:
  assumes "history_restore host target h s = Some (Ok h', s')"
  obtains c rs s0 where "replay_plan h target = Some (c, rs)" "sim_restore (ck_snapshot c) s = (Ok (), s0)"
    "replay_records host rs s0 = Some (Ok (), s')" "h' = h\<lparr>th_cursor := target\<rparr>"
  using assms that by (auto simp: history_restore_def split: option.splits prod.splits outcome.splits)

lemma restore_window:
  assumes "window h" "within_events h" "target < th_next_sequence h" "history_restore host target h s = Some (Ok h', s')"
  shows "window h' \<and> within_events h'"
proof -
  obtain c rs s0 where "replay_plan h target = Some (c, rs)" "h' = h\<lparr>th_cursor := target\<rparr>" by (rule history_restore_Ok [OF assms(4)])
  moreover have "oldest h \<le> checkpoint_number c"
    using replay_plan_window(1) [OF assms(1) calculation(1) assms(3)] assms(1) by (cases "th_checkpoints h") (auto simp: window_def oldest_def)
  ultimately show ?thesis using replay_plan_window(2) [OF assms(1) _ assms(3)] assms(1-3)
    by (fastforce simp: window_def within_events_def oldest_def)
qed

lemma window_same_checkpoints:
  assumes "window h" "map checkpoint_number cs = map checkpoint_number (th_checkpoints h)"
  shows "window (h\<lparr>th_checkpoints := cs\<rparr>)"
proof -
  have ne: "th_checkpoints h \<noteq> []" "cs \<noteq> []" using assms by (auto simp: window_def)
  then have "checkpoint_number (hd cs) = checkpoint_number (hd (th_checkpoints h))"
    "checkpoint_number (last cs) = checkpoint_number (last (th_checkpoints h))"
    using assms(2) by (metis hd_map, metis last_map)
  then show ?thesis using assms ne by (simp add: window_def oldest_def)
qed

lemma checkpoint_current_window:
  assumes "window h" "within_events h" "at_present h" "checkpoint_current host s h = Ok h'"
  shows "window h' \<and> within_events h' \<and> at_present h'"
proof -
  let ?cs = "th_checkpoints h"
  have ne: "?cs \<noteq> []" using assms(1) by (simp add: window_def)
  let ?kept = "if ck_sequence (last ?cs) = th_cursor h then butlast ?cs else ?cs"
  obtain h1 where h1: "push_checkpoint host s (th_cursor h) (h\<lparr>th_checkpoints := ?kept\<rparr>) = Ok h1"
    "h' = recompute_memory_estimate (dh_layout host) h1"
    using assms(4) ne by (auto simp: checkpoint_current_def Let_def obind_eq_Ok)
  obtain c where c: "ck_sequence c = th_cursor h" "h1 = h\<lparr>th_checkpoints := ?kept @ [c]\<rparr>"
    using push_checkpoint_Ok [OF h1(1)] by auto
  have "window h1"
  proof (cases "ck_sequence (last ?cs) = th_cursor h")
    case True
    then have "map checkpoint_number (?kept @ [c]) = map checkpoint_number (butlast ?cs @ [last ?cs])"
      using c(1) by (simp add: checkpoint_number_def)
    then show ?thesis using window_same_checkpoints [OF assms(1)] c(2) ne by simp
  next
    case False
    then have "checkpoint_number (last ?cs) < unat (th_cursor h)"
      using last_at_present [OF assms(1,3)] by (simp add: checkpoint_number_def le_less word_unat_eq_iff)
    then show ?thesis using push_window [OF assms(1,3) _ c(1)] c(2) False by simp
  qed
  then show ?thesis using h1(2) c(2) assms(2,3) by (simp add: within_events_def at_present_def)
qed

lemma record_stop_window:
  assumes "window h" "unat (th_next_sequence h) + 1 < 2 ^ 64" "fst (sim_snapshot s) = Ok snap"
  shows "\<exists>h'. record_stop host s i line reason h = Some (Ok h') \<and> window h' \<and> at_present h' \<and> within_events h' \<and>
    within_memory h' \<and> unat (th_cursor h') = Suc (unat (th_cursor h))"
proof -
  obtain h1 where "history_record host s i line RaStop \<lparr>eb_reads = [], eb_writes = []\<rparr> None h = Some (Ok h1)" "window h1" "at_present h1"
    "within_events h1" "within_memory h1" "unat (th_cursor h1) = Suc (unat (th_cursor h))"
    using history_record_window [OF assms] by blast
  then show ?thesis by (simp add: record_stop_def mark_last_window)
qed

lemma session_window: "session host kb shape h \<Longrightarrow> window h \<and> within_events h"
proof (induction rule: session.induct)
  case (recorded h s i line action effects error h')
  obtain snap where "fst (sim_snapshot s) = Ok snap" using snapshot_taken [OF recorded(3)] by blast
  then show ?case using history_record_window [of h s snap host i line action effects error] recorded by auto
next
  case (stopped h s i line reason h')
  obtain snap where "fst (sim_snapshot s) = Ok snap" using snapshot_taken [OF stopped(3)] by blast
  then show ?case using record_stop_window [of h s snap host i line reason] stopped by auto
next
  case (started s max_events interval mib h)
  then show ?case using history_new_window by blast
next
  case (rewound h target s h' s')
  then show ?case using restore_window by blast
next
  case (marked h reason)
  then show ?case by (simp add: mark_stop_def mark_last_window)
next
  case (checkpointed h s h')
  then show ?case using checkpoint_current_window by blast
qed

subsection \<open>Replay\<close>

lemma replay_record_hash:
  assumes "replay_record host r s = Some (Ok (), s')"
  shows "sim_hash host s' = te_state_hash r"
  using assms by (auto simp: replay_record_def verify_replay_def Let_def split: option.splits prod.splits outcome.splits if_splits)

lemma replay_records_hash:
  assumes "replay_records host rs s = Some (Ok (), s')" "rs \<noteq> []"
  shows "sim_hash host s' = te_state_hash (last rs)"
  using assms
proof (induction rs arbitrary: s)
  case (Cons r rs)
  then obtain s1 where s1: "replay_record host r s = Some (Ok (), s1)" "replay_records host rs s1 = Some (Ok (), s')"
    by (auto split: option.splits prod.splits outcome.splits)
  then show ?case using Cons.IH [OF s1(2)] replay_record_hash [OF s1(1)] by (cases "rs = []") simp_all
qed simp

lemma sample_quiet_inv: "sim_inv sample_kb (world_shape sample_world) sample_quiet"
  using sample_sim_inv by (simp add: sample_quiet_def sim_inv_def)

lemma sample_started: "\<exists>h. history_new sample_debug_host sample_quiet 10 5 8 = Ok h \<and> th_next_sequence h = 1 \<and> oldest h = 0 \<and> th_cursor h = 0"
proof -
  obtain snap where "fst (sim_snapshot sample_quiet) = Ok snap" using snapshot_taken [OF sample_quiet_inv] by blast
  then show ?thesis by (simp add: history_new_def take_checkpoint_def oldest_def checkpoint_number_def)
qed

lemma sample_restored:
  assumes "history_new sample_debug_host sample_quiet 10 5 8 = Ok h"
  shows "\<exists>s'. history_restore sample_debug_host 0 h sample_quiet = Some (Ok h, s')"
proof -
  obtain snap where snap: "fst (sim_snapshot sample_quiet) = Ok snap" using snapshot_taken [OF sample_quiet_inv] by blast
  then have h: "th_records h = []" "\<exists>c. th_checkpoints h = [c] \<and> ck_snapshot c = snap \<and> ck_sequence c = 0" "th_cursor h = 0"
    using assms by (auto simp: history_new_def take_checkpoint_def)
  then have "\<exists>c. replay_plan h 0 = Some (c, []) \<and> ck_snapshot c = snap" by (auto simp: replay_plan_def)
  moreover have "\<exists>s'. sim_restore snap sample_quiet = (Ok (), s')"
    using snap by (auto simp: sim_snapshot_def sim_restore_def prog_simps sample_quiet_def)
  moreover have "h\<lparr>th_cursor := 0\<rparr> = h" using h(3) by simp
  ultimately show ?thesis by (auto simp: history_restore_def)
qed

section \<open>Properties\<close>

text \<open>C7: The history of a debug session is a bounded window. However a session records, stops, rewinds, marks and
  checkpoints, its history keeps every step from its oldest checkpoint to the newest one, numbered without gaps, with
  checkpoints in strictly increasing order between them, at most as many steps as allowed, and its cursor inside; and
  recording the next step always ends, forgets the abandoned future, moves the cursor on by one, and leaves a history whose memory estimate
  is within its limit or that holds nothing but one checkpoint.\<close>

theorem debug_history_bounded:
  assumes "session host kb shape h" "unat (th_next_sequence h) + 1 < 2 ^ 64" "sim_inv kb shape s"
  shows "window h \<and> within_events h \<and>
    (\<exists>h'. history_record host s i line action effects error h = Some (Ok h') \<and> session host kb shape h' \<and> within_memory h' \<and>
       at_present h' \<and> unat (th_cursor h') = unat (th_cursor h) + 1)"
proof -
  obtain snap where "fst (sim_snapshot s) = Ok snap" using snapshot_taken [OF assms(3)] by blast
  then show ?thesis
    using history_record_window [OF _ assms(2), of s snap host i line action effects error] session_window [OF assms(1)]
      session.recorded [OF assms, of i line action effects error] by auto
qed

theorem debug_history_bounded_witness:
  "\<exists>h h'. history_new sample_debug_host sample_quiet 10 5 8 = Ok h \<and>
     history_record sample_debug_host sample_quiet 0 0 RaWorldTick \<lparr>eb_reads = [], eb_writes = []\<rparr> None h = Some (Ok h') \<and>
     within_memory h' \<and> unat (th_cursor h') = 1"
proof -
  obtain h where h: "history_new sample_debug_host sample_quiet 10 5 8 = Ok h" "th_next_sequence h = 1" "th_cursor h = 0"
    using sample_started by blast
  then have "unat (th_next_sequence h) + 1 < 2 ^ 64" by simp
  from debug_history_bounded [OF session.started [OF h(1)] this sample_quiet_inv, of 0 0 RaWorldTick "\<lparr>eb_reads = [], eb_writes = []\<rparr>" None]
  show ?thesis using h by auto
qed

text \<open>C8: Going back reaches the state asked for. In a debug session, restoring a retained state replays exactly the steps from the
  last checkpoint before it, none missing and none too many; and when it succeeds, the cursor stands at that state, and the simulator
  is the restored checkpoint itself, or has the hash that was recorded with that step.\<close>

theorem restore_reaches_state:
  assumes "session host kb shape h" "oldest h \<le> unat target" "target < th_next_sequence h"
    and "history_restore host target h s = Some (Ok h', s')"
  shows "th_cursor h' = target \<and>
    (\<exists>c rs. replay_plan h target = Some (c, rs) \<and> map record_number rs = [checkpoint_number c + 1..<unat target + 1] \<and>
       (if checkpoint_number c = unat target then sim_restore (ck_snapshot c) s = (Ok (), s')
        else \<exists>r \<in> set (th_records h). te_sequence r = target \<and> sim_hash host s' = te_state_hash r))"
proof -
  have w: "window h" using session_window [OF assms(1)] by blast
  obtain c rs s0 where c: "replay_plan h target = Some (c, rs)" "sim_restore (ck_snapshot c) s = (Ok (), s0)"
    "replay_records host rs s0 = Some (Ok (), s')" "h' = h\<lparr>th_cursor := target\<rparr>" by (rule history_restore_Ok [OF assms(4)])
  note plan = replay_plan_window [OF w c(1) assms(3)]
  show ?thesis
  proof (cases "rs = []")
    case True
    then have "checkpoint_number c = unat target" using plan(2,3) by (auto simp: upt_eq_Nil_conv dest: sym split: if_splits)
    then show ?thesis using c True plan(3) by auto
  next
    case False
    then have "record_number (last rs) = last [Suc (checkpoint_number c)..<Suc (unat target)]" using plan(3) by (metis last_map)
    moreover have lt: "checkpoint_number c < unat target" using False plan(2,3) by (cases "checkpoint_number c = unat target") auto
    ultimately have "te_sequence (last rs) = target" by (simp add: record_number_def word_unat_eq_iff)
    moreover have "last rs \<in> set (th_records h)" using False plan(4) last_in_set by blast
    ultimately show ?thesis using c plan(3) lt replay_records_hash [OF c(3) False] by auto
  qed
qed

theorem restore_reaches_state_witness:
  "\<exists>h s'. history_new sample_debug_host sample_quiet 10 5 8 = Ok h \<and>
     history_restore sample_debug_host 0 h sample_quiet = Some (Ok h, s') \<and> (\<exists>c. replay_plan h 0 = Some (c, []))"
proof -
  obtain h where h: "history_new sample_debug_host sample_quiet 10 5 8 = Ok h" "th_next_sequence h = 1" "oldest h = 0"
    using sample_started by blast
  obtain s' where s': "history_restore sample_debug_host 0 h sample_quiet = Some (Ok h, s')" using sample_restored [OF h(1)] by blast
  have "oldest h \<le> unat (0 :: u64)" "(0 :: u64) < th_next_sequence h" using h by simp_all
  from restore_reaches_state [OF session.started [OF h(1), of sample_kb "world_shape sample_world"] this s'] h(1) s'
  show ?thesis by (auto simp: upt_eq_Nil_conv)
qed

end
