(* ===== verification/Debug_Tools.thy ===== *)
theory Debug_Tools
  imports Debug_History Evaluator
begin

text \<open>
  The decisions of the debug adapter, \<open>crates/ic10-dap/src/main.rs\<close>, that do not depend on its protocol: the handles it
  gives to the editor, breakpoints with hit counts, conditions and log messages, data breakpoints, the values it remembers between
  stops, and the bookkeeping after going back in the history.
\<close>

unbundle bit_operations_syntax

section \<open>Handles\<close>

definition registers_scope :: u64 where "registers_scope = 1"
definition stack_scope :: u64 where "stack_scope = 2"
definition device_scope :: u64 where "device_scope = 6"
definition network_scope :: u64 where "network_scope = 8"
definition device_slot_scope :: u64 where "device_slot_scope = 10"
definition device_memory_scope :: u64 where "device_memory_scope = 11"
definition lua_scope :: u64 where "lua_scope = 12"

definition dap_reference :: "u64 \<Rightarrow> usize \<Rightarrow> usize \<Rightarrow> u64" where
  "dap_reference kind thread index = push_bit 48 kind OR push_bit 32 (of_nat thread) OR (of_nat index + 1)"

definition decode_reference :: "u64 \<Rightarrow> string + (u64 \<times> usize \<times> usize)" where
  "decode_reference v =
     (let kind = drop_bit 48 v; thread = unat (drop_bit 32 v AND 0xFFFF); index = v AND 0xFFFFFFFF
      in if index = 0 then Inl (''invalid variable reference '' @ show_nat (unat v)) else Inr (kind, thread, unat (index - 1)))"

definition composite_index :: "usize \<Rightarrow> usize \<Rightarrow> usize" where
  "composite_index first second = (push_bit 16 first OR (second AND 0xFFFF)) mod 2 ^ 64"

definition decode_composite_index :: "usize \<Rightarrow> usize \<times> usize" where
  "decode_composite_index v = (drop_bit 16 v, v AND 0xFFFF)"

definition goto_target_id :: "usize \<Rightarrow> usize \<Rightarrow> u64" where
  "goto_target_id thread line = push_bit 32 (of_nat thread + 1) OR of_nat line"

definition decode_goto_target :: "u64 \<Rightarrow> string + (usize \<times> usize)" where
  "decode_goto_target v =
     (if drop_bit 32 v = 0 then Inl ''invalid goto target''
      else Inr (unat (drop_bit 32 v) - 1, unat (v AND 0xFFFFFFFF)))"

definition trim_brackets :: "string \<Rightarrow> string" where
  "trim_brackets name =
     (let bracket = (\<lambda>c. c = CHR ''['' \<or> c = CHR '']'') in rev (dropWhile bracket (rev (dropWhile bracket name))))"

text \<open>The expression that reads a variable of a scope.\<close>

definition expression_for_variable :: "'vm simulator \<Rightarrow> u64 \<Rightarrow> usize \<Rightarrow> string \<Rightarrow> string option" where
  "expression_for_variable s kind index name =
     (let device = (\<lambda>i f. map_option (\<lambda>d. ''device(\"'' @ dv_id d @ ''\").'' @ f) (nth_opt (w_devices (s_world s)) i))
      in if kind = registers_scope then Some name
         else if kind = stack_scope then Some (''stack['' @ trim_brackets name @ '']'')
         else if kind = device_scope then device index name
         else if kind = device_slot_scope then
           (case decode_composite_index index of (i, slot) \<Rightarrow> device i (''slot['' @ show_nat slot @ ''].'' @ name))
         else if kind = device_memory_scope then device index (''memory['' @ trim_brackets name @ '']'')
         else if kind = network_scope then
           map_option (\<lambda>n. ''network(\"'' @ nw_id n @ ''\").'' @ name) (nth_opt (w_networks (s_world s)) index)
         else None)"

section \<open>Breakpoints\<close>

record source_breakpoint =
  sb_id :: u64
  sb_line :: usize
  sb_condition :: "string option"
  sb_hit_condition :: "string option"
  sb_log_message :: "string option"
  sb_hits :: u64

record data_breakpoint =
  db_id :: u64
  db_thread :: usize
  db_expression :: string
  db_condition :: "string option"
  db_hit_condition :: "string option"
  db_hits :: u64

datatype breakpoint_action = BaIgnore | BaStop | BaLog string

definition hit_operators :: "string list" where
  "hit_operators = [''>='', ''<='', ''=='', ''!='', ''>'', ''<'', ''%'']"

definition compare_hits :: "string \<Rightarrow> u64 \<Rightarrow> u64 \<Rightarrow> bool" where
  "compare_hits op hits n =
     (if op = ''=='' then hits = n
      else if op = ''!='' then hits \<noteq> n
      else if op = ''>='' then n \<le> hits
      else if op = ''<='' then hits \<le> n
      else if op = ''>'' then n < hits
      else if op = ''<'' then hits < n
      else if op = ''%'' then (if n = 0 then hits = 0 else hits mod n = 0)
      else False)"

fun split_operator_prefix :: "string list \<Rightarrow> string \<Rightarrow> (string \<times> string) option" where
  "split_operator_prefix [] condition = None"
| "split_operator_prefix (op # ops) condition =
     (case strip_prefix op condition of Some rest \<Rightarrow> Some (op, trim rest) | None \<Rightarrow> split_operator_prefix ops condition)"

definition hit_condition_matches :: "string option \<Rightarrow> u64 \<Rightarrow> (string, bool) outcome" where
  "hit_condition_matches condition hits =
     (case map_option trim condition of
        None \<Rightarrow> Ok True
      | Some condition \<Rightarrow>
          if condition = [] then Ok True
          else
            (let (op, number) = (case split_operator_prefix hit_operators condition of Some p \<Rightarrow> p | None \<Rightarrow> (''=='', condition))
             in case parse_u64 number of
                  None \<Rightarrow> Err (''`'' @ condition @ ''` must be a count such as `5`, `>= 3`, or `% 2`'')
                | Some n \<Rightarrow> Ok (compare_hits op hits n)))"

definition validate_hit_condition :: "string \<Rightarrow> (string, unit) outcome" where
  "validate_hit_condition condition = obind (hit_condition_matches (Some condition) 1) (\<lambda>_. Ok ())"

section \<open>Remembered values\<close>

definition canonical_expression :: "string \<Rightarrow> string" where
  "canonical_expression = filter (\<lambda>c. \<not> is_whitespace c)"

definition same_number :: "f64 \<Rightarrow> f64 \<Rightarrow> bool" where
  "same_number a b \<longleftrightarrow> (is_nan a \<and> is_nan b) \<or> to_bits a = to_bits b"

definition watch_changed :: "(string \<rightharpoonup> f64) \<Rightarrow> string \<Rightarrow> f64 \<Rightarrow> bool" where
  "watch_changed previous target current =
     (case previous (canonical_expression target) of Some v \<Rightarrow> \<not> same_number v current | None \<Rightarrow> False)"

definition register_name :: "nat \<Rightarrow> string" where
  "register_name i = (if i = return_address_register then ''ra'' else if i = stack_pointer_register then ''sp'' else ''r'' @ show_nat i)"

definition cpu_values :: "cpu \<Rightarrow> (string \<rightharpoonup> f64) \<Rightarrow> (string \<rightharpoonup> f64)" where
  "cpu_values c m =
     fold (\<lambda>(i, v) m. m(''stack['' @ show_nat i @ '']'' \<mapsto> v)) (List.enumerate 0 (c_stack c))
       (fold (\<lambda>i m. case m (register_name i) of None \<Rightarrow> m(register_name i \<mapsto> c_registers c ! i) | Some _ \<Rightarrow> m) [0..<register_count] m)"

definition device_values :: "device \<Rightarrow> (string \<rightharpoonup> f64) \<Rightarrow> (string \<rightharpoonup> f64)" where
  "device_values d m =
     (let name = (\<lambda>f. ''device(\"'' @ dv_id d @ ''\").'' @ f)
      in fold (\<lambda>(i, v) m. m(name (''memory['' @ show_nat i @ '']'') \<mapsto> v)) (List.enumerate 0 (dv_memory d))
           (fold (\<lambda>(slot, fs) m. fold (\<lambda>(f, v) m. m(name (''slot['' @ show_nat slot @ ''].'' @ f) \<mapsto> v)) fs m) (dv_slots d)
             (fold (\<lambda>(f, v) m. m(name f \<mapsto> v)) (dv_fields d) m)))"

definition network_values :: "network \<Rightarrow> (string \<rightharpoonup> f64) \<Rightarrow> (string \<rightharpoonup> f64)" where
  "network_values n m =
     fold (\<lambda>(i, v) m. m(''network(\"'' @ nw_id n @ ''\").Channel'' @ show_nat i \<mapsto> v)) (List.enumerate 0 (nw_channels n)) m"

definition snapshot_values :: "'vm simulator \<Rightarrow> string \<rightharpoonup> f64" where
  "snapshot_values s =
     fold network_values (w_networks (s_world s)) (fold device_values (w_devices (s_world s)) (fold cpu_values (s_cpus s) Map.empty))"

section \<open>Stopping and logging\<close>

text \<open>The text between braces is evaluated, everything else is copied.\<close>

function interpolate :: "(string \<Rightarrow> (string, string) outcome) \<Rightarrow> string \<Rightarrow> string \<Rightarrow> (string, string) outcome" where
  "interpolate eval rest rendered =
     (case split_once ''{'' rest of
        None \<Rightarrow> if CHR ''}'' \<in> set rest then Err ''logpoint has an unmatched `}`'' else Ok (rendered @ rest)
      | Some (before, expression) \<Rightarrow>
          (case split_once ''}'' expression of
             None \<Rightarrow> Err ''logpoint has an unmatched `{`''
           | Some (inner, rest') \<Rightarrow>
               if trim inner = [] then Err ''logpoint interpolation cannot be empty''
               else obind (eval (trim inner)) (\<lambda>v. interpolate eval rest' (rendered @ before @ v))))"
  by pat_completeness auto
termination
  by (relation "measure (\<lambda>(_, rest, _). length rest)") (auto dest!: split_once_SomeD)

declare interpolate.simps [simp del]

definition interpolate_log_message :: "'vm simulator \<Rightarrow> usize \<Rightarrow> string \<Rightarrow> (string \<rightharpoonup> f64) \<Rightarrow> (string, string) outcome" where
  "interpolate_log_message s thread message previous =
     interpolate (\<lambda>e. obind (evaluate_with_changed (watch_changed previous) s thread e) (\<lambda>v. Ok (display_value v))) message []"

definition condition_holds :: "'vm simulator \<Rightarrow> usize \<Rightarrow> (string \<rightharpoonup> f64) \<Rightarrow> string \<Rightarrow> (string, bool) outcome" where
  "condition_holds s thread previous condition =
     obind (evaluate_with_changed (watch_changed previous) s thread condition) truthy"

definition breakpoint_action_of :: "'vm simulator \<Rightarrow> usize \<Rightarrow> source_breakpoint \<Rightarrow> u64 \<Rightarrow> (string \<rightharpoonup> f64) \<Rightarrow> (string, breakpoint_action) outcome" where
  "breakpoint_action_of s thread b hits previous =
     obind (hit_condition_matches (sb_hit_condition b) hits) (\<lambda>hit.
     if \<not> hit then Ok BaIgnore
     else obind (case sb_condition b of
                   Some condition \<Rightarrow> if sb_line b \<noteq> 0 then condition_holds s thread previous condition else Ok True
                 | None \<Rightarrow> Ok True) (\<lambda>holds.
          if \<not> holds then Ok BaIgnore
          else case sb_log_message b of
                 None \<Rightarrow> Ok BaStop
               | Some message \<Rightarrow> obind (interpolate_log_message s thread message previous) (\<lambda>text. Ok (BaLog text))))"

definition breakpoint_action_lua :: "source_breakpoint \<Rightarrow> u64 \<Rightarrow> (string, breakpoint_action) outcome" where
  "breakpoint_action_lua b hits =
     obind (hit_condition_matches (sb_hit_condition b) hits) (\<lambda>hit.
     if \<not> hit then Ok BaIgnore
     else case sb_log_message b of Some message \<Rightarrow> Ok (BaLog message) | None \<Rightarrow> Ok BaStop)"

section \<open>Data breakpoints\<close>

definition watched_number :: "'vm simulator \<Rightarrow> data_breakpoint \<Rightarrow> (string, f64) outcome" where
  "watched_number s b = obind (evaluate s (db_thread b) (db_expression b)) number_value"

fun data_values :: "'vm simulator \<Rightarrow> data_breakpoint list \<Rightarrow> (string, u64 \<rightharpoonup> f64) outcome" where
  "data_values s [] = Ok Map.empty"
| "data_values s (b # bs) =
     obind (data_values s bs) (\<lambda>m.
     case watched_number s b of
       Ok v \<Rightarrow> Ok (if m (db_id b) = None then m(db_id b \<mapsto> v) else m)
     | Err _ \<Rightarrow> Ok m
     | Panic \<Rightarrow> Panic)"

text \<open>
  The first data breakpoint whose value has changed and that wants to stop. An error of any of them ends the search
  (\<open>ok()?\<close>); the hits counted so far are kept.
\<close>

fun changed_data_breakpoint :: "'vm simulator \<Rightarrow> (u64 \<rightharpoonup> f64) \<Rightarrow> (string \<rightharpoonup> f64) \<Rightarrow> data_breakpoint list
    \<Rightarrow> (string, string option \<times> data_breakpoint list) outcome" where
  "changed_data_breakpoint s before previous [] = Ok (None, [])"
| "changed_data_breakpoint s before previous (b # bs) =
     (let skip = (\<lambda>b. obind (changed_data_breakpoint s before previous bs) (\<lambda>(found, bs). Ok (found, b # bs)))
      in case watched_number s b of
           Panic \<Rightarrow> Panic
         | Err _ \<Rightarrow> Ok (None, b # bs)
         | Ok current \<Rightarrow>
             if (case before (db_id b) of Some v \<Rightarrow> same_number v current | None \<Rightarrow> True) then skip b
             else
               (let b' = b\<lparr>db_hits := db_hits b + 1\<rparr>
                in case hit_condition_matches (db_hit_condition b) (db_hits b') of
                     Panic \<Rightarrow> Panic
                   | Err _ \<Rightarrow> Ok (None, b' # bs)
                   | Ok False \<Rightarrow> skip b'
                   | Ok True \<Rightarrow>
                       (case (case db_condition b of Some condition \<Rightarrow> condition_holds s (db_thread b) previous condition | None \<Rightarrow> Ok True) of
                          Panic \<Rightarrow> Panic
                        | Err _ \<Rightarrow> Ok (None, b' # bs)
                        | Ok False \<Rightarrow> skip b'
                        | Ok True \<Rightarrow> Ok (Some (db_expression b), b' # bs))))"

section \<open>Bookkeeping\<close>

definition exception_category :: "string \<Rightarrow> string" where
  "exception_category message =
     (let lower = to_ascii_lowercase message
      in if contains ''device'' lower \<or> contains ''pin'' lower then ''device''
         else if contains ''address'' lower \<or> contains ''stack'' lower \<or> contains ''memory'' lower then ''address''
         else if contains ''access'' lower \<or> contains ''writable'' lower \<or> contains ''readable'' lower then ''access''
         else ''instruction'')"

text \<open>Hits after going back are counted again from the retained steps up to the cursor.\<close>

definition source_hits :: "trace_history \<Rightarrow> string \<Rightarrow> usize \<Rightarrow> u64" where
  "source_hits h source line =
     of_nat (length (filter (\<lambda>r. te_sequence r \<le> th_cursor h \<and> record_source h r = source \<and> te_line r = line) (th_records h)))"

definition function_hits :: "trace_history \<Rightarrow> usize \<Rightarrow> u64" where
  "function_hits h line = of_nat (length (filter (\<lambda>r. te_sequence r \<le> th_cursor h \<and> te_line r = line) (th_records h)))"

fun count_written :: "'vm simulator \<Rightarrow> string \<Rightarrow> trace_record list \<Rightarrow> (sim_error, nat) outcome" where
  "count_written s target [] = Ok 0"
| "count_written s target (r # rs) =
     obind (find_write s target (eb_writes (te_effects r))) (\<lambda>found.
     obind (count_written s target rs) (\<lambda>n. Ok (if found = None then n else n + 1)))"

definition data_hits :: "trace_history \<Rightarrow> 'vm simulator \<Rightarrow> data_breakpoint \<Rightarrow> (sim_error, u64) outcome" where
  "data_hits h s b =
     obind (count_written s (db_expression b) (filter (\<lambda>r. te_sequence r \<le> th_cursor h) (th_records h))) (\<lambda>n. Ok (of_nat n))"

definition runtime_line :: "'vm simulator \<Rightarrow> usize \<Rightarrow> usize option" where
  "runtime_line s i =
     (case nth_opt (s_cpus s) i of
        Some c \<Rightarrow> (case current_line c of Some line \<Rightarrow> Some line | None \<Rightarrow> Some (c_pc c))
      | None \<Rightarrow>
          map_option (\<lambda>r. if l_frames r = [] then l_current_line r - 1 else lf_line (last (l_frames r)) - 1)
            (nth_opt (s_lua_programs s) (i - length (s_cpus s))))"

definition runtime_source_path :: "'vm simulator \<Rightarrow> usize \<Rightarrow> string option" where
  "runtime_source_path s i =
     map_option (\<lambda>r. if l_current_source_path r \<noteq> [] then l_current_source_path r else l_source_path r)
       (nth_opt (s_lua_programs s) (i - length (s_cpus s)))"

definition parse_debug_number :: "string \<Rightarrow> string + f64" where
  "parse_debug_number v =
     (let v = trim v
      in if v \<in> {''NaN'', ''nan''} then Inr f64_nan
         else if v \<in> {''pinf'', ''Infinity'', ''+Infinity'', ''inf'', ''+inf''} then Inr (mk False inf_mag)
         else if v \<in> {''ninf'', ''-Infinity'', ''-inf''} then Inr (mk True inf_mag)
         else case parse_f64 v of Some x \<Rightarrow> Inr x | None \<Rightarrow> Inl (''`'' @ v @ ''` is not a number''))"

section \<open>Setting a variable\<close>

text \<open>
  The cell that \<open>setVariable\<close> changes, from the parts of the variable's handle, its name and the parsed value. Devices and networks are
  looked up for their own scopes only.
\<close>

definition set_variable_cell :: "u64 \<Rightarrow> usize \<Rightarrow> usize \<Rightarrow> string \<Rightarrow> f64 \<Rightarrow> ('vm simulator, string, unit) prog" where
  "set_variable_cell kind thread index name v =
     (if kind = lua_scope then throw ''Lua locals are read-only in the current debugger session''
      else if kind = registers_scope then
        bind (ok_or (''invalid register `'' @ name @ ''`'') (direct_register_index name)) (\<lambda>register.
        map_prog_err setter_error_text (set_register_as thread register v ActorDebugger))
      else if kind = stack_scope then
        bind (ok_or (''invalid stack address `'' @ name @ ''`'') (parse_usize (trim_brackets name))) (\<lambda>address.
        map_prog_err setter_error_text (set_stack_as thread address v ActorDebugger))
      else if kind = device_scope then
        bind (gets (\<lambda>s. nth_opt (w_devices (s_world s)) index)) (\<lambda>found.
        bind (ok_or (''unknown device index '' @ show_nat index) found) (\<lambda>d.
        map_prog_err setter_error_text (set_device_field_as (dv_id d) name v ActorDebugger)))
      else if kind = device_slot_scope then
        (case decode_composite_index index of (device, slot) \<Rightarrow>
           map_prog_err setter_error_text (set_device_slot_as device slot name v ActorDebugger))
      else if kind = device_memory_scope then
        bind (ok_or (''invalid device memory address `'' @ name @ ''`'') (parse_usize (trim_brackets name))) (\<lambda>address.
        map_prog_err setter_error_text (set_device_memory_as index address v ActorDebugger))
      else if kind = network_scope then
        bind (ok_or (''invalid channel `'' @ name @ ''`'') (channel_index name)) (\<lambda>channel.
        bind (gets (\<lambda>s. nth_opt (w_networks (s_world s)) index)) (\<lambda>found.
        bind (ok_or (''unknown network index '' @ show_nat index) found) (\<lambda>n.
        if \<not> eq_ignore_ascii_case (nw_kind n) ''cable'' then throw (''network `'' @ nw_id n @ ''` does not expose channels'')
        else map_prog_err setter_error_text (set_network_channel_as index channel v ActorDebugger))))
      else throw ''variables in this scope are not editable'')"

end
