(* ===== verification/Debug_Tools_Correct.thy ===== *)
theory Debug_Tools_Correct
  imports Debug_Tools Simulator_Tools_Correct
begin

text \<open>
  The handles of the debug adapter can be read back, hit counts mean what they say, and the data breakpoint that
  stops is the first one whose value has changed.
\<close>

section \<open>Vocabulary\<close>

text \<open>A watched value that was known before and differs now.\<close>

definition value_changed :: "'vm simulator \<Rightarrow> (u64 \<rightharpoonup> f64) \<Rightarrow> data_breakpoint \<Rightarrow> bool" where
  "value_changed s before b =
     (case (watched_number s b, before (db_id b)) of (Ok v, Some x) \<Rightarrow> \<not> same_number x v | _ \<Rightarrow> False)"

section \<open>Lemmas\<close>

unbundle bit_operations_syntax

lemma bit_below:
  assumes "unat (w :: u64) < 2 ^ n" "bit w m"
  shows "m < n"
proof -
  have "unat (take_bit n w) = unat w" using assms(1) by (simp only: unsigned_take_bit_eq take_bit_nat_eq_self)
  then have "take_bit n w = w" by (rule unsigned_word_eqI)
  then have "bit (take_bit n w) m" using assms(2) by simp
  then show ?thesis by (simp add: bit_take_bit_iff)
qed

lemma below_bits:
  assumes "\<And>m. bit (v :: u64) m \<Longrightarrow> m < n"
  shows "unat v < 2 ^ n"
proof -
  have "take_bit n v = v" by (rule bit_word_eqI) (use assms in \<open>auto simp: bit_take_bit_iff\<close>)
  then have "unat v = take_bit n (unat v)" by (metis unsigned_take_bit_eq)
  then show ?thesis by (metis take_bit_nat_less_exp)
qed

lemma reference_parts:
  assumes "unat (k :: u64) < 2 ^ 16" "unat (t :: u64) < 2 ^ 16" "unat (j :: u64) < 2 ^ 32"
  shows "drop_bit 48 (push_bit 48 k OR push_bit 32 t OR j) = k"
    "drop_bit 32 (push_bit 48 k OR push_bit 32 t OR j) AND 0xFFFF = t"
    "(push_bit 48 k OR push_bit 32 t OR j) AND 0xFFFFFFFF = j"
proof -
  have mask: "(0xFFFF :: u64) = mask 16" "(0xFFFFFFFF :: u64) = mask 32" by (simp_all add: mask_eq_exp_minus_1)
  have k: "bit k m \<Longrightarrow> m < 16" and t: "bit t m \<Longrightarrow> m < 16" and j: "bit j m \<Longrightarrow> m < 32" for m
    using bit_below assms by blast+
  show "drop_bit 48 (push_bit 48 k OR push_bit 32 t OR j) = k"
    by (rule bit_word_eqI) (use k in \<open>fastforce simp: bit_simps dest: t j\<close>)
  show "drop_bit 32 (push_bit 48 k OR push_bit 32 t OR j) AND 0xFFFF = t"
    unfolding mask by (rule bit_word_eqI) (use t in \<open>fastforce simp: bit_simps dest: j\<close>)
  show "(push_bit 48 k OR push_bit 32 t OR j) AND 0xFFFFFFFF = j"
    unfolding mask by (rule bit_word_eqI) (use j in \<open>fastforce simp: bit_simps\<close>)
qed

lemma reference_below:
  assumes "unat (k :: u64) < 32" "unat (t :: u64) < 2 ^ 16" "unat (j :: u64) < 2 ^ 32"
  shows "unat (push_bit 48 k OR push_bit 32 t OR j) < 2 ^ 53"
proof -
  have "unat k < 2 ^ 5" using assms(1) by simp
  then have k: "bit k m \<Longrightarrow> m < 5" and t: "bit t m \<Longrightarrow> m < 16" and j: "bit j m \<Longrightarrow> m < 32" for m
    using bit_below assms by blast+
  show ?thesis by (rule below_bits) (auto simp: bit_or_iff bit_push_bit_iff dest!: k t j)
qed

subsection \<open>Hit conditions\<close>

lemma trim_digits: "trim (show_nat n) = show_nat n"
proof -
  have "\<not> is_whitespace c" if "c \<in> set (show_nat n)" for c
    using show_nat_digits [OF that] by (auto simp: is_whitespace_def is_digit_def)
  then have "dropWhile is_whitespace xs = xs" if "set xs \<subseteq> set (show_nat n)" for xs
    using that by (cases xs) auto
  then show ?thesis by (simp add: trim_def trim_start_def trim_end_def)
qed

lemma parse_show_u64:
  assumes "n < 2 ^ 64"
  shows "parse_u64 (show_nat n) = Some (of_nat n)"
proof (cases n)
  case 0
  moreover have "parse_u64 (show_nat 0) = Some 0" by code_simp
  ultimately show ?thesis by simp
next
  case (Suc m)
  then obtain z where "parse_unsigned 10 (2 ^ 64 - 1) (show_nat n) = Some z" "nat z = n"
    using parse_usize_show [of n] assms by (auto simp: parse_usize_def usize_max_def)
  moreover have "z = int n" using calculation(2) Suc by linarith
  ultimately show ?thesis by (simp add: parse_u64_def)
qed

lemma hit_operator_split:
  assumes "op \<in> set hit_operators"
  shows "split_operator_prefix hit_operators (op @ show_nat n) = Some (op, show_nat n)"
proof -
  obtain d ds where d: "show_nat n = d # ds" using show_nat_nonempty by (cases "show_nat n") auto
  then have "is_digit d" using show_nat_digits [of d n] by simp
  then have "d \<noteq> CHR ''=''" by (auto simp: is_digit_def code_def)
  then show ?thesis using assms d trim_digits [of n] by (auto simp: hit_operators_def)
qed

lemma trim_condition: "op \<in> set hit_operators \<Longrightarrow> trim (op @ show_nat n) = op @ show_nat n"
proof -
  assume op: "op \<in> set hit_operators"
  have "\<not> is_whitespace c" if "c \<in> set (op @ show_nat n)" for c
    using that op show_nat_digits [of c n] by (auto simp: is_whitespace_def is_digit_def hit_operators_def code_def)
  then have "dropWhile is_whitespace xs = xs" if "set xs \<subseteq> set (op @ show_nat n)" for xs
    using that by (cases xs) auto
  then show ?thesis by (simp add: trim_def trim_start_def trim_end_def)
qed

text \<open>A hit condition compares the hits with its count as its operator says: for each of the seven operators and
  every 64-bit count, written without blanks.\<close>

lemma hit_condition_exact:
  assumes "op \<in> set hit_operators" "n < 2 ^ 64"
  shows "hit_condition_matches (Some (op @ show_nat n)) hits = Ok (compare_hits op hits (of_nat n))"
  using hit_operator_split [OF assms(1), of n] trim_condition [OF assms(1), of n] parse_show_u64 [OF assms(2)] show_nat_nonempty [of n]
  by (simp add: hit_condition_matches_def)

subsection \<open>Data breakpoints\<close>

lemma changed_first:
  assumes "\<And>b. b \<in> set bs \<Longrightarrow> watched_number s b \<noteq> Panic \<and> (\<forall>e. watched_number s b \<noteq> Err e)"
    and "\<And>b. b \<in> set bs \<Longrightarrow> db_hit_condition b = None \<and> db_condition b = None"
  shows "\<exists>bs'. changed_data_breakpoint s before previous bs = Ok (map_option db_expression (find (value_changed s before) bs), bs')"
  using assms
proof (induction bs)
  case (Cons b bs)
  obtain v where v: "watched_number s b = Ok v" using Cons.prems(1) [of b] by (cases "watched_number s b") auto
  obtain bs' where rest: "changed_data_breakpoint s before previous bs = Ok (map_option db_expression (find (value_changed s before) bs), bs')"
    using Cons by auto
  have "value_changed s before b \<longleftrightarrow> \<not> (case before (db_id b) of Some x \<Rightarrow> same_number x v | None \<Rightarrow> True)"
    using v by (simp add: value_changed_def split: option.splits)
  then show ?case using v rest Cons.prems(2) [of b] by (auto simp: hit_condition_matches_def Let_def)
qed simp

section \<open>Setting a variable\<close>

lemmas scope_defs = registers_scope_def stack_scope_def device_scope_def lua_scope_def network_scope_def device_slot_scope_def
  device_memory_scope_def

lemma map_prog_err_cases: "map_prog_err f m s = (r, s') \<Longrightarrow> \<exists>q. m s = (q, s') \<and> (r = Panic \<longleftrightarrow> q = Panic)"
  by (auto simp: map_prog_err_def split: prod.splits outcome.splits)

text \<open>
  The handles that the adapter itself gave out name devices that exist. Any other handle of a slot or of a memory cell
  makes the adapter panic, while the other scopes report an error.
\<close>

theorem set_variable_panics:
  assumes "sim_inv kb sh s" "set_variable_cell kind thread index name v s = (r, s')"
  shows "sim_inv kb sh s' \<and> (r = Panic \<longleftrightarrow>
    kind = device_slot_scope \<and> length (fst sh) \<le> fst (decode_composite_index index) \<or>
    kind = device_memory_scope \<and> parse_usize (trim_brackets name) \<noteq> None \<and> length (fst sh) \<le> index)"
proof -
  have cell: "sim_inv kb sh u' \<and> (q = Panic \<longleftrightarrow> \<not> target_exists t sh)"
    if "map_prog_err setter_error_text (tool_write_as t ActorDebugger) s = (q, u')" for t q u'
    using map_prog_err_cases [OF that] tool_write_safe [OF assms(1)] tool_write_missing [OF assms(1)] assms(1) by metis
  have w: "world_shape (s_world s) = sh" using assms(1) by (simp add: sim_inv_def world_inv_def)
  consider "kind \<notin> {registers_scope, stack_scope, device_scope, device_slot_scope, device_memory_scope, network_scope}"
    | "kind = registers_scope" | "kind = stack_scope" | "kind = device_scope" | "kind = device_slot_scope"
    | "kind = device_memory_scope" | "kind = network_scope" by blast
  then show ?thesis
  proof cases
    case 1
    then show ?thesis using assms by (auto simp: set_variable_cell_def prog_simps split: if_splits)
  next
    case 2
    then have "set_variable_cell kind thread index name v s =
        (bind (ok_or (''invalid register `'' @ name @ ''`'') (direct_register_index name))
        (\<lambda>register. map_prog_err setter_error_text (tool_write_as (SetRegister thread register v) ActorDebugger))) s"
      by (simp add: set_variable_cell_def scope_defs)
    then show ?thesis using 2 assms cell [of "SetRegister thread _ v"]
      by (cases "direct_register_index name") (auto simp: prog_simps bind_def scope_defs)
  next
    case 3
    then have "set_variable_cell kind thread index name v s =
        (bind (ok_or (''invalid stack address `'' @ name @ ''`'') (parse_usize (trim_brackets name)))
          (\<lambda>address. map_prog_err setter_error_text (tool_write_as (SetStack thread address v) ActorDebugger))) s"
      by (simp add: set_variable_cell_def scope_defs)
    then show ?thesis using 3 assms cell [of "SetStack thread _ v"]
      by (cases "parse_usize (trim_brackets name)") (auto simp: prog_simps bind_def scope_defs)
  next
    case 4
    then have "set_variable_cell kind thread index name v s =
        (bind (gets (\<lambda>s. nth_opt (w_devices (s_world s)) index))
        (\<lambda>found. bind (ok_or (''unknown device index '' @ show_nat index) found)
        (\<lambda>d. map_prog_err setter_error_text (tool_write_as (SetField (dv_id d) name v) ActorDebugger)))) s"
      by (simp add: set_variable_cell_def scope_defs)
    then show ?thesis using 4 assms cell [of "SetField _ name v"]
      by (cases "nth_opt (w_devices (s_world s)) index") (auto simp: prog_simps bind_def scope_defs)
  next
    case 5
    then have "set_variable_cell kind thread index name v s =
        (map_prog_err setter_error_text
        (tool_write_as (SetSlot (fst (decode_composite_index index)) (snd (decode_composite_index index)) name v) ActorDebugger)) s"
      by (simp add: set_variable_cell_def scope_defs case_prod_beta)
    then show ?thesis using 5 assms cell [of "SetSlot (fst (decode_composite_index index)) (snd (decode_composite_index index)) name v"]
      by (auto simp: scope_defs not_less)
  next
    case 6
    then have "set_variable_cell kind thread index name v s =
        (bind (ok_or (''invalid device memory address `'' @ name @ ''`'') (parse_usize (trim_brackets name)))
          (\<lambda>address. map_prog_err setter_error_text (tool_write_as (SetMemory index address v) ActorDebugger))) s"
      by (simp add: set_variable_cell_def scope_defs)
    then show ?thesis using 6 assms cell [of "SetMemory index _ v"]
      by (cases "parse_usize (trim_brackets name)") (auto simp: prog_simps bind_def scope_defs not_less)
  next
    case 7
    then have "set_variable_cell kind thread index name v s =
        (bind (ok_or (''invalid channel `'' @ name @ ''`'') (channel_index name))
        (\<lambda>channel. bind (gets (\<lambda>s. nth_opt (w_networks (s_world s)) index))
        (\<lambda>found. bind (ok_or (''unknown network index '' @ show_nat index) found)
        (\<lambda>n. if \<not> eq_ignore_ascii_case (nw_kind n) ''cable'' then throw (''network `'' @ nw_id n @ ''` does not expose channels'')
             else map_prog_err setter_error_text (tool_write_as (SetChannel index channel v) ActorDebugger))))) s"
      by (simp add: set_variable_cell_def scope_defs cong del: if_weak_cong)
    then show ?thesis using 7 assms cell [of "SetChannel index _ v"] w channel_index_less [of name]
      by (cases "channel_index name"; cases "nth_opt (w_networks (s_world s)) index")
        (auto simp: prog_simps bind_def nth_opt_eq_Some world_shape_def scope_defs split: if_splits)
  qed
qed

section \<open>Properties\<close>

text \<open>C34: The handles that the debug adapter gives to the editor can be read back: for every scope, up to 65536 threads and
  indexes below \<open>2 ^ 32 - 1\<close>, decoding a variable reference gives its scope, thread and index; and the reference is below \<open>2 ^ 53\<close>,
  so that a client that keeps numbers as 64-bit floats does not change it.\<close>

theorem variable_reference_roundtrip:
  assumes "unat kind < 32" "thread < 2 ^ 16" "index + 1 < 2 ^ 32"
  shows "decode_reference (dap_reference kind thread index) = Inr (kind, thread, index) \<and> unat (dap_reference kind thread index) < 2 ^ 53"
proof -
  let ?t = "of_nat thread :: u64" let ?j = "of_nat index + 1 :: u64"
  have t: "unat ?t = thread" using assms(2) by (simp add: unat_of_nat)
  have j: "unat ?j = index + 1" using assms(3) by (simp add: unat_word_ariths unat_of_nat)
  have "unat kind < 2 ^ 16" "unat ?t < 2 ^ 16" "unat ?j < 2 ^ 32" using assms t j by simp_all
  note parts = reference_parts [OF this] and below = reference_below [OF assms(1) this(2,3)]
  have "?j \<noteq> 0" using j by (metis add_is_0 unat_0 zero_neq_one)
  moreover have "unat (?j - 1) = index" using assms(3) by (simp add: unat_of_nat)
  ultimately show ?thesis using parts below t by (simp add: decode_reference_def dap_reference_def Let_def)
qed

theorem variable_reference_roundtrip_witness:
  "decode_reference (dap_reference device_slot_scope 3 70000) = Inr (device_slot_scope, 3, 70000)"
  using variable_reference_roundtrip [of device_slot_scope 3 70000] by (simp add: device_slot_scope_def)

end
