(* ===== verification/Context.thy ===== *)
theory Context
  imports Build Vm
begin

text \<open>
  The execution context of a program in the editor, \<open>crates/ic10-sim/src/context.rs\<close>: the index from programs to the
  housings that run them in the known scenarios, the devices such a housing can reach, the diagnostics of a program in
  its context and the logic fields offered for completion. The URI of a program is given by the host, as the
  argument \<open>resolve_program\<close>.
\<close>

section \<open>Contexts\<close>

type_synonym program_uri = string

record analysis_context =
  ac_scenario_uri :: string
  ac_scenario_version :: i64
  ac_ic_id :: string
  ac_program_uri :: program_uri
  ac_housing :: device_spec
  ac_pins :: "(string, device_spec) btree_map"
  ac_reachable_devices :: "device_spec list"
  ac_game_version :: "string option"

definition filter_option :: "('a \<Rightarrow> bool) \<Rightarrow> 'a option \<Rightarrow> 'a option" where
  "filter_option p x = Option.bind x (\<lambda>a. if p a then Some a else None)"

text \<open>The separator is a blank, the two bytes of U+00B7 and a blank.\<close>

definition context_label :: "analysis_context \<Rightarrow> string" where
  "context_label c =
     (if ds_name (ac_housing c) = [] then ac_ic_id c else ds_name (ac_housing c)) @
     [CHR 0x20, CHR 0xC2, CHR 0xB7, CHR 0x20] @ ac_scenario_uri c"

definition spec_display_name :: "device_spec \<Rightarrow> string" where
  "spec_display_name d = (if ds_name d = [] then ds_id d else ds_name d)"

section \<open>Resolving operands\<close>

fun follow_aliases :: "nat \<Rightarrow> document \<Rightarrow> string \<Rightarrow> string" where
  "follow_aliases 0 doc current = current"
| "follow_aliases (Suc n) doc current =
     (case doc_symbol doc current of
        None \<Rightarrow> current
      | Some s \<Rightarrow>
          if sym_kind s \<noteq> SAlias then current
          else (case sym_value s of None \<Rightarrow> current | Some target \<Rightarrow> follow_aliases n doc target))"

definition context_alias :: "string \<Rightarrow> document \<Rightarrow> string" where
  "context_alias value doc = follow_aliases 32 doc value"

fun follow_defines :: "nat \<Rightarrow> document \<Rightarrow> string \<Rightarrow> string option" where
  "follow_defines 0 doc current = Some current"
| "follow_defines (Suc n) doc current =
     (case doc_symbol doc current of
        None \<Rightarrow> Some current
      | Some s \<Rightarrow>
          if sym_kind s \<noteq> SDefine then Some current
          else Option.bind (sym_value s) (follow_defines n doc))"

definition resolve_hash :: "string \<Rightarrow> document \<Rightarrow> knowledge_base \<Rightarrow> i32 option" where
  "resolve_hash value doc kb =
     Option.bind (follow_defines 32 doc (context_alias value doc)) (\<lambda>current.
       case filter_option (\<lambda>literal. lm_kind literal = MacroHash) (parse_literal_macro current) of
         Some literal \<Rightarrow> Some (stationeers_crc32 (lm_value literal))
       | None \<Rightarrow>
           (case (case parse_numeric_literal current of
                    Some v \<Rightarrow> Some v
                  | None \<Rightarrow> Option.bind (bt_get (lang_constants (language kb)) current) (\<lambda>c. as_f64 (co_value c))) of
              Some v \<Rightarrow> if whole_number v then Some (as_i32 v) else None
            | None \<Rightarrow> None))"

definition resolve_integer :: "string \<Rightarrow> document \<Rightarrow> i64 option" where
  "resolve_integer value doc =
     Option.bind (follow_defines 32 doc (context_alias value doc)) (\<lambda>current.
       case parse_numeric_literal current of
         Some v \<Rightarrow> if whole_number v then Some (as_i64 v) else None
       | None \<Rightarrow> None)"

text \<open>\<open>split(':').next()\<close>: everything before the first colon.\<close>

definition before_colon :: "string \<Rightarrow> string" where
  "before_colon s = takeWhile (\<lambda>c. c \<noteq> CHR '':'') s"

definition is_direct_device :: "string \<Rightarrow> bool" where
  "is_direct_device value \<longleftrightarrow>
     value = ''db'' \<or> (case Option.bind (strip_prefix ''d'' value) parse_usize of Some n \<Rightarrow> n < 6 | None \<Rightarrow> False)"

definition device_for_reference :: "analysis_context \<Rightarrow> string \<Rightarrow> document \<Rightarrow> device_spec option" where
  "device_for_reference c text doc =
     (let resolved = before_colon (context_alias text doc)
      in if resolved = ''db'' then Some (ac_housing c) else bt_get (ac_pins c) resolved)"

text \<open>\<open>i32::try_from\<close> on an \<open>i64\<close>.\<close>

definition narrow_i32 :: "i64 \<Rightarrow> i32 option" where
  "narrow_i32 v = (if - (2 ^ 31) \<le> sint v \<and> sint v < 2 ^ 31 then Some (of_int (sint v)) else None)"

definition device_for_reference_id :: "analysis_context \<Rightarrow> string \<Rightarrow> document \<Rightarrow> device_spec option" where
  "device_for_reference_id c text doc =
     Option.bind (Option.bind (resolve_integer text doc) narrow_i32) (\<lambda>reference.
       find (\<lambda>d. ds_reference_id d = Some reference) (ac_housing c # ac_reachable_devices c))"

section \<open>Building contexts\<close>

definition is_data_type :: "device_connection \<Rightarrow> bool" where
  "is_data_type c = (case as_str (connection_type c) of Some t \<Rightarrow> contains ''data'' (to_ascii_lowercase t) | None \<Rightarrow> False)"

definition housing_data_connections :: "device_spec \<Rightarrow> knowledge_base \<Rightarrow> usize list" where
  "housing_data_connections housing kb =
     (case device_by_name kb (ds_prefab housing) of
        None \<Rightarrow> []
      | Some info \<Rightarrow> filter (\<lambda>i. is_data_type (di_connections info ! i)) [0..<length (di_connections info)])"

definition is_data_cable :: "network_spec \<Rightarrow> bool" where
  "is_data_cable n \<longleftrightarrow>
     eq_ignore_ascii_case (ns_kind n) ''cable'' \<and>
     (case ns_cable_role n of Some role \<Rightarrow> role | None \<Rightarrow> ''powerAndData'') \<in> {''data'', ''powerAndData''}"

definition context_program :: "scenario \<Rightarrow> device_spec \<Rightarrow> string option" where
  "context_program s housing =
     (case ds_program housing of
        Some ident \<Rightarrow> map_option ps_path (find (\<lambda>p. ps_id p = ident \<and> ps_language p = LangIc10) (sc_programs s))
      | None \<Rightarrow> Option.bind (ds_ic housing) ic_program)"

definition data_network_ids :: "scenario \<Rightarrow> device_spec \<Rightarrow> knowledge_base \<Rightarrow> string list" where
  "data_network_ids s housing kb =
     (let networks = bt_collect (map (\<lambda>n. (ns_id n, n)) (sc_networks s))
      in filter (\<lambda>ident. case bt_get networks ident of Some n \<Rightarrow> is_data_cable n | None \<Rightarrow> False)
           (List.map_filter (\<lambda>i. bt_get (ds_connections housing) (show_nat i)) (housing_data_connections housing kb)))"

definition is_reachable :: "knowledge_base \<Rightarrow> string list \<Rightarrow> device_spec \<Rightarrow> bool" where
  "is_reachable kb data_networks d =
     (case device_by_name kb (ds_prefab d) of
        None \<Rightarrow> False
      | Some info \<Rightarrow>
          list_ex (\<lambda>(connection, network).
            case Option.bind (parse_usize connection) (nth_opt (di_connections info)) of
              Some c \<Rightarrow> is_data_type c \<and> network \<in> set data_networks
            | None \<Rightarrow> False) (ds_connections d))"

definition context_pins :: "scenario \<Rightarrow> device_spec \<Rightarrow> (string, device_spec) btree_map" where
  "context_pins s housing =
     (let devices = bt_collect (map (\<lambda>d. (ds_id d, d)) (sc_devices s))
      in case ds_ic housing of
           None \<Rightarrow> bt_empty
         | Some ic \<Rightarrow>
             bt_collect (List.map_filter (\<lambda>(pin, ident). map_option (\<lambda>d. (pin, d)) (bt_get devices ident)) (ic_pins ic)))"

definition build_context ::
  "string \<Rightarrow> i64 \<Rightarrow> scenario \<Rightarrow> (string \<Rightarrow> program_uri) \<Rightarrow> knowledge_base \<Rightarrow> device_spec \<Rightarrow> analysis_context option" where
  "build_context uri version s resolve_program kb housing =
     map_option (\<lambda>program.
       \<lparr>ac_scenario_uri = uri, ac_scenario_version = version, ac_ic_id = ds_id housing,
        ac_program_uri = resolve_program program, ac_housing = housing, ac_pins = context_pins s housing,
        ac_reachable_devices = filter (is_reachable kb (data_network_ids s housing kb)) (sc_devices s),
        ac_game_version = sc_game_version s\<rparr>) (context_program s housing)"

definition build_contexts ::
  "string \<Rightarrow> i64 \<Rightarrow> scenario \<Rightarrow> (string \<Rightarrow> program_uri) \<Rightarrow> knowledge_base \<Rightarrow> analysis_context list" where
  "build_contexts uri version s resolve_program kb =
     List.map_filter (build_context uri version s resolve_program kb) (sc_devices s)"

section \<open>The index\<close>

record scenario_index =
  si_scenarios :: "(string, i64 \<times> analysis_context list) btree_map"
  si_programs :: "(program_uri, analysis_context list) btree_map"

definition index_new :: scenario_index where
  "index_new = \<lparr>si_scenarios = bt_empty, si_programs = bt_empty\<rparr>"

definition forget_context :: "analysis_context \<Rightarrow> (program_uri, analysis_context list) btree_map \<Rightarrow> (program_uri, analysis_context list) btree_map" where
  "forget_context c programs =
     (case bt_get programs (ac_program_uri c) of
        None \<Rightarrow> programs
      | Some cs \<Rightarrow>
          (let rest = filter (\<lambda>x. ac_scenario_uri x \<noteq> ac_scenario_uri c \<or> ac_ic_id x \<noteq> ac_ic_id c) cs
           in if rest = [] then bt_remove (ac_program_uri c) programs else bt_insert (ac_program_uri c) rest programs))"

definition index_remove :: "string \<Rightarrow> scenario_index \<Rightarrow> scenario_index" where
  "index_remove uri ix =
     (case bt_get (si_scenarios ix) uri of
        None \<Rightarrow> ix
      | Some (_, old) \<Rightarrow>
          \<lparr>si_scenarios = bt_remove uri (si_scenarios ix), si_programs = fold forget_context old (si_programs ix)\<rparr>)"

definition file_context :: "analysis_context \<Rightarrow> (program_uri, analysis_context list) btree_map \<Rightarrow> (program_uri, analysis_context list) btree_map" where
  "file_context c programs =
     bt_insert (ac_program_uri c)
       ((case bt_get programs (ac_program_uri c) of Some cs \<Rightarrow> cs | None \<Rightarrow> []) @ [c]) programs"

definition index_update ::
  "string \<Rightarrow> i64 \<Rightarrow> scenario \<Rightarrow> (string \<Rightarrow> program_uri) \<Rightarrow> knowledge_base \<Rightarrow> scenario_index \<Rightarrow> scenario_index" where
  "index_update uri version s resolve_program kb ix =
     (if (case bt_get (si_scenarios ix) uri of Some (cached, _) \<Rightarrow> sint version \<le> sint cached | None \<Rightarrow> False) then ix
      else
        (let ix = index_remove uri ix;
             contexts = build_contexts uri version s resolve_program kb
         in \<lparr>si_scenarios = bt_insert uri (version, contexts) (si_scenarios ix),
             si_programs = fold file_context contexts (si_programs ix)\<rparr>))"

definition index_contexts :: "scenario_index \<Rightarrow> program_uri \<Rightarrow> analysis_context list" where
  "index_contexts ix program = (case bt_get (si_programs ix) program of Some cs \<Rightarrow> cs | None \<Rightarrow> [])"

section \<open>Diagnostics\<close>

record environment_target =
  et_scenario_uri :: string
  et_ic_id :: string
  et_device_id :: "string option"
  et_property :: "string option"

record context_diagnostic =
  cd_span :: span
  cd_code :: string
  cd_message :: string
  cd_target :: "environment_target option"

definition context_target :: "analysis_context \<Rightarrow> string option \<Rightarrow> string option \<Rightarrow> environment_target" where
  "context_target c device property =
     \<lparr>et_scenario_uri = ac_scenario_uri c, et_ic_id = ac_ic_id c, et_device_id = device, et_property = property\<rparr>"

definition context_error ::
  "analysis_context \<Rightarrow> device_spec \<Rightarrow> span \<Rightarrow> string \<Rightarrow> string \<Rightarrow> string option \<Rightarrow> context_diagnostic" where
  "context_error c device sp kind message property =
     \<lparr>cd_span = sp, cd_code = kind, cd_message = message, cd_target = Some (context_target c (Some (ds_id device)) property)\<rparr>"

definition context_prefix :: "analysis_context \<Rightarrow> string" where
  "context_prefix c = ''['' @ context_label c @ '']''"

definition validate_access ::
  "analysis_context \<Rightarrow> device_spec \<Rightarrow> token \<Rightarrow> (string, logic_access) btree_map \<Rightarrow> bool \<Rightarrow> string \<Rightarrow> string option \<Rightarrow> context_diagnostic list" where
  "validate_access c device field fs writes prefix property =
     (case bt_get fs (tok_text field) of
        None \<Rightarrow>
          [context_error c device (tok_span field) ''environment-unsupported-field''
             (prefix @ '' '' @ spec_display_name device @ '' does not expose logic field '' @ tick_quote (tok_text field) @
              '' in bundled official data.'') property]
      | Some access \<Rightarrow>
          if writes \<and> \<not> la_write access \<or> \<not> writes \<and> \<not> la_read access then
            [context_error c device (tok_span field)
               (if writes then ''environment-read-only-field'' else ''environment-write-only-field'')
               (prefix @ '' '' @ tick_quote (tok_text field) @ '' is not '' @ (if writes then ''writable'' else ''readable'') @
                '' on '' @ spec_display_name device @ ''.'') property]
          else [])"

text \<open>The operand that names the device, and the operands with the field, the slot and the memory address of an
  access and whether it writes.\<close>

definition device_operand :: "string \<Rightarrow> usize" where
  "device_operand mnemonic = (if mnemonic \<in> {''l'', ''ls'', ''lr'', ''get'', ''ld''} then 1 else 0)"

definition access_layout :: "string \<Rightarrow> usize option \<times> usize option \<times> usize option \<times> bool" where
  "access_layout mnemonic =
     (if mnemonic = ''l'' then (Some 2, None, None, False)
      else if mnemonic = ''s'' then (Some 1, None, None, True)
      else if mnemonic = ''ls'' then (Some 3, Some 2, None, False)
      else if mnemonic = ''ss'' then (Some 2, Some 1, None, True)
      else if mnemonic = ''bdnvl'' then (Some 1, None, None, False)
      else if mnemonic = ''bdnvs'' then (Some 1, None, None, True)
      else if mnemonic = ''ld'' then (Some 2, None, None, False)
      else if mnemonic = ''sd'' then (Some 1, None, None, True)
      else if mnemonic = ''get'' then (None, None, Some 2, False)
      else if mnemonic = ''put'' then (None, None, Some 1, True)
      else (None, None, None, False))"

definition validate_connection ::
  "document \<Rightarrow> analysis_context \<Rightarrow> string \<Rightarrow> device_info \<Rightarrow> device_spec \<Rightarrow> token \<Rightarrow> context_diagnostic list" where
  "validate_connection doc c prefix metadata device device_token =
     (case Option.bind (split_once '':'' (context_alias (tok_text device_token) doc)) (\<lambda>(_, suffix). parse_usize suffix) of
        None \<Rightarrow> []
      | Some connection \<Rightarrow>
          if length (di_connections metadata) \<le> connection then
            [context_error c device (tok_span device_token) ''environment-invalid-connection''
               (prefix @ '' '' @ spec_display_name device @ '' has no connection '' @ tick_quote (show_nat connection) @ ''.'')
               (Some (''connections.'' @ show_nat connection))]
          else if \<not> bt_contains (ds_connections device) (show_nat connection) then
            [context_error c device (tok_span device_token) ''environment-unattached-connection''
               (prefix @ '' '' @ spec_display_name device @ '' connection '' @ tick_quote (show_nat connection) @
                '' is not attached to a network.'')
               (Some (''connections.'' @ show_nat connection))]
          else [])"

definition names_channel :: "string \<Rightarrow> bool" where
  "names_channel field = (case Option.bind (strip_prefix ''Channel'' field) parse_usize of Some n \<Rightarrow> n < 8 | None \<Rightarrow> False)"

definition validate_mode ::
  "document \<Rightarrow> analysis_context \<Rightarrow> string \<Rightarrow> device_info \<Rightarrow> device_spec \<Rightarrow> token list \<Rightarrow> bool \<Rightarrow> token \<Rightarrow> context_diagnostic list" where
  "validate_mode doc c prefix metadata device operands writes field =
     (if writes \<and> tok_text field = ''Mode'' \<and> bt_contains (di_logic_types metadata) ''Mode'' then
        (case nth_opt operands 2 of
           None \<Rightarrow> []
         | Some value_token \<Rightarrow>
             (case resolve_integer (tok_text value_token) doc of
                None \<Rightarrow> []
              | Some value \<Rightarrow>
                  if list_ex (\<lambda>mode. as_i64_value mode = Some value) (bt_values (di_modes metadata)) then []
                  else
                    [context_error c device (tok_span value_token) ''environment-invalid-mode''
                       (prefix @ '' '' @ tick_quote (show_int (sint value)) @ '' is not a supported mode on '' @
                        spec_display_name device @ ''.'')
                       (Some ''fields.Mode'')]))
      else [])"

definition validate_slot_field ::
  "document \<Rightarrow> analysis_context \<Rightarrow> string \<Rightarrow> device_info \<Rightarrow> device_spec \<Rightarrow> token list \<Rightarrow> usize \<Rightarrow> bool \<Rightarrow> token \<Rightarrow> context_diagnostic list" where
  "validate_slot_field doc c prefix metadata device operands slot_index writes field =
     (case nth_opt operands slot_index of
        None \<Rightarrow> []
      | Some slot_token \<Rightarrow>
          (case resolve_integer (tok_text slot_token) doc of
             None \<Rightarrow> []
           | Some slot \<Rightarrow>
               (case bt_get (di_slots metadata) (show_int (sint slot)) of
                  None \<Rightarrow>
                    [context_error c device (tok_span slot_token) ''environment-invalid-slot''
                       (prefix @ '' '' @ spec_display_name device @ '' has no slot '' @ tick_quote (show_int (sint slot)) @ ''.'')
                       (Some (''slots.'' @ show_int (sint slot)))]
                | Some info \<Rightarrow>
                    validate_access c device field (sl_logic_types info) writes prefix
                      (Some (''slots.'' @ show_int (sint slot) @ ''.'' @ tok_text field)))))"

definition validate_memory ::
  "document \<Rightarrow> analysis_context \<Rightarrow> string \<Rightarrow> device_info \<Rightarrow> device_spec \<Rightarrow> bool \<Rightarrow> token \<Rightarrow> context_diagnostic list" where
  "validate_memory doc c prefix metadata device writes address =
     (case resolve_integer (tok_text address) doc of
        None \<Rightarrow> []
      | Some value \<Rightarrow>
          (let size = (case Option.bind (di_memory metadata) dm_size of Some n \<Rightarrow> n | None \<Rightarrow> 0);
               required = (if writes then ''write'' else ''read'');
               access = Option.bind (Option.bind (di_memory metadata) dm_access) as_str;
               exposes = (case access of
                            Some a \<Rightarrow> eq_ignore_ascii_case a ''ReadWrite'' \<or> contains required (to_ascii_lowercase a)
                          | None \<Rightarrow> False);
               property = Some (''memory.'' @ show_int (sint value))
           in (if 0 < size \<and> access \<noteq> None \<and> \<not> exposes then
                 [context_error c device (tok_span address)
                    (if writes then ''environment-read-only-memory'' else ''environment-write-only-memory'')
                    (prefix @ '' Addressable memory is not '' @ required @ ''able on '' @ spec_display_name device @ ''.'') property]
               else []) @
              (if sint value < 0 \<or> uint size \<le> sint value then
                 [context_error c device (tok_span address) ''environment-invalid-memory-address''
                    (prefix @ '' '' @ spec_display_name device @ '' exposes '' @ show_nat (unat size) @ '' memory address'' @
                     (if size = 1 then '''' else ''es'') @ ''; '' @ tick_quote (show_int (sint value)) @ '' is invalid.'') property]
               else [])))"

text \<open>A channel ends the checks of an operation; no operation has a field and a memory address.\<close>

definition validate_field ::
  "document \<Rightarrow> analysis_context \<Rightarrow> string \<Rightarrow> device_info \<Rightarrow> device_spec \<Rightarrow> string \<Rightarrow> token list \<Rightarrow> token \<Rightarrow> context_diagnostic list" where
  "validate_field doc c prefix metadata device mnemonic operands field =
     (case access_layout mnemonic of (_, slot_index, _, writes) \<Rightarrow>
        if names_channel (tok_text field) then
          (if (case nth_opt operands (device_operand mnemonic) of
                 Some t \<Rightarrow> contains '':'' (context_alias (tok_text t) doc)
               | None \<Rightarrow> False) then []
           else
             [context_error c device (tok_span field) ''environment-channel-needs-connection''
                (prefix @ '' '' @ tick_quote (tok_text field) @ '' requires a numbered device connection such as `db:0`.'')
                (Some ''connections'')])
        else
          (case slot_index of
             Some i \<Rightarrow> validate_slot_field doc c prefix metadata device operands i writes field
           | None \<Rightarrow>
               validate_access c device field (di_logic_types metadata) writes prefix (Some (''fields.'' @ tok_text field)) @
               validate_mode doc c prefix metadata device operands writes field))"

definition validate_direct_operation ::
  "document \<Rightarrow> analysis_context \<Rightarrow> knowledge_base \<Rightarrow> string \<Rightarrow> string \<Rightarrow> token list \<Rightarrow> device_spec \<Rightarrow> context_diagnostic list" where
  "validate_direct_operation doc c kb prefix mnemonic operands device =
     (case device_by_name kb (ds_prefab device) of
        None \<Rightarrow> []
      | Some metadata \<Rightarrow>
          (case nth_opt operands (device_operand mnemonic) of
             Some t \<Rightarrow> validate_connection doc c prefix metadata device t
           | None \<Rightarrow> []) @
          (case access_layout mnemonic of (field_index, _, memory_index, writes) \<Rightarrow>
             (case Option.bind field_index (nth_opt operands) of
                Some field \<Rightarrow> validate_field doc c prefix metadata device mnemonic operands field
              | None \<Rightarrow> []) @
             (case Option.bind memory_index (nth_opt operands) of
                Some address \<Rightarrow> validate_memory doc c prefix metadata device writes address
              | None \<Rightarrow> [])))"

definition context_batch_layout :: "string \<Rightarrow> bool \<times> bool \<times> usize \<times> usize option" where
  "context_batch_layout mnemonic =
     (let reads = starts_with ''l'' mnemonic;
          named = contains ''bn'' mnemonic;
          slotted = contains ''bs'' mnemonic \<or> ends_with ''bns'' mnemonic;
          base = (if reads then (if named then 3 else 2) else if named then 2 else 1)
      in (reads, named, base + (if slotted then 1 else 0), if slotted then Some base else None))"

definition validate_batch_device ::
  "document \<Rightarrow> analysis_context \<Rightarrow> knowledge_base \<Rightarrow> string \<Rightarrow> bool \<Rightarrow> token list \<Rightarrow> usize option \<Rightarrow> token \<Rightarrow> device_spec \<Rightarrow> context_diagnostic list" where
  "validate_batch_device doc c kb prefix reads operands slot_index field device =
     (case device_by_name kb (ds_prefab device) of
        None \<Rightarrow> []
      | Some metadata \<Rightarrow>
          (let property = Some (''fields.'' @ tok_text field)
           in case slot_index of
                None \<Rightarrow> validate_access c device field (di_logic_types metadata) (\<not> reads) prefix property
              | Some i \<Rightarrow>
                  (case nth_opt operands i of
                     None \<Rightarrow> []
                   | Some slot_token \<Rightarrow>
                       (case resolve_integer (tok_text slot_token) doc of
                          None \<Rightarrow> []
                        | Some slot \<Rightarrow>
                            (case bt_get (di_slots metadata) (show_int (sint slot)) of
                               None \<Rightarrow>
                                 [context_error c device (tok_span slot_token) ''environment-invalid-slot''
                                    (prefix @ '' '' @ spec_display_name device @ '' has no slot '' @
                                     tick_quote (show_int (sint slot)) @ ''.'')
                                    (Some (''slots.'' @ show_int (sint slot)))]
                             | Some info \<Rightarrow> validate_access c device field (sl_logic_types info) (\<not> reads) prefix property)))))"

definition batch_selection ::
  "document \<Rightarrow> analysis_context \<Rightarrow> knowledge_base \<Rightarrow> i32 \<Rightarrow> i32 option \<Rightarrow> device_spec list" where
  "batch_selection doc c kb prefab_hash name_hash =
     filter (\<lambda>d. case name_hash of Some h \<Rightarrow> stationeers_crc32 (spec_display_name d) = h | None \<Rightarrow> True)
       (filter (\<lambda>d. case device_by_name kb (ds_prefab d) of Some info \<Rightarrow> di_prefab_hash info = prefab_hash | None \<Rightarrow> False)
          (ac_reachable_devices c))"

definition empty_selection :: "analysis_context \<Rightarrow> string \<Rightarrow> span \<Rightarrow> context_diagnostic" where
  "empty_selection c prefix sp =
     \<lparr>cd_span = sp, cd_code = ''environment-empty-batch'',
      cd_message = prefix @ '' This batch selector matches no devices reachable on the housing data cable.'',
      cd_target = Some (context_target c None (Some ''devices''))\<rparr>"

definition validate_selection ::
  "document \<Rightarrow> analysis_context \<Rightarrow> knowledge_base \<Rightarrow> string \<Rightarrow> string \<Rightarrow> token list \<Rightarrow> token \<Rightarrow> device_spec list \<Rightarrow> context_diagnostic list" where
  "validate_selection doc c kb prefix mnemonic operands hash_token selection =
     (case context_batch_layout mnemonic of (reads, _, field_index, slot_index) \<Rightarrow>
        if selection = [] then [empty_selection c prefix (tok_span hash_token)]
        else
          (case nth_opt operands field_index of
             None \<Rightarrow> []
           | Some field \<Rightarrow> concat (map (validate_batch_device doc c kb prefix reads operands slot_index field) selection)))"

definition validate_batch ::
  "document \<Rightarrow> analysis_context \<Rightarrow> knowledge_base \<Rightarrow> string \<Rightarrow> string \<Rightarrow> token list \<Rightarrow> context_diagnostic list" where
  "validate_batch doc c kb prefix mnemonic operands =
     (case context_batch_layout mnemonic of (reads, named, _, _) \<Rightarrow>
        (let hash_index = (if reads then 1 else 0)
         in case nth_opt operands hash_index of
              None \<Rightarrow> []
            | Some hash_token \<Rightarrow>
                (case resolve_hash (tok_text hash_token) doc kb of
                   None \<Rightarrow> []
                 | Some prefab_hash \<Rightarrow>
                     if named then
                       (case nth_opt operands (hash_index + 1) of
                          None \<Rightarrow> []
                        | Some name_token \<Rightarrow>
                            validate_selection doc c kb prefix mnemonic operands hash_token
                              (batch_selection doc c kb prefab_hash (resolve_hash (tok_text name_token) doc kb)))
                     else
                       validate_selection doc c kb prefix mnemonic operands hash_token
                         (batch_selection doc c kb prefab_hash None))))"

definition direct_operations :: "string list" where
  "direct_operations = [''l'', ''s'', ''ls'', ''ss'', ''lr'', ''get'', ''put'', ''bdnvl'', ''bdnvs'', ''ld'', ''sd'']"

definition batch_operations :: "string list" where
  "batch_operations = [''lb'', ''lbn'', ''lbs'', ''lbns'', ''sb'', ''sbn'', ''sbs'']"

definition validate_direct ::
  "document \<Rightarrow> analysis_context \<Rightarrow> knowledge_base \<Rightarrow> string \<Rightarrow> string \<Rightarrow> token list \<Rightarrow> context_diagnostic list" where
  "validate_direct doc c kb prefix mnemonic operands =
     (case nth_opt operands (device_operand mnemonic) of
        None \<Rightarrow> []
      | Some device_token \<Rightarrow>
          (let raw_reference = before_colon (context_alias (tok_text device_token) doc);
               by_reference_id = mnemonic \<in> {''ld'', ''sd''};
               device = (if by_reference_id then device_for_reference_id c (tok_text device_token) doc
                         else device_for_reference c (tok_text device_token) doc)
           in case device of
                None \<Rightarrow>
                  if is_direct_device raw_reference then
                    [\<lparr>cd_span = tok_span device_token, cd_code = ''environment-unassigned-device'',
                      cd_message = prefix @ '' '' @ tick_quote raw_reference @ '' is not assigned on IC housing '' @
                        tick_quote (ac_ic_id c) @ ''.'',
                      cd_target = Some (context_target c None (Some raw_reference))\<rparr>]
                  else if by_reference_id then
                    (case resolve_integer (tok_text device_token) doc of
                       Some reference \<Rightarrow>
                         [\<lparr>cd_span = tok_span device_token, cd_code = ''environment-unknown-reference-id'',
                           cd_message = prefix @ '' No reachable device has explicit ReferenceId '' @
                             tick_quote (show_int (sint reference)) @ ''.'',
                           cd_target = Some (context_target c None (Some ''devices''))\<rparr>]
                     | None \<Rightarrow> [])
                  else []
              | Some device \<Rightarrow>
                  if ds_id device \<noteq> ds_id (ac_housing c) \<and> \<not> list_ex (\<lambda>d. ds_id d = ds_id device) (ac_reachable_devices c) then
                    [context_error c device (tok_span device_token) ''environment-unreachable-device''
                       (prefix @ '' '' @ spec_display_name device @ '' is assigned to '' @ tick_quote raw_reference @
                        '' but is not reachable on the housing data cable.'')
                       (Some ''connections'')]
                  else validate_direct_operation doc c kb prefix mnemonic operands device))"

definition validate_line :: "document \<Rightarrow> analysis_context \<Rightarrow> knowledge_base \<Rightarrow> string \<Rightarrow> parsed_line \<Rightarrow> context_diagnostic list" where
  "validate_line doc c kb prefix line =
     (case pl_kind line of
        LInstruction mnemonic operands \<Rightarrow>
          if tok_text mnemonic \<in> set direct_operations then validate_direct doc c kb prefix (tok_text mnemonic) operands
          else if tok_text mnemonic \<in> set batch_operations then validate_batch doc c kb prefix (tok_text mnemonic) operands
          else []
      | _ \<Rightarrow> [])"

definition version_diagnostics :: "analysis_context \<Rightarrow> knowledge_base \<Rightarrow> string \<Rightarrow> context_diagnostic list" where
  "version_diagnostics c kb prefix =
     (case ac_game_version c of
        Some version \<Rightarrow>
          if version \<noteq> dl_game_version (device_list kb) then
            [\<lparr>cd_span = new_span 0 0, cd_code = ''environment-game-version'',
              cd_message = prefix @ '' Environment targets Stationeers '' @ version @ ''; bundled official data is '' @
                dl_game_version (device_list kb) @ ''. Environment field assumptions are not treated as authoritative.'',
              cd_target = Some (context_target c None (Some ''gameVersion''))\<rparr>]
          else []
      | None \<Rightarrow> [])"

definition validate_context :: "document \<Rightarrow> analysis_context \<Rightarrow> knowledge_base \<Rightarrow> context_diagnostic list" where
  "validate_context doc c kb =
     (let prefix = context_prefix c
      in version_diagnostics c kb prefix @ concat (map (validate_line doc c kb prefix) (doc_lines doc)))"

section \<open>Completion\<close>

definition accessible_fields :: "(string, logic_access) btree_map \<Rightarrow> bool \<Rightarrow> string list" where
  "accessible_fields fs writes = map fst (filter (\<lambda>(_, access). if writes then la_write access else la_read access) fs)"

definition valid_logic_fields ::
  "analysis_context \<Rightarrow> document \<Rightarrow> string \<Rightarrow> bool \<Rightarrow> knowledge_base \<Rightarrow> string list option" where
  "valid_logic_fields c doc device_token writes kb =
     map_option (\<lambda>metadata. accessible_fields (di_logic_types metadata) writes)
       (Option.bind (device_for_reference c device_token doc) (\<lambda>device. device_by_name kb (ds_prefab device)))"

definition completion_layout :: "string \<Rightarrow> (usize \<times> usize option \<times> bool \<times> bool) option" where
  "completion_layout mnemonic =
     map_of [(''l'', (1, None, False, False)), (''s'', (0, None, True, False)), (''ls'', (1, Some 2, False, False)),
             (''ss'', (0, Some 1, True, False)), (''bdnvl'', (0, None, False, False)), (''bdnvs'', (0, None, True, False)),
             (''ld'', (1, None, False, True)), (''sd'', (0, None, True, True))] mnemonic"

definition valid_operation_logic_fields ::
  "analysis_context \<Rightarrow> document \<Rightarrow> string \<Rightarrow> token list \<Rightarrow> knowledge_base \<Rightarrow> string list option" where
  "valid_operation_logic_fields c doc mnemonic operands kb =
     Option.bind (completion_layout mnemonic) (\<lambda>(device_index, slot_index, writes, by_reference_id).
     Option.bind (nth_opt operands device_index) (\<lambda>device_token.
     Option.bind (if by_reference_id then device_for_reference_id c (tok_text device_token) doc
                  else device_for_reference c (tok_text device_token) doc) (\<lambda>device.
     Option.bind (device_by_name kb (ds_prefab device)) (\<lambda>metadata.
     Option.bind
       (case slot_index of
          Some i \<Rightarrow>
            Option.bind (Option.bind (nth_opt operands i) (\<lambda>t. resolve_integer (tok_text t) doc)) (\<lambda>slot.
              map_option sl_logic_types (bt_get (di_slots metadata) (show_int (sint slot))))
        | None \<Rightarrow> Some (di_logic_types metadata)) (\<lambda>fields.
     Some (accessible_fields fields writes))))))"

end
