(* ===== verification/Text_Positions.thy ===== *)
theory Text_Positions
  imports Ic10_Core
begin

text \<open>
  Positions of the language server protocol, \<open>crates/ic10-lsp/src/main.rs\<close>: a line and a number of UTF-16 code
  units, against the byte offsets of a UTF-8 source. Rust's strings are valid UTF-8; slicing one inside a character
  panics. The \<open>u32\<close> fields of a position are natural numbers, with the wrap-around of the conversions written out.
\<close>

section \<open>UTF-8\<close>

definition continuation_byte :: "char \<Rightarrow> bool" where
  "continuation_byte c \<longleftrightarrow> 0x80 \<le> code c \<and> code c < 0xC0"

text \<open>\<open>len_utf8\<close> and \<open>len_utf16\<close> of the character that a byte begins.\<close>

definition utf8_width :: "char \<Rightarrow> nat" where
  "utf8_width c = (if code c < 0x80 then 1 else if code c < 0xE0 then 2 else if code c < 0xF0 then 3 else 4)"

definition utf16_width :: "char \<Rightarrow> nat" where
  "utf16_width c = (if code c < 0xF0 then 1 else 2)"

text \<open>\<open>n\<close> more continuation bytes, then whole characters.\<close>

fun utf8_from :: "nat \<Rightarrow> string \<Rightarrow> bool" where
  "utf8_from n [] = (n = 0)"
| "utf8_from n (c # cs) =
     (if 0 < n then continuation_byte c \<and> utf8_from (n - 1) cs
      else \<not> continuation_byte c \<and> utf8_from (utf8_width c - 1) cs)"

definition valid_utf8 :: "string \<Rightarrow> bool" where
  "valid_utf8 s = utf8_from 0 s"

text \<open>\<open>encode_utf16().count()\<close>.\<close>

definition utf16_units :: "string \<Rightarrow> nat" where
  "utf16_units s = sum_list (map (\<lambda>c. if continuation_byte c then 0 else utf16_width c) s)"

definition is_char_boundary :: "string \<Rightarrow> usize \<Rightarrow> bool" where
  "is_char_boundary s i \<longleftrightarrow> i = 0 \<or> i = length s \<or> i < length s \<and> \<not> continuation_byte (s ! i)"

text \<open>\<open>&s[a..b]\<close>.\<close>

definition str_slice :: "string \<Rightarrow> usize \<Rightarrow> usize \<Rightarrow> ('e, string) outcome" where
  "str_slice s a b = (if a \<le> b \<and> is_char_boundary s a \<and> is_char_boundary s b then Ok (slice s a b) else Panic)"

section \<open>Positions\<close>

record lsp_position =
  po_line :: nat
  po_character :: nat

record lsp_range =
  ra_start :: lsp_position
  ra_end :: lsp_position

definition position_le :: "lsp_position \<Rightarrow> lsp_position \<Rightarrow> bool" where
  "position_le p q \<longleftrightarrow> po_line p < po_line q \<or> po_line p = po_line q \<and> po_character p \<le> po_character q"

definition wrap_u32 :: "nat \<Rightarrow> nat" where
  "wrap_u32 n = nat (int n mod 2 ^ 32)"

text \<open>The offset after \<open>n\<close> line feeds, counted from \<open>pos\<close>; \<open>None\<close> when there are fewer.\<close>

fun skip_lines :: "nat \<Rightarrow> string \<Rightarrow> usize \<Rightarrow> usize option" where
  "skip_lines 0 s pos = Some pos"
| "skip_lines (Suc n) [] pos = None"
| "skip_lines (Suc n) (c # cs) pos = skip_lines (if c = CHR 0x0A then n else Suc n) cs (pos + 1)"

text \<open>The loop over the characters of a line; at its end the offset is the end of the line.\<close>

function walk_line :: "string \<Rightarrow> usize \<Rightarrow> nat \<Rightarrow> nat \<Rightarrow> usize" where
  "walk_line [] byte seen target = byte"
| "walk_line (c # cs) byte seen target =
     (let after = wrap_u32 (seen + utf16_width c)
      in if target < after then byte
         else if after = target then byte + utf8_width c
         else walk_line (drop (utf8_width c - 1) cs) (byte + utf8_width c) after target)"
  by pat_completeness auto
termination by (relation "measure (\<lambda>(s, _). length s)") auto

definition position_to_offset :: "string \<Rightarrow> lsp_position \<Rightarrow> usize" where
  "position_to_offset source p =
     (case skip_lines (po_line p) source 0 of
        None \<Rightarrow> length source
      | Some start \<Rightarrow>
          walk_line (takeWhile (\<lambda>c. c \<noteq> CHR 0x0A) (drop start source)) start 0 (po_character p))"

definition offset_to_position :: "string \<Rightarrow> usize \<Rightarrow> ('e, lsp_position) outcome" where
  "offset_to_position source offset =
     (let offset = min offset (length source)
      in obind (str_slice source 0 offset) (\<lambda>before.
         let line_start = length before - length (takeWhile (\<lambda>c. c \<noteq> CHR 0x0A) (rev before))
         in obind (str_slice source line_start offset) (\<lambda>text.
            Ok \<lparr>po_line = wrap_u32 (length (filter (\<lambda>c. c = CHR 0x0A) before)), po_character = wrap_u32 (utf16_units text)\<rparr>)))"

definition span_to_range :: "string \<Rightarrow> span \<Rightarrow> ('e, lsp_range) outcome" where
  "span_to_range source sp =
     obind (offset_to_position source (sp_start sp)) (\<lambda>a.
     obind (offset_to_position source (sp_end sp)) (\<lambda>b. Ok \<lparr>ra_start = a, ra_end = b\<rparr>))"

section \<open>Round trip\<close>

lemma wrap_u32_mod: "wrap_u32 n = n mod 2 ^ 32"
  by (simp add: wrap_u32_def nat_mod_distrib)

lemma utf8_width_ge: "1 \<le> utf8_width c" "1 \<le> utf16_width c" "utf16_width c \<le> utf8_width c"
  by (simp_all add: utf8_width_def utf16_width_def)

lemma utf16_units_append [simp]: "utf16_units (s @ t) = utf16_units s + utf16_units t"
  by (simp add: utf16_units_def)

lemma utf16_units_Nil [simp]: "utf16_units [] = 0"
  by (simp add: utf16_units_def)

lemma utf16_units_Cons: "\<not> continuation_byte c \<Longrightarrow> utf16_units (c # s) = utf16_width c + utf16_units s"
  by (simp add: utf16_units_def)

lemma utf8_from_take: "utf8_from n s \<Longrightarrow> n \<le> length s \<and> list_all continuation_byte (take n s) \<and> utf8_from 0 (drop n s)"
proof (induction s arbitrary: n)
  case (Cons c s)
  show ?case
  proof (cases n)
    case (Suc m)
    then show ?thesis using Cons.IH [of m] Cons.prems by simp
  qed (use Cons.prems in simp)
qed simp

lemma utf16_units_continuation: "list_all continuation_byte s \<Longrightarrow> utf16_units s = 0"
  by (induction s) (auto simp: utf16_units_def)

lemma utf8_char:
  assumes "utf8_from 0 (c # cs)"
  shows "\<not> continuation_byte c" "utf8_width c - 1 \<le> length cs" "utf8_from 0 (drop (utf8_width c - 1) cs)"
    "utf16_units (c # cs) = utf16_width c + utf16_units (drop (utf8_width c - 1) cs)"
proof -
  have c: "\<not> continuation_byte c" "utf8_from (utf8_width c - 1) cs" using assms by auto
  note t = utf8_from_take [OF c(2)]
  show "\<not> continuation_byte c" "utf8_width c - 1 \<le> length cs" "utf8_from 0 (drop (utf8_width c - 1) cs)" using c t by auto
  have "utf16_units cs = utf16_units (take (utf8_width c - 1) cs) + utf16_units (drop (utf8_width c - 1) cs)"
    by (metis append_take_drop_id utf16_units_append)
  then show "utf16_units (c # cs) = utf16_width c + utf16_units (drop (utf8_width c - 1) cs)"
    using c(1) t by (simp add: utf16_units_Cons utf16_units_continuation)
qed

lemma utf16_units_pos: "utf8_from 0 s \<Longrightarrow> s \<noteq> [] \<Longrightarrow> 0 < utf16_units s"
proof (cases s)
  case (Cons c cs)
  assume "utf8_from 0 s"
  then show ?thesis using utf8_char(4) [of c cs] utf8_width_ge(2) [of c] Cons by simp
qed simp

lemma utf16_units_le: "utf16_units s \<le> 2 * length s"
  by (induction s) (auto simp: utf16_units_def utf16_width_def)

lemma walk_line_stops:
  assumes "utf8_from 0 cur" "seen + utf16_units cur < 2 ^ 32 - 2"
  shows "walk_line (cur @ rest) byte seen (seen + utf16_units cur) = byte + length cur"
  using assms
proof (induction "length cur" arbitrary: cur byte seen rule: less_induct)
  case less
  show ?case
  proof (cases cur)
    case Nil
    show ?thesis
    proof (cases rest)
      case (Cons c cs)
      have "utf16_width c \<le> 2" by (simp add: utf16_width_def)
      then have "wrap_u32 (seen + utf16_width c) = seen + utf16_width c" using less.prems Nil by (simp add: wrap_u32_mod)
      then show ?thesis using Nil Cons utf8_width_ge(2) [of c] by (simp add: Let_def)
    qed (simp add: Nil)
  next
    case (Cons c cs)
    note char = utf8_char [OF less.prems(1) [unfolded Cons]]
    let ?k = "utf8_width c - 1"
    have k: "utf8_width c = Suc ?k" using utf8_width_ge(1) [of c] by simp
    have after: "wrap_u32 (seen + utf16_width c) = seen + utf16_width c"
      using less.prems(2) char(4) Cons by (simp add: wrap_u32_mod)
    show ?thesis
    proof (cases "drop ?k cs")
      case Nil
      then have "length cs = ?k" using char(2) by simp
      then show ?thesis using Nil after char(4) Cons k by (simp add: Let_def)
    next
      case (Cons d ds)
      have "0 < utf16_units (drop ?k cs)" by (rule utf16_units_pos [OF char(3)]) (use Cons in simp)
      then have "walk_line (cur @ rest) byte seen (seen + utf16_units cur) =
          walk_line (drop ?k cs @ rest) (byte + utf8_width c) (seen + utf16_width c) (seen + utf16_width c + utf16_units (drop ?k cs))"
        using \<open>cur = c # cs\<close> after char(2,4) by (simp add: Let_def add.assoc)
      also have "\<dots> = byte + utf8_width c + length (drop ?k cs)"
        using less.hyps [OF _ char(3), of "seen + utf16_width c" "byte + utf8_width c"] less.prems(2) char(4) \<open>cur = c # cs\<close>
        by (simp add: add.assoc)
      finally show ?thesis using \<open>cur = c # cs\<close> char(2) k by simp
    qed
  qed
qed

lemma skip_lines_append:
  "pre = [] \<or> last pre = CHR 0x0A \<Longrightarrow> skip_lines (length (filter (\<lambda>c. c = CHR 0x0A) pre)) (pre @ rest) pos = Some (pos + length pre)"
proof (induction pre arbitrary: pos)
  case (Cons c pre)
  show ?case
  proof (cases "c = CHR 0x0A")
    case True
    then show ?thesis using Cons.IH [of "pos + 1"] Cons.prems by (cases "pre = []") auto
  next
    case False
    then have "pre \<noteq> []" "last pre = CHR 0x0A" using Cons.prems by (auto split: if_splits)
    then have "CHR 0x0A \<in> set (filter (\<lambda>c. c = CHR 0x0A) pre)" using last_in_set by force
    then obtain n where n: "length (filter (\<lambda>c. c = CHR 0x0A) pre) = Suc n" by (cases "filter (\<lambda>c. c = CHR 0x0A) pre") auto
    then show ?thesis using Cons.IH [of "pos + 1"] \<open>last pre = CHR 0x0A\<close> False by simp
  qed
qed simp

text \<open>The part of a text after its last line feed.\<close>

lemma last_line_split:
  fixes s :: string
  defines "cur \<equiv> rev (takeWhile (\<lambda>c. c \<noteq> CHR 0x0A) (rev s))"
  obtains pre where "s = pre @ cur" "pre = [] \<or> last pre = CHR 0x0A" "CHR 0x0A \<notin> set cur"
    "length s - length (takeWhile (\<lambda>c. c \<noteq> CHR 0x0A) (rev s)) = length pre"
proof
  let ?pre = "rev (dropWhile (\<lambda>c. c \<noteq> CHR 0x0A) (rev s))"
  have s: "s = ?pre @ cur" unfolding cur_def by (metis rev_append rev_rev_ident takeWhile_dropWhile_id)
  show "s = ?pre @ cur" by (rule s)
  show "?pre = [] \<or> last ?pre = CHR 0x0A"
    using hd_dropWhile [of "\<lambda>c. c \<noteq> CHR 0x0A" "rev s"] by (auto simp: last_rev)
  show "CHR 0x0A \<notin> set cur" by (auto simp: cur_def dest: set_takeWhileD)
  have "length s = length ?pre + length cur" using arg_cong [OF s, of length] by simp
  then show "length s - length (takeWhile (\<lambda>c. c \<noteq> CHR 0x0A) (rev s)) = length ?pre" by (simp add: cur_def)
qed

lemma utf8_from_append: "utf8_from 0 t \<Longrightarrow> utf8_from n (s @ t) = utf8_from n s"
proof (induction s arbitrary: n)
  case Nil
  then show ?case by (cases t) auto
qed auto

lemma boundary_split:
  assumes "utf8_from n (s @ t)" "t = [] \<or> \<not> continuation_byte (hd t)"
  shows "utf8_from n s" "utf8_from 0 t"
proof -
  have "utf8_from n s \<and> utf8_from 0 t"
    using assms
  proof (induction s arbitrary: n)
    case Nil
    then show ?case by (cases t) (auto split: if_splits)
  qed (auto split: if_splits)
  then show "utf8_from n s" "utf8_from 0 t" by auto
qed

lemma boundary_parts:
  assumes "valid_utf8 s" "is_char_boundary s i"
  shows "utf8_from 0 (take i s)" "utf8_from 0 (drop i s)"
proof -
  have "drop i s = [] \<or> \<not> continuation_byte (hd (drop i s))"
  proof (cases "i = 0")
    case True
    then show ?thesis using assms(1) by (cases s) (auto simp: valid_utf8_def)
  next
    case False
    then show ?thesis using assms(2) by (auto simp: is_char_boundary_def hd_drop_conv_nth)
  qed
  then show "utf8_from 0 (take i s)" "utf8_from 0 (drop i s)"
    using boundary_split [of 0 "take i s" "drop i s"] assms(1) by (auto simp: valid_utf8_def)
qed

lemma newline_char: "\<not> continuation_byte (CHR 0x0A)" "utf8_width (CHR 0x0A) = 1"
  by (simp_all add: continuation_byte_def utf8_width_def code_def)

lemma line_boundary:
  assumes "utf8_from 0 (pre @ cur)" "pre = [] \<or> last pre = CHR 0x0A"
  shows "utf8_from 0 cur"
proof (cases "pre = []")
  case False
  with assms(2) obtain p where p: "pre = p @ [CHR 0x0A]" by (metis append_butlast_last_id)
  then have "utf8_from 0 (CHR 0x0A # cur)" using boundary_split(2) [of 0 p "CHR 0x0A # cur"] assms(1) newline_char(1) by simp
  then show ?thesis using newline_char by simp
qed (use assms in simp)

lemma utf8_boundary:
  assumes "utf8_from 0 t"
  shows "is_char_boundary (s @ t) (length s)"
  using assms by (cases t) (auto simp: is_char_boundary_def nth_append)

lemma slice_parts: "slice (a @ b @ c) (length a) (length a + length b) = b"
  by (simp add: slice_def)

lemma position_of_offset:
  assumes "valid_utf8 s" "is_char_boundary s i"
  obtains pre cur where "take i s = pre @ cur" "pre = [] \<or> last pre = CHR 0x0A" "CHR 0x0A \<notin> set cur" "utf8_from 0 cur" "i \<le> length s"
    "(offset_to_position s i :: ('e, lsp_position) outcome) =
       Ok \<lparr>po_line = wrap_u32 (length (filter (\<lambda>c. c = CHR 0x0A) (take i s))), po_character = wrap_u32 (utf16_units cur)\<rparr>"
proof -
  have le: "i \<le> length s" using assms(2) by (auto simp: is_char_boundary_def)
  note parts = boundary_parts [OF assms]
  obtain pre where pre: "take i s = pre @ rev (takeWhile (\<lambda>c. c \<noteq> CHR 0x0A) (rev (take i s)))" "pre = [] \<or> last pre = CHR 0x0A"
    "CHR 0x0A \<notin> set (rev (takeWhile (\<lambda>c. c \<noteq> CHR 0x0A) (rev (take i s))))"
    "length (take i s) - length (takeWhile (\<lambda>c. c \<noteq> CHR 0x0A) (rev (take i s))) = length pre"
    by (rule last_line_split)
  let ?cur = "rev (takeWhile (\<lambda>c. c \<noteq> CHR 0x0A) (rev (take i s)))"
  have s: "s = pre @ ?cur @ drop i s" using pre(1) by (metis append.assoc append_take_drop_id)
  have i: "i = length pre + length ?cur" using arg_cong [OF pre(1), of length] le by simp
  have cur: "utf8_from 0 ?cur" using line_boundary [of pre ?cur] parts(1) pre(1,2) by simp
  have "utf8_from 0 (?cur @ drop i s)" using cur utf8_from_append [OF parts(2)] by blast
  then have "is_char_boundary s (length pre)" using utf8_boundary [of "?cur @ drop i s" pre] s by simp
  then have "(str_slice s (length pre) i :: ('e, string) outcome) = Ok ?cur"
    using assms(2) i slice_parts [of pre ?cur "drop i s"] s by (simp add: str_slice_def)
  moreover have "(str_slice s 0 i :: ('e, string) outcome) = Ok (take i s)" using assms(2) by (simp add: str_slice_def slice_def is_char_boundary_def)
  ultimately have "(offset_to_position s i :: ('e, lsp_position) outcome) =
       Ok \<lparr>po_line = wrap_u32 (length (filter (\<lambda>c. c = CHR 0x0A) (take i s))), po_character = wrap_u32 (utf16_units ?cur)\<rparr>"
    using le pre(4) by (simp add: offset_to_position_def Let_def min_absorb1)
  then show thesis using that [of pre ?cur] pre(1-3) cur le by blast
qed

text \<open>The conversion back from a position.\<close>

lemma position_inverse:
  assumes "valid_utf8 s" "is_char_boundary s i" "length s < 2 ^ 30"
  shows "\<exists>p. offset_to_position s i = (Ok p :: ('e, lsp_position) outcome) \<and> position_to_offset s p = i"
proof -
  obtain pre cur where pc: "take i s = pre @ cur" "pre = [] \<or> last pre = CHR 0x0A" "CHR 0x0A \<notin> set cur" "utf8_from 0 cur" "i \<le> length s"
    "(offset_to_position s i :: ('e, lsp_position) outcome) =
       Ok \<lparr>po_line = wrap_u32 (length (filter (\<lambda>c. c = CHR 0x0A) (take i s))), po_character = wrap_u32 (utf16_units cur)\<rparr>"
    by (rule position_of_offset [OF assms(1,2)])
  let ?lines = "length (filter (\<lambda>c. c = CHR 0x0A) pre)"
  have s: "s = pre @ cur @ drop i s" using pc(1) by (metis append.assoc append_take_drop_id)
  have i: "i = length pre + length cur" using arg_cong [OF pc(1), of length] pc(5) by simp
  have "?lines \<le> length s" using s i pc(5) le_trans [OF length_filter_le] by (metis add_leD1)
  moreover have "filter (\<lambda>c. c = CHR 0x0A) cur = []" using pc(3) by (auto simp: filter_empty_conv)
  ultimately have line: "wrap_u32 (length (filter (\<lambda>c. c = CHR 0x0A) (take i s))) = ?lines"
    using pc(1) assms(3) by (simp add: wrap_u32_mod)
  have bound: "utf16_units cur < 2 ^ 32 - 2" using utf16_units_le [of cur] i pc(5) assms(3) by simp
  then have character: "wrap_u32 (utf16_units cur) = utf16_units cur" by (simp add: wrap_u32_mod)
  have skip: "skip_lines ?lines s 0 = Some (length pre)" using skip_lines_append [OF pc(2), of "cur @ drop i s" 0] s by simp
  have "takeWhile (\<lambda>c. c \<noteq> CHR 0x0A) (drop (length pre) s) = cur @ takeWhile (\<lambda>c. c \<noteq> CHR 0x0A) (drop i s)"
    using pc(3) arg_cong [OF s, of "drop (length pre)"] by (subst arg_cong [OF s, of "drop (length pre)"]) (auto intro: takeWhile_append2)
  then have "position_to_offset s \<lparr>po_line = ?lines, po_character = utf16_units cur\<rparr> = i"
    using walk_line_stops [of cur 0 "takeWhile (\<lambda>c. c \<noteq> CHR 0x0A) (drop i s)" "length pre"] pc(4) bound skip i
    by (simp add: position_to_offset_def)
  then show ?thesis using pc(6) line character by simp
qed

text \<open>C33: Positions of the editor and offsets in the source correspond. At every character boundary of a source of less than
  a gibibyte the conversion to a position succeeds, and converting the position back gives the offset.\<close>

theorem position_roundtrip:
  assumes "valid_utf8 s" "is_char_boundary s i" "length s < 2 ^ 30"
  shows "\<exists>p. offset_to_position s i = (Ok p :: ('e, lsp_position) outcome) \<and> position_to_offset s p = i"
  using assms by (rule position_inverse)

theorem position_roundtrip_witness:
  "\<exists>p. offset_to_position [CHR 0x0A, CHR 0xC3, CHR 0xA9, CHR ''x''] 3 = (Ok p :: (unit, lsp_position) outcome) \<and>
     position_to_offset [CHR 0x0A, CHR 0xC3, CHR 0xA9, CHR ''x''] p = 3"
  by (rule position_roundtrip) (simp_all add: valid_utf8_def is_char_boundary_def continuation_byte_def utf8_width_def code_def)

end
