(* ===== verification/Language_Server.thy ===== *)
theory Language_Server
  imports Context Format Text_Positions
begin

text \<open>
  The language server, \<open>crates/ic10-lsp/src/main.rs\<close>: its state (the open documents, the analysis options, the index of
  scenarios and the selected contexts) with the handlers that change it and the notifications they send, and the requests that
  are answered from a document: renaming, references, highlights, folding ranges, hints, semantic tokens, quick fixes and
  formatting. Here a handler runs from its start to its end; \<open>Server_Tasks\<close> interleaves them. URIs are texts;
  deserialised parameters and the parser of scenario files are arguments.
\<close>

section \<open>State\<close>

record lsp_diagnostic =
  ld_range :: lsp_range
  ld_severity :: severity
  ld_code :: string
  ld_source :: string
  ld_message :: string
  ld_unnecessary :: bool
  ld_data :: "environment_target option"

record context_status_item =
  cs_scenario_uri :: string
  cs_ic_id :: string
  cs_label :: string

record context_status =
  ct_uri :: string
  ct_contexts :: "context_status_item list"
  ct_active :: "context_status_item option"
  ct_ambiguous :: bool

datatype notification =
    PublishDiagnostics string "lsp_diagnostic list"
  | ProgramBudget string program_budget
  | ContextStatusChanged context_status
  | LogWarning string

text \<open>The map of the documents is iterated over, so it is the list of its entries; what is sent is kept in order.\<close>

record server_state =
  sv_documents :: "(string, document) btree_map"
  sv_asset_uri :: "string option"
  sv_unused :: unused_level
  sv_scenarios :: scenario_index
  sv_selections :: "string \<rightharpoonup> string \<times> string"
  sv_sent :: "notification list"

definition server_new :: server_state where
  "server_new = \<lparr>sv_documents = bt_empty, sv_asset_uri = None, sv_unused = UnusedHint, sv_scenarios = index_new,
     sv_selections = Map.empty, sv_sent = []\<rparr>"

definition open_document :: "server_state \<Rightarrow> string \<Rightarrow> document option" where
  "open_document st uri = bt_get (sv_documents st) uri"

fun omap :: "('a \<Rightarrow> ('e, 'b) outcome) \<Rightarrow> 'a list \<Rightarrow> ('e, 'b list) outcome" where
  "omap f [] = Ok []"
| "omap f (x # xs) = obind (f x) (\<lambda>y. obind (omap f xs) (\<lambda>ys. Ok (y # ys)))"

definition send :: "notification \<Rightarrow> server_state \<Rightarrow> server_state" where
  "send n st = st\<lparr>sv_sent := sv_sent st @ [n]\<rparr>"

section \<open>Documents and contexts\<close>

definition active_context :: "server_state \<Rightarrow> string \<Rightarrow> analysis_context option" where
  "active_context st uri =
     (let contexts = index_contexts (sv_scenarios st) uri
      in case contexts of
           [c] \<Rightarrow> Some c
         | _ \<Rightarrow>
             Option.bind (sv_selections st uri) (\<lambda>(scenario, ic).
               find (\<lambda>c. ac_scenario_uri c = scenario \<and> ac_ic_id c = ic) contexts))"

definition status_item :: "analysis_context \<Rightarrow> context_status_item" where
  "status_item c = \<lparr>cs_scenario_uri = ac_scenario_uri c, cs_ic_id = ac_ic_id c, cs_label = context_label c\<rparr>"

definition publish_context_status :: "string \<Rightarrow> server_state \<Rightarrow> server_state" where
  "publish_context_status uri st =
     (let contexts = index_contexts (sv_scenarios st) uri;
          active = active_context st uri
      in send (ContextStatusChanged \<lparr>ct_uri = uri, ct_contexts = map status_item contexts, ct_active = map_option status_item active,
                 ct_ambiguous = (1 < length contexts \<and> active = None)\<rparr>) st)"

definition source_diagnostic :: "string \<Rightarrow> diagnostic \<Rightarrow> (unit, lsp_diagnostic) outcome" where
  "source_diagnostic source d =
     obind (span_to_range source (dg_span d)) (\<lambda>rng.
     Ok \<lparr>ld_range = rng, ld_severity = dg_severity d, ld_code = dg_code d, ld_source = ''ic10'',
         ld_message = dg_message d, ld_unnecessary = dg_unnecessary d, ld_data = None\<rparr>)"

definition environment_diagnostic :: "string \<Rightarrow> context_diagnostic \<Rightarrow> (unit, lsp_diagnostic) outcome" where
  "environment_diagnostic source d =
     obind (span_to_range source (cd_span d)) (\<lambda>rng.
     Ok \<lparr>ld_range = rng, ld_severity = SevError, ld_code = cd_code d, ld_source = ''ic10 environment'',
         ld_message = cd_message d, ld_unnecessary = False, ld_data = cd_target d\<rparr>)"

definition document_report :: "knowledge_base \<Rightarrow> server_state \<Rightarrow> string \<Rightarrow> document \<Rightarrow> (unit, lsp_diagnostic list) outcome" where
  "document_report kb st uri doc =
     obind (omap (source_diagnostic (doc_source doc)) (doc_diagnostics doc)) (\<lambda>diagnostics.
     case active_context st uri of
       None \<Rightarrow> Ok diagnostics
     | Some c \<Rightarrow>
         obind (omap (environment_diagnostic (doc_source doc)) (validate_context doc c kb)) (\<lambda>environment.
         Ok (diagnostics @ environment)))"

definition update_document :: "knowledge_base \<Rightarrow> string \<Rightarrow> string \<Rightarrow> server_state \<Rightarrow> (unit, server_state) outcome" where
  "update_document kb uri text st =
     obind (parse_with_options text kb (sv_unused st)) (\<lambda>doc.
     obind (document_report kb st uri doc) (\<lambda>diagnostics.
     Ok (publish_context_status uri
          (send (ProgramBudget uri (doc_budget doc))
            (send (PublishDiagnostics uri diagnostics)
              (st\<lparr>sv_documents := bt_insert uri doc (sv_documents st)\<rparr>))))))"

definition refresh_open_documents :: "knowledge_base \<Rightarrow> server_state \<Rightarrow> (unit, server_state) outcome" where
  "refresh_open_documents kb st =
     ofold (\<lambda>(uri, source) st. update_document kb uri source st)
       (map (\<lambda>(uri, doc). (uri, doc_source doc)) (sv_documents st)) st"

section \<open>Handlers\<close>

definition parse_unused_level :: "string \<Rightarrow> unused_level" where
  "parse_unused_level value =
     (if value = ''off'' then UnusedOff else if value = ''warning'' then UnusedWarning else UnusedHint)"

text \<open>The options of \<open>initialize\<close>, when they could be deserialised: the asset URI and the level of unused symbols.\<close>

definition initialize :: "(string option \<times> string option) option \<Rightarrow> server_state \<Rightarrow> server_state" where
  "initialize options st =
     (case options of
        None \<Rightarrow> st
      | Some (asset_uri, unused) \<Rightarrow>
          (let st = st\<lparr>sv_asset_uri := asset_uri\<rparr>
           in case unused of Some level \<Rightarrow> st\<lparr>sv_unused := parse_unused_level level\<rparr> | None \<Rightarrow> st))"

definition did_open :: "knowledge_base \<Rightarrow> string \<Rightarrow> string \<Rightarrow> server_state \<Rightarrow> (unit, server_state) outcome" where
  "did_open kb uri text st = update_document kb uri text st"

text \<open>The whole text is sent with every change; the last change counts.\<close>

definition did_change :: "knowledge_base \<Rightarrow> string \<Rightarrow> string list \<Rightarrow> server_state \<Rightarrow> (unit, server_state) outcome" where
  "did_change kb uri changes st = (if changes = [] then Ok st else update_document kb uri (last changes) st)"

definition did_close :: "string \<Rightarrow> server_state \<Rightarrow> server_state" where
  "did_close uri st = send (PublishDiagnostics uri []) (st\<lparr>sv_documents := bt_remove uri (sv_documents st)\<rparr>)"

text \<open>The setting \<open>diagnostics.unused\<close>, when the settings could be deserialised and have it.\<close>

definition did_change_configuration :: "knowledge_base \<Rightarrow> string option \<Rightarrow> server_state \<Rightarrow> (unit, server_state) outcome" where
  "did_change_configuration kb unused st =
     (case unused of
        None \<Rightarrow> Ok st
      | Some level \<Rightarrow> refresh_open_documents kb (st\<lparr>sv_unused := parse_unused_level level\<rparr>))"

definition resolved_program :: "(string, string) btree_map \<Rightarrow> string \<Rightarrow> program_uri" where
  "resolved_program resolved program = (case bt_get resolved program of Some uri \<Rightarrow> uri | None \<Rightarrow> program)"

definition scenario_changed ::
  "(string \<Rightarrow> string + scenario) \<Rightarrow> knowledge_base \<Rightarrow> string \<Rightarrow> i64 \<Rightarrow> string option \<Rightarrow> (string, string) btree_map \<Rightarrow> server_state
     \<Rightarrow> (unit, server_state) outcome" where
  "scenario_changed parse_scenario kb uri version source resolved st =
     refresh_open_documents kb
       (case source of
          None \<Rightarrow> st\<lparr>sv_scenarios := index_remove uri (sv_scenarios st)\<rparr>
        | Some text \<Rightarrow>
            (case parse_scenario text of
               Inr s \<Rightarrow> st\<lparr>sv_scenarios := index_update uri version s (resolved_program resolved) kb (sv_scenarios st)\<rparr>
             | Inl e \<Rightarrow> send (LogWarning (''Ignoring invalid scenario '' @ uri @ '': '' @ e))
                          (st\<lparr>sv_scenarios := index_remove uri (sv_scenarios st)\<rparr>)))"

definition select_context ::
  "knowledge_base \<Rightarrow> string \<Rightarrow> string option \<Rightarrow> string option \<Rightarrow> server_state \<Rightarrow> (unit, server_state) outcome" where
  "select_context kb program scenario ic st =
     (let st = st\<lparr>sv_selections := (case (scenario, ic) of
                                       (Some s, Some i) \<Rightarrow> (sv_selections st)(program \<mapsto> (s, i))
                                     | _ \<Rightarrow> (sv_selections st)(program := None))\<rparr>
      in case open_document st program of
           Some doc \<Rightarrow> update_document kb program (doc_source doc) st
         | None \<Rightarrow> Ok st)"

section \<open>Symbols\<close>

record text_edit =
  te_range :: lsp_range
  te_new_text :: string

definition rename_target :: "document \<Rightarrow> usize \<Rightarrow> (token \<times> symbol) option" where
  "rename_target doc offset =
     Option.bind (token_at_offset doc offset) (\<lambda>token.
     Option.bind (symbol_occurrence_at_offset doc offset) (\<lambda>occurrence.
     Option.bind (doc_symbol doc (oc_name occurrence)) (\<lambda>s. Some (token, s))))"

definition declared_as :: "symbol_kind \<Rightarrow> string" where
  "declared_as kind = (case kind of SAlias \<Rightarrow> ''an alias'' | SDefine \<Rightarrow> ''a define'' | SLabel \<Rightarrow> ''a label'')"

definition occurrence_edit :: "string \<Rightarrow> string \<Rightarrow> symbol_occurrence \<Rightarrow> (string, text_edit) outcome" where
  "occurrence_edit source new_name occurrence =
     obind (span_to_range source (oc_span occurrence)) (\<lambda>rng. Ok \<lparr>te_range = rng, te_new_text = new_name\<rparr>)"

definition rename_symbol_edits :: "document \<Rightarrow> usize \<Rightarrow> string \<Rightarrow> (string, text_edit list option) outcome" where
  "rename_symbol_edits doc offset new_name =
     (case rename_target doc offset of
        None \<Rightarrow> Ok None
      | Some (_, s) \<Rightarrow>
          if \<not> is_identifier new_name then
            Err (tick_quote new_name @ '' is not a valid IC10 symbol name. Use letters, numbers, and underscores, '' @
                 ''starting with a letter or underscore.'')
          else
            (case (if new_name \<noteq> sym_name s then doc_symbol doc new_name else None) of
               Some existing \<Rightarrow>
                 Err (''Cannot rename '' @ tick_quote (sym_name s) @ '' to '' @ tick_quote new_name @ '' because '' @
                      tick_quote new_name @ '' is already declared as '' @ declared_as (sym_kind existing) @ ''.'')
             | None \<Rightarrow>
                 obind (omap (occurrence_edit (doc_source doc) new_name) (occurrences_for doc (sym_name s))) (\<lambda>edits.
                 Ok (Some edits))))"

definition prepare_rename :: "document \<Rightarrow> lsp_position \<Rightarrow> (string, (lsp_range \<times> string) option) outcome" where
  "prepare_rename doc p =
     (case rename_target doc (position_to_offset (doc_source doc) p) of
        None \<Rightarrow> Ok None
      | Some (token, s) \<Rightarrow> obind (span_to_range (doc_source doc) (tok_span token)) (\<lambda>rng. Ok (Some (rng, sym_name s))))"

definition lsp_rename :: "document \<Rightarrow> lsp_position \<Rightarrow> string \<Rightarrow> (string, text_edit list option) outcome" where
  "lsp_rename doc p new_name = rename_symbol_edits doc (position_to_offset (doc_source doc) p) new_name"

definition lsp_references :: "document \<Rightarrow> lsp_position \<Rightarrow> bool \<Rightarrow> (unit, lsp_range list option) outcome" where
  "lsp_references doc p include_declaration =
     (case symbol_occurrence_at_offset doc (position_to_offset (doc_source doc) p) of
        None \<Rightarrow> Ok None
      | Some occurrence \<Rightarrow>
          obind (omap (\<lambda>item. span_to_range (doc_source doc) (oc_span item))
                   (filter (\<lambda>item. include_declaration \<or> \<not> oc_declaration item) (occurrences_for doc (oc_name occurrence)))) (\<lambda>ranges.
          Ok (Some ranges)))"

text \<open>A highlight is a range and whether it is a write.\<close>

definition document_highlight :: "document \<Rightarrow> lsp_position \<Rightarrow> (unit, (lsp_range \<times> bool) list option) outcome" where
  "document_highlight doc p =
     (case symbol_occurrence_at_offset doc (position_to_offset (doc_source doc) p) of
        None \<Rightarrow> Ok None
      | Some occurrence \<Rightarrow>
          obind (omap (\<lambda>item. obind (span_to_range (doc_source doc) (oc_span item)) (\<lambda>rng. Ok (rng, oc_declaration item)))
                   (occurrences_for doc (oc_name occurrence))) (\<lambda>items.
          Ok (Some items)))"

text \<open>The definition is a URI with a range: the environment of a device reference, or the declaration of a symbol.\<close>

definition goto_definition :: "server_state \<Rightarrow> string \<Rightarrow> document \<Rightarrow> lsp_position \<Rightarrow> (unit, (string \<times> lsp_range) option) outcome" where
  "goto_definition st uri doc p =
     (case token_at_offset doc (position_to_offset (doc_source doc) p) of
        None \<Rightarrow> Ok None
      | Some token \<Rightarrow>
          (case Option.bind (active_context st uri) (\<lambda>c. map_option (\<lambda>_. c) (device_for_reference c (tok_text token) doc)) of
             Some c \<Rightarrow>
               Ok (Some (ac_scenario_uri c,
                    \<lparr>ra_start = \<lparr>po_line = 0, po_character = 0\<rparr>, ra_end = \<lparr>po_line = 0, po_character = 0\<rparr>\<rparr>))
           | None \<Rightarrow>
               (case doc_symbol doc (tok_text token) of
                  None \<Rightarrow> Ok None
                | Some s \<Rightarrow> obind (span_to_range (doc_source doc) (sym_span s)) (\<lambda>rng. Ok (Some (uri, rng))))))"

section \<open>Folding, hints and formatting\<close>

fun label_ranges :: "usize list \<Rightarrow> usize \<Rightarrow> (nat \<times> nat) list" where
  "label_ranges [] count = []"
| "label_ranges (index # rest) count =
     (let end_line = (case rest of next # _ \<Rightarrow> next | [] \<Rightarrow> count) - 1
      in (if index < end_line then [(wrap_u32 index, wrap_u32 end_line)] else []) @ label_ranges rest count)"

definition is_label_line :: "parsed_line \<Rightarrow> bool" where
  "is_label_line line = (case pl_kind line of LLabel _ \<Rightarrow> True | _ \<Rightarrow> False)"

definition folding_ranges :: "document \<Rightarrow> (nat \<times> nat) list" where
  "folding_ranges doc =
     label_ranges (filter (\<lambda>i. is_label_line (doc_lines doc ! i)) [0..<length (doc_lines doc)]) (length (doc_lines doc))"

record inlay_hint =
  ih_position :: lsp_position
  ih_label :: string
  ih_tooltip :: string

definition symbol_kind_word :: "symbol_kind \<Rightarrow> string" where
  "symbol_kind_word kind = (case kind of SAlias \<Rightarrow> ''alias'' | SDefine \<Rightarrow> ''define'' | SLabel \<Rightarrow> ''label'')"

definition within :: "lsp_range \<Rightarrow> lsp_position \<Rightarrow> bool" where
  "within rng p \<longleftrightarrow> position_le (ra_start rng) p \<and> position_le p (ra_end rng)"

definition symbol_hint :: "document \<Rightarrow> lsp_range \<Rightarrow> symbol_occurrence \<Rightarrow> (unit, inlay_hint list) outcome" where
  "symbol_hint doc rng occurrence =
     (if oc_declaration occurrence then Ok []
      else
        obind (offset_to_position (doc_source doc) (sp_end (oc_span occurrence))) (\<lambda>p.
        Ok (if \<not> within rng p then []
            else
              (case doc_symbol doc (oc_name occurrence) of
                 None \<Rightarrow> []
               | Some s \<Rightarrow>
                   (case sym_value s of
                      None \<Rightarrow> []
                    | Some value \<Rightarrow>
                        [\<lparr>ih_position = p, ih_label = '' = '' @ value,
                          ih_tooltip = ''Resolved '' @ symbol_kind_word (sym_kind s) @ '' '' @ tick_quote (sym_name s)\<rparr>])))))"

text \<open>The label begins with a blank, the three bytes of U+2192 and a blank.\<close>

definition device_hint :: "document \<Rightarrow> analysis_context \<Rightarrow> lsp_range \<Rightarrow> token \<Rightarrow> (unit, inlay_hint list) outcome" where
  "device_hint doc c rng operand =
     (case device_for_reference c (tok_text operand) doc of
        None \<Rightarrow> Ok []
      | Some device \<Rightarrow>
          obind (offset_to_position (doc_source doc) (sp_end (tok_span operand))) (\<lambda>p.
          Ok (if \<not> within rng p then []
              else [\<lparr>ih_position = p, ih_label = [CHR 0x20, CHR 0xE2, CHR 0x86, CHR 0x92, CHR 0x20] @ spec_display_name device,
                     ih_tooltip = ds_prefab device @ '' in '' @ context_label c\<rparr>])))"

definition line_operands :: "parsed_line \<Rightarrow> token list" where
  "line_operands line = (case pl_kind line of LInstruction _ operands \<Rightarrow> operands | _ \<Rightarrow> [])"

definition inlay_hints :: "server_state \<Rightarrow> string \<Rightarrow> document \<Rightarrow> lsp_range \<Rightarrow> (unit, inlay_hint list) outcome" where
  "inlay_hints st uri doc rng =
     obind (omap (symbol_hint doc rng) (doc_occurrences doc)) (\<lambda>symbols.
     case active_context st uri of
       None \<Rightarrow> Ok (concat symbols)
     | Some c \<Rightarrow>
         obind (omap (device_hint doc c rng) (concat (map line_operands (doc_lines doc)))) (\<lambda>devices.
         Ok (concat symbols @ concat devices)))"

definition lsp_formatting :: "document \<Rightarrow> nat \<Rightarrow> bool \<Rightarrow> (unit, text_edit list) outcome" where
  "lsp_formatting doc tab_size insert_spaces =
     (let formatted = format_document doc \<lparr>fo_indent_size = tab_size, fo_insert_spaces = insert_spaces, fo_directives_at_column_zero = True\<rparr>
      in if formatted = doc_source doc then Ok []
         else
           obind (offset_to_position (doc_source doc) (length (doc_source doc))) (\<lambda>p.
           Ok [\<lparr>te_range = \<lparr>ra_start = \<lparr>po_line = 0, po_character = 0\<rparr>, ra_end = p\<rparr>, te_new_text = formatted\<rparr>]))"

section \<open>Quick fixes\<close>

text \<open>One row of the table: the entries after the first, from the previous row and the entry before.\<close>

fun distance_row :: "char \<Rightarrow> string \<Rightarrow> nat list \<Rightarrow> nat \<Rightarrow> nat list" where
  "distance_row c (r # rs) (p0 # p1 # ps) before =
     (let v = min (min (p1 + 1) (before + 1)) (p0 + (if c \<noteq> r then 1 else 0))
      in v # distance_row c rs (p1 # ps) v)"
| "distance_row c _ _ before = []"

fun distance_rows :: "string \<Rightarrow> string \<Rightarrow> nat \<Rightarrow> nat list \<Rightarrow> nat list" where
  "distance_rows [] right index previous = previous"
| "distance_rows (c # cs) right index previous =
     distance_rows cs right (index + 1) ((index + 1) # distance_row c right previous (index + 1))"

definition edit_distance :: "string \<Rightarrow> string \<Rightarrow> nat" where
  "edit_distance left right = distance_rows left right 0 [0..<length right + 1] ! length right"

text \<open>\<open>min_by_key\<close> with the key of the distance and the name: names come in increasing order, so the first of the least
  distance wins.\<close>

definition closer :: "(nat \<times> string) \<Rightarrow> (nat \<times> string) option \<Rightarrow> (nat \<times> string) option" where
  "closer candidate best = (case best of None \<Rightarrow> Some candidate | Some b \<Rightarrow> if fst candidate < fst b then Some candidate else Some b)"

definition closest_instruction :: "string \<Rightarrow> knowledge_base \<Rightarrow> string option" where
  "closest_instruction value kb =
     map_option snd (fold closer
       (filter (\<lambda>(distance, _). distance \<le> 2)
          (map (\<lambda>name. (edit_distance value name, name)) (bt_keys (lang_instructions (language kb))))) None)"

definition ranges_overlap :: "lsp_range \<Rightarrow> lsp_range \<Rightarrow> bool" where
  "ranges_overlap left right \<longleftrightarrow> position_le (ra_start left) (ra_end right) \<and> position_le (ra_start right) (ra_end left)"

record quick_fix =
  qf_title :: string
  qf_edit :: text_edit

definition removable_codes :: "string list" where
  "removable_codes = [''unused-label'', ''unused-alias'', ''unused-define'', ''unreachable-code'']"

definition diagnostic_fix :: "document \<Rightarrow> knowledge_base \<Rightarrow> lsp_range \<Rightarrow> diagnostic \<Rightarrow> (unit, quick_fix list) outcome" where
  "diagnostic_fix doc kb requested d =
     obind (span_to_range (doc_source doc) (dg_span d)) (\<lambda>rng.
     if \<not> ranges_overlap rng requested then Ok []
     else if dg_code d \<in> set removable_codes then
       (case line_at_offset doc (sp_start (dg_span d)) of
          None \<Rightarrow> Ok []
        | Some line \<Rightarrow>
            obind (span_to_range (doc_source doc) (pl_code_span line)) (\<lambda>code_range.
            Ok [\<lparr>qf_title = ''Remove unused code (preserve line numbering)'',
                 qf_edit = \<lparr>te_range = code_range, te_new_text = []\<rparr>\<rparr>]))
     else if dg_code d = ''unknown-instruction'' then
       Ok (case Option.bind (token_at_offset doc (sp_start (dg_span d))) (\<lambda>token. closest_instruction (tok_text token) kb) of
             None \<Rightarrow> []
           | Some replacement \<Rightarrow>
               [\<lparr>qf_title = ''Change to '' @ tick_quote replacement, qf_edit = \<lparr>te_range = rng, te_new_text = replacement\<rparr>\<rparr>])
     else Ok [])"

definition code_actions :: "document \<Rightarrow> lsp_range \<Rightarrow> knowledge_base \<Rightarrow> (unit, quick_fix list) outcome" where
  "code_actions doc requested kb =
     obind (omap (diagnostic_fix doc kb requested) (doc_diagnostics doc)) (\<lambda>fixes. Ok (concat fixes))"

section \<open>Semantic tokens\<close>

record semantic_token =
  st_position :: lsp_position
  st_length :: nat
  st_type :: nat
  st_modifiers :: nat

record encoded_token =
  et_delta_line :: nat
  et_delta_start :: nat
  et_length :: nat
  et_type :: nat
  et_modifiers :: nat

definition mk_semantic_token :: "document \<Rightarrow> span \<Rightarrow> nat \<Rightarrow> nat \<Rightarrow> (unit, semantic_token) outcome" where
  "mk_semantic_token doc sp token_type modifiers =
     obind (offset_to_position (doc_source doc) (sp_start sp)) (\<lambda>p.
     obind (str_slice (doc_source doc) (sp_start sp) (sp_end sp)) (\<lambda>text.
     Ok \<lparr>st_position = p, st_length = wrap_u32 (utf16_units text), st_type = token_type, st_modifiers = modifiers\<rparr>))"

text \<open>Whether \<open>register_markdown\<close> and \<open>device_reference_markdown\<close> describe a token.\<close>

definition names_register :: "string \<Rightarrow> knowledge_base \<Rightarrow> bool" where
  "names_register text kb \<longleftrightarrow>
     (case Option.bind (strip_prefix ''r'' text) parse_u8 of Some n \<Rightarrow> n \<le> 15 | None \<Rightarrow> False) \<or>
     text = arch_stack_pointer (lang_architecture (language kb)) \<or> text = arch_return_address (lang_architecture (language kb))"

definition names_pin :: "string \<Rightarrow> bool" where
  "names_pin text = (case Option.bind (strip_prefix ''d'' text) parse_u8 of Some n \<Rightarrow> n \<le> 5 | None \<Rightarrow> False)"

definition names_device_reference :: "string \<Rightarrow> knowledge_base \<Rightarrow> bool" where
  "names_device_reference text kb \<longleftrightarrow>
     (case split_once '':'' text of
        Some (base, connection) \<Rightarrow>
          parse_usize connection \<noteq> None \<and> (base = base_device (lang_architecture (language kb)) \<or> names_pin base)
      | None \<Rightarrow> False) \<or>
     text = base_device (lang_architecture (language kb)) \<or> names_pin text"

definition occurrence_class :: "symbol_occurrence \<Rightarrow> nat \<times> nat" where
  "occurrence_class occurrence =
     ((case oc_kind occurrence of SLabel \<Rightarrow> 6 | SDefine \<Rightarrow> 4 | SAlias \<Rightarrow> 1),
      if oc_declaration occurrence then (if oc_kind occurrence = SDefine then 3 else 1) else 0)"

definition operand_class :: "document \<Rightarrow> knowledge_base \<Rightarrow> instruction_info option \<Rightarrow> usize \<Rightarrow> token \<Rightarrow> (nat \<times> nat) option" where
  "operand_class doc kb info index operand =
     (case find (\<lambda>oc. oc_span oc = tok_span operand) (doc_occurrences doc) of
        Some occurrence \<Rightarrow> Some (occurrence_class occurrence)
      | None \<Rightarrow>
          if parse_literal_macro (tok_text operand) \<noteq> None then Some (3, 2)
          else if bt_contains (lang_constants (language kb)) (tok_text operand) \<or> parse_numeric_literal (tok_text operand) \<noteq> None then Some (4, 2)
          else if kb_enum_value kb (tok_text operand) \<noteq> None then Some (5, 2)
          else if names_register (tok_text operand) kb then
            Some (1, if (case Option.bind info (\<lambda>i. nth_opt (in_operands i) index) of Some spec \<Rightarrow> operand_type spec = ''r?'' | None \<Rightarrow> False) then 8 else 0)
          else if names_device_reference (tok_text operand) kb then Some (2, 0)
          else None)"

definition line_tokens :: "document \<Rightarrow> knowledge_base \<Rightarrow> parsed_line \<Rightarrow> (unit, semantic_token list) outcome" where
  "line_tokens doc kb line =
     (case pl_kind line of
        LEmpty \<Rightarrow> Ok []
      | LLabel name \<Rightarrow> obind (mk_semantic_token doc (tok_span name) 6 1) (\<lambda>t. Ok [t])
      | LInstruction mnemonic operands \<Rightarrow>
          (let info = instruction kb (tok_text mnemonic);
               modifiers = (case info of Some i \<Rightarrow> if in_deprecated i then 4 else 0 | None \<Rightarrow> 0)
           in obind (mk_semantic_token doc (tok_span mnemonic) 0 modifiers) (\<lambda>t.
              obind (omap (\<lambda>index.
                       case operand_class doc kb info index (operands ! index) of
                         None \<Rightarrow> Ok []
                       | Some (token_type, modifiers) \<Rightarrow>
                           obind (mk_semantic_token doc (tok_span (operands ! index)) token_type modifiers) (\<lambda>t. Ok [t]))
                     [0..<length operands]) (\<lambda>ts.
              Ok (t # concat ts)))))"

definition in_request :: "lsp_range option \<Rightarrow> semantic_token \<Rightarrow> bool" where
  "in_request requested t =
     (case requested of
        None \<Rightarrow> True
      | Some rng \<Rightarrow>
          position_le (ra_start rng) (st_position t) \<and>
          position_le \<lparr>po_line = po_line (st_position t), po_character = wrap_u32 (po_character (st_position t) + st_length t)\<rparr> (ra_end rng))"

text \<open>The key of the sort, the line and then the character, as one number.\<close>

definition position_key :: "lsp_position \<Rightarrow> int" where
  "position_key p = int (po_line p) * 2 ^ 32 + int (po_character p)"

text \<open>Subtraction of \<open>u32\<close>.\<close>

definition sub_u32 :: "nat \<Rightarrow> nat \<Rightarrow> nat" where
  "sub_u32 a b = nat ((int a - int b) mod 2 ^ 32)"

fun encode_tokens :: "lsp_position \<Rightarrow> semantic_token list \<Rightarrow> encoded_token list" where
  "encode_tokens previous [] = []"
| "encode_tokens previous (t # ts) =
     (let delta_line = sub_u32 (po_line (st_position t)) (po_line previous)
      in \<lparr>et_delta_line = delta_line,
          et_delta_start = (if delta_line = 0 then sub_u32 (po_character (st_position t)) (po_character previous)
                            else po_character (st_position t)),
          et_length = st_length t, et_type = st_type t, et_modifiers = st_modifiers t\<rparr> # encode_tokens (st_position t) ts)"

definition absolute_tokens :: "document \<Rightarrow> lsp_range option \<Rightarrow> knowledge_base \<Rightarrow> (unit, semantic_token list) outcome" where
  "absolute_tokens doc requested kb =
     obind (omap (line_tokens doc kb) (doc_lines doc)) (\<lambda>tss.
     Ok (sort_key (\<lambda>t. position_key (st_position t)) (filter (in_request requested) (concat tss))))"

definition semantic_tokens :: "document \<Rightarrow> lsp_range option \<Rightarrow> knowledge_base \<Rightarrow> (unit, encoded_token list) outcome" where
  "semantic_tokens doc requested kb =
     obind (absolute_tokens doc requested kb) (\<lambda>ts. Ok (encode_tokens \<lparr>po_line = 0, po_character = 0\<rparr> ts))"

section \<open>Completion of fields\<close>

definition active_operand :: "token list \<Rightarrow> usize \<Rightarrow> usize" where
  "active_operand operands offset =
     (case find_index (\<lambda>operand. offset \<le> sp_end (tok_span operand)) operands of Some i \<Rightarrow> i | None \<Rightarrow> length operands)"

definition hash_macro_name :: "string \<Rightarrow> string option" where
  "hash_macro_name text = Option.bind (strip_prefix hash_open text) (strip_suffix macro_close)"

definition device_from_token :: "string \<Rightarrow> knowledge_base \<Rightarrow> device_info option" where
  "device_from_token text kb =
     (case hash_macro_name text of
        Some name \<Rightarrow> device_by_name kb name
      | None \<Rightarrow>
          (case device_by_name kb text of
             Some d \<Rightarrow> Some d
           | None \<Rightarrow>
               Option.bind (parse_signed 10 (- (2 ^ 31)) (2 ^ 31 - 1) (filter (\<lambda>c. c \<noteq> CHR ''_'') text)) (\<lambda>h.
                 device_by_hash kb (of_int h))))"

definition resolved_prefab_device :: "string \<Rightarrow> document \<Rightarrow> knowledge_base \<Rightarrow> device_info option" where
  "resolved_prefab_device text doc kb = Option.bind (follow_defines 32 doc text) (\<lambda>value. device_from_token value kb)"

definition resolved_integer :: "string \<Rightarrow> document \<Rightarrow> knowledge_base \<Rightarrow> i64 option" where
  "resolved_integer text doc kb =
     Option.bind (follow_defines 32 doc text) (\<lambda>value.
       case (case parse_numeric_literal value of
               Some v \<Rightarrow> Some v
             | None \<Rightarrow> Option.bind (bt_get (lang_constants (language kb)) value) (\<lambda>c. as_f64 (co_value c))) of
         Some v \<Rightarrow> if whole_number v then Some (as_i64 v) else None
       | None \<Rightarrow> None)"

definition batch_completion_layout :: "string \<Rightarrow> (usize \<times> usize option \<times> bool) option" where
  "batch_completion_layout mnemonic =
     map_of [(''lb'', (1, None, False)), (''lbn'', (1, None, False)), (''lbs'', (1, Some 2, False)), (''lbns'', (1, Some 3, False)),
             (''sb'', (0, None, True)), (''sbn'', (0, None, True)), (''sbs'', (0, Some 1, True))] mnemonic"

definition known_batch_logic_fields :: "string \<Rightarrow> token list \<Rightarrow> document \<Rightarrow> knowledge_base \<Rightarrow> string list option" where
  "known_batch_logic_fields mnemonic operands doc kb =
     Option.bind (batch_completion_layout mnemonic) (\<lambda>(hash_index, slot_index, writes).
     Option.bind (Option.bind (nth_opt operands hash_index) (\<lambda>t. resolved_prefab_device (tok_text t) doc kb)) (\<lambda>device.
     Option.bind
       (case slot_index of
          Some i \<Rightarrow>
            Option.bind (Option.bind (nth_opt operands i) (\<lambda>t. resolved_integer (tok_text t) doc kb)) (\<lambda>slot.
              map_option sl_logic_types (bt_get (di_slots device) (show_int (sint slot))))
        | None \<Rightarrow> Some (di_logic_types device)) (\<lambda>fields.
     Some (accessible_fields fields writes))))"

text \<open>The fields that completion keeps at a logic operand, when the device is known.\<close>

definition offered_fields :: "server_state \<Rightarrow> string \<Rightarrow> document \<Rightarrow> string \<Rightarrow> token list \<Rightarrow> knowledge_base \<Rightarrow> string list option" where
  "offered_fields st uri doc mnemonic operands kb =
     (case Option.bind (active_context st uri) (\<lambda>c. valid_operation_logic_fields c doc mnemonic operands kb) of
        Some names \<Rightarrow> Some names
      | None \<Rightarrow> known_batch_logic_fields mnemonic operands doc kb)"

end
