(* ===== verification/Server_Tasks.thy ===== *)
theory Server_Tasks
  imports Language_Server
begin

text \<open>
  The handlers of the language server as tasks, \<open>crates/ic10-lsp/src/main.rs\<close>: \<open>tower-lsp\<close> polls the handlers of several
  messages at once, so a handler is a list of steps, one for the code between two of its awaits, and the steps of
  the handlers that run are interleaved. Run without interruption, the steps of a handler are the handler of
  \<open>Language_Server\<close>.
\<close>

section \<open>Steps\<close>

datatype server_step =
    ReadOptions string string
  | ReadContexts string document "lsp_diagnostic list"
  | ReadSelection string document "lsp_diagnostic list" "analysis_context list"
  | StoreDocument string document "lsp_diagnostic list"
  | SendDiagnostics string "lsp_diagnostic list"
  | SendBudget string program_budget
  | StatusContexts string
  | StatusActive string "analysis_context list"
  | StatusSelection string "analysis_context list" "analysis_context list"
  | SendStatus string "analysis_context list" "analysis_context option"
  | SnapshotSources
  | ReadSelected string
  | SetUnused unused_level
  | UpdateScenario string i64 scenario "(string, string) btree_map"
  | RemoveScenario string
  | SendWarning string
  | SetSelection string "(string \<times> string) option"
  | RemoveDocument string

text \<open>\<open>active_context\<close> with the contexts that were read before the selections are.\<close>

definition selected_context :: "server_state \<Rightarrow> string \<Rightarrow> analysis_context list \<Rightarrow> analysis_context option" where
  "selected_context st uri contexts =
     Option.bind (sv_selections st uri) (\<lambda>(scenario, ic). find (\<lambda>c. ac_scenario_uri c = scenario \<and> ac_ic_id c = ic) contexts)"

text \<open>The end of the analysis in \<open>update_document\<close>, when the context is known.\<close>

definition with_environment ::
  "knowledge_base \<Rightarrow> string \<Rightarrow> document \<Rightarrow> lsp_diagnostic list \<Rightarrow> analysis_context option \<Rightarrow> (unit, server_step list) outcome" where
  "with_environment kb uri doc diagnostics context =
     (case context of
        None \<Rightarrow> Ok [StoreDocument uri doc diagnostics]
      | Some c \<Rightarrow>
          obind (omap (environment_diagnostic (doc_source doc)) (validate_context doc c kb)) (\<lambda>environment.
          Ok [StoreDocument uri doc (diagnostics @ environment)]))"

definition context_notification :: "string \<Rightarrow> analysis_context list \<Rightarrow> analysis_context option \<Rightarrow> notification" where
  "context_notification uri contexts active =
     ContextStatusChanged \<lparr>ct_uri = uri, ct_contexts = map status_item contexts, ct_active = map_option status_item active,
       ct_ambiguous = (1 < length contexts \<and> active = None)\<rparr>"

text \<open>One step: the steps it leaves in its place, and the state.\<close>

fun run_step :: "knowledge_base \<Rightarrow> server_step \<Rightarrow> server_state \<Rightarrow> (unit, server_step list \<times> server_state) outcome" where
  "run_step kb (ReadOptions uri text) st =
     obind (parse_with_options text kb (sv_unused st)) (\<lambda>doc.
     obind (omap (source_diagnostic (doc_source doc)) (doc_diagnostics doc)) (\<lambda>diagnostics.
     Ok ([ReadContexts uri doc diagnostics], st)))"
| "run_step kb (ReadContexts uri doc diagnostics) st =
     (case index_contexts (sv_scenarios st) uri of
        [c] \<Rightarrow> obind (with_environment kb uri doc diagnostics (Some c)) (\<lambda>next_steps. Ok (next_steps, st))
      | contexts \<Rightarrow> Ok ([ReadSelection uri doc diagnostics contexts], st))"
| "run_step kb (ReadSelection uri doc diagnostics contexts) st =
     obind (with_environment kb uri doc diagnostics (selected_context st uri contexts)) (\<lambda>next_steps. Ok (next_steps, st))"
| "run_step kb (StoreDocument uri doc diagnostics) st =
     Ok ([SendDiagnostics uri diagnostics, SendBudget uri (doc_budget doc), StatusContexts uri],
         st\<lparr>sv_documents := bt_insert uri doc (sv_documents st)\<rparr>)"
| "run_step kb (SendDiagnostics uri diagnostics) st = Ok ([], send (PublishDiagnostics uri diagnostics) st)"
| "run_step kb (SendBudget uri budget) st = Ok ([], send (ProgramBudget uri budget) st)"
| "run_step kb (StatusContexts uri) st = Ok ([StatusActive uri (index_contexts (sv_scenarios st) uri)], st)"
| "run_step kb (StatusActive uri shown) st =
     (case index_contexts (sv_scenarios st) uri of
        [c] \<Rightarrow> Ok ([SendStatus uri shown (Some c)], st)
      | contexts \<Rightarrow> Ok ([StatusSelection uri shown contexts], st))"
| "run_step kb (StatusSelection uri shown contexts) st = Ok ([SendStatus uri shown (selected_context st uri contexts)], st)"
| "run_step kb (SendStatus uri shown active) st = Ok ([], send (context_notification uri shown active) st)"
| "run_step kb SnapshotSources st = Ok (map (\<lambda>(uri, doc). ReadOptions uri (doc_source doc)) (sv_documents st), st)"
| "run_step kb (ReadSelected program) st =
     Ok (case open_document st program of Some doc \<Rightarrow> [ReadOptions program (doc_source doc)] | None \<Rightarrow> [], st)"
| "run_step kb (SetUnused level) st = Ok ([], st\<lparr>sv_unused := level\<rparr>)"
| "run_step kb (UpdateScenario uri version s resolved) st =
     Ok ([], st\<lparr>sv_scenarios := index_update uri version s (resolved_program resolved) kb (sv_scenarios st)\<rparr>)"
| "run_step kb (RemoveScenario uri) st = Ok ([], st\<lparr>sv_scenarios := index_remove uri (sv_scenarios st)\<rparr>)"
| "run_step kb (SendWarning text) st = Ok ([], send (LogWarning text) st)"
| "run_step kb (SetSelection program selection) st = Ok ([], st\<lparr>sv_selections := (sv_selections st)(program := selection)\<rparr>)"
| "run_step kb (RemoveDocument uri) st = Ok ([], st\<lparr>sv_documents := bt_remove uri (sv_documents st)\<rparr>)"

section \<open>Messages\<close>

datatype client_message =
    DidOpen string string
  | DidChange string "string list"
  | DidClose string
  | DidChangeConfiguration "string option"
  | ScenarioChanged string i64 "string option" "(string, string) btree_map"
  | SelectContext string "string option" "string option"

fun handler_steps :: "(string \<Rightarrow> string + scenario) \<Rightarrow> client_message \<Rightarrow> server_step list" where
  "handler_steps parse_scenario (DidOpen uri text) = [ReadOptions uri text]"
| "handler_steps parse_scenario (DidChange uri changes) = (if changes = [] then [] else [ReadOptions uri (last changes)])"
| "handler_steps parse_scenario (DidClose uri) = [RemoveDocument uri, SendDiagnostics uri []]"
| "handler_steps parse_scenario (DidChangeConfiguration unused) =
     (case unused of None \<Rightarrow> [] | Some level \<Rightarrow> [SetUnused (parse_unused_level level), SnapshotSources])"
| "handler_steps parse_scenario (ScenarioChanged uri version source resolved) =
     (case source of
        None \<Rightarrow> [RemoveScenario uri, SnapshotSources]
      | Some text \<Rightarrow>
          (case parse_scenario text of
             Inr s \<Rightarrow> [UpdateScenario uri version s resolved, SnapshotSources]
           | Inl e \<Rightarrow> [RemoveScenario uri, SendWarning (''Ignoring invalid scenario '' @ uri @ '': '' @ e), SnapshotSources]))"
| "handler_steps parse_scenario (SelectContext program scenario ic) =
     [SetSelection program (case (scenario, ic) of (Some s, Some i) \<Rightarrow> Some (s, i) | _ \<Rightarrow> None), ReadSelected program]"

text \<open>The handlers of \<open>Language_Server\<close>, which run from their start to their end.\<close>

fun handle :: "(string \<Rightarrow> string + scenario) \<Rightarrow> knowledge_base \<Rightarrow> client_message \<Rightarrow> server_state \<Rightarrow> (unit, server_state) outcome" where
  "handle parse_scenario kb (DidOpen uri text) st = did_open kb uri text st"
| "handle parse_scenario kb (DidChange uri changes) st = did_change kb uri changes st"
| "handle parse_scenario kb (DidClose uri) st = Ok (did_close uri st)"
| "handle parse_scenario kb (DidChangeConfiguration unused) st = did_change_configuration kb unused st"
| "handle parse_scenario kb (ScenarioChanged uri version source resolved) st = scenario_changed parse_scenario kb uri version source resolved st"
| "handle parse_scenario kb (SelectContext program scenario ic) st = select_context kb program scenario ic st"

section \<open>Executions\<close>

text \<open>The steps of one task, run without interruption.\<close>

inductive runs :: "knowledge_base \<Rightarrow> server_step list \<Rightarrow> server_state \<Rightarrow> server_state \<Rightarrow> bool" for kb where
  runs_done: "runs kb [] st st"
| runs_step: "run_step kb s st = Ok (new_steps, st1) \<Longrightarrow> runs kb (new_steps @ rest) st1 st2 \<Longrightarrow> runs kb (s # rest) st st2"

text \<open>
  The interleaved executions: the messages the client has sent, the states so far with the present one first, and the
  tasks that run. A message starts a task at any time, and at any time one of the tasks takes a step.
\<close>

inductive interleaved ::
  "(string \<Rightarrow> string + scenario) \<Rightarrow> knowledge_base \<Rightarrow> client_message list \<Rightarrow> server_state list \<Rightarrow> server_step list list \<Rightarrow> bool"
  for parse_scenario kb where
  interleaved_start: "interleaved parse_scenario kb [] [initialize options server_new] []"
| interleaved_receive:
    "interleaved parse_scenario kb ms trace tasks \<Longrightarrow>
     interleaved parse_scenario kb (ms @ [m]) trace (tasks @ [handler_steps parse_scenario m])"
| interleaved_step:
    "interleaved parse_scenario kb ms (st # trace) (before @ (s # rest) # after) \<Longrightarrow> run_step kb s st = Ok (new_steps, st') \<Longrightarrow>
     interleaved parse_scenario kb ms (st' # st # trace) (before @ (new_steps @ rest) # after)"
| interleaved_finish:
    "interleaved parse_scenario kb ms trace (before @ [] # after) \<Longrightarrow> interleaved parse_scenario kb ms trace (before @ after)"

text \<open>Messages whose handlers do not overlap: each handler ends before the next message comes.\<close>

fun one_at_a_time :: "(string \<Rightarrow> string + scenario) \<Rightarrow> knowledge_base \<Rightarrow> client_message list \<Rightarrow> server_state \<Rightarrow> (unit, server_state) outcome" where
  "one_at_a_time parse_scenario kb [] st = Ok st"
| "one_at_a_time parse_scenario kb (m # ms) st = obind (handle parse_scenario kb m st) (one_at_a_time parse_scenario kb ms)"

end
