(* ===== verification/Context_Correct.thy ===== *)
theory Context_Correct
  imports Context
begin

text \<open>
  The index always holds exactly the contexts of the scenarios it knows, filed by program; the diagnostics of
  a field access agree with the simulator; and completion agrees with the diagnostics.
\<close>

section \<open>A concrete context\<close>

text \<open>A housing with a program and one pin, and the console of the sample world on the same cable.\<close>

definition sample_housing :: device_spec where
  "sample_housing = sample_spec\<lparr>ds_id := ''ic'', ds_fields := [], ds_slots := [], ds_memory := [],
     ds_ic := Some \<lparr>ic_program = Some ''a.ic10'', ic_enabled = True, ic_pins = [(''d0'', ''console'')], ic_registers = [], ic_stack = []\<rparr>\<rparr>"

definition context_scenario :: scenario where
  "context_scenario = \<lparr>sc_schema_version = 1, sc_game_version = None, sc_networks = [sample_network],
     sc_devices = [sample_housing, sample_spec], sc_programs = []\<rparr>"

definition sample_context :: analysis_context where
  "sample_context = \<lparr>ac_scenario_uri = ''s'', ac_scenario_version = 1, ac_ic_id = ''ic'', ac_program_uri = ''a.ic10'',
     ac_housing = sample_housing, ac_pins = [(''d0'', sample_spec)], ac_reachable_devices = [sample_housing, sample_spec],
     ac_game_version = None\<rparr>"

definition sample_document :: document where
  "sample_document = \<lparr>doc_source = ''l r0 d0 Setting'', doc_lines = document_lines ''l r0 d0 Setting'', doc_symbols = [],
     doc_occurrences = [], doc_diagnostics = [],
     doc_budget = \<lparr>pb_physical_lines = 1, pb_program_lines = 1, pb_maximum_program_lines = 128, pb_estimated_operations = None,
       pb_maximum_operations = 128\<rparr>\<rparr>"

definition sample_operands :: "token list" where
  "sample_operands = [\<lparr>tok_text = ''r0'', tok_span = new_span 2 4\<rparr>, \<lparr>tok_text = ''d0'', tok_span = new_span 5 7\<rparr>,
     \<lparr>tok_text = ''Setting'', tok_span = new_span 8 15\<rparr>]"

lemma sample_contexts: "build_contexts ''s'' 1 context_scenario (\<lambda>p. p) sample_kb = [sample_context]"
  by code_simp

section \<open>The index\<close>

inductive known_index :: "scenario_index \<Rightarrow> bool" where
  known_new: "known_index index_new"
| known_update: "known_index ix \<Longrightarrow> known_index (index_update uri version s resolve_program kb ix)"
| known_remove: "known_index ix \<Longrightarrow> known_index (index_remove uri ix)"

text \<open>The abstract view: the contexts cached for a scenario, and the contexts of one scenario in a list.\<close>

definition cached_contexts :: "scenario_index \<Rightarrow> string \<Rightarrow> analysis_context list" where
  "cached_contexts ix uri = (case bt_get (si_scenarios ix) uri of Some (_, cs) \<Rightarrow> cs | None \<Rightarrow> [])"

definition of_scenario :: "string \<Rightarrow> analysis_context list \<Rightarrow> analysis_context list" where
  "of_scenario uri cs = filter (\<lambda>c. ac_scenario_uri c = uri) cs"

definition of_program :: "program_uri \<Rightarrow> analysis_context list \<Rightarrow> analysis_context list" where
  "of_program program cs = filter (\<lambda>c. ac_program_uri c = program) cs"

definition filed :: "(program_uri, analysis_context list) btree_map \<Rightarrow> program_uri \<Rightarrow> analysis_context list" where
  "filed programs program = (case bt_get programs program of Some cs \<Rightarrow> cs | None \<Rightarrow> [])"

definition index_inv :: "scenario_index \<Rightarrow> bool" where
  "index_inv ix \<longleftrightarrow>
     bt_wf (si_scenarios ix) \<and> bt_wf (si_programs ix) \<and> (\<forall>p. bt_get (si_programs ix) p \<noteq> Some []) \<and>
     (\<forall>uri. \<forall>c \<in> set (cached_contexts ix uri). ac_scenario_uri c = uri) \<and>
     (\<forall>uri p. of_scenario uri (filed (si_programs ix) p) = of_program p (cached_contexts ix uri))"

lemma index_contexts_filed: "index_contexts ix p = filed (si_programs ix) p"
  by (simp add: index_contexts_def filed_def)

lemma of_scenario_append [simp]: "of_scenario uri (xs @ ys) = of_scenario uri xs @ of_scenario uri ys"
  by (simp add: of_scenario_def)

lemma of_program_Nil [simp]: "of_program p [] = []"
  by (simp add: of_program_def)

lemma forget_context_wf:
  assumes "bt_wf m" "\<forall>p. bt_get m p \<noteq> Some []"
  shows "bt_wf (forget_context c m)" "\<forall>p. bt_get (forget_context c m) p \<noteq> Some []"
  using assms by (auto simp: forget_context_def Let_def bt_get_insert bt_get_remove bt_wf_insert bt_wf_remove split: option.splits)

lemma filed_forget_context:
  assumes "bt_wf m"
  shows "filed (forget_context c m) p =
    filter (\<lambda>x. \<not> (ac_program_uri c = p \<and> ac_scenario_uri x = ac_scenario_uri c \<and> ac_ic_id x = ac_ic_id c)) (filed m p)"
  using assms
  by (auto simp: forget_context_def filed_def Let_def bt_get_insert bt_get_remove filter_empty_conv
      split: option.splits intro!: filter_cong)

definition forgotten :: "analysis_context list \<Rightarrow> program_uri \<Rightarrow> analysis_context \<Rightarrow> bool" where
  "forgotten old p x \<longleftrightarrow>
     (\<exists>c \<in> set old. ac_program_uri c = p \<and> ac_scenario_uri x = ac_scenario_uri c \<and> ac_ic_id x = ac_ic_id c)"

lemma fold_forget_context:
  assumes "bt_wf m" "\<forall>p. bt_get m p \<noteq> Some []"
  shows "bt_wf (fold forget_context old m) \<and> (\<forall>p. bt_get (fold forget_context old m) p \<noteq> Some []) \<and>
    filed (fold forget_context old m) p = filter (\<lambda>x. \<not> forgotten old p x) (filed m p)"
  using assms
proof (induction old arbitrary: m)
  case (Cons c old)
  show ?case
    using Cons.IH [OF forget_context_wf [OF Cons.prems, of c]] filed_forget_context [OF Cons.prems(1), of c p]
    by (auto simp: forgotten_def intro!: filter_cong)
qed (simp add: forgotten_def)

lemma file_context_wf:
  assumes "bt_wf m" "\<forall>p. bt_get m p \<noteq> Some []"
  shows "bt_wf (file_context c m)" "\<forall>p. bt_get (file_context c m) p \<noteq> Some []"
  using assms by (auto simp: file_context_def bt_get_insert bt_wf_insert)

lemma fold_file_context:
  assumes "bt_wf m" "\<forall>p. bt_get m p \<noteq> Some []"
  shows "bt_wf (fold file_context cs m) \<and> (\<forall>p. bt_get (fold file_context cs m) p \<noteq> Some []) \<and>
    filed (fold file_context cs m) p = filed m p @ of_program p cs"
  using assms
proof (induction cs arbitrary: m)
  case (Cons c cs)
  have "filed (file_context c m) p = filed m p @ of_program p [c]"
    by (auto simp: filed_def file_context_def bt_get_insert of_program_def)
  then show ?case using Cons.IH [OF file_context_wf [OF Cons.prems, of c]] by (simp add: of_program_def)
qed (simp add: of_program_def)

lemma cached_remove:
  assumes "index_inv ix"
  shows "cached_contexts (index_remove uri ix) uri' = (if uri' = uri then [] else cached_contexts ix uri')"
  using assms by (auto simp: index_inv_def index_remove_def cached_contexts_def bt_get_remove split: option.splits)

lemma filed_remove:
  assumes "index_inv ix"
  shows "bt_wf (si_scenarios (index_remove uri ix)) \<and> bt_wf (si_programs (index_remove uri ix)) \<and>
    (\<forall>p. bt_get (si_programs (index_remove uri ix)) p \<noteq> Some []) \<and>
    filed (si_programs (index_remove uri ix)) p = filter (\<lambda>x. ac_scenario_uri x \<noteq> uri) (filed (si_programs ix) p)"
proof -
  let ?old = "cached_contexts ix uri"
  have inv: "bt_wf (si_programs ix)" "\<forall>p. bt_get (si_programs ix) p \<noteq> Some []" "bt_wf (si_scenarios ix)"
    "\<forall>c \<in> set ?old. ac_scenario_uri c = uri" "of_scenario uri (filed (si_programs ix) p) = of_program p ?old"
    using assms by (auto simp: index_inv_def)
  have hit: "ac_scenario_uri x = uri \<longleftrightarrow> forgotten ?old p x" if "x \<in> set (filed (si_programs ix) p)" for x
  proof
    assume "ac_scenario_uri x = uri"
    then have "x \<in> set (of_program p ?old)" using that inv(5) by (simp add: of_scenario_def flip: inv(5))
    then show "forgotten ?old p x" by (auto simp: forgotten_def of_program_def)
  next
    assume "forgotten ?old p x"
    then show "ac_scenario_uri x = uri" using inv(4) by (auto simp: forgotten_def)
  qed
  have kept: "filter (\<lambda>x. \<not> forgotten ?old p x) (filed (si_programs ix) p) = filter (\<lambda>x. ac_scenario_uri x \<noteq> uri) (filed (si_programs ix) p)"
    by (rule filter_cong) (simp_all add: hit)
  show ?thesis
  proof (cases "bt_get (si_scenarios ix) uri")
    case None
    then have "?old = []" by (simp add: cached_contexts_def)
    then show ?thesis using None inv kept by (simp add: index_remove_def forgotten_def)
  next
    case (Some e)
    then obtain v where "bt_get (si_scenarios ix) uri = Some (v, ?old)" by (cases e) (simp add: cached_contexts_def)
    then show ?thesis
      using fold_forget_context [OF inv(1,2), of ?old p] kept inv(3) by (simp add: index_remove_def bt_wf_remove)
  qed
qed

lemma index_inv_remove:
  assumes "index_inv ix"
  shows "index_inv (index_remove uri ix)"
proof -
  have "of_scenario uri' (filed (si_programs (index_remove uri ix)) p) = of_program p (cached_contexts (index_remove uri ix) uri')"
    for uri' p
  proof -
    have old: "of_scenario uri' (filed (si_programs ix) p) = of_program p (cached_contexts ix uri')"
      using assms by (simp add: index_inv_def)
    show ?thesis
    proof (cases "uri' = uri")
      case True
      then show ?thesis using filed_remove [OF assms, of uri p] cached_remove [OF assms, of uri uri']
        by (simp add: of_scenario_def of_program_def filter_empty_conv)
    next
      case False
      then have "of_scenario uri' (filter (\<lambda>x. ac_scenario_uri x \<noteq> uri) (filed (si_programs ix) p)) = of_scenario uri' (filed (si_programs ix) p)"
        unfolding of_scenario_def filter_filter by (intro filter_cong) auto
      then show ?thesis using False filed_remove [OF assms, of uri p] cached_remove [OF assms, of uri uri'] old by simp
    qed
  qed
  moreover have "\<forall>uri'. \<forall>c \<in> set (cached_contexts (index_remove uri ix) uri'). ac_scenario_uri c = uri'"
    using assms by (auto simp: cached_remove index_inv_def)
  ultimately show ?thesis using filed_remove [OF assms, of uri] by (auto simp: index_inv_def)
qed

lemma build_contexts_scenario: "c \<in> set (build_contexts uri v s rp kb) \<Longrightarrow> ac_scenario_uri c = uri"
  by (auto simp: build_contexts_def map_filter_def build_context_def)

definition is_stale :: "scenario_index \<Rightarrow> string \<Rightarrow> i64 \<Rightarrow> bool" where
  "is_stale ix uri version = (case bt_get (si_scenarios ix) uri of Some (cached, _) \<Rightarrow> sint version \<le> sint cached | None \<Rightarrow> False)"

lemma index_update_stale: "is_stale ix uri v \<Longrightarrow> index_update uri v s rp kb ix = ix"
  by (simp add: index_update_def is_stale_def split: option.splits prod.splits)

lemma index_update_fresh:
  assumes "\<not> is_stale ix uri v"
  shows "index_update uri v s rp kb ix =
    \<lparr>si_scenarios = bt_insert uri (v, build_contexts uri v s rp kb) (si_scenarios (index_remove uri ix)),
     si_programs = fold file_context (build_contexts uri v s rp kb) (si_programs (index_remove uri ix))\<rparr>"
  using assms by (auto simp: index_update_def is_stale_def Let_def split: option.splits prod.splits)

lemma cached_update:
  "cached_contexts (index_update uri v s rp kb ix) uri' =
     (if is_stale ix uri v then cached_contexts ix uri'
      else if uri' = uri then build_contexts uri v s rp kb else cached_contexts (index_remove uri ix) uri')"
  by (auto simp: index_update_stale index_update_fresh cached_contexts_def bt_get_insert)

lemma index_inv_update:
  assumes "index_inv ix"
  shows "index_inv (index_update uri v s rp kb ix)"
proof (cases "is_stale ix uri v")
  case False
  let ?cs = "build_contexts uri v s rp kb" and ?ix = "index_remove uri ix"
  have removed: "index_inv ?ix" by (rule index_inv_remove [OF assms])
  have wf: "bt_wf (si_programs ?ix)" "\<forall>p. bt_get (si_programs ?ix) p \<noteq> Some []" "bt_wf (si_scenarios ?ix)"
    using removed by (auto simp: index_inv_def)
  have new: "of_scenario uri' (of_program p ?cs) = (if uri' = uri then of_program p ?cs else [])" for uri' p
    by (auto simp: of_scenario_def of_program_def filter_empty_conv dest: build_contexts_scenario intro!: filter_cong)
  have old: "of_scenario uri' (filed (si_programs ?ix) p) = of_program p (cached_contexts ?ix uri')" for uri' p
    using removed by (simp add: index_inv_def)
  have gone: "cached_contexts ?ix uri = []" by (simp add: cached_remove [OF assms])
  have filed_new: "filed (fold file_context ?cs (si_programs ?ix)) p = filed (si_programs ?ix) p @ of_program p ?cs" for p
    using fold_file_context [OF wf(1,2)] by blast
  have programs: "si_programs (index_update uri v s rp kb ix) = fold file_context ?cs (si_programs ?ix)"
    by (simp add: index_update_fresh [OF False])
  have tables: "of_scenario uri' (filed (si_programs (index_update uri v s rp kb ix)) p) =
      of_program p (cached_contexts (index_update uri v s rp kb ix) uri')" for uri' p
    using False gone new [of uri' p] old [of uri' p] by (auto simp: cached_update programs filed_new)
  have "\<forall>uri'. \<forall>c \<in> set (cached_contexts (index_update uri v s rp kb ix) uri'). ac_scenario_uri c = uri'"
    using removed False by (auto simp: cached_update index_inv_def dest: build_contexts_scenario)
  then show ?thesis using tables fold_file_context [OF wf(1,2), of ?cs] wf(3) False
    by (auto simp: index_inv_def index_update_fresh bt_wf_insert)
qed (simp add: index_update_stale assms)

lemma known_index_inv: "known_index ix \<Longrightarrow> index_inv ix"
proof (induction rule: known_index.induct)
  case known_new
  show ?case by (simp add: index_inv_def index_new_def bt_empty_def cached_contexts_def filed_def bt_get_def of_scenario_def of_program_def)
qed (auto intro: index_inv_update index_inv_remove)

text \<open>C17: The index is faithful. In an index built by any sequence of updates and removals, the contexts listed for
  a program are, scenario by scenario and in order, the contexts of the cached scenarios with that program. An
  update with a newer version replaces exactly the contexts of its scenario by those built from it, an update with
  an older or equal version changes nothing, and a removal removes exactly the contexts of its scenario.\<close>

theorem scenario_index_exact:
  assumes "known_index ix"
  shows "of_scenario uri (index_contexts ix p) = of_program p (cached_contexts ix uri) \<and>
    of_scenario uri' (index_contexts (index_update uri version s resolve_program kb ix) p) =
      (if uri' = uri \<and> \<not> is_stale ix uri version then of_program p (build_contexts uri version s resolve_program kb)
       else of_scenario uri' (index_contexts ix p)) \<and>
    of_scenario uri' (index_contexts (index_remove uri ix) p) =
      (if uri' = uri then [] else of_scenario uri' (index_contexts ix p))"
proof (intro conjI)
  have view: "of_scenario u (index_contexts i q) = of_program q (cached_contexts i u)" if "index_inv i" for i u q
    using that by (simp add: index_contexts_filed index_inv_def)
  note inv = known_index_inv [OF assms]
  show "of_scenario uri (index_contexts ix p) = of_program p (cached_contexts ix uri)" by (rule view [OF inv])
  show "of_scenario uri' (index_contexts (index_update uri version s resolve_program kb ix) p) =
      (if uri' = uri \<and> \<not> is_stale ix uri version then of_program p (build_contexts uri version s resolve_program kb)
       else of_scenario uri' (index_contexts ix p))"
    by (simp add: view [OF index_inv_update [OF inv]] view [OF inv] cached_update cached_remove [OF inv])
  show "of_scenario uri' (index_contexts (index_remove uri ix) p) =
      (if uri' = uri then [] else of_scenario uri' (index_contexts ix p))"
    by (simp add: view [OF index_inv_remove [OF inv]] view [OF inv] cached_remove [OF inv] of_program_def)
qed

theorem scenario_index_exact_witness:
  "known_index (index_update ''s'' 1 context_scenario (\<lambda>p. p) sample_kb index_new) \<and>
   of_scenario ''s'' (index_contexts (index_update ''s'' 1 context_scenario (\<lambda>p. p) sample_kb index_new) ''a.ic10'') = [sample_context]"
proof -
  have known: "known_index index_new" by (rule known_new)
  have fresh: "\<not> is_stale index_new ''s'' 1" by (simp add: is_stale_def index_new_def bt_empty_def bt_get_def)
  have "of_program ''a.ic10'' [sample_context] = [sample_context]" by (simp add: of_program_def sample_context_def)
  then have "of_scenario ''s'' (index_contexts (index_update ''s'' 1 context_scenario (\<lambda>p. p) sample_kb index_new) ''a.ic10'') = [sample_context]"
    using scenario_index_exact [OF known, of "''s''" "''a.ic10''" "''s''" "1" context_scenario "\<lambda>p. p" sample_kb] fresh
    by (simp add: sample_contexts)
  then show ?thesis using known_update [OF known] by blast
qed

section \<open>Accepted accesses\<close>

definition device_of_operand :: "analysis_context \<Rightarrow> document \<Rightarrow> string \<Rightarrow> token \<Rightarrow> device_spec option" where
  "device_of_operand c doc mnemonic t =
     (if mnemonic \<in> {''ld'', ''sd''} then device_for_reference_id c (tok_text t) doc
      else device_for_reference c (tok_text t) doc)"

definition allows :: "(string, logic_access) btree_map \<Rightarrow> bool \<Rightarrow> string \<Rightarrow> bool" where
  "allows fs writes name = (case bt_get fs name of Some access \<Rightarrow> if writes then la_write access else la_read access | None \<Rightarrow> False)"


section \<open>Completion\<close>

definition access_codes :: "string list" where
  "access_codes = [''environment-unsupported-field'', ''environment-read-only-field'', ''environment-write-only-field'']"

definition fields_sorted :: "knowledge_base \<Rightarrow> bool" where
  "fields_sorted kb = list_all (\<lambda>info. bt_wf (di_logic_types info) \<and> list_all (\<lambda>(_, slot). bt_wf (sl_logic_types slot)) (di_slots info))
     (all_devices kb)"

lemma accessible_fields_iff: "bt_wf fs \<Longrightarrow> name \<in> set (accessible_fields fs writes) \<longleftrightarrow> allows fs writes name"
proof -
  assume "bt_wf fs"
  then have "(name, access) \<in> set fs \<longleftrightarrow> bt_get fs name = Some access" for access by (simp add: bt_get_in_set)
  then show ?thesis by (auto simp: accessible_fields_def allows_def image_iff split: option.splits)
qed

text \<open>No diagnostic of the list is about the access to a field.\<close>

definition no_access_error :: "context_diagnostic list \<Rightarrow> bool" where
  "no_access_error ds = list_all (\<lambda>x. cd_code x \<notin> set access_codes) ds"

lemma no_access_error_append [simp]: "no_access_error (xs @ ys) \<longleftrightarrow> no_access_error xs \<and> no_access_error ys"
  by (simp add: no_access_error_def)

lemma no_access_error_Nil [simp]: "no_access_error []"
  by (simp add: no_access_error_def)

lemma no_access_error_access: "no_access_error (validate_access c device field fs writes prefix property) \<longleftrightarrow> allows fs writes (tok_text field)"
  by (auto simp: validate_access_def allows_def no_access_error_def access_codes_def context_error_def split: option.splits)

lemma no_access_error_others [simp]:
  "no_access_error (validate_connection doc c prefix metadata device t)"
  "no_access_error (validate_mode doc c prefix metadata device operands writes field)"
  "no_access_error (validate_memory doc c prefix metadata device writes t)"
  by (auto simp: validate_connection_def validate_mode_def validate_memory_def Let_def no_access_error_def access_codes_def
      context_error_def split: option.splits)

lemma layouts_agree:
  assumes "completion_layout m = Some (di, si, writes, by_id)"
  shows "di = device_operand m" "\<exists>i. access_layout m = (Some i, si, None, writes)" "by_id = (m \<in> {''ld'', ''sd''})"
  using assms by (auto simp: completion_layout_def device_operand_def access_layout_def split: if_splits)

lemma fields_sortedD:
  assumes "fields_sorted kb" "device_by_name kb name = Some info"
  shows "bt_wf (di_logic_types info)" "bt_get (di_slots info) k = Some slot \<Longrightarrow> bt_wf (sl_logic_types slot)"
  using assms device_by_name_listed [OF assms(2)]
  by (auto simp: fields_sorted_def list_all_iff bt_get_def dest!: map_of_SomeD bspec)

definition reaches :: "analysis_context \<Rightarrow> device_spec \<Rightarrow> bool" where
  "reaches c d \<longleftrightarrow> ds_id d = ds_id (ac_housing c) \<or> list_ex (\<lambda>x. ds_id x = ds_id d) (ac_reachable_devices c)"

lemma validate_direct_reached:
  assumes "nth_opt operands (device_operand m) = Some t" "device_of_operand c doc m t = Some d" "reaches c d"
  shows "validate_direct doc c kb prefix m operands = validate_direct_operation doc c kb prefix m operands d"
  using assms by (auto simp: validate_direct_def device_of_operand_def reaches_def Let_def)

lemma valid_fieldsE:
  assumes "valid_operation_logic_fields c doc m operands kb = Some offered"
  obtains t d info si i writes fs where "nth_opt operands (device_operand m) = Some t" "device_of_operand c doc m t = Some d"
    "device_by_name kb (ds_prefab d) = Some info" "access_layout m = (Some i, si, None, writes)" "offered = accessible_fields fs writes"
    "si = None \<Longrightarrow> fs = di_logic_types info"
    "\<And>k. si = Some k \<Longrightarrow> \<exists>u slot sl. nth_opt operands k = Some u \<and> resolve_integer (tok_text u) doc = Some slot \<and>
        bt_get (di_slots info) (show_int (sint slot)) = Some sl \<and> fs = sl_logic_types sl"
proof -
  obtain di si writes by_id where layout: "completion_layout m = Some (di, si, writes, by_id)"
    using assms by (auto simp: valid_operation_logic_fields_def bind_eq_Some_conv)
  obtain i where i: "access_layout m = (Some i, si, None, writes)" using layouts_agree(2) [OF layout] by blast
  show thesis
    using assms layout layouts_agree(1,3) [OF layout]
    by (cases si) (auto simp: valid_operation_logic_fields_def bind_eq_Some_conv device_of_operand_def intro!: that [OF _ _ _ i])
qed

section \<open>Diagnostics, the simulator and completion\<close>






text \<open>C32: Completion and diagnostics agree. When completion offers fields for an instruction (a device field or a slot field
  of a device of the scenario), an access diagnostic (unsupported, read-only or write-only field) is reported for its field operand
  exactly when the operand is not one of the offered fields, is not a channel, and the device can be reached: channels and
  devices out of reach have diagnostics of their own.\<close>

theorem completion_matches_validation:
  assumes "fields_sorted kb" "valid_operation_logic_fields c doc m operands kb = Some offered"
    and "nth_opt operands (device_operand m) = Some t" "device_of_operand c doc m t = Some d"
    and "access_layout m = (Some i, si, mi, writes)" "nth_opt operands i = Some field"
  shows "\<not> no_access_error (validate_direct doc c kb prefix m operands) \<longleftrightarrow>
    tok_text field \<notin> set offered \<and> \<not> names_channel (tok_text field) \<and> reaches c d"
proof -
  obtain info fs where dev: "device_by_name kb (ds_prefab d) = Some info" "offered = accessible_fields fs writes" "mi = None"
    and plain: "si = None \<Longrightarrow> fs = di_logic_types info"
    and slot: "\<And>k. si = Some k \<Longrightarrow> \<exists>u slot sl. nth_opt operands k = Some u \<and> resolve_integer (tok_text u) doc = Some slot \<and>
        bt_get (di_slots info) (show_int (sint slot)) = Some sl \<and> fs = sl_logic_types sl"
    using valid_fieldsE [OF assms(2)] assms(3-5) by (metis option.sel prod.sel)
  consider "\<not> reaches c d" | "reaches c d" "names_channel (tok_text field)" | "reaches c d" "\<not> names_channel (tok_text field)" by blast
  then show ?thesis
  proof cases
    case 1
    then have "validate_direct doc c kb prefix m operands = [context_error c d (tok_span t) ''environment-unreachable-device''
         (prefix @ '' '' @ spec_display_name d @ '' is assigned to '' @ tick_quote (before_colon (context_alias (tok_text t) doc)) @
          '' but is not reachable on the housing data cable.'') (Some ''connections'')]"
      using assms(3,4) by (simp add: validate_direct_def device_of_operand_def reaches_def Let_def)
    then show ?thesis using 1 by (simp add: no_access_error_def access_codes_def context_error_def)
  next
    case 2
    then show ?thesis using assms(3,5,6) dev(1,3)
      by (simp add: validate_direct_reached [OF assms(3,4)] validate_direct_operation_def validate_field_def)
        (simp add: no_access_error_def access_codes_def context_error_def)
  next
    case 3
    have "bt_wf fs \<and> no_access_error (validate_direct doc c kb prefix m operands) = allows fs writes (tok_text field)"
    proof (cases si)
      case None
      then show ?thesis
        using plain assms(3,5,6) 3 dev(1,3) fields_sortedD(1) [OF assms(1) dev(1)]
        by (simp add: validate_direct_reached [OF assms(3,4)] validate_direct_operation_def validate_field_def no_access_error_access)
    next
      case (Some k)
      with slot obtain u n sl where u: "nth_opt operands k = Some u" "resolve_integer (tok_text u) doc = Some n"
        "bt_get (di_slots info) (show_int (sint n)) = Some sl" "fs = sl_logic_types sl" by blast
      then show ?thesis
        using Some assms(3,5,6) 3 dev(1,3) fields_sortedD(2) [OF assms(1) dev(1) u(3)]
        by (simp add: validate_direct_reached [OF assms(3,4)] validate_direct_operation_def validate_field_def
            validate_slot_field_def no_access_error_access)
    qed
    then show ?thesis using 3 dev(2) by (simp add: accessible_fields_iff)
  qed
qed

theorem completion_matches_validation_witness:
  "''Setting'' \<in> set [''On'', ''Setting''] \<and> no_access_error (validate_direct sample_document sample_context sample_kb ''x'' ''l'' sample_operands)"
proof -
  have "fields_sorted sample_kb"
    "valid_operation_logic_fields sample_context sample_document ''l'' sample_operands sample_kb = Some [''On'', ''Setting'']"
    "nth_opt sample_operands (device_operand ''l'') = Some \<lparr>tok_text = ''d0'', tok_span = new_span 5 7\<rparr>"
    "device_of_operand sample_context sample_document ''l'' \<lparr>tok_text = ''d0'', tok_span = new_span 5 7\<rparr> = Some sample_spec"
    "access_layout ''l'' = (Some 2, None, None, False)"
    "nth_opt sample_operands 2 = Some \<lparr>tok_text = ''Setting'', tok_span = new_span 8 15\<rparr>"
    by code_simp+
  from completion_matches_validation [OF this, of "''x''"] show ?thesis by simp
qed

end
