(* ===== verification/Language_Server_Correct.thy ===== *)
theory Language_Server_Correct
  imports Language_Server Context_Correct Analysis_Correct
begin

text \<open>
  What the handlers keep of the diagnostics the editor shows: a handler that runs from its start to its end leaves those of
  the documents it analyses up to date with the text, the options and the context. Semantic tokens can be decoded.
\<close>

section \<open>Published diagnostics\<close>

definition publishes :: "string \<Rightarrow> notification \<Rightarrow> lsp_diagnostic list option \<Rightarrow> lsp_diagnostic list option" where
  "publishes uri n before = (case n of PublishDiagnostics u ds \<Rightarrow> if u = uri then Some ds else before | _ \<Rightarrow> before)"

definition last_published :: "server_state \<Rightarrow> string \<Rightarrow> lsp_diagnostic list option" where
  "last_published st uri = fold (publishes uri) (sv_sent st) None"

text \<open>What the client shows for a document is current.\<close>

definition up_to_date :: "knowledge_base \<Rightarrow> server_state \<Rightarrow> string \<Rightarrow> bool" where
  "up_to_date kb st uri =
     (case open_document st uri of
        Some doc \<Rightarrow>
          parse_with_options (doc_source doc) kb (sv_unused st) = Ok doc \<and>
          document_report kb st uri doc = (case last_published st uri of Some ds \<Rightarrow> Ok ds | None \<Rightarrow> Panic)
      | None \<Rightarrow> last_published st uri \<in> {None, Some []})"

lemma parse_source: "parse_with_options source kb level = Ok doc \<Longrightarrow> doc_source doc = source"
  by (auto simp: parse_with_options_def Let_def obind_eq_Ok split: prod.splits)

lemma last_published_send:
  "last_published (send n st) uri = publishes uri n (last_published st uri)"
  by (simp add: last_published_def send_def)

lemma send_fields [simp]:
  "sv_documents (send n st) = sv_documents st" "sv_unused (send n st) = sv_unused st"
  "sv_scenarios (send n st) = sv_scenarios st" "sv_selections (send n st) = sv_selections st"
  by (simp_all add: send_def)

text \<open>Two states agree on the configuration of a document.\<close>

definition same_view :: "server_state \<Rightarrow> server_state \<Rightarrow> string \<Rightarrow> bool" where
  "same_view st st' uri \<longleftrightarrow>
     sv_unused st' = sv_unused st \<and> sv_scenarios st' = sv_scenarios st \<and> sv_selections st' uri = sv_selections st uri"

lemma report_same_view: "same_view st st' uri \<Longrightarrow> document_report kb st' uri doc = document_report kb st uri doc"
proof -
  assume "same_view st st' uri"
  then have "active_context st' uri = active_context st uri" by (simp add: same_view_def active_context_def Let_def split: list.split)
  then show ?thesis by (simp add: document_report_def)
qed

lemma up_to_date_cong:
  assumes "same_view st st' uri" "open_document st' uri = open_document st uri" "last_published st' uri = last_published st uri"
  shows "up_to_date kb st' uri = up_to_date kb st uri"
  using assms report_same_view [OF assms(1)] by (simp add: up_to_date_def same_view_def split: option.splits)

lemma update_document_effect:
  assumes "update_document kb uri text st = Ok st'"
  obtains doc ds where "parse_with_options text kb (sv_unused st) = Ok doc" "document_report kb st uri doc = Ok ds"
    "sv_documents st' = bt_insert uri doc (sv_documents st)" "\<And>u. same_view st st' u"
    "\<And>u. last_published st' u = (if u = uri then Some ds else last_published st u)"
  using assms
  by (auto simp: update_document_def obind_eq_Ok publish_context_status_def Let_def last_published_send publishes_def same_view_def
      last_published_def [of "st\<lparr>sv_documents := _\<rparr>"] last_published_def [of st])

lemma update_document_current:
  assumes "update_document kb uri text st = Ok st'"
  shows "up_to_date kb st' uri" "u \<noteq> uri \<Longrightarrow> up_to_date kb st' u = up_to_date kb st u"
    "open_document st' u = None \<Longrightarrow> open_document st u = None" "same_view st st' u"
    "u \<noteq> uri \<Longrightarrow> open_document st' u = open_document st u" "u \<noteq> uri \<Longrightarrow> last_published st' u = last_published st u"
proof -
  obtain doc ds where e: "parse_with_options text kb (sv_unused st) = Ok doc" "document_report kb st uri doc = Ok ds"
    "sv_documents st' = bt_insert uri doc (sv_documents st)" "\<And>u. same_view st st' u"
    "\<And>u. last_published st' u = (if u = uri then Some ds else last_published st u)"
    using update_document_effect [OF assms] by blast
  show "same_view st st' u" by (rule e(4))
  show "up_to_date kb st' uri"
    using e(1,2,3,5) report_same_view [OF e(4)] e(4) [of uri] parse_source [OF e(1)]
    by (simp add: up_to_date_def open_document_def bt_get_insert same_view_def)
  show "up_to_date kb st' u = up_to_date kb st u" if "u \<noteq> uri"
    using e that by (intro up_to_date_cong) (simp_all add: open_document_def bt_get_insert)
  show "open_document st' u = None \<Longrightarrow> open_document st u = None"
    using e(3) by (simp add: open_document_def bt_get_insert split: if_splits)
  show "u \<noteq> uri \<Longrightarrow> open_document st' u = open_document st u" "u \<noteq> uri \<Longrightarrow> last_published st' u = last_published st u"
    using e(3,5) by (simp_all add: open_document_def bt_get_insert)
qed

abbreviation update_each :: "knowledge_base \<Rightarrow> (string \<times> string) list \<Rightarrow> server_state \<Rightarrow> (unit, server_state) outcome" where
  "update_each kb \<equiv> ofold (\<lambda>(uri, source). update_document kb uri source)"

lemma update_each_view: "update_each kb xs st = Ok st' \<Longrightarrow> same_view st st' u"
proof (induction xs arbitrary: st)
  case (Cons x xs)
  obtain uri source where x: "x = (uri, source)" by fastforce
  obtain st1 where "update_document kb uri source st = Ok st1" "update_each kb xs st1 = Ok st'"
    using Cons.prems by (auto simp: obind_eq_Ok x)
  then show ?case using Cons.IH [of st1] update_document_current(4) [of kb uri source st st1 u] by (simp add: same_view_def)
qed (simp add: same_view_def)

lemma update_each_current:
  "update_each kb xs st = Ok st' \<Longrightarrow>
    (u \<in> fst ` set xs \<longrightarrow> up_to_date kb st' u) \<and>
    (u \<notin> fst ` set xs \<longrightarrow> open_document st' u = open_document st u \<and> last_published st' u = last_published st u)"
proof (induction xs arbitrary: st)
  case (Cons x xs)
  obtain uri source where x: "x = (uri, source)" by fastforce
  obtain st1 where st1: "update_document kb uri source st = Ok st1" "update_each kb xs st1 = Ok st'"
    using Cons.prems by (auto simp: obind_eq_Ok x)
  note first = update_document_current [OF st1(1)] and rest = Cons.IH [OF st1(2)]
  have "up_to_date kb st' u" if "u = uri"
    using rest first(1) up_to_date_cong [OF update_each_view [OF st1(2)], of u kb] that by (cases "u \<in> fst ` set xs") auto
  then show ?case using rest first(5,6) [of u] x by auto
qed simp

lemma refresh_current:
  assumes "refresh_open_documents kb st = Ok st'" "open_document st u = None \<Longrightarrow> last_published st u \<in> {None, Some []}"
  shows "up_to_date kb st' u"
proof (cases "open_document st u")
  case None
  then have "u \<notin> fst ` set (map (\<lambda>(uri, doc). (uri, doc_source doc)) (sv_documents st))"
    by (force simp: open_document_def bt_get_None_keys)
  then show ?thesis
    using update_each_current [OF assms(1) [unfolded refresh_open_documents_def], of u] None assms(2) [OF None]
    by (simp add: up_to_date_def)
next
  case (Some doc)
  then have "u \<in> fst ` set (sv_documents st)" by (metis open_document_def bt_get_None_keys option.distinct(1))
  then have "u \<in> fst ` set (map (\<lambda>(uri, doc). (uri, doc_source doc)) (sv_documents st))" by (force simp: image_iff)
  then show ?thesis using update_each_current [OF assms(1) [unfolded refresh_open_documents_def], of u] by blast
qed

lemma closed_published: "up_to_date kb st u \<Longrightarrow> open_document st u = None \<Longrightarrow> last_published st u \<in> {None, Some []}"
  by (simp add: up_to_date_def)

lemma update_keeps_current:
  "update_document kb uri text st = Ok st' \<Longrightarrow> u = uri \<or> up_to_date kb st u \<Longrightarrow> up_to_date kb st' u"
  by (cases "u = uri") (auto simp: update_document_current)

lemma last_published_documents [simp]: "last_published (st\<lparr>sv_documents := d\<rparr>) u = last_published st u"
  by (simp add: last_published_def)

lemma did_close_current:
  assumes "bt_wf (sv_documents st)" "up_to_date kb st u"
  shows "up_to_date kb (did_close uri st) u"
proof (cases "u = uri")
  case True
  then show ?thesis
    using assms(1) by (simp add: up_to_date_def did_close_def open_document_def bt_get_remove last_published_send publishes_def)
next
  case False
  then show ?thesis using assms
    by (subst up_to_date_cong [of st])
      (auto simp: did_close_def open_document_def bt_get_remove last_published_send publishes_def same_view_def)
qed

lemma update_document_wf: "update_document kb uri text st = Ok st' \<Longrightarrow> bt_wf (sv_documents st) \<Longrightarrow> bt_wf (sv_documents st')"
  using update_document_effect by (metis bt_wf_insert)

lemma update_each_wf: "update_each kb xs st = Ok st' \<Longrightarrow> bt_wf (sv_documents st) \<Longrightarrow> bt_wf (sv_documents st')"
  by (induction xs arbitrary: st) (auto simp: obind_eq_Ok dest: update_document_wf)

lemma open_document_update [simp]:
  "open_document (st\<lparr>sv_unused := l\<rparr>) u = open_document st u" "open_document (st\<lparr>sv_scenarios := i\<rparr>) u = open_document st u"
  "open_document (st\<lparr>sv_selections := m\<rparr>) u = open_document st u" "open_document (send n st) u = open_document st u"
  by (simp_all add: open_document_def)

lemma last_published_update [simp]:
  "last_published (st\<lparr>sv_unused := l\<rparr>) u = last_published st u" "last_published (st\<lparr>sv_scenarios := i\<rparr>) u = last_published st u"
  "last_published (st\<lparr>sv_selections := m\<rparr>) u = last_published st u" "last_published (send (LogWarning t) st) u = last_published st u"
  by (simp_all add: last_published_def send_def publishes_def)

section \<open>Semantic tokens\<close>

text \<open>The protocol's decoding of relative positions.\<close>

fun decode_tokens :: "lsp_position \<Rightarrow> encoded_token list \<Rightarrow> semantic_token list" where
  "decode_tokens previous [] = []"
| "decode_tokens previous (e # es) =
     (let p = \<lparr>po_line = po_line previous + et_delta_line e,
               po_character = (if et_delta_line e = 0 then po_character previous + et_delta_start e else et_delta_start e)\<rparr>
      in \<lparr>st_position = p, st_length = et_length e, st_type = et_type e, st_modifiers = et_modifiers e\<rparr> # decode_tokens p es)"

definition in_u32 :: "lsp_position \<Rightarrow> bool" where
  "in_u32 p \<longleftrightarrow> po_line p < 2 ^ 32 \<and> po_character p < 2 ^ 32"

lemma sub_u32_exact: "y \<le> x \<Longrightarrow> x < 2 ^ 32 \<Longrightarrow> sub_u32 x y = x - y"
proof -
  assume "y \<le> x" "x < 2 ^ 32"
  then have "int x - int y = int (x - y)" "int (x - y) < 2 ^ 32" by auto
  then have "(int x - int y) mod 2 ^ 32 = int (x - y)" by (metis mod_pos_pos_trivial of_nat_0_le_iff)
  then show ?thesis by (simp add: sub_u32_def)
qed

lemma position_eta: "\<lparr>po_line = po_line p, po_character = po_character p\<rparr> = p" for p :: lsp_position
  by (cases p) simp

lemma position_key_le:
  assumes "position_key p \<le> position_key q" "in_u32 p" "in_u32 q"
  shows "po_line p < po_line q \<or> po_line p = po_line q \<and> po_character p \<le> po_character q"
  using assms by (simp add: position_key_def in_u32_def) linarith

lemma decode_encode:
  assumes "sorted (map (\<lambda>t. position_key (st_position t)) ts)" "list_all (\<lambda>t. in_u32 (st_position t)) ts" "in_u32 p"
    "\<forall>t \<in> set ts. position_key p \<le> position_key (st_position t)"
  shows "decode_tokens p (encode_tokens p ts) = ts"
  using assms
proof (induction ts arbitrary: p)
  case (Cons t ts)
  have le: "po_line p < po_line (st_position t) \<or> po_line p = po_line (st_position t) \<and> po_character p \<le> po_character (st_position t)"
    using position_key_le [of p "st_position t"] Cons.prems by simp
  have u: "po_line (st_position t) < 2 ^ 32" "po_character (st_position t) < 2 ^ 32" using Cons.prems by (simp_all add: in_u32_def)
  have rest: "decode_tokens (st_position t) (encode_tokens (st_position t) ts) = ts" using Cons by auto
  have line: "sub_u32 (po_line (st_position t)) (po_line p) = po_line (st_position t) - po_line p"
    using le u(1) by (intro sub_u32_exact) auto
  have "po_line p = po_line (st_position t) \<Longrightarrow>
      sub_u32 (po_character (st_position t)) (po_character p) = po_character (st_position t) - po_character p"
    using le u(2) by (intro sub_u32_exact) auto
  then show ?case using rest le line by (auto simp: Let_def position_eta)
qed simp

lemma omap_Ok_set: "omap f xs = Ok ys \<Longrightarrow> y \<in> set ys \<Longrightarrow> \<exists>x \<in> set xs. f x = Ok y"
  by (induction xs arbitrary: ys) (auto simp: obind_eq_Ok)

lemma mk_semantic_token_u32: "mk_semantic_token doc sp ty m = Ok t \<Longrightarrow> in_u32 (st_position t)"
  by (auto simp: mk_semantic_token_def offset_to_position_def Let_def obind_eq_Ok in_u32_def wrap_u32_mod)

lemma line_tokens_u32: "line_tokens doc kb line = Ok ts \<Longrightarrow> t \<in> set ts \<Longrightarrow> in_u32 (st_position t)"
proof (cases "pl_kind line")
  case (LInstruction m os)
  assume "line_tokens doc kb line = Ok ts" "t \<in> set ts"
  then obtain first tss where "mk_semantic_token doc (tok_span m) 0 (case instruction kb (tok_text m) of Some i \<Rightarrow> if in_deprecated i then 4 else 0 | None \<Rightarrow> 0) = Ok first"
    "omap (\<lambda>index. case operand_class doc kb (instruction kb (tok_text m)) index (os ! index) of None \<Rightarrow> Ok []
        | Some (ty, ms) \<Rightarrow> obind (mk_semantic_token doc (tok_span (os ! index)) ty ms) (\<lambda>t. Ok [t])) [0..<length os] = Ok tss"
    "t = first \<or> t \<in> set (concat tss)"
    using LInstruction by (auto simp: line_tokens_def obind_eq_Ok Let_def)
  note parts = this
  show ?thesis
  proof (cases "t = first")
    case False
    then obtain us where us: "us \<in> set tss" "t \<in> set us" using parts(3) by auto
    obtain i where "(case operand_class doc kb (instruction kb (tok_text m)) i (os ! i) of None \<Rightarrow> Ok []
        | Some (ty, ms) \<Rightarrow> obind (mk_semantic_token doc (tok_span (os ! i)) ty ms) (\<lambda>t. Ok [t])) = Ok us"
      using omap_Ok_set [OF parts(2) us(1)] by blast
    then obtain ty ms where "mk_semantic_token doc (tok_span (os ! i)) ty ms = Ok t"
      using us(2) by (auto simp: obind_eq_Ok split: option.splits)
    then show ?thesis by (rule mk_semantic_token_u32)
  qed (use parts(1) mk_semantic_token_u32 in blast)
qed (auto simp: line_tokens_def obind_eq_Ok intro: mk_semantic_token_u32)

text \<open>Semantic tokens round-trip: decoding the tokens that are sent gives the tokens of the document in the
  requested range, in the order of their positions.\<close>

theorem semantic_tokens_decode:
  assumes "absolute_tokens doc requested kb = Ok ts"
  shows "\<exists>es. semantic_tokens doc requested kb = Ok es \<and> decode_tokens \<lparr>po_line = 0, po_character = 0\<rparr> es = ts"
proof -
  obtain tss where tss: "omap (line_tokens doc kb) (doc_lines doc) = Ok tss"
    "ts = sort_key (\<lambda>t. position_key (st_position t)) (filter (in_request requested) (concat tss))"
    using assms by (auto simp: absolute_tokens_def obind_eq_Ok)
  have "list_all (\<lambda>t. in_u32 (st_position t)) ts"
    using tss by (auto simp: list_all_iff dest!: omap_Ok_set intro: line_tokens_u32)
  then show ?thesis
    using assms decode_encode [of ts "\<lparr>po_line = 0, po_character = 0\<rparr>"] tss(2)
    by (simp add: semantic_tokens_def in_u32_def position_key_def)
qed

end
