(* ===== verification/Server_Tasks_Correct.thy ===== *)
theory Server_Tasks_Correct
  imports Server_Tasks Language_Server_Correct
begin

text \<open>
  What the editor sees when handlers overlap: every diagnostics list that is published is the report of a text the client
  has sent, and for a document that was opened, changed or closed since handlers last overlapped the diagnostics are
  those of its last text, under the present options and in its present context. Overlapping handlers can leave an
  older text in place of a newer one, and a closed document open.
\<close>

section \<open>What the client has sent\<close>

text \<open>What a message says of the text of a document: a new text, none any more, or nothing.\<close>

fun told_text :: "client_message \<Rightarrow> string \<Rightarrow> string option option" where
  "told_text (DidOpen u text) uri = (if u = uri then Some (Some text) else None)"
| "told_text (DidChange u changes) uri = (if u = uri \<and> changes \<noteq> [] then Some (Some (last changes)) else None)"
| "told_text (DidClose u) uri = (if u = uri then Some None else None)"
| "told_text _ uri = None"

definition hear :: "string \<Rightarrow> client_message \<Rightarrow> string option \<Rightarrow> string option" where
  "hear uri m before = (case told_text m uri of Some told \<Rightarrow> told | None \<Rightarrow> before)"

definition client_text :: "client_message list \<Rightarrow> string \<Rightarrow> string option" where
  "client_text ms uri = fold (hear uri) ms None"

definition was_sent :: "client_message list \<Rightarrow> string \<Rightarrow> string \<Rightarrow> bool" where
  "was_sent ms uri text \<longleftrightarrow> (\<exists>m \<in> set ms. told_text m uri = Some (Some text))"

text \<open>The analysis of a text that was sent, under options the server had.\<close>

definition analysed :: "knowledge_base \<Rightarrow> client_message list \<Rightarrow> server_state list \<Rightarrow> string \<Rightarrow> document \<Rightarrow> bool" where
  "analysed kb ms trace uri doc \<longleftrightarrow>
     (\<exists>text st. was_sent ms uri text \<and> st \<in> set trace \<and> parse_with_options text kb (sv_unused st) = Ok doc)"

definition chosen_context :: "server_state list \<Rightarrow> string \<Rightarrow> analysis_context option \<Rightarrow> bool" where
  "chosen_context trace uri context \<longleftrightarrow>
     (\<exists>s1 s2. s1 \<in> set trace \<and> s2 \<in> set trace \<and>
        context = (case index_contexts (sv_scenarios s1) uri of [c] \<Rightarrow> Some c | contexts \<Rightarrow> selected_context s2 uri contexts))"

definition report_in :: "knowledge_base \<Rightarrow> document \<Rightarrow> analysis_context option \<Rightarrow> (unit, lsp_diagnostic list) outcome" where
  "report_in kb doc context =
     obind (omap (source_diagnostic (doc_source doc)) (doc_diagnostics doc)) (\<lambda>diagnostics.
     case context of
       None \<Rightarrow> Ok diagnostics
     | Some c \<Rightarrow>
         obind (omap (environment_diagnostic (doc_source doc)) (validate_context doc c kb)) (\<lambda>environment.
         Ok (diagnostics @ environment)))"

text \<open>A list of diagnostics is the whole report of a text that was sent, or the empty one of a document that was closed.\<close>

definition genuine_report :: "knowledge_base \<Rightarrow> client_message list \<Rightarrow> server_state list \<Rightarrow> string \<Rightarrow> lsp_diagnostic list \<Rightarrow> bool" where
  "genuine_report kb ms trace uri diagnostics \<longleftrightarrow>
     diagnostics = [] \<and> DidClose uri \<in> set ms \<or>
     (\<exists>doc context. analysed kb ms trace uri doc \<and> chosen_context trace uri context \<and> report_in kb doc context = Ok diagnostics)"

fun step_genuine :: "knowledge_base \<Rightarrow> client_message list \<Rightarrow> server_state list \<Rightarrow> server_step \<Rightarrow> bool" where
  "step_genuine kb ms trace (ReadOptions uri text) \<longleftrightarrow> was_sent ms uri text"
| "step_genuine kb ms trace (ReadContexts uri doc ds) \<longleftrightarrow> analysed kb ms trace uri doc \<and> report_in kb doc None = Ok ds"
| "step_genuine kb ms trace (ReadSelection uri doc ds contexts) \<longleftrightarrow>
     analysed kb ms trace uri doc \<and> report_in kb doc None = Ok ds \<and> length contexts \<noteq> 1 \<and>
     (\<exists>st \<in> set trace. contexts = index_contexts (sv_scenarios st) uri)"
| "step_genuine kb ms trace (StoreDocument uri doc ds) \<longleftrightarrow> analysed kb ms trace uri doc \<and> genuine_report kb ms trace uri ds"
| "step_genuine kb ms trace (SendDiagnostics uri ds) \<longleftrightarrow> genuine_report kb ms trace uri ds"
| "step_genuine kb ms trace (RemoveDocument uri) \<longleftrightarrow> DidClose uri \<in> set ms"
| "step_genuine kb ms trace _ \<longleftrightarrow> True"

definition state_genuine :: "knowledge_base \<Rightarrow> client_message list \<Rightarrow> server_state list \<Rightarrow> server_state \<Rightarrow> bool" where
  "state_genuine kb ms trace st \<longleftrightarrow>
     bt_wf (sv_documents st) \<and>
     (\<forall>uri doc. (uri, doc) \<in> set (sv_documents st) \<longrightarrow> analysed kb ms trace uri doc) \<and>
     (\<forall>uri ds. PublishDiagnostics uri ds \<in> set (sv_sent st) \<longrightarrow> genuine_report kb ms trace uri ds)"

section \<open>A task on its own\<close>

inductive_cases runs_NilE: "runs kb [] st st'"
inductive_cases runs_ConsE: "runs kb (s # rest) st st'"

lemma runs_Nil [simp]: "runs kb [] st st' \<longleftrightarrow> st' = st"
  by (auto intro: runs_done elim: runs_NilE)

lemma runs_Cons: "runs kb (s # rest) st st2 \<longleftrightarrow> (\<exists>new_steps st1. run_step kb s st = Ok (new_steps, st1) \<and> runs kb (new_steps @ rest) st1 st2)"
  by (auto intro: runs_step elim: runs_ConsE)

lemma runs_append_intro: "runs kb a st st1 \<Longrightarrow> runs kb b st1 st2 \<Longrightarrow> runs kb (a @ b) st st2"
  by (induction rule: runs.induct) (auto simp: runs_Cons)

lemma runs_append_dest: "runs kb steps st st2 \<Longrightarrow> steps = a @ b \<Longrightarrow> \<exists>st1. runs kb a st st1 \<and> runs kb b st1 st2"
proof (induction arbitrary: a rule: runs.induct)
  case (runs_step s st new_steps st1 rest st2)
  show ?case
  proof (cases a)
    case (Cons s' a')
    then show ?thesis using runs_step.IH [of "new_steps @ a'"] runs_step.hyps(1) runs_step.prems by (auto simp: runs_Cons)
  qed (use runs_step in \<open>auto simp: runs_Cons\<close>)
qed simp

lemma runs_append: "runs kb (a @ b) st st2 \<longleftrightarrow> (\<exists>st1. runs kb a st st1 \<and> runs kb b st1 st2)"
  using runs_append_intro runs_append_dest by blast

lemma active_is_selected:
  "active_context st uri =
     (case index_contexts (sv_scenarios st) uri of [c] \<Rightarrow> Some c | contexts \<Rightarrow> selected_context st uri contexts)"
  by (auto simp: active_context_def selected_context_def Let_def split: list.split)

lemma report_is_in: "document_report kb st uri doc = report_in kb doc (active_context st uri)"
  by (simp add: document_report_def report_in_def)

lemma with_environment_report:
  assumes "report_in kb doc None = Ok ds"
  shows "with_environment kb uri doc ds c = obind (report_in kb doc c) (\<lambda>ds'. Ok [StoreDocument uri doc ds'])"
proof -
  have "omap (source_diagnostic (doc_source doc)) (doc_diagnostics doc) = Ok ds"
    using assms by (auto simp: report_in_def obind_eq_Ok)
  then show ?thesis
    by (cases c; cases "omap (environment_diagnostic (doc_source doc)) (validate_context doc (the c) kb)")
      (simp_all add: with_environment_def report_in_def)
qed

lemma runs_read_contexts:
  assumes "report_in kb doc None = Ok ds"
  shows "runs kb [ReadContexts uri doc ds] st st' \<longleftrightarrow>
    (\<exists>ds'. document_report kb st uri doc = Ok ds' \<and> runs kb [StoreDocument uri doc ds'] st st')"
  unfolding report_is_in active_is_selected
  by (auto simp: runs_Cons with_environment_report [OF assms] obind_eq_Ok split: list.split)

lemma runs_status: "runs kb [StatusContexts uri] st st' \<longleftrightarrow> st' = publish_context_status uri st"
  unfolding publish_context_status_def active_is_selected
  by (auto simp: runs_Cons context_notification_def Let_def split: list.split)

lemma runs_store:
  "runs kb [StoreDocument uri doc ds] st st' \<longleftrightarrow>
     st' = publish_context_status uri (send (ProgramBudget uri (doc_budget doc)) (send (PublishDiagnostics uri ds)
       (st\<lparr>sv_documents := bt_insert uri doc (sv_documents st)\<rparr>)))"
proof -
  have "runs kb [StoreDocument uri doc ds] st st' \<longleftrightarrow>
      runs kb [StatusContexts uri] (send (ProgramBudget uri (doc_budget doc)) (send (PublishDiagnostics uri ds)
        (st\<lparr>sv_documents := bt_insert uri doc (sv_documents st)\<rparr>))) st'"
    by (simp add: runs_Cons [of _ "StoreDocument uri doc ds"] runs_Cons [of _ "SendDiagnostics uri ds"] runs_Cons [of _ "SendBudget uri (doc_budget doc)"])
  then show ?thesis by (simp add: runs_status)
qed

lemma runs_update: "runs kb [ReadOptions uri text] st st' \<longleftrightarrow> update_document kb uri text st = Ok st'"
proof -
  have "runs kb [ReadOptions uri text] st st' \<longleftrightarrow>
      (\<exists>doc ds. parse_with_options text kb (sv_unused st) = Ok doc \<and> report_in kb doc None = Ok ds \<and> runs kb [ReadContexts uri doc ds] st st')"
    by (auto simp: runs_Cons [of _ "ReadOptions uri text"] report_in_def obind_eq_Ok)
  also have "\<dots> \<longleftrightarrow> (\<exists>doc ds'. parse_with_options text kb (sv_unused st) = Ok doc \<and> document_report kb st uri doc = Ok ds' \<and>
      runs kb [StoreDocument uri doc ds'] st st')"
    using runs_read_contexts by (auto simp: document_report_def report_in_def obind_eq_Ok)
  also have "\<dots> \<longleftrightarrow> update_document kb uri text st = Ok st'"
    by (auto simp: runs_store update_document_def obind_eq_Ok)
  finally show ?thesis .
qed

lemma runs_updates: "runs kb (map (\<lambda>(uri, text). ReadOptions uri text) xs) st st' \<longleftrightarrow> update_each kb xs st = Ok st'"
proof (induction xs arbitrary: st)
  case (Cons x xs)
  obtain uri source where x: "x = (uri, source)" by fastforce
  have "runs kb (map (\<lambda>(uri, text). ReadOptions uri text) (x # xs)) st st' \<longleftrightarrow>
      runs kb ([ReadOptions uri source] @ map (\<lambda>(uri, text). ReadOptions uri text) xs) st st'" by (simp add: x)
  then show ?case unfolding runs_append runs_update using Cons.IH by (auto simp: x obind_eq_Ok)
qed auto

lemma runs_refresh: "runs kb [SnapshotSources] st st' \<longleftrightarrow> refresh_open_documents kb st = Ok st'"
proof -
  have "map (\<lambda>(uri, doc). ReadOptions uri (doc_source doc)) (sv_documents st) =
      map (\<lambda>(uri, text). ReadOptions uri text) (map (\<lambda>(uri, doc). (uri, doc_source doc)) (sv_documents st))" (is "?steps = _") by auto
  note snapshot = this
  have "runs kb [SnapshotSources] st st' \<longleftrightarrow> runs kb ?steps st st'" by (simp add: runs_Cons [of _ SnapshotSources])
  then show ?thesis unfolding snapshot runs_updates refresh_open_documents_def .
qed

text \<open>Run without interruption, the steps of a handler do what the handler does.\<close>

lemma runs_handler: "runs kb (handler_steps parse_scenario m) st st' \<longleftrightarrow> handle parse_scenario kb m st = Ok st'"
proof (cases m)
  case (SelectContext program scenario ic)
  have "(sv_selections st)(program := (case (scenario, ic) of (Some s, Some i) \<Rightarrow> Some (s, i) | _ \<Rightarrow> None)) =
      (case (scenario, ic) of (Some s, Some i) \<Rightarrow> (sv_selections st)(program \<mapsto> (s, i)) | _ \<Rightarrow> (sv_selections st)(program := None))"
    by (simp split: option.split)
  then show ?thesis
    by (auto simp: SelectContext select_context_def Let_def runs_Cons [of _ "SetSelection program _"] runs_Cons [of _ "ReadSelected program"]
        runs_update split: option.splits)
qed (auto simp: did_open_def did_change_def did_close_def did_change_configuration_def scenario_changed_def runs_update
    runs_Cons [of _ "RemoveDocument _"] runs_Cons [of _ "SendDiagnostics _ _"] runs_Cons [of _ "SetUnused _"] runs_Cons [of _ "RemoveScenario _"]
    runs_Cons [of _ "UpdateScenario _ _ _ _"] runs_Cons [of _ "SendWarning _"] runs_refresh split: option.splits sum.splits)

text \<open>So messages that do not overlap are an interleaved execution.\<close>

lemma runs_interleaved:
  "runs kb steps st st' \<Longrightarrow> interleaved parse_scenario kb ms (st # trace) (before @ steps # after) \<Longrightarrow>
     \<exists>trace'. interleaved parse_scenario kb ms (st' # trace') (before @ after)"
proof (induction arbitrary: trace rule: runs.induct)
  case (runs_step s st new_steps st1 rest st2)
  then show ?case using interleaved_step by blast
qed (auto intro: interleaved_finish)

lemma one_at_a_time_interleaved:
  "one_at_a_time parse_scenario kb later st = Ok st' \<Longrightarrow> interleaved parse_scenario kb ms (st # trace) [] \<Longrightarrow>
     \<exists>trace'. interleaved parse_scenario kb (ms @ later) (st' # trace') []"
proof (induction later arbitrary: ms st trace)
  case (Cons m later)
  obtain st1 where st1: "handle parse_scenario kb m st = Ok st1" "one_at_a_time parse_scenario kb later st1 = Ok st'"
    using Cons.prems(1) by (auto simp: obind_eq_Ok)
  obtain trace1 where "interleaved parse_scenario kb (ms @ [m]) (st1 # trace1) []"
    using runs_interleaved [of kb "handler_steps parse_scenario m" st st1 parse_scenario "ms @ [m]" trace "[]" "[]"] st1(1)
      interleaved_receive [OF Cons.prems(2), of m] by (auto simp: runs_handler)
  then show ?case using Cons.IH [OF st1(2)] by fastforce
qed auto

section \<open>Any interleaving\<close>

lemma was_sent_mono: "was_sent ms uri text \<Longrightarrow> set ms \<subseteq> set ms' \<Longrightarrow> was_sent ms' uri text"
  by (auto simp: was_sent_def)

lemma analysed_mono: "analysed kb ms trace uri doc \<Longrightarrow> set ms \<subseteq> set ms' \<Longrightarrow> set trace \<subseteq> set trace' \<Longrightarrow> analysed kb ms' trace' uri doc"
  using was_sent_mono unfolding analysed_def by blast

lemma chosen_context_mono: "chosen_context trace uri c \<Longrightarrow> set trace \<subseteq> set trace' \<Longrightarrow> chosen_context trace' uri c"
  unfolding chosen_context_def by blast

lemma genuine_report_mono:
  "genuine_report kb ms trace uri ds \<Longrightarrow> set ms \<subseteq> set ms' \<Longrightarrow> set trace \<subseteq> set trace' \<Longrightarrow> genuine_report kb ms' trace' uri ds"
  using analysed_mono [of kb ms trace uri _ ms' trace'] chosen_context_mono [of trace uri _ trace'] unfolding genuine_report_def by blast

lemma step_genuine_mono:
  "step_genuine kb ms trace s \<Longrightarrow> set ms \<subseteq> set ms' \<Longrightarrow> set trace \<subseteq> set trace' \<Longrightarrow> step_genuine kb ms' trace' s"
  by (cases s) (auto intro: was_sent_mono analysed_mono genuine_report_mono)

lemma state_genuine_mono:
  "state_genuine kb ms trace st \<Longrightarrow> set ms \<subseteq> set ms' \<Longrightarrow> set trace \<subseteq> set trace' \<Longrightarrow> state_genuine kb ms' trace' st"
  unfolding state_genuine_def by (blast intro: analysed_mono genuine_report_mono)

lemma task_genuine_mono:
  "list_all (step_genuine kb ms trace) task \<Longrightarrow> set ms \<subseteq> set ms' \<Longrightarrow> set trace \<subseteq> set trace' \<Longrightarrow> list_all (step_genuine kb ms' trace') task"
  using step_genuine_mono by (fastforce simp: list_all_iff)

lemma tasks_genuine_mono:
  "list_all (list_all (step_genuine kb ms trace)) tasks \<Longrightarrow> set ms \<subseteq> set ms' \<Longrightarrow> set trace \<subseteq> set trace' \<Longrightarrow>
     list_all (list_all (step_genuine kb ms' trace')) tasks"
  by (erule list.pred_mono_strong) (rule task_genuine_mono)

lemma with_environment_genuine:
  assumes "with_environment kb uri doc ds c = Ok new_steps" "report_in kb doc None = Ok ds" "analysed kb ms trace uri doc" "chosen_context trace uri c"
  shows "list_all (step_genuine kb ms trace) new_steps"
  using assms(1,3,4) unfolding with_environment_report [OF assms(2)] by (auto simp: obind_eq_Ok genuine_report_def)

lemma state_genuine_send:
  "state_genuine kb ms trace st \<Longrightarrow> (\<And>uri ds. n = PublishDiagnostics uri ds \<Longrightarrow> genuine_report kb ms trace uri ds) \<Longrightarrow>
     state_genuine kb ms trace (send n st)"
  by (auto simp: state_genuine_def send_def)

lemma analysed_source: "analysed kb ms trace uri doc \<Longrightarrow> was_sent ms uri (doc_source doc)"
  using parse_source by (auto simp: analysed_def)

text \<open>A step keeps it, whatever the other tasks do.\<close>

lemma run_step_genuine:
  assumes "run_step kb s st = Ok (new_steps, st')" "step_genuine kb ms trace s" "state_genuine kb ms trace st" "st \<in> set trace"
  shows "list_all (step_genuine kb ms trace) new_steps \<and> state_genuine kb ms trace st'"
proof (cases s)
  case (ReadOptions uri source)
  then obtain doc ds where doc: "parse_with_options source kb (sv_unused st) = Ok doc" "report_in kb doc None = Ok ds"
    "new_steps = [ReadContexts uri doc ds]" "st' = st"
    using assms(1) by (auto simp: obind_eq_Ok report_in_def)
  moreover have "analysed kb ms trace uri doc" using doc(1) assms(2,4) ReadOptions unfolding analysed_def by auto
  ultimately show ?thesis using assms(3) by simp
next
  case (ReadContexts uri doc ds)
  have chosen: "chosen_context trace uri (Some c)" if "index_contexts (sv_scenarios st) uri = [c]" for c
    using assms(4) that unfolding chosen_context_def by (intro exI [of _ st]) simp
  show ?thesis
  proof (cases "\<exists>c. index_contexts (sv_scenarios st) uri = [c]")
    case True
    then show ?thesis using assms(1-3) ReadContexts with_environment_genuine chosen by (fastforce simp: obind_eq_Ok)
  next
    case False
    then have "length (index_contexts (sv_scenarios st) uri) \<noteq> 1" by (auto simp: length_Suc_conv)
    moreover have "new_steps = [ReadSelection uri doc ds (index_contexts (sv_scenarios st) uri)]" "st' = st"
      using assms(1) ReadContexts False by (auto split: list.splits)
    ultimately show ?thesis using assms(2-4) ReadContexts by auto
  qed
next
  case (ReadSelection uri doc ds contexts)
  have "chosen_context trace uri (selected_context st uri contexts)"
    using assms(2,4) ReadSelection unfolding chosen_context_def by (fastforce split: list.split)
  then show ?thesis using assms(1-3) ReadSelection with_environment_genuine by (fastforce simp: obind_eq_Ok)
next
  case (StoreDocument uri doc ds)
  then show ?thesis using assms(1-3) set_bt_insert_subset [of uri doc "sv_documents st"] by (auto simp: state_genuine_def bt_wf_insert)
next
  case SnapshotSources
  then show ?thesis using assms(1,3) by (auto simp: state_genuine_def list_all_iff intro!: analysed_source [of kb ms trace])
next
  case (ReadSelected program)
  then show ?thesis using assms(1,3) bt_get_in_set [of "sv_documents st" program]
    by (auto simp: state_genuine_def open_document_def intro!: analysed_source [of kb ms trace] split: option.splits)
next
  case (RemoveDocument uri)
  then show ?thesis using assms(1,3)
    by (auto simp: state_genuine_def bt_wf_remove) (auto simp: bt_remove_filter)
next
  case (StatusActive uri shown)
  then show ?thesis using assms(1,3) by (auto split: list.splits)
qed (use assms(1-3) in \<open>auto simp: state_genuine_send context_notification_def state_genuine_def send_def\<close>)

lemma handler_steps_genuine: "list_all (step_genuine kb (ms @ [m]) trace) (handler_steps parse_scenario m)"
  by (cases m) (auto simp: was_sent_def genuine_report_def split: option.split sum.split)

lemma interleaved_genuine:
  "interleaved parse_scenario kb ms trace tasks \<Longrightarrow>
     list_all (list_all (step_genuine kb ms trace)) tasks \<and> trace \<noteq> [] \<and> state_genuine kb ms trace (hd trace)"
proof (induction rule: interleaved.induct)
  case (interleaved_start options)
  show ?case by (auto simp: initialize_def server_new_def state_genuine_def bt_empty_def Let_def split: option.split)
next
  case (interleaved_receive ms trace tasks m)
  then show ?case
    using handler_steps_genuine [of kb ms m trace parse_scenario] tasks_genuine_mono [of kb ms trace tasks "ms @ [m]" trace]
      state_genuine_mono [of kb ms trace "hd trace" "ms @ [m]" trace] by auto
next
  case (interleaved_step ms st trace before s rest "after" new_steps st')
  let ?new = "before @ (new_steps @ rest) # after"
  have "list_all (step_genuine kb ms (st # trace)) new_steps \<and> state_genuine kb ms (st # trace) st'"
    using interleaved_step.IH run_step_genuine [OF interleaved_step.hyps(2), of ms "st # trace"] by simp
  then have "list_all (list_all (step_genuine kb ms (st # trace))) ?new" "state_genuine kb ms (st # trace) st'"
    using interleaved_step.IH by simp_all
  then show ?case using tasks_genuine_mono [of kb ms "st # trace" ?new ms "st' # st # trace"]
      state_genuine_mono [of kb ms "st # trace" st' ms "st' # st # trace"] by auto
qed (auto simp: list_all_iff)

section \<open>Handlers that do not overlap\<close>

text \<open>The text a document has.\<close>

definition stored_text :: "server_state \<Rightarrow> string \<Rightarrow> string option" where
  "stored_text st uri = map_option doc_source (open_document st uri)"

lemma stored_text_update: "update_document kb uri source st = Ok st' \<Longrightarrow> stored_text st' u = (if u = uri then Some source else stored_text st u)"
  by (elim update_document_effect) (auto simp: stored_text_def open_document_def bt_get_insert dest: parse_source)

lemma stored_text_update_each:
  "update_each kb xs st = Ok st' \<Longrightarrow> list_all (\<lambda>(uri, source). stored_text st uri = Some source) xs \<Longrightarrow> stored_text st' u = stored_text st u"
proof (induction xs arbitrary: st)
  case (Cons x xs)
  obtain uri source where x: "x = (uri, source)" by fastforce
  obtain st1 where st1: "update_document kb uri source st = Ok st1" "update_each kb xs st1 = Ok st'"
    using Cons.prems(1) by (auto simp: obind_eq_Ok x)
  have "stored_text st1 v = stored_text st v" for v using stored_text_update [OF st1(1)] Cons.prems(2) x by simp
  then show ?case using Cons.IH [OF st1(2)] Cons.prems(2) by simp
qed simp

lemma stored_text_refresh: "refresh_open_documents kb st = Ok st' \<Longrightarrow> bt_wf (sv_documents st) \<Longrightarrow> stored_text st' u = stored_text st u"
  unfolding refresh_open_documents_def
  by (erule stored_text_update_each) (auto simp: list_all_iff stored_text_def open_document_def bt_get_in_set [symmetric])

lemma stored_text_simps [simp]:
  "stored_text (st\<lparr>sv_unused := l\<rparr>) u = stored_text st u" "stored_text (st\<lparr>sv_scenarios := i\<rparr>) u = stored_text st u"
  "stored_text (st\<lparr>sv_selections := m\<rparr>) u = stored_text st u" "stored_text (send n st) u = stored_text st u"
  by (simp_all add: stored_text_def)

lemma selected_current:
  assumes "u \<noteq> program \<or> open_document st program = None" "up_to_date kb st u"
  shows "up_to_date kb (st\<lparr>sv_selections := (sv_selections st)(program := selection)\<rparr>) u"
proof (cases "u = program")
  case True
  then show ?thesis using assms by (simp add: up_to_date_def)
next
  case False
  then show ?thesis using assms(2) by (subst up_to_date_cong [of st]) (simp_all add: same_view_def)
qed

lemma select_context_cases:
  assumes "select_context kb program scenario ic st = Ok st'"
  obtains selection st1 where "st1 = st\<lparr>sv_selections := (sv_selections st)(program := selection)\<rparr>"
    "case open_document st program of Some doc \<Rightarrow> update_document kb program (doc_source doc) st1 = Ok st' | None \<Rightarrow> st' = st1"
proof (rule that [OF refl])
  let ?selection = "case (scenario, ic) of (Some s, Some i) \<Rightarrow> Some (s, i) | _ \<Rightarrow> None"
  show "case open_document st program of
      Some doc \<Rightarrow> update_document kb program (doc_source doc) (st\<lparr>sv_selections := (sv_selections st)(program := ?selection)\<rparr>) = Ok st'
    | None \<Rightarrow> st' = st\<lparr>sv_selections := (sv_selections st)(program := ?selection)\<rparr>"
    using assms by (auto simp: select_context_def Let_def split: option.splits)
qed

lemma scenario_changed_cases:
  assumes "scenario_changed parse_scenario kb uri version source resolved st = Ok st'"
  obtains st1 where "refresh_open_documents kb st1 = Ok st'" "\<And>u. open_document st1 u = open_document st u"
    "\<And>u. last_published st1 u = last_published st u" "sv_documents st1 = sv_documents st"
  using assms by (auto simp: scenario_changed_def split: option.splits sum.splits)

lemma handle_documents:
  assumes "handle parse_scenario kb m st = Ok st'" "bt_wf (sv_documents st)"
  shows "bt_wf (sv_documents st')"
proof (cases m)
  case (ScenarioChanged uri version source resolved)
  then have "scenario_changed parse_scenario kb uri version source resolved st = Ok st'" using assms(1) by simp
  then obtain st1 where "refresh_open_documents kb st1 = Ok st'" "sv_documents st1 = sv_documents st"
    by (rule scenario_changed_cases)
  then show ?thesis using assms(2) update_each_wf by (simp add: refresh_open_documents_def)
next
  case (SelectContext program scenario ic)
  then obtain selection st1 where "st1 = st\<lparr>sv_selections := (sv_selections st)(program := selection)\<rparr>"
    "case open_document st program of Some doc \<Rightarrow> update_document kb program (doc_source doc) st1 = Ok st' | None \<Rightarrow> st' = st1"
    using assms(1) by (auto elim: select_context_cases)
  then show ?thesis using assms(2) update_document_wf [of kb program _ st1 st'] by (auto split: option.splits)
qed (use assms in \<open>auto simp: did_open_def did_change_def did_close_def did_change_configuration_def refresh_open_documents_def bt_wf_remove
      split: if_splits option.splits dest: update_document_wf update_each_wf\<close>)

lemma handle_text:
  assumes "handle parse_scenario kb m st = Ok st'" "bt_wf (sv_documents st)"
  shows "stored_text st' u = hear u m (stored_text st u)"
proof (cases m)
  case (DidClose uri)
  then show ?thesis using assms by (auto simp: hear_def did_close_def stored_text_def open_document_def bt_get_remove)
next
  case (ScenarioChanged uri version source resolved)
  then show ?thesis using assms stored_text_refresh
    by (auto simp: hear_def stored_text_def [of st] elim!: scenario_changed_cases) (metis stored_text_def)
next
  case (SelectContext program scenario ic)
  then show ?thesis using assms(1)
    by (auto simp: hear_def stored_text_update elim!: select_context_cases split: option.splits) (simp_all add: stored_text_def)
qed (use assms stored_text_refresh in
    \<open>auto simp: hear_def did_open_def did_change_def did_change_configuration_def stored_text_update split: if_splits option.splits\<close>)

lemma handle_current:
  assumes "handle parse_scenario kb m st = Ok st'" "bt_wf (sv_documents st)" "up_to_date kb st u \<or> told_text m u \<noteq> None"
  shows "up_to_date kb st' u"
proof (cases m)
  case (DidClose uri)
  show ?thesis
  proof (cases "u = uri")
    case True
    then show ?thesis using assms(1,2) DidClose
      by (auto simp: up_to_date_def did_close_def open_document_def bt_get_remove last_published_send publishes_def)
  qed (use assms DidClose did_close_current in auto)
next
  case (DidChangeConfiguration unused)
  then show ?thesis using assms(1,3) closed_published [of kb st u]
    by (auto simp: did_change_configuration_def intro!: refresh_current split: option.splits)
next
  case (ScenarioChanged uri version source resolved)
  then show ?thesis using assms(1,3) closed_published [of kb st u]
    by (auto elim!: scenario_changed_cases intro!: refresh_current)
next
  case (SelectContext program scenario ic)
  then have current: "up_to_date kb st u" using assms(3) by simp
  obtain selection st1 where st1: "st1 = st\<lparr>sv_selections := (sv_selections st)(program := selection)\<rparr>"
    "case open_document st program of Some doc \<Rightarrow> update_document kb program (doc_source doc) st1 = Ok st' | None \<Rightarrow> st' = st1"
    using assms(1) SelectContext by (auto elim: select_context_cases)
  show ?thesis
  proof (cases "u = program \<and> open_document st program \<noteq> None")
    case True
    then show ?thesis using st1(2) update_keeps_current by auto
  next
    case False
    then have "up_to_date kb st1 u" using st1(1) selected_current current by auto
    then show ?thesis using st1(2) update_keeps_current by (auto split: option.splits)
  qed
qed (use assms update_keeps_current in \<open>auto simp: did_open_def did_change_def split: if_splits\<close>)

lemma one_at_a_time_current:
  assumes "one_at_a_time parse_scenario kb later st = Ok st'" "bt_wf (sv_documents st)"
    and "up_to_date kb st uri \<and> stored_text st uri = before \<or> (\<exists>m \<in> set later. told_text m uri \<noteq> None)"
  shows "up_to_date kb st' uri \<and> stored_text st' uri = fold (hear uri) later before"
  using assms
proof (induction later arbitrary: st before)
  case (Cons m later)
  obtain st1 where st1: "handle parse_scenario kb m st = Ok st1" "one_at_a_time parse_scenario kb later st1 = Ok st'"
    using Cons.prems(1) by (auto simp: obind_eq_Ok)
  have "up_to_date kb st1 uri \<and> stored_text st1 uri = hear uri m before \<or> (\<exists>m \<in> set later. told_text m uri \<noteq> None)"
    using Cons.prems(3) handle_current [OF st1(1) Cons.prems(2), of uri] handle_text [OF st1(1) Cons.prems(2), of uri]
    by (auto simp: hear_def split: option.splits)
  then show ?case using Cons.IH [OF st1(2) handle_documents [OF st1(1) Cons.prems(2)]] by simp
qed simp

text \<open>Without a message nothing has happened.\<close>

lemma interleaved_quiet:
  "interleaved parse_scenario kb ms (st # trace) tasks \<Longrightarrow> ms = [] \<Longrightarrow>
     tasks = [] \<and> up_to_date kb st uri \<and> stored_text st uri = client_text [] uri"
proof (induction ms "st # trace" tasks arbitrary: st trace rule: interleaved.induct)
  case (interleaved_start options)
  then show ?case
    by (auto simp: up_to_date_def initialize_def server_new_def open_document_def last_published_def bt_empty_def bt_get_def Let_def
        stored_text_def client_text_def split: option.split)
qed auto

section \<open>Handlers that overlap\<close>

text \<open>
  A refresh takes the texts of the documents before it analyses them one after the other. A message m that is handled in
  between is undone: the text of the snapshot is stored again.
\<close>

lemma refresh_undoes:
  assumes "did_open kb uri source (initialize options server_new) = Ok st1"
    and "handle parse_scenario kb m (st1\<lparr>sv_unused := parse_unused_level level\<rparr>) = Ok st2" "update_document kb uri source st2 = Ok st3"
  shows "\<exists>trace. interleaved parse_scenario kb [DidOpen uri source, DidChangeConfiguration (Some level), m] (st3 # trace) []"
    and "stored_text st3 uri = Some source"
proof -
  let ?int = "interleaved parse_scenario kb" let ?st = "st1\<lparr>sv_unused := parse_unused_level level\<rparr>"
  have "sv_documents (initialize options server_new) = bt_empty" by (auto simp: initialize_def server_new_def Let_def split: option.split)
  then have docs: "\<exists>doc. sv_documents ?st = [(uri, doc)] \<and> doc_source doc = source"
    using assms(1) by (auto simp: did_open_def bt_empty_def dest: parse_source elim!: update_document_effect)
  obtain trace where opened: "?int [DidOpen uri source] (st1 # trace) []"
    using one_at_a_time_interleaved [OF _ interleaved_start, of parse_scenario kb "[DidOpen uri source]" options st1] assms(1) by auto
  have "?int [DidOpen uri source, DidChangeConfiguration (Some level)] (st1 # trace) ([] @ (SetUnused (parse_unused_level level) # [SnapshotSources]) # [])"
    using interleaved_receive [OF opened, of "DidChangeConfiguration (Some level)"] by simp
  then have "?int [DidOpen uri source, DidChangeConfiguration (Some level)] (?st # st1 # trace) ([] @ (SnapshotSources # []) # [])"
    by (rule interleaved_step [where new_steps = "[]", simplified])  simp
  then have "?int [DidOpen uri source, DidChangeConfiguration (Some level)] (?st # ?st # st1 # trace) ([] @ ([ReadOptions uri source] @ []) # [])"
    by (rule interleaved_step) (use docs in auto)
  note refreshing = interleaved_receive [OF this [simplified], of m, simplified]
  have "runs kb (handler_steps parse_scenario m) ?st st2" using assms(2) by (simp add: runs_handler)
  then obtain trace2 where "?int [DidOpen uri source, DidChangeConfiguration (Some level), m] (st2 # trace2) ([ [ReadOptions uri source]] @ [])"
    using runs_interleaved [of kb _ ?st st2 parse_scenario _ _ "[ [ReadOptions uri source]]" "[]"] refreshing by fastforce
  then show "\<exists>trace. ?int [DidOpen uri source, DidChangeConfiguration (Some level), m] (st3 # trace) []"
    using runs_interleaved [of kb "[ReadOptions uri source]" st2 st3 parse_scenario _ trace2 "[]" "[]"] assms(3) by (simp add: runs_update)
  show "stored_text st3 uri = Some source" using stored_text_update [OF assms(3)] by simp
qed

lemma sample_overlap:
  "case did_open sample_kb ''a'' ''yield'' (initialize None server_new) of
     Ok st1 \<Rightarrow> (\<forall>m \<in> {DidClose ''a'', DidChange ''a'' [''sleep 1'']}.
       case handle (\<lambda>_. Inl []) sample_kb m (st1\<lparr>sv_unused := parse_unused_level ''off''\<rparr>) of
         Ok st2 \<Rightarrow> (case update_document sample_kb ''a'' ''yield'' st2 of Ok _ \<Rightarrow> True | _ \<Rightarrow> False)
       | _ \<Rightarrow> False)
   | _ \<Rightarrow> False"
  by code_simp

text \<open>A document that was closed is open again, and a text that was replaced is back, with its diagnostics.\<close>

lemma overlap_restores_old_text:
  assumes "m = DidClose ''a'' \<or> m = DidChange ''a'' [''sleep 1'']"
  shows "\<exists>st trace ms. ms = [DidOpen ''a'' ''yield'', DidChangeConfiguration (Some ''off''), m] \<and>
    interleaved (\<lambda>_. Inl []) sample_kb ms (st # trace) [] \<and> stored_text st ''a'' = Some ''yield'' \<and> client_text ms ''a'' \<noteq> Some ''yield''"
proof -
  obtain st1 st2 st3 where "did_open sample_kb ''a'' ''yield'' (initialize None server_new) = Ok st1"
    "handle (\<lambda>_. Inl []) sample_kb m (st1\<lparr>sv_unused := parse_unused_level ''off''\<rparr>) = Ok st2"
    "update_document sample_kb ''a'' ''yield'' st2 = Ok st3"
    using sample_overlap assms by (auto split: outcome.splits)
  note race = refresh_undoes [OF this]
  have "client_text [DidOpen ''a'' ''yield'', DidChangeConfiguration (Some ''off''), m] ''a'' \<noteq> Some ''yield''"
    using assms by (auto simp: client_text_def hear_def)
  then show ?thesis using race by blast
qed

section \<open>The property\<close>

text \<open>C18: The diagnostics the client shows. Handlers overlap in any way their awaits allow; when they have ended, messages
  follow whose handlers do not overlap. Then every diagnostics list published so far is the whole report of a text the client
  had sent for that document, under options and in a context the server had (or the empty list of a document that was
  closed), and each document that was opened, changed or closed since handlers last overlapped (every document, when
  they never did) is current: its text is the last one the client has sent, it is the analysis of that text under the present
  options, the list last published for it is the report of that analysis in its present context, and when it is not
  open none is shown.\<close>

theorem published_diagnostics_current:
  assumes "interleaved parse_scenario kb ms (st # trace) []" "one_at_a_time parse_scenario kb later st = Ok st'"
    and "ms = [] \<or> (\<exists>m \<in> set later. told_text m uri \<noteq> None)"
  shows "\<exists>trace'. interleaved parse_scenario kb (ms @ later) (st' # trace') [] \<and>
      (\<forall>u ds. PublishDiagnostics u ds \<in> set (sv_sent st') \<longrightarrow> genuine_report kb (ms @ later) (st' # trace') u ds) \<and>
      up_to_date kb st' uri \<and> stored_text st' uri = client_text (ms @ later) uri"
proof -
  have "bt_wf (sv_documents st)" using interleaved_genuine [OF assms(1)] by (simp add: state_genuine_def)
  moreover have "up_to_date kb st uri \<and> stored_text st uri = client_text ms uri \<or> (\<exists>m \<in> set later. told_text m uri \<noteq> None)"
    using assms(1,3) interleaved_quiet by blast
  ultimately have "up_to_date kb st' uri \<and> stored_text st' uri = client_text (ms @ later) uri"
    using one_at_a_time_current [OF assms(2), of uri "client_text ms uri"] by (simp add: client_text_def)
  moreover obtain trace' where "interleaved parse_scenario kb (ms @ later) (st' # trace') []"
    using one_at_a_time_interleaved [OF assms(2,1)] by blast
  ultimately show ?thesis using interleaved_genuine [of parse_scenario kb "ms @ later" "st' # trace'"] by (auto simp: state_genuine_def)
qed

theorem published_diagnostics_current_witness:
  "\<exists>st trace st' trace'. interleaved (\<lambda>_. Inl []) sample_kb [DidOpen ''a'' ''yield'', DidChangeConfiguration (Some ''off''), DidClose ''a''] (st # trace) [] \<and>
     stored_text st ''a'' = Some ''yield'' \<and>
     interleaved (\<lambda>_. Inl []) sample_kb [DidOpen ''a'' ''yield'', DidChangeConfiguration (Some ''off''), DidClose ''a'', DidClose ''a''] (st' # trace') [] \<and>
     up_to_date sample_kb st' ''a'' \<and> stored_text st' ''a'' = None"
proof -
  let ?ms = "[DidOpen ''a'' ''yield'', DidChangeConfiguration (Some ''off''), DidClose ''a'']"
  obtain st trace where st: "interleaved (\<lambda>_. Inl []) sample_kb ?ms (st # trace) []" "stored_text st ''a'' = Some ''yield''"
    using overlap_restores_old_text [of "DidClose ''a''"] by blast
  have "client_text (?ms @ [DidClose ''a'']) ''a'' = None" by (simp add: client_text_def hear_def)
  then show ?thesis using published_diagnostics_current [OF st(1), of "[DidClose ''a'']" "did_close ''a'' st" "''a''"] st by auto
qed

end
