(* ===== verification/Rename_Correct.thy ===== *)
theory Rename_Correct
  imports Language_Server
begin

text \<open>
  Renaming is exact: the edits of a rename replace the occurrences of the symbol and nothing else. The tokens of a document
  are in the order of the source without overlap, each occurrence of a symbol is one of them, and the editor's ranges select
  exactly its name. Corrections of misspelt instructions are at the least distance.
\<close>

section \<open>Tokens of a document\<close>

definition word_tokens :: "parsed_line \<Rightarrow> token list" where
  "word_tokens line = (case pl_kind line of LEmpty \<Rightarrow> [] | LLabel name \<Rightarrow> [name] | LInstruction m operands \<Rightarrow> m # operands)"

definition precedes :: "span \<Rightarrow> span \<Rightarrow> bool" where
  "precedes a b \<longleftrightarrow> sp_end a \<le> sp_start b"

text \<open>A token lies in the part of the source from \<open>lo\<close> to \<open>hi\<close> and is what its span selects.\<close>

definition selects :: "string \<Rightarrow> usize \<Rightarrow> usize \<Rightarrow> token \<Rightarrow> bool" where
  "selects src lo hi t \<longleftrightarrow>
     lo \<le> sp_start (tok_span t) \<and> sp_end (tok_span t) \<le> hi \<and> sp_end (tok_span t) = sp_start (tok_span t) + length (tok_text t) \<and>
     slice src (sp_start (tok_span t)) (sp_end (tok_span t)) = tok_text t"

lemma laid_out_selects:
  assumes "laid_out rest off ts" "src = pre @ rest @ post" "off = length pre"
  shows "list_all (selects src off (off + length rest)) ts \<and> sorted_wrt (\<lambda>t u. precedes (tok_span t) (tok_span u)) ts"
  using assms
proof (induction ts arbitrary: rest off pre)
  case (Cons t ts)
  let ?gap = "sp_start (tok_span t) - off" and ?n = "length (tok_text t)"
  have t: "off \<le> sp_start (tok_span t)" "take ?n (drop ?gap rest) = tok_text t" "sp_end (tok_span t) = sp_start (tok_span t) + ?n"
    and rest: "laid_out (drop (?gap + ?n) rest) (sp_end (tok_span t)) ts"
    using Cons.prems(1) by (auto simp: Let_def)
  have len: "?n \<le> length rest - ?gap" using arg_cong [OF t(2), of length] by simp
  have nz: "0 < ?n" using Cons.prems(1) by (simp add: Let_def)
  have le: "?gap + ?n \<le> length rest" using len nz by linarith
  have src: "src = (pre @ take (?gap + ?n) rest) @ drop (?gap + ?n) rest @ post" using Cons.prems(2) by simp
  have off: "sp_end (tok_span t) = length (pre @ take (?gap + ?n) rest)" using Cons.prems(3) t(1,3) le by simp
  note ih = Cons.IH [OF rest src off]
  have hi: "sp_end (tok_span t) + length (drop (?gap + ?n) rest) = off + length rest" using t(1,3) le by simp
  have "slice src (sp_start (tok_span t)) (sp_end (tok_span t)) = tok_text t"
    using t Cons.prems(2,3) le by (simp add: slice_def)
  moreover have "sp_end (tok_span t) \<le> off + length rest" using t(1,3) le by simp
  ultimately have head: "selects src off (off + length rest) t" using t(1,3) by (simp add: selects_def)
  have "list_all (selects src off (off + length rest)) ts"
    using ih hi t(1,3) by (auto simp: list_all_iff selects_def)
  moreover have "\<forall>u \<in> set ts. precedes (tok_span t) (tok_span u)" using ih by (auto simp: list_all_iff selects_def precedes_def)
  ultimately show ?case using head ih by simp
qed simp

lemma tokenize_selects:
  assumes "src = pre @ body @ post" "off = length pre"
  shows "list_all (selects src off (off + length body)) (tokenize body off) \<and>
    sorted_wrt (\<lambda>t u. precedes (tok_span t) (tok_span u)) (tokenize body off)"
  using laid_out_selects [OF tokenize_laid_out assms] .

lemma selects_butlast:
  assumes "selects src lo hi t" "tok_text t \<noteq> []"
  shows "selects src lo hi \<lparr>tok_text = butlast (tok_text t), tok_span = (tok_span t)\<lparr>sp_end := sp_end (tok_span t) - 1\<rparr>\<rparr>"
proof -
  let ?a = "sp_start (tok_span t)" and ?n = "length (tok_text t)"
  have "take ?n (drop ?a src) = tok_text t" using assms(1) by (auto simp: selects_def slice_def)
  moreover from this have "?n \<le> length (drop ?a src)" by (metis length_take min.absorb_iff2 min.commute nle_le)
  ultimately have "take (?n - 1) (drop ?a src) = butlast (tok_text t)" using butlast_take [of ?n "drop ?a src"] by simp
  then show ?thesis using assms by (cases ?n) (auto simp: selects_def slice_def)
qed

lemma classify_words:
  assumes "list_all (selects src lo hi) ts" "sorted_wrt (\<lambda>t u. precedes (tok_span t) (tok_span u)) ts"
  shows "list_all (selects src lo hi) (word_tokens \<lparr>pl_number = n, pl_span = a, pl_code_span = b, pl_comment_span = c, pl_kind = classify_line ts\<rparr>) \<and>
    sorted_wrt (\<lambda>t u. precedes (tok_span t) (tok_span u))
      (word_tokens \<lparr>pl_number = n, pl_span = a, pl_code_span = b, pl_comment_span = c, pl_kind = classify_line ts\<rparr>)"
proof (cases ts)
  case (Cons t us)
  show ?thesis
  proof (cases "us = [] \<and> ends_with '':'' (tok_text t)")
    case True
    then have "tok_text t \<noteq> []" by (auto simp: ends_with_iff)
    then show ?thesis using True Cons assms(1) selects_butlast [of src lo hi t] by (simp add: word_tokens_def classify_line_def)
  qed (use Cons assms in \<open>auto simp: word_tokens_def classify_line_def\<close>)
qed (simp add: word_tokens_def classify_line_def)

lemma selects_weaken: "selects src lo hi t \<Longrightarrow> lo' \<le> lo \<Longrightarrow> hi \<le> hi' \<Longrightarrow> selects src lo' hi' t"
  by (auto simp: selects_def)

lemma parse_lines_words:
  assumes "src = pre @ concat ls @ post" "off = length pre"
  shows "list_all (selects src off (off + length (concat ls))) (concat (map word_tokens (parse_lines number off ls))) \<and>
    sorted_wrt (\<lambda>t u. precedes (tok_span t) (tok_span u)) (concat (map word_tokens (parse_lines number off ls)))"
  using assms
proof (induction ls arbitrary: number off pre)
  case (Cons l ls)
  obtain e where e: "l = line_text l @ e" using line_text_prefix by blast
  let ?body = "take (case comment_start (line_text l) of Some i \<Rightarrow> i | None \<Rightarrow> length (line_text l)) (line_text l)"
  obtain f where f: "l = ?body @ f" using e by (metis append.assoc append_take_drop_id)
  have len: "length ?body \<le> length l" using arg_cong [OF f, of length] by simp
  have "src = pre @ ?body @ (f @ concat ls @ post)" using Cons.prems(1) f by (metis append.assoc concat.simps(2))
  note body = tokenize_selects [OF this Cons.prems(2)]
  have "src = (pre @ l) @ concat ls @ post" "off + length l = length (pre @ l)" using Cons.prems by simp_all
  note rest = Cons.IH [OF this, of "Suc number"]
  define line where "line = hd (parse_lines number off (l # ls))"
  have words: "list_all (selects src off (off + length ?body)) (word_tokens line) \<and>
      sorted_wrt (\<lambda>t u. precedes (tok_span t) (tok_span u)) (word_tokens line)"
    using classify_words [of src off "off + length ?body" "tokenize ?body off"] body by (simp add: line_def Let_def)
  have split: "parse_lines number off (l # ls) = line # parse_lines (Suc number) (off + length l) ls" by (simp add: line_def Let_def)
  have first: "selects src off (off + length l) t" if "t \<in> set (word_tokens line)" for t
    using words that len by (auto simp: list_all_iff intro: selects_weaken)
  have later: "selects src (off + length l) (off + length l + length (concat ls)) u"
    if "u \<in> set (concat (map word_tokens (parse_lines (Suc number) (off + length l) ls)))" for u
    using rest that by (auto simp: list_all_iff)
  have "precedes (tok_span t) (tok_span u)" if "t \<in> set (word_tokens line)"
    "u \<in> set (concat (map word_tokens (parse_lines (Suc number) (off + length l) ls)))" for t u
    using first [OF that(1)] later [OF that(2)] by (simp add: selects_def precedes_def)
  moreover have "list_all (selects src off (off + length (concat (l # ls))))
      (word_tokens line @ concat (map word_tokens (parse_lines (Suc number) (off + length l) ls)))"
    using first later selects_weaken [of src off "off + length l" _ off "off + length (concat (l # ls))"]
      selects_weaken [of src "off + length l" "off + length l + length (concat ls)" _ off "off + length (concat (l # ls))"]
    by (fastforce simp: list_all_iff)
  ultimately show ?case unfolding split using words rest by (auto simp: sorted_wrt_append)
qed simp

lemma document_words:
  "list_all (selects src 0 (length src)) (concat (map word_tokens (document_lines src))) \<and>
   sorted_wrt (\<lambda>t u. precedes (tok_span t) (tok_span u)) (concat (map word_tokens (document_lines src)))"
proof -
  have "concat (map word_tokens (document_lines src)) = concat (map word_tokens (parse_lines 0 0 (split_inclusive src)))"
    by (simp add: document_lines_split word_tokens_def)
  then show ?thesis using parse_lines_words [of src "[]" "split_inclusive src" "[]" 0 0] by (simp add: concat_split_inclusive)
qed

section \<open>Occurrences\<close>

lemma declared_symbol_word:
  assumes "declared_symbol kb line = Some s"
  shows "is_identifier (sym_name s) \<and> (\<exists>t \<in> set (word_tokens line). tok_text t = sym_name s \<and> tok_span t = sym_span s)"
  using assms by (auto simp: declared_symbol_def word_tokens_def split: line_kind.splits option.splits list.splits if_splits)

lemma declared_word:
  assumes "bt_get (fst (collect_declarations kb (document_lines src))) name = Some s"
  shows "sym_name s = name \<and> is_identifier name \<and>
    (\<exists>t \<in> set (concat (map word_tokens (document_lines src))). tok_text t = name \<and> tok_span t = sym_span s)"
proof -
  have "find (\<lambda>e. sym_name e = name) (List.map_filter (declared_symbol kb) (document_lines src)) = Some s"
    using assms by (simp add: declarations_first_wins)
  then have "sym_name s = name" "s \<in> set (List.map_filter (declared_symbol kb) (document_lines src))" by (auto simp: find_Some_iff)
  then show ?thesis using declared_symbol_word by (fastforce simp: map_filter_def)
qed

lemma parsed_occurrences:
  assumes "parse_with_options src kb level = Ok doc"
  shows "doc_source doc = src" "doc_lines doc = document_lines src" "doc_symbols doc = fst (collect_declarations kb (document_lines src))"
    "doc_occurrences doc = collect_occurrences (doc_lines doc) (doc_symbols doc)"
  using assms by (auto simp: parse_with_options_def analyze_def Let_def obind_eq_Ok split: prod.splits)

abbreviation in_order :: "token list \<Rightarrow> bool" where
  "in_order \<equiv> sorted_wrt (\<lambda>t u. precedes (tok_span t) (tok_span u))"

lemma operand_occurrences_in_order:
  "in_order ts \<Longrightarrow> sorted_wrt (\<lambda>a b. precedes (oc_span a) (oc_span b)) (List.map_filter (operand_occurrence syms) ts)"
  by (induction ts) (auto simp: map_filter_def operand_occurrence_def split: option.splits if_splits)

lemma set_map_filter: "set (List.map_filter f xs) = {y. \<exists>x \<in> set xs. f x = Some y}"
  by (force simp: map_filter_def)

lemma line_occurrence_word:
  assumes "oc \<in> set (line_occurrences syms line)"
  obtains t s where "t \<in> set (word_tokens line)" "oc_span oc = tok_span t" "bt_get syms (tok_text t) = Some s" "oc_name oc = sym_name s"
    "\<not> oc_declaration oc" "tok_span t \<noteq> sym_span s"
proof -
  obtain m operands where line: "pl_kind line = LInstruction m operands" using assms by (cases "pl_kind line") (auto simp: line_occurrences_def)
  obtain t where t: "t \<in> set operands" "operand_occurrence syms t = Some oc"
    using assms line by (auto simp: line_occurrences_def set_map_filter)
  then show thesis using that [of t] line by (auto simp: operand_occurrence_def word_tokens_def split: option.splits if_splits)
qed

lemma line_occurrences_in_order:
  "in_order (word_tokens line) \<Longrightarrow> sorted_wrt (\<lambda>a b. precedes (oc_span a) (oc_span b)) (line_occurrences syms line)"
  by (cases "pl_kind line") (auto simp: line_occurrences_def word_tokens_def intro: operand_occurrences_in_order)

lemma lines_occurrences_in_order:
  "in_order (concat (map word_tokens lines)) \<Longrightarrow>
    sorted_wrt (\<lambda>a b. precedes (oc_span a) (oc_span b)) (concat (map (line_occurrences syms) lines))"
proof (induction lines)
  case (Cons line lines)
  have "precedes (oc_span a) (oc_span b)"
    if ab: "a \<in> set (line_occurrences syms line)" "b \<in> set (concat (map (line_occurrences syms) lines))" for a b
  proof -
    obtain t where t: "t \<in> set (word_tokens line)" "oc_span a = tok_span t" using line_occurrence_word [OF ab(1)] by blast
    obtain l where l: "l \<in> set lines" "b \<in> set (line_occurrences syms l)" using ab(2) by auto
    obtain u where "u \<in> set (word_tokens l)" "oc_span b = tok_span u" using line_occurrence_word [OF l(2)] by blast
    then show ?thesis using t l(1) Cons.prems by (auto simp: sorted_wrt_append)
  qed
  then show ?case using Cons by (auto simp: sorted_wrt_append intro: line_occurrences_in_order)
qed simp

text \<open>Words that start at the same place are the same.\<close>

lemma same_start:
  assumes "in_order ts" "list_all (selects src lo hi) ts" "t \<in> set ts" "u \<in> set ts" "tok_text t \<noteq> []" "tok_text u \<noteq> []"
  shows "tok_span t = tok_span u \<or> precedes (tok_span t) (tok_span u) \<and> sp_start (tok_span t) < sp_start (tok_span u) \<or>
    precedes (tok_span u) (tok_span t) \<and> sp_start (tok_span u) < sp_start (tok_span t)"
proof -
  obtain i j where ij: "i < length ts" "j < length ts" "ts ! i = t" "ts ! j = u" using assms(3,4) by (metis in_set_conv_nth)
  have len: "sp_start (tok_span x) < sp_end (tok_span x)" if "x \<in> set ts" "tok_text x \<noteq> []" for x
    using assms(2) that by (auto simp: list_all_iff selects_def)
  have "i = j \<or> precedes (tok_span t) (tok_span u) \<or> precedes (tok_span u) (tok_span t)"
    using sorted_wrt_nth_less [OF assms(1), of i j] sorted_wrt_nth_less [OF assms(1), of j i] ij by (cases i j rule: linorder_cases) auto
  then show ?thesis using len [OF assms(3,5)] len [OF assms(4,6)] ij by (auto simp: precedes_def)
qed

lemma occurrence_word:
  assumes "parse_with_options src kb level = Ok doc" "oc \<in> set (doc_occurrences doc)"
  obtains t where "t \<in> set (concat (map word_tokens (document_lines src)))" "tok_span t = oc_span oc" "tok_text t = oc_name oc"
    "is_identifier (oc_name oc)"
proof -
  note parsed = parsed_occurrences [OF assms(1)]
  let ?syms = "fst (collect_declarations kb (document_lines src))"
  have "bt_wf ?syms" using declare_fold [of bt_empty kb "document_lines src" "[]"] by (simp add: collect_declarations_def bt_empty_def)
  then have declared: "bt_get ?syms k = Some s" if "(k, s) \<in> set ?syms" for k s using that by (simp add: bt_get_in_set)
  consider k s where "(k, s) \<in> set ?syms" "oc = declaration_of s"
    | line where "line \<in> set (document_lines src)" "oc \<in> set (line_occurrences ?syms line)"
    using assms(2) parsed by (auto simp: collect_occurrences_def)
  then show thesis
  proof cases
    case 1
    then show thesis using declared_word [OF declared [OF 1(1)]] that by (auto simp: declaration_of_def)
  next
    case 2
    obtain t s where t: "t \<in> set (word_tokens line)" "oc_span oc = tok_span t" "bt_get ?syms (tok_text t) = Some s" "oc_name oc = sym_name s"
      using line_occurrence_word [OF 2(2)] by blast
    then show thesis using declared_word [OF t(3)] that [of t] 2(1) by auto
  qed
qed

text \<open>The spans of the occurrences of a document are in the order of their starts, and not empty.\<close>

lemma occurrence_spans:
  assumes "parse_with_options src kb level = Ok doc" "a \<in> set (doc_occurrences doc)" "b \<in> set (doc_occurrences doc)"
  shows "sp_start (oc_span a) < sp_end (oc_span a)" "slice src (sp_start (oc_span a)) (sp_end (oc_span a)) = oc_name a"
    "sp_start (oc_span a) < sp_start (oc_span b) \<Longrightarrow> precedes (oc_span a) (oc_span b)"
    "sp_start (oc_span a) = sp_start (oc_span b) \<Longrightarrow> oc_span a = oc_span b"
proof -
  let ?words = "concat (map word_tokens (document_lines src))"
  obtain t where t: "t \<in> set ?words" "tok_span t = oc_span a" "tok_text t = oc_name a" "is_identifier (oc_name a)"
    by (rule occurrence_word [OF assms(1,2)])
  obtain u where u: "u \<in> set ?words" "tok_span u = oc_span b" "tok_text u = oc_name b" "is_identifier (oc_name b)"
    by (rule occurrence_word [OF assms(1,3)])
  have nonempty: "tok_text t \<noteq> []" "tok_text u \<noteq> []" using t(3,4) u(3,4) by (auto simp: is_identifier_def)
  have "selects src 0 (length src) t" using document_words t(1) by (metis list_all_iff)
  then show "sp_start (oc_span a) < sp_end (oc_span a)" "slice src (sp_start (oc_span a)) (sp_end (oc_span a)) = oc_name a"
    using t(2,3) nonempty(1) by (auto simp: selects_def)
  note order = same_start [of ?words src 0 "length src" t u, OF _ _ t(1) u(1) nonempty]
  show "sp_start (oc_span a) < sp_start (oc_span b) \<Longrightarrow> precedes (oc_span a) (oc_span b)"
    "sp_start (oc_span a) = sp_start (oc_span b) \<Longrightarrow> oc_span a = oc_span b"
    using order document_words [of src] t(2) u(2) by auto
qed

lemma declaration_apart:
  assumes "bt_wf syms" "\<And>k s. (k, s) \<in> set syms \<Longrightarrow> sym_name s = k" "s \<in> set (bt_values syms)"
    "oc \<in> set (line_occurrences syms line)" "oc_name oc = sym_name s"
  shows "oc_span oc \<noteq> oc_span (declaration_of s)"
proof -
  obtain k where k: "(k, s) \<in> set syms" using assms(3) by auto
  obtain t s' where t: "t \<in> set (word_tokens line)" "oc_span oc = tok_span t" "bt_get syms (tok_text t) = Some s'"
    "oc_name oc = sym_name s'" "\<not> oc_declaration oc" "tok_span t \<noteq> sym_span s'"
    by (rule line_occurrence_word [OF assms(4)])
  have s': "(tok_text t, s') \<in> set syms" using t(3) assms(1) by (simp add: bt_get_in_set)
  have "tok_text t = k" using assms(2) [OF s'] assms(2) [OF k] assms(5) t(4) by simp
  then have "s' = s" using t(3) k assms(1) by (simp add: bt_get_in_set [symmetric])
  then show ?thesis using t(2,6) by (simp add: declaration_of_def)
qed

text \<open>The occurrences of one name start at different places.\<close>

lemma distinct_starts:
  assumes "parse_with_options src kb level = Ok doc"
  shows "distinct (map (\<lambda>oc. sp_start (oc_span oc)) (occurrences_for doc name))"
proof -
  note parsed = parsed_occurrences [OF assms]
  define syms where "syms = fst (collect_declarations kb (document_lines src))"
  define decls where "decls = filter (\<lambda>oc. oc_name oc = name) (map declaration_of (bt_values syms))"
  define uses where "uses = filter (\<lambda>oc. oc_name oc = name) (concat (map (line_occurrences syms) (document_lines src)))"
  let ?start = "\<lambda>oc. sp_start (oc_span oc)"
  have wf: "bt_wf syms"
    using declare_fold [of bt_empty kb "document_lines src" "[]"] by (simp add: syms_def collect_declarations_def bt_empty_def)
  have named: "sym_name s = k" if "(k, s) \<in> set syms" for k s
    using declared_word that wf unfolding syms_def by (metis bt_get_in_set)
  have occs: "doc_occurrences doc = sort_key ?start (map declaration_of (bt_values syms) @ concat (map (line_occurrences syms) (document_lines src)))"
    by (simp only: parsed collect_occurrences_def syms_def)
  then have "occurrences_for doc name = sort_key ?start (decls @ uses)"
    by (simp only: occurrences_for_def filter_sort filter_append decls_def uses_def)
  then have all: "distinct (map ?start (occurrences_for doc name)) = distinct (map ?start (decls @ uses))"
    by (simp only: distinct_map distinct_sort set_sort)
  have member: "oc \<in> set (doc_occurrences doc)" if "oc \<in> set decls \<union> set uses" for oc
    using that unfolding occs set_sort decls_def uses_def by auto
  have "distinct (map fst syms)" using wf by (simp add: bt_wf_def strict_sorted_iff)
  moreover have "map fst syms = map sym_name (bt_values syms)" using named by (auto simp: map_eq_conv)
  ultimately have "distinct (map sym_name (bt_values syms))" by simp
  then have "distinct (bt_values syms)" "inj_on sym_name (set (bt_values syms))" by (simp_all only: distinct_map)
  then have "distinct (map ?start decls)" unfolding decls_def by (auto simp: distinct_map inj_on_def declaration_of_def filter_map)
  moreover have "sorted_wrt (\<lambda>a b. ?start a < ?start b) uses"
  proof (rule sorted_wrt_mono_rel)
    show "sorted_wrt (\<lambda>a b. precedes (oc_span a) (oc_span b)) uses"
      using lines_occurrences_in_order [of "document_lines src" syms] document_words [of src] by (simp add: uses_def sorted_wrt_filter)
    show "?start a < ?start b" if "a \<in> set uses" "precedes (oc_span a) (oc_span b)" for a b
      using occurrence_spans(1) [OF assms member member, of a a] that by (simp add: precedes_def)
  qed
  then have "sorted_wrt (<) (map ?start uses)" by (simp add: sorted_wrt_map)
  then have "distinct (map ?start uses)" by (simp add: strict_sorted_iff)
  moreover have "?start a \<noteq> ?start b" if ab: "a \<in> set decls" "b \<in> set uses" for a b
  proof -
    obtain s where s: "s \<in> set (bt_values syms)" "a = declaration_of s" "oc_name a = name" using ab(1) by (auto simp: decls_def)
    then have "sym_name s = name" by (simp add: declaration_of_def)
    moreover obtain line where "b \<in> set (line_occurrences syms line)" "oc_name b = name" using ab(2) by (auto simp: uses_def)
    ultimately have "oc_span b \<noteq> oc_span a" using declaration_apart [OF wf named s(1), of b line] s(2) by simp
    then show ?thesis using occurrence_spans(4) [OF assms member member, of a b] ab by auto
  qed
  ultimately show ?thesis unfolding all by auto
qed

section \<open>Renaming\<close>

lemma after_ascii:
  assumes "utf8_from 0 (xs @ c # ys)" "code c < 128"
  shows "utf8_from 0 ys"
proof -
  have "\<not> continuation_byte c" "utf8_width c = 1" using assms(2) by (simp_all add: continuation_byte_def utf8_width_def)
  then show ?thesis using boundary_split(2) [of 0 xs "c # ys"] assms(1) by simp
qed

lemma ascii_boundaries:
  assumes "valid_utf8 src" "slice src a b = name" "a < b" "b \<le> length src" "\<forall>c \<in> set name. code c < 128"
  shows "is_char_boundary src a" "is_char_boundary src b"
proof -
  have byte: "code (src ! i) < 128" if "a \<le> i" "i < b" for i
  proof -
    have "src ! i = name ! (i - a)" "i - a < length name" using that assms(2-4) by (auto simp: slice_def)
    then show ?thesis using assms(5) nth_mem [of "i - a" name] by simp
  qed
  show "is_char_boundary src a" using byte [of a] assms(3,4) by (simp add: is_char_boundary_def continuation_byte_def)
  have "src = take (b - 1) src @ src ! (b - 1) # drop b src" using assms(3,4) by (metis Suc_diff_1 id_take_nth_drop less_le_trans less_nat_zero_code not_gr_zero diff_less zero_less_one)
  then have "utf8_from 0 (drop b src)"
    using after_ascii [of "take (b - 1) src" "src ! (b - 1)" "drop b src"] byte [of "b - 1"] assms(1,3) by (simp add: valid_utf8_def)
  then show "is_char_boundary src b" using utf8_boundary [of "drop b src" "take b src"] assms(4) by simp
qed

definition edit_span :: "string \<Rightarrow> text_edit \<Rightarrow> span" where
  "edit_span src e = new_span (position_to_offset src (ra_start (te_range e))) (position_to_offset src (ra_end (te_range e)))"

lemma identifier_ascii: "is_identifier name \<Longrightarrow> c \<in> set name \<Longrightarrow> code c < 128"
  by (auto simp: is_identifier_def list_all_iff is_ascii_alphabetic_def is_ascii_alphanumeric_def is_upper_def is_lower_def is_digit_def
      code_def split: list.splits)

lemma occurrence_edit_exact:
  assumes "parse_with_options src kb level = Ok doc" "valid_utf8 src" "length src < 2 ^ 30" "oc \<in> set (doc_occurrences doc)"
  shows "\<exists>e. occurrence_edit src new_name oc = Ok e \<and> edit_span src e = oc_span oc \<and> te_new_text e = new_name"
proof -
  note spans = occurrence_spans(1,2) [OF assms(1,4,4)]
  obtain t where t: "t \<in> set (concat (map word_tokens (document_lines src)))" "tok_span t = oc_span oc" "tok_text t = oc_name oc"
    "is_identifier (oc_name oc)"
    by (rule occurrence_word [OF assms(1,4)])
  have "selects src 0 (length src) t" using document_words t(1) by (metis list_all_iff)
  then have "sp_end (oc_span oc) \<le> length src" using t(2) by (simp add: selects_def)
  then have bounds: "is_char_boundary src (sp_start (oc_span oc))" "is_char_boundary src (sp_end (oc_span oc))"
    using ascii_boundaries [OF assms(2) spans(2,1)] identifier_ascii [OF t(4)] by auto
  obtain p q where "offset_to_position src (sp_start (oc_span oc)) = (Ok p :: (string, lsp_position) outcome)"
    "position_to_offset src p = sp_start (oc_span oc)"
    "offset_to_position src (sp_end (oc_span oc)) = (Ok q :: (string, lsp_position) outcome)" "position_to_offset src q = sp_end (oc_span oc)"
    using position_inverse [OF assms(2) bounds(1) assms(3)] position_inverse [OF assms(2) bounds(2) assms(3)] by blast
  then show ?thesis by (simp add: occurrence_edit_def span_to_range_def edit_span_def new_span_def)
qed

lemma omap_total:
  "(\<And>x. x \<in> set xs \<Longrightarrow> \<exists>y. f x = Ok y \<and> P x y) \<Longrightarrow> \<exists>ys. omap f xs = Ok ys \<and> list_all2 P xs ys"
proof (induction xs)
  case (Cons x xs)
  obtain y where "f x = Ok y" "P x y" using Cons.prems [of x] by auto
  moreover obtain ys where "omap f xs = Ok ys" "list_all2 P xs ys" using Cons by auto
  ultimately show ?case by simp
qed simp

text \<open>C31: Renaming is exact. In a document of valid UTF-8 text, renaming a symbol to an identifier that is not declared
  succeeds; its edits cover the occurrences of the symbol in order and without overlap, each edit selects exactly the
  old name in the text and puts the new name in its place.\<close>

theorem rename_edits_exact:
  assumes "parse_with_options src kb level = Ok doc" "valid_utf8 src" "length src < 2 ^ 30"
    and "rename_target doc offset = Some (token, s)" "is_identifier new_name" "new_name = sym_name s \<or> doc_symbol doc new_name = None"
  shows "\<exists>edits. rename_symbol_edits doc offset new_name = Ok (Some edits) \<and>
    map (edit_span src) edits = map oc_span (occurrences_for doc (sym_name s)) \<and>
    sorted_wrt precedes (map (edit_span src) edits) \<and>
    list_all (\<lambda>e. te_new_text e = new_name \<and> span_text src (edit_span src e) = sym_name s) edits"
proof -
  let ?occs = "occurrences_for doc (sym_name s)"
  have occ: "oc \<in> set (doc_occurrences doc) \<and> oc_name oc = sym_name s" if "oc \<in> set ?occs" for oc
    using that by (simp add: occurrences_for_def)
  have text_of: "span_text src (oc_span oc) = sym_name s" if "oc \<in> set ?occs" for oc
    using occurrence_spans(2) [OF assms(1), of oc oc] occ [OF that] by (simp add: span_text_def)
  have "\<exists>edits. omap (occurrence_edit src new_name) ?occs = Ok edits \<and>
      list_all2 (\<lambda>oc e. edit_span src e = oc_span oc \<and> te_new_text e = new_name) ?occs edits"
    by (rule omap_total) (use occurrence_edit_exact [OF assms(1-3)] occ in blast)
  then obtain edits where edits: "omap (occurrence_edit src new_name) ?occs = Ok edits"
    "list_all2 (\<lambda>oc e. edit_span src e = oc_span oc \<and> te_new_text e = new_name) ?occs edits" by blast
  have spans: "map (edit_span src) edits = map oc_span ?occs"
    using edits(2) by (induction rule: list_all2_induct) auto
  have "sorted (map (\<lambda>oc. sp_start (oc_span oc)) ?occs)"
    by (simp add: occurrences_for_def parsed_occurrences [OF assms(1)] collect_occurrences_def filter_sort del: sort_key_simps)
  then have "sorted_wrt (<) (map (\<lambda>oc. sp_start (oc_span oc)) ?occs)"
    using distinct_starts [OF assms(1), of "sym_name s"] by (simp add: strict_sorted_iff)
  then have "sorted_wrt (\<lambda>a b. sp_start (oc_span a) < sp_start (oc_span b)) ?occs" by (simp add: sorted_wrt_map)
  then have "sorted_wrt (\<lambda>a b. precedes (oc_span a) (oc_span b)) ?occs"
    by (rule sorted_wrt_mono_rel [rotated]) (use occurrence_spans(3) [OF assms(1)] occ in blast)
  moreover have "list_all (\<lambda>e. te_new_text e = new_name \<and> span_text src (edit_span src e) = sym_name s) edits"
    using edits(2) text_of nth_mem [of _ ?occs] by (auto simp: list_all_length list_all2_conv_all_nth)
  moreover from calculation have "sorted_wrt precedes (map (edit_span src) edits)" by (simp add: spans sorted_wrt_map)
  moreover have "rename_symbol_edits doc offset new_name = Ok (Some edits)"
    using edits(1) assms(4-6) parsed_occurrences(1) [OF assms(1)] by (auto simp: rename_symbol_edits_def)
  ultimately show ?thesis using spans by blast
qed

text \<open>A label and a jump to it.\<close>

definition rename_source :: string where
  "rename_source = ''loop:'' @ [CHR 0x0A] @ ''j loop''"

lemma rename_sample:
  "case parse_with_options rename_source sample_kb UnusedHint of
     Ok doc \<Rightarrow> rename_target doc 0 = Some (\<lparr>tok_text = ''loop'', tok_span = new_span 0 4\<rparr>,
         \<lparr>sym_name = ''loop'', sym_kind = SLabel, sym_span = new_span 0 4, sym_value = None, sym_value_span = None, sym_line = 0\<rparr>) \<and>
       doc_symbol doc ''start'' = None \<and> length (occurrences_for doc ''loop'') = 2
   | _ \<Rightarrow> False"
  by code_simp

theorem rename_edits_exact_witness:
  "\<exists>doc edits. parse_with_options rename_source sample_kb UnusedHint = Ok doc \<and>
     rename_symbol_edits doc 0 ''start'' = Ok (Some edits) \<and> length edits = 2 \<and>
     list_all (\<lambda>e. te_new_text e = ''start'' \<and> span_text rename_source (edit_span rename_source e) = ''loop'') edits"
proof -
  obtain doc where parsed: "parse_with_options rename_source sample_kb UnusedHint = Ok doc"
    using rename_sample by (cases "parse_with_options rename_source sample_kb UnusedHint") (simp_all only: outcome.case)
  have doc: "parse_with_options rename_source sample_kb UnusedHint = Ok doc" "rename_target doc 0 = Some (\<lparr>tok_text = ''loop'', tok_span = new_span 0 4\<rparr>,
       \<lparr>sym_name = ''loop'', sym_kind = SLabel, sym_span = new_span 0 4, sym_value = None, sym_value_span = None, sym_line = 0\<rparr>)"
    "doc_symbol doc ''start'' = None" "length (occurrences_for doc ''loop'') = 2"
    using rename_sample unfolding parsed outcome.case by blast+
  have "valid_utf8 rename_source" by code_simp
  moreover have "length rename_source < 2 ^ 30" by (simp add: rename_source_def)
  moreover have "is_identifier ''start''" by code_simp
  ultimately obtain edits where "rename_symbol_edits doc 0 ''start'' = Ok (Some edits)"
    "map (edit_span rename_source) edits = map oc_span (occurrences_for doc ''loop'')"
    "list_all (\<lambda>e. te_new_text e = ''start'' \<and> span_text rename_source (edit_span rename_source e) = ''loop'') edits"
    using rename_edits_exact [OF doc(1) _ _ doc(2), of "''start''"] doc(3) by auto
  note edits = this
  have "length edits = 2" using arg_cong [OF edits(2), of length] doc(4) by simp
  then show ?thesis using doc(1) edits(1,3) by blast
qed

section \<open>Corrections\<close>

text \<open>Ways to turn one text into another: bytes are kept, replaced, deleted and inserted; the last three cost one each.\<close>

inductive aligns :: "string \<Rightarrow> string \<Rightarrow> nat \<Rightarrow> bool" where
  align_empty: "aligns [] [] 0"
| align_delete: "aligns l r n \<Longrightarrow> aligns (l @ [a]) r (Suc n)"
| align_insert: "aligns l r n \<Longrightarrow> aligns l (r @ [b]) (Suc n)"
| align_pair: "aligns l r n \<Longrightarrow> aligns (l @ [a]) (r @ [b]) (n + (if a \<noteq> b then 1 else 0))"

definition least_cost :: "string \<Rightarrow> string \<Rightarrow> nat \<Rightarrow> bool" where
  "least_cost l r n \<longleftrightarrow> aligns l r n \<and> (\<forall>m. aligns l r m \<longrightarrow> n \<le> m)"

inductive_cases aligns_NilE: "aligns [] r n"
inductive_cases aligns_Nil2E: "aligns l [] n"
inductive_cases aligns_snocE: "aligns (l @ [a]) (r @ [b]) n"

lemma aligns_delete_all: "aligns l [] (length l)"
  by (induction l rule: rev_induct) (auto intro: align_empty align_delete)

lemma aligns_insert_all: "aligns [] r (length r)"
  by (induction r rule: rev_induct) (auto intro: align_empty align_insert)

lemma aligns_length: "aligns l r n \<Longrightarrow> length l - length r \<le> n \<and> length r - length l \<le> n"
  by (induction rule: aligns.induct) auto

lemma least_cost_Nil: "least_cost l [] (length l)" "least_cost [] r (length r)"
  using aligns_delete_all aligns_insert_all aligns_length by (fastforce simp: least_cost_def)+

lemma least_cost_snoc:
  assumes "least_cost l (r @ [b]) d" "least_cost (l @ [a]) r i" "least_cost l r p"
  shows "least_cost (l @ [a]) (r @ [b]) (min (min (d + 1) (i + 1)) (p + (if a \<noteq> b then 1 else 0)))"
proof -
  let ?n = "min (min (d + 1) (i + 1)) (p + (if a \<noteq> b then 1 else 0))"
  have "aligns (l @ [a]) (r @ [b]) (Suc d)" "aligns (l @ [a]) (r @ [b]) (Suc i)"
    "aligns (l @ [a]) (r @ [b]) (p + (if a \<noteq> b then 1 else 0))"
    using align_delete align_insert align_pair [of l r p a b] assms unfolding least_cost_def by blast+
  then have "aligns (l @ [a]) (r @ [b]) ?n" by (simp add: min_def)
  moreover have "?n \<le> m" if "aligns (l @ [a]) (r @ [b]) m" for m
    using that assms by (cases rule: aligns_snocE) (fastforce simp: least_cost_def)+
  ultimately show ?thesis by (simp add: least_cost_def)
qed

text \<open>A row of the table holds the least costs for every prefix of the right text.\<close>

definition is_row :: "string \<Rightarrow> string \<Rightarrow> nat list \<Rightarrow> bool" where
  "is_row l r row \<longleftrightarrow> length row = length r + 1 \<and> (\<forall>j \<le> length r. least_cost l (take j r) (row ! j))"

lemma distance_row_correct:
  assumes "length ps = length rs" "\<And>j. j \<le> length rs \<Longrightarrow> least_cost l (pre @ take j rs) ((p0 # ps) ! j)" "least_cost (l @ [c]) pre before"
  shows "length (distance_row c rs (p0 # ps) before) = length rs \<and>
    (\<forall>j < length rs. least_cost (l @ [c]) (pre @ take (Suc j) rs) (distance_row c rs (p0 # ps) before ! j))"
  using assms
proof (induction rs arbitrary: ps p0 pre before)
  case (Cons r rs)
  obtain p1 ps' where ps: "ps = p1 # ps'" using Cons.prems(1) by (cases ps) auto
  let ?v = "min (min (p1 + 1) (before + 1)) (p0 + (if c \<noteq> r then 1 else 0))"
  have v: "least_cost (l @ [c]) (pre @ [r]) ?v"
    using least_cost_snoc [of l pre r p1 c before p0] Cons.prems(2) [of 0] Cons.prems(2) [of 1] Cons.prems(3) ps by simp
  have "least_cost l ((pre @ [r]) @ take j rs) ((p1 # ps') ! j)" if "j \<le> length rs" for j
    using Cons.prems(2) [of "Suc j"] that ps by simp
  then have ih: "length (distance_row c rs (p1 # ps') ?v) = length rs \<and>
      (\<forall>j < length rs. least_cost (l @ [c]) ((pre @ [r]) @ take (Suc j) rs) (distance_row c rs (p1 # ps') ?v ! j))"
    using Cons.IH [of ps' "pre @ [r]" p1 ?v] v Cons.prems(1) ps by simp
  have "least_cost (l @ [c]) (pre @ take (Suc j) (r # rs)) ((?v # distance_row c rs (p1 # ps') ?v) ! j)" if "j < length (r # rs)" for j
    using ih v that Cons.prems(1) ps by (cases j) auto
  then show ?case using ih Cons.prems(1) ps by (auto simp: Let_def)
qed simp

lemma distance_rows_correct:
  "is_row l r row \<Longrightarrow> is_row (l @ cs) r (distance_rows cs r (length l) row)"
proof (induction cs arbitrary: l row)
  case (Cons c cs)
  obtain p0 ps where row: "row = p0 # ps" "length ps = length r" using Cons.prems by (cases row) (auto simp: is_row_def)
  have before: "least_cost (l @ [c]) [] (length l + 1)" using least_cost_Nil(1) [of "l @ [c]"] by simp
  have next_row: "length (distance_row c r row (length l + 1)) = length r \<and>
      (\<forall>j < length r. least_cost (l @ [c]) (take (Suc j) r) (distance_row c r row (length l + 1) ! j))"
    using distance_row_correct [OF row(2) _ before, of p0] Cons.prems row(1) by (simp add: is_row_def)
  have "least_cost (l @ [c]) (take j r) (((length l + 1) # distance_row c r row (length l + 1)) ! j)" if "j \<le> length r" for j
    using next_row before that by (cases j) auto
  then have "is_row (l @ [c]) r ((length l + 1) # distance_row c r row (length l + 1))" using next_row by (simp add: is_row_def)
  then show ?case using Cons.IH [of "l @ [c]"] by simp
qed simp

text \<open>The table of \<open>edit_distance\<close> computes the least cost.\<close>

theorem edit_distance_least: "least_cost l r (edit_distance l r)"
proof -
  have "least_cost [] (take j r) ([0..<length r + 1] ! j)" if "j \<le> length r" for j
    using least_cost_Nil(2) [of "take j r"] that by (simp add: min_absorb2 del: upt_Suc)
  then have "is_row [] r [0..<length r + 1]" by (simp add: is_row_def del: upt_Suc)
  from distance_rows_correct [OF this, of l] show ?thesis by (auto simp: is_row_def edit_distance_def)
qed

lemma fold_closer:
  "case fold closer xs best of
     None \<Rightarrow> xs = [] \<and> best = None
   | Some b \<Rightarrow> (b \<in> set xs \<or> best = Some b) \<and> (\<forall>x \<in> set xs. fst b \<le> fst x) \<and> (\<forall>a. best = Some a \<longrightarrow> fst b \<le> fst a)"
proof (induction xs arbitrary: best)
  case Nil
  show ?case by (cases best) auto
next
  case (Cons x xs)
  obtain c where c: "closer x best = Some c" "c = x \<or> best = Some c" "fst c \<le> fst x" "\<And>a. best = Some a \<Longrightarrow> fst c \<le> fst a"
  proof (cases best)
    case (Some a)
    then show thesis using that [of "if fst x < fst a then x else a"] by (simp add: closer_def)
  qed (use that [of x] in \<open>simp add: closer_def\<close>)
  show ?case
  proof (cases "fold closer xs (Some c)")
    case (Some b)
    then have b: "b \<in> set xs \<or> c = b" "\<forall>x \<in> set xs. fst b \<le> fst x" "fst b \<le> fst c" using Cons.IH [of "Some c"] by auto
    show ?thesis using Some b c by (auto intro: order_trans)
  qed (use Cons.IH [of "Some c"] in simp)
qed

text \<open>A misspelt instruction is corrected to a known one at the least distance, which is at most two; there is no correction
  exactly when no instruction is that close.\<close>

theorem closest_instruction_least:
  "case closest_instruction value kb of
     Some name \<Rightarrow> name \<in> set (bt_keys (lang_instructions (language kb))) \<and> edit_distance value name \<le> 2 \<and>
       (\<forall>other \<in> set (bt_keys (lang_instructions (language kb))). edit_distance value name \<le> edit_distance value other)
   | None \<Rightarrow> \<forall>other \<in> set (bt_keys (lang_instructions (language kb))). 2 < edit_distance value other"
proof -
  let ?names = "bt_keys (lang_instructions (language kb))"
  let ?close = "filter (\<lambda>(distance, _). distance \<le> 2) (map (\<lambda>name. (edit_distance value name, name)) ?names)"
  show ?thesis
  proof (cases "fold closer ?close None")
    case None
    then have "?close = []" using fold_closer [of ?close None] by simp
    then have "\<forall>other \<in> set ?names. 2 < edit_distance value other" by (fastforce simp: filter_empty_conv)
    then show ?thesis using None by (simp add: closest_instruction_def)
  next
    case (Some b)
    then have b: "b \<in> set ?close" "\<forall>x \<in> set ?close. fst b \<le> fst x" using fold_closer [of ?close None] by auto
    then have "snd b \<in> set ?names" "fst b = edit_distance value (snd b)" "fst b \<le> 2" by force+
    moreover have "fst b \<le> edit_distance value other" if "other \<in> set ?names" for other
      using b that \<open>fst b \<le> 2\<close> by (cases "edit_distance value other \<le> 2") (force, simp)
    ultimately show ?thesis using Some by (simp add: closest_instruction_def)
  qed
qed

end
