(* ===== verification/Lua_Mock.thy ===== *)
theory Lua_Mock
  imports Instructions
begin

text \<open>
  The deterministic services of the Lua mock, \<open>crates/ic10-sim/src/lua_mock.rs\<close>: a virtual clock, a pseudo-random generator
  and persisted values. A persisted value is a JSON value, of which nothing is used: its type is a parameter. Whatever a
  program does, a reload or a power cycle starts the clock and the generator over and keeps the persisted values.
\<close>

section \<open>Model\<close>

datatype lua_mock_error = InvalidClockAdvance | MockUnsupported string

record virtual_clock =
  vc_now_seconds :: f64

definition clock_new :: virtual_clock where
  "clock_new = \<lparr>vc_now_seconds = f64_zero\<rparr>"

definition clock_advance :: "f64 \<Rightarrow> virtual_clock \<Rightarrow> (lua_mock_error, f64 \<times> virtual_clock) outcome" where
  "clock_advance seconds c =
     (if \<not> is_finite seconds \<or> f64_lt seconds f64_zero then Err InvalidClockAdvance
      else (let now = f64_add (vc_now_seconds c) seconds in Ok (now, c\<lparr>vc_now_seconds := now\<rparr>)))"

definition clock_reset :: "virtual_clock \<Rightarrow> virtual_clock" where
  "clock_reset c = c\<lparr>vc_now_seconds := f64_zero\<rparr>"

record deterministic_random =
  dr_seed :: u64
  dr_state :: u64

definition random_new :: "u64 \<Rightarrow> deterministic_random" where
  "random_new seed = (let s = (if seed = 0 then 0x9e3779b97f4a7c15 else seed) in \<lparr>dr_seed = s, dr_state = s\<rparr>)"

definition mock_shift :: "u64 \<Rightarrow> u64" where
  "mock_shift v0 =
     (let v1 = v0 XOR drop_bit 12 v0; v2 = v1 XOR push_bit 25 v1 in v2 XOR drop_bit 27 v2)"

definition next_u64 :: "deterministic_random \<Rightarrow> u64 \<times> deterministic_random" where
  "next_u64 r = (let value = mock_shift (dr_state r) in (value * 0x2545f4914f6cdd1d, r\<lparr>dr_state := value\<rparr>))"

definition next_unit :: "deterministic_random \<Rightarrow> f64 \<times> deterministic_random" where
  "next_unit r = (case next_u64 r of (v, r) \<Rightarrow> (f64_div (f64_of_u64 (drop_bit 11 v)) (f64_of_u64 (push_bit 53 1)), r))"

definition random_reset :: "deterministic_random \<Rightarrow> deterministic_random" where
  "random_reset r = r\<lparr>dr_state := dr_seed r\<rparr>"

type_synonym 'v persisted = "(string, 'v) btree_map"

definition persisted_get :: "'v persisted \<Rightarrow> string \<Rightarrow> 'v option" where
  "persisted_get p name = bt_get p name"

definition persisted_set :: "string \<Rightarrow> 'v \<Rightarrow> 'v persisted \<Rightarrow> 'v persisted" where
  "persisted_set name v p = bt_insert name v p"

definition persisted_remove :: "string \<Rightarrow> 'v persisted \<Rightarrow> 'v option \<times> 'v persisted" where
  "persisted_remove name p = (bt_get p name, bt_remove name p)"

record mock_lifecycle =
  ml_reloads :: u64
  ml_power_cycles :: u64

record 'v lua_mock =
  lm_state :: "'v persisted"
  lm_clock :: virtual_clock
  lm_random :: deterministic_random
  lm_lifecycle :: mock_lifecycle

definition mock_new :: "u64 \<Rightarrow> 'v persisted \<Rightarrow> 'v lua_mock" where
  "mock_new seed state = \<lparr>lm_state = state, lm_clock = clock_new, lm_random = random_new seed,
     lm_lifecycle = \<lparr>ml_reloads = 0, ml_power_cycles = 0\<rparr>\<rparr>"

definition mock_restart :: "'v lua_mock \<Rightarrow> 'v lua_mock" where
  "mock_restart m = m\<lparr>lm_clock := clock_reset (lm_clock m), lm_random := random_reset (lm_random m)\<rparr>"

definition mock_reload :: "'v lua_mock \<Rightarrow> 'v lua_mock" where
  "mock_reload m = mock_restart (m\<lparr>lm_lifecycle := (lm_lifecycle m)\<lparr>ml_reloads := ml_reloads (lm_lifecycle m) + 1\<rparr>\<rparr>)"

definition mock_power_cycle :: "'v lua_mock \<Rightarrow> 'v lua_mock" where
  "mock_power_cycle m = mock_restart (m\<lparr>lm_lifecycle := (lm_lifecycle m)\<lparr>ml_power_cycles := ml_power_cycles (lm_lifecycle m) + 1\<rparr>\<rparr>)"

section \<open>Restarting replays\<close>

datatype 'v mock_use =
    StepAdvance f64
  | StepRandom
  | StepUnit
  | StepSet string 'v
  | StepRemove string
  | StepReload
  | StepPowerCycle

text \<open>One use of the mock; an invalid advance changes nothing.\<close>

fun mock_step :: "'v mock_use \<Rightarrow> 'v lua_mock \<Rightarrow> 'v lua_mock" where
  "mock_step (StepAdvance seconds) m = (case clock_advance seconds (lm_clock m) of Ok (_, c) \<Rightarrow> m\<lparr>lm_clock := c\<rparr> | _ \<Rightarrow> m)"
| "mock_step StepRandom m = m\<lparr>lm_random := snd (next_u64 (lm_random m))\<rparr>"
| "mock_step StepUnit m = m\<lparr>lm_random := snd (next_unit (lm_random m))\<rparr>"
| "mock_step (StepSet name v) m = m\<lparr>lm_state := persisted_set name v (lm_state m)\<rparr>"
| "mock_step (StepRemove name) m = m\<lparr>lm_state := snd (persisted_remove name (lm_state m))\<rparr>"
| "mock_step StepReload m = mock_reload m"
| "mock_step StepPowerCycle m = mock_power_cycle m"

lemma mock_shift_0: "mock_shift v = 0 \<longleftrightarrow> v = 0"
proof
  assume "mock_shift v = 0"
  then have "(v XOR drop_bit 12 v) XOR push_bit 25 (v XOR drop_bit 12 v) = 0"
    unfolding mock_shift_def Let_def by (rule xor_drop_inj [rotated]) simp
  then have "v XOR drop_bit 12 v = 0" by (rule xor_push_inj [rotated]) simp
  then show "v = 0" by (rule xor_drop_inj [rotated]) simp
qed (simp add: mock_shift_def)

lemma step_keeps_seed: "dr_seed (lm_random (mock_step s m)) = dr_seed (lm_random m)"
  by (cases s) (auto simp: next_u64_def next_unit_def mock_reload_def mock_power_cycle_def mock_restart_def random_reset_def Let_def
      split: outcome.splits prod.splits)

lemma step_keeps_running:
  "dr_seed (lm_random m) \<noteq> 0 \<Longrightarrow> dr_state (lm_random m) \<noteq> 0 \<Longrightarrow> dr_state (lm_random (mock_step s m)) \<noteq> 0"
  by (cases s) (auto simp: next_u64_def next_unit_def mock_reload_def mock_power_cycle_def mock_restart_def random_reset_def Let_def
      mock_shift_0 split: outcome.splits prod.splits)

lemma steps_keep:
  "dr_seed (lm_random (fold mock_step steps m)) = dr_seed (lm_random m) \<and>
   (dr_seed (lm_random m) \<noteq> 0 \<longrightarrow> dr_state (lm_random m) \<noteq> 0 \<longrightarrow> dr_state (lm_random (fold mock_step steps m)) \<noteq> 0)"
  by (induction steps arbitrary: m) (auto simp: step_keeps_seed step_keeps_running)

text \<open>After any use of the mock, a reload or a power cycle gives the clock and the generator of a new mock with the same
  seed and leaves the persisted values as they are; the generator never gets stuck in the state zero.\<close>

theorem mock_replays:
  assumes "m = fold mock_step steps (mock_new seed state)"
  shows "lm_clock (mock_reload m) = clock_new \<and> lm_random (mock_reload m) = random_new seed \<and> lm_state (mock_reload m) = lm_state m \<and>
    lm_clock (mock_power_cycle m) = clock_new \<and> lm_random (mock_power_cycle m) = random_new seed \<and> lm_state (mock_power_cycle m) = lm_state m \<and>
    dr_state (lm_random m) \<noteq> 0"
  using steps_keep [of steps "mock_new seed state"]
  by (auto simp: assms mock_new_def random_new_def mock_reload_def mock_power_cycle_def mock_restart_def clock_reset_def random_reset_def
      clock_new_def Let_def)

end
