(* ===== verification/Spec2Isabelle.thy ===== *)
theory Spec2Isabelle
  imports Behaviour_Encoding Scheduler Build_Correct Format_Correct Test_Schema_Correct Test_Runner_Correct
    Debug_History_Correct Debug_Tools_Correct Server_Tasks_Correct Rename_Correct Lua_Mock
begin

text \<open>
  A verification library for the Rust tools of the Stationeers IC10 workspace: the language core and its analyser, the
  deterministic simulator, deployment builds, scenario tests, the debug adapter and the language server. All paths below are
  relative to \<open>src/crates\<close>.

  \<^bold>\<open>How the parts interact.\<close> A source is lexed, parsed and analysed (\<open>ic10-core\<close>) against the embedded language data
  (\<open>ic10-data\<close>). A program the analyser accepts is compiled to operations (\<open>ic10-sim/src/program.rs\<close>). A scenario
  describes networks, devices and the programs in their housings; from it the simulator builds a world, one IC or Lua
  runtime for every program, the behaviours of devices such as vending machines, and the order of the scheduler. In a world
  tick the machines are visited round robin, each within its budget of operations; when none can go on in this tick, the
  behaviours run and the next tick begins. Every access to a cell can be recorded in the effect journal, which
  the scripted drivers of tests, the data breakpoints and the reversible history of the debugger read. A test case
  (\<open>ic10-runner\<close>) drives a simulator tick by tick, evaluates assertions and gives a verdict. The language server
  (\<open>ic10-lsp\<close>) holds documents with their analysis, and validates them in the context of the scenarios that run them. A
  deployment build (\<open>ic10-build\<close>) shrinks a source and maps its lines back.

  \<^bold>\<open>Foundations.\<close>
  \<^item> \<open>Prelude\<close>: the outcome of a fallible computation (\<open>Ok\<close>, \<open>Err\<close>, \<open>Panic\<close>), state-passing programs with their sequencing, the
    judgements \<open>wp\<close> and \<open>safe\<close> and the collections of rules that carry the safety proofs.
  \<^item> \<open>Float64\<close>: \<open>f64\<close> as 64 bits with exact rounding; \<open>Rust_Text\<close>: \<open>str\<close> as its UTF-8 bytes, number parsers and printers.
  \<^item> \<open>BTree_Map\<close>: Rust's ordered maps. Their contract is the locale \<open>map_interface\<close>, interpreted as \<open>bt\<close>.

  \<^bold>\<open>Language.\<close>
  \<^item> \<open>Knowledge\<close>: the records and lookups of \<open>ic10-data/src/lib.rs\<close>.
  \<^item> \<open>Ic10_Core\<close>: tokens, literal macros, the checksum, packed strings, parsed lines and symbols of \<open>ic10-core/src/lib.rs\<close>.
    Lines are laid out as the tokenizer reads them, and rendered macros are read back.
  \<^item> \<open>Analysis\<close>, \<open>Analysis_Correct\<close>: \<open>ic10-core/src/analysis.rs\<close>. The analyser never panics; its reachability search and its
    cycle check agree with relations defined apart from it; accepted sources have the operands that execution indexes.
  \<^item> \<open>Source_Words\<close>, \<open>Format\<close>, \<open>Format_Correct\<close>: \<open>ic10-core/src/formatting.rs\<close>; formatting keeps every line's words.
  \<^item> \<open>Build\<close>, \<open>Build_Correct\<close>: \<open>ic10-build/src/lib.rs\<close>; what a readable build preserves, with
    branches classified as the simulator does, and fresh short aliases.

  \<^bold>\<open>Simulator\<close> (\<open>ic10-sim/src\<close>).
  \<^item> \<open>Journal\<close>: \<open>journal.rs\<close>. Interning satisfies the locale \<open>interner\<close> (interpreted as \<open>sym_table\<close>); the history
    of writes is a queue, from which a polling client gets every write exactly once.
  \<^item> \<open>World\<close>: \<open>world.rs\<close> and the specifications of \<open>scenario.rs\<close>; a world that can be built is well-formed.
  \<^item> \<open>Program\<close>: \<open>program.rs\<close>; \<open>Cpu\<close>, \<open>Execute\<close>: one IC and every instruction of \<open>simulator.rs\<close>. \<open>Execute_Safety\<close> and
    \<open>Instructions\<close> show that no instruction panics or breaks the invariant \<open>exec_inv\<close>, and what single instructions compute.
  \<^item> \<open>Behaviour\<close>, \<open>Behaviour_Encoding\<close>: \<open>behaviour.rs\<close>; safety, atomic moves of items, and an injective encoding of the state.
  \<^item> \<open>Vm\<close>: \<open>vm.rs\<close>. The trait \<open>VmHost\<close> is the locale \<open>vm_host\<close>, interpreted in \<open>Scheduler\<close> as \<open>machines\<close> on the simulator.
  \<^item> \<open>Simulator\<close>, \<open>Simulator_Safety\<close>, \<open>Scheduler\<close>: the state, steps, ticks and checkpoints of \<open>simulator.rs\<close> and the
    scheduler-facing methods of \<open>lua.rs\<close>. The invariant \<open>sim_inv\<close> is kept, a world tick ends within the budgets, ICs do not
    disturb each other, and checkpoints restore the state.
  \<^item> \<open>Scenario_Load\<close>, \<open>Scenario_Correct\<close>: \<open>from_scenario\<close>; a scenario that loads satisfies \<open>sim_inv\<close> and can be run.
  \<^item> \<open>Simulator_Tools\<close>, \<open>Simulator_Tools_Correct\<close>: cells set from outside, with the exact
    conditions of their panics, replayed effects and state hashes.
  \<^item> \<open>Lua_Mock\<close>: \<open>lua_mock.rs\<close>; the mock's clock, generator and persisted values.
  \<^item> \<open>Context\<close>, \<open>Context_Correct\<close>: \<open>context.rs\<close>; the index of contexts is exact, diagnostics of field
    accesses agree with the simulator, and completion agrees with validation.

  \<^bold>\<open>Tests, debugger and editor.\<close>
  \<^item> \<open>Evaluator\<close>, \<open>Script_Driver\<close>, \<open>Test_Schema\<close>, \<open>Test_Runner\<close>, each with a theory ending in \<open>_Correct\<close>: the files of
    \<open>ic10-runner/src\<close> with the same names (\<open>runner.rs\<close> for the last). Evaluation ends, pumping the drivers is bounded, the checks of a
    fixture are exact, every case gets a verdict, and a passed case upheld its assertions, up to a limit of the run below its ticks.
  \<^item> \<open>Debug_History\<close>, \<open>Debug_Tools\<close>, each with a theory ending in \<open>_Correct\<close>: \<open>ic10-dap/src/main.rs\<close>. The history is a bounded window, restoring
    replays exactly the recorded steps, handles, hit counts and data breakpoints mean what they say, and edits of variables fail
    as described.
  \<^item> \<open>Text_Positions\<close>, \<open>Language_Server\<close>, \<open>Language_Server_Correct\<close>, \<open>Rename_Correct\<close>: \<open>ic10-lsp/src/main.rs\<close>. Positions convert
    back, semantic tokens decode, renaming is exact, and corrections are the closest ones.
  \<^item> \<open>Server_Tasks\<close>, \<open>Server_Tasks_Correct\<close>: the handlers of the language server as tasks that are interleaved at their awaits. Run alone, a
    task is the handler of \<open>Language_Server\<close>; published diagnostics are reports of texts that were sent, current where handlers do
    not overlap; a refresh that overlaps a change undoes it.
  \<^item> This theory holds the property that joins the analyser, the compiler and execution.

  \<^bold>\<open>Conventions.\<close> Integers are words of the width the code gives them and wrap, as in a release build, except
    for \<open>usize\<close> counters of collections in memory, which are natural numbers. Indexing, \<open>expect\<close>, \<open>unwrap\<close> and
    slices inside a character are the outcome \<open>Panic\<close>. Texts are byte lists; white space is the ASCII one. The code of a
    language server handler between two awaits is one step.

  \<^bold>\<open>Bounds.\<close> Loops that do not follow a list have rounds, and the properties show that the rounds suffice.
  \<^item> A world tick has \<open>slots * (budget + 1) + 2\<close>: every visit executes an operation or retires a machine for the tick.
  \<^item> The test runner has \<open>unat max_operations + 2\<close> steps within a tick and \<open>unat max_ticks + 2\<close> ticks: the limits of the case
    end the loops before that.
  \<^item> Trimming the history to its memory limit has \<open>length checkpoints + 3\<close>: every round drops a checkpoint or stops.
  \<^item> Replaying up to a tick has one round for every tick still missing, and one more.

  \<^bold>\<open>Parameters.\<close> What is not in the sources is an argument: the platform's transcendental functions (\<open>libm\<close>), the Lua
  interpreter (\<open>lua_engine\<close>), the files and the embedded data (\<open>environment\<close>), the serialisation of driver state
  (\<open>driver_codec\<close>), the wall clock and the texts of errors (\<open>runner_host\<close>), the sizes of types in memory (\<open>layout\<close>), SHA-256,
  the version of the tool, the parser of scenario files and the resolution of program paths to URIs. Properties
  that rely on one name what they need of it as a hypothesis, with a concrete instance in the witness.

  \<^bold>\<open>Not modelled.\<close> JSON and its deserialisation, including the substitution of parameter sets in test cases; the Lua
  interpreter and the functions offered to Lua code; the messages and handlers of the debug adapter's protocol; the transport
  of the language server, hover texts and the texts of completion items; proposals for environments
  (\<open>environment_proposal.rs\<close>), which rest on Unicode case mapping and URLs; command lines and the discovery of files; the editor
  extension in TypeScript; game data and documents.
\<close>

section \<open>Accepted programs\<close>

text \<open>Well-formedness of a world depends on the device catalogue only.\<close>

lemma exec_inv_catalogue:
  assumes "device_list kb = device_list kb'"
  shows "exec_inv kb shape form x = exec_inv kb' shape form x"
proof -
  have "device_by_name kb = device_by_name kb'" by (intro ext) (simp only: device_by_name_def assms)
  then have "device_wf kb = device_wf kb'" by (intro ext) (simp only: device_wf_def)
  then show ?thesis by (simp add: exec_inv_def world_inv_def world_wf_def)
qed

lemma sample_accepted:
  "\<exists>p. compile_source ''a.ic10'' ''yield'' analysis_kb (''a.ic10'', []) = Ok p \<and>
     (0, \<lparr>o_line = 0, o_mnemonic = ''yield'', o_operands = []\<rparr>) \<in> set (p_operations p)"
  by (simp add: sample_compiled)

section \<open>Properties\<close>

text \<open>C2: What the analyser accepts runs without panics. In a program compiled from a source that the analyser accepts,
  against language data that lists the operands the simulator reads, every operation has the operands its
  implementation indexes, and executing it on a well-formed IC in a well-formed world never panics and keeps both
  well-formed.\<close>

theorem accepted_program_safe:
  assumes "compile_source path source kb mapping = Ok p" "operands_covered kb" "(k, op) \<in> set (p_operations p)"
    and "exec_inv kb shape form x" "execute_operation lm kb tick op actor x = (r, x')"
  shows "r \<noteq> Panic \<and> exec_inv kb shape form x'"
  using safeD(1,2) [OF safe_execute_operation [OF accepted_operands [OF assms(1-3)]] assms(4), of lm tick actor] assms(5) by simp

theorem accepted_program_safe_witness:
  "\<exists>p. compile_source ''a.ic10'' ''yield'' analysis_kb (''a.ic10'', []) = Ok p \<and>
     fst (execute_operation sample_libm analysis_kb 0 \<lparr>o_line = 0, o_mnemonic = ''yield'', o_operands = []\<rparr> ActorDebugger sample_exec) \<noteq> Panic"
proof -
  obtain p where p: "compile_source ''a.ic10'' ''yield'' analysis_kb (''a.ic10'', []) = Ok p"
    "(0, \<lparr>o_line = 0, o_mnemonic = ''yield'', o_operands = []\<rparr>) \<in> set (p_operations p)" using sample_accepted by blast
  have "device_list analysis_kb = device_list sample_kb" by (simp add: analysis_kb_def)
  then have "exec_inv analysis_kb (world_shape sample_world) (cpu_shape sample_cpu) sample_exec"
    using sample_exec_inv exec_inv_catalogue by blast
  from accepted_program_safe [OF p(1) analysis_kb_covered p(2) this prod.collapse [symmetric], of sample_libm 0 ActorDebugger]
  show ?thesis using p(1) by blast
qed

end
